(* ===== verification/Prelude.thy ===== *)
theory Prelude
  imports Main "HOL-Library.AList" "HOL-Library.List_Lexorder" "HOL-Library.Char_ord"
    "HOL-Library.Sublist" "HOL-Library.Word"
begin

text \<open>
  Shared vocabulary of the development: the bounds of Rust's unsigned integers and the
  checked, saturating and wrapping operations on them, the string functions the solver uses
  (\<^verbatim>\<open>split\<close>, \<^verbatim>\<open>starts_with\<close>, \<^verbatim>\<open>contains\<close>, \<^verbatim>\<open>to_lowercase\<close>, decimal and hexadecimal
  printing), JSON values as index values, Rust's \<^verbatim>\<open>HashMap\<close> entry API on association lists,
  and \<^verbatim>\<open>BTreeMap\<close> as a key-sorted association list.  Integers of the source are natural
  numbers; where an operation can leave the range of its type the wrap-around, the saturation
  or the failure is written out.
\<close>

named_theorems rust_arith
  \<open>definitions of the checked, saturating and wrapping operations\<close>

section \<open>Results\<close>

text \<open>\<open>Result<T, E>\<close>: \<open>Inl\<close> is \<open>Err\<close> and \<open>Inr\<close> is \<open>Ok\<close>.\<close>

type_synonym ('e, 'a) result = "'e + 'a"

definition is_ok :: "('e, 'a) result \<Rightarrow> bool" where
  "is_ok r = (case r of Inl _ \<Rightarrow> False | Inr _ \<Rightarrow> True)"

lemma is_ok_simps [simp]: "is_ok (Inr a)" "\<not> is_ok (Inl e)"
  by (simp_all add: is_ok_def)

section \<open>Machine integers\<close>

abbreviation u32_bound :: nat where "u32_bound \<equiv> 2 ^ 32"
abbreviation u64_bound :: nat where "u64_bound \<equiv> 2 ^ 64"
abbreviation u128_bound :: nat where "u128_bound \<equiv> 2 ^ 128"
abbreviation u256_bound :: nat where "u256_bound \<equiv> 2 ^ 256"

definition checked_add :: "nat \<Rightarrow> nat \<Rightarrow> nat \<Rightarrow> nat option" where
  [rust_arith]: "checked_add bound a b = (if a + b < bound then Some (a + b) else None)"

definition checked_sub :: "nat \<Rightarrow> nat \<Rightarrow> nat option" where
  [rust_arith]: "checked_sub a b = (if b \<le> a then Some (a - b) else None)"

definition checked_mul :: "nat \<Rightarrow> nat \<Rightarrow> nat \<Rightarrow> nat option" where
  [rust_arith]: "checked_mul bound a b = (if a * b < bound then Some (a * b) else None)"

definition saturating_add :: "nat \<Rightarrow> nat \<Rightarrow> nat \<Rightarrow> nat" where
  [rust_arith]: "saturating_add bound a b = min (a + b) (bound - 1)"

definition saturating_mul :: "nat \<Rightarrow> nat \<Rightarrow> nat \<Rightarrow> nat" where
  [rust_arith]: "saturating_mul bound a b = min (a * b) (bound - 1)"

definition wrapping_add :: "nat \<Rightarrow> nat \<Rightarrow> nat \<Rightarrow> nat" where
  [rust_arith]: "wrapping_add bound a b = (a + b) mod bound"

lemma checked_add_Some:
  "checked_add bound a b = Some c \<longleftrightarrow> c = a + b \<and> a + b < bound"
  by (auto simp: checked_add_def)

lemma checked_sub_Some: "checked_sub a b = Some c \<longleftrightarrow> b \<le> a \<and> c = a - b"
  by (auto simp: checked_sub_def)

lemma checked_mul_Some:
  "checked_mul bound a b = Some c \<longleftrightarrow> c = a * b \<and> a * b < bound"
  by (auto simp: checked_mul_def)

lemmas checked_Some = checked_add_Some checked_sub_Some checked_mul_Some

text \<open>Byte vectors: addresses, transaction hashes, calldata.\<close>

type_synonym bytes = "8 word list"

section \<open>Strings\<close>

definition starts_with :: "string \<Rightarrow> string \<Rightarrow> bool" where
  "starts_with p s = prefix p s"

fun str_contains :: "string \<Rightarrow> string \<Rightarrow> bool" where
  "str_contains p [] = (p = [])"
| "str_contains p (c # s) = (prefix p (c # s) \<or> str_contains p s)"

text \<open>\<open>str::split(c)\<close>: the pieces between separators, one more than there are separators.\<close>

fun split_on :: "char \<Rightarrow> string \<Rightarrow> string list" where
  "split_on c [] = [[]]"
| "split_on c (x # xs) =
     (if x = c then [] # split_on c xs
      else (case split_on c xs of [] \<Rightarrow> [[x]] | y # ys \<Rightarrow> (x # y) # ys))"

lemma split_on_not_Nil [simp]: "split_on c s \<noteq> []"
  by (induction s) (auto split: list.splits)

lemma split_on_no_sep: "c \<notin> set s \<Longrightarrow> split_on c s = [s]"
  by (induction s) auto

lemma split_on_append_sep: "c \<notin> set s \<Longrightarrow> split_on c (s @ c # t) = s # split_on c t"
  by (induction s) auto

lemma hd_split_on_iff: "hd (split_on c s) = s \<longleftrightarrow> c \<notin> set s"
  by (induction s) (auto split: list.splits)

lemma hd_split_on_append: "hd (split_on c (s @ c # t)) = hd (split_on c s)"
  by (induction s) (auto split: list.splits)

text \<open>Lower-casing of ASCII letters, the only letters in hexadecimal addresses and RPC messages.\<close>

definition lower_char :: "char \<Rightarrow> char" where
  "lower_char c =
     (if 65 \<le> (of_char c :: nat) \<and> (of_char c :: nat) \<le> 90 then char_of ((of_char c :: nat) + 32) else c)"

definition to_lowercase :: "string \<Rightarrow> string" where
  "to_lowercase s = map lower_char s"

lemma lower_char_colon [simp]: "lower_char c = CHR '':'' \<longleftrightarrow> c = CHR '':''"
proof
  assume "lower_char c = CHR '':''"
  then have "of_char (lower_char c) = (58::nat)" by simp
  then have "of_char c = (of_char (CHR '':'') :: nat)"
    by (auto simp: lower_char_def split: if_splits)
  then show "c = CHR '':''" by (simp only: of_char_eq_iff)
qed (simp add: lower_char_def)

lemma colon_in_to_lowercase [simp]:
  "CHR '':'' \<in> set (to_lowercase s) \<longleftrightarrow> CHR '':'' \<in> set s"
proof
  assume "CHR '':'' \<in> set (to_lowercase s)"
  then obtain c where "c \<in> set s" "lower_char c = CHR '':''"
    unfolding to_lowercase_def by (metis imageE set_map)
  then show "CHR '':'' \<in> set s" by simp
next
  assume "CHR '':'' \<in> set s"
  moreover have "lower_char (CHR '':'') = CHR '':''" by simp
  ultimately show "CHR '':'' \<in> set (to_lowercase s)"
    unfolding to_lowercase_def by (metis imageI set_map)
qed

section \<open>Printing numbers\<close>

definition digit_char :: "nat \<Rightarrow> char" where
  "digit_char d = (if d < 10 then char_of (48 + d) else char_of (87 + d))"

function nat_digits :: "nat \<Rightarrow> nat \<Rightarrow> nat list" where
  "nat_digits b n = (if b < 2 \<or> n < b then [n] else nat_digits b (n div b) @ [n mod b])"
  by pat_completeness auto
termination
  by (relation "measure snd") auto

declare nat_digits.simps [simp del]

definition to_dec :: "nat \<Rightarrow> string" where
  "to_dec n = map digit_char (nat_digits 10 n)"

definition to_hex :: "nat \<Rightarrow> string" where
  "to_hex n = map digit_char (nat_digits 16 n)"

definition digits_value :: "nat \<Rightarrow> nat list \<Rightarrow> nat" where
  "digits_value b ds = foldl (\<lambda>acc d. acc * b + d) 0 ds"

lemma digits_value_nat_digits: "2 \<le> b \<Longrightarrow> digits_value b (nat_digits b n) = n"
proof (induction b n rule: nat_digits.induct)
  case (1 b n)
  then show ?case
    by (cases "n < b") (auto simp: digits_value_def nat_digits.simps [of b n])
qed

lemma nat_digits_less: "2 \<le> b \<Longrightarrow> d \<in> set (nat_digits b n) \<Longrightarrow> d < b"
proof (induction b n rule: nat_digits.induct)
  case (1 b n)
  then show ?case
    by (cases "n < b") (auto simp: nat_digits.simps [of b n])
qed

lemma of_char_digit_char:
  "d < 16 \<Longrightarrow> of_char (digit_char d) = (if d < 10 then 48 + d else 87 + d)"
  by (simp add: digit_char_def)

lemma digit_char_inj: "inj_on digit_char {..<16}"
proof (rule inj_onI)
  fix x y assume "x \<in> {..<16}" "y \<in> {..<16}" "digit_char x = digit_char y"
  then have "(if x < 10 then 48 + x else 87 + x) = (if y < 10 then 48 + y else 87 + y)"
    using of_char_digit_char [of x] of_char_digit_char [of y] by simp
  then show "x = y" by (auto split: if_splits)
qed

lemma digits_text_inj:
  assumes "2 \<le> b" "b \<le> 16"
    and eq: "map digit_char (nat_digits b m) = map digit_char (nat_digits b n)"
  shows "m = n"
proof -
  have "set (nat_digits b m) \<union> set (nat_digits b n) \<subseteq> {..<16}"
    using nat_digits_less [OF assms(1)] assms(2) by fastforce
  then have "nat_digits b m = nat_digits b n"
    using eq inj_on_map_eq_map [OF inj_on_subset [OF digit_char_inj]] by blast
  then show ?thesis using digits_value_nat_digits [OF assms(1)] by metis
qed

lemma to_dec_inj [simp]: "to_dec m = to_dec n \<longleftrightarrow> m = n"
  using digits_text_inj [of 10 m n] by (auto simp: to_dec_def)

lemma to_hex_inj [simp]: "to_hex m = to_hex n \<longleftrightarrow> m = n"
  using digits_text_inj [of 16 m n] by (auto simp: to_hex_def)

lemma digit_char_not_colon: "d < 16 \<Longrightarrow> digit_char d \<noteq> CHR '':''"
  using of_char_digit_char [of d] by (auto split: if_splits)

lemma colon_notin_to_dec [simp]: "CHR '':'' \<notin> set (to_dec n)"
proof
  assume "CHR '':'' \<in> set (to_dec n)"
  then obtain d where d: "d \<in> set (nat_digits 10 n)" "digit_char d = CHR '':''"
    by (auto simp: to_dec_def)
  from d(1) have "d < 16" using nat_digits_less [of 10 d n] by simp
  with d(2) show False using digit_char_not_colon by blast
qed

section \<open>Parsing numbers\<close>

text \<open>
  \<open>str::parse\<close> for an unsigned integer type: an optional plus sign and at least one decimal
  digit, the value below the bound of the type; the errors are those of \<^verbatim>\<open>ParseIntError\<close>.
\<close>

definition digit_of :: "char \<Rightarrow> nat option" where
  "digit_of c =
     (let n = of_char c :: nat in if 48 \<le> n \<and> n \<le> 57 then Some (n - 48) else None)"

fun parse_digits :: "nat \<Rightarrow> nat \<Rightarrow> string \<Rightarrow> (string, nat) result" where
  "parse_digits bound acc [] = Inr acc"
| "parse_digits bound acc (c # s) =
     (case digit_of c of
        None \<Rightarrow> Inl ''invalid digit found in string''
      | Some d \<Rightarrow>
          if acc * 10 + d < bound then parse_digits bound (acc * 10 + d) s
          else Inl ''number too large to fit in target type'')"

definition parse_uint :: "nat \<Rightarrow> string \<Rightarrow> (string, nat) result" where
  "parse_uint bound s =
     (case s of
        [] \<Rightarrow> Inl ''cannot parse integer from empty string''
      | c # rest \<Rightarrow>
          if c = CHR ''+'' \<and> rest \<noteq> [] then parse_digits bound 0 rest
          else parse_digits bound 0 s)"

definition result_ok :: "('e, 'a) result \<Rightarrow> 'a option" where
  "result_ok r = (case r of Inl _ \<Rightarrow> None | Inr a \<Rightarrow> Some a)"

lemma result_ok_simps [simp]: "result_ok (Inl e) = None" "result_ok (Inr a) = Some a"
  by (simp_all add: result_ok_def)

lemma parse_digits_bound: "parse_digits bound acc s = Inr n \<Longrightarrow> acc < bound \<Longrightarrow> n < bound"
  by (induction bound acc s rule: parse_digits.induct) (auto split: option.splits if_splits)

lemma parse_uint_bound: "parse_uint bound s = Inr n \<Longrightarrow> 0 < bound \<Longrightarrow> n < bound"
  by (auto simp: parse_uint_def simp del: parse_digits.simps split: list.splits if_splits
      dest: parse_digits_bound)

text \<open>Printing and parsing are inverse on numbers of the type.\<close>

lemma digit_of_digit_char: "d < 10 \<Longrightarrow> digit_of (digit_char d) = Some d"
  using of_char_digit_char [of d] by (simp add: digit_of_def)

lemma parse_digits_append:
  "parse_digits bound acc (s @ t) =
     (case parse_digits bound acc s of Inl e \<Rightarrow> Inl e | Inr n \<Rightarrow> parse_digits bound n t)"
  by (induction bound acc s rule: parse_digits.induct) (auto split: option.splits)

lemma parse_digits_to_dec: "n < bound \<Longrightarrow> parse_digits bound 0 (to_dec n) = Inr n"
proof (induction n rule: less_induct)
  case (less n)
  show ?case
  proof (cases "n < 10")
    case True
    then show ?thesis using less.prems
      by (simp add: to_dec_def nat_digits.simps [of 10 n] digit_of_digit_char)
  next
    case False
    then have "to_dec n = to_dec (n div 10) @ [digit_char (n mod 10)]"
      by (simp add: to_dec_def nat_digits.simps [of 10 n])
    moreover have "parse_digits bound 0 (to_dec (n div 10)) = Inr (n div 10)"
      using less False by simp
    ultimately show ?thesis using less.prems by (simp add: parse_digits_append digit_of_digit_char)
  qed
qed

lemma to_dec_not_Nil [simp]: "to_dec n \<noteq> []"
  by (simp add: to_dec_def nat_digits.simps [of 10 n])

lemma plus_notin_to_dec: "hd (to_dec n) \<noteq> CHR ''+''"
proof
  assume "hd (to_dec n) = CHR ''+''"
  then have "CHR ''+'' \<in> set (to_dec n)" using to_dec_not_Nil by (metis list.set_sel(1))
  then obtain d where d: "d \<in> set (nat_digits 10 n)" "digit_char d = CHR ''+''"
    by (auto simp: to_dec_def)
  from d(1) have "d < 10" using nat_digits_less [of 10 d n] by simp
  then have "digit_of (CHR ''+'') = Some d" using d(2) digit_of_digit_char by metis
  then show False by (simp add: digit_of_def)
qed

lemma parse_uint_to_dec: "n < bound \<Longrightarrow> parse_uint bound (to_dec n) = Inr n"
  using parse_digits_to_dec [of n bound] plus_notin_to_dec [of n]
  by (auto simp: parse_uint_def split: list.splits)

section \<open>JSON values\<close>

text \<open>
  \<open>serde_json::Value\<close>, of which storage only uses equality.  Floating-point numbers never
  occur as index values and are left out.
\<close>

datatype json =
    JNull | JBool bool | JNumber int | JString string
  | JArray "json list" | JObject "(string \<times> json) list"

section \<open>HashMap entries on association lists\<close>

text \<open>
  \<open>map.entry(k).or_default()\<close> followed by an in-place change of the entry.
\<close>

definition entry_update :: "'k \<Rightarrow> 'v \<Rightarrow> ('v \<Rightarrow> 'v) \<Rightarrow> ('k \<times> 'v) list \<Rightarrow> ('k \<times> 'v) list" where
  "entry_update k d f m =
     AList.update k (f (case map_of m k of None \<Rightarrow> d | Some v \<Rightarrow> v)) m"

text \<open>\<open>values_mut\<close> and \<open>retain\<close>.\<close>

definition map_values :: "('v \<Rightarrow> 'w) \<Rightarrow> ('k \<times> 'v) list \<Rightarrow> ('k \<times> 'w) list" where
  "map_values f m = map (\<lambda>(k, v). (k, f v)) m"

definition retain :: "('k \<Rightarrow> 'v \<Rightarrow> bool) \<Rightarrow> ('k \<times> 'v) list \<Rightarrow> ('k \<times> 'v) list" where
  "retain p m = filter (\<lambda>(k, v). p k v) m"

lemma map_of_map_values [simp]: "map_of (map_values f m) k = map_option f (map_of m k)"
  by (induction m) (auto simp: map_values_def)

lemma map_of_retain:
  "distinct (map fst m) \<Longrightarrow>
   map_of (retain p m) k = (case map_of m k of None \<Rightarrow> None | Some v \<Rightarrow> if p k v then Some v else None)"
proof (induction m)
  case (Cons a m)
  obtain k' v where a: "a = (k', v)" by (cases a)
  have "k = k' \<Longrightarrow> map_of m k = None" using Cons.prems a by (simp add: map_of_eq_None_iff)
  then show ?case using Cons a by (auto simp: retain_def split: option.splits)
qed (simp add: retain_def)

lemma keys_map_values [simp]: "map fst (map_values f m) = map fst m"
  by (induction m) (auto simp: map_values_def)

lemma distinct_keys_retain: "distinct (map fst m) \<Longrightarrow> distinct (map fst (retain p m))"
  by (simp add: retain_def distinct_map_filter)

lemma set_retain [simp]: "set (retain p m) = {(k, v) \<in> set m. p k v}"
  by (auto simp: retain_def)

lemma retain_simps [simp]:
  "retain p [] = []"
  "retain p ((k, v) # m) = (if p k v then (k, v) # retain p m else retain p m)"
  by (simp_all add: retain_def)

lemma map_values_simps [simp]:
  "map_values f [] = []"
  "map_values f ((k, v) # m) = (k, f v) # map_values f m"
  by (simp_all add: map_values_def)

lemma map_of_entry_update [simp]:
  "map_of (entry_update k d f m) k' =
     (if k' = k then Some (f (case map_of m k of None \<Rightarrow> d | Some v \<Rightarrow> v)) else map_of m k')"
  by (simp add: entry_update_def update_conv')

lemma distinct_entry_update:
  "distinct (map fst m) \<Longrightarrow> distinct (map fst (entry_update k d f m))"
  by (simp add: entry_update_def distinct_update)

section \<open>BTreeMap\<close>

text \<open>A map kept sorted by key; iteration is in key order.\<close>

fun bt_insert :: "'k::linorder \<Rightarrow> 'v \<Rightarrow> ('k \<times> 'v) list \<Rightarrow> ('k \<times> 'v) list" where
  "bt_insert k v [] = [(k, v)]"
| "bt_insert k v ((k', v') # m) =
     (if k < k' then (k, v) # (k', v') # m
      else if k = k' then (k, v) # m
      else (k', v') # bt_insert k v m)"

definition bt_remove :: "'k \<Rightarrow> ('k \<times> 'v) list \<Rightarrow> ('k \<times> 'v) list" where
  "bt_remove k m = retain (\<lambda>k' _. k' \<noteq> k) m"

definition bt_ok :: "('k::linorder \<times> 'v) list \<Rightarrow> bool" where
  "bt_ok m = (sorted (map fst m) \<and> distinct (map fst m))"

lemma bt_ok_simps [simp]:
  "bt_ok []"
  "bt_ok ((k, v) # m) \<longleftrightarrow> (\<forall>x \<in> fst ` set m. k < x) \<and> bt_ok m"
  by (auto simp: bt_ok_def less_le)

lemma set_keys_bt_insert [simp]: "fst ` set (bt_insert k v m) = insert k (fst ` set m)"
  by (induction k v m rule: bt_insert.induct) auto

lemma bt_ok_insert [intro]: "bt_ok m \<Longrightarrow> bt_ok (bt_insert k v m)"
  by (induction k v m rule: bt_insert.induct) auto

lemma bt_ok_retain [intro]: "bt_ok m \<Longrightarrow> bt_ok (retain p m)"
  by (induction m) fastforce+

lemma bt_ok_remove [intro]: "bt_ok m \<Longrightarrow> bt_ok (bt_remove k m)"
  by (simp add: bt_remove_def bt_ok_retain)

lemma bt_ok_distinct: "bt_ok m \<Longrightarrow> distinct (map fst m)"
  by (simp add: bt_ok_def)

lemma map_of_bt_insert [simp]: "bt_ok m \<Longrightarrow> map_of (bt_insert k v m) = (map_of m)(k \<mapsto> v)"
  by (induction k v m rule: bt_insert.induct) (auto simp: fun_eq_iff)

lemma map_of_bt_remove: "bt_ok m \<Longrightarrow> map_of (bt_remove k m) = (map_of m)(k := None)"
  by (auto simp: bt_remove_def map_of_retain [OF bt_ok_distinct] fun_eq_iff split: option.splits)

end
