(* ===== verification/Order_Types.thy ===== *)
theory Order_Types
  imports Prelude
begin

text \<open>
  The order and its parts: \<^verbatim>\<open>crates/solver-types/src/order.rs\<close>, the transaction types of
  \<^verbatim>\<open>events.rs\<close>, the storage namespaces of \<^verbatim>\<open>storage.rs\<close> and the EIP-7683 order data of
  \<^verbatim>\<open>standards/eip7683.rs\<close>.
\<close>

section \<open>Data\<close>

datatype transaction_type =
  Prepare | Fill | PostFill | PreClaim | Claim | Approval | Withdrawal | Bridge | Pusher

datatype order_status =
    Created | Pending | Executing | Executed | PostFilled | PreClaimed | Settled | Finalized
  | Failed transaction_type string

datatype storage_key =
  Orders | Intents | OrderByTxHash | Quotes | SettlementMessages | TransactionAttempts

fun storage_key_str :: "storage_key \<Rightarrow> string" where
  "storage_key_str Orders = ''orders''"
| "storage_key_str Intents = ''intents''"
| "storage_key_str OrderByTxHash = ''order_by_tx_hash''"
| "storage_key_str Quotes = ''quotes''"
| "storage_key_str SettlementMessages = ''settlement_messages''"
| "storage_key_str TransactionAttempts = ''transaction_attempts''"

definition storage_key_from_str :: "string \<Rightarrow> storage_key option" where
  "storage_key_from_str s =
     (if s = ''orders'' then Some Orders
      else if s = ''intents'' then Some Intents
      else if s = ''order_by_tx_hash'' then Some OrderByTxHash
      else if s = ''quotes'' then Some Quotes
      else if s = ''settlement_messages'' then Some SettlementMessages
      else if s = ''transaction_attempts'' then Some TransactionAttempts
      else None)"

record chain_settler_info =
  csi_chain_id :: nat
  csi_settler_address :: bytes

record execution_params =
  gas_price :: nat
  priority_fee :: "nat option"

record fill_proof =
  fp_tx_hash :: bytes
  fp_block_number :: nat
  fp_attestation_data :: "bytes option"
  fp_filled_timestamp :: nat
  fp_oracle_address :: string

record order =
  order_id :: string
  standard :: string
  created_at :: nat
  updated_at :: nat
  status :: order_status
  data :: json
  solver_address :: bytes
  quote_id :: "string option"
  input_chains :: "chain_settler_info list"
  output_chains :: "chain_settler_info list"
  order_execution_params :: "execution_params option"
  prepare_tx_hash :: "bytes option"
  fill_tx_hash :: "bytes option"
  fill_tx_hashes :: "bytes list"
  expected_fill_tx_count :: "nat option"
  post_fill_tx_hash :: "bytes option"
  pre_claim_tx_hash :: "bytes option"
  claim_tx_hash :: "bytes option"
  claim_tx_hashes :: "bytes list"
  expected_claim_tx_count :: "nat option"
  order_fill_proof :: "fill_proof option"
  settlement_name :: "string option"

section \<open>Transaction hashes of an order\<close>

definition fill_transaction_hashes :: "order \<Rightarrow> bytes list" where
  "fill_transaction_hashes ord =
     (if fill_tx_hashes ord = [] then (case fill_tx_hash ord of None \<Rightarrow> [] | Some h \<Rightarrow> [h])
      else fill_tx_hashes ord)"

definition expected_fill_transaction_count :: "order \<Rightarrow> nat" where
  "expected_fill_transaction_count ord =
     (case expected_fill_tx_count ord of
        Some n \<Rightarrow> n
      | None \<Rightarrow> max (length (fill_transaction_hashes ord)) 1)"

definition add_fill_transaction_hash :: "bytes \<Rightarrow> order \<Rightarrow> order" where
  "add_fill_transaction_hash h ord =
     (let ord1 = (if fill_tx_hash ord = None then ord\<lparr>fill_tx_hash := Some h\<rparr> else ord)
      in if h \<notin> set (fill_tx_hashes ord1) then ord1\<lparr>fill_tx_hashes := fill_tx_hashes ord1 @ [h]\<rparr>
         else ord1)"

definition set_fill_transaction_hash :: "bytes \<Rightarrow> order \<Rightarrow> order" where
  "set_fill_transaction_hash h ord =
     (if (case expected_fill_tx_count ord of Some count \<Rightarrow> count > 1 | None \<Rightarrow> False)
      then add_fill_transaction_hash h ord
      else ord\<lparr>fill_tx_hash := Some h, fill_tx_hashes := [h]\<rparr>)"

definition claim_transaction_hashes :: "order \<Rightarrow> bytes list" where
  "claim_transaction_hashes ord =
     (if claim_tx_hashes ord = [] then (case claim_tx_hash ord of None \<Rightarrow> [] | Some h \<Rightarrow> [h])
      else claim_tx_hashes ord)"

definition expected_claim_transaction_count :: "order \<Rightarrow> nat" where
  "expected_claim_transaction_count ord =
     (case expected_claim_tx_count ord of
        Some n \<Rightarrow> n
      | None \<Rightarrow> max (length (claim_transaction_hashes ord)) 1)"

definition add_claim_transaction_hash :: "bytes \<Rightarrow> order \<Rightarrow> order" where
  "add_claim_transaction_hash h ord =
     (let ord1 = (if claim_tx_hash ord = None then ord\<lparr>claim_tx_hash := Some h\<rparr> else ord)
      in if h \<notin> set (claim_tx_hashes ord1) then ord1\<lparr>claim_tx_hashes := claim_tx_hashes ord1 @ [h]\<rparr>
         else ord1)"

definition set_claim_transaction_hash :: "bytes \<Rightarrow> order \<Rightarrow> order" where
  "set_claim_transaction_hash h ord =
     (if (case expected_claim_tx_count ord of Some count \<Rightarrow> count > 1 | None \<Rightarrow> False)
      then add_claim_transaction_hash h ord
      else ord\<lparr>claim_tx_hash := Some h, claim_tx_hashes := [h]\<rparr>)"

section \<open>Statuses as index values\<close>

fun status_kind_index_value :: "order_status \<Rightarrow> string" where
  "status_kind_index_value Created = ''created''"
| "status_kind_index_value Pending = ''pending''"
| "status_kind_index_value Executing = ''executing''"
| "status_kind_index_value Executed = ''executed''"
| "status_kind_index_value PostFilled = ''post_filled''"
| "status_kind_index_value PreClaimed = ''pre_claimed''"
| "status_kind_index_value Settled = ''settled''"
| "status_kind_index_value Finalized = ''finalized''"
| "status_kind_index_value (Failed _ _) = ''failed''"

definition is_terminal :: "order_status \<Rightarrow> bool" where
  "is_terminal st = (case st of Finalized \<Rightarrow> True | Failed _ _ \<Rightarrow> True | _ \<Rightarrow> False)"

section \<open>EIP-7683 order data\<close>

datatype lock_type = Permit2Escrow | Eip3009Escrow | ResourceLock

fun lock_type_from_u8 :: "nat \<Rightarrow> lock_type option" where
  "lock_type_from_u8 n =
     (if n = 1 then Some Permit2Escrow else if n = 2 then Some Eip3009Escrow
      else if n = 3 then Some ResourceLock else None)"

fun lock_type_to_u8 :: "lock_type \<Rightarrow> nat" where
  "lock_type_to_u8 Permit2Escrow = 1"
| "lock_type_to_u8 Eip3009Escrow = 2"
| "lock_type_to_u8 ResourceLock = 3"

definition is_compact :: "lock_type \<Rightarrow> bool" where
  "is_compact t = (t = ResourceLock)"

definition is_escrow :: "lock_type \<Rightarrow> bool" where
  "is_escrow t = (t = Permit2Escrow \<or> t = Eip3009Escrow)"

fun lock_type_str :: "lock_type \<Rightarrow> string" where
  "lock_type_str Permit2Escrow = ''permit2_escrow''"
| "lock_type_str Eip3009Escrow = ''eip3009_escrow''"
| "lock_type_str ResourceLock = ''resource_lock''"

definition lock_type_from_str :: "string \<Rightarrow> (string, lock_type) result" where
  "lock_type_from_str s =
     (if s = ''permit2_escrow'' then Inr Permit2Escrow
      else if s = ''eip3009_escrow'' then Inr Eip3009Escrow
      else if s = ''resource_lock'' then Inr ResourceLock
      else if s = ''1'' then Inr Permit2Escrow
      else if s = ''2'' then Inr Eip3009Escrow
      else if s = ''3'' then Inr ResourceLock
      else Inl (''Invalid lock type: '' @ s))"

record mandate_output =
  mo_oracle :: bytes
  mo_settler :: bytes
  mo_chain_id :: nat
  mo_token :: bytes
  mo_amount :: nat
  mo_recipient :: bytes
  mo_call :: bytes
  mo_context :: bytes

record eip7683_order_data =
  eod_user :: string
  eod_nonce :: nat
  eod_origin_chain_id :: nat
  eod_expires :: nat
  eod_fill_deadline :: nat
  eod_input_oracle :: string
  eod_inputs :: "(nat \<times> nat) list"
  eod_order_id :: bytes
  eod_settle_gas_limit :: "nat option"
  eod_fill_gas_limit :: "nat option"
  eod_prepare_gas_limit :: "nat option"
  eod_outputs :: "mandate_output list"
  eod_raw_order_data :: "string option"
  eod_signature :: "string option"
  eod_sponsor :: "string option"
  eod_lock_type :: "lock_type option"

text \<open>\<open>u64::try_from(U256)\<close>\<close>

definition u64_try_from :: "nat \<Rightarrow> nat option" where
  "u64_try_from n = (if n < u64_bound then Some n else None)"

section \<open>Lemmas\<close>

lemma add_fill_keeps:
  "status (add_fill_transaction_hash h ord) = status ord"
  "order_id (add_fill_transaction_hash h ord) = order_id ord"
  by (simp_all add: add_fill_transaction_hash_def Let_def)

lemma set_fill_keeps [simp]:
  "status (set_fill_transaction_hash h ord) = status ord"
  "order_id (set_fill_transaction_hash h ord) = order_id ord"
  by (simp_all add: set_fill_transaction_hash_def add_fill_keeps)

lemma add_claim_keeps:
  "status (add_claim_transaction_hash h ord) = status ord"
  "order_id (add_claim_transaction_hash h ord) = order_id ord"
  by (simp_all add: add_claim_transaction_hash_def Let_def)

lemma set_claim_keeps [simp]:
  "status (set_claim_transaction_hash h ord) = status ord"
  "order_id (set_claim_transaction_hash h ord) = order_id ord"
  by (simp_all add: set_claim_transaction_hash_def add_claim_keeps)

text \<open>A set of hashes stays free of duplicates and always contains what was recorded.\<close>

lemma add_fill_hashes:
  assumes "distinct (fill_tx_hashes ord)" "fill_tx_hashes ord = [] \<longrightarrow> fill_tx_hash ord = None"
  shows "distinct (fill_tx_hashes (add_fill_transaction_hash h ord))"
    and "set (fill_transaction_hashes (add_fill_transaction_hash h ord)) =
      insert h (set (fill_transaction_hashes ord))"
  using assms
  by (auto simp: add_fill_transaction_hash_def fill_transaction_hashes_def Let_def split: option.splits)

lemma lock_type_u8_roundtrip: "lock_type_from_u8 (lock_type_to_u8 t) = Some t"
  by (cases t) simp_all

lemma lock_type_str_roundtrip: "lock_type_from_str (lock_type_str t) = Inr t"
  by (cases t) (simp_all add: lock_type_from_str_def)

lemma storage_key_roundtrip: "storage_key_from_str (storage_key_str k) = Some k"
  by (cases k) (simp_all add: storage_key_from_str_def)

lemma storage_key_no_colon: "CHR '':'' \<notin> set (storage_key_str k)"
  by (cases k) simp_all

end
