(* ===== verification/Storage_Interface.thy ===== *)
theory Storage_Interface
  imports Prelude
begin

text \<open>
  \<^verbatim>\<open>crates/solver-storage/src/lib.rs\<close>: the \<^verbatim>\<open>StorageInterface\<close> trait as a record of operations
  on an abstract backend state, the \<^verbatim>\<open>StorageService\<close> wrapper that every other component
  calls, and the contract that the trait's documentation promises, as the locale
  \<open>storage_contract\<close>.

  Stored byte vectors have a type of their own, \<open>'b\<close>: backends only compare them for
  equality.  Serialisation is \<^verbatim>\<open>serde_json\<close>, which is not part of the repository; it is a
  parameter, a \<open>codec\<close>, and \<open>codec_ok\<close> states that decoding inverts encoding.

  A storage call of an \<^verbatim>\<open>async\<close> function is a point where other tasks and processes run.  A
  \<open>sched\<close> gives what they do to the backend state before the \<open>n\<close>-th call and the clock reading
  at that call, so a theorem that holds for every \<open>sched\<close> holds for every interleaving.
\<close>

section \<open>Types of the storage crate\<close>

datatype storage_error =
    NotFound string
  | Serialization string
  | Backend string
  | Configuration string
  | Expired string

fun storage_error_text :: "storage_error \<Rightarrow> string" where
  "storage_error_text (NotFound m) = ''Not found: '' @ m"
| "storage_error_text (Serialization m) = ''Serialization error: '' @ m"
| "storage_error_text (Backend m) = ''Backend error: '' @ m"
| "storage_error_text (Configuration m) = ''Configuration error: '' @ m"
| "storage_error_text (Expired m) = ''Expired error: '' @ m"

datatype query_filter =
    Equals string json
  | NotEquals string json
  | In string "json list"
  | NotIn string "json list"
  | All

type_synonym storage_indexes = "(string \<times> json) list"

definition with_field :: "storage_indexes \<Rightarrow> string \<Rightarrow> json \<Rightarrow> storage_indexes" where
  "with_field ix name v = AList.update name v ix"

text \<open>The trait: every operation gets the clock reading and the backend state.\<close>

record ('s, 'b) backend =
  get_bytes :: "nat \<Rightarrow> 's \<Rightarrow> string \<Rightarrow> (storage_error, 'b) result"
  set_bytes :: "nat \<Rightarrow> 's \<Rightarrow> string \<Rightarrow> 'b \<Rightarrow> storage_indexes option \<Rightarrow> nat option
    \<Rightarrow> (storage_error, unit) result \<times> 's"
  delete_key :: "nat \<Rightarrow> 's \<Rightarrow> string \<Rightarrow> (storage_error, unit) result \<times> 's"
  exists_key :: "nat \<Rightarrow> 's \<Rightarrow> string \<Rightarrow> (storage_error, bool) result"
  query_keys :: "nat \<Rightarrow> 's \<Rightarrow> string \<Rightarrow> query_filter \<Rightarrow> (storage_error, string list) result"
  get_batch :: "nat \<Rightarrow> 's \<Rightarrow> string list \<Rightarrow> (storage_error, (string \<times> 'b) list) result"
  cleanup_expired :: "nat \<Rightarrow> 's \<Rightarrow> (storage_error, nat) result \<times> 's"
  set_nx :: "nat \<Rightarrow> 's \<Rightarrow> string \<Rightarrow> 'b \<Rightarrow> nat option \<Rightarrow> (storage_error, bool) result \<times> 's"
  compare_and_swap :: "nat \<Rightarrow> 's \<Rightarrow> string \<Rightarrow> 'b \<Rightarrow> 'b \<Rightarrow> nat option
    \<Rightarrow> (storage_error, bool) result \<times> 's"
  compare_and_swap_with_indexes :: "nat \<Rightarrow> 's \<Rightarrow> string \<Rightarrow> 'b \<Rightarrow> 'b
    \<Rightarrow> storage_indexes option \<Rightarrow> nat option \<Rightarrow> (storage_error, bool) result \<times> 's"
  delete_if_exists :: "nat \<Rightarrow> 's \<Rightarrow> string \<Rightarrow> (storage_error, bool) result \<times> 's"

section \<open>Serialisation as a parameter\<close>

record ('a, 'b) codec =
  encode :: "'a \<Rightarrow> (string, 'b) result"
  decode :: "'b \<Rightarrow> (string, 'a) result"

definition codec_ok :: "('a, 'b) codec \<Rightarrow> bool" where
  "codec_ok c \<longleftrightarrow> (\<forall>a b. encode c a = Inr b \<longrightarrow> decode c b = Inr a)"

lemma codec_okD: "codec_ok c \<Longrightarrow> encode c a = Inr b \<Longrightarrow> decode c b = Inr a"
  by (simp add: codec_ok_def)

definition encodes_all :: "('a, 'b) codec \<Rightarrow> bool" where
  "encodes_all c \<longleftrightarrow> (\<forall>a. \<exists>b. encode c a = Inr b)"

section \<open>Interleaving\<close>

text \<open>
  \<open>clock\<close> is the backend's clock (\<^verbatim>\<open>Instant\<close>, in seconds) and \<open>unix_time\<close> the system time in
  seconds, \<open>None\<close> when it is set before the epoch (\<^verbatim>\<open>duration_since\<close> then fails).
\<close>

record 's sched =
  interfere :: "nat \<Rightarrow> 's \<Rightarrow> 's"
  clock :: "nat \<Rightarrow> nat"
  unix_time :: "nat \<Rightarrow> nat option"

record 's world =
  w_store :: 's
  w_tick :: nat

definition resume :: "'s sched \<Rightarrow> 's world \<Rightarrow> 's world" where
  "resume sc w = w\<lparr>w_store := interfere sc (w_tick w) (w_store w), w_tick := Suc (w_tick w)\<rparr>"

definition w_now :: "'s sched \<Rightarrow> 's world \<Rightarrow> nat" where
  "w_now sc w = clock sc (w_tick w)"

definition w_unix :: "'s sched \<Rightarrow> 's world \<Rightarrow> nat option" where
  "w_unix sc w = unix_time sc (w_tick w)"

text \<open>A schedule in which nobody else writes.\<close>

definition quiet :: "(nat \<Rightarrow> nat) \<Rightarrow> 's sched" where
  "quiet cl = \<lparr>interfere = (\<lambda>_ s. s), clock = cl, unix_time = (\<lambda>n. Some (cl n))\<rparr>"

lemma resume_quiet [simp]:
  "w_store (resume (quiet cl) w) = w_store w"
  "clock (quiet cl) = cl"
  "unix_time (quiet cl) = (\<lambda>n. Some (cl n))"
  "interfere (quiet cl) n = id"
  by (simp_all add: resume_def quiet_def fun_eq_iff)

lemma quiet_clock [simp]: "w_now (quiet (\<lambda>_. now)) v = now" "w_unix (quiet (\<lambda>_. now)) v = Some now"
  by (simp_all add: w_now_def w_unix_def)

lemma w_tick_resume [simp]: "w_tick (resume sc w) = Suc (w_tick w)"
  by (simp add: resume_def)

lemma w_store_resume: "w_store (resume sc w) = interfere sc (w_tick w) (w_store w)"
  by (simp add: resume_def)

section \<open>StorageService\<close>

definition mk_key :: "string \<Rightarrow> string \<Rightarrow> string" where
  "mk_key namespace ident = namespace @ '':'' @ ident"

text \<open>Reading and writing calls of the service: other tasks run first, then the backend call.\<close>

definition call_read :: "'s sched \<Rightarrow> (nat \<Rightarrow> 's \<Rightarrow> 'r) \<Rightarrow> 's world \<Rightarrow> 'r \<times> 's world" where
  "call_read sc f w = (let w1 = resume sc w in (f (w_now sc w1) (w_store w1), w1))"

definition call_write :: "'s sched \<Rightarrow> (nat \<Rightarrow> 's \<Rightarrow> 'r \<times> 's) \<Rightarrow> 's world \<Rightarrow> 'r \<times> 's world" where
  "call_write sc f w =
     (let w1 = resume sc w; (r, s) = f (w_now sc w1) (w_store w1) in (r, w1\<lparr>w_store := s\<rparr>))"

definition svc_store_with_ttl ::
  "('s, 'b) backend \<Rightarrow> ('a, 'b) codec \<Rightarrow> 's sched \<Rightarrow> string \<Rightarrow> string \<Rightarrow> 'a
   \<Rightarrow> storage_indexes option \<Rightarrow> nat option \<Rightarrow> 's world \<Rightarrow> (storage_error, unit) result \<times> 's world" where
  "svc_store_with_ttl B c sc namespace ident data ix ttl w =
     (case encode c data of
        Inl e \<Rightarrow> (Inl (Serialization e), w)
      | Inr bytes \<Rightarrow> call_write sc (\<lambda>t s. set_bytes B t s (mk_key namespace ident) bytes ix ttl) w)"

definition svc_store ::
  "('s, 'b) backend \<Rightarrow> ('a, 'b) codec \<Rightarrow> 's sched \<Rightarrow> string \<Rightarrow> string \<Rightarrow> 'a
   \<Rightarrow> storage_indexes option \<Rightarrow> 's world \<Rightarrow> (storage_error, unit) result \<times> 's world" where
  "svc_store B c sc namespace ident data ix w = svc_store_with_ttl B c sc namespace ident data ix None w"

definition svc_retrieve_bytes ::
  "('s, 'b) backend \<Rightarrow> 's sched \<Rightarrow> string \<Rightarrow> string \<Rightarrow> 's world
   \<Rightarrow> (storage_error, 'b) result \<times> 's world" where
  "svc_retrieve_bytes B sc namespace ident w =
     call_read sc (\<lambda>t s. get_bytes B t s (mk_key namespace ident)) w"

definition svc_retrieve ::
  "('s, 'b) backend \<Rightarrow> ('a, 'b) codec \<Rightarrow> 's sched \<Rightarrow> string \<Rightarrow> string \<Rightarrow> 's world
   \<Rightarrow> (storage_error, 'a) result \<times> 's world" where
  "svc_retrieve B c sc namespace ident w =
     (let (r, w1) = svc_retrieve_bytes B sc namespace ident w
      in (case r of
            Inl e \<Rightarrow> (Inl e, w1)
          | Inr bytes \<Rightarrow>
              (case decode c bytes of Inl m \<Rightarrow> (Inl (Serialization m), w1) | Inr a \<Rightarrow> (Inr a, w1))))"

definition svc_remove ::
  "('s, 'b) backend \<Rightarrow> 's sched \<Rightarrow> string \<Rightarrow> string \<Rightarrow> 's world
   \<Rightarrow> (storage_error, unit) result \<times> 's world" where
  "svc_remove B sc namespace ident w =
     call_write sc (\<lambda>t s. delete_key B t s (mk_key namespace ident)) w"

definition svc_exists ::
  "('s, 'b) backend \<Rightarrow> 's sched \<Rightarrow> string \<Rightarrow> string \<Rightarrow> 's world
   \<Rightarrow> (storage_error, bool) result \<times> 's world" where
  "svc_exists B sc namespace ident w = call_read sc (\<lambda>t s. exists_key B t s (mk_key namespace ident)) w"

definition svc_update_with_ttl ::
  "('s, 'b) backend \<Rightarrow> ('a, 'b) codec \<Rightarrow> 's sched \<Rightarrow> string \<Rightarrow> string \<Rightarrow> 'a
   \<Rightarrow> storage_indexes option \<Rightarrow> nat option \<Rightarrow> 's world \<Rightarrow> (storage_error, unit) result \<times> 's world" where
  "svc_update_with_ttl B c sc namespace ident data ix ttl w =
     (let (r, w1) = svc_exists B sc namespace ident w
      in (case r of
            Inl e \<Rightarrow> (Inl e, w1)
          | Inr present \<Rightarrow>
              if \<not> present then (Inl (NotFound (mk_key namespace ident)), w1)
              else svc_store_with_ttl B c sc namespace ident data ix ttl w1))"

definition svc_update ::
  "('s, 'b) backend \<Rightarrow> ('a, 'b) codec \<Rightarrow> 's sched \<Rightarrow> string \<Rightarrow> string \<Rightarrow> 'a
   \<Rightarrow> storage_indexes option \<Rightarrow> 's world \<Rightarrow> (storage_error, unit) result \<times> 's world" where
  "svc_update B c sc namespace ident data ix w = svc_update_with_ttl B c sc namespace ident data ix None w"

definition svc_store_bytes_if_absent ::
  "('s, 'b) backend \<Rightarrow> 's sched \<Rightarrow> string \<Rightarrow> string \<Rightarrow> 'b \<Rightarrow> nat option \<Rightarrow> 's world
   \<Rightarrow> (storage_error, bool) result \<times> 's world" where
  "svc_store_bytes_if_absent B sc namespace ident v ttl w =
     call_write sc (\<lambda>t s. set_nx B t s (mk_key namespace ident) v ttl) w"

definition svc_compare_and_swap_bytes ::
  "('s, 'b) backend \<Rightarrow> 's sched \<Rightarrow> string \<Rightarrow> string \<Rightarrow> 'b \<Rightarrow> 'b \<Rightarrow> storage_indexes option
   \<Rightarrow> nat option \<Rightarrow> 's world \<Rightarrow> (storage_error, bool) result \<times> 's world" where
  "svc_compare_and_swap_bytes B sc namespace ident expected new_value ix ttl w =
     call_write sc (\<lambda>t s. compare_and_swap_with_indexes B t s (mk_key namespace ident)
                            expected new_value ix ttl) w"

definition svc_cleanup_expired ::
  "('s, 'b) backend \<Rightarrow> 's sched \<Rightarrow> 's world \<Rightarrow> (storage_error, nat) result \<times> 's world" where
  "svc_cleanup_expired B sc w = call_write sc (cleanup_expired B) w"

text \<open>\<open>key.split(':').nth(1).unwrap_or(&key)\<close>\<close>

definition id_of_key :: "string \<Rightarrow> string" where
  "id_of_key key = (case split_on CHR '':'' key of _ # ident # _ \<Rightarrow> ident | _ \<Rightarrow> key)"

text \<open>Rows that do not decode are skipped.\<close>

fun decode_rows :: "('a, 'b) codec \<Rightarrow> (string \<times> 'b) list \<Rightarrow> (string \<times> 'a) list" where
  "decode_rows c [] = []"
| "decode_rows c ((key, bytes) # rows) =
     (case decode c bytes of
        Inr item \<Rightarrow> (id_of_key key, item) # decode_rows c rows
      | Inl _ \<Rightarrow> decode_rows c rows)"

definition svc_query ::
  "('s, 'b) backend \<Rightarrow> ('a, 'b) codec \<Rightarrow> 's sched \<Rightarrow> string \<Rightarrow> query_filter \<Rightarrow> 's world
   \<Rightarrow> (storage_error, (string \<times> 'a) list) result \<times> 's world" where
  "svc_query B c sc namespace flt w =
     (let (r, w1) = call_read sc (\<lambda>t s. query_keys B t s namespace flt) w
      in (case r of
            Inl e \<Rightarrow> (Inl e, w1)
          | Inr keys \<Rightarrow>
              (let (rb, w2) = call_read sc (\<lambda>t s. get_batch B t s keys) w1
               in (case rb of Inl e \<Rightarrow> (Inl e, w2) | Inr rows \<Rightarrow> (Inr (decode_rows c rows), w2)))))"

definition svc_retrieve_all ::
  "('s, 'b) backend \<Rightarrow> ('a, 'b) codec \<Rightarrow> 's sched \<Rightarrow> string \<Rightarrow> 's world
   \<Rightarrow> (storage_error, (string \<times> 'a) list) result \<times> 's world" where
  "svc_retrieve_all B c sc namespace w = svc_query B c sc namespace All w"

lemmas svc_defs = svc_store_with_ttl_def svc_store_def svc_retrieve_bytes_def svc_retrieve_def
  svc_remove_def svc_exists_def svc_update_with_ttl_def svc_update_def
  svc_store_bytes_if_absent_def svc_compare_and_swap_bytes_def svc_cleanup_expired_def
  call_read_def call_write_def

section \<open>Redaction of credentials in logged URLs\<close>

text \<open>\<open>str::find\<close> of a pattern: the position of its first occurrence.\<close>

fun str_find :: "string \<Rightarrow> string \<Rightarrow> nat option" where
  "str_find p [] = (if p = [] then Some 0 else None)"
| "str_find p (c # s) = (if prefix p (c # s) then Some 0 else map_option Suc (str_find p s))"

definition redact_url_credentials :: "string \<Rightarrow> string" where
  "redact_url_credentials url =
     (case str_find ''://'' url of
        None \<Rightarrow> url
      | Some scheme_end \<Rightarrow>
          (let after_scheme = drop (scheme_end + 3) url
           in (case str_find ''@'' after_scheme of
                 None \<Rightarrow> url
               | Some at_pos \<Rightarrow>
                   take (scheme_end + 3) url @ ''[REDACTED]@'' @ drop (at_pos + 1) after_scheme)))"

section \<open>The contract of a backend\<close>

text \<open>What a key written at \<open>t\<close> with \<open>ttl\<close> holds at \<open>t'\<close>.\<close>

definition until_ttl :: "nat option \<Rightarrow> nat \<Rightarrow> nat \<Rightarrow> 'b \<Rightarrow> 'b option" where
  "until_ttl ttl t t' v = (case ttl of None \<Rightarrow> Some v | Some d \<Rightarrow> if t' \<le> t + d then Some v else None)"

text \<open>The store after \<open>b\<close> was written to \<open>key\<close> at \<open>t\<close>.\<close>

definition writes_key ::
  "(nat \<Rightarrow> 's \<Rightarrow> string \<Rightarrow> 'b option) \<Rightarrow> string \<Rightarrow> nat option \<Rightarrow> nat \<Rightarrow> 'b \<Rightarrow> 's \<Rightarrow> 's \<Rightarrow> bool" where
  "writes_key live key ttl t b s s' \<longleftrightarrow>
     (\<forall>t' k. live t' s' k = (if k = key then until_ttl ttl t t' b else live t' s k))"

locale storage_contract =
  fixes B :: "('s, 'b) backend"
    and live :: "nat \<Rightarrow> 's \<Rightarrow> string \<Rightarrow> 'b option"
  assumes get_ok: "get_bytes B t s k = Inr v \<Longrightarrow> live t s k = Some v"
    and get_absent: "get_bytes B t s k = Inl (NotFound m) \<Longrightarrow> live t s k = None"
    and get_lapsed: "get_bytes B t s k = Inl (Expired m) \<Longrightarrow> live t s k = None"
    and set_ok: "set_bytes B t s k v ix ttl = (Inr u, s') \<Longrightarrow>
      live t' s' k' = (if k' = k then until_ttl ttl t t' v else live t' s k')"
    and nx_true_absent: "set_nx B t s k v ttl = (Inr True, s') \<Longrightarrow> live t s k = None"
    and nx_true: "set_nx B t s k v ttl = (Inr True, s') \<Longrightarrow>
      live t' s' k' = (if k' = k then until_ttl ttl t t' v else live t' s k')"
    and nx_other: "set_nx B t s k v ttl = (r, s') \<Longrightarrow> r \<noteq> Inr True \<Longrightarrow> live t' s' k' = live t' s k'"
    and cas_true_match: "compare_and_swap_with_indexes B t s k e v ix ttl = (Inr True, s') \<Longrightarrow>
      live t s k = Some e"
    and cas_true: "compare_and_swap_with_indexes B t s k e v ix ttl = (Inr True, s') \<Longrightarrow>
      live t' s' k' = (if k' = k then until_ttl ttl t t' v else live t' s k')"
    and cas_other: "compare_and_swap_with_indexes B t s k e v ix ttl = (r, s') \<Longrightarrow> r \<noteq> Inr True \<Longrightarrow>
      live t' s' k' = live t' s k'"
begin

lemma set_key: "set_bytes B t s k v ix ttl = (Inr u, s') \<Longrightarrow> live t' s' k = until_ttl ttl t t' v"
  by (simp add: set_ok)

lemma cas_key: "compare_and_swap_with_indexes B t s k e v ix ttl = (Inr True, s') \<Longrightarrow>
    live t' s' k = until_ttl ttl t t' v"
  by (simp add: cas_true)

text \<open>A swap through the service: other tasks run, then the key is replaced or nothing changes.\<close>

lemma svc_cas_call:
  assumes "svc_compare_and_swap_bytes B sc ns ident e b ix ttl w = (r, w')"
  shows "r = Inr True \<Longrightarrow>
      writes_key live (mk_key ns ident) ttl (w_now sc w') b (w_store (resume sc w)) (w_store w')"
    and "r = Inr True \<Longrightarrow> live (w_now sc w') (w_store (resume sc w)) (mk_key ns ident) = Some e"
    and "r \<noteq> Inr True \<Longrightarrow> live t (w_store w') k = live t (w_store (resume sc w)) k"
  using assms cas_true cas_other cas_true_match
  by (auto simp: svc_defs Let_def writes_key_def w_now_def split: prod.splits)

lemma retrieve_call:
  "svc_retrieve_bytes B sc ns ident w = (r, w') \<Longrightarrow> w' = resume sc w"
  by (simp add: svc_defs Let_def)

lemma retrieve_call_live:
  "svc_retrieve_bytes B sc ns ident w = (Inr b, w') \<Longrightarrow>
   live (w_now sc w') (w_store w') (mk_key ns ident) = Some b"
  by (auto simp: svc_defs Let_def dest: get_ok)

text \<open>What was stored under a codec is read back, at any later time within its life.\<close>

lemma store_then_retrieve:
  assumes "codec_ok c"
    and "svc_store B c sc ns i a ix w = (Inr u, w1)"
    and "svc_retrieve B c sc ns i w1 = (Inr a', w2)"
    and quiet: "interfere sc (w_tick w1) = id"
  shows "a' = a"
proof -
  from assms(2) obtain b s' where b: "encode c a = Inr b"
    and put: "set_bytes B (w_now sc (resume sc w)) (w_store (resume sc w)) (mk_key ns i) b ix None
      = (Inr u, s')" and s': "w_store w1 = s'"
    by (auto simp: svc_defs Let_def split: sum.splits prod.splits)
  have w1: "live t (w_store w1) (mk_key ns i) = Some b" for t
    using set_key [OF put] by (simp add: s' until_ttl_def)
  from assms(3) quiet obtain b' where "live (w_now sc w2) (w_store w1) (mk_key ns i) = Some b'"
    and "decode c b' = Inr a'"
    by (auto simp: svc_defs Let_def w_store_resume split: sum.splits dest!: get_ok)
  with w1 codec_okD [OF assms(1) b] show ?thesis by simp
qed

end

section \<open>Lemmas on keys and redaction\<close>

lemma mk_key_inj_id [simp]: "mk_key ns i = mk_key ns j \<longleftrightarrow> i = j"
  by (simp add: mk_key_def)

text \<open>The id is recovered from a key exactly when it has no colon itself.\<close>

lemma id_of_key_mk_key:
  assumes "CHR '':'' \<notin> set ns"
  shows "id_of_key (mk_key ns i) = i \<longleftrightarrow> CHR '':'' \<notin> set i"
proof -
  have "split_on CHR '':'' (mk_key ns i) = ns # split_on CHR '':'' i"
    using split_on_append_sep [OF assms, of i] by (simp add: mk_key_def)
  moreover obtain x xs where "split_on CHR '':'' i = x # xs"
    by (meson neq_Nil_conv split_on_not_Nil)
  ultimately show ?thesis
    using hd_split_on_iff [of "CHR '':''" i] by (simp add: id_of_key_def)
qed

end
