(* ===== verification/Attempt_Types.thy ===== *)
theory Attempt_Types
  imports Order_Types Storage_Interface
begin

text \<open>
  Transactions and the ledger rows of their delivery attempts: the execution transactions of
  \<^verbatim>\<open>crates/solver-types/src/account.rs\<close>, receipts and logs of \<^verbatim>\<open>delivery.rs\<close>, and
  \<^verbatim>\<open>transaction_attempt.rs\<close>.
\<close>

section \<open>Transactions\<close>

record evm_transaction =
  tx_to :: "bytes option"
  tx_data :: bytes
  tx_value :: nat
  tx_chain_id :: nat
  tx_nonce :: "nat option"
  tx_gas_limit :: "nat option"
  tx_gas_price :: "nat option"
  tx_max_fee_per_gas :: "nat option"
  tx_max_priority_fee_per_gas :: "nat option"

record starknet_call =
  sc_contract_address :: bytes
  sc_entry_point_selector :: bytes
  sc_calldata :: "nat list"

record starknet_resource_bounds =
  rb_max_amount :: nat
  rb_max_price_per_unit :: nat

record starknet_resource_bounds_mapping =
  rb_l1_gas :: starknet_resource_bounds
  rb_l1_data_gas :: starknet_resource_bounds
  rb_l2_gas :: starknet_resource_bounds

definition zero_resource_bounds :: starknet_resource_bounds_mapping where
  "zero_resource_bounds =
     (let zero = \<lparr>rb_max_amount = 0, rb_max_price_per_unit = 0\<rparr>
      in \<lparr>rb_l1_gas = zero, rb_l1_data_gas = zero, rb_l2_gas = zero\<rparr>)"

record starknet_invoke =
  si_network_id :: nat
  si_sender_address :: bytes
  si_calls :: "starknet_call list"
  si_account_calldata :: "nat list"
  si_nonce :: "nat option"
  si_resource_bounds :: "starknet_resource_bounds_mapping option"
  si_signature :: "nat list"
  si_tip :: nat
  si_version :: nat
  si_paymaster_data :: "nat list"
  si_account_deployment_data :: "nat list"
  si_nonce_da_mode :: "string option"
  si_fee_da_mode :: "string option"
  si_chain_id :: "string option"

datatype execution_transaction = Evm evm_transaction | StarknetInvoke starknet_invoke

fun network_id :: "execution_transaction \<Rightarrow> nat" where
  "network_id (Evm tx) = tx_chain_id tx"
| "network_id (StarknetInvoke tx) = si_network_id tx"

fun execution_nonce :: "execution_transaction \<Rightarrow> nat option" where
  "execution_nonce (Evm tx) = tx_nonce tx"
| "execution_nonce (StarknetInvoke tx) =
     Option.bind (si_nonce tx) (\<lambda>n. if n \<le> u64_bound - 1 then Some n else None)"

fun as_evm :: "execution_transaction \<Rightarrow> evm_transaction option" where
  "as_evm (Evm tx) = Some tx"
| "as_evm (StarknetInvoke _) = None"

record log =
  log_address :: bytes
  log_topics :: "bytes list"
  log_data :: bytes
  log_transaction_hash :: "bytes option"
  log_block_number :: "nat option"

record transaction_receipt =
  rcpt_hash :: bytes
  rcpt_block_number :: nat
  rcpt_success :: bool
  rcpt_logs :: "log list"
  rcpt_block_timestamp :: "nat option"

section \<open>Attempts\<close>

datatype attempt_status =
  Planned | Broadcast | Confirmed | SubmitRejected | Reverted | Indeterminate | Replaced

definition attempt_status_terminal :: "attempt_status \<Rightarrow> bool" where
  "attempt_status_terminal st =
     (case st of Confirmed \<Rightarrow> True | SubmitRejected \<Rightarrow> True | Reverted \<Rightarrow> True | Replaced \<Rightarrow> True | _ \<Rightarrow> False)"

datatype attempt_scope = OrderScope string | SystemScope string

fun scope_ident :: "attempt_scope \<Rightarrow> string" where
  "scope_ident (OrderScope i) = i"
| "scope_ident (SystemScope i) = i"

fun scope_order_id :: "attempt_scope \<Rightarrow> string option" where
  "scope_order_id (OrderScope i) = Some i"
| "scope_order_id (SystemScope _) = None"

fun scope_is_system :: "attempt_scope \<Rightarrow> bool" where
  "scope_is_system (SystemScope _) = True"
| "scope_is_system (OrderScope _) = False"

record transaction_attempt =
  at_id :: string
  at_scope :: attempt_scope
  at_signer :: "bytes option"
  at_tx_type :: transaction_type
  at_chain_id :: nat
  at_nonce :: "nat option"
  at_tx_hash :: "bytes option"
  at_receipt :: "transaction_receipt option"
  at_tx :: execution_transaction
  at_status :: attempt_status
  at_error :: "string option"
  at_created_at :: nat
  at_updated_at :: nat
  at_replacement_of :: "string option"
  at_replaced_by :: "string option"

definition attempt_terminal :: "transaction_attempt \<Rightarrow> bool" where
  "attempt_terminal a = attempt_status_terminal (at_status a)"

text \<open>
  The wire form has an optional scope and, in older rows, an order id instead of it.
\<close>

record attempt_wire =
  wire_scope :: "attempt_scope option"
  wire_order_id :: "string option"
  wire_rest :: transaction_attempt

definition attempt_of_wire :: "attempt_wire \<Rightarrow> (string, transaction_attempt) result" where
  "attempt_of_wire v =
     (case (wire_scope v, wire_order_id v) of
        (Some scope, _) \<Rightarrow> Inr ((wire_rest v)\<lparr>at_scope := scope\<rparr>)
      | (None, Some oid) \<Rightarrow> Inr ((wire_rest v)\<lparr>at_scope := OrderScope oid\<rparr>)
      | (None, None) \<Rightarrow> Inl ''missing field `scope`'')"

text \<open>\<open>planned\<close>, with the clock reading of \<open>current_timestamp\<close>: 0 when the clock is before the epoch.\<close>

definition current_timestamp :: "nat option \<Rightarrow> nat" where
  "current_timestamp t = (case t of None \<Rightarrow> 0 | Some n \<Rightarrow> n)"

definition planned ::
  "nat \<Rightarrow> string \<Rightarrow> attempt_scope \<Rightarrow> bytes option \<Rightarrow> transaction_type \<Rightarrow> execution_transaction
   \<Rightarrow> transaction_attempt" where
  "planned now ident scope signer ty tx =
     \<lparr>at_id = ident, at_scope = scope, at_signer = signer, at_tx_type = ty,
      at_chain_id = network_id tx, at_nonce = execution_nonce tx, at_tx_hash = None,
      at_receipt = None, at_tx = tx, at_status = Planned, at_error = None, at_created_at = now,
      at_updated_at = now, at_replacement_of = None, at_replaced_by = None\<rparr>"

section \<open>Lemmas\<close>

lemma attempt_terminal_iff:
  "attempt_terminal a \<longleftrightarrow> at_status a \<in> {Confirmed, SubmitRejected, Reverted, Replaced}"
  by (cases "at_status a") (simp_all add: attempt_terminal_def attempt_status_terminal_def)

lemma planned_not_terminal [simp]: "\<not> attempt_terminal (planned now ident scope signer ty tx)"
  by (simp add: attempt_terminal_iff planned_def)

text \<open>Both wire forms of an order-scoped row decode to the same attempt.\<close>

lemma attempt_of_wire_legacy:
  "attempt_of_wire \<lparr>wire_scope = None, wire_order_id = Some oid, wire_rest = a\<rparr> =
   attempt_of_wire \<lparr>wire_scope = Some (OrderScope oid), wire_order_id = x, wire_rest = a\<rparr>"
  by (simp add: attempt_of_wire_def)

end
