(* ===== verification/Delivery_Events.thy ===== *)
theory Delivery_Events
  imports Attempt_Types
begin

text \<open>
  The vocabulary of transaction delivery: the delivery events of \<^verbatim>\<open>crates/solver-types/src/events.rs\<close>,
  the errors and monitoring events of \<^verbatim>\<open>crates/solver-delivery/src/lib.rs\<close>, and the revert classifier
  of \<^verbatim>\<open>revert_classifier.rs\<close>.  The 4-byte selectors are hashes computed by a library, so the
  function from error names to selectors is a parameter, as is hexadecimal encoding.
\<close>

section \<open>Events\<close>

datatype bump_cap_field = MaxFeePerGas | MaxPriorityFeePerGas

datatype delivery_event =
    TransactionPending string bytes transaction_type nat
  | TransactionConfirmed string bytes transaction_type transaction_receipt
  | TransactionFailed string bytes transaction_type string
  | TransactionIndeterminate string bytes transaction_type string
  | TransactionCanonicalHashConflict string transaction_type bytes bytes
  | TransactionAttemptLedgerConflict string string transaction_type "bytes option" attempt_status string string
  | BumpCapReached string string nat transaction_type bump_cap_field string string
  | BumpExceedsProfitability string string nat transaction_type string string string string
  | BumpMaxReplacementsReached string string nat transaction_type nat
  | BumpDeadlineExpired string string nat transaction_type nat nat
  | BumpSignerMismatch string string nat transaction_type bytes bytes
  | BumpMissingSigner string string nat transaction_type
  | BumpSubmissionSignerUnavailable string string nat transaction_type
  | BumpMissingNonce string string nat transaction_type
  | BumpBalanceCheckSkipped string string nat transaction_type string
  | BumpReceiptPreflightSkipped string string nat transaction_type bytes string bool
  | BumpSubmitFailed string string nat transaction_type string
  | BumpTipAlreadyMined string string nat transaction_type bytes bool
  | BumpProfitabilityCheckSkipped string string nat transaction_type string

section \<open>Delivery errors\<close>

text \<open>The payload of an insufficient-gas error is kept as its message.\<close>

datatype delivery_error =
    Network string
  | DeliveryTransactionFailed string
  | DeliveryNonceTooLow string
  | InsufficientNativeGas string
  | NoImplementationAvailable
  | ReplacementUnderpriced string

fun delivery_error_text :: "delivery_error \<Rightarrow> string" where
  "delivery_error_text (Network m) = ''Network error: '' @ m"
| "delivery_error_text (DeliveryTransactionFailed m) = ''Transaction failed: '' @ m"
| "delivery_error_text (DeliveryNonceTooLow m) = ''Nonce too low after resync retry: '' @ m"
| "delivery_error_text (InsufficientNativeGas m) = m"
| "delivery_error_text NoImplementationAvailable = ''No implementation available''"
| "delivery_error_text (ReplacementUnderpriced h) = ''Replacement underpriced: '' @ h"

section \<open>Classification of reverts\<close>

datatype stage_complete_reason = AlreadyClaimed | EscrowInvalidOrderStatus

datatype revert_classification =
  StageComplete stage_complete_reason | TerminalRevert string | UnknownRevert

definition terminal_errors :: "string list" where
  "terminal_errors =
     [''AlreadyFilled'', ''FillDeadline'', ''TimestampPassed'', ''WrongChain'', ''InvalidSigner'',
      ''FilledTooLate'', ''NoDestination'', ''FillDeadlineAfterExpiry'', ''OrderIdMismatch'',
      ''SignatureAndInputsNotEqual'', ''SignatureNotSupported'', ''UserCannotBeSettler'',
      ''NativeTokenNotSupported'', ''InvalidAttestation'', ''PayloadTooSmall'', ''NotImplemented'',
      ''ExclusiveTo'', ''ZeroValue'', ''WrongOutputSettler'', ''WrongOutputOracle'',
      ''InvalidTimestampLength'', ''TimestampNotPassed'', ''NotProven'', ''ReentrancyDetected'']"

definition classify_revert ::
  "(string \<Rightarrow> bytes) \<Rightarrow> (bytes \<Rightarrow> string) \<Rightarrow> bytes \<Rightarrow> revert_classification" where
  "classify_revert sel hexe revert_data =
     (if length revert_data < 4 then UnknownRevert
      else (let selector = take 4 revert_data
            in if selector = sel ''AlreadyClaimed'' then StageComplete AlreadyClaimed
               else if selector = sel ''InvalidOrderStatus'' then StageComplete EscrowInvalidOrderStatus
               else if selector \<in> set (map sel terminal_errors) then TerminalRevert (hexe selector)
               else UnknownRevert))"

section \<open>Monitoring events\<close>

datatype monitoring_event =
    MonConfirmed string bytes transaction_type transaction_receipt
  | MonFailed string bytes transaction_type string revert_classification
  | MonIndeterminate string bytes transaction_type string
  | MonAttemptLedgerConflict string string transaction_type "bytes option" attempt_status string string

text \<open>
  The callback of a replacement: what it publishes for a monitoring event.  Attempts outside an
  order publish nothing.
\<close>

fun replacement_callback :: "bool \<Rightarrow> monitoring_event \<Rightarrow> delivery_event list" where
  "replacement_callback publish (MonConfirmed i h ty rcpt) =
     (if \<not> publish then [] else [TransactionConfirmed i h ty rcpt])"
| "replacement_callback publish (MonFailed i h ty err cls) =
     (if \<not> publish then []
      else (case cls of
              StageComplete _ \<Rightarrow> [TransactionIndeterminate i h ty (''stage-complete revert: '' @ err)]
            | _ \<Rightarrow> [TransactionFailed i h ty err]))"
| "replacement_callback publish (MonIndeterminate i h ty reason) =
     (if \<not> publish then [] else [TransactionIndeterminate i h ty reason])"
| "replacement_callback publish (MonAttemptLedgerConflict i a ty h st err ctx) =
     (if \<not> publish then [] else [TransactionAttemptLedgerConflict i a ty h st err ctx])"

section \<open>Properties\<close>

text \<open>
  A revert makes an order's stage fail only on a real failure: a failed transaction whose
  revert data says the stage is already complete is published as indeterminate, never as failed,
  whatever follows the selector; short or uncatalogued data and every catalogued failure are
  published as failed.
\<close>

theorem stage_complete_never_fails_order:
  assumes "length (sel ''AlreadyClaimed'') = 4" "length (sel ''InvalidOrderStatus'') = 4"
    and "cls = classify_revert sel hexe revert_data"
  shows "(\<exists>rest. revert_data = sel ''AlreadyClaimed'' @ rest \<or> revert_data = sel ''InvalidOrderStatus'' @ rest) \<longleftrightarrow>
      (\<exists>reason. replacement_callback True (MonFailed i h ty err cls) =
         [TransactionIndeterminate i h ty (''stage-complete revert: '' @ err)] \<and> cls = StageComplete reason)"
    (is "?L \<longleftrightarrow> ?R")
proof
  assume ?L
  then show ?R using assms by (auto simp: classify_revert_def Let_def)
next
  assume ?R
  then have "take 4 revert_data = sel ''AlreadyClaimed'' \<or> take 4 revert_data = sel ''InvalidOrderStatus''"
    using assms(3) by (auto simp: classify_revert_def Let_def split: if_splits)
  then show ?L by (metis append_take_drop_id)
qed

theorem stage_complete_never_fails_order_witness:
  "\<exists>reason. classify_revert (\<lambda>n. if n = ''AlreadyClaimed'' then [1, 2, 3, 4] else [5, 6, 7, 8]) (\<lambda>_. []) [1, 2, 3, 4, 9] =
     StageComplete reason"
proof -
  let ?sel = "\<lambda>n. if n = ''AlreadyClaimed'' then [1, 2, 3, 4] else [5, 6, 7, 8] :: bytes"
  have "\<exists>rest. [1, 2, 3, 4, 9] = ?sel ''AlreadyClaimed'' @ rest \<or> [1, 2, 3, 4, 9] = ?sel ''InvalidOrderStatus'' @ rest"
    by auto
  then show ?thesis
    using stage_complete_never_fails_order [of ?sel "classify_revert ?sel (\<lambda>_. []) [1, 2, 3, 4, 9]" "\<lambda>_. []"
        "[1, 2, 3, 4, 9]"] by auto
qed

end
