(* ===== verification/Bump_Lineage.thy ===== *)
theory Bump_Lineage
  imports Delivery_Events
begin

text \<open>
  \<^verbatim>\<open>crates/solver-core/src/bump/policy.rs\<close> and \<^verbatim>\<open>lineage.rs\<close>: the fee arithmetic of a same-nonce
  replacement and the graph of attempts linked by \<^verbatim>\<open>replacement_of\<close>.  The traversal of a lineage
  is a loop that would not end on rows that repeat an id, so it is a partial function: no result
  means no end.  The lemmas show that it ends when ids are distinct, and what it returns.
\<close>

section \<open>Fee arithmetic\<close>

record bump_fees =
  bf_max_fee_per_gas :: "nat option"
  bf_max_priority_fee_per_gas :: "nat option"
  bf_gas_price :: "nat option"

definition bump_value :: "nat \<Rightarrow> nat \<Rightarrow> nat" where
  "bump_value bump_percent v =
     (let increase = saturating_mul u128_bound v bump_percent div 100;
          increase1 = (if bump_percent > 0 \<and> v > 0 then max increase 1 else increase)
      in saturating_add u128_bound v increase1)"

definition apply_bump_percent :: "evm_transaction \<Rightarrow> nat \<Rightarrow> bump_fees" where
  "apply_bump_percent tx bump_percent =
     \<lparr>bf_max_fee_per_gas = map_option (bump_value bump_percent) (tx_max_fee_per_gas tx),
      bf_max_priority_fee_per_gas = map_option (bump_value bump_percent) (tx_max_priority_fee_per_gas tx),
      bf_gas_price = map_option (bump_value bump_percent) (tx_gas_price tx)\<rparr>"

definition over_cap :: "nat option \<Rightarrow> nat option \<Rightarrow> bool" where
  "over_cap fee cap = (case (fee, cap) of (Some f, Some c) \<Rightarrow> f > c | _ \<Rightarrow> False)"

definition bumped_fees_exceed_cap :: "bump_fees \<Rightarrow> nat option \<Rightarrow> nat option \<Rightarrow> bump_cap_field option" where
  "bumped_fees_exceed_cap fees max_fee_cap_wei max_priority_fee_cap_wei =
     (if over_cap (bf_max_fee_per_gas fees) max_fee_cap_wei then Some MaxFeePerGas
      else if over_cap (bf_max_priority_fee_per_gas fees) max_priority_fee_cap_wei
      then Some MaxPriorityFeePerGas
      else if over_cap (bf_gas_price fees) max_fee_cap_wei then Some MaxFeePerGas
      else None)"

section \<open>Lineages\<close>

definition is_root :: "transaction_attempt list \<Rightarrow> transaction_attempt \<Rightarrow> bool" where
  "is_root attempts a =
     (case at_replacement_of a of None \<Rightarrow> True | Some parent \<Rightarrow> parent \<notin> set (map at_id attempts))"

definition children_of :: "transaction_attempt list \<Rightarrow> string \<Rightarrow> transaction_attempt list" where
  "children_of attempts ident =
     filter (\<lambda>a. at_replacement_of a = Some ident \<and> ident \<in> set (map at_id attempts)) attempts"

text \<open>The stack has its top first.\<close>

partial_function (option) component_loop ::
  "transaction_attempt list \<Rightarrow> transaction_attempt list \<Rightarrow> transaction_attempt list
   \<Rightarrow> transaction_attempt list option" where
  "component_loop attempts stack members =
     (case stack of
        [] \<Rightarrow> Some members
      | node # rest \<Rightarrow>
          component_loop attempts (rev (children_of attempts (at_id node)) @ rest)
            (members @ children_of attempts (at_id node)))"

definition lineage_components ::
  "transaction_attempt list \<Rightarrow> transaction_attempt list list option" where
  "lineage_components attempts =
     those (map (\<lambda>root. component_loop attempts [root] [root]) (filter (is_root attempts) attempts))"

text \<open>
  The tip.  \<open>by_id\<close> keeps the last row of an id, as collecting into a hash map does.
\<close>

definition by_id :: "transaction_attempt list \<Rightarrow> string \<Rightarrow> transaction_attempt option" where
  "by_id members ident = map_of (rev (map (\<lambda>a. (at_id a, a)) members)) ident"

definition parent_id :: "transaction_attempt list \<Rightarrow> string \<Rightarrow> string option" where
  "parent_id members ident = Option.bind (by_id members ident) at_replacement_of"

definition parent_ids :: "transaction_attempt list \<Rightarrow> string set" where
  "parent_ids members = {p. \<exists>a \<in> set members. at_replacement_of a = Some p}"

lemma finite_parent_ids [simp]: "finite (parent_ids members)"
proof -
  have "parent_ids members \<subseteq> the ` at_replacement_of ` set members"
    by (auto simp: parent_ids_def) (metis imageI option.sel)
  then show ?thesis by (rule finite_subset) simp
qed

lemma parent_id_in: "parent_id members i = Some p \<Longrightarrow> p \<in> parent_ids members"
  by (fastforce simp: parent_id_def by_id_def parent_ids_def bind_eq_Some_conv dest: map_of_SomeD)

function mark_ancestors ::
  "transaction_attempt list \<Rightarrow> string option \<Rightarrow> string set \<Rightarrow> string set" where
  "mark_ancestors members None marked = marked"
| "mark_ancestors members (Some p) marked =
     (if p \<in> marked then marked else mark_ancestors members (parent_id members p) (insert p marked))"
  by pat_completeness auto
termination
proof (relation "measure (\<lambda>(members, cursor, marked). 2 * card (parent_ids members - marked) +
    (case cursor of None \<Rightarrow> 0 | Some p \<Rightarrow> if p \<in> parent_ids members then 0 else 1))", goal_cases)
  case (2 members p marked)
  have next0: "(case parent_id members p of None \<Rightarrow> 0 | Some q \<Rightarrow> if q \<in> parent_ids members then 0 else 1) = (0::nat)"
    using parent_id_in by (auto split: option.splits)
  show ?case
  proof (cases "p \<in> parent_ids members")
    case True
    then have "card (parent_ids members - insert p marked) < card (parent_ids members - marked)"
      using 2 by (intro psubset_card_mono) auto
    then show ?thesis using next0 by simp
  next
    case False
    then have "parent_ids members - insert p marked = parent_ids members - marked" by auto
    then show ?thesis using next0 False by simp
  qed
qed simp

definition pre_broadcast :: "transaction_attempt \<Rightarrow> bool" where
  "pre_broadcast a = (at_status a = Planned \<and> at_tx_hash a = None)"

definition mark_member :: "transaction_attempt list \<Rightarrow> string set \<Rightarrow> transaction_attempt \<Rightarrow> string set" where
  "mark_member members marked a =
     (if attempt_terminal a then marked
      else if pre_broadcast a then marked
      else mark_ancestors members (at_replacement_of a) marked)"

definition lineage_tip :: "transaction_attempt list \<Rightarrow> transaction_attempt option" where
  "lineage_tip members =
     (let has_nonterminal_descendant = foldl (mark_member members) {} members
      in find (\<lambda>a. \<not> attempt_terminal a \<and> at_id a \<notin> has_nonterminal_descendant) members)"

definition replacement_count_in_lineage :: "transaction_attempt list \<Rightarrow> nat" where
  "replacement_count_in_lineage members =
     length (filter (\<lambda>a. at_replacement_of a \<noteq> None) members) mod u32_bound"

definition has_confirmed_member :: "transaction_attempt list \<Rightarrow> bool" where
  "has_confirmed_member members = list_ex (\<lambda>a. at_status a = Confirmed) members"

text \<open>\<open>cur.map_or(v, |cur| cur.max(v))\<close> when the row has a value.\<close>

definition raise :: "nat option \<Rightarrow> nat option \<Rightarrow> nat option" where
  "raise cur v = (case v of None \<Rightarrow> cur | Some x \<Rightarrow> Some (case cur of None \<Rightarrow> x | Some c \<Rightarrow> max c x))"

definition raise_fees ::
  "nat option \<times> nat option \<times> nat option \<Rightarrow> transaction_attempt \<Rightarrow> nat option \<times> nat option \<times> nat option" where
  "raise_fees m a =
     (case as_evm (at_tx a) of
        None \<Rightarrow> m
      | Some tx \<Rightarrow>
          (case m of (max_fee, max_priority, max_gas_price) \<Rightarrow>
             (raise max_fee (tx_max_fee_per_gas tx), raise max_priority (tx_max_priority_fee_per_gas tx),
              raise max_gas_price (tx_gas_price tx))))"

definition highest_fees_in_lineage ::
  "transaction_attempt list \<Rightarrow> nat option \<times> nat option \<times> nat option" where
  "highest_fees_in_lineage members = foldl raise_fees (None, None, None) members"

section \<open>Lemmas on fees\<close>

lemma bump_value_bounds:
  assumes "v < u128_bound"
  shows "v \<le> bump_value p v" and "bump_value p v < u128_bound"
    and "p > 0 \<Longrightarrow> v > 0 \<Longrightarrow> v + 1 < u128_bound \<Longrightarrow> v < bump_value p v"
    and "v + v * p div 100 < u128_bound \<Longrightarrow> v * p < u128_bound \<Longrightarrow> v + v * p div 100 \<le> bump_value p v"
  using assms by (auto simp: bump_value_def saturating_add_def saturating_mul_def Let_def min_def max_def)

lemma raise_upper: "raise cur v = Some m \<Longrightarrow> (\<forall>c. cur = Some c \<longrightarrow> c \<le> m) \<and> (\<forall>x. v = Some x \<longrightarrow> x \<le> m)"
  by (auto simp: raise_def split: option.splits)

lemma raise_None: "raise cur v = None \<longleftrightarrow> cur = None \<and> v = None"
  by (auto simp: raise_def split: option.splits)

text \<open>The fee an attempt offers, by kind.\<close>

definition offers :: "(evm_transaction \<Rightarrow> nat option) \<Rightarrow> transaction_attempt \<Rightarrow> nat \<Rightarrow> bool" where
  "offers fee a x \<longleftrightarrow> (\<exists>tx. as_evm (at_tx a) = Some tx \<and> fee tx = Some x)"

lemma raise_fees_parts:
  "raise_fees (f, p, g) a = (raise f (Option.bind (as_evm (at_tx a)) tx_max_fee_per_gas),
     raise p (Option.bind (as_evm (at_tx a)) tx_max_priority_fee_per_gas),
     raise g (Option.bind (as_evm (at_tx a)) tx_gas_price))"
  by (auto simp: raise_fees_def raise_def split: option.splits)

lemma foldl_raise_fees:
  "foldl raise_fees (f, p, g) members =
     (foldl raise f (map (\<lambda>a. Option.bind (as_evm (at_tx a)) tx_max_fee_per_gas) members),
      foldl raise p (map (\<lambda>a. Option.bind (as_evm (at_tx a)) tx_max_priority_fee_per_gas) members),
      foldl raise g (map (\<lambda>a. Option.bind (as_evm (at_tx a)) tx_gas_price) members))"
  by (induction members arbitrary: f p g) (simp_all add: raise_fees_parts)

lemma foldl_raise:
  "foldl raise cur vs = (if cur = None \<and> (\<forall>v \<in> set vs. v = None) then None
     else Some (Max ({x. cur = Some x} \<union> {x. Some x \<in> set vs})))"
proof (induction vs arbitrary: cur)
  case Nil
  then show ?case by (cases cur) auto
next
  case (Cons v vs)
  have fin: "finite {x. Some x \<in> set vs}" by (rule finite_imageD [of Some]) (auto intro: finite_subset [of _ "set vs"])
  show ?case
  proof (cases v)
    case None
    then show ?thesis using Cons.IH [of cur] by (simp add: raise_def)
  next
    case (Some x)
    show ?thesis
    proof (cases cur)
      case None
      have "{y. Some y \<in> set (v # vs)} = insert x {y. Some y \<in> set vs}" using Some by auto
      then show ?thesis using Cons.IH [of "Some x"] None Some by (simp add: raise_def)
    next
      case (Some c)
      have 1: "{y. cur = Some y} \<union> {y. Some y \<in> set (v # vs)} = insert c (insert x {y. Some y \<in> set vs})"
        using Some \<open>v = Some x\<close> by auto
      have "Max (insert c (insert x {y. Some y \<in> set vs})) = Max (insert (max c x) {y. Some y \<in> set vs})"
        using fin by (cases "{y. Some y \<in> set vs} = {}") (simp_all add: max.assoc)
      then show ?thesis using Cons.IH [of "Some (max c x)"] Some \<open>v = Some x\<close> 1
        by (simp add: raise_def)
    qed
  qed
qed

lemma highest_fees_covers:
  assumes "highest_fees_in_lineage members = (f, p, g)" "a \<in> set members"
  shows "offers tx_max_fee_per_gas a x \<Longrightarrow> \<exists>m. f = Some m \<and> x \<le> m"
    and "offers tx_max_priority_fee_per_gas a x \<Longrightarrow> \<exists>m. p = Some m \<and> x \<le> m"
    and "offers tx_gas_price a x \<Longrightarrow> \<exists>m. g = Some m \<and> x \<le> m"
proof -
  have aux: "\<exists>m. foldl raise None (map h members) = Some m \<and> x \<le> m" if "h a = Some x"
    for h :: "transaction_attempt \<Rightarrow> nat option"
  proof -
    have in_set: "Some x \<in> set (map h members)" using that assms(2) by force
    have fin: "finite {x. Some x \<in> set (map h members)}"
      by (rule finite_imageD [of Some]) (auto intro: finite_subset [of _ "set (map h members)"])
    have "\<not> (\<forall>v \<in> set (map h members). v = None)" using in_set by blast
    then have "foldl raise None (map h members) = Some (Max {x. Some x \<in> set (map h members)})"
      unfolding foldl_raise by simp
    then show ?thesis using Max_ge [OF fin, of x] in_set by blast
  qed
  show "offers tx_max_fee_per_gas a x \<Longrightarrow> \<exists>m. f = Some m \<and> x \<le> m"
    "offers tx_max_priority_fee_per_gas a x \<Longrightarrow> \<exists>m. p = Some m \<and> x \<le> m"
    "offers tx_gas_price a x \<Longrightarrow> \<exists>m. g = Some m \<and> x \<le> m"
    using assms(1) unfolding highest_fees_in_lineage_def foldl_raise_fees
    by (auto simp: offers_def intro!: aux)
qed

section \<open>Lemmas on components\<close>

text \<open>The link from a row to the rows that replace it.\<close>

definition lrel :: "transaction_attempt list \<Rightarrow> (transaction_attempt \<times> transaction_attempt) set" where
  "lrel attempts = {(x, c). x \<in> set attempts \<and> c \<in> set attempts \<and> at_replacement_of c = Some (at_id x)}"

abbreviation distinct_ids :: "transaction_attempt list \<Rightarrow> bool" where
  "distinct_ids attempts \<equiv> distinct (map at_id attempts)"

lemma distinct_idsD: "distinct_ids attempts \<Longrightarrow> x \<in> set attempts \<Longrightarrow> y \<in> set attempts \<Longrightarrow> at_id x = at_id y \<Longrightarrow> x = y"
  by (simp add: distinct_map inj_on_def)

lemma children_lrel: "x \<in> set attempts \<Longrightarrow> c \<in> set (children_of attempts (at_id x)) \<longleftrightarrow> (x, c) \<in> lrel attempts"
  by (auto simp: children_of_def lrel_def)

lemma lrel_parent_unique: "distinct_ids attempts \<Longrightarrow> single_valued ((lrel attempts)\<inverse>)"
  by (auto simp: single_valued_def lrel_def dest: distinct_idsD)

lemma is_root_no_parent: "is_root attempts r \<Longrightarrow> (x, r) \<notin> lrel attempts"
  by (auto simp: is_root_def lrel_def)

text \<open>
  Between iterations: the members are distinct and reachable from the root, every member but the
  root has its parent among the processed members, and the children of those are members.
\<close>

definition comp_inv ::
  "transaction_attempt list \<Rightarrow> transaction_attempt \<Rightarrow> transaction_attempt list \<Rightarrow> transaction_attempt list \<Rightarrow> bool" where
  "comp_inv attempts root stack members \<longleftrightarrow>
     distinct members \<and> distinct stack \<and> set stack \<subseteq> set members \<and> set members \<subseteq> set attempts \<and> root \<in> set members \<and>
     set members \<subseteq> (lrel attempts)\<^sup>* `` {root} \<and>
     (\<forall>c \<in> set members - {root}. \<exists>x \<in> set members - set stack. (x, c) \<in> lrel attempts) \<and>
     (\<forall>x \<in> set members - set stack. \<forall>c. (x, c) \<in> lrel attempts \<longrightarrow> c \<in> set members)"

lemma comp_inv_step:
  assumes "distinct_ids attempts" "is_root attempts root" "comp_inv attempts root (node # rest) members"
  shows "comp_inv attempts root (rev (children_of attempts (at_id node)) @ rest)
    (members @ children_of attempts (at_id node))"
proof -
  let ?cs = "children_of attempts (at_id node)"
  note inv = assms(3) [unfolded comp_inv_def]
  have base: "distinct members" "distinct (node # rest)" "set (node # rest) \<subseteq> set members"
    "set members \<subseteq> set attempts" "root \<in> set members" using inv by blast+
  have node: "node \<in> set attempts" "node \<in> set members" using base by auto
  have cs: "set ?cs = {c. (node, c) \<in> lrel attempts}" using children_lrel [OF node(1)] by blast
  have fresh: "c \<notin> set members" if "c \<in> set ?cs" for c
  proof
    assume "c \<in> set members"
    have "(node, c) \<in> lrel attempts" using that cs by blast
    moreover from this have "c \<noteq> root" using is_root_no_parent [OF assms(2)] by blast
    ultimately obtain x where "x \<in> set members - set (node # rest)" "(x, c) \<in> lrel attempts"
      using inv \<open>c \<in> set members\<close> by blast
    then show False using \<open>(node, c) \<in> lrel attempts\<close> lrel_parent_unique [OF assms(1)]
      by (auto simp: single_valued_def)
  qed
  have dist: "distinct ?cs" using assms(1) by (simp add: children_of_def distinct_map)
  have reach: "set ?cs \<subseteq> (lrel attempts)\<^sup>* `` {root}"
  proof
    fix c assume "c \<in> set ?cs"
    then have "(node, c) \<in> lrel attempts" using cs by blast
    moreover have "(root, node) \<in> (lrel attempts)\<^sup>*" using inv node(2) by blast
    ultimately show "c \<in> (lrel attempts)\<^sup>* `` {root}" by (simp add: rtrancl_into_rtrancl)
  qed
  have sub: "set ?cs \<subseteq> set attempts" by (auto simp: children_of_def)
  have parents: "\<exists>x \<in> set (members @ ?cs) - set (rev ?cs @ rest). (x, c) \<in> lrel attempts"
    if "c \<in> set (members @ ?cs) - {root}" for c
  proof (cases "c \<in> set ?cs")
    case True
    have "node \<notin> set rest" "node \<notin> set ?cs" using base(2) fresh node(2) by auto
    then have "node \<in> set (members @ ?cs) - set (rev ?cs @ rest)" using node(2) by simp
    moreover have "(node, c) \<in> lrel attempts" using True cs by blast
    ultimately show ?thesis by blast
  next
    case False
    then have "c \<in> set members - {root}" using that by simp
    then obtain x where "x \<in> set members - set (node # rest)" "(x, c) \<in> lrel attempts" using inv by blast
    then have "x \<in> set (members @ ?cs) - set (rev ?cs @ rest)" using fresh by auto
    then show ?thesis using \<open>(x, c) \<in> lrel attempts\<close> by blast
  qed
  have closed: "c \<in> set (members @ ?cs)"
    if "x \<in> set (members @ ?cs) - set (rev ?cs @ rest)" "(x, c) \<in> lrel attempts" for x c
  proof (cases "x = node")
    case True
    then show ?thesis using that(2) cs by simp
  next
    case False
    then have "x \<in> set members - set (node # rest)" using that(1) by auto
    then have "c \<in> set members" using inv that(2) by blast
    then show ?thesis by simp
  qed
  have 1: "distinct (members @ ?cs)" using base(1) dist fresh by auto
  have 2: "distinct (rev ?cs @ rest)" using base(2,3) dist fresh by auto
  have 3: "set (rev ?cs @ rest) \<subseteq> set (members @ ?cs)" using base(3) by auto
  have 4: "set (members @ ?cs) \<subseteq> set attempts" "root \<in> set (members @ ?cs)" using base(4,5) sub by auto
  have 5: "set (members @ ?cs) \<subseteq> (lrel attempts)\<^sup>* `` {root}" using inv reach by simp
  show ?thesis unfolding comp_inv_def using 1 2 3 4 5 parents closed by blast
qed

lemma component_loop_ends:
  assumes "distinct_ids attempts" "is_root attempts root"
  shows "comp_inv attempts root stack members \<Longrightarrow>
    \<exists>res. component_loop attempts stack members = Some res \<and> comp_inv attempts root [] res \<and>
      (\<exists>new. res = members @ new)"
proof (induction "length attempts - (length members - length stack)" arbitrary: stack members rule: less_induct)
  case less
  show ?case
  proof (cases stack)
    case Nil
    then show ?thesis using less.prems component_loop.simps by simp
  next
    case (Cons node rest)
    let ?cs = "children_of attempts (at_id node)"
    note inv = less.prems [unfolded comp_inv_def]
    have "length members \<le> length attempts"
      using inv by (metis card_mono distinct_card List.finite_set card_length le_trans)
    moreover have "length stack \<le> length members"
      using inv by (metis card_mono distinct_card List.finite_set)
    ultimately have "length attempts - (length (members @ ?cs) - length (rev ?cs @ rest)) <
        length attempts - (length members - length stack)"
      using Cons by simp
    from less.hyps [OF this comp_inv_step [OF assms less.prems [unfolded Cons]]]
    show ?thesis using component_loop.simps [of attempts stack members] Cons by auto
  qed
qed

lemma component_of_root:
  assumes "distinct_ids attempts" "is_root attempts root" "root \<in> set attempts"
  shows "\<exists>res. component_loop attempts [root] [root] = Some res \<and> distinct res \<and>
    set res = (lrel attempts)\<^sup>* `` {root} \<and> res \<noteq> [] \<and> hd res = root"
proof -
  have "comp_inv attempts root [root] [root]" using assms by (auto simp: comp_inv_def)
  from component_loop_ends [OF assms(1,2) this] obtain res where
    res: "component_loop attempts [root] [root] = Some res" "comp_inv attempts root [] res" "\<exists>new. res = [root] @ new"
    by blast
  note inv = res(2) [unfolded comp_inv_def]
  have "x \<in> set res" if "(root, x) \<in> (lrel attempts)\<^sup>*" for x
    using that by (induction rule: rtrancl_induct) (use inv in auto)
  then show ?thesis using res(1,3) inv by auto
qed

lemma those_all: "(\<And>x. x \<in> set xs \<Longrightarrow> f x \<noteq> None) \<Longrightarrow> those (map f xs) = Some (map (the \<circ> f) xs)"
  by (induction xs) (auto split: option.splits)

lemma roots_separate:
  assumes "distinct_ids attempts" "is_root attempts r" "is_root attempts r'"
    and "(r, a) \<in> (lrel attempts)\<^sup>*" "(r', a) \<in> (lrel attempts)\<^sup>*"
  shows "r = r'"
proof -
  have "(a, r) \<in> ((lrel attempts)\<inverse>)\<^sup>*" "(a, r') \<in> ((lrel attempts)\<inverse>)\<^sup>*"
    using assms(4,5) by (simp_all add: rtrancl_converse)
  from single_valued_confluent [OF lrel_parent_unique [OF assms(1)] this]
  show ?thesis
    using is_root_no_parent [OF assms(2)] is_root_no_parent [OF assms(3)]
    by (auto simp: rtrancl_converse elim: rtranclE)
qed

lemma finite_lrel [simp]: "finite (lrel attempts)"
  by (rule finite_subset [of _ "set attempts \<times> set attempts"]) (auto simp: lrel_def)

lemma root_above:
  assumes "acyclic (lrel attempts)" "a \<in> set attempts"
  shows "\<exists>r \<in> set attempts. is_root attempts r \<and> (r, a) \<in> (lrel attempts)\<^sup>*"
proof -
  have "wf (lrel attempts)" using finite_acyclic_wf [OF finite_lrel assms(1)] .
  then show ?thesis using assms(2)
  proof (induction a rule: wf_induct_rule)
    case (less a)
    show ?case
    proof (cases "is_root attempts a")
      case True
      then show ?thesis using less.prems by auto
    next
      case False
      then obtain x where x: "x \<in> set attempts" "at_replacement_of a = Some (at_id x)"
        by (auto simp: is_root_def split: option.splits)
      then have "(x, a) \<in> lrel attempts" using less.prems by (simp add: lrel_def)
      then show ?thesis using less.IH [of x] x(1) by (meson rtrancl_into_rtrancl)
    qed
  qed
qed

section \<open>Lemmas on the tip\<close>

definition up :: "transaction_attempt list \<Rightarrow> string \<Rightarrow> string \<Rightarrow> bool" where
  "up members i j \<longleftrightarrow> parent_id members i = Some j"

definition ancestor_ids :: "transaction_attempt list \<Rightarrow> string option \<Rightarrow> string set" where
  "ancestor_ids members cur = {d. \<exists>p. cur = Some p \<and> (up members)\<^sup>*\<^sup>* p d}"

lemma ancestor_ids_None [simp]: "ancestor_ids members None = {}"
  by (simp add: ancestor_ids_def)

lemma ancestor_ids_Some: "ancestor_ids members (Some p) = insert p (ancestor_ids members (parent_id members p))"
proof -
  have "(up members)\<^sup>*\<^sup>* p d \<longleftrightarrow> d = p \<or> (\<exists>q. parent_id members p = Some q \<and> (up members)\<^sup>*\<^sup>* q d)" for d
    by (auto simp: up_def elim: converse_rtranclpE intro: converse_rtranclp_into_rtranclp)
  then show ?thesis by (auto simp: ancestor_ids_def)
qed

text \<open>Marked ids are closed upwards, but for the id the walk is about to mark.\<close>

definition up_closed :: "transaction_attempt list \<Rightarrow> string option \<Rightarrow> string set \<Rightarrow> bool" where
  "up_closed members cur marked \<longleftrightarrow>
     (\<forall>c \<in> marked. \<forall>d. parent_id members c = Some d \<longrightarrow> d \<in> marked \<or> cur = Some d)"

lemma up_closed_reach:
  assumes "up_closed members None marked" "p \<in> marked"
  shows "(up members)\<^sup>*\<^sup>* p d \<Longrightarrow> d \<in> marked"
  by (induction rule: rtranclp_induct) (use assms in \<open>auto simp: up_closed_def up_def\<close>)

lemma mark_ancestors_correct:
  "up_closed members cur marked \<Longrightarrow>
   mark_ancestors members cur marked = marked \<union> ancestor_ids members cur \<and>
   up_closed members None (mark_ancestors members cur marked)"
proof (induction members cur marked rule: mark_ancestors.induct)
  case (2 members p marked)
  show ?case
  proof (cases "p \<in> marked")
    case True
    then have cl: "up_closed members None marked" using "2.prems" by (auto simp: up_closed_def)
    then have "ancestor_ids members (Some p) \<subseteq> marked"
      using up_closed_reach [OF cl True] by (auto simp: ancestor_ids_def)
    then show ?thesis using True cl by auto
  next
    case False
    have "up_closed members (parent_id members p) (insert p marked)"
      using "2.prems" by (auto simp: up_closed_def)
    from "2.IH" [OF False this] show ?thesis using False by (auto simp: ancestor_ids_Some)
  qed
qed simp

definition in_flight :: "transaction_attempt \<Rightarrow> bool" where
  "in_flight a \<longleftrightarrow> \<not> attempt_terminal a \<and> \<not> pre_broadcast a"

lemma mark_member_eq:
  "mark_member members marked a =
     (if in_flight a then mark_ancestors members (at_replacement_of a) marked else marked)"
  by (simp add: mark_member_def in_flight_def)

lemma up_closed_weaken: "up_closed members None marked \<Longrightarrow> up_closed members cur marked"
  by (auto simp: up_closed_def)

lemma foldl_mark:
  "up_closed members None marked \<Longrightarrow>
   foldl (mark_member members) marked xs =
     marked \<union> (\<Union>a \<in> {a \<in> set xs. in_flight a}. ancestor_ids members (at_replacement_of a))"
proof (induction xs arbitrary: marked)
  case (Cons a xs)
  show ?case
  proof (cases "in_flight a")
    case True
    note m = mark_ancestors_correct [OF up_closed_weaken [OF Cons.prems], of "at_replacement_of a"]
    show ?thesis using Cons.IH [of "mark_member members marked a"] m True by (auto simp: mark_member_eq)
  next
    case False
    then show ?thesis using Cons.IH [OF Cons.prems] by (auto simp: mark_member_eq)
  qed
qed simp

lemma by_id_distinct:
  assumes "distinct_ids members"
  shows "by_id members i = Some x \<longleftrightarrow> x \<in> set members \<and> at_id x = i"
proof -
  let ?l = "rev (map (\<lambda>a. (at_id a, a)) members)"
  have "map fst ?l = rev (map at_id members)" by (simp add: rev_map comp_def)
  then have "distinct (map fst ?l)" using assms by simp
  then have "map_of ?l i = Some x \<longleftrightarrow> (i, x) \<in> set ?l" by (rule map_of_eq_Some_iff)
  then show ?thesis by (auto simp: by_id_def)
qed

lemma descendants:
  assumes "distinct_ids members" "a \<in> set members" "b \<in> set members"
  shows "at_id a \<in> ancestor_ids members (at_replacement_of b) \<longleftrightarrow> (a, b) \<in> (lrel members)\<^sup>+"
proof
  assume "at_id a \<in> ancestor_ids members (at_replacement_of b)"
  then obtain p where p: "at_replacement_of b = Some p" "(up members)\<^sup>*\<^sup>* p (at_id a)"
    by (auto simp: ancestor_ids_def)
  have "(up members)\<^sup>*\<^sup>* p i \<Longrightarrow> i = at_id a \<Longrightarrow> at_replacement_of b = Some p \<Longrightarrow> b \<in> set members \<Longrightarrow>
      (a, b) \<in> (lrel members)\<^sup>+" for i
  proof (induction arbitrary: b rule: converse_rtranclp_induct)
    case base
    then show ?case using assms(2) by (auto simp: lrel_def)
  next
    case (step y z)
    then obtain x where x: "x \<in> set members" "at_id x = y" "at_replacement_of x = Some z"
      by (auto simp: up_def parent_id_def bind_eq_Some_conv by_id_distinct [OF assms(1)])
    then have "(a, x) \<in> (lrel members)\<^sup>+" using step by blast
    moreover have "(x, b) \<in> lrel members" using x step.prems by (simp add: lrel_def)
    ultimately show ?case by simp
  qed
  then show "(a, b) \<in> (lrel members)\<^sup>+" using p assms(3) by blast
next
  assume "(a, b) \<in> (lrel members)\<^sup>+"
  then show "at_id a \<in> ancestor_ids members (at_replacement_of b)"
  proof (induction rule: trancl_induct)
    case (base b)
    then show ?case by (auto simp: lrel_def ancestor_ids_def)
  next
    case (step b c)
    have "parent_id members (at_id b) = at_replacement_of b"
      using step(2) by_id_distinct [OF assms(1), of "at_id b" b] by (auto simp: lrel_def parent_id_def)
    then show ?case using step by (auto simp: lrel_def ancestor_ids_Some)
  qed
qed

lemma lineage_tip_find:
  assumes "distinct_ids members"
  shows "lineage_tip members =
    find (\<lambda>a. \<not> attempt_terminal a \<and> \<not> (\<exists>b \<in> set members. in_flight b \<and> (a, b) \<in> (lrel members)\<^sup>+)) members"
proof -
  have cl: "up_closed members None {}" by (simp add: up_closed_def)
  show ?thesis unfolding lineage_tip_def foldl_mark [OF cl] Let_def
    by (rule find_cong [OF refl]) (use descendants [OF assms] in \<open>simp, blast\<close>)
qed

lemma lineage_tip_exists:
  assumes "distinct_ids members" "acyclic (lrel members)" "a \<in> set members" "\<not> attempt_terminal a"
  shows "lineage_tip members \<noteq> None"
proof
  assume "lineage_tip members = None"
  then have step: "\<exists>b \<in> set members. in_flight b \<and> (x, b) \<in> (lrel members)\<^sup>+"
    if "x \<in> set members" "\<not> attempt_terminal x" for x
    using that by (auto simp: lineage_tip_find [OF assms(1)] find_None_iff)
  have "acyclic ((lrel members)\<inverse>)" using assms(2) by simp
  then have "wf ((lrel members)\<inverse>)" by (intro finite_acyclic_wf) simp_all
  then have "wf (((lrel members)\<inverse>)\<^sup>+)" by (rule wf_trancl)
  then show False using assms(3,4)
  proof (induction a rule: wf_induct_rule)
    case (less a)
    from step [OF less.prems] obtain b where "b \<in> set members" "in_flight b" "(a, b) \<in> (lrel members)\<^sup>+" by blast
    then show ?case using less.IH [of b] unfolding in_flight_def trancl_converse by blast
  qed
qed

section \<open>Properties\<close>

text \<open>
  C37: When the ids of the attempts are distinct the traversal of every lineage ends, and the
  components it returns are the lineages: one per attempt that replaces none of the others, each
  free of duplicates, starting with that attempt and holding exactly the attempts that replace
  it directly or through others; no attempt is in two components, and when the links have no
  cycle every attempt is in one.
\<close>

theorem lineages_partition_attempts:
  assumes "distinct_ids attempts"
  shows "\<exists>cs. lineage_components attempts = Some cs \<and>
    map hd cs = filter (is_root attempts) attempts \<and>
    (\<forall>members \<in> set cs. members \<noteq> [] \<and> distinct members \<and> set members = (lrel attempts)\<^sup>* `` {hd members}) \<and>
    (\<forall>m1 \<in> set cs. \<forall>m2 \<in> set cs. m1 \<noteq> m2 \<longrightarrow> set m1 \<inter> set m2 = {}) \<and>
    (acyclic (lrel attempts) \<longrightarrow> (\<Union>members \<in> set cs. set members) = set attempts)"
proof -
  let ?roots = "filter (is_root attempts) attempts" and ?f = "\<lambda>root. component_loop attempts [root] [root]"
  let ?cs = "map (the \<circ> ?f) ?roots"
  have one: "?f r = Some (the (?f r)) \<and> distinct (the (?f r)) \<and> the (?f r) \<noteq> [] \<and>
      set (the (?f r)) = (lrel attempts)\<^sup>* `` {r} \<and> hd (the (?f r)) = r" if "r \<in> set ?roots" for r
  proof -
    have "is_root attempts r" "r \<in> set attempts" using that by simp_all
    from component_of_root [OF assms this] show ?thesis by (elim exE conjE) simp
  qed
  have "lineage_components attempts = Some ?cs"
    unfolding lineage_components_def by (rule those_all) (use one in fastforce)
  moreover have "map hd ?cs = ?roots" unfolding map_map by (rule map_idI) (use one in simp)
  moreover have "\<forall>members \<in> set ?cs. members \<noteq> [] \<and> distinct members \<and>
      set members = (lrel attempts)\<^sup>* `` {hd members}" using one by auto
  moreover have "\<forall>m1 \<in> set ?cs. \<forall>m2 \<in> set ?cs. m1 \<noteq> m2 \<longrightarrow> set m1 \<inter> set m2 = {}"
  proof (intro ballI impI)
    fix m1 m2 assume "m1 \<in> set ?cs" "m2 \<in> set ?cs" "m1 \<noteq> m2"
    then obtain r1 r2 where r: "r1 \<in> set ?roots" "r2 \<in> set ?roots" "m1 = the (?f r1)" "m2 = the (?f r2)" "r1 \<noteq> r2"
      by auto
    have "is_root attempts r1" "is_root attempts r2" using r(1,2) by simp_all
    then show "set m1 \<inter> set m2 = {}"
      using one [OF r(1)] one [OF r(2)] roots_separate [OF assms] r(3-5) by blast
  qed
  moreover have "(\<Union>members \<in> set ?cs. set members) = set attempts" if "acyclic (lrel attempts)"
  proof
    have "x \<in> set attempts" if "(r, x) \<in> (lrel attempts)\<^sup>*" "r \<in> set attempts" for r x
      using that by (induction rule: rtrancl_induct) (auto simp: lrel_def)
    then have "set (the (?f r)) \<subseteq> set attempts" if "r \<in> set ?roots" for r using one [OF that] that by auto
    then show "(\<Union>members \<in> set ?cs. set members) \<subseteq> set attempts" by auto
    show "set attempts \<subseteq> (\<Union>members \<in> set ?cs. set members)"
    proof
      fix x assume "x \<in> set attempts"
      from root_above [OF that this] obtain r where r: "r \<in> set ?roots" "(r, x) \<in> (lrel attempts)\<^sup>*" by auto
      then have "x \<in> set (the (?f r))" using one [OF r(1)] by blast
      then show "x \<in> (\<Union>members \<in> set ?cs. set members)" using r(1) by auto
    qed
  qed
  ultimately show ?thesis by blast
qed

text \<open>A lineage of three attempts beside a single one, for the instances below.\<close>

definition lineage_attempt :: "string \<Rightarrow> string option \<Rightarrow> attempt_status \<Rightarrow> nat \<Rightarrow> transaction_attempt" where
  "lineage_attempt ident parent st fee =
     (planned 1 ident (OrderScope ''o1'') None Fill
        (Evm \<lparr>tx_to = None, tx_data = [], tx_value = 0, tx_chain_id = 1, tx_nonce = Some 0,
              tx_gas_limit = None, tx_gas_price = None, tx_max_fee_per_gas = Some fee,
              tx_max_priority_fee_per_gas = None\<rparr>))
       \<lparr>at_status := st, at_replacement_of := parent, at_tx_hash := Some []\<rparr>"

definition sample_lineage :: "transaction_attempt list" where
  "sample_lineage = [lineage_attempt ''a'' None Broadcast 10, lineage_attempt ''b'' (Some ''a'') SubmitRejected 12,
     lineage_attempt ''c'' (Some ''a'') Broadcast 15, lineage_attempt ''x'' None Reverted 9]"

lemma sample_lineage_ids: "distinct_ids sample_lineage"
  by (simp add: sample_lineage_def lineage_attempt_def planned_def)

theorem lineages_partition_attempts_witness:
  "\<exists>cs. lineage_components sample_lineage = Some cs \<and>
     map hd cs = [lineage_attempt ''a'' None Broadcast 10, lineage_attempt ''x'' None Reverted 9]"
proof -
  have "filter (is_root sample_lineage) sample_lineage =
      [lineage_attempt ''a'' None Broadcast 10, lineage_attempt ''x'' None Reverted 9]"
    by (simp add: sample_lineage_def is_root_def lineage_attempt_def planned_def)
  then show ?thesis using lineages_partition_attempts [OF sample_lineage_ids] by auto
qed

text \<open>
  The tip of a lineage with distinct ids is an attempt of it that is not terminal and that
  no attempt in flight replaces, directly or through others; the only open attempts that may
  replace it are planned ones that were never broadcast.  When the links have no cycle there is
  a tip unless every attempt is terminal.
\<close>

theorem tip_is_newest_in_flight:
  assumes "distinct_ids members"
  shows "(\<forall>t. lineage_tip members = Some t \<longrightarrow> t \<in> set members \<and> \<not> attempt_terminal t \<and>
      (\<forall>b \<in> set members. (t, b) \<in> (lrel members)\<^sup>+ \<longrightarrow> attempt_terminal b \<or> pre_broadcast b)) \<and>
    (acyclic (lrel members) \<longrightarrow> (lineage_tip members = None \<longleftrightarrow> (\<forall>a \<in> set members. attempt_terminal a)))"
proof -
  have "t \<in> set members \<and> \<not> attempt_terminal t \<and>
      (\<forall>b \<in> set members. (t, b) \<in> (lrel members)\<^sup>+ \<longrightarrow> attempt_terminal b \<or> pre_broadcast b)"
    if "lineage_tip members = Some t" for t
    using that unfolding lineage_tip_find [OF assms] find_Some_iff in_flight_def by auto
  moreover have "lineage_tip members = None" if "\<forall>a \<in> set members. attempt_terminal a"
    using that unfolding lineage_tip_find [OF assms] find_None_iff by blast
  ultimately show ?thesis using lineage_tip_exists [OF assms] by blast
qed

theorem tip_is_newest_in_flight_witness:
  "lineage_tip sample_lineage \<noteq> Some (lineage_attempt ''a'' None Broadcast 10)"
proof
  assume tip: "lineage_tip sample_lineage = Some (lineage_attempt ''a'' None Broadcast 10)"
  let ?c = "lineage_attempt ''c'' (Some ''a'') Broadcast 15"
  have "(lineage_attempt ''a'' None Broadcast 10, ?c) \<in> lrel sample_lineage"
    by (simp add: lrel_def sample_lineage_def) (simp add: lineage_attempt_def planned_def)
  moreover have "?c \<in> set sample_lineage" by (simp add: sample_lineage_def)
  ultimately have "attempt_terminal ?c \<or> pre_broadcast ?c"
    using tip_is_newest_in_flight [OF sample_lineage_ids] tip by blast
  then show False by (simp add: lineage_attempt_def planned_def attempt_terminal_iff pre_broadcast_def)
qed

text \<open>
  Contrary to the comment in \<^verbatim>\<open>lineage_tip\<close>, a replacement that was planned but never
  broadcast can be the tip: it is, whenever it is the only open attempt of its lineage.
\<close>

theorem planned_replacement_can_be_tip:
  assumes "at_id a \<noteq> at_id c" "at_replacement_of c = Some (at_id a)"
    and "attempt_terminal a" "at_status c = Planned" "at_tx_hash c = None"
  shows "lineage_tip [a, c] = Some c"
proof -
  have "\<not> attempt_terminal c" "pre_broadcast c"
    using assms(4,5) by (simp_all add: attempt_terminal_iff pre_broadcast_def)
  then show ?thesis using assms(3) by (simp add: lineage_tip_def mark_member_def)
qed

theorem planned_replacement_can_be_tip_witness:
  "lineage_tip [lineage_attempt ''a'' None Reverted 10, (lineage_attempt ''b'' (Some ''a'') Planned 12)\<lparr>at_tx_hash := None\<rparr>]
     = Some ((lineage_attempt ''b'' (Some ''a'') Planned 12)\<lparr>at_tx_hash := None\<rparr>)"
  by (rule planned_replacement_can_be_tip)
    (simp_all add: lineage_attempt_def planned_def attempt_terminal_iff)

text \<open>
  The fees of a bump: each fee stays within \<^verbatim>\<open>u128\<close> and never goes down, a positive percentage
  raises every positive fee that is not already the maximum, and by at least the percentage where
  nothing saturates; and where the cap check passes, no bumped fee is above its cap.
\<close>

theorem bump_raises_within_caps:
  assumes "apply_bump_percent tx pct = fees" and "tx_max_fee_per_gas tx = Some v" and "v < u128_bound"
    and "bumped_fees_exceed_cap fees (Some cap) pcap = None"
  shows "\<exists>v'. bf_max_fee_per_gas fees = Some v' \<and> v \<le> v' \<and> v' < u128_bound \<and> v' \<le> cap \<and>
    (pct > 0 \<and> v > 0 \<and> v + 1 < u128_bound \<longrightarrow> v < v') \<and>
    (v * pct < u128_bound \<and> v + v * pct div 100 < u128_bound \<longrightarrow> v + v * pct div 100 \<le> v')"
proof -
  have f: "bf_max_fee_per_gas fees = Some (bump_value pct v)"
    using assms(1,2) by (auto simp: apply_bump_percent_def)
  then have "bump_value pct v \<le> cap"
    using assms(4) by (auto simp: bumped_fees_exceed_cap_def over_cap_def split: if_splits)
  then show ?thesis using f bump_value_bounds [OF assms(3), of pct] by auto
qed

theorem bump_raises_within_caps_witness:
  "\<exists>v'. bf_max_fee_per_gas (apply_bump_percent (the (as_evm (at_tx (lineage_attempt ''a'' None Broadcast 200)))) 15)
      = Some v' \<and> 200 + 30 \<le> v' \<and> v' \<le> 230"
proof -
  let ?tx = "the (as_evm (at_tx (lineage_attempt ''a'' None Broadcast 200)))"
  have fee: "tx_max_fee_per_gas ?tx = Some 200" by (simp add: lineage_attempt_def planned_def)
  have "bumped_fees_exceed_cap (apply_bump_percent ?tx 15) (Some 230) None = None"
    by (simp add: bumped_fees_exceed_cap_def apply_bump_percent_def over_cap_def lineage_attempt_def planned_def
        bump_value_def saturating_mul_def saturating_add_def Let_def)
  from bump_raises_within_caps [OF refl fee _ this] show ?thesis by auto
qed

end
