(* ===== verification/Bump_Config.thy ===== *)
theory Bump_Config
  imports Prelude
begin

text \<open>
  The transaction-bump policy of \<^verbatim>\<open>crates/solver-config/src/lib.rs\<close>: per-chain overrides, their
  resolution into an effective policy, and the validation run when a configuration is loaded.
  The hash map of chains is an association list; only which error is reported first depends on
  its order.
\<close>

section \<open>Configuration\<close>

record tx_bump_chain_config =
  cc_pending_threshold_secs :: "nat option"
  cc_bump_percent :: "nat option"
  cc_max_replacements_per_stage :: "nat option"
  cc_max_fee_per_gas_cap_wei :: "string option"
  cc_max_priority_fee_per_gas_cap_wei :: "string option"
  cc_profitability_gate_fail_closed :: "bool option"
  cc_receipt_preflight_fail_closed :: "bool option"

record tx_bump_config =
  tb_enabled :: bool
  tb_sweep_interval_secs :: nat
  tb_default_pending_threshold_secs :: nat
  tb_default_bump_percent :: nat
  tb_default_max_replacements_per_stage :: nat
  tb_default_max_fee_per_gas_cap_wei :: "string option"
  tb_default_max_priority_fee_per_gas_cap_wei :: "string option"
  tb_default_profitability_gate_fail_closed :: bool
  tb_default_receipt_preflight_fail_closed :: bool
  tb_chains :: "(nat \<times> tx_bump_chain_config) list"

definition default_tx_bump_config :: tx_bump_config where
  "default_tx_bump_config =
     \<lparr>tb_enabled = False, tb_sweep_interval_secs = 15, tb_default_pending_threshold_secs = 60,
      tb_default_bump_percent = 15, tb_default_max_replacements_per_stage = 3,
      tb_default_max_fee_per_gas_cap_wei = None, tb_default_max_priority_fee_per_gas_cap_wei = None,
      tb_default_profitability_gate_fail_closed = False,
      tb_default_receipt_preflight_fail_closed = True, tb_chains = []\<rparr>"

record effective_policy =
  pol_pending_threshold_secs :: nat
  pol_bump_percent :: nat
  pol_max_replacements_per_stage :: nat
  pol_max_fee_per_gas_cap_wei :: "nat option"
  pol_max_priority_fee_per_gas_cap_wei :: "nat option"
  pol_profitability_gate_fail_closed :: bool
  pol_receipt_preflight_fail_closed :: bool

definition unwrap_or :: "'a option \<Rightarrow> 'a \<Rightarrow> 'a" where
  "unwrap_or x d = (case x of None \<Rightarrow> d | Some v \<Rightarrow> v)"

definition or_else :: "'a option \<Rightarrow> 'a option \<Rightarrow> 'a option" where
  "or_else x y = (case x of None \<Rightarrow> y | Some v \<Rightarrow> Some v)"

definition parse_cap :: "string option \<Rightarrow> nat option" where
  "parse_cap s = Option.bind s (\<lambda>t. result_ok (parse_uint u128_bound t))"

definition for_chain :: "tx_bump_config \<Rightarrow> nat \<Rightarrow> effective_policy option" where
  "for_chain cfg chain_id =
     (case map_of (tb_chains cfg) chain_id of
        None \<Rightarrow> None
      | Some c \<Rightarrow> Some
          \<lparr>pol_pending_threshold_secs =
             unwrap_or (cc_pending_threshold_secs c) (tb_default_pending_threshold_secs cfg),
           pol_bump_percent = unwrap_or (cc_bump_percent c) (tb_default_bump_percent cfg),
           pol_max_replacements_per_stage =
             unwrap_or (cc_max_replacements_per_stage c) (tb_default_max_replacements_per_stage cfg),
           pol_max_fee_per_gas_cap_wei =
             or_else (parse_cap (cc_max_fee_per_gas_cap_wei c))
               (parse_cap (tb_default_max_fee_per_gas_cap_wei cfg)),
           pol_max_priority_fee_per_gas_cap_wei =
             or_else (parse_cap (cc_max_priority_fee_per_gas_cap_wei c))
               (parse_cap (tb_default_max_priority_fee_per_gas_cap_wei cfg)),
           pol_profitability_gate_fail_closed =
             unwrap_or (cc_profitability_gate_fail_closed c) (tb_default_profitability_gate_fail_closed cfg),
           pol_receipt_preflight_fail_closed =
             unwrap_or (cc_receipt_preflight_fail_closed c) (tb_default_receipt_preflight_fail_closed cfg)\<rparr>)"

section \<open>Validation\<close>

text \<open>An optional cap string: an error with the given text in front, or the parsed cap.\<close>

definition check_cap :: "string \<Rightarrow> string option \<Rightarrow> (string, nat option) result" where
  "check_cap pre s =
     (case s of
        None \<Rightarrow> Inr None
      | Some t \<Rightarrow> (case parse_uint u128_bound t of Inl e \<Rightarrow> Inl (pre @ e) | Inr n \<Rightarrow> Inr (Some n)))"

definition caps_crossed :: "nat option \<Rightarrow> nat option \<Rightarrow> bool" where
  "caps_crossed priority fee = (case (priority, fee) of (Some p, Some f) \<Rightarrow> p > f | _ \<Rightarrow> False)"

definition validate_chain ::
  "nat option \<Rightarrow> nat option \<Rightarrow> nat \<times> tx_bump_chain_config \<Rightarrow> (string, unit) result" where
  "validate_chain default_fee_cap default_priority_cap ch =
     (case ch of (chain_id, c) \<Rightarrow>
       (let name = ''tx_bump.chains.'' @ to_dec chain_id in
       if (case cc_bump_percent c of None \<Rightarrow> False | Some bp \<Rightarrow> \<not> (10 \<le> bp \<and> bp \<le> 100))
       then Inl (name @ ''.bump_percent must be in [10, 100], got '' @ to_dec (the (cc_bump_percent c)))
       else (case check_cap (name @ ''.max_fee_per_gas_cap_wei: '') (cc_max_fee_per_gas_cap_wei c) of
               Inl e \<Rightarrow> Inl e
             | Inr chain_fee_cap \<Rightarrow>
                 (case check_cap (name @ ''.max_priority_fee_per_gas_cap_wei: '')
                        (cc_max_priority_fee_per_gas_cap_wei c) of
                    Inl e \<Rightarrow> Inl e
                  | Inr chain_priority_cap \<Rightarrow>
                      if caps_crossed (or_else chain_priority_cap default_priority_cap)
                           (or_else chain_fee_cap default_fee_cap)
                      then Inl (name @ '': priority cap must be <= fee cap'')
                      else Inr ()))))"

fun validate_chains ::
  "nat option \<Rightarrow> nat option \<Rightarrow> (nat \<times> tx_bump_chain_config) list \<Rightarrow> (string, unit) result" where
  "validate_chains fcap pcap [] = Inr ()"
| "validate_chains fcap pcap (ch # chs) =
     (case validate_chain fcap pcap ch of Inl e \<Rightarrow> Inl e | Inr _ \<Rightarrow> validate_chains fcap pcap chs)"

definition validate_tx_bump :: "tx_bump_config \<Rightarrow> (string, unit) result" where
  "validate_tx_bump cfg =
     (if tb_sweep_interval_secs cfg = 0 then Inl ''tx_bump.sweep_interval_secs must be >= 1''
      else if \<not> (10 \<le> tb_default_bump_percent cfg \<and> tb_default_bump_percent cfg \<le> 100)
      then Inl (''tx_bump.default_bump_percent must be in [10, 100], got '' @
             to_dec (tb_default_bump_percent cfg))
      else if tb_default_max_replacements_per_stage cfg = 0
      then Inl ''tx_bump.default_max_replacements_per_stage must be >= 1''
      else (case check_cap ''tx_bump.default_max_fee_per_gas_cap_wei parse error: ''
                   (tb_default_max_fee_per_gas_cap_wei cfg) of
              Inl e \<Rightarrow> Inl e
            | Inr default_fee_cap \<Rightarrow>
                (case check_cap ''tx_bump.default_max_priority_fee_per_gas_cap_wei parse error: ''
                       (tb_default_max_priority_fee_per_gas_cap_wei cfg) of
                   Inl e \<Rightarrow> Inl e
                 | Inr default_priority_cap \<Rightarrow>
                     if caps_crossed default_priority_cap default_fee_cap
                     then Inl ''tx_bump default: priority cap must be <= fee cap''
                     else validate_chains default_fee_cap default_priority_cap (tb_chains cfg))))"

fun validate_against_networks :: "(nat \<times> tx_bump_chain_config) list \<Rightarrow> nat set \<Rightarrow> (string, unit) result" where
  "validate_against_networks [] configured = Inr ()"
| "validate_against_networks ((chain_id, c) # chs) configured =
     (if chain_id \<notin> configured
      then Inl (''tx_bump.chains.'' @ to_dec chain_id @ '' not present in networks config'')
      else validate_against_networks chs configured)"

section \<open>Lemmas\<close>

lemma check_cap_ok: "check_cap pre s = Inr cap \<Longrightarrow> parse_cap s = cap \<and> (s \<noteq> None \<longrightarrow> cap \<noteq> None)"
  by (auto simp: check_cap_def parse_cap_def split: option.splits sum.splits)

lemma validate_chains_all: "validate_chains fcap pcap chs = Inr () \<longleftrightarrow> (\<forall>ch \<in> set chs. validate_chain fcap pcap ch = Inr ())"
  by (induction chs) (auto split: sum.splits)

lemma validate_chain_ok:
  assumes "validate_chain fcap pcap (i, c) = Inr ()"
  shows "(case cc_bump_percent c of None \<Rightarrow> True | Some bp \<Rightarrow> 10 \<le> bp \<and> bp \<le> 100)"
    and "cc_max_fee_per_gas_cap_wei c \<noteq> None \<longrightarrow> parse_cap (cc_max_fee_per_gas_cap_wei c) \<noteq> None"
    and "cc_max_priority_fee_per_gas_cap_wei c \<noteq> None \<longrightarrow> parse_cap (cc_max_priority_fee_per_gas_cap_wei c) \<noteq> None"
    and "\<not> caps_crossed (or_else (parse_cap (cc_max_priority_fee_per_gas_cap_wei c)) pcap)
      (or_else (parse_cap (cc_max_fee_per_gas_cap_wei c)) fcap)"
  using assms
  by (auto simp: validate_chain_def Let_def split: if_splits sum.splits option.splits dest!: check_cap_ok)

section \<open>Properties\<close>

text \<open>
  Once a configuration has passed validation, the policy resolved for any configured chain
  bumps by 10 to 100 percent, has a cap wherever one is written for the chain or as a default
  (nothing is dropped in parsing), and its priority-fee cap is not above its fee cap.
\<close>

theorem validated_policy_sound:
  assumes "validate_tx_bump cfg = Inr ()" and "map_of (tb_chains cfg) chain_id = Some c"
  shows "\<exists>pol. for_chain cfg chain_id = Some pol \<and> 10 \<le> pol_bump_percent pol \<and> pol_bump_percent pol \<le> 100 \<and>
    (cc_max_fee_per_gas_cap_wei c \<noteq> None \<or> tb_default_max_fee_per_gas_cap_wei cfg \<noteq> None \<longrightarrow>
       pol_max_fee_per_gas_cap_wei pol \<noteq> None) \<and>
    (cc_max_priority_fee_per_gas_cap_wei c \<noteq> None \<or> tb_default_max_priority_fee_per_gas_cap_wei cfg \<noteq> None \<longrightarrow>
       pol_max_priority_fee_per_gas_cap_wei pol \<noteq> None) \<and>
    (\<forall>p f. pol_max_priority_fee_per_gas_cap_wei pol = Some p \<and> pol_max_fee_per_gas_cap_wei pol = Some f \<longrightarrow> p \<le> f)"
proof -
  define fcap where "fcap = parse_cap (tb_default_max_fee_per_gas_cap_wei cfg)"
  define pcap where "pcap = parse_cap (tb_default_max_priority_fee_per_gas_cap_wei cfg)"
  have pct: "10 \<le> tb_default_bump_percent cfg" "tb_default_bump_percent cfg \<le> 100"
    using assms(1) by (auto simp: validate_tx_bump_def split: if_splits)
  have caps: "tb_default_max_fee_per_gas_cap_wei cfg \<noteq> None \<longrightarrow> fcap \<noteq> None"
    "tb_default_max_priority_fee_per_gas_cap_wei cfg \<noteq> None \<longrightarrow> pcap \<noteq> None"
    and chains: "validate_chains fcap pcap (tb_chains cfg) = Inr ()"
    using assms(1) by (auto simp: validate_tx_bump_def fcap_def pcap_def split: if_splits sum.splits dest!: check_cap_ok)
  have "(chain_id, c) \<in> set (tb_chains cfg)" using assms(2) by (rule map_of_SomeD)
  then have "validate_chain fcap pcap (chain_id, c) = Inr ()" using chains by (simp add: validate_chains_all)
  note ch = validate_chain_ok [OF this]
  show ?thesis
    using ch pct caps assms(2)
    by (auto simp: for_chain_def unwrap_or_def or_else_def caps_crossed_def fcap_def [symmetric]
        pcap_def [symmetric] split: option.splits)
qed

definition sample_bump_config :: "string \<Rightarrow> tx_bump_config" where
  "sample_bump_config cap = default_tx_bump_config\<lparr>tb_chains :=
     [(1, \<lparr>cc_pending_threshold_secs = None, cc_bump_percent = Some 20, cc_max_replacements_per_stage = None,
           cc_max_fee_per_gas_cap_wei = Some cap, cc_max_priority_fee_per_gas_cap_wei = Some ''50'',
           cc_profitability_gate_fail_closed = None, cc_receipt_preflight_fail_closed = None\<rparr>)]\<rparr>"

theorem validated_policy_sound_witness:
  "\<exists>pol. for_chain (sample_bump_config ''100'') 1 = Some pol \<and> pol_max_fee_per_gas_cap_wei pol \<noteq> None \<and>
     pol_bump_percent pol \<le> 100"
proof -
  have "validate_tx_bump (sample_bump_config ''100'') = Inr ()"
    by (simp add: validate_tx_bump_def validate_chain_def sample_bump_config_def default_tx_bump_config_def
        check_cap_def parse_uint_def digit_of_def caps_crossed_def or_else_def Let_def)
  moreover have "map_of (tb_chains (sample_bump_config ''100'')) 1 = Some
     \<lparr>cc_pending_threshold_secs = None, cc_bump_percent = Some 20, cc_max_replacements_per_stage = None,
           cc_max_fee_per_gas_cap_wei = Some ''100'', cc_max_priority_fee_per_gas_cap_wei = Some ''50'',
           cc_profitability_gate_fail_closed = None, cc_receipt_preflight_fail_closed = None\<rparr>"
    by (simp add: sample_bump_config_def)
  ultimately show ?thesis using validated_policy_sound by fastforce
qed

text \<open>
  Contrary to the comment on \<^verbatim>\<open>for_chain\<close>, a cap string that does not parse does not make the
  policy absent: the chain still has a policy, and without a default cap it has no fee cap at all.
  Only validation keeps such a configuration out.
\<close>

theorem unparsable_cap_means_no_cap:
  assumes "map_of (tb_chains cfg) chain_id = Some c" and "cc_max_fee_per_gas_cap_wei c = Some t"
    and "parse_uint u128_bound t = Inl e" and "tb_default_max_fee_per_gas_cap_wei cfg = None"
  shows "\<exists>pol. for_chain cfg chain_id = Some pol \<and> pol_max_fee_per_gas_cap_wei pol = None"
  using assms by (simp add: for_chain_def parse_cap_def or_else_def)

theorem unparsable_cap_means_no_cap_witness:
  "\<exists>pol. for_chain (sample_bump_config ''1e9'') 1 = Some pol \<and> pol_max_fee_per_gas_cap_wei pol = None"
proof -
  have "parse_uint u128_bound ''1e9'' = Inl ''invalid digit found in string''"
    by (simp add: parse_uint_def digit_of_def)
  then show ?thesis
    by (intro unparsable_cap_means_no_cap)
      (auto simp: sample_bump_config_def default_tx_bump_config_def)
qed

end
