(* ===== verification/Memory_Storage.thy ===== *)
theory Memory_Storage
  imports Storage_Interface
begin

text \<open>
  \<^verbatim>\<open>crates/solver-storage/src/implementations/memory.rs\<close>: the in-memory backend.  The value
  store and the nested secondary index (namespace, field, value, set of keys) are association
  lists, as Rust's hash maps are; the clock reading is an argument.  The lemmas show that the
  two structures together implement one abstract table of rows (value, expiry, indexed fields),
  that a query returns exactly the live rows that match, in key order, and that the backend
  satisfies \<open>storage_contract\<close>.  Each operation here is a whole call, run without another one between
  its locks; \<open>Memory_Interleaving\<close> has the calls split at their locks.
\<close>

section \<open>State\<close>

record 'b storage_entry =
  se_value :: 'b
  se_expires_at :: "nat option"

definition is_expired :: "nat \<Rightarrow> 'b storage_entry \<Rightarrow> bool" where
  "is_expired now e = (case se_expires_at e of None \<Rightarrow> False | Some t \<Rightarrow> now > t)"

type_synonym field_index = "(json \<times> string set) list"
type_synonym namespace_index = "(string \<times> field_index) list"
type_synonym memory_indexes = "(string \<times> namespace_index) list"

record 'b memory_storage =
  ms_store :: "(string \<times> 'b storage_entry) list"
  ms_indexes :: memory_indexes

definition memory_new :: "'b memory_storage" where
  "memory_new = \<lparr>ms_store = [], ms_indexes = []\<rparr>"

section \<open>Index maintenance\<close>

definition namespace_from_key :: "string \<Rightarrow> string" where
  "namespace_from_key key = hd (split_on CHR '':'' key)"

definition prune_field_index :: "string \<Rightarrow> field_index \<Rightarrow> field_index" where
  "prune_field_index key fi = retain (\<lambda>_ keys. keys \<noteq> {}) (map_values (\<lambda>keys. keys - {key}) fi)"

definition prune_namespace_index :: "string \<Rightarrow> namespace_index \<Rightarrow> namespace_index" where
  "prune_namespace_index key ni = retain (\<lambda>_ fi. fi \<noteq> []) (map_values (prune_field_index key) ni)"

definition remove_key_from_indexes :: "memory_indexes \<Rightarrow> string \<Rightarrow> memory_indexes" where
  "remove_key_from_indexes ix key =
     retain (\<lambda>_ ni. ni \<noteq> []) (map_values (prune_namespace_index key) ix)"

definition add_field :: "string \<Rightarrow> namespace_index \<Rightarrow> string \<times> json \<Rightarrow> namespace_index" where
  "add_field key ni fv =
     entry_update (fst fv) [] (\<lambda>fi. entry_update (snd fv) {} (insert key) fi) ni"

definition apply_indexes_for_key :: "memory_indexes \<Rightarrow> string \<Rightarrow> storage_indexes \<Rightarrow> memory_indexes" where
  "apply_indexes_for_key ix key flds =
     entry_update (namespace_from_key key) [] (\<lambda>ni. foldl (add_field key) ni flds) ix"

definition keys_for_namespace ::
  "nat \<Rightarrow> (string \<times> 'b storage_entry) list \<Rightarrow> string \<Rightarrow> string set" where
  "keys_for_namespace now store namespace =
     set (map fst (filter (\<lambda>(key, entry). \<not> is_expired now entry \<and>
                              starts_with (namespace @ '':'') key) store))"

definition indexed_keys :: "memory_indexes \<Rightarrow> string \<Rightarrow> string \<Rightarrow> json \<Rightarrow> string set" where
  "indexed_keys ix namespace fld v =
     (case map_of ix namespace of None \<Rightarrow> {} | Some ni \<Rightarrow>
     (case map_of ni fld of None \<Rightarrow> {} | Some fi \<Rightarrow>
     (case map_of fi v of None \<Rightarrow> {} | Some keys \<Rightarrow> keys)))"

definition indexed_query_keys ::
  "nat \<Rightarrow> (string \<times> 'b storage_entry) list \<Rightarrow> memory_indexes \<Rightarrow> string \<Rightarrow> query_filter \<Rightarrow> string list" where
  "indexed_query_keys now store ix namespace flt =
     (let all = keys_for_namespace now store namespace;
          keys = (case flt of
              All \<Rightarrow> all
            | Equals fld expected \<Rightarrow> indexed_keys ix namespace fld expected
            | NotEquals fld expected \<Rightarrow> all - indexed_keys ix namespace fld expected
            | In fld vs \<Rightarrow> \<Union> (set (map (indexed_keys ix namespace fld) vs))
            | NotIn fld vs \<Rightarrow> all - \<Union> (set (map (indexed_keys ix namespace fld) vs)))
      in sorted_list_of_set (keys \<inter> all))"

definition refresh_memory_indexes ::
  "memory_indexes \<Rightarrow> string \<Rightarrow> storage_indexes option \<Rightarrow> memory_indexes" where
  "refresh_memory_indexes ix key flds =
     (let ix1 = remove_key_from_indexes ix key
      in (case flds of None \<Rightarrow> ix1 | Some fs \<Rightarrow> apply_indexes_for_key ix1 key fs))"

section \<open>Operations\<close>

definition mk_entry :: "nat \<Rightarrow> 'b \<Rightarrow> nat option \<Rightarrow> 'b storage_entry" where
  "mk_entry now v ttl = \<lparr>se_value = v, se_expires_at = map_option (\<lambda>d. now + d) ttl\<rparr>"

definition put_entry ::
  "nat \<Rightarrow> 'b memory_storage \<Rightarrow> string \<Rightarrow> 'b \<Rightarrow> storage_indexes option \<Rightarrow> nat option
   \<Rightarrow> 'b memory_storage" where
  "put_entry now m key v flds ttl =
     m\<lparr>ms_store := AList.update key (mk_entry now v ttl) (ms_store m),
       ms_indexes := refresh_memory_indexes (ms_indexes m) key flds\<rparr>"

definition memory_get_bytes ::
  "nat \<Rightarrow> 'b memory_storage \<Rightarrow> string \<Rightarrow> (storage_error, 'b) result" where
  "memory_get_bytes now m key =
     (case map_of (ms_store m) key of
        Some entry \<Rightarrow> if \<not> is_expired now entry then Inr (se_value entry) else Inl (NotFound key)
      | None \<Rightarrow> Inl (NotFound key))"

definition memory_set_bytes ::
  "nat \<Rightarrow> 'b memory_storage \<Rightarrow> string \<Rightarrow> 'b \<Rightarrow> storage_indexes option \<Rightarrow> nat option
   \<Rightarrow> (storage_error, unit) result \<times> 'b memory_storage" where
  "memory_set_bytes now m key v flds ttl = (Inr (), put_entry now m key v flds ttl)"

definition memory_delete ::
  "nat \<Rightarrow> 'b memory_storage \<Rightarrow> string \<Rightarrow> (storage_error, unit) result \<times> 'b memory_storage" where
  "memory_delete now m key =
     (Inr (), m\<lparr>ms_store := AList.delete key (ms_store m),
                ms_indexes := refresh_memory_indexes (ms_indexes m) key None\<rparr>)"

definition memory_exists :: "nat \<Rightarrow> 'b memory_storage \<Rightarrow> string \<Rightarrow> (storage_error, bool) result" where
  "memory_exists now m key =
     (case map_of (ms_store m) key of Some entry \<Rightarrow> Inr (\<not> is_expired now entry) | None \<Rightarrow> Inr False)"

definition memory_query ::
  "nat \<Rightarrow> 'b memory_storage \<Rightarrow> string \<Rightarrow> query_filter \<Rightarrow> (storage_error, string list) result" where
  "memory_query now m namespace flt =
     Inr (indexed_query_keys now (ms_store m) (ms_indexes m) namespace flt)"

fun batch_rows ::
  "nat \<Rightarrow> (string \<times> 'b storage_entry) list \<Rightarrow> string list \<Rightarrow> (string \<times> 'b) list" where
  "batch_rows now store [] = []"
| "batch_rows now store (key # keys) =
     (case map_of store key of
        Some entry \<Rightarrow> if \<not> is_expired now entry then (key, se_value entry) # batch_rows now store keys
                      else batch_rows now store keys
      | None \<Rightarrow> batch_rows now store keys)"

definition memory_get_batch ::
  "nat \<Rightarrow> 'b memory_storage \<Rightarrow> string list \<Rightarrow> (storage_error, (string \<times> 'b) list) result" where
  "memory_get_batch now m keys = Inr (batch_rows now (ms_store m) keys)"

definition memory_cleanup_expired ::
  "nat \<Rightarrow> 'b memory_storage \<Rightarrow> (storage_error, nat) result \<times> 'b memory_storage" where
  "memory_cleanup_expired now m =
     (let before = length (ms_store m);
          expired_keys = map fst (filter (\<lambda>(_, entry). is_expired now entry) (ms_store m));
          store = retain (\<lambda>_ entry. \<not> is_expired now entry) (ms_store m);
          removed = before - length store;
          ix = foldl (\<lambda>ix key. refresh_memory_indexes ix key None) (ms_indexes m) expired_keys
      in (Inr removed, m\<lparr>ms_store := store, ms_indexes := ix\<rparr>))"

definition memory_set_nx ::
  "nat \<Rightarrow> 'b memory_storage \<Rightarrow> string \<Rightarrow> 'b \<Rightarrow> nat option
   \<Rightarrow> (storage_error, bool) result \<times> 'b memory_storage" where
  "memory_set_nx now m key v ttl =
     (case map_of (ms_store m) key of
        Some entry \<Rightarrow>
          if \<not> is_expired now entry then (Inr False, m) else (Inr True, put_entry now m key v None ttl)
      | None \<Rightarrow> (Inr True, put_entry now m key v None ttl))"

definition memory_compare_and_swap ::
  "nat \<Rightarrow> 'b memory_storage \<Rightarrow> string \<Rightarrow> 'b \<Rightarrow> 'b \<Rightarrow> nat option
   \<Rightarrow> (storage_error, bool) result \<times> 'b memory_storage" where
  "memory_compare_and_swap now m key expected new_value ttl =
     (case map_of (ms_store m) key of
        Some entry \<Rightarrow>
          if is_expired now entry then (Inl (NotFound key), m)
          else if se_value entry = expected then (Inr True, put_entry now m key new_value None ttl)
          else (Inr False, m)
      | None \<Rightarrow> (Inl (NotFound key), m))"

definition memory_compare_and_swap_with_indexes ::
  "nat \<Rightarrow> 'b memory_storage \<Rightarrow> string \<Rightarrow> 'b \<Rightarrow> 'b \<Rightarrow> storage_indexes option \<Rightarrow> nat option
   \<Rightarrow> (storage_error, bool) result \<times> 'b memory_storage" where
  "memory_compare_and_swap_with_indexes now m key expected new_value flds ttl =
     (let (r, m1) = memory_compare_and_swap now m key expected new_value ttl
      in (case r of
            Inl e \<Rightarrow> (Inl e, m1)
          | Inr swapped \<Rightarrow>
              if swapped
              then (Inr True, m1\<lparr>ms_indexes := refresh_memory_indexes (ms_indexes m1) key flds\<rparr>)
              else (Inr False, m1)))"

definition memory_delete_if_exists ::
  "nat \<Rightarrow> 'b memory_storage \<Rightarrow> string \<Rightarrow> (storage_error, bool) result \<times> 'b memory_storage" where
  "memory_delete_if_exists now m key =
     (case map_of (ms_store m) key of
        Some entry \<Rightarrow>
          if \<not> is_expired now entry
          then (Inr True, m\<lparr>ms_store := AList.delete key (ms_store m),
                            ms_indexes := refresh_memory_indexes (ms_indexes m) key None\<rparr>)
          else (Inr False, m\<lparr>ms_store := AList.delete key (ms_store m)\<rparr>)
      | None \<Rightarrow> (Inr False, m))"

definition memory_backend :: "('b memory_storage, 'b) backend" where
  "memory_backend = \<lparr>
     get_bytes = memory_get_bytes, set_bytes = memory_set_bytes, delete_key = memory_delete,
     exists_key = memory_exists, query_keys = memory_query, get_batch = memory_get_batch,
     cleanup_expired = memory_cleanup_expired, set_nx = memory_set_nx,
     compare_and_swap = memory_compare_and_swap,
     compare_and_swap_with_indexes = memory_compare_and_swap_with_indexes,
     delete_if_exists = memory_delete_if_exists\<rparr>"

lemma memory_backend_simps [simp]:
  "get_bytes memory_backend = memory_get_bytes"
  "set_bytes memory_backend = memory_set_bytes"
  "delete_key memory_backend = memory_delete"
  "exists_key memory_backend = memory_exists"
  "query_keys memory_backend = memory_query"
  "get_batch memory_backend = memory_get_batch"
  "cleanup_expired memory_backend = memory_cleanup_expired"
  "set_nx memory_backend = memory_set_nx"
  "compare_and_swap memory_backend = memory_compare_and_swap"
  "compare_and_swap_with_indexes memory_backend = memory_compare_and_swap_with_indexes"
  "delete_if_exists memory_backend = memory_delete_if_exists"
  by (simp_all add: memory_backend_def)

lemmas memory_op_defs = memory_get_bytes_def memory_set_bytes_def memory_delete_def
  memory_exists_def memory_set_nx_def memory_compare_and_swap_def
  memory_compare_and_swap_with_indexes_def memory_delete_if_exists_def put_entry_def mk_entry_def

section \<open>The contract\<close>

definition memory_live :: "nat \<Rightarrow> 'b memory_storage \<Rightarrow> string \<Rightarrow> 'b option" where
  "memory_live t m k =
     (case map_of (ms_store m) k of
        None \<Rightarrow> None
      | Some e \<Rightarrow> if is_expired t e then None else Some (se_value e))"

lemma memory_live_put:
  "memory_live t' (put_entry t m k v ix ttl) k' =
     (if k' = k then until_ttl ttl t t' v else memory_live t' m k')"
  by (auto simp: memory_live_def put_entry_def mk_entry_def update_conv' is_expired_def
      until_ttl_def split: option.splits)

lemma memory_live_indexes [simp]:
  "memory_live t (m\<lparr>ms_indexes := ix\<rparr>) k = memory_live t m k"
  by (simp add: memory_live_def)

interpretation mem: storage_contract memory_backend memory_live
proof (unfold_locales, goal_cases)
  case (4 t s k v ix ttl u s' t' k')
  then show ?case by (auto simp: memory_set_bytes_def memory_live_put)
next
  case (6 t s k v ttl s' t' k')
  then show ?case
    by (auto simp: memory_set_nx_def memory_live_put split: option.splits if_splits)
next
  case (9 t s k e v ix ttl s' t' k')
  then show ?case
    by (auto simp: memory_compare_and_swap_with_indexes_def memory_compare_and_swap_def
        memory_live_put Let_def split: option.splits if_splits)
qed (auto simp: memory_op_defs memory_live_def Let_def split: option.splits if_splits)

section \<open>The abstract table\<close>

text \<open>A row of the table: value, expiry, and the values each field is indexed under.\<close>

record 'b row =
  row_value :: 'b
  row_expiry :: "nat option"
  row_fields :: "string \<Rightarrow> json set"

definition key_fields :: "memory_indexes \<Rightarrow> string \<Rightarrow> string \<Rightarrow> json set" where
  "key_fields ix k fld = {v. k \<in> indexed_keys ix (namespace_from_key k) fld v}"

definition memory_table :: "'b memory_storage \<Rightarrow> string \<rightharpoonup> 'b row" where
  "memory_table m k =
     map_option (\<lambda>e. \<lparr>row_value = se_value e, row_expiry = se_expires_at e,
                       row_fields = key_fields (ms_indexes m) k\<rparr>) (map_of (ms_store m) k)"

definition fields_of :: "storage_indexes option \<Rightarrow> string \<Rightarrow> json set" where
  "fields_of ix fld = (case ix of None \<Rightarrow> {} | Some fs \<Rightarrow> {v. (fld, v) \<in> set fs})"

definition row_live :: "nat \<Rightarrow> 'b row \<Rightarrow> bool" where
  "row_live now r = (case row_expiry r of None \<Rightarrow> True | Some t \<Rightarrow> now \<le> t)"

fun filter_matches :: "query_filter \<Rightarrow> (string \<Rightarrow> json set) \<Rightarrow> bool" where
  "filter_matches All fs = True"
| "filter_matches (Equals fld v) fs = (v \<in> fs fld)"
| "filter_matches (NotEquals fld v) fs = (v \<notin> fs fld)"
| "filter_matches (In fld vs) fs = (\<exists>v \<in> set vs. v \<in> fs fld)"
| "filter_matches (NotIn fld vs) fs = (\<forall>v \<in> set vs. v \<notin> fs fld)"

text \<open>The operations of the trait on the abstract table.\<close>

definition new_row :: "nat \<Rightarrow> 'b \<Rightarrow> storage_indexes option \<Rightarrow> nat option \<Rightarrow> 'b row" where
  "new_row now v fs ttl =
     \<lparr>row_value = v, row_expiry = map_option (\<lambda>d. now + d) ttl, row_fields = fields_of fs\<rparr>"

definition table_get :: "nat \<Rightarrow> (string \<rightharpoonup> 'b row) \<Rightarrow> string \<Rightarrow> (storage_error, 'b) result" where
  "table_get now T k =
     (case T k of Some r \<Rightarrow> if row_live now r then Inr (row_value r) else Inl (NotFound k)
      | None \<Rightarrow> Inl (NotFound k))"

definition table_set_nx ::
  "nat \<Rightarrow> (string \<rightharpoonup> 'b row) \<Rightarrow> string \<Rightarrow> 'b \<Rightarrow> nat option
   \<Rightarrow> (storage_error, bool) result \<times> (string \<rightharpoonup> 'b row)" where
  "table_set_nx now T k v ttl =
     (if \<exists>r. T k = Some r \<and> row_live now r then (Inr False, T)
      else (Inr True, T(k \<mapsto> new_row now v None ttl)))"

definition table_cas ::
  "nat \<Rightarrow> (string \<rightharpoonup> 'b row) \<Rightarrow> string \<Rightarrow> 'b \<Rightarrow> 'b \<Rightarrow> storage_indexes option \<Rightarrow> nat option
   \<Rightarrow> (storage_error, bool) result \<times> (string \<rightharpoonup> 'b row)" where
  "table_cas now T k expected v fs ttl =
     (case table_get now T k of
        Inl e \<Rightarrow> (Inl e, T)
      | Inr current \<Rightarrow>
          if current = expected then (Inr True, T(k \<mapsto> new_row now v fs ttl)) else (Inr False, T))"

definition table_delete_if_exists ::
  "nat \<Rightarrow> (string \<rightharpoonup> 'b row) \<Rightarrow> string \<Rightarrow> (storage_error, bool) result \<times> (string \<rightharpoonup> 'b row)" where
  "table_delete_if_exists now T k = (Inr (is_ok (table_get now T k)), T(k := None))"

text \<open>Well-formedness: hash maps have one entry per key, and index entries sit in the key's namespace.\<close>

definition index_distinct :: "memory_indexes \<Rightarrow> bool" where
  "index_distinct ix \<longleftrightarrow> distinct (map fst ix) \<and>
     (\<forall>ni \<in> snd ` set ix. distinct (map fst ni) \<and>
        (\<forall>fi \<in> snd ` set ni. distinct (map fst fi)))"

definition index_placed :: "memory_indexes \<Rightarrow> bool" where
  "index_placed ix \<longleftrightarrow> (\<forall>ns fld v k. k \<in> indexed_keys ix ns fld v \<longrightarrow> ns = namespace_from_key k)"

definition memory_ok :: "'b memory_storage \<Rightarrow> bool" where
  "memory_ok m \<longleftrightarrow> distinct (map fst (ms_store m)) \<and> index_distinct (ms_indexes m) \<and>
     index_placed (ms_indexes m)"

section \<open>The index implements the fields of the table\<close>

lemma index_distinct_simps:
  "index_distinct ix \<Longrightarrow> distinct (map fst ix)"
  "index_distinct ix \<Longrightarrow> map_of ix ns = Some ni \<Longrightarrow> distinct (map fst ni)"
  "index_distinct ix \<Longrightarrow> map_of ix ns = Some ni \<Longrightarrow> map_of ni fld = Some fi \<Longrightarrow> distinct (map fst fi)"
  by (force simp: index_distinct_def dest!: map_of_SomeD)+

lemma index_distinctI:
  assumes "distinct (map fst ix)"
    and "\<And>ns ni. map_of ix ns = Some ni \<Longrightarrow> distinct (map fst ni)"
    and "\<And>ns ni fld fi. map_of ix ns = Some ni \<Longrightarrow> map_of ni fld = Some fi \<Longrightarrow> distinct (map fst fi)"
  shows "index_distinct ix"
  unfolding index_distinct_def
proof (intro conjI ballI)
  fix ni assume "ni \<in> snd ` set ix"
  then obtain ns where ns: "map_of ix ns = Some ni" using assms(1) by auto
  then show ni: "distinct (map fst ni)" by (rule assms(2))
  fix fi assume "fi \<in> snd ` set ni"
  then obtain fld where "map_of ni fld = Some fi" using ni by auto
  with ns show "distinct (map fst fi)" by (rule assms(3))
qed (rule assms(1))

lemma map_of_prune:
  assumes "index_distinct ix"
  shows "map_of (remove_key_from_indexes ix key) ns =
    (case map_of ix ns of None \<Rightarrow> None
     | Some ni \<Rightarrow> if prune_namespace_index key ni = [] then None else Some (prune_namespace_index key ni))"
  using index_distinct_simps(1) [OF assms]
  by (auto simp: remove_key_from_indexes_def map_of_retain split: option.splits)

lemma map_of_prune_namespace:
  assumes "distinct (map fst ni)"
  shows "map_of (prune_namespace_index key ni) fld =
    (case map_of ni fld of None \<Rightarrow> None
     | Some fi \<Rightarrow> if prune_field_index key fi = [] then None else Some (prune_field_index key fi))"
  using assms by (auto simp: prune_namespace_index_def map_of_retain split: option.splits)

lemma map_of_prune_field:
  assumes "distinct (map fst fi)"
  shows "map_of (prune_field_index key fi) v =
    (case map_of fi v of None \<Rightarrow> None | Some ks \<Rightarrow> if ks - {key} = {} then None else Some (ks - {key}))"
  using assms by (auto simp: prune_field_index_def map_of_retain split: option.splits)

lemma prune_distinct [intro]:
  "distinct (map fst fi) \<Longrightarrow> distinct (map fst (prune_field_index key fi))"
  "distinct (map fst ni) \<Longrightarrow> distinct (map fst (prune_namespace_index key ni))"
  by (simp_all add: prune_field_index_def prune_namespace_index_def distinct_keys_retain)

lemma index_distinct_remove:
  assumes "index_distinct ix"
  shows "index_distinct (remove_key_from_indexes ix key)"
proof (rule index_distinctI)
  show "distinct (map fst (remove_key_from_indexes ix key))"
    using index_distinct_simps(1) [OF assms]
    by (simp add: remove_key_from_indexes_def distinct_keys_retain)
next
  fix ns ni assume "map_of (remove_key_from_indexes ix key) ns = Some ni"
  then show "distinct (map fst ni)"
    using index_distinct_simps(2) [OF assms]
    by (auto simp: map_of_prune [OF assms] split: option.splits if_splits)
next
  fix ns ni fld fi
  assume "map_of (remove_key_from_indexes ix key) ns = Some ni" "map_of ni fld = Some fi"
  then obtain ni' fi' where "map_of ix ns = Some ni'" "map_of ni' fld = Some fi'"
    and "fi = prune_field_index key fi'"
    using index_distinct_simps(2) [OF assms]
    by (auto simp: map_of_prune [OF assms] map_of_prune_namespace split: option.splits if_splits)
  then show "distinct (map fst fi)"
    using index_distinct_simps(3) [OF assms] by blast
qed

lemma indexed_keys_remove:
  assumes "index_distinct ix"
  shows "indexed_keys (remove_key_from_indexes ix key) ns fld v = indexed_keys ix ns fld v - {key}"
proof -
  have fi: "(case map_of (prune_field_index key fi) v of None \<Rightarrow> {} | Some ks \<Rightarrow> ks) =
      (case map_of fi v of None \<Rightarrow> {} | Some ks \<Rightarrow> ks) - {key}"
    if "map_of ix ns = Some ni" "map_of ni fld = Some fi" for ni fi
    using index_distinct_simps(3) [OF assms that]
    by (auto simp: map_of_prune_field split: option.splits)
  have ni: "(case map_of (prune_namespace_index key ni) fld of None \<Rightarrow> {} | Some fi \<Rightarrow>
        (case map_of fi v of None \<Rightarrow> {} | Some ks \<Rightarrow> ks)) =
      (case map_of ni fld of None \<Rightarrow> {} | Some fi \<Rightarrow>
        (case map_of fi v of None \<Rightarrow> {} | Some ks \<Rightarrow> ks)) - {key}"
    if "map_of ix ns = Some ni" for ni
    using index_distinct_simps(2) [OF assms that] fi [OF that]
    by (force simp: map_of_prune_namespace split: option.splits)
  show ?thesis
    using ni by (force simp: indexed_keys_def map_of_prune [OF assms] split: option.splits)
qed

text \<open>Adding the fields of a key.\<close>

definition ns_lookup :: "namespace_index \<Rightarrow> string \<Rightarrow> json \<Rightarrow> string set" where
  "ns_lookup ni fld v =
     (case map_of ni fld of None \<Rightarrow> {} | Some fi \<Rightarrow>
     (case map_of fi v of None \<Rightarrow> {} | Some keys \<Rightarrow> keys))"

definition ns_distinct :: "namespace_index \<Rightarrow> bool" where
  "ns_distinct ni \<longleftrightarrow> distinct (map fst ni) \<and> (\<forall>fld fi. map_of ni fld = Some fi \<longrightarrow> distinct (map fst fi))"

lemma indexed_keys_ns:
  "indexed_keys ix ns fld v = (case map_of ix ns of None \<Rightarrow> {} | Some ni \<Rightarrow> ns_lookup ni fld v)"
  by (auto simp: indexed_keys_def ns_lookup_def split: option.splits)

lemma index_distinct_ns:
  "index_distinct ix \<longleftrightarrow> distinct (map fst ix) \<and> (\<forall>ns ni. map_of ix ns = Some ni \<longrightarrow> ns_distinct ni)"
  using index_distinctI index_distinct_simps unfolding ns_distinct_def by metis

lemma ns_lookup_add_field:
  "ns_lookup (add_field key ni fv) fld v =
     (if fv = (fld, v) then insert key (ns_lookup ni fld v) else ns_lookup ni fld v)"
  by (cases fv) (auto simp: ns_lookup_def add_field_def split: option.splits)

lemma ns_distinct_add_field: "ns_distinct ni \<Longrightarrow> ns_distinct (add_field key ni fv)"
  by (auto simp: ns_distinct_def add_field_def distinct_entry_update split: option.splits)

lemma ns_lookup_add_fields:
  "ns_lookup (foldl (add_field key) ni fs) fld v =
     (if (fld, v) \<in> set fs then insert key (ns_lookup ni fld v) else ns_lookup ni fld v)"
  by (induction fs arbitrary: ni) (auto simp: ns_lookup_add_field)

lemma ns_distinct_add_fields: "ns_distinct ni \<Longrightarrow> ns_distinct (foldl (add_field key) ni fs)"
  by (induction fs arbitrary: ni) (auto simp: ns_distinct_add_field)

lemma ns_empty [simp]: "ns_lookup [] fld v = {}" "ns_distinct []"
  by (simp_all add: ns_lookup_def ns_distinct_def)

lemma indexed_keys_apply:
  "indexed_keys (apply_indexes_for_key ix key fs) ns fld v =
     (if ns = namespace_from_key key \<and> (fld, v) \<in> set fs
      then insert key (indexed_keys ix ns fld v) else indexed_keys ix ns fld v)"
  by (auto simp: indexed_keys_ns apply_indexes_for_key_def ns_lookup_add_fields split: option.splits)

lemma index_distinct_apply:
  "index_distinct ix \<Longrightarrow> index_distinct (apply_indexes_for_key ix key fs)"
  by (auto simp: index_distinct_ns apply_indexes_for_key_def distinct_entry_update
      ns_distinct_add_fields split: option.splits if_splits)

lemma index_distinct_refresh:
  "index_distinct ix \<Longrightarrow> index_distinct (refresh_memory_indexes ix key fs)"
  by (auto simp: refresh_memory_indexes_def index_distinct_remove index_distinct_apply Let_def
      split: option.splits)

lemma indexed_keys_refresh:
  assumes "index_distinct ix"
  shows "indexed_keys (refresh_memory_indexes ix key fs) ns fld v =
    (indexed_keys ix ns fld v - {key}) \<union>
    (if ns = namespace_from_key key \<and> v \<in> fields_of fs fld then {key} else {})"
  by (auto simp: refresh_memory_indexes_def Let_def indexed_keys_apply fields_of_def
      indexed_keys_remove [OF assms] split: option.splits if_splits)

lemma index_placed_refresh:
  assumes "index_distinct ix" "index_placed ix"
  shows "index_placed (refresh_memory_indexes ix key fs)"
  using assms(2) by (auto simp: index_placed_def indexed_keys_refresh [OF assms(1)] split: if_splits)

lemma key_fields_refresh:
  assumes "index_distinct ix"
  shows "key_fields (refresh_memory_indexes ix key fs) k =
    (if k = key then fields_of fs else key_fields ix k)"
  by (auto simp: key_fields_def fun_eq_iff indexed_keys_refresh [OF assms] split: if_splits)

lemmas memory_okD = memory_ok_def [THEN iffD1, THEN conjunct1]
  memory_ok_def [THEN iffD1, THEN conjunct2, THEN conjunct1]
  memory_ok_def [THEN iffD1, THEN conjunct2, THEN conjunct2]

section \<open>Every operation keeps the backend well formed and implements the table\<close>

lemma memory_ok_new [simp]: "memory_ok memory_new"
  by (simp add: memory_ok_def memory_new_def index_distinct_def index_placed_def indexed_keys_def)

lemma memory_ok_put: "memory_ok m \<Longrightarrow> memory_ok (put_entry now m k v ix ttl)"
  by (simp add: memory_ok_def put_entry_def distinct_update index_distinct_refresh index_placed_refresh)

lemma memory_ok_refresh:
  "memory_ok m \<Longrightarrow> memory_ok (m\<lparr>ms_indexes := refresh_memory_indexes (ms_indexes m) k fs\<rparr>)"
  by (simp add: memory_ok_def index_distinct_refresh index_placed_refresh)

lemma memory_ok_drop:
  "memory_ok m \<Longrightarrow> memory_ok (m\<lparr>ms_store := AList.delete k (ms_store m)\<rparr>)"
  by (simp add: memory_ok_def distinct_delete)

lemma table_put:
  assumes "memory_ok m"
  shows "memory_table (put_entry now m k v fs ttl) = (memory_table m)
    (k \<mapsto> new_row now v fs ttl)"
  using memory_okD(2) [OF assms]
  by (auto simp: memory_table_def put_entry_def mk_entry_def new_row_def fun_eq_iff update_conv'
      key_fields_refresh)

lemma table_drop:
  assumes "memory_ok m"
  shows "memory_table (m\<lparr>ms_store := AList.delete k (ms_store m),
      ms_indexes := refresh_memory_indexes (ms_indexes m) k None\<rparr>) = (memory_table m)(k := None)"
  using memory_okD(2) [OF assms]
  by (auto simp: memory_table_def fun_eq_iff delete_conv' key_fields_refresh)

lemma table_drop_store:
  "memory_table (m\<lparr>ms_store := AList.delete k (ms_store m)\<rparr>) = (memory_table m)(k := None)"
  by (auto simp: memory_table_def fun_eq_iff delete_conv')

lemma row_live_expired:
  "row_live now \<lparr>row_value = se_value e, row_expiry = se_expires_at e, row_fields = fs\<rparr>
     \<longleftrightarrow> \<not> is_expired now e"
  by (auto simp: row_live_def is_expired_def split: option.splits)

lemma refresh_all_expired:
  assumes "index_distinct ix" "index_placed ix"
  shows "index_distinct (foldl (\<lambda>ix key. refresh_memory_indexes ix key None) ix ks) \<and>
    index_placed (foldl (\<lambda>ix key. refresh_memory_indexes ix key None) ix ks) \<and>
    (\<forall>k. k \<notin> set ks \<longrightarrow>
       key_fields (foldl (\<lambda>ix key. refresh_memory_indexes ix key None) ix ks) k = key_fields ix k)"
  using assms
proof (induction ks arbitrary: ix)
  case (Cons a ks)
  from Cons.prems have "index_distinct (refresh_memory_indexes ix a None)"
    and "index_placed (refresh_memory_indexes ix a None)"
    by (simp_all add: index_distinct_refresh index_placed_refresh)
  from Cons.IH [OF this] Cons.prems show ?case by (simp add: key_fields_refresh)
qed simp

lemma table_cleanup:
  assumes "memory_ok m" and "memory_cleanup_expired now m = (r, m')"
  shows "memory_table m' = (\<lambda>k. Option.bind (memory_table m k)
      (\<lambda>row. if row_live now row then Some row else None))"
    and "r = Inr (card {k. \<exists>row. memory_table m k = Some row \<and> \<not> row_live now row})"
    and "memory_ok m'"
proof -
  define ks where "ks = map fst (filter (\<lambda>(_, entry). is_expired now entry) (ms_store m))"
  define ix where "ix = foldl (\<lambda>ix key. refresh_memory_indexes ix key None) (ms_indexes m) ks"
  define store where "store = retain (\<lambda>_ entry. \<not> is_expired now entry) (ms_store m)"
  have m': "m' = m\<lparr>ms_store := store, ms_indexes := ix\<rparr>"
    and r: "r = Inr (length (ms_store m) - length store)"
    using assms(2) by (simp_all add: memory_cleanup_expired_def Let_def ks_def ix_def store_def)
  have dist: "distinct (map fst (ms_store m))" using memory_okD(1) [OF assms(1)] .
  have ix_ok: "index_distinct ix" "index_placed ix"
    and ix_same: "k \<notin> set ks \<Longrightarrow> key_fields ix k = key_fields (ms_indexes m) k" for k
    using refresh_all_expired [OF memory_okD(2,3) [OF assms(1)], of ks] by (auto simp: ix_def)
  have live_key: "map_of (ms_store m) k = Some e \<Longrightarrow> \<not> is_expired now e \<Longrightarrow> k \<notin> set ks" for k e
    using dist map_of_is_SomeI by (fastforce simp: ks_def)
  show "memory_table m' = (\<lambda>k. Option.bind (memory_table m k)
      (\<lambda>row. if row_live now row then Some row else None))"
    using live_key ix_same
    by (auto simp: m' memory_table_def fun_eq_iff store_def map_of_retain [OF dist]
        row_live_expired split: option.splits)
  have "length (ms_store m) - length store = length ks"
    using sum_length_filter_compl [of "\<lambda>x. is_expired now (snd x)" "ms_store m"]
    unfolding store_def retain_def ks_def case_prod_unfold by simp
  also have "\<dots> = card (set ks)"
    by (rule distinct_card [symmetric]) (simp add: ks_def distinct_map_filter dist)
  also have "set ks = {k. \<exists>row. memory_table m k = Some row \<and> \<not> row_live now row}"
    using dist by (force simp: ks_def memory_table_def row_live_expired)
  finally show "r = Inr (card {k. \<exists>row. memory_table m k = Some row \<and> \<not> row_live now row})"
    by (simp add: r)
  show "memory_ok m'"
    using ix_ok dist by (simp add: m' memory_ok_def store_def distinct_keys_retain)
qed

lemma namespace_of_prefixed:
  assumes "CHR '':'' \<notin> set ns" "starts_with (ns @ '':'') k"
  shows "namespace_from_key k = ns"
proof -
  from assms(2) obtain t where "k = ns @ CHR '':'' # t"
    by (auto simp: starts_with_def prefix_def)
  then show ?thesis by (simp add: namespace_from_key_def split_on_append_sep [OF assms(1)])
qed

lemma keys_for_namespace_table:
  assumes "memory_ok m"
  shows "k \<in> keys_for_namespace now (ms_store m) ns \<longleftrightarrow>
    starts_with (ns @ '':'') k \<and> (\<exists>r. memory_table m k = Some r \<and> row_live now r)"
  using memory_okD(1) [OF assms]
  by (force simp: keys_for_namespace_def memory_table_def row_live_expired)

lemma keys_for_namespace_finite [simp]: "finite (keys_for_namespace now store ns)"
  by (simp add: keys_for_namespace_def)

lemma indexed_query_keys_table:
  assumes "memory_ok m" "CHR '':'' \<notin> set ns"
  shows "set (indexed_query_keys now (ms_store m) (ms_indexes m) ns flt) =
    {k. \<exists>r. memory_table m k = Some r \<and> row_live now r \<and> starts_with (ns @ '':'') k \<and>
        filter_matches flt (row_fields r)}"
proof -
  let ?all = "keys_for_namespace now (ms_store m) ns"
  have ix: "k \<in> indexed_keys (ms_indexes m) ns fld v \<longleftrightarrow> v \<in> row_fields r fld"
    if "k \<in> ?all" "memory_table m k = Some r" for k r fld v
    using that namespace_of_prefixed [OF assms(2)]
    by (auto simp: keys_for_namespace_table [OF assms(1)] memory_table_def key_fields_def)
  show ?thesis
  proof (cases flt)
    case (Equals fld v) then show ?thesis using ix
      by (fastforce simp: indexed_query_keys_def Let_def keys_for_namespace_table [OF assms(1)])
  next
    case (NotEquals fld v) then show ?thesis using ix
      by (fastforce simp: indexed_query_keys_def Let_def keys_for_namespace_table [OF assms(1)])
  next
    case (In fld vs) then show ?thesis using ix
      by (fastforce simp: indexed_query_keys_def Let_def keys_for_namespace_table [OF assms(1)])
  next
    case (NotIn fld vs) then show ?thesis using ix
      by (fastforce simp: indexed_query_keys_def Let_def keys_for_namespace_table [OF assms(1)])
  next
    case All then show ?thesis
      by (auto simp: indexed_query_keys_def Let_def keys_for_namespace_table [OF assms(1)])
  qed
qed

lemma table_lookup:
  "map_of (ms_store m) k = Some e \<Longrightarrow> memory_table m k =
     Some \<lparr>row_value = se_value e, row_expiry = se_expires_at e, row_fields = key_fields (ms_indexes m) k\<rparr>"
  "map_of (ms_store m) k = None \<Longrightarrow> memory_table m k = None"
  by (simp_all add: memory_table_def)

lemma memory_get_table: "memory_get_bytes now m k = table_get now (memory_table m) k"
  by (auto simp: memory_get_bytes_def table_get_def table_lookup row_live_expired split: option.splits)

lemma memory_set_nx_table:
  "memory_ok m \<Longrightarrow>
   map_prod id memory_table (memory_set_nx now m k v ttl) = table_set_nx now (memory_table m) k v ttl"
  by (auto simp: memory_set_nx_def table_set_nx_def table_put table_lookup row_live_expired
      split: option.splits)

lemma put_refresh:
  assumes "memory_ok m"
  shows "memory_table ((put_entry now m k v None ttl)\<lparr>ms_indexes :=
      refresh_memory_indexes (ms_indexes (put_entry now m k v None ttl)) k fs\<rparr>) =
    (memory_table m)(k \<mapsto> new_row now v fs ttl)"
  using memory_okD(2) [OF assms]
  by (auto simp: memory_table_def put_entry_def mk_entry_def new_row_def fun_eq_iff update_conv'
      key_fields_refresh index_distinct_refresh)

lemma memory_cas_table:
  "memory_ok m \<Longrightarrow>
   map_prod id memory_table (memory_compare_and_swap_with_indexes now m k e v fs ttl) =
   table_cas now (memory_table m) k e v fs ttl"
  by (auto simp: memory_compare_and_swap_with_indexes_def memory_compare_and_swap_def Let_def
      table_cas_def table_get_def put_refresh table_lookup row_live_expired split: option.splits)

lemma memory_delete_if_exists_table:
  "memory_ok m \<Longrightarrow>
   map_prod id memory_table (memory_delete_if_exists now m k) =
   table_delete_if_exists now (memory_table m) k"
  by (auto simp: memory_delete_if_exists_def table_delete_if_exists_def table_get_def table_drop
      table_drop_store table_lookup row_live_expired fun_eq_iff split: option.splits)

lemmas memory_ok_intros = memory_ok_put memory_ok_refresh memory_ok_drop

lemma memory_ok_set_nx: "memory_ok m \<Longrightarrow> memory_ok (snd (memory_set_nx now m k v ttl))"
  by (auto simp: memory_set_nx_def memory_ok_put split: option.splits)

lemma memory_ok_cas:
  "memory_ok m \<Longrightarrow> memory_ok (snd (memory_compare_and_swap_with_indexes now m k e v fs ttl))"
  by (auto simp: memory_compare_and_swap_with_indexes_def memory_compare_and_swap_def Let_def
      memory_ok_refresh memory_ok_put split: option.splits)

lemma memory_ok_delete: "memory_ok m \<Longrightarrow> memory_ok (snd (memory_delete now m k))"
  by (simp add: memory_delete_def memory_ok_def distinct_delete index_distinct_refresh
      index_placed_refresh)

lemma memory_ok_delete_if_exists:
  "memory_ok m \<Longrightarrow> memory_ok (snd (memory_delete_if_exists now m k))"
  by (auto simp: memory_delete_if_exists_def memory_ok_def distinct_delete index_distinct_refresh
      index_placed_refresh split: option.splits)

lemma memory_ops_refine:
  assumes "memory_ok m"
  shows "memory_get_bytes now m k = table_get now (memory_table m) k"
    and "map_prod id memory_table (memory_set_bytes now m k v fs ttl) =
      (Inr (), (memory_table m)(k \<mapsto> new_row now v fs ttl))"
    and "map_prod id memory_table (memory_delete now m k) = (Inr (), (memory_table m)(k := None))"
    and "map_prod id memory_table (memory_set_nx now m k v ttl) =
      table_set_nx now (memory_table m) k v ttl"
    and "map_prod id memory_table (memory_compare_and_swap_with_indexes now m k e v fs ttl) =
      table_cas now (memory_table m) k e v fs ttl"
    and "map_prod id memory_table (memory_delete_if_exists now m k) =
      table_delete_if_exists now (memory_table m) k"
    and "map_prod id memory_table (memory_cleanup_expired now m) =
      (Inr (card {k. \<exists>row. memory_table m k = Some row \<and> \<not> row_live now row}),
       \<lambda>k. Option.bind (memory_table m k) (\<lambda>row. if row_live now row then Some row else None))"
    and "\<forall>m' \<in> {snd (memory_set_bytes now m k v fs ttl), snd (memory_delete now m k),
        snd (memory_set_nx now m k v ttl), snd (memory_compare_and_swap_with_indexes now m k e v fs ttl),
        snd (memory_delete_if_exists now m k), snd (memory_cleanup_expired now m)}. memory_ok m'"
proof -
  obtain r m' where c: "memory_cleanup_expired now m = (r, m')" by fastforce
  show "map_prod id memory_table (memory_cleanup_expired now m) =
      (Inr (card {k. \<exists>row. memory_table m k = Some row \<and> \<not> row_live now row}),
       \<lambda>k. Option.bind (memory_table m k) (\<lambda>row. if row_live now row then Some row else None))"
    using table_cleanup(1,2) [OF assms c] c by simp
  show "\<forall>m' \<in> {snd (memory_set_bytes now m k v fs ttl), snd (memory_delete now m k),
        snd (memory_set_nx now m k v ttl), snd (memory_compare_and_swap_with_indexes now m k e v fs ttl),
        snd (memory_delete_if_exists now m k), snd (memory_cleanup_expired now m)}. memory_ok m'"
    using table_cleanup(3) [OF assms c] c assms
    by (auto simp: memory_set_bytes_def memory_ok_put memory_ok_delete memory_ok_set_nx memory_ok_cas
        memory_ok_delete_if_exists)
qed (simp_all add: assms memory_get_table memory_set_bytes_def table_put memory_delete_def table_drop
    memory_set_nx_table memory_cas_table memory_delete_if_exists_table)

section \<open>Properties\<close>

text \<open>
  C35: A query of the memory backend in a namespace without a colon returns, in increasing key
  order and without duplicates, exactly the keys of the unexpired rows of that namespace whose
  indexed fields satisfy the filter, for each of the five kinds of filter.  A row that was stored
  without index fields counts as one with no value in any field: it is returned by All, NotEquals and
  NotIn and not by Equals and In, where the documentation of the trait says that only indexed items
  are returned.
\<close>

theorem memory_query_correct:
  assumes "memory_ok m" and "CHR '':'' \<notin> set ns"
  shows "\<exists>keys. memory_query now m ns flt = Inr keys \<and> sorted keys \<and> distinct keys \<and>
    set keys = {k. \<exists>r. memory_table m k = Some r \<and> row_live now r \<and>
      starts_with (ns @ '':'') k \<and> filter_matches flt (row_fields r)} \<and>
    (\<forall>k r. memory_table m k = Some r \<and> row_live now r \<and> starts_with (ns @ '':'') k \<and> row_fields r = (\<lambda>_. {}) \<longrightarrow>
      (k \<in> set keys \<longleftrightarrow> (case flt of Equals _ _ \<Rightarrow> False | In _ _ \<Rightarrow> False | _ \<Rightarrow> True)))"
proof -
  have "sorted (indexed_query_keys now (ms_store m) (ms_indexes m) ns flt) \<and>
    distinct (indexed_query_keys now (ms_store m) (ms_indexes m) ns flt)"
    by (simp add: indexed_query_keys_def Let_def)
  then show ?thesis
    using indexed_query_keys_table [OF assms, of now flt]
    by (simp add: memory_query_def) (auto split: query_filter.splits)
qed

text \<open>The queries below run on a backend with two orders, one of them expiring.\<close>

definition sample_memory :: "nat memory_storage" where
  "sample_memory =
     put_entry 0 (put_entry 0 memory_new ''orders:a'' 1 (Some [(''status'', JString ''created'')]) None)
       ''orders:b'' 2 (Some [(''status'', JString ''failed'')]) (Some 5)"

lemma memory_ok_sample: "memory_ok sample_memory"
  by (simp add: sample_memory_def memory_ok_put)

theorem memory_query_correct_witness:
  "memory_ok sample_memory \<and> CHR '':'' \<notin> set ''orders'' \<and>
   (\<exists>keys. memory_query 6 sample_memory ''orders'' (Equals ''status'' (JString ''created'')) = Inr keys \<and>
      sorted keys \<and> distinct keys \<and>
      set keys = {k. \<exists>r. memory_table sample_memory k = Some r \<and> row_live 6 r \<and>
        starts_with (''orders'' @ '':'') k \<and>
        filter_matches (Equals ''status'' (JString ''created'')) (row_fields r)})"
proof -
  have "CHR '':'' \<notin> set ''orders''" by simp
  with memory_query_correct [OF memory_ok_sample this, of 6 "Equals ''status'' (JString ''created'')"] memory_ok_sample
  show ?thesis by blast
qed

text \<open>
  Run without other calls in between, the memory backend (a value map plus a nested secondary index) refines one
  table of rows: reading, storing, deleting, the atomic operations and the removal of expired rows return what the
  table operation returns, leave the table the table operation leaves, and keep the backend well formed.
\<close>

theorem memory_refines_table:
  assumes "memory_ok m"
  shows "(memory_get_bytes now m k = table_get now (memory_table m) k) \<and>
    (map_prod id memory_table (memory_set_bytes now m k v fs ttl) =
      (Inr (), (memory_table m)(k \<mapsto> new_row now v fs ttl))) \<and>
    (map_prod id memory_table (memory_delete now m k) = (Inr (), (memory_table m)(k := None))) \<and>
    (map_prod id memory_table (memory_set_nx now m k v ttl) =
      table_set_nx now (memory_table m) k v ttl) \<and>
    (map_prod id memory_table (memory_compare_and_swap_with_indexes now m k e v fs ttl) =
      table_cas now (memory_table m) k e v fs ttl) \<and>
    (map_prod id memory_table (memory_delete_if_exists now m k) =
      table_delete_if_exists now (memory_table m) k) \<and>
    (map_prod id memory_table (memory_cleanup_expired now m) =
      (Inr (card {k. \<exists>row. memory_table m k = Some row \<and> \<not> row_live now row}),
       \<lambda>k. Option.bind (memory_table m k) (\<lambda>row. if row_live now row then Some row else None))) \<and>
    (\<forall>m' \<in> {snd (memory_set_bytes now m k v fs ttl), snd (memory_delete now m k),
        snd (memory_set_nx now m k v ttl), snd (memory_compare_and_swap_with_indexes now m k e v fs ttl),
        snd (memory_delete_if_exists now m k), snd (memory_cleanup_expired now m)}. memory_ok m')"
  by (intro conjI) (rule memory_ops_refine [OF assms])+

theorem memory_refines_table_witness:
  "memory_ok sample_memory \<and>
   map_prod id memory_table (memory_compare_and_swap_with_indexes 3 sample_memory ''orders:a'' 1 7 None None) =
     table_cas 3 (memory_table sample_memory) ''orders:a'' 1 7 None None"
  using memory_refines_table [OF memory_ok_sample, of 3 "''orders:a''" 7 None None 1] memory_ok_sample
  by simp

end
