(* ===== verification/Indexed_Rows.thy ===== *)
theory Indexed_Rows
  imports Memory_Storage
begin

text \<open>
  Rows of one namespace of the memory backend that are stored with the index entries computed
  from their own contents.  The components that keep their records so (orders, transaction
  attempts) share these lemmas: which writes keep the agreement, and that a query through the
  storage service then selects by content.
\<close>

definition rows_indexed ::
  "string \<Rightarrow> ('a, 'b) codec \<Rightarrow> ('a \<Rightarrow> storage_indexes) \<Rightarrow> 'b memory_storage \<Rightarrow> bool" where
  "rows_indexed ns c ix m \<longleftrightarrow> memory_ok m \<and>
     (\<forall>ident row. memory_table m (mk_key ns ident) = Some row \<longrightarrow>
        (\<exists>a. decode c (row_value row) = Inr a \<and> row_fields row = fields_of (Some (ix a))))"

lemma rows_indexed_ok: "rows_indexed ns c ix m \<Longrightarrow> memory_ok m"
  by (simp add: rows_indexed_def)

lemma rows_indexed_put:
  assumes "codec_ok c" "rows_indexed ns c ix m" "encode c a = Inr b" "memory_ok m'"
    and "memory_table m' = (memory_table m)(mk_key ns ident \<mapsto> new_row now b (Some (ix a)) ttl)"
  shows "rows_indexed ns c ix m'"
  using assms codec_okD [OF assms(1,3)] by (auto simp: rows_indexed_def new_row_def)

lemma rows_indexed_set:
  assumes "codec_ok c" "rows_indexed ns c ix m" "encode c a = Inr b"
  shows "rows_indexed ns c ix (put_entry now m (mk_key ns ident) b (Some (ix a)) ttl)"
  using rows_indexed_put [OF assms memory_ok_put table_put] rows_indexed_ok [OF assms(2)] by blast

lemma cas_table_cases:
  assumes "memory_ok m"
  shows "memory_table (snd (memory_compare_and_swap_with_indexes now m k e b fs ttl)) = memory_table m \<or>
    memory_table (snd (memory_compare_and_swap_with_indexes now m k e b fs ttl)) =
      (memory_table m)(k \<mapsto> new_row now b fs ttl)"
proof -
  have "snd (map_prod id memory_table (memory_compare_and_swap_with_indexes now m k e b fs ttl)) =
      snd (table_cas now (memory_table m) k e b fs ttl)"
    using memory_cas_table [OF assms] by simp
  then show ?thesis by (auto simp: table_cas_def split: sum.splits if_splits)
qed

lemma rows_indexed_cas:
  assumes "codec_ok c" "rows_indexed ns c ix m" "encode c a = Inr b"
  shows "rows_indexed ns c ix
    (snd (memory_compare_and_swap_with_indexes now m (mk_key ns ident) e b (Some (ix a)) ttl))"
proof -
  note ok = rows_indexed_ok [OF assms(2)]
  let ?m = "snd (memory_compare_and_swap_with_indexes now m (mk_key ns ident) e b (Some (ix a)) ttl)"
  have "memory_ok ?m" by (rule memory_ok_cas [OF ok])
  from cas_table_cases [OF ok] consider "memory_table ?m = memory_table m"
    | "memory_table ?m = (memory_table m)(mk_key ns ident \<mapsto> new_row now b (Some (ix a)) ttl)" by blast
  then show ?thesis
  proof cases
    case 1
    then show ?thesis using assms(2) \<open>memory_ok ?m\<close> by (simp add: rows_indexed_def)
  next
    case 2
    then show ?thesis using rows_indexed_put [OF assms \<open>memory_ok ?m\<close>] by blast
  qed
qed

lemma rows_indexed_elsewhere:
  assumes "rows_indexed ns c ix m" "\<And>ident. k \<noteq> mk_key ns ident"
  shows "rows_indexed ns c ix (snd (memory_compare_and_swap_with_indexes now m k e b fs ttl))"
proof -
  note ok = rows_indexed_ok [OF assms(1)]
  have "memory_table (snd (memory_compare_and_swap_with_indexes now m k e b fs ttl)) (mk_key ns ident) =
      memory_table m (mk_key ns ident)" for ident
    using cas_table_cases [OF ok, of now k e b fs ttl] assms(2) by (metis fun_upd_other)
  then show ?thesis using memory_ok_cas [OF ok] assms(1) by (simp add: rows_indexed_def)
qed

text \<open>The store after a swap through the service.\<close>

lemma svc_cas_store:
  "w_store (snd (svc_compare_and_swap_bytes memory_backend sc ns ident e b ix ttl w)) =
   snd (memory_compare_and_swap_with_indexes (w_now sc (resume sc w)) (w_store (resume sc w))
     (mk_key ns ident) e b ix ttl)"
  by (simp add: svc_compare_and_swap_bytes_def call_write_def Let_def split: prod.splits)

lemma live_table:
  "memory_live now m k = Some b \<longleftrightarrow> (\<exists>r. memory_table m k = Some r \<and> row_live now r \<and> row_value r = b)"
  by (auto simp: memory_live_def memory_table_def row_live_expired split: option.splits)

lemma starts_with_namespace: "starts_with (ns @ '':'') k \<longleftrightarrow> (\<exists>ident. k = mk_key ns ident)"
  by (auto simp: starts_with_def prefix_def mk_key_def)

text \<open>The content a stored key holds.\<close>

definition stored_item ::
  "string \<Rightarrow> ('a, 'b) codec \<Rightarrow> nat \<Rightarrow> 'b memory_storage \<Rightarrow> string \<Rightarrow> 'a \<Rightarrow> bool" where
  "stored_item ns c now m ident a \<longleftrightarrow>
     (\<exists>b. memory_live now m (mk_key ns ident) = Some b \<and> decode c b = Inr a)"

lemma rows_indexed_query:
  assumes ix: "rows_indexed ns c ix m" and ns: "CHR '':'' \<notin> set ns"
  shows "\<exists>keys. memory_query now m ns (Equals fld v) = Inr keys \<and> distinct keys \<and>
    set keys = {mk_key ns ident | ident a. stored_item ns c now m ident a \<and> v \<in> fields_of (Some (ix a)) fld}"
proof -
  have row: "v \<in> row_fields r fld \<longleftrightarrow>
      (\<exists>a. decode c (row_value r) = Inr a \<and> v \<in> fields_of (Some (ix a)) fld)"
    if "memory_table m (mk_key ns ident) = Some r" for ident r
    using ix that unfolding rows_indexed_def by fastforce
  have "set (indexed_query_keys now (ms_store m) (ms_indexes m) ns (Equals fld v)) =
      {mk_key ns ident | ident a. stored_item ns c now m ident a \<and> v \<in> fields_of (Some (ix a)) fld}"
    unfolding indexed_query_keys_table [OF rows_indexed_ok [OF ix] ns] starts_with_namespace
      stored_item_def live_table filter_matches.simps using row by blast
  moreover have "distinct (indexed_query_keys now (ms_store m) (ms_indexes m) ns (Equals fld v))"
    by (simp add: indexed_query_keys_def Let_def)
  ultimately show ?thesis by (simp add: memory_query_def)
qed

lemma batch_rows_entries:
  "(k, b) \<in> set (batch_rows now (ms_store m) keys) \<longleftrightarrow> k \<in> set keys \<and> memory_live now m k = Some b"
  by (induction keys) (auto simp: memory_live_def split: option.splits)

lemma decode_rows_items: "a \<in> snd ` set (decode_rows c rows) \<longleftrightarrow> (\<exists>k b. (k, b) \<in> set rows \<and> decode c b = Inr a)"
proof (induction rows)
  case (Cons r rows)
  then show ?case by (cases r) (auto split: sum.splits)
qed simp

lemma svc_query_items:
  assumes ix: "rows_indexed ns c ix (w_store w)" and ns: "CHR '':'' \<notin> set ns"
  shows "\<exists>rows w'. svc_query memory_backend c (quiet (\<lambda>_. now)) ns (Equals fld v) w = (Inr rows, w') \<and>
    w_store w' = w_store w \<and>
    set (map snd rows) = {a. \<exists>ident. stored_item ns c now (w_store w) ident a \<and> v \<in> fields_of (Some (ix a)) fld}"
proof -
  from rows_indexed_query [OF ix ns, of now fld v] obtain keys where
    keys: "memory_query now (w_store w) ns (Equals fld v) = Inr keys"
    and set_keys: "set keys = {mk_key ns ident | ident a. stored_item ns c now (w_store w) ident a \<and>
      v \<in> fields_of (Some (ix a)) fld}" by blast
  let ?rows = "decode_rows c (batch_rows now (ms_store (w_store w)) keys)"
  have "svc_query memory_backend c (quiet (\<lambda>_. now)) ns (Equals fld v) w =
      (Inr ?rows, resume (quiet (\<lambda>_. now)) (resume (quiet (\<lambda>_. now)) w))"
    using keys by (simp add: svc_query_def call_read_def Let_def w_now_def memory_get_batch_def)
  moreover have "set (map snd ?rows) =
      {a. \<exists>ident. stored_item ns c now (w_store w) ident a \<and> v \<in> fields_of (Some (ix a)) fld}"
  proof (intro set_eqI)
    fix a
    have "a \<in> set (map snd ?rows) \<longleftrightarrow> (\<exists>k \<in> set keys. \<exists>b. memory_live now (w_store w) k = Some b \<and> decode c b = Inr a)"
      unfolding set_map decode_rows_items batch_rows_entries by blast
    also have "\<dots> \<longleftrightarrow> (\<exists>ident. stored_item ns c now (w_store w) ident a \<and> v \<in> fields_of (Some (ix a)) fld)"
    proof
      assume "\<exists>k \<in> set keys. \<exists>b. memory_live now (w_store w) k = Some b \<and> decode c b = Inr a"
      then show "\<exists>ident. stored_item ns c now (w_store w) ident a \<and> v \<in> fields_of (Some (ix a)) fld"
        unfolding set_keys stored_item_def by fastforce
    next
      assume "\<exists>ident. stored_item ns c now (w_store w) ident a \<and> v \<in> fields_of (Some (ix a)) fld"
      then obtain ident where it: "stored_item ns c now (w_store w) ident a" "v \<in> fields_of (Some (ix a)) fld"
        by blast
      then have "mk_key ns ident \<in> set keys" unfolding set_keys by blast
      then show "\<exists>k \<in> set keys. \<exists>b. memory_live now (w_store w) k = Some b \<and> decode c b = Inr a"
        using it(1) unfolding stored_item_def by blast
    qed
    finally show "a \<in> set (map snd ?rows) \<longleftrightarrow> a \<in> {a. \<exists>ident. stored_item ns c now (w_store w) ident a \<and>
      v \<in> fields_of (Some (ix a)) fld}" by simp
  qed
  ultimately show ?thesis by simp
qed

end
