(* ===== verification/Attempt_Store.thy ===== *)
theory Attempt_Store
  imports Attempt_Types Indexed_Rows
begin

text \<open>
  \<^verbatim>\<open>crates/solver-core/src/state/transaction_attempt.rs\<close>: the durable ledger of delivery attempts.
  Rows are written once as planned and then only replaced by compare-and-swap while they are not
  terminal.  Fresh ids (\<^verbatim>\<open>Uuid::new_v4\<close>) and hexadecimal encoding are parameters.
\<close>

section \<open>Operations\<close>

datatype attempt_store_error =
    AttemptStorage string
  | AttemptNotFound string
  | TerminalAttempt string
  | ConcurrentModification string

fun attempt_error_text :: "attempt_store_error \<Rightarrow> string" where
  "attempt_error_text (AttemptStorage m) = ''storage error: '' @ m"
| "attempt_error_text (AttemptNotFound m) = ''transaction attempt not found: '' @ m"
| "attempt_error_text (TerminalAttempt m) =
     ''transaction attempt is terminal and cannot be updated: '' @ m"
| "attempt_error_text (ConcurrentModification m) = ''transaction attempt changed concurrently: '' @ m"

fun from_attempt_storage :: "storage_error \<Rightarrow> attempt_store_error" where
  "from_attempt_storage (NotFound i) = AttemptNotFound i"
| "from_attempt_storage e = AttemptStorage (storage_error_text e)"

abbreviation attempts_ns :: string where
  "attempts_ns \<equiv> storage_key_str TransactionAttempts"

definition transaction_attempt_indexes ::
  "(bytes \<Rightarrow> string) \<Rightarrow> transaction_attempt \<Rightarrow> storage_indexes" where
  "transaction_attempt_indexes hexe a =
     (let scope_kind = (if scope_is_system (at_scope a) then ''system'' else ''order'');
          ix = with_field (with_field (with_field [] ''scope_kind'' (JString scope_kind))
                 ''scope_id'' (JString (scope_ident (at_scope a))))
                 ''is_terminal'' (JBool (attempt_terminal a));
          ix1 = (case scope_order_id (at_scope a) of
                   None \<Rightarrow> ix | Some oid \<Rightarrow> with_field ix ''order_id'' (JString oid))
      in (case at_tx_hash a of
            None \<Rightarrow> ix1 | Some h \<Rightarrow> with_field ix1 ''tx_hash'' (JString (hexe h))))"

type_synonym ('s, 'b, 'r) attempt_op =
  "('s, 'b) backend \<Rightarrow> (transaction_attempt, 'b) codec \<Rightarrow> (bytes \<Rightarrow> string) \<Rightarrow> 's sched \<Rightarrow> 'r"

definition lift_attempt_error ::
  "(storage_error, 'a) result \<times> 's world \<Rightarrow> (attempt_store_error, 'a) result \<times> 's world" where
  "lift_attempt_error = map_prod (map_sum from_attempt_storage (\<lambda>a. a)) (\<lambda>v. v)"

definition save_attempt ::
  "('s, 'b, transaction_attempt \<Rightarrow> 's world \<Rightarrow> (attempt_store_error, unit) result \<times> 's world) attempt_op" where
  "save_attempt B ac hexe sc a w =
     lift_attempt_error
       (svc_store B ac sc attempts_ns (at_id a) a (Some (transaction_attempt_indexes hexe a)) w)"

definition create_planned_attempt ::
  "('s, 'b, string \<Rightarrow> string \<Rightarrow> bytes option \<Rightarrow> transaction_type \<Rightarrow> evm_transaction \<Rightarrow> 's world
    \<Rightarrow> (attempt_store_error, transaction_attempt) result \<times> 's world) attempt_op" where
  "create_planned_attempt B ac hexe sc new_id oid signer ty tx w =
     (let a = planned (current_timestamp (w_unix sc w)) new_id (OrderScope oid) signer ty (Evm tx)
      in (case save_attempt B ac hexe sc a w of
            (Inl e, w1) \<Rightarrow> (Inl e, w1)
          | (Inr _, w1) \<Rightarrow> (Inr a, w1)))"

definition get_attempt ::
  "('s, 'b, string \<Rightarrow> 's world \<Rightarrow> (attempt_store_error, transaction_attempt) result \<times> 's world) attempt_op" where
  "get_attempt B ac hexe sc ident w = lift_attempt_error (svc_retrieve B ac sc attempts_ns ident w)"

definition query_attempts ::
  "('s, 'b, query_filter \<Rightarrow> (transaction_attempt \<Rightarrow> bool) \<Rightarrow> 's world
    \<Rightarrow> (attempt_store_error, transaction_attempt list) result \<times> 's world) attempt_op" where
  "query_attempts B ac hexe sc flt keep w =
     (case lift_attempt_error (svc_query B ac sc attempts_ns flt w) of
        (Inl e, w1) \<Rightarrow> (Inl e, w1)
      | (Inr rows, w1) \<Rightarrow> (Inr (filter keep (map snd rows)), w1))"

definition attempts_for_order ::
  "('s, 'b, string \<Rightarrow> 's world \<Rightarrow> (attempt_store_error, transaction_attempt list) result \<times> 's world) attempt_op" where
  "attempts_for_order B ac hexe sc oid w =
     query_attempts B ac hexe sc (Equals ''order_id'' (JString oid)) (\<lambda>_. True) w"

definition non_terminal_system_attempts ::
  "('s, 'b, 's world \<Rightarrow> (attempt_store_error, transaction_attempt list) result \<times> 's world) attempt_op" where
  "non_terminal_system_attempts B ac hexe sc w =
     query_attempts B ac hexe sc (Equals ''scope_kind'' (JString ''system''))
       (\<lambda>a. \<not> attempt_terminal a) w"

definition non_terminal_order_attempts ::
  "('s, 'b, 's world \<Rightarrow> (attempt_store_error, transaction_attempt list) result \<times> 's world) attempt_op" where
  "non_terminal_order_attempts B ac hexe sc w =
     query_attempts B ac hexe sc (Equals ''is_terminal'' (JBool False))
       (\<lambda>a. \<not> scope_is_system (at_scope a)) w"

definition attempts_for_system_scope ::
  "('s, 'b, string \<Rightarrow> 's world \<Rightarrow> (attempt_store_error, transaction_attempt list) result \<times> 's world) attempt_op" where
  "attempts_for_system_scope B ac hexe sc scope w =
     query_attempts B ac hexe sc (Equals ''scope_id'' (JString scope))
       (\<lambda>a. at_scope a = SystemScope scope) w"

definition attempt_by_hash ::
  "('s, 'b, bytes \<Rightarrow> 's world \<Rightarrow> (attempt_store_error, transaction_attempt option) result \<times> 's world) attempt_op" where
  "attempt_by_hash B ac hexe sc h w =
     (case query_attempts B ac hexe sc (Equals ''tx_hash'' (JString (hexe h))) (\<lambda>_. True) w of
        (Inl e, w1) \<Rightarrow> (Inl e, w1)
      | (Inr as, w1) \<Rightarrow> (Inr (case as of [] \<Rightarrow> None | a # _ \<Rightarrow> Some a), w1))"

text \<open>Reading a row with its bytes, for a later swap.\<close>

definition read_row ::
  "('s, 'b) backend \<Rightarrow> (transaction_attempt, 'b) codec \<Rightarrow> 's sched \<Rightarrow> string \<Rightarrow> 's world
   \<Rightarrow> (attempt_store_error, 'b \<times> transaction_attempt) result \<times> 's world" where
  "read_row B ac sc ident w =
     (let (r, w1) = svc_retrieve_bytes B sc attempts_ns ident w
      in (case r of
            Inl e \<Rightarrow> (Inl (from_attempt_storage e), w1)
          | Inr b \<Rightarrow>
              (case decode ac b of Inl m \<Rightarrow> (Inl (AttemptStorage m), w1) | Inr a \<Rightarrow> (Inr (b, a), w1))))"

text \<open>Encoding and swapping a changed row, under the id inside the row.\<close>

definition swap_row ::
  "('s, 'b, 'b \<Rightarrow> transaction_attempt \<Rightarrow> 's world \<Rightarrow> (attempt_store_error, bool) result \<times> 's world) attempt_op" where
  "swap_row B ac hexe sc current a w =
     (case encode ac a of
        Inl m \<Rightarrow> (Inl (AttemptStorage m), w)
      | Inr updated \<Rightarrow>
          lift_attempt_error (svc_compare_and_swap_bytes B sc attempts_ns (at_id a) current updated
            (Some (transaction_attempt_indexes hexe a)) None w))"

definition set_replaced_by ::
  "('s, 'b, string \<Rightarrow> string \<Rightarrow> 's world \<Rightarrow> (attempt_store_error, unit) result \<times> 's world) attempt_op" where
  "set_replaced_by B ac hexe sc parent_id child_id w =
     (case read_row B ac sc parent_id w of
        (Inl e, w1) \<Rightarrow> (Inl e, w1)
      | (Inr (current, a), w1) \<Rightarrow>
          if attempt_terminal a then (Inr (), w1)
          else (case swap_row B ac hexe sc current
                   (a\<lparr>at_replaced_by := Some child_id,
                      at_updated_at := current_timestamp (w_unix sc w1)\<rparr>) w1 of
                  (Inl e, w2) \<Rightarrow> (Inl e, w2)
                | (Inr _, w2) \<Rightarrow> (Inr (), w2)))"

definition update_attempt_status ::
  "('s, 'b, string \<Rightarrow> attempt_status \<Rightarrow> string option \<Rightarrow> (transaction_attempt \<Rightarrow> transaction_attempt)
    \<Rightarrow> 's world \<Rightarrow> (attempt_store_error, transaction_attempt) result \<times> 's world) attempt_op" where
  "update_attempt_status B ac hexe sc ident st err mutate w =
     (case read_row B ac sc ident w of
        (Inl e, w1) \<Rightarrow> (Inl e, w1)
      | (Inr (current, a), w1) \<Rightarrow>
          if attempt_terminal a then (Inl (TerminalAttempt ident), w1)
          else (let a1 = (mutate a)\<lparr>at_status := st, at_error := err,
                           at_updated_at := current_timestamp (w_unix sc w1)\<rparr>
                in (case swap_row B ac hexe sc current a1 w1 of
                      (Inl e, w2) \<Rightarrow> (Inl e, w2)
                    | (Inr swapped, w2) \<Rightarrow>
                        if swapped then (Inr a1, w2)
                        else (case read_row B ac sc ident w2 of
                                (Inl e, w3) \<Rightarrow> (Inl e, w3)
                              | (Inr (_, latest), w3) \<Rightarrow>
                                  if attempt_terminal latest then (Inl (TerminalAttempt ident), w3)
                                  else (Inl (ConcurrentModification ident), w3)))))"

definition mark_attempt_confirmed_from_receipt ::
  "('s, 'b, string \<Rightarrow> bytes \<Rightarrow> transaction_receipt \<Rightarrow> 's world
    \<Rightarrow> (attempt_store_error, transaction_attempt) result \<times> 's world) attempt_op" where
  "mark_attempt_confirmed_from_receipt B ac hexe sc ident h rcpt w =
     update_attempt_status B ac hexe sc ident Confirmed None
       (\<lambda>a. a\<lparr>at_tx_hash := Some h, at_receipt := Some rcpt\<rparr>) w"

record planned_attempt_init =
  pai_scope :: attempt_scope
  pai_signer :: "bytes option"
  pai_tx_type :: transaction_type
  pai_tx :: execution_transaction
  pai_attempt_id_override :: "string option"
  pai_replacement_of :: "string option"

text \<open>The recorder reports every failure as the text of the store's error.\<close>

definition record_planned_attempt ::
  "('s, 'b, string \<Rightarrow> planned_attempt_init \<Rightarrow> 's world \<Rightarrow> (string, transaction_attempt) result \<times> 's world) attempt_op" where
  "record_planned_attempt B ac hexe sc new_id init w =
     (let ident = (case pai_attempt_id_override init of None \<Rightarrow> new_id | Some i \<Rightarrow> i);
          a = (planned (current_timestamp (w_unix sc w)) ident (pai_scope init) (pai_signer init)
                 (pai_tx_type init) (pai_tx init))\<lparr>at_replacement_of := pai_replacement_of init\<rparr>
      in (case save_attempt B ac hexe sc a w of
            (Inl e, w1) \<Rightarrow> (Inl (attempt_error_text e), w1)
          | (Inr _, w1) \<Rightarrow> (Inr a, w1)))"

definition record_update :: "bytes option \<Rightarrow> transaction_receipt option \<Rightarrow> transaction_attempt \<Rightarrow> transaction_attempt" where
  "record_update h rcpt a =
     (let a1 = (case h of None \<Rightarrow> a | Some hash \<Rightarrow> a\<lparr>at_tx_hash := Some hash\<rparr>)
      in (case rcpt of None \<Rightarrow> a1 | Some rc \<Rightarrow> a1\<lparr>at_receipt := Some rc\<rparr>))"

definition record_attempt_update ::
  "('s, 'b, string \<Rightarrow> attempt_status \<Rightarrow> bytes option \<Rightarrow> transaction_receipt option \<Rightarrow> string option
    \<Rightarrow> 's world \<Rightarrow> (string, unit) result \<times> 's world) attempt_op" where
  "record_attempt_update B ac hexe sc ident st h rcpt err w =
     (case update_attempt_status B ac hexe sc ident st err (record_update h rcpt) w of
        (Inl e, w1) \<Rightarrow> (Inl (attempt_error_text e), w1)
      | (Inr _, w1) \<Rightarrow> (Inr (), w1))"

section \<open>Steps of the ledger\<close>

definition attempt_key :: "string \<Rightarrow> string" where
  "attempt_key ident = mk_key attempts_ns ident"

lemma attempt_key_inj [simp]: "attempt_key i = attempt_key j \<longleftrightarrow> i = j"
  by (simp add: attempt_key_def)

text \<open>What is fixed when a row is planned.\<close>

definition same_identity :: "transaction_attempt \<Rightarrow> transaction_attempt \<Rightarrow> bool" where
  "same_identity a a' \<longleftrightarrow> at_id a' = at_id a \<and> at_scope a' = at_scope a \<and> at_signer a' = at_signer a \<and>
     at_tx_type a' = at_tx_type a \<and> at_chain_id a' = at_chain_id a \<and> at_nonce a' = at_nonce a \<and>
     at_tx a' = at_tx a \<and> at_created_at a' = at_created_at a \<and>
     at_replacement_of a' = at_replacement_of a"

lemma same_identity_refl [simp]: "same_identity a a"
  by (simp add: same_identity_def)

lemma same_identity_trans: "same_identity a b \<Longrightarrow> same_identity b c \<Longrightarrow> same_identity a c"
  by (simp add: same_identity_def)

text \<open>
  One atomic effect on the ledger: no row changes, a new row appears under an unused key, or a
  row that is not terminal is replaced by one with the same identity.
\<close>

inductive attempt_step ::
  "(nat \<Rightarrow> 's \<Rightarrow> string \<Rightarrow> 'b option) \<Rightarrow> (transaction_attempt, 'b) codec \<Rightarrow> 's \<Rightarrow> 's \<Rightarrow> bool"
  for live ac where
  elsewhere: "(\<And>t i. live t s' (attempt_key i) = live t s (attempt_key i)) \<Longrightarrow> attempt_step live ac s s'"
| create: "(\<And>t. live t s (attempt_key i) = None) \<Longrightarrow> encode ac a = Inr b \<Longrightarrow>
    writes_key live (attempt_key i) None t b s s' \<Longrightarrow> attempt_step live ac s s'"
| update: "live t s (attempt_key i) = Some b0 \<Longrightarrow> decode ac b0 = Inr a0 \<Longrightarrow> \<not> attempt_terminal a0 \<Longrightarrow>
    encode ac a1 = Inr b1 \<Longrightarrow> same_identity a0 a1 \<Longrightarrow>
    writes_key live (attempt_key i) None t b1 s s' \<Longrightarrow> attempt_step live ac s s'"

definition holds_attempt ::
  "(nat \<Rightarrow> 's \<Rightarrow> string \<Rightarrow> 'b option) \<Rightarrow> (transaction_attempt, 'b) codec \<Rightarrow> 's \<Rightarrow> string
   \<Rightarrow> transaction_attempt \<Rightarrow> bool" where
  "holds_attempt live ac s i a \<longleftrightarrow> (\<exists>b. (\<forall>t. live t s (attempt_key i) = Some b) \<and> decode ac b = Inr a)"

definition fair_attempts ::
  "(nat \<Rightarrow> 's \<Rightarrow> string \<Rightarrow> 'b option) \<Rightarrow> (transaction_attempt, 'b) codec \<Rightarrow> 's sched \<Rightarrow> bool" where
  "fair_attempts live ac sc \<longleftrightarrow> (\<forall>n s. (attempt_step live ac)\<^sup>*\<^sup>* s (interfere sc n s))"

lemma fair_attempts_resume:
  "fair_attempts live ac sc \<Longrightarrow> (attempt_step live ac)\<^sup>*\<^sup>* (w_store w) (w_store (resume sc w))"
  by (simp add: fair_attempts_def resume_def)

definition row_history :: "transaction_attempt \<Rightarrow> transaction_attempt \<Rightarrow> bool" where
  "row_history a a' \<longleftrightarrow> same_identity a a' \<and> (attempt_terminal a \<longrightarrow> a' = a)"

lemma row_history_trans: "row_history a b \<Longrightarrow> row_history b c \<Longrightarrow> row_history a c"
  by (auto simp: row_history_def intro: same_identity_trans)

lemma attempt_step_history:
  assumes "codec_ok ac" "attempt_step live ac s s'" "holds_attempt live ac s i a"
  shows "\<exists>a'. holds_attempt live ac s' i a' \<and> row_history a a'"
  using assms(2)
proof cases
  case elsewhere
  then show ?thesis using assms(3) by (auto simp: holds_attempt_def row_history_def)
next
  case (create j a1 b t)
  then have "j \<noteq> i" using assms(3) by (auto simp: holds_attempt_def)
  then show ?thesis using create(3) assms(3) by (auto simp: holds_attempt_def writes_key_def row_history_def)
next
  case (update t j b0 a0 a1 b1)
  show ?thesis
  proof (cases "j = i")
    case True
    then have "a0 = a" using update(1,2) assms(3) by (auto simp: holds_attempt_def)
    moreover have "holds_attempt live ac s' i a1"
      using update(4,6) True codec_okD [OF assms(1)]
      by (auto simp: holds_attempt_def writes_key_def until_ttl_def)
    ultimately show ?thesis using update(3,5) by (auto simp: row_history_def)
  next
    case False
    then show ?thesis using update(6) assms(3) by (auto simp: holds_attempt_def writes_key_def row_history_def)
  qed
qed

lemma attempt_steps_history:
  assumes "codec_ok ac"
  shows "(attempt_step live ac)\<^sup>*\<^sup>* s s' \<Longrightarrow> holds_attempt live ac s i a \<Longrightarrow>
    \<exists>a'. holds_attempt live ac s' i a' \<and> row_history a a'"
proof (induction rule: rtranclp_induct)
  case base
  then show ?case by (auto simp: row_history_def)
next
  case (step s1 s2)
  then show ?case by (meson attempt_step_history [OF assms] row_history_trans)
qed

lemma read_row_ok:
  "read_row B ac sc i w = (Inr (b, a), w') \<Longrightarrow> w' = resume sc w \<and> decode ac b = Inr a"
  "read_row B ac sc i w = (r, w') \<Longrightarrow> w' = resume sc w"
  by (auto simp: read_row_def svc_retrieve_bytes_def call_read_def Let_def split: sum.splits)

context storage_contract
begin

lemma swap_row_steps:
  assumes env: "fair_attempts live ac sc" and "decode ac e = Inr a0" "\<not> attempt_terminal a0"
    and "same_identity a0 a1" and run: "swap_row B ac hexe sc e a1 w = (r, w')"
  shows "(attempt_step live ac)\<^sup>*\<^sup>* (w_store w) (w_store w')"
proof (cases "encode ac a1")
  case (Inr b)
  then obtain q where cas: "svc_compare_and_swap_bytes B sc attempts_ns (at_id a1) e b
      (Some (transaction_attempt_indexes hexe a1)) None w = (q, w')"
    using run by (auto simp: swap_row_def lift_attempt_error_def map_prod_def split: prod.splits)
  note c = svc_cas_call [OF cas, folded attempt_key_def]
  have "attempt_step live ac (w_store (resume sc w)) (w_store w')"
  proof (cases "q = Inr True")
    case True
    show ?thesis
      by (rule attempt_step.update [OF c(2) [OF True] assms(2,3) Inr assms(4) c(1) [OF True]])
  qed (auto intro: attempt_step.elsewhere c(3))
  then show ?thesis using fair_attempts_resume [OF env, of w] by simp
next
  case (Inl m)
  then show ?thesis using run by (simp add: swap_row_def)
qed

lemma set_replaced_by_steps:
  assumes env: "fair_attempts live ac sc" and run: "set_replaced_by B ac hexe sc p ch w = (r, w')"
  shows "(attempt_step live ac)\<^sup>*\<^sup>* (w_store w) (w_store w')"
proof -
  note res = fair_attempts_resume [OF env, of w]
  have swap: "(attempt_step live ac)\<^sup>*\<^sup>* (w_store (resume sc w)) (w_store w2)"
    if "decode ac b = Inr a" "\<not> attempt_terminal a"
      "swap_row B ac hexe sc b (a\<lparr>at_replaced_by := x, at_updated_at := n\<rparr>) (resume sc w) = (q, w2)"
    for b a x n q w2
    by (rule swap_row_steps [OF env that(1,2) _ that(3)]) (simp add: same_identity_def)
  obtain q w1 where rd: "read_row B ac sc p w = (q, w1)" by fastforce
  have w1: "w1 = resume sc w" using read_row_ok(2) [OF rd] .
  show ?thesis
  proof (cases q)
    case (Inl e)
    then show ?thesis using run rd res w1 by (simp add: set_replaced_by_def)
  next
    case (Inr x)
    obtain b a where x: "x = (b, a)" by (cases x)
    have dec: "decode ac b = Inr a" using read_row_ok(1) [OF rd [unfolded Inr x]] by blast
    note sw = swap [OF dec]
    have "w' = w1 \<or> (attempt_step live ac)\<^sup>*\<^sup>* (w_store (resume sc w)) (w_store w')"
      using run rd w1 by (auto simp: set_replaced_by_def Inr x split: prod.splits sum.splits if_splits intro: sw)
    then show ?thesis using res w1 by (auto intro: rtranclp_trans)
  qed
qed

lemma update_attempt_status_steps:
  assumes env: "fair_attempts live ac sc" and mut: "\<And>a. same_identity a (mutate a)"
    and run: "update_attempt_status B ac hexe sc i st err mutate w = (r, w')"
  shows "(attempt_step live ac)\<^sup>*\<^sup>* (w_store w) (w_store w')"
proof -
  note res = fair_attempts_resume [OF env]
  have swap: "(attempt_step live ac)\<^sup>*\<^sup>* (w_store (resume sc w)) (w_store w2)"
    if "decode ac b = Inr a" "\<not> attempt_terminal a"
      "swap_row B ac hexe sc b ((mutate a)\<lparr>at_status := st, at_error := err, at_updated_at := n\<rparr>)
        (resume sc w) = (q, w2)"
    for b a n q w2
    by (rule swap_row_steps [OF env that(1,2) _ that(3)]) (use mut [of a] in \<open>simp add: same_identity_def\<close>)
  obtain q w1 where rd: "read_row B ac sc i w = (q, w1)" by fastforce
  have w1: "w1 = resume sc w" using read_row_ok(2) [OF rd] .
  show ?thesis
  proof (cases q)
    case (Inl e)
    then show ?thesis using run rd res [of w] w1 by (simp add: update_attempt_status_def)
  next
    case (Inr x)
    obtain b a where x: "x = (b, a)" by (cases x)
    have dec: "decode ac b = Inr a" using read_row_ok(1) [OF rd [unfolded Inr x]] by blast
    note sw = swap [OF dec]
    have "w' = w1 \<or> (\<exists>w2. (attempt_step live ac)\<^sup>*\<^sup>* (w_store (resume sc w)) (w_store w2) \<and>
        (w' = w2 \<or> w' = resume sc w2))"
      using run rd w1
      by (auto simp: update_attempt_status_def Let_def Inr x split: prod.splits sum.splits if_splits
          intro: sw dest!: read_row_ok(2))
    then show ?thesis using res [of w] res w1 by (auto intro: rtranclp_trans)
  qed
qed

end

section \<open>The ledger on the memory backend\<close>

definition attempts_indexed ::
  "(transaction_attempt, 'b) codec \<Rightarrow> (bytes \<Rightarrow> string) \<Rightarrow> 'b memory_storage \<Rightarrow> bool" where
  "attempts_indexed ac hexe m \<longleftrightarrow> rows_indexed attempts_ns ac (transaction_attempt_indexes hexe) m"

definition keeps_attempts ::
  "(transaction_attempt, 'b) codec \<Rightarrow> (bytes \<Rightarrow> string) \<Rightarrow> 'b memory_storage sched \<Rightarrow> bool" where
  "keeps_attempts ac hexe sc \<longleftrightarrow> (\<forall>n s. attempts_indexed ac hexe s \<longrightarrow> attempts_indexed ac hexe (interfere sc n s))"

lemma keeps_attempts_resume:
  "keeps_attempts ac hexe sc \<Longrightarrow> attempts_indexed ac hexe (w_store w) \<Longrightarrow>
   attempts_indexed ac hexe (w_store (resume sc w))"
  by (simp add: keeps_attempts_def resume_def)

lemma save_attempt_indexed:
  assumes "codec_ok ac" "keeps_attempts ac hexe sc" "attempts_indexed ac hexe (w_store w)"
  shows "attempts_indexed ac hexe (w_store (snd (save_attempt memory_backend ac hexe sc a w)))"
proof (cases "encode ac a")
  case (Inr b)
  then show ?thesis
    using rows_indexed_set [OF assms(1) keeps_attempts_resume [OF assms(2,3), unfolded attempts_indexed_def] Inr]
    by (simp add: save_attempt_def lift_attempt_error_def svc_defs Let_def memory_set_bytes_def attempts_indexed_def)
qed (use assms(3) in \<open>simp add: save_attempt_def lift_attempt_error_def svc_defs\<close>)

lemma swap_row_indexed:
  assumes "codec_ok ac" "keeps_attempts ac hexe sc" "attempts_indexed ac hexe (w_store w)"
  shows "attempts_indexed ac hexe (w_store (snd (swap_row memory_backend ac hexe sc e a w)))"
proof (cases "encode ac a")
  case (Inr b)
  have "attempts_indexed ac hexe (w_store (snd (svc_compare_and_swap_bytes memory_backend sc attempts_ns
      (at_id a) e b (Some (transaction_attempt_indexes hexe a)) None w)))"
    unfolding svc_cas_store attempts_indexed_def
    by (rule rows_indexed_cas [OF assms(1) keeps_attempts_resume [OF assms(2,3), unfolded attempts_indexed_def] Inr])
  then show ?thesis using Inr by (simp add: swap_row_def lift_attempt_error_def)
qed (use assms(3) in \<open>simp add: swap_row_def\<close>)

lemma update_attempt_status_indexed:
  assumes ok: "codec_ok ac" "keeps_attempts ac hexe sc" and "attempts_indexed ac hexe (w_store w)"
  shows "attempts_indexed ac hexe (w_store (snd (update_attempt_status memory_backend ac hexe sc i st err f w)))"
proof -
  note r1 = keeps_attempts_resume [OF ok(2)]
  have sw: "attempts_indexed ac hexe (w_store w2)"
    if "swap_row memory_backend ac hexe sc e a (resume sc w) = (q, w2)" for e a q w2
    using swap_row_indexed [OF ok r1 [OF assms(3)], of e a] that by simp
  then show ?thesis using r1 assms(3)
    by (auto simp: update_attempt_status_def Let_def dest!: read_row_ok(2)
        split: prod.splits sum.splits if_splits)
qed

lemma set_replaced_by_indexed:
  assumes ok: "codec_ok ac" "keeps_attempts ac hexe sc" and "attempts_indexed ac hexe (w_store w)"
  shows "attempts_indexed ac hexe (w_store (snd (set_replaced_by memory_backend ac hexe sc p ch w)))"
proof -
  note r1 = keeps_attempts_resume [OF ok(2)]
  have sw: "attempts_indexed ac hexe (w_store w2)"
    if "swap_row memory_backend ac hexe sc e a (resume sc w) = (q, w2)" for e a q w2
    using swap_row_indexed [OF ok r1 [OF assms(3)], of e a] that by simp
  then show ?thesis using r1 assms(3)
    by (auto simp: set_replaced_by_def dest!: read_row_ok(2) split: prod.splits sum.splits if_splits)
qed

lemma attempt_index_fields:
  "JString x \<in> fields_of (Some (transaction_attempt_indexes hexe a)) ''order_id'' \<longleftrightarrow> at_scope a = OrderScope x"
  "JString k \<in> fields_of (Some (transaction_attempt_indexes hexe a)) ''scope_kind'' \<longleftrightarrow>
     k = (if scope_is_system (at_scope a) then ''system'' else ''order'')"
  "JString x \<in> fields_of (Some (transaction_attempt_indexes hexe a)) ''scope_id'' \<longleftrightarrow> scope_ident (at_scope a) = x"
  "JBool v \<in> fields_of (Some (transaction_attempt_indexes hexe a)) ''is_terminal'' \<longleftrightarrow> attempt_terminal a = v"
  "JString x \<in> fields_of (Some (transaction_attempt_indexes hexe a)) ''tx_hash'' \<longleftrightarrow>
     (\<exists>h. at_tx_hash a = Some h \<and> hexe h = x)"
  by (cases "at_scope a"; auto simp: fields_of_def transaction_attempt_indexes_def with_field_def Let_def
      split: option.splits)+

lemma query_attempts_items:
  assumes "attempts_indexed ac hexe (w_store w)"
  shows "\<exists>as w'. query_attempts memory_backend ac hexe (quiet (\<lambda>_. now)) (Equals fld v) keep w = (Inr as, w') \<and>
    w_store w' = w_store w \<and>
    set as = {a. (\<exists>i. stored_item attempts_ns ac now (w_store w) i a) \<and>
      v \<in> fields_of (Some (transaction_attempt_indexes hexe a)) fld \<and> keep a}"
proof -
  from svc_query_items [OF assms [unfolded attempts_indexed_def] storage_key_no_colon, of now fld v]
  obtain rows w' where q: "svc_query memory_backend ac (quiet (\<lambda>_. now)) attempts_ns (Equals fld v) w = (Inr rows, w')"
    and "w_store w' = w_store w"
    and items: "set (map snd rows) = {a. \<exists>i. stored_item attempts_ns ac now (w_store w) i a \<and>
      v \<in> fields_of (Some (transaction_attempt_indexes hexe a)) fld}" by blast
  have "set (filter keep (map snd rows)) = {a. (\<exists>i. stored_item attempts_ns ac now (w_store w) i a) \<and>
      v \<in> fields_of (Some (transaction_attempt_indexes hexe a)) fld \<and> keep a}"
    unfolding set_filter items by blast
  moreover have "query_attempts memory_backend ac hexe (quiet (\<lambda>_. now)) (Equals fld v) keep w =
      (Inr (filter keep (map snd rows)), w')"
    using q by (simp only: query_attempts_def lift_attempt_error_def map_prod_simp map_sum.simps prod.case sum.case)
  ultimately show ?thesis using \<open>w_store w' = w_store w\<close> by blast
qed

lemma read_row_undisturbed:
  assumes "memory_live now (w_store w) (attempt_key i) = Some b" "decode ac b = Inr a"
  shows "read_row memory_backend ac (quiet (\<lambda>_. now)) i w = (Inr (b, a), resume (quiet (\<lambda>_. now)) w)"
  using assms by (auto simp: read_row_def svc_retrieve_bytes_def call_read_def Let_def attempt_key_def
      memory_get_bytes_def memory_live_def split: option.splits if_splits)

lemma swap_row_undisturbed:
  assumes "memory_live now (w_store w) (attempt_key (at_id a)) = Some b" "encode ac a = Inr b1"
  shows "\<exists>w'. swap_row memory_backend ac hexe (quiet (\<lambda>_. now)) b a w = (Inr True, w') \<and>
    writes_key memory_live (attempt_key (at_id a)) None now b1 (w_store w) (w_store w')"
proof -
  obtain w' where cas: "svc_compare_and_swap_bytes memory_backend (quiet (\<lambda>_. now)) attempts_ns (at_id a) b b1
      (Some (transaction_attempt_indexes hexe a)) None w = (Inr True, w')"
    using assms(1) by (auto simp: svc_compare_and_swap_bytes_def call_write_def Let_def attempt_key_def
        memory_compare_and_swap_with_indexes_def memory_compare_and_swap_def memory_live_def
        split: option.splits if_splits)
  then have "swap_row memory_backend ac hexe (quiet (\<lambda>_. now)) b a w = (Inr True, w')"
    using assms(2) by (simp add: swap_row_def lift_attempt_error_def)
  moreover have "writes_key memory_live (attempt_key (at_id a)) None now b1 (w_store w) (w_store w')"
    using mem.svc_cas_call(1) [OF cas refl] by (simp add: attempt_key_def)
  ultimately show ?thesis by blast
qed

section \<open>Properties\<close>

text \<open>
  C34: Whatever other tasks do to the ledger between the storage calls, as long as they follow
  its rules, recording an update, confirming from a receipt or linking a replacement keeps every
  row there is: its id, scope, signer, chain, nonce, transaction, creation time and the parent
  it replaces never change, and a row that was terminal is still the very same row.
\<close>

theorem ledger_rows_keep_history:
  assumes "codec_ok ac" and "fair_attempts memory_live ac sc"
    and "holds_attempt memory_live ac (w_store w) i a"
    and "s' = w_store (snd (record_attempt_update memory_backend ac hexe sc j st h rcpt err w)) \<or>
      s' = w_store (snd (mark_attempt_confirmed_from_receipt memory_backend ac hexe sc j hash rc w)) \<or>
      s' = w_store (snd (set_replaced_by memory_backend ac hexe sc j child w))"
  shows "\<exists>a'. holds_attempt memory_live ac s' i a' \<and> same_identity a a' \<and> (attempt_terminal a \<longrightarrow> a' = a)"
proof -
  have upd: "same_identity a (record_update h rcpt a)" for a
    by (simp add: record_update_def same_identity_def Let_def split: option.splits)
  have rec: "(attempt_step memory_live ac)\<^sup>*\<^sup>* (w_store w)
      (w_store (snd (record_attempt_update memory_backend ac hexe sc j st h rcpt err w)))"
    using mem.update_attempt_status_steps [OF assms(2) upd surjective_pairing]
    by (simp add: record_attempt_update_def split: prod.splits sum.splits) (metis snd_conv)
  have "(attempt_step memory_live ac)\<^sup>*\<^sup>* (w_store w)
      (w_store (snd (mark_attempt_confirmed_from_receipt memory_backend ac hexe sc j hash rc w)))"
    unfolding mark_attempt_confirmed_from_receipt_def
    by (rule mem.update_attempt_status_steps [OF assms(2) _ surjective_pairing]) (simp add: same_identity_def)
  with rec have "(attempt_step memory_live ac)\<^sup>*\<^sup>* (w_store w) s'"
    using assms(4) mem.set_replaced_by_steps [OF assms(2) surjective_pairing] by metis
  from attempt_steps_history [OF assms(1) this assms(3)] show ?thesis by (simp add: row_history_def)
qed

definition attempt_codec :: "(transaction_attempt, transaction_attempt) codec" where
  "attempt_codec = \<lparr>encode = Inr, decode = Inr\<rparr>"

lemma attempt_codec_ok [simp]: "codec_ok attempt_codec" "encodes_all attempt_codec"
  "encode attempt_codec a = Inr a" "decode attempt_codec a = Inr a"
  by (simp_all add: attempt_codec_def codec_ok_def encodes_all_def)

lemma quiet_fair_attempts [simp]: "fair_attempts live ac (quiet cl)"
  by (simp add: fair_attempts_def)

definition sample_tx :: evm_transaction where
  "sample_tx = \<lparr>tx_to = None, tx_data = [], tx_value = 0, tx_chain_id = 10, tx_nonce = Some 7,
     tx_gas_limit = None, tx_gas_price = None, tx_max_fee_per_gas = Some 100,
     tx_max_priority_fee_per_gas = Some 2\<rparr>"

definition sample_attempt :: "attempt_status \<Rightarrow> transaction_attempt" where
  "sample_attempt st = (planned 1 ''a1'' (OrderScope ''o1'') None Fill (Evm sample_tx))\<lparr>at_status := st\<rparr>"

definition attempt_world :: "attempt_status \<Rightarrow> transaction_attempt memory_storage world" where
  "attempt_world st = \<lparr>w_store = put_entry 0 memory_new (attempt_key ''a1'') (sample_attempt st)
     (Some (transaction_attempt_indexes (\<lambda>_. []) (sample_attempt st))) None, w_tick = 0\<rparr>"

lemma attempt_world_live:
  "memory_live t (w_store (attempt_world st)) k = (if k = attempt_key ''a1'' then Some (sample_attempt st) else None)"
  by (simp add: attempt_world_def memory_live_put until_ttl_def) (simp add: memory_live_def memory_new_def)

lemma attempt_world_holds: "holds_attempt memory_live attempt_codec (w_store (attempt_world st)) ''a1'' (sample_attempt st)"
  by (simp add: holds_attempt_def attempt_world_live)

theorem ledger_rows_keep_history_witness:
  "holds_attempt memory_live attempt_codec (w_store (snd (record_attempt_update memory_backend attempt_codec
      (\<lambda>_. []) (quiet (\<lambda>_. 5)) ''a1'' Broadcast None None None (attempt_world Confirmed))))
     ''a1'' (sample_attempt Confirmed)"
proof -
  have "attempt_terminal (sample_attempt Confirmed)" by (simp add: sample_attempt_def attempt_terminal_iff)
  then show ?thesis
    using ledger_rows_keep_history [OF attempt_codec_ok(1) quiet_fair_attempts attempt_world_holds disjI1 [OF refl]]
    by metis
qed

lemma update_attempt_status_quiet:
  assumes "codec_ok ac" "encodes_all ac"
    and "memory_live now (w_store w) (attempt_key i) = Some b" and "decode ac b = Inr a" and "at_id (f a) = i"
    and "update_attempt_status memory_backend ac hexe (quiet (\<lambda>_. now)) i st err f w = (r, w')"
    and "a1 = (f a)\<lparr>at_status := st, at_error := err, at_updated_at := now\<rparr>"
  shows "if attempt_terminal a then r = Inl (TerminalAttempt i) \<and> w_store w' = w_store w
    else r = Inr a1 \<and> holds_attempt memory_live ac (w_store w') i a1 \<and>
      (\<forall>t k. k \<noteq> attempt_key i \<longrightarrow> memory_live t (w_store w') k = memory_live t (w_store w) k)"
proof -
  note rd = read_row_undisturbed [OF assms(3,4)]
  obtain b1 where b1: "encode ac a1 = Inr b1" using assms(2) by (auto simp: encodes_all_def)
  have ident: "at_id a1 = i" using assms(5,7) by simp
  then have "memory_live now (w_store (resume (quiet (\<lambda>_. now)) w)) (attempt_key (at_id a1)) = Some b"
    using assms(3) by simp
  from swap_row_undisturbed [OF this b1, of hexe] obtain w2
    where sw: "swap_row memory_backend ac hexe (quiet (\<lambda>_. now)) b a1 (resume (quiet (\<lambda>_. now)) w) = (Inr True, w2)"
      and wr: "writes_key memory_live (attempt_key i) None now b1 (w_store w) (w_store w2)"
    using ident by auto
  have "(r, w') = (if attempt_terminal a then (Inl (TerminalAttempt i), resume (quiet (\<lambda>_. now)) w)
      else (Inr a1, w2))"
    using assms(6) rd sw assms(7)
    by (auto simp: update_attempt_status_def current_timestamp_def Let_def split: if_splits)
  then show ?thesis
    using wr codec_okD [OF assms(1) b1]
    by (auto simp: holds_attempt_def writes_key_def until_ttl_def split: if_splits)
qed

text \<open>
  Updating an attempt that no other task touches succeeds exactly when the row is not
  terminal: then the row returned and stored is the old one with the caller's change, the new
  status, error and time, and no other row of the ledger changed.  A terminal row is refused as
  such and the store is left alone.
\<close>

theorem undisturbed_attempt_update:
  assumes "codec_ok ac" "encodes_all ac"
    and "memory_live now (w_store w) (attempt_key i) = Some b" and "decode ac b = Inr a" and "at_id (f a) = i"
    and "update_attempt_status memory_backend ac hexe (quiet (\<lambda>_. now)) i st err f w = (r, w')"
    and "a1 = (f a)\<lparr>at_status := st, at_error := err, at_updated_at := now\<rparr>"
  shows "if attempt_terminal a then r = Inl (TerminalAttempt i) \<and> w_store w' = w_store w
    else r = Inr a1 \<and> holds_attempt memory_live ac (w_store w') i a1 \<and>
      (\<forall>t k. k \<noteq> attempt_key i \<longrightarrow> memory_live t (w_store w') k = memory_live t (w_store w) k)"
  using update_attempt_status_quiet [OF assms] .

theorem undisturbed_attempt_update_witness:
  "\<exists>w'. update_attempt_status memory_backend attempt_codec (\<lambda>_. []) (quiet (\<lambda>_. 5)) ''a1'' Confirmed None
      (\<lambda>a. a) (attempt_world Broadcast) = (Inr ((sample_attempt Confirmed)\<lparr>at_updated_at := 5\<rparr>), w')"
proof -
  obtain r w' where run: "update_attempt_status memory_backend attempt_codec (\<lambda>_. []) (quiet (\<lambda>_. 5)) ''a1''
      Confirmed None (\<lambda>a. a) (attempt_world Broadcast) = (r, w')" by fastforce
  have "\<not> attempt_terminal (sample_attempt Broadcast)" by (simp add: sample_attempt_def attempt_terminal_iff)
  then show ?thesis
    using undisturbed_attempt_update [OF attempt_codec_ok(1,2) _ attempt_codec_ok(4) _ run refl] run
    by (simp add: attempt_world_live sample_attempt_def planned_def)
qed

text \<open>
  While the ledger's index entries agree with its rows, which every write of the ledger
  preserves, the recovery queries return exactly the right rows: those of the order, the open
  system attempts, the open order attempts, those of the system scope.
\<close>

theorem ledger_queries_exact:
  assumes "codec_ok ac" and "attempts_indexed ac hexe (w_store w)" and "keeps_attempts ac hexe sc"
    and "live_rows = {a. \<exists>i. stored_item attempts_ns ac now (w_store w) i a}"
  shows "(\<exists>as w'. attempts_for_order memory_backend ac hexe (quiet (\<lambda>_. now)) oid w = (Inr as, w') \<and>
      set as = {a \<in> live_rows. at_scope a = OrderScope oid}) \<and>
    (\<exists>as w'. non_terminal_system_attempts memory_backend ac hexe (quiet (\<lambda>_. now)) w = (Inr as, w') \<and>
      set as = {a \<in> live_rows. scope_is_system (at_scope a) \<and> \<not> attempt_terminal a}) \<and>
    (\<exists>as w'. non_terminal_order_attempts memory_backend ac hexe (quiet (\<lambda>_. now)) w = (Inr as, w') \<and>
      set as = {a \<in> live_rows. \<not> scope_is_system (at_scope a) \<and> \<not> attempt_terminal a}) \<and>
    (\<exists>as w'. attempts_for_system_scope memory_backend ac hexe (quiet (\<lambda>_. now)) scope w = (Inr as, w') \<and>
      set as = {a \<in> live_rows. at_scope a = SystemScope scope}) \<and>
    attempts_indexed ac hexe (w_store (snd (save_attempt memory_backend ac hexe sc a w))) \<and>
    attempts_indexed ac hexe (w_store (snd (set_replaced_by memory_backend ac hexe sc p child w))) \<and>
    attempts_indexed ac hexe (w_store (snd (update_attempt_status memory_backend ac hexe sc i st err f w)))"
proof -
  note q = query_attempts_items [OF assms(2), of now]
  have 1: "\<exists>as w'. attempts_for_order memory_backend ac hexe (quiet (\<lambda>_. now)) oid w = (Inr as, w') \<and>
      set as = {a \<in> live_rows. at_scope a = OrderScope oid}"
    using q [of "''order_id''" "JString oid" "\<lambda>_. True"]
    unfolding attempts_for_order_def attempt_index_fields assms(4) by fastforce
  have 2: "\<exists>as w'. non_terminal_system_attempts memory_backend ac hexe (quiet (\<lambda>_. now)) w = (Inr as, w') \<and>
      set as = {a \<in> live_rows. scope_is_system (at_scope a) \<and> \<not> attempt_terminal a}"
    using q [of "''scope_kind''" "JString ''system''" "\<lambda>a. \<not> attempt_terminal a"]
    unfolding non_terminal_system_attempts_def attempt_index_fields assms(4) by fastforce
  have 3: "\<exists>as w'. non_terminal_order_attempts memory_backend ac hexe (quiet (\<lambda>_. now)) w = (Inr as, w') \<and>
      set as = {a \<in> live_rows. \<not> scope_is_system (at_scope a) \<and> \<not> attempt_terminal a}"
    using q [of "''is_terminal''" "JBool False" "\<lambda>a. \<not> scope_is_system (at_scope a)"]
    unfolding non_terminal_order_attempts_def attempt_index_fields assms(4) by fastforce
  have 4: "\<exists>as w'. attempts_for_system_scope memory_backend ac hexe (quiet (\<lambda>_. now)) scope w = (Inr as, w') \<and>
      set as = {a \<in> live_rows. at_scope a = SystemScope scope}"
    using q [of "''scope_id''" "JString scope" "\<lambda>a. at_scope a = SystemScope scope"]
    unfolding attempts_for_system_scope_def attempt_index_fields assms(4) by fastforce
  show ?thesis
    by (intro conjI 1 2 3 4 save_attempt_indexed set_replaced_by_indexed update_attempt_status_indexed
        assms(1-3))
qed

lemma attempt_world_indexed: "attempts_indexed attempt_codec (\<lambda>_. []) (w_store (attempt_world st))"
proof -
  have "rows_indexed attempts_ns attempt_codec (transaction_attempt_indexes (\<lambda>_. [])) memory_new"
    by (simp add: rows_indexed_def memory_table_def memory_new_def memory_ok_def index_distinct_def
        index_placed_def indexed_keys_def)
  from rows_indexed_set [OF attempt_codec_ok(1) this attempt_codec_ok(3)] show ?thesis
    by (simp add: attempts_indexed_def attempt_world_def attempt_key_def)
qed

theorem ledger_queries_exact_witness:
  "\<exists>as w'. attempts_for_order memory_backend attempt_codec (\<lambda>_. []) (quiet (\<lambda>_. 5)) ''o1''
      (attempt_world Planned) = (Inr as, w') \<and> set as = {sample_attempt Planned}"
proof -
  have "keeps_attempts attempt_codec (\<lambda>_. []) (quiet (\<lambda>_. 5))" by (simp add: keeps_attempts_def)
  from ledger_queries_exact [OF attempt_codec_ok(1) attempt_world_indexed this refl, THEN conjunct1]
  obtain as w' where "attempts_for_order memory_backend attempt_codec (\<lambda>_. []) (quiet (\<lambda>_. 5)) ''o1''
      (attempt_world Planned) = (Inr as, w')"
    and "set as = {a \<in> {a. \<exists>i. stored_item attempts_ns attempt_codec 5 (w_store (attempt_world Planned)) i a}.
      at_scope a = OrderScope ''o1''}" by blast
  moreover have "{a \<in> {a. \<exists>i. stored_item attempts_ns attempt_codec 5 (w_store (attempt_world Planned)) i a}.
      at_scope a = OrderScope ''o1''} = {sample_attempt Planned}"
    unfolding stored_item_def attempt_key_def [symmetric] attempt_world_live
    by (auto simp: sample_attempt_def planned_def)
  ultimately show ?thesis by blast
qed

end
