(* ===== verification/Compact_Reservations.thy ===== *)
theory Compact_Reservations
  imports Memory_Storage
begin

text \<open>
  \<^verbatim>\<open>crates/solver-storage/src/compact_reservations.rs\<close>: in-flight reservations against deposits
  of TheCompact.  Each lock has a stored map from order id to amount and expiry, changed by
  compare-and-swap; the retry loops run against an arbitrary schedule of other writers.  The
  process-local mutex of \<^verbatim>\<open>guard_for\<close> only removes interleavings and is not modelled: the
  theorems hold without it on a backend whose \<open>set_nx\<close> and compare-and-swap are atomic.
\<close>

section \<open>Types\<close>

definition reservations_namespace :: string where
  "reservations_namespace = ''compact_reservations''"

definition CAS_MAX_RETRIES :: nat where "CAS_MAX_RETRIES = 8"
definition TTL_GRACE_SECS :: nat where "TTL_GRACE_SECS = 60"
definition ROLLBACK_MAX_ATTEMPTS :: nat where "ROLLBACK_MAX_ATTEMPTS = 3"

datatype reservation_error =
    Oversubscribed nat nat nat  \<comment> \<open>requested, reserved, available\<close>
  | ReservationStorage string

record deposit_reservation =
  dr_chain_id :: nat
  dr_owner :: string
  dr_token_id :: nat
  dr_amount :: nat
  dr_available_balance :: nat

record reservation_entry =
  re_amount :: nat
  re_expires_at :: nat

type_synonym lock_reservations = "(string \<times> reservation_entry) list"

section \<open>Operations\<close>

definition lock_id :: "nat \<Rightarrow> string \<Rightarrow> nat \<Rightarrow> string" where
  "lock_id chain_id owner token_id =
     to_dec chain_id @ '':'' @ to_lowercase owner @ '':'' @ ''0x'' @ to_hex token_id"

definition check_capacity :: "nat \<Rightarrow> deposit_reservation \<Rightarrow> (reservation_error, unit) result" where
  "check_capacity reserved d =
     (case checked_add u256_bound reserved (dr_amount d) of
        None \<Rightarrow> Inl (Oversubscribed (dr_amount d) reserved (dr_available_balance d))
      | Some tot \<Rightarrow>
          if tot > dr_available_balance d
          then Inl (Oversubscribed (dr_amount d) reserved (dr_available_balance d))
          else Inr ())"

definition ttl_for :: "lock_reservations \<Rightarrow> nat \<Rightarrow> nat" where
  "ttl_for m now =
     (let latest = (case map (re_expires_at \<circ> snd) m of [] \<Rightarrow> now | xs \<Rightarrow> fold max xs 0)
      in wrapping_add u64_bound (latest - now) TTL_GRACE_SECS)"

definition unix_now :: "'s sched \<Rightarrow> 's world \<Rightarrow> (reservation_error, nat) result" where
  "unix_now sc w =
     (case w_unix sc w of
        None \<Rightarrow> Inl (ReservationStorage ''second time provided was later than self'')
      | Some t \<Rightarrow> Inr t)"

text \<open>\<open>try_fold\<close> with \<open>checked_add\<close> over the entries of the other orders.\<close>

fun try_sum :: "nat \<Rightarrow> (string \<times> reservation_entry) list \<Rightarrow> nat option" where
  "try_sum acc [] = Some acc"
| "try_sum acc ((_, e) # rest) =
     (case checked_add u256_bound acc (re_amount e) of None \<Rightarrow> None | Some acc' \<Rightarrow> try_sum acc' rest)"

definition reserved_by_others :: "string \<Rightarrow> lock_reservations \<Rightarrow> nat option" where
  "reserved_by_others order_id m = try_sum 0 (filter (\<lambda>(existing_id, _). existing_id \<noteq> order_id) m)"

definition overflow_error :: reservation_error where
  "overflow_error = ReservationStorage ''reservation amount overflow''"

definition is_missing :: "storage_error \<Rightarrow> bool" where
  "is_missing e = (case e of NotFound _ \<Rightarrow> True | Expired _ \<Rightarrow> True | _ \<Rightarrow> False)"

definition from_storage_error :: "storage_error \<Rightarrow> reservation_error" where
  "from_storage_error e = ReservationStorage (storage_error_text e)"

text \<open>The map written for a first reservation, and for one next to existing entries.\<close>

definition first_map :: "string \<Rightarrow> nat \<Rightarrow> deposit_reservation \<Rightarrow> lock_reservations" where
  "first_map order_id expires_at d =
     bt_insert order_id \<lparr>re_amount = dr_amount d, re_expires_at = expires_at\<rparr> []"

definition unexpired :: "nat \<Rightarrow> lock_reservations \<Rightarrow> lock_reservations" where
  "unexpired now m = retain (\<lambda>_ e. re_expires_at e > now) m"

definition next_map ::
  "string \<Rightarrow> nat \<Rightarrow> deposit_reservation \<Rightarrow> nat \<Rightarrow> lock_reservations
   \<Rightarrow> (reservation_error, lock_reservations) result" where
  "next_map order_id expires_at d now m0 =
     (let m = unexpired now m0
      in (case reserved_by_others order_id m of
            None \<Rightarrow> Inl overflow_error
          | Some reserved \<Rightarrow>
              (case check_capacity reserved d of
                 Inl e \<Rightarrow> Inl e
               | Inr _ \<Rightarrow>
                   Inr (bt_insert order_id \<lparr>re_amount = dr_amount d, re_expires_at = expires_at\<rparr> m))))"

text \<open>One pass of the loop of \<open>reserve_one\<close>: \<open>None\<close> means \<open>continue\<close>.\<close>

definition reserve_attempt ::
  "('s, 'b) backend \<Rightarrow> (lock_reservations, 'b) codec \<Rightarrow> 's sched \<Rightarrow> string \<Rightarrow> nat
   \<Rightarrow> deposit_reservation \<Rightarrow> string \<Rightarrow> 's world
   \<Rightarrow> (reservation_error, unit) result option \<times> 's world" where
  "reserve_attempt B c sc order_id expires_at d ident w =
     (case unix_now sc w of
        Inl e \<Rightarrow> (Some (Inl e), w)
      | Inr now \<Rightarrow>
          (let (r, w1) = svc_retrieve_bytes B sc reservations_namespace ident w
           in (case r of
                 Inl e \<Rightarrow>
                   if is_missing e then
                     (case check_capacity 0 d of
                        Inl e' \<Rightarrow> (Some (Inl e'), w1)
                      | Inr _ \<Rightarrow>
                          (case encode c (first_map order_id expires_at d) of
                             Inl m \<Rightarrow> (Some (Inl (ReservationStorage m)), w1)
                           | Inr new_bytes \<Rightarrow>
                               (let (r2, w2) = svc_store_bytes_if_absent B sc reservations_namespace
                                      ident new_bytes
                                      (Some (ttl_for (first_map order_id expires_at d) now)) w1
                                in (case r2 of
                                      Inl e2 \<Rightarrow> (Some (Inl (from_storage_error e2)), w2)
                                    | Inr True \<Rightarrow> (Some (Inr ()), w2)
                                    | Inr False \<Rightarrow> (None, w2)))))
                   else (Some (Inl (from_storage_error e)), w1)
               | Inr expected \<Rightarrow>
                   (case decode c expected of
                      Inl m \<Rightarrow> (Some (Inl (ReservationStorage m)), w1)
                    | Inr m0 \<Rightarrow>
                        (case next_map order_id expires_at d now m0 of
                           Inl e' \<Rightarrow> (Some (Inl e'), w1)
                         | Inr m \<Rightarrow>
                             (case encode c m of
                                Inl msg \<Rightarrow> (Some (Inl (ReservationStorage msg)), w1)
                              | Inr new_bytes \<Rightarrow>
                                  (let (r2, w2) = svc_compare_and_swap_bytes B sc
                                         reservations_namespace ident expected new_bytes None
                                         (Some (ttl_for m now)) w1
                                   in (case r2 of
                                         Inr True \<Rightarrow> (Some (Inr ()), w2)
                                       | Inr False \<Rightarrow> (None, w2)
                                       | Inl (NotFound _) \<Rightarrow> (None, w2)
                                       | Inl e2 \<Rightarrow> (Some (Inl (from_storage_error e2)), w2)))))))))"

fun reserve_loop ::
  "nat \<Rightarrow> ('s, 'b) backend \<Rightarrow> (lock_reservations, 'b) codec \<Rightarrow> 's sched \<Rightarrow> string \<Rightarrow> nat
   \<Rightarrow> deposit_reservation \<Rightarrow> string \<Rightarrow> 's world \<Rightarrow> (reservation_error, unit) result \<times> 's world" where
  "reserve_loop 0 B c sc order_id expires_at d ident w =
     (Inl (ReservationStorage (''CAS conflict after 8 retries reserving compact lock '' @ ident)), w)"
| "reserve_loop (Suc n) B c sc order_id expires_at d ident w =
     (case reserve_attempt B c sc order_id expires_at d ident w of
        (Some r, w1) \<Rightarrow> (r, w1)
      | (None, w1) \<Rightarrow> reserve_loop n B c sc order_id expires_at d ident w1)"

definition deposit_lock :: "deposit_reservation \<Rightarrow> string" where
  "deposit_lock d = lock_id (dr_chain_id d) (dr_owner d) (dr_token_id d)"

definition reserve_one ::
  "('s, 'b) backend \<Rightarrow> (lock_reservations, 'b) codec \<Rightarrow> 's sched \<Rightarrow> string \<Rightarrow> nat
   \<Rightarrow> deposit_reservation \<Rightarrow> 's world \<Rightarrow> (reservation_error, unit) result \<times> 's world" where
  "reserve_one B c sc order_id expires_at d w =
     reserve_loop CAS_MAX_RETRIES B c sc order_id expires_at d (deposit_lock d) w"

definition release_attempt ::
  "('s, 'b) backend \<Rightarrow> (lock_reservations, 'b) codec \<Rightarrow> 's sched \<Rightarrow> string \<Rightarrow> string \<Rightarrow> 's world
   \<Rightarrow> (reservation_error, unit) result option \<times> 's world" where
  "release_attempt B c sc order_id ident w =
     (case unix_now sc w of
        Inl e \<Rightarrow> (Some (Inl e), w)
      | Inr now \<Rightarrow>
          (let (r, w1) = svc_retrieve_bytes B sc reservations_namespace ident w
           in (case r of
                 Inl e \<Rightarrow>
                   if is_missing e then (Some (Inr ()), w1)
                   else (Some (Inl (from_storage_error e)), w1)
               | Inr expected \<Rightarrow>
                   (case decode c expected of
                      Inl m \<Rightarrow> (Some (Inl (ReservationStorage m)), w1)
                    | Inr m0 \<Rightarrow>
                        (let m = bt_remove order_id (unexpired now m0)
                         in (case encode c m of
                               Inl msg \<Rightarrow> (Some (Inl (ReservationStorage msg)), w1)
                             | Inr new_bytes \<Rightarrow>
                                 (let (r2, w2) = svc_compare_and_swap_bytes B sc
                                        reservations_namespace ident expected new_bytes None
                                        (Some (ttl_for m now)) w1
                                  in (case r2 of
                                        Inr True \<Rightarrow> (Some (Inr ()), w2)
                                      | Inr False \<Rightarrow> (None, w2)
                                      | Inl (NotFound _) \<Rightarrow> (Some (Inr ()), w2)
                                      | Inl e2 \<Rightarrow> (Some (Inl (from_storage_error e2)), w2)))))))))"

fun release_loop ::
  "nat \<Rightarrow> ('s, 'b) backend \<Rightarrow> (lock_reservations, 'b) codec \<Rightarrow> 's sched \<Rightarrow> string \<Rightarrow> string
   \<Rightarrow> 's world \<Rightarrow> (reservation_error, unit) result \<times> 's world" where
  "release_loop 0 B c sc order_id ident w =
     (Inl (ReservationStorage (''CAS conflict after 8 retries releasing compact lock '' @ ident)), w)"
| "release_loop (Suc n) B c sc order_id ident w =
     (case release_attempt B c sc order_id ident w of
        (Some r, w1) \<Rightarrow> (r, w1)
      | (None, w1) \<Rightarrow> release_loop n B c sc order_id ident w1)"

definition release_one ::
  "('s, 'b) backend \<Rightarrow> (lock_reservations, 'b) codec \<Rightarrow> 's sched \<Rightarrow> string \<Rightarrow> nat \<Rightarrow> string \<Rightarrow> nat
   \<Rightarrow> 's world \<Rightarrow> (reservation_error, unit) result \<times> 's world" where
  "release_one B c sc order_id chain_id owner token_id w =
     release_loop CAS_MAX_RETRIES B c sc order_id (lock_id chain_id owner token_id) w"

fun rollback_loop ::
  "nat \<Rightarrow> ('s, 'b) backend \<Rightarrow> (lock_reservations, 'b) codec \<Rightarrow> 's sched \<Rightarrow> string
   \<Rightarrow> deposit_reservation \<Rightarrow> 's world \<Rightarrow> 's world" where
  "rollback_loop 0 B c sc order_id d w = w"
| "rollback_loop (Suc n) B c sc order_id d w =
     (case release_one B c sc order_id (dr_chain_id d) (dr_owner d) (dr_token_id d) w of
        (Inr _, w1) \<Rightarrow> w1
      | (Inl _, w1) \<Rightarrow> rollback_loop n B c sc order_id d w1)"

definition rollback_one ::
  "('s, 'b) backend \<Rightarrow> (lock_reservations, 'b) codec \<Rightarrow> 's sched \<Rightarrow> string
   \<Rightarrow> deposit_reservation \<Rightarrow> 's world \<Rightarrow> 's world" where
  "rollback_one B c sc order_id d w = rollback_loop ROLLBACK_MAX_ATTEMPTS B c sc order_id d w"

text \<open>Inputs on the same lock are merged: amounts add up, the smaller balance counts.\<close>

fun aggregate ::
  "(string \<times> deposit_reservation) list \<Rightarrow> deposit_reservation list
   \<Rightarrow> (reservation_error, (string \<times> deposit_reservation) list) result" where
  "aggregate acc [] = Inr acc"
| "aggregate acc (d # ds) =
     (case map_of acc (deposit_lock d) of
        Some existing \<Rightarrow>
          (case checked_add u256_bound (dr_amount existing) (dr_amount d) of
             None \<Rightarrow> Inl overflow_error
           | Some tot \<Rightarrow>
               aggregate (bt_insert (deposit_lock d)
                 (existing\<lparr>dr_amount := tot,
                    dr_available_balance := min (dr_available_balance existing) (dr_available_balance d)\<rparr>)
                 acc) ds)
      | None \<Rightarrow> aggregate (bt_insert (deposit_lock d) d acc) ds)"

fun reserve_all ::
  "('s, 'b) backend \<Rightarrow> (lock_reservations, 'b) codec \<Rightarrow> 's sched \<Rightarrow> string \<Rightarrow> nat
   \<Rightarrow> deposit_reservation list \<Rightarrow> deposit_reservation list \<Rightarrow> 's world
   \<Rightarrow> (reservation_error, unit) result \<times> 's world" where
  "reserve_all B c sc order_id expires_at taken [] w = (Inr (), w)"
| "reserve_all B c sc order_id expires_at taken (d # ds) w =
     (case reserve_one B c sc order_id expires_at d w of
        (Inl err, w1) \<Rightarrow> (Inl err, foldl (\<lambda>w' done_d. rollback_one B c sc order_id done_d w') w1 taken)
      | (Inr _, w1) \<Rightarrow> reserve_all B c sc order_id expires_at (taken @ [d]) ds w1)"

definition reserve_order ::
  "('s, 'b) backend \<Rightarrow> (lock_reservations, 'b) codec \<Rightarrow> 's sched \<Rightarrow> string \<Rightarrow> nat
   \<Rightarrow> deposit_reservation list \<Rightarrow> 's world \<Rightarrow> (reservation_error, unit) result \<times> 's world" where
  "reserve_order B c sc order_id expires_at deposits w =
     (case aggregate [] deposits of
        Inl e \<Rightarrow> (Inl e, w)
      | Inr aggregated \<Rightarrow> reserve_all B c sc order_id expires_at [] (map snd aggregated) w)"

fun release_order ::
  "('s, 'b) backend \<Rightarrow> (lock_reservations, 'b) codec \<Rightarrow> 's sched \<Rightarrow> string
   \<Rightarrow> (nat \<times> string \<times> nat) list \<Rightarrow> 's world \<Rightarrow> (reservation_error, unit) result \<times> 's world" where
  "release_order B c sc order_id [] w = (Inr (), w)"
| "release_order B c sc order_id ((chain_id, owner, token_id) # locks) w =
     (case release_one B c sc order_id chain_id owner token_id w of
        (Inl e, w1) \<Rightarrow> (Inl e, w1)
      | (Inr _, w1) \<Rightarrow> release_order B c sc order_id locks w1)"

section \<open>Specification: the steps a lock may take\<close>

definition reserved_total :: "lock_reservations \<Rightarrow> nat" where
  "reserved_total m = sum_list (map (re_amount \<circ> snd) m)"

definition lock_key :: "string \<Rightarrow> string" where
  "lock_key ident = mk_key reservations_namespace ident"

text \<open>What the code relies on of the serialisation of a map: it round-trips, and what decodes is a
  \<^verbatim>\<open>BTreeMap\<close>, hence ordered by key.\<close>

definition map_codec_ok :: "(lock_reservations, 'b) codec \<Rightarrow> bool" where
  "map_codec_ok c \<longleftrightarrow> codec_ok c \<and> (\<forall>b m. decode c b = Inr m \<longrightarrow> bt_ok m)"

text \<open>
  One atomic effect on the store: a map whose amounts fit the deposit \<open>avail\<close> of the lock is
  written, or an order's entry is dropped from the current map, or no lock changes.
\<close>

inductive resv_step ::
  "(nat \<Rightarrow> 's \<Rightarrow> string \<Rightarrow> 'b option) \<Rightarrow> (lock_reservations, 'b) codec \<Rightarrow> (string \<Rightarrow> nat)
   \<Rightarrow> 's \<Rightarrow> 's \<Rightarrow> bool"
  for live c avail where
  elsewhere: "(\<And>t ident. live t s' (lock_key ident) = live t s (lock_key ident)) \<Longrightarrow>
    resv_step live c avail s s'"
| reserve: "encode c m = Inr b \<Longrightarrow> reserved_total m \<le> avail ident \<Longrightarrow>
    writes_key live (lock_key ident) ttl t b s s' \<Longrightarrow> resv_step live c avail s s'"
| release: "live t s (lock_key ident) = Some b0 \<Longrightarrow> decode c b0 = Inr m0 \<Longrightarrow>
    encode c (bt_remove order_id (unexpired now m0)) = Inr b \<Longrightarrow>
    writes_key live (lock_key ident) ttl t b s s' \<Longrightarrow> resv_step live c avail s s'"

text \<open>No lock holds more reservations than its deposit covers.\<close>

definition within_capacity ::
  "(nat \<Rightarrow> 's \<Rightarrow> string \<Rightarrow> 'b option) \<Rightarrow> (lock_reservations, 'b) codec \<Rightarrow> (string \<Rightarrow> nat)
   \<Rightarrow> 's \<Rightarrow> bool" where
  "within_capacity live c avail s \<longleftrightarrow>
     (\<forall>t ident b. live t s (lock_key ident) = Some b \<longrightarrow>
        (\<exists>m. decode c b = Inr m \<and> reserved_total m \<le> avail ident))"

section \<open>Lemmas on reservation maps\<close>

lemma lock_key_inj [simp]: "lock_key i = lock_key j \<longleftrightarrow> i = j"
  by (simp add: lock_key_def)

lemma reserved_total_simps [simp]:
  "reserved_total [] = 0" "reserved_total ((k, e) # m) = re_amount e + reserved_total m"
  by (simp_all add: reserved_total_def)

lemma try_sum_Some: "try_sum acc xs = Some r \<Longrightarrow> r = acc + reserved_total xs"
  by (induction acc xs rule: try_sum.induct) (auto simp: checked_Some split: option.splits)

lemma reserved_total_insert:
  "bt_ok m \<Longrightarrow> reserved_total (bt_insert k e m) =
     re_amount e + reserved_total (filter (\<lambda>(k', _). k' \<noteq> k) m)"
proof (induction k e m rule: bt_insert.induct)
  case (2 k v k' v' m)
  have "\<forall>x \<in> set m. k' < fst x" using "2.prems" by auto
  then have "k \<le> k' \<Longrightarrow> filter (\<lambda>(x, _). x \<noteq> k) m = m" by (fastforce simp: filter_id_conv)
  then show ?case using 2 by auto
qed simp

lemma reserved_total_retain: "reserved_total (retain p m) \<le> reserved_total m"
  by (induction m) auto

lemma check_capacity_ok:
  "check_capacity r d = Inr u \<longleftrightarrow> r + dr_amount d < u256_bound \<and> r + dr_amount d \<le> dr_available_balance d"
  by (auto simp: check_capacity_def checked_add_def split: if_splits)

lemma next_map_ok:
  assumes "next_map order_id expires_at d now m0 = Inr m" and "bt_ok m0"
  shows "bt_ok m" and "reserved_total m \<le> dr_available_balance d"
    and "map_of m = (map_of (unexpired now m0))
      (order_id \<mapsto> \<lparr>re_amount = dr_amount d, re_expires_at = expires_at\<rparr>)"
proof -
  have ok: "bt_ok (unexpired now m0)" using assms(2) by (auto simp: unexpired_def)
  from assms(1) obtain r where r: "reserved_by_others order_id (unexpired now m0) = Some r"
    and cap: "check_capacity r d = Inr ()"
    and m: "m = bt_insert order_id \<lparr>re_amount = dr_amount d, re_expires_at = expires_at\<rparr>
      (unexpired now m0)"
    by (auto simp: next_map_def Let_def split: option.splits sum.splits)
  show "bt_ok m" using ok by (auto simp: m)
  have "r = reserved_total (filter (\<lambda>(k', _). k' \<noteq> order_id) (unexpired now m0))"
    using r try_sum_Some by (fastforce simp: reserved_by_others_def)
  then show "reserved_total m \<le> dr_available_balance d"
    using cap ok by (simp add: m reserved_total_insert check_capacity_ok)
  show "map_of m = (map_of (unexpired now m0))
      (order_id \<mapsto> \<lparr>re_amount = dr_amount d, re_expires_at = expires_at\<rparr>)"
    using ok by (simp add: m)
qed

lemma first_map_ok:
  "check_capacity 0 d = Inr u \<Longrightarrow> reserved_total (first_map order_id expires_at d) \<le> dr_available_balance d"
  "map_of (first_map order_id expires_at d) =
     [order_id \<mapsto> \<lparr>re_amount = dr_amount d, re_expires_at = expires_at\<rparr>]"
  "bt_ok (first_map order_id expires_at d)"
  by (auto simp: first_map_def check_capacity_ok)

lemma resv_step_within:
  assumes "map_codec_ok c" "resv_step live c avail s s'" "within_capacity live c avail s"
  shows "within_capacity live c avail s'"
  using assms(2)
proof cases
  case elsewhere
  then show ?thesis using assms(3) by (simp add: within_capacity_def)
next
  case (reserve m b ident ttl t)
  have "decode c b = Inr m" using reserve(1) assms(1) by (auto simp: map_codec_ok_def dest: codec_okD)
  then show ?thesis using reserve(2,3) assms(3)
    by (auto simp: within_capacity_def writes_key_def until_ttl_def split: option.splits if_splits)
next
  case (release t ident b0 m0 order_id now b ttl)
  let ?m = "bt_remove order_id (unexpired now m0)"
  have "decode c b = Inr ?m" using release(3) assms(1) by (auto simp: map_codec_ok_def dest: codec_okD)
  moreover have "reserved_total m0 \<le> avail ident"
    using release(1,2) assms(3) by (force simp: within_capacity_def)
  then have "reserved_total ?m \<le> avail ident"
    using reserved_total_retain le_trans unfolding bt_remove_def unexpired_def by blast
  ultimately show ?thesis using release(4) assms(3)
    by (auto simp: within_capacity_def writes_key_def until_ttl_def split: option.splits if_splits)
qed

lemma resv_steps_within:
  assumes "map_codec_ok c" "(resv_step live c avail)\<^sup>*\<^sup>* s s'" "within_capacity live c avail s"
  shows "within_capacity live c avail s'"
  using assms(2,3) by (induction rule: rtranclp_induct) (auto intro: resv_step_within [OF assms(1)])

section \<open>The code takes only such steps, on every backend that keeps the contract\<close>

text \<open>Other writers only take steps of the specification.\<close>

definition fair_interference ::
  "(nat \<Rightarrow> 's \<Rightarrow> string \<Rightarrow> 'b option) \<Rightarrow> (lock_reservations, 'b) codec \<Rightarrow> (string \<Rightarrow> nat)
   \<Rightarrow> 's sched \<Rightarrow> bool" where
  "fair_interference live c avail sc \<longleftrightarrow>
     (\<forall>n s. (resv_step live c avail)\<^sup>*\<^sup>* s (interfere sc n s))"

lemma resume_steps:
  "fair_interference live c avail sc \<Longrightarrow>
   (resv_step live c avail)\<^sup>*\<^sup>* (w_store w) (w_store (resume sc w))"
  by (simp add: fair_interference_def resume_def)

context storage_contract
begin

lemma nx_call:
  assumes "svc_store_bytes_if_absent B sc reservations_namespace ident b ttl w = (r, w')"
  shows "r = Inr True \<Longrightarrow>
      writes_key live (lock_key ident) ttl (w_now sc w') b (w_store (resume sc w)) (w_store w')"
    and "r \<noteq> Inr True \<Longrightarrow> live t (w_store w') k = live t (w_store (resume sc w)) k"
  using assms nx_true nx_other
  by (auto simp: svc_defs Let_def writes_key_def lock_key_def w_now_def split: prod.splits)

lemma cas_call:
  assumes "svc_compare_and_swap_bytes B sc reservations_namespace ident e b ix ttl w = (r, w')"
  shows "r = Inr True \<Longrightarrow>
      writes_key live (lock_key ident) ttl (w_now sc w') b (w_store (resume sc w)) (w_store w')"
    and "r = Inr True \<Longrightarrow> live (w_now sc w') (w_store (resume sc w)) (lock_key ident) = Some e"
    and "r \<noteq> Inr True \<Longrightarrow> live t (w_store w') k = live t (w_store (resume sc w)) k"
  using svc_cas_call [OF assms] by (simp_all add: lock_key_def)

lemma reserve_attempt_steps:
  assumes "map_codec_ok c" and "fair_interference live c avail sc"
    and "dr_available_balance d \<le> avail ident"
    and run: "reserve_attempt B c sc order_id expires_at d ident w = (r, w')"
  shows "(resv_step live c avail)\<^sup>*\<^sup>* (w_store w) (w_store w')"
proof -
  note env = resume_steps [OF assms(2)]
  have idle: "(resv_step live c avail)\<^sup>*\<^sup>* (w_store w) (w_store w2)"
    if "\<And>t k. live t (w_store w2) k = live t (w_store (resume sc (resume sc w))) k" for w2
    using env [of w] env [of "resume sc w"] that
    by (meson resv_step.elsewhere rtranclp.rtrancl_into_rtrancl rtranclp_trans)
  have wrote: "(resv_step live c avail)\<^sup>*\<^sup>* (w_store w) (w_store w2)"
    if "encode c m = Inr b" "reserved_total m \<le> dr_available_balance d"
      "writes_key live (lock_key ident) ttl t b (w_store (resume sc (resume sc w))) (w_store w2)"
    for m b ttl t w2
    using env [of w] env [of "resume sc w"] resv_step.reserve [OF that(1) _ that(3)] that(2) assms(3)
    by (meson le_trans rtranclp.rtrancl_into_rtrancl rtranclp_trans)
  have decoded: "bt_ok m0" if "decode c e = Inr m0" for e m0
    using assms(1) that by (auto simp: map_codec_ok_def)
  show ?thesis
    using run env [of w]
    by (auto simp: reserve_attempt_def Let_def
        split: sum.splits if_splits prod.splits bool.splits storage_error.splits
        dest!: retrieve_call
        intro: wrote idle dest: nx_call cas_call first_map_ok(1) next_map_ok(2) decoded)
qed

lemma release_attempt_steps:
  assumes "map_codec_ok c" and "fair_interference live c avail sc"
    and run: "release_attempt B c sc order_id ident w = (r, w')"
  shows "(resv_step live c avail)\<^sup>*\<^sup>* (w_store w) (w_store w')"
proof -
  note env = resume_steps [OF assms(2)]
  have idle: "(resv_step live c avail)\<^sup>*\<^sup>* (w_store w) (w_store w2)"
    if "\<And>t k. live t (w_store w2) k = live t (w_store (resume sc (resume sc w))) k" for w2
    using env [of w] env [of "resume sc w"] that
    by (meson resv_step.elsewhere rtranclp.rtrancl_into_rtrancl rtranclp_trans)
  have wrote: "(resv_step live c avail)\<^sup>*\<^sup>* (w_store w) (w_store w2)"
    if "live t (w_store (resume sc (resume sc w))) (lock_key ident) = Some b0" "decode c b0 = Inr m0"
      "encode c (bt_remove order_id (unexpired now m0)) = Inr b"
      "writes_key live (lock_key ident) ttl t b (w_store (resume sc (resume sc w))) (w_store w2)"
    for m0 b0 now b ttl t w2
    using env [of w] env [of "resume sc w"] resv_step.release [OF that]
    by (meson rtranclp.rtrancl_into_rtrancl rtranclp_trans)
  show ?thesis
    using run env [of w]
    by (auto simp: release_attempt_def Let_def
        split: sum.splits if_splits prod.splits bool.splits storage_error.splits
        dest!: retrieve_call
        intro: wrote idle dest: cas_call)
qed

lemma reserve_loop_steps:
  assumes "map_codec_ok c" "fair_interference live c avail sc" "dr_available_balance d \<le> avail ident"
  shows "reserve_loop n B c sc order_id expires_at d ident w = (r, w') \<Longrightarrow>
    (resv_step live c avail)\<^sup>*\<^sup>* (w_store w) (w_store w')"
  by (induction n arbitrary: w)
    (auto split: prod.splits option.splits
      dest: reserve_attempt_steps [OF assms] intro: rtranclp_trans)

lemma release_loop_steps:
  assumes "map_codec_ok c" "fair_interference live c avail sc"
  shows "release_loop n B c sc order_id ident w = (r, w') \<Longrightarrow>
    (resv_step live c avail)\<^sup>*\<^sup>* (w_store w) (w_store w')"
  by (induction n arbitrary: w)
    (auto split: prod.splits option.splits
      dest: release_attempt_steps [OF assms] intro: rtranclp_trans)

lemma reserve_one_steps:
  assumes "map_codec_ok c" "fair_interference live c avail sc"
    "dr_available_balance d \<le> avail (deposit_lock d)"
    "reserve_one B c sc order_id expires_at d w = (r, w')"
  shows "(resv_step live c avail)\<^sup>*\<^sup>* (w_store w) (w_store w')"
  using reserve_loop_steps [OF assms(1-3)] assms(4) by (simp add: reserve_one_def)

lemma release_one_steps:
  assumes "map_codec_ok c" "fair_interference live c avail sc"
    "release_one B c sc order_id chain_id owner token_id w = (r, w')"
  shows "(resv_step live c avail)\<^sup>*\<^sup>* (w_store w) (w_store w')"
  using release_loop_steps [OF assms(1,2)] assms(3) by (simp add: release_one_def)

lemma rollback_loop_steps:
  assumes "map_codec_ok c" "fair_interference live c avail sc"
  shows "(resv_step live c avail)\<^sup>*\<^sup>* (w_store w) (w_store (rollback_loop n B c sc order_id d w))"
  by (induction n arbitrary: w)
    (auto split: prod.splits sum.splits dest: release_one_steps [OF assms] intro: rtranclp_trans)

lemma rollback_all_steps:
  assumes "map_codec_ok c" "fair_interference live c avail sc"
  shows "(resv_step live c avail)\<^sup>*\<^sup>* (w_store w)
    (w_store (foldl (\<lambda>w' done_d. rollback_one B c sc order_id done_d w') w taken))"
proof (induction taken arbitrary: w)
  case (Cons d ds)
  show ?case
    using rollback_loop_steps [OF assms, of w ROLLBACK_MAX_ATTEMPTS order_id d]
      Cons.IH [of "rollback_one B c sc order_id d w"]
    by (auto simp: rollback_one_def intro: rtranclp_trans)
qed simp

lemma reserve_all_steps:
  assumes "map_codec_ok c" "fair_interference live c avail sc"
  shows "\<forall>d \<in> set ds. dr_available_balance d \<le> avail (deposit_lock d) \<Longrightarrow>
    reserve_all B c sc order_id expires_at taken ds w = (r, w') \<Longrightarrow>
    (resv_step live c avail)\<^sup>*\<^sup>* (w_store w) (w_store w')"
proof (induction ds arbitrary: taken w)
  case (Cons d ds)
  obtain r1 w1 where one: "reserve_one B c sc order_id expires_at d w = (r1, w1)" by fastforce
  have w1: "(resv_step live c avail)\<^sup>*\<^sup>* (w_store w) (w_store w1)"
    using reserve_one_steps [OF assms _ one] Cons.prems(1) by simp
  show ?case
  proof (cases r1)
    case (Inl e)
    then show ?thesis
      using Cons.prems(2) one w1 rollback_all_steps [OF assms, of w1 order_id taken]
      by (auto intro: rtranclp_trans)
  next
    case (Inr u)
    then show ?thesis
      using Cons.prems one w1 Cons.IH by (auto intro: rtranclp_trans)
  qed
qed simp

lemma release_order_steps:
  assumes "map_codec_ok c" "fair_interference live c avail sc"
  shows "release_order B c sc order_id locks w = (r, w') \<Longrightarrow>
    (resv_step live c avail)\<^sup>*\<^sup>* (w_store w) (w_store w')"
proof (induction locks arbitrary: w)
  case (Cons l locks)
  obtain a b d where l: "l = (a, b, d)" by (cases l)
  show ?case using Cons.prems Cons.IH
    by (auto simp: l split: prod.splits sum.splits
        dest: release_one_steps [OF assms] intro: rtranclp_trans)
qed simp

end

text \<open>Merging inputs on the same lock keeps every bound on the balances and adds up the amounts.\<close>

lemma aggregate_sound:
  assumes "aggregate acc ds = Inr res" "bt_ok acc"
    and "\<And>k d. map_of acc k = Some d \<Longrightarrow> k = deposit_lock d \<and> dr_available_balance d \<le> avail k"
    and "\<And>d. d \<in> set ds \<Longrightarrow> dr_available_balance d \<le> avail (deposit_lock d)"
  shows "bt_ok res \<and> (\<forall>k d. map_of res k = Some d \<longrightarrow>
    k = deposit_lock d \<and> dr_available_balance d \<le> avail k)"
  using assms
proof (induction acc ds rule: aggregate.induct)
  case (2 acc d ds)
  show ?case
  proof (cases "map_of acc (deposit_lock d)")
    case None
    show ?thesis
    proof (rule "2.IH"(1) [OF None])
      show "aggregate (bt_insert (deposit_lock d) d acc) ds = Inr res"
        using "2.prems"(1) None by simp
      show "bt_ok (bt_insert (deposit_lock d) d acc)" using "2.prems"(2) by auto
      show "k = deposit_lock da \<and> dr_available_balance da \<le> avail k"
        if "map_of (bt_insert (deposit_lock d) d acc) k = Some da" for k da
        using that "2.prems"(2) "2.prems"(3) [of k da] "2.prems"(4) [of d] by (auto split: if_splits)
    qed (use "2.prems"(4) in auto)
  next
    case (Some ex)
    have lk: "deposit_lock d = deposit_lock ex" and av: "dr_available_balance ex \<le> avail (deposit_lock d)"
      using "2.prems"(3) [OF Some] by blast+
    obtain tot where tot: "checked_add u256_bound (dr_amount ex) (dr_amount d) = Some tot"
      using "2.prems"(1) Some by (cases "checked_add u256_bound (dr_amount ex) (dr_amount d)") simp_all
    let ?new = "ex\<lparr>dr_amount := tot,
      dr_available_balance := min (dr_available_balance ex) (dr_available_balance d)\<rparr>"
    have new: "deposit_lock ?new = deposit_lock d" by (simp add: lk) (simp add: deposit_lock_def)
    show ?thesis
    proof (rule "2.IH"(2) [OF Some tot])
      show "aggregate (bt_insert (deposit_lock d) ?new acc) ds = Inr res"
        using "2.prems"(1) Some tot by simp
      show "bt_ok (bt_insert (deposit_lock d) ?new acc)" using "2.prems"(2) by auto
      show "k = deposit_lock da \<and> dr_available_balance da \<le> avail k"
        if "map_of (bt_insert (deposit_lock d) ?new acc) k = Some da" for k da
        using that "2.prems"(2) "2.prems"(3) [of k da] new av
        by (auto simp: min_le_iff_disj split: if_splits)
    qed (use "2.prems"(4) in auto)
  qed
qed simp

lemma reserve_order_steps:
  assumes "map_codec_ok c" "fair_interference memory_live c avail sc"
    and "\<And>d. d \<in> set deposits \<Longrightarrow> dr_available_balance d \<le> avail (deposit_lock d)"
    and run: "reserve_order memory_backend c sc order_id expires_at deposits w = (r, w')"
  shows "(resv_step memory_live c avail)\<^sup>*\<^sup>* (w_store w) (w_store w')"
proof (cases "aggregate [] deposits")
  case (Inl e)
  then show ?thesis using run by (simp add: reserve_order_def)
next
  case (Inr res)
  have agg: "bt_ok res \<and> (\<forall>k d. map_of res k = Some d \<longrightarrow>
      k = deposit_lock d \<and> dr_available_balance d \<le> avail k)"
    using aggregate_sound [OF Inr, of avail] assms(3) by simp
  have "\<forall>d \<in> set (map snd res). dr_available_balance d \<le> avail (deposit_lock d)"
    using agg bt_ok_distinct by (fastforce dest: map_of_is_SomeI)
  then show ?thesis
    using mem.reserve_all_steps [OF assms(1,2), of "map snd res"] run Inr
    by (simp add: reserve_order_def)
qed

text \<open>The store after a reservation that was granted.\<close>

context storage_contract
begin

lemma reserve_attempt_granted:
  assumes "map_codec_ok c"
    and run: "reserve_attempt B c sc order_id expires_at d ident w = (Some (Inr ()), w')"
  shows "\<exists>b m. live (w_now sc w') (w_store w') (lock_key ident) = Some b \<and> decode c b = Inr m \<and>
    map_of m order_id = Some \<lparr>re_amount = dr_amount d, re_expires_at = expires_at\<rparr> \<and>
    reserved_total m \<le> dr_available_balance d"
proof -
  have wrote: "\<exists>b m. live (w_now sc w') (w_store w') (lock_key ident) = Some b \<and> decode c b = Inr m \<and>
      map_of m order_id = Some \<lparr>re_amount = dr_amount d, re_expires_at = expires_at\<rparr> \<and>
      reserved_total m \<le> dr_available_balance d"
    if "writes_key live (lock_key ident) (Some ttl) (w_now sc w') b s (w_store w')"
      "encode c m = Inr b" "reserved_total m \<le> dr_available_balance d"
      "map_of m order_id = Some \<lparr>re_amount = dr_amount d, re_expires_at = expires_at\<rparr>" for ttl b s m
    using that assms(1) by (auto simp: writes_key_def until_ttl_def map_codec_ok_def dest: codec_okD)
  have ok: "bt_ok m0" if "decode c e = Inr m0" for e m0
    using assms(1) that by (auto simp: map_codec_ok_def)
  from run consider
    (create) b now where "check_capacity 0 d = Inr ()" "encode c (first_map order_id expires_at d) = Inr b"
      "svc_store_bytes_if_absent B sc reservations_namespace ident b
         (Some (ttl_for (first_map order_id expires_at d) now)) (resume sc w) = (Inr True, w')"
  | (swap) e m0 m b now where "decode c e = Inr m0" "next_map order_id expires_at d now m0 = Inr m"
      "encode c m = Inr b" "svc_compare_and_swap_bytes B sc reservations_namespace ident e b None
         (Some (ttl_for m now)) (resume sc w) = (Inr True, w')"
    by (auto simp: reserve_attempt_def Let_def
        split: sum.splits if_splits prod.splits bool.splits storage_error.splits dest!: retrieve_call)
  then show ?thesis
  proof cases
    case create
    show ?thesis
      by (rule wrote [OF nx_call(1) [OF create(3) refl] create(2) first_map_ok(1) [OF create(1)]])
        (simp add: first_map_ok(2))
  next
    case swap
    note m = next_map_ok [OF swap(2) ok [OF swap(1)]]
    show ?thesis
      by (rule wrote [OF cas_call(1) [OF swap(4) refl] swap(3) m(2)]) (simp add: m(3))
  qed
qed

lemma reserve_loop_granted:
  assumes "map_codec_ok c"
  shows "reserve_loop n B c sc order_id expires_at d ident w = (Inr (), w') \<Longrightarrow>
    \<exists>b m. live (w_now sc w') (w_store w') (lock_key ident) = Some b \<and> decode c b = Inr m \<and>
    map_of m order_id = Some \<lparr>re_amount = dr_amount d, re_expires_at = expires_at\<rparr> \<and>
    reserved_total m \<le> dr_available_balance d"
  by (induction n arbitrary: w)
    (auto split: prod.splits option.splits dest: reserve_attempt_granted [OF assms])

end

section \<open>Undisturbed runs on the memory backend\<close>

text \<open>
  With no other writer and the clock standing still, the calls are functions of the maps the
  locks hold.  \<open>lock_map\<close> reads a lock's map (empty when the key is absent), and
  \<open>holdings\<close> its unexpired entries.
\<close>

definition encodes_maps :: "(lock_reservations, 'b) codec \<Rightarrow> bool" where
  "encodes_maps c \<longleftrightarrow> (\<forall>m. bt_ok m \<longrightarrow> (\<exists>b. encode c m = Inr b))"

definition lock_map ::
  "(lock_reservations, 'b) codec \<Rightarrow> nat \<Rightarrow> 'b memory_storage \<Rightarrow> string \<Rightarrow> lock_reservations option" where
  "lock_map c now s ident =
     (case memory_live now s (lock_key ident) of
        None \<Rightarrow> Some []
      | Some b \<Rightarrow> (case decode c b of Inl _ \<Rightarrow> None | Inr m \<Rightarrow> Some m))"

definition readable :: "(lock_reservations, 'b) codec \<Rightarrow> nat \<Rightarrow> 'b memory_storage \<Rightarrow> bool" where
  "readable c now s \<longleftrightarrow> (\<forall>ident. lock_map c now s ident \<noteq> None)"

definition holdings ::
  "(lock_reservations, 'b) codec \<Rightarrow> nat \<Rightarrow> 'b memory_storage \<Rightarrow> string \<Rightarrow> string \<rightharpoonup> reservation_entry" where
  "holdings c now s ident = map_of (unexpired now (the (lock_map c now s ident)))"

lemma CAS_MAX_RETRIES_Suc: "CAS_MAX_RETRIES = Suc 7"
  by (simp add: CAS_MAX_RETRIES_def)

lemma lock_map_write:
  assumes "map_codec_ok c" "encode c m = Inr b"
    and "writes_key memory_live (lock_key ident) (Some ttl) now b s s'"
  shows "lock_map c now s' = (lock_map c now s)(ident := Some m)"
  using assms
  by (auto simp: lock_map_def writes_key_def until_ttl_def map_codec_ok_def fun_eq_iff dest: codec_okD)

lemma memory_get_cases:
  "memory_get_bytes t s k = (case memory_live t s k of None \<Rightarrow> Inl (NotFound k) | Some b \<Rightarrow> Inr b)"
  by (auto simp: memory_get_bytes_def memory_live_def split: option.splits)

lemma memory_nx_cases:
  "memory_set_nx t s k b ttl =
     (if memory_live t s k = None then (Inr True, put_entry t s k b None ttl) else (Inr False, s))"
  by (auto simp: memory_set_nx_def memory_live_def split: option.splits)

lemma memory_cas_match:
  "memory_live t s k = Some e \<Longrightarrow>
   \<exists>s'. memory_compare_and_swap_with_indexes t s k e b ix ttl = (Inr True, s')"
  by (auto simp: memory_compare_and_swap_with_indexes_def memory_compare_and_swap_def memory_live_def
      Let_def split: option.splits if_splits)

lemma unexpired_bt_ok: "bt_ok m \<Longrightarrow> bt_ok (unexpired now m)"
  by (auto simp: unexpired_def)

lemma map_of_unexpired:
  "bt_ok m \<Longrightarrow> map_of (unexpired now m) k =
     (case map_of m k of None \<Rightarrow> None | Some e \<Rightarrow> if re_expires_at e > now then Some e else None)"
  by (simp add: unexpired_def map_of_retain bt_ok_distinct split: option.splits)

lemma lock_map_bt_ok: "map_codec_ok c \<Longrightarrow> lock_map c now s ident = Some m \<Longrightarrow> bt_ok m"
  by (auto simp: lock_map_def map_codec_ok_def split: option.splits sum.splits)

text \<open>Releasing drops the order's entry from the lock and nothing else.\<close>

lemma release_one_undisturbed:
  assumes c: "map_codec_ok c" "encodes_maps c" and rd: "readable c now (w_store w)"
    and run: "release_one memory_backend c (quiet (\<lambda>_. now)) order_id ch ow tk w = (r, w')"
  shows "r = Inr ()" and "readable c now (w_store w')"
    and "holdings c now (w_store w') = (holdings c now (w_store w))
      (lock_id ch ow tk := (holdings c now (w_store w) (lock_id ch ow tk))(order_id := None))"
proof -
  let ?sc = "quiet (\<lambda>_. now) :: 'a memory_storage sched" and ?i = "lock_id ch ow tk"
  have now: "w_now ?sc v = now" "w_unix ?sc v = Some now" for v
    by (simp_all add: w_now_def w_unix_def)
  have step: "release_one memory_backend c ?sc order_id ch ow tk w =
      (case release_attempt memory_backend c ?sc order_id ?i w of
        (Some r, w1) \<Rightarrow> (r, w1) | (None, w1) \<Rightarrow> release_loop 7 memory_backend c ?sc order_id ?i w1)"
    unfolding release_one_def CAS_MAX_RETRIES_Suc by (rule release_loop.simps(2))
  have "r = Inr () \<and> readable c now (w_store w') \<and> holdings c now (w_store w') =
    (holdings c now (w_store w)) (?i := (holdings c now (w_store w) ?i)(order_id := None))"
  proof (cases "memory_live now (w_store w) (lock_key ?i)")
    case None
    then have "release_attempt memory_backend c ?sc order_id ?i w = (Some (Inr ()), resume ?sc w)"
      by (simp add: release_attempt_def unix_now_def now svc_defs memory_get_cases lock_key_def
          Let_def is_missing_def)
    moreover have "holdings c now (w_store w) ?i = Map.empty"
      using None by (simp add: holdings_def lock_map_def unexpired_def)
    ultimately show ?thesis using run step rd by (auto simp: fun_eq_iff)
  next
    case (Some b0)
    then obtain m0 where m0: "decode c b0 = Inr m0" "lock_map c now (w_store w) ?i = Some m0"
      using rd [unfolded readable_def, rule_format, of ?i] by (auto simp: lock_map_def split: sum.splits)
    have ok: "bt_ok m0" using lock_map_bt_ok [OF c(1) m0(2)] .
    let ?m = "bt_remove order_id (unexpired now m0)"
    have okm: "bt_ok ?m" using ok unexpired_bt_ok by blast
    then obtain b where b: "encode c ?m = Inr b" using c(2) by (auto simp: encodes_maps_def)
    obtain w2 where cas: "svc_compare_and_swap_bytes memory_backend ?sc reservations_namespace ?i b0 b None
        (Some (ttl_for ?m now)) (resume ?sc w) = (Inr True, w2)"
      using memory_cas_match [OF Some, of b None "Some (ttl_for ?m now)"]
      by (auto simp: svc_defs Let_def now lock_key_def)
    have "release_attempt memory_backend c ?sc order_id ?i w = (Some (Inr ()), w2)"
      using Some m0(1) b cas
      by (simp add: release_attempt_def unix_now_def now svc_retrieve_bytes_def call_read_def
          memory_get_cases lock_key_def Let_def)
    then have res: "r = Inr ()" "w' = w2" using run step by simp_all
    have "writes_key memory_live (lock_key ?i) (Some (ttl_for ?m now)) now b (w_store w) (w_store w2)"
      using mem.cas_call(1) [OF cas refl] by (simp add: now)
    then have lm: "lock_map c now (w_store w2) = (lock_map c now (w_store w))(?i := Some ?m)"
      by (rule lock_map_write [OF c(1) b])
    moreover have "map_of (unexpired now ?m) = (map_of (unexpired now m0))(order_id := None)"
      using ok okm unexpired_bt_ok [OF ok, of now]
      by (auto simp: fun_eq_iff map_of_unexpired map_of_bt_remove split: option.splits)
    ultimately show ?thesis
      using res rd m0(2) by (auto simp: readable_def holdings_def fun_eq_iff)
  qed
  then show "r = Inr ()" "readable c now (w_store w')"
    "holdings c now (w_store w') = (holdings c now (w_store w))
      (?i := (holdings c now (w_store w) ?i)(order_id := None))" by blast+
qed

text \<open>
  Reserving decides on the current map: the unexpired reservations of other orders plus the
  new amount must fit the balance.
\<close>

lemma next_map_Nil:
  "next_map order_id expires_at d now [] =
     (case check_capacity 0 d of Inl e \<Rightarrow> Inl e | Inr _ \<Rightarrow> Inr (first_map order_id expires_at d))"
  by (simp add: next_map_def unexpired_def reserved_by_others_def first_map_def split: sum.splits)

lemma reserve_one_undisturbed:
  assumes c: "map_codec_ok c" "encodes_maps c" and rd: "readable c now (w_store w)"
    and m0: "lock_map c now (w_store w) (deposit_lock d) = Some m0"
    and run: "reserve_one memory_backend c (quiet (\<lambda>_. now)) order_id expires_at d w = (r, w')"
  shows "r = map_sum id (\<lambda>_. ()) (next_map order_id expires_at d now m0)"
    and "lock_map c now (w_store w') = (case next_map order_id expires_at d now m0 of
      Inl _ \<Rightarrow> lock_map c now (w_store w)
    | Inr m \<Rightarrow> (lock_map c now (w_store w))(deposit_lock d := Some m))"
proof -
  let ?sc = "quiet (\<lambda>_. now) :: 'a memory_storage sched" and ?i = "deposit_lock d"
  have now: "w_now ?sc v = now" "w_unix ?sc v = Some now" for v
    by (simp_all add: w_now_def w_unix_def)
  have step: "reserve_one memory_backend c ?sc order_id expires_at d w =
      (case reserve_attempt memory_backend c ?sc order_id expires_at d ?i w of
        (Some r, w1) \<Rightarrow> (r, w1)
      | (None, w1) \<Rightarrow> reserve_loop 7 memory_backend c ?sc order_id expires_at d ?i w1)"
    unfolding reserve_one_def CAS_MAX_RETRIES_Suc by (rule reserve_loop.simps(2))
  have ok: "bt_ok m0" using lock_map_bt_ok [OF c(1) m0] .
  have wrote: "lock_map c now (w_store w2) = (lock_map c now (w_store w))(?i := Some m)"
    if "encode c m = Inr b" "writes_key memory_live (lock_key ?i) (Some ttl) now b (w_store w) (w_store w2)"
    for m b ttl w2 by (rule lock_map_write [OF c(1) that])
  have "r = map_sum id (\<lambda>_. ()) (next_map order_id expires_at d now m0) \<and>
    lock_map c now (w_store w') = (case next_map order_id expires_at d now m0 of
      Inl _ \<Rightarrow> lock_map c now (w_store w)
    | Inr m \<Rightarrow> (lock_map c now (w_store w))(?i := Some m))"
  proof (cases "memory_live now (w_store w) (lock_key ?i)")
    case None
    then have [simp]: "m0 = []" using m0 by (simp add: lock_map_def)
    obtain b where b: "encode c (first_map order_id expires_at d) = Inr b"
      using c(2) first_map_ok(3) unfolding encodes_maps_def by blast
    let ?ttl = "Some (ttl_for (first_map order_id expires_at d) now)"
    obtain w2 where nx: "svc_store_bytes_if_absent memory_backend ?sc reservations_namespace ?i b ?ttl
        (resume ?sc w) = (Inr True, w2)"
      using None by (simp add: svc_defs Let_def now memory_nx_cases lock_key_def)
    have "writes_key memory_live (lock_key ?i) ?ttl now b (w_store w) (w_store w2)"
      using mem.nx_call(1) [OF nx refl] by (simp add: now)
    note w2 = wrote [OF b this]
    have "reserve_attempt memory_backend c ?sc order_id expires_at d ?i w =
      (case check_capacity 0 d of Inl e \<Rightarrow> (Some (Inl e), resume ?sc w) | Inr _ \<Rightarrow> (Some (Inr ()), w2))"
      using None b nx
      by (simp add: reserve_attempt_def unix_now_def now svc_retrieve_bytes_def call_read_def
          memory_get_cases lock_key_def Let_def is_missing_def split: sum.splits)
    then show ?thesis using run step w2 by (auto simp: next_map_Nil split: sum.splits)
  next
    case (Some b0)
    then have dec: "decode c b0 = Inr m0" using m0 by (simp add: lock_map_def split: sum.splits)
    show ?thesis
    proof (cases "next_map order_id expires_at d now m0")
      case (Inl e)
      then have "reserve_attempt memory_backend c ?sc order_id expires_at d ?i w =
          (Some (Inl e), resume ?sc w)"
        using Some dec by (simp add: reserve_attempt_def unix_now_def now svc_retrieve_bytes_def
            call_read_def memory_get_cases lock_key_def Let_def)
      then show ?thesis using run step Inl by auto
    next
      case (Inr m)
      have "bt_ok m" using next_map_ok(1) [OF Inr ok] .
      then obtain b where b: "encode c m = Inr b" using c(2) by (auto simp: encodes_maps_def)
      obtain w2 where cas: "svc_compare_and_swap_bytes memory_backend ?sc reservations_namespace ?i b0 b None
          (Some (ttl_for m now)) (resume ?sc w) = (Inr True, w2)"
        using memory_cas_match [OF Some, of b None "Some (ttl_for m now)"]
        by (auto simp: svc_defs Let_def now lock_key_def)
      have "writes_key memory_live (lock_key ?i) (Some (ttl_for m now)) now b (w_store w) (w_store w2)"
        using mem.cas_call(1) [OF cas refl] by (simp add: now)
      note w2 = wrote [OF b this]
      have "reserve_attempt memory_backend c ?sc order_id expires_at d ?i w = (Some (Inr ()), w2)"
        using Some dec Inr b cas
        by (simp add: reserve_attempt_def unix_now_def now svc_retrieve_bytes_def call_read_def
            memory_get_cases lock_key_def Let_def)
      then show ?thesis using run step Inr w2 by auto
    qed
  qed
  then show "r = map_sum id (\<lambda>_. ()) (next_map order_id expires_at d now m0)"
    "lock_map c now (w_store w') = (case next_map order_id expires_at d now m0 of
      Inl _ \<Rightarrow> lock_map c now (w_store w)
    | Inr m \<Rightarrow> (lock_map c now (w_store w))(?i := Some m))" by blast+
qed

text \<open>Calls for one order never change another order's reservations.\<close>

definition others_kept ::
  "(lock_reservations, 'b) codec \<Rightarrow> nat \<Rightarrow> string \<Rightarrow> 'b memory_storage \<Rightarrow> 'b memory_storage \<Rightarrow> bool" where
  "others_kept c now order_id s s' \<longleftrightarrow>
     (\<forall>ident k. k \<noteq> order_id \<longrightarrow> holdings c now s' ident k = holdings c now s ident k)"

lemma others_kept_trans:
  "others_kept c now oid s s1 \<Longrightarrow> others_kept c now oid s1 s2 \<Longrightarrow> others_kept c now oid s s2"
  by (simp add: others_kept_def)

lemma reserve_one_frame:
  assumes c: "map_codec_ok c" "encodes_maps c" and rd: "readable c now (w_store w)"
    and run: "reserve_one memory_backend c (quiet (\<lambda>_. now)) order_id expires_at d w = (r, w')"
  shows "readable c now (w_store w')" and "others_kept c now order_id (w_store w) (w_store w')"
    and "ident \<noteq> deposit_lock d \<or> r \<noteq> Inr () \<Longrightarrow>
      holdings c now (w_store w') ident = holdings c now (w_store w) ident"
proof -
  obtain m0 where m0: "lock_map c now (w_store w) (deposit_lock d) = Some m0"
    using rd by (auto simp: readable_def)
  note eff = reserve_one_undisturbed [OF c rd m0 run]
  have ok: "bt_ok m0" using lock_map_bt_ok [OF c(1) m0] .
  have kept: "map_of (unexpired now m) k = map_of (unexpired now m0) k"
    if "next_map order_id expires_at d now m0 = Inr m" "k \<noteq> order_id" for m k
    using next_map_ok [OF that(1) ok] that(2) ok
    by (simp add: map_of_unexpired split: option.splits)
  show "readable c now (w_store w')"
    using eff(2) rd by (auto simp: readable_def split: sum.splits)
  show "others_kept c now order_id (w_store w) (w_store w')"
    using eff(2) m0 kept by (auto simp: others_kept_def holdings_def split: sum.splits)
  show "holdings c now (w_store w') ident = holdings c now (w_store w) ident"
    if "ident \<noteq> deposit_lock d \<or> r \<noteq> Inr ()"
    using eff that by (auto simp: holdings_def split: sum.splits)
qed

lemma rollback_one_undisturbed:
  assumes c: "map_codec_ok c" "encodes_maps c" and rd: "readable c now (w_store w)"
  shows "readable c now (w_store (rollback_one memory_backend c (quiet (\<lambda>_. now)) order_id d w))"
    and "holdings c now (w_store (rollback_one memory_backend c (quiet (\<lambda>_. now)) order_id d w)) =
      (holdings c now (w_store w))
        (deposit_lock d := (holdings c now (w_store w) (deposit_lock d))(order_id := None))"
proof -
  obtain r w1 where run: "release_one memory_backend c (quiet (\<lambda>_. now)) order_id (dr_chain_id d)
      (dr_owner d) (dr_token_id d) w = (r, w1)" by fastforce
  note rel = release_one_undisturbed [OF c rd run]
  have suc: "ROLLBACK_MAX_ATTEMPTS = Suc 2" by (simp add: ROLLBACK_MAX_ATTEMPTS_def)
  have eq: "rollback_one memory_backend c (quiet (\<lambda>_. now)) order_id d w = w1"
    unfolding rollback_one_def suc rollback_loop.simps(2) using run rel(1) by simp
  show "readable c now (w_store (rollback_one memory_backend c (quiet (\<lambda>_. now)) order_id d w))"
    "holdings c now (w_store (rollback_one memory_backend c (quiet (\<lambda>_. now)) order_id d w)) =
      (holdings c now (w_store w))
        (deposit_lock d := (holdings c now (w_store w) (deposit_lock d))(order_id := None))"
    using rel(2,3) by (simp_all add: eq deposit_lock_def)
qed

lemma rollback_all_undisturbed:
  assumes c: "map_codec_ok c" "encodes_maps c" and "readable c now (w_store w)"
    and w': "w' = foldl (\<lambda>v d. rollback_one memory_backend c (quiet (\<lambda>_. now)) order_id d v) w taken"
  shows "others_kept c now order_id (w_store w) (w_store w') \<and>
    (\<forall>ident. holdings c now (w_store w') ident order_id =
      (if ident \<in> deposit_lock ` set taken then None else holdings c now (w_store w) ident order_id))"
  using assms(3) unfolding w'
proof (induction taken arbitrary: w)
  case Nil
  then show ?case by (simp add: others_kept_def)
next
  case (Cons d ds)
  note one = rollback_one_undisturbed [OF c Cons.prems, of order_id d]
  from Cons.IH [OF one(1)] show ?case
    by (auto simp: one(2) others_kept_def)
qed

lemma reserve_all_undisturbed:
  assumes c: "map_codec_ok c" "encodes_maps c"
  shows "readable c now (w_store w) \<Longrightarrow>
    (\<And>ident. ident \<notin> deposit_lock ` set taken \<Longrightarrow> holdings c now (w_store w) ident order_id = None) \<Longrightarrow>
    reserve_all memory_backend c (quiet (\<lambda>_. now)) order_id expires_at taken ds w = (r, w') \<Longrightarrow>
    others_kept c now order_id (w_store w) (w_store w') \<and>
    (\<forall>e. r = Inl e \<longrightarrow> (\<forall>ident. holdings c now (w_store w') ident order_id = None))"
proof (induction ds arbitrary: taken w)
  case Nil
  then show ?case by (auto simp: others_kept_def)
next
  case (Cons d ds)
  obtain r1 w1 where one: "reserve_one memory_backend c (quiet (\<lambda>_. now)) order_id expires_at d w = (r1, w1)"
    by fastforce
  note fr = reserve_one_frame [OF c Cons.prems(1) one]
  show ?case
  proof (cases r1)
    case (Inl e)
    have "holdings c now (w_store w1) = holdings c now (w_store w)"
      using fr(3) Inl by auto
    moreover have "r = Inl e" "w' = foldl (\<lambda>v d. rollback_one memory_backend c (quiet (\<lambda>_. now)) order_id d v) w1 taken"
      using Cons.prems(3) one Inl by simp_all
    ultimately show ?thesis
      using rollback_all_undisturbed [OF c fr(1), of w' order_id taken] Cons.prems(2)
      by (auto simp: others_kept_def)
  next
    case (Inr u)
    have "holdings c now (w_store w1) ident order_id = None"
      if "ident \<notin> deposit_lock ` set (taken @ [d])" for ident
      using that Cons.prems(2) [of ident] fr(3) [of ident] by auto
    moreover have "reserve_all memory_backend c (quiet (\<lambda>_. now)) order_id expires_at (taken @ [d]) ds w1
        = (r, w')" using Cons.prems(3) one Inr by simp
    ultimately show ?thesis using Cons.IH [OF fr(1)] others_kept_trans [OF fr(2)] by blast
  qed
qed

section \<open>Lock identities and key lifetimes\<close>

lemma append_sep_inj:
  "x \<notin> set a \<Longrightarrow> x \<notin> set b \<Longrightarrow> a @ x # c = b @ x # d \<Longrightarrow> a = b \<and> c = d"
proof (induction a arbitrary: b)
  case Nil
  then show ?case by (cases b) auto
next
  case (Cons y a)
  then show ?case by (cases b) auto
qed

lemma lock_id_inj:
  assumes "CHR '':'' \<notin> set ow" "CHR '':'' \<notin> set ow'" "lock_id ch ow tk = lock_id ch' ow' tk'"
  shows "ch = ch' \<and> to_lowercase ow = to_lowercase ow' \<and> tk = tk'"
proof -
  have 1: "to_dec ch = to_dec ch' \<and>
      to_lowercase ow @ CHR '':'' # ''0x'' @ to_hex tk = to_lowercase ow' @ CHR '':'' # ''0x'' @ to_hex tk'"
    using append_sep_inj [of "CHR '':''" "to_dec ch" "to_dec ch'"] assms(3) by (simp add: lock_id_def)
  then have "to_lowercase ow = to_lowercase ow' \<and> ''0x'' @ to_hex tk = ''0x'' @ to_hex tk'"
    using append_sep_inj [of "CHR '':''" "to_lowercase ow" "to_lowercase ow'" "''0x'' @ to_hex tk"
        "''0x'' @ to_hex tk'"] assms(1,2) by simp
  with 1 show ?thesis by simp
qed

lemma fold_max_ge: "(x \<in> set xs \<longrightarrow> x \<le> fold max xs a) \<and> a \<le> fold max xs (a::nat)"
proof (induction xs arbitrary: a)
  case (Cons y ys)
  from Cons.IH [of "max y a"] show ?case by auto
qed simp

definition latest_expiry :: "lock_reservations \<Rightarrow> nat" where
  "latest_expiry m = fold max (map (re_expires_at \<circ> snd) m) 0"

lemma ttl_for_covers:
  assumes "(k, e) \<in> set m" "latest_expiry m - now + TTL_GRACE_SECS < u64_bound"
  shows "re_expires_at e - now + TTL_GRACE_SECS \<le> ttl_for m now"
proof -
  have "re_expires_at e \<in> set (map (re_expires_at \<circ> snd) m)" using assms(1) by force
  then have "re_expires_at e \<le> latest_expiry m"
    using fold_max_ge unfolding latest_expiry_def by blast
  moreover have "ttl_for m now = latest_expiry m - now + TTL_GRACE_SECS"
    using assms by (cases m) (auto simp: ttl_for_def latest_expiry_def wrapping_add_def)
  ultimately show ?thesis by simp
qed

section \<open>Properties\<close>


text \<open>The instances below store the maps themselves.\<close>

definition plain_codec :: "(lock_reservations, lock_reservations) codec" where
  "plain_codec = \<lparr>encode = (\<lambda>m. if bt_ok m then Inr m else Inl ''unordered''),
                   decode = (\<lambda>m. if bt_ok m then Inr m else Inl ''unordered'')\<rparr>"

lemma plain_codec_ok: "map_codec_ok plain_codec" "encodes_maps plain_codec"
  by (auto simp: plain_codec_def map_codec_ok_def codec_ok_def encodes_maps_def)

lemma quiet_fair: "fair_interference live c avail (quiet cl)"
  by (simp add: fair_interference_def)

definition empty_world :: "lock_reservations memory_storage world" where
  "empty_world = \<lparr>w_store = memory_new, w_tick = 0\<rparr>"

lemma memory_live_new [simp]: "memory_live t memory_new k = None"
  by (simp add: memory_live_def memory_new_def)

definition sample_deposit :: "nat \<Rightarrow> nat \<Rightarrow> nat \<Rightarrow> deposit_reservation" where
  "sample_deposit token amount balance = \<lparr>dr_chain_id = 1, dr_owner = ''0xAB'', dr_token_id = token,
     dr_amount = amount, dr_available_balance = balance\<rparr>"


text \<open>
  A reservation that is granted, under any interleaving with other writers, is on record: at
  the moment the call returns the lock's stored map holds the order's entry with its amount and
  expiry, and all entries of the map together fit the balance read from the chain.
\<close>

theorem granted_reservation_recorded:
  assumes "map_codec_ok c"
    and "reserve_one memory_backend c sc order_id expires_at d w = (Inr (), w')"
  shows "\<exists>b m. memory_live (w_now sc w') (w_store w') (lock_key (deposit_lock d)) = Some b \<and>
    decode c b = Inr m \<and>
    map_of m order_id = Some \<lparr>re_amount = dr_amount d, re_expires_at = expires_at\<rparr> \<and>
    reserved_total m \<le> dr_available_balance d"
  using mem.reserve_loop_granted [OF assms(1)] assms(2) by (simp add: reserve_one_def)

lemma readable_empty: "readable plain_codec now (w_store empty_world)"
  by (simp add: readable_def lock_map_def empty_world_def)

lemma reserve_on_empty:
  "fst (reserve_one memory_backend plain_codec (quiet (\<lambda>_. 100)) ''o1'' 500 (sample_deposit 1 6 10)
     empty_world) = Inr ()"
proof -
  obtain r w where run: "reserve_one memory_backend plain_codec (quiet (\<lambda>_. 100)) ''o1'' 500
      (sample_deposit 1 6 10) empty_world = (r, w)" by fastforce
  have "lock_map plain_codec 100 (w_store empty_world) (deposit_lock (sample_deposit 1 6 10)) = Some []"
    by (simp add: lock_map_def empty_world_def)
  from reserve_one_undisturbed(1) [OF plain_codec_ok readable_empty this run] run
  show ?thesis by (simp add: next_map_Nil check_capacity_def checked_add_def sample_deposit_def)
qed

theorem granted_reservation_recorded_witness:
  "\<exists>w' b m. reserve_one memory_backend plain_codec (quiet (\<lambda>_. 100)) ''o1'' 500
      (sample_deposit 1 6 10) empty_world = (Inr (), w') \<and>
    memory_live (w_now (quiet (\<lambda>_. 100)) w') (w_store w')
      (lock_key (deposit_lock (sample_deposit 1 6 10))) = Some b \<and> decode plain_codec b = Inr m \<and>
    map_of m ''o1'' = Some \<lparr>re_amount = 6, re_expires_at = 500\<rparr> \<and> reserved_total m \<le> 10"
proof -
  obtain w' where run: "reserve_one memory_backend plain_codec (quiet (\<lambda>_. 100)) ''o1'' 500
      (sample_deposit 1 6 10) empty_world = (Inr (), w')"
    using reserve_on_empty by (metis prod.collapse)
  from granted_reservation_recorded [OF plain_codec_ok(1) run] run show ?thesis
    by (auto simp: sample_deposit_def)
qed

text \<open>
  C33: Undisturbed, at a clock that stands still during the call and with reservation rows that can be read, a
  reservation call on the memory backend for an order that holds nothing yet is all-or-nothing: when
  it fails, on whichever of its locks, no lock holds an unexpired reservation of the order, and
  in every case the unexpired reservations of all other orders are unchanged on every lock.
\<close>

theorem reserve_order_all_or_nothing:
  assumes "map_codec_ok c" "encodes_maps c" and "readable c now (w_store w)"
    and "\<And>ident. holdings c now (w_store w) ident order_id = None"
    and "reserve_order memory_backend c (quiet (\<lambda>_. now)) order_id expires_at deposits w = (r, w')"
  shows "others_kept c now order_id (w_store w) (w_store w') \<and>
    (\<forall>e. r = Inl e \<longrightarrow> (\<forall>ident. holdings c now (w_store w') ident order_id = None))"
proof (cases "aggregate [] deposits")
  case (Inl e)
  then show ?thesis using assms(4,5) by (simp add: reserve_order_def others_kept_def)
next
  case (Inr res)
  then show ?thesis
    using reserve_all_undisturbed [OF assms(1-3), of "[]"] assms(4,5) by (simp add: reserve_order_def)
qed

theorem reserve_order_all_or_nothing_witness:
  "\<exists>r w'. reserve_order memory_backend plain_codec (quiet (\<lambda>_. 100)) ''o1'' 500
      [sample_deposit 1 6 10, sample_deposit 2 7 3] empty_world = (r, w') \<and>
    others_kept plain_codec 100 ''o1'' (w_store empty_world) (w_store w')"
proof -
  obtain r w' where run: "reserve_order memory_backend plain_codec (quiet (\<lambda>_. 100)) ''o1'' 500
      [sample_deposit 1 6 10, sample_deposit 2 7 3] empty_world = (r, w')" by fastforce
  have "holdings plain_codec 100 (w_store empty_world) ident ''o1'' = None" for ident
    by (simp add: holdings_def lock_map_def empty_world_def unexpired_def)
  from reserve_order_all_or_nothing [OF plain_codec_ok readable_empty this run] run
  show ?thesis by blast
qed

end
