(* ===== verification/Compact_Intake.thy ===== *)
theory Compact_Intake
  imports Compact_Reservations Order_Types
begin

text \<open>
  \<^verbatim>\<open>crates/solver-core/src/handlers/compact_reservation.rs\<close>: which locks a resource-lock order
  draws on, the deposits to reserve for it (with the balances read from the chain), and the
  best-effort release of its reservations.  The balance call of the delivery service, the
  configured TheCompact address per chain, hexadecimal decoding and JSON parsing are parameters.
\<close>

section \<open>Operations\<close>

type_synonym compact_lock_key = "nat \<times> string \<times> nat"

definition chain_id_error :: string where
  "chain_id_error = ''Origin chain ID missing or invalid in order''"

definition compact_lock_keys ::
  "eip7683_order_data \<Rightarrow> (string, compact_lock_key list option) result" where
  "compact_lock_keys od =
     (if eod_lock_type od \<noteq> Some ResourceLock then Inr None
      else (case u64_try_from (eod_origin_chain_id od) of
              None \<Rightarrow> Inl chain_id_error
            | Some chain_id \<Rightarrow>
                Inr (Some (map (\<lambda>input. (chain_id, eod_user od, fst input)) (eod_inputs od)))))"

text \<open>\<open>trim_start_matches("0x")\<close> strips every leading occurrence.\<close>

fun trim_0x :: "string \<Rightarrow> string" where
  "trim_0x (a # b # s) = (if a = CHR ''0'' \<and> b = CHR ''x'' then trim_0x s else a # b # s)"
| "trim_0x s = s"

definition parse_owner ::
  "(string \<Rightarrow> (string, bytes) result) \<Rightarrow> string \<Rightarrow> (string, bytes) result" where
  "parse_owner hex_decode user =
     (case hex_decode (trim_0x user) of
        Inl e \<Rightarrow> Inl (''Invalid user address: '' @ e)
      | Inr bs \<Rightarrow>
          if length bs \<noteq> 20
          then Inl (''Invalid user address length: expected 20 bytes, got '' @ to_dec (length bs))
          else Inr bs)"

text \<open>\<open>None\<close>: chain not configured; \<open>Some None\<close>: no TheCompact contract on the chain.\<close>

type_synonym compact_networks = "nat \<Rightarrow> bytes option option"
type_synonym balance_reader = "nat \<Rightarrow> bytes \<Rightarrow> bytes \<Rightarrow> nat \<Rightarrow> (string, nat) result"

fun collect_deposits ::
  "balance_reader \<Rightarrow> bytes \<Rightarrow> bytes \<Rightarrow> ((nat \<times> nat) \<times> compact_lock_key) list
   \<Rightarrow> (string, deposit_reservation list) result" where
  "collect_deposits fetch compact owner_addr [] = Inr []"
| "collect_deposits fetch compact owner_addr ((input, (chain_id, owner, token_id)) # rest) =
     (if snd input = 0 then collect_deposits fetch compact owner_addr rest
      else (case fetch chain_id compact owner_addr token_id of
              Inl e \<Rightarrow> Inl e
            | Inr balance \<Rightarrow>
                (case collect_deposits fetch compact owner_addr rest of
                   Inl e \<Rightarrow> Inl e
                 | Inr ds \<Rightarrow>
                     Inr (\<lparr>dr_chain_id = chain_id, dr_owner = owner, dr_token_id = token_id,
                           dr_amount = snd input, dr_available_balance = balance\<rparr> # ds))))"

definition derive_compact_deposit_reservations ::
  "(string \<Rightarrow> (string, bytes) result) \<Rightarrow> compact_networks \<Rightarrow> balance_reader \<Rightarrow> eip7683_order_data
   \<Rightarrow> (string, deposit_reservation list) result" where
  "derive_compact_deposit_reservations hex_decode networks fetch od =
     (case compact_lock_keys od of
        Inl e \<Rightarrow> Inl e
      | Inr None \<Rightarrow> Inr []
      | Inr (Some locks) \<Rightarrow>
          (case u64_try_from (eod_origin_chain_id od) of
             None \<Rightarrow> Inl chain_id_error
           | Some chain_id \<Rightarrow>
               (case parse_owner hex_decode (eod_user od) of
                  Inl e \<Rightarrow> Inl e
                | Inr owner_addr \<Rightarrow>
                    (case networks chain_id of
                       None \<Rightarrow> Inl (''Network '' @ to_dec chain_id @ '' not configured for solver'')
                     | Some None \<Rightarrow>
                         Inl (''TheCompact address not configured for chain '' @ to_dec chain_id)
                     | Some (Some compact) \<Rightarrow>
                         collect_deposits fetch compact owner_addr (zip (eod_inputs od) locks)))))"

text \<open>Failures are logged, not propagated: the caller sees only the store.\<close>

definition release_compact_reservations ::
  "(json \<Rightarrow> (string, eip7683_order_data) result) \<Rightarrow> ('s, 'b) backend
   \<Rightarrow> (lock_reservations, 'b) codec \<Rightarrow> 's sched \<Rightarrow> order \<Rightarrow> 's world \<Rightarrow> 's world" where
  "release_compact_reservations from_value B rc sc ord w =
     (case from_value (data ord) of
        Inl _ \<Rightarrow> w
      | Inr od \<Rightarrow>
          (case compact_lock_keys od of
             Inl _ \<Rightarrow> w
           | Inr None \<Rightarrow> w
           | Inr (Some locks) \<Rightarrow> snd (release_order B rc sc (order_id ord) locks w)))"

section \<open>Lemmas\<close>

text \<open>Release only writes keys of the reservations namespace, and lets others write what they may.\<close>

definition spares :: "(nat \<Rightarrow> 's \<Rightarrow> string \<Rightarrow> 'b option) \<Rightarrow> ('s \<Rightarrow> 's \<Rightarrow> bool) \<Rightarrow> bool" where
  "spares live R \<longleftrightarrow> (\<forall>s s'. (\<forall>t k. (\<forall>ident. k \<noteq> lock_key ident) \<longrightarrow> live t s' k = live t s k) \<longrightarrow> R s s')"

lemma sparesD:
  "spares live R \<Longrightarrow> (\<And>t k. (\<forall>ident. k \<noteq> lock_key ident) \<Longrightarrow> live t s' k = live t s k) \<Longrightarrow> R s s'"
  by (simp add: spares_def)

context storage_contract
begin

lemma release_attempt_spares:
  assumes R: "spares live R" and env: "\<And>n s. R\<^sup>*\<^sup>* s (interfere sc n s)"
    and run: "release_attempt B c sc oid ident w = (r, w')"
  shows "R\<^sup>*\<^sup>* (w_store w) (w_store w')"
proof -
  have res: "R\<^sup>*\<^sup>* (w_store v) (w_store (resume sc v))" for v by (simp add: resume_def env)
  have fin: "R\<^sup>*\<^sup>* (w_store w) (w_store w2)"
    if cas: "svc_compare_and_swap_bytes B sc reservations_namespace ident e b None ttl (resume sc w) = (q, w2)"
    for e b ttl q w2
  proof -
    have "R (w_store (resume sc (resume sc w))) (w_store w2)"
      by (rule sparesD [OF R], cases "q = Inr True")
        (use cas_call [OF cas] in \<open>auto simp: writes_key_def\<close>)
    then show ?thesis using res [of w] res [of "resume sc w"]
      by (meson rtranclp.rtrancl_into_rtrancl rtranclp_trans)
  qed
  show ?thesis
    using run res [of w]
    by (auto simp: release_attempt_def Let_def
        split: sum.splits if_splits prod.splits bool.splits storage_error.splits
        dest!: retrieve_call intro: fin)
qed

lemma release_loop_spares:
  assumes "spares live R" "\<And>n s. R\<^sup>*\<^sup>* s (interfere sc n s)"
  shows "release_loop n B c sc oid ident w = (r, w') \<Longrightarrow> R\<^sup>*\<^sup>* (w_store w) (w_store w')"
  by (induction n arbitrary: w)
    (auto split: prod.splits option.splits dest: release_attempt_spares [OF assms] intro: rtranclp_trans)

lemma release_order_spares:
  assumes "spares live R" "\<And>n s. R\<^sup>*\<^sup>* s (interfere sc n s)"
  shows "release_order B c sc oid locks w = (r, w') \<Longrightarrow> R\<^sup>*\<^sup>* (w_store w) (w_store w')"
proof (induction locks arbitrary: w)
  case (Cons l locks)
  obtain a b d where l: "l = (a, b, d)" by (cases l)
  show ?case using Cons.prems Cons.IH
    by (auto simp: l release_one_def split: prod.splits sum.splits
        dest: release_loop_spares [OF assms] intro: rtranclp_trans)
qed simp

lemma release_compact_spares:
  assumes "spares live R" "\<And>n s. R\<^sup>*\<^sup>* s (interfere sc n s)"
  shows "R\<^sup>*\<^sup>* (w_store w) (w_store (release_compact_reservations fv B c sc ord w))"
  using release_order_spares [OF assms surjective_pairing]
  by (auto simp: release_compact_reservations_def split: sum.splits option.splits)

end

lemma collect_deposits_locks:
  assumes "collect_deposits fetch compact oa xs = Inr ds" "d \<in> set ds"
  shows "(dr_chain_id d, dr_owner d, dr_token_id d) \<in> snd ` set xs \<and> dr_amount d > 0 \<and>
    fetch (dr_chain_id d) compact oa (dr_token_id d) = Inr (dr_available_balance d)"
  using assms
  by (induction fetch compact oa xs arbitrary: ds rule: collect_deposits.induct)
    (fastforce split: if_splits sum.splits)+

lemma collect_deposits_total:
  "collect_deposits fetch compact oa xs = Inr ds \<Longrightarrow>
   sum_list (map dr_amount ds) = sum_list (map (snd \<circ> fst) xs)"
  by (induction fetch compact oa xs arbitrary: ds rule: collect_deposits.induct)
    (auto split: if_splits sum.splits)

section \<open>Properties\<close>

text \<open>
  Reserve and release agree on the locks of an order: whenever the deposits of an order can be
  derived, each derived deposit sits on a lock that the release path visits, carries a positive
  amount and the balance the chain reported, and together they cover exactly the order's inputs.
\<close>

theorem reserve_release_agree:
  assumes "derive_compact_deposit_reservations hex_decode networks fetch od = Inr ds"
    and "eod_lock_type od = Some ResourceLock"
  shows "\<exists>locks. compact_lock_keys od = Inr (Some locks) \<and>
    (\<forall>d \<in> set ds. (dr_chain_id d, dr_owner d, dr_token_id d) \<in> set locks \<and> dr_amount d > 0) \<and>
    sum_list (map dr_amount ds) = sum_list (map snd (eod_inputs od))"
proof -
  from assms obtain chain compact oa locks where locks: "compact_lock_keys od = Inr (Some locks)"
    and ds: "collect_deposits fetch compact oa (zip (eod_inputs od) locks) = Inr ds"
    by (auto simp: derive_compact_deposit_reservations_def compact_lock_keys_def
        split: sum.splits option.splits)
  have len: "length locks = length (eod_inputs od)"
    using locks assms(2) by (auto simp: compact_lock_keys_def split: option.splits)
  have "map (snd \<circ> fst) (zip (eod_inputs od) locks) = map snd (map fst (zip (eod_inputs od) locks))"
    by simp
  then have "map (snd \<circ> fst) (zip (eod_inputs od) locks) = map snd (eod_inputs od)"
    using len by (simp only: map_fst_zip)
  then have sums: "sum_list (map dr_amount ds) = sum_list (map snd (eod_inputs od))"
    using collect_deposits_total [OF ds] by simp
  have "(dr_chain_id d, dr_owner d, dr_token_id d) \<in> set locks \<and> dr_amount d > 0"
    if "d \<in> set ds" for d
    using collect_deposits_locks [OF ds that] by (auto dest: set_zip_rightD)
  with locks sums show ?thesis by blast
qed

definition sample_order_data :: eip7683_order_data where
  "sample_order_data = \<lparr>eod_user = ''0xAB'', eod_nonce = 1, eod_origin_chain_id = 10,
     eod_expires = 500, eod_fill_deadline = 400, eod_input_oracle = ''0x01'',
     eod_inputs = [(7, 3), (8, 0), (9, 4)], eod_order_id = [], eod_settle_gas_limit = None,
     eod_fill_gas_limit = None, eod_prepare_gas_limit = None, eod_outputs = [],
     eod_raw_order_data = None, eod_signature = None, eod_sponsor = None,
     eod_lock_type = Some ResourceLock\<rparr>"

theorem reserve_release_agree_witness:
  "\<exists>ds locks. derive_compact_deposit_reservations (\<lambda>_. Inr (replicate 20 0)) (\<lambda>_. Some (Some []))
      (\<lambda>_ _ _ _. Inr 100) sample_order_data = Inr ds \<and> length ds = 2 \<and>
    compact_lock_keys sample_order_data = Inr (Some locks) \<and>
    sum_list (map dr_amount ds) = sum_list (map snd (eod_inputs sample_order_data))"
proof -
  have lt: "eod_lock_type sample_order_data = Some ResourceLock"
    by (simp add: sample_order_data_def)
  obtain ds where ds: "derive_compact_deposit_reservations (\<lambda>_. Inr (replicate 20 0))
      (\<lambda>_. Some (Some [])) (\<lambda>_ _ _ _. Inr 100) sample_order_data = Inr ds" and "length ds = 2"
    by (simp add: derive_compact_deposit_reservations_def compact_lock_keys_def sample_order_data_def
        u64_try_from_def parse_owner_def)
  then show ?thesis using reserve_release_agree [OF ds lt] by blast
qed

end
