(* ===== verification/Order_State.thy ===== *)
theory Order_State
  imports Compact_Intake Indexed_Rows
begin

text \<open>
  \<^verbatim>\<open>crates/solver-core/src/state/order.rs\<close>: the order state machine.  The transition table, the
  search for \<^verbatim>\<open>is_at_or_past\<close>, the optimistic retry loops of \<^verbatim>\<open>update_order_with\<close> and
  \<^verbatim>\<open>try_transition_order_status\<close>, and the operations built on them.  The lemmas relate the
  search to reachability in the table, show that every operation only moves stored orders
  along the table whatever other tasks do in between, and give the exact outcome of an
  undisturbed call.
\<close>

section \<open>Statuses and transitions\<close>

datatype order_status_kind =
    KCreated | KPending | KExecuting | KExecuted | KPostFilled | KPreClaimed | KSettled
  | KFinalized | KFailed

fun status_kind :: "order_status \<Rightarrow> order_status_kind" where
  "status_kind Created = KCreated"
| "status_kind Pending = KPending"
| "status_kind Executing = KExecuting"
| "status_kind Executed = KExecuted"
| "status_kind PostFilled = KPostFilled"
| "status_kind PreClaimed = KPreClaimed"
| "status_kind Settled = KSettled"
| "status_kind Finalized = KFinalized"
| "status_kind (Failed _ _) = KFailed"

text \<open>
  The static table.  The sets of the source are lists here; the order in which a set is
  enumerated makes no difference to the results below.
\<close>

fun transitions :: "order_status_kind \<Rightarrow> order_status_kind list option" where
  "transitions KCreated = Some [KPending, KExecuting, KFailed]"
| "transitions KPending = Some [KExecuting, KExecuted, KFailed]"
| "transitions KExecuting = Some [KExecuted, KFailed]"
| "transitions KExecuted = Some [KPostFilled, KSettled, KFailed]"
| "transitions KPostFilled = Some [KSettled, KFailed]"
| "transitions KPreClaimed = Some [KFinalized, KFailed]"
| "transitions KSettled = Some [KPreClaimed, KFinalized, KFailed]"
| "transitions KFailed = Some []"
| "transitions KFinalized = Some []"

definition is_valid_transition :: "order_status \<Rightarrow> order_status \<Rightarrow> bool" where
  "is_valid_transition from to =
     (case transitions (status_kind from) of None \<Rightarrow> False | Some nexts \<Rightarrow> status_kind to \<in> set nexts)"

text \<open>
  The loop of \<open>is_at_or_past\<close>.  The frontier is a stack, its top first.  \<open>scan_nexts\<close> is the
  inner loop: \<open>None\<close> when \<open>current\<close> was met.
\<close>

fun scan_nexts ::
  "order_status_kind \<Rightarrow> order_status_kind list \<Rightarrow> order_status_kind list \<Rightarrow> order_status_kind set
   \<Rightarrow> (order_status_kind list \<times> order_status_kind set) option" where
  "scan_nexts current [] frontier seen = Some (frontier, seen)"
| "scan_nexts current (nxt # nexts) frontier seen =
     (if nxt = current then None
      else if nxt \<notin> seen then scan_nexts current nexts (nxt # frontier) (insert nxt seen)
      else scan_nexts current nexts frontier seen)"

lemma UNIV_order_status_kind:
  "UNIV = {KCreated, KPending, KExecuting, KExecuted, KPostFilled, KPreClaimed, KSettled, KFinalized, KFailed}"
  using order_status_kind.exhaust by auto

lemma finite_status_kinds [simp]: "finite (A :: order_status_kind set)"
  by (rule finite_subset [OF subset_UNIV]) (simp add: UNIV_order_status_kind)

lemma scan_nexts_grows:
  "scan_nexts current nexts frontier seen = Some (frontier', seen') \<Longrightarrow>
   seen \<subset> seen' \<or> frontier' = frontier \<and> seen' = seen"
  by (induction current nexts frontier seen rule: scan_nexts.induct) (fastforce split: if_splits)+

function search ::
  "order_status_kind \<Rightarrow> order_status_kind list \<Rightarrow> order_status_kind set \<Rightarrow> bool" where
  "search current [] seen = False"
| "search current (kind # frontier) seen =
     (case transitions kind of
        None \<Rightarrow> search current frontier seen
      | Some nexts \<Rightarrow>
          (case scan_nexts current nexts frontier seen of
             None \<Rightarrow> True
           | Some (frontier', seen') \<Rightarrow> search current frontier' seen'))"
  by pat_completeness auto
termination
proof (relation "measures [\<lambda>(_, _, seen). card (- seen), \<lambda>(_, frontier, _). length frontier]",
    goal_cases)
  case (3 current kind frontier seen nexts p frontier' seen')
  then have "seen \<subset> seen' \<or> frontier' = frontier \<and> seen' = seen"
    using scan_nexts_grows by (metis surjective_pairing prod.inject)
  then show ?case by (auto intro: psubset_card_mono)
qed auto

definition is_at_or_past :: "order_status \<Rightarrow> order_status \<Rightarrow> bool" where
  "is_at_or_past current target =
     (if status_kind current = status_kind target then True
      else search (status_kind current) [status_kind target] {status_kind target})"

section \<open>Operations\<close>

definition ORDER_CAS_MAX_RETRIES :: nat where "ORDER_CAS_MAX_RETRIES = 8"

datatype order_state_error =
    OrderStorage string
  | InvalidTransition order_status order_status
  | OrderNotFound string
  | OrderTimeError string

datatype order_transition_outcome = Applied order | AlreadyApplied order

fun outcome_applied :: "order_transition_outcome \<Rightarrow> bool" where
  "outcome_applied (Applied _) = True"
| "outcome_applied (AlreadyApplied _) = False"

fun into_order :: "order_transition_outcome \<Rightarrow> order" where
  "into_order (Applied ord) = ord"
| "into_order (AlreadyApplied ord) = ord"

definition from_order_storage :: "storage_error \<Rightarrow> order_state_error" where
  "from_order_storage e = OrderStorage (storage_error_text e)"

definition should_release_compact_reservations :: "order_status \<Rightarrow> bool" where
  "should_release_compact_reservations st = (st = Finalized)"

definition order_storage_indexes :: "order \<Rightarrow> storage_indexes" where
  "order_storage_indexes ord =
     with_field (with_field [] ''status_kind'' (JString (status_kind_index_value (status ord))))
       ''is_terminal'' (JBool (is_terminal (status ord)))"

definition decode_order :: "(order, 'b) codec \<Rightarrow> 'b \<Rightarrow> (order_state_error, order) result" where
  "decode_order oc b = (case decode oc b of Inl m \<Rightarrow> Inl (OrderStorage m) | Inr ord \<Rightarrow> Inr ord)"

definition stamp_updated_at :: "nat option \<Rightarrow> order \<Rightarrow> (order_state_error, order) result" where
  "stamp_updated_at now ord =
     (case now of
        None \<Rightarrow> Inl (OrderTimeError ''second time provided was later than self'')
      | Some t \<Rightarrow> Inr (ord\<lparr>updated_at := t\<rparr>))"

text \<open>
  Writing back a changed order: stamp it, encode it, swap it for \<open>expected\<close>.  \<open>Some\<close> ends the
  retry loop, with an error or the order written; \<open>None\<close> is a lost race.
\<close>

definition swap_order ::
  "('s, 'b) backend \<Rightarrow> (order, 'b) codec \<Rightarrow> 's sched \<Rightarrow> string \<Rightarrow> 'b \<Rightarrow> order \<Rightarrow> 's world
   \<Rightarrow> (order_state_error, order) result option \<times> 's world" where
  "swap_order B oc sc oid expected ord w =
     (case stamp_updated_at (w_unix sc w) ord of
        Inl e \<Rightarrow> (Some (Inl e), w)
      | Inr ord1 \<Rightarrow>
          (case encode oc ord1 of
             Inl m \<Rightarrow> (Some (Inl (OrderStorage m)), w)
           | Inr new_value \<Rightarrow>
               (let (r, w1) = svc_compare_and_swap_bytes B sc (storage_key_str Orders) oid expected
                      new_value (Some (order_storage_indexes ord1)) None w
                in (case r of
                      Inl e \<Rightarrow> (Some (Inl (from_order_storage e)), w1)
                    | Inr swapped \<Rightarrow> (if swapped then Some (Inr ord1) else None, w1)))))"

definition update_attempt ::
  "('s, 'b) backend \<Rightarrow> (order, 'b) codec \<Rightarrow> 's sched \<Rightarrow> string \<Rightarrow> (order \<Rightarrow> order) \<Rightarrow> 's world
   \<Rightarrow> (order_state_error, order) result option \<times> 's world" where
  "update_attempt B oc sc oid updater w =
     (let (r, w1) = svc_retrieve_bytes B sc (storage_key_str Orders) oid w
      in (case r of
            Inl e \<Rightarrow> (Some (Inl (from_order_storage e)), w1)
          | Inr expected \<Rightarrow>
              (case decode_order oc expected of
                 Inl e \<Rightarrow> (Some (Inl e), w1)
               | Inr ord \<Rightarrow> swap_order B oc sc oid expected (updater ord) w1)))"

fun update_loop ::
  "nat \<Rightarrow> ('s, 'b) backend \<Rightarrow> (order, 'b) codec \<Rightarrow> 's sched \<Rightarrow> string \<Rightarrow> (order \<Rightarrow> order) \<Rightarrow> 's world
   \<Rightarrow> (order_state_error, order) result \<times> 's world" where
  "update_loop 0 B oc sc oid updater w =
     (Inl (OrderStorage (''CAS conflict after '' @ to_dec ORDER_CAS_MAX_RETRIES @
        '' retries updating order '' @ oid)), w)"
| "update_loop (Suc n) B oc sc oid updater w =
     (case update_attempt B oc sc oid updater w of
        (Some r, w1) \<Rightarrow> (r, w1)
      | (None, w1) \<Rightarrow> update_loop n B oc sc oid updater w1)"

definition update_order_with ::
  "('s, 'b) backend \<Rightarrow> (order, 'b) codec \<Rightarrow> 's sched \<Rightarrow> string \<Rightarrow> (order \<Rightarrow> order) \<Rightarrow> 's world
   \<Rightarrow> (order_state_error, order) result \<times> 's world" where
  "update_order_with B oc sc oid updater w = update_loop ORDER_CAS_MAX_RETRIES B oc sc oid updater w"

text \<open>
  The parameters of the machine: the parser of the order's data and the codec of the
  reservation maps, which \<open>release_compact_reservations\<close> uses.
\<close>

type_synonym parse_order_data = "json \<Rightarrow> (string, eip7683_order_data) result"

definition release_reservations_of ::
  "parse_order_data \<Rightarrow> ('s, 'b) backend \<Rightarrow> (lock_reservations, 'b) codec \<Rightarrow> 's sched \<Rightarrow> order
   \<Rightarrow> 's world \<Rightarrow> 's world" where
  "release_reservations_of fv B rc sc ord w =
     (if standard ord \<noteq> ''eip7683'' then w else release_compact_reservations fv B rc sc ord w)"

definition transition_attempt ::
  "parse_order_data \<Rightarrow> ('s, 'b) backend \<Rightarrow> (order, 'b) codec \<Rightarrow> (lock_reservations, 'b) codec
   \<Rightarrow> 's sched \<Rightarrow> string \<Rightarrow> order_status \<Rightarrow> (order \<Rightarrow> order) \<Rightarrow> 's world
   \<Rightarrow> (order_state_error, order_transition_outcome) result option \<times> 's world" where
  "transition_attempt fv B oc rc sc oid new_status updater w =
     (let (r, w1) = svc_retrieve_bytes B sc (storage_key_str Orders) oid w
      in (case r of
            Inl e \<Rightarrow> (Some (Inl (from_order_storage e)), w1)
          | Inr expected \<Rightarrow>
              (case decode_order oc expected of
                 Inl e \<Rightarrow> (Some (Inl e), w1)
               | Inr ord \<Rightarrow>
                   if status_kind (status ord) = status_kind new_status
                   then (Some (Inr (AlreadyApplied ord)), w1)
                   else if is_at_or_past (status ord) new_status
                   then (Some (Inr (AlreadyApplied ord)), w1)
                   else if \<not> is_valid_transition (status ord) new_status
                   then (Some (Inl (InvalidTransition (status ord) new_status)), w1)
                   else (case swap_order B oc sc oid expected (updater (ord\<lparr>status := new_status\<rparr>)) w1 of
                           (None, w2) \<Rightarrow> (None, w2)
                         | (Some (Inl e), w2) \<Rightarrow> (Some (Inl e), w2)
                         | (Some (Inr ord1), w2) \<Rightarrow>
                             (Some (Inr (Applied ord1)),
                              if should_release_compact_reservations (status ord1)
                              then release_reservations_of fv B rc sc ord1 w2 else w2)))))"

fun transition_loop ::
  "nat \<Rightarrow> parse_order_data \<Rightarrow> ('s, 'b) backend \<Rightarrow> (order, 'b) codec \<Rightarrow> (lock_reservations, 'b) codec
   \<Rightarrow> 's sched \<Rightarrow> string \<Rightarrow> order_status \<Rightarrow> (order \<Rightarrow> order) \<Rightarrow> 's world
   \<Rightarrow> (order_state_error, order_transition_outcome) result \<times> 's world" where
  "transition_loop 0 fv B oc rc sc oid new_status updater w =
     (Inl (OrderStorage (''CAS conflict after '' @ to_dec ORDER_CAS_MAX_RETRIES @
        '' retries transitioning order '' @ oid)), w)"
| "transition_loop (Suc n) fv B oc rc sc oid new_status updater w =
     (case transition_attempt fv B oc rc sc oid new_status updater w of
        (Some r, w1) \<Rightarrow> (r, w1)
      | (None, w1) \<Rightarrow> transition_loop n fv B oc rc sc oid new_status updater w1)"

definition try_transition_order_status ::
  "parse_order_data \<Rightarrow> ('s, 'b) backend \<Rightarrow> (order, 'b) codec \<Rightarrow> (lock_reservations, 'b) codec
   \<Rightarrow> 's sched \<Rightarrow> string \<Rightarrow> order_status \<Rightarrow> (order \<Rightarrow> order) \<Rightarrow> 's world
   \<Rightarrow> (order_state_error, order_transition_outcome) result \<times> 's world" where
  "try_transition_order_status fv B oc rc sc oid new_status updater w =
     transition_loop ORDER_CAS_MAX_RETRIES fv B oc rc sc oid new_status updater w"

definition transition_order_status ::
  "parse_order_data \<Rightarrow> ('s, 'b) backend \<Rightarrow> (order, 'b) codec \<Rightarrow> (lock_reservations, 'b) codec
   \<Rightarrow> 's sched \<Rightarrow> string \<Rightarrow> order_status \<Rightarrow> 's world \<Rightarrow> (order_state_error, order) result \<times> 's world" where
  "transition_order_status fv B oc rc sc oid new_status w =
     (case try_transition_order_status fv B oc rc sc oid new_status (\<lambda>ord. ord) w of
        (Inl e, w1) \<Rightarrow> (Inl e, w1)
      | (Inr outcome, w1) \<Rightarrow> (Inr (into_order outcome), w1))"

definition get_order ::
  "('s, 'b) backend \<Rightarrow> (order, 'b) codec \<Rightarrow> 's sched \<Rightarrow> string \<Rightarrow> 's world
   \<Rightarrow> (order_state_error, order) result \<times> 's world" where
  "get_order B oc sc oid w =
     map_prod (map_sum from_order_storage (\<lambda>ord. ord)) (\<lambda>v. v)
       (svc_retrieve B oc sc (storage_key_str Orders) oid w)"

definition store_order ::
  "('s, 'b) backend \<Rightarrow> (order, 'b) codec \<Rightarrow> 's sched \<Rightarrow> order \<Rightarrow> 's world
   \<Rightarrow> (order_state_error, unit) result \<times> 's world" where
  "store_order B oc sc ord w =
     map_prod (map_sum from_order_storage (\<lambda>u. u)) (\<lambda>v. v)
       (svc_store B oc sc (storage_key_str Orders) (order_id ord) ord
          (Some (order_storage_indexes ord)) w)"

fun record_transaction_hash :: "transaction_type \<Rightarrow> bytes \<Rightarrow> order \<Rightarrow> order" where
  "record_transaction_hash Prepare h ord = ord\<lparr>prepare_tx_hash := Some h\<rparr>"
| "record_transaction_hash Fill h ord = set_fill_transaction_hash h ord"
| "record_transaction_hash PostFill h ord = ord\<lparr>post_fill_tx_hash := Some h\<rparr>"
| "record_transaction_hash PreClaim h ord = ord\<lparr>pre_claim_tx_hash := Some h\<rparr>"
| "record_transaction_hash Claim h ord = set_claim_transaction_hash h ord"
| "record_transaction_hash Approval h ord = ord"
| "record_transaction_hash Withdrawal h ord = ord"
| "record_transaction_hash Bridge h ord = ord"
| "record_transaction_hash Pusher h ord = ord"

definition set_transaction_hash ::
  "('s, 'b) backend \<Rightarrow> (order, 'b) codec \<Rightarrow> 's sched \<Rightarrow> string \<Rightarrow> bytes \<Rightarrow> transaction_type \<Rightarrow> 's world
   \<Rightarrow> (order_state_error, order) result \<times> 's world" where
  "set_transaction_hash B oc sc oid tx_hash tx_type w =
     update_order_with B oc sc oid (record_transaction_hash tx_type tx_hash) w"

definition set_execution_params ::
  "('s, 'b) backend \<Rightarrow> (order, 'b) codec \<Rightarrow> 's sched \<Rightarrow> string \<Rightarrow> execution_params \<Rightarrow> 's world
   \<Rightarrow> (order_state_error, order) result \<times> 's world" where
  "set_execution_params B oc sc oid params w =
     update_order_with B oc sc oid (\<lambda>ord. ord\<lparr>order_execution_params := Some params\<rparr>) w"

definition set_fill_proof ::
  "('s, 'b) backend \<Rightarrow> (order, 'b) codec \<Rightarrow> 's sched \<Rightarrow> string \<Rightarrow> fill_proof \<Rightarrow> 's world
   \<Rightarrow> (order_state_error, order) result \<times> 's world" where
  "set_fill_proof B oc sc oid prf w =
     update_order_with B oc sc oid (\<lambda>ord. ord\<lparr>order_fill_proof := Some prf\<rparr>) w"

section \<open>The transition graph\<close>

definition edge :: "order_status_kind \<Rightarrow> order_status_kind \<Rightarrow> bool" where
  "edge a b \<longleftrightarrow> (case transitions a of None \<Rightarrow> False | Some nexts \<Rightarrow> b \<in> set nexts)"

lemma scan_nexts_None:
  "scan_nexts current nexts frontier seen = None \<longleftrightarrow> current \<in> set nexts"
  by (induction current nexts frontier seen rule: scan_nexts.induct) auto

lemma scan_nexts_Some:
  "scan_nexts current nexts frontier seen = Some (frontier', seen') \<Longrightarrow>
   seen' = seen \<union> set nexts \<and> set frontier' = set frontier \<union> (set nexts - seen) \<and>
   current \<notin> set nexts"
  by (induction current nexts frontier seen arbitrary: frontier' seen' rule: scan_nexts.induct)
    (fastforce split: if_splits)+

definition search_inv :: "order_status_kind \<Rightarrow> order_status_kind list \<Rightarrow> order_status_kind set \<Rightarrow> bool" where
  "search_inv current frontier seen \<longleftrightarrow> set frontier \<subseteq> seen \<and> current \<notin> seen \<and>
     (\<forall>k \<in> seen - set frontier. \<forall>n. edge k n \<longrightarrow> n \<in> seen)"

lemma closed_rtranclp:
  "edge\<^sup>*\<^sup>* a b \<Longrightarrow> a \<in> S \<Longrightarrow> (\<And>k n. k \<in> S \<Longrightarrow> edge k n \<Longrightarrow> n \<in> S) \<Longrightarrow> b \<in> S"
  by (induction rule: rtranclp_induct) auto

lemma search_correct:
  "search_inv current frontier seen \<Longrightarrow>
   search current frontier seen \<longleftrightarrow> (\<exists>k \<in> seen. edge\<^sup>*\<^sup>* k current)"
proof (induction current frontier seen rule: search.induct)
  case (1 current seen)
  then have "current \<notin> seen" "\<And>k n. k \<in> seen \<Longrightarrow> edge k n \<Longrightarrow> n \<in> seen"
    by (auto simp: search_inv_def)
  then show ?case by (auto dest: closed_rtranclp)
next
  case (2 current kind frontier seen)
  obtain nexts where tr: "transitions kind = Some nexts" by (cases kind) auto
  then have edges: "edge kind n \<longleftrightarrow> n \<in> set nexts" for n by (simp add: edge_def)
  show ?case
  proof (cases "scan_nexts current nexts frontier seen")
    case None
    then have "edge kind current" by (simp add: scan_nexts_None edges)
    moreover have "kind \<in> seen" using "2.prems" by (simp add: search_inv_def)
    ultimately show ?thesis using tr None by auto
  next
    case (Some p)
    obtain frontier' seen' where p: "p = (frontier', seen')" by (cases p)
    note scan = scan_nexts_Some [OF Some [unfolded p]]
    have "n \<in> seen'" if "k \<in> seen' - set frontier'" "edge k n" for k n
    proof (cases "k = kind")
      case True then show ?thesis using that(2) edges scan by simp
    next
      case False
      then have "k \<in> seen - set (kind # frontier)" using that(1) scan by auto
      then show ?thesis using "2.prems" that(2) scan by (simp add: search_inv_def)
    qed
    then have inv: "search_inv current frontier' seen'"
      using "2.prems" scan by (simp add: search_inv_def) blast
    have "(\<exists>k \<in> seen'. edge\<^sup>*\<^sup>* k current) \<longleftrightarrow> (\<exists>k \<in> seen. edge\<^sup>*\<^sup>* k current)"
    proof
      assume "\<exists>k \<in> seen'. edge\<^sup>*\<^sup>* k current"
      then obtain k where k: "k \<in> seen \<or> edge kind k" "edge\<^sup>*\<^sup>* k current" using scan edges by blast
      moreover have "kind \<in> seen" using "2.prems" by (simp add: search_inv_def)
      ultimately show "\<exists>k \<in> seen. edge\<^sup>*\<^sup>* k current"
        by (meson converse_rtranclp_into_rtranclp)
    qed (use scan in blast)
    moreover have "search current (kind # frontier) seen = search current frontier' seen'"
      using tr Some p by simp
    ultimately show ?thesis using "2.IH"(2) [OF tr Some p [symmetric] inv] by blast
  qed
qed

lemma is_at_or_past_reach:
  "is_at_or_past current target \<longleftrightarrow> edge\<^sup>*\<^sup>* (status_kind target) (status_kind current)"
proof (cases "status_kind current = status_kind target")
  case False
  then have "search_inv (status_kind current) [status_kind target] {status_kind target}"
    by (simp add: search_inv_def)
  from search_correct [OF this] show ?thesis using False by (simp add: is_at_or_past_def del: search.simps)
qed (simp add: is_at_or_past_def)

lemma is_valid_transition_edge: "is_valid_transition a b \<longleftrightarrow> edge (status_kind a) (status_kind b)"
  by (simp add: is_valid_transition_def edge_def)

lemma edge_from_terminal [simp]: "\<not> edge KFinalized k" "\<not> edge KFailed k"
  by (simp_all add: edge_def)

lemma is_terminal_kind: "is_terminal st \<longleftrightarrow> status_kind st = KFinalized \<or> status_kind st = KFailed"
  by (cases st) (auto simp: is_terminal_def)

lemma reach_from_terminal: "is_terminal st \<Longrightarrow> edge\<^sup>*\<^sup>* (status_kind st) k \<Longrightarrow> k = status_kind st"
  by (auto simp: is_terminal_kind elim: converse_rtranclpE)

text \<open>The graph has no cycle: the progress of a status grows along every edge.\<close>

fun progress :: "order_status_kind \<Rightarrow> nat" where
  "progress KCreated = 0"
| "progress KPending = 1"
| "progress KExecuting = 2"
| "progress KExecuted = 3"
| "progress KPostFilled = 4"
| "progress KSettled = 5"
| "progress KPreClaimed = 6"
| "progress KFinalized = 7"
| "progress KFailed = 8"

lemma edge_progress: "edge a b \<Longrightarrow> progress a < progress b"
  by (cases a) (auto simp: edge_def)

lemma reach_progress: "edge\<^sup>*\<^sup>* a b \<Longrightarrow> a = b \<or> progress a < progress b"
  by (induction rule: rtranclp_induct) (auto dest: edge_progress)

lemma reach_antisym: "edge\<^sup>*\<^sup>* a b \<Longrightarrow> edge\<^sup>*\<^sup>* b a \<Longrightarrow> a = b"
  by (auto dest!: reach_progress)

section \<open>Steps of the stored orders\<close>

definition order_key :: "string \<Rightarrow> string" where
  "order_key oid = mk_key (storage_key_str Orders) oid"

lemma order_key_inj [simp]: "order_key i = order_key j \<longleftrightarrow> i = j"
  by (simp add: order_key_def)

lemma order_key_not_lock [simp]: "order_key i \<noteq> lock_key j" "lock_key j \<noteq> order_key i"
  by (simp_all add: order_key_def lock_key_def mk_key_def reservations_namespace_def)

text \<open>
  One atomic effect on the orders of a store: no order changes, a key that held no order gets
  one, or the order under a key is replaced by one whose status is the same or one edge on.
\<close>

inductive order_step ::
  "(nat \<Rightarrow> 's \<Rightarrow> string \<Rightarrow> 'b option) \<Rightarrow> (order, 'b) codec \<Rightarrow> 's \<Rightarrow> 's \<Rightarrow> bool"
  for live oc where
  elsewhere: "(\<And>t oid. live t s' (order_key oid) = live t s (order_key oid)) \<Longrightarrow> order_step live oc s s'"
| create: "(\<And>t. live t s (order_key oid) = None) \<Longrightarrow> encode oc ord = Inr b \<Longrightarrow>
    writes_key live (order_key oid) None t b s s' \<Longrightarrow> order_step live oc s s'"
| move: "live t s (order_key oid) = Some b0 \<Longrightarrow> decode oc b0 = Inr ord0 \<Longrightarrow> encode oc ord1 = Inr b1 \<Longrightarrow>
    edge\<^sup>=\<^sup>= (status_kind (status ord0)) (status_kind (status ord1)) \<Longrightarrow>
    writes_key live (order_key oid) None t b1 s s' \<Longrightarrow> order_step live oc s s'"

text \<open>The store holds an order under a key, for good (orders are written without a lifetime).\<close>

definition holds_order ::
  "(nat \<Rightarrow> 's \<Rightarrow> string \<Rightarrow> 'b option) \<Rightarrow> (order, 'b) codec \<Rightarrow> 's \<Rightarrow> string \<Rightarrow> order \<Rightarrow> bool" where
  "holds_order live oc s oid ord \<longleftrightarrow>
     (\<exists>b. (\<forall>t. live t s (order_key oid) = Some b) \<and> decode oc b = Inr ord)"

lemma order_step_moves:
  assumes "codec_ok oc" "order_step live oc s s'" "holds_order live oc s oid ord"
  shows "\<exists>ord'. holds_order live oc s' oid ord' \<and>
    edge\<^sup>*\<^sup>* (status_kind (status ord)) (status_kind (status ord'))"
  using assms(2)
proof cases
  case elsewhere
  then show ?thesis using assms(3) by (auto simp: holds_order_def)
next
  case (create oid' ord' b t)
  then have "oid' \<noteq> oid" using assms(3) by (auto simp: holds_order_def)
  then show ?thesis using create(3) assms(3) by (auto simp: holds_order_def writes_key_def)
next
  case (move t oid' b0 ord0 ord1 b1)
  show ?thesis
  proof (cases "oid' = oid")
    case True
    then have "ord0 = ord" using move(1,2) assms(3) by (auto simp: holds_order_def)
    moreover have "holds_order live oc s' oid ord1"
      using move(3,5) True codec_okD [OF assms(1)]
      by (auto simp: holds_order_def writes_key_def until_ttl_def)
    ultimately show ?thesis using move(4) by auto
  next
    case False
    then show ?thesis using move(5) assms(3) by (auto simp: holds_order_def writes_key_def)
  qed
qed

lemma order_steps_move:
  assumes "codec_ok oc"
  shows "(order_step live oc)\<^sup>*\<^sup>* s s' \<Longrightarrow> holds_order live oc s oid ord \<Longrightarrow>
    \<exists>ord'. holds_order live oc s' oid ord' \<and>
      edge\<^sup>*\<^sup>* (status_kind (status ord)) (status_kind (status ord'))"
proof (induction rule: rtranclp_induct)
  case (step s1 s2)
  then show ?case by (meson order_step_moves [OF assms] rtranclp_trans)
qed auto

definition fair_orders ::
  "(nat \<Rightarrow> 's \<Rightarrow> string \<Rightarrow> 'b option) \<Rightarrow> (order, 'b) codec \<Rightarrow> 's sched \<Rightarrow> bool" where
  "fair_orders live oc sc \<longleftrightarrow> (\<forall>n s. (order_step live oc)\<^sup>*\<^sup>* s (interfere sc n s))"

lemma fair_orders_resume:
  "fair_orders live oc sc \<Longrightarrow> (order_step live oc)\<^sup>*\<^sup>* (w_store w) (w_store (resume sc w))"
  by (simp add: fair_orders_def resume_def)

lemma order_step_spares: "spares live (order_step live oc)"
  by (auto simp: spares_def intro: order_step.elsewhere)

text \<open>
  The write of an order at one point of a run: at a store \<open>s1\<close> the run passes through, the key
  holds an order \<open>ord0\<close>, and it is replaced there by the order written.
\<close>

definition replaced_at ::
  "(nat \<Rightarrow> 's \<Rightarrow> string \<Rightarrow> 'b option) \<Rightarrow> (order, 'b) codec \<Rightarrow> string \<Rightarrow> order \<Rightarrow> order \<Rightarrow> 's \<Rightarrow> 's \<Rightarrow> bool" where
  "replaced_at live oc oid ord0 ord1 s1 s2 \<longleftrightarrow>
     (\<exists>t b0 b1. live t s1 (order_key oid) = Some b0 \<and> decode oc b0 = Inr ord0 \<and>
        encode oc ord1 = Inr b1 \<and> writes_key live (order_key oid) None t b1 s1 s2)"

lemma replaced_at_step:
  "replaced_at live oc oid ord0 ord1 s1 s2 \<Longrightarrow>
   edge\<^sup>=\<^sup>= (status_kind (status ord0)) (status_kind (status ord1)) \<Longrightarrow> order_step live oc s1 s2"
  unfolding replaced_at_def by (elim exE conjE) (rule order_step.move)

lemma stamp_updated_at_ok:
  "stamp_updated_at now ord = Inr ord1 \<longleftrightarrow> (\<exists>t. now = Some t \<and> ord1 = ord\<lparr>updated_at := t\<rparr>)"
  by (auto simp: stamp_updated_at_def split: option.splits)

context storage_contract
begin

lemma swap_order_cases:
  assumes dec: "decode oc e = Inr ord0" and run: "swap_order B oc sc oid e ord w = (r, w')"
  shows "(\<exists>err. r = Some (Inl err)) \<and> w' = w \<or>
    (\<forall>t k. live t (w_store w') k = live t (w_store (resume sc w)) k) \<and> (\<forall>a. r \<noteq> Some (Inr a)) \<or>
    (\<exists>ord1 t. r = Some (Inr ord1) \<and> ord1 = ord\<lparr>updated_at := t\<rparr> \<and>
       replaced_at live oc oid ord0 ord1 (w_store (resume sc w)) (w_store w'))"
proof -
  consider (same) err where "r = Some (Inl err)" "w' = w"
  | (cas) ord1 b q t where "ord1 = ord\<lparr>updated_at := t\<rparr>" "encode oc ord1 = Inr b"
      "svc_compare_and_swap_bytes B sc (storage_key_str Orders) oid e b
         (Some (order_storage_indexes ord1)) None w = (q, w')"
      "r = (case q of Inl e \<Rightarrow> Some (Inl (from_order_storage e))
         | Inr swapped \<Rightarrow> if swapped then Some (Inr ord1) else None)"
    using run by (fastforce simp: swap_order_def stamp_updated_at_ok split: sum.splits prod.splits)
  then show ?thesis
  proof cases
    case cas
    note c = svc_cas_call [OF cas(3), folded order_key_def]
    show ?thesis
    proof (cases "q = Inr True")
      case True
      then have "replaced_at live oc oid ord0 ord1 (w_store (resume sc w)) (w_store w')"
        using c(1,2) dec cas(2) unfolding replaced_at_def by blast
      then show ?thesis using cas(1,4) True by auto
    next
      case False
      then show ?thesis using c(3) cas(4) by (auto split: sum.splits)
    qed
  qed simp
qed

lemma swap_order_written:
  assumes "decode oc e = Inr ord0" "swap_order B oc sc oid e ord w = (Some (Inr ord1), w')"
  shows "\<exists>t. ord1 = ord\<lparr>updated_at := t\<rparr> \<and>
    replaced_at live oc oid ord0 ord1 (w_store (resume sc w)) (w_store w')"
  using swap_order_cases [OF assms] by auto

lemma swap_order_steps:
  assumes env: "fair_orders live oc sc" and dec: "decode oc e = Inr ord0"
    and mv: "edge\<^sup>=\<^sup>= (status_kind (status ord0)) (status_kind (status ord))"
    and run: "swap_order B oc sc oid e ord w = (r, w')"
  shows "(order_step live oc)\<^sup>*\<^sup>* (w_store w) (w_store w')"
proof -
  note res = fair_orders_resume [OF env, of w]
  from swap_order_cases [OF dec run] consider "w' = w"
    | "\<forall>t k. live t (w_store w') k = live t (w_store (resume sc w)) k"
    | ord1 t where "ord1 = ord\<lparr>updated_at := t\<rparr>"
        "replaced_at live oc oid ord0 ord1 (w_store (resume sc w)) (w_store w')" by blast
  then show ?thesis
  proof cases
    case 2
    then have "order_step live oc (w_store (resume sc w)) (w_store w')"
      by (simp add: order_step.elsewhere)
    then show ?thesis using res by simp
  next
    case 3
    then have "order_step live oc (w_store (resume sc w)) (w_store w')"
      using mv by (auto intro: replaced_at_step)
    then show ?thesis using res by simp
  qed simp
qed

lemma update_attempt_steps:
  assumes env: "fair_orders live oc sc" and upd: "\<And>ord. status (updater ord) = status ord"
    and run: "update_attempt B oc sc oid updater w = (r, w')"
  shows "(order_step live oc)\<^sup>*\<^sup>* (w_store w) (w_store w')"
proof -
  have swap: "(order_step live oc)\<^sup>*\<^sup>* (w_store w) (w_store w2)"
    if "decode oc e = Inr ord" "swap_order B oc sc oid e (updater ord) (resume sc w) = (q, w2)"
    for e ord q w2
    using swap_order_steps [OF env that(1) _ that(2)] fair_orders_resume [OF env, of w] upd
    by (auto intro: rtranclp_trans)
  show ?thesis
    using run swap fair_orders_resume [OF env, of w]
    by (auto simp: update_attempt_def decode_order_def split: sum.splits prod.splits
        dest!: retrieve_call)
qed

lemma update_loop_steps:
  assumes "fair_orders live oc sc" "\<And>ord. status (updater ord) = status ord"
  shows "update_loop n B oc sc oid updater w = (r, w') \<Longrightarrow>
    (order_step live oc)\<^sup>*\<^sup>* (w_store w) (w_store w')"
  by (induction n arbitrary: w)
    (auto split: prod.splits option.splits dest: update_attempt_steps [OF assms] intro: rtranclp_trans)

lemma release_reservations_steps:
  assumes "fair_orders live oc sc"
  shows "(order_step live oc)\<^sup>*\<^sup>* (w_store w) (w_store (release_reservations_of fv B rc sc ord w))"
  using release_compact_spares [OF order_step_spares] assms
  by (simp add: release_reservations_of_def fair_orders_def)

end

text \<open>
  What a transition call may report, relative to the stores it passed through: \<open>seen_at\<close> is the
  order under the key at one of them.
\<close>

definition seen_at ::
  "(nat \<Rightarrow> 's \<Rightarrow> string \<Rightarrow> 'b option) \<Rightarrow> (order, 'b) codec \<Rightarrow> string \<Rightarrow> order \<Rightarrow> 's \<Rightarrow> bool" where
  "seen_at live oc oid ord s \<longleftrightarrow>
     (\<exists>t b. live t s (order_key oid) = Some b \<and> decode oc b = Inr ord)"

fun explained ::
  "(nat \<Rightarrow> 's \<Rightarrow> string \<Rightarrow> 'b option) \<Rightarrow> (order, 'b) codec \<Rightarrow> string \<Rightarrow> order_status \<Rightarrow> (order \<Rightarrow> order)
   \<Rightarrow> 's \<Rightarrow> 's \<Rightarrow> (order_state_error, order_transition_outcome) result \<Rightarrow> bool" where
  "explained live oc oid new_status updater s s' (Inr (Applied ord)) =
     (\<exists>s1 s2 ord0 t. (order_step live oc)\<^sup>*\<^sup>* s s1 \<and> replaced_at live oc oid ord0 ord s1 s2 \<and>
        (order_step live oc)\<^sup>*\<^sup>* s2 s' \<and> edge (status_kind (status ord0)) (status_kind new_status) \<and>
        ord = (updater (ord0\<lparr>status := new_status\<rparr>))\<lparr>updated_at := t\<rparr>)"
| "explained live oc oid new_status updater s s' (Inr (AlreadyApplied ord)) =
     (\<exists>s1. (order_step live oc)\<^sup>*\<^sup>* s s1 \<and> (order_step live oc)\<^sup>*\<^sup>* s1 s' \<and> seen_at live oc oid ord s1 \<and>
        edge\<^sup>*\<^sup>* (status_kind new_status) (status_kind (status ord)))"
| "explained live oc oid new_status updater s s' (Inl (InvalidTransition a b)) =
     (\<exists>s1 ord. (order_step live oc)\<^sup>*\<^sup>* s s1 \<and> (order_step live oc)\<^sup>*\<^sup>* s1 s' \<and> seen_at live oc oid ord s1 \<and>
        a = status ord \<and> b = new_status \<and> \<not> edge\<^sup>*\<^sup>* (status_kind b) (status_kind a) \<and>
        \<not> edge (status_kind a) (status_kind b))"
| "explained live oc oid new_status updater s s' (Inl _) = (order_step live oc)\<^sup>*\<^sup>* s s'"

lemma explained_later:
  assumes "(order_step live oc)\<^sup>*\<^sup>* s0 s" "explained live oc oid new_status updater s s' r"
  shows "explained live oc oid new_status updater s0 s' r"
proof -
  have later: "(order_step live oc)\<^sup>*\<^sup>* s s1 \<Longrightarrow> (order_step live oc)\<^sup>*\<^sup>* s0 s1" for s1
    using assms(1) by (rule rtranclp_trans)
  show ?thesis
  proof (cases "\<exists>ord. r = Inr (Applied ord)")
    case True
    then obtain ord where r: "r = Inr (Applied ord)" by blast
    show ?thesis using assms(2) later unfolding r explained.simps by blast
  next
    case False
    then show ?thesis using assms(2) later
      by (cases "(live, oc, oid, new_status, updater, s, s', r)" rule: explained.cases) auto
  qed
qed

lemma explained_steps:
  assumes "explained live oc oid new_status updater s s' r" "\<And>ord. status (updater ord) = status ord"
  shows "(order_step live oc)\<^sup>*\<^sup>* s s'"
proof (cases "\<exists>ord. r = Inr (Applied ord)")
  case True
  then obtain s1 s2 ord0 ord where "(order_step live oc)\<^sup>*\<^sup>* s s1"
    and rep: "replaced_at live oc oid ord0 ord s1 s2" "edge (status_kind (status ord0)) (status_kind (status ord))"
    and "(order_step live oc)\<^sup>*\<^sup>* s2 s'"
    using assms by auto
  moreover have "order_step live oc s1 s2" using rep by (auto intro: replaced_at_step)
  ultimately show ?thesis by (meson rtranclp_trans r_into_rtranclp)
next
  case False
  then show ?thesis using assms(1)
    by (cases "(live, oc, oid, new_status, updater, s, s', r)" rule: explained.cases)
      (auto intro: rtranclp_trans)
qed

lemma swap_order_error:
  "swap_order B oc sc oid e ord w = (Some (Inl err), w') \<Longrightarrow> err \<noteq> InvalidTransition a b"
  by (auto simp: swap_order_def stamp_updated_at_def from_order_storage_def Let_def
      split: sum.splits prod.splits option.splits if_splits)

lemma explained_other:
  "(\<And>a b. err \<noteq> InvalidTransition a b) \<Longrightarrow> (order_step live oc)\<^sup>*\<^sup>* s s' \<Longrightarrow>
   explained live oc oid new_status updater s s' (Inl err)"
  by (cases err) auto

context storage_contract
begin

lemma swap_transition_explained:
  assumes env: "fair_orders live oc sc" and upd: "\<And>ord. status (updater ord) = status ord"
    and dec: "decode oc e = Inr ord" and ed: "edge (status_kind (status ord)) (status_kind new_status)"
    and run: "swap_order B oc sc oid e (updater (ord\<lparr>status := new_status\<rparr>)) (resume sc w) = (q, w2)"
  shows "q = None \<Longrightarrow> (order_step live oc)\<^sup>*\<^sup>* (w_store w) (w_store w2)"
    and "q = Some (Inl err) \<Longrightarrow> explained live oc oid new_status updater (w_store w) (w_store w2) (Inl err)"
    and "q = Some (Inr ord1) \<Longrightarrow> (order_step live oc)\<^sup>*\<^sup>* (w_store w2) s' \<Longrightarrow>
      explained live oc oid new_status updater (w_store w) s' (Inr (Applied ord1))"
proof -
  note res = fair_orders_resume [OF env]
  have steps: "(order_step live oc)\<^sup>*\<^sup>* (w_store w) (w_store w2)"
    using swap_order_steps [OF env dec _ run] ed upd res [of w] by (auto intro: rtranclp_trans)
  then show "q = None \<Longrightarrow> (order_step live oc)\<^sup>*\<^sup>* (w_store w) (w_store w2)" .
  show "explained live oc oid new_status updater (w_store w) (w_store w2) (Inl err)"
    if "q = Some (Inl err)"
    using run that by (intro explained_other steps) (auto dest: swap_order_error)
  show "explained live oc oid new_status updater (w_store w) s' (Inr (Applied ord1))"
    if "q = Some (Inr ord1)" "(order_step live oc)\<^sup>*\<^sup>* (w_store w2) s'"
  proof -
    from swap_order_written [OF dec run [unfolded that(1)]] obtain t
      where "ord1 = (updater (ord\<lparr>status := new_status\<rparr>))\<lparr>updated_at := t\<rparr>"
        "replaced_at live oc oid ord ord1 (w_store (resume sc (resume sc w))) (w_store w2)" by blast
    moreover have "(order_step live oc)\<^sup>*\<^sup>* (w_store w) (w_store (resume sc (resume sc w)))"
      using res [of w] res [of "resume sc w"] by simp
    ultimately show ?thesis using ed that(2) by fastforce
  qed
qed

lemma transition_attempt_explained:
  assumes env: "fair_orders live oc sc" and upd: "\<And>ord. status (updater ord) = status ord"
    and run: "transition_attempt fv B oc rc sc oid new_status updater w = (q, w')"
  shows "case q of None \<Rightarrow> (order_step live oc)\<^sup>*\<^sup>* (w_store w) (w_store w')
    | Some r \<Rightarrow> explained live oc oid new_status updater (w_store w) (w_store w') r"
proof -
  note res = fair_orders_resume [OF env]
  obtain r w1 where ret: "svc_retrieve_bytes B sc (storage_key_str Orders) oid w = (r, w1)" by fastforce
  have w1: "w1 = resume sc w" using retrieve_call [OF ret] .
  note body = run [unfolded transition_attempt_def Let_def ret prod.case]
  show ?thesis
  proof (cases "\<exists>e ord. r = Inr e \<and> decode oc e = Inr ord")
    case False
    then obtain m where "q = Some (Inl (OrderStorage m))" "w' = w1"
      using body by (auto simp: decode_order_def from_order_storage_def split: sum.splits)
    then show ?thesis using res [of w] by (simp add: w1)
  next
    case True
    then obtain e ord where e: "r = Inr e" and dec: "decode oc e = Inr ord" by blast
    note run2 = body [unfolded e sum.case decode_order_def dec, unfolded sum.case]
    have seen: "seen_at live oc oid ord (w_store w1)"
      using retrieve_call_live [OF ret [unfolded e]] dec by (auto simp: seen_at_def order_key_def)
    consider (already) "edge\<^sup>*\<^sup>* (status_kind new_status) (status_kind (status ord))"
      | (invalid) "\<not> edge\<^sup>*\<^sup>* (status_kind new_status) (status_kind (status ord))"
          "\<not> edge (status_kind (status ord)) (status_kind new_status)"
      | (swap) "\<not> edge\<^sup>*\<^sup>* (status_kind new_status) (status_kind (status ord))"
          "edge (status_kind (status ord)) (status_kind new_status)" by blast
    then show ?thesis
    proof cases
      case already
      then have "q = Some (Inr (AlreadyApplied ord))" "w' = w1"
        using run2 by (auto simp: is_at_or_past_reach split: if_splits)
      then show ?thesis using already seen res [of w] w1 by auto
    next
      case invalid
      then have "q = Some (Inl (InvalidTransition (status ord) new_status))" "w' = w1"
        using run2 by (auto simp: is_at_or_past_reach is_valid_transition_edge split: if_splits)
      then show ?thesis using invalid seen res [of w] w1 by auto
    next
      case swap
      then have neq: "status_kind (status ord) \<noteq> status_kind new_status" by auto
      obtain q2 w2 where sw: "swap_order B oc sc oid e (updater (ord\<lparr>status := new_status\<rparr>))
          (resume sc w) = (q2, w2)" by fastforce
      note expl = swap_transition_explained [OF env upd dec swap(2) sw]
      have "case q2 of None \<Rightarrow> q = None \<and> w' = w2 | Some (Inl err) \<Rightarrow> q = Some (Inl err) \<and> w' = w2
        | Some (Inr ord1) \<Rightarrow> q = Some (Inr (Applied ord1)) \<and>
            (w' = w2 \<or> w' = release_reservations_of fv B rc sc ord1 w2)"
        using run2 swap neq sw
        by (auto simp: is_at_or_past_reach is_valid_transition_edge w1
            split: option.splits sum.splits if_splits)
      then show ?thesis
        using expl release_reservations_steps [OF env, of w2 fv rc]
        by (auto split: option.splits sum.splits simp del: explained.simps)
    qed
  qed
qed

lemma transition_loop_explained:
  assumes "fair_orders live oc sc" "\<And>ord. status (updater ord) = status ord"
  shows "transition_loop n fv B oc rc sc oid new_status updater w = (r, w') \<Longrightarrow>
    explained live oc oid new_status updater (w_store w) (w_store w') r"
proof (induction n arbitrary: w)
  case (Suc n)
  obtain q w1 where att: "transition_attempt fv B oc rc sc oid new_status updater w = (q, w1)" by fastforce
  note expl = transition_attempt_explained [OF assms att]
  show ?case
  proof (cases q)
    case None
    then show ?thesis using expl Suc att by (auto intro: explained_later)
  next
    case (Some r1)
    then show ?thesis using expl Suc.prems att by auto
  qed
qed auto

end

section \<open>Undisturbed runs on the memory backend\<close>

lemma swap_order_undisturbed:
  assumes "encodes_all oc" and lv: "memory_live now (w_store w) (order_key oid) = Some b"
  shows "\<exists>b1 w1. encode oc (ord\<lparr>updated_at := now\<rparr>) = Inr b1 \<and>
    swap_order memory_backend oc (quiet (\<lambda>_. now)) oid b ord w = (Some (Inr (ord\<lparr>updated_at := now\<rparr>)), w1) \<and>
    writes_key memory_live (order_key oid) None now b1 (w_store w) (w_store w1)"
proof -
  let ?ord = "ord\<lparr>updated_at := now\<rparr>" and ?sc = "quiet (\<lambda>_. now) :: 'a memory_storage sched"
  obtain b1 where b1: "encode oc ?ord = Inr b1" using assms(1) unfolding encodes_all_def by blast
  obtain w1 where cas: "svc_compare_and_swap_bytes memory_backend ?sc (storage_key_str Orders) oid b b1
      (Some (order_storage_indexes ?ord)) None w = (Inr True, w1)"
    using memory_cas_match [OF lv, of b1 "Some (order_storage_indexes ?ord)" None]
    by (auto simp: svc_compare_and_swap_bytes_def call_write_def Let_def order_key_def)
  have "swap_order memory_backend oc ?sc oid b ord w = (Some (Inr ?ord), w1)"
    using cas b1 by (simp add: swap_order_def stamp_updated_at_def)
  moreover have "writes_key memory_live (order_key oid) None now b1 (w_store w) (w_store w1)"
    using mem.svc_cas_call(1) [OF cas refl] by (simp add: order_key_def)
  ultimately show ?thesis using b1 by blast
qed

lemma retrieve_undisturbed:
  assumes "memory_live now (w_store w) (order_key oid) = Some b"
  shows "svc_retrieve_bytes memory_backend (quiet (\<lambda>_. now)) (storage_key_str Orders) oid w =
    (Inr b, resume (quiet (\<lambda>_. now)) w)"
  using assms by (simp add: svc_retrieve_bytes_def call_read_def memory_get_cases order_key_def Let_def)

lemma ORDER_CAS_MAX_RETRIES_Suc: "ORDER_CAS_MAX_RETRIES = Suc 7"
  by (simp add: ORDER_CAS_MAX_RETRIES_def)

text \<open>The three outcomes, with the store each leaves.\<close>

lemma transition_undisturbed:
  fixes fv rc new_status updater
  assumes oc: "encodes_all oc" and lv: "memory_live now (w_store w) (order_key oid) = Some b"
    and dec: "decode oc b = Inr ord"
  defines "run \<equiv> try_transition_order_status fv memory_backend oc rc (quiet (\<lambda>_. now)) oid new_status updater w"
    and "ord1 \<equiv> (updater (ord\<lparr>status := new_status\<rparr>))\<lparr>updated_at := now\<rparr>"
  shows "edge\<^sup>*\<^sup>* (status_kind new_status) (status_kind (status ord)) \<Longrightarrow>
      fst run = Inr (AlreadyApplied ord) \<and> w_store (snd run) = w_store w"
    and "\<not> edge\<^sup>*\<^sup>* (status_kind new_status) (status_kind (status ord)) \<Longrightarrow>
      \<not> edge (status_kind (status ord)) (status_kind new_status) \<Longrightarrow>
      fst run = Inl (InvalidTransition (status ord) new_status) \<and> w_store (snd run) = w_store w"
    and "edge (status_kind (status ord)) (status_kind new_status) \<Longrightarrow>
      \<exists>b1 w1. fst run = Inr (Applied ord1) \<and> encode oc ord1 = Inr b1 \<and>
        writes_key memory_live (order_key oid) None now b1 (w_store w) (w_store w1) \<and>
        snd run = (if status ord1 = Finalized
                   then release_reservations_of fv memory_backend rc (quiet (\<lambda>_. now)) ord1 w1 else w1)"
proof -
  let ?sc = "quiet (\<lambda>_. now) :: 'a memory_storage sched"
  let ?att = "transition_attempt fv memory_backend oc rc ?sc oid new_status updater w"
  have run: "run = (case ?att of (Some r, w1) \<Rightarrow> (r, w1)
      | (None, w1) \<Rightarrow> transition_loop 7 fv memory_backend oc rc ?sc oid new_status updater w1)"
    unfolding run_def try_transition_order_status_def ORDER_CAS_MAX_RETRIES_Suc
    by (rule transition_loop.simps(2))
  note att = transition_attempt_def [of fv memory_backend oc rc ?sc oid new_status updater w,
      unfolded retrieve_undisturbed [OF lv] Let_def prod.case sum.case decode_order_def dec]
  note past = is_at_or_past_reach is_valid_transition_edge
  show "fst run = Inr (AlreadyApplied ord) \<and> w_store (snd run) = w_store w"
    if "edge\<^sup>*\<^sup>* (status_kind new_status) (status_kind (status ord))"
    using that by (simp add: run att past)
  show "fst run = Inl (InvalidTransition (status ord) new_status) \<and> w_store (snd run) = w_store w"
    if "\<not> edge\<^sup>*\<^sup>* (status_kind new_status) (status_kind (status ord))"
      "\<not> edge (status_kind (status ord)) (status_kind new_status)"
    using that by (auto simp: run att past)
  show "\<exists>b1 w1. fst run = Inr (Applied ord1) \<and> encode oc ord1 = Inr b1 \<and>
        writes_key memory_live (order_key oid) None now b1 (w_store w) (w_store w1) \<and>
        snd run = (if status ord1 = Finalized
                   then release_reservations_of fv memory_backend rc (quiet (\<lambda>_. now)) ord1 w1 else w1)"
    if ed: "edge (status_kind (status ord)) (status_kind new_status)"
  proof -
    have no: "\<not> edge\<^sup>*\<^sup>* (status_kind new_status) (status_kind (status ord))"
      using ed reach_progress edge_progress by fastforce
    then have neq: "status_kind (status ord) \<noteq> status_kind new_status" by auto
    from lv have "memory_live now (w_store (resume ?sc w)) (order_key oid) = Some b" by simp
    from swap_order_undisturbed [OF oc this, of "updater (ord\<lparr>status := new_status\<rparr>)"]
    obtain b1 w1 where sw: "encode oc ord1 = Inr b1"
      "swap_order memory_backend oc ?sc oid b (updater (ord\<lparr>status := new_status\<rparr>)) (resume ?sc w)
        = (Some (Inr ord1), w1)"
      "writes_key memory_live (order_key oid) None now b1 (w_store w) (w_store w1)"
      by (auto simp: ord1_def)
    then show ?thesis
      using ed no neq by (auto simp: run att past should_release_compact_reservations_def)
  qed
qed

lemma update_undisturbed:
  assumes oc: "encodes_all oc" and lv: "memory_live now (w_store w) (order_key oid) = Some b"
    and dec: "decode oc b = Inr ord"
  shows "\<exists>b1 w1. update_order_with memory_backend oc (quiet (\<lambda>_. now)) oid updater w =
      (Inr ((updater ord)\<lparr>updated_at := now\<rparr>), w1) \<and> encode oc ((updater ord)\<lparr>updated_at := now\<rparr>) = Inr b1 \<and>
    writes_key memory_live (order_key oid) None now b1 (w_store w) (w_store w1)"
proof -
  let ?sc = "quiet (\<lambda>_. now) :: 'a memory_storage sched"
  have "memory_live now (w_store (resume ?sc w)) (order_key oid) = Some b" using lv by simp
  from swap_order_undisturbed [OF oc this, of "updater ord"] obtain b1 w1
    where sw: "encode oc ((updater ord)\<lparr>updated_at := now\<rparr>) = Inr b1"
      "swap_order memory_backend oc ?sc oid b (updater ord) (resume ?sc w)
        = (Some (Inr ((updater ord)\<lparr>updated_at := now\<rparr>)), w1)"
      "writes_key memory_live (order_key oid) None now b1 (w_store w) (w_store w1)"
    by auto
  have "update_attempt memory_backend oc ?sc oid updater w =
      (Some (Inr ((updater ord)\<lparr>updated_at := now\<rparr>)), w1)"
    unfolding update_attempt_def retrieve_undisturbed [OF lv] using sw(2) dec by (simp add: decode_order_def)
  then show ?thesis using sw(1,3)
    unfolding update_order_with_def ORDER_CAS_MAX_RETRIES_Suc update_loop.simps(2) by simp
qed

text \<open>Releasing all the locks of an order.\<close>

lemma release_order_undisturbed:
  assumes c: "map_codec_ok c" "encodes_maps c"
  shows "readable c now (w_store w) \<Longrightarrow>
    release_order memory_backend c (quiet (\<lambda>_. now)) oid locks w = (r, w') \<Longrightarrow>
    others_kept c now oid (w_store w) (w_store w') \<and>
    (\<forall>ident. holdings c now (w_store w') ident oid =
       (if ident \<in> (\<lambda>(ch, ow, tk). lock_id ch ow tk) ` set locks then None
        else holdings c now (w_store w) ident oid))"
proof (induction locks arbitrary: w)
  case Nil
  then show ?case by (auto simp: others_kept_def)
next
  case (Cons l locks)
  obtain ch ow tk where l: "l = (ch, ow, tk)" by (cases l)
  obtain r1 w1 where one: "release_one memory_backend c (quiet (\<lambda>_. now)) oid ch ow tk w = (r1, w1)"
    by fastforce
  note eff = release_one_undisturbed [OF c Cons.prems(1) one]
  have "release_order memory_backend c (quiet (\<lambda>_. now)) oid locks w1 = (r, w')"
    using Cons.prems(2) one eff(1) by (simp add: l)
  from Cons.IH [OF eff(2) this] show ?case
    by (auto simp: l eff(3) others_kept_def)
qed

section \<open>Orders and their index entries\<close>

text \<open>
  Every row of the orders namespace decodes and is indexed under its own status.
\<close>

definition orders_indexed :: "(order, 'b) codec \<Rightarrow> 'b memory_storage \<Rightarrow> bool" where
  "orders_indexed oc m \<longleftrightarrow> rows_indexed (storage_key_str Orders) oc order_storage_indexes m"

lemmas orders_indexed_put = rows_indexed_put [where ns = "storage_key_str Orders" and ix = order_storage_indexes,
  folded orders_indexed_def order_key_def]

lemmas orders_indexed_cas = rows_indexed_cas [where ns = "storage_key_str Orders" and ix = order_storage_indexes,
  folded orders_indexed_def order_key_def]

lemma orders_indexed_lock_cas:
  assumes "orders_indexed oc m"
  shows "orders_indexed oc (snd (memory_compare_and_swap_with_indexes now m (lock_key ident) e b ix ttl))"
  using assms unfolding orders_indexed_def
  by (rule rows_indexed_elsewhere) (simp only: order_key_def [symmetric] order_key_not_lock not_False_eq_True)

definition keeps_indexed :: "(order, 'b) codec \<Rightarrow> 'b memory_storage sched \<Rightarrow> bool" where
  "keeps_indexed oc sc \<longleftrightarrow> (\<forall>n s. orders_indexed oc s \<longrightarrow> orders_indexed oc (interfere sc n s))"

lemma keeps_indexed_resume:
  "keeps_indexed oc sc \<Longrightarrow> orders_indexed oc (w_store w) \<Longrightarrow> orders_indexed oc (w_store (resume sc w))"
  by (simp add: keeps_indexed_def resume_def)

lemma swap_order_indexed:
  assumes "codec_ok oc" "keeps_indexed oc sc" "orders_indexed oc (w_store w)"
  shows "orders_indexed oc (w_store (snd (swap_order memory_backend oc sc oid e ord w)))"
proof (cases "stamp_updated_at (w_unix sc w) ord")
  case (Inr ord1)
  show ?thesis
  proof (cases "encode oc ord1")
    case (Inr b)
    have "orders_indexed oc (w_store (snd (svc_compare_and_swap_bytes memory_backend sc
        (storage_key_str Orders) oid e b (Some (order_storage_indexes ord1)) None w)))"
      unfolding svc_cas_store
      using orders_indexed_cas [OF assms(1) keeps_indexed_resume [OF assms(2,3)] Inr] by (simp add: order_key_def)
    then show ?thesis using \<open>stamp_updated_at _ _ = Inr ord1\<close> Inr
      by (auto simp: swap_order_def split: prod.splits sum.splits)
  qed (use Inr assms(3) in \<open>simp add: swap_order_def\<close>)
qed (use assms(3) in \<open>simp add: swap_order_def\<close>)

lemma release_attempt_indexed:
  assumes "keeps_indexed oc sc" "orders_indexed oc (w_store w)"
  shows "orders_indexed oc (w_store (snd (release_attempt memory_backend rc sc oid ident w)))"
proof -
  note r1 = keeps_indexed_resume [OF assms] and r2 = keeps_indexed_resume [OF assms(1)]
  have "orders_indexed oc (w_store (snd (svc_compare_and_swap_bytes memory_backend sc
      reservations_namespace ident e b None ttl (resume sc w))))" for e b ttl
    unfolding svc_cas_store using orders_indexed_lock_cas [OF r2 [OF r1]] by (simp add: lock_key_def)
  then have cas: "orders_indexed oc (w_store w2)"
    if "svc_compare_and_swap_bytes memory_backend sc reservations_namespace ident e b None ttl
      (resume sc w) = (q, w2)" for e b ttl q w2
    using that by (metis snd_conv)
  show ?thesis using assms(2) r1 cas
    by (auto simp: release_attempt_def Let_def dest!: mem.retrieve_call
        split: sum.splits if_splits prod.splits bool.splits storage_error.splits)
qed

lemma release_loop_indexed:
  assumes "keeps_indexed oc sc"
  shows "orders_indexed oc (w_store w) \<Longrightarrow>
    orders_indexed oc (w_store (snd (release_loop n memory_backend rc sc oid ident w)))"
proof (induction n arbitrary: w)
  case (Suc n)
  then show ?case using release_attempt_indexed [OF assms Suc.prems, of rc oid ident]
    by (auto split: prod.splits option.splits)
qed simp

lemma release_order_indexed:
  assumes "keeps_indexed oc sc"
  shows "orders_indexed oc (w_store w) \<Longrightarrow>
    orders_indexed oc (w_store (snd (release_order memory_backend rc sc oid locks w)))"
proof (induction locks arbitrary: w)
  case (Cons l locks)
  obtain ch ow tk where l: "l = (ch, ow, tk)" by (cases l)
  have "orders_indexed oc (w_store (snd (release_one memory_backend rc sc oid ch ow tk w)))"
    using release_loop_indexed [OF assms Cons.prems] by (simp add: release_one_def)
  then show ?case using Cons.IH by (auto simp: l split: prod.splits sum.splits)
qed simp

lemma release_reservations_indexed:
  assumes "keeps_indexed oc sc" "orders_indexed oc (w_store w)"
  shows "orders_indexed oc (w_store (release_reservations_of fv memory_backend rc sc ord w))"
  using release_order_indexed [OF assms] assms(2)
  by (simp add: release_reservations_of_def release_compact_reservations_def split: sum.splits option.splits)

lemma update_loop_indexed:
  assumes "codec_ok oc" "keeps_indexed oc sc"
  shows "orders_indexed oc (w_store w) \<Longrightarrow>
    orders_indexed oc (w_store (snd (update_loop n memory_backend oc sc oid updater w)))"
proof (induction n arbitrary: w)
  case (Suc n)
  have "orders_indexed oc (w_store (snd (update_attempt memory_backend oc sc oid updater w)))"
    using keeps_indexed_resume [OF assms(2) Suc.prems]
      swap_order_indexed [OF assms keeps_indexed_resume [OF assms(2) Suc.prems]]
    by (auto simp: update_attempt_def dest!: mem.retrieve_call split: prod.splits sum.splits)
  then show ?case using Suc.IH by (auto split: prod.splits option.splits)
qed simp

lemma transition_loop_indexed:
  assumes "codec_ok oc" "keeps_indexed oc sc"
  shows "orders_indexed oc (w_store w) \<Longrightarrow>
    orders_indexed oc (w_store (snd (transition_loop n fv memory_backend oc rc sc oid new_status updater w)))"
proof (induction n arbitrary: w)
  case (Suc n)
  note r1 = keeps_indexed_resume [OF assms(2) Suc.prems]
  have sw: "orders_indexed oc (w_store w2)"
    if "swap_order memory_backend oc sc oid e ord (resume sc w) = (q, w2)" for e ord q w2
    using swap_order_indexed [OF assms r1, of oid e ord] that by simp
  have "orders_indexed oc (w_store (snd (transition_attempt fv memory_backend oc rc sc oid new_status updater w)))"
    using r1 sw release_reservations_indexed [OF assms(2) sw]
    by (auto simp: transition_attempt_def dest!: mem.retrieve_call
        split: prod.splits sum.splits option.splits)
  then show ?case using Suc.IH by (auto split: prod.splits option.splits)
qed simp

lemma store_order_indexed:
  assumes "codec_ok oc" "keeps_indexed oc sc" "orders_indexed oc (w_store w)"
  shows "orders_indexed oc (w_store (snd (store_order memory_backend oc sc ord w)))"
proof (cases "encode oc ord")
  case (Inr b)
  note r1 = keeps_indexed_resume [OF assms(2,3)]
  have ok: "memory_ok (w_store (resume sc w))" using r1 by (simp add: orders_indexed_def rows_indexed_ok)
  show ?thesis
    using orders_indexed_put [OF assms(1) r1 Inr memory_ok_put [OF ok] table_put [OF ok]] Inr
    by (simp add: store_order_def svc_defs Let_def memory_set_bytes_def order_key_def)
qed (use assms(3) in \<open>simp add: store_order_def svc_defs\<close>)

section \<open>Properties\<close>

text \<open>
  C36: The stack search of \<^verbatim>\<open>is_at_or_past\<close> decides reachability in the transition table: the
  current status counts as at or past the target exactly when a path of allowed transitions
  leads from the target's kind to the current one.  The table has no cycles, so two different
  kinds are never each at or past the other.
\<close>

theorem at_or_past_is_reachability:
  "(is_at_or_past current target \<longleftrightarrow> edge\<^sup>*\<^sup>* (status_kind target) (status_kind current)) \<and>
   (is_at_or_past current target \<and> is_at_or_past target current \<longleftrightarrow>
      status_kind current = status_kind target)"
  using reach_antisym by (auto simp: is_at_or_past_reach)

text \<open>
  C1: Whatever other tasks write between the storage calls of an order operation, as long as
  they too only move orders along the transition table, every order in the store is still
  there after the operation, under a status reachable from its old one; an order that was
  finalized or failed keeps its status kind.  This holds for status transitions, for recording
  transaction hashes, execution parameters and fill proofs, and for the release of reservations.
\<close>

theorem order_status_only_advances:
  assumes "codec_ok oc" and "fair_orders memory_live oc sc"
    and "\<And>ord. status (updater ord) = status ord"
    and "holds_order memory_live oc (w_store w) oid ord"
    and "s' = w_store (snd (try_transition_order_status fv memory_backend oc rc sc i new_status updater w)) \<or>
      s' = w_store (snd (set_transaction_hash memory_backend oc sc i h ty w)) \<or>
      s' = w_store (snd (set_execution_params memory_backend oc sc i params w)) \<or>
      s' = w_store (snd (set_fill_proof memory_backend oc sc i prf w)) \<or>
      s' = w_store (release_reservations_of fv memory_backend rc sc ord2 w)"
  shows "\<exists>ord'. holds_order memory_live oc s' oid ord' \<and>
    edge\<^sup>*\<^sup>* (status_kind (status ord)) (status_kind (status ord')) \<and>
    (is_terminal (status ord) \<longrightarrow> status_kind (status ord') = status_kind (status ord))"
proof -
  have hash: "status (record_transaction_hash ty h ord) = status ord" for ord by (cases ty) simp_all
  have trans: "(order_step memory_live oc)\<^sup>*\<^sup>* (w_store w)
      (w_store (snd (try_transition_order_status fv memory_backend oc rc sc i new_status updater w)))"
    using mem.transition_loop_explained [OF assms(2,3) surjective_pairing]
    unfolding try_transition_order_status_def by (rule explained_steps) (rule assms(3))
  have upd: "(order_step memory_live oc)\<^sup>*\<^sup>* (w_store w)
      (w_store (snd (update_order_with memory_backend oc sc i f w)))"
    if "\<And>ord. status (f ord) = status ord" for f
    unfolding update_order_with_def by (rule mem.update_loop_steps [OF assms(2) that surjective_pairing])
  have "(order_step memory_live oc)\<^sup>*\<^sup>* (w_store w) s'"
    using assms(5) trans upd mem.release_reservations_steps [OF assms(2)] hash
    by (auto simp: set_transaction_hash_def set_execution_params_def set_fill_proof_def)
  from order_steps_move [OF assms(1) this assms(4)] show ?thesis
    by (auto dest: reach_from_terminal)
qed

text \<open>
  The instances below store orders and reservation maps as they are, side by side.
\<close>

type_synonym stored = "order + lock_reservations"

definition order_codec :: "(order, stored) codec" where
  "order_codec = \<lparr>encode = (\<lambda>ord. Inr (Inl ord)),
     decode = (\<lambda>b. case b of Inl ord \<Rightarrow> Inr ord | Inr _ \<Rightarrow> Inl ''not an order'')\<rparr>"

definition resv_codec :: "(lock_reservations, stored) codec" where
  "resv_codec = \<lparr>encode = (\<lambda>m. if bt_ok m then Inr (Inr m) else Inl ''unordered''),
     decode = (\<lambda>b. case b of Inl _ \<Rightarrow> Inl ''not a map''
       | Inr m \<Rightarrow> if bt_ok m then Inr m else Inl ''unordered'')\<rparr>"

lemma stored_codecs_ok [simp]:
  "codec_ok order_codec" "encodes_all order_codec" "map_codec_ok resv_codec" "encodes_maps resv_codec"
  by (auto simp: codec_ok_def encodes_all_def map_codec_ok_def encodes_maps_def order_codec_def
      resv_codec_def split: sum.splits if_splits)

lemma quiet_fair_orders [simp]: "fair_orders live oc (quiet cl)"
  by (simp add: fair_orders_def)

definition sample_order :: "order_status \<Rightarrow> order" where
  "sample_order st = \<lparr>order_id = ''o1'', standard = ''eip7683'', created_at = 1, updated_at = 1,
     status = st, data = JNull, solver_address = [], quote_id = None, input_chains = [],
     output_chains = [], order_execution_params = None, prepare_tx_hash = None, fill_tx_hash = None,
     fill_tx_hashes = [], expected_fill_tx_count = None, post_fill_tx_hash = None,
     pre_claim_tx_hash = None, claim_tx_hash = None, claim_tx_hashes = [],
     expected_claim_tx_count = None, order_fill_proof = None, settlement_name = None\<rparr>"

definition order_world :: "order_status \<Rightarrow> stored memory_storage world" where
  "order_world st = \<lparr>w_store = put_entry 0 memory_new (order_key ''o1'') (Inl (sample_order st))
     (Some (order_storage_indexes (sample_order st))) None, w_tick = 0\<rparr>"

lemma order_world_live:
  "memory_live t (w_store (order_world st)) k =
     (if k = order_key ''o1'' then Some (Inl (sample_order st)) else None)"
  by (simp add: order_world_def memory_live_put until_ttl_def)

lemma order_world_holds: "holds_order memory_live order_codec (w_store (order_world st)) ''o1'' (sample_order st)"
  by (simp add: holds_order_def order_world_live order_codec_def)

theorem order_status_only_advances_witness:
  "\<exists>ord'. holds_order memory_live order_codec (w_store (snd (try_transition_order_status (\<lambda>_. Inl [])
      memory_backend order_codec resv_codec (quiet (\<lambda>_. 5)) ''o1'' Executed (\<lambda>ord. ord)
      (order_world (Failed Fill ''reverted''))))) ''o1'' ord' \<and> status_kind (status ord') = KFailed"
proof -
  have "is_terminal (status (sample_order (Failed Fill ''reverted'')))"
    by (simp add: sample_order_def is_terminal_def)
  moreover have "status_kind (status (sample_order (Failed Fill ''reverted''))) = KFailed"
    by (simp add: sample_order_def)
  ultimately show ?thesis
    using order_status_only_advances [OF stored_codecs_ok(1) quiet_fair_orders refl order_world_holds
        disjI1 [OF refl]] by metis
qed

text \<open>
  Every answer of \<^verbatim>\<open>try_transition_order_status\<close> is justified by a store the call passed
  through, under any legal interleaving.  \<open>Applied\<close>: at one point the key held an order whose
  status has an edge to the new status, and exactly that order, with the new status, the
  caller's update and a new timestamp, replaced it; no update of another task is lost.
  \<open>AlreadyApplied\<close>: at one point the stored order was the one returned and its status was at or
  past the new one.  \<open>InvalidTransition\<close>: at one point the stored status was neither past the new
  one nor one edge before it.
\<close>

theorem transition_answers_justified:
  assumes "fair_orders memory_live oc sc" and "\<And>ord. status (updater ord) = status ord"
    and "try_transition_order_status fv memory_backend oc rc sc oid new_status updater w = (r, w')"
  shows "explained memory_live oc oid new_status updater (w_store w) (w_store w') r"
  using mem.transition_loop_explained [OF assms(1,2)] assms(3)
  unfolding try_transition_order_status_def by blast

theorem transition_answers_justified_witness:
  "\<exists>r w'. try_transition_order_status (\<lambda>_. Inl []) memory_backend order_codec resv_codec (quiet (\<lambda>_. 5))
      ''o1'' Settled (\<lambda>ord. ord) (order_world Executed) = (r, w') \<and>
    explained memory_live order_codec ''o1'' Settled (\<lambda>ord. ord) (w_store (order_world Executed)) (w_store w') r"
proof -
  obtain r w' where run: "try_transition_order_status (\<lambda>_. Inl []) memory_backend order_codec resv_codec
      (quiet (\<lambda>_. 5)) ''o1'' Settled (\<lambda>ord. ord) (order_world Executed) = (r, w')" by fastforce
  from transition_answers_justified [OF quiet_fair_orders _ run] run show ?thesis by blast
qed

lemma transition_outcome:
  assumes "codec_ok oc" "encodes_all oc" and "memory_live now (w_store w) (order_key oid) = Some b"
    and "decode oc b = Inr ord"
    and "try_transition_order_status fv memory_backend oc rc (quiet (\<lambda>_. now)) oid new_status updater w = (r, w')"
    and "ord1 = (updater (ord\<lparr>status := new_status\<rparr>))\<lparr>updated_at := now\<rparr>"
  shows "r = (if edge\<^sup>*\<^sup>* (status_kind new_status) (status_kind (status ord)) then Inr (AlreadyApplied ord)
      else if edge (status_kind (status ord)) (status_kind new_status) then Inr (Applied ord1)
      else Inl (InvalidTransition (status ord) new_status)) \<and>
    (if r = Inr (Applied ord1)
     then holds_order memory_live oc (w_store w') oid ord1 \<and>
       (\<forall>i t. i \<noteq> oid \<longrightarrow> memory_live t (w_store w') (order_key i) = memory_live t (w_store w) (order_key i))
     else w_store w' = w_store w)"
proof -
  note out = transition_undisturbed [OF assms(2-4), of new_status fv rc updater, unfolded assms(5), folded assms(6)]
  show ?thesis
  proof (cases "edge (status_kind (status ord)) (status_kind new_status)")
    case False
    then show ?thesis using out(1,2) by (cases "edge\<^sup>*\<^sup>* (status_kind new_status) (status_kind (status ord))") auto
  next
    case True
    then have no: "\<not> edge\<^sup>*\<^sup>* (status_kind new_status) (status_kind (status ord))"
      using reach_progress edge_progress by fastforce
    from out(3) [OF True] obtain b1 w1 where r: "r = Inr (Applied ord1)" and b1: "encode oc ord1 = Inr b1"
      and wr: "writes_key memory_live (order_key oid) None now b1 (w_store w) (w_store w1)"
      and w': "w' = w1 \<or> w' = release_reservations_of fv memory_backend rc (quiet (\<lambda>_. now)) ord1 w1"
      by (auto split: if_splits)
    define R where "R s s' \<longleftrightarrow> (\<forall>t k. (\<forall>ident. k \<noteq> lock_key ident) \<longrightarrow> memory_live t s' k = memory_live t s k)"
      for s s' :: "'a memory_storage"
    have "spares memory_live R" by (simp add: spares_def R_def)
    then have "R\<^sup>*\<^sup>* (w_store w1) (w_store w')"
      using w' mem.release_compact_spares [where R = R] by (auto simp: release_reservations_of_def)
    then have same: "memory_live t (w_store w') (order_key i) = memory_live t (w_store w1) (order_key i)" for t i
      by (induction rule: rtranclp_induct) (auto simp: R_def)
    then show ?thesis using r no True wr codec_okD [OF assms(1) b1]
      by (auto simp: holds_order_def writes_key_def until_ttl_def)
  qed
qed

text \<open>
  The outcome of a transition that no other task disturbs is a function of the stored
  order: a no-op when the status is already at or past the target, \<open>Applied\<close> with exactly the
  new status, the update and the time when the table has the edge, and \<open>InvalidTransition\<close> in
  every other case.  In the first and the last case the store is untouched; in the second the
  key holds the returned order and no other order key changed.
\<close>

theorem undisturbed_transition_outcome:
  assumes "codec_ok oc" "encodes_all oc" and "memory_live now (w_store w) (order_key oid) = Some b"
    and "decode oc b = Inr ord"
    and "try_transition_order_status fv memory_backend oc rc (quiet (\<lambda>_. now)) oid new_status updater w = (r, w')"
    and "ord1 = (updater (ord\<lparr>status := new_status\<rparr>))\<lparr>updated_at := now\<rparr>"
  shows "r = (if edge\<^sup>*\<^sup>* (status_kind new_status) (status_kind (status ord)) then Inr (AlreadyApplied ord)
      else if edge (status_kind (status ord)) (status_kind new_status) then Inr (Applied ord1)
      else Inl (InvalidTransition (status ord) new_status)) \<and>
    (if r = Inr (Applied ord1)
     then holds_order memory_live oc (w_store w') oid ord1 \<and>
       (\<forall>i t. i \<noteq> oid \<longrightarrow> memory_live t (w_store w') (order_key i) = memory_live t (w_store w) (order_key i))
     else w_store w' = w_store w)"
  by (rule transition_outcome [OF assms])

theorem undisturbed_transition_outcome_witness:
  "\<exists>w'. try_transition_order_status (\<lambda>_. Inl []) memory_backend order_codec resv_codec (quiet (\<lambda>_. 5))
      ''o1'' PostFilled (\<lambda>ord. ord) (order_world Executed) =
     (Inr (Applied ((sample_order PostFilled)\<lparr>updated_at := 5\<rparr>)), w')"
proof -
  obtain r w' where run: "try_transition_order_status (\<lambda>_. Inl []) memory_backend order_codec resv_codec
      (quiet (\<lambda>_. 5)) ''o1'' PostFilled (\<lambda>ord. ord) (order_world Executed) = (r, w')" by fastforce
  have no: "\<not> edge\<^sup>*\<^sup>* KPostFilled KExecuted" using reach_progress [of KPostFilled KExecuted] by auto
  have "decode order_codec (Inl (sample_order Executed)) = Inr (sample_order Executed)"
    by (simp add: order_codec_def)
  from undisturbed_transition_outcome [OF stored_codecs_ok(1,2) _ this run refl] no
  have "r = Inr (Applied ((sample_order PostFilled)\<lparr>updated_at := 5\<rparr>))"
    by (simp add: order_world_live sample_order_def edge_def)
  with run show ?thesis by blast
qed

lemma status_index_query:
  assumes ix: "orders_indexed oc m"
    and fld: "\<And>ord. v \<in> fields_of (Some (order_storage_indexes ord)) fld \<longleftrightarrow> P ord"
  shows "\<exists>keys. memory_query now m (storage_key_str Orders) (Equals fld v) = Inr keys \<and>
    set keys = {order_key oid | oid b ord. memory_live now m (order_key oid) = Some b \<and>
      decode oc b = Inr ord \<and> P ord}"
  using rows_indexed_query [OF ix [unfolded orders_indexed_def] storage_key_no_colon, of now fld v]
  by (fastforce simp: stored_item_def fld order_key_def)

lemma order_index_fields:
  "JString k \<in> fields_of (Some (order_storage_indexes ord)) ''status_kind'' \<longleftrightarrow>
     status_kind_index_value (status ord) = k"
  "JBool v \<in> fields_of (Some (order_storage_indexes ord)) ''is_terminal'' \<longleftrightarrow> is_terminal (status ord) = v"
  by (auto simp: fields_of_def order_storage_indexes_def with_field_def)

text \<open>
  On the memory backend the orders' index entries always agree with their stored status:
  every operation of the state machine keeps that, under interleavings that keep it, and while
  it holds a query by \<^verbatim>\<open>status_kind\<close> or by \<^verbatim>\<open>is_terminal\<close> returns exactly the keys of the stored
  orders with that status kind or terminality.
\<close>

theorem orders_found_by_status:
  assumes "codec_ok oc" and "keeps_indexed oc sc" and "orders_indexed oc (w_store w)"
  shows "orders_indexed oc (w_store (snd (store_order memory_backend oc sc ord w))) \<and>
    orders_indexed oc (w_store (snd (update_order_with memory_backend oc sc oid updater w))) \<and>
    orders_indexed oc (w_store (snd (try_transition_order_status fv memory_backend oc rc sc oid new_status updater w))) \<and>
    (\<exists>keys. memory_query now (w_store w) (storage_key_str Orders)
        (Equals ''status_kind'' (JString (status_kind_index_value st))) = Inr keys \<and>
      set keys = {order_key i | i b ord. memory_live now (w_store w) (order_key i) = Some b \<and>
        decode oc b = Inr ord \<and> status_kind_index_value (status ord) = status_kind_index_value st}) \<and>
    (\<exists>keys. memory_query now (w_store w) (storage_key_str Orders) (Equals ''is_terminal'' (JBool v)) = Inr keys \<and>
      set keys = {order_key i | i b ord. memory_live now (w_store w) (order_key i) = Some b \<and>
        decode oc b = Inr ord \<and> is_terminal (status ord) = v})"
  using store_order_indexed [OF assms] update_loop_indexed [OF assms]
    transition_loop_indexed [OF assms] status_index_query [OF assms(3) order_index_fields(1)]
    status_index_query [OF assms(3) order_index_fields(2)]
  by (simp only: update_order_with_def try_transition_order_status_def simp_thms)

lemma orders_indexed_new: "orders_indexed oc memory_new"
  by (simp add: orders_indexed_def rows_indexed_def memory_table_def memory_new_def memory_ok_def index_distinct_def index_placed_def indexed_keys_def)

lemma order_world_indexed: "orders_indexed order_codec (w_store (order_world st))"
proof -
  have "memory_ok memory_new" using orders_indexed_new by (simp add: orders_indexed_def rows_indexed_ok)
  then show ?thesis
    by (intro orders_indexed_put [OF stored_codecs_ok(1) orders_indexed_new, of "sample_order st" "Inl (sample_order st)"])
      (auto simp: order_codec_def order_world_def memory_ok_put table_put)
qed

theorem orders_found_by_status_witness:
  "\<exists>keys. memory_query 3 (w_store (order_world Pending)) (storage_key_str Orders)
      (Equals ''is_terminal'' (JBool False)) = Inr keys \<and> set keys = {order_key ''o1''}"
proof -
  have "keeps_indexed order_codec (quiet (\<lambda>_. 3))" by (simp add: keeps_indexed_def)
  from orders_found_by_status [where now = 3 and v = False,
      OF stored_codecs_ok(1) this order_world_indexed [of Pending], THEN conjunct2, THEN conjunct2,
      THEN conjunct2, THEN conjunct2]
  obtain keys where "memory_query 3 (w_store (order_world Pending)) (storage_key_str Orders)
      (Equals ''is_terminal'' (JBool False)) = Inr keys"
    and "set keys = {order_key i | i b ord. memory_live 3 (w_store (order_world Pending)) (order_key i) = Some b \<and>
        decode order_codec b = Inr ord \<and> is_terminal (status ord) = False}" by blast
  then show ?thesis by (auto simp: order_world_live order_codec_def sample_order_def is_terminal_def)
qed

text \<open>
  Moving a resource-lock order to \<open>Finalized\<close> releases its reservation on every lock of the
  order and on no lock of another order; moving it anywhere else, to any failure in particular,
  leaves every reservation as it was.
\<close>

theorem only_finalizing_releases:
  assumes "map_codec_ok rc" "encodes_maps rc" "encodes_all oc"
    and "readable rc now (w_store w)"
    and "memory_live now (w_store w) (order_key oid) = Some b" "decode oc b = Inr ord"
    and "order_id ord = oid" "standard ord = ''eip7683''"
    and "fv (data ord) = Inr od" "compact_lock_keys od = Inr (Some locks)"
    and "edge (status_kind (status ord)) (status_kind new_status)"
    and "transition_order_status fv memory_backend oc rc (quiet (\<lambda>_. now)) oid new_status w = (r, w')"
  shows "if new_status = Finalized
    then others_kept rc now oid (w_store w) (w_store w') \<and>
      (\<forall>ident. holdings rc now (w_store w') ident oid =
         (if ident \<in> (\<lambda>(ch, ow, tk). lock_id ch ow tk) ` set locks then None
          else holdings rc now (w_store w) ident oid))
    else holdings rc now (w_store w') = holdings rc now (w_store w)"
proof -
  let ?ord1 = "ord\<lparr>status := new_status, updated_at := now\<rparr>"
  from transition_undisturbed(3) [OF assms(3,5,6,11), of fv rc "\<lambda>ord. ord"] assms(12) obtain b1 w1
    where wr: "writes_key memory_live (order_key oid) None now b1 (w_store w) (w_store w1)"
      and w': "w' = (if new_status = Finalized
        then release_reservations_of fv memory_backend rc (quiet (\<lambda>_. now)) ?ord1 w1 else w1)"
    by (auto simp: transition_order_status_def split: prod.splits sum.splits)
  have "memory_live t (w_store w1) (lock_key ident) = memory_live t (w_store w) (lock_key ident)" for t ident
    using wr by (simp add: writes_key_def)
  then have lm: "lock_map rc now (w_store w1) = lock_map rc now (w_store w)"
    by (simp add: lock_map_def fun_eq_iff)
  then have h: "holdings rc now (w_store w1) = holdings rc now (w_store w)" and rd: "readable rc now (w_store w1)"
    using assms(4) by (simp_all add: holdings_def readable_def fun_eq_iff)
  have "release_reservations_of fv memory_backend rc (quiet (\<lambda>_. now)) ?ord1 w1 =
      snd (release_order memory_backend rc (quiet (\<lambda>_. now)) oid locks w1)"
    using assms(7-10) by (simp add: release_reservations_of_def release_compact_reservations_def)
  with w' have w': "w' = (if new_status = Finalized
      then snd (release_order memory_backend rc (quiet (\<lambda>_. now)) oid locks w1) else w1)" by (simp only:)
  show ?thesis
    using h release_order_undisturbed [OF assms(1,2) rd surjective_pairing, of oid locks]
    by (simp add: w' others_kept_def)
qed

theorem only_finalizing_releases_witness:
  "\<exists>r w'. transition_order_status (\<lambda>_. Inr sample_order_data) memory_backend order_codec resv_codec
      (quiet (\<lambda>_. 5)) ''o1'' (Failed Fill ''late'') (order_world Executing) = (r, w') \<and>
    holdings resv_codec 5 (w_store w') = holdings resv_codec 5 (w_store (order_world Executing))"
proof -
  obtain r w' where run: "transition_order_status (\<lambda>_. Inr sample_order_data) memory_backend order_codec
      resv_codec (quiet (\<lambda>_. 5)) ''o1'' (Failed Fill ''late'') (order_world Executing) = (r, w')" by fastforce
  have rd: "readable resv_codec 5 (w_store (order_world Executing))"
    by (simp add: readable_def lock_map_def order_world_live)
  obtain locks where locks: "compact_lock_keys sample_order_data = Inr (Some locks)"
    by (simp add: compact_lock_keys_def sample_order_data_def u64_try_from_def)
  have "decode order_codec (Inl (sample_order Executing)) = Inr (sample_order Executing)"
    by (simp add: order_codec_def)
  from only_finalizing_releases [OF stored_codecs_ok(3,4,2) rd _ this _ _ _ locks _ run]
  have "holdings resv_codec 5 (w_store w') = holdings resv_codec 5 (w_store (order_world Executing))"
    by (simp add: order_world_live sample_order_def edge_def)
  with run show ?thesis by blast
qed

end
