(* ===== verification/Bump_Service.thy ===== *)
theory Bump_Service
  imports Complex_Main Bump_Lineage Bump_Config Attempt_Store Order_State
begin

text \<open>
  \<^verbatim>\<open>crates/solver-core/src/bump/service.rs\<close>: the sweeper that replaces stuck transactions by the same
  transaction with higher fees.  One tick reconciles lineages that already have a confirmed
  member and then decides, per lineage, whether to submit a replacement.  What the decision reads
  from the chain, the price service and the order and quote stores is a record \<open>bump_reads\<close>; the
  decision is a function of it that returns the events published and the action, and the action
  is then carried out on the ledger.  Decimal amounts are rational numbers.
\<close>

section \<open>What a decision reads\<close>

record cost_breakdown =
  cb_gas_open :: rat
  cb_gas_fill :: rat
  cb_gas_post_fill :: rat
  cb_gas_pre_claim :: rat
  cb_gas_claim :: rat
  cb_gas_buffer :: rat
  cb_min_profit :: rat
  cb_currency :: string

record bump_reads =
  rd_now :: nat
  rd_deadline_order :: "(string, order) result"
  rd_order :: "(string, order) result"
  rd_deadlines :: "order \<Rightarrow> (nat option \<times> nat option) option"
  rd_submission_signer :: "bytes option"
  rd_quote :: "string \<Rightarrow> (string, cost_breakdown) result"
  rd_wei_to_currency :: "string \<Rightarrow> string \<Rightarrow> (string, string) result"
  rd_decimal :: "string \<Rightarrow> (string, rat) result"
  rd_show_decimal :: "rat \<Rightarrow> string"
  rd_balance :: "(delivery_error, string) result"
  rd_parse_u256 :: "string \<Rightarrow> (string, nat) result"
  rd_receipt :: "bytes \<Rightarrow> (delivery_error, transaction_receipt) result"

text \<open>The order is read twice, for its deadline and for its profitability.  \<open>rd_deadlines\<close> is the parsed order's fill deadline and expiry, \<open>None\<close> when it does not parse.\<close>

definition deadline_for_stage :: "bump_reads \<Rightarrow> transaction_type \<Rightarrow> nat option" where
  "deadline_for_stage rd ty =
     (case rd_deadline_order rd of
        Inl _ \<Rightarrow> None
      | Inr ord \<Rightarrow>
          (case rd_deadlines rd ord of
             None \<Rightarrow> None
           | Some (fill_deadline, expires) \<Rightarrow>
               (case ty of Fill \<Rightarrow> fill_deadline | Claim \<Rightarrow> expires | _ \<Rightarrow> None)))"

text \<open>What identifies the lineage in events: the order or scope id, the chain and the stage.\<close>

record bump_ctx =
  bc_ident :: string
  bc_chain :: nat
  bc_type :: transaction_type
  bc_order_scoped :: bool

section \<open>The guards\<close>

definition eligible_tip ::
  "effective_policy \<Rightarrow> nat \<Rightarrow> transaction_attempt list \<Rightarrow> (transaction_attempt \<times> evm_transaction) option" where
  "eligible_tip pol now members =
     (case lineage_tip members of
        None \<Rightarrow> None
      | Some tip \<Rightarrow>
          if at_status tip \<noteq> Broadcast \<and> at_status tip \<noteq> Indeterminate then None
          else (case as_evm (at_tx tip) of
                  None \<Rightarrow> None
                | Some tx \<Rightarrow>
                    if now - at_updated_at tip < pol_pending_threshold_secs pol then None
                    else Some (tip, tx)))"

definition deadline_guard :: "bump_ctx \<Rightarrow> bump_reads \<Rightarrow> transaction_attempt \<Rightarrow> delivery_event option" where
  "deadline_guard cx rd tip =
     (if bc_order_scoped cx \<and> (bc_type cx = Fill \<or> bc_type cx = Claim)
      then (case deadline_for_stage rd (bc_type cx) of
              None \<Rightarrow> None
            | Some deadline \<Rightarrow>
                if rd_now rd \<ge> deadline
                then Some (BumpDeadlineExpired (bc_ident cx) (at_id tip) (bc_chain cx) (bc_type cx)
                             (rd_now rd) deadline)
                else None)
      else None)"

definition signer_guard :: "bump_ctx \<Rightarrow> bump_reads \<Rightarrow> transaction_attempt \<Rightarrow> delivery_event option" where
  "signer_guard cx rd tip =
     (case at_signer tip of
        None \<Rightarrow> Some (BumpMissingSigner (bc_ident cx) (at_id tip) (bc_chain cx) (bc_type cx))
      | Some expected \<Rightarrow>
          (case rd_submission_signer rd of
             None \<Rightarrow> Some (BumpSubmissionSignerUnavailable (bc_ident cx) (at_id tip) (bc_chain cx) (bc_type cx))
           | Some submission \<Rightarrow>
               if expected \<noteq> submission
               then Some (BumpSignerMismatch (bc_ident cx) (at_id tip) (bc_chain cx) (bc_type cx)
                            expected submission)
               else None))"

definition count_guard ::
  "bump_ctx \<Rightarrow> effective_policy \<Rightarrow> transaction_attempt list \<Rightarrow> transaction_attempt \<Rightarrow> delivery_event option" where
  "count_guard cx pol members tip =
     (let n = replacement_count_in_lineage members
      in if n \<ge> pol_max_replacements_per_stage pol
         then Some (BumpMaxReplacementsReached (bc_ident cx) (at_id tip) (bc_chain cx) (bc_type cx) n)
         else None)"

text \<open>The floor transaction has the highest fees offered anywhere in the lineage.\<close>

definition bumped_fees :: "effective_policy \<Rightarrow> transaction_attempt list \<Rightarrow> evm_transaction \<Rightarrow> bump_fees" where
  "bumped_fees pol members tip_tx =
     (case highest_fees_in_lineage members of (max_fee, max_priority, max_gas_price) \<Rightarrow>
        apply_bump_percent
          (tip_tx\<lparr>tx_gas_price := max_gas_price, tx_max_fee_per_gas := max_fee,
                  tx_max_priority_fee_per_gas := max_priority\<rparr>)
          (pol_bump_percent pol))"

definition cap_guard ::
  "bump_ctx \<Rightarrow> effective_policy \<Rightarrow> bump_fees \<Rightarrow> transaction_attempt \<Rightarrow> delivery_event option" where
  "cap_guard cx pol bumped tip =
     (case bumped_fees_exceed_cap bumped (pol_max_fee_per_gas_cap_wei pol)
            (pol_max_priority_fee_per_gas_cap_wei pol) of
        None \<Rightarrow> None
      | Some fld \<Rightarrow>
          (let (computed, cap) = (case fld of
               MaxFeePerGas \<Rightarrow> (unwrap_or (or_else (bf_max_fee_per_gas bumped) (bf_gas_price bumped)) 0,
                                 unwrap_or (pol_max_fee_per_gas_cap_wei pol) 0)
             | MaxPriorityFeePerGas \<Rightarrow> (unwrap_or (bf_max_priority_fee_per_gas bumped) 0,
                                         unwrap_or (pol_max_priority_fee_per_gas_cap_wei pol) 0))
           in Some (BumpCapReached (bc_ident cx) (at_id tip) (bc_chain cx) (bc_type cx) fld
                      (to_dec computed) (to_dec cap))))"

definition stage_budget :: "cost_breakdown \<Rightarrow> transaction_type \<Rightarrow> rat" where
  "stage_budget cb ty =
     (case ty of Prepare \<Rightarrow> cb_gas_open cb | Fill \<Rightarrow> cb_gas_fill cb | PostFill \<Rightarrow> cb_gas_post_fill cb
      | PreClaim \<Rightarrow> cb_gas_pre_claim cb | Claim \<Rightarrow> cb_gas_claim cb | _ \<Rightarrow> 0)"

text \<open>
  \<open>should_skip_for_profitability\<close>: the events and whether to skip.  Every branch that cannot run
  the check reports why and skips exactly in fail-closed mode.
\<close>

definition should_skip_for_profitability ::
  "bump_ctx \<Rightarrow> effective_policy \<Rightarrow> bump_reads \<Rightarrow> order \<Rightarrow> bump_fees \<Rightarrow> transaction_attempt
   \<Rightarrow> delivery_event list \<times> bool" where
  "should_skip_for_profitability cx pol rd ord bumped tip =
     (let skipped = (\<lambda>reason. ([BumpProfitabilityCheckSkipped (order_id ord) (at_id tip) (bc_chain cx)
                                 (bc_type cx) reason], pol_profitability_gate_fail_closed pol))
      in case quote_id ord of
           None \<Rightarrow> skipped ''no quote_id''
         | Some qid \<Rightarrow>
         (case rd_quote rd qid of
            Inl _ \<Rightarrow> skipped ''stored quote lookup failed''
          | Inr cb \<Rightarrow>
         (case as_evm (at_tx tip) of
            None \<Rightarrow> skipped ''tip is non-EVM''
          | Some tip_tx \<Rightarrow>
         (case tx_gas_limit tip_tx of
            None \<Rightarrow> skipped ''tip gas_limit missing''
          | Some gas_units \<Rightarrow>
         (case or_else (bf_max_fee_per_gas bumped) (bf_gas_price bumped) of
            None \<Rightarrow> skipped ''bumped fees missing''
          | Some fee_per_gas \<Rightarrow>
         (let bumped_cost_wei = saturating_mul u128_bound fee_per_gas gas_units
          in case rd_wei_to_currency rd (to_dec bumped_cost_wei) (cb_currency cb) of
            Inl _ \<Rightarrow> skipped ''wei_to_currency error''
          | Inr bumped_cost_str \<Rightarrow>
         (case rd_decimal rd bumped_cost_str of
            Inl _ \<Rightarrow> skipped ''decimal parse error''
          | Inr bumped_cost \<Rightarrow>
         (let original_budget = stage_budget cb (bc_type cx);
              headroom = cb_gas_buffer cb + cb_min_profit cb;
              delta = bumped_cost - original_budget
          in if delta > headroom
             then ([BumpExceedsProfitability (order_id ord) (at_id tip) (bc_chain cx) (bc_type cx)
                      (rd_show_decimal rd bumped_cost) (rd_show_decimal rd original_budget)
                      (rd_show_decimal rd headroom) (cb_currency cb)], True)
             else ([], False)))))))))"

definition profitability_guard ::
  "bump_ctx \<Rightarrow> effective_policy \<Rightarrow> bump_reads \<Rightarrow> bump_fees \<Rightarrow> transaction_attempt \<Rightarrow> delivery_event list \<times> bool" where
  "profitability_guard cx pol rd bumped tip =
     (if \<not> bc_order_scoped cx then ([], False)
      else (case rd_order rd of
              Inl _ \<Rightarrow> ([BumpProfitabilityCheckSkipped (bc_ident cx) (at_id tip) (bc_chain cx) (bc_type cx)
                          ''order not found''], pol_profitability_gate_fail_closed pol)
            | Inr ord \<Rightarrow> should_skip_for_profitability cx pol rd ord bumped tip))"

definition required_balance_wei :: "bump_fees \<Rightarrow> evm_transaction \<Rightarrow> nat" where
  "required_balance_wei bumped tx =
     saturating_add u256_bound
       (saturating_mul u256_bound (unwrap_or (tx_gas_limit tx) 0)
          (unwrap_or (or_else (bf_max_fee_per_gas bumped) (bf_gas_price bumped)) 0))
       (tx_value tx)"

definition balance_guard ::
  "bump_ctx \<Rightarrow> bump_reads \<Rightarrow> bump_fees \<Rightarrow> transaction_attempt \<Rightarrow> evm_transaction \<Rightarrow> delivery_event list \<times> bool" where
  "balance_guard cx rd bumped tip tip_tx =
     (case rd_balance rd of
        Inl e \<Rightarrow> ([BumpBalanceCheckSkipped (bc_ident cx) (at_id tip) (bc_chain cx) (bc_type cx)
                    (''balance RPC error: '' @ delivery_error_text e)], True)
      | Inr s \<Rightarrow>
          (case rd_parse_u256 rd s of
             Inl e \<Rightarrow> ([BumpBalanceCheckSkipped (bc_ident cx) (at_id tip) (bc_chain cx) (bc_type cx)
                         (''balance parse error: '' @ e)], True)
           | Inr balance \<Rightarrow> ([], balance < required_balance_wei bumped tip_tx)))"

definition nonce_guard :: "bump_ctx \<Rightarrow> transaction_attempt \<Rightarrow> evm_transaction \<Rightarrow> delivery_event option" where
  "nonce_guard cx tip tip_tx =
     (if tx_nonce tip_tx = None
      then Some (BumpMissingNonce (bc_ident cx) (at_id tip) (bc_chain cx) (bc_type cx)) else None)"

definition is_receipt_not_found :: "delivery_error \<Rightarrow> bool" where
  "is_receipt_not_found e =
     (case e of Network m \<Rightarrow> starts_with ''Transaction not found on chain '' m | _ \<Rightarrow> False)"

datatype bump_action =
    NoBump
  | TipConfirmed transaction_attempt bytes transaction_receipt
  | TipReverted transaction_attempt bytes transaction_receipt
  | Submit transaction_attempt evm_transaction

text \<open>The receipt check of an indeterminate tip: \<open>None\<close> lets the bump go on.\<close>

definition receipt_preflight ::
  "bump_ctx \<Rightarrow> effective_policy \<Rightarrow> bump_reads \<Rightarrow> transaction_attempt \<Rightarrow> delivery_event list \<times> bump_action option" where
  "receipt_preflight cx pol rd tip =
     (if at_status tip \<noteq> Indeterminate then ([], None)
      else (case at_tx_hash tip of
              None \<Rightarrow> ([], None)
            | Some h \<Rightarrow>
                (case rd_receipt rd h of
                   Inr rcpt \<Rightarrow>
                     ([BumpTipAlreadyMined (bc_ident cx) (at_id tip) (bc_chain cx) (bc_type cx) h (rcpt_success rcpt)],
                      Some (if rcpt_success rcpt then TipConfirmed tip h rcpt else TipReverted tip h rcpt))
                 | Inl e \<Rightarrow>
                     (let fail_closed = (if is_receipt_not_found e then False
                                         else pol_receipt_preflight_fail_closed pol)
                      in ([BumpReceiptPreflightSkipped (bc_ident cx) (at_id tip) (bc_chain cx) (bc_type cx) h
                             (delivery_error_text e) fail_closed],
                          if fail_closed then Some NoBump else None)))))"

definition replacement_tx :: "evm_transaction \<Rightarrow> bump_fees \<Rightarrow> evm_transaction" where
  "replacement_tx tip_tx bumped =
     tip_tx\<lparr>tx_max_fee_per_gas := bf_max_fee_per_gas bumped,
            tx_max_priority_fee_per_gas := bf_max_priority_fee_per_gas bumped,
            tx_gas_price := bf_gas_price bumped\<rparr>"

text \<open>The guards in order.\<close>

definition decide_bump ::
  "bump_ctx \<Rightarrow> effective_policy \<Rightarrow> bump_reads \<Rightarrow> transaction_attempt list \<Rightarrow> delivery_event list \<times> bump_action" where
  "decide_bump cx pol rd members =
     (case eligible_tip pol (rd_now rd) members of
        None \<Rightarrow> ([], NoBump)
      | Some (tip, tip_tx) \<Rightarrow>
     (case deadline_guard cx rd tip of
        Some ev \<Rightarrow> ([ev], NoBump)
      | None \<Rightarrow>
     (case signer_guard cx rd tip of
        Some ev \<Rightarrow> ([ev], NoBump)
      | None \<Rightarrow>
     (case count_guard cx pol members tip of
        Some ev \<Rightarrow> ([ev], NoBump)
      | None \<Rightarrow>
     (let bumped = bumped_fees pol members tip_tx
      in case cap_guard cx pol bumped tip of
        Some ev \<Rightarrow> ([ev], NoBump)
      | None \<Rightarrow>
     (case profitability_guard cx pol rd bumped tip of
        (evs1, skip1) \<Rightarrow> if skip1 then (evs1, NoBump) else
     (case balance_guard cx rd bumped tip tip_tx of
        (evs2, skip2) \<Rightarrow> if skip2 then (evs1 @ evs2, NoBump) else
     (case nonce_guard cx tip tip_tx of
        Some ev \<Rightarrow> (evs1 @ evs2 @ [ev], NoBump)
      | None \<Rightarrow>
     (case receipt_preflight cx pol rd tip of
        (evs3, Some action) \<Rightarrow> (evs1 @ evs2 @ evs3, action)
      | (evs3, None) \<Rightarrow> (evs1 @ evs2 @ evs3, Submit tip (replacement_tx tip_tx bumped)))))))))))"

section \<open>Carrying out the action\<close>

text \<open>
  \<open>deliver\<close> is the delivery service: it gets the transaction, the child's id and its parent's id,
  records the child through the recorder and returns the hash or an error.
\<close>

type_synonym 's deliver_fn =
  "evm_transaction \<Rightarrow> string \<Rightarrow> string \<Rightarrow> 's world \<Rightarrow> (delivery_error, bytes) result \<times> 's world"

definition mined_tip ::
  "('s, 'b, bump_ctx \<Rightarrow> transaction_attempt \<Rightarrow> bytes \<Rightarrow> transaction_receipt \<Rightarrow> 's world
    \<Rightarrow> delivery_event list \<times> 's world) attempt_op" where
  "mined_tip B ac hexe sc cx tip h rcpt w =
     (let (r, w1) = mark_attempt_confirmed_from_receipt B ac hexe sc (at_id tip) h rcpt w
      in ((case r of
             Inl e \<Rightarrow> [TransactionAttemptLedgerConflict (bc_ident cx) (at_id tip) (bc_type cx) (Some h)
                        Confirmed (attempt_error_text e) ''bump receipt preflight confirmed'']
           | Inr _ \<Rightarrow> []) @
          (if bc_order_scoped cx then [TransactionConfirmed (bc_ident cx) h (bc_type cx) rcpt] else []), w1))"

definition reverted_tip ::
  "('s, 'b, bump_ctx \<Rightarrow> transaction_attempt \<Rightarrow> bytes \<Rightarrow> transaction_receipt \<Rightarrow> 's world
    \<Rightarrow> delivery_event list \<times> 's world) attempt_op" where
  "reverted_tip B ac hexe sc cx tip h rcpt w =
     (let (r, w1) = update_attempt_status B ac hexe sc (at_id tip) Reverted
            (Some ''receipt preflight found reverted tip'')
            (\<lambda>a. a\<lparr>at_tx_hash := Some h, at_receipt := Some rcpt\<rparr>) w
      in (case r of
            Inl e \<Rightarrow> [TransactionAttemptLedgerConflict (bc_ident cx) (at_id tip) (bc_type cx) (Some h)
                       Reverted (attempt_error_text e) ''bump receipt preflight reverted'']
          | Inr _ \<Rightarrow> [], w1))"

definition after_delivery ::
  "('s, 'b, string \<Rightarrow> string \<Rightarrow> bytes \<Rightarrow> 's world \<Rightarrow> 's world) attempt_op" where
  "after_delivery B ac hexe sc tip_id child_id h w =
     (let (r, w1) = get_attempt B ac hexe sc child_id w;
          w2 = (case r of
                  Inl _ \<Rightarrow> w1
                | Inr child \<Rightarrow>
                    if at_status child = Planned \<and> at_tx_hash child = None
                    then snd (update_attempt_status B ac hexe sc child_id Broadcast None
                                (\<lambda>a. a\<lparr>at_tx_hash := Some h\<rparr>) w1)
                    else w1)
      in snd (set_replaced_by B ac hexe sc tip_id child_id w2))"

definition submit_replacement ::
  "('s, 'b, 's deliver_fn \<Rightarrow> string \<Rightarrow> bump_ctx \<Rightarrow> transaction_attempt \<Rightarrow> evm_transaction \<Rightarrow> 's world
    \<Rightarrow> delivery_event list \<times> 's world) attempt_op" where
  "submit_replacement B ac hexe sc deliver child_id cx tip tx w =
     (let (r, w1) = deliver tx child_id (at_id tip) w
      in (case r of
            Inr h \<Rightarrow> ([], after_delivery B ac hexe sc (at_id tip) child_id h w1)
          | Inl (ReplacementUnderpriced _) \<Rightarrow> ([], w1)
          | Inl (InsufficientNativeGas _) \<Rightarrow> ([], w1)
          | Inl e \<Rightarrow> ([BumpSubmitFailed (bc_ident cx) (at_id tip) (bc_chain cx) (bc_type cx)
                        (delivery_error_text e)], w1)))"

definition maybe_bump_component ::
  "('s, 'b, 's deliver_fn \<Rightarrow> string \<Rightarrow> bump_ctx \<Rightarrow> effective_policy \<Rightarrow> bump_reads
    \<Rightarrow> transaction_attempt list \<Rightarrow> 's world \<Rightarrow> delivery_event list \<times> 's world) attempt_op" where
  "maybe_bump_component B ac hexe sc deliver child_id cx pol rd members w =
     (case decide_bump cx pol rd members of
        (evs, NoBump) \<Rightarrow> (evs, w)
      | (evs, TipConfirmed tip h rcpt) \<Rightarrow>
          (let (evs1, w1) = mined_tip B ac hexe sc cx tip h rcpt w in (evs @ evs1, w1))
      | (evs, TipReverted tip h rcpt) \<Rightarrow>
          (let (evs1, w1) = reverted_tip B ac hexe sc cx tip h rcpt w in (evs @ evs1, w1))
      | (evs, Submit tip tx) \<Rightarrow>
          (let (evs1, w1) = submit_replacement B ac hexe sc deliver child_id cx tip tx w in (evs @ evs1, w1)))"

section \<open>One tick\<close>

text \<open>Grouping keeps the order in which keys first occur.\<close>

fun push_bucket :: "'k \<Rightarrow> 'a \<Rightarrow> ('k \<times> 'a list) list \<Rightarrow> ('k \<times> 'a list) list" where
  "push_bucket k a [] = [(k, [a])]"
| "push_bucket k a ((k', as) # bs) = (if k' = k then (k', as @ [a]) # bs else (k', as) # push_bucket k a bs)"

definition bucket_by :: "('a \<Rightarrow> 'k) \<Rightarrow> 'a list \<Rightarrow> ('k \<times> 'a list) list" where
  "bucket_by key as = foldl (\<lambda>bs a. push_bucket (key a) a bs) [] as"

definition bucket_by_tx_type ::
  "transaction_attempt list \<Rightarrow> (transaction_type \<times> transaction_attempt list) list" where
  "bucket_by_tx_type as = bucket_by at_tx_type as"

definition bucket_by_chain_and_type ::
  "transaction_attempt list \<Rightarrow> ((nat \<times> transaction_type) \<times> transaction_attempt list) list" where
  "bucket_by_chain_and_type as = bucket_by (\<lambda>a. (at_chain_id a, at_tx_type a)) as"

fun active_system_scope_ids :: "transaction_attempt list \<Rightarrow> string list \<Rightarrow> string list" where
  "active_system_scope_ids [] seen = seen"
| "active_system_scope_ids (a # as) seen =
     (case at_scope a of
        OrderScope _ \<Rightarrow> active_system_scope_ids as seen
      | SystemScope i \<Rightarrow> active_system_scope_ids as (if i \<in> set seen then seen else seen @ [i]))"

text \<open>Members of a lineage that has a winner are marked replaced; failures are left to the next tick.\<close>

fun supersede_members ::
  "('s, 'b, string \<Rightarrow> transaction_attempt list \<Rightarrow> 's world \<Rightarrow> 's world) attempt_op" where
  "supersede_members B ac hexe sc winner [] w = w"
| "supersede_members B ac hexe sc winner (a # as) w =
     (if attempt_terminal a then supersede_members B ac hexe sc winner as w
      else supersede_members B ac hexe sc winner as
             (snd (update_attempt_status B ac hexe sc (at_id a) Replaced
                     (Some (''superseded by '' @ winner)) (\<lambda>a. a) w)))"

definition reconcile_component ::
  "('s, 'b, transaction_attempt list \<Rightarrow> 's world \<Rightarrow> 's world) attempt_op" where
  "reconcile_component B ac hexe sc members w =
     (case find (\<lambda>a. at_status a = Confirmed) members of
        None \<Rightarrow> w
      | Some winner \<Rightarrow> supersede_members B ac hexe sc (at_id winner) members w)"

text \<open>\<open>None\<close>: the traversal of a lineage does not end.\<close>

fun reconcile_groups ::
  "('s, 'b, transaction_attempt list list \<Rightarrow> 's world \<Rightarrow> 's world option) attempt_op" where
  "reconcile_groups B ac hexe sc [] w = Some w"
| "reconcile_groups B ac hexe sc (grp # groups) w =
     (case lineage_components grp of
        None \<Rightarrow> None
      | Some cs \<Rightarrow>
          reconcile_groups B ac hexe sc groups (foldl (\<lambda>v members. reconcile_component B ac hexe sc members v) w cs))"

definition reconcile_attempts ::
  "('s, 'b, transaction_attempt list \<Rightarrow> 's world \<Rightarrow> 's world option) attempt_op" where
  "reconcile_attempts B ac hexe sc as w =
     reconcile_groups B ac hexe sc (map snd (bucket_by_tx_type as)) w"

definition load_active_order_ids ::
  "('s, 'b) backend \<Rightarrow> (order, 'b) codec \<Rightarrow> 's sched \<Rightarrow> 's world \<Rightarrow> (string, string list) result \<times> 's world" where
  "load_active_order_ids B oc sc w =
     (case svc_query B oc sc (storage_key_str Orders) (Equals ''is_terminal'' (JBool False)) w of
        (Inl e, w1) \<Rightarrow> (Inl (storage_error_text e), w1)
      | (Inr rows, w1) \<Rightarrow> (Inr (map fst (filter (\<lambda>(i, ord). \<not> is_terminal (status ord)) rows)), w1))"

fun add_open_orders ::
  "('s, 'b) backend \<Rightarrow> (order, 'b) codec \<Rightarrow> 's sched \<Rightarrow> transaction_attempt list \<Rightarrow> string set \<Rightarrow> 's world
   \<Rightarrow> string set \<times> 's world" where
  "add_open_orders B oc sc [] ids w = (ids, w)"
| "add_open_orders B oc sc (a # as) ids w =
     (case scope_order_id (at_scope a) of
        None \<Rightarrow> add_open_orders B oc sc as ids w
      | Some oid \<Rightarrow>
          if oid \<in> ids then add_open_orders B oc sc as ids w
          else (case svc_retrieve B oc sc (storage_key_str Orders) oid w of
                  (Inr ord, w1) \<Rightarrow>
                    add_open_orders B oc sc as (if \<not> is_terminal (status ord) then insert oid ids else ids) w1
                | (Inl _, w1) \<Rightarrow> add_open_orders B oc sc as ids w1))"

definition load_bump_order_ids ::
  "('s, 'b) backend \<Rightarrow> (order, 'b) codec \<Rightarrow> (transaction_attempt, 'b) codec \<Rightarrow> (bytes \<Rightarrow> string)
   \<Rightarrow> 's sched \<Rightarrow> 's world \<Rightarrow> (string, string list) result \<times> 's world" where
  "load_bump_order_ids B oc ac hexe sc w =
     (case load_active_order_ids B oc sc w of
        (Inl e, w1) \<Rightarrow> (Inl e, w1)
      | (Inr active, w1) \<Rightarrow>
          (case non_terminal_order_attempts B ac hexe sc w1 of
             (Inl e, w2) \<Rightarrow> (Inl (attempt_error_text e), w2)
           | (Inr as, w2) \<Rightarrow>
               (case add_open_orders B oc sc as (set active) w2 of
                  (ids, w3) \<Rightarrow> (Inr (sorted_list_of_set ids), w3))))"

text \<open>The first phase, for order lineages and then for system lineages.\<close>

fun reconcile_scopes ::
  "('s, 'b, ('s world \<Rightarrow> string \<Rightarrow> (attempt_store_error, transaction_attempt list) result \<times> 's world)
    \<Rightarrow> string list \<Rightarrow> 's world \<Rightarrow> ((string, unit) result \<times> 's world) option) attempt_op" where
  "reconcile_scopes B ac hexe sc load [] w = Some (Inr (), w)"
| "reconcile_scopes B ac hexe sc load (i # is) w =
     (case load w i of
        (Inl e, w1) \<Rightarrow> Some (Inl (attempt_error_text e), w1)
      | (Inr as, w1) \<Rightarrow>
          (case reconcile_attempts B ac hexe sc as w1 of
             None \<Rightarrow> None
           | Some w2 \<Rightarrow> reconcile_scopes B ac hexe sc load is w2))"

definition phase_1_reconcile ::
  "('s, 'b, (order, 'b) codec \<Rightarrow> 's world \<Rightarrow> ((string, unit) result \<times> 's world) option) attempt_op" where
  "phase_1_reconcile B ac hexe sc oc w =
     (case load_bump_order_ids B oc ac hexe sc w of
        (Inl e, w1) \<Rightarrow> Some (Inl e, w1)
      | (Inr oids, w1) \<Rightarrow>
          (case reconcile_scopes B ac hexe sc (\<lambda>v i. attempts_for_order B ac hexe sc i v) oids w1 of
             None \<Rightarrow> None
           | Some (Inl e, w2) \<Rightarrow> Some (Inl e, w2)
           | Some (Inr _, w2) \<Rightarrow>
               (case non_terminal_system_attempts B ac hexe sc w2 of
                  (Inl e, w3) \<Rightarrow> Some (Inl (attempt_error_text e), w3)
                | (Inr as, w3) \<Rightarrow>
                    reconcile_scopes B ac hexe sc (\<lambda>v i. attempts_for_system_scope B ac hexe sc i v)
                      (active_system_scope_ids as []) w3)))"

text \<open>
  The second phase.  \<open>env\<close> supplies the reads of a decision and the fresh child id at that point.
\<close>

record 's bump_env =
  be_config :: tx_bump_config
  be_deliver :: "'s deliver_fn"
  be_reads :: "bump_ctx \<Rightarrow> transaction_attempt list \<Rightarrow> 's world \<Rightarrow> bump_reads"
  be_child_id :: "'s world \<Rightarrow> string"

fun dispatch_components ::
  "('s, 'b, 's bump_env \<Rightarrow> bump_ctx \<Rightarrow> effective_policy \<Rightarrow> transaction_attempt list list \<Rightarrow> 's world
    \<Rightarrow> delivery_event list \<times> 's world) attempt_op" where
  "dispatch_components B ac hexe sc env cx pol [] w = ([], w)"
| "dispatch_components B ac hexe sc env cx pol (members # cs) w =
     (let (evs, w1) = maybe_bump_component B ac hexe sc (be_deliver env) (be_child_id env w) cx pol
            (be_reads env cx members w) members w;
          (evs', w2) = dispatch_components B ac hexe sc env cx pol cs w1
      in (evs @ evs', w2))"

fun dispatch_buckets ::
  "('s, 'b, 's bump_env \<Rightarrow> string \<Rightarrow> bool \<Rightarrow> ((nat \<times> transaction_type) \<times> transaction_attempt list) list
    \<Rightarrow> 's world \<Rightarrow> (delivery_event list \<times> 's world) option) attempt_op" where
  "dispatch_buckets B ac hexe sc env ident scoped [] w = Some ([], w)"
| "dispatch_buckets B ac hexe sc env ident scoped (((chain, ty), grp) # bs) w =
     (case for_chain (be_config env) chain of
        None \<Rightarrow> dispatch_buckets B ac hexe sc env ident scoped bs w
      | Some pol \<Rightarrow>
          (case lineage_components grp of
             None \<Rightarrow> None
           | Some cs \<Rightarrow>
               (let (evs, w1) = dispatch_components B ac hexe sc env
                      \<lparr>bc_ident = ident, bc_chain = chain, bc_type = ty, bc_order_scoped = scoped\<rparr> pol cs w
                in map_option (map_prod (\<lambda>evs'. evs @ evs') (\<lambda>v. v))
                     (dispatch_buckets B ac hexe sc env ident scoped bs w1))))"

fun dispatch_scopes ::
  "('s, 'b, 's bump_env \<Rightarrow> bool \<Rightarrow>
    ('s world \<Rightarrow> string \<Rightarrow> (attempt_store_error, transaction_attempt list) result \<times> 's world)
    \<Rightarrow> string list \<Rightarrow> 's world \<Rightarrow> (delivery_event list \<times> (string, unit) result \<times> 's world) option) attempt_op" where
  "dispatch_scopes B ac hexe sc env scoped load [] w = Some ([], Inr (), w)"
| "dispatch_scopes B ac hexe sc env scoped load (i # is) w =
     (case load w i of
        (Inl e, w1) \<Rightarrow> Some ([], Inl (attempt_error_text e), w1)
      | (Inr as, w1) \<Rightarrow>
          (case dispatch_buckets B ac hexe sc env i scoped (bucket_by_chain_and_type as) w1 of
             None \<Rightarrow> None
           | Some (evs, w2) \<Rightarrow>
               map_option (map_prod (\<lambda>evs'. evs @ evs') (\<lambda>v. v))
                 (dispatch_scopes B ac hexe sc env scoped load is w2)))"

definition phase_2_dispatch ::
  "('s, 'b, (order, 'b) codec \<Rightarrow> 's bump_env \<Rightarrow> 's world
    \<Rightarrow> (delivery_event list \<times> (string, unit) result \<times> 's world) option) attempt_op" where
  "phase_2_dispatch B ac hexe sc oc env w =
     (case load_bump_order_ids B oc ac hexe sc w of
        (Inl e, w1) \<Rightarrow> Some ([], Inl e, w1)
      | (Inr oids, w1) \<Rightarrow>
          (case dispatch_scopes B ac hexe sc env True (\<lambda>v i. attempts_for_order B ac hexe sc i v) oids w1 of
             None \<Rightarrow> None
           | Some (evs, Inl e, w2) \<Rightarrow> Some (evs, Inl e, w2)
           | Some (evs, Inr _, w2) \<Rightarrow>
               (case non_terminal_system_attempts B ac hexe sc w2 of
                  (Inl e, w3) \<Rightarrow> Some (evs, Inl (attempt_error_text e), w3)
                | (Inr as, w3) \<Rightarrow>
                    map_option (map_prod (\<lambda>evs'. evs @ evs') (\<lambda>v. v))
                      (dispatch_scopes B ac hexe sc env False
                         (\<lambda>v i. attempts_for_system_scope B ac hexe sc i v)
                         (active_system_scope_ids as []) w3))))"

definition tick ::
  "('s, 'b, (order, 'b) codec \<Rightarrow> 's bump_env \<Rightarrow> 's world
    \<Rightarrow> (delivery_event list \<times> (string, unit) result \<times> 's world) option) attempt_op" where
  "tick B ac hexe sc oc env w =
     (case phase_1_reconcile B ac hexe sc oc w of
        None \<Rightarrow> None
      | Some (Inl e, w1) \<Rightarrow> Some ([], Inl e, w1)
      | Some (Inr _, w1) \<Rightarrow> phase_2_dispatch B ac hexe sc oc env w1)"

section \<open>Lemmas on the decision\<close>

lemma bumped_fees_parts:
  assumes "highest_fees_in_lineage members = (f, p, g)"
  shows "bf_max_fee_per_gas (bumped_fees pol members tx) = map_option (bump_value (pol_bump_percent pol)) f"
    and "bf_max_priority_fee_per_gas (bumped_fees pol members tx) = map_option (bump_value (pol_bump_percent pol)) p"
    and "bf_gas_price (bumped_fees pol members tx) = map_option (bump_value (pol_bump_percent pol)) g"
  using assms by (simp_all add: bumped_fees_def apply_bump_percent_def)

lemma cap_guard_None:
  "cap_guard cx pol bumped tip = None \<longleftrightarrow>
   bumped_fees_exceed_cap bumped (pol_max_fee_per_gas_cap_wei pol) (pol_max_priority_fee_per_gas_cap_wei pol) = None"
  by (auto simp: cap_guard_def Let_def split: option.splits prod.splits)

lemma caps_respected:
  "bumped_fees_exceed_cap fees fcap pcap = None \<longleftrightarrow>
   \<not> over_cap (bf_max_fee_per_gas fees) fcap \<and> \<not> over_cap (bf_max_priority_fee_per_gas fees) pcap \<and>
   \<not> over_cap (bf_gas_price fees) fcap"
  by (simp add: bumped_fees_exceed_cap_def)

lemma receipt_preflight_not_submit: "receipt_preflight cx pol rd tip = (evs, Some a) \<Longrightarrow> a \<noteq> Submit t tx"
  by (auto simp: receipt_preflight_def Let_def split: if_splits option.splits sum.splits)

lemma decide_bump_submit:
  assumes "decide_bump cx pol rd members = (evs, Submit tip tx)"
  shows "\<exists>tip_tx evs1 evs2 evs3. eligible_tip pol (rd_now rd) members = Some (tip, tip_tx) \<and>
    deadline_guard cx rd tip = None \<and> signer_guard cx rd tip = None \<and> count_guard cx pol members tip = None \<and>
    cap_guard cx pol (bumped_fees pol members tip_tx) tip = None \<and>
    profitability_guard cx pol rd (bumped_fees pol members tip_tx) tip = (evs1, False) \<and>
    balance_guard cx rd (bumped_fees pol members tip_tx) tip tip_tx = (evs2, False) \<and>
    nonce_guard cx tip tip_tx = None \<and> receipt_preflight cx pol rd tip = (evs3, None) \<and>
    tx = replacement_tx tip_tx (bumped_fees pol members tip_tx)"
  using assms
  by (auto simp: decide_bump_def Let_def split: option.splits prod.splits if_splits
      dest: receipt_preflight_not_submit)

lemma foldl_raise_mem: "foldl raise acc xs = Some m \<Longrightarrow> acc = Some m \<or> Some m \<in> set xs"
proof (induction xs arbitrary: acc)
  case (Cons x xs)
  then have "raise acc x = Some m \<or> Some m \<in> set xs" by simp
  then show ?case by (cases acc; cases x) (auto simp: raise_def max_def split: if_splits)
qed simp

lemma highest_fees_bounded:
  assumes "highest_fees_in_lineage members = (f, p, g)"
    and "\<And>a x. a \<in> set members \<Longrightarrow> offers tx_max_fee_per_gas a x \<or> offers tx_max_priority_fee_per_gas a x \<or>
      offers tx_gas_price a x \<Longrightarrow> x < bound"
  shows "f = Some m \<Longrightarrow> m < bound" and "p = Some m \<Longrightarrow> m < bound" and "g = Some m \<Longrightarrow> m < bound"
proof -
  have mem: "\<exists>a \<in> set members. h a = Some m" if "foldl raise None (map h members) = Some m"
    for h :: "transaction_attempt \<Rightarrow> nat option"
    using foldl_raise_mem [OF that] by force
  show "f = Some m \<Longrightarrow> m < bound" "p = Some m \<Longrightarrow> m < bound" "g = Some m \<Longrightarrow> m < bound"
    using assms(1) unfolding highest_fees_in_lineage_def foldl_raise_fees
    by (auto dest!: mem simp: bind_eq_Some_conv intro!: assms(2) simp: offers_def)
qed

end
