(* ===== verification/Bump_Safety.thy ===== *)
theory Bump_Safety
  imports Bump_Service
begin

text \<open>
  What the bump sweeper guarantees about the replacements it dispatches and about the lineages it
  reconciles.
\<close>

section \<open>Dispatched replacements\<close>

text \<open>Two transactions that differ in their fees only.\<close>

definition same_but_fees :: "evm_transaction \<Rightarrow> evm_transaction \<Rightarrow> bool" where
  "same_but_fees tx tx' \<longleftrightarrow> tx_to tx = tx_to tx' \<and> tx_data tx = tx_data tx' \<and> tx_value tx = tx_value tx' \<and>
     tx_chain_id tx = tx_chain_id tx' \<and> tx_nonce tx = tx_nonce tx' \<and> tx_gas_limit tx = tx_gas_limit tx'"

text \<open>The new fee outbids every fee of that kind in the lineage, strictly unless it is zero or the largest \<^verbatim>\<open>u128\<close>.\<close>

definition outbids :: "(evm_transaction \<Rightarrow> nat option) \<Rightarrow> transaction_attempt list \<Rightarrow> evm_transaction \<Rightarrow> bool" where
  "outbids fee members tx \<longleftrightarrow>
     (\<forall>a \<in> set members. \<forall>x. offers fee a x \<longrightarrow>
        (\<exists>y. fee tx = Some y \<and> x \<le> y \<and> y < u128_bound \<and> (0 < x \<and> x + 1 < u128_bound \<longrightarrow> x < y)))"

definition fees_are_u128 :: "transaction_attempt list \<Rightarrow> bool" where
  "fees_are_u128 members \<longleftrightarrow>
     (\<forall>a \<in> set members. \<forall>x. offers tx_max_fee_per_gas a x \<or> offers tx_max_priority_fee_per_gas a x \<or>
        offers tx_gas_price a x \<longrightarrow> x < u128_bound)"

lemma bump_value_outbids:
  assumes "x \<le> m" "m < u128_bound" "0 < pct"
  shows "x \<le> bump_value pct m \<and> bump_value pct m < u128_bound \<and>
    (0 < x \<and> x + 1 < u128_bound \<longrightarrow> x < bump_value pct m)"
proof (cases "m + 1 < u128_bound")
  case True
  then show ?thesis using bump_value_bounds [OF assms(2), of pct] assms by fastforce
next
  case False
  then have "x < m" if "x + 1 < u128_bound" using that assms by linarith
  then show ?thesis using bump_value_bounds [OF assms(2), of pct] assms(1) by fastforce
qed

lemma outbidsI:
  assumes "\<And>a x. a \<in> set members \<Longrightarrow> offers fee a x \<Longrightarrow> \<exists>m. h = Some m \<and> x \<le> m"
    and "\<And>m. h = Some m \<Longrightarrow> m < u128_bound" and "0 < pct" and "fee tx = map_option (bump_value pct) h"
  shows "outbids fee members tx"
  unfolding outbids_def
proof (intro ballI allI impI)
  fix a x
  assume "a \<in> set members" "offers fee a x"
  then obtain m where m: "h = Some m" "x \<le> m" using assms(1) by blast
  then show "\<exists>y. fee tx = Some y \<and> x \<le> y \<and> y < u128_bound \<and> (0 < x \<and> x + 1 < u128_bound \<longrightarrow> x < y)"
    using bump_value_outbids [OF m(2) assms(2) [OF m(1)] assms(3)] assms(4) by simp
qed

lemma replacement_outbids:
  assumes u: "fees_are_u128 members" and pct: "0 < pol_bump_percent pol"
  shows "outbids tx_max_fee_per_gas members (replacement_tx tip_tx (bumped_fees pol members tip_tx))"
    "outbids tx_max_priority_fee_per_gas members (replacement_tx tip_tx (bumped_fees pol members tip_tx))"
    "outbids tx_gas_price members (replacement_tx tip_tx (bumped_fees pol members tip_tx))"
proof -
  obtain f p g where h: "highest_fees_in_lineage members = (f, p, g)" by (cases "highest_fees_in_lineage members")
  have b: "x < u128_bound" if "a \<in> set members"
    "offers tx_max_fee_per_gas a x \<or> offers tx_max_priority_fee_per_gas a x \<or> offers tx_gas_price a x" for a x
    using u that unfolding fees_are_u128_def by blast
  note bounded = highest_fees_bounded [OF h b]
  note parts = bumped_fees_parts [OF h] replacement_tx_def
  note covers = highest_fees_covers [OF h]
  show "outbids tx_max_fee_per_gas members (replacement_tx tip_tx (bumped_fees pol members tip_tx))"
    by (rule outbidsI [OF covers(1) bounded(1) pct]) (simp_all add: parts)
  show "outbids tx_max_priority_fee_per_gas members (replacement_tx tip_tx (bumped_fees pol members tip_tx))"
    by (rule outbidsI [OF covers(2) bounded(2) pct]) (simp_all add: parts)
  show "outbids tx_gas_price members (replacement_tx tip_tx (bumped_fees pol members tip_tx))"
    by (rule outbidsI [OF covers(3) bounded(3) pct]) (simp_all add: parts)
qed

lemma eligible_tip_Some:
  "eligible_tip pol now members = Some (tip, tx) \<longleftrightarrow>
     lineage_tip members = Some tip \<and> (at_status tip = Broadcast \<or> at_status tip = Indeterminate) \<and>
     as_evm (at_tx tip) = Some tx \<and> pol_pending_threshold_secs pol \<le> now - at_updated_at tip"
  by (auto simp: eligible_tip_def split: option.splits if_splits)

lemma lineage_tip_mem: "lineage_tip members = Some t \<Longrightarrow> t \<in> set members"
  by (auto simp: lineage_tip_def Let_def find_Some_iff)

definition within_cap :: "nat option \<Rightarrow> nat option \<Rightarrow> bool" where
  "within_cap fee cap \<longleftrightarrow> (\<forall>x c. fee = Some x \<longrightarrow> cap = Some c \<longrightarrow> x \<le> c)"

lemma not_over_cap: "\<not> over_cap fee cap \<longleftrightarrow> within_cap fee cap"
  by (auto simp: over_cap_def within_cap_def not_less split: option.splits)

text \<open>
  C3: Under a policy with a positive bump percentage, as validation demands, and fees that fit 128 bits, every
  replacement the sweeper submits is sound.  It replaces an attempt of the lineage that is
  broadcast or indeterminate and at least the threshold old; it is that attempt's transaction
  except for the fees, so it has the same nonce, which is present; the signer that will submit it
  is the one that signed the original; the lineage has fewer replacements than the limit; each
  kind of fee outbids every attempt of the lineage (strictly, unless that fee is zero or the bid is at the
  top of the 128-bit range) and stays within the chain's cap; and a fill or
  claim of an order whose deadline is known is submitted before it.
\<close>

theorem dispatched_replacement_sound:
  assumes "decide_bump cx pol rd members = (evs, Submit tip tx)"
    and "fees_are_u128 members" and "0 < pol_bump_percent pol"
  shows "tip \<in> set members \<and> (at_status tip = Broadcast \<or> at_status tip = Indeterminate) \<and>
    pol_pending_threshold_secs pol \<le> rd_now rd - at_updated_at tip \<and>
    (\<exists>tip_tx. as_evm (at_tx tip) = Some tip_tx \<and> same_but_fees tip_tx tx) \<and> tx_nonce tx \<noteq> None \<and>
    at_signer tip \<noteq> None \<and> at_signer tip = rd_submission_signer rd \<and>
    replacement_count_in_lineage members < pol_max_replacements_per_stage pol \<and>
    outbids tx_max_fee_per_gas members tx \<and> outbids tx_max_priority_fee_per_gas members tx \<and>
    outbids tx_gas_price members tx \<and>
    within_cap (tx_max_fee_per_gas tx) (pol_max_fee_per_gas_cap_wei pol) \<and>
    within_cap (tx_gas_price tx) (pol_max_fee_per_gas_cap_wei pol) \<and>
    within_cap (tx_max_priority_fee_per_gas tx) (pol_max_priority_fee_per_gas_cap_wei pol) \<and>
    (\<forall>d. bc_order_scoped cx \<and> (bc_type cx = Fill \<or> bc_type cx = Claim) \<and>
       deadline_for_stage rd (bc_type cx) = Some d \<longrightarrow> rd_now rd < d)"
proof -
  obtain tip_tx evs1 evs2 evs3 where g: "eligible_tip pol (rd_now rd) members = Some (tip, tip_tx)"
    "deadline_guard cx rd tip = None" "signer_guard cx rd tip = None" "count_guard cx pol members tip = None"
    "cap_guard cx pol (bumped_fees pol members tip_tx) tip = None" "nonce_guard cx tip tip_tx = None"
    and tx: "tx = replacement_tx tip_tx (bumped_fees pol members tip_tx)"
    using decide_bump_submit [OF assms(1)] by blast
  note tip = g(1) [unfolded eligible_tip_Some]
  have "same_but_fees tip_tx tx" "tx_nonce tx \<noteq> None"
    using g(6) by (auto simp: tx same_but_fees_def replacement_tx_def nonce_guard_def split: if_splits)
  moreover have "at_signer tip \<noteq> None \<and> at_signer tip = rd_submission_signer rd"
    using g(3) by (auto simp: signer_guard_def split: option.splits if_splits)
  moreover have "replacement_count_in_lineage members < pol_max_replacements_per_stage pol"
    using g(4) by (auto simp: count_guard_def Let_def split: if_splits)
  moreover have "within_cap (tx_max_fee_per_gas tx) (pol_max_fee_per_gas_cap_wei pol)"
    "within_cap (tx_gas_price tx) (pol_max_fee_per_gas_cap_wei pol)"
    "within_cap (tx_max_priority_fee_per_gas tx) (pol_max_priority_fee_per_gas_cap_wei pol)"
    using g(5) by (simp_all add: cap_guard_None caps_respected not_over_cap tx replacement_tx_def)
  moreover have "rd_now rd < d" if "bc_order_scoped cx \<and> (bc_type cx = Fill \<or> bc_type cx = Claim) \<and>
       deadline_for_stage rd (bc_type cx) = Some d" for d
    using g(2) that by (auto simp: deadline_guard_def split: if_splits)
  ultimately show ?thesis
    using tip lineage_tip_mem replacement_outbids [OF assms(2,3)] unfolding tx by blast
qed

text \<open>
  With the profitability gate in fail-closed mode, a replacement for an order is submitted only
  after the economics were checked: the order and its quote were read, and what the bumped
  transaction costs above the stage's budget is covered by the quote's gas buffer and minimum
  profit.
\<close>

theorem fail_closed_bump_pays:
  assumes "decide_bump cx pol rd members = (evs, Submit tip tx)"
    and "pol_profitability_gate_fail_closed pol" and "bc_order_scoped cx"
  shows "\<exists>ord qid cb gas fee cost_str cost. rd_order rd = Inr ord \<and> quote_id ord = Some qid \<and>
    rd_quote rd qid = Inr cb \<and> tx_gas_limit tx = Some gas \<and>
    or_else (tx_max_fee_per_gas tx) (tx_gas_price tx) = Some fee \<and>
    rd_wei_to_currency rd (to_dec (min (fee * gas) (u128_bound - 1))) (cb_currency cb) = Inr cost_str \<and>
    rd_decimal rd cost_str = Inr cost \<and>
    cost \<le> stage_budget cb (bc_type cx) + cb_gas_buffer cb + cb_min_profit cb"
proof -
  obtain tip_tx evs1 where g: "eligible_tip pol (rd_now rd) members = Some (tip, tip_tx)"
    "profitability_guard cx pol rd (bumped_fees pol members tip_tx) tip = (evs1, False)"
    and tx: "tx = replacement_tx tip_tx (bumped_fees pol members tip_tx)"
    using decide_bump_submit [OF assms(1)] by blast
  have tip: "as_evm (at_tx tip) = Some tip_tx" using g(1) by (simp add: eligible_tip_Some)
  obtain ord where ord: "rd_order rd = Inr ord"
    "should_skip_for_profitability cx pol rd ord (bumped_fees pol members tip_tx) tip = (evs1, False)"
    using g(2) assms(2,3) by (auto simp: profitability_guard_def split: sum.splits)
  then show ?thesis using tip assms(2)
    by (auto simp: should_skip_for_profitability_def Let_def tx replacement_tx_def saturating_mul_def not_less
        algebra_simps split: option.splits sum.splits if_splits)
qed

section \<open>Reconciled lineages\<close>

definition superseded :: "nat \<Rightarrow> string \<Rightarrow> transaction_attempt \<Rightarrow> transaction_attempt" where
  "superseded now winner a =
     (if attempt_terminal a then a
      else a\<lparr>at_status := Replaced, at_error := Some (''superseded by '' @ winner), at_updated_at := now\<rparr>)"

lemma superseded_terminal: "attempt_terminal (superseded now winner a)"
  by (simp add: superseded_def attempt_terminal_iff)

lemma supersede_step:
  assumes "codec_ok ac" "encodes_all ac" "holds_attempt memory_live ac (w_store w) (at_id a) a" "\<not> attempt_terminal a"
    and "w1 = snd (update_attempt_status memory_backend ac hexe (quiet (\<lambda>_. now)) (at_id a) Replaced
                     (Some (''superseded by '' @ winner)) (\<lambda>a. a) w)"
  shows "holds_attempt memory_live ac (w_store w1) (at_id a) (superseded now winner a)"
    and "k \<noteq> attempt_key (at_id a) \<Longrightarrow> memory_live t (w_store w1) k = memory_live t (w_store w) k"
proof -
  obtain b where b: "memory_live now (w_store w) (attempt_key (at_id a)) = Some b" "decode ac b = Inr a"
    using assms(3) by (auto simp: holds_attempt_def)
  note upd = update_attempt_status_quiet [OF assms(1,2) b, of "\<lambda>a. a", OF refl prod.collapse [symmetric] refl]
  show "holds_attempt memory_live ac (w_store w1) (at_id a) (superseded now winner a)"
    "k \<noteq> attempt_key (at_id a) \<Longrightarrow> memory_live t (w_store w1) k = memory_live t (w_store w) k"
    using upd assms(4) by (simp_all add: assms(5) superseded_def)
qed

lemma holds_attempt_cong:
  "(\<And>t. live t s' (attempt_key i) = live t s (attempt_key i)) \<Longrightarrow> holds_attempt live ac s' i a = holds_attempt live ac s i a"
  by (simp add: holds_attempt_def)

lemma supersede_members_quiet:
  assumes ac: "codec_ok ac" "encodes_all ac"
  shows "distinct (map at_id members) \<Longrightarrow> (\<And>a. a \<in> set members \<Longrightarrow> holds_attempt memory_live ac (w_store w) (at_id a) a) \<Longrightarrow>
    w' = supersede_members memory_backend ac hexe (quiet (\<lambda>_. now)) winner members w \<Longrightarrow>
    (\<forall>a \<in> set members. holds_attempt memory_live ac (w_store w') (at_id a) (superseded now winner a)) \<and>
    (\<forall>t k. k \<notin> attempt_key ` at_id ` set members \<longrightarrow> memory_live t (w_store w') k = memory_live t (w_store w) k)"
proof (induction members arbitrary: w)
  case (Cons a as)
  let ?upd = "\<lambda>w. snd (update_attempt_status memory_backend ac hexe (quiet (\<lambda>_. now)) (at_id a) Replaced
                     (Some (''superseded by '' @ winner)) (\<lambda>a. a) w)"
  define w1 where "w1 = (if attempt_terminal a then w else ?upd w)"
  have held: "holds_attempt memory_live ac (w_store w) (at_id a) a" using Cons.prems(2) by simp
  have head: "holds_attempt memory_live ac (w_store w1) (at_id a) (superseded now winner a)"
    and frame: "k \<noteq> attempt_key (at_id a) \<Longrightarrow> memory_live t (w_store w1) k = memory_live t (w_store w) k" for t k
    using supersede_step [OF ac held, of w1 hexe now winner] held
    by (auto simp: w1_def superseded_def)
  have "holds_attempt memory_live ac (w_store w1) (at_id b) b" if "b \<in> set as" for b
  proof -
    have "at_id b \<noteq> at_id a" using that Cons.prems(1) by (auto simp: image_iff)
    then show ?thesis using Cons.prems(2) [of b] that frame [of "attempt_key (at_id b)"]
      by (simp add: holds_attempt_cong [of memory_live "w_store w1" "at_id b" "w_store w"])
  qed
  moreover have "w' = supersede_members memory_backend ac hexe (quiet (\<lambda>_. now)) winner as w1"
    using Cons.prems(3) by (simp add: w1_def)
  ultimately have tail: "\<forall>b \<in> set as. holds_attempt memory_live ac (w_store w') (at_id b) (superseded now winner b)"
    "\<forall>t k. k \<notin> attempt_key ` at_id ` set as \<longrightarrow> memory_live t (w_store w') k = memory_live t (w_store w1) k"
    using Cons.IH [of w1] Cons.prems(1) by simp_all
  have "holds_attempt memory_live ac (w_store w') (at_id a) (superseded now winner a)"
  proof (subst holds_attempt_cong [of memory_live "w_store w'" "at_id a" "w_store w1"])
    have "attempt_key (at_id a) \<notin> attempt_key ` at_id ` set as" using Cons.prems(1) by (auto simp: image_iff)
    then show "memory_live t (w_store w') (attempt_key (at_id a)) = memory_live t (w_store w1) (attempt_key (at_id a))" for t
      using tail(2) by blast
  qed (rule head)
  then show ?case using tail frame by auto
qed simp

text \<open>
  Reconciling a lineage one of whose attempts is confirmed, with no other task interfering,
  leaves every attempt of it terminal: the open ones are marked replaced by the winner, the
  terminal ones keep their row, and nothing else in the store changes.  A lineage without a
  confirmed attempt is left alone.
\<close>

theorem reconciled_lineage_closed:
  assumes "codec_ok ac" "encodes_all ac" and "distinct (map at_id members)"
    and "\<And>a. a \<in> set members \<Longrightarrow> holds_attempt memory_live ac (w_store w) (at_id a) a"
    and "w' = reconcile_component memory_backend ac hexe (quiet (\<lambda>_. now)) members w"
  shows "(if has_confirmed_member members
      then \<forall>a \<in> set members. \<exists>a'. holds_attempt memory_live ac (w_store w') (at_id a) a' \<and> attempt_terminal a' \<and>
             (if attempt_terminal a then a' = a
              else \<exists>win \<in> set members. at_status win = Confirmed \<and>
                a' = a\<lparr>at_status := Replaced, at_error := Some (''superseded by '' @ at_id win), at_updated_at := now\<rparr>)
      else w' = w) \<and>
    (\<forall>t k. k \<notin> attempt_key ` at_id ` set members \<longrightarrow> memory_live t (w_store w') k = memory_live t (w_store w) k)"
proof (cases "find (\<lambda>a. at_status a = Confirmed) members")
  case None
  then have "\<not> has_confirmed_member members" by (auto simp: has_confirmed_member_def find_None_iff list_ex_iff)
  then show ?thesis using None assms(5) by (simp add: reconcile_component_def)
next
  case (Some win)
  then have win: "win \<in> set members" "at_status win = Confirmed" by (auto simp: find_Some_iff)
  then have "has_confirmed_member members" by (auto simp: has_confirmed_member_def list_ex_iff)
  moreover have "w' = supersede_members memory_backend ac hexe (quiet (\<lambda>_. now)) (at_id win) members w"
    using Some assms(5) by (simp add: reconcile_component_def)
  note sup = supersede_members_quiet [OF assms(1-4) this]
  have "\<exists>a'. holds_attempt memory_live ac (w_store w') (at_id a) a' \<and> attempt_terminal a' \<and>
      (if attempt_terminal a then a' = a
       else \<exists>win \<in> set members. at_status win = Confirmed \<and>
         a' = a\<lparr>at_status := Replaced, at_error := Some (''superseded by '' @ at_id win), at_updated_at := now\<rparr>)"
    if "a \<in> set members" for a
    using sup that win superseded_terminal [of now "at_id win" a]
    by (intro exI [of _ "superseded now (at_id win) a"]) (auto simp: superseded_def)
  ultimately show ?thesis using sup by simp
qed

section \<open>Witnesses\<close>

definition stuck_tx :: evm_transaction where
  "stuck_tx = \<lparr>tx_to = None, tx_data = [], tx_value = 5, tx_chain_id = 10, tx_nonce = Some 7, tx_gas_limit = Some 100,
     tx_gas_price = None, tx_max_fee_per_gas = Some 200, tx_max_priority_fee_per_gas = Some 20\<rparr>"

definition stuck_attempt :: transaction_attempt where
  "stuck_attempt = (planned 1 ''a1'' (OrderScope ''o1'') (Some [1]) Fill (Evm stuck_tx))\<lparr>at_status := Broadcast\<rparr>"

definition stuck_policy :: effective_policy where
  "stuck_policy = \<lparr>pol_pending_threshold_secs = 60, pol_bump_percent = 15, pol_max_replacements_per_stage = 3,
     pol_max_fee_per_gas_cap_wei = Some 230, pol_max_priority_fee_per_gas_cap_wei = Some 30,
     pol_profitability_gate_fail_closed = True, pol_receipt_preflight_fail_closed = True\<rparr>"

definition stuck_costs :: cost_breakdown where
  "stuck_costs = \<lparr>cb_gas_open = 0, cb_gas_fill = 2, cb_gas_post_fill = 0, cb_gas_pre_claim = 0, cb_gas_claim = 0,
     cb_gas_buffer = 1, cb_min_profit = 1, cb_currency = ''USD''\<rparr>"

definition stuck_reads :: bump_reads where
  "stuck_reads = \<lparr>rd_now = 100, rd_deadline_order = Inr ((sample_order Executing)\<lparr>quote_id := Some ''q''\<rparr>),
     rd_order = Inr ((sample_order Executing)\<lparr>quote_id := Some ''q''\<rparr>),
     rd_deadlines = (\<lambda>_. Some (Some 500, None)), rd_submission_signer = Some [1], rd_quote = (\<lambda>_. Inr stuck_costs),
     rd_wei_to_currency = (\<lambda>_ _. Inr ''3''), rd_decimal = (\<lambda>_. Inr 3), rd_show_decimal = (\<lambda>_. []),
     rd_balance = Inr ''1000000'', rd_parse_u256 = (\<lambda>_. Inr 1000000), rd_receipt = (\<lambda>_. Inl (Network []))\<rparr>"

definition stuck_ctx :: bump_ctx where
  "stuck_ctx = \<lparr>bc_ident = ''o1'', bc_chain = 10, bc_type = Fill, bc_order_scoped = True\<rparr>"

lemmas stuck_defs = stuck_attempt_def stuck_tx_def stuck_policy_def stuck_reads_def stuck_ctx_def stuck_costs_def planned_def

lemma stuck_fees:
  "bumped_fees stuck_policy [stuck_attempt] stuck_tx =
     \<lparr>bf_max_fee_per_gas = Some 230, bf_max_priority_fee_per_gas = Some 23, bf_gas_price = None\<rparr>"
  by (simp add: bumped_fees_def highest_fees_in_lineage_def raise_fees_def raise_def apply_bump_percent_def
      bump_value_def saturating_mul_def saturating_add_def Let_def stuck_defs)

lemma stuck_bump:
  "decide_bump stuck_ctx stuck_policy stuck_reads [stuck_attempt] =
     ([], Submit stuck_attempt (stuck_tx\<lparr>tx_max_fee_per_gas := Some 230, tx_max_priority_fee_per_gas := Some 23\<rparr>))"
proof -
  have "lineage_tip [stuck_attempt] = Some stuck_attempt"
    by (simp add: lineage_tip_def mark_member_def attempt_terminal_iff stuck_defs)
  then have "eligible_tip stuck_policy 100 [stuck_attempt] = Some (stuck_attempt, stuck_tx)"
    by (simp add: eligible_tip_Some) (simp add: stuck_defs)
  moreover have "rd_now stuck_reads = 100" by (simp add: stuck_reads_def)
  moreover have "deadline_guard stuck_ctx stuck_reads stuck_attempt = None"
    "signer_guard stuck_ctx stuck_reads stuck_attempt = None"
    "count_guard stuck_ctx stuck_policy [stuck_attempt] stuck_attempt = None"
    "nonce_guard stuck_ctx stuck_attempt stuck_tx = None"
    "receipt_preflight stuck_ctx stuck_policy stuck_reads stuck_attempt = ([], None)"
    by (simp_all add: deadline_guard_def deadline_for_stage_def signer_guard_def count_guard_def nonce_guard_def
        receipt_preflight_def replacement_count_in_lineage_def stuck_defs)
  moreover have "cap_guard stuck_ctx stuck_policy (bumped_fees stuck_policy [stuck_attempt] stuck_tx) stuck_attempt = None"
    unfolding stuck_fees by (simp add: cap_guard_None caps_respected over_cap_def stuck_policy_def)
  moreover have "profitability_guard stuck_ctx stuck_policy stuck_reads
      (bumped_fees stuck_policy [stuck_attempt] stuck_tx) stuck_attempt = ([], False)"
    unfolding stuck_fees
    by (simp add: profitability_guard_def should_skip_for_profitability_def or_else_def stage_budget_def Let_def stuck_defs)
  moreover have "balance_guard stuck_ctx stuck_reads (bumped_fees stuck_policy [stuck_attempt] stuck_tx)
      stuck_attempt stuck_tx = ([], False)"
    unfolding stuck_fees
    by (simp add: balance_guard_def required_balance_wei_def or_else_def unwrap_or_def saturating_add_def
        saturating_mul_def stuck_defs)
  ultimately show ?thesis
    by (simp add: decide_bump_def Let_def) (simp add: replacement_tx_def stuck_fees, simp add: stuck_tx_def)
qed

theorem dispatched_replacement_sound_witness:
  "\<exists>evs tx. decide_bump stuck_ctx stuck_policy stuck_reads [stuck_attempt] = (evs, Submit stuck_attempt tx) \<and>
     same_but_fees stuck_tx tx \<and> outbids tx_max_fee_per_gas [stuck_attempt] tx \<and>
     within_cap (tx_max_fee_per_gas tx) (Some 230)"
proof -
  have "fees_are_u128 [stuck_attempt]" "0 < pol_bump_percent stuck_policy"
    by (simp_all add: fees_are_u128_def offers_def stuck_defs)
  then show ?thesis
    using dispatched_replacement_sound [OF stuck_bump] stuck_bump by (auto simp: stuck_defs)
qed

theorem fail_closed_bump_pays_witness:
  "\<exists>cb cost. rd_quote stuck_reads ''q'' = Inr cb \<and> rd_decimal stuck_reads ''3'' = Inr cost \<and>
     cost \<le> stage_budget cb Fill + cb_gas_buffer cb + cb_min_profit cb"
proof -
  have "pol_profitability_gate_fail_closed stuck_policy" "bc_order_scoped stuck_ctx"
    by (simp_all add: stuck_policy_def stuck_ctx_def)
  from fail_closed_bump_pays [OF stuck_bump this] show ?thesis by (auto simp: stuck_reads_def stuck_ctx_def)
qed

definition won_lineage :: "transaction_attempt list" where
  "won_lineage = [sample_attempt Broadcast, (sample_attempt Confirmed)\<lparr>at_id := ''a2'', at_replacement_of := Some ''a1''\<rparr>]"

definition won_world :: "transaction_attempt memory_storage world" where
  "won_world = \<lparr>w_store = put_entry 0 (put_entry 0 memory_new (attempt_key ''a1'') (won_lineage ! 0) None None)
     (attempt_key ''a2'') (won_lineage ! 1) None None, w_tick = 0\<rparr>"

theorem reconciled_lineage_closed_witness:
  "\<exists>a'. holds_attempt memory_live attempt_codec (w_store (reconcile_component memory_backend attempt_codec (\<lambda>_. [])
      (quiet (\<lambda>_. 9)) won_lineage won_world)) ''a1'' a' \<and> at_status a' = Replaced"
proof -
  have ids: "distinct (map at_id won_lineage)" by (simp add: won_lineage_def sample_attempt_def planned_def)
  have held: "holds_attempt memory_live attempt_codec (w_store won_world) (at_id a) a" if "a \<in> set won_lineage" for a
    using that by (auto simp: holds_attempt_def won_world_def memory_live_put until_ttl_def won_lineage_def
        sample_attempt_def planned_def)
  have conf: "has_confirmed_member won_lineage"
    by (simp add: has_confirmed_member_def won_lineage_def sample_attempt_def)
  have mem: "sample_attempt Broadcast \<in> set won_lineage" "\<not> attempt_terminal (sample_attempt Broadcast)"
    "at_id (sample_attempt Broadcast) = ''a1''"
    by (simp_all add: won_lineage_def sample_attempt_def attempt_terminal_iff planned_def)
  let ?w = "reconcile_component memory_backend attempt_codec (\<lambda>_. []) (quiet (\<lambda>_. 9)) won_lineage won_world"
  have "\<forall>a \<in> set won_lineage. \<exists>a'. holds_attempt memory_live attempt_codec (w_store ?w) (at_id a) a' \<and>
      attempt_terminal a' \<and> (if attempt_terminal a then a' = a
        else \<exists>win \<in> set won_lineage. at_status win = Confirmed \<and> a' = a\<lparr>at_status := Replaced,
          at_error := Some (''superseded by '' @ at_id win), at_updated_at := 9\<rparr>)"
    using conjunct1 [OF reconciled_lineage_closed [OF attempt_codec_ok(1,2) ids held refl, of "\<lambda>_. []" 9]]
    unfolding if_P [OF conf] .
  from bspec [OF this mem(1)] obtain a' and win :: transaction_attempt
    where "holds_attempt memory_live attempt_codec (w_store ?w) ''a1'' a'"
      and "a' = (sample_attempt Broadcast)\<lparr>at_status := Replaced,
        at_error := Some (''superseded by '' @ at_id win), at_updated_at := 9\<rparr>"
    unfolding mem(3) if_not_P [OF mem(2)] by blast
  then show ?thesis by (intro exI [of _ a']) simp
qed

end
