(* ===== verification/Nonce_Manager.thy ===== *)
theory Nonce_Manager
  imports Prelude
begin

text \<open>
  \<^verbatim>\<open>crates/solver-delivery/src/implementations/evm/nonce.rs\<close>: the resettable nonce cache of a
  signer and the classification of submission errors that decides whether a nonce may be taken
  back.  The cache is a map from addresses to the next nonce, below \<open>u64_bound\<close>; each operation
  holds the mutex throughout, so it is one step.
\<close>

section \<open>The cache\<close>

type_synonym nonce_cache = "bytes \<rightharpoonup> nat"

definition set_next_nonce :: "nonce_cache \<Rightarrow> bytes \<Rightarrow> nat \<Rightarrow> nat \<times> nonce_cache" where
  "set_next_nonce cache a nxt =
     (let entry = (case cache a of None \<Rightarrow> nxt | Some n \<Rightarrow> if n < nxt then nxt else n)
      in (entry, cache(a \<mapsto> entry)))"

definition reset_next_nonce :: "nonce_cache \<Rightarrow> bytes \<Rightarrow> nat \<Rightarrow> nat \<times> nonce_cache" where
  "reset_next_nonce cache a nxt =
     (let reset = (case cache a of None \<Rightarrow> nxt | Some l \<Rightarrow> max l nxt) in (reset, cache(a \<mapsto> reset)))"

definition reconcile_with_chain_pending ::
  "nonce_cache \<Rightarrow> bytes \<Rightarrow> nat \<Rightarrow> (nat option \<times> nat) \<times> nonce_cache" where
  "reconcile_with_chain_pending cache a chain_pending =
     (let before = cache a;
          reconciled = (case before of
              Some l \<Rightarrow> if l > chain_pending then chain_pending else max l chain_pending
            | None \<Rightarrow> chain_pending)
      in ((before, reconciled), cache(a \<mapsto> reconciled)))"

definition reclaim_rejected_nonce ::
  "nonce_cache \<Rightarrow> bytes \<Rightarrow> nat \<Rightarrow> nat \<Rightarrow> (nat option \<times> nat) \<times> nonce_cache" where
  "reclaim_rejected_nonce cache a rejected_nonce chain_pending =
     (let before = cache a;
          after = (case before of
              Some l \<Rightarrow>
                if chain_pending = rejected_nonce \<and> l = saturating_add u64_bound rejected_nonce 1
                then rejected_nonce else max l chain_pending
            | None \<Rightarrow> chain_pending)
      in ((before, after), cache(a \<mapsto> after)))"

definition take_next :: "nonce_cache \<Rightarrow> bytes \<Rightarrow> nat option \<times> nonce_cache" where
  "take_next cache a =
     (case cache a of
        None \<Rightarrow> (None, cache)
      | Some taken \<Rightarrow>
          (case checked_add u64_bound taken 1 of
             None \<Rightarrow> (None, cache)
           | Some n \<Rightarrow> (Some taken, cache(a \<mapsto> n))))"

definition peek :: "nonce_cache \<Rightarrow> bytes \<Rightarrow> nat option" where
  "peek cache a = cache a"

definition cache_lead :: "nonce_cache \<Rightarrow> bytes \<Rightarrow> nat \<Rightarrow> int" where
  "cache_lead cache a chain_pending =
     int (case cache a of None \<Rightarrow> chain_pending | Some l \<Rightarrow> l) - int chain_pending"

section \<open>Classification of submission errors\<close>

datatype submission_outcome = NonceTooLow | DefinitelyRejected | Replacement | Ambiguous

definition rejection_phrases :: "string list" where
  "rejection_phrases =
     [''insufficient funds'', ''transaction underpriced'', ''intrinsic gas too low'',
      ''exceeds block gas limit'', ''gas required exceeds'',
      ''max fee per gas less than block base fee'', ''fee cap less than block base fee'',
      ''max fee per gas below block base fee'', ''nonce too high'',
      ''max priority fee per gas higher than max fee per gas'', ''invalid sender'',
      ''invalid signature'', ''invalid signer'', ''invalid chain id'', ''txpool is full'',
      ''tx pool is full'', ''transaction pool is full'', ''transaction type not supported'',
      ''invalid transaction'']"

definition classify_submission_outcome :: "string \<Rightarrow> submission_outcome" where
  "classify_submission_outcome message =
     (let lower = to_lowercase message
      in if str_contains ''nonce too low'' lower \<or> str_contains ''nonce is too low'' lower
         then NonceTooLow
         else if str_contains ''replacement transaction underpriced'' lower \<or>
           str_contains ''already known'' lower
         then Replacement
         else if list_ex (\<lambda>p. str_contains p lower) rejection_phrases
         then DefinitelyRejected
         else Ambiguous)"

definition is_nonce_too_low_error :: "string \<Rightarrow> bool" where
  "is_nonce_too_low_error message = (classify_submission_outcome message = NonceTooLow)"

section \<open>Nonces in flight\<close>

text \<open>
  The state of a signer's process: the cache and, per address, the transactions that were handed a
  nonce and may still be in a mempool, one entry each.  The flag of an entry says that the cache was
  moved back over it on the word of a node: while it was in flight, a pending count that leaves the
  nonce out was read by a reconciliation, or by the rejection of another transaction with the same
  nonce.  The nodes' answers (\<open>pending\<close>) are arbitrary, so they may lag.

  \<open>replace\<close> is a same-nonce replacement, \<open>reject\<close> a transaction refused before the pool and reported to
  \<^verbatim>\<open>reclaim_rejected_nonce\<close>, \<open>leave\<close> a transaction that is mined or dropped.
\<close>

record nonce_state =
  ns_cache :: nonce_cache
  ns_inflight :: "bytes \<Rightarrow> (nat \<times> bool) list"

definition discount :: "(nat \<Rightarrow> bool) \<Rightarrow> (nat \<times> bool) list \<Rightarrow> (nat \<times> bool) list" where
  "discount P ns = map (\<lambda>(n, f). (n, f \<or> P n)) ns"

inductive nonce_step :: "nonce_state \<Rightarrow> nonce_state \<Rightarrow> bool" where
  seed: "nonce_step st (st\<lparr>ns_cache := snd (set_next_nonce (ns_cache st) a n)\<rparr>)"
| reset: "nonce_step st (st\<lparr>ns_cache := snd (reset_next_nonce (ns_cache st) a n)\<rparr>)"
| take: "take_next (ns_cache st) a = (Some n, cache') \<Longrightarrow>
    nonce_step st (st\<lparr>ns_cache := cache', ns_inflight := (ns_inflight st)(a := (n, False) # ns_inflight st a)\<rparr>)"
| replace: "x \<in> set (ns_inflight st a) \<Longrightarrow>
    nonce_step st (st\<lparr>ns_inflight := (ns_inflight st)(a := x # ns_inflight st a)\<rparr>)"
| reject: "(n, f) \<in> set (ns_inflight st a) \<Longrightarrow>
    nonce_step st (st\<lparr>ns_cache := snd (reclaim_rejected_nonce (ns_cache st) a n pending),
      ns_inflight := (ns_inflight st)(a := discount (\<lambda>m. m = n \<and> pending = n) (remove1 (n, f) (ns_inflight st a)))\<rparr>)"
| leave: "nonce_step st (st\<lparr>ns_inflight := (ns_inflight st)(a := remove1 x (ns_inflight st a))\<rparr>)"
| reconcile: "nonce_step st (st\<lparr>ns_cache := snd (reconcile_with_chain_pending (ns_cache st) a pending),
      ns_inflight := (ns_inflight st)(a := discount (\<lambda>m. pending \<le> m) (ns_inflight st a))\<rparr>)"

definition above :: "nat option \<Rightarrow> (nat \<times> bool) list \<Rightarrow> bool" where
  "above c ns \<longleftrightarrow> (\<forall>n. (n, False) \<in> set ns \<longrightarrow> (\<exists>l. c = Some l \<and> n < l))"

definition nonce_inv :: "nonce_state \<Rightarrow> bool" where
  "nonce_inv st \<longleftrightarrow> (\<forall>a. above (ns_cache st a) (ns_inflight st a))"

definition nonce_start :: nonce_state where
  "nonce_start = \<lparr>ns_cache = Map.empty, ns_inflight = (\<lambda>_. [])\<rparr>"

inductive_cases nonce_stepE: "nonce_step st st'"

lemma set_next_nonce_cache:
  "snd (set_next_nonce cache a n) b =
     (if b = a then Some (case cache a of None \<Rightarrow> n | Some l \<Rightarrow> max l n) else cache b)"
  by (auto simp: set_next_nonce_def Let_def split: option.splits)

lemma reset_next_nonce_cache:
  "snd (reset_next_nonce cache a n) b =
     (if b = a then Some (case cache a of None \<Rightarrow> n | Some l \<Rightarrow> max l n) else cache b)"
  by (auto simp: reset_next_nonce_def Let_def split: option.splits)

lemma reclaim_cache:
  "snd (reclaim_rejected_nonce cache a n p) b =
     (if b = a then Some (case cache a of None \<Rightarrow> p
        | Some l \<Rightarrow> if p = n \<and> l = saturating_add u64_bound n 1 then n else max l p)
      else cache b)"
  by (auto simp: reclaim_rejected_nonce_def Let_def split: option.splits)

lemma reconcile_cache:
  "snd (reconcile_with_chain_pending cache a p) b = (if b = a then Some p else cache b)"
  by (auto simp: reconcile_with_chain_pending_def Let_def split: option.splits)

lemma take_next_Some:
  "take_next cache a = (Some n, cache') \<longleftrightarrow>
     cache a = Some n \<and> n + 1 < u64_bound \<and> cache' = cache(a \<mapsto> n + 1)"
  by (auto simp: take_next_def checked_add_def split: option.splits if_splits)

lemma unflagged_discount [simp]: "(n, False) \<in> set (discount P ns) \<longleftrightarrow> (n, False) \<in> set ns \<and> \<not> P n"
  by (force simp: discount_def)

lemma above_raise: "above c ns \<Longrightarrow> (\<And>l. c = Some l \<Longrightarrow> l \<le> l') \<Longrightarrow> above (Some l') ns"
  by (fastforce simp: above_def)

lemma above_take: "above (Some n) ns \<Longrightarrow> above (Some (n + 1)) ((n, False) # ns)"
  by (fastforce simp: above_def)

lemma above_remove: "above c ns \<Longrightarrow> above c (remove1 x ns)"
  by (auto simp: above_def dest: notin_set_remove1)

lemma above_again: "above c ns \<Longrightarrow> x \<in> set ns \<Longrightarrow> above c (x # ns)"
  by (auto simp: above_def)

lemma above_pending: "above c ns \<Longrightarrow> above (Some p) (discount (\<lambda>n. p \<le> n) ns)"
  by (auto simp: above_def)

lemma above_reclaim:
  assumes "above c ns"
  shows "above (Some (case c of None \<Rightarrow> p
      | Some l \<Rightarrow> if p = n \<and> l = saturating_add u64_bound n 1 then n else max l p))
    (discount (\<lambda>m. m = n \<and> p = n) (remove1 x ns))"
proof -
  have old: "\<exists>l. c = Some l \<and> m < l" if "(m, False) \<in> set (remove1 x ns)" for m
    using assms that by (auto simp: above_def dest: notin_set_remove1)
  show ?thesis
    unfolding above_def unflagged_discount
  proof (intro allI impI exI conjI)
    fix m assume m: "(m, False) \<in> set (remove1 x ns) \<and> \<not> (m = n \<and> p = n)"
    then obtain l where "c = Some l" "m < l" using old by blast
    with m show "m < (case c of None \<Rightarrow> p | Some l \<Rightarrow> if p = n \<and> l = saturating_add u64_bound n 1 then n else max l p)"
      by (auto simp: saturating_add_def split: if_splits)
  qed simp
qed

lemma nonce_step_inv:
  assumes "nonce_step st st'" "nonce_inv st"
  shows "nonce_inv st'"
proof -
  have inv: "above (ns_cache st a) (ns_inflight st a)" for a using assms(2) by (simp add: nonce_inv_def)
  show ?thesis using assms(1)
  proof cases
    case (seed a n)
    then show ?thesis using inv above_raise [OF inv [of a]]
      by (auto simp: nonce_inv_def set_next_nonce_cache split: option.splits)
  next
    case (reset a n)
    then show ?thesis using inv above_raise [OF inv [of a]]
      by (auto simp: nonce_inv_def reset_next_nonce_cache split: option.splits)
  next
    case (take a n cache')
    then show ?thesis using inv inv [of a] above_take by (auto simp: nonce_inv_def take_next_Some)
  next
    case (replace x a)
    then show ?thesis using inv above_again by (auto simp: nonce_inv_def)
  next
    case (reject n f a pending)
    then show ?thesis using inv above_reclaim [OF inv] by (auto simp: nonce_inv_def reclaim_cache)
  next
    case (leave a x)
    then show ?thesis using inv above_remove by (auto simp: nonce_inv_def)
  next
    case (reconcile a pending)
    then show ?thesis using inv above_pending [OF inv] by (auto simp: nonce_inv_def reconcile_cache)
  qed
qed

lemma nonce_steps_inv: "nonce_step\<^sup>*\<^sup>* st st' \<Longrightarrow> nonce_inv st \<Longrightarrow> nonce_inv st'"
  by (induction rule: rtranclp_induct) (auto intro: nonce_step_inv)

lemma nonce_inv_start: "nonce_inv nonce_start"
  by (simp add: nonce_inv_def nonce_start_def above_def)

text \<open>Lower-casing twice is lower-casing once, so the classification ignores letter case.\<close>

lemma lower_char_idem [simp]: "lower_char (lower_char c) = lower_char c"
  by (auto simp: lower_char_def)

lemma to_lowercase_idem [simp]: "to_lowercase (to_lowercase s) = to_lowercase s"
  by (simp add: to_lowercase_def)

section \<open>Properties\<close>

text \<open>
  C12: A nonce is not handed out twice behind a transaction's back.  In every state reachable from an
  empty cache by seeding, resetting, taking, replacing, rejecting, mining or dropping and reconciling,
  with whatever pending counts the nodes answer, the next nonce \<^verbatim>\<open>take_next\<close> hands out for an address is
  above the nonce of every transaction of it that may still be in a mempool, except of those
  over which the cache was moved back while they were in flight: by \<^verbatim>\<open>reconcile_with_chain_pending\<close> with a
  pending count at or below their nonce, or by the rejection of another transaction with the very same
  nonce when the pending count equals it.  Seeding and resetting with a pending count that lags never
  do this, nor does the rejection of an older or a newer nonce.
\<close>

theorem inflight_nonce_never_reissued:
  assumes "nonce_step\<^sup>*\<^sup>* nonce_start st" and "take_next (ns_cache st) a = (Some n, cache')"
    and "(m, moved_back) \<in> set (ns_inflight st a)"
  shows "m < n \<or> moved_back"
proof -
  have "above (ns_cache st a) (ns_inflight st a)"
    using nonce_steps_inv [OF assms(1) nonce_inv_start] by (simp add: nonce_inv_def)
  then show ?thesis using assms(2,3) by (cases moved_back) (auto simp: above_def take_next_Some)
qed

text \<open>A signer that took nonce 7 and replaced the transaction; then the replacement is rejected.\<close>

definition took_seven :: nonce_state where
  "took_seven = \<lparr>ns_cache = [[1] \<mapsto> 8], ns_inflight = (\<lambda>_. [])([1] := [(7, False)])\<rparr>"

lemma took_seven_reachable: "nonce_step\<^sup>*\<^sup>* nonce_start took_seven"
proof -
  define st1 where "st1 = nonce_start\<lparr>ns_cache := snd (set_next_nonce (ns_cache nonce_start) [1] 7)\<rparr>"
  have "ns_cache st1 = [[1] \<mapsto> 7]" by (simp add: st1_def nonce_start_def set_next_nonce_def)
  then have t: "take_next (ns_cache st1) [1] = (Some 7, [[1] \<mapsto> 8])" by (simp add: take_next_Some)
  have "nonce_step st1 took_seven"
    using nonce_step.take [OF t] by (simp add: st1_def nonce_start_def took_seven_def)
  moreover have "nonce_step nonce_start st1" unfolding st1_def by (rule nonce_step.seed)
  ultimately show ?thesis by simp
qed

theorem inflight_nonce_never_reissued_witness:
  "nonce_step\<^sup>*\<^sup>* nonce_start took_seven \<and> fst (take_next (ns_cache took_seven) [1]) = Some 8 \<and> (7 < (8 :: nat) \<or> False)"
proof -
  have take: "take_next (ns_cache took_seven) [1] = (Some 8, [[1] \<mapsto> 9])"
    by (simp add: took_seven_def take_next_Some)
  have "(7, False) \<in> set (ns_inflight took_seven [1])" by (simp add: took_seven_def)
  from inflight_nonce_never_reissued [OF took_seven_reachable take this] show ?thesis
    using took_seven_reachable take by simp
qed

text \<open>
  The exception is real: when the replacement is rejected and the node does not count the original yet,
  the original's nonce is handed out again; likewise after a reconciliation with such a count.
\<close>

lemma lagging_rejection_reissues:
  "\<exists>st. nonce_step\<^sup>*\<^sup>* nonce_start st \<and> (7, True) \<in> set (ns_inflight st [1]) \<and> fst (take_next (ns_cache st) [1]) = Some 7"
proof -
  define st1 where "st1 = took_seven\<lparr>ns_inflight := (ns_inflight took_seven)([1] := (7, False) # ns_inflight took_seven [1])\<rparr>"
  define st2 where "st2 = st1\<lparr>ns_cache := snd (reclaim_rejected_nonce (ns_cache st1) [1] 7 7),
    ns_inflight := (ns_inflight st1)([1] := discount (\<lambda>m. m = 7 \<and> (7 :: nat) = 7) (remove1 (7, False) (ns_inflight st1 [1])))\<rparr>"
  have "nonce_step took_seven st1" unfolding st1_def by (rule nonce_step.replace) (simp add: took_seven_def)
  moreover have "nonce_step st1 st2" unfolding st2_def by (rule nonce_step.reject) (simp add: st1_def took_seven_def)
  ultimately have "nonce_step\<^sup>*\<^sup>* nonce_start st2" using took_seven_reachable by (meson rtranclp.rtrancl_into_rtrancl)
  moreover have "(7, True) \<in> set (ns_inflight st2 [1])" by (simp add: st2_def st1_def took_seven_def discount_def)
  moreover have "fst (take_next (ns_cache st2) [1]) = Some 7"
    by (simp add: st2_def st1_def took_seven_def reclaim_rejected_nonce_def take_next_def checked_add_def saturating_add_def Let_def)
  ultimately show ?thesis by blast
qed

lemma lagging_reconciliation_reissues:
  "\<exists>st. nonce_step\<^sup>*\<^sup>* nonce_start st \<and> (7, True) \<in> set (ns_inflight st [1]) \<and> fst (take_next (ns_cache st) [1]) = Some 7"
proof -
  define st1 where "st1 = took_seven\<lparr>ns_cache := snd (reconcile_with_chain_pending (ns_cache took_seven) [1] 7),
    ns_inflight := (ns_inflight took_seven)([1] := discount (\<lambda>m. (7 :: nat) \<le> m) (ns_inflight took_seven [1]))\<rparr>"
  have "nonce_step took_seven st1" unfolding st1_def by (rule nonce_step.reconcile)
  then have "nonce_step\<^sup>*\<^sup>* nonce_start st1" using took_seven_reachable by (meson rtranclp.rtrancl_into_rtrancl)
  moreover have "(7, True) \<in> set (ns_inflight st1 [1])" by (simp add: st1_def took_seven_def discount_def)
  moreover have "fst (take_next (ns_cache st1) [1]) = Some 7"
    by (simp add: st1_def took_seven_def reconcile_with_chain_pending_def take_next_def checked_add_def Let_def)
  ultimately show ?thesis by blast
qed

text \<open>
  A nonce is taken back exactly when the chain is waiting for it and it was the last one
  handed out; in every other case the cache does not go down, and ends at or above the chain's
  pending nonce.  Where it is taken back the very next \<^verbatim>\<open>take_next\<close> hands it out again, so the
  rejection leaves no gap.
\<close>

theorem reclaim_closes_gap_or_advances:
  assumes "cache a = Some l" and "n + 1 < u64_bound"
    and "reclaim_rejected_nonce cache a n pending = ((before, after), cache')"
  shows "if pending = n \<and> l = n + 1 then after = n \<and> fst (take_next cache' a) = Some n
    else l \<le> after \<and> pending \<le> after \<and> cache' a = Some after"
proof -
  have "saturating_add u64_bound n 1 = n + 1" using assms(2) by (simp add: saturating_add_def)
  then show ?thesis using assms(2,3)
    by (auto simp: reclaim_rejected_nonce_def Let_def take_next_def checked_add_def assms(1))
qed

theorem reclaim_closes_gap_or_advances_witness:
  "\<exists>cache'. reclaim_rejected_nonce [[1] \<mapsto> 8] [1] 7 7 = ((Some 8, 7), cache') \<and>
     fst (take_next cache' [1]) = Some 7"
proof -
  obtain before after cache' where run:
    "reclaim_rejected_nonce [[1] \<mapsto> 8] [1] 7 7 = ((before, after), cache')" by (metis prod.exhaust)
  then have "before = Some 8" by (simp add: reclaim_rejected_nonce_def Let_def)
  then show ?thesis using reclaim_closes_gap_or_advances [OF _ _ run, of 8] run by auto
qed

text \<open>
  The classification of a submission error ignores letter case, and whatever else a message
  says it is not classified as rejected before the pool, which would allow the nonce to be
  handed out again, when it reports a nonce that is too low or one that another transaction
  holds; without one of the listed rejection phrases it is not classified so either.
\<close>

theorem rejection_needs_evidence:
  "classify_submission_outcome (to_lowercase m) = classify_submission_outcome m \<and>
   (classify_submission_outcome m = DefinitelyRejected \<longleftrightarrow>
      (\<exists>p \<in> set rejection_phrases. str_contains p (to_lowercase m)) \<and>
      \<not> (\<exists>p \<in> {''nonce too low'', ''nonce is too low'', ''replacement transaction underpriced'',
          ''already known''}. str_contains p (to_lowercase m)))"
  by (auto simp: classify_submission_outcome_def Let_def list_ex_iff)

end
