(* ===== verification/Solver_Machine.thy ===== *)
theory Solver_Machine
  imports Order_State Attempt_Store Delivery_Events
begin

text \<open>
  What the handlers of \<^verbatim>\<open>crates/solver-core/src/handlers\<close> share: the events of
  \<^verbatim>\<open>crates/solver-types/src/events.rs\<close>, intents, the storage-backed services bundled in one record,
  the callback that turns monitoring events into published events, and the best-effort writes
  after a submission.  A handler returns the events it published, in order, its result and the
  world.
\<close>

section \<open>Events\<close>

record intent_metadata =
  im_requires_auction :: bool
  im_exclusive_until :: "nat option"
  im_discovered_at :: nat

record intent =
  in_id :: string
  in_source :: string
  in_standard :: string
  in_metadata :: intent_metadata
  in_data :: json
  in_order_bytes :: bytes
  in_quote_id :: "string option"
  in_lock_type :: string

datatype discovery_event =
    IntentDiscovered intent
  | IntentValidated string order
  | IntentRejected string string

datatype order_event =
    OrderPreparing intent order execution_params
  | OrderExecuting order execution_params
  | OrderSkipped string string
  | OrderDeferred string nat

datatype settlement_event =
    FillDetected string bytes
  | ProofReady string fill_proof
  | PostFillReady string
  | PreClaimReady string
  | StartMonitoring string bytes
  | ClaimReady string
  | Completed string

datatype solver_event =
    DiscoveryEv discovery_event
  | OrderEv order_event
  | DeliveryEv delivery_event
  | SettlementEv settlement_event

section \<open>Services\<close>

text \<open>The errors of the settlement service (\<^verbatim>\<open>crates/solver-settlement/src/lib.rs\<close>).\<close>

datatype settlement_service_error =
    ValidationFailed string
  | InvalidProof
  | FillMismatch
  | ProofGenerationFailed nat string
  | FinalityNotReached nat nat
  | ProverUnavailable string
  | SlotDerivationMismatch
  | BackendUnavailable string
  | StorageUnavailable string

record ('s, 'b) machine =
  mc_backend :: "('s, 'b) backend"
  mc_orders :: "(order, 'b) codec"
  mc_reservations :: "(lock_reservations, 'b) codec"
  mc_attempts :: "(transaction_attempt, 'b) codec"
  mc_strings :: "(string, 'b) codec"
  mc_hex :: "bytes \<Rightarrow> string"
  mc_parse :: parse_order_data
  mc_show_status :: "order_status \<Rightarrow> string"
  mc_sched :: "'s sched"

definition retrieve_order :: "('s, 'b) machine \<Rightarrow> string \<Rightarrow> 's world \<Rightarrow> (storage_error, order) result \<times> 's world" where
  "retrieve_order M oid w = svc_retrieve (mc_backend M) (mc_orders M) (mc_sched M) (storage_key_str Orders) oid w"

definition update_order ::
  "('s, 'b) machine \<Rightarrow> string \<Rightarrow> (order \<Rightarrow> order) \<Rightarrow> 's world \<Rightarrow> (order_state_error, order) result \<times> 's world" where
  "update_order M oid f w = update_order_with (mc_backend M) (mc_orders M) (mc_sched M) oid f w"

definition try_transition ::
  "('s, 'b) machine \<Rightarrow> string \<Rightarrow> order_status \<Rightarrow> (order \<Rightarrow> order) \<Rightarrow> 's world
   \<Rightarrow> (order_state_error, order_transition_outcome) result \<times> 's world" where
  "try_transition M oid st f w =
     try_transition_order_status (mc_parse M) (mc_backend M) (mc_orders M) (mc_reservations M) (mc_sched M) oid st f w"

definition force_transition ::
  "('s, 'b) machine \<Rightarrow> string \<Rightarrow> order_status \<Rightarrow> 's world \<Rightarrow> (order_state_error, order) result \<times> 's world" where
  "force_transition M oid st w =
     transition_order_status (mc_parse M) (mc_backend M) (mc_orders M) (mc_reservations M) (mc_sched M) oid st w"

definition put_fill_proof ::
  "('s, 'b) machine \<Rightarrow> string \<Rightarrow> fill_proof \<Rightarrow> 's world \<Rightarrow> (order_state_error, order) result \<times> 's world" where
  "put_fill_proof M oid prf w = set_fill_proof (mc_backend M) (mc_orders M) (mc_sched M) oid prf w"

definition order_attempts ::
  "('s, 'b) machine \<Rightarrow> string \<Rightarrow> 's world \<Rightarrow> (attempt_store_error, transaction_attempt list) result \<times> 's world" where
  "order_attempts M oid w = attempts_for_order (mc_backend M) (mc_attempts M) (mc_hex M) (mc_sched M) oid w"

definition store_order_by_hash ::
  "('s, 'b) machine \<Rightarrow> bytes \<Rightarrow> string \<Rightarrow> 's world \<Rightarrow> (storage_error, unit) result \<times> 's world" where
  "store_order_by_hash M h oid w =
     svc_store (mc_backend M) (mc_strings M) (mc_sched M) (storage_key_str OrderByTxHash) (mc_hex M h) oid None w"

text \<open>
  After a submission: record the hash on the order and the reverse mapping; failures are only logged.
\<close>

definition record_submission :: "('s, 'b) machine \<Rightarrow> string \<Rightarrow> bytes \<Rightarrow> transaction_type \<Rightarrow> 's world \<Rightarrow> 's world" where
  "record_submission M oid h ty w =
     (let w1 = snd (set_transaction_hash (mc_backend M) (mc_orders M) (mc_sched M) oid h ty w)
      in snd (store_order_by_hash M h oid w1))"

text \<open>
  The callback of a live transaction: a stage-complete revert and an undetermined outcome are left
  to recovery and publish nothing.
\<close>

fun live_callback :: "monitoring_event \<Rightarrow> delivery_event list" where
  "live_callback (MonConfirmed i h ty rcpt) = [TransactionConfirmed i h ty rcpt]"
| "live_callback (MonFailed i h ty err cls) =
     (case cls of StageComplete _ \<Rightarrow> [] | _ \<Rightarrow> [TransactionFailed i h ty err])"
| "live_callback (MonIndeterminate i h ty reason) = []"
| "live_callback (MonAttemptLedgerConflict i a ty h st err ctx) =
     [TransactionAttemptLedgerConflict i a ty h st err ctx]"

text \<open>
  The delivery service as a handler sees it: the transaction, the order and the stage it is for;
  the hash or the error.  It records the attempt in the ledger before it broadcasts.
\<close>

type_synonym 's deliver_stage =
  "execution_transaction \<Rightarrow> string \<Rightarrow> transaction_type \<Rightarrow> 's world \<Rightarrow> (delivery_error, bytes) result \<times> 's world"

text \<open>The display of an order state error; statuses appear in their debug form, a parameter.\<close>

definition order_error_text :: "('s, 'b) machine \<Rightarrow> order_state_error \<Rightarrow> string" where
  "order_error_text M e =
     (case e of
        OrderStorage m \<Rightarrow> ''Storage error: '' @ m
      | InvalidTransition a b \<Rightarrow>
          ''Invalid state transition from '' @ mc_show_status M a @ '' to '' @ mc_show_status M b
      | OrderNotFound i \<Rightarrow> ''Order not found: '' @ i
      | OrderTimeError m \<Rightarrow> ''Time error: '' @ m)"

section \<open>Handlers\<close>

text \<open>
  A run emits values in order, may fail, and changes a state; a traced computation is a run on the
  world of the storage service, and a handler emits the events it publishes.  \<open>and_then\<close> is the
  question mark operator between two parts of a body: what was emitted before an error stays
  emitted.
\<close>

type_synonym ('w, 'v, 'x, 'a) run = "'w \<Rightarrow> 'v list \<times> ('x, 'a) result \<times> 'w"

type_synonym ('s, 'v, 'x, 'a) traced = "('s world, 'v, 'x, 'a) run"

type_synonym ('s, 'x, 'a) handler = "('s, solver_event, 'x, 'a) traced"

definition and_then :: "('w, 'v, 'x, 'a) run \<Rightarrow> ('a \<Rightarrow> ('w, 'v, 'x, 'b) run) \<Rightarrow> ('w, 'v, 'x, 'b) run" where
  "and_then m k w =
     (case m w of
        (evs, Inl e, w1) \<Rightarrow> (evs, Inl e, w1)
      | (evs, Inr a, w1) \<Rightarrow> (case k a w1 of (evs', r, w2) \<Rightarrow> (evs @ evs', r, w2)))"

definition ok :: "'a \<Rightarrow> ('w, 'v, 'x, 'a) run" where
  "ok a w = ([], Inr a, w)"

definition err :: "'x \<Rightarrow> ('w, 'v, 'x, 'a) run" where
  "err e w = ([], Inl e, w)"

definition publish :: "'v \<Rightarrow> ('w, 'v, 'x, unit) run" where
  "publish ev w = ([ev], Inr (), w)"

text \<open>A call of a service with its errors mapped, one whose result is dropped, and a missing value as an error.\<close>

definition call :: "('e \<Rightarrow> 'x) \<Rightarrow> ('w \<Rightarrow> ('e, 'a) result \<times> 'w) \<Rightarrow> ('w, 'v, 'x, 'a) run" where
  "call f m w = (case m w of (Inl e, w1) \<Rightarrow> ([], Inl (f e), w1) | (Inr a, w1) \<Rightarrow> ([], Inr a, w1))"

definition ignore :: "('w \<Rightarrow> 'r \<times> 'w) \<Rightarrow> ('w, 'v, 'x, unit) run" where
  "ignore m w = ([], Inr (), snd (m w))"

definition require :: "'x \<Rightarrow> 'a option \<Rightarrow> ('w, 'v, 'x, 'a) run" where
  "require e v w = (case v of None \<Rightarrow> ([], Inl e, w) | Some a \<Rightarrow> ([], Inr a, w))"

definition lift_result :: "('e \<Rightarrow> 'x) \<Rightarrow> ('e, 'a) result \<Rightarrow> ('w, 'v, 'x, 'a) run" where
  "lift_result f r w = (case r of Inl e \<Rightarrow> ([], Inl (f e), w) | Inr a \<Rightarrow> ([], Inr a, w))"

lemmas handler_defs = and_then_def ok_def err_def publish_def call_def ignore_def require_def lift_result_def

text \<open>Two runs that agree on their first part differ only if that part succeeds and the rest differs.\<close>

lemma and_then_differs:
  assumes "and_then m k w \<noteq> and_then m k' w"
  shows "\<exists>evs a w1. m w = (evs, Inr a, w1) \<and> k a w1 \<noteq> k' a w1"
proof (cases "m w")
  case (fields evs r w1)
  then show ?thesis using assms by (cases r) (auto simp: and_then_def)
qed

text \<open>What a handler does to the world in its successful and failing runs, for invariants of the store.\<close>

definition keeps :: "('s \<Rightarrow> 's \<Rightarrow> bool) \<Rightarrow> ('s, 'v, 'x, 'a) traced \<Rightarrow> bool" where
  "keeps R m \<longleftrightarrow> (\<forall>w. R\<^sup>*\<^sup>* (w_store w) (w_store (snd (snd (m w)))))"

lemma keeps_and_then:
  assumes "keeps R m" and "\<And>a. keeps R (k a)"
  shows "keeps R (and_then m k)"
  unfolding keeps_def
proof
  fix w
  obtain evs r w1 where m: "m w = (evs, r, w1)" by (cases "m w")
  have 1: "R\<^sup>*\<^sup>* (w_store w) (w_store w1)" using assms(1) m unfolding keeps_def by (metis snd_conv)
  show "R\<^sup>*\<^sup>* (w_store w) (w_store (snd (snd (and_then m k w))))"
  proof (cases r)
    case (Inl e)
    then show ?thesis using 1 by (simp add: and_then_def m)
  next
    case (Inr a)
    obtain evs' r' w2 where k: "k a w1 = (evs', r', w2)" by (cases "k a w1")
    have "R\<^sup>*\<^sup>* (w_store w1) (w_store w2)" using assms(2) [of a] k unfolding keeps_def by (metis snd_conv)
    then show ?thesis using 1 Inr by (simp add: and_then_def m k)
  qed
qed

lemma keeps_simple [simp, intro]:
  "keeps R (ok a)" "keeps R (err e)" "keeps R (publish ev)" "keeps R (require e v)" "keeps R (lift_result f q)"
  by (simp_all add: keeps_def ok_def err_def publish_def require_def lift_result_def split: option.splits sum.splits)

lemma keeps_call: "(\<And>w. R\<^sup>*\<^sup>* (w_store w) (w_store (snd (m w)))) \<Longrightarrow> keeps R (call f m)"
  unfolding keeps_def call_def by (metis (mono_tags, lifting) old.prod.case snd_conv sum.case_eq_if surj_pair)

lemma keeps_ignore: "(\<And>w. R\<^sup>*\<^sup>* (w_store w) (w_store (snd (m w)))) \<Longrightarrow> keeps R (ignore m)"
  by (simp add: keeps_def ignore_def)

section \<open>Orders only move along the table\<close>

text \<open>
  A machine on the memory backend whose other writers only move orders along the transition
  table, and the same for what a service call does to the store.
\<close>

definition fair_machine :: "('b memory_storage, 'b) machine \<Rightarrow> bool" where
  "fair_machine M \<longleftrightarrow> mc_backend M = memory_backend \<and> fair_orders memory_live (mc_orders M) (mc_sched M)"

abbreviation moves :: "('b memory_storage, 'b) machine \<Rightarrow> 'b memory_storage \<Rightarrow> 'b memory_storage \<Rightarrow> bool" where
  "moves M \<equiv> order_step memory_live (mc_orders M)"

lemma fair_machineD:
  "fair_machine M \<Longrightarrow> mc_backend M = memory_backend"
  "fair_machine M \<Longrightarrow> fair_orders memory_live (mc_orders M) (mc_sched M)"
  by (simp_all add: fair_machine_def)

lemma resume_moves: "fair_machine M \<Longrightarrow> (moves M)\<^sup>*\<^sup>* (w_store w) (w_store (resume (mc_sched M) w))"
  by (rule fair_orders_resume [OF fair_machineD(2)])

lemma resume2_moves:
  "fair_machine M \<Longrightarrow> (moves M)\<^sup>*\<^sup>* (w_store w) (w_store (resume (mc_sched M) (resume (mc_sched M) w)))"
  using resume_moves [of M w] resume_moves [of M "resume (mc_sched M) w"] by (meson rtranclp_trans)

lemma retrieve_order_moves:
  "fair_machine M \<Longrightarrow> (moves M)\<^sup>*\<^sup>* (w_store w) (w_store (snd (retrieve_order M oid w)))"
  by (simp add: retrieve_order_def svc_defs Let_def resume_moves split: sum.splits)

lemma update_order_moves:
  assumes "fair_machine M" "\<And>ord. status (f ord) = status ord"
  shows "(moves M)\<^sup>*\<^sup>* (w_store w) (w_store (snd (update_order M oid f w)))"
  using mem.update_loop_steps [OF fair_machineD(2) [OF assms(1)] assms(2) surjective_pairing]
  by (simp add: update_order_def update_order_with_def fair_machineD(1) [OF assms(1)])

lemma try_transition_explained:
  assumes "fair_machine M" "\<And>ord. status (f ord) = status ord" "try_transition M oid st f w = (r, w')"
  shows "explained memory_live (mc_orders M) oid st f (w_store w) (w_store w') r"
  using mem.transition_loop_explained [OF fair_machineD(2) [OF assms(1)] assms(2)] assms(3)
  unfolding try_transition_def try_transition_order_status_def fair_machineD(1) [OF assms(1)] by blast

lemma try_transition_moves:
  assumes "fair_machine M" "\<And>ord. status (f ord) = status ord"
  shows "(moves M)\<^sup>*\<^sup>* (w_store w) (w_store (snd (try_transition M oid st f w)))"
  by (rule explained_steps [OF try_transition_explained [OF assms surjective_pairing] assms(2)])

lemma force_transition_moves:
  assumes "fair_machine M"
  shows "(moves M)\<^sup>*\<^sup>* (w_store w) (w_store (snd (force_transition M oid st w)))"
proof -
  have "snd (force_transition M oid st w) = snd (try_transition M oid st (\<lambda>ord. ord) w)"
    by (simp add: force_transition_def transition_order_status_def try_transition_def split: prod.splits sum.splits)
  then show ?thesis using try_transition_moves [OF assms, of "\<lambda>ord. ord"] by simp
qed

lemma put_fill_proof_moves:
  "fair_machine M \<Longrightarrow> (moves M)\<^sup>*\<^sup>* (w_store w) (w_store (snd (put_fill_proof M oid prf w)))"
  using update_order_moves [of M "\<lambda>ord. ord\<lparr>order_fill_proof := Some prf\<rparr>" w oid]
  by (simp add: put_fill_proof_def set_fill_proof_def update_order_def)

lemma order_attempts_moves:
  assumes "fair_machine M"
  shows "(moves M)\<^sup>*\<^sup>* (w_store w) (w_store (snd (order_attempts M oid w)))"
  using resume_moves [OF assms, of w] resume2_moves [OF assms, of w]
  by (simp add: order_attempts_def attempts_for_order_def query_attempts_def svc_query_def call_read_def Let_def
      lift_attempt_error_def split: sum.splits prod.splits)

lemma hash_key_not_order [simp]: "order_key i \<noteq> mk_key ''order_by_tx_hash'' j"
  unfolding order_key_def mk_key_def by simp

lemma store_order_by_hash_moves:
  assumes "fair_machine M"
  shows "(moves M)\<^sup>*\<^sup>* (w_store w) (w_store (snd (store_order_by_hash M h oid w)))"
proof (cases "encode (mc_strings M) oid")
  case (Inl e)
  then show ?thesis by (simp add: store_order_by_hash_def svc_defs)
next
  case (Inr b)
  let ?sc = "mc_sched M" and ?k = "mk_key (storage_key_str OrderByTxHash) (mc_hex M h)"
  have "moves M (w_store (resume ?sc w)) (put_entry (w_now ?sc (resume ?sc w)) (w_store (resume ?sc w)) ?k b None None)"
    by (rule order_step.elsewhere) (simp add: memory_live_put)
  moreover have "w_store (snd (store_order_by_hash M h oid w)) =
      put_entry (w_now ?sc (resume ?sc w)) (w_store (resume ?sc w)) ?k b None None"
    using Inr by (simp add: store_order_by_hash_def svc_defs Let_def fair_machineD(1) [OF assms] memory_backend_def
        memory_set_bytes_def)
  ultimately show ?thesis using resume_moves [OF assms, of w] by simp
qed

lemma record_transaction_hash_status [simp]: "status (record_transaction_hash ty h ord) = status ord"
  by (cases ty) simp_all

lemma record_submission_moves:
  assumes "fair_machine M"
  shows "(moves M)\<^sup>*\<^sup>* (w_store w) (w_store (record_submission M oid h ty w))"
  using update_order_moves [OF assms, of "record_transaction_hash ty h" w oid]
    store_order_by_hash_moves [OF assms, of "snd (update_order M oid (record_transaction_hash ty h) w)" h oid]
  by (simp add: record_submission_def set_transaction_hash_def update_order_def [symmetric])

text \<open>A status an order was moved to stays behind it.\<close>

lemma applied_stays:
  fixes M :: "('b memory_storage, 'b) machine"
  assumes "codec_ok (mc_orders M)" "explained memory_live (mc_orders M) oid st f s s' (Inr (Applied ord))"
    and "\<And>ord. status (f ord) = status ord"
  shows "\<exists>ord'. holds_order memory_live (mc_orders M) s' oid ord' \<and> edge\<^sup>*\<^sup>* (status_kind st) (status_kind (status ord'))"
proof -
  from assms(2) obtain s1 s2 ord0 t where rep: "replaced_at memory_live (mc_orders M) oid ord0 ord s1 s2"
    and steps: "(moves M)\<^sup>*\<^sup>* s2 s'" and ord: "ord = (f (ord0\<lparr>status := st\<rparr>))\<lparr>updated_at := t\<rparr>" by auto
  from rep have "holds_order memory_live (mc_orders M) s2 oid ord"
    by (auto simp: replaced_at_def holds_order_def writes_key_def until_ttl_def dest: codec_okD [OF assms(1)])
  moreover have "status ord = st" using assms(3) by (simp add: ord)
  ultimately show ?thesis using order_steps_move [OF assms(1) steps] by metis
qed

lemma applied_not_before:
  fixes M :: "('b memory_storage, 'b) machine"
  assumes "codec_ok (mc_orders M)" "holds_order memory_live (mc_orders M) s oid ord'"
    and "edge\<^sup>*\<^sup>* (status_kind st) (status_kind (status ord'))"
  shows "\<not> explained memory_live (mc_orders M) oid st f s s' (Inr (Applied ord))"
proof
  assume "explained memory_live (mc_orders M) oid st f s s' (Inr (Applied ord))"
  then obtain s1 s2 ord0 where steps: "(moves M)\<^sup>*\<^sup>* s s1"
    and rep: "replaced_at memory_live (mc_orders M) oid ord0 ord s1 s2"
    and ed: "edge (status_kind (status ord0)) (status_kind st)" by auto
  from order_steps_move [OF assms(1) steps assms(2)] obtain ord1
    where held: "holds_order memory_live (mc_orders M) s1 oid ord1"
      and "edge\<^sup>*\<^sup>* (status_kind (status ord')) (status_kind (status ord1))" by blast
  moreover have "ord1 = ord0" using held rep by (auto simp: holds_order_def replaced_at_def)
  ultimately have "edge\<^sup>*\<^sup>* (status_kind st) (status_kind (status ord0))" using assms(3) by simp
  then show False using ed edge_progress reach_progress by fastforce
qed

end
