(* ===== verification/Transaction_Handler.thy ===== *)
theory Transaction_Handler
  imports Solver_Machine
begin

text \<open>
  \<^verbatim>\<open>crates/solver-core/src/handlers/transaction.rs\<close>: what happens when a transaction of an order is
  confirmed or fails.  A confirmation moves the order to the next status and records the hash in
  one write, and publishes the event that starts the next stage only when that write moved the
  order; otherwise the stored hash is reconciled with the confirmed one.  Stages with several
  transactions wait for all of them.
\<close>

section \<open>Types\<close>

datatype transaction_error =
    TxStorage string
  | TxState string
  | TxSettlementCallback transaction_type settlement_service_error
  | TxService string

definition stage_hash :: "order \<Rightarrow> transaction_type \<Rightarrow> bytes option" where
  "stage_hash ord ty =
     (case ty of Prepare \<Rightarrow> prepare_tx_hash ord | Fill \<Rightarrow> fill_tx_hash ord | PostFill \<Rightarrow> post_fill_tx_hash ord
      | PreClaim \<Rightarrow> pre_claim_tx_hash ord | Claim \<Rightarrow> claim_tx_hash ord | _ \<Rightarrow> None)"

definition set_stage_hash :: "transaction_type \<Rightarrow> bytes \<Rightarrow> order \<Rightarrow> order" where
  "set_stage_hash ty h ord =
     (case ty of Prepare \<Rightarrow> ord\<lparr>prepare_tx_hash := Some h\<rparr> | Fill \<Rightarrow> set_fill_transaction_hash h ord
      | PostFill \<Rightarrow> ord\<lparr>post_fill_tx_hash := Some h\<rparr> | PreClaim \<Rightarrow> ord\<lparr>pre_claim_tx_hash := Some h\<rparr>
      | Claim \<Rightarrow> set_claim_transaction_hash h ord | _ \<Rightarrow> ord)"

section \<open>Reconciling the hash of a stage that is already past\<close>

text \<open>
  An update whose closure also captures a value of the order it is given; each retry captures
  again.
\<close>

definition capture_attempt ::
  "('s, 'b) machine \<Rightarrow> string \<Rightarrow> (order \<Rightarrow> 'a) \<Rightarrow> (order \<Rightarrow> order) \<Rightarrow> 'a option \<Rightarrow> 's world
   \<Rightarrow> ('a option \<times> (order_state_error, order) result option) \<times> 's world" where
  "capture_attempt M oid g f c w =
     (let (r, w1) = svc_retrieve_bytes (mc_backend M) (mc_sched M) (storage_key_str Orders) oid w
      in (case r of
            Inl e \<Rightarrow> ((c, Some (Inl (from_order_storage e))), w1)
          | Inr expected \<Rightarrow>
              (case decode_order (mc_orders M) expected of
                 Inl e \<Rightarrow> ((c, Some (Inl e)), w1)
               | Inr ord \<Rightarrow>
                   (case swap_order (mc_backend M) (mc_orders M) (mc_sched M) oid expected (f ord) w1 of
                      (q, w2) \<Rightarrow> ((Some (g ord), q), w2)))))"

fun capture_loop ::
  "nat \<Rightarrow> ('s, 'b) machine \<Rightarrow> string \<Rightarrow> (order \<Rightarrow> 'a) \<Rightarrow> (order \<Rightarrow> order) \<Rightarrow> 'a option \<Rightarrow> 's world
   \<Rightarrow> (order_state_error, 'a option \<times> order) result \<times> 's world" where
  "capture_loop 0 M oid g f c w =
     (Inl (OrderStorage (''CAS conflict after '' @ to_dec ORDER_CAS_MAX_RETRIES @
        '' retries updating order '' @ oid)), w)"
| "capture_loop (Suc n) M oid g f c w =
     (case capture_attempt M oid g f c w of
        ((c1, Some (Inl e)), w1) \<Rightarrow> (Inl e, w1)
      | ((c1, Some (Inr ord)), w1) \<Rightarrow> (Inr (c1, ord), w1)
      | ((c1, None), w1) \<Rightarrow> capture_loop n M oid g f c1 w1)"

definition reconcile_already_applied_stage_hash ::
  "('s, 'b) machine \<Rightarrow> string \<Rightarrow> transaction_type \<Rightarrow> bytes \<Rightarrow> order \<Rightarrow> ('s, transaction_error, unit) handler" where
  "reconcile_already_applied_stage_hash M oid ty observed ord =
     (if ty = Fill \<and> observed \<in> set (fill_transaction_hashes ord) then ok ()
      else if ty = Claim \<and> observed \<in> set (claim_transaction_hashes ord) then ok ()
      else (case stage_hash ord ty of
              Some stored \<Rightarrow>
                if stored = observed then ok ()
                else and_then (call (\<lambda>e. TxState (order_error_text M e)) (update_order M oid (set_stage_hash ty observed)))
                       (\<lambda>_. publish (DeliveryEv (TransactionCanonicalHashConflict oid ty stored observed)))
            | None \<Rightarrow>
                and_then (call (\<lambda>e. TxState (order_error_text M e))
                    (capture_loop ORDER_CAS_MAX_RETRIES M oid (\<lambda>o1. stage_hash o1 ty) (set_stage_hash ty observed) None))
                  (\<lambda>(prior, _). case prior of
                      Some (Some stored) \<Rightarrow>
                        if stored \<noteq> observed
                        then publish (DeliveryEv (TransactionCanonicalHashConflict oid ty stored observed))
                        else ok ()
                    | _ \<Rightarrow> ok ())))"

section \<open>Stages with several transactions\<close>

fun add_confirmed :: "transaction_type \<Rightarrow> transaction_attempt list \<Rightarrow> bytes list \<Rightarrow> bytes list" where
  "add_confirmed ty [] hs = hs"
| "add_confirmed ty (a # as) hs =
     (if at_tx_type a = ty \<and> at_status a = Confirmed
      then (case at_tx_hash a of
              Some h \<Rightarrow> add_confirmed ty as (if h \<notin> set hs then hs @ [h] else hs)
            | None \<Rightarrow> add_confirmed ty as hs)
      else add_confirmed ty as hs)"

definition all_expected_stage_hashes_confirmed ::
  "('s, 'b) machine \<Rightarrow> string \<Rightarrow> transaction_type \<Rightarrow> nat \<Rightarrow> bytes list \<Rightarrow> bytes
   \<Rightarrow> ('s, transaction_error, bool) handler" where
  "all_expected_stage_hashes_confirmed M oid ty expected_count expected_hashes current =
     (if expected_count \<le> 1 \<and> length expected_hashes \<le> 1 then ok True
      else and_then (call (\<lambda>e. TxState (attempt_error_text e)) (order_attempts M oid))
             (\<lambda>attempts.
                let confirmed = add_confirmed ty attempts [current]
                in ok (length confirmed \<ge> expected_count \<and> list_all (\<lambda>h. h \<in> set confirmed) expected_hashes)))"

definition all_expected_fill_hashes_confirmed ::
  "('s, 'b) machine \<Rightarrow> string \<Rightarrow> nat \<Rightarrow> bytes list \<Rightarrow> bytes \<Rightarrow> ('s, transaction_error, bool) handler" where
  "all_expected_fill_hashes_confirmed M oid n hs h = all_expected_stage_hashes_confirmed M oid Fill n hs h"

definition all_expected_claim_hashes_confirmed ::
  "('s, 'b) machine \<Rightarrow> string \<Rightarrow> nat \<Rightarrow> bytes list \<Rightarrow> bytes \<Rightarrow> ('s, transaction_error, bool) handler" where
  "all_expected_claim_hashes_confirmed M oid n hs h = all_expected_stage_hashes_confirmed M oid Claim n hs h"

section \<open>Confirmations\<close>

text \<open>The part the five stages share: the transition, then the next event or the reconciliation.\<close>

definition advance_stage ::
  "('s, 'b) machine \<Rightarrow> string \<Rightarrow> transaction_type \<Rightarrow> order_status \<Rightarrow> bytes
   \<Rightarrow> (order \<Rightarrow> ('s, transaction_error, unit) handler) \<Rightarrow> ('s, transaction_error, unit) handler" where
  "advance_stage M oid ty st h next_step =
     and_then (call (\<lambda>e. TxState (order_error_text M e)) (try_transition M oid st (set_stage_hash ty h)))
       (\<lambda>outcome. if outcome_applied outcome then next_step (into_order outcome)
                  else reconcile_already_applied_stage_hash M oid ty h (into_order outcome))"

definition handle_prepare_confirmed ::
  "('s, 'b) machine \<Rightarrow> bytes \<Rightarrow> order \<Rightarrow> ('s, transaction_error, unit) handler" where
  "handle_prepare_confirmed M h ord =
     and_then (require (TxService ''Order missing execution params'') (order_execution_params ord))
       (\<lambda>params. advance_stage M (order_id ord) Prepare Executing h
                   (\<lambda>updated. publish (OrderEv (OrderExecuting updated params))))"

text \<open>The hashes a stage with several transactions waits for, and how many.\<close>

definition expected_legs :: "nat option \<Rightarrow> bytes list \<Rightarrow> bytes list \<Rightarrow> bytes \<Rightarrow> bytes list" where
  "expected_legs expected_count stored_hashes hashes h =
     (let base = (if expected_count = None \<and> length stored_hashes \<le> 1 then [] else hashes)
      in if h \<notin> set base then base @ [h] else base)"

definition handle_fill_confirmed ::
  "('s, 'b) machine \<Rightarrow> bytes \<Rightarrow> order \<Rightarrow> ('s, transaction_error, unit) handler" where
  "handle_fill_confirmed M h ord =
     (let oid = order_id ord;
          expected = expected_legs (expected_fill_tx_count ord) (fill_tx_hashes ord) (fill_transaction_hashes ord) h;
          n = max (expected_fill_transaction_count ord) (length expected)
      in and_then (all_expected_fill_hashes_confirmed M oid n expected h)
           (\<lambda>complete.
              if \<not> complete
              then and_then (call (\<lambda>e. TxState (order_error_text M e)) (update_order M oid (add_fill_transaction_hash h)))
                     (\<lambda>_. ok ())
              else advance_stage M oid Fill Executed h (\<lambda>_. publish (SettlementEv (PostFillReady oid)))))"

definition handle_post_fill_confirmed ::
  "('s, 'b) machine \<Rightarrow> bytes \<Rightarrow> order \<Rightarrow> ('s, transaction_error, unit) handler" where
  "handle_post_fill_confirmed M h ord =
     advance_stage M (order_id ord) PostFill PostFilled h
       (\<lambda>_. and_then (require (TxService (''Missing fill transaction hash: required for post-fill '' @
                        ''transaction processing and settlement monitoring'')) (fill_tx_hash ord))
              (\<lambda>fill_hash. publish (SettlementEv (StartMonitoring (order_id ord) fill_hash))))"

definition handle_pre_claim_confirmed ::
  "('s, 'b) machine \<Rightarrow> bytes \<Rightarrow> order \<Rightarrow> ('s, transaction_error, unit) handler" where
  "handle_pre_claim_confirmed M h ord =
     advance_stage M (order_id ord) PreClaim PreClaimed h (\<lambda>_. publish (SettlementEv (ClaimReady (order_id ord))))"

definition handle_claim_confirmed ::
  "('s, 'b) machine \<Rightarrow> bytes \<Rightarrow> order \<Rightarrow> ('s, transaction_error, unit) handler" where
  "handle_claim_confirmed M h ord =
     (let oid = order_id ord;
          expected = expected_legs (expected_claim_tx_count ord) (claim_tx_hashes ord) (claim_transaction_hashes ord) h;
          n = max (expected_claim_transaction_count ord) (length expected)
      in and_then (all_expected_claim_hashes_confirmed M oid n expected h)
           (\<lambda>complete.
              if \<not> complete
              then and_then (call (\<lambda>e. TxState (order_error_text M e)) (update_order M oid (add_claim_transaction_hash h)))
                     (\<lambda>_. ok ())
              else advance_stage M oid Claim Finalized h (\<lambda>_. publish (SettlementEv (Completed oid)))))"

fun stage_confirmed ::
  "('s, 'b) machine \<Rightarrow> transaction_type \<Rightarrow> bytes \<Rightarrow> order \<Rightarrow> ('s, transaction_error, unit) handler" where
  "stage_confirmed M Prepare h ord = handle_prepare_confirmed M h ord"
| "stage_confirmed M Fill h ord = handle_fill_confirmed M h ord"
| "stage_confirmed M PostFill h ord = handle_post_fill_confirmed M h ord"
| "stage_confirmed M PreClaim h ord = handle_pre_claim_confirmed M h ord"
| "stage_confirmed M Claim h ord = handle_claim_confirmed M h ord"
| "stage_confirmed M _ h ord = ok ()"

text \<open>The settlement service's own processing of a receipt, a parameter.\<close>

type_synonym 's settle_callback =
  "order \<Rightarrow> transaction_type \<Rightarrow> transaction_receipt \<Rightarrow> 's world \<Rightarrow> (settlement_service_error, unit) result \<times> 's world"

definition order_stage :: "transaction_type \<Rightarrow> bool" where
  "order_stage ty = (\<not> (ty = Approval \<or> ty = Withdrawal \<or> ty = Bridge \<or> ty = Pusher))"

definition handle_confirmed ::
  "('s, 'b) machine \<Rightarrow> 's settle_callback \<Rightarrow> string \<Rightarrow> bytes \<Rightarrow> transaction_type \<Rightarrow> transaction_receipt
   \<Rightarrow> ('s, transaction_error, unit) handler" where
  "handle_confirmed M settle oid h ty rcpt =
     (if \<not> rcpt_success rcpt
      then publish (DeliveryEv (TransactionFailed oid h ty ''Transaction reverted''))
      else if \<not> order_stage ty then ok ()
      else and_then (call (\<lambda>e. TxStorage (storage_error_text e)) (retrieve_order M oid))
             (\<lambda>ord. and_then (stage_confirmed M ty h ord)
                (\<lambda>_. if ty = PostFill \<or> ty = PreClaim
                     then call (TxSettlementCallback ty) (settle ord ty rcpt)
                     else ok ())))"

definition handle_failed ::
  "('s, 'b) machine \<Rightarrow> string \<Rightarrow> bytes \<Rightarrow> transaction_type \<Rightarrow> string \<Rightarrow> ('s, transaction_error, unit) handler" where
  "handle_failed M oid h ty msg =
     and_then (call (\<lambda>e. TxState (order_error_text M e)) (force_transition M oid (Failed ty msg))) (\<lambda>_. ok ())"

section \<open>Lemmas\<close>

lemma set_stage_hash_status [simp]: "status (set_stage_hash ty h ord) = status ord"
  by (cases ty) (simp_all add: set_stage_hash_def)

text \<open>The capturing update is the plain update with a value on the side.\<close>

lemma capture_attempt_update:
  "capture_attempt M oid g f c w =
     ((fst (fst (capture_attempt M oid g f c w)), fst (update_attempt (mc_backend M) (mc_orders M) (mc_sched M) oid f w)),
      snd (update_attempt (mc_backend M) (mc_orders M) (mc_sched M) oid f w))"
  by (simp add: capture_attempt_def update_attempt_def Let_def split: prod.splits sum.splits)

lemma capture_loop_update:
  "snd (capture_loop n M oid g f c w) = snd (update_loop n (mc_backend M) (mc_orders M) (mc_sched M) oid f w)"
proof (induction n arbitrary: c w)
  case (Suc n)
  show ?case
    by (subst (1) capture_loop.simps, subst capture_attempt_update)
      (simp add: Suc split: option.splits sum.splits prod.splits)
qed simp

lemma capture_loop_moves:
  assumes "fair_machine M" "\<And>ord. status (f ord) = status ord"
  shows "(moves M)\<^sup>*\<^sup>* (w_store w) (w_store (snd (capture_loop n M oid g f c w)))"
  unfolding capture_loop_update fair_machineD(1) [OF assms(1)]
  by (rule mem.update_loop_steps [OF fair_machineD(2) [OF assms(1)] assms(2) surjective_pairing])

lemma reconcile_moves:
  assumes "fair_machine M"
  shows "keeps (moves M) (reconcile_already_applied_stage_hash M oid ty h ord)"
  using assms
  by (auto simp: reconcile_already_applied_stage_hash_def split: option.splits prod.splits
      intro!: keeps_and_then keeps_call update_order_moves capture_loop_moves)

text \<open>What a handler publishes.\<close>

definition publishes :: "(solver_event \<Rightarrow> bool) \<Rightarrow> ('s, 'x, 'a) handler \<Rightarrow> 's world \<Rightarrow> bool" where
  "publishes P m w \<longleftrightarrow> (\<exists>ev \<in> set (fst (m w)). P ev)"

lemma publishes_simps [simp]:
  "\<not> publishes P (ok a) w" "\<not> publishes P (err e) w" "\<not> publishes P (require e v) w" "\<not> publishes P (call f m) w"
  "publishes P (publish ev) w \<longleftrightarrow> P ev"
  by (auto simp: publishes_def handler_defs split: option.splits prod.splits sum.splits)

lemma publishes_and_then:
  "publishes P (and_then m k) w \<longleftrightarrow>
     publishes P m w \<or> (\<exists>evs a w1. m w = (evs, Inr a, w1) \<and> publishes P (k a) w1)"
  by (auto simp: publishes_def and_then_def split: prod.splits sum.splits)

lemma call_Inr: "call f m w = (evs, Inr a, w1) \<longleftrightarrow> evs = [] \<and> m w = (Inr a, w1)"
  by (auto simp: call_def split: prod.splits sum.splits)

text \<open>The event with which a confirmed stage starts the next one.\<close>

fun starts_next :: "transaction_type \<Rightarrow> solver_event \<Rightarrow> bool" where
  "starts_next Prepare (OrderEv (OrderExecuting _ _)) = True"
| "starts_next Fill (SettlementEv (PostFillReady _)) = True"
| "starts_next PostFill (SettlementEv (StartMonitoring _ _)) = True"
| "starts_next PreClaim (SettlementEv (ClaimReady _)) = True"
| "starts_next Claim (SettlementEv (Completed _)) = True"
| "starts_next _ _ = False"

fun stage_target :: "transaction_type \<Rightarrow> order_status" where
  "stage_target Prepare = Executing"
| "stage_target Fill = Executed"
| "stage_target PostFill = PostFilled"
| "stage_target PreClaim = PreClaimed"
| "stage_target _ = Finalized"

lemma starts_next_delivery [simp]: "\<not> starts_next ty (DeliveryEv ev)"
  by (cases ty) simp_all

lemma reconcile_starts_nothing [simp]:
  "\<not> publishes (starts_next ty') (reconcile_already_applied_stage_hash M oid ty h ord) w"
  by (auto simp: reconcile_already_applied_stage_hash_def publishes_and_then split: option.splits if_splits prod.splits)

text \<open>Each stage publishes its event only after its transition was applied, and moves orders along the table.\<close>

lemma advance_stage_applied:
  assumes "publishes (starts_next ty') (advance_stage M oid ty st h next_step) w"
  shows "\<exists>ord w1. try_transition M oid st (set_stage_hash ty h) w = (Inr (Applied ord), w1) \<and>
    publishes (starts_next ty') (next_step ord) w1"
  using assms unfolding advance_stage_def publishes_and_then call_Inr
  by (auto split: if_splits) (metis into_order.simps(1) outcome_applied.elims(2))

lemma advance_stage_keeps:
  "fair_machine M \<Longrightarrow> (\<And>ord. keeps (moves M) (next_step ord)) \<Longrightarrow> keeps (moves M) (advance_stage M oid ty st h next_step)"
  unfolding advance_stage_def
  by (auto intro!: keeps_and_then keeps_call try_transition_moves reconcile_moves)

lemma all_confirmed_keeps:
  "fair_machine M \<Longrightarrow> keeps (moves M) (all_expected_stage_hashes_confirmed M oid ty n hs h)"
  unfolding all_expected_stage_hashes_confirmed_def Let_def
  by (auto intro!: keeps_and_then keeps_call order_attempts_moves)

lemmas all_confirmed_defs = all_expected_fill_hashes_confirmed_def all_expected_claim_hashes_confirmed_def

lemma all_confirmed_silent [simp]:
  "\<not> publishes P (all_expected_stage_hashes_confirmed M oid ty n hs h) w"
  by (auto simp: all_expected_stage_hashes_confirmed_def publishes_and_then Let_def)

lemma stage_confirmed_keeps:
  assumes "fair_machine M"
  shows "keeps (moves M) (stage_confirmed M ty h ord)"
  using assms
  by (cases ty)
    (auto simp: handle_prepare_confirmed_def handle_fill_confirmed_def handle_post_fill_confirmed_def
      handle_pre_claim_confirmed_def handle_claim_confirmed_def Let_def all_confirmed_defs add_fill_keeps add_claim_keeps
      intro!: keeps_and_then keeps_call advance_stage_keeps all_confirmed_keeps update_order_moves)

text \<open>The run of an applied stage ends in the world of its transition.\<close>

lemma advance_stage_world:
  assumes "try_transition M oid st (set_stage_hash ty h) w = (Inr (Applied ord), w1)"
    and "\<And>w. snd (snd (next_step ord w)) = w"
  shows "snd (snd (advance_stage M oid ty st h next_step w)) = w1"
  using assms(1) assms(2) [of w1] by (simp add: advance_stage_def and_then_def call_def split: prod.splits sum.splits)

lemma publish_world [simp]:
  "snd (snd (publish ev w)) = w" "snd (snd (and_then (require e v) (\<lambda>x. publish (g x)) w)) = w"
  by (simp_all add: handler_defs split: option.splits)

lemma advance_stage_run:
  assumes "publishes (starts_next ty) (advance_stage M oid ty st h next_step) w"
    and "\<And>ord w. snd (snd (next_step ord w)) = w"
  shows "\<exists>o1 w1. try_transition M oid st (set_stage_hash ty h) w = (Inr (Applied o1), w1) \<and>
    snd (snd (advance_stage M oid ty st h next_step w)) = w1"
proof -
  from advance_stage_applied [OF assms(1)] obtain o1 w1
    where t: "try_transition M oid st (set_stage_hash ty h) w = (Inr (Applied o1), w1)" by blast
  then show ?thesis using advance_stage_world [where next_step = next_step, OF t assms(2)] by blast
qed

text \<open>A stage with several transactions reaches its transition after the check of all of them.\<close>

lemma gated_stage_run:
  assumes fair: "fair_machine M"
    and pub: "publishes (starts_next ty) (and_then (all_expected_stage_hashes_confirmed M oid ty n hs h)
      (\<lambda>complete. if \<not> complete then and_then (call g (update_order M oid f)) (\<lambda>_. ok ())
                  else advance_stage M oid ty st h (\<lambda>_. publish ev))) w"
  shows "\<exists>w0 o1 w1 evs. all_expected_stage_hashes_confirmed M oid ty n hs h w = (evs, Inr True, w0) \<and>
    (moves M)\<^sup>*\<^sup>* (w_store w) (w_store w0) \<and>
    try_transition M oid st (set_stage_hash ty h) w0 = (Inr (Applied o1), w1) \<and>
    snd (snd (and_then (all_expected_stage_hashes_confirmed M oid ty n hs h)
      (\<lambda>complete. if \<not> complete then and_then (call g (update_order M oid f)) (\<lambda>_. ok ())
                  else advance_stage M oid ty st h (\<lambda>_. publish ev)) w)) = w1"
proof -
  from pub obtain evs complete w0
    where chk: "all_expected_stage_hashes_confirmed M oid ty n hs h w = (evs, Inr complete, w0)"
      and p: "publishes (starts_next ty) (if \<not> complete then and_then (call g (update_order M oid f)) (\<lambda>_. ok ())
                  else advance_stage M oid ty st h (\<lambda>_. publish ev)) w0"
    unfolding publishes_and_then by auto
  have complete: complete using p by (auto simp: publishes_and_then split: if_splits)
  have "(moves M)\<^sup>*\<^sup>* (w_store w) (w_store w0)"
    using all_confirmed_keeps [OF fair, of oid ty n hs h] chk unfolding keeps_def by (metis snd_conv)
  moreover from advance_stage_run [of ty M oid st h "\<lambda>_. publish ev" w0] p complete
  obtain o1 w1 where "try_transition M oid st (set_stage_hash ty h) w0 = (Inr (Applied o1), w1)"
    and "snd (snd (advance_stage M oid ty st h (\<lambda>_. publish ev) w0)) = w1" by auto
  ultimately show ?thesis using chk complete by (auto simp: and_then_def split: prod.splits)
qed

lemma stage_confirmed_applied:
  assumes fair: "fair_machine M" and pub: "publishes (starts_next ty) (stage_confirmed M ty h ord) w"
  shows "\<exists>w0 o1 w1. (moves M)\<^sup>*\<^sup>* (w_store w) (w_store w0) \<and>
    try_transition M (order_id ord) (stage_target ty) (set_stage_hash ty h) w0 = (Inr (Applied o1), w1) \<and>
    snd (snd (stage_confirmed M ty h ord w)) = w1"
proof (cases ty)
  case Prepare
  with pub obtain params where "order_execution_params ord = Some params"
    by (auto simp: handle_prepare_confirmed_def publishes_and_then require_def split: option.splits)
  then have eq: "stage_confirmed M ty h ord = advance_stage M (order_id ord) Prepare Executing h
      (\<lambda>updated. publish (OrderEv (OrderExecuting updated params)))"
    by (simp add: Prepare handle_prepare_confirmed_def fun_eq_iff and_then_def require_def split: prod.splits)
  have "publishes (starts_next Prepare) (advance_stage M (order_id ord) Prepare Executing h
      (\<lambda>updated. publish (OrderEv (OrderExecuting updated params)))) w"
    using pub unfolding eq unfolding Prepare .
  from advance_stage_run [OF this] show ?thesis unfolding eq unfolding Prepare stage_target.simps by fastforce
next
  case Fill
  from gated_stage_run [OF fair pub [unfolded Fill stage_confirmed.simps handle_fill_confirmed_def Let_def
      all_confirmed_defs]] show ?thesis
    unfolding Fill stage_confirmed.simps handle_fill_confirmed_def Let_def all_confirmed_defs stage_target.simps by blast
next
  case PostFill
  from advance_stage_run [OF pub [unfolded PostFill stage_confirmed.simps handle_post_fill_confirmed_def]] show ?thesis
    unfolding PostFill stage_confirmed.simps handle_post_fill_confirmed_def stage_target.simps by fastforce
next
  case PreClaim
  from advance_stage_run [OF pub [unfolded PreClaim stage_confirmed.simps handle_pre_claim_confirmed_def]] show ?thesis
    unfolding PreClaim stage_confirmed.simps handle_pre_claim_confirmed_def stage_target.simps by fastforce
next
  case Claim
  from gated_stage_run [OF fair pub [unfolded Claim stage_confirmed.simps handle_claim_confirmed_def Let_def
      all_confirmed_defs]] show ?thesis
    unfolding Claim stage_confirmed.simps handle_claim_confirmed_def Let_def all_confirmed_defs stage_target.simps by blast
qed (use pub in auto)

text \<open>
  C6: The confirmation of a stage starts the next one at most once per order.  Once a confirmation
  has published the event of its stage, no later confirmation of that stage for the same order,
  with whatever hash, publishes it again, whatever other tasks did in between and do during both
  calls as long as they move orders along the transition table.
\<close>

theorem stage_event_published_once:
  assumes "fair_machine M" "fair_machine M'" "mc_orders M' = mc_orders M" "codec_ok (mc_orders M)"
    and "publishes (starts_next ty) (stage_confirmed M ty h ord) w"
    and "(moves M)\<^sup>*\<^sup>* (w_store (snd (snd (stage_confirmed M ty h ord w)))) (w_store w')"
    and "order_id ord' = order_id ord"
  shows "\<not> publishes (starts_next ty) (stage_confirmed M' ty h' ord') w'"
proof
  assume pub: "publishes (starts_next ty) (stage_confirmed M' ty h' ord') w'"
  from stage_confirmed_applied [OF assms(1,5)] obtain w0 o1 w1
    where t1: "try_transition M (order_id ord) (stage_target ty) (set_stage_hash ty h) w0 = (Inr (Applied o1), w1)"
      and w1: "snd (snd (stage_confirmed M ty h ord w)) = w1" by blast
  from applied_stays [OF assms(4) try_transition_explained [OF assms(1) _ t1]] obtain ord1
    where "holds_order memory_live (mc_orders M) (w_store w1) (order_id ord) ord1"
      and past: "edge\<^sup>*\<^sup>* (status_kind (stage_target ty)) (status_kind (status ord1))" by auto
  from stage_confirmed_applied [OF assms(2) pub] obtain w2 o2 w3
    where m2: "(moves M')\<^sup>*\<^sup>* (w_store w') (w_store w2)"
      and t2: "try_transition M' (order_id ord') (stage_target ty) (set_stage_hash ty h') w2 = (Inr (Applied o2), w3)"
    by blast
  have "(moves M)\<^sup>*\<^sup>* (w_store w1) (w_store w2)" using assms(3,6) m2 w1 by (simp add: rtranclp_trans)
  from order_steps_move [OF assms(4) this \<open>holds_order _ _ _ _ ord1\<close>] obtain ord2
    where "holds_order memory_live (mc_orders M') (w_store w2) (order_id ord') ord2"
      and "edge\<^sup>*\<^sup>* (status_kind (stage_target ty)) (status_kind (status ord2))"
    using past assms(3,7) by (metis rtranclp_trans)
  then have "\<not> explained memory_live (mc_orders M') (order_id ord') (stage_target ty) (set_stage_hash ty h')
      (w_store w2) (w_store w3) (Inr (Applied o2))"
    by (rule applied_not_before [rotated]) (simp add: assms(3,4))
  then show False using try_transition_explained [OF assms(2) set_stage_hash_status t2] by blast
qed

text \<open>A machine on the memory backend that nobody disturbs.\<close>

definition calm_machine :: "nat \<Rightarrow> (stored memory_storage, stored) machine" where
  "calm_machine now = \<lparr>mc_backend = memory_backend, mc_orders = order_codec, mc_reservations = resv_codec,
     mc_attempts = \<lparr>encode = (\<lambda>_. Inl []), decode = (\<lambda>_. Inl [])\<rparr>, mc_strings = \<lparr>encode = (\<lambda>_. Inl []), decode = (\<lambda>_. Inl [])\<rparr>,
     mc_hex = (\<lambda>_. []), mc_parse = (\<lambda>_. Inl []), mc_show_status = (\<lambda>_. []), mc_sched = quiet (\<lambda>_. now)\<rparr>"

lemma calm_machine_simps [simp]:
  "mc_backend (calm_machine now) = memory_backend" "mc_orders (calm_machine now) = order_codec"
  "mc_reservations (calm_machine now) = resv_codec" "mc_sched (calm_machine now) = quiet (\<lambda>_. now)"
  "mc_parse (calm_machine now) = (\<lambda>_. Inl [])" "fair_machine (calm_machine now)"
  by (simp_all add: calm_machine_def fair_machine_def)

lemma calm_transition:
  assumes "edge (status_kind st) (status_kind st')" "st' \<noteq> Finalized"
    and "\<And>ord. status (f ord) = status ord"
  shows "\<exists>o1 w1. try_transition (calm_machine now) ''o1'' st' f (order_world st) = (Inr (Applied o1), w1) \<and>
    o1 = (f ((sample_order st)\<lparr>status := st'\<rparr>))\<lparr>updated_at := now\<rparr>"
proof -
  have lv: "memory_live now (w_store (order_world st)) (order_key ''o1'') = Some (Inl (sample_order st))"
    by (simp add: order_world_live)
  have dec: "decode order_codec (Inl (sample_order st)) = Inr (sample_order st)" by (simp add: order_codec_def)
  note t = transition_undisturbed(3) [OF stored_codecs_ok(2) lv dec, of st' "\<lambda>_. Inl []" resv_codec f]
  have "status (sample_order st) = st" by (simp add: sample_order_def)
  then show ?thesis using t assms(1) unfolding try_transition_def calm_machine_simps
    by (metis prod.collapse)
qed

theorem stage_event_published_once_witness:
  "publishes (starts_next PreClaim) (stage_confirmed (calm_machine 5) PreClaim [1] (sample_order Settled)) (order_world Settled) \<and>
   \<not> publishes (starts_next PreClaim) (stage_confirmed (calm_machine 9) PreClaim [2] (sample_order Settled))
      (snd (snd (stage_confirmed (calm_machine 5) PreClaim [1] (sample_order Settled) (order_world Settled))))"
proof -
  have ident: "order_id (sample_order Settled) = ''o1''" by (simp add: sample_order_def)
  have "edge (status_kind Settled) (status_kind PreClaimed)" by (simp add: edge_def)
  from calm_transition [OF this, of "set_stage_hash PreClaim [1]" 5]
  have pub: "publishes (starts_next PreClaim) (stage_confirmed (calm_machine 5) PreClaim [1] (sample_order Settled)) (order_world Settled)"
    by (auto simp: handle_pre_claim_confirmed_def advance_stage_def publishes_and_then call_Inr ident)
  show ?thesis
    using pub stage_event_published_once [OF calm_machine_simps(6) calm_machine_simps(6) _ _ pub rtranclp.rtrancl_refl refl]
    by simp
qed

section \<open>Stages with several transactions\<close>

definition confirmed_hashes :: "transaction_type \<Rightarrow> transaction_attempt list \<Rightarrow> bytes set" where
  "confirmed_hashes ty as = {h. \<exists>a \<in> set as. at_tx_type a = ty \<and> at_status a = Confirmed \<and> at_tx_hash a = Some h}"

lemma add_confirmed_set: "set (add_confirmed ty as hs) = set hs \<union> confirmed_hashes ty as"
  by (induction ty as hs rule: add_confirmed.induct) (auto simp: confirmed_hashes_def split: option.splits)

lemma add_confirmed_distinct: "distinct hs \<Longrightarrow> distinct (add_confirmed ty as hs)"
  by (induction ty as hs rule: add_confirmed.induct) (auto split: option.splits)

lemma all_expected_confirmed_True:
  assumes "all_expected_stage_hashes_confirmed M oid ty n hs h w = (evs, Inr True, w0)"
  shows "n \<le> 1 \<and> length hs \<le> 1 \<or> (\<exists>as. order_attempts M oid w = (Inr as, w0) \<and>
    n \<le> card (insert h (confirmed_hashes ty as)) \<and> set hs \<subseteq> insert h (confirmed_hashes ty as))"
proof (cases "n \<le> 1 \<and> length hs \<le> 1")
  case False
  with assms obtain as where as: "order_attempts M oid w = (Inr as, w0)"
    and len: "n \<le> length (add_confirmed ty as [h])" and all: "set hs \<subseteq> set (add_confirmed ty as [h])"
    by (auto simp: all_expected_stage_hashes_confirmed_def and_then_def call_def ok_def Let_def list_all_iff
        split: prod.splits sum.splits if_splits)
  moreover have "length (add_confirmed ty as [h]) = card (insert h (confirmed_hashes ty as))"
    using distinct_card [OF add_confirmed_distinct [of "[h]" ty as]] by (simp add: add_confirmed_set)
  ultimately show ?thesis by (auto simp: add_confirmed_set)
qed simp

definition legs :: "transaction_type \<Rightarrow> order \<Rightarrow> bytes list" where
  "legs ty ord = (if ty = Fill then fill_transaction_hashes ord else claim_transaction_hashes ord)"

definition planned_legs :: "transaction_type \<Rightarrow> order \<Rightarrow> nat option" where
  "planned_legs ty ord = (if ty = Fill then expected_fill_tx_count ord else expected_claim_tx_count ord)"

lemma stage_confirmed_gated:
  assumes "fair_machine M" "ty = Fill \<or> ty = Claim" "planned_legs ty ord = Some n"
    and "publishes (starts_next ty) (stage_confirmed M ty h ord) w"
  shows "\<exists>evs w0 m hs. all_expected_stage_hashes_confirmed M (order_id ord) ty m hs h w = (evs, Inr True, w0) \<and>
    n \<le> m \<and> length hs \<le> m \<and> set (legs ty ord) \<subseteq> set hs \<and> h \<in> set hs"
proof (cases "ty = Fill")
  case True
  note pub = assms(4) [unfolded True stage_confirmed.simps handle_fill_confirmed_def Let_def all_confirmed_defs]
  from gated_stage_run [OF assms(1) pub] show ?thesis
    using assms(3) True
    by (fastforce simp: legs_def planned_legs_def expected_legs_def expected_fill_transaction_count_def Let_def)
next
  case False
  then have ty: "ty = Claim" using assms(2) by simp
  note pub = assms(4) [unfolded ty stage_confirmed.simps handle_claim_confirmed_def Let_def all_confirmed_defs]
  from gated_stage_run [OF assms(1) pub] show ?thesis
    using assms(3) ty
    by (fastforce simp: legs_def planned_legs_def expected_legs_def expected_claim_transaction_count_def Let_def)
qed

text \<open>
  C7: A fill or claim of several transactions advances the order only when all of them are
  confirmed: every hash the order lists for the stage, and at least as many different hashes as
  were planned, are the one just confirmed or belong to an attempt of that order and stage that
  the ledger has as confirmed.
\<close>

theorem all_legs_confirmed_before_advance:
  assumes "fair_machine M" "ty = Fill \<or> ty = Claim" "planned_legs ty ord = Some n"
    and "publishes (starts_next ty) (stage_confirmed M ty h ord) w"
  shows "n \<le> 1 \<and> set (legs ty ord) \<subseteq> {h} \<or>
    (\<exists>as w1. order_attempts M (order_id ord) w = (Inr as, w1) \<and>
       set (legs ty ord) \<subseteq> insert h (confirmed_hashes ty as) \<and> n \<le> card (insert h (confirmed_hashes ty as)))"
proof -
  from stage_confirmed_gated [OF assms] obtain evs w0 m hs
    where chk: "all_expected_stage_hashes_confirmed M (order_id ord) ty m hs h w = (evs, Inr True, w0)"
      and m: "n \<le> m" "length hs \<le> m" "set (legs ty ord) \<subseteq> set hs" "h \<in> set hs" by blast
  have "set hs = {h}" if "length hs \<le> 1" using that m(4) by (cases hs) auto
  then show ?thesis using all_expected_confirmed_True [OF chk] m by fastforce
qed

section \<open>Late confirmations\<close>

text \<open>
  A confirmation that comes when the order is already past its stage, with another hash than
  the one on record, still makes the confirmed hash the recorded one and reports the conflict, in
  an order whose stage has one transaction.  The status stays, no other key changes and the next
  stage is not started again.
\<close>

theorem late_confirmation_repoints_hash:
  assumes "mc_backend M = memory_backend" "mc_sched M = quiet (\<lambda>_. now)" "codec_ok (mc_orders M)" "encodes_all (mc_orders M)"
    and "holds_order memory_live (mc_orders M) (w_store w) (order_id ord) ord" and "order_stage ty"
    and "is_at_or_past (status ord) (stage_target ty)"
    and "order_execution_params ord \<noteq> None" "expected_fill_tx_count ord = None" "expected_claim_tx_count ord = None"
    and "length (fill_tx_hashes ord) \<le> 1" "length (claim_tx_hashes ord) \<le> 1"
    and "stage_hash ord ty = Some stored" "stored \<noteq> h" "h \<notin> set (fill_transaction_hashes ord)" "h \<notin> set (claim_transaction_hashes ord)"
    and "stage_confirmed M ty h ord w = (evs, r, w')"
  shows "r = Inr () \<and> evs = [DeliveryEv (TransactionCanonicalHashConflict (order_id ord) ty stored h)] \<and>
    (\<exists>ord'. holds_order memory_live (mc_orders M) (w_store w') (order_id ord) ord' \<and> status ord' = status ord \<and>
       stage_hash ord' ty = Some h) \<and>
    (\<forall>t k. k \<noteq> order_key (order_id ord) \<longrightarrow> memory_live t (w_store w') k = memory_live t (w_store w) k)"
proof -
  let ?oid = "order_id ord" and ?oc = "mc_orders M" and ?ord' = "(set_stage_hash ty h ord)\<lparr>updated_at := now\<rparr>"
  obtain b where lv: "\<And>t. memory_live t (w_store w) (order_key ?oid) = Some b" and dec: "decode ?oc b = Inr ord"
    using assms(5) by (auto simp: holds_order_def)
  have "edge\<^sup>*\<^sup>* (status_kind (stage_target ty)) (status_kind (status ord))" using assms(7) by (simp add: is_at_or_past_reach)
  from transition_undisturbed(1) [OF assms(4) lv dec this] obtain w1
    where t: "try_transition M ?oid (stage_target ty) (set_stage_hash ty h) w = (Inr (AlreadyApplied ord), w1)"
      and w1: "w_store w1 = w_store w"
    unfolding try_transition_def assms(1,2) by (metis prod.collapse)
  have "memory_live now (w_store w1) (order_key ?oid) = Some b" using lv w1 by simp
  from update_undisturbed [OF assms(4) this dec, of "set_stage_hash ty h"] obtain b1 w2
    where u: "update_order M ?oid (set_stage_hash ty h) w1 = (Inr ?ord', w2)" and b1: "encode ?oc ?ord' = Inr b1"
      and wr: "writes_key memory_live (order_key ?oid) None now b1 (w_store w1) (w_store w2)"
    unfolding update_order_def assms(1,2) by blast
  have adv: "advance_stage M ?oid ty (stage_target ty) h nxt w =
      ([DeliveryEv (TransactionCanonicalHashConflict ?oid ty stored h)], Inr (), w2)" for nxt
    using assms(13-16) by (simp add: advance_stage_def and_then_def call_def t reconcile_already_applied_stage_hash_def u publish_def)
  have gate: "all_expected_stage_hashes_confirmed M oid ty' (max (max (length hs) 1) 1) [h] h w = ([], Inr True, w)"
    if "length hs \<le> 1" for oid ty' and hs :: "bytes list"
    using that by (simp add: all_expected_stage_hashes_confirmed_def ok_def max_def)
  have fl: "length (fill_transaction_hashes ord) \<le> 1" and cl: "length (claim_transaction_hashes ord) \<le> 1"
    using assms(11,12) by (auto simp: fill_transaction_hashes_def claim_transaction_hashes_def split: option.splits)
  have "stage_confirmed M ty h ord w = ([DeliveryEv (TransactionCanonicalHashConflict ?oid ty stored h)], Inr (), w2)"
    using assms(6,8-12) adv gate [OF fl] gate [OF cl]
    by (cases ty) (auto simp: order_stage_def handle_prepare_confirmed_def handle_fill_confirmed_def
        handle_post_fill_confirmed_def handle_pre_claim_confirmed_def handle_claim_confirmed_def all_confirmed_defs
        and_then_def require_def expected_legs_def expected_fill_transaction_count_def
        expected_claim_transaction_count_def Let_def split: option.splits)
  moreover have "stage_hash ?ord' ty = Some h"
    using assms(6,9,10) by (cases ty) (auto simp: order_stage_def stage_hash_def set_stage_hash_def
        set_fill_transaction_hash_def set_claim_transaction_hash_def)
  moreover have "holds_order memory_live ?oc (w_store w2) ?oid ?ord'"
    using wr codec_okD [OF assms(3) b1] by (auto simp: holds_order_def writes_key_def until_ttl_def)
  ultimately show ?thesis using assms(17) wr w1 by (auto simp: writes_key_def intro!: exI [of _ ?ord'])
qed

section \<open>Witnesses\<close>

text \<open>An order with two fill transactions, the first of them confirmed in the ledger.\<close>

type_synonym order_or_attempt = "order + transaction_attempt"

definition two_leg_machine :: "(order_or_attempt memory_storage, order_or_attempt) machine" where
  "two_leg_machine = \<lparr>mc_backend = memory_backend,
     mc_orders = \<lparr>encode = (\<lambda>ord. Inr (Inl ord)), decode = (\<lambda>b. case b of Inl ord \<Rightarrow> Inr ord | Inr _ \<Rightarrow> Inl [])\<rparr>,
     mc_reservations = \<lparr>encode = (\<lambda>_. Inl []), decode = (\<lambda>_. Inl [])\<rparr>,
     mc_attempts = \<lparr>encode = (\<lambda>a. Inr (Inr a)), decode = (\<lambda>b. case b of Inl _ \<Rightarrow> Inl [] | Inr a \<Rightarrow> Inr a)\<rparr>,
     mc_strings = \<lparr>encode = (\<lambda>_. Inl []), decode = (\<lambda>_. Inl [])\<rparr>, mc_hex = (\<lambda>_. []), mc_parse = (\<lambda>_. Inl []),
     mc_show_status = (\<lambda>_. []), mc_sched = quiet (\<lambda>_. 5)\<rparr>"

lemma two_leg_machine_simps [simp]:
  "mc_backend two_leg_machine = memory_backend" "mc_sched two_leg_machine = quiet (\<lambda>_. 5)" "mc_hex two_leg_machine = (\<lambda>_. [])"
  "encode (mc_orders two_leg_machine) ord = Inr (Inl ord)" "decode (mc_orders two_leg_machine) (Inl ord) = Inr ord"
  "encode (mc_attempts two_leg_machine) a = Inr (Inr a)" "decode (mc_attempts two_leg_machine) (Inr a) = Inr a"
  "codec_ok (mc_orders two_leg_machine)" "encodes_all (mc_orders two_leg_machine)" "codec_ok (mc_attempts two_leg_machine)"
  "fair_machine two_leg_machine"
  by (simp_all add: two_leg_machine_def codec_ok_def encodes_all_def fair_machine_def)

definition two_leg_order :: order where
  "two_leg_order = (sample_order Executing)\<lparr>fill_tx_hash := Some [1], fill_tx_hashes := [[1], [2]], expected_fill_tx_count := Some 2\<rparr>"

definition first_leg :: transaction_attempt where
  "first_leg = (sample_attempt Confirmed)\<lparr>at_tx_hash := Some [1]\<rparr>"

definition two_leg_world :: "order_or_attempt memory_storage world" where
  "two_leg_world = \<lparr>w_store = put_entry 0 (put_entry 0 memory_new (attempt_key ''a1'') (Inr first_leg)
       (Some (transaction_attempt_indexes (\<lambda>_. []) first_leg)) None)
     (order_key ''o1'') (Inl two_leg_order) None None, w_tick = 0\<rparr>"

lemma order_not_attempt_key [simp]: "order_key i \<noteq> attempt_key j" "attempt_key j \<noteq> order_key i"
  unfolding order_key_def attempt_key_def mk_key_def by simp_all

lemma two_leg_live:
  "memory_live t (w_store two_leg_world) k =
     (if k = order_key ''o1'' then Some (Inl two_leg_order) else if k = attempt_key ''a1'' then Some (Inr first_leg) else None)"
  by (simp add: two_leg_world_def memory_live_put until_ttl_def)

lemma two_leg_indexed: "attempts_indexed (mc_attempts two_leg_machine) (\<lambda>_. []) (w_store two_leg_world)"
proof -
  let ?m = "put_entry 0 memory_new (attempt_key ''a1'') (Inr first_leg)
       (Some (transaction_attempt_indexes (\<lambda>_. []) first_leg)) None :: order_or_attempt memory_storage"
  have "rows_indexed attempts_ns (mc_attempts two_leg_machine) (transaction_attempt_indexes (\<lambda>_. [])) memory_new"
    by (simp add: rows_indexed_def memory_table_def memory_new_def memory_ok_def index_distinct_def
        index_placed_def indexed_keys_def)
  then have m: "rows_indexed attempts_ns (mc_attempts two_leg_machine) (transaction_attempt_indexes (\<lambda>_. [])) ?m"
    unfolding attempt_key_def by (rule rows_indexed_set [rotated]) simp_all
  show ?thesis using m order_not_attempt_key [unfolded attempt_key_def]
    by (auto simp: attempts_indexed_def rows_indexed_def two_leg_world_def table_put memory_ok_put)
qed

theorem all_legs_confirmed_before_advance_witness:
  "publishes (starts_next Fill) (stage_confirmed two_leg_machine Fill [2] two_leg_order) two_leg_world \<and>
   (\<exists>as w1. order_attempts two_leg_machine ''o1'' two_leg_world = (Inr as, w1) \<and>
      {[1], [2]} \<subseteq> insert [2] (confirmed_hashes Fill as))"
proof -
  have oid: "order_id two_leg_order = ''o1''" by (simp add: two_leg_order_def sample_order_def)
  have planned: "planned_legs Fill two_leg_order = Some 2" "set (legs Fill two_leg_order) = {[1], [2]}"
    by (simp_all add: planned_legs_def two_leg_order_def legs_def fill_transaction_hashes_def)
  obtain as w1 where as: "order_attempts two_leg_machine ''o1'' two_leg_world = (Inr as, w1)"
    and w1: "w_store w1 = w_store two_leg_world" and set_as: "set as = {first_leg}"
  proof -
    have "{a. (\<exists>i. stored_item attempts_ns (mc_attempts two_leg_machine) 5 (w_store two_leg_world) i a) \<and>
        JString ''o1'' \<in> fields_of (Some (transaction_attempt_indexes (\<lambda>_. []) a)) ''order_id'' \<and> True} = {first_leg}"
      unfolding stored_item_def attempt_key_def [symmetric] two_leg_live
      by (auto simp: first_leg_def sample_attempt_def planned_def attempt_index_fields)
    then show ?thesis
      using that query_attempts_items [OF two_leg_indexed, of 5 "''order_id''" "JString ''o1''" "\<lambda>_. True"]
      by (auto simp: order_attempts_def attempts_for_order_def)
  qed
  have conf: "confirmed_hashes Fill as = {[1]}"
    by (auto simp: confirmed_hashes_def set_as first_leg_def sample_attempt_def planned_def)
  have chk: "all_expected_stage_hashes_confirmed two_leg_machine ''o1'' Fill 2 [[1], [2]] [2] two_leg_world = ([], Inr True, w1)"
    using distinct_card [OF add_confirmed_distinct [of "[[2]]" Fill as]]
    by (simp add: all_expected_stage_hashes_confirmed_def and_then_def call_def as ok_def Let_def add_confirmed_set conf)
  have "edge (status_kind Executing) (status_kind Executed)" by (simp add: edge_def)
  then obtain o1 w2 where "try_transition two_leg_machine ''o1'' Executed (set_stage_hash Fill [2]) w1 = (Inr (Applied o1), w2)"
    using transition_undisturbed(3) [OF two_leg_machine_simps(9), of 5 w1 "''o1''" "Inl two_leg_order" two_leg_order Executed
        "mc_parse two_leg_machine" "mc_reservations two_leg_machine" "set_stage_hash Fill [2]"]
    by (auto simp: try_transition_def w1 two_leg_live two_leg_order_def sample_order_def) (metis prod.collapse)
  then have pub: "publishes (starts_next Fill) (stage_confirmed two_leg_machine Fill [2] two_leg_order) two_leg_world"
    using chk
    by (simp add: handle_fill_confirmed_def publishes_and_then all_confirmed_defs oid advance_stage_def call_Inr
        expected_legs_def expected_fill_transaction_count_def Let_def)
      (simp add: two_leg_order_def fill_transaction_hashes_def numeral_2_eq_2, metis outcome_applied.simps(1))
  show ?thesis
    using all_legs_confirmed_before_advance [OF two_leg_machine_simps(11) disjI1 [OF refl] planned(1) pub] pub
    unfolding planned(2) oid by fastforce
qed

definition late_order :: order where
  "late_order = (sample_order PreClaimed)\<lparr>pre_claim_tx_hash := Some [1],
     order_execution_params := Some \<lparr>gas_price = 0, priority_fee = None\<rparr>\<rparr>"

definition late_world :: "stored memory_storage world" where
  "late_world = \<lparr>w_store = put_entry 0 memory_new (order_key ''o1'') (Inl late_order) None None, w_tick = 0\<rparr>"

theorem late_confirmation_repoints_hash_witness:
  "\<exists>evs w' ord'. stage_confirmed (calm_machine 5) PreClaim [2] late_order late_world = (evs, Inr (), w') \<and>
    holds_order memory_live order_codec (w_store w') ''o1'' ord' \<and> pre_claim_tx_hash ord' = Some [2]"
proof -
  obtain evs r w' where run: "stage_confirmed (calm_machine 5) PreClaim [2] late_order late_world = (evs, r, w')"
    using prod_cases3 by blast
  have fields: "order_id late_order = ''o1''" "status late_order = PreClaimed" "order_execution_params late_order \<noteq> None"
    "expected_fill_tx_count late_order = None" "expected_claim_tx_count late_order = None"
    "length (fill_tx_hashes late_order) \<le> 1" "length (claim_tx_hashes late_order) \<le> 1"
    "stage_hash late_order PreClaim = Some [1]" "[2] \<notin> set (fill_transaction_hashes late_order)"
    "[2] \<notin> set (claim_transaction_hashes late_order)"
    by (simp_all add: late_order_def sample_order_def stage_hash_def fill_transaction_hashes_def claim_transaction_hashes_def)
  have held: "holds_order memory_live order_codec (w_store late_world) (order_id late_order) late_order"
    by (simp add: fields holds_order_def late_world_def memory_live_put until_ttl_def order_codec_def)
  have past: "is_at_or_past (status late_order) (stage_target PreClaim)" by (simp add: fields is_at_or_past_reach)
  have ne: "[1] \<noteq> ([2] :: bytes)" and stg: "order_stage PreClaim" by (simp_all add: order_stage_def)
  from late_confirmation_repoints_hash [of "calm_machine 5" 5, unfolded calm_machine_simps, OF refl refl stored_codecs_ok(1,2)
      held stg past fields(3-8) ne fields(9,10) run]
  show ?thesis using run by (auto simp: fields stage_hash_def)
qed

end
