(* ===== verification/Source_Finality.thy ===== *)
theory Source_Finality
  imports Bump_Config
begin

text \<open>
  \<^verbatim>\<open>crates/solver-types/src/finality.rs\<close> and the finality section of \<^verbatim>\<open>crates/solver-config/src/lib.rs\<close>:
  which block of a source chain is old enough to rely on.  The fill of an escrow order reads the
  deposit at that block.
\<close>

section \<open>Selecting the head\<close>

datatype source_finality_mode = Numeric | Safe | FinalizedTag | Conservative

record source_finality_rule =
  sf_mode :: source_finality_mode
  sf_blocks :: nat
  sf_block_time_seconds :: nat
  sf_expected_delay_seconds :: "nat option"

definition non_genesis_tag :: "nat option \<Rightarrow> nat option" where
  "non_genesis_tag tag = (case tag of Some b \<Rightarrow> if b > 0 then Some b else None | None \<Rightarrow> None)"

text \<open>\<open>for tagged in \<dots> { head = head.min(tagged) }\<close>\<close>

definition lower_to :: "nat \<Rightarrow> nat option \<Rightarrow> nat" where
  "lower_to head tag = (case tag of None \<Rightarrow> head | Some b \<Rightarrow> min head b)"

definition select_finality_head :: "nat option \<Rightarrow> nat option \<Rightarrow> nat \<Rightarrow> nat \<Rightarrow> nat option" where
  "select_finality_head finalized safe latest finality_blocks =
     (case checked_sub latest finality_blocks of
        None \<Rightarrow> None
      | Some numeric \<Rightarrow> Some (foldl lower_to numeric (filter (\<lambda>t. case t of None \<Rightarrow> False | Some b \<Rightarrow> b > 0) [finalized, safe])))"

definition conservative_head :: "nat option \<Rightarrow> nat option \<Rightarrow> nat \<Rightarrow> nat" where
  "conservative_head finalized safe numeric =
     lower_to (lower_to numeric (non_genesis_tag finalized)) (non_genesis_tag safe)"

definition select_source_finality_head ::
  "nat option \<Rightarrow> nat option \<Rightarrow> nat \<Rightarrow> source_finality_rule \<Rightarrow> nat option" where
  "select_source_finality_head finalized safe latest rule =
     (case checked_sub latest (sf_blocks rule) of
        None \<Rightarrow> None
      | Some numeric \<Rightarrow>
          (case sf_mode rule of
             Numeric \<Rightarrow> Some numeric
           | Safe \<Rightarrow> map_option (min numeric) (non_genesis_tag safe)
           | FinalizedTag \<Rightarrow> map_option (min numeric) (non_genesis_tag finalized)
           | Conservative \<Rightarrow> Some (conservative_head finalized safe numeric)))"

section \<open>Resolving the rule\<close>

definition DEFAULT_SOURCE_FINALITY_BLOCKS :: nat where "DEFAULT_SOURCE_FINALITY_BLOCKS = 20"
definition DEFAULT_SOURCE_FINALITY_BLOCK_TIME_SECONDS :: nat where "DEFAULT_SOURCE_FINALITY_BLOCK_TIME_SECONDS = 12"
definition DEFAULT_SOURCE_FINALITY_EXPECTED_DELAY_SECONDS :: nat where
  "DEFAULT_SOURCE_FINALITY_EXPECTED_DELAY_SECONDS = 1200"

record source_finality_chain_config =
  sfc_mode :: "source_finality_mode option"
  sfc_blocks :: "nat option"
  sfc_block_time_seconds :: "nat option"
  sfc_expected_delay_seconds :: "nat option"

record source_finality_config =
  sfg_default_mode :: source_finality_mode
  sfg_default_blocks :: nat
  sfg_default_block_time_seconds :: nat
  sfg_default_expected_delay_seconds :: "nat option"
  sfg_retry_grace_seconds :: nat
  sfg_chains :: "(nat \<times> source_finality_chain_config) list"

definition default_source_finality_config :: source_finality_config where
  "default_source_finality_config =
     \<lparr>sfg_default_mode = Conservative, sfg_default_blocks = DEFAULT_SOURCE_FINALITY_BLOCKS,
      sfg_default_block_time_seconds = DEFAULT_SOURCE_FINALITY_BLOCK_TIME_SECONDS,
      sfg_default_expected_delay_seconds = Some DEFAULT_SOURCE_FINALITY_EXPECTED_DELAY_SECONDS,
      sfg_retry_grace_seconds = 0, sfg_chains = []\<rparr>"

definition has_explicit_config :: "source_finality_config \<Rightarrow> bool" where
  "has_explicit_config c \<longleftrightarrow>
     sfg_default_mode c \<noteq> Conservative \<or> sfg_default_blocks c \<noteq> DEFAULT_SOURCE_FINALITY_BLOCKS \<or>
     sfg_default_block_time_seconds c \<noteq> DEFAULT_SOURCE_FINALITY_BLOCK_TIME_SECONDS \<or>
     sfg_default_expected_delay_seconds c \<noteq> Some DEFAULT_SOURCE_FINALITY_EXPECTED_DELAY_SECONDS \<or>
     sfg_retry_grace_seconds c \<noteq> 0 \<or> sfg_chains c \<noteq> []"

text \<open>
  An implementation's own settings are JSON: \<open>json_get\<close>, \<open>as_object\<close> and \<open>as_u64\<close> of the JSON library on
  an object given as its fields.
\<close>

datatype impl_value = ImplNumber nat | ImplObject "(string \<times> impl_value) list" | ImplOther

definition as_u64 :: "impl_value \<Rightarrow> nat option" where
  "as_u64 v = (case v of ImplNumber n \<Rightarrow> if n < u64_bound then Some n else None | _ \<Rightarrow> None)"

definition as_object :: "impl_value \<Rightarrow> (string \<times> impl_value) list option" where
  "as_object v = (case v of ImplObject fs \<Rightarrow> Some fs | _ \<Rightarrow> None)"

definition json_get :: "string \<Rightarrow> impl_value \<Rightarrow> impl_value option" where
  "json_get k v = (case v of ImplObject fs \<Rightarrow> map_of fs k | _ \<Rightarrow> None)"

definition finality_blocks_from_implementation_config :: "impl_value \<Rightarrow> nat \<Rightarrow> nat option" where
  "finality_blocks_from_implementation_config v chain_id =
     (case Option.bind (Option.bind (Option.bind (json_get ''finality_blocks'' v) as_object)
             (\<lambda>fs. map_of fs (to_dec chain_id))) as_u64 of
        Some depth \<Rightarrow> Some depth
      | None \<Rightarrow> Option.bind (json_get ''default_finality_blocks'' v) as_u64)"

definition legacy_source_finality_blocks ::
  "(string \<Rightarrow> impl_value option) \<Rightarrow> (string \<Rightarrow> impl_value option) \<Rightarrow> nat \<Rightarrow> nat" where
  "legacy_source_finality_blocks settlement_impls discovery_impls chain_id =
     (case Option.bind (settlement_impls ''broadcaster'') (\<lambda>v. finality_blocks_from_implementation_config v chain_id) of
        Some depth \<Rightarrow> depth
      | None \<Rightarrow>
          (case Option.bind (discovery_impls ''onchain_eip7683'')
                  (\<lambda>v. finality_blocks_from_implementation_config v chain_id) of
             Some depth \<Rightarrow> depth
           | None \<Rightarrow> DEFAULT_SOURCE_FINALITY_BLOCKS))"

definition source_finality_rule_for_config ::
  "source_finality_config \<Rightarrow> (string \<Rightarrow> impl_value option) \<Rightarrow> (string \<Rightarrow> impl_value option) \<Rightarrow> nat
   \<Rightarrow> source_finality_rule" where
  "source_finality_rule_for_config c settlement_impls discovery_impls chain_id =
     (let chain = map_of (sfg_chains c) chain_id;
          blocks = unwrap_or (Option.bind chain sfc_blocks)
            (if has_explicit_config c then sfg_default_blocks c
             else legacy_source_finality_blocks settlement_impls discovery_impls chain_id);
          block_time = unwrap_or (Option.bind chain sfc_block_time_seconds) (sfg_default_block_time_seconds c);
          mode = unwrap_or (Option.bind chain sfc_mode) (sfg_default_mode c)
      in \<lparr>sf_mode = mode, sf_blocks = blocks, sf_block_time_seconds = block_time,
          sf_expected_delay_seconds =
            or_else (or_else (Option.bind chain sfc_expected_delay_seconds)
                (if mode = Numeric then Some (saturating_mul u64_bound blocks block_time) else None))
              (sfg_default_expected_delay_seconds c)\<rparr>)"

section \<open>Properties\<close>

lemma selected_head_depth:
  "select_source_finality_head finalized safe latest rule = Some head \<Longrightarrow> head + sf_blocks rule \<le> latest"
  by (cases "sf_mode rule")
    (auto simp: select_source_finality_head_def conservative_head_def lower_to_def checked_sub_def split: if_splits option.splits)

text \<open>
  The head the solver relies on is never newer than the configured depth below the latest
  block; in the tag modes it is never newer than the (non-genesis) tag and is missing without one;
  in the conservative mode it is never newer than any tag that is present, and equals the older
  function's answer.  No head is selected exactly when the chain is shorter than the depth or the
  mode's tag is missing, and a selected head is the newest block that satisfies the mode's bounds.
\<close>

theorem finality_head_sound:
  "(\<forall>head. select_source_finality_head finalized safe latest rule = Some head \<longrightarrow>
      head + sf_blocks rule \<le> latest \<and>
      (sf_mode rule \<in> {Safe, Conservative} \<longrightarrow> (\<forall>b. safe = Some b \<and> 0 < b \<longrightarrow> head \<le> b)) \<and>
      (sf_mode rule \<in> {FinalizedTag, Conservative} \<longrightarrow> (\<forall>b. finalized = Some b \<and> 0 < b \<longrightarrow> head \<le> b)) \<and>
      (head + sf_blocks rule = latest \<or> safe = Some head \<or> finalized = Some head)) \<and>
   (select_source_finality_head finalized safe latest rule = None \<longleftrightarrow>
      latest < sf_blocks rule \<or> (sf_mode rule = Safe \<and> (safe = None \<or> safe = Some 0)) \<or>
      (sf_mode rule = FinalizedTag \<and> (finalized = None \<or> finalized = Some 0))) \<and>
   (sf_mode rule = Conservative \<longrightarrow>
      select_source_finality_head finalized safe latest rule = select_finality_head finalized safe latest (sf_blocks rule))"
  by (cases finalized; cases safe; cases "sf_mode rule")
    (auto simp: select_source_finality_head_def select_finality_head_def conservative_head_def lower_to_def
      non_genesis_tag_def checked_sub_def min_def split: if_splits option.splits)

theorem finality_head_sound_witness:
  "\<exists>head. select_source_finality_head (Some 70) (Some 90) 100
      \<lparr>sf_mode = Conservative, sf_blocks = 20, sf_block_time_seconds = 12, sf_expected_delay_seconds = None\<rparr> = Some head \<and>
    head + 20 \<le> 100 \<and> head \<le> 70"
proof -
  let ?rule = "\<lparr>sf_mode = Conservative, sf_blocks = 20, sf_block_time_seconds = 12, sf_expected_delay_seconds = None\<rparr>"
  note snd = finality_head_sound [of "Some 70" "Some 90" 100 ?rule]
  have "select_source_finality_head (Some 70) (Some 90) 100 ?rule \<noteq> None"
    using conjunct1 [OF conjunct2 [OF snd]] by (simp del: not_None_eq)
  then obtain head where head: "select_source_finality_head (Some 70) (Some 90) 100 ?rule = Some head" by blast
  then show ?thesis using conjunct1 [OF snd] by (intro exI [of _ head]) simp
qed

end
