(* ===== verification/Order_Handler.thy ===== *)
theory Order_Handler
  imports Transaction_Handler Source_Finality
begin

text \<open>
  \<^verbatim>\<open>crates/solver-core/src/handlers/order.rs\<close> with \<^verbatim>\<open>forced_withdrawal.rs\<close>, \<^verbatim>\<open>order_preparation.rs\<close> and
  \<^verbatim>\<open>solver-delivery/src/compact.rs\<close>: preparing an order on chain and filling it.  Before a fill is
  released the handler checks, at that moment, that the order's input can still be claimed.

  The order service (which builds transactions), the delivery service, contract calls and their
  ABI coding, configuration lookups and the parser of Hyperlane orders are the record \<open>order_env\<close>;
  the answers of the chain during one call of a handler are functions of the question.
\<close>

section \<open>Types\<close>

datatype hyperlane_status = HUnknown | HFilled | HSettled | HOther bytes

definition is_fill_complete :: "hyperlane_status \<Rightarrow> bool" where
  "is_fill_complete st = (st = HFilled \<or> st = HSettled)"

definition hyperlane_status_bytes :: "string \<Rightarrow> bytes" where
  "hyperlane_status_bytes s = map (\<lambda>c. word_of_nat (of_char c)) s @ replicate (32 - length s) 0"

definition from_evm_bytes32 :: "bytes \<Rightarrow> hyperlane_status" where
  "from_evm_bytes32 st =
     (if list_all (\<lambda>b. b = 0) st then HUnknown
      else if st = hyperlane_status_bytes ''FILLED'' then HFilled
      else if st = hyperlane_status_bytes ''SETTLED'' then HSettled
      else HOther st)"

definition from_starknet_status :: "string \<Rightarrow> hyperlane_status" where
  "from_starknet_status s =
     (if s = ''UNKNOWN'' then HUnknown else if s = ''FILLED'' then HFilled else if s = ''SETTLED'' then HSettled
      else HOther (map (\<lambda>c. word_of_nat (of_char c)) s))"

record hyperlane_output =
  ho_token :: bytes
  ho_amount :: nat
  ho_recipient :: bytes
  ho_chain_id :: nat

record hyperlane_instruction =
  hi_destination_chain_id :: nat
  hi_destination_settler :: bytes
  hi_origin_data :: bytes

record hyperlane_order =
  hy_user :: bytes
  hy_origin_chain_id :: nat
  hy_open_deadline :: nat
  hy_fill_deadline :: nat
  hy_order_id :: bytes
  hy_max_spent :: "hyperlane_output list"
  hy_min_received :: "hyperlane_output list"
  hy_fill_instructions :: "hyperlane_instruction list"

definition u256_to_hyperlane_domain :: "string \<Rightarrow> nat \<Rightarrow> (string, nat) result" where
  "u256_to_hyperlane_domain fld v =
     (if v > u32_bound - 1 then Inl (fld @ '' domain '' @ to_dec v @ '' exceeds uint32 max'') else Inr v)"

definition destination_domain :: "hyperlane_instruction \<Rightarrow> (string, nat) result" where
  "destination_domain i = u256_to_hyperlane_domain ''destination chain'' (hi_destination_chain_id i)"

definition HYPERLANE7683_STANDARD :: string where "HYPERLANE7683_STANDARD = ''hyperlane7683''"

datatype order_error =
    OeService string
  | OeDelivery delivery_error
  | OeStorage string
  | OeState string

datatype escrow_readiness = EscrowReady | EscrowDefer nat

datatype hyperlane_preflight =
    HProceed
  | HProceedWith order
  | HSkipToClaim hyperlane_order
  | HDefer nat

definition ESCROW_ORDER_STATUS_DEPOSITED :: nat where "ESCROW_ORDER_STATUS_DEPOSITED = 1"
definition ESCROW_ORDER_STATUS_NONE :: nat where "ESCROW_ORDER_STATUS_NONE = 0"
definition SOURCE_FINALITY_RETRY_AFTER :: nat where "SOURCE_FINALITY_RETRY_AFTER = 5"
definition HYPERLANE7683_PREFLIGHT_RETRY_AFTER :: nat where "HYPERLANE7683_PREFLIGHT_RETRY_AFTER = 5"
definition FORCED_WITHDRAWAL_DISABLED :: nat where "FORCED_WITHDRAWAL_DISABLED = 0"

record network =
  nw_the_compact_address :: "bytes option"
  nw_input_settler_address :: bytes

datatype block_tag = TagFinalized | TagSafe

record 's order_env =
  oe_generate_prepare :: "string \<Rightarrow> order \<Rightarrow> execution_params \<Rightarrow> (string, evm_transaction option) result"
  oe_generate_fills :: "order \<Rightarrow> execution_params \<Rightarrow> (string, execution_transaction list) result"
  oe_deliver :: "'s deliver_stage"
  oe_receipt :: "bytes \<Rightarrow> nat \<Rightarrow> (delivery_error, transaction_receipt) result"
  oe_networks :: "nat \<Rightarrow> network option"
  oe_finality_rule :: "nat \<Rightarrow> source_finality_rule"
  oe_finality_tag :: "nat \<Rightarrow> block_tag \<Rightarrow> (delivery_error, nat option) result"
  oe_block_number :: "nat \<Rightarrow> (delivery_error, nat) result"
  oe_call_at :: "nat \<Rightarrow> evm_transaction \<Rightarrow> nat \<Rightarrow> (delivery_error, bytes) result"
  oe_call :: "nat \<Rightarrow> evm_transaction \<Rightarrow> (delivery_error, bytes) result"
  oe_encode_forced_status :: "bytes \<Rightarrow> nat \<Rightarrow> bytes"
  oe_decode_forced_status :: "bytes \<Rightarrow> (string, nat) result"
  oe_encode_balance_of :: "bytes \<Rightarrow> nat \<Rightarrow> bytes"
  oe_encode_order_status :: "bytes \<Rightarrow> bytes"
  oe_decode_order_status :: "bytes \<Rightarrow> (string, nat) result"
  oe_hex_decode :: "string \<Rightarrow> (string, bytes) result"
  oe_parse_alloy :: "string \<Rightarrow> (string, bytes) result"
  oe_parse_hyperlane :: "json \<Rightarrow> (string, hyperlane_order) result"
  oe_hyperlane_value :: "hyperlane_order \<Rightarrow> (string, json) result"
  oe_hyperlane_status :: "nat \<Rightarrow> bytes \<Rightarrow> bytes \<Rightarrow> (delivery_error, hyperlane_status) result"

section \<open>Addresses\<close>

definition without_0x_prefix :: "string \<Rightarrow> string" where
  "without_0x_prefix s =
     (if starts_with ''0x'' s then drop 2 s else if starts_with ''0X'' s then drop 2 s else s)"

definition bytes32_to_address :: "(bytes \<Rightarrow> string) \<Rightarrow> bytes \<Rightarrow> string" where
  "bytes32_to_address hexe b =
     (let s = hexe b;
          address = (if length s \<ge> 40 then drop (length s - 40) s else s)
      in without_0x_prefix address)"

definition bytes20_to_alloy_address :: "bytes \<Rightarrow> (string, bytes) result" where
  "bytes20_to_alloy_address b =
     (if length b \<noteq> 20 then Inl (''Expected 20-byte address, got '' @ to_dec (length b)) else Inr b)"

definition hex_to_alloy_address ::
  "(string \<Rightarrow> (string, bytes) result) \<Rightarrow> (bytes \<Rightarrow> string) \<Rightarrow> (string \<Rightarrow> (string, bytes) result) \<Rightarrow> string
   \<Rightarrow> (string, bytes) result" where
  "hex_to_alloy_address hexd hexe parse_alloy s =
     (case hexd (trim_0x s) of
        Inl e \<Rightarrow> Inl (''Invalid hex string: '' @ e)
      | Inr b \<Rightarrow>
          if length b = 20 then bytes20_to_alloy_address b
          else if length b = 32
          then (case parse_alloy (''0x'' @ bytes32_to_address hexe b) of
                  Inl e \<Rightarrow> Inl (''Failed to parse extracted address: '' @ e)
                | Inr a \<Rightarrow> Inr a)
          else Inl (''Invalid address length: expected 20 or 32 bytes, got '' @ to_dec (length b)))"

definition view_tx :: "bytes \<Rightarrow> nat \<Rightarrow> bytes \<Rightarrow> evm_transaction" where
  "view_tx to_addr chain_id d =
     \<lparr>tx_to = Some to_addr, tx_data = d, tx_value = 0, tx_chain_id = chain_id, tx_nonce = None, tx_gas_limit = None,
      tx_gas_price = None, tx_max_fee_per_gas = None, tx_max_priority_fee_per_gas = None\<rparr>"

section \<open>Preparation\<close>

definition order_requires_preparation :: "('s, 'b) machine \<Rightarrow> order \<Rightarrow> bool" where
  "order_requires_preparation M ord =
     (if standard ord \<noteq> ''eip7683'' then False
      else (case mc_parse M (data ord) of
              Inl _ \<Rightarrow> False
            | Inr od \<Rightarrow>
                (eod_lock_type od = Some Permit2Escrow \<or> eod_lock_type od = Some Eip3009Escrow) \<and>
                eod_raw_order_data od \<noteq> None \<and> eod_sponsor od \<noteq> None \<and> eod_signature od \<noteq> None))"

definition handle_preparation ::
  "('s, 'b) machine \<Rightarrow> 's order_env \<Rightarrow> string \<Rightarrow> order \<Rightarrow> execution_params \<Rightarrow> ('s, order_error, unit) handler" where
  "handle_preparation M E source ord params =
     and_then (lift_result OeService (oe_generate_prepare E source ord params))
       (\<lambda>prepare_tx.
          case prepare_tx of
            Some tx \<Rightarrow>
              and_then (call (\<lambda>e. OeService (delivery_error_text e)) (oe_deliver E (Evm tx) (order_id ord) Prepare)) (\<lambda>h.
              and_then (publish (DeliveryEv (TransactionPending (order_id ord) h Prepare (tx_chain_id tx)))) (\<lambda>_.
              and_then (call (\<lambda>e. OeStorage (storage_error_text e)) (store_order_by_hash M h (order_id ord))) (\<lambda>_.
              and_then (call (\<lambda>e. OeState (order_error_text M e))
                  (update_order M (order_id ord) (\<lambda>stored. stored\<lparr>status := Pending, prepare_tx_hash := Some h\<rparr>))) (\<lambda>_.
              ok ()))))
          | None \<Rightarrow>
              and_then (call (\<lambda>e. OeState (order_error_text M e))
                  (update_order M (order_id ord) (\<lambda>stored. stored\<lparr>status := Executing\<rparr>))) (\<lambda>_.
              publish (OrderEv (OrderExecuting ord params))))"

section \<open>Guards before a fill\<close>

definition handle_existing_fill_transaction ::
  "('s, 'b) machine \<Rightarrow> 's order_env \<Rightarrow> order \<Rightarrow> ('s, order_error, bool) handler" where
  "handle_existing_fill_transaction M E ord =
     (if expected_fill_transaction_count ord > 1 \<or> length (fill_transaction_hashes ord) > 1 then ok False
      else (case fill_tx_hash ord of
              None \<Rightarrow> ok False
            | Some h \<Rightarrow>
                (case output_chains ord of
                   [] \<Rightarrow> err (OeService ''Order has fill_tx_hash but no output chain to check receipt'')
                 | chain # _ \<Rightarrow>
                     (case oe_receipt E h (csi_chain_id chain) of
                        Inr receipt \<Rightarrow>
                          if rcpt_success receipt
                          then and_then (publish (DeliveryEv (TransactionConfirmed (order_id ord) h Fill receipt))) (\<lambda>_. ok True)
                          else err (OeService (''Existing fill transaction '' @ (''0x'' @ mc_hex M h) @ '' on chain '' @
                                 to_dec (csi_chain_id chain) @ '' reverted''))
                      | Inl _ \<Rightarrow> ok True))))"

text \<open>Errors of the resource lock guard in their display form.\<close>

datatype forced_withdrawal_error =
    FwActive nat nat
  | FwInsufficientBalance nat nat nat
  | FwQuery string

fun forced_withdrawal_text :: "forced_withdrawal_error \<Rightarrow> string" where
  "forced_withdrawal_text (FwActive lock st) =
     ''ResourceLock input '' @ to_dec lock @ '' has forced withdrawal active (status '' @ to_dec st @ ''); refusing to fill''"
| "forced_withdrawal_text (FwInsufficientBalance lock required available) =
     ''ResourceLock input '' @ to_dec lock @ '' balance '' @ to_dec available @ '' is below required amount '' @
     to_dec required @ ''; refusing to fill''"
| "forced_withdrawal_text (FwQuery m) = ''Failed to query TheCompact resource lock state: '' @ m"

fun ensure_no_forced_withdrawal ::
  "'s order_env \<Rightarrow> bytes \<Rightarrow> nat \<Rightarrow> bytes \<Rightarrow> nat list \<Rightarrow> (forced_withdrawal_error, unit) result" where
  "ensure_no_forced_withdrawal E compact chain sponsor [] = Inr ()"
| "ensure_no_forced_withdrawal E compact chain sponsor (lock # locks) =
     (case oe_call E chain (view_tx compact chain (oe_encode_forced_status E sponsor lock)) of
        Inl e \<Rightarrow> Inl (FwQuery (delivery_error_text e))
      | Inr b \<Rightarrow>
          (case oe_decode_forced_status E b of
             Inl e \<Rightarrow> Inl (FwQuery e)
           | Inr st \<Rightarrow>
               if st \<noteq> FORCED_WITHDRAWAL_DISABLED then Inl (FwActive lock st)
               else ensure_no_forced_withdrawal E compact chain sponsor locks))"

text \<open>\<open>U256::from_be_bytes\<close>\<close>

definition from_be_bytes :: "bytes \<Rightarrow> nat" where
  "from_be_bytes b = foldl (\<lambda>n d. n * 256 + unat d) 0 b"

definition fetch_compact_balance :: "'s order_env \<Rightarrow> nat \<Rightarrow> bytes \<Rightarrow> bytes \<Rightarrow> nat \<Rightarrow> (string, nat) result" where
  "fetch_compact_balance E chain compact owner token =
     (case oe_call E chain (view_tx compact chain (oe_encode_balance_of E owner token)) of
        Inl e \<Rightarrow> Inl (''Failed to query TheCompact deposit: '' @ delivery_error_text e)
      | Inr b \<Rightarrow>
          if length b \<noteq> 32
          then Inl (''Unexpected TheCompact balanceOf response length: expected 32 bytes, got '' @ to_dec (length b))
          else Inr (from_be_bytes b))"

fun ensure_balances ::
  "'s order_env \<Rightarrow> bytes \<Rightarrow> nat \<Rightarrow> bytes \<Rightarrow> (nat \<times> nat) list \<Rightarrow> (forced_withdrawal_error, unit) result" where
  "ensure_balances E compact chain sponsor [] = Inr ()"
| "ensure_balances E compact chain sponsor ((lock, required) # inputs) =
     (if required = 0 then ensure_balances E compact chain sponsor inputs
      else (case fetch_compact_balance E chain compact sponsor lock of
              Inl e \<Rightarrow> Inl (FwQuery e)
            | Inr available \<Rightarrow>
                if available < required then Inl (FwInsufficientBalance lock required available)
                else ensure_balances E compact chain sponsor inputs))"

definition ensure_resource_locks_claimable ::
  "'s order_env \<Rightarrow> bytes \<Rightarrow> nat \<Rightarrow> bytes \<Rightarrow> (nat \<times> nat) list \<Rightarrow> (forced_withdrawal_error, unit) result" where
  "ensure_resource_locks_claimable E compact chain sponsor inputs =
     (case ensure_no_forced_withdrawal E compact chain sponsor (map fst inputs) of
        Inl e \<Rightarrow> Inl e
      | Inr _ \<Rightarrow> ensure_balances E compact chain sponsor inputs)"

definition check_forced_withdrawal_before_fill ::
  "('s, 'b) machine \<Rightarrow> 's order_env \<Rightarrow> order \<Rightarrow> (order_error, unit) result" where
  "check_forced_withdrawal_before_fill M E ord =
     (case mc_parse M (data ord) of
        Inl e \<Rightarrow>
          if standard ord = ''eip7683''
          then Inl (OeService (''Failed to parse EIP-7683 order data before ResourceLock guard: '' @ e))
          else Inr ()
      | Inr od \<Rightarrow>
          if eod_lock_type od \<noteq> Some ResourceLock then Inr ()
          else (case u64_try_from (eod_origin_chain_id od) of
                  None \<Rightarrow> Inl (OeService ''Invalid origin chain ID'')
                | Some chain \<Rightarrow>
                    (case Option.bind (oe_networks E chain) nw_the_compact_address of
                       None \<Rightarrow>
                         Inl (OeService (''ResourceLock fill aborted: TheCompact address not configured for origin chain '' @ to_dec chain))
                     | Some compact \<Rightarrow>
                         (case hex_to_alloy_address (oe_hex_decode E) (mc_hex M) (oe_parse_alloy E) (eod_user od) of
                            Inl e \<Rightarrow> Inl (OeService (''Invalid sponsor address: '' @ e))
                          | Inr sponsor \<Rightarrow>
                              (case ensure_resource_locks_claimable E compact chain sponsor (eod_inputs od) of
                                 Inl e \<Rightarrow> Inl (OeService (forced_withdrawal_text e))
                               | Inr _ \<Rightarrow> Inr ())))))"

text \<open>A finality tag that cannot be read counts as absent.\<close>

definition finality_tag :: "'s order_env \<Rightarrow> nat \<Rightarrow> block_tag \<Rightarrow> nat option" where
  "finality_tag E chain tag = (case oe_finality_tag E chain tag of Inl _ \<Rightarrow> None | Inr b \<Rightarrow> b)"

text \<open>The escrow's order status when the read at the confirmed block came back empty.\<close>

definition latest_order_status ::
  "'s order_env \<Rightarrow> nat \<Rightarrow> evm_transaction \<Rightarrow> nat \<Rightarrow> (order_error, escrow_readiness) result" where
  "latest_order_status E chain tx confirmed =
     (case oe_call E chain tx of
        Inl _ \<Rightarrow> Inr (EscrowDefer SOURCE_FINALITY_RETRY_AFTER)
      | Inr b \<Rightarrow>
          if b = [] then Inl (OeService (''Escrow fill aborted: source orderStatus returned empty data at latest; check input '' @
            ''settler address and orderStatus ABI for origin chain '' @ to_dec chain))
          else (case oe_decode_order_status E b of
                  Inl e \<Rightarrow> Inl (OeService (''Escrow fill aborted: failed to decode latest source orderStatus after empty '' @
                    ''confirmed read at block '' @ to_dec confirmed @ '': '' @ e))
                | Inr st \<Rightarrow>
                    if st \<noteq> ESCROW_ORDER_STATUS_DEPOSITED \<and> st \<noteq> ESCROW_ORDER_STATUS_NONE
                    then Inl (OeService (''Escrow fill aborted: latest source orderStatus is '' @ to_dec st @
                      '', expected Deposited ('' @ to_dec ESCROW_ORDER_STATUS_DEPOSITED @ '')''))
                    else Inr (EscrowDefer SOURCE_FINALITY_RETRY_AFTER)))"

definition deposit_status ::
  "'s order_env \<Rightarrow> nat \<Rightarrow> evm_transaction \<Rightarrow> nat \<Rightarrow> (order_error, escrow_readiness) result" where
  "deposit_status E chain tx confirmed =
     (case oe_call_at E chain tx confirmed of
        Inl _ \<Rightarrow> Inr (EscrowDefer SOURCE_FINALITY_RETRY_AFTER)
      | Inr b \<Rightarrow>
          if b = [] then latest_order_status E chain tx confirmed
          else (case oe_decode_order_status E b of
                  Inl e \<Rightarrow> Inl (OeService (''Escrow fill aborted: failed to decode source orderStatus: '' @ e))
                | Inr st \<Rightarrow>
                    if st \<noteq> ESCROW_ORDER_STATUS_DEPOSITED
                    then (if st = ESCROW_ORDER_STATUS_NONE then Inr (EscrowDefer SOURCE_FINALITY_RETRY_AFTER)
                          else Inl (OeService (''Escrow fill aborted: source orderStatus is '' @ to_dec st @
                            '', expected Deposited ('' @ to_dec ESCROW_ORDER_STATUS_DEPOSITED @ '')'')))
                    else Inr EscrowReady))"

definition check_escrow_deposit_before_fill ::
  "('s, 'b) machine \<Rightarrow> 's order_env \<Rightarrow> order \<Rightarrow> (order_error, escrow_readiness) result" where
  "check_escrow_deposit_before_fill M E ord =
     (case mc_parse M (data ord) of
        Inl e \<Rightarrow>
          if standard ord = ''eip7683''
          then Inl (OeService (''Failed to parse EIP-7683 order data before source deposit guard: '' @ e))
          else Inr EscrowReady
      | Inr od \<Rightarrow>
          (case eod_lock_type od of
             None \<Rightarrow> Inr EscrowReady
           | Some lock_ty \<Rightarrow>
               if \<not> is_escrow lock_ty then Inr EscrowReady
               else (case u64_try_from (eod_origin_chain_id od) of
                       None \<Rightarrow> Inl (OeService ''Invalid origin chain ID'')
                     | Some chain \<Rightarrow>
                         (case oe_networks E chain of
                            None \<Rightarrow> Inl (OeService (''Escrow fill aborted: input settler not configured for origin chain '' @ to_dec chain))
                          | Some nw \<Rightarrow>
                              (case oe_block_number E chain of
                                 Inl _ \<Rightarrow> Inr (EscrowDefer SOURCE_FINALITY_RETRY_AFTER)
                               | Inr latest \<Rightarrow>
                                   (case select_source_finality_head (finality_tag E chain TagFinalized)
                                           (finality_tag E chain TagSafe) latest (oe_finality_rule E chain) of
                                      None \<Rightarrow> Inr (EscrowDefer SOURCE_FINALITY_RETRY_AFTER)
                                    | Some confirmed \<Rightarrow>
                                        deposit_status E chain
                                          (view_tx (nw_input_settler_address nw) chain (oe_encode_order_status E (eod_order_id od)))
                                          confirmed))))))"

text \<open>The instructions whose destination reports an incomplete fill; an unreadable status stops the scan.\<close>

fun incomplete_instructions ::
  "'s order_env \<Rightarrow> bytes \<Rightarrow> hyperlane_instruction list \<Rightarrow> (order_error, hyperlane_instruction list option) result" where
  "incomplete_instructions E oid [] = Inr (Some [])"
| "incomplete_instructions E oid (i # is) =
     (case destination_domain i of
        Inl e \<Rightarrow> Inl (OeService (''Invalid Hyperlane7683 destination chain id for preflight: '' @ e))
      | Inr chain \<Rightarrow>
          (case oe_hyperlane_status E chain (hi_destination_settler i) oid of
             Inl _ \<Rightarrow> Inr None
           | Inr st \<Rightarrow>
               (case incomplete_instructions E oid is of
                  Inr (Some rest) \<Rightarrow> Inr (Some (if is_fill_complete st then rest else i # rest))
                | q \<Rightarrow> q)))"

definition check_hyperlane7683_fill_preflight :: "'s order_env \<Rightarrow> order \<Rightarrow> (order_error, hyperlane_preflight) result" where
  "check_hyperlane7683_fill_preflight E ord =
     (if standard ord \<noteq> HYPERLANE7683_STANDARD then Inr HProceed
      else (case oe_parse_hyperlane E (data ord) of
              Inl e \<Rightarrow> Inl (OeService (''Failed to parse Hyperlane7683 resolved order data: '' @ e))
            | Inr resolved \<Rightarrow>
                if hy_fill_instructions resolved = [] then Inr HProceed
                else (case incomplete_instructions E (hy_order_id resolved) (hy_fill_instructions resolved) of
                        Inl e \<Rightarrow> Inl e
                      | Inr None \<Rightarrow> Inr (HDefer HYPERLANE7683_PREFLIGHT_RETRY_AFTER)
                      | Inr (Some incomplete) \<Rightarrow>
                          if length incomplete = length (hy_fill_instructions resolved) then Inr HProceed
                          else if incomplete = [] then Inr (HSkipToClaim resolved)
                          else (case oe_hyperlane_value E (resolved\<lparr>hy_fill_instructions := incomplete\<rparr>) of
                                  Inl e \<Rightarrow> Inl (OeService (''Failed to serialize filtered Hyperlane7683 fill order: '' @ e))
                                | Inr d \<Rightarrow> Inr (HProceedWith (ord\<lparr>data := d\<rparr>))))))"

section \<open>Filling\<close>

definition synthetic_fill_proof :: "bytes \<Rightarrow> nat \<Rightarrow> fill_proof" where
  "synthetic_fill_proof h now =
     \<lparr>fp_tx_hash = h, fp_block_number = 0, fp_attestation_data = None, fp_filled_timestamp = now,
      fp_oracle_address = ''0x0000000000000000000000000000000000000000''\<rparr>"

definition mark_hyperlane7683_prefilled_order_claim_ready ::
  "('s, 'b) machine \<Rightarrow> order \<Rightarrow> hyperlane_order \<Rightarrow> ('s, order_error, unit) handler" where
  "mark_hyperlane7683_prefilled_order_claim_ready M ord resolved =
     and_then (call (\<lambda>e. OeState (order_error_text M e))
       (try_transition M (order_id ord) Executed (add_fill_transaction_hash (hy_order_id resolved)))) (\<lambda>_.
     and_then (call (\<lambda>e. OeState (order_error_text M e))
       (\<lambda>w. put_fill_proof M (order_id ord) (synthetic_fill_proof (hy_order_id resolved) (current_timestamp (w_unix (mc_sched M) w))) w)) (\<lambda>_.
     and_then (call (\<lambda>e. OeState (order_error_text M e)) (try_transition M (order_id ord) Settled (\<lambda>stored. stored))) (\<lambda>_.
     publish (SettlementEv (ClaimReady (order_id ord))))))"

fun submit_fills :: "('s, 'b) machine \<Rightarrow> 's order_env \<Rightarrow> string \<Rightarrow> execution_transaction list \<Rightarrow> ('s, order_error, unit) handler" where
  "submit_fills M E oid [] = ok ()"
| "submit_fills M E oid (tx # txs) =
     and_then (call OeDelivery (oe_deliver E tx oid Fill)) (\<lambda>h.
     and_then (publish (DeliveryEv (TransactionPending oid h Fill (network_id tx)))) (\<lambda>_.
     and_then (ignore (\<lambda>w. ((), record_submission M oid h Fill w))) (\<lambda>_.
     submit_fills M E oid txs)))"

definition release_fill ::
  "('s, 'b) machine \<Rightarrow> 's order_env \<Rightarrow> string \<Rightarrow> order \<Rightarrow> execution_params \<Rightarrow> ('s, order_error, unit) handler" where
  "release_fill M E oid fill_order params =
     and_then (lift_result OeService (oe_generate_fills E fill_order params)) (\<lambda>txs.
       if txs = [] then err (OeService ''Fill transaction generation returned no transactions'')
       else and_then
              (if length txs > 1
               then and_then (call (\<lambda>e. OeState (order_error_text M e))
                      (update_order M oid (\<lambda>stored. stored\<lparr>expected_fill_tx_count := Some (length txs)\<rparr>))) (\<lambda>_. ok ())
               else ok ())
              (\<lambda>_. submit_fills M E oid txs))"

definition handle_execution ::
  "('s, 'b) machine \<Rightarrow> 's order_env \<Rightarrow> order \<Rightarrow> execution_params \<Rightarrow> ('s, order_error, unit) handler" where
  "handle_execution M E ord params =
     (if order_requires_preparation M ord \<and> prepare_tx_hash ord = None
      then err (OeService (''Order '' @ order_id ord @ '' requires preparation before fill, but prepare_tx_hash is missing''))
      else and_then (handle_existing_fill_transaction M E ord) (\<lambda>submitted.
        if submitted then ok ()
        else and_then (lift_result (\<lambda>e. e) (check_forced_withdrawal_before_fill M E ord)) (\<lambda>_.
             and_then (lift_result (\<lambda>e. e) (check_escrow_deposit_before_fill M E ord)) (\<lambda>readiness.
               case readiness of
                 EscrowDefer retry \<Rightarrow> publish (OrderEv (OrderDeferred (order_id ord) retry))
               | EscrowReady \<Rightarrow>
                   and_then (lift_result (\<lambda>e. e) (check_hyperlane7683_fill_preflight E ord)) (\<lambda>preflight.
                     case preflight of
                       HProceed \<Rightarrow> release_fill M E (order_id ord) ord params
                     | HProceedWith fill_order \<Rightarrow> release_fill M E (order_id ord) fill_order params
                     | HSkipToClaim resolved \<Rightarrow> mark_hyperlane7683_prefilled_order_claim_ready M ord resolved
                     | HDefer retry \<Rightarrow> publish (OrderEv (OrderDeferred (order_id ord) retry)))))))"

section \<open>A fill is released only for an order that is backed\<close>

definition lock_claimable :: "'s order_env \<Rightarrow> bytes \<Rightarrow> nat \<Rightarrow> bytes \<Rightarrow> nat \<times> nat \<Rightarrow> bool" where
  "lock_claimable E compact chain sponsor input \<longleftrightarrow>
     (\<exists>b. oe_call E chain (view_tx compact chain (oe_encode_forced_status E sponsor (fst input))) = Inr b \<and>
        oe_decode_forced_status E b = Inr FORCED_WITHDRAWAL_DISABLED) \<and>
     (snd input > 0 \<longrightarrow>
        (\<exists>b. oe_call E chain (view_tx compact chain (oe_encode_balance_of E sponsor (fst input))) = Inr b \<and>
           length b = 32 \<and> snd input \<le> from_be_bytes b))"

text \<open>What the chain says for an order whose input is a resource lock, and for one whose input is in escrow.\<close>

definition locks_backed :: "('s, 'b) machine \<Rightarrow> 's order_env \<Rightarrow> eip7683_order_data \<Rightarrow> bool" where
  "locks_backed M E od \<longleftrightarrow>
     (\<exists>chain nw compact sponsor. eod_origin_chain_id od = chain \<and> chain < u64_bound \<and> oe_networks E chain = Some nw \<and>
        nw_the_compact_address nw = Some compact \<and>
        hex_to_alloy_address (oe_hex_decode E) (mc_hex M) (oe_parse_alloy E) (eod_user od) = Inr sponsor \<and>
        list_all (lock_claimable E compact chain sponsor) (eod_inputs od))"

definition escrow_backed :: "'s order_env \<Rightarrow> eip7683_order_data \<Rightarrow> bool" where
  "escrow_backed E od \<longleftrightarrow>
     (\<exists>chain nw latest confirmed b. eod_origin_chain_id od = chain \<and> chain < u64_bound \<and> oe_networks E chain = Some nw \<and>
        oe_block_number E chain = Inr latest \<and> confirmed + sf_blocks (oe_finality_rule E chain) \<le> latest \<and>
        select_source_finality_head (finality_tag E chain TagFinalized) (finality_tag E chain TagSafe) latest
          (oe_finality_rule E chain) = Some confirmed \<and>
        oe_call_at E chain (view_tx (nw_input_settler_address nw) chain (oe_encode_order_status E (eod_order_id od))) confirmed = Inr b \<and>
        oe_decode_order_status E b = Inr ESCROW_ORDER_STATUS_DEPOSITED)"

lemma ensure_no_forced_withdrawal_iff:
  "ensure_no_forced_withdrawal E compact chain sponsor locks = Inr () \<longleftrightarrow>
     list_all (\<lambda>lock. \<exists>b. oe_call E chain (view_tx compact chain (oe_encode_forced_status E sponsor lock)) = Inr b \<and>
       oe_decode_forced_status E b = Inr FORCED_WITHDRAWAL_DISABLED) locks"
  by (induction locks) (auto split: sum.splits)

lemma ensure_balances_iff:
  "ensure_balances E compact chain sponsor inputs = Inr () \<longleftrightarrow>
     list_all (\<lambda>(lock, required). required > 0 \<longrightarrow>
       (\<exists>b. oe_call E chain (view_tx compact chain (oe_encode_balance_of E sponsor lock)) = Inr b \<and>
          length b = 32 \<and> required \<le> from_be_bytes b)) inputs"
  by (induction inputs) (auto simp: fetch_compact_balance_def split: sum.splits if_splits)

lemma ensure_claimable_iff:
  "ensure_resource_locks_claimable E compact chain sponsor inputs = Inr () \<longleftrightarrow>
     list_all (lock_claimable E compact chain sponsor) inputs"
proof -
  have "ensure_resource_locks_claimable E compact chain sponsor inputs = Inr () \<longleftrightarrow>
      ensure_no_forced_withdrawal E compact chain sponsor (map fst inputs) = Inr () \<and>
      ensure_balances E compact chain sponsor inputs = Inr ()"
    by (simp add: ensure_resource_locks_claimable_def split: sum.splits)
  then show ?thesis
    unfolding ensure_no_forced_withdrawal_iff ensure_balances_iff
    by (auto simp: list_all_iff lock_claimable_def split: prod.splits)
qed

lemma forced_withdrawal_guard:
  assumes "check_forced_withdrawal_before_fill M E ord = Inr ()"
  shows "(standard ord = ''eip7683'' \<longrightarrow> (\<exists>od. mc_parse M (data ord) = Inr od)) \<and>
    (\<forall>od. mc_parse M (data ord) = Inr od \<and> eod_lock_type od = Some ResourceLock \<longrightarrow> locks_backed M E od)"
  using assms
  by (auto simp: check_forced_withdrawal_before_fill_def locks_backed_def u64_try_from_def ensure_claimable_iff [symmetric]
      split: sum.splits if_splits option.splits bind_splits)

lemma escrow_guard:
  assumes "check_escrow_deposit_before_fill M E ord = Inr EscrowReady"
  shows "\<forall>od lt. mc_parse M (data ord) = Inr od \<and> eod_lock_type od = Some lt \<and> is_escrow lt \<longrightarrow> escrow_backed E od"
proof (intro allI impI)
  fix od lt
  assume od: "mc_parse M (data ord) = Inr od \<and> eod_lock_type od = Some lt \<and> is_escrow lt"
  let ?chain = "eod_origin_chain_id od"
  from assms od obtain nw latest confirmed where
    1: "?chain < u64_bound" "oe_networks E ?chain = Some nw" "oe_block_number E ?chain = Inr latest"
      "select_source_finality_head (finality_tag E ?chain TagFinalized) (finality_tag E ?chain TagSafe) latest
        (oe_finality_rule E ?chain) = Some confirmed"
    and st: "deposit_status E ?chain (view_tx (nw_input_settler_address nw) ?chain (oe_encode_order_status E (eod_order_id od)))
      confirmed = Inr EscrowReady"
    by (auto simp: check_escrow_deposit_before_fill_def u64_try_from_def split: option.splits if_splits sum.splits)
  from st obtain b where
    "oe_call_at E ?chain (view_tx (nw_input_settler_address nw) ?chain (oe_encode_order_status E (eod_order_id od))) confirmed = Inr b"
    "oe_decode_order_status E b = Inr ESCROW_ORDER_STATUS_DEPOSITED"
    by (auto simp: deposit_status_def latest_order_status_def split: sum.splits if_splits)
  moreover have "confirmed + sf_blocks (oe_finality_rule E ?chain) \<le> latest"
    using selected_head_depth [OF 1(4)] .
  ultimately show "escrow_backed E od" using 1 unfolding escrow_backed_def by blast
qed

text \<open>The guards do not look at the delivery service.\<close>

lemma deliver_irrelevant:
  "oe_generate_prepare (E\<lparr>oe_deliver := d\<rparr>) = oe_generate_prepare E"
  "oe_generate_fills (E\<lparr>oe_deliver := d\<rparr>) = oe_generate_fills E"
  "oe_receipt (E\<lparr>oe_deliver := d\<rparr>) = oe_receipt E"
  "oe_networks (E\<lparr>oe_deliver := d\<rparr>) = oe_networks E"
  "oe_finality_rule (E\<lparr>oe_deliver := d\<rparr>) = oe_finality_rule E"
  "oe_finality_tag (E\<lparr>oe_deliver := d\<rparr>) = oe_finality_tag E"
  "oe_block_number (E\<lparr>oe_deliver := d\<rparr>) = oe_block_number E"
  "oe_call_at (E\<lparr>oe_deliver := d\<rparr>) = oe_call_at E" "oe_call (E\<lparr>oe_deliver := d\<rparr>) = oe_call E"
  "oe_encode_forced_status (E\<lparr>oe_deliver := d\<rparr>) = oe_encode_forced_status E"
  "oe_decode_forced_status (E\<lparr>oe_deliver := d\<rparr>) = oe_decode_forced_status E"
  "oe_encode_balance_of (E\<lparr>oe_deliver := d\<rparr>) = oe_encode_balance_of E"
  "oe_encode_order_status (E\<lparr>oe_deliver := d\<rparr>) = oe_encode_order_status E"
  "oe_decode_order_status (E\<lparr>oe_deliver := d\<rparr>) = oe_decode_order_status E"
  "oe_hex_decode (E\<lparr>oe_deliver := d\<rparr>) = oe_hex_decode E"
  "oe_parse_alloy (E\<lparr>oe_deliver := d\<rparr>) = oe_parse_alloy E"
  "oe_parse_hyperlane (E\<lparr>oe_deliver := d\<rparr>) = oe_parse_hyperlane E"
  "oe_hyperlane_value (E\<lparr>oe_deliver := d\<rparr>) = oe_hyperlane_value E"
  "oe_hyperlane_status (E\<lparr>oe_deliver := d\<rparr>) = oe_hyperlane_status E"
  by simp_all

lemma guards_ignore_delivery [simp]:
  "handle_existing_fill_transaction M (E\<lparr>oe_deliver := d\<rparr>) ord = handle_existing_fill_transaction M E ord"
  "check_escrow_deposit_before_fill M (E\<lparr>oe_deliver := d\<rparr>) ord = check_escrow_deposit_before_fill M E ord"
  unfolding handle_existing_fill_transaction_def check_escrow_deposit_before_fill_def finality_tag_def
    deposit_status_def latest_order_status_def deliver_irrelevant
  by (rule refl)+

lemma forced_withdrawal_ignores_delivery [simp]:
  "check_forced_withdrawal_before_fill M (E\<lparr>oe_deliver := d\<rparr>) ord = check_forced_withdrawal_before_fill M E ord"
proof -
  have 1: "ensure_no_forced_withdrawal (E\<lparr>oe_deliver := d\<rparr>) compact chain sponsor locks =
      ensure_no_forced_withdrawal E compact chain sponsor locks" for compact chain sponsor locks
    by (induction locks) (simp_all split: sum.splits)
  have 2: "ensure_balances (E\<lparr>oe_deliver := d\<rparr>) compact chain sponsor inputs =
      ensure_balances E compact chain sponsor inputs" for compact chain sponsor inputs
    by (induction inputs) (auto simp: fetch_compact_balance_def split: sum.splits if_splits)
  show ?thesis
    unfolding check_forced_withdrawal_before_fill_def ensure_resource_locks_claimable_def 1 2 deliver_irrelevant by (rule refl)
qed

lemma preflight_ignores_delivery [simp]:
  "check_hyperlane7683_fill_preflight (E\<lparr>oe_deliver := d\<rparr>) ord = check_hyperlane7683_fill_preflight E ord"
proof -
  have "incomplete_instructions (E\<lparr>oe_deliver := d\<rparr>) i xs = incomplete_instructions E i xs" for i xs
    by (induction xs) (simp_all split: sum.splits)
  note i = this
  show ?thesis unfolding check_hyperlane7683_fill_preflight_def i deliver_irrelevant by (rule refl)
qed

lemma incomplete_open:
  assumes "incomplete_instructions E oid xs = Inr (Some ys)"
  shows "ys = filter (\<lambda>i. \<exists>st. oe_hyperlane_status E (hi_destination_chain_id i) (hi_destination_settler i) oid = Inr st \<and>
    \<not> is_fill_complete st) xs"
  using assms
  by (induction xs arbitrary: ys)
    (auto simp: destination_domain_def u256_to_hyperlane_domain_def split: sum.splits option.splits if_splits)

lemma preflight_open:
  assumes "check_hyperlane7683_fill_preflight E ord = Inr HProceed \<or>
      (\<exists>o1. check_hyperlane7683_fill_preflight E ord = Inr (HProceedWith o1))"
  shows "standard ord = HYPERLANE7683_STANDARD \<longrightarrow>
       (\<exists>hy. oe_parse_hyperlane E (data ord) = Inr hy \<and>
          (hy_fill_instructions hy = [] \<or>
           (\<exists>i \<in> set (hy_fill_instructions hy). \<exists>st.
              oe_hyperlane_status E (hi_destination_chain_id i) (hi_destination_settler i) (hy_order_id hy) = Inr st \<and>
              \<not> is_fill_complete st)))"
proof
  assume std: "standard ord = HYPERLANE7683_STANDARD"
  then obtain hy where hy: "oe_parse_hyperlane E (data ord) = Inr hy"
    using assms by (auto simp: check_hyperlane7683_fill_preflight_def split: sum.splits)
  show "\<exists>hy. oe_parse_hyperlane E (data ord) = Inr hy \<and>
          (hy_fill_instructions hy = [] \<or>
           (\<exists>i \<in> set (hy_fill_instructions hy). \<exists>st.
              oe_hyperlane_status E (hi_destination_chain_id i) (hi_destination_settler i) (hy_order_id hy) = Inr st \<and>
              \<not> is_fill_complete st))"
  proof (cases "hy_fill_instructions hy = []")
    case False
    then obtain ys where ys: "incomplete_instructions E (hy_order_id hy) (hy_fill_instructions hy) = Inr (Some ys)" and "ys \<noteq> []"
      using assms std hy
      by (auto simp: check_hyperlane7683_fill_preflight_def split: sum.splits option.splits if_splits)
        (metis length_0_conv)+
    then obtain i where "i \<in> set ys" by (cases ys) auto
    then show ?thesis using hy unfolding incomplete_open [OF ys] by auto
  qed (use hy in auto)
qed

lemma released_generated:
  assumes "release_fill M E oid ord params w \<noteq> release_fill M (E\<lparr>oe_deliver := d\<rparr>) oid ord params w"
  shows "\<exists>txs. oe_generate_fills E ord params = Inr txs \<and> txs \<noteq> []"
  using assms
  by (cases "oe_generate_fills E ord params") (auto simp: release_fill_def and_then_def lift_result_def split: if_splits)

lemma gates_before_fill:
  assumes "handle_execution M E ord params w \<noteq> handle_execution M (E\<lparr>oe_deliver := d\<rparr>) ord params w"
  obtains evs w1 where "\<not> (order_requires_preparation M ord \<and> prepare_tx_hash ord = None)"
    and "handle_existing_fill_transaction M E ord w = (evs, Inr False, w1)"
    and "check_forced_withdrawal_before_fill M E ord = Inr ()" and "check_escrow_deposit_before_fill M E ord = Inr EscrowReady"
    and "check_hyperlane7683_fill_preflight E ord = Inr HProceed \<or>
      (\<exists>o1. check_hyperlane7683_fill_preflight E ord = Inr (HProceedWith o1))"
    and "check_hyperlane7683_fill_preflight E ord = Inr HProceed \<longrightarrow>
      release_fill M E (order_id ord) ord params w1 \<noteq> release_fill M (E\<lparr>oe_deliver := d\<rparr>) (order_id ord) ord params w1"
proof -
  have prep: "\<not> (order_requires_preparation M ord \<and> prepare_tx_hash ord = None)"
  proof
    assume "order_requires_preparation M ord \<and> prepare_tx_hash ord = None"
    then have "handle_execution M e ord params = err (OeService (''Order '' @ order_id ord @
        '' requires preparation before fill, but prepare_tx_hash is missing''))" for e
      by (simp add: handle_execution_def)
    then show False using assms by simp
  qed
  obtain evs r w1 where ex: "handle_existing_fill_transaction M E ord w = (evs, r, w1)" using prod_cases3 by blast
  note run = handle_execution_def if_not_P [OF prep] and_then_def lift_result_def
  have r: "r = Inr False"
  proof (cases r)
    case (Inr b)
    then show ?thesis using assms unfolding run by (cases b) (simp_all add: ex)
  qed (use assms in \<open>simp add: run ex\<close>)
  have fw: "check_forced_withdrawal_before_fill M E ord = Inr ()"
    using assms unfolding run by (cases "check_forced_withdrawal_before_fill M E ord") (simp_all add: ex r)
  obtain ready where ready: "check_escrow_deposit_before_fill M E ord = Inr ready"
    using assms unfolding run by (cases "check_escrow_deposit_before_fill M E ord") (simp_all add: ex r fw)
  have es: "check_escrow_deposit_before_fill M E ord = Inr EscrowReady"
    using assms unfolding run by (cases ready) (simp_all add: ex r fw ready)
  obtain go where go: "check_hyperlane7683_fill_preflight E ord = Inr go"
    using assms unfolding run by (cases "check_hyperlane7683_fill_preflight E ord") (simp_all add: ex r fw es)
  have pf: "check_hyperlane7683_fill_preflight E ord = Inr HProceed \<or>
      (\<exists>o1. check_hyperlane7683_fill_preflight E ord = Inr (HProceedWith o1))"
    using assms unfolding run by (cases go) (simp_all add: ex r fw es go)
  have released: "release_fill M E (order_id ord) ord params w1 \<noteq> release_fill M (E\<lparr>oe_deliver := d\<rparr>) (order_id ord) ord params w1"
    if "check_hyperlane7683_fill_preflight E ord = Inr HProceed"
    using assms that unfolding run by (auto simp: ex r fw es)
  show thesis by (rule that [OF prep ex [unfolded r] fw es pf impI [OF released]])
qed

text \<open>
  C4: A fill is released only for an order that is backed at that moment.  If what happens in
  \<open>handle_execution\<close> depends at all on the delivery service, then: the order has been prepared if it
  needs preparation; it has no fill on record unless it has several; a resource lock order has, for
  every input, no forced withdrawal under way and a balance that covers the input; an escrow order's
  deposit is in the state Deposited at a block at least the configured depth below the head; and of a
  Hyperlane order that has fill instructions at least one is reported open by its destination.  A Hyperlane order
  without instructions passes the preflight with no destination asked: then only the generator of the standard,
  which has to produce a transaction for it (the one in \<^verbatim>\<open>hyperlane7683.rs\<close> refuses), stands between the
  order and a fill.
\<close>

theorem fill_only_when_backed:
  assumes "handle_execution M E ord params w \<noteq> handle_execution M (E\<lparr>oe_deliver := d\<rparr>) ord params w"
  shows "(order_requires_preparation M ord \<longrightarrow> prepare_tx_hash ord \<noteq> None) \<and>
    (fill_tx_hash ord = None \<or> expected_fill_transaction_count ord > 1 \<or> length (fill_tx_hashes ord) > 1) \<and>
    (standard ord = ''eip7683'' \<longrightarrow> (\<exists>od. mc_parse M (data ord) = Inr od)) \<and>
    (\<forall>od. mc_parse M (data ord) = Inr od \<longrightarrow>
       (eod_lock_type od = Some ResourceLock \<longrightarrow> locks_backed M E od) \<and>
       (eod_lock_type od \<in> {Some Permit2Escrow, Some Eip3009Escrow} \<longrightarrow> escrow_backed E od)) \<and>
    (standard ord = HYPERLANE7683_STANDARD \<longrightarrow>
       (\<exists>hy. oe_parse_hyperlane E (data ord) = Inr hy \<and>
          (if hy_fill_instructions hy = [] then \<exists>txs. oe_generate_fills E ord params = Inr txs \<and> txs \<noteq> []
           else \<exists>i \<in> set (hy_fill_instructions hy). \<exists>st.
              oe_hyperlane_status E (hi_destination_chain_id i) (hi_destination_settler i) (hy_order_id hy) = Inr st \<and>
              \<not> is_fill_complete st)))"
proof -
  obtain evs w1 where prep: "\<not> (order_requires_preparation M ord \<and> prepare_tx_hash ord = None)"
    and ex: "handle_existing_fill_transaction M E ord w = (evs, Inr False, w1)"
    and fw: "check_forced_withdrawal_before_fill M E ord = Inr ()" and es: "check_escrow_deposit_before_fill M E ord = Inr EscrowReady"
    and pf: "check_hyperlane7683_fill_preflight E ord = Inr HProceed \<or>
      (\<exists>o1. check_hyperlane7683_fill_preflight E ord = Inr (HProceedWith o1))"
    and released: "check_hyperlane7683_fill_preflight E ord = Inr HProceed \<longrightarrow>
      release_fill M E (order_id ord) ord params w1 \<noteq> release_fill M (E\<lparr>oe_deliver := d\<rparr>) (order_id ord) ord params w1"
    by (rule gates_before_fill [OF assms])
  have generated: "\<exists>txs. oe_generate_fills E ord params = Inr txs \<and> txs \<noteq> []"
    if "standard ord = HYPERLANE7683_STANDARD" "oe_parse_hyperlane E (data ord) = Inr hy" "hy_fill_instructions hy = []" for hy
    using that released released_generated by (simp add: check_hyperlane7683_fill_preflight_def) blast
  have "fill_tx_hash ord = None \<or> expected_fill_transaction_count ord > 1 \<or> length (fill_tx_hashes ord) > 1"
    using ex by (auto simp: handle_existing_fill_transaction_def handler_defs fill_transaction_hashes_def
        split: if_splits option.splits list.splits sum.splits)
  moreover have "standard ord = HYPERLANE7683_STANDARD \<longrightarrow> (\<exists>hy. oe_parse_hyperlane E (data ord) = Inr hy \<and>
      (if hy_fill_instructions hy = [] then \<exists>txs. oe_generate_fills E ord params = Inr txs \<and> txs \<noteq> []
       else \<exists>i \<in> set (hy_fill_instructions hy). \<exists>st.
          oe_hyperlane_status E (hi_destination_chain_id i) (hi_destination_settler i) (hy_order_id hy) = Inr st \<and>
          \<not> is_fill_complete st))"
    using preflight_open [OF pf] generated by metis
  ultimately show ?thesis using prep forced_withdrawal_guard [OF fw] escrow_guard [OF es] by (auto simp: is_escrow_def)
qed

text \<open>An escrow order with its deposit recorded at block 80, and a chain whose head is 100.\<close>

definition escrow_data :: eip7683_order_data where
  "escrow_data = \<lparr>eod_user = ''0x01'', eod_nonce = 1, eod_origin_chain_id = 10, eod_expires = 900, eod_fill_deadline = 800,
     eod_input_oracle = ''0x02'', eod_inputs = [(5, 70)], eod_order_id = [7], eod_settle_gas_limit = None,
     eod_fill_gas_limit = None, eod_prepare_gas_limit = None, eod_outputs = [], eod_raw_order_data = None,
     eod_signature = None, eod_sponsor = None, eod_lock_type = Some Permit2Escrow\<rparr>"

definition fill_machine :: "(stored memory_storage, stored) machine" where
  "fill_machine = (calm_machine 5)\<lparr>mc_parse := (\<lambda>_. Inr escrow_data)\<rparr>"

definition fill_env :: "stored memory_storage order_env" where
  "fill_env =
     \<lparr>oe_generate_prepare = (\<lambda>_ _ _. Inr None), oe_generate_fills = (\<lambda>_ _. Inr [Evm (view_tx [1] 20 [])]),
      oe_deliver = (\<lambda>_ _ _ w. (Inr [9], w)), oe_receipt = (\<lambda>_ _. Inl (Network [])),
      oe_networks = (\<lambda>_. Some \<lparr>nw_the_compact_address = None, nw_input_settler_address = [3]\<rparr>),
      oe_finality_rule = (\<lambda>_. \<lparr>sf_mode = Conservative, sf_blocks = 20, sf_block_time_seconds = 12, sf_expected_delay_seconds = None\<rparr>),
      oe_finality_tag = (\<lambda>_ _. Inr None), oe_block_number = (\<lambda>_. Inr 100),
      oe_call_at = (\<lambda>_ _ b. if b \<ge> 80 then Inr [1] else Inr [0]), oe_call = (\<lambda>_ _. Inl (Network [])),
      oe_encode_forced_status = (\<lambda>_ _. []), oe_decode_forced_status = (\<lambda>_. Inl []), oe_encode_balance_of = (\<lambda>_ _. []),
      oe_encode_order_status = (\<lambda>oid. oid), oe_decode_order_status = (\<lambda>b. Inr (from_be_bytes b)),
      oe_hex_decode = (\<lambda>_. Inl []), oe_parse_alloy = (\<lambda>_. Inl []), oe_parse_hyperlane = (\<lambda>_. Inl []),
      oe_hyperlane_value = (\<lambda>_. Inl []), oe_hyperlane_status = (\<lambda>_ _ _. Inl (Network []))\<rparr>"

lemma fill_env_releases:
  "fst (handle_execution fill_machine (fill_env\<lparr>oe_deliver := d\<rparr>) (sample_order Executing) p w) =
     (case d (Evm (view_tx [1] 20 [])) ''o1'' Fill w of
        (Inr h, _) \<Rightarrow> [DeliveryEv (TransactionPending ''o1'' h Fill 20)] | _ \<Rightarrow> [])"
  by (simp add: handle_execution_def handler_defs order_requires_preparation_def fill_machine_def escrow_data_def
      sample_order_def handle_existing_fill_transaction_def expected_fill_transaction_count_def fill_transaction_hashes_def
      check_forced_withdrawal_before_fill_def check_escrow_deposit_before_fill_def is_escrow_def u64_try_from_def
      finality_tag_def deposit_status_def select_source_finality_head_def conservative_head_def lower_to_def
      non_genesis_tag_def checked_sub_def from_be_bytes_def ESCROW_ORDER_STATUS_DEPOSITED_def
      check_hyperlane7683_fill_preflight_def HYPERLANE7683_STANDARD_def release_fill_def fill_env_def view_tx_def
      split: prod.splits sum.splits)

theorem fill_only_when_backed_witness:
  "fst (handle_execution fill_machine fill_env (sample_order Executing) \<lparr>gas_price = 1, priority_fee = None\<rparr> (order_world Executing)) =
     [DeliveryEv (TransactionPending ''o1'' [9] Fill 20)] \<and>
   escrow_backed fill_env escrow_data"
proof -
  let ?p = "\<lparr>gas_price = 1, priority_fee = None\<rparr>" and ?w = "order_world Executing"
  have "fill_env\<lparr>oe_deliver := oe_deliver fill_env\<rparr> = fill_env" by simp
  then have run: "fst (handle_execution fill_machine fill_env (sample_order Executing) ?p ?w) =
      [DeliveryEv (TransactionPending ''o1'' [9] Fill 20)]"
    using fill_env_releases [of "oe_deliver fill_env" ?p ?w] by (simp add: fill_env_def)
  moreover have "fst (handle_execution fill_machine (fill_env\<lparr>oe_deliver := (\<lambda>_ _ _ w. (Inl (Network []), w))\<rparr>)
      (sample_order Executing) ?p ?w) = []"
    unfolding fill_env_releases by simp
  ultimately have "handle_execution fill_machine fill_env (sample_order Executing) ?p ?w \<noteq>
      handle_execution fill_machine (fill_env\<lparr>oe_deliver := (\<lambda>_ _ _ w. (Inl (Network []), w))\<rparr>) (sample_order Executing) ?p ?w"
    by (metis not_Cons_self2)
  from fill_only_when_backed [OF this] have "escrow_backed fill_env escrow_data"
    by (auto simp: fill_machine_def escrow_data_def)
  then show ?thesis using run by simp
qed

section \<open>Preparation writes the status without the table\<close>

text \<open>
  The hash of the prepare transaction is recorded together with the status Pending by a plain
  update, not by a transition: whatever status the stored order has at that moment, also one that
  the confirmation of the prepare transaction or another task already moved it to, it is Pending
  afterwards.  The submitted transaction is announced before either write.
\<close>

theorem preparation_resets_status:
  assumes "mc_backend M = memory_backend" "mc_sched M = quiet (\<lambda>_. now)" "codec_ok (mc_orders M)" "encodes_all (mc_orders M)"
    and "encodes_all (mc_strings M)"
    and "oe_generate_prepare E source ord params = Inr (Some tx)" "oe_deliver E (Evm tx) (order_id ord) Prepare w = (Inr h, w1)"
    and "holds_order memory_live (mc_orders M) (w_store w1) (order_id ord) stored"
    and "handle_preparation M E source ord params w = (evs, r, w')"
  shows "r = Inr () \<and> evs = [DeliveryEv (TransactionPending (order_id ord) h Prepare (tx_chain_id tx))] \<and>
    (\<exists>ord'. holds_order memory_live (mc_orders M) (w_store w') (order_id ord) ord' \<and>
       status ord' = Pending \<and> prepare_tx_hash ord' = Some h \<and> created_at ord' = created_at stored)"
proof -
  let ?oid = "order_id ord" and ?oc = "mc_orders M"
  let ?f = "\<lambda>stored :: order. stored\<lparr>status := Pending, prepare_tx_hash := Some h\<rparr>"
  let ?new = "(?f stored)\<lparr>updated_at := now\<rparr>"
  obtain b where lv: "\<And>t. memory_live t (w_store w1) (order_key ?oid) = Some b" and dec: "decode ?oc b = Inr stored"
    using assms(8) by (auto simp: holds_order_def)
  obtain bs where bs: "encode (mc_strings M) ?oid = Inr bs" using assms(5) by (auto simp: encodes_all_def)
  obtain w2 where sto: "store_order_by_hash M h ?oid w1 = (Inr (), w2)"
    and lv2: "\<And>t. memory_live t (w_store w2) (order_key ?oid) = Some b"
    using lv by (simp add: store_order_by_hash_def svc_defs Let_def assms(1,2) bs memory_backend_def
        memory_set_bytes_def memory_live_put quiet_def resume_def)
  from update_undisturbed [OF assms(4) lv2 dec, where updater = ?f] obtain b1 w3
    where u: "update_order M ?oid ?f w2 = (Inr ?new, w3)" and b1: "encode ?oc ?new = Inr b1"
      and wr: "writes_key memory_live (order_key ?oid) None now b1 (w_store w2) (w_store w3)"
    unfolding update_order_def assms(1,2) by blast
  have "handle_preparation M E source ord params w =
      ([DeliveryEv (TransactionPending ?oid h Prepare (tx_chain_id tx))], Inr (), w3)"
    using assms(6,7) sto u by (simp add: handle_preparation_def handler_defs)
  moreover have "holds_order memory_live ?oc (w_store w3) ?oid ?new"
    using wr codec_okD [OF assms(3) b1] by (auto simp: holds_order_def writes_key_def until_ttl_def)
  ultimately show ?thesis using assms(9) by (auto intro!: exI [of _ ?new])
qed

definition prepare_machine :: "(stored memory_storage, stored) machine" where
  "prepare_machine = (calm_machine 5)\<lparr>mc_strings := \<lparr>encode = (\<lambda>_. Inr (Inr [])), decode = (\<lambda>_. Inl [])\<rparr>\<rparr>"

theorem preparation_resets_status_witness:
  "\<exists>evs w' ord'. handle_preparation prepare_machine
      (fill_env\<lparr>oe_generate_prepare := (\<lambda>_ _ _. Inr (Some (view_tx [1] 20 [])))\<rparr>) ''offchain'' (sample_order Created)
      \<lparr>gas_price = 1, priority_fee = None\<rparr> (order_world Executing) = (evs, Inr (), w') \<and>
    holds_order memory_live order_codec (w_store w') ''o1'' ord' \<and> status ord' = Pending"
proof -
  let ?E = "fill_env\<lparr>oe_generate_prepare := (\<lambda>_ _ _. Inr (Some (view_tx [1] 20 [])))\<rparr>"
  let ?p = "\<lparr>gas_price = 1, priority_fee = None\<rparr> :: execution_params"
  obtain evs r w' where run: "handle_preparation prepare_machine ?E ''offchain'' (sample_order Created) ?p
      (order_world Executing) = (evs, r, w')" using prod_cases3 by blast
  have m: "mc_backend prepare_machine = memory_backend" "mc_sched prepare_machine = quiet (\<lambda>_. 5)"
    "mc_orders prepare_machine = order_codec" "encodes_all (mc_strings prepare_machine)"
    by (simp_all add: prepare_machine_def encodes_all_def)
  have e: "oe_generate_prepare ?E ''offchain'' (sample_order Created) ?p = Inr (Some (view_tx [1] 20 []))"
    "oe_deliver ?E (Evm (view_tx [1] 20 [])) (order_id (sample_order Created)) Prepare (order_world Executing) =
      (Inr [9], order_world Executing)" by (simp_all add: fill_env_def)
  have oid: "order_id (sample_order Created) = ''o1''" by (simp add: sample_order_def)
  have held: "holds_order memory_live (mc_orders prepare_machine) (w_store (order_world Executing))
      (order_id (sample_order Created)) (sample_order Executing)"
    by (simp add: m oid holds_order_def order_world_live order_codec_def)
  from preparation_resets_status [OF m(1,2) _ _ m(4) e held run] show ?thesis
    using run stored_codecs_ok by (auto simp: m oid)
qed

end
