(* ===== verification/Settlement_Service.thy ===== *)
theory Settlement_Service
  imports Order_Handler
begin

text \<open>
  \<^verbatim>\<open>crates/solver-settlement/src/lib.rs\<close> with \<^verbatim>\<open>oracle_binding.rs\<close>, \<^verbatim>\<open>pusher.rs\<close> and
  \<^verbatim>\<open>solver-types/src/oracle.rs\<close>: the service that routes an order to the settlement it is bound to,
  selects oracles for quotes, advertises oracle routes and pushes block hashes.

  A settlement implementation (\<^verbatim>\<open>SettlementInterface\<close>) is a record of its operations; ABI encoding,
  hex decoding and the delivery of system transactions are parameters.
\<close>

section \<open>Types\<close>

datatype pusher_l2_params =
    PushArbitrum bytes nat nat nat bool
  | PushOpStack nat
  | PushLinea nat
  | PushRaw string "nat option"

record pusher_direction =
  pd_label :: string
  pd_l1_chain_id :: nat
  pd_pusher_address :: bytes
  pd_l2_chain_id :: nat
  pd_buffer_address :: bytes
  pd_batch_size :: nat
  pd_push_cooldown_seconds :: nat
  pd_l2_params :: pusher_l2_params

datatype waiting_reason =
    WaitUnknown
  | NoSubmissionState
  | WaitingForProofDelay nat
  | WaitingForFinality nat nat
  | ProofNotCommittedYet
  | ProofServiceNotReady
  | RpcUnavailable
  | WaitStorageUnavailable

datatype action_required = BufferBehind pusher_direction nat

datatype settlement_readiness =
    Ready
  | Waiting waiting_reason
  | NeedsAction action_required
  | PermanentFailure string

datatype oracle_selection_strategy = First | RoundRobin | Random

record oracle_config =
  oc_input_oracles :: "(nat \<times> bytes list) list"
  oc_output_oracles :: "(nat \<times> bytes list) list"
  oc_routes :: "(nat \<times> nat list) list"
  oc_selection_strategy :: oracle_selection_strategy

record oracle_info =
  oi_chain_id :: nat
  oi_oracle :: bytes

type_synonym oracle_routes = "(oracle_info \<times> oracle_info list) list"

text \<open>\<open>SettlementInterface\<close>; an operation may write to storage, so it gets the world.\<close>

record 's settlement_impl =
  si_oracle_config :: oracle_config
  si_get_attestation :: "order \<Rightarrow> bytes \<Rightarrow> 's world \<Rightarrow> (settlement_service_error, fill_proof) result \<times> 's world"
  si_recover_post_fill_state :: "order \<Rightarrow> 's world \<Rightarrow> (settlement_service_error, bool) result \<times> 's world"
  si_can_claim :: "order \<Rightarrow> fill_proof \<Rightarrow> 's world \<Rightarrow> bool \<times> 's world"
  si_readiness :: "order \<Rightarrow> fill_proof \<Rightarrow> 's world \<Rightarrow> settlement_readiness \<times> 's world"
  si_post_fill ::
    "order \<Rightarrow> transaction_receipt \<Rightarrow> 's world \<Rightarrow> (settlement_service_error, execution_transaction option) result \<times> 's world"
  si_pre_claim ::
    "order \<Rightarrow> fill_proof \<Rightarrow> 's world \<Rightarrow> (settlement_service_error, execution_transaction option) result \<times> 's world"
  si_claims ::
    "order \<Rightarrow> fill_proof \<Rightarrow> 's world \<Rightarrow> (settlement_service_error, execution_transaction list) result \<times> 's world"
  si_buffer_coverage :: "order \<Rightarrow> 's world \<Rightarrow> (pusher_direction \<times> nat) option \<times> 's world"
  si_transaction_confirmed ::
    "order \<Rightarrow> transaction_type \<Rightarrow> transaction_receipt \<Rightarrow> 's world \<Rightarrow> (settlement_service_error, unit) result \<times> 's world"

record 's settlement_service =
  ss_implementations :: "(string \<times> 's settlement_impl) list"
  ss_primary :: string
  ss_selection_counter :: "64 word"
  ss_poll_interval_seconds :: nat

fun settlement_error_text :: "settlement_service_error \<Rightarrow> string" where
  "settlement_error_text (ValidationFailed m) = ''Validation failed: '' @ m"
| "settlement_error_text InvalidProof = ''Invalid proof''"
| "settlement_error_text FillMismatch = ''Fill does not match order requirements''"
| "settlement_error_text (ProofGenerationFailed chain reason) =
     ''Proof generation failed for chain '' @ to_dec chain @ '': '' @ reason"
| "settlement_error_text (FinalityNotReached required current) =
     ''Finality not reached: required '' @ to_dec required @ '' blocks, current '' @ to_dec current"
| "settlement_error_text (ProverUnavailable m) = ''Prover unavailable: '' @ m"
| "settlement_error_text SlotDerivationMismatch = ''Slot derivation mismatch''"
| "settlement_error_text (BackendUnavailable m) = ''Backend unavailable: '' @ m"
| "settlement_error_text (StorageUnavailable m) = ''Storage unavailable: '' @ m"

definition ensure_scalar_settlement_supported :: "order \<Rightarrow> (settlement_service_error, unit) result" where
  "ensure_scalar_settlement_supported ord =
     (let known = length (fill_transaction_hashes ord); expected = expected_fill_transaction_count ord
      in if expected > 1 \<or> known > 1
         then Inl (ValidationFailed (''multi-fill settlement is not supported by scalar settlement pipeline '' @
                ''(expected_fill_tx_count='' @ to_dec expected @ '', known_fill_tx_hashes='' @ to_dec known @ '')''))
         else Inr ())"

section \<open>Oracles\<close>

definition is_route_supported :: "oracle_config \<Rightarrow> nat \<Rightarrow> nat \<Rightarrow> bool" where
  "is_route_supported cfg i j = (case map_of (oc_routes cfg) i of None \<Rightarrow> False | Some outs \<Rightarrow> j \<in> set outs)"

definition is_input_oracle_supported :: "oracle_config \<Rightarrow> nat \<Rightarrow> bytes \<Rightarrow> bool" where
  "is_input_oracle_supported cfg chain a =
     (case map_of (oc_input_oracles cfg) chain of None \<Rightarrow> False | Some as \<Rightarrow> a \<in> set as)"

definition is_output_oracle_supported :: "oracle_config \<Rightarrow> nat \<Rightarrow> bytes \<Rightarrow> bool" where
  "is_output_oracle_supported cfg chain a =
     (case map_of (oc_output_oracles cfg) chain of None \<Rightarrow> False | Some as \<Rightarrow> a \<in> set as)"

definition get_input_oracles :: "oracle_config \<Rightarrow> nat \<Rightarrow> bytes list" where
  "get_input_oracles cfg chain = (case map_of (oc_input_oracles cfg) chain of None \<Rightarrow> [] | Some as \<Rightarrow> as)"

definition get_output_oracles :: "oracle_config \<Rightarrow> nat \<Rightarrow> bytes list" where
  "get_output_oracles cfg chain = (case map_of (oc_output_oracles cfg) chain of None \<Rightarrow> [] | Some as \<Rightarrow> as)"

text \<open>\<open>to_le_bytes\<close> and the FNV-1a hash of the selection context.\<close>

definition to_le_bytes :: "64 word \<Rightarrow> 8 word list" where
  "to_le_bytes w = map (\<lambda>i. ucast (drop_bit (8 * i) w)) [0..<8]"

unbundle bit_operations_syntax

definition fnv1a :: "64 word \<Rightarrow> 64 word" where
  "fnv1a w = foldl (\<lambda>h b. (h XOR ucast b) * 0x00000100000001b3) 0xcbf29ce484222325 (to_le_bytes w)"

definition select_oracle :: "oracle_config \<Rightarrow> 64 word \<Rightarrow> bytes list \<Rightarrow> 64 word option \<Rightarrow> bytes option" where
  "select_oracle cfg clock_nanos oracles context =
     (if oracles = [] then None
      else (case oc_selection_strategy cfg of
              First \<Rightarrow> Some (hd oracles)
            | RoundRobin \<Rightarrow>
                (let c = (case context of None \<Rightarrow> 0 | Some c \<Rightarrow> c) in Some (oracles ! (unat c mod length oracles)))
            | Random \<Rightarrow>
                (let c = (case context of None \<Rightarrow> clock_nanos | Some c \<Rightarrow> c)
                 in Some (oracles ! (unat (fnv1a c) mod length oracles)))))"

definition push_route :: "oracle_info \<Rightarrow> oracle_info \<Rightarrow> oracle_routes \<Rightarrow> oracle_routes" where
  "push_route i out m = entry_update i [] (\<lambda>outs. if out \<notin> set outs then outs @ [out] else outs) m"

definition routes_from :: "oracle_config \<Rightarrow> oracle_info \<Rightarrow> nat list \<Rightarrow> oracle_routes \<Rightarrow> oracle_routes" where
  "routes_from cfg i dests m =
     foldl (\<lambda>m dest.
        case map_of (oc_output_oracles cfg) dest of
          None \<Rightarrow> m
        | Some outs \<Rightarrow> foldl (\<lambda>m out. push_route i \<lparr>oi_chain_id = dest, oi_oracle = out\<rparr> m) m outs) m dests"

definition build_oracle_routes :: "'s settlement_service \<Rightarrow> oracle_routes" where
  "build_oracle_routes S =
     (case map_of (ss_implementations S) (ss_primary S) of
        None \<Rightarrow> []
      | Some impl \<Rightarrow>
          let cfg = si_oracle_config impl
          in foldl (\<lambda>m (chain, oracles).
               foldl (\<lambda>m a.
                  case map_of (oc_routes cfg) chain of
                    None \<Rightarrow> m
                  | Some dests \<Rightarrow> routes_from cfg \<lparr>oi_chain_id = chain, oi_oracle = a\<rparr> dests m) m oracles)
             [] (oc_input_oracles cfg))"

section \<open>Routing an order to its settlement\<close>

text \<open>\<open>join\<close>\<close>

fun join :: "string \<Rightarrow> string list \<Rightarrow> string" where
  "join sep [] = []"
| "join sep [x] = x"
| "join sep (x # y # xs) = x @ sep @ join sep (y # xs)"

definition get_settlement_for_oracle ::
  "(bytes \<Rightarrow> string) \<Rightarrow> 's settlement_service \<Rightarrow> nat \<Rightarrow> bytes \<Rightarrow> bool \<Rightarrow> (settlement_service_error, 's settlement_impl) result" where
  "get_settlement_for_oracle hexe S chain a is_input =
     (let found = filter (\<lambda>(name, impl). if is_input then is_input_oracle_supported (si_oracle_config impl) chain a
                                         else is_output_oracle_supported (si_oracle_config impl) chain a) (ss_implementations S);
          side = (if is_input then ''input'' else ''output'')
      in (case found of
            [] \<Rightarrow> Inl (ValidationFailed (''No settlement found for '' @ side @ '' oracle '' @ hexe a @ '' on chain '' @ to_dec chain))
          | [(_, impl)] \<Rightarrow> Inr impl
          | _ \<Rightarrow> Inl (ValidationFailed (''Ambiguous: multiple settlements ('' @ join '', '' (map fst found) @ '') match '' @ side @
                '' oracle '' @ hexe a @ '' on chain '' @ to_dec chain))))"

definition find_settlement_for_order ::
  "'s settlement_service \<Rightarrow> order \<Rightarrow> (settlement_service_error, 's settlement_impl) result" where
  "find_settlement_for_order S ord =
     (case settlement_name ord of
        Some name \<Rightarrow>
          (case map_of (ss_implementations S) name of
             Some impl \<Rightarrow> Inr impl
           | None \<Rightarrow> Inl (ValidationFailed (''Persisted settlement '' @ [CHR 0x27] @ name @ [CHR 0x27] @ '' for order '' @ order_id ord @
               '' is no longer available; cannot route through a different implementation'')))
      | None \<Rightarrow>
          (case map_of (ss_implementations S) (ss_primary S) of
             Some impl \<Rightarrow> Inr impl
           | None \<Rightarrow> Inl (ValidationFailed (''Primary settlement '' @ [CHR 0x27] @ ss_primary S @ [CHR 0x27] @
               '' not found for unbound order '' @ order_id ord))))"

definition zero_oracle :: bytes where "zero_oracle = replicate 20 0"

definition pick_oracle :: "oracle_config \<Rightarrow> 64 word \<Rightarrow> bytes list option \<Rightarrow> 64 word \<Rightarrow> bytes option" where
  "pick_oracle cfg clk oracles context =
     (case oracles of
        Some as \<Rightarrow> if as \<noteq> [] then select_oracle cfg clk as (Some context) else Some zero_oracle
      | None \<Rightarrow> Some zero_oracle)"

text \<open>The counter is advanced whether or not a settlement is found (\<open>fetch_add\<close> wraps around).\<close>

definition get_any_settlement_for_chain_with_name ::
  "64 word \<Rightarrow> 's settlement_service \<Rightarrow> nat \<Rightarrow> (string \<times> 's settlement_impl \<times> bytes \<times> bytes) option \<times> 's settlement_service" where
  "get_any_settlement_for_chain_with_name clk S chain =
     (let context = ss_selection_counter S; S1 = S\<lparr>ss_selection_counter := context + 1\<rparr>
      in (case map_of (ss_implementations S) (ss_primary S) of
            None \<Rightarrow> (None, S1)
          | Some impl \<Rightarrow>
              let cfg = si_oracle_config impl;
                  ins = map_of (oc_input_oracles cfg) chain; outs = map_of (oc_output_oracles cfg) chain
              in if (ins = None \<or> ins = Some []) \<and> (outs = None \<or> outs = Some []) then (None, S1)
                 else (case pick_oracle cfg clk ins context of
                         None \<Rightarrow> (None, S1)
                       | Some i \<Rightarrow>
                           (case pick_oracle cfg clk outs (context + 1) of
                              None \<Rightarrow> (None, S1)
                            | Some j \<Rightarrow> (Some (ss_primary S, impl, i, j), S1)))))"

definition get_any_settlement_for_chains_with_name ::
  "64 word \<Rightarrow> 's settlement_service \<Rightarrow> nat \<Rightarrow> nat \<Rightarrow> (string \<times> 's settlement_impl \<times> bytes \<times> bytes) option \<times> 's settlement_service" where
  "get_any_settlement_for_chains_with_name clk S origin dest =
     (let context = ss_selection_counter S; S1 = S\<lparr>ss_selection_counter := context + 1\<rparr>
      in (case map_of (ss_implementations S) (ss_primary S) of
            None \<Rightarrow> (None, S1)
          | Some impl \<Rightarrow>
              let cfg = si_oracle_config impl
              in (case map_of (oc_input_oracles cfg) origin of
                    None \<Rightarrow> (None, S1)
                  | Some ins \<Rightarrow>
                      (case map_of (oc_output_oracles cfg) dest of
                         None \<Rightarrow> (None, S1)
                       | Some outs \<Rightarrow>
                           if ins = [] \<or> outs = [] then (None, S1)
                           else if \<not> is_route_supported cfg origin dest then (None, S1)
                           else (case select_oracle cfg clk ins (Some context) of
                                   None \<Rightarrow> (None, S1)
                                 | Some i \<Rightarrow>
                                     (case select_oracle cfg clk outs (Some (context + 1)) of
                                        None \<Rightarrow> (None, S1)
                                      | Some j \<Rightarrow> (Some (ss_primary S, impl, i, j), S1)))))))"

section \<open>Operations of the service\<close>

text \<open>Every operation on an order goes through the settlement it is bound to, after the scalar check.\<close>

definition on_bound ::
  "'s settlement_service \<Rightarrow> order \<Rightarrow> ('s settlement_impl \<Rightarrow> 's world \<Rightarrow> (settlement_service_error, 'a) result \<times> 's world)
   \<Rightarrow> 's world \<Rightarrow> (settlement_service_error, 'a) result \<times> 's world" where
  "on_bound S ord f w = (case find_settlement_for_order S ord of Inl e \<Rightarrow> (Inl e, w) | Inr impl \<Rightarrow> f impl w)"

definition on_scalar ::
  "'s settlement_service \<Rightarrow> order \<Rightarrow> ('s settlement_impl \<Rightarrow> 's world \<Rightarrow> (settlement_service_error, 'a) result \<times> 's world)
   \<Rightarrow> 's world \<Rightarrow> (settlement_service_error, 'a) result \<times> 's world" where
  "on_scalar S ord f w = (case ensure_scalar_settlement_supported ord of Inl e \<Rightarrow> (Inl e, w) | Inr _ \<Rightarrow> on_bound S ord f w)"

definition recover_post_fill_state ::
  "'s settlement_service \<Rightarrow> order \<Rightarrow> 's world \<Rightarrow> (settlement_service_error, bool) result \<times> 's world" where
  "recover_post_fill_state S ord = on_scalar S ord (\<lambda>impl. si_recover_post_fill_state impl ord)"

definition handle_transaction_confirmed :: "'s settlement_service \<Rightarrow> 's settle_callback" where
  "handle_transaction_confirmed S ord ty rcpt w =
     (if \<not> (ty = PostFill \<or> ty = PreClaim) then (Inr (), w)
      else (case find_settlement_for_order S ord of
              Inl _ \<Rightarrow> (Inr (), w)
            | Inr impl \<Rightarrow> si_transaction_confirmed impl ord ty rcpt w))"

definition readiness :: "'s settlement_service \<Rightarrow> order \<Rightarrow> fill_proof \<Rightarrow> 's world \<Rightarrow> settlement_readiness \<times> 's world" where
  "readiness S ord fpr w =
     (case ensure_scalar_settlement_supported ord of
        Inl e \<Rightarrow> (PermanentFailure (settlement_error_text e), w)
      | Inr _ \<Rightarrow>
          (case find_settlement_for_order S ord of
             Inl e \<Rightarrow> (PermanentFailure (settlement_error_text e), w)
           | Inr impl \<Rightarrow> si_readiness impl ord fpr w))"

definition buffer_coverage_check :: "'s settlement_service \<Rightarrow> order \<Rightarrow> 's world \<Rightarrow> (pusher_direction \<times> nat) option \<times> 's world" where
  "buffer_coverage_check S ord w =
     (case find_settlement_for_order S ord of Inl _ \<Rightarrow> (None, w) | Inr impl \<Rightarrow> si_buffer_coverage impl ord w)"

definition can_claim :: "'s settlement_service \<Rightarrow> order \<Rightarrow> fill_proof \<Rightarrow> 's world \<Rightarrow> bool \<times> 's world" where
  "can_claim S ord fpr w =
     (case ensure_scalar_settlement_supported ord of
        Inl _ \<Rightarrow> (False, w)
      | Inr _ \<Rightarrow>
          (case find_settlement_for_order S ord of Inl _ \<Rightarrow> (False, w) | Inr impl \<Rightarrow> si_can_claim impl ord fpr w))"

definition generate_post_fill_execution_transaction ::
  "'s settlement_service \<Rightarrow> order \<Rightarrow> transaction_receipt \<Rightarrow> 's world
   \<Rightarrow> (settlement_service_error, execution_transaction option) result \<times> 's world" where
  "generate_post_fill_execution_transaction S ord rcpt = on_scalar S ord (\<lambda>impl. si_post_fill impl ord rcpt)"

definition generate_pre_claim_execution_transaction ::
  "'s settlement_service \<Rightarrow> order \<Rightarrow> fill_proof \<Rightarrow> 's world
   \<Rightarrow> (settlement_service_error, execution_transaction option) result \<times> 's world" where
  "generate_pre_claim_execution_transaction S ord fpr = on_scalar S ord (\<lambda>impl. si_pre_claim impl ord fpr)"

definition generate_claim_execution_transactions ::
  "'s settlement_service \<Rightarrow> order \<Rightarrow> fill_proof \<Rightarrow> 's world
   \<Rightarrow> (settlement_service_error, execution_transaction list) result \<times> 's world" where
  "generate_claim_execution_transactions S ord fpr w =
     (if standard ord \<noteq> HYPERLANE7683_STANDARD then on_scalar S ord (\<lambda>impl. si_claims impl ord fpr) w
      else on_bound S ord (\<lambda>impl. si_claims impl ord fpr) w)"

section \<open>Attestations are bound to the order's oracle\<close>

text \<open>\<open>format!("{:0>n}")\<close>\<close>

definition pad_left :: "nat \<Rightarrow> string \<Rightarrow> string" where
  "pad_left n s = replicate (n - length s) (CHR ''0'') @ s"

definition parse_address :: "(string \<Rightarrow> (string, bytes) result) \<Rightarrow> string \<Rightarrow> (string, bytes) result" where
  "parse_address hexd s =
     (if s = [] then Inl ''Address cannot be empty''
      else let clean = without_0x_prefix s
           in if clean = [] then Inl ''Address cannot be empty''
              else let padded = (if length clean = 40 then clean
                                 else if length clean = 62 then ''00'' @ clean
                                 else if length clean = 64 then clean
                                 else if length clean < 64 \<and> length clean > 40 then pad_left 64 clean
                                 else pad_left 40 clean)
                   in (case hexd padded of
                         Inl e \<Rightarrow> Inl (''Invalid hex: '' @ e)
                       | Inr b \<Rightarrow>
                           if length b = 20 then Inr b
                           else if length b = 32 then Inr (drop 12 b)
                           else Inl (''Invalid address length: expected 20 or 32 bytes, got '' @ to_dec (length b))))"

definition parse_eip7683_order_data :: "parse_order_data \<Rightarrow> order \<Rightarrow> (settlement_service_error, eip7683_order_data) result" where
  "parse_eip7683_order_data parse ord =
     (if standard ord \<noteq> ''eip7683''
      then Inl (ValidationFailed (''Settlement only supports eip7683 orders, got '' @ [CHR 0x27] @ standard ord @ [CHR 0x27]))
      else (case parse (data ord) of
              Inl e \<Rightarrow> Inl (ValidationFailed (''Failed to parse eip7683 order data: '' @ e))
            | Inr od \<Rightarrow> Inr od))"

definition parse_bound_input_oracle ::
  "parse_order_data \<Rightarrow> (string \<Rightarrow> (string, bytes) result) \<Rightarrow> order \<Rightarrow> (settlement_service_error, bytes) result" where
  "parse_bound_input_oracle parse hexd ord =
     (case parse_eip7683_order_data parse ord of
        Inl e \<Rightarrow> Inl e
      | Inr od \<Rightarrow>
          (case parse_address hexd (eod_input_oracle od) of
             Inl e \<Rightarrow> Inl (ValidationFailed (''Invalid order-bound input oracle: '' @ e))
           | Inr a \<Rightarrow>
               if list_all (\<lambda>b. b = 0) a
               then Inl (ValidationFailed ''Order input oracle is zero; order-bound input oracle is required'')
               else Inr a))"

definition get_attestation ::
  "parse_order_data \<Rightarrow> (string \<Rightarrow> (string, bytes) result) \<Rightarrow> (bytes \<Rightarrow> string) \<Rightarrow> 's settlement_service \<Rightarrow> order \<Rightarrow> bytes \<Rightarrow> 's world
   \<Rightarrow> (settlement_service_error, fill_proof) result \<times> 's world" where
  "get_attestation parse hexd hexe S ord h w =
     (case on_scalar S ord (\<lambda>impl. si_get_attestation impl ord h) w of
        (Inl e, w1) \<Rightarrow> (Inl e, w1)
      | (Inr fpr, w1) \<Rightarrow>
          if standard ord = HYPERLANE7683_STANDARD then (Inr fpr, w1)
          else (case parse_bound_input_oracle parse hexd ord of
                  Inl e \<Rightarrow> (Inl e, w1)
                | Inr expected \<Rightarrow>
                    (case parse_address hexd (fp_oracle_address fpr) of
                       Inl e \<Rightarrow> (Inl (ValidationFailed (''Invalid FillProof oracle_address: '' @ e)), w1)
                     | Inr actual \<Rightarrow>
                         if actual \<noteq> expected
                         then (Inl (ValidationFailed (''fill_proof.oracle_address 0x'' @ hexe actual @
                                '' does not match order-bound input_oracle 0x'' @ hexe expected)), w1)
                         else (Inr fpr, w1))))"

section \<open>Pushing block hashes\<close>

definition derive_msg_value :: "pusher_l2_params \<Rightarrow> nat" where
  "derive_msg_value p =
     (case p of
        PushOpStack _ \<Rightarrow> 0
      | PushLinea fee \<Rightarrow> fee
      | PushArbitrum _ gas_price_bid gas_limit submission_cost _ \<Rightarrow>
          wrapping_add u256_bound ((gas_limit * gas_price_bid) mod u256_bound) submission_cost
      | PushRaw _ value_wei \<Rightarrow> (case value_wei of None \<Rightarrow> 0 | Some v \<Rightarrow> v))"

text \<open>\<open>to_be_bytes\<close> of an integer of \<open>n\<close> bytes.\<close>

definition to_be_bytes :: "nat \<Rightarrow> nat \<Rightarrow> bytes" where
  "to_be_bytes n v = map (\<lambda>i. word_of_nat (v div 256 ^ (n - 1 - i))) [0..<n]"

text \<open>The encoders of the two \<open>pushHashes\<close> calls are parameters: the ABI coder is not part of the repository.\<close>

record push_abi =
  pa_arbitrum :: "bytes \<Rightarrow> nat \<Rightarrow> nat \<Rightarrow> nat \<Rightarrow> nat \<Rightarrow> bool \<Rightarrow> bytes"
  pa_generic :: "bytes \<Rightarrow> nat \<Rightarrow> nat \<Rightarrow> bytes \<Rightarrow> bytes"
  pa_hex_decode :: "string \<Rightarrow> (string, bytes) result"

definition build_push_tx :: "push_abi \<Rightarrow> pusher_direction \<Rightarrow> nat \<Rightarrow> evm_transaction option" where
  "build_push_tx A dir first_block =
     (let call_data =
        (case pd_l2_params dir of
           PushArbitrum inbox bid gas cost erc20 \<Rightarrow> Some (pa_arbitrum A inbox (pd_batch_size dir) bid gas cost erc20)
         | PushOpStack gas \<Rightarrow>
             Some (pa_generic A (pd_buffer_address dir) first_block (pd_batch_size dir) (replicate 28 0 @ to_be_bytes 4 gas))
         | PushLinea fee \<Rightarrow>
             Some (pa_generic A (pd_buffer_address dir) first_block (pd_batch_size dir) (replicate 24 0 @ to_be_bytes 8 fee))
         | PushRaw d _ \<Rightarrow>
             (case pa_hex_decode A (trim_0x d) of
                Inl _ \<Rightarrow> None
              | Inr b \<Rightarrow> Some (pa_generic A (pd_buffer_address dir) first_block (pd_batch_size dir) b)))
      in map_option (\<lambda>d. \<lparr>tx_to = Some (pd_pusher_address dir), tx_data = d, tx_value = derive_msg_value (pd_l2_params dir),
           tx_chain_id = pd_l1_chain_id dir, tx_nonce = None, tx_gas_limit = None, tx_gas_price = None,
           tx_max_fee_per_gas = None, tx_max_priority_fee_per_gas = None\<rparr>) call_data)"

text \<open>
  The cooldowns are shared by the monitor tasks.  What other tasks do to them between the two locked
  sections of \<open>push_if_needed\<close> is the argument \<open>others\<close>; \<open>now\<close> gives the clock in each section.
\<close>

type_synonym cooldowns = "string \<rightharpoonup> nat"

definition cooling :: "pusher_direction \<Rightarrow> nat \<Rightarrow> cooldowns \<Rightarrow> bool" where
  "cooling dir now m = (case m (pd_label dir) of None \<Rightarrow> False | Some t \<Rightarrow> now - t < pd_push_cooldown_seconds dir)"

definition push_if_needed ::
  "push_abi \<Rightarrow> (evm_transaction \<Rightarrow> (delivery_error, bytes) result) \<Rightarrow> pusher_direction \<Rightarrow> nat \<Rightarrow> (string, nat) result
   \<Rightarrow> (cooldowns \<Rightarrow> cooldowns) \<Rightarrow> nat \<Rightarrow> nat \<Rightarrow> cooldowns \<Rightarrow> evm_transaction option \<times> cooldowns" where
  "push_if_needed A deliver_system dir required_block buffer_newest others now1 now2 m =
     (if cooling dir now1 m then (None, m)
      else (case buffer_newest of
              Inl _ \<Rightarrow> (None, others m)
            | Inr newest \<Rightarrow>
                if newest \<ge> required_block then (None, others m)
                else let m1 = others m
                     in if cooling dir now2 m1 then (None, m1)
                        else let m2 = m1(pd_label dir \<mapsto> now2)
                             in (case build_push_tx A dir (newest + 1) of
                                   None \<Rightarrow> (None, m2(pd_label dir := None))
                                 | Some tx \<Rightarrow>
                                     (case deliver_system tx of
                                        Inr _ \<Rightarrow> (Some tx, m2)
                                      | Inl _ \<Rightarrow> (Some tx, m2(pd_label dir := None))))))"

text \<open>
  A push is submitted only when the buffer is behind and the direction was not used within its
  cooldown; the message value of typed parameters does not wrap, and a submitted push leaves the
  direction reserved.
\<close>

lemma derive_msg_value_exact:
  assumes "bid < u64_bound" "gas < u64_bound" "cost < u64_bound"
  shows "derive_msg_value (PushArbitrum inbox bid gas cost erc20) = gas * bid + cost"
proof -
  have "gas * bid \<le> (2 ^ 64 - 1) * (2 ^ 64 - 1)" using assms by (intro mult_le_mono) simp_all
  then show ?thesis using assms by (simp add: derive_msg_value_def wrapping_add_def)
qed

lemma push_only_when_behind:
  assumes "push_if_needed A deliver_system dir required_block buffer_newest others now1 now2 m = (Some tx, m')"
  shows "\<exists>newest. buffer_newest = Inr newest \<and> newest < required_block \<and> build_push_tx A dir (newest + 1) = Some tx \<and>
    \<not> cooling dir now1 m \<and> \<not> cooling dir now2 (others m) \<and>
    (is_ok (deliver_system tx) \<longrightarrow> m' (pd_label dir) = Some now2) \<and>
    (\<forall>l. l \<noteq> pd_label dir \<longrightarrow> m' l = others m l)"
  using assms by (auto simp: push_if_needed_def Let_def not_le split: if_splits sum.splits option.splits)

section \<open>Advertised routes and quoted oracles\<close>

definition listed :: "oracle_routes \<Rightarrow> oracle_info \<Rightarrow> oracle_info \<Rightarrow> bool" where
  "listed m i j \<longleftrightarrow> (\<exists>outs. map_of m i = Some outs \<and> j \<in> set outs)"

lemma listed_push_route [simp]: "listed (push_route a b m) i j \<longleftrightarrow> (i = a \<and> j = b) \<or> listed m i j"
  by (auto simp: listed_def push_route_def split: option.splits)

text \<open>A loop that only ever adds to a property of its state.\<close>

lemma foldl_adds:
  assumes "\<And>m x. Q (f m x) \<longleftrightarrow> P x \<or> Q m"
  shows "Q (foldl f m xs) \<longleftrightarrow> (\<exists>x \<in> set xs. P x) \<or> Q m"
  using assms by (induction xs arbitrary: m) auto

lemma listed_push_all:
  "listed (foldl (\<lambda>m out. push_route a \<lparr>oi_chain_id = dest, oi_oracle = out\<rparr> m) m outs) i j \<longleftrightarrow>
     (\<exists>out \<in> set outs. i = a \<and> j = \<lparr>oi_chain_id = dest, oi_oracle = out\<rparr>) \<or> listed m i j"
  by (rule foldl_adds) simp

lemma listed_routes_from:
  "listed (routes_from cfg a dests m) i j \<longleftrightarrow>
     (\<exists>dest \<in> set dests. \<exists>outs. map_of (oc_output_oracles cfg) dest = Some outs \<and>
        (\<exists>out \<in> set outs. i = a \<and> j = \<lparr>oi_chain_id = dest, oi_oracle = out\<rparr>)) \<or> listed m i j"
  unfolding routes_from_def by (rule foldl_adds) (auto simp: listed_push_all split: option.splits)

lemma listed_step:
  "listed (case map_of (oc_routes cfg) chain of None \<Rightarrow> m
      | Some dests \<Rightarrow> routes_from cfg \<lparr>oi_chain_id = chain, oi_oracle = a\<rparr> dests m) i j \<longleftrightarrow>
     (i = \<lparr>oi_chain_id = chain, oi_oracle = a\<rparr> \<and> is_route_supported cfg chain (oi_chain_id j) \<and>
      is_output_oracle_supported cfg (oi_chain_id j) (oi_oracle j)) \<or> listed m i j"
  by (cases j) (auto simp: listed_routes_from is_route_supported_def is_output_oracle_supported_def split: option.splits)

lemma listed_build:
  assumes "map_of (ss_implementations S) (ss_primary S) = Some impl"
    and "distinct (map fst (oc_input_oracles (si_oracle_config impl)))"
  shows "listed (build_oracle_routes S) i j \<longleftrightarrow>
    is_input_oracle_supported (si_oracle_config impl) (oi_chain_id i) (oi_oracle i) \<and>
    is_route_supported (si_oracle_config impl) (oi_chain_id i) (oi_chain_id j) \<and>
    is_output_oracle_supported (si_oracle_config impl) (oi_chain_id j) (oi_oracle j)"
proof -
  let ?cfg = "si_oracle_config impl"
  let ?ok = "\<lambda>chain. is_route_supported ?cfg chain (oi_chain_id j) \<and> is_output_oracle_supported ?cfg (oi_chain_id j) (oi_oracle j)"
  have inner: "listed (foldl (\<lambda>m a. case map_of (oc_routes ?cfg) chain of None \<Rightarrow> m
      | Some dests \<Rightarrow> routes_from ?cfg \<lparr>oi_chain_id = chain, oi_oracle = a\<rparr> dests m) m oracles) i j \<longleftrightarrow>
      (\<exists>a \<in> set oracles. i = \<lparr>oi_chain_id = chain, oi_oracle = a\<rparr> \<and> ?ok chain) \<or> listed m i j" for m chain oracles
    by (rule foldl_adds) (simp add: listed_step conj_assoc)
  have "listed (build_oracle_routes S) i j \<longleftrightarrow>
      (\<exists>x \<in> set (oc_input_oracles ?cfg). case x of (chain, oracles) \<Rightarrow>
         \<exists>a \<in> set oracles. i = \<lparr>oi_chain_id = chain, oi_oracle = a\<rparr> \<and> ?ok chain) \<or> listed [] i j"
    unfolding build_oracle_routes_def assms(1) option.case Let_def by (rule foldl_adds) (simp add: inner split: prod.splits)
  also have "\<dots> \<longleftrightarrow> (\<exists>oracles. (oi_chain_id i, oracles) \<in> set (oc_input_oracles ?cfg) \<and> oi_oracle i \<in> set oracles) \<and> ?ok (oi_chain_id i)"
    by (cases i) (fastforce simp: listed_def)
  also have "\<dots> \<longleftrightarrow> is_input_oracle_supported ?cfg (oi_chain_id i) (oi_oracle i) \<and> ?ok (oi_chain_id i)"
    unfolding map_of_eq_Some_iff [OF assms(2), symmetric] is_input_oracle_supported_def by (auto split: option.splits)
  finally show ?thesis by simp
qed

lemma select_oracle_member:
  "select_oracle cfg clk as c = Some a \<Longrightarrow> a \<in> set as"
  by (auto simp: select_oracle_def Let_def split: if_splits oracle_selection_strategy.splits)

lemma select_oracle_total: "as \<noteq> [] \<Longrightarrow> \<exists>a. select_oracle cfg clk as c = Some a"
  by (cases "oc_selection_strategy cfg") (simp_all add: select_oracle_def Let_def)

text \<open>
  Quotes use exactly the routes the solver advertises.  The oracle pair selected for two chains,
  with any strategy, any value of the selection counter (also when it wraps around) and any clock,
  is one of the routes of \<open>build_oracle_routes\<close>, of the primary settlement; and nothing is selected
  only when no route between the two chains is advertised.
\<close>

theorem quotes_use_advertised_routes:
  fixes S :: "'s settlement_service"
  assumes "\<And>impl. map_of (ss_implementations S) (ss_primary S) = Some impl \<Longrightarrow>
      distinct (map fst (oc_input_oracles (si_oracle_config impl)))"
  shows "case fst (get_any_settlement_for_chains_with_name clk S origin dest) of
      Some (name, impl, i, j) \<Rightarrow>
        name = ss_primary S \<and> map_of (ss_implementations S) name = Some impl \<and>
        listed (build_oracle_routes S) \<lparr>oi_chain_id = origin, oi_oracle = i\<rparr> \<lparr>oi_chain_id = dest, oi_oracle = j\<rparr>
    | None \<Rightarrow> \<forall>i j. \<not> listed (build_oracle_routes S) \<lparr>oi_chain_id = origin, oi_oracle = i\<rparr> \<lparr>oi_chain_id = dest, oi_oracle = j\<rparr>"
proof (cases "map_of (ss_implementations S) (ss_primary S)")
  case None
  then show ?thesis by (simp add: get_any_settlement_for_chains_with_name_def build_oracle_routes_def listed_def Let_def)
next
  case (Some impl)
  note lst = listed_build [OF Some assms [OF Some]]
  let ?cfg = "si_oracle_config impl"
  show ?thesis
  proof (cases "fst (get_any_settlement_for_chains_with_name clk S origin dest)")
    case None
    then show ?thesis using Some select_oracle_total [of _ ?cfg clk]
      by (auto simp: get_any_settlement_for_chains_with_name_def Let_def lst is_input_oracle_supported_def
          is_output_oracle_supported_def split: option.splits if_splits) (metis option.distinct(1))+
  next
    case (Some q)
    then show ?thesis using \<open>map_of (ss_implementations S) (ss_primary S) = Some impl\<close>
      by (auto simp: get_any_settlement_for_chains_with_name_def Let_def lst is_input_oracle_supported_def
          is_output_oracle_supported_def dest: select_oracle_member split: option.splits if_splits)
  qed
qed

text \<open>
  C10: A fill proof the service hands out is bound to the order: the order has a single fill, the
  proof comes from the settlement recorded on the order (or the primary one when none is recorded;
  never another one), and unless the order is a Hyperlane order its oracle address is the order's
  own input oracle, a non-zero address of 20 bytes.
\<close>

theorem attestation_bound_to_order:
  assumes "get_attestation parse hexd hexe S ord h w = (Inr fpr, w')"
  shows "expected_fill_transaction_count ord \<le> 1 \<and>
    (\<exists>impl. map_of (ss_implementations S) (case settlement_name ord of Some n \<Rightarrow> n | None \<Rightarrow> ss_primary S) = Some impl \<and>
       si_get_attestation impl ord h w = (Inr fpr, w')) \<and>
    (standard ord \<noteq> HYPERLANE7683_STANDARD \<longrightarrow>
       (\<exists>od a. standard ord = ''eip7683'' \<and> parse (data ord) = Inr od \<and> parse_address hexd (eod_input_oracle od) = Inr a \<and>
          parse_address hexd (fp_oracle_address fpr) = Inr a \<and> length a = 20 \<and> (\<exists>b \<in> set a. b \<noteq> 0)))"
proof -
  have len: "parse_address hexd s = Inr a \<Longrightarrow> length a = 20" for s a
    by (auto simp: parse_address_def Let_def split: if_splits sum.splits)
  from assms have run: "on_scalar S ord (\<lambda>impl. si_get_attestation impl ord h) w = (Inr fpr, w')"
    by (auto simp: get_attestation_def split: prod.splits sum.splits if_splits)
  then have "expected_fill_transaction_count ord \<le> 1" and
    "\<exists>impl. map_of (ss_implementations S) (case settlement_name ord of Some n \<Rightarrow> n | None \<Rightarrow> ss_primary S) = Some impl \<and>
       si_get_attestation impl ord h w = (Inr fpr, w')"
    by (auto simp: on_scalar_def on_bound_def ensure_scalar_settlement_supported_def find_settlement_for_order_def Let_def
        split: if_splits sum.splits option.splits)
  moreover have "\<exists>od a. standard ord = ''eip7683'' \<and> parse (data ord) = Inr od \<and> parse_address hexd (eod_input_oracle od) = Inr a \<and>
          parse_address hexd (fp_oracle_address fpr) = Inr a \<and> length a = 20 \<and> (\<exists>b \<in> set a. b \<noteq> 0)"
    if "standard ord \<noteq> HYPERLANE7683_STANDARD"
    using assms run that len
    by (fastforce simp: get_attestation_def parse_bound_input_oracle_def parse_eip7683_order_data_def list_all_iff
        split: sum.splits if_splits)
  ultimately show ?thesis by blast
qed

section \<open>Witnesses\<close>

definition two_oracles :: oracle_config where
  "two_oracles = \<lparr>oc_input_oracles = [(1, [[10], [11]])], oc_output_oracles = [(2, [[20]])], oc_routes = [(1, [2])],
     oc_selection_strategy = RoundRobin\<rparr>"

definition direct_impl :: "'s settlement_impl" where
  "direct_impl = \<lparr>si_oracle_config = two_oracles,
     si_get_attestation = (\<lambda>ord h w. (Inr \<lparr>fp_tx_hash = h, fp_block_number = 7, fp_attestation_data = None,
        fp_filled_timestamp = 3, fp_oracle_address = ''0x02''\<rparr>, w)),
     si_recover_post_fill_state = (\<lambda>_ w. (Inr False, w)), si_can_claim = (\<lambda>_ _ w. (True, w)),
     si_readiness = (\<lambda>_ _ w. (Ready, w)), si_post_fill = (\<lambda>_ _ w. (Inr None, w)), si_pre_claim = (\<lambda>_ _ w. (Inr None, w)),
     si_claims = (\<lambda>_ _ w. (Inr [], w)), si_buffer_coverage = (\<lambda>_ w. (None, w)), si_transaction_confirmed = (\<lambda>_ _ _ w. (Inr (), w))\<rparr>"

definition direct_service :: "64 word \<Rightarrow> 's settlement_service" where
  "direct_service c = \<lparr>ss_implementations = [(''direct'', direct_impl)], ss_primary = ''direct'', ss_selection_counter = c,
     ss_poll_interval_seconds = 3\<rparr>"

theorem quotes_use_advertised_routes_witness:
  "fst (get_any_settlement_for_chains_with_name 0 (direct_service (- 1) :: nat settlement_service) 1 2) =
     Some (''direct'', direct_impl, [11], [20]) \<and>
   listed (build_oracle_routes (direct_service (- 1) :: nat settlement_service))
     \<lparr>oi_chain_id = 1, oi_oracle = [11]\<rparr> \<lparr>oi_chain_id = 2, oi_oracle = [20]\<rparr>"
proof -
  let ?S = "direct_service (- 1) :: nat settlement_service"
  have "unat (- 1 :: 64 word) mod 2 = 1" by (simp add: unsigned_minus_1_eq_mask mask_eq_exp_minus_1)
  then have run: "fst (get_any_settlement_for_chains_with_name 0 ?S 1 2) = Some (''direct'', direct_impl, [11], [20])"
    by (simp add: get_any_settlement_for_chains_with_name_def direct_service_def direct_impl_def two_oracles_def
        is_route_supported_def select_oracle_def Let_def numeral_2_eq_2)
  have "\<And>impl. map_of (ss_implementations ?S) (ss_primary ?S) = Some impl \<Longrightarrow>
      distinct (map fst (oc_input_oracles (si_oracle_config impl)))"
    by (auto simp: direct_service_def direct_impl_def two_oracles_def)
  from quotes_use_advertised_routes [where S = ?S and clk = 0 and origin = 1 and dest = 2, OF this] show ?thesis
    using run by simp
qed

theorem attestation_bound_to_order_witness:
  "\<exists>fpr. get_attestation (\<lambda>_. Inr escrow_data) (\<lambda>_. Inr (replicate 19 0 @ [2])) (\<lambda>_. []) (direct_service 0) (sample_order Executed) [5]
        \<lparr>w_store = 0 :: nat, w_tick = 0\<rparr> = (Inr fpr, \<lparr>w_store = 0, w_tick = 0\<rparr>) \<and>
     fp_tx_hash fpr = [5] \<and> parse_address (\<lambda>_. Inr (replicate 19 0 @ [2])) (fp_oracle_address fpr) = Inr (replicate 19 0 @ [2])"
proof -
  let ?hexd = "\<lambda>_ :: string. Inr (replicate 19 0 @ [2]) :: (string, bytes) result" and ?w = "\<lparr>w_store = 0 :: nat, w_tick = 0\<rparr>"
  let ?fpr = "\<lparr>fp_tx_hash = [5], fp_block_number = 7, fp_attestation_data = None, fp_filled_timestamp = 3, fp_oracle_address = ''0x02''\<rparr>"
  have addr: "parse_address ?hexd ''0x02'' = Inr (replicate 19 0 @ [2])"
    by (simp add: parse_address_def without_0x_prefix_def starts_with_def)
  have run: "get_attestation (\<lambda>_. Inr escrow_data) ?hexd (\<lambda>_. []) (direct_service 0) (sample_order Executed) [5] ?w = (Inr ?fpr, ?w)"
    by (simp add: get_attestation_def on_scalar_def on_bound_def ensure_scalar_settlement_supported_def find_settlement_for_order_def
        direct_service_def direct_impl_def sample_order_def HYPERLANE7683_STANDARD_def parse_bound_input_oracle_def
        parse_eip7683_order_data_def escrow_data_def addr fill_transaction_hashes_def expected_fill_transaction_count_def)
  from attestation_bound_to_order [OF run] have "\<exists>a. parse_address ?hexd (fp_oracle_address ?fpr) = Inr a"
    by (auto simp: sample_order_def HYPERLANE7683_STANDARD_def)
  then show ?thesis using run addr by auto
qed

end
