(* ===== verification/Settlement_Handler.thy ===== *)
theory Settlement_Handler
  imports Settlement_Service
begin

text \<open>
  \<^verbatim>\<open>crates/solver-core/src/handlers/settlement.rs\<close> and \<^verbatim>\<open>crates/solver-core/src/monitoring/settlement.rs\<close>: what
  follows a fill.  The post-fill, pre-claim and claim transactions are generated, submitted and
  recorded, and a monitor polls the settlement until the claim is ready or its time is over.
\<close>

section \<open>Types\<close>

datatype settlement_error =
    SeStorage string
  | SeService string
  | SeDelivery delivery_error
  | SeSettlement settlement_service_error
  | SeState string
  | SeInsufficientNativeGas string

fun map_delivery_error :: "delivery_error \<Rightarrow> settlement_error" where
  "map_delivery_error (InsufficientNativeGas info) = SeInsufficientNativeGas info"
| "map_delivery_error e = SeDelivery e"

definition ensure_scalar_settlement_order :: "order \<Rightarrow> (settlement_error, unit) result" where
  "ensure_scalar_settlement_order ord =
     (case ensure_scalar_settlement_supported ord of Inl e \<Rightarrow> Inl (SeSettlement e) | Inr _ \<Rightarrow> Inr ())"

definition is_hyperlane7683_order :: "order \<Rightarrow> bool" where
  "is_hyperlane7683_order ord = (standard ord = HYPERLANE7683_STANDARD)"

record claim_batch_error =
  cb_order_id :: string
  cb_error :: settlement_error

record 's settle_env =
  sv_service :: "'s settlement_service"
  sv_deliver :: "'s deliver_stage"
  sv_receipt :: "bytes \<Rightarrow> nat \<Rightarrow> (delivery_error, transaction_receipt) result"
  sv_generate_claim :: "order \<Rightarrow> fill_proof \<Rightarrow> (string, execution_transaction) result"

section \<open>Submitting the transaction of a stage\<close>

text \<open>Post-fill and pre-claim: the hash is recorded, then the pending event is published.\<close>

definition submit_stage ::
  "('s, 'b) machine \<Rightarrow> 's settle_env \<Rightarrow> string \<Rightarrow> transaction_type \<Rightarrow> execution_transaction \<Rightarrow> ('s, settlement_error, unit) handler" where
  "submit_stage M E oid ty tx =
     and_then (call map_delivery_error (sv_deliver E tx oid ty)) (\<lambda>h.
     and_then (ignore (\<lambda>w. ((), record_submission M oid h ty w))) (\<lambda>_.
     publish (DeliveryEv (TransactionPending oid h ty (network_id tx)))))"

definition handle_post_fill_ready ::
  "('s, 'b) machine \<Rightarrow> 's settle_env \<Rightarrow> string \<Rightarrow> ('s, settlement_error, unit) handler" where
  "handle_post_fill_ready M E oid =
     and_then (call (\<lambda>e. SeStorage (storage_error_text e)) (retrieve_order M oid)) (\<lambda>ord.
       if is_hyperlane7683_order ord
       then and_then (require (SeService ''Order missing fill transaction hash'')
                (case fill_transaction_hashes ord of [] \<Rightarrow> None | h # _ \<Rightarrow> Some h)) (\<lambda>h.
            and_then (call (\<lambda>e. SeState (order_error_text M e))
                (\<lambda>w. put_fill_proof M oid (synthetic_fill_proof h (current_timestamp (w_unix (mc_sched M) w))) w)) (\<lambda>_.
            and_then (call (\<lambda>e. SeState (order_error_text M e)) (try_transition M oid Settled (\<lambda>stored. stored))) (\<lambda>_.
            publish (SettlementEv (ClaimReady oid)))))
       else and_then (lift_result (\<lambda>e. e) (ensure_scalar_settlement_order ord)) (\<lambda>_.
            and_then (require (SeService ''Order missing fill transaction hash'') (fill_tx_hash ord)) (\<lambda>h.
            and_then (call SeSettlement (recover_post_fill_state (sv_service E) ord)) (\<lambda>recovered.
              if recovered then publish (SettlementEv (StartMonitoring oid h))
              else and_then (require (SeService ''No output chains in order'')
                       (case output_chains ord of [] \<Rightarrow> None | c # _ \<Rightarrow> Some (csi_chain_id c))) (\<lambda>chain.
                   and_then (lift_result map_delivery_error (sv_receipt E h chain)) (\<lambda>rcpt.
                   and_then (call SeSettlement (generate_post_fill_execution_transaction (sv_service E) ord rcpt)) (\<lambda>tx.
                     case tx of
                       Some t \<Rightarrow> submit_stage M E oid PostFill t
                     | None \<Rightarrow>
                         and_then (call (\<lambda>e. SeStorage (storage_error_text e)) (retrieve_order M oid)) (\<lambda>ord2.
                         and_then (lift_result (\<lambda>e. e) (ensure_scalar_settlement_order ord2)) (\<lambda>_.
                         and_then (require (SeService ''Missing fill transaction hash: required for settlement monitoring'')
                           (fill_tx_hash ord2)) (\<lambda>h2.
                         publish (SettlementEv (StartMonitoring oid h2)))))))))))) "

definition handle_pre_claim_ready ::
  "('s, 'b) machine \<Rightarrow> 's settle_env \<Rightarrow> string \<Rightarrow> ('s, settlement_error, unit) handler" where
  "handle_pre_claim_ready M E oid =
     and_then (call (\<lambda>e. SeStorage (storage_error_text e)) (retrieve_order M oid)) (\<lambda>ord.
     and_then (lift_result (\<lambda>e. e) (ensure_scalar_settlement_order ord)) (\<lambda>_.
     and_then (require (SeService ''Order missing fill proof'') (order_fill_proof ord)) (\<lambda>fpr.
     and_then (call SeSettlement (generate_pre_claim_execution_transaction (sv_service E) ord fpr)) (\<lambda>tx.
       case tx of
         Some t \<Rightarrow> submit_stage M E oid PreClaim t
       | None \<Rightarrow> publish (SettlementEv (ClaimReady oid))))))"

section \<open>Claims\<close>

definition claim_transactions ::
  "'s settle_env \<Rightarrow> order \<Rightarrow> fill_proof \<Rightarrow> ('s, settlement_error, execution_transaction list) handler" where
  "claim_transactions E ord fpr =
     (if standard ord = HYPERLANE7683_STANDARD
      then call SeSettlement (generate_claim_execution_transactions (sv_service E) ord fpr)
      else and_then (lift_result SeService (sv_generate_claim E ord fpr)) (\<lambda>tx. ok [tx]))"

text \<open>Claims publish the pending event before the hash is recorded.\<close>

fun submit_claims ::
  "('s, 'b) machine \<Rightarrow> 's settle_env \<Rightarrow> string \<Rightarrow> execution_transaction list \<Rightarrow> ('s, settlement_error, unit) handler" where
  "submit_claims M E oid [] = ok ()"
| "submit_claims M E oid (tx # txs) =
     and_then (call map_delivery_error (sv_deliver E tx oid Claim)) (\<lambda>h.
     and_then (publish (DeliveryEv (TransactionPending oid h Claim (network_id tx)))) (\<lambda>_.
     and_then (ignore (\<lambda>w. ((), record_submission M oid h Claim w))) (\<lambda>_.
     submit_claims M E oid txs)))"

text \<open>The body of the batch loop for one order.\<close>

definition process_claim :: "('s, 'b) machine \<Rightarrow> 's settle_env \<Rightarrow> string \<Rightarrow> ('s, settlement_error, unit) handler" where
  "process_claim M E oid =
     and_then (call (\<lambda>e. SeStorage (storage_error_text e)) (retrieve_order M oid)) (\<lambda>ord.
     and_then (if standard ord \<noteq> HYPERLANE7683_STANDARD then lift_result (\<lambda>e. e) (ensure_scalar_settlement_order ord) else ok ()) (\<lambda>_.
     and_then (require (SeService ''Order missing fill proof'') (order_fill_proof ord)) (\<lambda>fpr.
     and_then (claim_transactions E ord fpr) (\<lambda>txs.
       if txs = []
       then and_then (call (\<lambda>e. SeState (order_error_text M e)) (try_transition M oid Finalized (\<lambda>stored. stored))) (\<lambda>_.
            publish (SettlementEv (Completed oid)))
       else and_then
              (if standard ord = HYPERLANE7683_STANDARD \<or> length txs > 1
               then and_then (call (\<lambda>e. SeState (order_error_text M e))
                      (update_order M oid (\<lambda>stored. stored\<lparr>expected_claim_tx_count := Some (length txs)\<rparr>))) (\<lambda>_. ok ())
               else ok ())
              (\<lambda>_. submit_claims M E (order_id ord) txs)))))"

text \<open>The batch is taken out of the caller's vector at the start; the first error ends the loop.\<close>

fun process_claim_batch :: "('s, 'b) machine \<Rightarrow> 's settle_env \<Rightarrow> string list \<Rightarrow> ('s, claim_batch_error, unit) handler" where
  "process_claim_batch M E [] w = ([], Inr (), w)"
| "process_claim_batch M E (oid # oids) w =
     (case process_claim M E oid w of
        (evs, Inl e, w1) \<Rightarrow> (evs, Inl \<lparr>cb_order_id = oid, cb_error = e\<rparr>, w1)
      | (evs, Inr _, w1) \<Rightarrow> (case process_claim_batch M E oids w1 of (evs', r, w2) \<Rightarrow> (evs @ evs', r, w2)))"

section \<open>The settlement monitor\<close>

text \<open>
  Time is counted in nanoseconds since the start of the monitor.  Turn \<open>n\<close> of the loop takes
  \<open>mn_busy n\<close> up to the point where it knows the readiness, then sleeps as long as the code asks, and
  the next turn starts \<open>mn_late n\<close> later than that; \<open>mn_wall n\<close> is the wall clock, in seconds, it
  reads.  The loop is a partial function: not returning is \<open>None\<close>.
\<close>

record 's monitor_env =
  mn_service :: "'s settlement_service"
  mn_timeout_minutes :: nat
  mn_busy :: "nat \<Rightarrow> nat"
  mn_late :: "nat \<Rightarrow> nat"
  mn_wall :: "nat \<Rightarrow> nat"
  mn_push :: "nat \<Rightarrow> pusher_direction \<Rightarrow> nat \<Rightarrow> 's world \<Rightarrow> 's world"

datatype monitor_end = MonitorReady | MonitorTimeout | MonitorFailed string

definition monitoring_timeout :: "'s monitor_env \<Rightarrow> nat" where
  "monitoring_timeout N = mn_timeout_minutes N * 60 * 1000000000"

text \<open>How long a turn sleeps; \<open>now\<close> is the wall clock and \<open>el\<close> the time since the start.\<close>

definition next_check_delay :: "'s monitor_env \<Rightarrow> settlement_readiness \<Rightarrow> nat \<Rightarrow> nat \<Rightarrow> nat" where
  "next_check_delay N rdy now el =
     (case rdy of
        Waiting (WaitingForProofDelay until) \<Rightarrow> min (max (until - now) 1 * 1000000000) (monitoring_timeout N - el)
      | _ \<Rightarrow> ss_poll_interval_seconds (mn_service N) * 1000000000)"

definition push_coverage :: "'s monitor_env \<Rightarrow> nat \<Rightarrow> order \<Rightarrow> 's world \<Rightarrow> 's world" where
  "push_coverage N n ord w =
     (case buffer_coverage_check (mn_service N) ord w of
        (None, w1) \<Rightarrow> w1
      | (Some (dir, required), w1) \<Rightarrow> mn_push N n dir required w1)"

text \<open>When the next turn starts, given the start and the readiness of this one.\<close>

definition next_turn :: "'s monitor_env \<Rightarrow> settlement_readiness \<Rightarrow> nat \<Rightarrow> nat \<Rightarrow> nat" where
  "next_turn N rdy n el =
     (let el1 = el + mn_busy N n in el1 + next_check_delay N rdy (mn_wall N n) el1 + mn_late N n)"

text \<open>One turn after the timeout check: what it publishes, what ends the loop or the readiness it goes on with, and the world.\<close>

definition monitor_turn ::
  "('s, 'b) machine \<Rightarrow> 's monitor_env \<Rightarrow> order \<Rightarrow> fill_proof \<Rightarrow> nat \<Rightarrow> 's world
   \<Rightarrow> solver_event list \<times> (monitor_end + settlement_readiness) \<times> 's world" where
  "monitor_turn M N ord fpr n w =
     (case readiness (mn_service N) ord fpr (push_coverage N n ord w) of
        (Ready, w1) \<Rightarrow>
          ([SettlementEv (PreClaimReady (order_id ord))], Inl MonitorReady, snd (force_transition M (order_id ord) Settled w1))
      | (Waiting reason, w1) \<Rightarrow> ([], Inr (Waiting reason), w1)
      | (NeedsAction (BufferBehind dir required), w1) \<Rightarrow>
          ([], Inr (NeedsAction (BufferBehind dir required)), mn_push N n dir required w1)
      | (PermanentFailure m, w1) \<Rightarrow> ([], Inl (MonitorFailed m), w1))"

partial_function (option) monitor_loop ::
  "('s, 'b) machine \<Rightarrow> 's monitor_env \<Rightarrow> order \<Rightarrow> fill_proof \<Rightarrow> nat \<Rightarrow> nat \<Rightarrow> 's world
   \<Rightarrow> (solver_event list \<times> monitor_end \<times> 's world) option" where
  "monitor_loop M N ord fpr n el w =
     (if el > monitoring_timeout N then Some ([], MonitorTimeout, w)
      else (case monitor_turn M N ord fpr n w of
              (evs, Inl e, w1) \<Rightarrow> Some (evs, e, w1)
            | (evs, Inr rdy, w1) \<Rightarrow> monitor_loop M N ord fpr (Suc n) (next_turn N rdy n el) w1))"

definition monitor_claim_readiness ::
  "('s, 'b) machine \<Rightarrow> parse_order_data \<Rightarrow> (string \<Rightarrow> (string, bytes) result) \<Rightarrow> 's monitor_env \<Rightarrow> order \<Rightarrow> bytes \<Rightarrow> 's world
   \<Rightarrow> (solver_event list \<times> 's world) option" where
  "monitor_claim_readiness M parse hexd N ord h w =
     (case get_attestation parse hexd (mc_hex M) (mn_service N) ord h w of
        (Inl _, w1) \<Rightarrow> Some ([], w1)
      | (Inr fpr, w1) \<Rightarrow>
          (case put_fill_proof M (order_id ord) fpr w1 of
             (Inl _, w2) \<Rightarrow> Some ([], w2)
           | (Inr _, w2) \<Rightarrow> map_option (\<lambda>(evs, _, w3). (evs, w3)) (monitor_loop M N ord fpr 0 0 w2)))"

section \<open>The monitor ends\<close>

text \<open>The world at the start of a turn, as long as no turn ends the loop, and what the turn answers.\<close>

primrec world_at :: "('s, 'b) machine \<Rightarrow> 's monitor_env \<Rightarrow> order \<Rightarrow> fill_proof \<Rightarrow> 's world \<Rightarrow> nat \<Rightarrow> 's world" where
  "world_at M N ord fpr w 0 = w"
| "world_at M N ord fpr w (Suc n) = snd (snd (monitor_turn M N ord fpr n (world_at M N ord fpr w n)))"

definition ready_at :: "('s, 'b) machine \<Rightarrow> 's monitor_env \<Rightarrow> order \<Rightarrow> fill_proof \<Rightarrow> 's world \<Rightarrow> nat \<Rightarrow> settlement_readiness" where
  "ready_at M N ord fpr w n = fst (readiness (mn_service N) ord fpr (push_coverage N n ord (world_at M N ord fpr w n)))"

text \<open>When a turn starts, as long as no turn ends the loop.\<close>

primrec elapsed_at :: "('s, 'b) machine \<Rightarrow> 's monitor_env \<Rightarrow> order \<Rightarrow> fill_proof \<Rightarrow> 's world \<Rightarrow> nat \<Rightarrow> nat" where
  "elapsed_at M N ord fpr w 0 = 0"
| "elapsed_at M N ord fpr w (Suc n) = next_turn N (ready_at M N ord fpr w n) n (elapsed_at M N ord fpr w n)"

definition goes_on :: "settlement_readiness \<Rightarrow> bool" where
  "goes_on r = (case r of Waiting _ \<Rightarrow> True | NeedsAction _ \<Rightarrow> True | _ \<Rightarrow> False)"

lemma monitor_turn_outcome:
  "fst (monitor_turn M N ord fpr n (world_at M N ord fpr w n)) =
     (if ready_at M N ord fpr w n = Ready then [SettlementEv (PreClaimReady (order_id ord))] else [])"
  "fst (snd (monitor_turn M N ord fpr n (world_at M N ord fpr w n))) =
     (case ready_at M N ord fpr w n of
        Ready \<Rightarrow> Inl MonitorReady
      | PermanentFailure m \<Rightarrow> Inl (MonitorFailed m)
      | rdy \<Rightarrow> Inr rdy)"
  by (auto simp: monitor_turn_def ready_at_def split: prod.splits settlement_readiness.splits action_required.splits)

lemma monitor_loop_from:
  assumes "\<forall>i. n \<le> i \<and> i < k \<longrightarrow> elapsed_at M N ord fpr w i \<le> monitoring_timeout N \<and> goes_on (ready_at M N ord fpr w i)" and "n \<le> k"
  shows "monitor_loop M N ord fpr n (elapsed_at M N ord fpr w n) (world_at M N ord fpr w n) =
    monitor_loop M N ord fpr k (elapsed_at M N ord fpr w k) (world_at M N ord fpr w k)"
  using assms
proof (induction "k - n" arbitrary: n)
  case (Suc d)
  let ?at = "\<lambda>n. monitor_loop M N ord fpr n (elapsed_at M N ord fpr w n) (world_at M N ord fpr w n)"
  from Suc have now: "elapsed_at M N ord fpr w n \<le> monitoring_timeout N" "goes_on (ready_at M N ord fpr w n)" by simp_all
  obtain evs r w1 where t: "monitor_turn M N ord fpr n (world_at M N ord fpr w n) = (evs, r, w1)" using prod_cases3 by blast
  have "r = Inr (ready_at M N ord fpr w n)" using monitor_turn_outcome(2) [of M N ord "fpr" n w] t now(2)
    by (simp add: goes_on_def split: settlement_readiness.splits)
  then have "?at n = ?at (Suc n)" using t now(1) by (subst monitor_loop.simps) simp
  also have "\<dots> = ?at k" using Suc by (intro Suc.hyps) simp_all
  finally show ?case .
qed simp

lemma monitor_loop_end:
  assumes "\<forall>i < k. elapsed_at M N ord fpr w i \<le> monitoring_timeout N \<and> goes_on (ready_at M N ord fpr w i)"
  shows "elapsed_at M N ord fpr w k > monitoring_timeout N \<Longrightarrow>
      monitor_loop M N ord fpr 0 0 w = Some ([], MonitorTimeout, world_at M N ord fpr w k)"
    and "elapsed_at M N ord fpr w k \<le> monitoring_timeout N \<Longrightarrow> ready_at M N ord fpr w k = Ready \<Longrightarrow>
      \<exists>w'. monitor_loop M N ord fpr 0 0 w = Some ([SettlementEv (PreClaimReady (order_id ord))], MonitorReady, w')"
    and "elapsed_at M N ord fpr w k \<le> monitoring_timeout N \<Longrightarrow> ready_at M N ord fpr w k = PermanentFailure m \<Longrightarrow>
      \<exists>w'. monitor_loop M N ord fpr 0 0 w = Some ([], MonitorFailed m, w')"
proof -
  have run: "monitor_loop M N ord fpr 0 0 w = monitor_loop M N ord fpr k (elapsed_at M N ord fpr w k) (world_at M N ord fpr w k)"
    using monitor_loop_from [of 0 k] assms by simp
  obtain evs r w1 where t: "monitor_turn M N ord fpr k (world_at M N ord fpr w k) = (evs, r, w1)" using prod_cases3 by blast
  note out = monitor_turn_outcome [of M N ord "fpr" k w, unfolded t fst_conv snd_conv]
  show "elapsed_at M N ord fpr w k > monitoring_timeout N \<Longrightarrow>
      monitor_loop M N ord fpr 0 0 w = Some ([], MonitorTimeout, world_at M N ord fpr w k)"
    unfolding run by (subst monitor_loop.simps) simp
  show "\<exists>w'. monitor_loop M N ord fpr 0 0 w = Some ([SettlementEv (PreClaimReady (order_id ord))], MonitorReady, w')"
    if "elapsed_at M N ord fpr w k \<le> monitoring_timeout N" "ready_at M N ord fpr w k = Ready"
    unfolding run using that out t by (subst monitor_loop.simps) simp
  show "\<exists>w'. monitor_loop M N ord fpr 0 0 w = Some ([], MonitorFailed m, w')"
    if "elapsed_at M N ord fpr w k \<le> monitoring_timeout N" "ready_at M N ord fpr w k = PermanentFailure m"
    unfolding run using that out t by (subst monitor_loop.simps) simp
qed

text \<open>Every turn lasts a second, unless it brings the monitor to its timeout, and no sleep goes further than a poll beyond it.\<close>

lemma next_turn_grows: "el + mn_busy N n \<le> next_turn N rdy n el"
  by (simp add: next_turn_def Let_def)

lemma next_turn_second:
  assumes "0 < ss_poll_interval_seconds (mn_service N)"
  shows "min (el + 1000000000) (monitoring_timeout N) \<le> next_turn N rdy n el"
proof -
  have "1000000000 \<le> max (t :: nat) 1 * 1000000000" for t by simp
  moreover have "1000000000 \<le> ss_poll_interval_seconds (mn_service N) * 1000000000" using assms by simp
  ultimately show ?thesis
    by (auto simp: next_turn_def next_check_delay_def Let_def min_def split: settlement_readiness.splits waiting_reason.splits)
qed

lemma next_turn_bounded:
  assumes "el \<le> monitoring_timeout N"
  shows "next_turn N rdy n el \<le>
    monitoring_timeout N + mn_busy N n + ss_poll_interval_seconds (mn_service N) * 1000000000 + mn_late N n"
  using assms
  by (auto simp: next_turn_def next_check_delay_def Let_def min_def split: settlement_readiness.splits waiting_reason.splits)

lemma elapsed_at_seconds:
  assumes "0 < ss_poll_interval_seconds (mn_service N)"
  shows "min (n * 1000000000) (monitoring_timeout N) \<le> elapsed_at M N ord fpr w n"
proof (induction n)
  case (Suc n)
  then show ?case using next_turn_second [OF assms, of "elapsed_at M N ord fpr w n" "ready_at M N ord fpr w n" n] by auto
qed simp

lemma elapsed_at_grows:
  assumes "0 < mn_busy N n"
  shows "elapsed_at M N ord fpr w n < elapsed_at M N ord fpr w (Suc n)"
  using next_turn_grows [of "elapsed_at M N ord fpr w n" N n "ready_at M N ord fpr w n"] assms by simp

lemma monitor_ends_near_timeout:
  assumes "\<And>n. 0 < mn_busy N n" and "0 < ss_poll_interval_seconds (mn_service N)"
  shows "\<exists>k end_state w'. k \<le> mn_timeout_minutes N * 60 + 1 \<and>
    (\<forall>i < k. elapsed_at M N ord fpr w i \<le> monitoring_timeout N \<and> goes_on (ready_at M N ord fpr w i)) \<and>
    monitor_loop M N ord fpr 0 0 w =
      Some (if end_state = MonitorReady then [SettlementEv (PreClaimReady (order_id ord))] else [], end_state, w') \<and>
    (case end_state of
       MonitorTimeout \<Rightarrow> 0 < k \<and> elapsed_at M N ord fpr w k > monitoring_timeout N \<and>
         elapsed_at M N ord fpr w k \<le> monitoring_timeout N + mn_busy N (k - 1) +
           ss_poll_interval_seconds (mn_service N) * 1000000000 + mn_late N (k - 1)
     | MonitorReady \<Rightarrow> elapsed_at M N ord fpr w k \<le> monitoring_timeout N \<and> ready_at M N ord fpr w k = Ready
     | MonitorFailed m \<Rightarrow> elapsed_at M N ord fpr w k \<le> monitoring_timeout N \<and> ready_at M N ord fpr w k = PermanentFailure m)"
proof -
  let ?el = "elapsed_at M N ord fpr w" and ?rdy = "ready_at M N ord fpr w"
  let ?over = "\<lambda>k. ?el k > monitoring_timeout N"
  let ?K = "mn_timeout_minutes N * 60"
  have "monitoring_timeout N \<le> ?el ?K"
    using elapsed_at_seconds [OF assms(2), of ?K M ord "fpr" w] by (simp add: monitoring_timeout_def)
  then have last: "?over (?K + 1)" using elapsed_at_grows [OF assms(1), of M ord "fpr" w ?K] by simp
  define k where "k = (LEAST k. ?over k \<or> \<not> goes_on (?rdy k))"
  have k: "?over k \<or> \<not> goes_on (?rdy k)" unfolding k_def by (rule LeastI) (use last in blast)
  have le: "k \<le> ?K + 1" unfolding k_def using last by (intro Least_le) simp
  have before: "\<forall>i < k. ?el i \<le> monitoring_timeout N \<and> goes_on (?rdy i)"
    unfolding k_def by (metis (mono_tags, lifting) not_le not_less_Least)
  show ?thesis
  proof (cases "?over k")
    case True
    then obtain j where j: "k = Suc j" by (cases k) auto
    then have "?el k \<le> monitoring_timeout N + mn_busy N (k - 1) + ss_poll_interval_seconds (mn_service N) * 1000000000 + mn_late N (k - 1)"
      using before next_turn_bounded [of "?el j" N "?rdy j" j] by simp
    then show ?thesis using le before True monitor_loop_end(1) [OF before True] j
      by (intro exI [of _ k] exI [of _ MonitorTimeout]) auto
  next
    case False
    then consider "?rdy k = Ready" | m where "?rdy k = PermanentFailure m"
      using k by (auto simp: goes_on_def split: settlement_readiness.splits)
    then show ?thesis
    proof cases
      case 1
      then show ?thesis using le before False monitor_loop_end(2) [OF before]
        by (intro exI [of _ k] exI [of _ MonitorReady]) auto
    next
      case 2
      then show ?thesis using le before False monitor_loop_end(3) [OF before]
        by (intro exI [of _ k] exI [of _ "MonitorFailed m"]) auto
    qed
  qed
qed

lemma monitor_notices:
  assumes "\<And>n. 0 < mn_busy N n" and "T + D \<le> monitoring_timeout N"
    and "\<And>n. elapsed_at M N ord fpr w n < T \<Longrightarrow>
      goes_on (ready_at M N ord fpr w n) \<and> elapsed_at M N ord fpr w (Suc n) \<le> elapsed_at M N ord fpr w n + D"
    and "\<And>n. T \<le> elapsed_at M N ord fpr w n \<Longrightarrow> ready_at M N ord fpr w n = Ready"
  shows "\<exists>n w'. (n = 0 \<or> elapsed_at M N ord fpr w n < T + D) \<and> ready_at M N ord fpr w n = Ready \<and>
    monitor_loop M N ord fpr 0 0 w = Some ([SettlementEv (PreClaimReady (order_id ord))], MonitorReady, w')"
proof -
  let ?el = "elapsed_at M N ord fpr w" and ?rdy = "ready_at M N ord fpr w"
  have "n \<le> ?el n" for n
  proof (induction n)
    case (Suc n)
    then show ?case using elapsed_at_grows [OF assms(1), of M ord "fpr" w n] by linarith
  qed simp
  then have ex: "\<exists>n. T \<le> ?el n" by blast
  define n where "n = (LEAST n. T \<le> ?el n)"
  have n: "T \<le> ?el n" unfolding n_def using ex by (rule LeastI_ex)
  have early: "?el i < T" if "i < n" for i using not_less_Least [OF that [unfolded n_def]] by simp
  have soon: "n = 0 \<or> ?el n < T + D"
  proof (cases n)
    case (Suc j)
    then have "?el j < T" using early by simp
    then show ?thesis using assms(3) Suc by (metis add_less_mono1 le_less_trans)
  qed simp
  have "\<forall>i < n. ?el i \<le> monitoring_timeout N \<and> goes_on (?rdy i)" using early assms(2,3) by fastforce
  from monitor_loop_end(2) [OF this] soon n assms(2,4)
  show "\<exists>n w'. (n = 0 \<or> ?el n < T + D) \<and> ?rdy n = Ready \<and>
      monitor_loop M N ord fpr 0 0 w = Some ([SettlementEv (PreClaimReady (order_id ord))], MonitorReady, w')"
    by fastforce
qed

text \<open>
  C9: The settlement monitor always ends, and near its timeout.  Let turns take some time and the poll interval
  be at least the second the configuration demands.  Then there is a turn \<open>k\<close>, at most one more than the timeout has
  seconds, up to which every turn started within the timeout and found the settlement still waiting, and at which
  either the timeout is over, by no more than the turn before, a poll interval and the lateness of its sleep,
  and nothing is published; or the settlement is ready, and exactly the pre-claim event is published; or it failed
  for good, and nothing is published.  Readiness is looked at only once per turn.  So if turns before a
  moment \<open>T\<close> find the settlement waiting and are followed by the next within \<open>D\<close>, every turn from \<open>T\<close> on finds it
  ready, and \<open>T + D\<close> is within the timeout, then the monitor publishes the event, in a turn that starts
  before \<open>T + D\<close> (or in its first).
\<close>

theorem monitor_ends:
  assumes "\<And>n. 0 < mn_busy N n" and "0 < ss_poll_interval_seconds (mn_service N)"
  shows "(\<exists>k end_state w'. k \<le> mn_timeout_minutes N * 60 + 1 \<and>
    (\<forall>i < k. elapsed_at M N ord fpr w i \<le> monitoring_timeout N \<and> goes_on (ready_at M N ord fpr w i)) \<and>
    monitor_loop M N ord fpr 0 0 w =
      Some (if end_state = MonitorReady then [SettlementEv (PreClaimReady (order_id ord))] else [], end_state, w') \<and>
    (case end_state of
       MonitorTimeout \<Rightarrow> 0 < k \<and> elapsed_at M N ord fpr w k > monitoring_timeout N \<and>
         elapsed_at M N ord fpr w k \<le> monitoring_timeout N + mn_busy N (k - 1) +
           ss_poll_interval_seconds (mn_service N) * 1000000000 + mn_late N (k - 1)
     | MonitorReady \<Rightarrow> elapsed_at M N ord fpr w k \<le> monitoring_timeout N \<and> ready_at M N ord fpr w k = Ready
     | MonitorFailed m \<Rightarrow> elapsed_at M N ord fpr w k \<le> monitoring_timeout N \<and> ready_at M N ord fpr w k = PermanentFailure m)) \<and>
   (\<forall>T D. T + D \<le> monitoring_timeout N \<and>
      (\<forall>n. elapsed_at M N ord fpr w n < T \<longrightarrow>
         goes_on (ready_at M N ord fpr w n) \<and> elapsed_at M N ord fpr w (Suc n) \<le> elapsed_at M N ord fpr w n + D) \<and>
      (\<forall>n. T \<le> elapsed_at M N ord fpr w n \<longrightarrow> ready_at M N ord fpr w n = Ready) \<longrightarrow>
      (\<exists>n w'. (n = 0 \<or> elapsed_at M N ord fpr w n < T + D) \<and> ready_at M N ord fpr w n = Ready \<and>
         monitor_loop M N ord fpr 0 0 w = Some ([SettlementEv (PreClaimReady (order_id ord))], MonitorReady, w')))"
  using monitor_ends_near_timeout [OF assms, of M ord "fpr" w] monitor_notices [OF assms(1), of _ _ M ord "fpr" w] by blast

section \<open>What a settlement stage needs\<close>

lemma handler_runs:
  "require e v w = (evs, Inr a, w1) \<longleftrightarrow> evs = [] \<and> v = Some a \<and> w1 = w"
  "lift_result f q w = (evs, Inr a, w1) \<longleftrightarrow> evs = [] \<and> q = Inr a \<and> w1 = w"
  "ok b w = (evs, Inr a, w1) \<longleftrightarrow> evs = [] \<and> b = a \<and> w1 = w"
  by (auto simp: handler_defs split: option.splits sum.splits)

lemma scalar_order_iff:
  "ensure_scalar_settlement_order ord = Inr () \<longleftrightarrow>
     expected_fill_transaction_count ord \<le> 1 \<and> length (fill_transaction_hashes ord) \<le> 1"
  by (simp add: ensure_scalar_settlement_order_def ensure_scalar_settlement_supported_def Let_def not_less)

lemma claim_transactions_deliver [simp]: "claim_transactions (E\<lparr>sv_deliver := d\<rparr>) = claim_transactions E"
  by (simp add: claim_transactions_def fun_eq_iff)

lemma post_fill_differs:
  assumes "handle_post_fill_ready M E oid w \<noteq> handle_post_fill_ready M (E\<lparr>sv_deliver := d\<rparr>) oid w"
  shows "\<exists>ord w1 h chain rcpt w2. retrieve_order M oid w = (Inr ord, w1) \<and> standard ord \<noteq> HYPERLANE7683_STANDARD \<and>
    expected_fill_transaction_count ord \<le> 1 \<and> fill_tx_hash ord = Some h \<and>
    recover_post_fill_state (sv_service E) ord w1 = (Inr False, w2) \<and>
    output_chains ord \<noteq> [] \<and> sv_receipt E h (csi_chain_id (hd (output_chains ord))) = Inr rcpt"
proof -
  from and_then_differs [OF assms [unfolded handle_post_fill_ready_def]] obtain ord w1
    where rd: "retrieve_order M oid w = (Inr ord, w1)" and d1: "\<not> is_hyperlane7683_order ord"
      and sc: "ensure_scalar_settlement_order ord = Inr ()"
    by (auto simp: call_Inr handler_runs split: if_splits dest!: and_then_differs)
  from and_then_differs [OF assms [unfolded handle_post_fill_ready_def]] rd d1 show ?thesis
    by (auto simp: call_Inr handler_runs scalar_order_iff is_hyperlane7683_order_def split: if_splits list.splits dest!: and_then_differs)
qed

lemma pre_claim_differs:
  assumes "handle_pre_claim_ready M E oid w \<noteq> handle_pre_claim_ready M (E\<lparr>sv_deliver := d\<rparr>) oid w"
  shows "\<exists>ord w1 fpr. retrieve_order M oid w = (Inr ord, w1) \<and> expected_fill_transaction_count ord \<le> 1 \<and> order_fill_proof ord = Some fpr"
  using assms unfolding handle_pre_claim_ready_def
  by (auto simp: call_Inr handler_runs scalar_order_iff dest!: and_then_differs)

lemma claim_differs:
  assumes "process_claim M E oid w \<noteq> process_claim M (E\<lparr>sv_deliver := d\<rparr>) oid w"
  shows "\<exists>ord w1 fpr txs evs w2. retrieve_order M oid w = (Inr ord, w1) \<and> order_fill_proof ord = Some fpr \<and>
    (standard ord \<noteq> HYPERLANE7683_STANDARD \<longrightarrow> expected_fill_transaction_count ord \<le> 1) \<and>
    claim_transactions E ord fpr w1 = (evs, Inr txs, w2) \<and> txs \<noteq> []"
  using assms unfolding process_claim_def
  by (auto simp: call_Inr handler_runs scalar_order_iff split: if_splits dest!: and_then_differs)

text \<open>
  C8: No settlement transaction is sent for an order that is not ready for it.  If what a handler
  does depends on the delivery service, the stored order it read has (a single fill being a count of expected fills of
  at most one): for the post-fill, a single fill with its hash on record and a receipt on the output chain, and no earlier post-fill was
  recovered; for the pre-claim, a single fill and a fill proof; for a claim, a fill proof, a single
  fill unless it is a Hyperlane order, and at least one claim transaction to send.
\<close>

theorem settlement_stages_guarded:
  "(handle_post_fill_ready M E oid w \<noteq> handle_post_fill_ready M (E\<lparr>sv_deliver := d\<rparr>) oid w \<longrightarrow>
     (\<exists>ord w1 h chain rcpt w2. retrieve_order M oid w = (Inr ord, w1) \<and> standard ord \<noteq> HYPERLANE7683_STANDARD \<and>
        expected_fill_transaction_count ord \<le> 1 \<and> fill_tx_hash ord = Some h \<and>
        recover_post_fill_state (sv_service E) ord w1 = (Inr False, w2) \<and>
        output_chains ord \<noteq> [] \<and> sv_receipt E h (csi_chain_id (hd (output_chains ord))) = Inr rcpt)) \<and>
   (handle_pre_claim_ready M E oid w \<noteq> handle_pre_claim_ready M (E\<lparr>sv_deliver := d\<rparr>) oid w \<longrightarrow>
     (\<exists>ord w1 fpr. retrieve_order M oid w = (Inr ord, w1) \<and> expected_fill_transaction_count ord \<le> 1 \<and> order_fill_proof ord = Some fpr)) \<and>
   (process_claim M E oid w \<noteq> process_claim M (E\<lparr>sv_deliver := d\<rparr>) oid w \<longrightarrow>
     (\<exists>ord w1 fpr txs evs w2. retrieve_order M oid w = (Inr ord, w1) \<and> order_fill_proof ord = Some fpr \<and>
        (standard ord \<noteq> HYPERLANE7683_STANDARD \<longrightarrow> expected_fill_transaction_count ord \<le> 1) \<and>
        claim_transactions E ord fpr w1 = (evs, Inr txs, w2) \<and> txs \<noteq> []))"
  using post_fill_differs [of M E oid w d] pre_claim_differs [of M E oid w d] claim_differs [of M E oid w d] by blast

text \<open>The claims of a batch run in order; the first error ends the batch and names its order.\<close>

lemma claim_batch_prefix:
  assumes "process_claim_batch M E oids w = (evs, Inl e, w')"
  shows "\<exists>pre rest evs1 w1 evs2. oids = pre @ cb_order_id e # rest \<and> process_claim_batch M E pre w = (evs1, Inr (), w1) \<and>
    process_claim M E (cb_order_id e) w1 = (evs2, Inl (cb_error e), w') \<and> evs = evs1 @ evs2"
  using assms
proof (induction oids arbitrary: w evs)
  case (Cons oid oids)
  obtain evs0 r w1 where p: "process_claim M E oid w = (evs0, r, w1)" using prod_cases3 by blast
  show ?case
  proof (cases r)
    case (Inl e1)
    then show ?thesis using Cons.prems p by (intro exI [of _ "[]"] exI [of _ oids]) auto
  next
    case (Inr u)
    obtain evs1 q w2 where b: "process_claim_batch M E oids w1 = (evs1, q, w2)" using prod_cases3 by blast
    from Cons.prems p Inr b have "process_claim_batch M E oids w1 = (evs1, Inl e, w')" "evs = evs0 @ evs1" by simp_all
    from Cons.IH [OF this(1)] obtain pre rest e1 w3 e2 where
      "oids = pre @ cb_order_id e # rest" "process_claim_batch M E pre w1 = (e1, Inr (), w3)"
      "process_claim M E (cb_order_id e) w3 = (e2, Inl (cb_error e), w')" "evs1 = e1 @ e2" by blast
    then show ?thesis using p Inr \<open>evs = evs0 @ evs1\<close> by (intro exI [of _ "oid # pre"] exI [of _ rest]) auto
  qed
qed simp

section \<open>Witnesses\<close>

definition quick_monitor :: "'s monitor_env" where
  "quick_monitor = \<lparr>mn_service = direct_service 0, mn_timeout_minutes = 1, mn_busy = (\<lambda>_. 300000000), mn_late = (\<lambda>_. 1000000),
     mn_wall = (\<lambda>n. n), mn_push = (\<lambda>_ _ _ w. w)\<rparr>"

definition sample_proof :: fill_proof where
  "sample_proof = \<lparr>fp_tx_hash = [5], fp_block_number = 7, fp_attestation_data = None, fp_filled_timestamp = 3, fp_oracle_address = ''0x02''\<rparr>"

theorem monitor_ends_witness:
  "\<exists>w'. monitor_loop (calm_machine 5) quick_monitor (sample_order Executed) sample_proof 0 0 (order_world Executed) =
     Some ([SettlementEv (PreClaimReady ''o1'')], MonitorReady, w')"
proof -
  let ?N = "quick_monitor :: stored memory_storage monitor_env"
  have rdy: "ready_at (calm_machine 5) ?N (sample_order Executed) sample_proof (order_world Executed) i = Ready" for i
    by (simp add: ready_at_def readiness_def quick_monitor_def ensure_scalar_settlement_supported_def direct_service_def
        find_settlement_for_order_def sample_order_def fill_transaction_hashes_def expected_fill_transaction_count_def direct_impl_def)
  have "\<And>n. 0 < mn_busy ?N n" "0 < ss_poll_interval_seconds (mn_service ?N)"
    by (simp_all add: quick_monitor_def direct_service_def)
  from monitor_ends [of ?N "calm_machine 5" "sample_order Executed" sample_proof "order_world Executed", OF this,
      THEN conjunct2, THEN spec, THEN spec, of 0 0] rdy
  show ?thesis by (auto simp: sample_order_def)
qed

definition claim_env :: "'s settle_env" where
  "claim_env = \<lparr>sv_service = direct_service 0, sv_deliver = (\<lambda>_ _ _ w. (Inr [9], w)), sv_receipt = (\<lambda>_ _. Inl (Network [])),
     sv_generate_claim = (\<lambda>_ _. Inr (Evm (view_tx [1] 20 [])))\<rparr>"

definition proven_order :: order where
  "proven_order = (sample_order Settled)\<lparr>order_fill_proof := Some sample_proof, fill_tx_hash := Some [5]\<rparr>"

definition proven_world :: "stored memory_storage world" where
  "proven_world = \<lparr>w_store = put_entry 0 memory_new (order_key ''o1'') (Inl proven_order) None None, w_tick = 0\<rparr>"

lemma proven_read: "\<exists>w1. retrieve_order (calm_machine 5) ''o1'' proven_world = (Inr proven_order, w1)"
proof -
  have "memory_live 5 (w_store proven_world) (mk_key ''orders'' ''o1'') = Some (Inl proven_order)"
    by (simp add: proven_world_def memory_live_put until_ttl_def order_key_def)
  then have "memory_get_bytes 5 (w_store proven_world) (mk_key ''orders'' ''o1'') = Inr (Inl proven_order)"
    by (auto simp: memory_live_def memory_get_bytes_def split: option.splits if_splits)
  then show ?thesis
    by (simp add: retrieve_order_def svc_defs Let_def order_codec_def call_read_def)
qed

theorem settlement_stages_guarded_witness:
  "fst (process_claim (calm_machine 5) claim_env ''o1'' proven_world) = [DeliveryEv (TransactionPending ''o1'' [9] Claim 20)] \<and>
   (\<exists>ord w1 fpr. retrieve_order (calm_machine 5) ''o1'' proven_world = (Inr ord, w1) \<and> order_fill_proof ord = Some fpr)"
proof -
  obtain w1 where rd: "retrieve_order (calm_machine 5) ''o1'' proven_world = (Inr proven_order, w1)" using proven_read by blast
  let ?E = "claim_env\<lparr>sv_deliver := (\<lambda>_ _ _ w. (Inl (Network []), w))\<rparr>"
  have ord: "standard proven_order \<noteq> HYPERLANE7683_STANDARD" "order_fill_proof proven_order = Some sample_proof"
    "order_id proven_order = ''o1''" "ensure_scalar_settlement_order proven_order = Inr ()"
    by (simp_all add: proven_order_def sample_order_def HYPERLANE7683_STANDARD_def scalar_order_iff
        expected_fill_transaction_count_def fill_transaction_hashes_def)
  have run: "fst (process_claim (calm_machine 5) claim_env ''o1'' proven_world) = [DeliveryEv (TransactionPending ''o1'' [9] Claim 20)]"
    using ord by (simp add: process_claim_def handler_defs rd claim_transactions_def claim_env_def view_tx_def)
  moreover have "fst (process_claim (calm_machine 5) ?E ''o1'' proven_world) = []"
    using ord by (simp add: process_claim_def handler_defs rd claim_transactions_def claim_env_def)
  ultimately have "process_claim (calm_machine 5) claim_env ''o1'' proven_world \<noteq> process_claim (calm_machine 5) ?E ''o1'' proven_world"
    by (metis not_Cons_self2)
  with conjunct2 [OF conjunct2 [OF settlement_stages_guarded [of "calm_machine 5" claim_env "''o1''" proven_world
      "\<lambda>_ _ _ w. (Inl (Network []), w)"]]]
  have "\<exists>ord w1 fpr. retrieve_order (calm_machine 5) ''o1'' proven_world = (Inr ord, w1) \<and> order_fill_proof ord = Some fpr"
    by metis
  then show ?thesis using run by blast
qed

end
