(* ===== verification/Recovery_Evidence.thy ===== *)
theory Recovery_Evidence
  imports Settlement_Handler Bump_Lineage
begin

text \<open>
  \<^verbatim>\<open>crates/solver-core/src/recovery/chain_evidence.rs\<close>, the pure helpers of
  \<^verbatim>\<open>recovery/mod.rs\<close> and \<^verbatim>\<open>order_rehydration.rs\<close>: where the hash of a stage can come from after a
  restart, and what the logs of a chain prove about an order.

  The chain reads (receipts, block numbers, logs, replayed reverts) and the hashes of the contract
  events are the record \<open>recovery_env\<close>.
\<close>

section \<open>Types\<close>

datatype recovery_error =
    ReStorage string
  | ReStateMachine string
  | ReDelivery string
  | ReSettlement string

datatype reconcile_result =
    NeedsPrepare
  | NeedsExecution
  | NeedsFill
  | NeedsPostFill
  | NeedsMonitoring
  | NeedsPreClaim "fill_proof option"
  | NeedsClaim "fill_proof option"
  | ReFailed transaction_type
  | ReUnknown
  | ReFinalized

datatype stage_resolution = StageHash bytes | StageNotFound | StageUnknown | StageTerminated

datatype hyperlane_signal = SignalFinalized | SignalNeedsClaim fill_proof | SignalUnknown | NoSignal

datatype negative_terminal_reason = Refunded | Purchased

datatype chain_evidence =
    Proven bytes nat
  | NegativeTerminal negative_terminal_reason
  | EvidenceNotFound
  | EvidenceUnknown string

datatype probe_result = Found bytes nat | NoMatch | MatchedButUnusable

definition DEFAULT_RECOVERY_SCAN_WINDOW_BLOCKS :: nat where "DEFAULT_RECOVERY_SCAN_WINDOW_BLOCKS = 10000"

record log_filter =
  lf_address :: bytes
  lf_from_block :: nat
  lf_to_block :: "nat option"
  lf_topics :: "bytes option list"

record settler_addresses =
  sa_input_settler :: bytes
  sa_input_settler_compact :: "bytes option"
  sa_output_settler :: bytes

record 's recovery_env =
  rv_service :: "'s settlement_service"
  rv_receipt :: "bytes \<Rightarrow> nat \<Rightarrow> (delivery_error, transaction_receipt) result"
  rv_block_number :: "nat \<Rightarrow> (delivery_error, nat) result"
  rv_logs :: "nat \<Rightarrow> log_filter \<Rightarrow> (delivery_error, log list) result"
  rv_signature_hash :: "string \<Rightarrow> bytes"
  rv_revert_data :: "nat \<Rightarrow> evm_transaction \<Rightarrow> bytes option \<Rightarrow> nat \<Rightarrow> (delivery_error, bytes option) result"
  rv_selector :: "string \<Rightarrow> bytes"
  rv_networks :: "nat \<Rightarrow> settler_addresses option"
  rv_hex_decode :: "string \<Rightarrow> (string, bytes) result"
  rv_parse_hyperlane :: "json \<Rightarrow> (string, hyperlane_order) result"
  rv_hyperlane_status :: "nat \<Rightarrow> bytes \<Rightarrow> bytes \<Rightarrow> (delivery_error, hyperlane_status) result"

section \<open>Evidence from the logs of a chain\<close>

definition log_filter_for_event :: "'s recovery_env \<Rightarrow> string \<Rightarrow> bytes \<Rightarrow> bytes \<Rightarrow> nat \<Rightarrow> nat option \<Rightarrow> log_filter" where
  "log_filter_for_event E ev settler oid from_block to_block =
     \<lparr>lf_address = settler, lf_from_block = from_block, lf_to_block = to_block,
      lf_topics = [Some (rv_signature_hash E ev), Some oid]\<rparr>"

definition anchor_block_for_same_chain ::
  "'s recovery_env \<Rightarrow> nat \<Rightarrow> bytes option \<Rightarrow> nat \<Rightarrow> (string, nat \<times> nat option) result" where
  "anchor_block_for_same_chain E chain anchor window =
     (case rv_block_number E chain of
        Inl e \<Rightarrow> Inl (''get_block_number failed: '' @ delivery_error_text e)
      | Inr latest \<Rightarrow>
          (case anchor of
             Some h \<Rightarrow>
               (case rv_receipt E h chain of
                  Inr rcpt \<Rightarrow> Inr (rcpt_block_number rcpt - window, Some latest)
                | Inl _ \<Rightarrow> Inr (latest - window, Some latest))
           | None \<Rightarrow> Inr (latest - window, Some latest)))"

definition probe_event ::
  "'s recovery_env \<Rightarrow> string \<Rightarrow> nat \<Rightarrow> bytes \<Rightarrow> bytes \<Rightarrow> nat \<times> nat option \<Rightarrow> (string, probe_result) result" where
  "probe_event E ev chain settler oid blocks =
     (case rv_logs E chain (log_filter_for_event E ev settler oid (fst blocks) (snd blocks)) of
        Inl e \<Rightarrow> Inl (''get_logs failed: '' @ delivery_error_text e)
      | Inr [] \<Rightarrow> Inr NoMatch
      | Inr (l # _) \<Rightarrow>
          (case (log_transaction_hash l, log_block_number l) of
             (Some h, Some b) \<Rightarrow> Inr (Found h b)
           | _ \<Rightarrow> Inr MatchedButUnusable))"

definition single_event_evidence ::
  "'s recovery_env \<Rightarrow> string \<Rightarrow> nat \<Rightarrow> bytes \<Rightarrow> bytes \<Rightarrow> nat \<Rightarrow> chain_evidence" where
  "single_event_evidence E ev chain settler oid window =
     (case anchor_block_for_same_chain E chain None window of
        Inl e \<Rightarrow> EvidenceUnknown e
      | Inr blocks \<Rightarrow>
          (case probe_event E ev chain settler oid blocks of
             Inr (Found h b) \<Rightarrow> Proven h b
           | Inr NoMatch \<Rightarrow> EvidenceNotFound
           | Inr MatchedButUnusable \<Rightarrow> EvidenceUnknown (ev @ '' log matched but lacked tx_hash or block_number'')
           | Inl e \<Rightarrow> EvidenceUnknown e))"

definition chain_evidence_for_prepare_open :: "'s recovery_env \<Rightarrow> nat \<Rightarrow> bytes \<Rightarrow> bytes \<Rightarrow> nat \<Rightarrow> chain_evidence" where
  "chain_evidence_for_prepare_open E = single_event_evidence E ''Open''"

definition chain_evidence_for_fill :: "'s recovery_env \<Rightarrow> nat \<Rightarrow> bytes \<Rightarrow> bytes \<Rightarrow> nat \<Rightarrow> chain_evidence" where
  "chain_evidence_for_fill E = single_event_evidence E ''OutputFilled''"

text \<open>A negative event counts even when its log is unusable; \<open>None\<close> means it was not found.\<close>

definition negative_evidence ::
  "negative_terminal_reason \<Rightarrow> (string, probe_result) result \<Rightarrow> chain_evidence option" where
  "negative_evidence reason r =
     (case r of
        Inr (Found _ _) \<Rightarrow> Some (NegativeTerminal reason)
      | Inr MatchedButUnusable \<Rightarrow> Some (NegativeTerminal reason)
      | Inl e \<Rightarrow> Some (EvidenceUnknown e)
      | Inr NoMatch \<Rightarrow> None)"

definition chain_evidence_for_claim :: "'s recovery_env \<Rightarrow> nat \<Rightarrow> bytes \<Rightarrow> bytes \<Rightarrow> bytes option \<Rightarrow> nat \<Rightarrow> chain_evidence" where
  "chain_evidence_for_claim E chain settler oid anchor window =
     (case anchor_block_for_same_chain E chain anchor window of
        Inl e \<Rightarrow> EvidenceUnknown e
      | Inr blocks \<Rightarrow>
          (case probe_event E ''Finalised'' chain settler oid blocks of
             Inr (Found h b) \<Rightarrow> Proven h b
           | Inr MatchedButUnusable \<Rightarrow> EvidenceUnknown ''Finalised log matched but lacked tx_hash or block_number''
           | Inl e \<Rightarrow> EvidenceUnknown e
           | Inr NoMatch \<Rightarrow>
               (case negative_evidence Refunded (probe_event E ''Refunded'' chain settler oid blocks) of
                  Some ev \<Rightarrow> ev
                | None \<Rightarrow>
                    (case negative_evidence Purchased (probe_event E ''OrderPurchased'' chain settler oid blocks) of
                       Some ev \<Rightarrow> ev
                     | None \<Rightarrow> EvidenceNotFound))))"

section \<open>Hashes from the ledger and the order\<close>

text \<open>
  The lineages of one stage.  The traversal of a lineage can fail to end only on rows that share an
  id, and the rows come from one query of the ledger (lemma \<open>stage_components_total\<close>).
\<close>

definition stage_components :: "transaction_attempt list \<Rightarrow> transaction_type \<Rightarrow> transaction_attempt list list" where
  "stage_components attempts ty =
     (case lineage_components (filter (\<lambda>a. at_tx_type a = ty) attempts) of None \<Rightarrow> [] | Some cs \<Rightarrow> cs)"

fun first_some :: "('a \<Rightarrow> 'b option) \<Rightarrow> 'a list \<Rightarrow> 'b option" where
  "first_some f [] = None"
| "first_some f (x # xs) = (case f x of Some y \<Rightarrow> Some y | None \<Rightarrow> first_some f xs)"

definition confirmed_recovery_attempt_hash :: "transaction_attempt list \<Rightarrow> transaction_type \<Rightarrow> bytes option" where
  "confirmed_recovery_attempt_hash attempts ty =
     first_some (\<lambda>members. Option.bind (find (\<lambda>a. at_status a = Confirmed) members) at_tx_hash)
       (stage_components attempts ty)"

text \<open>\<open>max_by_key\<close>: the last of the largest.\<close>

fun max_by_key :: "('a \<Rightarrow> 'k :: linorder) \<Rightarrow> 'a list \<Rightarrow> 'a option" where
  "max_by_key f [] = None"
| "max_by_key f (x # xs) =
     (case max_by_key f xs of None \<Rightarrow> Some x | Some y \<Rightarrow> if f x > f y then Some x else Some y)"

definition pending_tip :: "transaction_attempt list \<Rightarrow> (nat \<times> bytes) option" where
  "pending_tip members =
     (case lineage_tip members of
        None \<Rightarrow> None
      | Some tip \<Rightarrow>
          if at_status tip = Broadcast \<or> at_status tip = Indeterminate
          then map_option (\<lambda>h. (at_updated_at tip, h)) (at_tx_hash tip)
          else None)"

definition choose_recovery_attempt_hash :: "transaction_attempt list \<Rightarrow> transaction_type \<Rightarrow> bytes option" where
  "choose_recovery_attempt_hash attempts ty =
     (case confirmed_recovery_attempt_hash attempts ty of
        Some h \<Rightarrow> Some h
      | None \<Rightarrow> map_option snd (max_by_key fst (List.map_filter pending_tip (stage_components attempts ty))))"

definition order_stage_hash :: "order \<Rightarrow> transaction_type \<Rightarrow> bytes option" where
  "order_stage_hash ord ty =
     (case ty of
        Prepare \<Rightarrow> prepare_tx_hash ord | Fill \<Rightarrow> fill_tx_hash ord | PostFill \<Rightarrow> post_fill_tx_hash ord
      | PreClaim \<Rightarrow> pre_claim_tx_hash ord
      | Claim \<Rightarrow> (case claim_transaction_hashes ord of [] \<Rightarrow> None | h # _ \<Rightarrow> Some h)
      | _ \<Rightarrow> None)"

definition set_order_stage_hash :: "transaction_type \<Rightarrow> bytes \<Rightarrow> order \<Rightarrow> order" where
  "set_order_stage_hash ty h ord =
     (case ty of Prepare \<Rightarrow> ord\<lparr>prepare_tx_hash := Some h\<rparr> | Fill \<Rightarrow> set_fill_transaction_hash h ord
      | PostFill \<Rightarrow> ord\<lparr>post_fill_tx_hash := Some h\<rparr> | PreClaim \<Rightarrow> ord\<lparr>pre_claim_tx_hash := Some h\<rparr>
      | Claim \<Rightarrow> set_claim_transaction_hash h ord | _ \<Rightarrow> ord)"

definition push_unique_fill_candidate :: "bytes \<Rightarrow> nat \<Rightarrow> (bytes \<times> nat) list \<Rightarrow> (bytes \<times> nat) list" where
  "push_unique_fill_candidate h chain cs = (if \<not> list_ex (\<lambda>(c, _). c = h) cs then cs @ [(h, chain)] else cs)"

definition push_unique_claim_candidate :: "bytes \<Rightarrow> nat \<Rightarrow> (bytes \<times> nat) list \<Rightarrow> (bytes \<times> nat) list" where
  "push_unique_claim_candidate h chain cs = (if (h, chain) \<notin> set cs then cs @ [(h, chain)] else cs)"

definition push_unique_chain_id :: "nat \<Rightarrow> nat list \<Rightarrow> nat list" where
  "push_unique_chain_id chain cs = (if chain \<notin> set cs then cs @ [chain] else cs)"

text \<open>The attempts of a stage that may have reached the chain, with their hashes.\<close>

definition live_attempt_hashes :: "transaction_attempt list \<Rightarrow> transaction_type \<Rightarrow> (bytes \<times> nat) list" where
  "live_attempt_hashes attempts ty =
     List.map_filter (\<lambda>a. map_option (\<lambda>h. (h, at_chain_id a)) (at_tx_hash a))
       (filter (\<lambda>a. at_tx_type a = ty \<and> (at_status a = Confirmed \<or> at_status a = Broadcast \<or> at_status a = Indeterminate)) attempts)"

definition fill_recovery_candidates :: "order \<Rightarrow> transaction_attempt list \<Rightarrow> nat \<Rightarrow> bytes \<Rightarrow> (bytes \<times> nat) list" where
  "fill_recovery_candidates ord attempts chain initial =
     (let c1 = foldl (\<lambda>cs (h, c). push_unique_fill_candidate h c cs) [] (live_attempt_hashes attempts Fill);
          c2 = push_unique_fill_candidate initial chain c1
      in foldl (\<lambda>cs h. push_unique_fill_candidate h chain cs) c2 (fill_transaction_hashes ord))"

definition claim_recovery_candidates :: "order \<Rightarrow> transaction_attempt list \<Rightarrow> nat list \<Rightarrow> bytes \<Rightarrow> (bytes \<times> nat) list" where
  "claim_recovery_candidates ord attempts chain_ids initial =
     (let c1 = foldl (\<lambda>cs (h, c). push_unique_claim_candidate h c cs) [] (live_attempt_hashes attempts Claim);
          c2 = foldl (\<lambda>cs c. push_unique_claim_candidate initial c cs) c1 chain_ids
      in foldl (\<lambda>cs h. foldl (\<lambda>cs c. push_unique_claim_candidate h c cs) cs chain_ids) c2 (claim_transaction_hashes ord))"

definition claim_recovery_fallback_chain_ids :: "'s recovery_env \<Rightarrow> order \<Rightarrow> nat list" where
  "claim_recovery_fallback_chain_ids E ord =
     (let first_input = (case input_chains ord of [] \<Rightarrow> [] | c # _ \<Rightarrow> [csi_chain_id c])
      in if standard ord = HYPERLANE7683_STANDARD
         then (let from_order = (case rv_parse_hyperlane E (data ord) of
                     Inl _ \<Rightarrow> []
                   | Inr hy \<Rightarrow> foldl (\<lambda>cs i. case destination_domain i of Inl _ \<Rightarrow> cs | Inr c \<Rightarrow> push_unique_chain_id c cs)
                                 [] (hy_fill_instructions hy));
                   chain_ids = foldl (\<lambda>cs c. push_unique_chain_id (csi_chain_id c) cs) from_order (output_chains ord)
               in if chain_ids \<noteq> [] then chain_ids else first_input)
         else first_input)"

definition order_id_to_bytes32 :: "(string \<Rightarrow> (string, bytes) result) \<Rightarrow> string \<Rightarrow> (string, bytes) result" where
  "order_id_to_bytes32 hexd oid =
     (let align = (\<lambda>b :: bytes. replicate (32 - min (length b) 32) 0 @ take 32 b)
      in if starts_with ''0x'' oid
         then (case hexd (drop 2 oid) of
                 Inl e \<Rightarrow> Inl (''invalid hex order id '' @ [CHR 0x27] @ oid @ [CHR 0x27] @ '': '' @ e)
               | Inr b \<Rightarrow> Inr (align b))
         else Inr (align (map (\<lambda>c. word_of_nat (of_char c)) oid)))"

definition intent_from_order ::
  "parse_order_data \<Rightarrow> (string \<Rightarrow> (string, bytes) result) \<Rightarrow> nat \<Rightarrow> order \<Rightarrow> intent option" where
  "intent_from_order parse hexd now ord =
     (case parse (data ord) of
        Inl _ \<Rightarrow> None
      | Inr od \<Rightarrow>
          (case eod_raw_order_data od of
             None \<Rightarrow> None
           | Some raw \<Rightarrow>
               (case eod_lock_type od of
                  None \<Rightarrow> None
                | Some lt \<Rightarrow>
                    (case hexd (without_0x_prefix raw) of
                       Inl _ \<Rightarrow> None
                     | Inr b \<Rightarrow>
                         Some \<lparr>in_id = order_id ord, in_source = ''off-chain'', in_standard = standard ord,
                           in_metadata = \<lparr>im_requires_auction = False, im_exclusive_until = None, im_discovered_at = now\<rparr>,
                           in_data = data ord, in_order_bytes = b, in_quote_id = quote_id ord, in_lock_type = lock_type_str lt\<rparr>))))"

section \<open>Lemmas\<close>

lemma stage_components_total:
  assumes "distinct_ids attempts"
  shows "lineage_components (filter (\<lambda>a. at_tx_type a = ty) attempts) = Some (stage_components attempts ty)"
proof -
  let ?as = "filter (\<lambda>a. at_tx_type a = ty) attempts"
  have ids: "distinct_ids ?as" using assms by (simp add: distinct_map_filter)
  have "\<exists>cs. lineage_components ?as = Some cs"
    unfolding lineage_components_def
    by (rule exI, rule those_all) (use component_of_root [OF ids] in fastforce)
  then show ?thesis by (auto simp: stage_components_def)
qed

lemma first_some_Some: "first_some f xs = Some y \<Longrightarrow> \<exists>x \<in> set xs. f x = Some y"
  by (induction xs) (auto split: option.splits)

lemma max_by_key_mem: "max_by_key f xs = Some x \<Longrightarrow> x \<in> set xs"
  by (induction xs) (auto split: option.splits if_splits)

text \<open>The candidates for a stage hold every hash on record, each with a chain to ask.\<close>

lemma push_fill_fst [simp]: "fst ` set (push_unique_fill_candidate h c cs) = insert h (fst ` set cs)"
  by (force simp: push_unique_fill_candidate_def list_ex_iff)

lemma foldl_push_fill:
  "fst ` set (foldl (\<lambda>cs (h, c). push_unique_fill_candidate h c cs) cs xs) = fst ` set xs \<union> fst ` set cs"
proof (induction xs arbitrary: cs)
  case (Cons x xs)
  show ?case using Cons.IH [of "push_unique_fill_candidate (fst x) (snd x) cs"] by (simp add: case_prod_beta)
qed simp

lemma foldl_push_fill_at:
  "fst ` set (foldl (\<lambda>cs h. push_unique_fill_candidate h chain cs) cs xs) = set xs \<union> fst ` set cs"
proof (induction xs arbitrary: cs)
  case (Cons x xs)
  show ?case using Cons.IH [of "push_unique_fill_candidate x chain cs"] by simp
qed simp

lemma fill_recovery_candidates_cover:
  "fst ` set (fill_recovery_candidates ord attempts chain initial) =
     insert initial (set (fill_transaction_hashes ord)) \<union> fst ` set (live_attempt_hashes attempts Fill)"
  by (auto simp: fill_recovery_candidates_def Let_def foldl_push_fill foldl_push_fill_at)

lemma set_push_claim [simp]: "set (push_unique_claim_candidate h c cs) = insert (h, c) (set cs)"
  by (auto simp: push_unique_claim_candidate_def)

lemma foldl_push_claim:
  "set (foldl (\<lambda>cs (h, c). push_unique_claim_candidate h c cs) cs xs) = set xs \<union> set cs"
  by (induction xs arbitrary: cs) auto

lemma foldl_push_claim_chains:
  "set (foldl (\<lambda>cs c. push_unique_claim_candidate h c cs) cs xs) = {h} \<times> set xs \<union> set cs"
  by (induction xs arbitrary: cs) auto

lemma foldl_push_claim_hashes:
  "set (foldl (\<lambda>cs h. foldl (\<lambda>cs c. push_unique_claim_candidate h c cs) cs ids) cs xs) = set xs \<times> set ids \<union> set cs"
  by (induction xs arbitrary: cs) (auto simp: foldl_push_claim_chains)

lemma claim_recovery_candidates_cover:
  "set (claim_recovery_candidates ord attempts ids initial) =
     insert initial (set (claim_transaction_hashes ord)) \<times> set ids \<union> set (live_attempt_hashes attempts Claim)"
  by (auto simp: claim_recovery_candidates_def Let_def foldl_push_claim foldl_push_claim_chains foldl_push_claim_hashes)

end
