(* ===== verification/Recovery.thy ===== *)
theory Recovery
  imports Recovery_Evidence
begin

text \<open>
  \<^verbatim>\<open>crates/solver-core/src/recovery/mod.rs\<close>: after a restart every open order is compared with the
  chain, from the claim back to the prepare transaction; hashes are repaired, the ledger is
  corrected, the status is moved to what the chain shows and the event that resumes the order is
  published.  The order a function changes in place is passed in and returned.
\<close>

section \<open>Repairs\<close>

definition attempts_for_recovery :: "('s, 'b) machine \<Rightarrow> string \<Rightarrow> ('s, 'x, transaction_attempt list) handler" where
  "attempts_for_recovery M oid w =
     (case order_attempts M oid w of (Inr as, w1) \<Rightarrow> ([], Inr as, w1) | (Inl _, w1) \<Rightarrow> ([], Inr [], w1))"

definition write_repaired_hash ::
  "('s, 'b) machine \<Rightarrow> transaction_type \<Rightarrow> bytes \<Rightarrow> order \<Rightarrow> ('s, 'x, order) handler" where
  "write_repaired_hash M ty h ord =
     and_then (ignore (update_order M (order_id ord) (set_order_stage_hash ty h))) (\<lambda>_. ok (set_order_stage_hash ty h ord))"

definition mark_recovered_attempt_confirmed ::
  "('s, 'b) machine \<Rightarrow> string \<Rightarrow> transaction_type \<Rightarrow> bytes \<Rightarrow> transaction_receipt \<Rightarrow> ('s, 'x, unit) handler" where
  "mark_recovered_attempt_confirmed M oid ty h rcpt w =
     (case attempt_by_hash (mc_backend M) (mc_attempts M) (mc_hex M) (mc_sched M) h w of
        (Inr (Some a), w1) \<Rightarrow>
          if scope_order_id (at_scope a) = Some oid \<and> at_tx_type a = ty
          then (case mark_attempt_confirmed_from_receipt (mc_backend M) (mc_attempts M) (mc_hex M) (mc_sched M) (at_id a) h rcpt w1 of
                  (Inl e, w2) \<Rightarrow>
                    ([DeliveryEv (TransactionAttemptLedgerConflict oid (at_id a) ty (Some h) Confirmed (attempt_error_text e)
                       ''recovery mark confirmed'')], Inr (), w2)
                | (Inr _, w2) \<Rightarrow> ([], Inr (), w2))
          else ([], Inr (), w1)
      | (_, w1) \<Rightarrow> ([], Inr (), w1))"

definition evidence_to_resolution ::
  "('s, 'b) machine \<Rightarrow> transaction_type \<Rightarrow> chain_evidence \<Rightarrow> order \<Rightarrow> ('s, 'x, stage_resolution \<times> order) handler" where
  "evidence_to_resolution M ty ev ord =
     (case ev of
        Proven h _ \<Rightarrow> and_then (write_repaired_hash M ty h ord) (\<lambda>ord1. ok (StageHash h, ord1))
      | NegativeTerminal _ \<Rightarrow> ok (StageTerminated, ord)
      | EvidenceNotFound \<Rightarrow> ok (StageNotFound, ord)
      | EvidenceUnknown _ \<Rightarrow> ok (StageUnknown, ord))"

text \<open>The settlers are asked in turn until one answers anything but not found.\<close>

fun first_evidence :: "('a \<Rightarrow> chain_evidence) \<Rightarrow> 'a list \<Rightarrow> chain_evidence" where
  "first_evidence f [] = EvidenceNotFound"
| "first_evidence f (x # xs) = (case f x of EvidenceNotFound \<Rightarrow> first_evidence f xs | ev \<Rightarrow> ev)"

definition input_settlers :: "settler_addresses \<Rightarrow> bytes list" where
  "input_settlers nw = sa_input_settler nw # (case sa_input_settler_compact nw of None \<Rightarrow> [] | Some a \<Rightarrow> [a])"

text \<open>What the three probes share: the chain, its settlers and the order id in 32 bytes.\<close>

definition probe_stage ::
  "('s, 'b) machine \<Rightarrow> 's recovery_env \<Rightarrow> transaction_type \<Rightarrow> chain_settler_info list
   \<Rightarrow> (nat \<Rightarrow> settler_addresses \<Rightarrow> bytes \<Rightarrow> chain_evidence) \<Rightarrow> order \<Rightarrow> ('s, 'x, stage_resolution \<times> order) handler" where
  "probe_stage M E ty cs evidence ord =
     (case cs of
        [] \<Rightarrow> ok (StageUnknown, ord)
      | c # _ \<Rightarrow>
          (case rv_networks E (csi_chain_id c) of
             None \<Rightarrow> ok (StageNotFound, ord)
           | Some nw \<Rightarrow>
               (case order_id_to_bytes32 (rv_hex_decode E) (order_id ord) of
                  Inl _ \<Rightarrow> ok (StageUnknown, ord)
                | Inr oid \<Rightarrow> evidence_to_resolution M ty (evidence (csi_chain_id c) nw oid) ord)))"

definition fill_chain_evidence ::
  "('s, 'b) machine \<Rightarrow> 's recovery_env \<Rightarrow> order \<Rightarrow> ('s, 'x, stage_resolution \<times> order) handler" where
  "fill_chain_evidence M E ord =
     probe_stage M E Fill (output_chains ord)
       (\<lambda>chain nw oid. chain_evidence_for_fill E chain (sa_output_settler nw) oid DEFAULT_RECOVERY_SCAN_WINDOW_BLOCKS) ord"

definition prepare_chain_evidence ::
  "('s, 'b) machine \<Rightarrow> 's recovery_env \<Rightarrow> order \<Rightarrow> ('s, 'x, stage_resolution \<times> order) handler" where
  "prepare_chain_evidence M E ord =
     probe_stage M E Prepare (input_chains ord)
       (\<lambda>chain nw oid. first_evidence (\<lambda>settler. chain_evidence_for_prepare_open E chain settler oid
          DEFAULT_RECOVERY_SCAN_WINDOW_BLOCKS) (input_settlers nw)) ord"

definition claim_chain_evidence ::
  "('s, 'b) machine \<Rightarrow> 's recovery_env \<Rightarrow> transaction_attempt list \<Rightarrow> order \<Rightarrow> ('s, 'x, stage_resolution \<times> order) handler" where
  "claim_chain_evidence M E attempts ord =
     (let anchor = (case prepare_tx_hash ord of Some h \<Rightarrow> Some h | None \<Rightarrow> choose_recovery_attempt_hash attempts Prepare)
      in probe_stage M E Claim (input_chains ord)
           (\<lambda>chain nw oid. first_evidence (\<lambda>settler. chain_evidence_for_claim E chain settler oid anchor
              DEFAULT_RECOVERY_SCAN_WINDOW_BLOCKS) (input_settlers nw)) ord)"

definition resolve_stage ::
  "('s, 'b) machine \<Rightarrow> 's recovery_env \<Rightarrow> transaction_attempt list \<Rightarrow> transaction_type \<Rightarrow> order
   \<Rightarrow> ('s, 'x, stage_resolution \<times> order) handler" where
  "resolve_stage M E attempts ty ord =
     (case confirmed_recovery_attempt_hash attempts ty of
        Some h \<Rightarrow>
          if order_stage_hash ord ty \<noteq> Some h
          then and_then (write_repaired_hash M ty h ord) (\<lambda>ord1. ok (StageHash h, ord1))
          else ok (StageHash h, ord)
      | None \<Rightarrow>
          (case order_stage_hash ord ty of
             Some h \<Rightarrow> ok (StageHash h, ord)
           | None \<Rightarrow>
               (case choose_recovery_attempt_hash attempts ty of
                  Some h \<Rightarrow> and_then (write_repaired_hash M ty h ord) (\<lambda>ord1. ok (StageHash h, ord1))
                | None \<Rightarrow>
                    (case ty of
                       Prepare \<Rightarrow> prepare_chain_evidence M E ord
                     | Fill \<Rightarrow> fill_chain_evidence M E ord
                     | Claim \<Rightarrow> claim_chain_evidence M E attempts ord
                     | _ \<Rightarrow> ok (StageNotFound, ord)))))"

section \<open>Claims of Hyperlane orders\<close>

definition ensure_hyperlane7683_recovery_fill_proof ::
  "('s, 'b) machine \<Rightarrow> bytes \<Rightarrow> order \<Rightarrow> ('s, 'x, fill_proof option \<times> order) handler" where
  "ensure_hyperlane7683_recovery_fill_proof M hyper_id ord w =
     (case order_fill_proof ord of
        Some p \<Rightarrow> ([], Inr (Some p, ord), w)
      | None \<Rightarrow>
          (let h = (case fill_transaction_hashes ord of [] \<Rightarrow> hyper_id | h # _ \<Rightarrow> h);
               p = synthetic_fill_proof h (current_timestamp (w_unix (mc_sched M) w))
           in (case put_fill_proof M (order_id ord) p w of
                 (Inr updated, w1) \<Rightarrow> ([], Inr (Some p, ord\<lparr>order_fill_proof := order_fill_proof updated\<rparr>), w1)
               | (Inl _, w1) \<Rightarrow> ([], Inr (None, ord), w1))))"

fun destination_signal ::
  "('s, 'b) machine \<Rightarrow> 's recovery_env \<Rightarrow> bytes \<Rightarrow> hyperlane_instruction list \<Rightarrow> order \<Rightarrow> ('s, 'x, hyperlane_signal \<times> order) handler" where
  "destination_signal M E hyper_id [] ord = ok (NoSignal, ord)"
| "destination_signal M E hyper_id (i # is) ord =
     (case destination_domain i of
        Inl _ \<Rightarrow> ok (SignalUnknown, ord)
      | Inr chain \<Rightarrow>
          (case rv_hyperlane_status E chain (hi_destination_settler i) hyper_id of
             Inl _ \<Rightarrow> ok (SignalUnknown, ord)
           | Inr HFilled \<Rightarrow>
               and_then (ensure_hyperlane7683_recovery_fill_proof M hyper_id ord)
                 (\<lambda>(p, ord1). ok (case p of Some q \<Rightarrow> SignalNeedsClaim q | None \<Rightarrow> SignalUnknown, ord1))
           | Inr _ \<Rightarrow> destination_signal M E hyper_id is ord))"

definition hyperlane7683_claim_recovery_signal ::
  "('s, 'b) machine \<Rightarrow> 's recovery_env \<Rightarrow> order \<Rightarrow> ('s, 'x, hyperlane_signal \<times> order) handler" where
  "hyperlane7683_claim_recovery_signal M E ord =
     (if standard ord \<noteq> HYPERLANE7683_STANDARD then ok (NoSignal, ord)
      else if \<not> (status ord = Settled \<or> status ord = PreClaimed) then ok (NoSignal, ord)
      else if claim_transaction_hashes ord \<noteq> [] then ok (NoSignal, ord)
      else (case rv_parse_hyperlane E (data ord) of
              Inl _ \<Rightarrow> ok (SignalUnknown, ord)
            | Inr hy \<Rightarrow>
                (case input_chains ord of
                   [] \<Rightarrow> ok (SignalUnknown, ord)
                 | c # _ \<Rightarrow>
                     (case rv_networks E (csi_chain_id c) of
                        None \<Rightarrow> ok (SignalUnknown, ord)
                      | Some nw \<Rightarrow>
                          (case rv_hyperlane_status E (csi_chain_id c) (sa_input_settler nw) (hy_order_id hy) of
                             Inl _ \<Rightarrow> ok (SignalUnknown, ord)
                           | Inr st \<Rightarrow>
                               if st = HSettled then ok (SignalFinalized, ord)
                               else destination_signal M E (hy_order_id hy) (hy_fill_instructions hy) ord)))))"

fun hyperlane7683_signal_to_result :: "hyperlane_signal \<Rightarrow> reconcile_result option" where
  "hyperlane7683_signal_to_result SignalFinalized = Some ReFinalized"
| "hyperlane7683_signal_to_result (SignalNeedsClaim p) = Some (NeedsClaim (Some p))"
| "hyperlane7683_signal_to_result SignalUnknown = Some ReUnknown"
| "hyperlane7683_signal_to_result NoSignal = None"

section \<open>Confirmed reverts\<close>

definition stage_complete_recovery ::
  "('s, 'b) machine \<Rightarrow> 's recovery_env \<Rightarrow> transaction_attempt list \<Rightarrow> transaction_type \<Rightarrow> order
   \<Rightarrow> ('s, 'x, reconcile_result \<times> order) handler" where
  "stage_complete_recovery M E attempts ty ord =
     (let answer = (\<lambda>proven gone open (res, ord1). ok
            (case res of StageHash _ \<Rightarrow> proven | StageTerminated \<Rightarrow> gone | StageNotFound \<Rightarrow> open | StageUnknown \<Rightarrow> open, ord1))
      in (case ty of
            Claim \<Rightarrow> and_then (claim_chain_evidence M E attempts ord) (answer ReFinalized (ReFailed Claim) ReUnknown)
          | PreClaim \<Rightarrow> and_then (claim_chain_evidence M E attempts ord) (answer ReFinalized (ReFailed Claim) (ReFailed PreClaim))
          | Prepare \<Rightarrow> and_then (prepare_chain_evidence M E ord) (answer NeedsFill (ReFailed Prepare) ReUnknown)
          | Fill \<Rightarrow> ok (ReFailed Fill, ord)
          | PostFill \<Rightarrow> ok (ReFailed PostFill, ord)
          | _ \<Rightarrow> ok (ReUnknown, ord)))"

definition handle_confirmed_revert ::
  "('s, 'b) machine \<Rightarrow> 's recovery_env \<Rightarrow> transaction_attempt list \<Rightarrow> transaction_type \<Rightarrow> bytes \<Rightarrow> nat \<Rightarrow> nat \<Rightarrow> order
   \<Rightarrow> ('s, 'x, reconcile_result \<times> order) handler" where
  "handle_confirmed_revert M E attempts ty h chain block ord w =
     (case attempt_by_hash (mc_backend M) (mc_attempts M) (mc_hex M) (mc_sched M) h w of
        (Inr None, w1) \<Rightarrow> ([], Inr (ReFailed ty, ord), w1)
      | (Inl _, w1) \<Rightarrow> ([], Inr (ReUnknown, ord), w1)
      | (Inr (Some a), w1) \<Rightarrow>
          (case as_evm (at_tx a) of
             None \<Rightarrow> ([], Inr (ReUnknown, ord), w1)
           | Some tx \<Rightarrow>
               (case rv_revert_data E chain tx (at_signer a) block of
                  Inr None \<Rightarrow> ([], Inr (ReFailed ty, ord), w1)
                | Inl _ \<Rightarrow> ([], Inr (ReUnknown, ord), w1)
                | Inr (Some d) \<Rightarrow>
                    (case classify_revert (rv_selector E) (mc_hex M) d of
                       StageComplete _ \<Rightarrow> stage_complete_recovery M E attempts ty ord w1
                     | _ \<Rightarrow> ([], Inr (ReFailed ty, ord), w1)))))"

definition replay_confirmed_settlement_callback_if_needed ::
  "'s recovery_env \<Rightarrow> order \<Rightarrow> transaction_type \<Rightarrow> transaction_receipt \<Rightarrow> 's world \<Rightarrow> 's world" where
  "replay_confirmed_settlement_callback_if_needed E ord ty rcpt w =
     (let replay = (\<lambda>w. case find_settlement_for_order (rv_service E) ord of
                     Inl _ \<Rightarrow> w
                   | Inr impl \<Rightarrow> snd (si_transaction_confirmed impl ord ty rcpt w))
      in (case ty of
            PostFill \<Rightarrow>
              (case recover_post_fill_state (rv_service E) ord w of
                 (Inr True, w1) \<Rightarrow> w1
               | (Inr False, w1) \<Rightarrow> replay w1
               | (Inl _, w1) \<Rightarrow> w1)
          | PreClaim \<Rightarrow> replay w
          | _ \<Rightarrow> w))"

section \<open>Comparing an order with the chain\<close>

definition stage_hashes :: "transaction_type \<Rightarrow> order \<Rightarrow> bytes list" where
  "stage_hashes ty ord = (if ty = Fill then fill_transaction_hashes ord else claim_transaction_hashes ord)"

text \<open>
  The receipts of the candidates of a stage with several transactions: a successful one is recorded,
  a reverted one ends the loop with its own answer, an unreadable one is skipped.
\<close>

fun confirm_candidates ::
  "('s, 'b) machine \<Rightarrow> 's recovery_env \<Rightarrow> transaction_attempt list \<Rightarrow> transaction_type \<Rightarrow> (bytes \<times> nat) list \<Rightarrow> bytes list \<Rightarrow> order
   \<Rightarrow> ('s, 'x, reconcile_result option \<times> bytes list \<times> order) handler" where
  "confirm_candidates M E attempts ty [] confirmed ord = ok (None, confirmed, ord)"
| "confirm_candidates M E attempts ty ((h, chain) # cs) confirmed ord =
     (case rv_receipt E h chain of
        Inl _ \<Rightarrow> confirm_candidates M E attempts ty cs confirmed ord
      | Inr rcpt \<Rightarrow>
          if rcpt_success rcpt
          then and_then (if h \<notin> set (stage_hashes ty ord) then write_repaired_hash M ty h ord else ok ord) (\<lambda>ord1.
               and_then (mark_recovered_attempt_confirmed M (order_id ord1) ty h rcpt) (\<lambda>_.
               confirm_candidates M E attempts ty cs (if h \<notin> set confirmed then confirmed @ [h] else confirmed) ord1))
          else and_then (handle_confirmed_revert M E attempts ty h chain (rcpt_block_number rcpt) ord)
                 (\<lambda>(res, ord1). ok (Some res, confirmed, ord1)))"

definition full_set :: "bytes list \<Rightarrow> nat \<Rightarrow> bytes list \<Rightarrow> bool" where
  "full_set expected count confirmed \<longleftrightarrow> length confirmed \<ge> count \<and> list_all (\<lambda>h. h \<in> set confirmed) expected"

definition with_hash :: "bytes \<Rightarrow> bytes list \<Rightarrow> bytes list" where
  "with_hash h hs = (if h \<notin> set hs then hs @ [h] else hs)"

text \<open>The check of one stage; \<open>None\<close> means that the next stage is looked at.\<close>

type_synonym ('s, 'b) stage_check =
  "('s, 'b) machine \<Rightarrow> 's recovery_env \<Rightarrow> transaction_attempt list \<Rightarrow> order \<Rightarrow> ('s, recovery_error, reconcile_result option \<times> order) handler"

definition claim_signal ::
  "('s, 'b) machine \<Rightarrow> 's recovery_env \<Rightarrow> reconcile_result option \<Rightarrow> order \<Rightarrow> ('s, recovery_error, reconcile_result option \<times> order) handler" where
  "claim_signal M E otherwise ord =
     and_then (hyperlane7683_claim_recovery_signal M E ord)
       (\<lambda>(sig, ord1). ok (case hyperlane7683_signal_to_result sig of Some r \<Rightarrow> Some r | None \<Rightarrow> otherwise, ord1))"

definition check_claim :: "('s, 'b) stage_check" where
  "check_claim M E attempts ord =
     and_then (resolve_stage M E attempts Claim ord) (\<lambda>(res, ord1).
       case res of
         StageTerminated \<Rightarrow> ok (Some (ReFailed Claim), ord1)
       | StageUnknown \<Rightarrow> claim_signal M E (Some ReUnknown) ord1
       | StageNotFound \<Rightarrow> claim_signal M E None ord1
       | StageHash h \<Rightarrow>
           (let ids = claim_recovery_fallback_chain_ids E ord1
            in if ids = [] then err (ReStorage ''No claim recovery fallback chains in order'')
               else let expected = with_hash h (claim_transaction_hashes ord1);
                        count = max (max (expected_claim_transaction_count ord1) (length expected)) 1
                    in and_then (confirm_candidates M E attempts Claim (claim_recovery_candidates ord1 attempts ids h) [] ord1)
                         (\<lambda>(r, confirmed, ord2).
                            case r of
                              Some q \<Rightarrow> ok (Some q, ord2)
                            | None \<Rightarrow>
                                if confirmed \<noteq> [] \<and> full_set expected count confirmed then ok (Some ReFinalized, ord2)
                                else ok (Some ReUnknown, ord2))))"

text \<open>The stages with one transaction: \<open>done_step\<close> says what a confirmed one means.\<close>

definition check_single ::
  "transaction_type \<Rightarrow> string \<Rightarrow> (order \<Rightarrow> chain_settler_info list)
   \<Rightarrow> ('s recovery_env \<Rightarrow> transaction_receipt \<Rightarrow> order \<Rightarrow> ('s, recovery_error, reconcile_result) handler) \<Rightarrow> ('s, 'b) stage_check" where
  "check_single ty missing chains_of done_step M E attempts ord =
     and_then (resolve_stage M E attempts ty ord) (\<lambda>(res, ord1).
       case res of
         StageTerminated \<Rightarrow> ok (Some (ReFailed Claim), ord1)
       | StageUnknown \<Rightarrow> ok (Some ReUnknown, ord1)
       | StageNotFound \<Rightarrow> ok (None, ord1)
       | StageHash h \<Rightarrow>
           (case chains_of ord1 of
              [] \<Rightarrow> err (ReStorage missing)
            | c # _ \<Rightarrow>
                (case rv_receipt E h (csi_chain_id c) of
                   Inl _ \<Rightarrow> ok (Some ReUnknown, ord1)
                 | Inr rcpt \<Rightarrow>
                     if rcpt_success rcpt
                     then and_then (mark_recovered_attempt_confirmed M (order_id ord1) ty h rcpt) (\<lambda>_.
                          and_then (done_step E rcpt ord1) (\<lambda>r. ok (Some r, ord1)))
                     else and_then (handle_confirmed_revert M E attempts ty h (csi_chain_id c) (rcpt_block_number rcpt) ord1)
                            (\<lambda>(q, ord2). ok (Some q, ord2)))))"

definition check_pre_claim :: "('s, 'b) stage_check" where
  "check_pre_claim =
     check_single PreClaim ''No input chains in order'' input_chains (\<lambda>E rcpt ord.
       and_then (ignore (\<lambda>w. ((), replay_confirmed_settlement_callback_if_needed E ord PreClaim rcpt w))) (\<lambda>_.
       ok (NeedsClaim (order_fill_proof ord))))"

definition check_post_fill :: "('s, 'b) stage_check" where
  "check_post_fill =
     check_single PostFill ''No output chains in order'' output_chains (\<lambda>E rcpt ord.
       and_then (ignore (\<lambda>w. ((), replay_confirmed_settlement_callback_if_needed E ord PostFill rcpt w))) (\<lambda>_.
       ok (if order_fill_proof ord \<noteq> None then NeedsPreClaim (order_fill_proof ord) else NeedsMonitoring)))"

definition check_prepare :: "('s, 'b) stage_check" where
  "check_prepare =
     check_single Prepare ''No input chains in order'' input_chains (\<lambda>E rcpt ord. ok NeedsFill)"

definition check_fill :: "('s, 'b) stage_check" where
  "check_fill M E attempts ord =
     and_then (resolve_stage M E attempts Fill ord) (\<lambda>(res, ord1).
       case res of
         StageTerminated \<Rightarrow> ok (Some (ReFailed Claim), ord1)
       | StageUnknown \<Rightarrow> ok (Some ReUnknown, ord1)
       | StageNotFound \<Rightarrow> ok (None, ord1)
       | StageHash h \<Rightarrow>
           (case output_chains ord1 of
              [] \<Rightarrow> err (ReStorage ''No output chains in order'')
            | c # _ \<Rightarrow>
                (let expected = with_hash h (fill_transaction_hashes ord1);
                     count = max (max (expected_fill_transaction_count ord1) (length expected)) 1
                 in and_then (confirm_candidates M E attempts Fill (fill_recovery_candidates ord1 attempts (csi_chain_id c) h) [] ord1)
                      (\<lambda>(r, confirmed, ord2).
                         case r of
                           Some q \<Rightarrow> ok (Some q, ord2)
                         | None \<Rightarrow>
                             if confirmed = [] \<or> \<not> full_set expected count confirmed then ok (Some ReUnknown, ord2)
                             else if order_fill_proof ord2 \<noteq> None then ok (Some (NeedsPreClaim (order_fill_proof ord2)), ord2)
                             else if count > 1 \<or> length (fill_transaction_hashes ord2) > 1 then ok (Some NeedsPostFill, ord2)
                             else and_then (call (\<lambda>e. ReSettlement (settlement_error_text e))
                                      (recover_post_fill_state (rv_service E) ord2)) (\<lambda>recovered.
                                    ok (Some (if recovered then NeedsMonitoring else NeedsPostFill), ord2))))))"

fun check_stages :: "('s, 'b) stage_check list \<Rightarrow> ('s, 'b) stage_check" where
  "check_stages [] M E attempts ord = ok (None, ord)"
| "check_stages (c # cs) M E attempts ord =
     and_then (c M E attempts ord) (\<lambda>(r, ord1).
       case r of Some q \<Rightarrow> ok (Some q, ord1) | None \<Rightarrow> check_stages cs M E attempts ord1)"

definition reconcile_with_blockchain ::
  "('s, 'b) machine \<Rightarrow> 's recovery_env \<Rightarrow> order \<Rightarrow> ('s, recovery_error, order \<times> reconcile_result) handler" where
  "reconcile_with_blockchain M E ord =
     and_then (attempts_for_recovery M (order_id ord)) (\<lambda>attempts.
     and_then (check_stages [check_claim, check_pre_claim, check_post_fill, check_fill, check_prepare] M E attempts ord)
       (\<lambda>(r, ord1).
          case r of
            Some q \<Rightarrow> ok (ord1, q)
          | None \<Rightarrow> ok (ord1, if order_requires_preparation M ord1 \<and> prepare_tx_hash ord1 = None then NeedsPrepare else NeedsExecution)))"

section \<open>Resuming an order\<close>

definition target_status :: "('s, 'b) machine \<Rightarrow> order \<Rightarrow> reconcile_result \<Rightarrow> order_status" where
  "target_status M ord res =
     (case res of
        NeedsPrepare \<Rightarrow> status ord
      | NeedsExecution \<Rightarrow>
          if \<not> order_requires_preparation M ord \<and> order_execution_params ord \<noteq> None then Executing else status ord
      | NeedsFill \<Rightarrow> Executing
      | NeedsPostFill \<Rightarrow> Executed
      | NeedsMonitoring \<Rightarrow> if post_fill_tx_hash ord \<noteq> None then PostFilled else Executed
      | NeedsPreClaim _ \<Rightarrow> Settled
      | NeedsClaim _ \<Rightarrow> if pre_claim_tx_hash ord \<noteq> None then PreClaimed else Settled
      | ReFinalized \<Rightarrow> Finalized
      | ReFailed ty \<Rightarrow> Failed ty ''Blockchain reconciliation failed''
      | ReUnknown \<Rightarrow> status ord)"

definition ensure_correct_state :: "('s, 'b) machine \<Rightarrow> order \<Rightarrow> reconcile_result \<Rightarrow> 's world \<Rightarrow> order \<times> 's world" where
  "ensure_correct_state M ord res w =
     (let target = target_status M ord res
      in if status ord \<noteq> target
         then (case force_transition M (order_id ord) target w of (Inr updated, w1) \<Rightarrow> (updated, w1) | (Inl _, w1) \<Rightarrow> (ord, w1))
         else (ord, w))"

fun transition_through_states ::
  "('s, 'b) machine \<Rightarrow> string \<Rightarrow> order_status list \<Rightarrow> 's world \<Rightarrow> (recovery_error, unit) result \<times> 's world" where
  "transition_through_states M oid [] w = (Inr (), w)"
| "transition_through_states M oid (st # sts) w =
     (case force_transition M oid st w of
        (Inl e, w1) \<Rightarrow> (Inl (ReStateMachine (''Failed to transition order '' @ oid @ '' to '' @ mc_show_status M st @ '': '' @
            order_error_text M e)), w1)
      | (Inr _, w1) \<Rightarrow> transition_through_states M oid sts w1)"

definition start_monitoring :: "order \<Rightarrow> solver_event list" where
  "start_monitoring ord =
     (case fill_tx_hash ord of Some h \<Rightarrow> [SettlementEv (StartMonitoring (order_id ord) h)] | None \<Rightarrow> [])"

text \<open>A settled order with its proof: the readiness decides; a permanent failure fails the order.\<close>

definition resume_settled ::
  "('s, 'b) machine \<Rightarrow> 's recovery_env \<Rightarrow> transaction_type \<Rightarrow> solver_event \<Rightarrow> fill_proof option \<Rightarrow> order \<Rightarrow> 's world
   \<Rightarrow> solver_event list \<times> 's world" where
  "resume_settled M E ty ready_event proof_opt ord w =
     (if standard ord = HYPERLANE7683_STANDARD \<and> proof_opt \<noteq> None then ([SettlementEv (ClaimReady (order_id ord))], w)
      else (case proof_opt of
              None \<Rightarrow> (start_monitoring ord, w)
            | Some p \<Rightarrow>
                (case readiness (rv_service E) ord p w of
                   (Ready, w1) \<Rightarrow> ([ready_event], w1)
                 | (PermanentFailure m, w1) \<Rightarrow> ([], snd (force_transition M (order_id ord) (Failed ty m) w1))
                 | (_, w1) \<Rightarrow> (start_monitoring ord, w1))))"

definition resume_finalized :: "('s, 'b) machine \<Rightarrow> order \<Rightarrow> 's world \<Rightarrow> 's world" where
  "resume_finalized M ord w =
     (case status ord of
        Finalized \<Rightarrow> w
      | Failed _ _ \<Rightarrow> w
      | Settled \<Rightarrow> snd (force_transition M (order_id ord) Finalized w)
      | Executed \<Rightarrow> snd (transition_through_states M (order_id ord) [Settled, Finalized] w)
      | PostFilled \<Rightarrow> snd (transition_through_states M (order_id ord) [Settled, Finalized] w)
      | PreClaimed \<Rightarrow> snd (transition_through_states M (order_id ord) [Settled, Finalized] w)
      | _ \<Rightarrow> snd (transition_through_states M (order_id ord) [Executed, Settled, Finalized] w))"

definition publish_recovery_event ::
  "('s, 'b) machine \<Rightarrow> 's recovery_env \<Rightarrow> order \<Rightarrow> reconcile_result \<Rightarrow> 's world \<Rightarrow> solver_event list \<times> 's world" where
  "publish_recovery_event M E ord0 res w0 =
     (let (ord, w) = ensure_correct_state M ord0 res w0
      in (case res of
            NeedsPrepare \<Rightarrow>
              (case order_execution_params ord of
                 None \<Rightarrow> ([OrderEv (OrderDeferred (order_id ord) 0)], w)
               | Some params \<Rightarrow>
                   (case intent_from_order (mc_parse M) (rv_hex_decode E) (current_timestamp (w_unix (mc_sched M) w)) ord of
                      None \<Rightarrow> ([], w)
                    | Some intent_data \<Rightarrow> ([OrderEv (OrderPreparing intent_data ord params)], w)))
          | NeedsExecution \<Rightarrow>
              (case order_execution_params ord of
                 Some params \<Rightarrow> ([OrderEv (OrderExecuting ord params)], w)
               | None \<Rightarrow> ([OrderEv (OrderDeferred (order_id ord) 0)], w))
          | NeedsFill \<Rightarrow>
              (case order_execution_params ord of
                 Some params \<Rightarrow> ([OrderEv (OrderExecuting ord params)], w)
               | None \<Rightarrow> ([], w))
          | NeedsPostFill \<Rightarrow> ([SettlementEv (PostFillReady (order_id ord))], w)
          | NeedsMonitoring \<Rightarrow> (start_monitoring ord, w)
          | NeedsPreClaim p \<Rightarrow> resume_settled M E PreClaim (SettlementEv (PreClaimReady (order_id ord))) p ord w
          | NeedsClaim p \<Rightarrow> resume_settled M E Claim (SettlementEv (ClaimReady (order_id ord))) p ord w
          | ReFailed ty \<Rightarrow>
              ([], snd (force_transition M (order_id ord) (Failed ty ''Blockchain reconciliation failed'') w))
          | ReUnknown \<Rightarrow> ([], w)
          | ReFinalized \<Rightarrow> ([], resume_finalized M ord w)))"

section \<open>The whole recovery\<close>

record recovery_report =
  rr_total_orders :: nat
  rr_orphaned_intents :: nat
  rr_reconciled_orders :: nat

definition load_active_orders :: "('s, 'b) machine \<Rightarrow> ('s, recovery_error, order list) handler" where
  "load_active_orders M =
     and_then (call (\<lambda>e. ReStorage (storage_error_text e))
       (svc_query (mc_backend M) (mc_orders M) (mc_sched M) (storage_key_str Orders) (Equals ''is_terminal'' (JBool False))))
       (\<lambda>rows. ok (map snd rows))"

fun sort_out_intents ::
  "('s, 'b) machine \<Rightarrow> (string \<times> intent) list \<Rightarrow> intent list \<Rightarrow> ('s, recovery_error, intent list) handler" where
  "sort_out_intents M [] orphaned = ok orphaned"
| "sort_out_intents M ((ident, i) # is) orphaned =
     and_then (call (\<lambda>e. ReStorage (storage_error_text e)) (svc_exists (mc_backend M) (mc_sched M) (storage_key_str Orders) ident))
       (\<lambda>found.
          if \<not> found then sort_out_intents M is (orphaned @ [i])
          else and_then (ignore (svc_remove (mc_backend M) (mc_sched M) (storage_key_str Intents) ident))
                 (\<lambda>_. sort_out_intents M is orphaned))"

definition recover_orphaned_intents :: "('s, 'b) machine \<Rightarrow> (intent, 'b) codec \<Rightarrow> ('s, recovery_error, intent list) handler" where
  "recover_orphaned_intents M ic =
     and_then (call (\<lambda>e. ReStorage (storage_error_text e)) (svc_retrieve_all (mc_backend M) ic (mc_sched M) (storage_key_str Intents)))
       (\<lambda>rows. sort_out_intents M rows [])"

definition is_failed_status :: "order_status \<Rightarrow> bool" where
  "is_failed_status st = (case st of Failed _ _ \<Rightarrow> True | _ \<Rightarrow> False)"

text \<open>One order: an order that cannot be reconciled is skipped; the count of reconciled orders is returned.\<close>

definition recover_order ::
  "('s, 'b) machine \<Rightarrow> 's recovery_env \<Rightarrow> order \<Rightarrow> nat \<Rightarrow> ('s, recovery_error, nat) handler" where
  "recover_order M E ord n w =
     (if is_failed_status (status ord) then ([], Inr (Suc n), w)
      else (case reconcile_with_blockchain M E ord w of
              (evs, Inr (ord1, res), w1) \<Rightarrow>
                (case publish_recovery_event M E ord1 res w1 of (evs', w2) \<Rightarrow> (evs @ evs', Inr (Suc n), w2))
            | (evs, Inl _, w1) \<Rightarrow> (evs, Inr n, w1)))"

fun recover_orders ::
  "('s, 'b) machine \<Rightarrow> 's recovery_env \<Rightarrow> order list \<Rightarrow> nat \<Rightarrow> ('s, recovery_error, nat) handler" where
  "recover_orders M E [] n = ok n"
| "recover_orders M E (ord # ords) n = and_then (recover_order M E ord n) (\<lambda>n1. recover_orders M E ords n1)"

definition recover_state ::
  "('s, 'b) machine \<Rightarrow> (intent, 'b) codec \<Rightarrow> 's recovery_env \<Rightarrow> ('s, recovery_error, recovery_report \<times> intent list) handler" where
  "recover_state M ic E =
     and_then (load_active_orders M) (\<lambda>ords.
       if ords = [] then ok (\<lparr>rr_total_orders = 0, rr_orphaned_intents = 0, rr_reconciled_orders = 0\<rparr>, [])
       else and_then (recover_orphaned_intents M ic) (\<lambda>orphaned.
            and_then (recover_orders M E ords 0) (\<lambda>n.
            ok (\<lparr>rr_total_orders = length ords, rr_orphaned_intents = length orphaned, rr_reconciled_orders = n\<rparr>, orphaned))))"

section \<open>Terminal outcomes rest on facts of the chain\<close>

text \<open>What every successful run of a handler returns.\<close>

definition yields :: "('a \<Rightarrow> bool) \<Rightarrow> ('s, 'x, 'a) handler \<Rightarrow> bool" where
  "yields P m \<longleftrightarrow> (\<forall>w evs a w'. m w = (evs, Inr a, w') \<longrightarrow> P a)"

lemma yieldsI: "(\<And>w evs a w'. m w = (evs, Inr a, w') \<Longrightarrow> P a) \<Longrightarrow> yields P m"
  by (auto simp: yields_def)

lemma yieldsD: "yields P m \<Longrightarrow> m w = (evs, Inr a, w') \<Longrightarrow> P a"
  by (auto simp: yields_def)

lemma yields_simps [simp]: "yields P (ok a) \<longleftrightarrow> P a" "yields P (err e)" "yields (\<lambda>_. True) m"
  by (auto simp: yields_def ok_def err_def)

lemma yields_and_then:
  assumes "yields Q m" and "\<And>a. Q a \<Longrightarrow> yields P (k a)"
  shows "yields P (and_then m k)"
proof (rule yieldsI)
  fix w evs a w'
  assume "and_then m k w = (evs, Inr a, w')"
  then obtain e1 b w1 e2 where "m w = (e1, Inr b, w1)" "k b w1 = (e2, Inr a, w')"
    by (auto simp: and_then_def split: prod.splits sum.splits)
  then show "P a" using assms unfolding yields_def by blast
qed

lemma yields_skip: "(\<And>a. yields P (k a)) \<Longrightarrow> yields P (and_then m k)"
  by (rule yields_and_then [where Q = "\<lambda>_. True"]) simp_all

text \<open>
  The transactions of an order.  A hash belongs to a stage of the order if the stored order has it for that
  stage, if a row the ledger lists for the order has it, or if it is that of the transaction of a log about this
  order id, at a settler configured for the chain of the order.  It is looked up on the chains of the stage, or on
  the chain its ledger row names.
\<close>

definition event_chains :: "string \<Rightarrow> order \<Rightarrow> chain_settler_info list" where
  "event_chains ev ord = (if ev = ''OutputFilled'' then output_chains ord else input_chains ord)"

definition event_settlers :: "string \<Rightarrow> settler_addresses \<Rightarrow> bytes list" where
  "event_settlers ev nw = (if ev = ''OutputFilled'' then [sa_output_settler nw] else input_settlers nw)"

definition found_log :: "'s recovery_env \<Rightarrow> string \<Rightarrow> order \<Rightarrow> log \<Rightarrow> bool" where
  "found_log E ev ord l \<longleftrightarrow> (\<exists>c cs nw settler oid from_block to_block ls.
     event_chains ev ord = c # cs \<and> rv_networks E (csi_chain_id c) = Some nw \<and> settler \<in> set (event_settlers ev nw) \<and>
     order_id_to_bytes32 (rv_hex_decode E) (order_id ord) = Inr oid \<and>
     rv_logs E (csi_chain_id c) (log_filter_for_event E ev settler oid from_block to_block) = Inr (l # ls))"

definition log_fact :: "'s recovery_env \<Rightarrow> string \<Rightarrow> order \<Rightarrow> bool" where
  "log_fact E ev ord \<longleftrightarrow> (\<exists>l. found_log E ev ord l)"

definition stage_event :: "transaction_type \<Rightarrow> string option" where
  "stage_event ty = (case ty of Prepare \<Rightarrow> Some ''Open'' | Fill \<Rightarrow> Some ''OutputFilled'' | Claim \<Rightarrow> Some ''Finalised'' | _ \<Rightarrow> None)"

definition recorded :: "order \<Rightarrow> transaction_type \<Rightarrow> bytes set" where
  "recorded ord ty =
     (case ty of
        Prepare \<Rightarrow> set_option (prepare_tx_hash ord)
      | Fill \<Rightarrow> set_option (fill_tx_hash ord) \<union> set (fill_transaction_hashes ord)
      | PostFill \<Rightarrow> set_option (post_fill_tx_hash ord)
      | PreClaim \<Rightarrow> set_option (pre_claim_tx_hash ord)
      | Claim \<Rightarrow> set (claim_transaction_hashes ord)
      | _ \<Rightarrow> {})"

definition own_hash :: "'s recovery_env \<Rightarrow> transaction_attempt list \<Rightarrow> order \<Rightarrow> transaction_type \<Rightarrow> bytes \<Rightarrow> bool" where
  "own_hash E attempts ord ty h \<longleftrightarrow> h \<in> recorded ord ty \<or>
     (\<exists>a \<in> set attempts. at_tx_type a = ty \<and> at_tx_hash a = Some h) \<or>
     (\<exists>ev l. stage_event ty = Some ev \<and> found_log E ev ord l \<and> log_transaction_hash l = Some h)"

definition stage_chains :: "'s recovery_env \<Rightarrow> order \<Rightarrow> transaction_type \<Rightarrow> nat set" where
  "stage_chains E ord ty =
     (if ty = Claim then set (claim_recovery_fallback_chain_ids E ord)
      else if ty = Fill \<or> ty = PostFill then csi_chain_id ` set (take 1 (output_chains ord))
      else csi_chain_id ` set (take 1 (input_chains ord)))"

definition own_tx :: "'s recovery_env \<Rightarrow> transaction_attempt list \<Rightarrow> order \<Rightarrow> transaction_type \<Rightarrow> bytes \<Rightarrow> nat \<Rightarrow> bool" where
  "own_tx E attempts ord ty h chain \<longleftrightarrow> own_hash E attempts ord ty h \<and> chain \<in> stage_chains E ord ty \<or>
     (\<exists>a \<in> set attempts. at_tx_type a = ty \<and> at_tx_hash a = Some h \<and> at_chain_id a = chain)"

text \<open>The facts: a reverted transaction of the order, logs that end it, its claims.\<close>

definition reverted_fact :: "'s recovery_env \<Rightarrow> transaction_attempt list \<Rightarrow> order \<Rightarrow> transaction_type \<Rightarrow> bool" where
  "reverted_fact E attempts ord ty \<longleftrightarrow>
     (\<exists>h chain rcpt. own_tx E attempts ord ty h chain \<and> rv_receipt E h chain = Inr rcpt \<and> \<not> rcpt_success rcpt)"

definition ended_log :: "'s recovery_env \<Rightarrow> order \<Rightarrow> bool" where
  "ended_log E ord \<longleftrightarrow> log_fact E ''Refunded'' ord \<or> log_fact E ''OrderPurchased'' ord"

definition failed_fact :: "'s recovery_env \<Rightarrow> transaction_attempt list \<Rightarrow> order \<Rightarrow> transaction_type \<Rightarrow> bool" where
  "failed_fact E attempts ord ty \<longleftrightarrow> reverted_fact E attempts ord ty \<or> ended_log E ord"

definition succeeded :: "'s recovery_env \<Rightarrow> transaction_attempt list \<Rightarrow> order \<Rightarrow> transaction_type \<Rightarrow> bytes \<Rightarrow> bool" where
  "succeeded E attempts ord ty h \<longleftrightarrow>
     (\<exists>chain rcpt. own_tx E attempts ord ty h chain \<and> rv_receipt E h chain = Inr rcpt \<and> rcpt_success rcpt)"

definition final_fact :: "'s recovery_env \<Rightarrow> transaction_attempt list \<Rightarrow> order \<Rightarrow> bool" where
  "final_fact E attempts ord \<longleftrightarrow> log_fact E ''Finalised'' ord \<or>
     (\<exists>hs. hs \<noteq> [] \<and> distinct hs \<and> list_all (succeeded E attempts ord Claim) hs \<and>
        (\<forall>n. expected_claim_tx_count ord = Some n \<longrightarrow> n \<le> length hs)) \<or>
     (\<exists>hy c cs nw. standard ord = HYPERLANE7683_STANDARD \<and> rv_parse_hyperlane E (data ord) = Inr hy \<and>
        input_chains ord = c # cs \<and> rv_networks E (csi_chain_id c) = Some nw \<and>
        rv_hyperlane_status E (csi_chain_id c) (sa_input_settler nw) (hy_order_id hy) = Inr HSettled)"

text \<open>What the comparison may do to the order on the way: only hashes that belong to it are written into it.\<close>

definition same_order :: "order \<Rightarrow> order \<Rightarrow> bool" where
  "same_order ord ord1 \<longleftrightarrow> order_id ord1 = order_id ord \<and> standard ord1 = standard ord \<and> data ord1 = data ord \<and>
     expected_claim_tx_count ord1 = expected_claim_tx_count ord \<and>
     input_chains ord1 = input_chains ord \<and> output_chains ord1 = output_chains ord"

definition traced :: "'s recovery_env \<Rightarrow> transaction_attempt list \<Rightarrow> order \<Rightarrow> order \<Rightarrow> bool" where
  "traced E attempts ord ord1 \<longleftrightarrow> same_order ord ord1 \<and> (\<forall>ty. \<forall>h \<in> recorded ord1 ty. own_hash E attempts ord ty h)"

lemma traced_refl [simp]: "traced E attempts ord ord"
  by (simp add: traced_def same_order_def own_hash_def)

lemma traced_same:
  assumes "traced E attempts ord ord1"
  shows "order_id ord1 = order_id ord" "standard ord1 = standard ord" "data ord1 = data ord"
    "expected_claim_tx_count ord1 = expected_claim_tx_count ord" "input_chains ord1 = input_chains ord"
    "output_chains ord1 = output_chains ord" "found_log E ev ord1 = found_log E ev ord"
    "log_fact E ev ord1 = log_fact E ev ord" "stage_chains E ord1 ty = stage_chains E ord ty"
proof -
  show same: "order_id ord1 = order_id ord" "standard ord1 = standard ord" "data ord1 = data ord"
    "expected_claim_tx_count ord1 = expected_claim_tx_count ord" "input_chains ord1 = input_chains ord"
    "output_chains ord1 = output_chains ord"
    using assms by (simp_all add: traced_def same_order_def)
  show found: "found_log E ev ord1 = found_log E ev ord"
    by (simp add: fun_eq_iff found_log_def event_chains_def same)
  show "log_fact E ev ord1 = log_fact E ev ord" by (simp add: log_fact_def found)
  show "stage_chains E ord1 ty = stage_chains E ord ty"
    unfolding stage_chains_def claim_recovery_fallback_chain_ids_def same by (rule refl)
qed

lemma traced_own: "traced E attempts ord ord1 \<Longrightarrow> own_hash E attempts ord1 ty h \<Longrightarrow> own_hash E attempts ord ty h"
  using traced_same(7) [of E attempts ord ord1] by (auto simp: own_hash_def [of E attempts ord1] traced_def own_hash_def [of E attempts ord])

lemma recorded_set_hash:
  "set_option (fill_tx_hash (set_fill_transaction_hash h ord)) \<union> set (fill_transaction_hashes (set_fill_transaction_hash h ord)) \<subseteq>
     set_option (fill_tx_hash ord) \<union> set (fill_transaction_hashes ord) \<union> {h}"
  "set (claim_transaction_hashes (set_claim_transaction_hash h ord)) \<subseteq> set (claim_transaction_hashes ord) \<union> {h}"
  by (auto simp: set_fill_transaction_hash_def add_fill_transaction_hash_def set_claim_transaction_hash_def
      add_claim_transaction_hash_def fill_transaction_hashes_def claim_transaction_hashes_def Let_def split: if_splits)

lemma other_hashes [simp]:
  "claim_transaction_hashes (set_fill_transaction_hash h ord) = claim_transaction_hashes ord"
  "prepare_tx_hash (set_fill_transaction_hash h ord) = prepare_tx_hash ord"
  "post_fill_tx_hash (set_fill_transaction_hash h ord) = post_fill_tx_hash ord"
  "pre_claim_tx_hash (set_fill_transaction_hash h ord) = pre_claim_tx_hash ord"
  "fill_transaction_hashes (set_claim_transaction_hash h ord) = fill_transaction_hashes ord"
  "fill_tx_hash (set_claim_transaction_hash h ord) = fill_tx_hash ord"
  "prepare_tx_hash (set_claim_transaction_hash h ord) = prepare_tx_hash ord"
  "post_fill_tx_hash (set_claim_transaction_hash h ord) = post_fill_tx_hash ord"
  "pre_claim_tx_hash (set_claim_transaction_hash h ord) = pre_claim_tx_hash ord"
  by (simp_all add: set_fill_transaction_hash_def add_fill_transaction_hash_def set_claim_transaction_hash_def
      add_claim_transaction_hash_def fill_transaction_hashes_def claim_transaction_hashes_def Let_def)

lemma recorded_set_stage_hash: "recorded (set_order_stage_hash ty h ord) ty' \<subseteq> recorded ord ty' \<union> (if ty' = ty then {h} else {})"
proof -
  have single: "fill_transaction_hashes (ord\<lparr>prepare_tx_hash := v\<rparr>) = fill_transaction_hashes ord"
    "fill_transaction_hashes (ord\<lparr>post_fill_tx_hash := v\<rparr>) = fill_transaction_hashes ord"
    "fill_transaction_hashes (ord\<lparr>pre_claim_tx_hash := v\<rparr>) = fill_transaction_hashes ord"
    "claim_transaction_hashes (ord\<lparr>prepare_tx_hash := v\<rparr>) = claim_transaction_hashes ord"
    "claim_transaction_hashes (ord\<lparr>post_fill_tx_hash := v\<rparr>) = claim_transaction_hashes ord"
    "claim_transaction_hashes (ord\<lparr>pre_claim_tx_hash := v\<rparr>) = claim_transaction_hashes ord" for v
    by (simp_all add: fill_transaction_hashes_def claim_transaction_hashes_def)
  show ?thesis
    using recorded_set_hash [of h ord]
    by (cases ty; cases ty') (simp_all add: recorded_def set_order_stage_hash_def single)
qed

lemma set_stage_hash_same: "same_order ord (set_order_stage_hash ty h ord)"
  by (simp add: same_order_def set_order_stage_hash_def set_fill_transaction_hash_def add_fill_transaction_hash_def
      set_claim_transaction_hash_def add_claim_transaction_hash_def Let_def split: transaction_type.splits)

lemma traced_set_stage_hash:
  assumes "traced E attempts ord ord1" and "own_hash E attempts ord ty h"
  shows "traced E attempts ord (set_order_stage_hash ty h ord1)"
proof -
  have "same_order ord (set_order_stage_hash ty h ord1)"
    using assms(1) set_stage_hash_same [of ord1 ty h] by (simp add: traced_def same_order_def)
  then show ?thesis using assms recorded_set_stage_hash [of ty h ord1] by (fastforce simp: traced_def split: if_splits)
qed

lemma traced_fill_proof: "traced E attempts ord ord1 \<Longrightarrow> traced E attempts ord (ord1\<lparr>order_fill_proof := p\<rparr>)"
  by (simp add: traced_def same_order_def recorded_def fill_transaction_hashes_def claim_transaction_hashes_def
      split: transaction_type.splits)

lemma write_repaired_hash_traced:
  assumes "traced E attempts ord ord1" and "own_hash E attempts ord ty h"
  shows "yields (traced E attempts ord) (write_repaired_hash M ty h ord1)"
  unfolding write_repaired_hash_def by (intro yields_skip) (simp add: traced_set_stage_hash [OF assms])

text \<open>Hashes from the ledger are those of its rows.\<close>

lemma component_loop_members:
  "component_loop attempts stack members = Some ms \<Longrightarrow> set ms \<subseteq> set members \<union> set attempts"
proof (induction rule: component_loop.raw_induct [rotated 1, consumes 1])
  case (1 f attempts stack members ms)
  show ?case
  proof (cases stack)
    case Nil
    then show ?thesis using 1(2) by auto
  next
    case (Cons node rest)
    then have "set ms \<subseteq> set (members @ children_of attempts (at_id node)) \<union> set attempts"
      using 1(1) [of attempts "rev (children_of attempts (at_id node)) @ rest" "members @ children_of attempts (at_id node)" ms] 1(2)
      by simp
    then show ?thesis by (auto simp: children_of_def)
  qed
qed

lemma those_mem: "those (map f xs) = Some ys \<Longrightarrow> y \<in> set ys \<Longrightarrow> \<exists>x \<in> set xs. f x = Some y"
  by (induction xs arbitrary: ys) (auto split: option.splits)

lemma stage_components_members:
  assumes "ms \<in> set (stage_components attempts ty)" and "a \<in> set ms"
  shows "a \<in> set attempts" "at_tx_type a = ty"
proof -
  let ?as = "filter (\<lambda>a. at_tx_type a = ty) attempts"
  have "\<exists>root \<in> set ?as. component_loop ?as [root] [root] = Some ms"
  proof -
    obtain cs where "lineage_components ?as = Some cs" "ms \<in> set cs"
      using assms(1) by (cases "lineage_components ?as") (auto simp: stage_components_def)
    then show ?thesis unfolding lineage_components_def by (fastforce dest: those_mem)
  qed
  then have "set ms \<subseteq> set ?as" using component_loop_members by fastforce
  then show "a \<in> set attempts" "at_tx_type a = ty" using assms(2) by auto
qed

lemma confirmed_attempt_hash:
  assumes "confirmed_recovery_attempt_hash attempts ty = Some h"
  shows "\<exists>a \<in> set attempts. at_tx_type a = ty \<and> at_tx_hash a = Some h"
proof -
  obtain ms a where "ms \<in> set (stage_components attempts ty)" "find (\<lambda>a. at_status a = Confirmed) ms = Some a" "at_tx_hash a = Some h"
    using first_some_Some [OF assms [unfolded confirmed_recovery_attempt_hash_def]] by (auto simp: bind_eq_Some_conv)
  then show ?thesis using stage_components_members by (metis find_Some_iff nth_mem)
qed

lemma chosen_attempt_hash:
  assumes "choose_recovery_attempt_hash attempts ty = Some h"
  shows "\<exists>a \<in> set attempts. at_tx_type a = ty \<and> at_tx_hash a = Some h"
proof (cases "confirmed_recovery_attempt_hash attempts ty")
  case None
  then obtain n where "max_by_key fst (List.map_filter pending_tip (stage_components attempts ty)) = Some (n, h)"
    using assms by (auto simp: choose_recovery_attempt_hash_def)
  then obtain ms where ms: "ms \<in> set (stage_components attempts ty)" "pending_tip ms = Some (n, h)"
    by (auto simp: map_filter_def dest!: max_by_key_mem)
  then obtain a where "lineage_tip ms = Some a" "at_tx_hash a = Some h"
    by (auto simp: pending_tip_def split: option.splits if_splits)
  then show ?thesis using stage_components_members [OF ms(1)] by (metis lineage_tip_def find_Some_iff nth_mem)
qed (use assms confirmed_attempt_hash in \<open>auto simp: choose_recovery_attempt_hash_def\<close>)

lemma stage_hash_recorded: "order_stage_hash ord ty = Some h \<Longrightarrow> h \<in> recorded ord ty"
  by (auto simp: order_stage_hash_def recorded_def split: transaction_type.splits list.splits)

text \<open>The outcome of a probe.\<close>

lemma probe_event_log:
  "probe_event E ev chain settler oid blocks = Inr q \<Longrightarrow> q \<noteq> NoMatch \<Longrightarrow>
     \<exists>l ls. rv_logs E chain (log_filter_for_event E ev settler oid (fst blocks) (snd blocks)) = Inr (l # ls) \<and>
       (\<forall>h b. q = Found h b \<longrightarrow> log_transaction_hash l = Some h)"
  by (auto simp: probe_event_def split: sum.splits list.splits option.splits)

lemma probe_event_found:
  assumes "event_chains ev ord = c # cs" "rv_networks E (csi_chain_id c) = Some nw" "settler \<in> set (event_settlers ev nw)"
    "order_id_to_bytes32 (rv_hex_decode E) (order_id ord) = Inr oid"
    and "probe_event E ev (csi_chain_id c) settler oid blocks = Inr q" "q \<noteq> NoMatch"
  shows "\<exists>l. found_log E ev ord l \<and> (\<forall>h b. q = Found h b \<longrightarrow> log_transaction_hash l = Some h)"
  using probe_event_log [OF assms(5,6)] assms(1-4) unfolding found_log_def by blast

lemma claim_evidence_facts:
  assumes "input_chains ord = c # cs" "rv_networks E (csi_chain_id c) = Some nw" "settler \<in> set (input_settlers nw)"
    "order_id_to_bytes32 (rv_hex_decode E) (order_id ord) = Inr oid"
  shows "chain_evidence_for_claim E (csi_chain_id c) settler oid anchor window = Proven h b \<Longrightarrow>
      \<exists>l. found_log E ''Finalised'' ord l \<and> log_transaction_hash l = Some h"
    and "chain_evidence_for_claim E (csi_chain_id c) settler oid anchor window = NegativeTerminal r \<Longrightarrow> ended_log E ord"
proof -
  have found: "\<exists>l. found_log E ev ord l \<and> (\<forall>h b. q = Found h b \<longrightarrow> log_transaction_hash l = Some h)"
    if "probe_event E ev (csi_chain_id c) settler oid blocks = Inr q" "q \<noteq> NoMatch" "ev \<noteq> ''OutputFilled''" for ev blocks q
    using that assms by (intro probe_event_found [of ev]) (auto simp: event_chains_def event_settlers_def)
  show "\<exists>l. found_log E ''Finalised'' ord l \<and> log_transaction_hash l = Some h"
    if "chain_evidence_for_claim E (csi_chain_id c) settler oid anchor window = Proven h b"
    using that found [of "''Finalised''"]
    by (fastforce simp: chain_evidence_for_claim_def negative_evidence_def split: sum.splits probe_result.splits option.splits)
  show "ended_log E ord" if "chain_evidence_for_claim E (csi_chain_id c) settler oid anchor window = NegativeTerminal r"
    using that found [of "''Refunded''"] found [of "''OrderPurchased''"] unfolding ended_log_def log_fact_def
    by (fastforce simp: chain_evidence_for_claim_def negative_evidence_def split: sum.splits probe_result.splits option.splits)
qed

lemma single_event_found:
  assumes "event_chains ev ord = c # cs" "rv_networks E (csi_chain_id c) = Some nw" "settler \<in> set (event_settlers ev nw)"
    "order_id_to_bytes32 (rv_hex_decode E) (order_id ord) = Inr oid"
    and "single_event_evidence E ev (csi_chain_id c) settler oid window = Proven h b"
  shows "\<exists>l. found_log E ev ord l \<and> log_transaction_hash l = Some h"
  using assms(5) probe_event_found [OF assms(1-4)]
  by (fastforce simp: single_event_evidence_def split: sum.splits probe_result.splits)

lemma first_evidence_some: "first_evidence f xs = ev \<Longrightarrow> ev \<noteq> EvidenceNotFound \<Longrightarrow> \<exists>x \<in> set xs. f x = ev"
  by (induction xs) (auto split: chain_evidence.splits)

lemma single_event_not_negative [simp]: "single_event_evidence E ev chain settler oid window \<noteq> NegativeTerminal r"
  by (auto simp: single_event_evidence_def split: sum.splits probe_result.splits)

lemma probe_stage_yields:
  assumes "traced E attempts ord0 ord"
    and "\<And>c cs' nw oid h b. cs = c # cs' \<Longrightarrow> rv_networks E (csi_chain_id c) = Some nw \<Longrightarrow>
      order_id_to_bytes32 (rv_hex_decode E) (order_id ord0) = Inr oid \<Longrightarrow> evidence (csi_chain_id c) nw oid = Proven h b \<Longrightarrow>
      own_hash E attempts ord0 ty h \<and> P"
    and "\<And>c cs' nw oid r. cs = c # cs' \<Longrightarrow> rv_networks E (csi_chain_id c) = Some nw \<Longrightarrow>
      order_id_to_bytes32 (rv_hex_decode E) (order_id ord0) = Inr oid \<Longrightarrow> evidence (csi_chain_id c) nw oid = NegativeTerminal r \<Longrightarrow> Q"
  shows "yields (\<lambda>(res, ord1). traced E attempts ord0 ord1 \<and> (\<forall>h. res = StageHash h \<longrightarrow> own_hash E attempts ord0 ty h \<and> P) \<and>
      (res = StageTerminated \<longrightarrow> Q)) (probe_stage M E ty cs evidence ord)"
  using assms(2,3) unfolding probe_stage_def evidence_to_resolution_def traced_same(1) [OF assms(1)]
  by (auto simp: assms(1) split: list.splits option.splits sum.splits chain_evidence.splits
      intro!: yields_and_then [OF write_repaired_hash_traced [OF assms(1)]])

lemma claim_chain_evidence_yields:
  assumes "traced E attempts ord0 ord"
  shows "yields (\<lambda>(res, ord1). traced E attempts ord0 ord1 \<and>
      (\<forall>h. res = StageHash h \<longrightarrow> own_hash E attempts ord0 Claim h \<and> log_fact E ''Finalised'' ord0) \<and>
      (res = StageTerminated \<longrightarrow> ended_log E ord0)) (claim_chain_evidence M E attempts ord)"
  unfolding claim_chain_evidence_def Let_def traced_same(5) [OF assms]
proof (rule probe_stage_yields [OF assms], goal_cases)
  case (1 c cs nw oid h b)
  from first_evidence_some [OF 1(4)] claim_evidence_facts(1) [OF 1(1,2) _ 1(3)]
  have "\<exists>l. found_log E ''Finalised'' ord0 l \<and> log_transaction_hash l = Some h" by blast
  then show ?case by (auto simp: own_hash_def stage_event_def log_fact_def)
next
  case (2 c cs nw oid r)
  from first_evidence_some [OF 2(4)] claim_evidence_facts(2) [OF 2(1,2) _ 2(3)] show ?case by blast
qed

lemma prepare_chain_evidence_yields:
  assumes "traced E attempts ord0 ord"
  shows "yields (\<lambda>(res, ord1). traced E attempts ord0 ord1 \<and> (\<forall>h. res = StageHash h \<longrightarrow> own_hash E attempts ord0 Prepare h \<and> True) \<and>
      (res = StageTerminated \<longrightarrow> False)) (prepare_chain_evidence M E ord)"
  unfolding prepare_chain_evidence_def traced_same(5) [OF assms] chain_evidence_for_prepare_open_def
proof (rule probe_stage_yields [OF assms], goal_cases)
  case (1 c cs nw oid h b)
  from first_evidence_some [OF 1(4)] obtain settler where "settler \<in> set (input_settlers nw)"
    "single_event_evidence E ''Open'' (csi_chain_id c) settler oid DEFAULT_RECOVERY_SCAN_WINDOW_BLOCKS = Proven h b" by auto
  with single_event_found [of "''Open''" ord0, OF _ 1(2) _ 1(3)] 1(1)
  have "\<exists>l. found_log E ''Open'' ord0 l \<and> log_transaction_hash l = Some h" by (simp add: event_chains_def event_settlers_def)
  then show ?case by (auto simp: own_hash_def stage_event_def)
next
  case (2 c cs nw oid r)
  from first_evidence_some [OF 2(4)] show ?case by simp
qed

lemma fill_chain_evidence_yields:
  assumes "traced E attempts ord0 ord"
  shows "yields (\<lambda>(res, ord1). traced E attempts ord0 ord1 \<and> (\<forall>h. res = StageHash h \<longrightarrow> own_hash E attempts ord0 Fill h \<and> True) \<and>
      (res = StageTerminated \<longrightarrow> False)) (fill_chain_evidence M E ord)"
  unfolding fill_chain_evidence_def traced_same(6) [OF assms] chain_evidence_for_fill_def
proof (rule probe_stage_yields [OF assms], goal_cases)
  case (1 c cs nw oid h b)
  with single_event_found [of "''OutputFilled''" ord0, OF _ 1(2) _ 1(3,4)]
  have "\<exists>l. found_log E ''OutputFilled'' ord0 l \<and> log_transaction_hash l = Some h" by (simp add: event_chains_def event_settlers_def)
  then show ?case by (auto simp: own_hash_def stage_event_def)
qed simp

lemma yields_mono: "yields Q m \<Longrightarrow> (\<And>a. Q a \<Longrightarrow> P a) \<Longrightarrow> yields P m"
  by (auto simp: yields_def)

definition resolved_ok :: "'s recovery_env \<Rightarrow> transaction_attempt list \<Rightarrow> order \<Rightarrow> transaction_type \<Rightarrow> stage_resolution \<times> order \<Rightarrow> bool" where
  "resolved_ok E attempts ord0 ty = (\<lambda>(res, ord1). traced E attempts ord0 ord1 \<and>
     (\<forall>h. res = StageHash h \<longrightarrow> own_hash E attempts ord0 ty h) \<and> (res = StageTerminated \<longrightarrow> ended_log E ord0))"

lemma resolve_stage_yields:
  assumes "traced E attempts ord0 ord"
  shows "yields (resolved_ok E attempts ord0 ty) (resolve_stage M E attempts ty ord)"
proof -
  have repaired: "yields (resolved_ok E attempts ord0 ty) (and_then (write_repaired_hash M ty h ord) (\<lambda>ord1. ok (StageHash h, ord1)))"
    if "own_hash E attempts ord0 ty h" for h
    by (rule yields_and_then [OF write_repaired_hash_traced [OF assms that]]) (simp add: resolved_ok_def that)
  have ledger: "own_hash E attempts ord0 ty h"
    if "confirmed_recovery_attempt_hash attempts ty = Some h \<or> choose_recovery_attempt_hash attempts ty = Some h" for h
    using that confirmed_attempt_hash chosen_attempt_hash unfolding own_hash_def by blast
  have plain: "yields (resolved_ok E attempts ord0 ty) (ok (StageHash h, ord))" if "own_hash E attempts ord0 ty h" for h
    using that assms by (simp add: resolved_ok_def)
  have missing: "yields (resolved_ok E attempts ord0 ty') (ok (StageNotFound, ord))" for ty'
    using assms by (simp add: resolved_ok_def)
  have stored: "own_hash E attempts ord0 ty h" if "order_stage_hash ord ty = Some h" for h
    using traced_own [OF assms] stage_hash_recorded [OF that] by (simp add: own_hash_def [of E attempts ord])
  have probed: "yields (resolved_ok E attempts ord0 Prepare) (prepare_chain_evidence M E ord)"
    "yields (resolved_ok E attempts ord0 Fill) (fill_chain_evidence M E ord)"
    "yields (resolved_ok E attempts ord0 Claim) (claim_chain_evidence M E attempts ord)"
    by (rule yields_mono [OF prepare_chain_evidence_yields [OF assms]], force simp: resolved_ok_def,
        rule yields_mono [OF fill_chain_evidence_yields [OF assms]], force simp: resolved_ok_def,
        rule yields_mono [OF claim_chain_evidence_yields [OF assms]], force simp: resolved_ok_def)
  show ?thesis
    unfolding resolve_stage_def
    by (auto simp: probed missing repaired ledger stored plain split: option.split transaction_type.split simp del: yields_simps)
qed

lemma ensure_hyperlane_proof_traced:
  "traced E attempts ord0 ord \<Longrightarrow>
     yields (\<lambda>(p, ord1). traced E attempts ord0 ord1) (ensure_hyperlane7683_recovery_fill_proof M hyper_id ord)"
  by (rule yieldsI)
     (auto simp: ensure_hyperlane7683_recovery_fill_proof_def Let_def traced_fill_proof split: option.splits prod.splits sum.splits)

lemma destination_signal_yields:
  assumes "traced E attempts ord0 ord"
  shows "yields (\<lambda>(sig, ord1). traced E attempts ord0 ord1 \<and> sig \<noteq> SignalFinalized) (destination_signal M E hyper_id is ord)"
proof (induction "is")
  case (Cons i "is")
  have proven: "yields (\<lambda>(sig, ord1). traced E attempts ord0 ord1 \<and> sig \<noteq> SignalFinalized)
      (and_then (ensure_hyperlane7683_recovery_fill_proof M hyper_id ord)
         (\<lambda>(p, ord1). ok (case p of Some q \<Rightarrow> SignalNeedsClaim q | None \<Rightarrow> SignalUnknown, ord1)))"
    by (rule yields_and_then [OF ensure_hyperlane_proof_traced [OF assms]]) (auto split: option.splits)
  show ?case
    using Cons proven assms by (auto split: sum.splits hyperlane_status.splits)
qed (simp add: assms)

text \<open>What the check of a stage may answer.\<close>

definition answer_ok :: "'s recovery_env \<Rightarrow> transaction_attempt list \<Rightarrow> order \<Rightarrow> reconcile_result option \<times> order \<Rightarrow> bool" where
  "answer_ok E attempts ord0 = (\<lambda>(r, ord1). traced E attempts ord0 ord1 \<and>
     (\<forall>ty. r = Some (ReFailed ty) \<longrightarrow> failed_fact E attempts ord0 ty) \<and> (r = Some ReFinalized \<longrightarrow> final_fact E attempts ord0))"

lemma answer_ok_simps [simp]:
  "answer_ok E attempts ord0 (None, ord1) \<longleftrightarrow> traced E attempts ord0 ord1"
  "answer_ok E attempts ord0 (Some r, ord1) \<longleftrightarrow> traced E attempts ord0 ord1 \<and>
     (\<forall>ty. r = ReFailed ty \<longrightarrow> failed_fact E attempts ord0 ty) \<and> (r = ReFinalized \<longrightarrow> final_fact E attempts ord0)"
  by (auto simp: answer_ok_def)

lemma claim_signal_answer:
  assumes "traced E attempts ord0 ord" and "otherwise \<in> {None, Some ReUnknown}"
  shows "yields (answer_ok E attempts ord0) (claim_signal M E otherwise ord)"
proof -
  let ?ok = "\<lambda>(sig, ord1). traced E attempts ord0 ord1 \<and> (sig = SignalFinalized \<longrightarrow> final_fact E attempts ord0)"
  have "yields ?ok (destination_signal M E hyper_id is ord)" for hyper_id "is"
    by (rule yields_mono [OF destination_signal_yields [OF assms(1)]]) auto
  then have "yields ?ok (hyperlane7683_claim_recovery_signal M E ord)"
    using assms(1) unfolding hyperlane7683_claim_recovery_signal_def
    by (auto split: sum.splits list.splits option.splits simp: final_fact_def traced_same [OF assms(1)])
  then show ?thesis
    unfolding claim_signal_def
  proof (rule yields_and_then)
    fix a :: "hyperlane_signal \<times> order"
    assume "?ok a"
    then show "yields (answer_ok E attempts ord0)
      (case a of (sig, ord1) \<Rightarrow> ok (case hyperlane7683_signal_to_result sig of Some r \<Rightarrow> Some r | None \<Rightarrow> otherwise, ord1))"
      using assms(2) by (cases "fst a") (auto split: prod.splits)
  qed
qed

text \<open>Answers after a revert and after the candidates of a stage.\<close>

definition revert_answer :: "'s recovery_env \<Rightarrow> transaction_attempt list \<Rightarrow> order \<Rightarrow> reconcile_result \<times> order \<Rightarrow> bool" where
  "revert_answer E attempts ord0 a = answer_ok E attempts ord0 (Some (fst a), snd a)"

lemma stage_complete_yields:
  assumes "traced E attempts ord0 ord" and "reverted_fact E attempts ord0 ty"
  shows "yields (revert_answer E attempts ord0) (stage_complete_recovery M E attempts ty ord)"
proof -
  have claim: "yields (revert_answer E attempts ord0)
      (and_then (claim_chain_evidence M E attempts ord) (\<lambda>(res, ord1). ok (case res of StageHash _ \<Rightarrow> ReFinalized
         | StageTerminated \<Rightarrow> ReFailed Claim | StageNotFound \<Rightarrow> other | StageUnknown \<Rightarrow> other, ord1)))"
    if "other = ReUnknown \<or> other = ReFailed ty" for other
    by (rule yields_and_then [OF claim_chain_evidence_yields [OF assms(1)]])
       (use that assms(2) in \<open>auto simp: revert_answer_def final_fact_def failed_fact_def split: stage_resolution.splits\<close>)
  have prep: "yields (revert_answer E attempts ord0)
      (and_then (prepare_chain_evidence M E ord) (\<lambda>(res, ord1). ok (case res of StageHash _ \<Rightarrow> NeedsFill
         | StageTerminated \<Rightarrow> ReFailed Prepare | StageNotFound \<Rightarrow> ReUnknown | StageUnknown \<Rightarrow> ReUnknown, ord1)))"
    by (rule yields_and_then [OF prepare_chain_evidence_yields [OF assms(1)]]) (auto simp: revert_answer_def split: stage_resolution.splits)
  have plain: "revert_answer E attempts ord0 (r, ord)" if "r = ReUnknown \<or> r = ReFailed ty" for r
    using that assms by (auto simp: revert_answer_def failed_fact_def)
  show ?thesis
    by (cases ty) (simp_all add: stage_complete_recovery_def Let_def claim prep plain)
qed

lemma handle_confirmed_revert_yields:
  assumes "traced E attempts ord0 ord" and "reverted_fact E attempts ord0 ty"
  shows "yields (revert_answer E attempts ord0) (handle_confirmed_revert M E attempts ty h chain block ord)"
proof (rule yieldsI)
  fix w evs a w'
  assume run: "handle_confirmed_revert M E attempts ty h chain block ord w = (evs, Inr a, w')"
  have plain: "revert_answer E attempts ord0 (r, ord)" if "r = ReUnknown \<or> r = ReFailed ty" for r
    using that assms by (auto simp: revert_answer_def failed_fact_def)
  have complete: "revert_answer E attempts ord0 a" if "stage_complete_recovery M E attempts ty ord w1 = (evs, Inr a, w')" for w1
    using yieldsD [OF stage_complete_yields [OF assms] that] .
  show "revert_answer E attempts ord0 a"
    using run plain [of ReUnknown] plain [of "ReFailed ty"] complete
    by (auto simp: handle_confirmed_revert_def split: prod.splits sum.splits option.splits revert_classification.splits)
qed

text \<open>The candidates of a stage: the confirmed ones are distinct transactions of the order with a successful receipt.\<close>

definition confirmed_ok ::
  "'s recovery_env \<Rightarrow> transaction_attempt list \<Rightarrow> order \<Rightarrow> transaction_type \<Rightarrow> reconcile_result option \<times> bytes list \<times> order \<Rightarrow> bool" where
  "confirmed_ok E attempts ord0 ty = (\<lambda>(r, confirmed, ord1). answer_ok E attempts ord0 (r, ord1) \<and> distinct confirmed \<and>
     list_all (succeeded E attempts ord0 ty) confirmed)"

lemma own_tx_hash: "own_tx E attempts ord ty h chain \<Longrightarrow> own_hash E attempts ord ty h"
  by (auto simp: own_tx_def own_hash_def)

lemma confirm_candidates_yields:
  assumes "traced E attempts ord0 ord" and "\<forall>(h, chain) \<in> set cs. own_tx E attempts ord0 ty h chain"
    and "distinct confirmed" and "list_all (succeeded E attempts ord0 ty) confirmed"
  shows "yields (confirmed_ok E attempts ord0 ty) (confirm_candidates M E attempts ty cs confirmed ord)"
  using assms
proof (induction cs arbitrary: confirmed ord)
  case (Cons hc cs)
  obtain h chain where hc: "hc = (h, chain)" by (cases hc)
  have own: "own_tx E attempts ord0 ty h chain" and rest: "\<forall>(h, chain) \<in> set cs. own_tx E attempts ord0 ty h chain"
    using Cons.prems(2) by (auto simp: hc)
  show ?case
  proof (cases "rv_receipt E h chain")
    case (Inl e)
    then show ?thesis using Cons.IH [OF Cons.prems(1) rest Cons.prems(3,4)] by (simp add: hc)
  next
    case (Inr rcpt)
    show ?thesis
    proof (cases "rcpt_success rcpt")
      case True
      let ?more = "if h \<notin> set confirmed then confirmed @ [h] else confirmed"
      have "succeeded E attempts ord0 ty h" using Inr True own by (auto simp: succeeded_def)
      then have more: "distinct ?more" "list_all (succeeded E attempts ord0 ty) ?more" using Cons.prems(3,4) by auto
      have "yields (traced E attempts ord0) (if h \<notin> set (stage_hashes ty ord) then write_repaired_hash M ty h ord else ok ord)"
        by (simp add: write_repaired_hash_traced [OF Cons.prems(1) own_tx_hash [OF own]] Cons.prems(1))
      then show ?thesis
        unfolding hc confirm_candidates.simps Inr sum.case if_P [OF True]
        by (rule yields_and_then) (intro yields_skip Cons.IH [OF _ rest more])
    next
      case False
      then have "reverted_fact E attempts ord0 ty" using Inr own by (auto simp: reverted_fact_def)
      from handle_confirmed_revert_yields [OF Cons.prems(1) this] show ?thesis
        unfolding hc confirm_candidates.simps Inr sum.case if_not_P [OF False]
        by (rule yields_and_then) (use Cons.prems(3,4) in \<open>auto simp: confirmed_ok_def revert_answer_def\<close>)
    qed
  qed
qed (simp add: confirmed_ok_def)

lemma candidates_answer:
  assumes "traced E attempts ord0 ord" and "\<forall>(h, chain) \<in> set cs. own_tx E attempts ord0 ty h chain"
    and "\<And>c ord1. confirmed_ok E attempts ord0 ty (None, c, ord1) \<Longrightarrow> yields (answer_ok E attempts ord0) (k c ord1)"
  shows "yields (answer_ok E attempts ord0) (and_then (confirm_candidates M E attempts ty cs [] ord)
     (\<lambda>(r, c, ord1). case r of Some q \<Rightarrow> ok (Some q, ord1) | None \<Rightarrow> k c ord1))"
proof (rule yields_and_then [OF confirm_candidates_yields [OF assms(1,2)]])
  fix a
  assume "confirmed_ok E attempts ord0 ty a"
  then show "yields (answer_ok E attempts ord0) (case a of (r, c, ord1) \<Rightarrow> (case r of Some q \<Rightarrow> ok (Some q, ord1) | None \<Rightarrow> k c ord1))"
    using assms(3) by (auto simp: confirmed_ok_def split: option.splits prod.splits)
qed simp_all

text \<open>The candidates belong to the order.\<close>

lemma live_attempt_own: "(h, chain) \<in> set (live_attempt_hashes attempts ty) \<Longrightarrow> own_tx E attempts ord ty h chain"
  by (auto simp: live_attempt_hashes_def map_filter_def own_tx_def)

lemma push_fill_mem: "x \<in> set (push_unique_fill_candidate h c cs) \<Longrightarrow> x = (h, c) \<or> x \<in> set cs"
  by (auto simp: push_unique_fill_candidate_def split: if_splits)

lemma foldl_push_fill_mem:
  "x \<in> set (foldl (\<lambda>cs (h, c). push_unique_fill_candidate h c cs) cs xs) \<Longrightarrow> x \<in> set xs \<or> x \<in> set cs"
proof (induction xs arbitrary: cs)
  case (Cons y ys)
  then show ?case using Cons.IH [of "push_unique_fill_candidate (fst y) (snd y) cs"] push_fill_mem [of x "fst y" "snd y" cs]
    by (auto simp: case_prod_beta)
qed simp

lemma fill_candidates_own:
  assumes "traced E attempts ord0 ord" and "output_chains ord = c # cs" and "own_hash E attempts ord0 Fill h"
  shows "\<forall>(g, chain) \<in> set (fill_recovery_candidates ord attempts (csi_chain_id c) h). own_tx E attempts ord0 Fill g chain"
proof -
  let ?chain = "csi_chain_id c"
  have first: "?chain \<in> stage_chains E ord0 Fill" using assms(2) traced_same(6) [OF assms(1)] by (simp add: stage_chains_def)
  have here: "own_tx E attempts ord0 Fill g ?chain" if "g = h \<or> g \<in> set (fill_transaction_hashes ord)" for g
  proof -
    have "own_hash E attempts ord0 Fill g"
      using that assms(3) traced_own [OF assms(1), of Fill g] by (auto simp: own_hash_def [of E attempts ord] recorded_def)
    then show ?thesis using first by (simp add: own_tx_def)
  qed
  have at_chain: "x \<in> set (foldl (\<lambda>cs g. push_unique_fill_candidate g ?chain cs) xs gs) \<Longrightarrow> x \<in> (\<lambda>g. (g, ?chain)) ` set gs \<or> x \<in> set xs"
    for x xs gs
  proof (induction gs arbitrary: xs)
    case (Cons g gs)
    then show ?case using Cons.IH [of "push_unique_fill_candidate g ?chain xs"] push_fill_mem [of x g ?chain xs] by auto
  qed simp
  have candidate: "x \<in> (\<lambda>g. (g, ?chain)) ` set (h # fill_transaction_hashes ord) \<or> x \<in> set (live_attempt_hashes attempts Fill)"
    if "x \<in> set (fill_recovery_candidates ord attempts ?chain h)" for x
  proof -
    let ?c1 = "foldl (\<lambda>cs (g, c). push_unique_fill_candidate g c cs) [] (live_attempt_hashes attempts Fill)"
    have "x \<in> (\<lambda>g. (g, ?chain)) ` set (fill_transaction_hashes ord) \<or> x \<in> set (push_unique_fill_candidate h ?chain ?c1)"
      using at_chain that by (simp add: fill_recovery_candidates_def Let_def)
    then show ?thesis using push_fill_mem [of x h ?chain ?c1] foldl_push_fill_mem [of x "[]" "live_attempt_hashes attempts Fill"] by auto
  qed
  have "own_tx E attempts ord0 Fill g chain" if "(g, chain) \<in> set (fill_recovery_candidates ord attempts ?chain h)" for g chain
  proof -
    from candidate [OF that] consider "chain = ?chain" "g = h \<or> g \<in> set (fill_transaction_hashes ord)"
      | "(g, chain) \<in> set (live_attempt_hashes attempts Fill)" by auto
    then show ?thesis by cases (simp_all add: here live_attempt_own)
  qed
  then show ?thesis by blast
qed

lemma claim_candidates_own:
  assumes "traced E attempts ord0 ord" and "own_hash E attempts ord0 Claim h"
  shows "\<forall>(g, chain) \<in> set (claim_recovery_candidates ord attempts (claim_recovery_fallback_chain_ids E ord) h). own_tx E attempts ord0 Claim g chain"
proof -
  have "own_hash E attempts ord0 Claim g" if "g = h \<or> g \<in> set (claim_transaction_hashes ord)" for g
    using that assms(2) traced_own [OF assms(1), of Claim g] by (auto simp: own_hash_def [of E attempts ord] recorded_def)
  moreover have "set (claim_recovery_fallback_chain_ids E ord) = stage_chains E ord0 Claim"
    using traced_same(9) [OF assms(1), of Claim] by (simp add: stage_chains_def)
  ultimately show ?thesis
    unfolding claim_recovery_candidates_cover using live_attempt_own by (fastforce simp: own_tx_def)
qed

text \<open>The checks of the stages.\<close>

lemma resolve_answer:
  assumes "traced E attempts ord0 ord"
    and "\<And>ord1. traced E attempts ord0 ord1 \<Longrightarrow> yields (answer_ok E attempts ord0) (unknown ord1)"
    and "\<And>ord1. traced E attempts ord0 ord1 \<Longrightarrow> yields (answer_ok E attempts ord0) (missing ord1)"
    and "\<And>h ord1. traced E attempts ord0 ord1 \<Longrightarrow> own_hash E attempts ord0 ty h \<Longrightarrow> yields (answer_ok E attempts ord0) (found h ord1)"
  shows "yields (answer_ok E attempts ord0) (and_then (resolve_stage M E attempts ty ord) (\<lambda>(res, ord1).
     case res of StageTerminated \<Rightarrow> ok (Some (ReFailed Claim), ord1) | StageUnknown \<Rightarrow> unknown ord1
       | StageNotFound \<Rightarrow> missing ord1 | StageHash h \<Rightarrow> found h ord1))"
proof (rule yields_and_then [OF resolve_stage_yields [OF assms(1)]])
  fix a :: "stage_resolution \<times> order"
  assume "resolved_ok E attempts ord0 ty a"
  moreover obtain res ord1 where a: "a = (res, ord1)" by (cases a)
  ultimately show "yields (answer_ok E attempts ord0) (case a of (res, ord1) \<Rightarrow>
     (case res of StageTerminated \<Rightarrow> ok (Some (ReFailed Claim), ord1) | StageUnknown \<Rightarrow> unknown ord1
       | StageNotFound \<Rightarrow> missing ord1 | StageHash h \<Rightarrow> found h ord1))"
    using assms(2-4) by (auto simp: resolved_ok_def failed_fact_def split: stage_resolution.split)
qed

lemma confirmed_set_final:
  assumes "confirmed_ok E attempts ord0 Claim (None, confirmed, ord1)" and "confirmed \<noteq> []" and "full_set expected count confirmed"
    and "expected_claim_transaction_count ord \<le> count" and "traced E attempts ord0 ord"
  shows "final_fact E attempts ord0"
proof -
  have "\<forall>n. expected_claim_tx_count ord0 = Some n \<longrightarrow> n \<le> length confirmed"
    using assms(3,4) traced_same(4) [OF assms(5)] by (auto simp: full_set_def expected_claim_transaction_count_def)
  then show ?thesis
    using assms(1,2) unfolding final_fact_def confirmed_ok_def by blast
qed

lemma check_claim_answer:
  assumes "traced E attempts ord0 ord"
  shows "yields (answer_ok E attempts ord0) (check_claim M E attempts ord)"
  unfolding check_claim_def
proof (rule resolve_answer [OF assms])
  fix h ord1
  assume t: "traced E attempts ord0 ord1" and own: "own_hash E attempts ord0 Claim h"
  let ?ids = "claim_recovery_fallback_chain_ids E ord1" and ?expected = "with_hash h (claim_transaction_hashes ord1)"
  let ?count = "max (max (expected_claim_transaction_count ord1) (length ?expected)) 1"
  have fin: "yields (answer_ok E attempts ord0)
      (if confirmed \<noteq> [] \<and> full_set ?expected ?count confirmed then ok (Some ReFinalized, ord2) else ok (Some ReUnknown, ord2))"
    if "confirmed_ok E attempts ord0 Claim (None, confirmed, ord2)" for confirmed ord2
    using confirmed_set_final [OF that, of ?expected ?count ord1] that t by (auto simp: confirmed_ok_def)
  show "yields (answer_ok E attempts ord0) (let ids = ?ids
    in if ids = [] then err (ReStorage ''No claim recovery fallback chains in order'')
       else let expected = with_hash h (claim_transaction_hashes ord1);
                count = max (max (expected_claim_transaction_count ord1) (length expected)) 1
            in and_then (confirm_candidates M E attempts Claim (claim_recovery_candidates ord1 attempts ids h) [] ord1)
                 (\<lambda>(r, confirmed, ord2). case r of Some q \<Rightarrow> ok (Some q, ord2)
                    | None \<Rightarrow> if confirmed \<noteq> [] \<and> full_set expected count confirmed then ok (Some ReFinalized, ord2)
                              else ok (Some ReUnknown, ord2)))"
    unfolding Let_def by (simp, intro impI candidates_answer [OF t claim_candidates_own [OF t own]] fin)
qed (simp_all add: claim_signal_answer)

lemma check_fill_answer:
  assumes "traced E attempts ord0 ord"
  shows "yields (answer_ok E attempts ord0) (check_fill M E attempts ord)"
  unfolding check_fill_def
proof (rule resolve_answer [OF assms])
  fix h ord1
  assume t: "traced E attempts ord0 ord1" and own: "own_hash E attempts ord0 Fill h"
  show "yields (answer_ok E attempts ord0) (case output_chains ord1 of [] \<Rightarrow> err (ReStorage ''No output chains in order'')
      | c # _ \<Rightarrow>
          (let expected = with_hash h (fill_transaction_hashes ord1);
               count = max (max (expected_fill_transaction_count ord1) (length expected)) 1
           in and_then (confirm_candidates M E attempts Fill (fill_recovery_candidates ord1 attempts (csi_chain_id c) h) [] ord1)
                (\<lambda>(r, confirmed, ord2). case r of Some q \<Rightarrow> ok (Some q, ord2)
                   | None \<Rightarrow>
                       if confirmed = [] \<or> \<not> full_set expected count confirmed then ok (Some ReUnknown, ord2)
                       else if order_fill_proof ord2 \<noteq> None then ok (Some (NeedsPreClaim (order_fill_proof ord2)), ord2)
                       else if count > 1 \<or> length (fill_transaction_hashes ord2) > 1 then ok (Some NeedsPostFill, ord2)
                       else and_then (call (\<lambda>e. ReSettlement (settlement_error_text e))
                                (recover_post_fill_state (rv_service E) ord2)) (\<lambda>recovered.
                              ok (Some (if recovered then NeedsMonitoring else NeedsPostFill), ord2)))))"
  proof (cases "output_chains ord1")
    case (Cons c cs)
    show ?thesis
      unfolding Let_def Cons list.case
      by (rule candidates_answer [OF t fill_candidates_own [OF t Cons own]]) (auto simp: confirmed_ok_def intro!: yields_skip)
  qed simp
qed simp_all

lemma check_single_answer:
  assumes "traced E attempts ord0 ord"
    and "\<And>rcpt ord1. yields (\<lambda>r. r \<noteq> ReFinalized \<and> (\<forall>ty. r \<noteq> ReFailed ty)) (done_step E rcpt ord1)"
    and "\<And>ord1 c cs. chains_of ord1 = c # cs \<Longrightarrow> csi_chain_id c \<in> stage_chains E ord1 ty"
  shows "yields (answer_ok E attempts ord0) (check_single ty missing chains_of done_step M E attempts ord)"
  unfolding check_single_def
proof (rule resolve_answer [OF assms(1)])
  fix h ord1
  assume t: "traced E attempts ord0 ord1" and own: "own_hash E attempts ord0 ty h"
  have reverted: "yields (answer_ok E attempts ord0)
      (and_then (handle_confirmed_revert M E attempts ty h (csi_chain_id c) b ord1) (\<lambda>(q, ord2). ok (Some q, ord2)))"
    if "chains_of ord1 = c # cs" "rv_receipt E h (csi_chain_id c) = Inr rcpt" "\<not> rcpt_success rcpt" for c cs rcpt b
  proof -
    have "reverted_fact E attempts ord0 ty"
      using that own assms(3) [OF that(1)] traced_same(9) [OF t, of ty] by (auto simp: reverted_fact_def own_tx_def)
    from handle_confirmed_revert_yields [OF t this] show ?thesis by (rule yields_and_then) (auto simp: revert_answer_def)
  qed
  show "yields (answer_ok E attempts ord0)
     (case chains_of ord1 of [] \<Rightarrow> err (ReStorage missing)
      | c # _ \<Rightarrow> (case rv_receipt E h (csi_chain_id c) of Inl _ \<Rightarrow> ok (Some ReUnknown, ord1)
           | Inr rcpt \<Rightarrow>
               if rcpt_success rcpt
               then and_then (mark_recovered_attempt_confirmed M (order_id ord1) ty h rcpt) (\<lambda>_.
                    and_then (done_step E rcpt ord1) (\<lambda>r. ok (Some r, ord1)))
               else and_then (handle_confirmed_revert M E attempts ty h (csi_chain_id c) (rcpt_block_number rcpt) ord1)
                      (\<lambda>(q, ord2). ok (Some q, ord2))))"
  proof (cases "chains_of ord1")
    case (Cons c cs)
    show ?thesis
    proof (cases "rv_receipt E h (csi_chain_id c)")
      case (Inr rcpt)
      show ?thesis
      proof (cases "rcpt_success rcpt")
        case True
        then show ?thesis using Cons Inr t by (auto intro!: yields_skip yields_and_then [OF assms(2)])
      next
        case False
        then show ?thesis using Cons Inr by (simp add: reverted [OF Cons Inr False])
      qed
    qed (use Cons t in simp)
  qed simp
qed simp_all

lemma stage_answers:
  assumes "c \<in> {check_claim, check_pre_claim, check_post_fill, check_fill, check_prepare}" and "traced E attempts ord0 ord"
  shows "yields (answer_ok E attempts ord0) (c M E attempts ord)"
  using assms
  by (auto simp: check_claim_answer check_fill_answer check_pre_claim_def check_post_fill_def check_prepare_def stage_chains_def
      intro!: check_single_answer yields_skip)

lemma check_stages_answer:
  assumes "\<And>c ord1. c \<in> set cs \<Longrightarrow> traced E attempts ord0 ord1 \<Longrightarrow> yields (answer_ok E attempts ord0) (c M E attempts ord1)"
    and "traced E attempts ord0 ord"
  shows "yields (answer_ok E attempts ord0) (check_stages cs M E attempts ord)"
  using assms
proof (induction cs arbitrary: ord)
  case (Cons c cs)
  have "yields (answer_ok E attempts ord0) (c M E attempts ord)" using Cons.prems by simp
  then show ?case
    unfolding check_stages.simps
  proof (rule yields_and_then)
    fix a
    assume a: "answer_ok E attempts ord0 a"
    have "yields (answer_ok E attempts ord0) (check_stages cs M E attempts ord1)" if "traced E attempts ord0 ord1" for ord1
      using Cons.IH [OF _ that] Cons.prems(1) by simp
    with a show "yields (answer_ok E attempts ord0) (case a of (r, ord1) \<Rightarrow>
        (case r of Some q \<Rightarrow> ok (Some q, ord1) | None \<Rightarrow> check_stages cs M E attempts ord1))"
      by (auto split: prod.splits option.splits)
  qed
qed simp


text \<open>A run of the comparison: a recorded claim hash whose receipt is a revert.\<close>

definition reverted_env :: "stored memory_storage recovery_env" where
  "reverted_env = \<lparr>rv_service = direct_service 0,
     rv_receipt = (\<lambda>h _. Inr \<lparr>rcpt_hash = h, rcpt_block_number = 7, rcpt_success = False, rcpt_logs = [], rcpt_block_timestamp = None\<rparr>),
     rv_block_number = (\<lambda>_. Inr 9), rv_logs = (\<lambda>_ _. Inr []), rv_signature_hash = (\<lambda>_. []),
     rv_revert_data = (\<lambda>_ _ _ _. Inr None), rv_selector = (\<lambda>_. []), rv_networks = (\<lambda>_. None), rv_hex_decode = (\<lambda>_. Inr [1]),
     rv_parse_hyperlane = (\<lambda>_. Inl []), rv_hyperlane_status = (\<lambda>_ _ _. Inl (Network []))\<rparr>"

definition claimed_order :: order where
  "claimed_order = (sample_order Settled)\<lparr>claim_tx_hash := Some [9], input_chains := [\<lparr>csi_chain_id = 10, csi_settler_address = [1]\<rparr>]\<rparr>"

definition bare_world :: "nat \<Rightarrow> stored memory_storage world" where
  "bare_world n = \<lparr>w_store = memory_new, w_tick = n\<rparr>"

lemma batch_rows_empty [simp]: "batch_rows t [] keys = []"
  by (induction keys) simp_all

lemma no_attempts_stored:
  "query_attempts memory_backend ac hexe (quiet (\<lambda>_. t)) flt keep (bare_world n) = (Inr [], bare_world (n + 2))"
  by (simp add: query_attempts_def svc_query_def call_read_def Let_def resume_def quiet_def bare_world_def memory_new_def
      memory_query_def memory_get_batch_def lift_attempt_error_def)


section \<open>A finished order is closed\<close>

definition stores_status :: "('s \<Rightarrow> string \<Rightarrow> 'b option) \<Rightarrow> (order, 'b) codec \<Rightarrow> 's \<Rightarrow> string \<Rightarrow> order_status \<Rightarrow> bool" where
  "stores_status live oc s oid st \<longleftrightarrow> (\<exists>b ord. live s (order_key oid) = Some b \<and> decode oc b = Inr ord \<and> status ord = st)"

definition undisturbed :: "nat \<Rightarrow> ('b memory_storage, 'b) machine \<Rightarrow> bool" where
  "undisturbed now M \<longleftrightarrow> mc_backend M = memory_backend \<and> mc_sched M = quiet (\<lambda>_. now) \<and> codec_ok (mc_orders M) \<and> encodes_all (mc_orders M)"

lemma force_outcome:
  assumes "undisturbed now M" and "stores_status (memory_live now) (mc_orders M) (w_store w) oid st"
  shows "edge (status_kind st) (status_kind st') \<Longrightarrow> \<exists>ord1 w1. force_transition M oid st' w = (Inr ord1, w1) \<and>
      status ord1 = st' \<and> stores_status (memory_live now) (mc_orders M) (w_store w1) oid st'"
    and "\<not> edge\<^sup>*\<^sup>* (status_kind st') (status_kind st) \<Longrightarrow> \<not> edge (status_kind st) (status_kind st') \<Longrightarrow>
      \<exists>e w1. force_transition M oid st' w = (Inl e, w1) \<and> w_store w1 = w_store w"
proof -
  obtain b ord where b: "memory_live now (w_store w) (order_key oid) = Some b" and d: "decode (mc_orders M) b = Inr ord"
    and st: "status ord = st"
    using assms(2) by (auto simp: stores_status_def)
  obtain r w1 where run: "try_transition_order_status (mc_parse M) memory_backend (mc_orders M) (mc_reservations M)
      (quiet (\<lambda>_. now)) oid st' (\<lambda>ord. ord) w = (r, w1)" by fastforce
  note out = transition_outcome [OF _ _ b d run refl]
  have cod: "codec_ok (mc_orders M)" "encodes_all (mc_orders M)" using assms(1) by (simp_all add: undisturbed_def)
  have run': "force_transition M oid st' w = (case r of Inl e \<Rightarrow> Inl e | Inr x \<Rightarrow> Inr (into_order x), w1)"
    using assms(1) run by (simp add: force_transition_def transition_order_status_def undisturbed_def split: sum.splits)
  have up: "\<not> edge\<^sup>*\<^sup>* (status_kind st') (status_kind st)" if "progress (status_kind st) < progress (status_kind st')"
    using that reach_progress by fastforce
  show "\<exists>ord1 w1. force_transition M oid st' w = (Inr ord1, w1) \<and>
      status ord1 = st' \<and> stores_status (memory_live now) (mc_orders M) (w_store w1) oid st'"
    if "edge (status_kind st) (status_kind st')"
    using out [OF cod] up [OF edge_progress [OF that]] that run' st
    by (auto simp: holds_order_def stores_status_def)
  show "\<exists>e w1. force_transition M oid st' w = (Inl e, w1) \<and> w_store w1 = w_store w"
    if "\<not> edge\<^sup>*\<^sup>* (status_kind st') (status_kind st)" "\<not> edge (status_kind st) (status_kind st')"
    using out [OF cod] that run' st by auto
qed

definition closes_with :: "order_status \<Rightarrow> order_status" where
  "closes_with st = (case st of Created \<Rightarrow> Created | Failed ty m \<Rightarrow> Failed ty m | _ \<Rightarrow> Finalized)"

lemma walk_outcome:
  assumes "undisturbed now M" and "stores_status (memory_live now) (mc_orders M) (w_store w) oid st"
    and "list_all (\<lambda>(a, b). edge (status_kind a) (status_kind b)) (zip (st # sts) sts)"
  shows "stores_status (memory_live now) (mc_orders M) (w_store (snd (transition_through_states M oid sts w))) oid (last (st # sts))"
  using assms(2,3)
proof (induction sts arbitrary: st w)
  case (Cons st1 sts)
  then have "edge (status_kind st) (status_kind st1)" by simp
  from force_outcome(1) [OF assms(1) Cons.prems(1) this] obtain ord1 w1 where
    "force_transition M oid st1 w = (Inr ord1, w1)" "stores_status (memory_live now) (mc_orders M) (w_store w1) oid st1" by blast
  then show ?case using Cons by (auto simp: list_all_iff)
qed simp

lemma refused_kinds:
  "k \<notin> {KSettled, KPreClaimed, KFinalized} \<Longrightarrow> \<not> edge k KFinalized \<and> \<not> edge\<^sup>*\<^sup>* KFinalized k"
  "\<not> edge KCreated KExecuted \<and> \<not> edge\<^sup>*\<^sup>* KExecuted KCreated"
  using reach_from_terminal [of Finalized k] reach_progress [of KExecuted KCreated]
  by (cases k; auto simp: edge_def is_terminal_def)+

text \<open>
  C38: When the chain shows that an order is finished, recovery closes it: with no other task at work,
  publishing the outcome moves the stored order to Finalized through the states between, from Pending,
  Executing, Executed, PostFilled, Settled and PreClaimed. A failed order stays failed. An order still
  Created stays Created: the walk the code starts for it (Executed, Settled, Finalized) is refused by the
  transition table at its first step, the error is only logged, and every later recovery repeats it.
\<close>

theorem finished_orders_are_closed:
  assumes "undisturbed now M" and "stores_status (memory_live now) (mc_orders M) (w_store w) (order_id ord) (status ord)"
  shows "stores_status (memory_live now) (mc_orders M)
    (w_store (snd (publish_recovery_event M E ord ReFinalized w))) (order_id ord) (closes_with (status ord))"
proof -
  let ?S = "\<lambda>w. stores_status (memory_live now) (mc_orders M) (w_store w) (order_id ord)"
  let ?k = "status_kind (status ord)"
  note walk = walk_outcome [OF assms(1)] and force = force_outcome [OF assms]
  show ?thesis
  proof (cases "?k \<in> {KSettled, KPreClaimed, KFinalized}")
    case True
    show ?thesis
    proof (cases "status ord = Finalized")
      case True
      then show ?thesis using assms(2)
        by (simp add: publish_recovery_event_def ensure_correct_state_def target_status_def resume_finalized_def closes_with_def)
    next
      case False
      then have "edge ?k (status_kind Finalized)" using True by (cases "status ord") (auto simp: edge_def)
      from force(1) [OF this] obtain ord1 w1 where "force_transition M (order_id ord) Finalized w = (Inr ord1, w1)"
        "status ord1 = Finalized" "?S w1 Finalized" by blast
      moreover have "closes_with (status ord) = Finalized" using True by (cases "status ord") (auto simp: closes_with_def)
      ultimately show ?thesis using False
        by (simp add: publish_recovery_event_def ensure_correct_state_def target_status_def resume_finalized_def)
    qed
  next
    case False
    then have ne: "status ord \<noteq> Finalized" by auto
    from force(2) [of Finalized] refused_kinds(1) [OF False] obtain e w1 where
      f: "force_transition M (order_id ord) Finalized w = (Inl e, w1)" and same: "w_store w1 = w_store w" by auto
    have S: "?S w1 (status ord)" using assms(2) same by simp
    have pub: "publish_recovery_event M E ord ReFinalized w = ([], resume_finalized M ord w1)"
      using ne f by (simp add: publish_recovery_event_def ensure_correct_state_def target_status_def)
    show ?thesis
    proof (cases "status ord = Created")
      case True
      have "\<exists>e w2. force_transition M (order_id ord) Executed w1 = (Inl e, w2) \<and> w_store w2 = w_store w1"
        by (rule force_outcome(2) [OF assms(1) S]) (use refused_kinds(2) True in auto)
      then show ?thesis using True S by (auto simp: pub resume_finalized_def closes_with_def)
    next
      case other: False
      then show ?thesis
        using walk [OF S, of "[Executed, Settled, Finalized]"] walk [OF S, of "[Settled, Finalized]"] False S
        by (cases "status ord") (auto simp: pub resume_finalized_def closes_with_def edge_def)
    qed
  qed
qed

theorem finished_orders_are_closed_witness:
  "stores_status (memory_live 5) order_codec
     (w_store (snd (publish_recovery_event (calm_machine 5) reverted_env (sample_order Executing) ReFinalized (order_world Executing)))) ''o1'' Finalized \<and>
   stores_status (memory_live 5) order_codec
     (w_store (snd (publish_recovery_event (calm_machine 5) reverted_env (sample_order Created) ReFinalized (order_world Created)))) ''o1'' Created"
proof -
  have calm: "undisturbed 5 (calm_machine 5)" by (simp add: undisturbed_def stored_codecs_ok)
  have st: "stores_status (memory_live 5) (mc_orders (calm_machine 5)) (w_store (order_world st)) (order_id (sample_order st)) (status (sample_order st))" for st
    by (simp add: stores_status_def order_world_live order_codec_def sample_order_def)
  show ?thesis
    using finished_orders_are_closed [OF calm st [of Executing], of reverted_env] finished_orders_are_closed [OF calm st [of Created], of reverted_env]
    by (simp add: sample_order_def closes_with_def)
qed

section \<open>Intents without an order\<close>

lemma exists_live: "memory_exists t m k = Inr (memory_live t m k \<noteq> None)"
  by (auto simp: memory_exists_def memory_live_def split: option.splits)

lemma delete_live: "k' \<noteq> k \<Longrightarrow> memory_live t (snd (memory_delete now m k)) k' = memory_live t m k'"
  by (simp add: memory_delete_def memory_live_def delete_conv')

lemma intents_apart [simp]: "mk_key ''orders'' i \<noteq> mk_key ''intents'' j"
  by (simp add: mk_key_def)

definition without_order :: "nat \<Rightarrow> 'b memory_storage \<Rightarrow> (string \<times> intent) list \<Rightarrow> intent list" where
  "without_order now m rows = map snd (filter (\<lambda>(i, _). memory_live now m (order_key i) = None) rows)"

lemma sort_out_outcome:
  assumes "undisturbed now M"
  shows "\<exists>w'. sort_out_intents M rows acc w = ([], Inr (acc @ without_order now (w_store w) rows), w')"
proof (induction rows arbitrary: acc w)
  case (Cons r rows)
  obtain ident i where r: "r = (ident, i)" by (cases r)
  let ?w1 = "resume (quiet (\<lambda>_. now)) w"
  let ?w2 = "snd (svc_remove (mc_backend M) (mc_sched M) (storage_key_str Intents) ident ?w1)"
  have ex: "svc_exists (mc_backend M) (mc_sched M) (storage_key_str Orders) ident w =
      (Inr (memory_live now (w_store w) (order_key ident) \<noteq> None), ?w1)"
    using assms by (simp add: undisturbed_def svc_exists_def call_read_def exists_live order_key_def w_now_def Let_def)
  have same: "memory_live now (w_store ?w2) (order_key j) = memory_live now (w_store w) (order_key j)" for j
    using assms by (simp add: undisturbed_def svc_remove_def call_write_def Let_def order_key_def delete_live split: prod.splits)
       (metis delete_live intents_apart snd_conv)
  have "without_order now (w_store ?w2) rows = without_order now (w_store w) rows"
    unfolding without_order_def same ..
  then show ?case
    using Cons.IH [of "acc @ [i]" ?w1] Cons.IH [of acc ?w2]
    by (auto simp: r and_then_def call_def ex ignore_def without_order_def simp del: storage_key_str.simps)
qed (simp add: ok_def without_order_def)

lemma recover_orders_total: "\<exists>evs n' w'. recover_orders M E ords n w = (evs, Inr n', w')"
proof (induction ords arbitrary: n w)
  case (Cons ord ords)
  have "\<exists>evs n1 w1. recover_order M E ord n w = (evs, Inr n1, w1)"
    by (auto simp: recover_order_def split: prod.splits sum.splits)
  then obtain evs n1 w1 where one: "recover_order M E ord n w = (evs, Inr n1, w1)" by blast
  show ?case using Cons.IH [of n1 w1] by (auto simp: and_then_def one)
qed (simp add: ok_def)

lemma retrieve_all_quiet:
  assumes "w_store w1 = w_store w" and "fst (svc_retrieve_all memory_backend c (quiet (\<lambda>_. now)) ns w) = Inr rows"
  shows "\<exists>w2. svc_retrieve_all memory_backend c (quiet (\<lambda>_. now)) ns w1 = (Inr rows, w2) \<and> w_store w2 = w_store w"
  using assms by (auto simp: svc_retrieve_all_def svc_query_def call_read_def w_now_def Let_def memory_query_def memory_get_batch_def)

lemma load_active_orders_outcome:
  assumes "undisturbed now M" and "orders_indexed (mc_orders M) (w_store w)"
  shows "\<exists>ords w'. load_active_orders M w = ([], Inr ords, w') \<and> w_store w' = w_store w \<and>
    set ords = {ord. \<exists>i. stored_item (storage_key_str Orders) (mc_orders M) now (w_store w) i ord \<and> \<not> is_terminal (status ord)}"
proof -
  from svc_query_items [OF assms(2) [unfolded orders_indexed_def] storage_key_no_colon, of now "''is_terminal''" "JBool False"]
  obtain rows w' where "svc_query memory_backend (mc_orders M) (quiet (\<lambda>_. now)) (storage_key_str Orders)
      (Equals ''is_terminal'' (JBool False)) w = (Inr rows, w')" "w_store w' = w_store w"
    "set (map snd rows) = {ord. \<exists>i. stored_item (storage_key_str Orders) (mc_orders M) now (w_store w) i ord \<and>
      JBool False \<in> fields_of (Some (order_storage_indexes ord)) ''is_terminal''}"
    by blast
  then show ?thesis
    using assms(1) by (auto simp: load_active_orders_def undisturbed_def and_then_def call_def ok_def order_index_fields)
qed

text \<open>
  Recovery hands back the intents that were stored but never became orders only when some order is
  still open. With an open order the returned intents are exactly those of the stored ones for whose id no
  order is stored, and the call never fails; without one it returns before looking at the intents, so that
  intents left by an idle solver are not processed again.
\<close>

theorem orphaned_intents_need_an_open_order:
  assumes "undisturbed now M" and "orders_indexed (mc_orders M) (w_store w)"
    and open_orders: "open_orders = {ord. \<exists>i. stored_item (storage_key_str Orders) (mc_orders M) now (w_store w) i ord \<and> \<not> is_terminal (status ord)}"
    and intents: "fst (svc_retrieve_all memory_backend ic (quiet (\<lambda>_. now)) (storage_key_str Intents) w) = Inr rows"
  shows "\<exists>evs report w'. recover_state M ic E w = (evs, Inr (report, if open_orders = {} then [] else without_order now (w_store w) rows), w') \<and>
    rr_orphaned_intents report = (if open_orders = {} then 0 else length (without_order now (w_store w) rows))"
proof -
  from load_active_orders_outcome [OF assms(1,2)] obtain ords w1 where
    ld: "load_active_orders M w = ([], Inr ords, w1)" and st: "w_store w1 = w_store w" and ords: "set ords = open_orders"
    unfolding open_orders by blast
  obtain w2 where all: "svc_retrieve_all memory_backend ic (quiet (\<lambda>_. now)) (storage_key_str Intents) w1 = (Inr rows, w2)"
    and st2: "w_store w2 = w_store w" using retrieve_all_quiet [OF st intents] by blast
  obtain w3 where srt: "sort_out_intents M rows [] w2 = ([], Inr (without_order now (w_store w) rows), w3)"
    using sort_out_outcome [OF assms(1), of rows "[]" w2] st2 by auto
  obtain evs n w4 where rec: "recover_orders M E ords 0 w3 = (evs, Inr n, w4)" using recover_orders_total by blast
  have orphaned: "recover_orphaned_intents M ic w1 = ([], Inr (without_order now (w_store w) rows), w3)"
    using assms(1) all srt unfolding recover_orphaned_intents_def undisturbed_def by (simp add: and_then_def call_def)
  show ?thesis
    using ords by (cases "ords = []") (auto simp: recover_state_def and_then_def ld orphaned rec ok_def)
qed

definition lost_intent :: intent where
  "lost_intent = \<lparr>in_id = ''i1'', in_source = ''api'', in_standard = ''eip7683'',
     in_metadata = \<lparr>im_requires_auction = False, im_exclusive_until = None, im_discovered_at = 1\<rparr>,
     in_data = JNull, in_order_bytes = [], in_quote_id = None, in_lock_type = ''permit2_escrow''\<rparr>"

definition lost_codec :: "(intent, stored) codec" where
  "lost_codec = \<lparr>encode = (\<lambda>_. Inr (Inr [])), decode = (\<lambda>_. Inr lost_intent)\<rparr>"

definition lost_world :: "stored memory_storage world" where
  "lost_world = \<lparr>w_store = put_entry 0 memory_new ''intents:i1'' (Inr []) None None, w_tick = 0\<rparr>"

theorem orphaned_intents_need_an_open_order_witness:
  "(\<exists>evs report w'. recover_state (calm_machine 5) lost_codec reverted_env lost_world = (evs, Inr (report, []), w')) \<and>
   without_order 5 (w_store lost_world) [(''i1'', lost_intent)] = [lost_intent]"
proof -
  have calm: "undisturbed 5 (calm_machine 5)" by (simp add: undisturbed_def stored_codecs_ok)
  have live: "memory_live t (w_store lost_world) k = (if k = ''intents:i1'' then Some (Inr []) else None)" for t k
    by (simp add: lost_world_def memory_live_put until_ttl_def)
  have empty: "memory_table (memory_new :: stored memory_storage) = Map.empty"
    by (auto simp: memory_table_def memory_new_def)
  have "memory_ok memory_new" using orders_indexed_new by (simp add: orders_indexed_def rows_indexed_ok)
  then have ix: "orders_indexed (mc_orders (calm_machine 5)) (w_store lost_world)"
    using empty by (auto simp: orders_indexed_def rows_indexed_def lost_world_def memory_ok_put table_put mk_key_def)
  have none: "{} = {ord. \<exists>i. stored_item (storage_key_str Orders) (mc_orders (calm_machine 5)) 5 (w_store lost_world) i ord \<and>
      \<not> is_terminal (status ord)}"
    by (simp add: stored_item_def live mk_key_def)
  have keys: "keys_for_namespace t [(''intents:i1'', \<lparr>se_value = v :: stored, se_expires_at = None\<rparr>)] ''intents'' = {''intents:i1''}" for t v
    by (auto simp: keys_for_namespace_def is_expired_def starts_with_def)
  have "fst (svc_retrieve_all memory_backend lost_codec (quiet (\<lambda>_. 5)) (storage_key_str Intents) lost_world) = Inr [(''i1'', lost_intent)]"
    by (simp add: svc_retrieve_all_def svc_query_def call_read_def Let_def memory_query_def memory_get_batch_def lost_world_def
        put_entry_def memory_new_def indexed_query_keys_def keys mk_entry_def is_expired_def lost_codec_def id_of_key_def)
  from orphaned_intents_need_an_open_order [OF calm ix none this, of reverted_env] show ?thesis
    by (auto simp: without_order_def live order_key_def mk_key_def)
qed

end
