(* ===== verification/Settlement_Config.thy ===== *)
theory Settlement_Config
  imports Settlement_Service
begin

text \<open>
  The configuration of settlements: the tables of oracles and routes of
  \<^verbatim>\<open>crates/solver-settlement/src/utils.rs\<close> with the tracker of settlement messages, and the time an
  order must leave before it expires (\<^verbatim>\<open>admission.rs\<close>).  The \<^verbatim>\<open>hex\<close> crate is a parameter; JSON objects
  are association lists in the order in which they are iterated.
\<close>

section \<open>Reading JSON\<close>

definition json_object :: "json \<Rightarrow> (string \<times> json) list option" where
  "json_object j = (case j of JObject kvs \<Rightarrow> Some kvs | _ \<Rightarrow> None)"

definition json_field :: "json \<Rightarrow> string \<Rightarrow> json option" where
  "json_field j k = (case j of JObject kvs \<Rightarrow> map_of kvs k | _ \<Rightarrow> None)"

definition json_array :: "json \<Rightarrow> json list option" where
  "json_array j = (case j of JArray vs \<Rightarrow> Some vs | _ \<Rightarrow> None)"

definition json_str :: "json \<Rightarrow> string option" where
  "json_str j = (case j of JString s \<Rightarrow> Some s | _ \<Rightarrow> None)"

definition json_u64 :: "json \<Rightarrow> nat option" where
  "json_u64 j = (case j of JNumber i \<Rightarrow> if 0 \<le> i \<and> i < 2 ^ 64 then Some (nat i) else None | _ \<Rightarrow> None)"

definition json_i64 :: "json \<Rightarrow> int option" where
  "json_i64 j = (case j of JNumber i \<Rightarrow> if - (2 ^ 63) \<le> i \<and> i < 2 ^ 63 then Some i else None | _ \<Rightarrow> None)"

text \<open>\<open>i as u64\<close>\<close>

definition i64_as_u64 :: "int \<Rightarrow> nat" where
  "i64_as_u64 i = nat (i mod 2 ^ 64)"

text \<open>The operator \<^verbatim>\<open>?\<close>\<close>

definition and_ok :: "('e, 'a) result \<Rightarrow> ('a \<Rightarrow> ('e, 'b) result) \<Rightarrow> ('e, 'b) result" where
  "and_ok r f = (case r of Inl e \<Rightarrow> Inl e | Inr a \<Rightarrow> f a)"

lemma and_ok_Inr: "and_ok r f = Inr b \<longleftrightarrow> (\<exists>a. r = Inr a \<and> f a = Inr b)"
  by (auto simp: and_ok_def split: sum.splits)

text \<open>\<open>collect::<Result<Vec<_>, _>>\<close>\<close>

fun collect_results :: "('a \<Rightarrow> ('e, 'b) result) \<Rightarrow> 'a list \<Rightarrow> ('e, 'b list) result" where
  "collect_results f [] = Inr []"
| "collect_results f (x # xs) =
     (case f x of
        Inl e \<Rightarrow> Inl e
      | Inr y \<Rightarrow> (case collect_results f xs of Inl e \<Rightarrow> Inl e | Inr ys \<Rightarrow> Inr (y # ys)))"

section \<open>Tables keyed by chain id\<close>

definition quoted :: "string \<Rightarrow> string" where
  "quoted s = CHR 0x27 # s @ [CHR 0x27]"

text \<open>The loop all table parsers share: the key is parsed first, later entries replace earlier ones.\<close>

fun parse_entries ::
  "(nat \<Rightarrow> json \<Rightarrow> (settlement_service_error, 'v) result) \<Rightarrow> (string \<times> json) list \<Rightarrow> (nat \<times> 'v) list
   \<Rightarrow> (settlement_service_error, (nat \<times> 'v) list) result" where
  "parse_entries entry [] acc = Inr acc"
| "parse_entries entry ((k, j) # rest) acc =
     (case parse_uint u64_bound k of
        Inl e \<Rightarrow> Inl (ValidationFailed (''Invalid chain ID '' @ quoted k @ '': '' @ e))
      | Inr chain \<Rightarrow>
          (case entry chain j of
             Inl e \<Rightarrow> Inl e
           | Inr v \<Rightarrow> parse_entries entry rest (AList.update chain v acc)))"

definition parse_table ::
  "(nat \<Rightarrow> json \<Rightarrow> (settlement_service_error, 'v) result) \<Rightarrow> json \<Rightarrow> (settlement_service_error, (nat \<times> 'v) list) result" where
  "parse_table entry table = (case json_object table of None \<Rightarrow> Inr [] | Some kvs \<Rightarrow> parse_entries entry kvs [])"

definition EVM_LENGTH :: nat where "EVM_LENGTH = 20"

definition BYTES32_LENGTH :: nat where "BYTES32_LENGTH = 32"

definition parse_config_address :: "(string \<Rightarrow> (string, bytes) result) \<Rightarrow> string \<Rightarrow> (string, bytes) result" where
  "parse_config_address hexd s =
     (let clean = (if starts_with ''0x'' s then drop 2 s else s)
      in if clean = [] then Inl ''Address cannot be empty''
         else if length clean > BYTES32_LENGTH * 2
         then Inl (''Invalid address length: expected up to 32 bytes, got '' @ to_dec (length clean) @ '' hex characters'')
         else let padded = (if length clean \<le> EVM_LENGTH * 2 then pad_left 40 clean else pad_left 64 clean)
              in (case hexd padded of
                    Inl e \<Rightarrow> Inl (''Invalid hex: '' @ e)
                  | Inr b \<Rightarrow>
                      if length b \<noteq> EVM_LENGTH \<and> length b \<noteq> BYTES32_LENGTH
                      then Inl (''Invalid address length: expected 20 or 32 bytes, got '' @ to_dec (length b))
                      else Inr b))"

definition oracle_entry :: "(string \<Rightarrow> (string, bytes) result) \<Rightarrow> nat \<Rightarrow> json \<Rightarrow> (settlement_service_error, bytes list) result" where
  "oracle_entry hexd chain j =
     (case json_array j of
        None \<Rightarrow> Inl (ValidationFailed (''Oracles for chain '' @ to_dec chain @ '' must be an array''))
      | Some vs \<Rightarrow>
          (case collect_results (\<lambda>v. case json_str v of
                    None \<Rightarrow> Inl (ValidationFailed (''Oracle address must be string for chain '' @ to_dec chain))
                  | Some s \<Rightarrow>
                      (case parse_config_address hexd s of
                         Inl e \<Rightarrow> Inl (ValidationFailed (''Invalid oracle address for chain '' @ to_dec chain @ '': '' @ e))
                       | Inr a \<Rightarrow> Inr a)) vs of
             Inl e \<Rightarrow> Inl e
           | Inr oracles \<Rightarrow>
               if oracles = [] then Inl (ValidationFailed (''At least one oracle address required for chain '' @ to_dec chain))
               else Inr oracles))"

definition parse_oracle_table ::
  "(string \<Rightarrow> (string, bytes) result) \<Rightarrow> json \<Rightarrow> (settlement_service_error, (nat \<times> bytes list) list) result" where
  "parse_oracle_table hexd = parse_table (oracle_entry hexd)"

definition route_entry :: "nat \<Rightarrow> json \<Rightarrow> (settlement_service_error, nat list) result" where
  "route_entry chain j =
     (case json_array j of
        None \<Rightarrow> Inl (ValidationFailed (''Destinations for chain '' @ to_dec chain @ '' must be an array''))
      | Some vs \<Rightarrow>
          (case collect_results (\<lambda>v. case json_i64 v of
                    None \<Rightarrow> Inl (ValidationFailed (''Destination chain ID must be integer for route from chain '' @ to_dec chain))
                  | Some i \<Rightarrow> Inr (i64_as_u64 i)) vs of
             Inl e \<Rightarrow> Inl e
           | Inr dests \<Rightarrow>
               if dests = [] then Inl (ValidationFailed (''At least one destination required for route from chain '' @ to_dec chain))
               else Inr dests))"

definition parse_routes_table :: "json \<Rightarrow> (settlement_service_error, (nat \<times> nat list) list) result" where
  "parse_routes_table = parse_table route_entry"

definition address_entry :: "(string \<Rightarrow> (string, bytes) result) \<Rightarrow> nat \<Rightarrow> json \<Rightarrow> (settlement_service_error, bytes) result" where
  "address_entry hexd chain j =
     (case json_str j of
        None \<Rightarrow> Inl (ValidationFailed (''Address must be string for chain '' @ to_dec chain))
      | Some s \<Rightarrow>
          (case parse_config_address hexd s of
             Inl e \<Rightarrow> Inl (ValidationFailed (''Invalid address for chain '' @ to_dec chain @ '': '' @ e))
           | Inr a \<Rightarrow> Inr a))"

definition parse_address_table ::
  "(string \<Rightarrow> (string, bytes) result) \<Rightarrow> json \<Rightarrow> (settlement_service_error, (nat \<times> bytes) list) result" where
  "parse_address_table hexd = parse_table (address_entry hexd)"

definition parse_selection_strategy :: "string option \<Rightarrow> oracle_selection_strategy" where
  "parse_selection_strategy v =
     (if v = Some ''First'' then First
      else if v = Some ''RoundRobin'' then RoundRobin
      else if v = Some ''Random'' then Random
      else First)"

fun validate_routes ::
  "(nat \<times> bytes list) list \<Rightarrow> (nat \<times> bytes list) list \<Rightarrow> (nat \<times> nat list) list \<Rightarrow> (settlement_service_error, unit) result" where
  "validate_routes ins outs [] = Inr ()"
| "validate_routes ins outs ((src, dests) # routes) =
     (if map_of ins src = None
      then Inl (ValidationFailed (''Route from chain '' @ to_dec src @ '' has no input oracle configured''))
      else (case find (\<lambda>d. map_of outs d = None) dests of
              Some d \<Rightarrow> Inl (ValidationFailed (''Route from chain '' @ to_dec src @ '' to chain '' @ to_dec d @
                          '' has no output oracle configured''))
            | None \<Rightarrow> validate_routes ins outs routes))"

definition required_field :: "json \<Rightarrow> string \<Rightarrow> string \<Rightarrow> (settlement_service_error, json) result" where
  "required_field j k message = (case json_field j k of None \<Rightarrow> Inl (ValidationFailed message) | Some v \<Rightarrow> Inr v)"

definition parse_oracle_config :: "(string \<Rightarrow> (string, bytes) result) \<Rightarrow> json \<Rightarrow> (settlement_service_error, oracle_config) result" where
  "parse_oracle_config hexd cfg =
     and_ok (required_field cfg ''oracles'' (''Missing '' @ quoted ''oracles'' @ '' section'')) (\<lambda>oracles.
     and_ok (required_field oracles ''input'' (''Missing '' @ quoted ''oracles.input'')) (\<lambda>input.
     and_ok (parse_oracle_table hexd input) (\<lambda>ins.
     and_ok (required_field oracles ''output'' (''Missing '' @ quoted ''oracles.output'')) (\<lambda>output.
     and_ok (parse_oracle_table hexd output) (\<lambda>outs.
     and_ok (required_field cfg ''routes'' (''Missing '' @ quoted ''routes'' @ '' section'')) (\<lambda>rt.
     and_ok (parse_routes_table rt) (\<lambda>routes.
     and_ok (validate_routes ins outs routes) (\<lambda>_.
     Inr \<lparr>oc_input_oracles = ins, oc_output_oracles = outs, oc_routes = routes,
          oc_selection_strategy = parse_selection_strategy (Option.bind (json_field cfg ''oracle_selection_strategy'') json_str)\<rparr>))))))))"

section \<open>Parsed configurations are well formed\<close>

lemma collect_results_Inr: "collect_results f xs = Inr ys \<Longrightarrow> length ys = length xs \<and> (\<forall>y \<in> set ys. \<exists>x \<in> set xs. f x = Inr y)"
  by (induction xs arbitrary: ys) (fastforce split: sum.splits)+

text \<open>What holds of every entry the entry parser accepts holds of every entry of the table.\<close>

definition table_ok :: "(nat \<Rightarrow> 'v \<Rightarrow> bool) \<Rightarrow> (nat \<times> 'v) list \<Rightarrow> bool" where
  "table_ok P t \<longleftrightarrow> distinct (map fst t) \<and> (\<forall>chain v. map_of t chain = Some v \<longrightarrow> chain < u64_bound \<and> P chain v)"

lemma parse_entries_ok:
  assumes "\<And>chain j v. entry chain j = Inr v \<Longrightarrow> P chain v"
  shows "table_ok P acc \<Longrightarrow> parse_entries entry kvs acc = Inr t \<Longrightarrow> table_ok P t"
proof (induction kvs arbitrary: acc)
  case (Cons kv rest)
  obtain k j where kv: "kv = (k, j)" by (cases kv)
  from Cons.prems(2) obtain chain v where chain: "parse_uint u64_bound k = Inr chain" and v: "entry chain j = Inr v"
    and rest: "parse_entries entry rest (AList.update chain v acc) = Inr t"
    by (auto simp: kv split: sum.splits)
  have "chain < u64_bound" using parse_uint_bound [OF chain] by simp
  then have "table_ok P (AList.update chain v acc)"
    using Cons.prems(1) assms [OF v] by (auto simp: table_ok_def distinct_update update_conv')
  then show ?case using rest by (rule Cons.IH)
qed simp

lemma parse_table_ok:
  assumes "\<And>chain j v. entry chain j = Inr v \<Longrightarrow> P chain v" and "parse_table entry table = Inr t"
  shows "table_ok P t"
  using assms parse_entries_ok [of entry P "[]" _ t]
  by (auto simp: parse_table_def table_ok_def split: option.splits)

definition oracle_address_ok :: "bytes \<Rightarrow> bool" where
  "oracle_address_ok a \<longleftrightarrow> length a = EVM_LENGTH \<or> length a = BYTES32_LENGTH"

lemma parse_config_address_ok: "parse_config_address hexd s = Inr a \<Longrightarrow> oracle_address_ok a"
  by (auto simp: parse_config_address_def oracle_address_ok_def Let_def split: if_splits sum.splits)

lemma oracle_entry_ok: "oracle_entry hexd chain j = Inr as \<Longrightarrow> as \<noteq> [] \<and> list_all oracle_address_ok as"
  by (auto simp: oracle_entry_def list_all_iff split: option.splits sum.splits if_splits
      dest!: collect_results_Inr bspec dest: parse_config_address_ok)

lemma route_entry_ok: "route_entry chain j = Inr ds \<Longrightarrow> ds \<noteq> [] \<and> list_all (\<lambda>d. d < u64_bound) ds"
  by (auto simp: route_entry_def list_all_iff i64_as_u64_def nat_less_iff split: option.splits sum.splits if_splits
      dest!: collect_results_Inr bspec)

lemma validate_routes_ok:
  "validate_routes ins outs routes = Inr () \<Longrightarrow> (src, dests) \<in> set routes \<Longrightarrow>
     map_of ins src \<noteq> None \<and> (\<forall>d \<in> set dests. map_of outs d \<noteq> None)"
  by (induction routes) (auto simp: find_None_iff split: if_splits option.splits)

definition wf_oracle_config :: "oracle_config \<Rightarrow> bool" where
  "wf_oracle_config cfg \<longleftrightarrow>
     table_ok (\<lambda>_ as. as \<noteq> [] \<and> list_all oracle_address_ok as) (oc_input_oracles cfg) \<and>
     table_ok (\<lambda>_ as. as \<noteq> [] \<and> list_all oracle_address_ok as) (oc_output_oracles cfg) \<and>
     table_ok (\<lambda>src ds. ds \<noteq> [] \<and> map_of (oc_input_oracles cfg) src \<noteq> None \<and>
       list_all (\<lambda>d. d < u64_bound \<and> map_of (oc_output_oracles cfg) d \<noteq> None) ds) (oc_routes cfg)"

lemma parse_oracle_config_wf: "parse_oracle_config hexd j = Inr cfg \<Longrightarrow> wf_oracle_config cfg"
proof -
  assume "parse_oracle_config hexd j = Inr cfg"
  then obtain input outp rt ins outs routes strat where ins: "parse_oracle_table hexd input = Inr ins"
    and outs: "parse_oracle_table hexd outp = Inr outs" and rt: "parse_routes_table rt = Inr routes"
    and val: "validate_routes ins outs routes = Inr ()"
    and cfg: "cfg = \<lparr>oc_input_oracles = ins, oc_output_oracles = outs, oc_routes = routes, oc_selection_strategy = strat\<rparr>"
    by (auto simp: parse_oracle_config_def and_ok_Inr)
  have oracles: "table_ok (\<lambda>_ as. as \<noteq> [] \<and> list_all oracle_address_ok as) t" if "parse_oracle_table hexd j = Inr t" for j t
    by (rule parse_table_ok [OF _ that [unfolded parse_oracle_table_def]]) (auto dest: oracle_entry_ok)
  have "table_ok (\<lambda>_ ds. ds \<noteq> [] \<and> list_all (\<lambda>d. d < u64_bound) ds) routes"
    by (rule parse_table_ok [OF _ rt [unfolded parse_routes_table_def]]) (auto dest: route_entry_ok)
  then have "table_ok (\<lambda>src ds. ds \<noteq> [] \<and> map_of ins src \<noteq> None \<and> list_all (\<lambda>d. d < u64_bound \<and> map_of outs d \<noteq> None) ds) routes"
    using validate_routes_ok [OF val] by (fastforce simp: table_ok_def list_all_iff dest: map_of_SomeD)
  then show ?thesis
    using oracles [OF ins] oracles [OF outs] by (simp add: wf_oracle_config_def cfg)
qed

lemma select_oracle_from:
  assumes "oracles \<noteq> []"
  shows "\<exists>a. select_oracle cfg nanos oracles ctx = Some a \<and> a \<in> set oracles"
  using assms by (auto simp: select_oracle_def Let_def split: oracle_selection_strategy.splits)

text \<open>
  C30: A settlement configuration that parses is well formed: chain ids are unique 64-bit numbers, every
  listed chain has at least one oracle, every oracle is an address of 20 or 32 bytes, every route starts at
  a chain with input oracles, has at least one destination, and all its destinations have output oracles.
  Hence for every route the service calls supported, whatever the selection strategy and context, an oracle
  is selected on both sides, is a configured one, and has a valid length.
\<close>

theorem parsed_config_serves_every_route:
  assumes "parse_oracle_config hexd j = Inr cfg"
  shows "wf_oracle_config cfg \<and>
    (is_route_supported cfg i d \<longrightarrow>
      (\<exists>a b. select_oracle cfg nanos (get_input_oracles cfg i) ctx = Some a \<and> is_input_oracle_supported cfg i a \<and>
        select_oracle cfg nanos (get_output_oracles cfg d) ctx = Some b \<and> is_output_oracle_supported cfg d b \<and>
        oracle_address_ok a \<and> oracle_address_ok b))"
proof -
  note wf = parse_oracle_config_wf [OF assms]
  have "\<exists>a b. select_oracle cfg nanos (get_input_oracles cfg i) ctx = Some a \<and> is_input_oracle_supported cfg i a \<and>
      select_oracle cfg nanos (get_output_oracles cfg d) ctx = Some b \<and> is_output_oracle_supported cfg d b \<and>
      oracle_address_ok a \<and> oracle_address_ok b" if route: "is_route_supported cfg i d"
  proof -
    from route obtain ds where "map_of (oc_routes cfg) i = Some ds" "d \<in> set ds"
      by (auto simp: is_route_supported_def split: option.splits)
    then obtain as bs where as: "map_of (oc_input_oracles cfg) i = Some as" and bs: "map_of (oc_output_oracles cfg) d = Some bs"
      using wf unfolding wf_oracle_config_def table_ok_def list_all_iff by blast
    then have ok: "as \<noteq> [] \<and> list_all oracle_address_ok as" "bs \<noteq> [] \<and> list_all oracle_address_ok bs"
      using wf unfolding wf_oracle_config_def table_ok_def by blast+
    obtain a where "select_oracle cfg nanos as ctx = Some a" "a \<in> set as" using select_oracle_from ok(1) by blast
    moreover obtain b where "select_oracle cfg nanos bs ctx = Some b" "b \<in> set bs" using select_oracle_from ok(2) by blast
    ultimately show ?thesis
      using as bs ok by (auto simp: get_input_oracles_def get_output_oracles_def is_input_oracle_supported_def
          is_output_oracle_supported_def list_all_iff)
  qed
  then show ?thesis using wf by blast
qed

definition route_config :: json where
  "route_config = JObject [(''oracles'', JObject [(''input'', JObject [(''1'', JArray [JString ''0x0a''])]),
       (''output'', JObject [(''137'', JArray [JString ''0x0b''])])]),
     (''routes'', JObject [(''1'', JArray [JNumber 137])])]"

theorem parsed_config_serves_every_route_witness:
  "\<exists>cfg a b. parse_oracle_config (\<lambda>_. Inr (replicate 20 7)) route_config = Inr cfg \<and>
     select_oracle cfg 0 (get_input_oracles cfg 1) None = Some a \<and> select_oracle cfg 0 (get_output_oracles cfg 137) None = Some b \<and>
     oracle_address_ok a \<and> oracle_address_ok b"
proof -
  let ?cfg = "\<lparr>oc_input_oracles = [(1, [replicate 20 7])], oc_output_oracles = [(137, [replicate 20 7])], oc_routes = [(1, [137])],
    oc_selection_strategy = First\<rparr>"
  have nums: "parse_uint u64_bound ''1'' = Inr 1" "parse_uint u64_bound ''137'' = Inr 137"
    by (simp_all add: parse_uint_def digit_of_def)
  have run: "parse_oracle_config (\<lambda>_. Inr (replicate 20 7)) route_config = Inr ?cfg"
    by (simp add: parse_oracle_config_def route_config_def and_ok_def required_field_def json_field_def parse_oracle_table_def
        parse_table_def json_object_def nums [simplified] oracle_entry_def json_array_def json_str_def parse_config_address_def
        starts_with_def BYTES32_LENGTH_def EVM_LENGTH_def parse_routes_table_def route_entry_def json_i64_def i64_as_u64_def
        parse_selection_strategy_def Let_def)
  have "is_route_supported ?cfg 1 137" by (simp add: is_route_supported_def)
  then show ?thesis
    using parsed_config_serves_every_route [OF run, of 1 137 0 None] run by blast
qed

section \<open>The time an order must leave\<close>

definition DEFAULT_BROADCASTER_PROOF_WAIT_SECONDS :: nat where "DEFAULT_BROADCASTER_PROOF_WAIT_SECONDS = 30"

definition DEFAULT_BROADCASTER_PROOF_TIMEOUT_SECONDS :: nat where "DEFAULT_BROADCASTER_PROOF_TIMEOUT_SECONDS = 30"

definition DEFAULT_BROADCASTER_FINALITY_BLOCKS :: nat where "DEFAULT_BROADCASTER_FINALITY_BLOCKS = 20"

definition DEFAULT_SETTLEMENT_SAFETY_BUFFER_SECONDS :: nat where "DEFAULT_SETTLEMENT_SAFETY_BUFFER_SECONDS = 90"

definition DEFAULT_BLOCK_TIME_SECONDS :: nat where "DEFAULT_BLOCK_TIME_SECONDS = 12"

record route_expiry_inputs =
  re_input_oracle :: bytes
  re_origin_chain_id :: nat
  re_output_chain_ids :: "nat list"

definition parse_optional_u64 :: "json option \<Rightarrow> nat \<Rightarrow> nat" where
  "parse_optional_u64 v d = (case Option.bind v json_u64 of None \<Rightarrow> d | Some n \<Rightarrow> n)"

definition parse_chain_u64_table :: "json option \<Rightarrow> (nat \<times> nat) list" where
  "parse_chain_u64_table v =
     (case Option.bind v json_object of
        None \<Rightarrow> []
      | Some kvs \<Rightarrow>
          foldl (\<lambda>parsed (k, j). case (parse_uint u64_bound k, json_u64 j) of
                   (Inr chain, Some n) \<Rightarrow> AList.update chain n parsed
                 | _ \<Rightarrow> parsed) [] kvs)"

definition cross_chain_outputs :: "route_expiry_inputs \<Rightarrow> nat list" where
  "cross_chain_outputs inputs = filter (\<lambda>d. d \<noteq> re_origin_chain_id inputs) (re_output_chain_ids inputs)"

definition implementation_supports_route ::
  "(string \<Rightarrow> (string, bytes) result) \<Rightarrow> json \<Rightarrow> route_expiry_inputs \<Rightarrow> bool" where
  "implementation_supports_route hexd cfg inputs =
     (if cross_chain_outputs inputs = [] then False
      else (case parse_oracle_config hexd cfg of
              Inl _ \<Rightarrow> False
            | Inr oc \<Rightarrow>
                (case map_of (oc_input_oracles oc) (re_origin_chain_id inputs) of
                   None \<Rightarrow> False
                 | Some oracles \<Rightarrow>
                     if re_input_oracle inputs \<notin> set oracles then False
                     else (case map_of (oc_routes oc) (re_origin_chain_id inputs) of
                             None \<Rightarrow> False
                           | Some dests \<Rightarrow>
                               list_all (\<lambda>d. d \<in> set dests \<and>
                                   (case map_of (oc_output_oracles oc) d of None \<Rightarrow> False | Some as \<Rightarrow> as \<noteq> []))
                                 (cross_chain_outputs inputs)))))"

definition estimated_block_time_seconds :: "nat \<Rightarrow> (nat \<times> nat) list \<Rightarrow> nat" where
  "estimated_block_time_seconds chain block_times =
     (case map_of block_times chain of
        Some custom \<Rightarrow> max custom 1
      | None \<Rightarrow>
          if chain \<in> {10, 11155420, 8453, 84532, 7777777} then 2
          else if chain \<in> {42161, 421614} then 2
          else DEFAULT_BLOCK_TIME_SECONDS)"

definition chain_finality_seconds :: "nat \<Rightarrow> (nat \<times> nat) list \<Rightarrow> (nat \<times> nat) list \<Rightarrow> nat \<Rightarrow> nat" where
  "chain_finality_seconds default_blocks finality_blocks block_times chain =
     saturating_mul u64_bound (case map_of finality_blocks chain of None \<Rightarrow> default_blocks | Some n \<Rightarrow> n)
       (estimated_block_time_seconds chain block_times)"

definition estimate_broadcaster_expiry_buffer_seconds ::
  "route_expiry_inputs \<Rightarrow> json \<Rightarrow> nat \<Rightarrow> (nat \<times> string) option" where
  "estimate_broadcaster_expiry_buffer_seconds inputs cfg poll =
     (case json_object cfg of
        None \<Rightarrow> None
      | Some table \<Rightarrow>
          (let proof_wait = parse_optional_u64 (map_of table ''proof_wait_time_seconds'') DEFAULT_BROADCASTER_PROOF_WAIT_SECONDS;
               proof_timeout = parse_optional_u64 (map_of table ''storage_proof_timeout_seconds'') DEFAULT_BROADCASTER_PROOF_TIMEOUT_SECONDS;
               default_blocks = parse_optional_u64 (map_of table ''default_finality_blocks'') DEFAULT_BROADCASTER_FINALITY_BLOCKS;
               finality_blocks = parse_chain_u64_table (map_of table ''finality_blocks'');
               block_times = parse_chain_u64_table (map_of table ''chain_block_time_seconds'');
               safety = parse_optional_u64 (map_of table ''intent_safety_buffer_seconds'') DEFAULT_SETTLEMENT_SAFETY_BUFFER_SECONDS;
               finality = foldl (\<lambda>m d. max m (chain_finality_seconds default_blocks finality_blocks block_times d)) 0
                            (cross_chain_outputs inputs)
           in if cross_chain_outputs inputs = [] then None
              else let window = saturating_mul u64_bound poll 2;
                       required = saturating_add u64_bound (saturating_add u64_bound (saturating_add u64_bound
                                    (saturating_add u64_bound proof_wait finality) proof_timeout) window) safety
                   in Some (required, ''proof_wait='' @ to_dec proof_wait @ ''s + finality='' @ to_dec finality @ ''s + proof_timeout='' @
                        to_dec proof_timeout @ ''s + poll_window='' @ to_dec window @ ''s + safety='' @ to_dec safety @ ''s'')))"

text \<open>What one implementation asks for; the configured minimum replaces the estimate.\<close>

definition implementation_window ::
  "(string \<Rightarrow> (string, bytes) result) \<Rightarrow> route_expiry_inputs \<Rightarrow> nat \<Rightarrow> string option \<Rightarrow> string \<times> json \<Rightarrow> (nat \<times> string) option" where
  "implementation_window hexd inputs poll pinned = (\<lambda>(nm, cfg).
     if (case pinned of Some p \<Rightarrow> nm \<noteq> p | None \<Rightarrow> False) then None
     else if \<not> implementation_supports_route hexd cfg inputs then None
     else (case Option.bind (json_field cfg ''intent_min_expiry_seconds'') json_u64 of
             Some n \<Rightarrow> Some (n, nm @ '': explicit intent_min_expiry_seconds='' @ to_dec n @ ''s'')
           | None \<Rightarrow>
               if nm = ''broadcaster''
               then map_option (\<lambda>(n, b). (n, nm @ '': '' @ b)) (estimate_broadcaster_expiry_buffer_seconds inputs cfg poll)
               else None))"

text \<open>\<open>max_by_key\<close>: the last of the largest.\<close>

fun max_window :: "(nat \<times> string) list \<Rightarrow> (nat \<times> string) option" where
  "max_window [] = None"
| "max_window (x # xs) = (case max_window xs of None \<Rightarrow> Some x | Some y \<Rightarrow> if fst x > fst y then Some x else Some y)"

definition estimate_required_expiry_window_for_route ::
  "(string \<Rightarrow> (string, bytes) result) \<Rightarrow> route_expiry_inputs \<Rightarrow> (string \<times> json) list \<Rightarrow> nat \<Rightarrow> string option \<Rightarrow> (nat \<times> string) option" where
  "estimate_required_expiry_window_for_route hexd inputs impls poll pinned =
     max_window (List.map_filter (implementation_window hexd inputs poll pinned) impls)"

definition estimate_required_expiry_window_seconds ::
  "(string \<Rightarrow> (string, bytes) result) \<Rightarrow> eip7683_order_data \<Rightarrow> (string \<times> json) list \<Rightarrow> nat \<Rightarrow> string option \<Rightarrow> (nat \<times> string) option" where
  "estimate_required_expiry_window_seconds hexd od impls poll pinned =
     (case (result_ok (parse_address hexd (eod_input_oracle od)), u64_try_from (eod_origin_chain_id od),
            those (map (\<lambda>out. u64_try_from (mo_chain_id out)) (eod_outputs od))) of
        (Some oracle, Some origin, Some outs) \<Rightarrow>
          estimate_required_expiry_window_for_route hexd
            \<lparr>re_input_oracle = oracle, re_origin_chain_id = origin, re_output_chain_ids = outs\<rparr> impls poll pinned
      | _ \<Rightarrow> None)"

lemma max_window_max:
  "max_window ws = Some w \<Longrightarrow> w \<in> set ws \<and> (\<forall>v \<in> set ws. fst v \<le> fst w)"
proof (induction ws arbitrary: w)
  case (Cons x ws)
  show ?case
  proof (cases "max_window ws")
    case None
    then have "ws = []" by (cases ws) (auto split: option.splits if_splits)
    then show ?thesis using Cons.prems by simp
  next
    case (Some y)
    then show ?thesis using Cons.IH [OF Some] Cons.prems by (auto split: if_splits)
  qed
qed simp

lemma max_window_None: "max_window ws = None \<longleftrightarrow> ws = []"
  by (cases ws) (auto split: option.splits)

lemma foldl_max_ge: "a \<le> foldl (\<lambda>m d. max m (f d)) a ds" for f :: "nat \<Rightarrow> nat"
  by (induction ds arbitrary: a) (auto intro: order_trans [OF max.cobounded1])

lemma foldl_max_elem: "d \<in> set ds \<Longrightarrow> f d \<le> foldl (\<lambda>m d. max m (f d)) a ds" for f :: "nat \<Rightarrow> nat"
  by (induction ds arbitrary: a) (auto intro: order_trans [OF max.cobounded2 foldl_max_ge])

lemma saturated_sum_ge:
  "f \<le> m \<Longrightarrow> min (f + 2 * poll) (B - 1) \<le> saturating_add B (saturating_add B (saturating_add B
     (saturating_add B a m) b) (saturating_mul B poll 2)) c"
  by (auto simp: saturating_add_def saturating_mul_def min_def)

text \<open>The window the broadcaster asks for: the slowest destination decides.\<close>

lemma broadcaster_window:
  assumes "estimate_broadcaster_expiry_buffer_seconds inputs (JObject table) poll = Some (n, why)"
    and "d \<in> set (cross_chain_outputs inputs)"
  shows "min (chain_finality_seconds (parse_optional_u64 (map_of table ''default_finality_blocks'') DEFAULT_BROADCASTER_FINALITY_BLOCKS)
      (parse_chain_u64_table (map_of table ''finality_blocks'')) (parse_chain_u64_table (map_of table ''chain_block_time_seconds'')) d
      + 2 * poll) (u64_bound - 1) \<le> n"
proof -
  let ?f = "chain_finality_seconds (parse_optional_u64 (map_of table ''default_finality_blocks'') DEFAULT_BROADCASTER_FINALITY_BLOCKS)
      (parse_chain_u64_table (map_of table ''finality_blocks'')) (parse_chain_u64_table (map_of table ''chain_block_time_seconds''))"
  let ?m = "foldl (\<lambda>m d. max m (?f d)) 0 (cross_chain_outputs inputs)"
  have "?f d \<le> ?m" by (rule foldl_max_elem [OF assms(2)])
  moreover have "\<exists>a b c. n = saturating_add u64_bound (saturating_add u64_bound (saturating_add u64_bound
      (saturating_add u64_bound a ?m) b) (saturating_mul u64_bound poll 2)) c"
    using assms(1) by (auto simp: estimate_broadcaster_expiry_buffer_seconds_def json_object_def Let_def split: if_splits)
  ultimately show ?thesis using saturated_sum_ge by blast
qed

lemma required_window_max:
  assumes "estimate_required_expiry_window_for_route hexd inputs impls poll pinned = r"
    and "impl \<in> set impls" and "implementation_window hexd inputs poll pinned impl = Some v"
  shows "\<exists>w. r = Some w \<and> fst v \<le> fst w"
proof -
  have "v \<in> set (List.map_filter (implementation_window hexd inputs poll pinned) impls)"
    using assms(2,3) by (force simp: map_filter_def)
  moreover from this obtain w where "r = Some w"
    using assms(1) max_window_None by (cases r) (auto simp: estimate_required_expiry_window_for_route_def)
  ultimately show ?thesis
    using assms(1) max_window_max unfolding estimate_required_expiry_window_for_route_def by blast
qed

section \<open>Settlement messages\<close>

text \<open>The tracker of the messages of one settlement: a write-through cache over the storage service.\<close>

record 'm message_tracker =
  mt_namespace :: string
  mt_cache :: "(string \<times> 'm) list"

definition tracker_key :: "'m message_tracker \<Rightarrow> string \<Rightarrow> string" where
  "tracker_key t oid = mt_namespace t @ '':'' @ oid"

definition tracker_load ::
  "('s, 'b) backend \<Rightarrow> ('m, 'b) codec \<Rightarrow> 's sched \<Rightarrow> string \<Rightarrow> 'm message_tracker \<Rightarrow> 's world
   \<Rightarrow> (settlement_service_error, 'm option) result \<times> 'm message_tracker \<times> 's world" where
  "tracker_load B c sc oid t w =
     (case map_of (mt_cache t) oid of
        Some st \<Rightarrow> (Inr (Some st), t, w)
      | None \<Rightarrow>
          (let key = tracker_key t oid;
               failed = ''Failed to load settlement message state for namespace '' @ quoted (mt_namespace t) @ '' key '' @ quoted key @ '': ''
           in (case svc_retrieve B c sc (storage_key_str SettlementMessages) key w of
                 (Inr st, w1) \<Rightarrow> (Inr (Some st), t\<lparr>mt_cache := AList.update oid st (mt_cache t)\<rparr>, w1)
               | (Inl (NotFound _), w1) \<Rightarrow> (Inr None, t, w1)
               | (Inl (Backend e), w1) \<Rightarrow> (Inl (StorageUnavailable (failed @ e)), t, w1)
               | (Inl e, w1) \<Rightarrow> (Inl (ValidationFailed (failed @ storage_error_text e)), t, w1))))"

definition tracker_save ::
  "('s, 'b) backend \<Rightarrow> ('m, 'b) codec \<Rightarrow> 's sched \<Rightarrow> string \<Rightarrow> 'm \<Rightarrow> nat option \<Rightarrow> 'm message_tracker \<Rightarrow> 's world
   \<Rightarrow> (settlement_service_error, unit) result \<times> 'm message_tracker \<times> 's world" where
  "tracker_save B c sc oid st ttl t w =
     (case svc_store_with_ttl B c sc (storage_key_str SettlementMessages) (tracker_key t oid) st None ttl w of
        (Inr _, w1) \<Rightarrow> (Inr (), t\<lparr>mt_cache := AList.update oid st (mt_cache t)\<rparr>, w1)
      | (Inl (Backend e), w1) \<Rightarrow> (Inl (StorageUnavailable (''Failed to persist message state: '' @ e)), t, w1)
      | (Inl e, w1) \<Rightarrow> (Inl (ValidationFailed (''Failed to persist message state: '' @ storage_error_text e)), t, w1))"

text \<open>A saved state is loaded back, by the tracker that saved it from its cache whatever happened to the
  store since, and on the memory backend also by a fresh tracker, as after a restart.\<close>

lemma tracker_round_trip:
  assumes "tracker_save B c sc oid st ttl t w = (Inr u, t1, w1)"
  shows "tracker_load B c sc oid t1 w2 = (Inr (Some st), t1, w2)"
  using assms by (auto simp: tracker_save_def tracker_load_def update_conv' split: prod.splits sum.splits storage_error.splits)

lemma tracker_survives_restart:
  assumes "codec_ok c" and "tracker_save memory_backend c (quiet (\<lambda>_. now)) oid st None t w = (Inr u, t1, w1)"
  shows "fst (tracker_load memory_backend c (quiet (\<lambda>_. now)) oid (t\<lparr>mt_cache := []\<rparr>) w1) = Inr (Some st)"
proof -
  let ?k = "mk_key (storage_key_str SettlementMessages) (tracker_key t oid)"
  from assms(2) obtain b where b: "encode c st = Inr b" and "w_store w1 = put_entry now (w_store w) ?k b None None"
    by (auto simp: tracker_save_def svc_defs Let_def memory_set_bytes_def split: prod.splits sum.splits storage_error.splits)
  then have "memory_live now (w_store w1) ?k = Some b" by (simp add: memory_live_put until_ttl_def)
  then have "memory_get_bytes now (w_store w1) ?k = Inr b"
    by (auto simp: memory_live_def memory_get_bytes_def split: option.splits if_splits)
  then show ?thesis
    using codec_okD [OF assms(1) b] by (simp add: tracker_load_def tracker_key_def svc_defs Let_def)
qed

end
