(* ===== verification/Interop_Address.thy ===== *)
theory Interop_Address
  imports Prelude
begin

unbundle bit_operations_syntax

text \<open>
  \<^verbatim>\<open>crates/solver-types/src/standards/eip7930.rs\<close>: interoperable addresses, which carry the chain they
  belong to, with their byte layout, and the address paddings of \<^verbatim>\<open>utils/conversion.rs\<close>.  Bytes, the
  16-bit version and 64-bit chain ids are machine words.  The \<^verbatim>\<open>hex\<close> crate is a pair of functions.
\<close>

section \<open>Types\<close>

record interop_address =
  ia_version :: "16 word"
  ia_chain_type :: "8 word \<times> 8 word"
  ia_chain_reference :: bytes
  ia_address :: bytes

definition EIP155 :: "8 word \<times> 8 word" where "EIP155 = (0, 0)"

definition BIP122 :: "8 word \<times> 8 word" where "BIP122 = (0, 1)"

definition COSMOS :: "8 word \<times> 8 word" where "COSMOS = (0, 2)"

datatype interop_address_error =
    InvalidHex string
  | TooShort nat nat
  | UnsupportedVersion "16 word"
  | InvalidChainReferenceLength "8 word" nat
  | InvalidAddressLength "8 word" nat
  | InvalidSolverAddressLength nat
  | UnsupportedChainType "8 word \<times> 8 word"

definition CURRENT_VERSION :: "16 word" where "CURRENT_VERSION = 1"

definition ETH_ADDRESS_LENGTH :: "8 word" where "ETH_ADDRESS_LENGTH = 20"

definition BYTES32_ADDRESS_LENGTH :: "8 word" where "BYTES32_ADDRESS_LENGTH = 32"

section \<open>Chain references\<close>

lemma drop_byte_less: "(0 :: 64 word) < ident \<Longrightarrow> unat (drop_bit 8 ident) < unat ident"
  by (simp add: unat_drop_bit_eq drop_bit_eq_div word_less_nat_alt unat_div)

text \<open>The loop that peels bytes off the low end and inserts them at the front.\<close>

function reference_loop :: "64 word \<Rightarrow> bytes \<Rightarrow> bytes" where
  "reference_loop ident acc =
     (if ident > 0 then reference_loop (drop_bit 8 ident) (ucast (ident AND 0xFF) # acc) else acc)"
  by auto

termination
  by (relation "measure (\<lambda>(ident, acc). unat ident)") (auto simp: drop_byte_less)

declare reference_loop.simps [simp del]

definition chain_reference_of :: "64 word \<Rightarrow> bytes" where
  "chain_reference_of chain =
     (if chain \<le> 255 then [ucast chain]
      else if chain \<le> 65535 then [ucast (drop_bit 8 chain), ucast chain]
      else reference_loop chain [])"

definition new_ethereum :: "64 word \<Rightarrow> bytes \<Rightarrow> interop_address" where
  "new_ethereum chain addr =
     \<lparr>ia_version = CURRENT_VERSION, ia_chain_type = EIP155, ia_chain_reference = chain_reference_of chain, ia_address = addr\<rparr>"

definition ethereum_chain_id :: "interop_address \<Rightarrow> (interop_address_error, 64 word) result" where
  "ethereum_chain_id a =
     (if ia_chain_type a \<noteq> EIP155 then Inl (UnsupportedChainType (ia_chain_type a))
      else Inr (foldl (\<lambda>c b. push_bit 8 c OR ucast b) 0 (ia_chain_reference a)))"

definition ethereum_address :: "interop_address \<Rightarrow> (interop_address_error, bytes) result" where
  "ethereum_address a =
     (if ia_chain_type a \<noteq> EIP155 then Inl (UnsupportedChainType (ia_chain_type a))
      else if length (ia_address a) \<noteq> unat ETH_ADDRESS_LENGTH
      then Inl (InvalidAddressLength ETH_ADDRESS_LENGTH (length (ia_address a)))
      else Inr (ia_address a))"

definition is_ethereum :: "interop_address \<Rightarrow> bool" where
  "is_ethereum a \<longleftrightarrow> ia_chain_type a = EIP155"

section \<open>Byte layout\<close>

definition u16_from_be_bytes :: "8 word \<Rightarrow> 8 word \<Rightarrow> 16 word" where
  "u16_from_be_bytes hi lo = push_bit 8 (ucast hi) OR ucast lo"

definition u16_to_be_bytes :: "16 word \<Rightarrow> bytes" where
  "u16_to_be_bytes v = [ucast (drop_bit 8 v), ucast v]"

definition to_bytes :: "interop_address \<Rightarrow> bytes" where
  "to_bytes a =
     u16_to_be_bytes (ia_version a) @ [fst (ia_chain_type a), snd (ia_chain_type a)] @
     [of_nat (length (ia_chain_reference a))] @ ia_chain_reference a @
     [of_nat (length (ia_address a))] @ ia_address a"

definition from_bytes :: "bytes \<Rightarrow> (interop_address_error, interop_address) result" where
  "from_bytes bs =
     (if length bs < 6 then Inl (TooShort 6 (length bs))
      else
        let version = u16_from_be_bytes (bs ! 0) (bs ! 1)
        in if version \<noteq> CURRENT_VERSION then Inl (UnsupportedVersion version)
           else
             let chain_type = (bs ! 2, bs ! 3); ref_length = unat (bs ! 4)
             in if length bs < 5 + ref_length + 1 then Inl (TooShort (5 + ref_length + 1) (length bs))
                else
                  let chain_reference = take ref_length (drop 5 bs);
                      address_length = unat (bs ! (5 + ref_length));
                      expected = 6 + ref_length + address_length
                  in if length bs \<noteq> expected then Inl (TooShort expected (length bs))
                     else
                       let address = drop (6 + ref_length) bs
                       in if length chain_reference \<noteq> ref_length
                          then Inl (InvalidChainReferenceLength (of_nat ref_length) (length chain_reference))
                          else if length address \<noteq> address_length
                          then Inl (InvalidAddressLength (of_nat address_length) (length address))
                          else Inr \<lparr>ia_version = version, ia_chain_type = chain_type,
                                    ia_chain_reference = chain_reference, ia_address = address\<rparr>)"

definition from_hex :: "(string \<Rightarrow> (string, bytes) result) \<Rightarrow> string \<Rightarrow> (interop_address_error, interop_address) result" where
  "from_hex hex_decode s =
     (case hex_decode (if starts_with ''0x'' s then drop 2 s else s) of
        Inl e \<Rightarrow> Inl (InvalidHex e)
      | Inr bs \<Rightarrow> from_bytes bs)"

definition with_0x_prefix :: "string \<Rightarrow> string" where
  "with_0x_prefix s = (if starts_with ''0x'' (to_lowercase s) then s else ''0x'' @ s)"

definition interop_to_hex :: "(bytes \<Rightarrow> string) \<Rightarrow> interop_address \<Rightarrow> string" where
  "interop_to_hex hexe a = with_0x_prefix (hexe (to_bytes a))"

definition validate_interop :: "interop_address \<Rightarrow> (interop_address_error, unit) result" where
  "validate_interop a =
     (if ia_version a \<noteq> CURRENT_VERSION then Inl (UnsupportedVersion (ia_version a))
      else if is_ethereum a \<and> length (ia_address a) \<noteq> unat ETH_ADDRESS_LENGTH \<and> length (ia_address a) \<noteq> unat BYTES32_ADDRESS_LENGTH
      then Inl (InvalidSolverAddressLength (length (ia_address a)))
      else Inr ())"

definition validate_interop_address ::
  "(string \<Rightarrow> (string, bytes) result) \<Rightarrow> string \<Rightarrow> (interop_address_error, interop_address) result" where
  "validate_interop_address hex_decode s =
     (case from_hex hex_decode s of
        Inl e \<Rightarrow> Inl e
      | Inr a \<Rightarrow> (case validate_interop a of Inl e \<Rightarrow> Inl e | Inr _ \<Rightarrow> Inr a))"

definition is_likely_interop_address :: "string \<Rightarrow> bool" where
  "is_likely_interop_address s \<longleftrightarrow> starts_with ''0x'' s \<and> length s > 42"

section \<open>The layout is a bijection\<close>

lemma u16_parts: "u16_to_be_bytes (u16_from_be_bytes hi lo) = [hi, lo]"
  by (auto simp: u16_to_be_bytes_def u16_from_be_bytes_def bit_eq_iff bit_simps dest: bit_imp_le_length)

lemma u16_joined: "u16_from_be_bytes (ucast (drop_bit 8 v)) (ucast v) = v"
  by (auto simp: u16_from_be_bytes_def bit_eq_iff bit_simps)

lemma small_length: "n < 256 \<Longrightarrow> unat (of_nat n :: 8 word) = n"
  by (simp add: unat_of_nat take_bit_eq_mod)

definition fits :: "interop_address \<Rightarrow> bool" where
  "fits a \<longleftrightarrow> ia_version a = CURRENT_VERSION \<and> length (ia_chain_reference a) < 256 \<and> length (ia_address a) < 256"

lemma drop_header: "drop (6 + length r) (b0 # b1 # b2 # b3 # b4 # r @ l # xs) = xs"
  by (simp add: eval_nat_numeral)

lemma from_to_bytes: "fits a \<Longrightarrow> from_bytes (to_bytes a) = Inr a"
  by (cases a) (auto simp: fits_def from_bytes_def to_bytes_def u16_to_be_bytes_def u16_joined Let_def small_length nth_append drop_header)

lemma five_bytes: "6 \<le> length bs \<Longrightarrow> \<exists>b0 b1 b2 b3 b4 rest. bs = b0 # b1 # b2 # b3 # b4 # rest \<and> rest \<noteq> []"
  by (auto simp: eval_nat_numeral Suc_le_length_iff)

lemma split_at: "n < length xs \<Longrightarrow> xs = take n xs @ xs ! n # drop (Suc n) xs"
  by (simp add: id_take_nth_drop)

lemma to_from_bytes:
  assumes "from_bytes bs = Inr a"
  shows "bs = to_bytes a \<and> fits a"
proof -
  have "6 \<le> length bs" using assms by (auto simp: from_bytes_def split: if_splits)
  then obtain b0 b1 b2 b3 b4 rest where bs: "bs = b0 # b1 # b2 # b3 # b4 # rest" using five_bytes by blast
  let ?r = "unat b4"
  let ?l = "unat (rest ! ?r)"
  have v: "u16_from_be_bytes b0 b1 = CURRENT_VERSION" and len: "length rest = 1 + ?r + ?l"
    and a: "a = \<lparr>ia_version = CURRENT_VERSION, ia_chain_type = (b2, b3), ia_chain_reference = take ?r rest, ia_address = drop (Suc ?r) rest\<rparr>"
    using assms by (auto simp: bs from_bytes_def Let_def eval_nat_numeral split: if_splits)
  have small: "?r < 256" "?l < 256"
    using unsigned_less [of b4, where 'a = nat] unsigned_less [of "rest ! ?r", where 'a = nat] by simp_all
  have rest: "rest = take ?r rest @ rest ! ?r # drop (Suc ?r) rest" using len by (intro split_at) simp
  have vb: "u16_to_be_bytes CURRENT_VERSION = [b0, b1]" using u16_parts [of b0 b1] by (simp add: v)
  have "of_nat ?r = b4" "of_nat ?l = rest ! ?r" by simp_all
  then have "to_bytes a = bs"
    using rest len by (simp add: a to_bytes_def vb bs)
  then show ?thesis using small len by (auto simp: a fits_def)
qed

lemma append_byte: "push_bit 8 (c :: 64 word) OR ucast (b :: 8 word) = of_nat (unat c * 256 + unat b)"
proof -
  have "push_bit 8 c AND ucast b = 0"
    by (auto simp: bit_eq_iff bit_simps dest: bit_imp_le_length)
  then have "push_bit 8 c OR ucast b = push_bit 8 c + ucast b" by (rule disjunctive_add_eq_or [symmetric])
  then show ?thesis by (simp add: push_bit_eq_mult unsigned_ucast_eq)
qed

text \<open>The number a big-endian byte string denotes.\<close>

definition be_value :: "bytes \<Rightarrow> nat" where
  "be_value bs = foldl (\<lambda>n b. n * 256 + unat b) 0 bs"

lemma be_value_snoc [simp]: "be_value [] = 0" "be_value (bs @ [b]) = be_value bs * 256 + unat b"
  by (simp_all add: be_value_def)

lemma chain_id_value:
  "foldl (\<lambda>c b. push_bit 8 c OR ucast b) (0 :: 64 word) bs = of_nat (be_value bs)"
proof (induction bs rule: rev_induct)
  case (snoc b bs)
  then show ?case by (simp add: append_byte)
qed simp

lemma reference_loop_append: "reference_loop c acc = reference_loop c [] @ acc"
proof (induction "unat c" arbitrary: c acc rule: less_induct)
  case less
  show ?case
  proof (cases "0 < c")
    case True
    from less [OF drop_byte_less [OF this], of "ucast (c AND 0xFF) # acc"] less [OF drop_byte_less [OF this], of "[ucast (c AND 0xFF)]"]
    show ?thesis using True by (simp add: reference_loop.simps [of c])
  qed (simp add: reference_loop.simps [of c])
qed

lemma masked_byte: "(ucast ((c :: 64 word) AND 0xFF) :: 8 word) = ucast c"
proof -
  have "(0xFF :: 64 word) = mask 8" by (simp add: mask_eq_exp_minus_1)
  then show ?thesis by (auto simp: bit_eq_iff bit_simps)
qed

lemma low_byte: "unat (ucast (c :: 64 word) :: 8 word) = unat c mod 256"
  by (simp add: unsigned_ucast_eq take_bit_eq_mod)

lemma high_part: "unat (drop_bit 8 (c :: 64 word)) = unat c div 256"
  by (simp add: drop_bit_eq_div unat_div)

lemma be_value_loop: "be_value (reference_loop c []) = unat c"
proof (induction "unat c" arbitrary: c rule: less_induct)
  case less
  show ?case
  proof (cases "0 < c")
    case True
    let ?b = "ucast (c AND 0xFF) :: 8 word"
    have loop: "reference_loop c [] = reference_loop (drop_bit 8 c) [] @ [?b]"
      using True reference_loop_append [of "drop_bit 8 c" "[?b]"] by (simp add: reference_loop.simps [of c])
    show ?thesis
      using less [OF drop_byte_less [OF True]] by (simp add: loop masked_byte low_byte high_part)
  qed (simp add: reference_loop.simps [of c] word_less_nat_alt)
qed

lemma be_value_reference: "be_value (chain_reference_of c) = unat c"
proof -
  have "unat c mod 256 = unat c" if "c \<le> 255" using that by (simp add: word_le_nat_alt)
  moreover have "unat c div 256 mod 256 = unat c div 256" if "c \<le> 65535" using that by (simp add: word_le_nat_alt)
  ultimately show ?thesis
    using be_value_loop [of c] by (auto simp: chain_reference_of_def be_value_def low_byte high_part)
qed

lemma reference_loop_length: "unat c < 256 ^ n \<Longrightarrow> length (reference_loop c []) \<le> n"
proof (induction n arbitrary: c)
  case 0
  then have "c = 0" by (simp add: unat_eq_0)
  then show ?case by (simp add: reference_loop.simps)
next
  case (Suc n)
  have "unat (drop_bit 8 c) < 256 ^ n" using Suc.prems by (simp add: high_part less_mult_imp_div_less mult.commute)
  from Suc.IH [OF this] show ?case
    using reference_loop_append [of "drop_bit 8 c" "[ucast (c AND 0xFF)]"] by (simp add: reference_loop.simps [of c])
qed

lemma chain_reference_length: "length (chain_reference_of c) \<le> 8"
proof -
  have "unat c < 256 ^ 8" using unsigned_less [of c, where 'a = nat] by simp
  from reference_loop_length [OF this] show ?thesis by (simp add: chain_reference_of_def)
qed

lemma new_ethereum_fits: "length addr < 256 \<Longrightarrow> fits (new_ethereum c addr)"
  using chain_reference_length [of c] by (simp add: fits_def new_ethereum_def)

text \<open>
  C29: The byte layout of interoperable addresses is a bijection between the byte strings that parse and the
  addresses of the current version whose chain reference and address are at most 255 bytes long: a byte
  string parses to an address exactly when it is that address's encoding, so decoding an encoding gives the
  address back, no two byte strings parse to the same address, and bytes left over or missing are refused.
\<close>

theorem interop_layout_round_trip:
  "from_bytes bs = Inr a \<longleftrightarrow>
     bs = to_bytes a \<and> ia_version a = CURRENT_VERSION \<and> length (ia_chain_reference a) \<le> 255 \<and> length (ia_address a) \<le> 255"
  using from_to_bytes [of a] to_from_bytes [of bs a] by (auto simp: fits_def)

text \<open>
  C40: A chain id of 64 bits survives the encoding into an address: building an address for a chain, printing
  it, parsing it and reading its chain id gives the chain id and the address back. The chain id read from an
  arbitrary EIP-155 address is the big-endian value of its chain reference reduced modulo \<open>2 ^ 64\<close>: a reference
  of more than eight bytes is not refused, so that references of different chains can be read as one chain id.
\<close>

theorem chain_id_survives_encoding:
  assumes "\<And>bs. hex_decode (hexe bs) = Inr bs" and "\<And>bs. set (hexe bs) \<subseteq> set ''0123456789abcdef''" and "length addr = 20"
  shows "(\<exists>a. from_hex hex_decode (interop_to_hex hexe (new_ethereum c addr)) = Inr a \<and> validate_interop a = Inr () \<and>
      ethereum_chain_id a = Inr c \<and> ethereum_address a = Inr addr) \<and>
    (ia_chain_type b = EIP155 \<longrightarrow> (\<exists>i. ethereum_chain_id b = Inr i \<and> unat i = be_value (ia_chain_reference b) mod 2 ^ 64))"
proof -
  let ?a = "new_ethereum c addr" and ?s = "hexe (to_bytes (new_ethereum c addr))"
  have "\<not> starts_with ''0x'' (to_lowercase ?s)"
  proof
    assume "starts_with ''0x'' (to_lowercase ?s)"
    then obtain t where "to_lowercase ?s = CHR ''0'' # CHR ''x'' # t" by (auto simp: starts_with_def prefix_def)
    then have "CHR ''x'' \<in> set (to_lowercase ?s)" by simp
    then obtain y where "y \<in> set ?s" "lower_char y = CHR ''x''" by (auto simp: to_lowercase_def)
    then show False using assms(2) [of "to_bytes ?a"] by (auto simp: lower_char_def)
  qed
  then have "from_hex hex_decode (interop_to_hex hexe ?a) = Inr ?a"
    using from_to_bytes [OF new_ethereum_fits] assms(1,3)
    by (simp add: from_hex_def interop_to_hex_def with_0x_prefix_def starts_with_def)
  moreover have "validate_interop ?a = Inr () \<and> ethereum_chain_id ?a = Inr c \<and> ethereum_address ?a = Inr addr"
    using assms(3) by (simp add: validate_interop_def ethereum_chain_id_def ethereum_address_def new_ethereum_def
        chain_id_value be_value_reference is_ethereum_def ETH_ADDRESS_LENGTH_def)
  ultimately show ?thesis
    by (auto simp: ethereum_chain_id_def chain_id_value unat_of_nat take_bit_eq_mod)
qed

definition hex_byte :: "8 word \<Rightarrow> string" where
  "hex_byte b = [digit_char (unat b div 16), digit_char (unat b mod 16)]"

definition hex_text :: "bytes \<Rightarrow> string" where
  "hex_text bs = concat (map hex_byte bs)"

definition hex_digit :: "char \<Rightarrow> nat option" where
  "hex_digit c = find (\<lambda>d. digit_char d = c) [0..<16]"

fun hex_parse :: "string \<Rightarrow> (string, bytes) result" where
  "hex_parse [] = Inr []"
| "hex_parse [_] = Inl ''Odd number of digits''"
| "hex_parse (a # b # s) =
     (case (hex_digit a, hex_digit b, hex_parse s) of
        (Some x, Some y, Inr bs) \<Rightarrow> Inr (of_nat (16 * x + y) # bs)
      | _ \<Rightarrow> Inl ''Invalid character'')"

lemma hex_digit_char: "d < 16 \<Longrightarrow> hex_digit (digit_char d) = Some d"
proof -
  assume "d < 16"
  then have "\<And>i. i < 16 \<Longrightarrow> digit_char i = digit_char d \<longleftrightarrow> i = d"
    using digit_char_inj by (auto simp: inj_on_def)
  then show ?thesis using \<open>d < 16\<close> by (auto simp: hex_digit_def find_Some_iff)
qed

lemma hex_parse_text: "hex_parse (hex_text bs) = Inr bs"
proof (induction bs)
  case (Cons b bs)
  have "unat b < 256" using unsigned_less [of b, where 'a = nat] by simp
  then have "unat b div 16 < 16" "unat b mod 16 < 16" by simp_all
  moreover have "(of_nat (16 * (unat b div 16) + unat b mod 16) :: 8 word) = b"
    by (simp only: mult_div_mod_eq) simp
  ultimately show ?case using Cons by (simp add: hex_text_def hex_byte_def hex_digit_char)
qed (simp add: hex_text_def)

lemma hex_text_chars: "set (hex_text bs) \<subseteq> set ''0123456789abcdef''"
proof -
  have "digit_char d \<in> set ''0123456789abcdef''" if "d < 16" for d
  proof -
    have "list_all (\<lambda>d. digit_char d \<in> set ''0123456789abcdef'') [0..<16]" by code_simp
    then show ?thesis using that by (simp only: list_all_iff set_upt) auto
  qed
  moreover have "unat b div 16 < 16" "unat b mod 16 < 16" for b :: "8 word"
    using unsigned_less [of b, where 'a = nat] by simp_all
  ultimately have "set (hex_byte b) \<subseteq> set ''0123456789abcdef''" for b
    unfolding hex_byte_def by (simp only: set_simps insert_subset empty_subsetI simp_thms)
  then show ?thesis unfolding hex_text_def set_concat set_map by blast
qed

theorem chain_id_survives_encoding_witness:
  "(\<exists>a. from_hex hex_parse (interop_to_hex hex_text (new_ethereum 11155111 (replicate 20 7))) = Inr a \<and>
      ethereum_chain_id a = Inr 11155111) \<and>
   ethereum_chain_id \<lparr>ia_version = 1, ia_chain_type = EIP155, ia_chain_reference = [1, 0, 0, 0, 0, 0, 0, 0, 5], ia_address = []\<rparr> = Inr 5"
proof -
  let ?b = "\<lparr>ia_version = 1, ia_chain_type = EIP155, ia_chain_reference = [1, 0, 0, 0, 0, 0, 0, 0, 5], ia_address = []\<rparr>"
  have "length (replicate 20 (7 :: 8 word)) = 20" by simp
  note both = chain_id_survives_encoding [OF hex_parse_text hex_text_chars this, of 11155111 ?b]
  have "be_value (ia_chain_reference ?b) mod 2 ^ 64 = 5" by (simp add: be_value_def)
  then obtain i where "ethereum_chain_id ?b = Inr i" "unat i = 5" using both by auto
  moreover from this have "i = 5" by (metis of_nat_numeral of_nat_unat ucast_id)
  ultimately show ?thesis using both by auto
qed

section \<open>Addresses in 32 bytes\<close>

definition is_native_token_id :: "bytes \<Rightarrow> bool" where
  "is_native_token_id token = list_all (\<lambda>b. b = 0) token"

definition is_native_address :: "bytes \<Rightarrow> bool" where
  "is_native_address addr \<longleftrightarrow> length addr = 20 \<and> list_all (\<lambda>b. b = 0) addr"

definition address_to_bytes32 :: "bytes \<Rightarrow> bytes" where
  "address_to_bytes32 addr = replicate 12 0 @ addr"

definition solver_address_to_bytes32 :: "bytes \<Rightarrow> bytes" where
  "solver_address_to_bytes32 addr = (if length addr \<ge> 20 then replicate 12 0 @ take 20 addr else replicate 32 0)"

definition normalize_bytes32_address :: "bytes \<Rightarrow> bytes" where
  "normalize_bytes32_address v =
     (if list_all (\<lambda>b. b = 0) (drop 20 v) \<and> list_ex (\<lambda>b. b \<noteq> 0) (take 20 v) then replicate 12 0 @ take 20 v else v)"

text \<open>The 20 bytes an operand of \<^verbatim>\<open>addresses_equal\<close> stands for.\<close>

definition embedded_address :: "bytes \<Rightarrow> bytes option" where
  "embedded_address v = (if length v = 20 then Some v else if length v = 32 then Some (drop 12 v) else None)"

definition addresses_equal :: "(bytes \<Rightarrow> string) \<Rightarrow> bytes \<Rightarrow> bytes \<Rightarrow> bool" where
  "addresses_equal hexe a b =
     (case (embedded_address a, embedded_address b) of
        (Some x, Some y) \<Rightarrow> to_lowercase (hexe x) = to_lowercase (hexe y)
      | _ \<Rightarrow> False)"

text \<open>Padding is undone by the comparison and by the native test.\<close>

lemma padded_address_equal:
  assumes "length addr = 20"
  shows "addresses_equal hexe addr (address_to_bytes32 addr)" and "solver_address_to_bytes32 addr = address_to_bytes32 addr"
    and "is_native_token_id (address_to_bytes32 addr) \<longleftrightarrow> is_native_address addr"
  using assms by (simp_all add: addresses_equal_def embedded_address_def address_to_bytes32_def solver_address_to_bytes32_def
      is_native_token_id_def is_native_address_def list_all_iff)

text \<open>
  Normalizing keeps a left-padded address unless its last twelve bytes are zero: such an address is
  taken for a right-padded one and moved.
\<close>

lemma normalize_left_padded:
  assumes "length addr = 20"
  shows "normalize_bytes32_address (address_to_bytes32 addr) = address_to_bytes32 addr \<longleftrightarrow>
    \<not> (list_all (\<lambda>b. b = 0) (drop 8 addr) \<and> list_ex (\<lambda>b. b \<noteq> 0) (take 8 addr))"
proof (cases "list_all (\<lambda>b. b = 0) (drop 8 addr) \<and> list_ex (\<lambda>b. b \<noteq> 0) (take 8 addr)")
  case True
  have "replicate 12 0 @ take 8 addr \<noteq> addr"
  proof
    assume eq: "replicate 12 0 @ take 8 addr = addr"
    then have "take 8 addr = replicate 8 0" by (metis take_append length_replicate take_replicate min_def
        diff_is_0_eq' append_Nil2 take0 numeral_le_iff semiring_norm(68,71,72) le_num_One_iff)
    then show False using True by (simp add: list_ex_iff)
  qed
  then show ?thesis using True assms
    by (simp add: normalize_bytes32_address_def address_to_bytes32_def list_all_iff list_ex_iff)
qed (auto simp: normalize_bytes32_address_def address_to_bytes32_def list_all_iff list_ex_iff)

lemma normalize_right_padded:
  assumes "length addr = 20" and "list_ex (\<lambda>b. b \<noteq> 0) addr"
  shows "normalize_bytes32_address (addr @ replicate 12 0) = address_to_bytes32 addr"
  using assms by (simp add: normalize_bytes32_address_def address_to_bytes32_def list_all_iff)

end
