(* ===== verification/Intent_Handler.thy ===== *)
theory Intent_Handler
  imports Settlement_Config Interop_Address
begin

text \<open>
  \<^verbatim>\<open>crates/solver-core/src/handlers/intent.rs\<close>: how a discovered intent becomes an order.  The record
  \<open>intent_env\<close> holds the configuration the handler reads and the services it calls: order creation and
  fill generation, the cost and profitability service, the execution context with the strategy, balance
  reads of The Compact, the \<^verbatim>\<open>hex\<close> and \<^verbatim>\<open>serde_json\<close> crates, and the LRU cache of intent ids.
\<close>

section \<open>Types\<close>

datatype intent_error =
    IntValidation string
  | IntStorage string
  | IntService string

datatype execution_decision =
    Execute execution_params
  | Skip string
  | Defer nat

record stored_quote =
  sq_settlement_name :: "string option"

record ('s, 'b, 'c, 'k, 'ctx) intent_env =
  ie_intake_disabled :: bool
  ie_resource_lock_enabled :: bool
  ie_denied :: "string list"
  ie_contains :: "'c \<Rightarrow> string \<Rightarrow> bool"
  ie_put :: "'c \<Rightarrow> string \<Rightarrow> 'c"
  ie_intents :: "(intent, 'b) codec"
  ie_quotes :: "(stored_quote, 'b) codec"
  ie_settlement_impls :: "(string \<times> json) list"
  ie_poll_interval_seconds :: nat
  ie_source_finality :: source_finality_config
  ie_expected_delay_seconds :: "nat \<Rightarrow> nat option"
  ie_open_units :: "string list \<Rightarrow> nat"
  ie_hex_decode :: "string \<Rightarrow> (string, bytes) result"
  ie_to_value :: "eip7683_order_data \<Rightarrow> (string, json) result"
  ie_create_order :: "intent \<Rightarrow> json \<Rightarrow> (string, bytes) result \<Rightarrow> (string, order) result"
  ie_validate_before_simulation :: "order \<Rightarrow> (string, unit) result"
  ie_generate_fills :: "order \<Rightarrow> (string, execution_transaction list) result"
  ie_simulate :: "order \<Rightarrow> evm_transaction \<Rightarrow> (string, nat) result"
  ie_estimate_cost :: "order \<Rightarrow> nat option \<Rightarrow> evm_transaction option \<Rightarrow> (string, 'k) result"
  ie_validate_profitability :: "order \<Rightarrow> 'k \<Rightarrow> string option \<Rightarrow> string \<Rightarrow> (string, unit) result"
  ie_build_context :: "intent \<Rightarrow> (string, 'ctx) result"
  ie_should_execute :: "order \<Rightarrow> 'ctx \<Rightarrow> execution_decision"
  ie_compact_networks :: compact_networks
  ie_compact_balance :: balance_reader

section \<open>Gates before an order exists\<close>

definition reject_intent :: "intent \<Rightarrow> string \<Rightarrow> ('s, 'x, unit) handler" where
  "reject_intent i reason = publish (DiscoveryEv (IntentRejected (in_id i) reason))"

definition skip_order :: "order \<Rightarrow> string \<Rightarrow> ('s, 'x, unit) handler" where
  "skip_order ord reason = publish (OrderEv (OrderSkipped (order_id ord) reason))"

text \<open>The text of the address in the last twenty bytes of a recipient.\<close>

definition recipient_address :: "mandate_output \<Rightarrow> string" where
  "recipient_address out = ''0x'' @ hex_text (drop 12 (mo_recipient out))"

definition denied_reason :: "('s, 'b) machine \<Rightarrow> ('s, 'b, 'c, 'k, 'ctx) intent_env \<Rightarrow> intent \<Rightarrow> string option" where
  "denied_reason M E i =
     (if ie_denied E = [] then None
      else (case mc_parse M (in_data i) of
              Inl _ \<Rightarrow> None
            | Inr od \<Rightarrow>
                if to_lowercase (eod_user od) \<in> set (ie_denied E) then Some ''Sender address is on deny list''
                else if list_ex (\<lambda>out. recipient_address out \<in> set (ie_denied E)) (eod_outputs od)
                then Some ''Recipient address is on deny list''
                else None))"

text \<open>The intent data with the settlement the stored quote is bound to.\<close>

definition bind_settlement :: "string option \<Rightarrow> json \<Rightarrow> json" where
  "bind_settlement settlement j =
     (case (settlement, j) of
        (Some s, JObject kvs) \<Rightarrow>
          JObject (AList.update ''settlementName'' (JString s) (AList.update ''settlement_name'' (JString s) kvs))
      | _ \<Rightarrow> j)"

definition enriched_intent_data ::
  "('s, 'b) machine \<Rightarrow> ('s, 'b, 'c, 'k, 'ctx) intent_env \<Rightarrow> intent \<Rightarrow> ('s, 'x, json) handler" where
  "enriched_intent_data M E i w =
     (case in_quote_id i of
        None \<Rightarrow> ([], Inr (in_data i), w)
      | Some q \<Rightarrow>
          (case svc_retrieve (mc_backend M) (ie_quotes E) (mc_sched M) (storage_key_str Quotes) q w of
             (Inr sq, w1) \<Rightarrow> ([], Inr (bind_settlement (sq_settlement_name sq) (in_data i)), w1)
           | (Inl _, w1) \<Rightarrow> ([], Inr (in_data i), w1)))"

section \<open>Admission of an order\<close>

definition prepare_gas_cap :: "nat \<Rightarrow> nat" where
  "prepare_gas_cap open_units = saturating_add u64_bound (saturating_mul u64_bound open_units 125) 99 div 100"

definition validate_source_finality_window ::
  "('s, 'b, 'c, 'k, 'ctx) intent_env \<Rightarrow> eip7683_order_data \<Rightarrow> nat \<Rightarrow> (string, unit) result" where
  "validate_source_finality_window E od now =
     (if \<not> (case eod_lock_type od of Some t \<Rightarrow> is_escrow t | None \<Rightarrow> False) then Inr ()
      else (case u64_try_from (eod_origin_chain_id od) of
              None \<Rightarrow> Inl (''Invalid origin chain id for source finality validation: '' @ to_dec (eod_origin_chain_id od))
            | Some origin \<Rightarrow>
                (case ie_expected_delay_seconds E origin of
                   None \<Rightarrow> Inr ()
                 | Some delay \<Rightarrow>
                     (let required = saturating_add u64_bound delay (sfg_retry_grace_seconds (ie_source_finality E));
                          remaining = eod_fill_deadline od - now
                      in if remaining < required
                         then Inl (''Insufficient source finality window: fill_deadline_in='' @ to_dec remaining @ ''s required='' @
                                to_dec required @ ''s origin_chain_id='' @ to_dec origin)
                         else Inr ()))))"

definition apply_prepare_gas_limit_from_config ::
  "('s, 'b) machine \<Rightarrow> ('s, 'b, 'c, 'k, 'ctx) intent_env \<Rightarrow> string \<Rightarrow> order \<Rightarrow> order" where
  "apply_prepare_gas_limit_from_config M E src ord =
     (if src \<noteq> ''off-chain'' then ord
      else (case mc_parse M (data ord) of
              Inl _ \<Rightarrow> ord
            | Inr od \<Rightarrow>
                (case eod_lock_type od of
                   None \<Rightarrow> ord
                 | Some t \<Rightarrow>
                     if t = ResourceLock then ord
                     else (case ie_to_value E (od\<lparr>eod_prepare_gas_limit := Some (prepare_gas_cap (ie_open_units E [lock_type_str t]))\<rparr>) of
                             Inl _ \<Rightarrow> ord
                           | Inr v \<Rightarrow> ord\<lparr>data := v\<rparr>))))"

text \<open>The two time gates; \<open>now\<close> is the clock cut down to 32 bits.\<close>

definition settlement_window_reason ::
  "('s, 'b, 'c, 'k, 'ctx) intent_env \<Rightarrow> order \<Rightarrow> eip7683_order_data \<Rightarrow> nat \<Rightarrow> string option" where
  "settlement_window_reason E ord od now =
     (case estimate_required_expiry_window_seconds (ie_hex_decode E) od (ie_settlement_impls E) (ie_poll_interval_seconds E) (settlement_name ord) of
        None \<Rightarrow> None
      | Some (required, breakdown) \<Rightarrow>
          (let expires_remaining = eod_expires od - now; settlement_remaining = eod_expires od - eod_fill_deadline od
           in if expires_remaining < required \<or> settlement_remaining < required
              then Some (''Insufficient settlement window: expires_in='' @ to_dec expires_remaining @ ''s settlement_after_fill='' @
                     to_dec settlement_remaining @ ''s required='' @ to_dec required @ ''s ('' @ breakdown @ '')'')
              else None))"

definition admission_reason ::
  "('s, 'b) machine \<Rightarrow> ('s, 'b, 'c, 'k, 'ctx) intent_env \<Rightarrow> string \<Rightarrow> order \<Rightarrow> nat \<Rightarrow> string option" where
  "admission_reason M E src ord now =
     (case mc_parse M (data ord) of
        Inl _ \<Rightarrow> None
      | Inr od \<Rightarrow>
          (case (if src = ''off-chain'' then validate_source_finality_window E od now else Inr ()) of
             Inl reason \<Rightarrow> Some reason
           | Inr _ \<Rightarrow> settlement_window_reason E ord od now))"

section \<open>Simulation and reservation\<close>

fun simulate_fills ::
  "('s, 'b, 'c, 'k, 'ctx) intent_env \<Rightarrow> order \<Rightarrow> execution_transaction list \<Rightarrow> nat \<Rightarrow> nat \<Rightarrow> (string, nat \<times> nat) result" where
  "simulate_fills E ord [] gas_total count = Inr (gas_total, count)"
| "simulate_fills E ord (tx # txs) gas_total count =
     (case as_evm tx of
        None \<Rightarrow> simulate_fills E ord txs gas_total count
      | Some evm \<Rightarrow>
          (case ie_simulate E ord evm of
             Inl e \<Rightarrow> Inl e
           | Inr gas \<Rightarrow> simulate_fills E ord txs (saturating_add u64_bound gas_total gas) (Suc count)))"

definition with_fill_gas ::
  "('s, 'b) machine \<Rightarrow> ('s, 'b, 'c, 'k, 'ctx) intent_env \<Rightarrow> nat option \<Rightarrow> order \<Rightarrow> order" where
  "with_fill_gas M E gas ord =
     (case gas of
        None \<Rightarrow> ord
      | Some g \<Rightarrow>
          (case mc_parse M (data ord) of
             Inl _ \<Rightarrow> ord
           | Inr od \<Rightarrow>
               (case ie_to_value E (od\<lparr>eod_fill_gas_limit := Some g\<rparr>) of Inl _ \<Rightarrow> ord | Inr v \<Rightarrow> ord\<lparr>data := v\<rparr>)))"

fun reservation_error_text :: "reservation_error \<Rightarrow> string" where
  "reservation_error_text (Oversubscribed requested reserved available) =
     ''compact deposit oversubscribed: requested '' @ to_dec requested @ '', already reserved '' @ to_dec reserved @
     '', available '' @ to_dec available"
| "reservation_error_text (ReservationStorage m) = ''storage error: '' @ m"

definition reserve_compact_deposits ::
  "('s, 'b) machine \<Rightarrow> ('s, 'b, 'c, 'k, 'ctx) intent_env \<Rightarrow> order \<Rightarrow> 's world \<Rightarrow> (string, bool) result \<times> 's world" where
  "reserve_compact_deposits M E ord w =
     (case mc_parse M (data ord) of
        Inl e \<Rightarrow> (Inl (''Failed to parse order data for compact reservation: '' @ e), w)
      | Inr od \<Rightarrow>
          (case derive_compact_deposit_reservations (ie_hex_decode E) (ie_compact_networks E) (ie_compact_balance E) od of
             Inl e \<Rightarrow> (Inl e, w)
           | Inr deposits \<Rightarrow>
               if deposits = [] then (Inr False, w)
               else (case reserve_order (mc_backend M) (mc_reservations M) (mc_sched M) (order_id ord) (eod_expires od) deposits w of
                       (Inr _, w1) \<Rightarrow> (Inr True, w1)
                     | (Inl (ReservationStorage m), w1) \<Rightarrow> (Inl (''Failed to reserve compact deposit: '' @ m), w1)
                     | (Inl e, w1) \<Rightarrow> (Inl (''Compact deposit oversubscribed by in-flight orders: '' @ reservation_error_text e), w1))))"

definition release_compact_deposits :: "('s, 'b) machine \<Rightarrow> order \<Rightarrow> ('s, 'x, unit) handler" where
  "release_compact_deposits M ord =
     ignore (\<lambda>w. ((), release_compact_reservations (mc_parse M) (mc_backend M) (mc_reservations M) (mc_sched M) ord w))"

section \<open>The handler\<close>

text \<open>A failed store gives the reservation back before the error is returned.\<close>

definition store_or_release :: "('s, 'b) machine \<Rightarrow> order \<Rightarrow> ('s, intent_error, unit) handler" where
  "store_or_release M ord w =
     (case store_order (mc_backend M) (mc_orders M) (mc_sched M) ord w of
        (Inr _, w1) \<Rightarrow> ([], Inr (), w1)
      | (Inl e, w1) \<Rightarrow> and_then (release_compact_deposits M ord) (\<lambda>_. err (IntStorage (order_error_text M e))) w1)"

definition carry_out ::
  "('s, 'b) machine \<Rightarrow> intent \<Rightarrow> order \<Rightarrow> execution_decision \<Rightarrow> ('s, intent_error, unit) handler" where
  "carry_out M i ord decision =
     (case decision of
        Execute params \<Rightarrow>
          (let prep = order_requires_preparation M ord;
               ord1 = (if prep then ord else ord\<lparr>status := Executing\<rparr>)\<lparr>order_execution_params := Some params\<rparr>
           in and_then (store_or_release M ord1) (\<lambda>_.
              publish (OrderEv (if prep then OrderPreparing i ord1 params else OrderExecuting ord1 params))))
      | Skip reason \<Rightarrow> and_then (release_compact_deposits M ord) (\<lambda>_. skip_order ord reason)
      | Defer delay \<Rightarrow> and_then (store_or_release M ord) (\<lambda>_. publish (OrderEv (OrderDeferred (order_id ord) delay))))"

definition decide_order ::
  "('s, 'b) machine \<Rightarrow> ('s, 'b, 'c, 'k, 'ctx) intent_env \<Rightarrow> intent \<Rightarrow> order \<Rightarrow> ('s, intent_error, unit) handler" where
  "decide_order M E i ord =
     and_then (publish (DiscoveryEv (IntentValidated (in_id i) ord))) (\<lambda>_.
     and_then (lift_result IntService (ie_build_context E i)) (\<lambda>ctx w.
       if in_lock_type i = lock_type_str ResourceLock
       then (case reserve_compact_deposits M E ord w of
               (Inr _, w1) \<Rightarrow> carry_out M i ord (ie_should_execute E ord ctx) w1
             | (Inl reason, w1) \<Rightarrow> reject_intent i reason w1)
       else carry_out M i ord (ie_should_execute E ord ctx) w))"

definition price_order ::
  "('s, 'b) machine \<Rightarrow> ('s, 'b, 'c, 'k, 'ctx) intent_env \<Rightarrow> intent \<Rightarrow> order \<Rightarrow> execution_transaction list \<Rightarrow> ('s, intent_error, unit) handler" where
  "price_order M E i ord txs =
     (case simulate_fills E ord txs 0 0 of
        Inl e \<Rightarrow> skip_order ord (''Callback simulation failed: '' @ e)
      | Inr (gas_total, count) \<Rightarrow>
          (let gas = (if count > 0 \<and> gas_total > 0 then Some gas_total else None);
               representative = (case List.map_filter as_evm txs of [] \<Rightarrow> None | tx # _ \<Rightarrow> Some tx)
           in and_then (lift_result (\<lambda>e. IntService (''Cost estimation failed: '' @ e)) (ie_estimate_cost E ord gas representative)) (\<lambda>cost.
              case ie_validate_profitability E ord cost (in_quote_id i) (in_source i) of
                Inl e \<Rightarrow> skip_order ord (''Insufficient profitability: '' @ e)
              | Inr _ \<Rightarrow> decide_order M E i (with_fill_gas M E gas ord))))"

definition admit_order ::
  "('s, 'b) machine \<Rightarrow> ('s, 'b, 'c, 'k, 'ctx) intent_env \<Rightarrow> intent \<Rightarrow> order \<Rightarrow> ('s, intent_error, unit) handler" where
  "admit_order M E i created w =
     (let ord = apply_prepare_gas_limit_from_config M E (in_source i) created;
          now = current_timestamp (w_unix (mc_sched M) w) mod 2 ^ 32
      in (case admission_reason M E (in_source i) ord now of
            Some reason \<Rightarrow> skip_order ord reason w
          | None \<Rightarrow>
              (case ie_validate_before_simulation E ord of
                 Inl e \<Rightarrow> skip_order ord (''Pre-simulation validation failed: '' @ e) w
               | Inr _ \<Rightarrow>
                   (case ie_generate_fills E ord of
                      Inl e \<Rightarrow> skip_order ord (''Fill transaction generation failed: '' @ e) w
                    | Inr [] \<Rightarrow> skip_order ord ''Fill transaction generation returned no transactions'' w
                    | Inr txs \<Rightarrow> price_order M E i ord txs w))))"

definition create_and_admit ::
  "('s, 'b) machine \<Rightarrow> ('s, 'b, 'c, 'k, 'ctx) intent_env \<Rightarrow> intent \<Rightarrow> string \<Rightarrow> ('s, intent_error, unit) handler" where
  "create_and_admit M E i dedup =
     (case denied_reason M E i of
        Some reason \<Rightarrow> reject_intent i reason
      | None \<Rightarrow>
          and_then (call (\<lambda>e. IntStorage (''Failed to store intent for deduplication: '' @ storage_error_text e))
            (svc_store (mc_backend M) (ie_intents E) (mc_sched M) (storage_key_str Intents) dedup i None)) (\<lambda>_.
          and_then (enriched_intent_data M E i) (\<lambda>payload.
          case ie_create_order E i payload
                 (map_sum (\<lambda>e. ''Failed to decode intent ID: '' @ e) (\<lambda>b. b) (ie_hex_decode E (without_0x_prefix (in_id i)))) of
            Inl e \<Rightarrow> reject_intent i e
          | Inr created \<Rightarrow> admit_order M E i created)))"

definition process_intent ::
  "('s, 'b) machine \<Rightarrow> ('s, 'b, 'c, 'k, 'ctx) intent_env \<Rightarrow> intent \<Rightarrow> string \<Rightarrow> ('s, intent_error, unit) handler" where
  "process_intent M E i dedup =
     and_then (call (\<lambda>e. IntStorage (''Failed to check intent existence: '' @ storage_error_text e))
       (svc_exists (mc_backend M) (mc_sched M) (storage_key_str Intents) dedup)) (\<lambda>found.
     if found then ok () else create_and_admit M E i dedup)"

text \<open>The cache is checked and claimed in one step; the rest runs on the world.\<close>

definition handle_intent ::
  "('s, 'b) machine \<Rightarrow> ('s, 'b, 'c, 'k, 'ctx) intent_env \<Rightarrow> intent \<Rightarrow> 'c \<Rightarrow> 'c \<times> ('s, intent_error, unit) handler" where
  "handle_intent M E i cache =
     (if ie_intake_disabled E then (cache, reject_intent i ''Solver intake is disabled'')
      else if in_lock_type i = lock_type_str ResourceLock \<and> \<not> ie_resource_lock_enabled E
      then (cache, reject_intent i ''ResourceLock orders are disabled by this solver configuration'')
      else (let dedup = with_0x_prefix (in_id i)
            in if ie_contains E cache dedup then (cache, ok ())
               else (ie_put E cache dedup, process_intent M E i dedup)))"

section \<open>What an accepted intent has passed\<close>

fun accepting :: "solver_event \<Rightarrow> bool" where
  "accepting (OrderEv (OrderPreparing _ _ _)) = True"
| "accepting (OrderEv (OrderExecuting _ _)) = True"
| "accepting (OrderEv (OrderDeferred _ _)) = True"
| "accepting _ = False"

text \<open>The handler publishes an event that starts, resumes or defers an order.\<close>

definition accepts :: "('s, 'x, 'a) handler \<Rightarrow> 's world \<Rightarrow> bool" where
  "accepts m w \<longleftrightarrow> list_ex accepting (fst (m w))"

lemma accepts_and_then:
  "accepts (and_then m k) w \<longleftrightarrow> accepts m w \<or> (\<exists>evs a w1. m w = (evs, Inr a, w1) \<and> accepts (k a) w1)"
  by (cases "m w") (auto simp: accepts_def and_then_def split: prod.splits sum.splits)

lemma accepts_simps [simp]:
  "\<not> accepts (ok a) w" "\<not> accepts (err e) w" "accepts (publish ev) w \<longleftrightarrow> accepting ev"
  "\<not> accepts (call f c) w" "\<not> accepts (ignore d) w" "\<not> accepts (lift_result f r) w"
  "\<not> accepts (reject_intent i reason) w" "\<not> accepts (skip_order ord reason) w"
  "\<not> accepts (enriched_intent_data M E i) w" "\<not> accepts (release_compact_deposits M ord) w"
  by (auto simp: accepts_def handler_defs reject_intent_def skip_order_def enriched_intent_data_def release_compact_deposits_def
      split: prod.splits sum.splits option.splits)

lemma lift_result_Inr: "lift_result f r w = (evs, Inr a, w1) \<longleftrightarrow> r = Inr a \<and> evs = [] \<and> w1 = w"
  by (auto simp: lift_result_def split: sum.splits)

lemma store_or_release_quiet [simp]: "\<not> accepts (store_or_release M ord) w"
  by (auto simp: accepts_def store_or_release_def release_compact_deposits_def handler_defs split: prod.splits sum.splits)

lemma publish_Inr: "publish ev w = (evs, Inr a, w1) \<longleftrightarrow> evs = [ev] \<and> w1 = w"
  by (auto simp: publish_def)

text \<open>The reservation of a resource-lock order, from one world to the next, and the order that is stored.\<close>

definition reserved_between :: "('s, 'b) machine \<Rightarrow> ('s, 'b, 'c, 'k, 'ctx) intent_env \<Rightarrow> order \<Rightarrow> 's world \<Rightarrow> 's world \<Rightarrow> bool" where
  "reserved_between M E ord w w1 \<longleftrightarrow>
     (\<exists>od deposits. mc_parse M (data ord) = Inr od \<and>
        derive_compact_deposit_reservations (ie_hex_decode E) (ie_compact_networks E) (ie_compact_balance E) od = Inr deposits \<and>
        (if deposits = [] then w1 = w
         else \<exists>u. reserve_order (mc_backend M) (mc_reservations M) (mc_sched M) (order_id ord) (eod_expires od) deposits w = (Inr u, w1)))"

definition decided_order :: "('s, 'b) machine \<Rightarrow> order \<Rightarrow> execution_decision \<Rightarrow> order" where
  "decided_order M ord d =
     (case d of
        Execute params \<Rightarrow> (if order_requires_preparation M ord then ord else ord\<lparr>status := Executing\<rparr>)\<lparr>order_execution_params := Some params\<rparr>
      | _ \<Rightarrow> ord)"

lemma reserved_between: "reserve_compact_deposits M E ord w = (Inr b, w1) \<Longrightarrow> reserved_between M E ord w w1"
  unfolding reserve_compact_deposits_def reserved_between_def
  by (auto split: sum.splits if_splits prod.splits reservation_error.splits)

lemma stored_or_released: "store_or_release M ord w = (evs, Inr a, w1) \<Longrightarrow> \<exists>u. store_order (mc_backend M) (mc_orders M) (mc_sched M) ord w = (Inr u, w1)"
  by (auto simp: store_or_release_def and_then_def release_compact_deposits_def handler_defs split: prod.splits sum.splits)

lemma carry_out_accepts:
  assumes "accepts (carry_out M i ord d) w"
  shows "d \<noteq> Skip reason"
    and "\<exists>u w1. store_order (mc_backend M) (mc_orders M) (mc_sched M) (decided_order M ord d) w = (Inr u, w1)"
  using assms by (auto simp: carry_out_def decided_order_def accepts_and_then Let_def split: execution_decision.splits dest!: stored_or_released)

lemma decide_accepts:
  assumes "accepts (decide_order M E i ord) w"
  shows "\<exists>ctx w1 u w2. ie_build_context E i = Inr ctx \<and> (\<forall>reason. ie_should_execute E ord ctx \<noteq> Skip reason) \<and>
    (if in_lock_type i = lock_type_str ResourceLock then reserved_between M E ord w w1 else w1 = w) \<and>
    store_order (mc_backend M) (mc_orders M) (mc_sched M) (decided_order M ord (ie_should_execute E ord ctx)) w1 = (Inr u, w2)"
proof -
  let ?go = "\<lambda>ctx. carry_out M i ord (ie_should_execute E ord ctx)"
  obtain ctx where ctx: "ie_build_context E i = Inr ctx" and run: "accepts (\<lambda>w.
      if in_lock_type i = lock_type_str ResourceLock
      then (case reserve_compact_deposits M E ord w of (Inr _, w1) \<Rightarrow> ?go ctx w1 | (Inl reason, w1) \<Rightarrow> reject_intent i reason w1)
      else ?go ctx w) w"
    using assms by (auto simp: decide_order_def accepts_and_then lift_result_Inr publish_Inr)
  then have "\<exists>w1. accepts (?go ctx) w1 \<and> (if in_lock_type i = lock_type_str ResourceLock then reserved_between M E ord w w1 else w1 = w)"
    using accepts_simps(7) unfolding accepts_def by (fastforce split: if_splits prod.splits sum.splits dest: reserved_between)
  then show ?thesis using ctx carry_out_accepts by metis
qed

lemma simulated_legs:
  "simulate_fills E ord txs gas_total count = Inr r \<Longrightarrow> tx \<in> set txs \<Longrightarrow> as_evm tx = Some evm \<Longrightarrow> \<exists>gas. ie_simulate E ord evm = Inr gas"
  by (induction txs arbitrary: gas_total count) (auto split: option.splits sum.splits)

text \<open>The gas the cost estimate is given, and the transaction that stands for the fill.\<close>

definition simulated_gas :: "nat \<times> nat \<Rightarrow> nat option" where
  "simulated_gas r = (if snd r > 0 \<and> fst r > 0 then Some (fst r) else None)"

definition first_evm :: "execution_transaction list \<Rightarrow> evm_transaction option" where
  "first_evm txs = (case List.map_filter as_evm txs of [] \<Rightarrow> None | tx # _ \<Rightarrow> Some tx)"

text \<open>What an order that is started or deferred has been through since it was created, in which worlds.\<close>

definition priced :: "('s, 'b) machine \<Rightarrow> ('s, 'b, 'c, 'k, 'ctx) intent_env \<Rightarrow> intent \<Rightarrow> order \<Rightarrow> execution_transaction list \<Rightarrow> 's world \<Rightarrow> bool" where
  "priced M E i ord txs w \<longleftrightarrow>
     (\<exists>r cost ctx final w1 u w2. simulate_fills E ord txs 0 0 = Inr r \<and>
        (\<forall>tx \<in> set txs. \<forall>evm. as_evm tx = Some evm \<longrightarrow> (\<exists>gas. ie_simulate E ord evm = Inr gas)) \<and>
        ie_estimate_cost E ord (simulated_gas r) (first_evm txs) = Inr cost \<and>
        ie_validate_profitability E ord cost (in_quote_id i) (in_source i) = Inr () \<and>
        final = with_fill_gas M E (simulated_gas r) ord \<and>
        ie_build_context E i = Inr ctx \<and> (\<forall>reason. ie_should_execute E final ctx \<noteq> Skip reason) \<and>
        (if in_lock_type i = ''resource_lock'' then reserved_between M E final w w1 else w1 = w) \<and>
        store_order (mc_backend M) (mc_orders M) (mc_sched M) (decided_order M final (ie_should_execute E final ctx)) w1 = (Inr u, w2))"

lemma price_accepts:
  assumes "accepts (price_order M E i ord txs) w"
  shows "priced M E i ord txs w"
proof -
  obtain r where sim: "simulate_fills E ord txs 0 0 = Inr r"
    using assms by (cases "simulate_fills E ord txs 0 0") (auto simp: price_order_def)
  have price: "price_order M E i ord txs =
      and_then (lift_result (\<lambda>e. IntService (''Cost estimation failed: '' @ e)) (ie_estimate_cost E ord (simulated_gas r) (first_evm txs))) (\<lambda>cost.
        case ie_validate_profitability E ord cost (in_quote_id i) (in_source i) of
          Inl e \<Rightarrow> skip_order ord (''Insufficient profitability: '' @ e)
        | Inr _ \<Rightarrow> decide_order M E i (with_fill_gas M E (simulated_gas r) ord))"
    by (simp only: price_order_def sim sum.case Let_def simulated_gas_def first_evm_def case_prod_beta)
  obtain cost where cost: "ie_estimate_cost E ord (simulated_gas r) (first_evm txs) = Inr cost" and run: "accepts
      (case ie_validate_profitability E ord cost (in_quote_id i) (in_source i) of
         Inl e \<Rightarrow> skip_order ord (''Insufficient profitability: '' @ e)
       | Inr _ \<Rightarrow> decide_order M E i (with_fill_gas M E (simulated_gas r) ord)) w"
    using assms unfolding price accepts_and_then lift_result_Inr by auto
  then have profit: "ie_validate_profitability E ord cost (in_quote_id i) (in_source i) = Inr ()"
    by (cases "ie_validate_profitability E ord cost (in_quote_id i) (in_source i)") auto
  with run have "accepts (decide_order M E i (with_fill_gas M E (simulated_gas r) ord)) w" by simp
  from decide_accepts [OF this] cost profit sim simulated_legs [OF sim] show ?thesis
    unfolding priced_def lock_type_str.simps by blast
qed

lemma admit_accepts:
  assumes "accepts (admit_order M E i created) w"
  shows "let ord = apply_prepare_gas_limit_from_config M E (in_source i) created
    in admission_reason M E (in_source i) ord (current_timestamp (w_unix (mc_sched M) w) mod 2 ^ 32) = None \<and>
       ie_validate_before_simulation E ord = Inr () \<and> (\<exists>txs. ie_generate_fills E ord = Inr txs \<and> txs \<noteq> [] \<and> priced M E i ord txs w)"
proof -
  define ord where "ord = apply_prepare_gas_limit_from_config M E (in_source i) created"
  define reason where "reason = admission_reason M E (in_source i) ord (current_timestamp (w_unix (mc_sched M) w) mod 2 ^ 32)"
  have run: "admit_order M E i created w = (case reason of Some r \<Rightarrow> skip_order ord r w
      | None \<Rightarrow> (case ie_validate_before_simulation E ord of
           Inl e \<Rightarrow> skip_order ord (''Pre-simulation validation failed: '' @ e) w
         | Inr _ \<Rightarrow> (case ie_generate_fills E ord of
              Inl e \<Rightarrow> skip_order ord (''Fill transaction generation failed: '' @ e) w
            | Inr [] \<Rightarrow> skip_order ord ''Fill transaction generation returned no transactions'' w
            | Inr txs \<Rightarrow> price_order M E i ord txs w)))"
    by (simp only: admit_order_def Let_def ord_def reason_def)
  have quiet: "\<not> list_ex accepting (fst (skip_order ord r w))" for r
    by (simp add: skip_order_def publish_def)
  have none: "reason = None"
    using assms quiet unfolding accepts_def run by (cases reason) auto
  have pre: "ie_validate_before_simulation E ord = Inr ()"
    using assms quiet unfolding accepts_def run none by (cases "ie_validate_before_simulation E ord") auto
  have "\<exists>txs. ie_generate_fills E ord = Inr txs \<and> txs \<noteq> [] \<and> accepts (price_order M E i ord txs) w"
    using assms quiet unfolding accepts_def run none pre
    by (cases "ie_generate_fills E ord") (auto split: list.splits)
  then show ?thesis using none pre price_accepts unfolding Let_def ord_def reason_def by blast
qed

lemma process_accepts:
  assumes "accepts (process_intent M E i dedup) w"
  obtains w1 w2 payload w3 created where "denied_reason M E i = None"
    and "svc_exists (mc_backend M) (mc_sched M) (storage_key_str Intents) dedup w = (Inr False, w1)"
    and "svc_store (mc_backend M) (ie_intents E) (mc_sched M) (storage_key_str Intents) dedup i None w1 = (Inr (), w2)"
    and "enriched_intent_data M E i w2 = ([], Inr payload :: (intent_error, _) result, w3)"
    and "ie_create_order E i payload
      (map_sum (\<lambda>e. ''Failed to decode intent ID: '' @ e) (\<lambda>b. b) (ie_hex_decode E (without_0x_prefix (in_id i)))) = Inr created"
    and "accepts (admit_order M E i created) w3"
proof -
  let ?cb = "map_sum (\<lambda>e. ''Failed to decode intent ID: '' @ e) (\<lambda>b. b) (ie_hex_decode E (without_0x_prefix (in_id i)))"
  define rest where "rest payload = (case ie_create_order E i payload ?cb of Inl e \<Rightarrow> reject_intent i e
    | Inr created \<Rightarrow> admit_order M E i created)" for payload
  define tail where "tail = and_then (call (\<lambda>e. IntStorage (''Failed to store intent for deduplication: '' @ storage_error_text e))
      (svc_store (mc_backend M) (ie_intents E) (mc_sched M) (storage_key_str Intents) dedup i None)) (\<lambda>_.
      and_then (enriched_intent_data M E i) rest)"
  obtain w1 where ex: "svc_exists (mc_backend M) (mc_sched M) (storage_key_str Intents) dedup w = (Inr False, w1)"
    and w1: "accepts (case denied_reason M E i of Some reason \<Rightarrow> reject_intent i reason | None \<Rightarrow> tail) w1"
    using assms unfolding process_intent_def create_and_admit_def accepts_and_then rest_def tail_def call_Inr
    by (auto split: if_splits)
  then have none: "denied_reason M E i = None" by (cases "denied_reason M E i") auto
  then have "accepts tail w1" using w1 by simp
  then obtain w2 payload evs w3 where st: "svc_store (mc_backend M) (ie_intents E) (mc_sched M) (storage_key_str Intents) dedup i None w1 = (Inr (), w2)"
    and data: "enriched_intent_data M E i w2 = (evs, Inr payload :: (intent_error, _) result, w3)" and acc: "accepts (rest payload) w3"
    unfolding tail_def accepts_and_then call_Inr by auto
  have "evs = []" using data by (auto simp: enriched_intent_data_def split: option.splits prod.splits sum.splits)
  moreover obtain created where "ie_create_order E i payload ?cb = Inr created" "accepts (admit_order M E i created) w3"
    using acc by (cases "ie_create_order E i payload ?cb") (auto simp: rest_def)
  ultimately show thesis using that none ex st data by blast
qed

lemma admission_passed:
  assumes "admission_reason M E src ord now = None" and "mc_parse M (data ord) = Inr od"
  shows "src = ''off-chain'' \<Longrightarrow> validate_source_finality_window E od now = Inr ()"
    and "estimate_required_expiry_window_seconds (ie_hex_decode E) od (ie_settlement_impls E) (ie_poll_interval_seconds E)
        (settlement_name ord) = Some (required, why) \<Longrightarrow> required \<le> eod_expires od - now \<and> required \<le> eod_expires od - eod_fill_deadline od"
  using assms by (auto simp: admission_reason_def settlement_window_reason_def Let_def split: sum.splits if_splits)

lemma not_denied:
  "denied_reason M E i = None \<Longrightarrow> mc_parse M (in_data i) = Inr od \<Longrightarrow>
     to_lowercase (eod_user od) \<notin> set (ie_denied E) \<and> (\<forall>out \<in> set (eod_outputs od). recipient_address out \<notin> set (ie_denied E))"
  by (auto simp: denied_reason_def list_ex_iff split: if_splits)

text \<open>
  C13: Whenever the intent handler starts, prepares or defers an order, the intent has passed the gates in the order of
  the code.  Intake is enabled, and resource locks are for a resource-lock intent; its id was not in the cache; where
  its data parse, neither sender nor recipients are on the deny list; storage answered that it does not hold the
  intent, and then stored it; an order was created from the intent as enriched just after that.  At the clock of
  that moment, where the data of the order parse, the order (with the prepare gas limit of the configuration) leaves the
  time the settlement of its route needs, if it is known, both until it expires and after its fill deadline, and,
  for an off-chain escrow intent with a known delay, the time for source finality.  It passed the checks before simulation, fill
  transactions were generated, every EVM one of them was simulated successfully (others are not simulated), and the
  cost estimated from the simulated gas passed the profitability check.  The strategy did not skip the order.  For a
  resource-lock intent its Compact deposits were derived and, if there are any, reserved in the world of the admission; and
  the order as decided on was stored in the world that left.
\<close>

theorem accepted_intents_passed_every_gate:
  assumes "handle_intent M E i cache = (cache1, m)" and "accepts m w"
  shows "\<not> ie_intake_disabled E \<and> (in_lock_type i = ''resource_lock'' \<longrightarrow> ie_resource_lock_enabled E) \<and>
    \<not> ie_contains E cache (with_0x_prefix (in_id i)) \<and>
    (\<forall>od. mc_parse M (in_data i) = Inr od \<longrightarrow> to_lowercase (eod_user od) \<notin> set (ie_denied E) \<and>
       (\<forall>out \<in> set (eod_outputs od). recipient_address out \<notin> set (ie_denied E))) \<and>
    (\<exists>w1 w2 payload w3 created ord now txs.
       svc_exists (mc_backend M) (mc_sched M) (storage_key_str Intents) (with_0x_prefix (in_id i)) w = (Inr False, w1) \<and>
       svc_store (mc_backend M) (ie_intents E) (mc_sched M) (storage_key_str Intents) (with_0x_prefix (in_id i)) i None w1 = (Inr (), w2) \<and>
       enriched_intent_data M E i w2 = ([], Inr payload :: (intent_error, _) result, w3) \<and>
       ie_create_order E i payload
         (map_sum (\<lambda>e. ''Failed to decode intent ID: '' @ e) (\<lambda>b. b) (ie_hex_decode E (without_0x_prefix (in_id i)))) = Inr created \<and>
       ord = apply_prepare_gas_limit_from_config M E (in_source i) created \<and>
       now = current_timestamp (w_unix (mc_sched M) w3) mod 2 ^ 32 \<and>
       (\<forall>od. mc_parse M (data ord) = Inr od \<longrightarrow>
          (in_source i = ''off-chain'' \<longrightarrow> validate_source_finality_window E od now = Inr ()) \<and>
          (\<forall>required why. estimate_required_expiry_window_seconds (ie_hex_decode E) od (ie_settlement_impls E)
             (ie_poll_interval_seconds E) (settlement_name ord) = Some (required, why) \<longrightarrow>
             required \<le> eod_expires od - now \<and> required \<le> eod_expires od - eod_fill_deadline od)) \<and>
       ie_validate_before_simulation E ord = Inr () \<and> ie_generate_fills E ord = Inr txs \<and> txs \<noteq> [] \<and>
       priced M E i ord txs w3)"
proof -
  have gates: "\<not> ie_intake_disabled E" "in_lock_type i = ''resource_lock'' \<longrightarrow> ie_resource_lock_enabled E"
    "\<not> ie_contains E cache (with_0x_prefix (in_id i))" "accepts (process_intent M E i (with_0x_prefix (in_id i))) w"
    using assms by (auto simp: handle_intent_def Let_def split: if_splits)
  obtain w1 w2 payload w3 created where denied: "denied_reason M E i = None"
    and steps: "svc_exists (mc_backend M) (mc_sched M) (storage_key_str Intents) (with_0x_prefix (in_id i)) w = (Inr False, w1)"
      "svc_store (mc_backend M) (ie_intents E) (mc_sched M) (storage_key_str Intents) (with_0x_prefix (in_id i)) i None w1 = (Inr (), w2)"
      "enriched_intent_data M E i w2 = ([], Inr payload :: (intent_error, _) result, w3)"
    and created: "ie_create_order E i payload
      (map_sum (\<lambda>e. ''Failed to decode intent ID: '' @ e) (\<lambda>b. b) (ie_hex_decode E (without_0x_prefix (in_id i)))) = Inr created"
    and adm: "accepts (admit_order M E i created) w3" by (rule process_accepts [OF gates(4)])
  define ord where "ord = apply_prepare_gas_limit_from_config M E (in_source i) created"
  from admit_accepts [OF adm, folded ord_def, unfolded Let_def] obtain txs where
    reason: "admission_reason M E (in_source i) ord (current_timestamp (w_unix (mc_sched M) w3) mod 2 ^ 32) = None"
    and rest: "ie_validate_before_simulation E ord = Inr ()" "ie_generate_fills E ord = Inr txs" "txs \<noteq> []" "priced M E i ord txs w3" by blast
  show ?thesis
    by (intro conjI exI)
      (rule gates(1-3) allI [OF impI [OF not_denied [OF denied]]] steps created ord_def refl rest |
        use admission_passed [OF reason] in blast)+
qed

text \<open>An off-chain escrow intent at a solver with a deny list, and a strategy that executes it.\<close>

definition fresh_intent :: intent where
  "fresh_intent = \<lparr>in_id = ''07'', in_source = ''off-chain'', in_standard = ''eip7683'',
     in_metadata = \<lparr>im_requires_auction = False, im_exclusive_until = None, im_discovered_at = 1\<rparr>,
     in_data = JNull, in_order_bytes = [], in_quote_id = None, in_lock_type = ''permit2_escrow''\<rparr>"

definition gate_env :: "(stored memory_storage, stored, string list, nat, unit) intent_env" where
  "gate_env = \<lparr>ie_intake_disabled = False, ie_resource_lock_enabled = False, ie_denied = [''0xbad''],
     ie_contains = (\<lambda>c k. k \<in> set c), ie_put = (\<lambda>c k. k # c),
     ie_intents = \<lparr>encode = (\<lambda>_. Inr (Inr [])), decode = (\<lambda>_. Inr fresh_intent)\<rparr>,
     ie_quotes = \<lparr>encode = (\<lambda>_. Inl []), decode = (\<lambda>_. Inl [])\<rparr>,
     ie_settlement_impls = [], ie_poll_interval_seconds = 3, ie_source_finality = default_source_finality_config,
     ie_expected_delay_seconds = (\<lambda>_. Some 10), ie_open_units = (\<lambda>_. 100), ie_hex_decode = (\<lambda>_. Inr [7]),
     ie_to_value = (\<lambda>_. Inr JNull), ie_create_order = (\<lambda>_ _ _. Inr (sample_order Created)),
     ie_validate_before_simulation = (\<lambda>_. Inr ()), ie_generate_fills = (\<lambda>_. Inr [Evm (view_tx [1] 20 [])]),
     ie_simulate = (\<lambda>_ _. Inr 21000), ie_estimate_cost = (\<lambda>_ _ _. Inr 4), ie_validate_profitability = (\<lambda>_ _ _ _. Inr ()),
     ie_build_context = (\<lambda>_. Inr ()), ie_should_execute = (\<lambda>_ _. Execute \<lparr>gas_price = 1, priority_fee = None\<rparr>),
     ie_compact_networks = (\<lambda>_. None), ie_compact_balance = (\<lambda>_ _ _ _. Inr 0)\<rparr>"

definition start_world :: "stored memory_storage world" where
  "start_world = \<lparr>w_store = memory_new, w_tick = 0\<rparr>"

lemma fresh_intent_sel [simp]:
  "in_id fresh_intent = ''07''" "in_source fresh_intent = ''off-chain''" "in_quote_id fresh_intent = None"
  "in_lock_type fresh_intent = ''permit2_escrow''"
  by (simp_all add: fresh_intent_def)

lemma gate_env_sel [simp]:
  "\<not> ie_intake_disabled gate_env" "ie_contains gate_env = (\<lambda>c k. k \<in> set c)" "ie_denied gate_env = [''0xbad'']"
  "encode (ie_intents gate_env) x = Inr (Inr [])" "ie_settlement_impls gate_env = []" "ie_put gate_env = (\<lambda>c k. k # c)"
  "ie_source_finality gate_env = default_source_finality_config" "ie_expected_delay_seconds gate_env = (\<lambda>_. Some 10)"
  "ie_to_value gate_env = (\<lambda>_. Inr JNull)" "ie_create_order gate_env = (\<lambda>_ _ _. Inr (sample_order Created))"
  "ie_validate_before_simulation gate_env = (\<lambda>_. Inr ())" "ie_generate_fills gate_env = (\<lambda>_. Inr [Evm (view_tx [1] 20 [])])"
  "ie_simulate gate_env = (\<lambda>_ _. Inr 21000)" "ie_estimate_cost gate_env = (\<lambda>_ _ _. Inr 4)"
  "ie_validate_profitability gate_env = (\<lambda>_ _ _ _. Inr ())" "ie_build_context gate_env = (\<lambda>_. Inr ())"
  "ie_should_execute gate_env = (\<lambda>_ _. Execute \<lparr>gas_price = 1, priority_fee = None\<rparr>)"
  by (simp_all add: gate_env_def)

lemma fill_machine_sel [simp]:
  "mc_parse fill_machine = (\<lambda>_. Inr escrow_data)" "mc_backend fill_machine = memory_backend"
  "mc_sched fill_machine = quiet (\<lambda>_. 5)" "mc_orders fill_machine = order_codec"
  by (simp_all add: fill_machine_def)

lemma gate_carry_out: "accepts (carry_out fill_machine i ord (Execute p)) w"
  by (simp add: accepts_def carry_out_def Let_def store_or_release_def handler_defs store_order_def svc_defs order_codec_def
      memory_backend_def memory_set_bytes_def order_requires_preparation_def escrow_data_def)

lemma gate_admits: "accepts (admit_order fill_machine gate_env fresh_intent (sample_order Created)) w"
proof -
  have decides: "accepts (decide_order fill_machine gate_env fresh_intent ord) w1" for ord w1
    using gate_carry_out by (simp add: decide_order_def accepts_and_then) (simp add: handler_defs)
  have prices: "accepts (price_order fill_machine gate_env fresh_intent ord [Evm (view_tx [1] 20 [])]) w1" for ord w1
    using decides by (simp add: price_order_def accepts_and_then saturating_add_def lift_result_Inr)
  have no_oracle: "result_ok (parse_address (ie_hex_decode gate_env) x) = None" for x
    by (simp add: gate_env_def parse_address_def Let_def)
  have "admission_reason fill_machine gate_env ''off-chain'' ord 5 = None" for ord
    by (simp add: admission_reason_def validate_source_finality_window_def escrow_data_def u64_try_from_def is_escrow_def
        saturating_add_def default_source_finality_config_def settlement_window_reason_def
        estimate_required_expiry_window_seconds_def no_oracle)
  then show ?thesis using prices unfolding accepts_def admit_order_def by (simp add: Let_def current_timestamp_def)
qed

lemma with_0x_prefix_07: "with_0x_prefix ''07'' = ''0x07''" "with_0x_prefix ''0x07'' = ''0x07''"
  by code_simp+

lemma gate_env_accepts: "accepts (snd (handle_intent fill_machine gate_env fresh_intent [])) start_world"
proof -
  have "\<exists>w1. svc_exists memory_backend (quiet (\<lambda>_. 5)) ''intents'' ''0x07'' start_world = (Inr False, w1)"
    by (simp add: svc_exists_def call_read_def memory_exists_def start_world_def memory_new_def Let_def)
  then obtain w1 where ex: "svc_exists memory_backend (quiet (\<lambda>_. 5)) ''intents'' ''0x07'' start_world = (Inr False, w1)" ..
  have "\<exists>w2. svc_store memory_backend (ie_intents gate_env) (quiet (\<lambda>_. 5)) ''intents'' ''0x07'' fresh_intent None w1 = (Inr (), w2)"
    by (simp add: svc_defs memory_backend_def memory_set_bytes_def)
  then obtain w2 where st: "svc_store memory_backend (ie_intents gate_env) (quiet (\<lambda>_. 5)) ''intents'' ''0x07'' fresh_intent None w1 = (Inr (), w2)" ..
  have "denied_reason fill_machine gate_env fresh_intent = None" by (simp add: denied_reason_def) code_simp
  then have "accepts (create_and_admit fill_machine gate_env fresh_intent ''0x07'') w1"
    using gate_admits [of w2] by (simp add: create_and_admit_def accepts_and_then call_def st enriched_intent_data_def)
  then show ?thesis by (simp add: handle_intent_def Let_def with_0x_prefix_07 process_intent_def accepts_and_then call_def ex) blast
qed

theorem accepted_intents_passed_every_gate_witness:
  "accepts (snd (handle_intent fill_machine gate_env fresh_intent [])) start_world \<and>
   to_lowercase (eod_user escrow_data) \<notin> set (ie_denied gate_env)"
proof -
  obtain cache1 m where "handle_intent fill_machine gate_env fresh_intent [] = (cache1, m)" by (cases "handle_intent fill_machine gate_env fresh_intent []")
  with accepted_intents_passed_every_gate [OF this] gate_env_accepts show ?thesis by (simp add: fill_machine_def)
qed

text \<open>
  Calls one after the other on one cache.  An id counts as claimed by a call that passes the two gates before the
  cache and does not find it there.
\<close>

definition passes_intake :: "('s, 'b, 'c, 'k, 'ctx) intent_env \<Rightarrow> intent \<Rightarrow> bool" where
  "passes_intake E i \<longleftrightarrow> \<not> ie_intake_disabled E \<and> (in_lock_type i = ''resource_lock'' \<longrightarrow> ie_resource_lock_enabled E)"

fun handle_intents ::
  "('s, 'b) machine \<Rightarrow> ('s, 'b, 'c, 'k, 'ctx) intent_env \<Rightarrow> intent list \<Rightarrow> 'c \<Rightarrow> 'c \<times> ('s, intent_error, unit) handler list" where
  "handle_intents M E [] cache = (cache, [])"
| "handle_intents M E (i # is) cache =
     (case handle_intent M E i cache of (cache1, m) \<Rightarrow>
        (case handle_intents M E is cache1 of (cache2, ms) \<Rightarrow> (cache2, m # ms)))"

text \<open>An LRU cache keeps a key at least until \<open>cap\<close> keys other than it have been put in.\<close>

definition lru_keeps :: "nat \<Rightarrow> ('c \<Rightarrow> string \<Rightarrow> bool) \<Rightarrow> ('c \<Rightarrow> string \<Rightarrow> 'c) \<Rightarrow> bool" where
  "lru_keeps cap contains put \<longleftrightarrow>
     (\<forall>c k ks. card (set ks - {k}) < cap \<longrightarrow> contains (foldl put (put c k) ks) k)"

lemma handle_intent_cache:
  "fst (handle_intent M E i cache) =
     (if passes_intake E i \<and> \<not> ie_contains E cache (with_0x_prefix (in_id i)) then ie_put E cache (with_0x_prefix (in_id i)) else cache)"
  by (auto simp: handle_intent_def passes_intake_def Let_def)

lemma handle_intents_cache:
  "\<exists>ks. fst (handle_intents M E is cache) = foldl (ie_put E) cache ks \<and> set ks \<subseteq> with_0x_prefix ` in_id ` set is"
proof (induction "is" arbitrary: cache)
  case (Cons i "is")
  let ?k = "with_0x_prefix (in_id i)"
  obtain ks where ks: "fst (handle_intents M E is (fst (handle_intent M E i cache))) = foldl (ie_put E) (fst (handle_intent M E i cache)) ks"
    "set ks \<subseteq> with_0x_prefix ` in_id ` set is" using Cons.IH by blast
  have "foldl (ie_put E) (fst (handle_intent M E i cache)) ks = foldl (ie_put E) cache (ks1 @ ks)"
    if "ks1 = (if passes_intake E i \<and> \<not> ie_contains E cache ?k then [?k] else [])" for ks1
    unfolding handle_intent_cache using that by simp
  with ks show ?case
    by (intro exI [of _ "(if passes_intake E i \<and> \<not> ie_contains E cache ?k then [?k] else []) @ ks"])
      (auto split: prod.splits)
qed (auto intro: exI [of _ "[]"])

text \<open>
  C39: An intent is taken up once while the cache remembers it.  Take a call for an intent that passes the intake
  gates and whose id is not in the cache, whatever becomes of the call, errors included; then calls for any
  intents, with fewer distinct other ids than the cache has places (10000 in the code); then a call for
  an intent with the id of the first, spelled with or without the hexadecimal prefix, that passes the gates too.  The id
  is in the cache by then, and this last call returns at once: no event, no storage call, no change of the cache.
  The cache is checked and claimed under one lock, so concurrent calls are such sequences.  Of the cache only
  the law of an LRU cache is assumed; when more ids came in between, only the check of the storage is left.
\<close>

theorem intents_handled_at_most_once:
  assumes "lru_keeps cap (ie_contains E) (ie_put E)"
    and "passes_intake E i" and "\<not> ie_contains E cache (with_0x_prefix (in_id i))"
    and "handle_intents M E (i # is) cache = (cache1, ms)"
    and "card (with_0x_prefix ` in_id ` set is - {with_0x_prefix (in_id i)}) < cap"
    and "with_0x_prefix (in_id j) = with_0x_prefix (in_id i)" and "passes_intake E j"
  shows "ie_contains E cache1 (with_0x_prefix (in_id i)) \<and> handle_intent M E j cache1 = (cache1, ok ())"
proof -
  let ?k = "with_0x_prefix (in_id i)"
  have "fst (handle_intent M E i cache) = ie_put E cache ?k" using assms(2,3) by (simp add: handle_intent_cache)
  then have cache1: "cache1 = fst (handle_intents M E is (ie_put E cache ?k))" using assms(4) by (auto split: prod.splits)
  obtain ks where "cache1 = foldl (ie_put E) (ie_put E cache ?k) ks" and ks: "set ks \<subseteq> with_0x_prefix ` in_id ` set is"
    using handle_intents_cache [of M E "is" "ie_put E cache ?k"] cache1 by auto
  moreover have "card (set ks - {?k}) < cap"
    using card_mono [of "with_0x_prefix ` in_id ` set is - {?k}" "set ks - {?k}"] ks assms(5) by fastforce
  ultimately have "ie_contains E cache1 ?k" using assms(1) by (simp add: lru_keeps_def)
  then show ?thesis using assms(6,7) by (auto simp: handle_intent_def passes_intake_def)
qed

text \<open>An LRU cache as a list of keys, the most recent first.\<close>

definition lru_put :: "nat \<Rightarrow> string list \<Rightarrow> string \<Rightarrow> string list" where
  "lru_put cap c k = take cap (k # removeAll k c)"

lemma lru_put_front:
  assumes "card (set ks - {k}) < cap"
  shows "\<exists>pre post. foldl (lru_put cap) (lru_put cap c k) ks = pre @ k # post \<and> distinct pre \<and> set pre \<subseteq> set ks - {k}"
  using assms
proof (induction ks rule: rev_induct)
  case Nil
  then obtain n where "cap = Suc n" by (cases cap) auto
  then show ?case by (intro exI [of _ "[]"] exI [of _ "take n (removeAll k c)"]) (simp add: lru_put_def)
next
  case (snoc x ks)
  have "card (set ks - {k}) \<le> card (set (ks @ [x]) - {k})" by (intro card_mono) auto
  with snoc obtain pre post where old: "foldl (lru_put cap) (lru_put cap c k) ks = pre @ k # post" "distinct pre" "set pre \<subseteq> set ks - {k}"
    by force
  show ?case
  proof (cases "x = k")
    case True
    obtain n where "cap = Suc n" using snoc.prems by (cases cap) auto
    moreover have "foldl (lru_put cap) (lru_put cap c k) (ks @ [x]) = lru_put cap (foldl (lru_put cap) (lru_put cap c k) ks) k"
      using True by simp
    moreover have "\<exists>post. lru_put (Suc n) y k = k # post" for y by (simp add: lru_put_def)
    ultimately show ?thesis by (metis append_Nil distinct.simps(1) empty_set empty_subsetI)
  next
    case False
    let ?pre = "x # removeAll x pre"
    have d: "distinct ?pre" using old(2) by (simp add: distinct_removeAll)
    have sub: "set ?pre \<subseteq> set (ks @ [x]) - {k}" using old(3) False by auto
    have "length ?pre = card (set ?pre)" using d by (simp only: distinct_card)
    also have "\<dots> \<le> card (set (ks @ [x]) - {k})" using sub by (intro card_mono) auto
    finally have "length ?pre < cap" using snoc.prems by simp
    then obtain n where "cap = length ?pre + Suc n" by (metis less_imp_Suc_add add_Suc_right)
    moreover have "foldl (lru_put cap) (lru_put cap c k) (ks @ [x]) = take cap (?pre @ k # removeAll x post)"
      using old(1) False by (simp add: lru_put_def)
    ultimately have "foldl (lru_put cap) (lru_put cap c k) (ks @ [x]) = ?pre @ k # take n (removeAll x post)"
      by (simp only: take_append) simp
    then show ?thesis using d sub by blast
  qed
qed

lemma lru_put_keeps: "lru_keeps cap (\<lambda>c k. k \<in> set c) (lru_put cap)"
  unfolding lru_keeps_def using lru_put_front by (metis in_set_conv_decomp)

theorem intents_handled_at_most_once_witness:
  "handle_intent fill_machine (gate_env\<lparr>ie_put := lru_put 10000\<rparr>) (fresh_intent\<lparr>in_id := ''0x07''\<rparr>)
     (fst (handle_intents fill_machine (gate_env\<lparr>ie_put := lru_put 10000\<rparr>) [fresh_intent, fresh_intent\<lparr>in_id := ''08''\<rparr>] [])) =
   (fst (handle_intents fill_machine (gate_env\<lparr>ie_put := lru_put 10000\<rparr>) [fresh_intent, fresh_intent\<lparr>in_id := ''08''\<rparr>] []), ok ())"
proof -
  let ?E = "gate_env\<lparr>ie_put := lru_put 10000\<rparr>" and ?is = "[fresh_intent\<lparr>in_id := ''08''\<rparr>]"
  have keeps: "lru_keeps 10000 (ie_contains ?E) (ie_put ?E)" using lru_put_keeps by simp
  obtain cache1 ms where run: "handle_intents fill_machine ?E (fresh_intent # ?is) [] = (cache1, ms)"
    by (cases "handle_intents fill_machine ?E (fresh_intent # ?is) []")
  have "card (with_0x_prefix ` in_id ` set ?is - {with_0x_prefix (in_id fresh_intent)}) \<le> card (with_0x_prefix ` in_id ` set ?is)"
    by (intro card_mono) auto
  then have few: "card (with_0x_prefix ` in_id ` set ?is - {with_0x_prefix (in_id fresh_intent)}) < 10000" by simp
  have "passes_intake ?E fresh_intent" "passes_intake ?E (fresh_intent\<lparr>in_id := ''0x07''\<rparr>)"
    "\<not> ie_contains ?E [] (with_0x_prefix (in_id fresh_intent))"
    "with_0x_prefix (in_id (fresh_intent\<lparr>in_id := ''0x07''\<rparr>)) = with_0x_prefix (in_id fresh_intent)"
    by (simp_all add: passes_intake_def with_0x_prefix_07)
  from intents_handled_at_most_once [OF keeps this(1,3) run few this(4,2)] run show ?thesis by simp
qed

end
