(* ===== verification/Intake_Restart.thy ===== *)
theory Intake_Restart
  imports Recovery Intent_Handler
begin

text \<open>
  Intake and recovery together: what a restart does to the protection of the intent handler against
  handling an intent twice.
\<close>

lemma delete_dead: "memory_live t m k = None \<Longrightarrow> memory_live t (snd (memory_delete now m k')) k = None"
  by (auto simp: memory_delete_def memory_live_def delete_conv' split: option.splits)

lemma delete_kills: "memory_live t (snd (memory_delete now m k)) k = None"
  by (simp add: memory_delete_def memory_live_def delete_conv')

text \<open>One row: an intent without an order is handed back, one with an order is removed.\<close>

lemma sort_out_step:
  assumes "undisturbed now M" and "sort_out_intents M ((i0, i) # rows) acc w = (evs, Inr orphans, w')"
  shows "\<exists>acc1 w1 evs1. sort_out_intents M rows acc1 w1 = (evs1, Inr orphans, w') \<and>
    w_store w1 = (if memory_live now (w_store w) (order_key i0) = None then w_store w
                  else snd (memory_delete now (w_store w) (mk_key ''intents'' i0)))"
proof -
  let ?w1 = "resume (quiet (\<lambda>_. now)) w"
  define w2 where "w2 = snd (svc_remove (mc_backend M) (mc_sched M) (storage_key_str Intents) i0 ?w1)"
  have ex: "svc_exists (mc_backend M) (mc_sched M) (storage_key_str Orders) i0 w =
      (Inr (memory_live now (w_store w) (order_key i0) \<noteq> None), ?w1)"
    using assms(1) by (simp add: undisturbed_def svc_exists_def call_read_def exists_live order_key_def w_now_def Let_def)
  have w2: "w_store w2 = snd (memory_delete now (w_store w) (mk_key ''intents'' i0))"
    using assms(1) by (simp add: w2_def undisturbed_def svc_remove_def call_write_def Let_def split: prod.splits)
  show ?thesis
  proof (cases "memory_live now (w_store w) (order_key i0) = None")
    case True
    then obtain evs1 where "sort_out_intents M rows (acc @ [i]) ?w1 = (evs1, Inr orphans, w')"
      using assms(2) by (auto simp: and_then_def call_def ex simp del: storage_key_str.simps split: prod.splits sum.splits)
    moreover have "w_store ?w1 = w_store w" by simp
    ultimately show ?thesis using True by metis
  next
    case False
    then obtain evs1 where "sort_out_intents M rows acc w2 = (evs1, Inr orphans, w')"
      using assms(2) by (auto simp: and_then_def call_def ex ignore_def w2_def simp del: storage_key_str.simps split: prod.splits sum.splits)
    then show ?thesis using False w2 by metis
  qed
qed

text \<open>A row removed by the clean-up stays removed, and every row with an order is removed.\<close>

lemma sort_out_removes:
  assumes "undisturbed now M"
  shows "sort_out_intents M rows acc w = (evs, Inr orphans, w') \<Longrightarrow>
    memory_live now (w_store w) (mk_key ''intents'' ident) = None \<or>
    (ident \<in> fst ` set rows \<and> memory_live now (w_store w) (order_key ident) \<noteq> None) \<Longrightarrow>
    memory_live now (w_store w') (mk_key ''intents'' ident) = None"
proof (induction rows arbitrary: acc w evs)
  case (Cons r rows)
  obtain i0 i where r: "r = (i0, i)" by (cases r)
  from sort_out_step [OF assms Cons.prems(1) [unfolded r]] obtain acc1 w1 evs1 where
    rest: "sort_out_intents M rows acc1 w1 = (evs1, Inr orphans, w')"
    and w1: "w_store w1 = (if memory_live now (w_store w) (order_key i0) = None then w_store w
      else snd (memory_delete now (w_store w) (mk_key ''intents'' i0)))" by blast
  have ords: "memory_live now (w_store w1) (order_key ident) = memory_live now (w_store w) (order_key ident)"
    by (simp add: w1 order_key_def delete_live)
  have "memory_live now (w_store w1) (mk_key ''intents'' ident) = None \<or>
      (ident \<in> fst ` set rows \<and> memory_live now (w_store w1) (order_key ident) \<noteq> None)"
    using Cons.prems(2) delete_dead [of now "w_store w" "mk_key ''intents'' ident" now "mk_key ''intents'' i0"]
    unfolding r ords by (auto simp: w1 delete_kills)
  from Cons.IH [OF rest this] show ?case .
qed (simp add: ok_def)

lemma sort_out_keeps:
  assumes "undisturbed now M"
  shows "sort_out_intents M rows acc w = (evs, Inr orphans, w') \<Longrightarrow>
    memory_live now (w_store w') (order_key j) = memory_live now (w_store w) (order_key j)"
proof (induction rows arbitrary: acc w evs)
  case (Cons r rows)
  obtain i0 i where r: "r = (i0, i)" by (cases r)
  from sort_out_step [OF assms Cons.prems [unfolded r]] show ?case
    by (auto simp: order_key_def delete_live dest: Cons.IH)
qed (simp add: ok_def)

text \<open>
  C14: The clean-up of a restart undoes the protection against handling an intent twice. With no other task
  at work, recovery removes every stored intent for which an order with the same id is stored; after that
  the intent handler of the restarted process, whose cache is empty, no longer finds the intent and goes on
  to create and admit an order for it again, although the stored order may be in execution.
\<close>

theorem restart_forgets_handled_intents:
  assumes "undisturbed now M"
    and "fst (svc_retrieve_all memory_backend ic (quiet (\<lambda>_. now)) (storage_key_str Intents) w) = Inr rows"
    and "(ident, i) \<in> set rows" and "memory_live now (w_store w) (order_key ident) \<noteq> None"
    and "with_0x_prefix (in_id j) = ident" and "\<not> ie_contains E fresh ident" and "\<not> ie_intake_disabled E"
    and "in_lock_type j = ''resource_lock'' \<longrightarrow> ie_resource_lock_enabled E"
  shows "\<exists>orphans w1. recover_orphaned_intents M ic w = ([], Inr orphans, w1) \<and>
    memory_live now (w_store w1) (order_key ident) = memory_live now (w_store w) (order_key ident) \<and>
    snd (handle_intent M E j fresh) w1 = create_and_admit M E j ident (resume (mc_sched M) w1)"
proof -
  from retrieve_all_quiet [OF refl assms(2)] obtain w0 where
    all: "svc_retrieve_all memory_backend ic (quiet (\<lambda>_. now)) (storage_key_str Intents) w = (Inr rows, w0)"
    and st: "w_store w0 = w_store w" by blast
  from sort_out_outcome [OF assms(1), of rows "[]" w0] obtain w1 where
    sorted: "sort_out_intents M rows [] w0 = ([], Inr (without_order now (w_store w) rows), w1)" by (auto simp: st)
  have run: "recover_orphaned_intents M ic w = ([], Inr (without_order now (w_store w) rows), w1)"
    using assms(1) all sorted unfolding recover_orphaned_intents_def undisturbed_def by (simp add: and_then_def call_def)
  have gone: "memory_live now (w_store w1) (mk_key ''intents'' ident) = None"
    using sort_out_removes [OF assms(1) sorted, of ident] assms(3,4) by (force simp: st)
  have kept: "memory_live now (w_store w1) (order_key ident) = memory_live now (w_store w) (order_key ident)"
    using sort_out_keeps [OF assms(1) sorted] by (simp add: st)
  have ex: "svc_exists (mc_backend M) (mc_sched M) (storage_key_str Intents) ident w1 = (Inr False, resume (mc_sched M) w1)"
    using assms(1) gone by (simp add: undisturbed_def svc_exists_def call_read_def exists_live w_now_def Let_def)
  have "snd (handle_intent M E j fresh) w1 = process_intent M E j ident w1"
    using assms(5-8) by (auto simp: handle_intent_def Let_def)
  also have "\<dots> = create_and_admit M E j ident (resume (mc_sched M) w1)"
    by (simp only: process_intent_def and_then_def call_def ex) simp
  finally show ?thesis using run kept by blast
qed

text \<open>The order of intent \<open>0x07\<close> is executing and both rows are stored; the solver restarts.\<close>

definition executing_order :: order where
  "executing_order = (sample_order Executing)\<lparr>order_id := ''0x07'', fill_tx_hash := Some [9]\<rparr>"

definition restart_world :: "stored memory_storage world" where
  "restart_world = \<lparr>w_store = put_entry 0 (put_entry 0 memory_new (order_key ''0x07'') (Inl executing_order) None None)
     ''intents:0x07'' (Inr []) None None, w_tick = 0\<rparr>"

theorem restart_forgets_handled_intents_witness:
  "\<exists>orphans w1. recover_orphaned_intents fill_machine (ie_intents gate_env) restart_world = ([], Inr orphans, w1) \<and>
     memory_live 5 (w_store w1) (order_key ''0x07'') = Some (Inl executing_order) \<and>
     snd (handle_intent fill_machine gate_env fresh_intent []) w1 =
       create_and_admit fill_machine gate_env fresh_intent ''0x07'' (resume (quiet (\<lambda>_. 5)) w1)"
proof -
  have calm: "undisturbed 5 fill_machine" by (simp add: undisturbed_def fill_machine_def stored_codecs_ok)
  have live: "memory_live 5 (w_store restart_world) (order_key ''0x07'') = Some (Inl executing_order)"
    by (simp add: restart_world_def memory_live_put until_ttl_def order_key_def mk_key_def)
  have keys: "keys_for_namespace t [(''orders:0x07'', \<lparr>se_value = v' :: stored, se_expires_at = None\<rparr>),
      (''intents:0x07'', \<lparr>se_value = v, se_expires_at = None\<rparr>)] ''intents'' = {''intents:0x07''}" for t v v'
    by (auto simp: keys_for_namespace_def is_expired_def starts_with_def)
  have rows: "fst (svc_retrieve_all memory_backend (ie_intents gate_env) (quiet (\<lambda>_. 5)) (storage_key_str Intents) restart_world) =
      Inr [(''0x07'', fresh_intent)]"
    by (simp add: svc_retrieve_all_def svc_query_def call_read_def Let_def memory_query_def memory_get_batch_def restart_world_def
        put_entry_def memory_new_def indexed_query_keys_def keys mk_entry_def is_expired_def gate_env_def id_of_key_def order_key_def mk_key_def)
  from restart_forgets_handled_intents [OF calm rows, of "''0x07''" fresh_intent fresh_intent gate_env "[]"] live
  show ?thesis by (auto simp: with_0x_prefix_07)
qed

end
