(* ===== verification/Bridge_Threshold.thy ===== *)
theory Bridge_Threshold
  imports Prelude
begin

text \<open>
  \<^verbatim>\<open>crates/solver-bridge/src/threshold.rs\<close>: when the balances of a pair of chains call for a transfer,
  in which direction, and how much.  Amounts are \<^verbatim>\<open>U256\<close> values, whose multiplication wraps.
\<close>

section \<open>Thresholds\<close>

definition BPS_BASE :: nat where "BPS_BASE = 10000"

definition u256_mul :: "nat \<Rightarrow> nat \<Rightarrow> nat" where
  "u256_mul a b = a * b mod 2 ^ 256"

record threshold_result =
  lower_bound :: nat
  upper_bound :: nat
  within_band :: bool
  deficit :: nat
  surplus :: nat

datatype rebalance_direction = AToB | BToA

record pair_threshold_analysis =
  side_a :: threshold_result
  side_b :: threshold_result
  direction_needed :: "rebalance_direction option"
  suggested_amount :: nat
  both_sides_low :: bool

definition evaluate_threshold :: "nat \<Rightarrow> nat \<Rightarrow> nat \<Rightarrow> threshold_result" where
  "evaluate_threshold current target deviation_band_bps =
     (let band = min deviation_band_bps BPS_BASE;
          lower = u256_mul target (BPS_BASE - band) div BPS_BASE;
          upper = u256_mul target (BPS_BASE + band) div BPS_BASE
      in \<lparr>lower_bound = lower, upper_bound = upper,
          within_band = (current \<ge> lower \<and> current \<le> upper),
          deficit = (if current < target then target - current else 0),
          surplus = (if current > target then current - target else 0)\<rparr>)"

definition direction_and_amount ::
  "nat \<Rightarrow> nat \<Rightarrow> threshold_result \<Rightarrow> threshold_result \<Rightarrow> nat \<Rightarrow> rebalance_direction option \<times> nat" where
  "direction_and_amount balance_a balance_b sa sb max_bridge_amount =
     (if balance_a < lower_bound sa \<and> balance_b < lower_bound sb then (None, 0)
      else if balance_a < lower_bound sa \<and> balance_b > lower_bound sb
      then (let b_headroom = balance_b - lower_bound sb
            in (Some BToA, min (min (deficit sa) max_bridge_amount) b_headroom))
      else if balance_b < lower_bound sb \<and> balance_a > lower_bound sa
      then (let a_headroom = balance_a - lower_bound sa
            in (Some AToB, min (min (deficit sb) max_bridge_amount) a_headroom))
      else if balance_a > upper_bound sa
      then (let receiver_headroom = upper_bound sb - balance_b;
                amount = min (min (surplus sa) max_bridge_amount) receiver_headroom
            in if amount = 0 then (None, 0) else (Some AToB, amount))
      else if balance_b > upper_bound sb
      then (let receiver_headroom = upper_bound sa - balance_a;
                amount = min (min (surplus sb) max_bridge_amount) receiver_headroom
            in if amount = 0 then (None, 0) else (Some BToA, amount))
      else (None, 0))"

definition analyze_pair :: "nat \<Rightarrow> nat \<Rightarrow> nat \<Rightarrow> nat \<Rightarrow> nat \<Rightarrow> nat \<Rightarrow> pair_threshold_analysis" where
  "analyze_pair balance_a balance_b target_a target_b deviation_band_bps max_bridge_amount =
     (let sa = evaluate_threshold balance_a target_a deviation_band_bps;
          sb = evaluate_threshold balance_b target_b deviation_band_bps;
          (dir, amount) = direction_and_amount balance_a balance_b sa sb max_bridge_amount
      in \<lparr>side_a = sa, side_b = sb, direction_needed = dir, suggested_amount = amount,
          both_sides_low = (balance_a < lower_bound sa \<and> balance_b < lower_bound sb)\<rparr>)"

section \<open>The band around a target\<close>

text \<open>Targets for which the products of the bounds do not wrap.\<close>

definition target_fits :: "nat \<Rightarrow> bool" where
  "target_fits target \<longleftrightarrow> target * (2 * BPS_BASE) < 2 ^ 256"

lemma bounds_around_target:
  assumes "target_fits target"
  shows "lower_bound (evaluate_threshold c target bps) \<le> target"
    and "target \<le> upper_bound (evaluate_threshold c target bps)"
proof -
  let ?band = "min bps BPS_BASE"
  have fits: "target * (BPS_BASE + ?band) < 2 ^ 256" "target * (BPS_BASE - ?band) < 2 ^ 256"
    using assms mult_le_mono2 [of "BPS_BASE + ?band" "2 * BPS_BASE" target] mult_le_mono2 [of "BPS_BASE - ?band" "2 * BPS_BASE" target]
    unfolding target_fits_def by linarith+
  have "target * (BPS_BASE - ?band) div BPS_BASE \<le> target * BPS_BASE div BPS_BASE"
    by (intro div_le_mono mult_le_mono2) simp
  then show "lower_bound (evaluate_threshold c target bps) \<le> target"
    using fits(2) by (simp add: evaluate_threshold_def Let_def u256_mul_def BPS_BASE_def)
  have "target * BPS_BASE div BPS_BASE \<le> target * (BPS_BASE + ?band) div BPS_BASE"
    by (intro div_le_mono mult_le_mono2) simp
  then show "target \<le> upper_bound (evaluate_threshold c target bps)"
    using fits(1) by (simp add: evaluate_threshold_def Let_def u256_mul_def BPS_BASE_def)
qed

definition lower_of :: "nat \<Rightarrow> nat \<Rightarrow> nat" where "lower_of target bps = lower_bound (evaluate_threshold 0 target bps)"

definition upper_of :: "nat \<Rightarrow> nat \<Rightarrow> nat" where "upper_of target bps = upper_bound (evaluate_threshold 0 target bps)"

lemma bounds_of_target:
  "lower_bound (evaluate_threshold c target bps) = lower_of target bps"
  "upper_bound (evaluate_threshold c target bps) = upper_of target bps"
  by (simp_all add: lower_of_def upper_of_def evaluate_threshold_def Let_def)

lemma gaps_of_target:
  "deficit (evaluate_threshold c target bps) = target - c" "surplus (evaluate_threshold c target bps) = c - target"
  by (simp_all add: evaluate_threshold_def Let_def)

lemma analyze_pair_cases:
  "direction_needed (analyze_pair a b ta tb bps mx) = fst (direction_and_amount a b (evaluate_threshold a ta bps) (evaluate_threshold b tb bps) mx)"
  "suggested_amount (analyze_pair a b ta tb bps mx) = snd (direction_and_amount a b (evaluate_threshold a ta bps) (evaluate_threshold b tb bps) mx)"
  by (simp_all add: analyze_pair_def Let_def split: prod.splits)

text \<open>Why a direction was chosen, and what bounds the amount.\<close>

lemma towards_a:
  assumes "direction_and_amount a b sa sb mx = (Some BToA, m)"
  shows "m \<le> mx \<and> ((a < lower_bound sa \<and> lower_bound sb < b \<and> m \<le> deficit sa \<and> m \<le> b - lower_bound sb) \<or>
    (b > upper_bound sb \<and> 0 < m \<and> m \<le> surplus sb \<and> m \<le> upper_bound sa - a))"
  using assms unfolding direction_and_amount_def Let_def by (simp split: if_splits) linarith+

lemma towards_b:
  assumes "direction_and_amount a b sa sb mx = (Some AToB, m)"
  shows "m \<le> mx \<and> ((b < lower_bound sb \<and> lower_bound sa < a \<and> m \<le> deficit sb \<and> m \<le> a - lower_bound sa) \<or>
    (a > upper_bound sa \<and> 0 < m \<and> m \<le> surplus sa \<and> m \<le> upper_bound sb - b))"
  using assms unfolding direction_and_amount_def Let_def by (simp split: if_splits) linarith+

lemma not_towards_a:
  "lower_of ta bps \<le> a \<Longrightarrow> b \<le> upper_of tb bps \<Longrightarrow> direction_needed (analyze_pair a b ta tb bps mx) \<noteq> Some BToA"
  using towards_a [of a b "evaluate_threshold a ta bps" "evaluate_threshold b tb bps" mx
      "snd (direction_and_amount a b (evaluate_threshold a ta bps) (evaluate_threshold b tb bps) mx)"]
  by (auto simp: analyze_pair_cases prod_eq_iff bounds_of_target)

lemma not_towards_b:
  "lower_of tb bps \<le> b \<Longrightarrow> a \<le> upper_of ta bps \<Longrightarrow> direction_needed (analyze_pair a b ta tb bps mx) \<noteq> Some AToB"
  using towards_b [of a b "evaluate_threshold a ta bps" "evaluate_threshold b tb bps" mx
      "snd (direction_and_amount a b (evaluate_threshold a ta bps) (evaluate_threshold b tb bps) mx)"]
  by (auto simp: analyze_pair_cases prod_eq_iff bounds_of_target)

text \<open>The balances after the suggested transfer arrives in full.\<close>

definition after_transfer :: "rebalance_direction \<Rightarrow> nat \<Rightarrow> nat \<times> nat \<Rightarrow> nat \<times> nat" where
  "after_transfer d m = (\<lambda>(a, b). case d of AToB \<Rightarrow> (a - m, b + m) | BToA \<Rightarrow> (a + m, b - m))"

definition opposite :: "rebalance_direction \<Rightarrow> rebalance_direction" where
  "opposite d = (case d of AToB \<Rightarrow> BToA | BToA \<Rightarrow> AToB)"

text \<open>What a suggestion leaves on both sides.\<close>

lemma suggestion_bounds:
  assumes "target_fits ta" and "target_fits tb"
    and "direction_needed (analyze_pair a b ta tb bps mx) = Some d"
    and "m = suggested_amount (analyze_pair a b ta tb bps mx)"
  shows "m \<le> mx" and "d = AToB \<Longrightarrow> m \<le> a \<and> lower_of ta bps \<le> a - m \<and> b + m \<le> upper_of tb bps"
    and "d = BToA \<Longrightarrow> m \<le> b \<and> lower_of tb bps \<le> b - m \<and> a + m \<le> upper_of ta bps"
proof -
  note around = bounds_around_target [OF assms(1), of 0 bps, unfolded bounds_of_target]
    bounds_around_target [OF assms(2), of 0 bps, unfolded bounds_of_target]
  have now: "direction_and_amount a b (evaluate_threshold a ta bps) (evaluate_threshold b tb bps) mx = (Some d, m)"
    using assms(3,4) by (simp add: analyze_pair_cases prod_eq_iff)
  show "m \<le> mx" using now towards_a towards_b by (cases d) blast+
  show "m \<le> a \<and> lower_of ta bps \<le> a - m \<and> b + m \<le> upper_of tb bps" if "d = AToB"
    using towards_b [OF now [unfolded that], unfolded bounds_of_target gaps_of_target] around by auto
  show "m \<le> b \<and> lower_of tb bps \<le> b - m \<and> a + m \<le> upper_of ta bps" if "d = BToA"
    using towards_a [OF now [unfolded that], unfolded bounds_of_target gaps_of_target] around by auto
qed

text \<open>
  C31: A suggested rebalance never harms either side and never has to be undone. For targets whose bounds do
  not overflow, a suggested transfer is at most the configured maximum, the donor has the amount and keeps at
  least its lower bound, the receiver ends at or below its upper bound, the sum of the balances is unchanged,
  and once the transfer has arrived the analysis of the new balances never suggests the opposite direction.
\<close>

theorem rebalance_never_reversed:
  assumes "target_fits ta" and "target_fits tb"
    and "direction_needed (analyze_pair a b ta tb bps mx) = Some d"
    and "m = suggested_amount (analyze_pair a b ta tb bps mx)" and "after_transfer d m (a, b) = (a', b')"
  shows "m \<le> mx \<and> m \<le> (case d of AToB \<Rightarrow> a | BToA \<Rightarrow> b) \<and> a' + b' = a + b \<and>
    (case d of AToB \<Rightarrow> lower_of ta bps \<le> a' \<and> b' \<le> upper_of tb bps | BToA \<Rightarrow> lower_of tb bps \<le> b' \<and> a' \<le> upper_of ta bps) \<and>
    direction_needed (analyze_pair a' b' ta tb bps mx') \<noteq> Some (opposite d)"
proof (cases d)
  case AToB
  note fit = suggestion_bounds [OF assms(1-4)]
  have moved: "a' = a - m" "b' = b + m" using assms(5) by (simp_all add: after_transfer_def AToB)
  have "direction_needed (analyze_pair a' b' ta tb bps mx') \<noteq> Some BToA"
    using fit(2) [OF AToB] by (intro not_towards_a) (simp_all add: moved)
  then show ?thesis using fit(1) fit(2) [OF AToB] by (simp add: AToB opposite_def moved)
next
  case BToA
  note fit = suggestion_bounds [OF assms(1-4)]
  have moved: "a' = a + m" "b' = b - m" using assms(5) by (simp_all add: after_transfer_def BToA)
  have "direction_needed (analyze_pair a' b' ta tb bps mx') \<noteq> Some AToB"
    using fit(3) [OF BToA] by (intro not_towards_b) (simp_all add: moved)
  then show ?thesis using fit(1) fit(3) [OF BToA] by (simp add: BToA opposite_def moved)
qed

theorem rebalance_never_reversed_witness:
  "direction_needed (analyze_pair 200 1300 1000 1000 2000 500) = Some BToA \<and>
   suggested_amount (analyze_pair 200 1300 1000 1000 2000 500) = 500 \<and>
   direction_needed (analyze_pair 700 800 1000 1000 2000 500) \<noteq> Some AToB"
proof -
  have run: "direction_needed (analyze_pair 200 1300 1000 1000 2000 500) = Some BToA"
    "suggested_amount (analyze_pair 200 1300 1000 1000 2000 500) = 500"
    by (simp_all add: analyze_pair_def direction_and_amount_def evaluate_threshold_def u256_mul_def BPS_BASE_def)
  have fits: "target_fits 1000" by (simp add: target_fits_def BPS_BASE_def)
  from rebalance_never_reversed [OF fits fits run(1), of 500 700 800 500] show ?thesis
    by (simp add: run after_transfer_def opposite_def)
qed

text \<open>A depleted side is always served while the other side has something to give.\<close>

lemma depleted_side_served:
  "a < lower_of ta bps \<Longrightarrow> lower_of tb bps < b \<Longrightarrow> direction_needed (analyze_pair a b ta tb bps mx) = Some BToA"
  "b < lower_of tb bps \<Longrightarrow> lower_of ta bps < a \<Longrightarrow> direction_needed (analyze_pair a b ta tb bps mx) = Some AToB"
  by (simp_all add: analyze_pair_cases direction_and_amount_def bounds_of_target Let_def)

end
