(* ===== verification/Bridge_Transfer.thy ===== *)
theory Bridge_Transfer
  imports Bridge_Threshold Settlement_Config Recovery_Evidence
begin

text \<open>
  Transfers between chains: the record and the state machine of \<^verbatim>\<open>crates/solver-bridge/src/types.rs\<close>, their
  persistence (\<^verbatim>\<open>storage.rs\<close>) and the service that starts and resolves them (\<^verbatim>\<open>lib.rs\<close>).  Computations
  are traced: what they emit are the writes of transfer records and the submissions to a chain, in order,
  so that a prefix of a trace is what had happened when a process stopped in the middle.
\<close>

section \<open>Types\<close>

datatype bridge_error =
    BeConfig string
  | BeBridgeNotFound string
  | BeUnsupportedRoute nat nat
  | BeTransactionFailed string
  | BeInsufficientNativeGas string
  | BeFeeEstimation string
  | BeStorage string
  | BeDelivery string
  | BeMaxPendingReached nat
  | BeCooldownActive string
  | BePairLocked string
  | BeTransferNotFound string
  | BeInvalidTransition string
  | BeApprovePending string
  | BeApproveReverted string string
  | BeApproveSubmitFailed string
  | BeNonceTooLow string

fun bridge_error_text :: "bridge_error \<Rightarrow> string" where
  "bridge_error_text (BeConfig m) = ''Configuration error: '' @ m"
| "bridge_error_text (BeBridgeNotFound m) = ''Bridge implementation not found: '' @ m"
| "bridge_error_text (BeUnsupportedRoute a b) = ''Unsupported route: chain '' @ to_dec a @ '' -> chain '' @ to_dec b"
| "bridge_error_text (BeTransactionFailed m) = ''Transaction failed: '' @ m"
| "bridge_error_text (BeInsufficientNativeGas m) = ''Insufficient native gas before bridge submit: '' @ m"
| "bridge_error_text (BeFeeEstimation m) = ''Fee estimation failed: '' @ m"
| "bridge_error_text (BeStorage m) = ''Storage error: '' @ m"
| "bridge_error_text (BeDelivery m) = ''Delivery error: '' @ m"
| "bridge_error_text (BeMaxPendingReached n) = ''Max pending transfers reached ('' @ to_dec n @ '')''"
| "bridge_error_text (BeCooldownActive m) = ''Cooldown active for pair '' @ m"
| "bridge_error_text (BePairLocked m) = ''Pair locked by transfer '' @ m @ '' in NeedsIntervention state''"
| "bridge_error_text (BeTransferNotFound m) = ''Transfer not found: '' @ m"
| "bridge_error_text (BeInvalidTransition m) = ''Invalid state transition: '' @ m"
| "bridge_error_text (BeApprovePending h) = ''approve tx pending confirmation (hash: '' @ h @ '')''"
| "bridge_error_text (BeApproveReverted h e) = ''approve tx reverted (hash: '' @ h @ ''): '' @ e"
| "bridge_error_text (BeApproveSubmitFailed e) = ''approve submit failed before deposit attempt: '' @ e"
| "bridge_error_text (BeNonceTooLow m) = ''delivery reported nonce too low (transient): '' @ m"

text \<open>\<open>From<StorageError>\<close>\<close>

definition from_bridge_storage :: "storage_error \<Rightarrow> bridge_error" where
  "from_bridge_storage e = BeStorage (storage_error_text e)"

record bridge_request =
  br_pair_id :: string
  br_source_chain :: nat
  br_dest_chain :: nat
  br_source_token :: bytes
  br_source_oft :: bytes
  br_dest_token :: bytes
  br_dest_oft :: bytes
  br_amount :: nat
  br_min_amount :: "nat option"
  br_recipient :: bytes

record transfer_metadata =
  tm_transfer_id :: "string option"
  tm_approve_scope_id :: "string option"
  tm_tx_scope_id :: "string option"
  tm_source_token_address :: string
  tm_dest_token_address :: string
  tm_dest_oft_address :: string
  tm_is_composer_flow :: bool
  tm_vault_address :: "string option"
  tm_bridge_route :: "json option"

record bridge_deposit_result =
  bd_tx_hash :: string
  bd_message_guid :: "string option"
  bd_estimated_arrival :: "nat option"

datatype bridge_transfer_status =
    WrapPending
  | Submitted
  | Relaying
  | PendingRedemption
  | UnwrapPending
  | TransferCompleted
  | TransferFailed string
  | NeedsIntervention string

fun bridge_status_text :: "bridge_transfer_status \<Rightarrow> string" where
  "bridge_status_text WrapPending = ''wrap_pending''"
| "bridge_status_text Submitted = ''submitted''"
| "bridge_status_text Relaying = ''relaying''"
| "bridge_status_text PendingRedemption = ''pending_redemption''"
| "bridge_status_text UnwrapPending = ''unwrap_pending''"
| "bridge_status_text TransferCompleted = ''completed''"
| "bridge_status_text (TransferFailed _) = ''failed''"
| "bridge_status_text (NeedsIntervention _) = ''needs_intervention''"

fun status_reason :: "bridge_transfer_status \<Rightarrow> string option" where
  "status_reason (TransferFailed r) = Some r"
| "status_reason (NeedsIntervention r) = Some r"
| "status_reason _ = None"

fun transfer_terminal :: "bridge_transfer_status \<Rightarrow> bool" where
  "transfer_terminal TransferCompleted = True"
| "transfer_terminal (TransferFailed _) = True"
| "transfer_terminal _ = False"

definition blocks_pair :: "bridge_transfer_status \<Rightarrow> bool" where
  "blocks_pair st = (\<not> transfer_terminal st)"

fun needs_intervention :: "bridge_transfer_status \<Rightarrow> bool" where
  "needs_intervention (NeedsIntervention _) = True"
| "needs_intervention _ = False"

datatype rebalance_trigger = Auto | Manual

fun trigger_text :: "rebalance_trigger \<Rightarrow> string" where
  "trigger_text Auto = ''auto''"
| "trigger_text Manual = ''manual''"

record pending_bridge_transfer =
  bt_id :: string
  bt_pair_id :: string
  bt_source_chain :: nat
  bt_dest_chain :: nat
  bt_amount :: string
  bt_status :: bridge_transfer_status
  bt_trigger :: rebalance_trigger
  bt_created_at :: nat
  bt_updated_at :: nat
  bt_tx_hash :: "string option"
  bt_tx_scope_id :: "string option"
  bt_message_guid :: "string option"
  bt_redeem_tx_hash :: "string option"
  bt_redeem_scope_id :: "string option"
  bt_fee_paid :: "string option"
  bt_last_status_poll_at :: "nat option"
  bt_failure_count :: nat
  bt_status_before_intervention :: "bridge_transfer_status option"
  bt_source_confirmed_block :: "nat option"
  bt_dest_scan_from_block :: "nat option"
  bt_last_scanned_dest_block :: "nat option"
  bt_dest_token_address :: "string option"
  bt_dest_oft_address :: "string option"
  bt_is_composer_flow :: "bool option"
  bt_vault_address :: "string option"
  bt_received_shares :: "string option"
  bt_resolution_reason :: "string option"
  bt_submitted_missing_checks :: nat
  bt_submitted_missing_since :: "nat option"
  bt_redeem_missing_checks :: nat
  bt_redeem_missing_since :: "nat option"
  bt_approve_tx_hash :: "string option"
  bt_approve_scope_id :: "string option"
  bt_approve_missing_checks :: nat
  bt_approve_missing_since :: "nat option"
  bt_approve_submitted_at :: "nat option"
  bt_approve_was_broadcast :: bool
  bt_bridge_submit_attempted :: bool
  bt_source_token_address :: "string option"
  bt_source_oft_address :: "string option"
  bt_recipient_address :: "string option"
  bt_min_amount :: "string option"
  bt_route_snapshot :: "json option"
  bt_wrap_submit_attempted :: bool
  bt_wrap_tx_hash :: "string option"
  bt_wrap_scope_id :: "string option"
  bt_wrap_missing_checks :: nat
  bt_redeem_submit_attempted :: bool
  bt_unwrap_submit_attempted :: bool
  bt_unwrap_tx_hash :: "string option"
  bt_unwrap_scope_id :: "string option"
  bt_unwrap_missing_checks :: nat
  bt_unwrap_amount :: "string option"

definition new_transfer ::
  "string \<Rightarrow> nat \<Rightarrow> string \<Rightarrow> nat \<Rightarrow> nat \<Rightarrow> string \<Rightarrow> rebalance_trigger \<Rightarrow> string option \<Rightarrow> string option \<Rightarrow> string option
   \<Rightarrow> pending_bridge_transfer" where
  "new_transfer uuid now pair source dest amount trigger txh guid fee =
     \<lparr>bt_id = uuid, bt_pair_id = pair, bt_source_chain = source, bt_dest_chain = dest, bt_amount = amount,
      bt_status = Submitted, bt_trigger = trigger, bt_created_at = now, bt_updated_at = now,
      bt_tx_hash = txh, bt_tx_scope_id = None, bt_message_guid = guid, bt_redeem_tx_hash = None,
      bt_redeem_scope_id = None, bt_fee_paid = fee, bt_last_status_poll_at = None, bt_failure_count = 0,
      bt_status_before_intervention = None, bt_source_confirmed_block = None, bt_dest_scan_from_block = None,
      bt_last_scanned_dest_block = None, bt_dest_token_address = None, bt_dest_oft_address = None,
      bt_is_composer_flow = None, bt_vault_address = None, bt_received_shares = None, bt_resolution_reason = None,
      bt_submitted_missing_checks = 0, bt_submitted_missing_since = None, bt_redeem_missing_checks = 0,
      bt_redeem_missing_since = None, bt_approve_tx_hash = None, bt_approve_scope_id = None,
      bt_approve_missing_checks = 0, bt_approve_missing_since = None, bt_approve_submitted_at = None,
      bt_approve_was_broadcast = False, bt_bridge_submit_attempted = False, bt_source_token_address = None,
      bt_source_oft_address = None, bt_recipient_address = None, bt_min_amount = None, bt_route_snapshot = None,
      bt_wrap_submit_attempted = False, bt_wrap_tx_hash = None, bt_wrap_scope_id = None, bt_wrap_missing_checks = 0,
      bt_redeem_submit_attempted = False, bt_unwrap_submit_attempted = False, bt_unwrap_tx_hash = None,
      bt_unwrap_scope_id = None, bt_unwrap_missing_checks = 0, bt_unwrap_amount = None\<rparr>"

definition transition_to :: "nat \<Rightarrow> bridge_transfer_status \<Rightarrow> pending_bridge_transfer \<Rightarrow> pending_bridge_transfer" where
  "transition_to now st t =
     (let t1 = (if needs_intervention st \<and> \<not> needs_intervention (bt_status t)
                then t\<lparr>bt_status_before_intervention := Some (bt_status t)\<rparr> else t)
      in t1\<lparr>bt_status := st, bt_updated_at := now\<rparr>)"

text \<open>A scope of system transactions; the last part is a fresh UUID.\<close>

definition scope_char :: "char \<Rightarrow> char" where
  "scope_char c =
     (let n = (of_char c :: nat)
      in if (48 \<le> n \<and> n \<le> 57) \<or> (65 \<le> n \<and> n \<le> 90) \<or> (97 \<le> n \<and> n \<le> 122) \<or> c = CHR ''-'' then lower_char c else CHR ''-'')"

definition bridge_system_scope :: "string \<Rightarrow> string \<Rightarrow> nat \<Rightarrow> string \<Rightarrow> string" where
  "bridge_system_scope uuid operation chain transfer_ident =
     ''system:bridge:'' @ map scope_char operation @ '':'' @ to_dec chain @ '':'' @ transfer_ident @ '':'' @ uuid"

section \<open>Services\<close>

text \<open>
  The solver's storage with the codecs of transfers and cooldowns, UUIDs as a function of the storage
  call they precede and a counter, the debug form of a status, and what a transfer leaves behind in a trace.
\<close>

record ('s, 'b) bridge_machine =
  bm_machine :: "('s, 'b) machine"
  bm_transfers :: "(pending_bridge_transfer, 'b) codec"
  bm_json :: "(json, 'b) codec"
  bm_solver_id :: string
  bm_uuid :: "nat \<Rightarrow> nat \<Rightarrow> string"
  bm_show_status :: "bridge_transfer_status \<Rightarrow> string"

datatype bridge_effect =
    SavedTransfer pending_bridge_transfer
  | AskedDeposit string "(bridge_error, bridge_deposit_result) result"
  | AskedWrap string
  | AskedRedeem string
  | AskedUnwrap string
  | AskedSwap nat string string nat nat

type_synonym ('s, 'a) bridge_action = "('s, bridge_effect, bridge_error, 'a) traced"

text \<open>A bridge implementation.  Submissions go through the delivery service, which writes attempts.\<close>

record 's bridge_interface =
  bi_bridge_asset :: "bridge_request \<Rightarrow> transfer_metadata \<Rightarrow> 's world \<Rightarrow> (bridge_error, bridge_deposit_result) result \<times> 's world"
  bi_check_status :: "pending_bridge_transfer \<Rightarrow> (bridge_error, bridge_transfer_status) result"
  bi_estimate_fee :: "bridge_request \<Rightarrow> transfer_metadata \<Rightarrow> (bridge_error, nat) result"
  bi_wrap_native :: "pending_bridge_transfer \<Rightarrow> 's world \<Rightarrow> (bridge_error, bytes) result \<times> 's world"
  bi_unwrap_native :: "pending_bridge_transfer \<Rightarrow> 's world \<Rightarrow> (bridge_error, bytes) result \<times> 's world"
  bi_parse_redeem_assets :: "transaction_receipt \<Rightarrow> (bridge_error, nat) result"

abbreviation bm_backend :: "('s, 'b) bridge_machine \<Rightarrow> ('s, 'b) backend" where
  "bm_backend M \<equiv> mc_backend (bm_machine M)"

abbreviation bm_sched :: "('s, 'b) bridge_machine \<Rightarrow> 's sched" where
  "bm_sched M \<equiv> mc_sched (bm_machine M)"

definition bm_now :: "('s, 'b) bridge_machine \<Rightarrow> 's world \<Rightarrow> nat" where
  "bm_now M w = current_timestamp (w_unix (bm_sched M) w)"

definition hash_hex :: "('s, 'b) bridge_machine \<Rightarrow> bytes \<Rightarrow> string" where
  "hash_hex M h = ''0x'' @ mc_hex (bm_machine M) h"

section \<open>Persistence\<close>

definition BRIDGE_TRANSFER_NS :: string where "BRIDGE_TRANSFER_NS = ''bridge-transfer''"
definition BRIDGE_COOLDOWN_NS :: string where "BRIDGE_COOLDOWN_NS = ''bridge-cooldown''"
definition TERMINAL_TRANSFER_TTL :: nat where "TERMINAL_TRANSFER_TTL = 7 * 24 * 3600"
definition RETIRE_SYSTEM_ATTEMPT_CAS_RETRIES :: nat where "RETIRE_SYSTEM_ATTEMPT_CAS_RETRIES = 3"

definition transfer_namespace :: "('s, 'b) bridge_machine \<Rightarrow> string" where
  "transfer_namespace M = bm_solver_id M @ ''-'' @ BRIDGE_TRANSFER_NS"

definition cooldown_namespace :: "('s, 'b) bridge_machine \<Rightarrow> string" where
  "cooldown_namespace M = bm_solver_id M @ ''-'' @ BRIDGE_COOLDOWN_NS"

definition build_indexes :: "pending_bridge_transfer \<Rightarrow> storage_indexes" where
  "build_indexes t =
     with_field (with_field (with_field (with_field (with_field []
       ''status'' (JString (bridge_status_text (bt_status t))))
       ''pair_id'' (JString (bt_pair_id t)))
       ''source_chain'' (JNumber (int (bt_source_chain t))))
       ''dest_chain'' (JNumber (int (bt_dest_chain t))))
       ''trigger'' (JString (trigger_text (bt_trigger t)))"

definition save_transfer ::
  "('s, 'b) bridge_machine \<Rightarrow> pending_bridge_transfer \<Rightarrow> 's world \<Rightarrow> (storage_error, unit) result \<times> 's world" where
  "save_transfer M t w =
     (if transfer_terminal (bt_status t)
      then svc_store_with_ttl (bm_backend M) (bm_transfers M) (bm_sched M) (transfer_namespace M) (bt_id t) t
             (Some (build_indexes t)) (Some TERMINAL_TRANSFER_TTL) w
      else svc_store (bm_backend M) (bm_transfers M) (bm_sched M) (transfer_namespace M) (bt_id t) t (Some (build_indexes t)) w)"

text \<open>The same with its trace: a record that was written is emitted.\<close>

definition saving :: "('s, 'b) bridge_machine \<Rightarrow> pending_bridge_transfer \<Rightarrow> ('s, unit) bridge_action" where
  "saving M t w =
     (case save_transfer M t w of
        (Inr _, w1) \<Rightarrow> ([SavedTransfer t], Inr (), w1)
      | (Inl e, w1) \<Rightarrow> ([], Inl (from_bridge_storage e), w1))"

text \<open>A save whose failure is only logged, and one whose failure is reported under another text.\<close>

definition saving_quietly :: "('s, 'b) bridge_machine \<Rightarrow> pending_bridge_transfer \<Rightarrow> ('s, unit) bridge_action" where
  "saving_quietly M t w =
     (case save_transfer M t w of
        (Inr _, w1) \<Rightarrow> ([SavedTransfer t], Inr (), w1)
      | (Inl _, w1) \<Rightarrow> ([], Inr (), w1))"

definition saving_or :: "('s, 'b) bridge_machine \<Rightarrow> (storage_error \<Rightarrow> bridge_error) \<Rightarrow> pending_bridge_transfer \<Rightarrow> ('s, unit) bridge_action" where
  "saving_or M f t w =
     (case save_transfer M t w of
        (Inr _, w1) \<Rightarrow> ([SavedTransfer t], Inr (), w1)
      | (Inl e, w1) \<Rightarrow> ([], Inl (f e), w1))"

definition get_transfer :: "('s, 'b) bridge_machine \<Rightarrow> string \<Rightarrow> 's world \<Rightarrow> (bridge_error, pending_bridge_transfer) result \<times> 's world" where
  "get_transfer M ident w =
     (case svc_retrieve (bm_backend M) (bm_transfers M) (bm_sched M) (transfer_namespace M) ident w of
        (Inl (NotFound _), w1) \<Rightarrow> (Inl (BeTransferNotFound ident), w1)
      | (Inl e, w1) \<Rightarrow> (Inl (BeStorage (storage_error_text e)), w1)
      | (Inr t, w1) \<Rightarrow> (Inr t, w1))"

fun transfers_with_status ::
  "('s, 'b) bridge_machine \<Rightarrow> string list \<Rightarrow> pending_bridge_transfer list \<Rightarrow> 's world
   \<Rightarrow> (storage_error, pending_bridge_transfer list) result \<times> 's world" where
  "transfers_with_status M [] found w = (Inr found, w)"
| "transfers_with_status M (st # sts) found w =
     (case svc_query (bm_backend M) (bm_transfers M) (bm_sched M) (transfer_namespace M) (Equals ''status'' (JString st)) w of
        (Inl e, w1) \<Rightarrow> (Inl e, w1)
      | (Inr rows, w1) \<Rightarrow> transfers_with_status M sts (found @ map snd rows) w1)"

definition ACTIVE_STATUSES :: "string list" where
  "ACTIVE_STATUSES = [''wrap_pending'', ''submitted'', ''relaying'', ''pending_redemption'', ''unwrap_pending'', ''needs_intervention'']"

definition get_active_transfers ::
  "('s, 'b) bridge_machine \<Rightarrow> 's world \<Rightarrow> (storage_error, pending_bridge_transfer list) result \<times> 's world" where
  "get_active_transfers M w = transfers_with_status M ACTIVE_STATUSES [] w"

definition get_active_transfers_for_pair ::
  "('s, 'b) bridge_machine \<Rightarrow> string \<Rightarrow> 's world \<Rightarrow> (storage_error, pending_bridge_transfer list) result \<times> 's world" where
  "get_active_transfers_for_pair M pair w =
     (case get_active_transfers M w of
        (Inl e, w1) \<Rightarrow> (Inl e, w1)
      | (Inr ts, w1) \<Rightarrow> (Inr (filter (\<lambda>t. bt_pair_id t = pair) ts), w1))"

definition get_transfer_history ::
  "('s, 'b) bridge_machine \<Rightarrow> nat \<Rightarrow> 's world \<Rightarrow> (storage_error, pending_bridge_transfer list) result \<times> 's world" where
  "get_transfer_history M limit w =
     (case transfers_with_status M [''completed'', ''failed''] [] w of
        (Inl e, w1) \<Rightarrow> (Inl e, w1)
      | (Inr ts, w1) \<Rightarrow> (Inr (take limit (sort_key (\<lambda>t. - int (bt_updated_at t)) ts)), w1))"

definition active_transfer_count :: "('s, 'b) bridge_machine \<Rightarrow> 's world \<Rightarrow> (storage_error, nat) result \<times> 's world" where
  "active_transfer_count M w =
     (case get_active_transfers M w of (Inl e, w1) \<Rightarrow> (Inl e, w1) | (Inr ts, w1) \<Rightarrow> (Inr (length ts), w1))"

definition is_cooldown_active :: "('s, 'b) bridge_machine \<Rightarrow> string \<Rightarrow> 's world \<Rightarrow> (storage_error, bool) result \<times> 's world" where
  "is_cooldown_active M pair w = svc_exists (bm_backend M) (bm_sched M) (cooldown_namespace M) pair w"

definition set_cooldown :: "('s, 'b) bridge_machine \<Rightarrow> string \<Rightarrow> nat \<Rightarrow> 's world \<Rightarrow> (storage_error, unit) result \<times> 's world" where
  "set_cooldown M pair ttl w =
     svc_store_with_ttl (bm_backend M) (bm_json M) (bm_sched M) (cooldown_namespace M) pair
       (JObject [(''set_at'', JNumber (int (bm_now M w)))]) None (Some ttl) w"

definition bridge_attempt_indexes :: "(bytes \<Rightarrow> string) \<Rightarrow> transaction_attempt \<Rightarrow> storage_indexes" where
  "bridge_attempt_indexes hexe a =
     (let ix = with_field (with_field (with_field []
                 ''scope_kind'' (JString (if scope_is_system (at_scope a) then ''system'' else ''order'')))
                 ''scope_id'' (JString (scope_ident (at_scope a))))
                 ''is_terminal'' (JBool (attempt_terminal a));
          ix1 = (case scope_order_id (at_scope a) of Some oid \<Rightarrow> with_field ix ''order_id'' (JString oid) | None \<Rightarrow> ix)
      in (case at_tx_hash a of Some h \<Rightarrow> with_field ix1 ''tx_hash'' (JString (hexe h)) | None \<Rightarrow> ix1))"

text \<open>Closing the attempts of a scope: each is swapped to Replaced, at most three tries per row.\<close>

definition retire_skips :: "string \<Rightarrow> transaction_attempt \<Rightarrow> bool" where
  "retire_skips scope a = (attempt_terminal a \<or> at_scope a \<noteq> SystemScope scope)"

fun retire_row ::
  "('s, 'b) bridge_machine \<Rightarrow> string \<Rightarrow> string \<Rightarrow> string \<Rightarrow> nat \<Rightarrow> 's world \<Rightarrow> (bridge_error, bool) result \<times> 's world" where
  "retire_row M scope reason ident 0 w = (Inr False, w)"
| "retire_row M scope reason ident (Suc n) w =
     (let ns = storage_key_str TransactionAttempts; B = bm_backend M; sc = bm_sched M; ac = mc_attempts (bm_machine M)
      in (case svc_retrieve_bytes B sc ns ident w of
            (Inl e, w1) \<Rightarrow> (Inl (BeStorage (storage_error_text e)), w1)
          | (Inr current_bytes, w1) \<Rightarrow>
              (case decode ac current_bytes of
                 Inl m \<Rightarrow> (Inl (BeStorage m), w1)
               | Inr current \<Rightarrow>
                   if retire_skips scope current then (Inr True, w1)
                   else
                     (let current1 = current\<lparr>at_status := Replaced, at_error := Some reason,
                            at_updated_at := current_timestamp (w_unix sc w1)\<rparr>
                      in (case encode ac current1 of
                            Inl m \<Rightarrow> (Inl (BeStorage m), w1)
                          | Inr updated \<Rightarrow>
                              (case svc_compare_and_swap_bytes B sc ns ident current_bytes updated
                                      (Some (bridge_attempt_indexes (mc_hex (bm_machine M)) current1)) None w1 of
                                 (Inl e, w2) \<Rightarrow> (Inl (BeStorage (storage_error_text e)), w2)
                               | (Inr swapped, w2) \<Rightarrow>
                                   if swapped then (Inr True, w2) else retire_row M scope reason ident n w2))))))"

fun retire_rows ::
  "('s, 'b) bridge_machine \<Rightarrow> string \<Rightarrow> string \<Rightarrow> (string \<times> transaction_attempt) list \<Rightarrow> 's world
   \<Rightarrow> (bridge_error, unit) result \<times> 's world" where
  "retire_rows M scope reason [] w = (Inr (), w)"
| "retire_rows M scope reason ((ident, a) # rows) w =
     (if retire_skips scope a then retire_rows M scope reason rows w
      else (case retire_row M scope reason ident RETIRE_SYSTEM_ATTEMPT_CAS_RETRIES w of
              (Inl e, w1) \<Rightarrow> (Inl e, w1)
            | (Inr retired, w1) \<Rightarrow>
                if \<not> retired
                then (Inl (BeStorage (''concurrent update while retiring system attempt '' @ ident @ '' for scope '' @ scope)), w1)
                else retire_rows M scope reason rows w1))"

definition retire_system_attempt_scope ::
  "('s, 'b) bridge_machine \<Rightarrow> string \<Rightarrow> string \<Rightarrow> 's world \<Rightarrow> (bridge_error, unit) result \<times> 's world" where
  "retire_system_attempt_scope M scope reason w =
     (case svc_query (bm_backend M) (mc_attempts (bm_machine M)) (bm_sched M) (storage_key_str TransactionAttempts)
             (Equals ''scope_id'' (JString scope)) w of
        (Inl e, w1) \<Rightarrow> (Inl (BeStorage (storage_error_text e)), w1)
      | (Inr rows, w1) \<Rightarrow> retire_rows M scope reason rows w1)"

definition retiring :: "('s, 'b) bridge_machine \<Rightarrow> string option \<Rightarrow> string \<Rightarrow> ('s, unit) bridge_action" where
  "retiring M scope reason =
     (case scope of None \<Rightarrow> ok () | Some s \<Rightarrow> call (\<lambda>e. e) (retire_system_attempt_scope M s reason))"

section \<open>The bridge service\<close>

text \<open>The dash in the texts of the crate, as UTF-8.\<close>

definition EM_DASH :: string where "EM_DASH = [CHR 0xE2, CHR 0x80, CHR 0x94]"

text \<open>The wrapper the route declares on a chain; the first side with that chain id decides.\<close>

definition route_side_wrapper :: "json \<Rightarrow> string \<Rightarrow> nat \<Rightarrow> string option option" where
  "route_side_wrapper route side_key chain =
     (case json_field route side_key of
        None \<Rightarrow> None
      | Some side \<Rightarrow>
          if (case Option.bind (json_field side ''chain_id'') json_u64 of None \<Rightarrow> 0 | Some c \<Rightarrow> c) = chain
          then Some (Option.bind (json_field side ''wrapper'') (\<lambda>wr. Option.bind (json_field wr ''address'') json_str))
          else None)"

definition route_wrapper_address :: "json \<Rightarrow> nat \<Rightarrow> string option" where
  "route_wrapper_address route chain =
     (case route_side_wrapper route ''chain_a'' chain of
        Some r \<Rightarrow> r
      | None \<Rightarrow> (case route_side_wrapper route ''chain_b'' chain of Some r \<Rightarrow> r | None \<Rightarrow> None))"

definition route_has_source_wrapper :: "transfer_metadata \<Rightarrow> nat \<Rightarrow> bool" where
  "route_has_source_wrapper meta source_chain =
     (case tm_bridge_route meta of None \<Rightarrow> False | Some route \<Rightarrow> route_wrapper_address route source_chain \<noteq> None)"

definition update_transfer ::
  "('s, 'b) bridge_machine \<Rightarrow> pending_bridge_transfer \<Rightarrow> bridge_transfer_status \<Rightarrow> ('s, pending_bridge_transfer) bridge_action" where
  "update_transfer M t st w =
     (let t1 = transition_to (bm_now M w) st t in and_then (saving M t1) (\<lambda>_. ok t1) w)"

text \<open>The record of a new transfer and the metadata with its scopes.\<close>

definition address_text :: "('s, 'b) bridge_machine \<Rightarrow> bytes \<Rightarrow> string" where
  "address_text M a = ''0x'' @ mc_hex (bm_machine M) a"

definition prepared_transfer ::
  "('s, 'b) bridge_machine \<Rightarrow> bridge_request \<Rightarrow> rebalance_trigger \<Rightarrow> transfer_metadata \<Rightarrow> 's world \<Rightarrow> pending_bridge_transfer" where
  "prepared_transfer M req trigger meta w =
     (let uuid = bm_uuid M (w_tick w);
          t = new_transfer (uuid 0) (bm_now M w) (br_pair_id req) (br_source_chain req) (br_dest_chain req)
                (to_dec (br_amount req)) trigger None None None
      in t\<lparr>bt_dest_token_address := Some (tm_dest_token_address meta), bt_dest_oft_address := Some (tm_dest_oft_address meta),
           bt_is_composer_flow := Some (tm_is_composer_flow meta), bt_vault_address := tm_vault_address meta,
           bt_route_snapshot := tm_bridge_route meta,
           bt_source_token_address := Some (if tm_source_token_address meta \<noteq> [] then tm_source_token_address meta
                                            else address_text M (br_source_token req)),
           bt_source_oft_address := Some (address_text M (br_source_oft req)),
           bt_recipient_address := Some (address_text M (br_recipient req)),
           bt_min_amount := map_option to_dec (br_min_amount req),
           bt_approve_scope_id := Some (bridge_system_scope (uuid 1) ''approve'' (br_source_chain req) (bt_id t)),
           bt_tx_scope_id := Some (bridge_system_scope (uuid 2) ''deposit'' (br_source_chain req) (bt_id t))\<rparr>)"

definition prepared_metadata :: "pending_bridge_transfer \<Rightarrow> transfer_metadata \<Rightarrow> transfer_metadata" where
  "prepared_metadata t meta =
     meta\<lparr>tm_transfer_id := Some (bt_id t), tm_approve_scope_id := bt_approve_scope_id t, tm_tx_scope_id := bt_tx_scope_id t\<rparr>"

definition asking_deposit ::
  "'s bridge_interface \<Rightarrow> string \<Rightarrow> bridge_request \<Rightarrow> transfer_metadata
   \<Rightarrow> ('s, (bridge_error, bridge_deposit_result) result) bridge_action" where
  "asking_deposit I ident req meta w =
     (case bi_bridge_asset I req meta w of (r, w1) \<Rightarrow> ([AskedDeposit ident r], Inr r, w1))"

definition asking_wrap :: "'s bridge_interface \<Rightarrow> pending_bridge_transfer \<Rightarrow> ('s, (bridge_error, bytes) result) bridge_action" where
  "asking_wrap I t w = (case bi_wrap_native I t w of (r, w1) \<Rightarrow> ([AskedWrap (bt_id t)], Inr r, w1))"

definition submit_wrap ::
  "('s, 'b) bridge_machine \<Rightarrow> 's bridge_interface \<Rightarrow> pending_bridge_transfer \<Rightarrow> ('s, pending_bridge_transfer) bridge_action" where
  "submit_wrap M I t w0 =
     (let t1 = t\<lparr>bt_status := WrapPending, bt_wrap_submit_attempted := True,
            bt_wrap_scope_id := Some (bridge_system_scope (bm_uuid M (w_tick w0) 3) ''wrap-native'' (bt_source_chain t) (bt_id t))\<rparr>
      in and_then (saving M t1) (\<lambda>_.
         and_then (asking_wrap I t1) (\<lambda>r w.
         case r of
           Inr h \<Rightarrow>
             (let t2 = t1\<lparr>bt_wrap_tx_hash := Some (hash_hex M h), bt_updated_at := bm_now M w\<rparr>
              in and_then (saving M t2) (\<lambda>_. ok t2) w)
         | Inl (BeInsufficientNativeGas reason) \<Rightarrow>
             (let t2 = transition_to (bm_now M w) (NeedsIntervention reason) (t1\<lparr>bt_wrap_submit_attempted := False\<rparr>)
              in and_then (saving M t2) (\<lambda>_. err (BeInsufficientNativeGas reason)) w)
         | Inl (BeNonceTooLow reason) \<Rightarrow>
             and_then (saving_quietly M (t1\<lparr>bt_wrap_submit_attempted := False\<rparr>)) (\<lambda>_. err (BeNonceTooLow reason)) w
         | Inl e \<Rightarrow>
             (let t2 = transition_to (bm_now M w) (NeedsIntervention
                    (''wrap submit attempted but bridge returned generic error: '' @ bridge_error_text e @
                     ''; possible deposit broadcast '' @ EM_DASH @ '' verify chain before retry'')) t1
              in and_then (saving_quietly M t2) (\<lambda>_. err e) w))) w0)"

text \<open>What the answer of the bridge to the first deposit call leads to; the marker is already persisted.\<close>

definition deposit_answered ::
  "('s, 'b) bridge_machine \<Rightarrow> pending_bridge_transfer \<Rightarrow> (bridge_error, bridge_deposit_result) result
   \<Rightarrow> ('s, pending_bridge_transfer) bridge_action" where
  "deposit_answered M t r w =
     (let now = bm_now M w; rolled_back = t\<lparr>bt_bridge_submit_attempted := False\<rparr>
      in (case r of
            Inr result \<Rightarrow>
              (let t1 = t\<lparr>bt_tx_hash := Some (bd_tx_hash result), bt_message_guid := bd_message_guid result, bt_updated_at := now\<rparr>
               in (case save_transfer M t1 w of
                     (Inr _, w1) \<Rightarrow> ([SavedTransfer t1], Inr t1, w1)
                   | (Inl e, w1) \<Rightarrow>
                       and_then (saving_quietly M (transition_to (bm_now M w1)
                           (NeedsIntervention (''post-submit persistence failed: '' @ storage_error_text e)) t1))
                         (\<lambda>_. err (BeStorage (storage_error_text e))) w1))
          | Inl (BeApprovePending h) \<Rightarrow>
              (let t1 = rolled_back\<lparr>bt_approve_tx_hash := Some h, bt_approve_was_broadcast := True,
                     bt_approve_submitted_at := (if bt_approve_was_broadcast t then bt_approve_submitted_at t else Some now),
                     bt_updated_at := now\<rparr>
               in and_then (saving M t1) (\<lambda>_. ok t1) w)
          | Inl (BeApproveReverted h e) \<Rightarrow>
              (let t1 = transition_to now (TransferFailed (''approve reverted (tx '' @ h @ ''): '' @ e)) (rolled_back\<lparr>bt_approve_tx_hash := Some h\<rparr>)
               in and_then (saving_or M (\<lambda>se. BeStorage (''failed to persist approve-reverted rollback for transfer '' @ bt_id t @
                     '': '' @ storage_error_text se)) t1) (\<lambda>_. err (BeApproveReverted h e)) w)
          | Inl (BeApproveSubmitFailed e) \<Rightarrow>
              and_then (retiring M (bt_approve_scope_id t) ''approve submit failed before bridge deposit'') (\<lambda>_ w1.
                (let t1 = transition_to (bm_now M w1) (TransferFailed (''approve failed before deposit attempt: '' @ e)) rolled_back
                 in and_then (saving_or M (\<lambda>se. BeStorage (''failed to persist approve-submit-failed rollback for transfer '' @ bt_id t @
                       '': '' @ storage_error_text se)) t1) (\<lambda>_. err (BeApproveSubmitFailed e)) w1)) w
          | Inl (BeInsufficientNativeGas reason) \<Rightarrow>
              (let t1 = transition_to now (NeedsIntervention reason) rolled_back
               in and_then (saving_or M (\<lambda>se. BeStorage (''failed to persist insufficient-native-gas rollback for transfer '' @ bt_id t @
                     '': '' @ storage_error_text se)) t1) (\<lambda>_. err (BeInsufficientNativeGas reason)) w)
          | Inl (BeNonceTooLow reason) \<Rightarrow>
              and_then (saving_quietly M rolled_back) (\<lambda>_. err (BeNonceTooLow reason)) w
          | Inl e \<Rightarrow>
              (let t1 = transition_to now (NeedsIntervention
                     (''bridge submit attempted but bridge_asset returned generic error: '' @ bridge_error_text e @
                      ''; possible deposit broadcast '' @ EM_DASH @ '' verify chain before retry'')) t
               in and_then (saving_quietly M t1) (\<lambda>_. err e) w)))"

definition rebalance_token ::
  "('s, 'b) bridge_machine \<Rightarrow> (string \<times> 's bridge_interface) list \<Rightarrow> string \<Rightarrow> bridge_request \<Rightarrow> rebalance_trigger
   \<Rightarrow> transfer_metadata \<Rightarrow> ('s, pending_bridge_transfer) bridge_action" where
  "rebalance_token M impls name req trigger meta w =
     (case map_of impls name of
        None \<Rightarrow> err (BeBridgeNotFound name) w
      | Some I \<Rightarrow>
          (let t = prepared_transfer M req trigger meta w; meta1 = prepared_metadata t meta
           in if tm_bridge_route meta1 \<noteq> None \<and> bt_wrap_tx_hash t = None \<and> route_has_source_wrapper meta1 (br_source_chain req)
              then submit_wrap M I t w
              else (let t1 = t\<lparr>bt_bridge_submit_attempted := True\<rparr>
                    in and_then (saving M t1) (\<lambda>_.
                       and_then (asking_deposit I (bt_id t1) req meta1) (deposit_answered M t1)) w)))"

section \<open>Administration\<close>

fun retiring_all :: "('s, 'b) bridge_machine \<Rightarrow> string option list \<Rightarrow> string \<Rightarrow> ('s, unit) bridge_action" where
  "retiring_all M [] reason = ok ()"
| "retiring_all M (s # ss) reason = and_then (retiring M s reason) (\<lambda>_. retiring_all M ss reason)"

definition retried_transfer :: "nat \<Rightarrow> pending_bridge_transfer \<Rightarrow> pending_bridge_transfer" where
  "retried_transfer now t =
     t\<lparr>bt_failure_count := 0, bt_bridge_submit_attempted := False,
       bt_wrap_submit_attempted := False, bt_wrap_tx_hash := None, bt_wrap_scope_id := None, bt_wrap_missing_checks := 0,
       bt_redeem_submit_attempted := False, bt_redeem_tx_hash := None, bt_redeem_scope_id := None,
       bt_redeem_missing_checks := 0, bt_redeem_missing_since := None,
       bt_unwrap_submit_attempted := False, bt_unwrap_tx_hash := None, bt_unwrap_scope_id := None, bt_unwrap_missing_checks := 0,
       bt_tx_scope_id := None, bt_approve_scope_id := None,
       bt_status := (case bt_status_before_intervention t of Some st \<Rightarrow> st | None \<Rightarrow> Relaying),
       bt_status_before_intervention := None, bt_updated_at := now\<rparr>"

definition resolve_transfer ::
  "('s, 'b) bridge_machine \<Rightarrow> string \<Rightarrow> string \<Rightarrow> string \<Rightarrow> ('s, pending_bridge_transfer) bridge_action" where
  "resolve_transfer M ident resolution reason =
     and_then (call (\<lambda>e. e) (get_transfer M ident)) (\<lambda>t.
     if \<not> needs_intervention (bt_status t)
     then err (BeInvalidTransition (''Transfer '' @ ident @ '' is in '' @ bm_show_status M (bt_status t) @ '', not NeedsIntervention''))
     else and_then
       (if resolution = ''mark_completed'' then (\<lambda>w. ok (transition_to (bm_now M w) TransferCompleted t) w)
        else if resolution = ''mark_failed''
        then (\<lambda>w. ok (transition_to (bm_now M w) (TransferFailed ''Manually resolved by admin'') t) w)
        else if resolution = ''retry''
        then and_then (retiring_all M [bt_wrap_scope_id t, bt_tx_scope_id t, bt_approve_scope_id t, bt_redeem_scope_id t, bt_unwrap_scope_id t]
               ''admin retry cleared bridge phase scope'') (\<lambda>_ w. ok (retried_transfer (bm_now M w) t) w)
        else err (BeInvalidTransition (''Unknown resolution: '' @ resolution @ ''. Expected: mark_completed, mark_failed, retry'')))
       (\<lambda>t1. let t2 = t1\<lparr>bt_resolution_reason := Some reason\<rparr>
             in and_then (saving M t2) (\<lambda>_. ok t2)))"

end
