(* ===== verification/Bridge_Monitor.thy ===== *)
theory Bridge_Monitor
  imports Bridge_Transfer "HOL-Library.Product_Lexorder"
begin

text \<open>
  \<^verbatim>\<open>crates/solver-bridge/src/monitor.rs\<close>: the background task that moves transfers through their states.
  One call of \<open>advance_transfer\<close> is the body of the loop of \<^verbatim>\<open>advance_pending_transfers\<close> for one record; the
  jumps to the next record are the results \<open>None\<close> of its parts.  Acquiring the semaphore that serialises
  submissions is left out.
\<close>

section \<open>Constants and environment\<close>

definition SUBMITTED_TIMEOUT_SECS :: nat where "SUBMITTED_TIMEOUT_SECS = 30 * 60"
definition APPROVE_PHASE_TIMEOUT_SECS :: nat where "APPROVE_PHASE_TIMEOUT_SECS = 60 * 60"
definition RELAYING_TIMEOUT_SECS :: nat where "RELAYING_TIMEOUT_SECS = 30 * 60"
definition PENDING_REDEMPTION_TIMEOUT_SECS :: nat where "PENDING_REDEMPTION_TIMEOUT_SECS = 24 * 3600"
definition MAX_REDEEM_RETRIES :: nat where "MAX_REDEEM_RETRIES = 3"
definition WRAP_TIMEOUT_SECS :: nat where "WRAP_TIMEOUT_SECS = 30 * 60"
definition UNWRAP_TIMEOUT_SECS :: nat where "UNWRAP_TIMEOUT_SECS = 30 * 60"
definition WRAP_MISSING_CHECKS_MAX :: nat where "WRAP_MISSING_CHECKS_MAX = 3"
definition UNWRAP_MISSING_CHECKS_MAX :: nat where "UNWRAP_MISSING_CHECKS_MAX = 3"

text \<open>Reads and submissions of the delivery service, the crates for hexadecimal text, \<^verbatim>\<open>U256\<close> and ABI coding.\<close>

record 's monitor_env =
  me_receipt :: "bytes \<Rightarrow> nat \<Rightarrow> (delivery_error, transaction_receipt) result"
  me_tx_exists :: "bytes \<Rightarrow> nat \<Rightarrow> (delivery_error, bool) result"
  me_block_number :: "nat \<Rightarrow> (delivery_error, nat) result"
  me_logs :: "nat \<Rightarrow> log_filter \<Rightarrow> (delivery_error, log list) result"
  me_deliver_system :: "execution_transaction \<Rightarrow> string \<Rightarrow> transaction_type \<Rightarrow> 's world \<Rightarrow> (delivery_error, bytes) result \<times> 's world"
  me_hex_decode :: "string \<Rightarrow> (string, bytes) result"
  me_u256 :: "string \<Rightarrow> (string, nat) result"
  me_transfer_topic :: bytes
  me_encode_redeem :: "nat \<Rightarrow> bytes \<Rightarrow> bytes \<Rightarrow> bytes"
  me_solver_address :: string
  me_balance :: "nat \<Rightarrow> string \<Rightarrow> string option \<Rightarrow> (delivery_error, string) result"

definition strip_0x :: "string \<Rightarrow> string" where
  "strip_0x s = (if starts_with ''0x'' s then drop 2 s else s)"

definition is_source_transaction_missing :: "string \<Rightarrow> bool" where
  "is_source_transaction_missing reason =
     (str_contains ''Source transaction not found'' reason \<or> str_contains ''Source transaction missing'' reason)"

definition source_missing :: "bridge_transfer_status \<Rightarrow> bool" where
  "source_missing st = (case st of TransferFailed reason \<Rightarrow> is_source_transaction_missing reason | _ \<Rightarrow> False)"

definition bridge_parse_address :: "'s monitor_env \<Rightarrow> string \<Rightarrow> (bridge_error, bytes) result" where
  "bridge_parse_address E s =
     (case me_hex_decode E (strip_0x s) of
        Inl e \<Rightarrow> Inl (BeConfig (''Invalid address: '' @ e))
      | Inr b \<Rightarrow> if length b = 20 then Inr b else Inl (BeConfig ''Address must be 20 bytes''))"

section \<open>Hashes from the ledger of attempts\<close>

definition attempt_hash_rank :: "transaction_attempt \<Rightarrow> nat \<times> nat \<times> nat" where
  "attempt_hash_rank a =
     ((case at_status a of
         Confirmed \<Rightarrow> 4 | Reverted \<Rightarrow> 4 | Broadcast \<Rightarrow> 3 | Indeterminate \<Rightarrow> 3 | Planned \<Rightarrow> 2 | Replaced \<Rightarrow> 0 | SubmitRejected \<Rightarrow> 0),
      if at_replacement_of a \<noteq> None then 1 else 0, at_updated_at a)"

definition usable_attempt :: "string \<Rightarrow> transaction_attempt \<Rightarrow> bool" where
  "usable_attempt scope a =
     (at_scope a = SystemScope scope \<and> at_tx_hash a \<noteq> None \<and> at_status a \<noteq> SubmitRejected \<and> at_status a \<noteq> Replaced \<and>
      (at_replaced_by a = None \<or> at_status a = Confirmed \<or> at_status a = Reverted))"

definition latest_attempt_hash_for_scope ::
  "('s, 'b) bridge_machine \<Rightarrow> string \<Rightarrow> 's world \<Rightarrow> (bridge_error, string option) result \<times> 's world" where
  "latest_attempt_hash_for_scope M scope w =
     (case svc_query (bm_backend M) (mc_attempts (bm_machine M)) (bm_sched M) (storage_key_str TransactionAttempts)
             (Equals ''scope_id'' (JString scope)) w of
        (Inl e, w1) \<Rightarrow> (Inl (BeStorage (storage_error_text e)), w1)
      | (Inr rows, w1) \<Rightarrow>
          (Inr (Option.bind (max_by_key attempt_hash_rank (filter (usable_attempt scope) (map snd rows)))
             (\<lambda>a. map_option (hash_hex M) (at_tx_hash a))), w1))"

text \<open>The new hash when the ledger has one that differs.\<close>

definition refresh_phase_hash_from_attempt ::
  "('s, 'b) bridge_machine \<Rightarrow> string option \<Rightarrow> string option \<Rightarrow> 's world \<Rightarrow> (bridge_error, string option) result \<times> 's world" where
  "refresh_phase_hash_from_attempt M scope slot w =
     (case scope of
        None \<Rightarrow> (Inr None, w)
      | Some s \<Rightarrow>
          (case latest_attempt_hash_for_scope M s w of
             (Inl e, w1) \<Rightarrow> (Inl e, w1)
           | (Inr latest, w1) \<Rightarrow> (Inr (if latest \<noteq> None \<and> latest \<noteq> slot then latest else None), w1)))"

definition refresh_transfer_phase_hashes_from_attempts ::
  "('s, 'b) bridge_machine \<Rightarrow> pending_bridge_transfer \<Rightarrow> ('s, pending_bridge_transfer \<times> bool) bridge_action" where
  "refresh_transfer_phase_hashes_from_attempts M t =
     and_then (call (\<lambda>e. e) (refresh_phase_hash_from_attempt M (bt_approve_scope_id t) (bt_approve_tx_hash t))) (\<lambda>h1.
     let t1 = (if h1 = None then t else t\<lparr>bt_approve_tx_hash := h1, bt_approve_missing_checks := 0, bt_approve_missing_since := None\<rparr>)
     in and_then (call (\<lambda>e. e) (refresh_phase_hash_from_attempt M (bt_wrap_scope_id t) (bt_wrap_tx_hash t))) (\<lambda>h2.
     let t2 = (if h2 = None then t1 else t1\<lparr>bt_wrap_tx_hash := h2, bt_wrap_missing_checks := 0\<rparr>)
     in and_then (call (\<lambda>e. e) (refresh_phase_hash_from_attempt M (bt_tx_scope_id t) (bt_tx_hash t))) (\<lambda>h3.
     let t3 = (if h3 = None then t2 else t2\<lparr>bt_tx_hash := h3, bt_submitted_missing_checks := 0, bt_submitted_missing_since := None\<rparr>)
     in and_then (call (\<lambda>e. e) (refresh_phase_hash_from_attempt M (bt_redeem_scope_id t) (bt_redeem_tx_hash t))) (\<lambda>h4.
     let t4 = (if h4 = None then t3 else t3\<lparr>bt_redeem_tx_hash := h4, bt_redeem_missing_checks := 0, bt_redeem_missing_since := None\<rparr>)
     in and_then (call (\<lambda>e. e) (refresh_phase_hash_from_attempt M (bt_unwrap_scope_id t) (bt_unwrap_tx_hash t))) (\<lambda>h5.
     let t5 = (if h5 = None then t4 else t4\<lparr>bt_unwrap_tx_hash := h5, bt_unwrap_missing_checks := 0\<rparr>)
     in ok (t5, h1 \<noteq> None \<or> h2 \<noteq> None \<or> h3 \<noteq> None \<or> h4 \<noteq> None \<or> h5 \<noteq> None))))))"

section \<open>Resuming a deposit\<close>

definition field_or :: "string \<Rightarrow> 'a option \<Rightarrow> (string, 'a) result" where
  "field_or e v = (case v of None \<Rightarrow> Inl e | Some a \<Rightarrow> Inr a)"

definition text_address :: "'s monitor_env \<Rightarrow> string \<Rightarrow> (string, bytes) result" where
  "text_address E s = map_sum bridge_error_text (\<lambda>b. b) (bridge_parse_address E s)"

definition reconstruct_bridge_request :: "'s monitor_env \<Rightarrow> pending_bridge_transfer \<Rightarrow> (string, bridge_request) result" where
  "reconstruct_bridge_request E t =
     and_ok (field_or ''missing source_token_address (pre-Task-1 transfer?)'' (bt_source_token_address t)) (\<lambda>st.
     and_ok (field_or ''missing source_oft_address'' (bt_source_oft_address t)) (\<lambda>so.
     and_ok (field_or ''missing dest_token_address'' (bt_dest_token_address t)) (\<lambda>dt.
     and_ok (field_or ''missing dest_oft_address'' (bt_dest_oft_address t)) (\<lambda>dof.
     and_ok (field_or ''missing recipient_address'' (bt_recipient_address t)) (\<lambda>rc.
     and_ok (text_address E st) (\<lambda>source_token.
     and_ok (text_address E so) (\<lambda>source_oft.
     and_ok (text_address E dt) (\<lambda>dest_token.
     and_ok (text_address E dof) (\<lambda>dest_oft.
     and_ok (text_address E rc) (\<lambda>recipient.
     and_ok (map_sum (\<lambda>e. ''invalid amount: '' @ e) (\<lambda>n. n) (me_u256 E (bt_amount t))) (\<lambda>amount.
     and_ok (case bt_min_amount t of
               None \<Rightarrow> Inr None
             | Some s \<Rightarrow> map_sum (\<lambda>e. ''invalid min_amount: '' @ e) Some (me_u256 E s)) (\<lambda>min_amount.
     Inr \<lparr>br_pair_id = bt_pair_id t, br_source_chain = bt_source_chain t, br_dest_chain = bt_dest_chain t,
          br_source_token = source_token, br_source_oft = source_oft, br_dest_token = dest_token, br_dest_oft = dest_oft,
          br_amount = amount, br_min_amount = min_amount, br_recipient = recipient\<rparr>))))))))))))"

definition reconstruct_metadata :: "pending_bridge_transfer \<Rightarrow> transfer_metadata" where
  "reconstruct_metadata t =
     \<lparr>tm_transfer_id = Some (bt_id t), tm_approve_scope_id = bt_approve_scope_id t, tm_tx_scope_id = bt_tx_scope_id t,
      tm_source_token_address = (case bt_source_token_address t of None \<Rightarrow> [] | Some s \<Rightarrow> s),
      tm_dest_token_address = (case bt_dest_token_address t of None \<Rightarrow> [] | Some s \<Rightarrow> s),
      tm_dest_oft_address = (case bt_dest_oft_address t of None \<Rightarrow> [] | Some s \<Rightarrow> s),
      tm_is_composer_flow = (case bt_is_composer_flow t of None \<Rightarrow> False | Some b \<Rightarrow> b),
      tm_vault_address = bt_vault_address t, tm_bridge_route = bt_route_snapshot t\<rparr>"

text \<open>The marker and the scopes that are persisted before the bridge is called again.\<close>

definition marked_for_deposit :: "('s, 'b) bridge_machine \<Rightarrow> 's world \<Rightarrow> pending_bridge_transfer \<Rightarrow> pending_bridge_transfer" where
  "marked_for_deposit M w t =
     t\<lparr>bt_bridge_submit_attempted := True,
       bt_tx_scope_id := Some (bridge_system_scope (bm_uuid M (w_tick w) 0) ''deposit'' (bt_source_chain t) (bt_id t)),
       bt_approve_scope_id := (case bt_approve_scope_id t of
          None \<Rightarrow> Some (bridge_system_scope (bm_uuid M (w_tick w) 1) ''approve'' (bt_source_chain t) (bt_id t))
        | Some s \<Rightarrow> Some s)\<rparr>"

definition finishing :: "('s, 'a) bridge_action \<Rightarrow> ('s, unit) bridge_action" where
  "finishing m = and_then m (\<lambda>_. ok ())"

definition resumed_answered ::
  "('s, 'b) bridge_machine \<Rightarrow> nat \<Rightarrow> pending_bridge_transfer \<Rightarrow> (bridge_error, bridge_deposit_result) result \<Rightarrow> ('s, unit) bridge_action" where
  "resumed_answered M now t r =
     (let rolled_back = t\<lparr>bt_bridge_submit_attempted := False\<rparr>
      in (case r of
            Inr result \<Rightarrow>
              saving M (t\<lparr>bt_tx_hash := Some (bd_tx_hash result), bt_message_guid := bd_message_guid result, bt_updated_at := now\<rparr>)
          | Inl (BeApprovePending h) \<Rightarrow> saving M (rolled_back\<lparr>bt_approve_tx_hash := Some h, bt_updated_at := now\<rparr>)
          | Inl (BeApproveReverted h e) \<Rightarrow>
              finishing (update_transfer M (rolled_back\<lparr>bt_approve_tx_hash := Some h\<rparr>)
                (TransferFailed (''approve reverted on resume (tx '' @ h @ ''): '' @ e)))
          | Inl (BeApproveSubmitFailed e) \<Rightarrow>
              and_then (retiring M (bt_approve_scope_id t) ''approve submit failed before bridge deposit'') (\<lambda>_.
                finishing (update_transfer M rolled_back (TransferFailed (''approve failed before deposit attempt: '' @ e))))
          | Inl (BeInsufficientNativeGas reason) \<Rightarrow> finishing (update_transfer M rolled_back (NeedsIntervention reason))
          | Inl _ \<Rightarrow> saving M t))"

definition run_bridge_asset_after_approve ::
  "('s, 'b) bridge_machine \<Rightarrow> 's monitor_env \<Rightarrow> 's bridge_interface \<Rightarrow> nat \<Rightarrow> pending_bridge_transfer \<Rightarrow> ('s, unit) bridge_action" where
  "run_bridge_asset_after_approve M E I now t w =
     (case reconstruct_bridge_request E t of
        Inl reason \<Rightarrow> finishing (update_transfer M t (NeedsIntervention (''Cannot resume bridge: '' @ reason))) w
      | Inr req \<Rightarrow>
          (let t1 = marked_for_deposit M w t
           in and_then (saving M t1) (\<lambda>_.
              and_then (asking_deposit I (bt_id t1) req (reconstruct_metadata t1)) (resumed_answered M now t1)) w))"

section \<open>Wrapping the native asset\<close>

definition asking_unwrap :: "'s bridge_interface \<Rightarrow> pending_bridge_transfer \<Rightarrow> ('s, (bridge_error, bytes) result) bridge_action" where
  "asking_unwrap I t w = (case bi_unwrap_native I t w of (r, w1) \<Rightarrow> ([AskedUnwrap (bt_id t)], Inr r, w1))"

definition resubmit_wrap ::
  "('s, 'b) bridge_machine \<Rightarrow> 's bridge_interface \<Rightarrow> pending_bridge_transfer \<Rightarrow> ('s, unit) bridge_action" where
  "resubmit_wrap M I t w =
     (let t1 = t\<lparr>bt_wrap_submit_attempted := True,
            bt_wrap_scope_id := Some (bridge_system_scope (bm_uuid M (w_tick w) 0) ''wrap-native'' (bt_source_chain t) (bt_id t))\<rparr>
      in and_then (saving M t1) (\<lambda>_.
         and_then (asking_wrap I t1) (\<lambda>r.
         case r of
           Inr h \<Rightarrow> saving M (t1\<lparr>bt_wrap_tx_hash := Some (hash_hex M h)\<rparr>)
         | Inl (BeInsufficientNativeGas reason) \<Rightarrow>
             finishing (update_transfer M (t1\<lparr>bt_wrap_submit_attempted := False\<rparr>) (NeedsIntervention reason))
         | Inl (BeNonceTooLow reason) \<Rightarrow> saving M (t1\<lparr>bt_wrap_submit_attempted := False\<rparr>)
         | Inl e \<Rightarrow>
             finishing (update_transfer M t1 (NeedsIntervention
               (''wrap resubmit attempted but bridge returned generic error: '' @ bridge_error_text e))))) w)"

definition poll_wrap ::
  "('s, 'b) bridge_machine \<Rightarrow> 's monitor_env \<Rightarrow> 's bridge_interface \<Rightarrow> nat \<Rightarrow> pending_bridge_transfer \<Rightarrow> ('s, unit) bridge_action" where
  "poll_wrap M E I now t =
     (case bt_wrap_tx_hash t of
        None \<Rightarrow> ok ()
      | Some text \<Rightarrow>
          (case me_hex_decode E (strip_0x text) of
             Inl _ \<Rightarrow> ok ()
           | Inr h \<Rightarrow>
               (case me_receipt E h (bt_source_chain t) of
                  Inr rcpt \<Rightarrow>
                    (let t1 = t\<lparr>bt_wrap_missing_checks := 0\<rparr>
                     in if rcpt_success rcpt
                        then and_then (update_transfer M t1 Submitted) (run_bridge_asset_after_approve M E I now)
                        else finishing (update_transfer M t1 (TransferFailed ''wrap tx reverted'')))
                | Inl _ \<Rightarrow>
                    (case me_tx_exists E h (bt_source_chain t) of
                       Inr False \<Rightarrow>
                         (let t1 = t\<lparr>bt_wrap_missing_checks := Suc (bt_wrap_missing_checks t)\<rparr>
                          in if bt_wrap_missing_checks t1 \<ge> WRAP_MISSING_CHECKS_MAX
                             then and_then (retiring M (bt_wrap_scope_id t) ''wrap tx dropped; monitor will resubmit with a fresh scope'') (\<lambda>_.
                               saving M (t1\<lparr>bt_wrap_tx_hash := None, bt_wrap_scope_id := None, bt_wrap_submit_attempted := False,
                                 bt_wrap_missing_checks := 0\<rparr>))
                             else saving M t1)
                     | _ \<Rightarrow> ok ()))))"

definition advance_wrap ::
  "('s, 'b) bridge_machine \<Rightarrow> 's monitor_env \<Rightarrow> 's bridge_interface \<Rightarrow> nat \<Rightarrow> nat \<Rightarrow> pending_bridge_transfer \<Rightarrow> ('s, unit) bridge_action" where
  "advance_wrap M E I now age t =
     (if bt_wrap_submit_attempted t \<and> bt_wrap_tx_hash t = None
      then finishing (update_transfer M t (NeedsIntervention
             (''wrap submit attempted but no tx_hash persisted '' @ EM_DASH @ '' verify chain before retry'')))
      else if \<not> bt_wrap_submit_attempted t \<and> bt_wrap_tx_hash t = None then resubmit_wrap M I t
      else if age > WRAP_TIMEOUT_SECS
      then finishing (update_transfer M t (NeedsIntervention ''wrap tx not confirmed after WRAP_TIMEOUT_SECS''))
      else poll_wrap M E I now t)"

section \<open>The approve phase\<close>

definition deposit_crash_window :: "pending_bridge_transfer \<Rightarrow> bool" where
  "deposit_crash_window t = (bt_status t = Submitted \<and> bt_tx_hash t = None \<and> bt_bridge_submit_attempted t)"

definition approve_phase_start :: "pending_bridge_transfer \<Rightarrow> nat" where
  "approve_phase_start t = (case bt_approve_submitted_at t of None \<Rightarrow> bt_created_at t | Some s \<Rightarrow> s)"

definition approve_timed_out :: "nat \<Rightarrow> pending_bridge_transfer \<Rightarrow> bool" where
  "approve_timed_out now t =
     (bt_status t = Submitted \<and> bt_tx_hash t = None \<and> (bt_approve_was_broadcast t \<or> bt_approve_tx_hash t \<noteq> None) \<and>
      now - approve_phase_start t > APPROVE_PHASE_TIMEOUT_SECS)"

definition impossible_state :: "nat \<Rightarrow> pending_bridge_transfer \<Rightarrow> bool" where
  "impossible_state now t =
     (bt_status t = Submitted \<and> bt_tx_hash t = None \<and> bt_approve_tx_hash t = None \<and> \<not> bt_approve_was_broadcast t \<and>
      \<not> bt_bridge_submit_attempted t \<and> now - bt_created_at t > 300)"

definition advance_approve ::
  "('s, 'b) bridge_machine \<Rightarrow> 's monitor_env \<Rightarrow> 's bridge_interface \<Rightarrow> nat \<Rightarrow> string \<Rightarrow> pending_bridge_transfer \<Rightarrow> ('s, unit) bridge_action" where
  "advance_approve M E I now text t =
     (case me_hex_decode E (trim_0x text) of
        Inl _ \<Rightarrow>
          finishing (update_transfer M t (NeedsIntervention (''invalid approve_tx_hash format ('' @ text @
            ''); cannot decode as hex '' @ EM_DASH @ '' operator must inspect persisted record'')))
      | Inr h \<Rightarrow>
          if length h \<noteq> 32
          then finishing (update_transfer M t (NeedsIntervention (''invalid approve_tx_hash length: got '' @ to_dec (length h) @
            '' bytes, want 32 (persisted: '' @ text @ '')'')))
          else
            (case me_receipt E h (bt_source_chain t) of
               Inr rcpt \<Rightarrow>
                 if rcpt_success rcpt
                 then run_bridge_asset_after_approve M E I now (t\<lparr>bt_approve_missing_checks := 0, bt_approve_missing_since := None\<rparr>)
                 else finishing (update_transfer M t (TransferFailed ''approve reverted on chain''))
             | Inl _ \<Rightarrow>
                 (case me_tx_exists E h (bt_source_chain t) of
                    Inr False \<Rightarrow>
                      (let t1 = t\<lparr>bt_approve_missing_checks := Suc (bt_approve_missing_checks t),
                             bt_approve_missing_since := (case bt_approve_missing_since t of None \<Rightarrow> Some now | Some s \<Rightarrow> Some s)\<rparr>
                       in if bt_approve_missing_checks t1 \<ge> 3
                          then and_then (retiring M (bt_approve_scope_id t) ''approve tx dropped; monitor will resubmit with a fresh scope'') (\<lambda>_.
                            run_bridge_asset_after_approve M E I now (t1\<lparr>bt_approve_tx_hash := None, bt_approve_scope_id := None,
                              bt_approve_missing_checks := 0, bt_approve_missing_since := None\<rparr>))
                          else saving M t1)
                  | _ \<Rightarrow> ok ())))"

definition timeout_reason :: "nat \<Rightarrow> pending_bridge_transfer \<Rightarrow> string option" where
  "timeout_reason age t =
     (case bt_status t of
        Submitted \<Rightarrow> if age > SUBMITTED_TIMEOUT_SECS then Some ''Submitted tx not confirmed after 30 min'' else None
      | Relaying \<Rightarrow> if age > RELAYING_TIMEOUT_SECS then Some ''LayerZero delivery not detected after 30 min'' else None
      | PendingRedemption \<Rightarrow>
          if age > PENDING_REDEMPTION_TIMEOUT_SECS then Some ''Vault redemption not completed after 24h''
          else if bt_failure_count t \<ge> MAX_REDEEM_RETRIES
          then Some (''Vault redeem failed after '' @ to_dec (bt_failure_count t) @ '' attempts'')
          else None
      | _ \<Rightarrow> None)"

section \<open>Applying the status the bridge reports\<close>

text \<open>The destination of a confirmed redemption whose asset has to be unwrapped.\<close>

definition unwrap_after_redeem ::
  "'s monitor_env \<Rightarrow> 's bridge_interface \<Rightarrow> pending_bridge_transfer \<Rightarrow> pending_bridge_transfer \<times> bridge_transfer_status" where
  "unwrap_after_redeem E I t =
     (case bt_redeem_tx_hash t of
        None \<Rightarrow> (t, NeedsIntervention ''redeem completed but no redeem_tx_hash persisted for unwrap amount'')
      | Some text \<Rightarrow>
          (case me_hex_decode E (strip_0x text) of
             Inl e \<Rightarrow> (t, NeedsIntervention (''invalid redeem tx hash for unwrap amount: '' @ e))
           | Inr h \<Rightarrow>
               (case me_receipt E h (bt_dest_chain t) of
                  Inl e \<Rightarrow> (t, NeedsIntervention (''redeem receipt unavailable for unwrap amount: '' @ delivery_error_text e))
                | Inr rcpt \<Rightarrow>
                    (case bi_parse_redeem_assets I rcpt of
                       Inl e \<Rightarrow> (t, NeedsIntervention (''redeem receipt parse failed: '' @ bridge_error_text e))
                     | Inr assets \<Rightarrow> (t\<lparr>bt_unwrap_amount := Some (to_dec assets)\<rparr>, UnwrapPending)))))"

definition dest_has_wrapper :: "pending_bridge_transfer \<Rightarrow> bool" where
  "dest_has_wrapper t =
     (case bt_route_snapshot t of None \<Rightarrow> False | Some r \<Rightarrow> route_wrapper_address r (bt_dest_chain t) \<noteq> None)"

definition seed_scan_anchor :: "'s monitor_env \<Rightarrow> pending_bridge_transfer \<Rightarrow> pending_bridge_transfer" where
  "seed_scan_anchor E t =
     (case me_block_number E (bt_dest_chain t) of Inl _ \<Rightarrow> t | Inr block \<Rightarrow> t\<lparr>bt_dest_scan_from_block := Some block\<rparr>)"

definition redeem_missing :: "bridge_transfer_status \<Rightarrow> bool" where
  "redeem_missing st = (case st of TransferFailed reason \<Rightarrow> str_contains ''Redeem transaction not found'' reason | _ \<Rightarrow> False)"

definition cleared_redeem :: "pending_bridge_transfer \<Rightarrow> pending_bridge_transfer" where
  "cleared_redeem t = t\<lparr>bt_redeem_tx_hash := None, bt_redeem_scope_id := None\<rparr>"

fun transfer_failed :: "bridge_transfer_status \<Rightarrow> bool" where
  "transfer_failed (TransferFailed _) = True"
| "transfer_failed _ = False"

definition apply_status ::
  "('s, 'b) bridge_machine \<Rightarrow> 's monitor_env \<Rightarrow> 's bridge_interface \<Rightarrow> nat \<Rightarrow> nat \<Rightarrow> pending_bridge_transfer \<Rightarrow> bridge_transfer_status
   \<Rightarrow> ('s, pending_bridge_transfer option) bridge_action" where
  "apply_status M E I cooldown now t st =
     (if bt_status t = PendingRedemption \<and> redeem_missing st
      then (let t1 = t\<lparr>bt_redeem_missing_checks := Suc (bt_redeem_missing_checks t),
                  bt_redeem_missing_since := (case bt_redeem_missing_since t of None \<Rightarrow> Some now | Some s \<Rightarrow> Some s)\<rparr>
            in if bt_redeem_missing_checks t1 < 3
               then and_then (saving M (t1\<lparr>bt_last_status_poll_at := Some now\<rparr>)) (\<lambda>_. ok None)
               else and_then (retiring M (bt_redeem_scope_id t) ''redeem tx dropped; monitor will resubmit with a fresh scope'') (\<lambda>_.
                 and_then (saving M ((cleared_redeem t1)\<lparr>bt_redeem_missing_checks := 0, bt_redeem_missing_since := None,
                   bt_last_status_poll_at := Some now\<rparr>)) (\<lambda>_. ok None)))
      else if bt_status t = PendingRedemption \<and> transfer_failed st
      then and_then (retiring M (bt_redeem_scope_id t) ''redeem attempt failed; monitor will retry with a fresh scope'') (\<lambda>_.
        ok (Some (cleared_redeem (t\<lparr>bt_failure_count := Suc (bt_failure_count t)\<rparr>))))
      else
        (let t1 = (if st = Relaying \<and> bt_dest_scan_from_block t = None then seed_scan_anchor E t else t)
         in and_then (if bt_status t = Submitted \<and> st = Relaying then call from_bridge_storage (set_cooldown M (bt_pair_id t) cooldown) else ok ()) (\<lambda>_.
            let t2 = (if bt_status t = PendingRedemption \<and> st \<noteq> PendingRedemption
                      then t1\<lparr>bt_redeem_missing_checks := 0, bt_redeem_missing_since := None\<rparr> else t1);
                (t3, st1) = (if bt_status t = PendingRedemption \<and> st = TransferCompleted \<and> dest_has_wrapper t2
                             then unwrap_after_redeem E I t2 else (t2, st))
            in and_then (update_transfer M t3 st1) (\<lambda>t4. ok (Some t4)))))"

text \<open>Dropped source transactions: three misses before the reported failure is applied.\<close>

definition count_missing ::
  "nat \<Rightarrow> pending_bridge_transfer \<Rightarrow> bridge_transfer_status \<Rightarrow> pending_bridge_transfer" where
  "count_missing now t st =
     (if bt_status t \<noteq> Submitted then t
      else if source_missing st
      then t\<lparr>bt_submitted_missing_checks := Suc (bt_submitted_missing_checks t),
             bt_submitted_missing_since := (case bt_submitted_missing_since t of None \<Rightarrow> Some now | Some s \<Rightarrow> Some s)\<rparr>
      else if st = Submitted then t
      else t\<lparr>bt_submitted_missing_checks := 0, bt_submitted_missing_since := None\<rparr>)"

definition poll_status ::
  "('s, 'b) bridge_machine \<Rightarrow> 's monitor_env \<Rightarrow> 's bridge_interface \<Rightarrow> nat \<Rightarrow> nat \<Rightarrow> pending_bridge_transfer
   \<Rightarrow> ('s, pending_bridge_transfer option) bridge_action" where
  "poll_status M E I cooldown now t =
     (case bi_check_status I t of
        Inl _ \<Rightarrow> ok None
      | Inr st \<Rightarrow>
          (let t1 = count_missing now t st
           in if bt_status t = Submitted \<and> source_missing st \<and> bt_submitted_missing_checks t1 < 3
              then and_then (saving M (t1\<lparr>bt_last_status_poll_at := Some now\<rparr>)) (\<lambda>_. ok None)
              else if bt_trigger t = Auto \<and> source_missing st
              then and_then (retiring M (bt_tx_scope_id t) ''source bridge tx dropped; auto transfer is being failed'') (\<lambda>_.
                and_then (update_transfer M t1 st) (\<lambda>_. ok None))
              else if bt_trigger t = Manual \<and> source_missing st
              then and_then (retiring M (bt_tx_scope_id t) ''source bridge tx dropped; manual transfer needs intervention'') (\<lambda>_.
                and_then (update_transfer M t1 (NeedsIntervention ''Manual transfer source tx missing from chain'')) (\<lambda>_. ok None))
              else if st \<noteq> bt_status t then apply_status M E I cooldown now t1 st
              else ok (Some t1)))"

section \<open>Delivery on the destination chain\<close>

definition solver_topic :: "'s monitor_env \<Rightarrow> bytes" where
  "solver_topic E =
     (case me_hex_decode E (strip_0x (me_solver_address E)) of
        Inl _ \<Rightarrow> replicate 32 0
      | Inr b \<Rightarrow> replicate (32 - min (length b) 32) 0 @ take (min (length b) 32) b)"

definition scan_address :: "pending_bridge_transfer \<Rightarrow> string option" where
  "scan_address t =
     (if bt_is_composer_flow t = Some True then bt_dest_token_address t
      else (case bt_vault_address t of Some v \<Rightarrow> Some v | None \<Rightarrow> bt_dest_token_address t))"

definition delivery_log_matches :: "nat \<Rightarrow> log \<Rightarrow> bool" where
  "delivery_log_matches expected l =
     (\<not> length (log_data l) < 32 \<and>
      u256_mul expected 95 div 100 \<le> from_be_bytes (take 32 (log_data l)) \<and>
      from_be_bytes (take 32 (log_data l)) \<le> u256_mul expected 105 div 100)"

definition scan_delivery ::
  "('s, 'b) bridge_machine \<Rightarrow> 's monitor_env \<Rightarrow> pending_bridge_transfer \<Rightarrow> ('s, pending_bridge_transfer) bridge_action" where
  "scan_delivery M E t =
     (case (bt_status t, bt_dest_scan_from_block t, scan_address t) of
        (Relaying, Some anchor, Some addr_text) \<Rightarrow>
          (case me_hex_decode E (strip_0x addr_text) of
             Inl _ \<Rightarrow> ok t
           | Inr addr \<Rightarrow>
               (case me_logs E (bt_dest_chain t)
                       \<lparr>lf_address = addr, lf_from_block = (case bt_last_scanned_dest_block t of None \<Rightarrow> anchor | Some b \<Rightarrow> b),
                        lf_to_block = None, lf_topics = [Some (me_transfer_topic E), None, Some (solver_topic E)]\<rparr> of
                  Inl _ \<Rightarrow> ok t
                | Inr logs \<Rightarrow>
                    (let expected = (case me_u256 E (bt_amount t) of Inl _ \<Rightarrow> 0 | Inr n \<Rightarrow> n)
                     in (case find (delivery_log_matches expected) logs of
                           Some l \<Rightarrow>
                             (let received = to_dec (from_be_bytes (take 32 (log_data l)));
                                  t1 = t\<lparr>bt_received_shares := Some received\<rparr>
                              in if bt_is_composer_flow t = Some True
                                 then if dest_has_wrapper t
                                      then update_transfer M (t1\<lparr>bt_unwrap_amount := Some received\<rparr>) UnwrapPending
                                      else update_transfer M t1 TransferCompleted
                                 else update_transfer M t1 PendingRedemption)
                         | None \<Rightarrow>
                             ok (case me_block_number E (bt_dest_chain t) of
                                   Inl _ \<Rightarrow> t | Inr head \<Rightarrow> t\<lparr>bt_last_scanned_dest_block := Some head\<rparr>)))))
      | _ \<Rightarrow> ok t)"

section \<open>Redeeming and unwrapping\<close>

definition asking_redeem ::
  "'s monitor_env \<Rightarrow> string \<Rightarrow> evm_transaction \<Rightarrow> string \<Rightarrow> ('s, (delivery_error, bytes) result) bridge_action" where
  "asking_redeem E ident tx scope w =
     (case me_deliver_system E (Evm tx) scope Bridge w of (r, w1) \<Rightarrow> ([AskedRedeem ident], Inr r, w1))"

definition redeem_transaction :: "'s monitor_env \<Rightarrow> bytes \<Rightarrow> nat \<Rightarrow> bytes \<Rightarrow> nat \<Rightarrow> evm_transaction" where
  "redeem_transaction E vault shares solver chain =
     \<lparr>tx_to = Some vault, tx_data = me_encode_redeem E shares solver solver, tx_value = 0, tx_chain_id = chain, tx_nonce = None,
      tx_gas_limit = None, tx_gas_price = None, tx_max_fee_per_gas = None, tx_max_priority_fee_per_gas = None\<rparr>"

definition submit_redeem ::
  "('s, 'b) bridge_machine \<Rightarrow> 's monitor_env \<Rightarrow> evm_transaction \<Rightarrow> pending_bridge_transfer
   \<Rightarrow> ('s, pending_bridge_transfer option) bridge_action" where
  "submit_redeem M E tx t w =
     (let scope = bridge_system_scope (bm_uuid M (w_tick w) 0) ''redeem'' (bt_dest_chain t) (bt_id t);
          t1 = t\<lparr>bt_redeem_submit_attempted := True, bt_redeem_scope_id := Some scope\<rparr>
      in and_then (saving M t1) (\<lambda>_.
         and_then (asking_redeem E (bt_id t1) tx scope) (\<lambda>r.
         ok (Some (case r of
           Inr h \<Rightarrow> t1\<lparr>bt_redeem_tx_hash := Some (hash_hex M h)\<rparr>
         | Inl (DeliveryNonceTooLow _) \<Rightarrow> t1\<lparr>bt_redeem_submit_attempted := False\<rparr>
         | Inl _ \<Rightarrow> t1\<lparr>bt_failure_count := Suc (bt_failure_count t1)\<rparr>)))) w)"

definition REDEEM_UNCERTAIN :: string where
  "REDEEM_UNCERTAIN = ''redeem submit attempted but no tx_hash persisted '' @ EM_DASH @ '' verify chain before retry''"

definition redeem_step ::
  "('s, 'b) bridge_machine \<Rightarrow> 's monitor_env \<Rightarrow> pending_bridge_transfer \<Rightarrow> ('s, pending_bridge_transfer option) bridge_action" where
  "redeem_step M E t =
     (if bt_status t \<noteq> PendingRedemption \<or> bt_redeem_tx_hash t \<noteq> None then ok (Some t)
      else if bt_redeem_submit_attempted t
      then and_then (update_transfer M t (NeedsIntervention REDEEM_UNCERTAIN)) (\<lambda>_. ok None)
      else (case bt_vault_address t of
              None \<Rightarrow> ok (Some t)
            | Some vault_text \<Rightarrow>
                (case bridge_parse_address E vault_text of
                   Inl _ \<Rightarrow> ok (Some t)
                 | Inr vault \<Rightarrow>
                     (case bridge_parse_address E (me_solver_address E) of
                        Inl _ \<Rightarrow> ok None
                      | Inr solver \<Rightarrow>
                          (case map_option (me_u256 E) (bt_received_shares t) of
                             Some (Inr shares) \<Rightarrow>
                               if shares = 0 then ok None
                               else submit_redeem M E (redeem_transaction E vault shares solver (bt_dest_chain t)) t
                           | _ \<Rightarrow> ok None)))))"

definition submit_unwrap ::
  "('s, 'b) bridge_machine \<Rightarrow> 's bridge_interface \<Rightarrow> pending_bridge_transfer \<Rightarrow> ('s, pending_bridge_transfer option) bridge_action" where
  "submit_unwrap M I t w =
     (let t1 = t\<lparr>bt_unwrap_submit_attempted := True,
            bt_unwrap_scope_id := Some (bridge_system_scope (bm_uuid M (w_tick w) 0) ''unwrap-native'' (bt_dest_chain t) (bt_id t))\<rparr>
      in and_then (saving M t1) (\<lambda>_.
         and_then (asking_unwrap I t1) (\<lambda>r.
         case r of
           Inr h \<Rightarrow> ok (Some (t1\<lparr>bt_unwrap_tx_hash := Some (hash_hex M h)\<rparr>))
         | Inl (BeInsufficientNativeGas reason) \<Rightarrow>
             and_then (update_transfer M (t1\<lparr>bt_unwrap_submit_attempted := False\<rparr>) (NeedsIntervention reason)) (\<lambda>t2. ok (Some t2))
         | Inl (BeNonceTooLow _) \<Rightarrow> ok (Some (t1\<lparr>bt_unwrap_submit_attempted := False\<rparr>))
         | Inl e \<Rightarrow>
             and_then (update_transfer M t1 (NeedsIntervention
               (''unwrap submit attempted but bridge returned generic error: '' @ bridge_error_text e))) (\<lambda>t2. ok (Some t2)))) w)"

definition poll_unwrap ::
  "('s, 'b) bridge_machine \<Rightarrow> 's monitor_env \<Rightarrow> string \<Rightarrow> pending_bridge_transfer \<Rightarrow> ('s, pending_bridge_transfer option) bridge_action" where
  "poll_unwrap M E text t =
     (case me_hex_decode E (strip_0x text) of
        Inl _ \<Rightarrow> ok (Some t)
      | Inr h \<Rightarrow>
          (case me_receipt E h (bt_dest_chain t) of
             Inr rcpt \<Rightarrow>
               and_then (update_transfer M (t\<lparr>bt_unwrap_missing_checks := 0\<rparr>)
                 (if rcpt_success rcpt then TransferCompleted else NeedsIntervention ''unwrap tx reverted'')) (\<lambda>t1. ok (Some t1))
           | Inl _ \<Rightarrow>
               (case me_tx_exists E h (bt_dest_chain t) of
                  Inr False \<Rightarrow>
                    (let t1 = t\<lparr>bt_unwrap_missing_checks := Suc (bt_unwrap_missing_checks t)\<rparr>
                     in if bt_unwrap_missing_checks t1 \<ge> UNWRAP_MISSING_CHECKS_MAX
                        then and_then (retiring M (bt_unwrap_scope_id t) ''unwrap tx dropped; monitor will resubmit with a fresh scope'') (\<lambda>_.
                          let t2 = t1\<lparr>bt_unwrap_tx_hash := None, bt_unwrap_scope_id := None, bt_unwrap_submit_attempted := False,
                                bt_unwrap_missing_checks := 0\<rparr>
                          in and_then (saving M t2) (\<lambda>_. ok (Some t2)))
                        else and_then (saving M t1) (\<lambda>_. ok (Some t1)))
                | _ \<Rightarrow> ok (Some t))))"

definition unwrap_step ::
  "('s, 'b) bridge_machine \<Rightarrow> 's monitor_env \<Rightarrow> 's bridge_interface \<Rightarrow> nat \<Rightarrow> pending_bridge_transfer
   \<Rightarrow> ('s, pending_bridge_transfer option) bridge_action" where
  "unwrap_step M E I age t =
     (if bt_status t \<noteq> UnwrapPending then ok (Some t)
      else (case bt_unwrap_tx_hash t of
              None \<Rightarrow>
                if bt_unwrap_submit_attempted t
                then and_then (update_transfer M t (NeedsIntervention
                       (''unwrap submit attempted but no tx_hash persisted '' @ EM_DASH @ '' verify chain before retry''))) (\<lambda>_. ok None)
                else submit_unwrap M I t
            | Some text \<Rightarrow>
                if age > UNWRAP_TIMEOUT_SECS
                then and_then (update_transfer M t (NeedsIntervention ''unwrap tx not confirmed after UNWRAP_TIMEOUT_SECS'')) (\<lambda>_. ok None)
                else poll_unwrap M E text t))"

section \<open>One record, one tick\<close>

definition or_stop ::
  "('s, pending_bridge_transfer option) bridge_action \<Rightarrow> (pending_bridge_transfer \<Rightarrow> ('s, unit) bridge_action) \<Rightarrow> ('s, unit) bridge_action" where
  "or_stop m k = and_then m (\<lambda>r. case r of None \<Rightarrow> ok () | Some t \<Rightarrow> k t)"

definition reseed_scan_anchor :: "'s monitor_env \<Rightarrow> pending_bridge_transfer \<Rightarrow> pending_bridge_transfer" where
  "reseed_scan_anchor E t =
     (if bt_status t = Relaying \<and> bt_dest_scan_from_block t = None then seed_scan_anchor E t else t)"

definition after_poll ::
  "('s, 'b) bridge_machine \<Rightarrow> 's monitor_env \<Rightarrow> 's bridge_interface \<Rightarrow> nat \<Rightarrow> nat \<Rightarrow> pending_bridge_transfer \<Rightarrow> ('s, unit) bridge_action" where
  "after_poll M E I now age t =
     and_then (scan_delivery M E (reseed_scan_anchor E t)) (\<lambda>t1.
     or_stop (redeem_step M E t1) (\<lambda>t2.
     or_stop (unwrap_step M E I age t2) (\<lambda>t3.
     saving M (t3\<lparr>bt_last_status_poll_at := Some now\<rparr>))))"

definition advance_loaded ::
  "('s, 'b) bridge_machine \<Rightarrow> 's monitor_env \<Rightarrow> 's bridge_interface \<Rightarrow> nat \<Rightarrow> nat \<Rightarrow> pending_bridge_transfer \<Rightarrow> ('s, unit) bridge_action" where
  "advance_loaded M E I cooldown now t =
     (let age = now - bt_updated_at t
      in if bt_status t = WrapPending then advance_wrap M E I now age t
         else if deposit_crash_window t
         then finishing (update_transfer M t (NeedsIntervention
                ''bridge submit attempted but tx_hash not persisted; possible double-deposit risk if auto-retried''))
         else if approve_timed_out now t
         then finishing (update_transfer M t (NeedsIntervention (''approve phase exceeded '' @ to_dec APPROVE_PHASE_TIMEOUT_SECS @
                ''s without confirmation; possible underpriced tx'')))
         else if impossible_state now t
         then finishing (update_transfer M t (NeedsIntervention
                (''approve never broadcast '' @ EM_DASH @ '' likely crashed before bridge_asset returned'')))
         else (case (bt_status t, bt_tx_hash t, bt_approve_tx_hash t) of
                 (Submitted, None, Some text) \<Rightarrow> advance_approve M E I now text t
               | _ \<Rightarrow>
                   (case timeout_reason age t of
                      Some reason \<Rightarrow> finishing (update_transfer M t (NeedsIntervention reason))
                    | None \<Rightarrow> or_stop (poll_status M E I cooldown now t) (after_poll M E I now age))))"

definition advance_transfer ::
  "('s, 'b) bridge_machine \<Rightarrow> 's monitor_env \<Rightarrow> 's bridge_interface \<Rightarrow> nat \<Rightarrow> nat \<Rightarrow> pending_bridge_transfer \<Rightarrow> ('s, unit) bridge_action" where
  "advance_transfer M E I cooldown now t =
     and_then (refresh_transfer_phase_hashes_from_attempts M t) (\<lambda>(t1, changed).
     and_then (if changed then saving M t1 else ok ()) (\<lambda>_. advance_loaded M E I cooldown now t1))"

fun advance_all ::
  "('s, 'b) bridge_machine \<Rightarrow> 's monitor_env \<Rightarrow> 's bridge_interface \<Rightarrow> nat \<Rightarrow> nat \<Rightarrow> pending_bridge_transfer list \<Rightarrow> ('s, unit) bridge_action" where
  "advance_all M E I cooldown now [] = ok ()"
| "advance_all M E I cooldown now (t # ts) =
     and_then (advance_transfer M E I cooldown now t) (\<lambda>_. advance_all M E I cooldown now ts)"

definition advance_pending_transfers ::
  "('s, 'b) bridge_machine \<Rightarrow> 's monitor_env \<Rightarrow> (string \<times> 's bridge_interface) list \<Rightarrow> string \<Rightarrow> nat \<Rightarrow> ('s, unit) bridge_action" where
  "advance_pending_transfers M E impls name cooldown =
     and_then (call from_bridge_storage (get_active_transfers M)) (\<lambda>active w.
     case map_of impls name of
       None \<Rightarrow> err (BeBridgeNotFound name) w
     | Some I \<Rightarrow> advance_all M E I cooldown (bm_now M w) active w)"

section \<open>The LayerZero driver\<close>

text \<open>\<open>check_status\<close> of \<^verbatim>\<open>implementations/layerzero/mod.rs\<close>.\<close>

definition layerzero_check_status ::
  "'s monitor_env \<Rightarrow> pending_bridge_transfer \<Rightarrow> (bridge_error, bridge_transfer_status) result" where
  "layerzero_check_status E t =
     (case bt_status t of
        Submitted \<Rightarrow>
          (case bt_tx_hash t of
             None \<Rightarrow> Inr Submitted
           | Some text \<Rightarrow>
               (case me_hex_decode E (strip_0x text) of
                  Inl e \<Rightarrow> Inl (BeConfig (''Invalid tx hash: '' @ e))
                | Inr h \<Rightarrow>
                    (case me_receipt E h (bt_source_chain t) of
                       Inr rcpt \<Rightarrow> Inr (if rcpt_success rcpt then Relaying else TransferFailed ''Source transaction reverted'')
                     | Inl _ \<Rightarrow>
                         (case me_tx_exists E h (bt_source_chain t) of
                            Inr False \<Rightarrow> Inr (TransferFailed ''Source transaction not found'')
                          | _ \<Rightarrow> Inr Submitted))))
      | PendingRedemption \<Rightarrow>
          (case bt_redeem_tx_hash t of
             None \<Rightarrow> Inr PendingRedemption
           | Some text \<Rightarrow>
               (case me_hex_decode E (strip_0x text) of
                  Inl e \<Rightarrow> Inl (BeConfig (''Invalid redeem tx hash: '' @ e))
                | Inr h \<Rightarrow>
                    (case me_receipt E h (bt_dest_chain t) of
                       Inr rcpt \<Rightarrow> Inr (if rcpt_success rcpt then TransferCompleted else TransferFailed ''Redeem transaction reverted'')
                     | Inl _ \<Rightarrow>
                         (case me_tx_exists E h (bt_dest_chain t) of
                            Inr False \<Rightarrow> Inr (TransferFailed ''Redeem transaction not found'')
                          | _ \<Rightarrow> Inr PendingRedemption))))
      | st \<Rightarrow> Inr st)"

end
