(* ===== verification/Bridge_Rebalance.thy ===== *)
theory Bridge_Rebalance
  imports Bridge_Monitor
begin

text \<open>
  \<^verbatim>\<open>crates/solver-bridge/src/monitor.rs\<close>: when the monitor starts transfers by itself.  Balances of a pair are
  compared with their targets and a transfer is started for a pair that has none; floats of a chain are
  topped up from its treasury by a swap.
\<close>

section \<open>Configuration\<close>

record rebalance_side =
  rs_chain_id :: nat
  rs_token_address :: string
  rs_oft_address :: string

record rebalance_pair =
  rp_pair_id :: string
  rp_chain_a :: rebalance_side
  rp_chain_b :: rebalance_side
  rp_target_balance_a :: string
  rp_target_balance_b :: string
  rp_deviation_band_bps :: nat
  rp_max_bridge_amount :: string
  rp_bridge_route :: "json option"

record rebalance_config =
  rc_enabled :: bool
  rc_implementation :: string
  rc_monitor_interval_seconds :: nat
  rc_cooldown_seconds :: nat
  rc_max_pending_transfers :: nat
  rc_min_native_gas_reserve :: "(nat \<times> string) list"
  rc_max_fee_bps :: "nat option"
  rc_pairs :: "rebalance_pair list"
  rc_bridge_config :: "json option"

definition json_bool :: "json \<Rightarrow> bool option" where
  "json_bool j = (case j of JBool b \<Rightarrow> Some b | _ \<Rightarrow> None)"

definition json_path :: "json option \<Rightarrow> string \<Rightarrow> json option" where
  "json_path j k = Option.bind j (\<lambda>v. json_field v k)"

definition starknet_route :: "rebalance_config \<Rightarrow> nat \<Rightarrow> json option" where
  "starknet_route C chain = json_path (json_path (rc_bridge_config C) ''starknet_oft_routes'') (to_dec chain)"

definition is_starknet_chain :: "rebalance_config \<Rightarrow> nat \<Rightarrow> bool" where
  "is_starknet_chain C chain = (starknet_route C chain \<noteq> None)"

definition starknet_route_field :: "rebalance_config \<Rightarrow> nat \<Rightarrow> string \<Rightarrow> string option" where
  "starknet_route_field C chain fld = Option.bind (json_path (starknet_route C chain) fld) json_str"

definition starknet_send_enabled :: "rebalance_config \<Rightarrow> nat \<Rightarrow> bool" where
  "starknet_send_enabled C chain =
     (case Option.bind (json_path (starknet_route C chain) ''send_enabled'') json_bool of None \<Rightarrow> False | Some b \<Rightarrow> b)"

text \<open>\<open>trim\<close> on ASCII text.\<close>

definition ascii_space :: "char \<Rightarrow> bool" where
  "ascii_space c = (let n = (of_char c :: nat) in n = 32 \<or> (9 \<le> n \<and> n \<le> 13))"

definition str_trim :: "string \<Rightarrow> string" where
  "str_trim s = rev (dropWhile ascii_space (rev (dropWhile ascii_space s)))"

definition starknet_max_fee_fri :: "'s monitor_env \<Rightarrow> rebalance_config \<Rightarrow> nat \<Rightarrow> nat option" where
  "starknet_max_fee_fri E C chain =
     Option.bind (starknet_route_field C chain ''max_fee_fri'') (\<lambda>raw. result_ok (me_u256 E (str_trim raw)))"

definition solver_address_for_chain :: "'s monitor_env \<Rightarrow> rebalance_config \<Rightarrow> nat \<Rightarrow> string" where
  "solver_address_for_chain E C chain =
     (case starknet_route_field C chain ''solver_account'' of None \<Rightarrow> me_solver_address E | Some a \<Rightarrow> a)"

definition parse_address_for_chain :: "'s monitor_env \<Rightarrow> rebalance_config \<Rightarrow> nat \<Rightarrow> string \<Rightarrow> (bridge_error, bytes) result" where
  "parse_address_for_chain E C chain addr = (if is_starknet_chain C chain then Inr (replicate 20 0) else bridge_parse_address E addr)"

definition ZERO_STR :: string where "ZERO_STR = ''0x0000000000000000000000000000000000000000''"

definition is_native_text :: "string \<Rightarrow> bool" where
  "is_native_text s = (to_lowercase s = ZERO_STR)"

section \<open>Starting a transfer for a pair\<close>

definition logical_balance ::
  "'s monitor_env \<Rightarrow> nat \<Rightarrow> string \<Rightarrow> string \<Rightarrow> json option \<Rightarrow> (delivery_error, string) result" where
  "logical_balance E chain solver token route =
     (if \<not> is_native_text token then me_balance E chain solver (Some token)
      else
        and_ok (me_balance E chain solver None) (\<lambda>native.
        and_ok (case Option.bind route (\<lambda>r. route_wrapper_address r chain) of
                  None \<Rightarrow> Inr ''0''
                | Some addr \<Rightarrow> me_balance E chain solver (Some addr)) (\<lambda>wrapped.
        and_ok (map_sum (\<lambda>e. Network (''invalid native balance '' @ quoted native @ '' on chain '' @ to_dec chain @ '': '' @ e)) (\<lambda>n. n)
                  (me_u256 E native)) (\<lambda>native_u.
        and_ok (map_sum (\<lambda>e. Network (''invalid wrapper balance '' @ quoted wrapped @ '' on chain '' @ to_dec chain @ '': '' @ e)) (\<lambda>n. n)
                  (me_u256 E wrapped)) (\<lambda>wrapped_u.
        Inr (to_dec (wrapping_add u256_bound native_u wrapped_u)))))))"

definition pair_balances :: "'s monitor_env \<Rightarrow> rebalance_config \<Rightarrow> rebalance_pair \<Rightarrow> (nat \<times> nat) option" where
  "pair_balances E C p =
     (let balance = (\<lambda>side. Option.bind (result_ok (logical_balance E (rs_chain_id side) (solver_address_for_chain E C (rs_chain_id side))
                       (rs_token_address side) (rp_bridge_route p))) (\<lambda>s. result_ok (me_u256 E s)))
      in (case (balance (rp_chain_a p), balance (rp_chain_b p)) of (Some a, Some b) \<Rightarrow> Some (a, b) | _ \<Rightarrow> None))"

definition pair_amount :: "'s monitor_env \<Rightarrow> rebalance_pair \<Rightarrow> string \<Rightarrow> string \<Rightarrow> (bridge_error, nat) result" where
  "pair_amount E p field text =
     map_sum (\<lambda>e. BeConfig (''Pair '' @ quoted (rp_pair_id p) @ '': invalid '' @ field @ '': '' @ e)) (\<lambda>n. n) (me_u256 E text)"

definition pair_analysis :: "'s monitor_env \<Rightarrow> rebalance_pair \<Rightarrow> nat \<times> nat \<Rightarrow> (bridge_error, pair_threshold_analysis) result" where
  "pair_analysis E p balances =
     and_ok (pair_amount E p ''target_balance_a'' (rp_target_balance_a p)) (\<lambda>ta.
     and_ok (pair_amount E p ''target_balance_b'' (rp_target_balance_b p)) (\<lambda>tb.
     and_ok (pair_amount E p ''max_bridge_amount'' (rp_max_bridge_amount p)) (\<lambda>mx.
     Inr (analyze_pair (fst balances) (snd balances) ta tb (rp_deviation_band_bps p) mx))))"

definition sides :: "rebalance_pair \<Rightarrow> rebalance_direction \<Rightarrow> rebalance_side \<times> rebalance_side" where
  "sides p d = (case d of AToB \<Rightarrow> (rp_chain_a p, rp_chain_b p) | BToA \<Rightarrow> (rp_chain_b p, rp_chain_a p))"

definition starknet_blocked :: "rebalance_config \<Rightarrow> rebalance_side \<Rightarrow> rebalance_side \<Rightarrow> bool" where
  "starknet_blocked C source dest =
     (case find (is_starknet_chain C) [rs_chain_id source, rs_chain_id dest] of
        None \<Rightarrow> False | Some chain \<Rightarrow> \<not> starknet_send_enabled C chain)"

text \<open>The amount, capped by what a native source can spend; \<open>None\<close> skips the pair.\<close>

definition amount_to_bridge ::
  "'s monitor_env \<Rightarrow> rebalance_config \<Rightarrow> rebalance_pair \<Rightarrow> rebalance_side \<Rightarrow> nat \<Rightarrow> (bridge_error, nat option) result" where
  "amount_to_bridge E C p source suggested =
     (if \<not> is_native_text (rs_token_address source) then Inr (Some suggested)
      else (case me_balance E (rs_chain_id source) (me_solver_address E) None of
              Inl _ \<Rightarrow> Inr None
            | Inr balance \<Rightarrow>
                and_ok (map_sum (\<lambda>e. BeConfig (''Pair '' @ quoted (rp_pair_id p) @ '': invalid native balance on chain '' @
                          to_dec (rs_chain_id source) @ '': '' @ e)) (\<lambda>n. n) (me_u256 E balance)) (\<lambda>native.
                and_ok (case map_of (rc_min_native_gas_reserve C) (rs_chain_id source) of
                          None \<Rightarrow> Inr 0
                        | Some s \<Rightarrow> map_sum (\<lambda>e. BeConfig (''Pair '' @ quoted (rp_pair_id p) @ '': invalid min_native_gas_reserve for chain '' @
                          to_dec (rs_chain_id source) @ '': '' @ e)) (\<lambda>n. n) (me_u256 E s)) (\<lambda>reserve.
                let capped = min suggested (native - reserve) in Inr (if capped = 0 then None else Some capped)))))"

definition pair_request ::
  "'s monitor_env \<Rightarrow> rebalance_config \<Rightarrow> rebalance_pair \<Rightarrow> rebalance_side \<Rightarrow> rebalance_side \<Rightarrow> nat \<Rightarrow> (bridge_error, bridge_request) result" where
  "pair_request E C p source dest amount =
     and_ok (parse_address_for_chain E C (rs_chain_id source) (rs_token_address source)) (\<lambda>st.
     and_ok (parse_address_for_chain E C (rs_chain_id source) (rs_oft_address source)) (\<lambda>so.
     and_ok (parse_address_for_chain E C (rs_chain_id dest) (rs_token_address dest)) (\<lambda>dt.
     and_ok (parse_address_for_chain E C (rs_chain_id dest) (rs_oft_address dest)) (\<lambda>dof.
     and_ok (if is_starknet_chain C (rs_chain_id dest) then Inr (replicate 20 0)
             else bridge_parse_address E (solver_address_for_chain E C (rs_chain_id dest))) (\<lambda>recipient.
     Inr \<lparr>br_pair_id = rp_pair_id p, br_source_chain = rs_chain_id source, br_dest_chain = rs_chain_id dest, br_source_token = st,
          br_source_oft = so, br_dest_token = dt, br_dest_oft = dof, br_amount = amount, br_min_amount = None, br_recipient = recipient\<rparr>)))))"

definition composer_and_vault :: "rebalance_config \<Rightarrow> rebalance_pair \<Rightarrow> rebalance_side \<Rightarrow> rebalance_side \<Rightarrow> bool \<times> string option" where
  "composer_and_vault C p source dest =
     (case rp_bridge_route p of
        Some route \<Rightarrow>
          (Option.bind (json_field route ''composer_chain_id'') json_u64 = Some (rs_chain_id source),
           Option.bind (json_field route ''vault'') json_str)
      | None \<Rightarrow>
          (json_path (json_path (rc_bridge_config C) ''composer_addresses'') (to_dec (rs_chain_id source)) \<noteq> None,
           Option.bind (json_path (json_path (rc_bridge_config C) ''vault_addresses'') (to_dec (rs_chain_id dest))) json_str))"

definition effective_token :: "rebalance_pair \<Rightarrow> bool \<Rightarrow> rebalance_side \<Rightarrow> string" where
  "effective_token p applies side =
     (if applies \<and> is_native_text (rs_token_address side)
      then (case Option.bind (rp_bridge_route p) (\<lambda>r. route_wrapper_address r (rs_chain_id side)) of
              None \<Rightarrow> rs_token_address side | Some wr \<Rightarrow> wr)
      else rs_token_address side)"

definition pair_metadata :: "rebalance_pair \<Rightarrow> rebalance_side \<Rightarrow> rebalance_side \<Rightarrow> bool \<Rightarrow> string option \<Rightarrow> transfer_metadata" where
  "pair_metadata p source dest is_composer vault =
     \<lparr>tm_transfer_id = None, tm_approve_scope_id = None, tm_tx_scope_id = None,
      tm_source_token_address = effective_token p True source, tm_dest_token_address = effective_token p is_composer dest,
      tm_dest_oft_address = rs_oft_address dest, tm_is_composer_flow = is_composer, tm_vault_address = vault,
      tm_bridge_route = rp_bridge_route p\<rparr>"

definition fee_within_cap ::
  "'s monitor_env \<Rightarrow> (string \<times> 's bridge_interface) list \<Rightarrow> rebalance_config \<Rightarrow> bridge_request \<Rightarrow> transfer_metadata \<Rightarrow> bool" where
  "fee_within_cap E impls C req meta =
     (case starknet_max_fee_fri E C (br_source_chain req) of
        None \<Rightarrow> True
      | Some cap \<Rightarrow>
          (case map_of impls (rc_implementation C) of
             None \<Rightarrow> False
           | Some I \<Rightarrow> (case bi_estimate_fee I req meta of Inl _ \<Rightarrow> False | Inr fee \<Rightarrow> \<not> fee > cap)))"

text \<open>An action whose error is only logged.\<close>

definition attempting :: "('s, 'a) bridge_action \<Rightarrow> ('s, unit) bridge_action" where
  "attempting m w = (case m w of (evs, _, w1) \<Rightarrow> (evs, Inr (), w1))"

text \<open>What a pair calls for: a request with its metadata, nothing, or an error that ends the pass.\<close>

definition planned_transfer ::
  "'s monitor_env \<Rightarrow> (string \<times> 's bridge_interface) list \<Rightarrow> rebalance_config \<Rightarrow> rebalance_pair
   \<Rightarrow> (bridge_error, (bridge_request \<times> transfer_metadata) option) result" where
  "planned_transfer E impls C p =
     (case pair_balances E C p of
        None \<Rightarrow> Inr None
      | Some balances \<Rightarrow>
          and_ok (pair_analysis E p balances) (\<lambda>analysis.
          if both_sides_low analysis then Inr None
          else (case direction_needed analysis of
                  None \<Rightarrow> Inr None
                | Some d \<Rightarrow>
                    if suggested_amount analysis = 0 then Inr None
                    else
                      (let (source, dest) = sides p d
                       in if starknet_blocked C source dest then Inr None
                          else and_ok (amount_to_bridge E C p source (suggested_amount analysis)) (\<lambda>amount.
                            case amount of
                              None \<Rightarrow> Inr None
                            | Some m \<Rightarrow>
                                and_ok (pair_request E C p source dest m) (\<lambda>req.
                                let (is_composer, vault) = composer_and_vault C p source dest;
                                    meta = pair_metadata p source dest is_composer vault
                                in if \<not> is_composer \<and> vault = None then Inr None
                                   else if fee_within_cap E impls C req meta then Inr (Some (req, meta)) else Inr None))))))"

definition trigger_pair ::
  "('s, 'b) bridge_machine \<Rightarrow> 's monitor_env \<Rightarrow> (string \<times> 's bridge_interface) list \<Rightarrow> rebalance_config \<Rightarrow> rebalance_pair
   \<Rightarrow> ('s, unit) bridge_action" where
  "trigger_pair M E impls C p =
     and_then (call from_bridge_storage (is_cooldown_active M (rp_pair_id p))) (\<lambda>cooling.
     if cooling then ok ()
     else and_then (call from_bridge_storage (get_active_transfers_for_pair M (rp_pair_id p))) (\<lambda>active.
       if active \<noteq> [] then ok ()
       else and_then (lift_result (\<lambda>e. e) (planned_transfer E impls C p)) (\<lambda>plan.
         case plan of
           None \<Rightarrow> ok ()
         | Some (req, meta) \<Rightarrow> attempting (rebalance_token M impls (rc_implementation C) req Auto meta))))"

fun trigger_pairs ::
  "('s, 'b) bridge_machine \<Rightarrow> 's monitor_env \<Rightarrow> (string \<times> 's bridge_interface) list \<Rightarrow> rebalance_config \<Rightarrow> rebalance_pair list
   \<Rightarrow> ('s, unit) bridge_action" where
  "trigger_pairs M E impls C [] = ok ()"
| "trigger_pairs M E impls C (p # ps) = and_then (trigger_pair M E impls C p) (\<lambda>_. trigger_pairs M E impls C ps)"

definition check_thresholds_and_trigger ::
  "('s, 'b) bridge_machine \<Rightarrow> 's monitor_env \<Rightarrow> (string \<times> 's bridge_interface) list \<Rightarrow> rebalance_config \<Rightarrow> ('s, unit) bridge_action" where
  "check_thresholds_and_trigger M E impls C =
     and_then (call from_bridge_storage (active_transfer_count M)) (\<lambda>count.
     if count \<ge> rc_max_pending_transfers C then ok () else trigger_pairs M E impls C (rc_pairs C))"

section \<open>Floats\<close>

text \<open>
  The two exchanges behind \<open>SwapInterface\<close> with what they are constructed from; their quotes and
  submissions are those of the trait.
\<close>

datatype swap_backend =
    AvnuSwap "string option" string bool
  | UniswapSwap bytes bytes bytes "(string \<times> bytes) list" bool

record swap_quote =
  amount_out :: nat
  price_impact_bps :: nat

record 's swap_interface =
  si_quote :: "nat \<Rightarrow> string \<Rightarrow> string \<Rightarrow> nat \<Rightarrow> (bridge_error, swap_quote) result"
  si_swap :: "nat \<Rightarrow> string \<Rightarrow> string \<Rightarrow> nat \<Rightarrow> nat \<Rightarrow> string \<Rightarrow> 's world \<Rightarrow> (bridge_error, bytes) result \<times> 's world"

definition float_u256 :: "'s monitor_env \<Rightarrow> json \<Rightarrow> string \<Rightarrow> nat option" where
  "float_u256 E target key = Option.bind (Option.bind (json_field target key) json_str) (\<lambda>s. result_ok (me_u256 E s))"

definition WITHIN_BAND :: string where "WITHIN_BAND = ''within band''"
definition TREASURY_INSUFFICIENT :: string where "TREASURY_INSUFFICIENT = ''treasury insufficient''"

definition float_topup_blocked :: "nat \<Rightarrow> nat \<Rightarrow> nat \<Rightarrow> nat \<Rightarrow> string option" where
  "float_topup_blocked balance min_balance treasury top_up =
     (if balance \<ge> min_balance then Some WITHIN_BAND
      else if treasury < top_up then Some TREASURY_INSUFFICIENT
      else None)"

text \<open>The configured paths; an entry that is not text is skipped, and a later key replaces an equal one.\<close>

fun uniswap_paths :: "'s monitor_env \<Rightarrow> (string \<times> json) list \<Rightarrow> (string \<times> bytes) list \<Rightarrow> (bridge_error, (string \<times> bytes) list) result" where
  "uniswap_paths E [] acc = Inr acc"
| "uniswap_paths E ((k, v) # rest) acc =
     (case json_str v of
        None \<Rightarrow> uniswap_paths E rest acc
      | Some hexpath \<Rightarrow>
          (case me_hex_decode E (strip_0x hexpath) of
             Inl e \<Rightarrow> Inl (BeConfig (''float.uniswap.paths['' @ k @ ''] invalid hex: '' @ e))
           | Inr bs \<Rightarrow> uniswap_paths E rest ((to_lowercase k, bs) # acc)))"

definition uniswap_field :: "'s monitor_env \<Rightarrow> json \<Rightarrow> string \<Rightarrow> (bridge_error, bytes) result" where
  "uniswap_field E uni nm =
     (case Option.bind (json_field uni nm) json_str of
        None \<Rightarrow> Inl (BeConfig (''float.uniswap.'' @ nm @ '' missing''))
      | Some s \<Rightarrow> bridge_parse_address E s)"

definition float_swap_backend ::
  "'s monitor_env \<Rightarrow> rebalance_config \<Rightarrow> json \<Rightarrow> nat \<Rightarrow> string \<Rightarrow> bool \<Rightarrow> (bridge_error, swap_backend) result" where
  "float_swap_backend E C float chain taker swap_enabled =
     (if is_starknet_chain C chain
      then Inr (AvnuSwap (Option.bind (json_path (json_field float ''avnu'') ''api_base'') json_str) taker swap_enabled)
      else (case json_field float ''uniswap'' of
              None \<Rightarrow> Inl (BeConfig ''float.uniswap config missing'')
            | Some uni \<Rightarrow>
                and_ok (uniswap_field E uni ''quoter'') (\<lambda>quoter.
                and_ok (uniswap_field E uni ''router'') (\<lambda>router.
                and_ok (bridge_parse_address E taker) (\<lambda>recipient.
                and_ok (case Option.bind (json_field uni ''paths'') json_object of
                          None \<Rightarrow> Inr [] | Some kvs \<Rightarrow> uniswap_paths E kvs []) (\<lambda>paths.
                Inr (UniswapSwap quoter router recipient paths swap_enabled)))))))"

text \<open>What the configuration says of one target: chain, token, bounds, account and treasury.\<close>

record float_target =
  ft_chain :: nat
  ft_token :: string
  ft_min_balance :: nat
  ft_top_up :: nat
  ft_solver :: string
  ft_treasury :: string

definition parse_float_target :: "'s monitor_env \<Rightarrow> json \<Rightarrow> json \<Rightarrow> float_target option" where
  "parse_float_target E float target =
     (case (Option.bind (json_field target ''chain_id'') json_u64, Option.bind (json_field target ''token'') json_str) of
        (Some chain, Some token) \<Rightarrow>
          (case (float_u256 E target ''min_balance'', float_u256 E target ''top_up_amount'') of
             (Some min_balance, Some top_up) \<Rightarrow>
               (case (Option.bind (json_path (json_field float ''solver_addresses'') (to_dec chain)) json_str,
                      Option.bind (json_path (json_field float ''treasury_token'') (to_dec chain)) json_str) of
                  (Some solver, Some treasury) \<Rightarrow>
                    Some \<lparr>ft_chain = chain, ft_token = token, ft_min_balance = min_balance, ft_top_up = top_up,
                          ft_solver = solver, ft_treasury = treasury\<rparr>
                | _ \<Rightarrow> None)
           | _ \<Rightarrow> None)
      | _ \<Rightarrow> None)"

definition float_cooldown_key :: "float_target \<Rightarrow> string" where
  "float_cooldown_key T = ''float:'' @ to_dec (ft_chain T) @ '':'' @ ft_token T"

definition float_balance :: "'s monitor_env \<Rightarrow> float_target \<Rightarrow> string \<Rightarrow> nat option" where
  "float_balance E T token =
     Option.bind (result_ok (me_balance E (ft_chain T) (ft_solver T) (Some token))) (\<lambda>b. result_ok (me_u256 E b))"

text \<open>\<open>amount * U256::from(10_000.saturating_sub(slippage)) / 10_000\<close>\<close>

definition min_out_of :: "nat \<Rightarrow> nat \<Rightarrow> nat" where
  "min_out_of out slippage = u256_mul out (BPS_BASE - slippage) div BPS_BASE"

text \<open>The swap a target calls for: its exchange and the least amount to accept.\<close>

definition planned_swap ::
  "'s monitor_env \<Rightarrow> (swap_backend \<Rightarrow> 's swap_interface) \<Rightarrow> rebalance_config \<Rightarrow> json \<Rightarrow> bool \<Rightarrow> nat \<Rightarrow> float_target
   \<Rightarrow> (swap_backend \<times> nat) option" where
  "planned_swap E ex C float swap_enabled max_slippage T =
     (case (float_balance E T (ft_token T), float_balance E T (ft_treasury T)) of
        (Some balance, Some treasury_bal) \<Rightarrow>
          if float_topup_blocked balance (ft_min_balance T) treasury_bal (ft_top_up T) \<noteq> None then None
          else (case float_swap_backend E C float (ft_chain T) (ft_solver T) swap_enabled of
                  Inl _ \<Rightarrow> None
                | Inr be \<Rightarrow>
                    (case si_quote (ex be) (ft_chain T) (ft_treasury T) (ft_token T) (ft_top_up T) of
                       Inl _ \<Rightarrow> None
                     | Inr q \<Rightarrow>
                         if price_impact_bps q > max_slippage then None
                         else if \<not> swap_enabled then None
                         else Some (be, min_out_of (amount_out q) max_slippage)))
      | _ \<Rightarrow> None)"

definition asking_swap ::
  "'s swap_interface \<Rightarrow> float_target \<Rightarrow> nat \<Rightarrow> string \<Rightarrow> ('s, (bridge_error, bytes) result) bridge_action" where
  "asking_swap X T min_out scope w =
     (case si_swap X (ft_chain T) (ft_treasury T) (ft_token T) (ft_top_up T) min_out scope w of
        (r, w1) \<Rightarrow> ([AskedSwap (ft_chain T) (ft_treasury T) (ft_token T) (ft_top_up T) min_out], Inr r, w1))"

definition top_up_target ::
  "('s, 'b) bridge_machine \<Rightarrow> 's monitor_env \<Rightarrow> (swap_backend \<Rightarrow> 's swap_interface) \<Rightarrow> rebalance_config \<Rightarrow> json \<Rightarrow> bool \<Rightarrow> nat
   \<Rightarrow> float_target \<Rightarrow> ('s, unit) bridge_action" where
  "top_up_target M E ex C float swap_enabled max_slippage T =
     and_then (call from_bridge_storage (is_cooldown_active M (float_cooldown_key T))) (\<lambda>cooling.
     if cooling then ok ()
     else (case planned_swap E ex C float swap_enabled max_slippage T of
             None \<Rightarrow> ok ()
           | Some (be, min_out) \<Rightarrow> (\<lambda>w0.
               and_then (asking_swap (ex be) T min_out
                   (bridge_system_scope (bm_uuid M (w_tick w0) 0) ''float-topup'' (ft_chain T) (ft_token T))) (\<lambda>r.
               case r of
                 Inl _ \<Rightarrow> ok ()
               | Inr _ \<Rightarrow> attempting (call from_bridge_storage (set_cooldown M (float_cooldown_key T) (rc_cooldown_seconds C)))) w0)))"

fun top_up_targets ::
  "('s, 'b) bridge_machine \<Rightarrow> 's monitor_env \<Rightarrow> (swap_backend \<Rightarrow> 's swap_interface) \<Rightarrow> rebalance_config \<Rightarrow> json \<Rightarrow> bool \<Rightarrow> nat
   \<Rightarrow> json list \<Rightarrow> ('s, unit) bridge_action" where
  "top_up_targets M E ex C float swap_enabled max_slippage [] = ok ()"
| "top_up_targets M E ex C float swap_enabled max_slippage (target # targets) =
     and_then (case parse_float_target E float target of
                 None \<Rightarrow> ok () | Some T \<Rightarrow> top_up_target M E ex C float swap_enabled max_slippage T) (\<lambda>_.
     top_up_targets M E ex C float swap_enabled max_slippage targets)"

definition float_config :: "rebalance_config \<Rightarrow> json option" where
  "float_config C = json_path (rc_bridge_config C) ''float''"

definition float_swap_enabled :: "json \<Rightarrow> bool" where
  "float_swap_enabled float = (case Option.bind (json_field float ''swap_enabled'') json_bool of None \<Rightarrow> False | Some b \<Rightarrow> b)"

text \<open>\<open>as u32\<close> keeps the low 32 bits.\<close>

definition float_max_slippage :: "json \<Rightarrow> nat" where
  "float_max_slippage float =
     (case Option.bind (json_field float ''max_slippage_bps'') json_u64 of None \<Rightarrow> 100 | Some n \<Rightarrow> n) mod 2 ^ 32"

definition check_float_top_ups ::
  "('s, 'b) bridge_machine \<Rightarrow> 's monitor_env \<Rightarrow> (swap_backend \<Rightarrow> 's swap_interface) \<Rightarrow> rebalance_config \<Rightarrow> ('s, unit) bridge_action" where
  "check_float_top_ups M E ex C =
     (case float_config C of
        None \<Rightarrow> ok ()
      | Some float \<Rightarrow>
          (case Option.bind (json_field float ''targets'') json_array of
             None \<Rightarrow> ok ()
           | Some targets \<Rightarrow> top_up_targets M E ex C float (float_swap_enabled float) (float_max_slippage float) targets))"

section \<open>A cycle of the monitor\<close>

definition rebalance_tick ::
  "('s, 'b) bridge_machine \<Rightarrow> 's monitor_env \<Rightarrow> (string \<times> 's bridge_interface) list \<Rightarrow> (swap_backend \<Rightarrow> 's swap_interface)
   \<Rightarrow> rebalance_config option \<Rightarrow> ('s, unit) bridge_action" where
  "rebalance_tick M E impls ex cfg =
     (case cfg of
        None \<Rightarrow> ok ()
      | Some C \<Rightarrow>
          if \<not> rc_enabled C then ok ()
          else and_then (advance_pending_transfers M E impls (rc_implementation C) (rc_cooldown_seconds C)) (\<lambda>_.
               and_then (check_thresholds_and_trigger M E impls C) (\<lambda>_.
               check_float_top_ups M E ex C)))"

end
