(* ===== verification/Bridge_Safety.thy ===== *)
theory Bridge_Safety
  imports Bridge_Monitor
begin

text \<open>
  What the markers of a transfer record buy: whatever the chain answers, wherever a process stops, and
  however many ticks follow, a transfer hands at most one deposit to the bridge that may have been
  broadcast, and at most one redemption that was not refused for its nonce.
\<close>

section \<open>A logic of traces\<close>

text \<open>Every emitted effect satisfies \<open>P\<close> and a returned value satisfies \<open>Q\<close>.\<close>

definition meets :: "('v \<Rightarrow> bool) \<Rightarrow> ('a \<Rightarrow> bool) \<Rightarrow> 'v list \<times> ('x, 'a) result \<times> 'w \<Rightarrow> bool" where
  "meets P Q r \<longleftrightarrow> list_all P (fst r) \<and> (\<forall>a. fst (snd r) = Inr a \<longrightarrow> Q a)"

lemma meets_and_then:
  assumes "meets P Q (m w)" and "\<And>a w1. Q a \<Longrightarrow> meets P R (k a w1)"
  shows "meets P R (and_then m k w)"
proof -
  obtain evs r w1 where m: "m w = (evs, r, w1)" by (cases "m w")
  show ?thesis
  proof (cases r)
    case (Inr a)
    then have "Q a" using assms(1) by (simp add: meets_def m)
    from assms(2) [OF this] have "meets P R (k a w1)" .
    then show ?thesis using assms(1) Inr by (auto simp: meets_def m and_then_def split: prod.splits)
  qed (use assms(1) in \<open>simp add: meets_def m and_then_def\<close>)
qed

lemma meets_ok: "Q a \<Longrightarrow> meets P Q (ok a w)"
  by (simp add: meets_def ok_def)

lemma meets_err: "meets P Q (err e w)"
  by (simp add: meets_def err_def)

lemma meets_call: "meets P (\<lambda>_. True) (call f m w)"
  by (simp add: meets_def call_def split: prod.splits sum.splits)

lemma meets_weaken: "meets P Q r \<Longrightarrow> (\<And>a. Q a \<Longrightarrow> R a) \<Longrightarrow> meets P R r"
  by (auto simp: meets_def)

lemma meets_retiring: "meets P (\<lambda>_. True) (retiring M s reason w)"
  by (cases s) (simp_all add: retiring_def meets_ok meets_call)

lemma meets_saving: "P (SavedTransfer t) \<Longrightarrow> meets P (\<lambda>_. True) (saving M t w)"
  by (simp add: meets_def saving_def split: prod.splits sum.splits)

lemma meets_saving_quietly: "P (SavedTransfer t) \<Longrightarrow> meets P (\<lambda>_. True) (saving_quietly M t w)"
  by (simp add: meets_def saving_quietly_def split: prod.splits sum.splits)

lemma meets_saving_or: "P (SavedTransfer t) \<Longrightarrow> meets P (\<lambda>_. True) (saving_or M f t w)"
  by (simp add: meets_def saving_or_def split: prod.splits sum.splits)

lemma meets_update:
  assumes "\<And>now. P (SavedTransfer (transition_to now st t))"
  shows "meets P (\<lambda>t1. \<exists>now. t1 = transition_to now st t) (update_transfer M t st w)"
  unfolding update_transfer_def Let_def
  by (rule meets_and_then [OF meets_saving]) (auto intro: assms meets_ok)

lemma meets_finishing: "meets P Q (m w) \<Longrightarrow> meets P (\<lambda>_. True) (finishing m w)"
  unfolding finishing_def by (erule meets_and_then) (simp add: meets_ok)

lemma meets_or_stop:
  assumes "meets P (pred_option Q) (m w)" and "\<And>t w1. Q t \<Longrightarrow> meets P (\<lambda>_. True) (k t w1)"
  shows "meets P (\<lambda>_. True) (or_stop m k w)"
  unfolding or_stop_def by (rule meets_and_then, rule assms(1)) (auto split: option.splits intro: meets_ok assms(2))

section \<open>Deposits\<close>

text \<open>Answers of the bridge after which a deposit may be on its way.\<close>

fun may_be_broadcast :: "(bridge_error, bridge_deposit_result) result \<Rightarrow> bool" where
  "may_be_broadcast (Inl (BeApprovePending _)) = False"
| "may_be_broadcast (Inl (BeApproveReverted _ _)) = False"
| "may_be_broadcast (Inl (BeApproveSubmitFailed _)) = False"
| "may_be_broadcast (Inl (BeInsufficientNativeGas _)) = False"
| "may_be_broadcast (Inl (BeNonceTooLow _)) = False"
| "may_be_broadcast _ = True"

text \<open>Records for which no tick calls the bridge for a deposit again.\<close>

definition sealed :: "pending_bridge_transfer \<Rightarrow> bool" where
  "sealed t \<longleftrightarrow> bt_status t \<noteq> WrapPending \<and> (bt_tx_hash t \<noteq> None \<or> bt_bridge_submit_attempted t)"

fun sealing :: "bridge_effect \<Rightarrow> bool" where
  "sealing (SavedTransfer t) = sealed t"
| "sealing (AskedDeposit _ _) = False"
| "sealing _ = True"

fun not_deposit :: "bridge_effect \<Rightarrow> bool" where
  "not_deposit (AskedDeposit _ _) = False"
| "not_deposit _ = True"

text \<open>
  A trace replayed on the stored record: a deposit that may be broadcast comes after the record was
  sealed, and nothing after it unseals the record or asks for another deposit.
\<close>

fun at_most_one_deposit :: "pending_bridge_transfer option \<Rightarrow> bool \<Rightarrow> bridge_effect list \<Rightarrow> bool" where
  "at_most_one_deposit r used [] = True"
| "at_most_one_deposit r used (SavedTransfer t # es) = ((used \<longrightarrow> sealed t) \<and> at_most_one_deposit (Some t) used es)"
| "at_most_one_deposit r used (AskedDeposit i res # es) =
     (\<not> used \<and> (if may_be_broadcast res then (\<exists>t. r = Some t \<and> sealed t) \<and> at_most_one_deposit r True es
                 else at_most_one_deposit r False es))"
| "at_most_one_deposit r used (_ # es) = at_most_one_deposit r used es"

lemma sealing_trace: "list_all sealing tr \<Longrightarrow> at_most_one_deposit r used tr"
  by (induction r used tr rule: at_most_one_deposit.induct) auto

lemma no_deposit_first:
  "list_all not_deposit tr \<Longrightarrow> (\<And>r. at_most_one_deposit r False tr') \<Longrightarrow> at_most_one_deposit r False (tr @ tr')"
proof (induction tr arbitrary: r)
  case (Cons e tr)
  then show ?case by (cases e) auto
qed simp

lemma no_deposit_trace: "list_all not_deposit tr \<Longrightarrow> at_most_one_deposit r False tr"
  using no_deposit_first [of tr "[]" r] by simp

text \<open>Actions whose traces are of this kind whatever was stored before.\<close>

definition one_deposit :: "bridge_effect list \<times> 'r \<Rightarrow> bool" where
  "one_deposit r \<longleftrightarrow> (\<forall>stored. at_most_one_deposit stored False (fst r))"

lemma one_deposit_meets: "meets not_deposit Q r \<Longrightarrow> one_deposit r"
  by (simp add: meets_def one_deposit_def no_deposit_trace)

lemma one_deposit_after:
  assumes "meets not_deposit Q (m w)" and "\<And>a w1. Q a \<Longrightarrow> one_deposit (k a w1)"
  shows "one_deposit (and_then m k w)"
proof -
  obtain evs r w1 where m: "m w = (evs, r, w1)" by (cases "m w")
  show ?thesis
  proof (cases r)
    case (Inl e)
    then show ?thesis using one_deposit_meets [OF assms(1)] by (simp add: and_then_def m one_deposit_def)
  next
    case (Inr a)
    then have q: "Q a" "list_all not_deposit evs" using assms(1) by (simp_all add: meets_def m)
    obtain evs2 r2 w2 where k: "k a w1 = (evs2, r2, w2)" by (cases "k a w1")
    have "at_most_one_deposit stored False evs2" for stored using assms(2) [OF q(1), of w1] by (simp add: one_deposit_def k)
    then show ?thesis using no_deposit_first [OF q(2)] by (simp add: and_then_def m Inr k one_deposit_def)
  qed
qed

text \<open>The pattern of both callers: persist the sealed record, ask for the deposit, record the answer.\<close>

lemma one_deposit_marked:
  assumes "sealed t"
    and "\<And>res w1. may_be_broadcast res \<Longrightarrow> meets sealing Q (answered res w1)"
    and "\<And>res w1. \<not> may_be_broadcast res \<Longrightarrow> meets not_deposit Q (answered res w1)"
  shows "one_deposit (and_then (saving M t) (\<lambda>_. and_then (asking_deposit I ident req meta) answered) w)"
proof -
  obtain r0 w0 where save: "saving M t w = ([], Inl r0, w0) \<or> saving M t w = ([SavedTransfer t], Inr (), w0)"
    unfolding saving_def by (cases "save_transfer M t w"; cases "fst (save_transfer M t w)") auto
  obtain res w2 where ask: "bi_bridge_asset I req meta w0 = (res, w2)" by (cases "bi_bridge_asset I req meta w0")
  obtain evs r w3 where ans: "answered res w2 = (evs, r, w3)" by (cases "answered res w2")
  have "list_all sealing evs" if "may_be_broadcast res" using assms(2) [OF that, of w2] by (simp add: meets_def ans)
  moreover have "list_all not_deposit evs" if "\<not> may_be_broadcast res" using assms(3) [OF that, of w2] by (simp add: meets_def ans)
  ultimately show ?thesis
    using save assms(1) ask ans sealing_trace [of evs "Some t" True] no_deposit_trace [of evs "Some t"]
    by (auto simp: one_deposit_def and_then_def asking_deposit_def)
qed

section \<open>What a tick keeps of a record\<close>

text \<open>A driver that reports a wrap only for records that are being wrapped.\<close>

definition never_rewraps :: "(pending_bridge_transfer \<Rightarrow> (bridge_error, bridge_transfer_status) result) \<Rightarrow> bool" where
  "never_rewraps check \<longleftrightarrow> (\<forall>t. check t = Inr WrapPending \<longrightarrow> bt_status t = WrapPending)"

text \<open>Records that agree on their status, on the hash of their deposit and on the two markers.\<close>

definition same_submissions :: "pending_bridge_transfer \<Rightarrow> pending_bridge_transfer \<Rightarrow> bool" where
  "same_submissions t t' \<longleftrightarrow> bt_status t' = bt_status t \<and> bt_tx_hash t' = bt_tx_hash t \<and>
     bt_bridge_submit_attempted t' = bt_bridge_submit_attempted t \<and> bt_redeem_submit_attempted t' = bt_redeem_submit_attempted t"

definition may_deposit :: "pending_bridge_transfer \<Rightarrow> bool" where
  "may_deposit t \<longleftrightarrow> bt_status t = WrapPending \<or> bt_status t = Submitted \<and> bt_tx_hash t = None \<and> \<not> bt_bridge_submit_attempted t"

lemma meets_if:
  "(c \<Longrightarrow> meets P Q (m w)) \<Longrightarrow> (\<not> c \<Longrightarrow> meets P Q (n w)) \<Longrightarrow> meets P Q ((if c then m else n) w)"
  by simp

lemmas meets_steps = meets_if meets_ok meets_and_then [OF meets_saving] meets_and_then [OF meets_retiring]

lemma meets_if_ok: "meets P (\<lambda>_. True) ((if c then call f m else ok ()) w)"
  by (simp add: meets_call meets_ok)

text \<open>The primitive submissions other than deposits.\<close>

lemma meets_asking:
  "P (AskedWrap (bt_id t)) \<Longrightarrow> meets P (\<lambda>_. True) (asking_wrap I t w)"
  "P (AskedUnwrap (bt_id t)) \<Longrightarrow> meets P (\<lambda>_. True) (asking_unwrap I t w)"
  "P (AskedRedeem ident) \<Longrightarrow> meets P (\<lambda>_. True) (asking_redeem E ident tx scope w)"
  by (simp_all add: meets_def asking_wrap_def asking_unwrap_def asking_redeem_def split: prod.splits)

text \<open>
  An invariant \<open>R\<close> of records and a property \<open>P\<close> of effects that the parts of a tick keep: writes of records
  with \<open>R\<close> are allowed, bookkeeping and the hash found in the ledger do not matter, and neither do moves to
  another status than the wrap.
\<close>

locale kept_rows =
  fixes R :: "pending_bridge_transfer \<Rightarrow> bool" and P :: "bridge_effect \<Rightarrow> bool"
  assumes saved: "R t \<Longrightarrow> P (SavedTransfer t)"
    and bookkeeping: "R t \<Longrightarrow> same_submissions t t' \<Longrightarrow> R t'"
    and deposit_found: "R t \<Longrightarrow> R (t\<lparr>bt_tx_hash := Some h\<rparr>)"
    and moved: "R t \<Longrightarrow> st \<noteq> WrapPending \<Longrightarrow> R (transition_to now st t)"
    and wraps: "P (AskedWrap i)" "P (AskedUnwrap i)"
    and redeems: "R t \<Longrightarrow> \<not> bt_redeem_submit_attempted t \<Longrightarrow> P (AskedRedeem i)"
    and redeem_marked: "R t \<Longrightarrow> \<not> bt_redeem_submit_attempted t \<Longrightarrow> R (t\<lparr>bt_redeem_submit_attempted := b\<rparr>)"
begin

lemma update_kept: "R t \<Longrightarrow> st \<noteq> WrapPending \<Longrightarrow> meets P R (update_transfer M t st w)"
  by (rule meets_weaken [OF meets_update]) (auto intro: saved moved)

lemma saving_kept: "R t \<Longrightarrow> same_submissions t t' \<Longrightarrow> meets P (\<lambda>_. True) (saving M t' w)"
  by (intro meets_saving saved) (rule bookkeeping)

lemma refresh_kept: "R t \<Longrightarrow> meets P (\<lambda>(t1, _). R t1) (refresh_transfer_phase_hashes_from_attempts M t w)"
proof -
  have found: "R t2 \<Longrightarrow> R (if h = None then t2 else t2\<lparr>bt_tx_hash := h, bt_submitted_missing_checks := 0, bt_submitted_missing_since := None\<rparr>)" for t2 h
  proof (cases h)
    case (Some h1)
    assume "R t2"
    from bookkeeping [OF deposit_found [OF this, of h1], of "t2\<lparr>bt_tx_hash := h, bt_submitted_missing_checks := 0, bt_submitted_missing_since := None\<rparr>"]
    show ?thesis by (simp add: Some same_submissions_def)
  qed simp
  have other: "R t2 \<Longrightarrow> R (if h = None then t2 else t2\<lparr>bt_approve_tx_hash := h, bt_approve_missing_checks := 0, bt_approve_missing_since := None\<rparr>)"
    "R t2 \<Longrightarrow> R (if h = None then t2 else t2\<lparr>bt_wrap_tx_hash := h, bt_wrap_missing_checks := 0\<rparr>)"
    "R t2 \<Longrightarrow> R (if h = None then t2 else t2\<lparr>bt_redeem_tx_hash := h, bt_redeem_missing_checks := 0, bt_redeem_missing_since := None\<rparr>)"
    "R t2 \<Longrightarrow> R (if h = None then t2 else t2\<lparr>bt_unwrap_tx_hash := h, bt_unwrap_missing_checks := 0\<rparr>)" for t2 h
    by (erule bookkeeping, simp add: same_submissions_def)+
  show "R t \<Longrightarrow> ?thesis"
    unfolding refresh_transfer_phase_hashes_from_attempts_def Let_def
    by (intro meets_and_then [where Q = "\<lambda>_. True"] meets_call meets_ok, unfold prod.case) (intro other found)
qed

lemma scan_delivery_kept: "R t \<Longrightarrow> meets P R (scan_delivery M E t w)"
proof -
  have same: "R t'" if "R t" "same_submissions t t'" for t' using that by (rule bookkeeping)
  show "R t \<Longrightarrow> ?thesis"
    unfolding scan_delivery_def Let_def
    by (simp split: bridge_transfer_status.split option.split sum.split) (auto intro!: meets_ok update_kept same simp: same_submissions_def)
qed

lemma unwrap_after_redeem_kept: "R t \<Longrightarrow> R (fst (unwrap_after_redeem E I t))"
  by (auto simp: unwrap_after_redeem_def same_submissions_def split: option.split sum.split intro: bookkeeping)

lemma apply_status_kept:
  assumes "R t" and "st \<noteq> WrapPending"
  shows "meets P (pred_option R) (apply_status M E I cooldown now t st w)"
proof -
  have goes: "meets P (pred_option R) (and_then (update_transfer M t1 st1) (\<lambda>t4. ok (Some t4)) w1)"
    if "R t1" "st1 \<noteq> WrapPending" for t1 st1 w1
    by (rule meets_and_then, rule update_kept [OF that]) (simp add: meets_ok)
  have "snd (unwrap_after_redeem E I t2) \<noteq> WrapPending" for t2
    by (simp add: unwrap_after_redeem_def split: option.split sum.split)
  then have rest: "meets P (pred_option R) ((case (if c then unwrap_after_redeem E I t2 else (t2, st)) of (t3, st1) \<Rightarrow>
      and_then (update_transfer M t3 st1) (\<lambda>t4. ok (Some t4))) w1)" if "R t2" for c t2 w1
    using unwrap_after_redeem_kept [OF that, of E I] that assms(2) by (simp add: case_prod_beta goes)
  have anchor: "R (if c then seed_scan_anchor E t else t)" for c
    using assms(1) by (auto simp: seed_scan_anchor_def same_submissions_def split: sum.split intro: bookkeeping)
  show ?thesis
    unfolding apply_status_def cleared_redeem_def Let_def
    by (intro meets_and_then [where m = "if c then call f m else ok ()" for c f m, OF meets_if_ok] rest meets_steps)
      (auto intro!: saved bookkeeping [OF assms(1)] bookkeeping [OF anchor] simp: same_submissions_def)
qed

lemma poll_status_kept:
  assumes "R t" and "never_rewraps (bi_check_status I)" and "bt_status t \<noteq> WrapPending"
  shows "meets P (pred_option R) (poll_status M E I cooldown now t w)"
proof (cases "bi_check_status I t")
  case (Inr st)
  let ?t1 = "count_missing now t st"
  have st: "st \<noteq> WrapPending" using assms(2,3) Inr by (auto simp: never_rewraps_def)
  have r1: "R ?t1" by (rule bookkeeping [OF assms(1)]) (simp add: count_missing_def same_submissions_def)
  have r2: "P (SavedTransfer (?t1\<lparr>bt_last_status_poll_at := Some now\<rparr>))"
    by (rule saved, rule bookkeeping [OF r1]) (simp add: same_submissions_def)
  show ?thesis
    using st r1 r2 apply_status_kept [OF r1 st] unfolding poll_status_def Inr sum.case Let_def
    by (intro meets_steps meets_and_then [OF update_kept]) simp_all
qed (simp add: poll_status_def meets_ok)

lemma submit_redeem_kept:
  assumes "R t" and "\<not> bt_redeem_submit_attempted t"
  shows "meets P (pred_option R) (submit_redeem M E tx t w)"
proof -
  have marked: "R t'" if "bt_status t' = bt_status t" "bt_tx_hash t' = bt_tx_hash t"
    "bt_bridge_submit_attempted t' = bt_bridge_submit_attempted t" for t'
    using that by (intro bookkeeping [OF redeem_marked [OF assms, of "bt_redeem_submit_attempted t'"]]) (simp add: same_submissions_def)
  show ?thesis
    unfolding submit_redeem_def Let_def
    by (intro meets_steps meets_and_then [OF meets_asking(3)] redeems [OF assms] saved marked)
      (auto intro!: marked split: sum.split delivery_error.split)
qed

lemma redeem_step_kept: "R t \<Longrightarrow> meets P (pred_option R) (redeem_step M E t w)"
  unfolding redeem_step_def
  by (auto simp: submit_redeem_kept meets_ok intro!: meets_and_then [OF update_kept] split: option.split sum.split)

lemma submit_unwrap_kept:
  assumes "R t"
  shows "meets P (pred_option R) (submit_unwrap M I t w)"
proof -
  have same: "R t'" if "same_submissions t t'" for t' using assms that by (rule bookkeeping)
  show ?thesis
    unfolding submit_unwrap_def Let_def
    by (intro meets_steps meets_and_then [OF meets_asking(2)] wraps saved same)
      (auto simp: same_submissions_def intro!: meets_ok meets_and_then [OF update_kept] same split: sum.split bridge_error.split)
qed

lemma poll_unwrap_kept:
  assumes "R t"
  shows "meets P (pred_option R) (poll_unwrap M E text t w)"
proof -
  have same: "R t'" if "same_submissions t t'" for t' using assms that by (rule bookkeeping)
  have upd: "meets P (pred_option R) (and_then (update_transfer M (t\<lparr>bt_unwrap_missing_checks := 0\<rparr>) st) (\<lambda>t1. ok (Some t1)) w)"
    if "st \<noteq> WrapPending" for st
    by (rule meets_and_then, rule update_kept) (use that in \<open>auto simp: meets_ok same_submissions_def intro: same\<close>)
  have miss: "meets P (pred_option R) ((let t1 = t\<lparr>bt_unwrap_missing_checks := Suc (bt_unwrap_missing_checks t)\<rparr>
      in if bt_unwrap_missing_checks t1 \<ge> UNWRAP_MISSING_CHECKS_MAX
         then and_then (retiring M (bt_unwrap_scope_id t) reason) (\<lambda>_.
           let t2 = t1\<lparr>bt_unwrap_tx_hash := None, bt_unwrap_scope_id := None, bt_unwrap_submit_attempted := False, bt_unwrap_missing_checks := 0\<rparr>
           in and_then (saving M t2) (\<lambda>_. ok (Some t2)))
         else and_then (saving M t1) (\<lambda>_. ok (Some t1))) w)" for reason
    unfolding Let_def by (intro meets_steps) (auto intro!: saved same simp: same_submissions_def)
  show ?thesis
    unfolding poll_unwrap_def using assms upd [of TransferCompleted] upd [of "NeedsIntervention ''unwrap tx reverted''"] miss
    by (auto simp: meets_ok split: sum.split bool.split)
qed

lemma unwrap_step_kept: "R t \<Longrightarrow> meets P (pred_option R) (unwrap_step M E I age t w)"
  unfolding unwrap_step_def
  by (auto simp: submit_unwrap_kept poll_unwrap_kept meets_ok intro!: meets_and_then [OF update_kept] split: option.split)

lemma after_poll_kept:
  assumes "R t"
  shows "meets P (\<lambda>_. True) (after_poll M E I now age t w)"
  unfolding after_poll_def
proof (rule meets_and_then, rule scan_delivery_kept)
  show "R (reseed_scan_anchor E t)"
    using assms by (auto simp: reseed_scan_anchor_def seed_scan_anchor_def same_submissions_def split: sum.split intro: bookkeeping)
  show "meets P (\<lambda>_. True) (or_stop (redeem_step M E t1) (\<lambda>t2. or_stop (unwrap_step M E I age t2)
      (\<lambda>t3. saving M (t3\<lparr>bt_last_status_poll_at := Some now\<rparr>))) w1)" if "R t1" for t1 w1
    by (rule meets_or_stop, rule redeem_step_kept [OF that], rule meets_or_stop, erule unwrap_step_kept, erule saving_kept)
      (simp add: same_submissions_def)
qed

lemma resubmit_wrap_kept:
  assumes "R t"
  shows "meets P (\<lambda>_. True) (resubmit_wrap M I t w)"
proof -
  have same: "R t'" if "same_submissions t t'" for t' using assms that by (rule bookkeeping)
  show ?thesis
    unfolding resubmit_wrap_def Let_def
    by (intro meets_steps meets_and_then [OF meets_asking(1)] wraps saved same)
      (auto simp: same_submissions_def intro!: meets_finishing [OF update_kept] meets_saving saved same split: sum.split bridge_error.split)
qed

lemma advance_loaded_kept:
  assumes "R t" and "never_rewraps (bi_check_status I)" and "\<not> may_deposit t"
  shows "meets P (\<lambda>_. True) (advance_loaded M E I cooldown now t w)"
proof -
  have upd: "meets P (\<lambda>_. True) (finishing (update_transfer M t (NeedsIntervention reason)) w)" for reason
    by (rule meets_finishing, rule update_kept [OF assms(1)]) simp
  have st: "bt_status t \<noteq> WrapPending" "bt_status t = Submitted \<Longrightarrow> bt_tx_hash t = None \<Longrightarrow> deposit_crash_window t"
    using assms(3) by (auto simp: may_deposit_def deposit_crash_window_def)
  have "meets P (\<lambda>_. True) (or_stop (poll_status M E I cooldown now t) (after_poll M E I now age) w)" for age
    by (rule meets_or_stop, rule poll_status_kept [OF assms(1,2) st(1)], erule after_poll_kept)
  then show ?thesis
    unfolding advance_loaded_def Let_def using upd st by (auto split: option.split bridge_transfer_status.split)
qed

lemma advance_kept:
  assumes "R t" and "\<And>t1 w1. R t1 \<Longrightarrow> meets P (\<lambda>_. True) (advance_loaded M E I cooldown now t1 w1)"
  shows "meets P (\<lambda>_. True) (advance_transfer M E I cooldown now t w)"
  unfolding advance_transfer_def
proof (rule meets_and_then, rule refresh_kept [OF assms(1)], clarify)
  fix t1 changed w1
  assume "R t1"
  then show "meets P (\<lambda>_. True) (and_then (if changed then saving M t1 else ok ()) (\<lambda>_. advance_loaded M E I cooldown now t1) w1)"
    by (intro meets_and_then [where Q = "\<lambda>_. True"] meets_if meets_saving meets_ok assms(2) saved) simp_all
qed

end

text \<open>Invariants that deposits do not touch either: these hold over whole ticks.\<close>

locale kept_deposits = kept_rows +
  assumes deposits: "P (AskedDeposit i r)"
    and deposit_marked: "R t \<Longrightarrow> R (t\<lparr>bt_bridge_submit_attempted := b\<rparr>)"
begin

lemma resumed_kept:
  assumes "R t"
  shows "meets P (\<lambda>_. True) (resumed_answered M now t r w)"
proof -
  have tail: "R t'" if "bt_status t' = bt_status t" "bt_redeem_submit_attempted t' = bt_redeem_submit_attempted t" 
    "bt_tx_hash t' = bt_tx_hash t \<or> bt_tx_hash t' \<noteq> None" for t'
  proof -
    let ?m = "t\<lparr>bt_bridge_submit_attempted := bt_bridge_submit_attempted t'\<rparr>"
    have "R ?m" by (rule deposit_marked [OF assms])
    then have "R (if bt_tx_hash t' = bt_tx_hash t then ?m else ?m\<lparr>bt_tx_hash := bt_tx_hash t'\<rparr>)"
      using deposit_found [of ?m] that(3) by (cases "bt_tx_hash t'") auto
    then show ?thesis by (rule bookkeeping) (use that in \<open>auto simp: same_submissions_def\<close>)
  qed
  show ?thesis
    unfolding resumed_answered_def Let_def
    by (auto split: sum.split bridge_error.split intro!: meets_saving saved tail meets_finishing [OF update_kept] meets_and_then [OF meets_retiring])
qed

lemma meets_deposit: "meets P (\<lambda>_. True) (asking_deposit I ident req meta w)"
  by (simp add: meets_def asking_deposit_def deposits split: prod.splits)

lemma run_kept:
  assumes "R t"
  shows "meets P (\<lambda>_. True) (run_bridge_asset_after_approve M E I now t w)"
proof (cases "reconstruct_bridge_request E t")
  case (Inl reason)
  then show ?thesis
    unfolding run_bridge_asset_after_approve_def by (simp add: meets_finishing [OF update_kept [OF assms]])
next
  case (Inr req)
  have "R (marked_for_deposit M w t)"
    by (rule bookkeeping [OF deposit_marked [OF assms, of True]]) (simp add: marked_for_deposit_def same_submissions_def)
  then show ?thesis
    unfolding run_bridge_asset_after_approve_def Inr sum.case Let_def
    by (intro meets_steps meets_and_then [OF meets_deposit] saved resumed_kept)
qed

lemma advance_wrap_kept:
  assumes "R t"
  shows "meets P (\<lambda>_. True) (advance_wrap M E I now age t w)"
proof -
  have same: "R t'" if "same_submissions t t'" for t' using assms that by (rule bookkeeping)
  have run: "meets P (\<lambda>_. True) (and_then (update_transfer M (t\<lparr>bt_wrap_missing_checks := 0\<rparr>) Submitted) (run_bridge_asset_after_approve M E I now) w)"
    by (rule meets_and_then, rule update_kept) (auto intro: run_kept same simp: same_submissions_def)
  have miss: "meets P (\<lambda>_. True) ((let t1 = t\<lparr>bt_wrap_missing_checks := Suc (bt_wrap_missing_checks t)\<rparr>
      in if bt_wrap_missing_checks t1 \<ge> WRAP_MISSING_CHECKS_MAX
         then and_then (retiring M (bt_wrap_scope_id t) reason) (\<lambda>_.
           saving M (t1\<lparr>bt_wrap_tx_hash := None, bt_wrap_scope_id := None, bt_wrap_submit_attempted := False, bt_wrap_missing_checks := 0\<rparr>))
         else saving M t1) w)" for reason
    unfolding Let_def by (intro meets_steps meets_saving) (auto intro!: saved same simp: same_submissions_def)
  have "meets P (\<lambda>_. True) (finishing (update_transfer M (t\<lparr>bt_wrap_missing_checks := 0\<rparr>) (TransferFailed reason)) w)" for reason
    by (rule meets_finishing, rule update_kept) (auto intro: same simp: same_submissions_def)
  then have "meets P (\<lambda>_. True) (poll_wrap M E I now t w)"
    unfolding poll_wrap_def Let_def using run miss [unfolded Let_def] by (auto simp: meets_ok split: option.split sum.split bool.split)
  then show ?thesis
    unfolding advance_wrap_def using assms by (auto simp: resubmit_wrap_kept meets_finishing [OF update_kept])
qed

lemma advance_approve_kept:
  assumes "R t"
  shows "meets P (\<lambda>_. True) (advance_approve M E I now text t w)"
proof -
  have same: "R t'" if "same_submissions t t'" for t' using assms that by (rule bookkeeping)
  have miss: "meets P (\<lambda>_. True) ((let t1 = t\<lparr>bt_approve_missing_checks := Suc (bt_approve_missing_checks t), bt_approve_missing_since := since\<rparr>
      in if bt_approve_missing_checks t1 \<ge> 3
         then and_then (retiring M (bt_approve_scope_id t) reason) (\<lambda>_. run_bridge_asset_after_approve M E I now
           (t1\<lparr>bt_approve_tx_hash := None, bt_approve_scope_id := None, bt_approve_missing_checks := 0, bt_approve_missing_since := None\<rparr>))
         else saving M t1) w)" for reason since
    unfolding Let_def by (intro meets_steps meets_saving run_kept) (auto intro!: saved same simp: same_submissions_def)
  have "meets P (\<lambda>_. True) (run_bridge_asset_after_approve M E I now (t\<lparr>bt_approve_missing_checks := 0, bt_approve_missing_since := None\<rparr>) w)"
    by (rule run_kept, rule same) (simp add: same_submissions_def)
  then show ?thesis
    unfolding advance_approve_def using miss assms
    by (auto simp: meets_ok meets_finishing [OF update_kept] split: sum.split bool.split)
qed

lemma advance_whole_kept:
  assumes "R t" and "never_rewraps (bi_check_status I)"
  shows "meets P (\<lambda>_. True) (advance_loaded M E I cooldown now t w)"
proof (cases "may_deposit t")
  case True
  have upd: "meets P (\<lambda>_. True) (finishing (update_transfer M t (NeedsIntervention reason)) w)" for reason
    by (rule meets_finishing, rule update_kept [OF assms(1)]) simp
  have "meets P (\<lambda>_. True) (or_stop (poll_status M E I cooldown now t) (after_poll M E I now age) w)" if "bt_status t \<noteq> WrapPending" for age
    by (rule meets_or_stop, rule poll_status_kept [OF assms that], erule after_poll_kept)
  then show ?thesis
    unfolding advance_loaded_def Let_def using upd advance_wrap_kept [OF assms(1)] advance_approve_kept [OF assms(1)]
    by (auto split: option.split bridge_transfer_status.split)
qed (rule advance_loaded_kept [OF assms])

end

section \<open>Interpretations\<close>

text \<open>Sealed records stay sealed and ask for no deposit; no part of a tick but the resume asks for one.\<close>

interpretation sealed_rows: kept_rows sealed sealing
  by unfold_locales (auto simp: sealed_def same_submissions_def transition_to_def Let_def)

interpretation other_parts: kept_rows "\<lambda>_. True" not_deposit
  by unfold_locales auto

fun no_redeem :: "bridge_effect \<Rightarrow> bool" where
  "no_redeem (SavedTransfer t) = bt_redeem_submit_attempted t"
| "no_redeem (AskedRedeem _) = False"
| "no_redeem _ = True"

interpretation redeemed_rows: kept_deposits bt_redeem_submit_attempted no_redeem
  by unfold_locales (auto simp: same_submissions_def transition_to_def Let_def)

section \<open>Ticks and the first submission\<close>

lemma no_deposit_update: "meets not_deposit (\<lambda>t1. \<exists>now. t1 = transition_to now st t) (update_transfer M t st w)"
  by (rule meets_update) simp

lemma resumed_no_deposit: "meets not_deposit (\<lambda>_. True) (resumed_answered M now t r w)"
  unfolding resumed_answered_def Let_def
  by (auto split: sum.split bridge_error.split intro!: meets_saving meets_finishing [OF no_deposit_update] meets_and_then [OF meets_retiring])

lemma resumed_sealed:
  assumes "sealed t" and "may_be_broadcast r"
  shows "meets sealing (\<lambda>_. True) (resumed_answered M now t r w)"
  using assms unfolding resumed_answered_def Let_def
  by (cases r rule: may_be_broadcast.cases) (auto intro!: meets_saving simp: sealed_def)

lemma run_one_deposit:
  assumes "bt_status t \<noteq> WrapPending"
  shows "one_deposit (run_bridge_asset_after_approve M E I now t w)"
proof (cases "reconstruct_bridge_request E t")
  case (Inl reason)
  then show ?thesis
    unfolding run_bridge_asset_after_approve_def by (simp add: one_deposit_meets [OF meets_finishing [OF no_deposit_update]])
next
  case (Inr req)
  have "sealed (marked_for_deposit M w t)" using assms by (simp add: sealed_def marked_for_deposit_def)
  then show ?thesis
    unfolding run_bridge_asset_after_approve_def Inr sum.case Let_def
    by (intro one_deposit_marked [where Q = "\<lambda>_. True"] resumed_sealed resumed_no_deposit)
qed

lemma advance_wrap_one_deposit: "one_deposit (advance_wrap M E I now age t w)"
proof -
  have run: "one_deposit (and_then (update_transfer M t1 Submitted) (run_bridge_asset_after_approve M E I now) w)" for t1
    by (rule one_deposit_after, rule no_deposit_update) (auto intro!: run_one_deposit simp: transition_to_def Let_def)
  have "one_deposit (poll_wrap M E I now t w)"
    unfolding poll_wrap_def Let_def using run
    by (auto split: option.split sum.split bool.split intro!: one_deposit_meets [OF meets_ok] one_deposit_meets [OF meets_saving]
      one_deposit_meets [OF meets_finishing [OF no_deposit_update]] one_deposit_meets [OF meets_and_then [OF meets_retiring meets_saving]])
  then show ?thesis
    unfolding advance_wrap_def
    by (auto intro: one_deposit_meets [OF meets_finishing [OF no_deposit_update]] one_deposit_meets [OF other_parts.resubmit_wrap_kept])
qed

lemma advance_approve_one_deposit:
  assumes "bt_status t = Submitted"
  shows "one_deposit (advance_approve M E I now text t w)"
proof -
  have "one_deposit (and_then (retiring M s reason) (\<lambda>_. run_bridge_asset_after_approve M E I now t1) w)"
    if "bt_status t1 = Submitted" for s reason t1
    by (rule one_deposit_after, rule meets_retiring) (simp add: that run_one_deposit)
  then show ?thesis
    unfolding advance_approve_def Let_def using assms
    by (auto split: sum.split bool.split intro!: run_one_deposit one_deposit_meets [OF meets_ok] one_deposit_meets [OF meets_saving]
      one_deposit_meets [OF meets_finishing [OF no_deposit_update]])
qed

lemma advance_loaded_one_deposit:
  assumes "never_rewraps (bi_check_status I)"
  shows "one_deposit (advance_loaded M E I cooldown now t w)"
proof (cases "may_deposit t")
  case True
  have "one_deposit (or_stop (poll_status M E I cooldown now t) (after_poll M E I now age) w)" if "bt_status t \<noteq> WrapPending" for age
    by (rule one_deposit_meets, rule meets_or_stop, rule other_parts.poll_status_kept) (simp_all add: assms that other_parts.after_poll_kept)
  moreover have upd: "one_deposit (finishing (update_transfer M t (NeedsIntervention reason)) w)" for reason
    by (rule one_deposit_meets [OF meets_finishing [OF no_deposit_update]])
  ultimately show ?thesis
    unfolding advance_loaded_def Let_def using advance_wrap_one_deposit advance_approve_one_deposit upd
    by (auto split: option.split bridge_transfer_status.split)
qed (rule one_deposit_meets, rule other_parts.advance_loaded_kept, simp_all add: assms)

lemma advance_one_deposit:
  assumes "never_rewraps (bi_check_status I)"
  shows "one_deposit (advance_transfer M E I cooldown now t w)"
  unfolding advance_transfer_def
proof (rule one_deposit_after, rule other_parts.refresh_kept, simp, clarify)
  fix t1 changed w1
  show "one_deposit (and_then (if changed then saving M t1 else ok ()) (\<lambda>_. advance_loaded M E I cooldown now t1) w1)"
    by (intro one_deposit_after [where Q = "\<lambda>_. True"] meets_if meets_saving meets_ok advance_loaded_one_deposit assms) simp_all
qed

text \<open>The first submission seals the record before the bridge is called, or only wraps.\<close>

lemma deposit_answered_sealed:
  assumes "sealed t" and "may_be_broadcast r"
  shows "meets sealing (\<lambda>_. True) (deposit_answered M t r w)"
proof (cases r rule: may_be_broadcast.cases)
  fix result assume r: "r = Inr result"
  let ?t1 = "t\<lparr>bt_tx_hash := Some (bd_tx_hash result), bt_message_guid := bd_message_guid result, bt_updated_at := bm_now M w\<rparr>"
  have t1: "sealed ?t1" using assms(1) by (simp add: sealed_def)
  have "meets sealing (\<lambda>_. True) (case save_transfer M ?t1 w of (Inr _, w1) \<Rightarrow> ([SavedTransfer ?t1], Inr ?t1, w1)
    | (Inl e, w1) \<Rightarrow> and_then (saving_quietly M (transition_to (bm_now M w1)
        (NeedsIntervention (''post-submit persistence failed: '' @ storage_error_text e)) ?t1)) (\<lambda>_. err (BeStorage (storage_error_text e))) w1)"
  proof (cases "save_transfer M ?t1 w")
    case (Pair r1 w1)
    show ?thesis
    proof (cases r1)
      case (Inl e)
      show ?thesis unfolding Pair Inl prod.case sum.case
        by (intro meets_and_then [OF meets_saving_quietly] meets_err) (simp add: sealed_rows.moved t1)
    next
      case (Inr u)
      show ?thesis unfolding Pair Inr prod.case sum.case using t1 by (simp add: meets_def)
    qed
  qed
  then show ?thesis unfolding deposit_answered_def r Let_def sum.case .
qed (use assms in \<open>auto simp: deposit_answered_def Let_def intro!: meets_and_then [OF meets_saving_quietly] meets_err sealed_rows.moved\<close>)

lemma deposit_answered_no_deposit:
  assumes "\<not> may_be_broadcast r"
  shows "meets not_deposit (\<lambda>_. True) (deposit_answered M t r w)"
  using assms by (cases r rule: may_be_broadcast.cases)
    (auto simp: deposit_answered_def Let_def intro!: meets_and_then [OF meets_saving] meets_and_then [OF meets_saving_quietly]
      meets_and_then [OF meets_saving_or] meets_and_then [OF meets_retiring] meets_err meets_ok)

lemma submit_wrap_no_deposit: "meets not_deposit (\<lambda>_. True) (submit_wrap M I t w)"
  unfolding submit_wrap_def Let_def
  by (intro meets_and_then [OF meets_saving] meets_and_then [OF meets_asking(1)])
    (auto split: sum.split bridge_error.split intro!: meets_and_then [OF meets_saving] meets_and_then [OF meets_saving_quietly] meets_err meets_ok)

lemma rebalance_one_deposit: "one_deposit (rebalance_token M impls name req trigger meta w)"
proof (cases "map_of impls name")
  case (Some I)
  let ?t = "prepared_transfer M req trigger meta w"
  have "sealed (?t\<lparr>bt_bridge_submit_attempted := True\<rparr>)"
    by (simp add: sealed_def prepared_transfer_def new_transfer_def Let_def)
  then have "one_deposit (and_then (saving M (?t\<lparr>bt_bridge_submit_attempted := True\<rparr>))
      (\<lambda>_. and_then (asking_deposit I ident req meta1) (deposit_answered M (?t\<lparr>bt_bridge_submit_attempted := True\<rparr>))) w)" for ident meta1
    by (intro one_deposit_marked [where Q = "\<lambda>_. True"] deposit_answered_sealed deposit_answered_no_deposit)
  then show ?thesis
    unfolding rebalance_token_def Some option.case Let_def
    by (simp add: one_deposit_meets [OF submit_wrap_no_deposit])
qed (simp add: rebalance_token_def one_deposit_meets [OF meets_err])

section \<open>At most one deposit\<close>

text \<open>The stored record and the number of deposits that may be broadcast, after the effects of a trace.\<close>

fun replay_effect :: "pending_bridge_transfer option \<times> nat \<Rightarrow> bridge_effect \<Rightarrow> pending_bridge_transfer option \<times> nat" where
  "replay_effect (r, n) (SavedTransfer t) = (Some t, n)"
| "replay_effect (r, n) (AskedDeposit _ res) = (r, if may_be_broadcast res then Suc n else n)"
| "replay_effect (r, n) _ = (r, n)"

abbreviation replay :: "pending_bridge_transfer option \<times> nat \<Rightarrow> bridge_effect list \<Rightarrow> pending_bridge_transfer option \<times> nat" where
  "replay \<equiv> foldl replay_effect"

text \<open>
  The life of a transfer: its first submission, ticks on the record that was last written, and resolutions
  by an operator other than a retry.  Each may stop after any prefix of its trace.
\<close>

inductive transfer_run :: "('s, 'b) bridge_machine \<Rightarrow> pending_bridge_transfer option \<times> nat \<Rightarrow> bool" for M where
  started: "rebalance_token M impls name req trigger meta w = (tr, res, w') \<Longrightarrow> prefix p tr \<Longrightarrow> transfer_run M (replay (None, 0) p)"
| ticked: "transfer_run M (Some t, n) \<Longrightarrow> never_rewraps (bi_check_status I) \<Longrightarrow>
    advance_transfer M E I cooldown now t w = (tr, res, w') \<Longrightarrow> prefix p tr \<Longrightarrow> transfer_run M (replay (Some t, n) p)"
| resolved: "transfer_run M (Some t, n) \<Longrightarrow> resolution \<noteq> ''retry'' \<Longrightarrow> fst (get_transfer M (bt_id t) w) = Inr t \<Longrightarrow>
    resolve_transfer M (bt_id t) resolution reason w = (tr, res, w') \<Longrightarrow> prefix p tr \<Longrightarrow> transfer_run M (replay (Some t, n) p)"

definition deposit_once :: "pending_bridge_transfer option \<times> nat \<Rightarrow> bool" where
  "deposit_once s \<longleftrightarrow> snd s = 0 \<or> (snd s = 1 \<and> (\<exists>t. fst s = Some t \<and> sealed t))"

lemma replay_deposit_once:
  assumes "at_most_one_deposit r used tr" and "prefix p tr" and "if used then n = 1 \<and> (\<exists>t. r = Some t \<and> sealed t) else n = 0"
  shows "deposit_once (replay (r, n) p)"
  using assms
proof (induction tr arbitrary: r used n p)
  case Nil
  then show ?case by (auto simp: deposit_once_def split: if_splits)
next
  case (Cons e es)
  show ?case
  proof (cases p)
    case Nil
    then show ?thesis using Cons.prems(3) by (auto simp: deposit_once_def split: if_splits)
  next
    case (Cons e' p')
    then have p: "p = e # p'" "prefix p' es" using Cons.prems(2) by auto
    show ?thesis
    proof (cases e)
      case (SavedTransfer t)
      have "deposit_once (replay (Some t, n) p')"
        by (rule Cons.IH [of "Some t" used]) (use Cons.prems(1,3) p(2) in \<open>auto simp: SavedTransfer split: if_splits\<close>)
      then show ?thesis by (simp add: p SavedTransfer)
    next
      case (AskedDeposit i res)
      have "deposit_once (replay (r, if may_be_broadcast res then Suc n else n) p')"
        by (rule Cons.IH [of r "may_be_broadcast res"]) (use Cons.prems(1,3) p(2) in \<open>auto simp: AskedDeposit split: if_splits\<close>)
      then show ?thesis by (simp add: p AskedDeposit)
    qed (use Cons.IH [of r used p' n] Cons.prems(1,3) p in \<open>simp_all\<close>)
  qed
qed

lemma sealed_no_deposit: "sealed t \<Longrightarrow> \<not> may_deposit t"
  by (auto simp: sealed_def may_deposit_def)

lemma tick_deposit_once:
  assumes "deposit_once (Some t, n)" and "one_deposit x" and "sealed t \<Longrightarrow> meets sealing Q x" and "x = (tr, res, w')" and "prefix p tr"
  shows "deposit_once (replay (Some t, n) p)"
proof (cases "n = 0")
  case True
  then show ?thesis using assms(2,4,5) by (intro replay_deposit_once [of "Some t" False tr]) (simp_all add: one_deposit_def)
next
  case False
  then have "n = 1" "sealed t" using assms(1) by (auto simp: deposit_once_def)
  then show ?thesis using assms(3-5) by (intro replay_deposit_once [of "Some t" True tr]) (simp_all add: meets_def sealing_trace)
qed

lemma resolve_trace:
  assumes "resolution \<noteq> ''retry''" and "fst (get_transfer M ident w) = Inr t"
  shows "meets (\<lambda>e. \<exists>t1. e = SavedTransfer t1 \<and> (sealed t \<longrightarrow> sealed t1)) (\<lambda>_. True) (resolve_transfer M ident resolution reason w)"
proof -
  obtain w1 where got: "call (\<lambda>e. e) (get_transfer M ident) w = ([] :: bridge_effect list, Inr t, w1)"
    using assms(2) by (cases "get_transfer M ident w") (simp add: call_def)
  have kept: "sealed t \<Longrightarrow> st \<noteq> WrapPending \<Longrightarrow> sealed ((transition_to now st t)\<lparr>bt_resolution_reason := Some reason\<rparr>)" for now st
    using sealed_rows.moved [of t st now] by (simp add: sealed_def)
  show ?thesis
    unfolding resolve_transfer_def
  proof (rule meets_and_then [where Q = "\<lambda>u. u = t"])
    show "meets P (\<lambda>u. u = t) (call (\<lambda>e. e) (get_transfer M ident) w)" for P :: "bridge_effect \<Rightarrow> bool" by (simp add: got meets_def)
  qed (use assms(1) kept in \<open>auto simp: Let_def intro!: meets_err meets_and_then [where Q = "\<lambda>u. \<exists>now st. st \<noteq> WrapPending \<and> u = transition_to now st t"]
      meets_and_then [OF meets_saving] meets_ok\<close>)
qed

text \<open>
  C15: A transfer hands at most one deposit to the bridge that may have been broadcast. This holds whatever the
  bridge and the chains answer, however often the monitor ticks, wherever the process stops between two
  effects and is restarted, and for every resolution by an operator other than the retry, which asserts that
  no deposit is on its way. The driver is only assumed not to report a wrap for a record that is not being
  wrapped. Answers that name a failure before the deposit (approve pending, reverted or not submitted, too
  little native gas, a stale nonce) are not counted.
\<close>

theorem deposit_broadcast_at_most_once:
  assumes "transfer_run M (r, n)"
  shows "n \<le> 1 \<and> (n = 1 \<longrightarrow> (\<exists>t. r = Some t \<and> sealed t))"
proof -
  have "deposit_once s" if "transfer_run M s" for s
    using that
  proof induction
    case (started impls name req trigger meta w tr res w' p)
    then show ?case
      using rebalance_one_deposit [of M impls name req trigger meta w]
      by (intro replay_deposit_once [of None False tr]) (simp_all add: one_deposit_def)
  next
    case (ticked t n I E cooldown now w tr res w' p)
    have sealed_tick: "meets sealing (\<lambda>_. True) (advance_transfer M E I cooldown now t w)" if "sealed t"
      by (rule sealed_rows.advance_kept [OF that], rule sealed_rows.advance_loaded_kept) (simp_all add: ticked.hyps sealed_no_deposit)
    show ?case
      by (rule tick_deposit_once [OF ticked.IH advance_one_deposit [OF ticked.hyps(2)] sealed_tick ticked.hyps(3,4)])
  next
    case (resolved t n resolution w reason tr res w' p)
    note tr = resolve_trace [OF resolved.hyps(2,3), of reason]
    have "one_deposit (resolve_transfer M (bt_id t) resolution reason w)"
      by (rule one_deposit_meets) (use tr in \<open>auto simp: meets_def list_all_iff\<close>)
    moreover have "meets sealing (\<lambda>_. True) (resolve_transfer M (bt_id t) resolution reason w)" if "sealed t"
      using tr that by (auto simp: meets_def list_all_iff)
    ultimately show ?case
      by (rule tick_deposit_once [OF resolved.IH _ _ resolved.hyps(4,5)])
  qed
  from this [OF assms] show ?thesis by (auto simp: deposit_once_def)
qed

text \<open>A solver whose storage holds transfers only, and a bridge that times out on a deposit.\<close>

definition demo_machine :: "(pending_bridge_transfer memory_storage, pending_bridge_transfer) bridge_machine" where
  "demo_machine = \<lparr>bm_machine = \<lparr>mc_backend = memory_backend, mc_orders = \<lparr>encode = (\<lambda>_. Inl []), decode = (\<lambda>_. Inl [])\<rparr>,
       mc_reservations = \<lparr>encode = (\<lambda>_. Inl []), decode = (\<lambda>_. Inl [])\<rparr>,
       mc_attempts = \<lparr>encode = (\<lambda>_. Inl []), decode = (\<lambda>_. Inl [])\<rparr>, mc_strings = \<lparr>encode = (\<lambda>_. Inl []), decode = (\<lambda>_. Inl [])\<rparr>,
       mc_hex = (\<lambda>_. []), mc_parse = (\<lambda>_. Inl []), mc_show_status = (\<lambda>_. []), mc_sched = quiet (\<lambda>_. 5)\<rparr>,
     bm_transfers = \<lparr>encode = Inr, decode = Inr\<rparr>, bm_json = \<lparr>encode = (\<lambda>_. Inl []), decode = (\<lambda>_. Inl [])\<rparr>,
     bm_solver_id = ''solver'', bm_uuid = (\<lambda>n k. to_dec n @ ''-'' @ to_dec k), bm_show_status = bridge_status_text\<rparr>"

definition demo_env :: "pending_bridge_transfer memory_storage monitor_env" where
  "demo_env = \<lparr>me_receipt = (\<lambda>_ _. Inr \<lparr>rcpt_hash = [], rcpt_block_number = 1, rcpt_success = False, rcpt_logs = [], rcpt_block_timestamp = None\<rparr>),
     me_tx_exists = (\<lambda>_ _. Inr True), me_block_number = (\<lambda>_. Inr 1), me_logs = (\<lambda>_ _. Inr []),
     me_deliver_system = (\<lambda>_ _ _ w. (Inr [1], w)), me_hex_decode = (\<lambda>_. Inr (replicate 20 7)), me_u256 = (\<lambda>_. Inr 100),
     me_transfer_topic = [], me_encode_redeem = (\<lambda>_ _ _. []), me_solver_address = ''0x07'', me_balance = (\<lambda>_ _ _. Inr ''0'')\<rparr>"

definition demo_bridge :: "pending_bridge_transfer memory_storage bridge_interface" where
  "demo_bridge = \<lparr>bi_bridge_asset = (\<lambda>_ _ w. (Inl (BeTransactionFailed ''timeout''), w)), bi_check_status = layerzero_check_status demo_env,
     bi_estimate_fee = (\<lambda>_ _. Inr 0), bi_wrap_native = (\<lambda>_ w. (Inr [1], w)), bi_unwrap_native = (\<lambda>_ w. (Inr [1], w)),
     bi_parse_redeem_assets = (\<lambda>_. Inr 0)\<rparr>"

definition demo_request :: bridge_request where
  "demo_request = \<lparr>br_pair_id = ''usdc'', br_source_chain = 1, br_dest_chain = 2, br_source_token = [], br_source_oft = [],
     br_dest_token = [], br_dest_oft = [], br_amount = 100, br_min_amount = None, br_recipient = []\<rparr>"

definition demo_metadata :: transfer_metadata where
  "demo_metadata = \<lparr>tm_transfer_id = None, tm_approve_scope_id = None, tm_tx_scope_id = None, tm_source_token_address = ''0x01'',
     tm_dest_token_address = ''0x02'', tm_dest_oft_address = ''0x03'', tm_is_composer_flow = False, tm_vault_address = Some ''0x04'',
     tm_bridge_route = None\<rparr>"

definition demo_world :: "pending_bridge_transfer memory_storage world" where
  "demo_world = \<lparr>w_store = memory_new, w_tick = 0\<rparr>"

text \<open>LayerZero's driver never reports a wrap for other records.\<close>

lemma layerzero_never_rewraps: "never_rewraps (layerzero_check_status E)"
  unfolding never_rewraps_def layerzero_check_status_def
  by (auto split: bridge_transfer_status.splits option.splits sum.splits bool.splits if_splits)

lemma demo_saves: "\<exists>w1. saving demo_machine t w = ([SavedTransfer t], Inr (), w1)"
  by (auto simp: saving_def save_transfer_def demo_machine_def svc_defs memory_backend_def memory_set_bytes_def Let_def split: prod.splits)

theorem deposit_broadcast_at_most_once_witness:
  "\<exists>t. transfer_run demo_machine (Some t, 1) \<and> sealed t \<and> bt_status t = Submitted \<and> bt_tx_hash t = None"
proof -
  define t where "t = (prepared_transfer demo_machine demo_request Auto demo_metadata demo_world)\<lparr>bt_bridge_submit_attempted := True\<rparr>"
  obtain w1 where save: "saving demo_machine t demo_world = ([SavedTransfer t], Inr (), w1)" using demo_saves by blast
  let ?call = "AskedDeposit (bt_id t) (Inl (BeTransactionFailed ''timeout''))"
  have route: "tm_bridge_route (prepared_metadata u demo_metadata) = None" for u
    by (simp add: prepared_metadata_def demo_metadata_def)
  have "rebalance_token demo_machine [(''layerzero'', demo_bridge)] ''layerzero'' demo_request Auto demo_metadata demo_world =
      and_then (saving demo_machine t) (\<lambda>_. and_then (asking_deposit demo_bridge (bt_id t) demo_request
        (prepared_metadata (prepared_transfer demo_machine demo_request Auto demo_metadata demo_world) demo_metadata))
        (deposit_answered demo_machine t)) demo_world"
    unfolding rebalance_token_def by (simp add: Let_def route t_def)
  moreover have "\<exists>rest r w2. and_then (saving demo_machine t) (\<lambda>_. and_then (asking_deposit demo_bridge (bt_id t) demo_request meta)
      (deposit_answered demo_machine t)) demo_world = ([SavedTransfer t, ?call] @ rest, r, w2)" for meta
    by (simp add: and_then_def save asking_deposit_def demo_bridge_def split: prod.splits)
  ultimately obtain rest r w2 where run: "rebalance_token demo_machine [(''layerzero'', demo_bridge)] ''layerzero'' demo_request Auto
      demo_metadata demo_world = ([SavedTransfer t, ?call] @ rest, r, w2)" by metis
  have st: "bt_status t = Submitted" "bt_tx_hash t = None"
    by (simp_all add: t_def prepared_transfer_def new_transfer_def Let_def)
  have "transfer_run demo_machine (Some t, 1)"
    using transfer_run.started [OF run, of "[SavedTransfer t, ?call]"] by simp
  moreover from deposit_broadcast_at_most_once [OF this] have "sealed t" by simp
  ultimately show ?thesis using st by blast
qed

section \<open>Redemptions\<close>

text \<open>
  C32: Once the marker of a redemption is set, no tick ever submits another one, and no tick clears the marker:
  every record it writes still has it. Only the operator's retry and a submission refused for its nonce clear
  it. This rules out a double redemption, and it also makes the retries unreachable that the monitor announces
  after a reverted or a dropped redemption.
\<close>

theorem redeem_never_resubmitted:
  assumes "bt_redeem_submit_attempted t" and "never_rewraps (bi_check_status I)"
    and "advance_transfer M E I cooldown now t w = (tr, r, w')"
  shows "AskedRedeem i \<notin> set tr \<and> (\<forall>t'. SavedTransfer t' \<in> set tr \<longrightarrow> bt_redeem_submit_attempted t')"
proof -
  have "meets no_redeem (\<lambda>_. True) (advance_transfer M E I cooldown now t w)"
    by (rule redeemed_rows.advance_kept [OF assms(1)], rule redeemed_rows.advance_whole_kept) (simp_all add: assms(2))
  then show ?thesis by (auto simp: meets_def assms(3) list_all_iff)
qed

text \<open>A redemption that reverted: the announced retry ends in the state for operators within the same tick.\<close>

definition reverted_redemption :: pending_bridge_transfer where
  "reverted_redemption = (prepared_transfer demo_machine demo_request Auto demo_metadata demo_world)
     \<lparr>bt_status := PendingRedemption, bt_tx_hash := Some ''0x01'', bt_redeem_tx_hash := Some ''0x02'', bt_redeem_submit_attempted := True,
      bt_received_shares := Some ''100'', bt_approve_scope_id := None, bt_tx_scope_id := None\<rparr>"

theorem redeem_never_resubmitted_witness:
  "\<exists>t' r w'. advance_transfer demo_machine demo_env demo_bridge 60 6 reverted_redemption demo_world = ([SavedTransfer t'], r, w') \<and>
     bt_failure_count t' = 1 \<and> needs_intervention (bt_status t') \<and> bt_redeem_submit_attempted t'"
proof -
  define t' where "t' = transition_to 5 (NeedsIntervention REDEEM_UNCERTAIN) (cleared_redeem (reverted_redemption\<lparr>bt_failure_count := Suc 0\<rparr>))"
  have sel: "bt_status reverted_redemption = PendingRedemption" "bt_tx_hash reverted_redemption = Some ''0x01''"
    "bt_redeem_tx_hash reverted_redemption = Some ''0x02''" "bt_redeem_submit_attempted reverted_redemption"
    "bt_redeem_scope_id reverted_redemption = None" "bt_failure_count reverted_redemption = 0" "bt_updated_at reverted_redemption = 5"
    "bt_approve_scope_id reverted_redemption = None" "bt_tx_scope_id reverted_redemption = None" "bt_wrap_scope_id reverted_redemption = None"
    "bt_unwrap_scope_id reverted_redemption = None" "bt_trigger reverted_redemption = Auto"
    by (simp_all add: reverted_redemption_def prepared_transfer_def new_transfer_def Let_def bm_now_def demo_machine_def demo_world_def current_timestamp_def)
  have refreshed: "refresh_transfer_phase_hashes_from_attempts demo_machine reverted_redemption demo_world = ([], Inr (reverted_redemption, False), demo_world)"
    by (simp add: refresh_transfer_phase_hashes_from_attempts_def refresh_phase_hash_from_attempt_def sel handler_defs)
  obtain w1 where save: "saving demo_machine t' demo_world = ([SavedTransfer t'], Inr (), w1)" using demo_saves by blast
  have polled: "bi_check_status demo_bridge reverted_redemption = Inr (TransferFailed ''Redeem transaction reverted'')"
    by (simp add: demo_bridge_def layerzero_check_status_def sel demo_env_def)
  have "\<exists>r w'. advance_transfer demo_machine demo_env demo_bridge 60 6 reverted_redemption demo_world = ([SavedTransfer t'], r, w')"
  proof -
    let ?t = "cleared_redeem (reverted_redemption\<lparr>bt_failure_count := Suc 0\<rparr>)"
    have now: "bm_now demo_machine demo_world = 5" by (simp add: bm_now_def demo_machine_def current_timestamp_def)
    have selt: "bt_status ?t = PendingRedemption" "bt_redeem_tx_hash ?t = None" "bt_redeem_submit_attempted ?t"
      by (simp_all add: cleared_redeem_def sel)
    have texts: "\<not> source_missing (TransferFailed ''Redeem transaction reverted'')" "\<not> redeem_missing (TransferFailed ''Redeem transaction reverted'')"
      by code_simp+
    have poll: "poll_status demo_machine demo_env demo_bridge 60 6 reverted_redemption demo_world = ([], Inr (Some ?t), demo_world)"
      by (simp add: poll_status_def polled texts count_missing_def sel apply_status_def retiring_def handler_defs Let_def)
    have "redeem_step demo_machine demo_env ?t demo_world = ([SavedTransfer t'], Inr None, w1)"
      by (simp add: redeem_step_def selt update_transfer_def Let_def now t'_def [symmetric] and_then_def save ok_def)
    then have "after_poll demo_machine demo_env demo_bridge 6 1 ?t demo_world = ([SavedTransfer t'], Inr (), w1)"
      by (simp add: after_poll_def reseed_scan_anchor_def scan_delivery_def selt or_stop_def and_then_def ok_def)
    then show ?thesis
      by (simp add: advance_transfer_def refreshed advance_loaded_def Let_def sel deposit_crash_window_def approve_timed_out_def
          impossible_state_def timeout_reason_def PENDING_REDEMPTION_TIMEOUT_SECS_def MAX_REDEEM_RETRIES_def or_stop_def poll and_then_def ok_def)
  qed
  then obtain r w' where run: "advance_transfer demo_machine demo_env demo_bridge 60 6 reverted_redemption demo_world = ([SavedTransfer t'], r, w')"
    by blast
  have "never_rewraps (bi_check_status demo_bridge)" by (simp add: demo_bridge_def layerzero_never_rewraps)
  from redeem_never_resubmitted [OF sel(4) this run, of "[]"] run show ?thesis
    by (intro exI [of _ t']) (auto simp: t'_def transition_to_def Let_def cleared_redeem_def)
qed

end
