(* ===== verification/Rebalance_Safety.thy ===== *)
theory Rebalance_Safety
  imports Bridge_Rebalance Bridge_Safety
begin

text \<open>
  What a cycle of the rebalance monitor may start: a transfer only for a pair that has none and is not
  cooling down, of an amount both sides and the gas reserve can bear; a swap only where the configuration
  enables it, the float is low and the treasury can pay.
\<close>

section \<open>Active transfers\<close>

lemma active_status_text: "bridge_status_text st \<in> set ACTIVE_STATUSES \<longleftrightarrow> blocks_pair st"
  by (cases st) (simp_all add: ACTIVE_STATUSES_def blocks_pair_def)

lemma status_index_field: "JString v \<in> fields_of (Some (build_indexes t)) ''status'' \<longleftrightarrow> v = bridge_status_text (bt_status t)"
  by (auto simp: build_indexes_def fields_of_def with_field_def)

text \<open>A solver on the memory backend, at one instant and undisturbed, whose transfers carry their own index entries.\<close>

definition quiet_bridge :: "('b memory_storage, 'b) bridge_machine \<Rightarrow> nat \<Rightarrow> 'b memory_storage world \<Rightarrow> bool" where
  "quiet_bridge M now w \<longleftrightarrow> bm_backend M = memory_backend \<and> bm_sched M = quiet (\<lambda>_. now) \<and> CHR '':'' \<notin> set (bm_solver_id M) \<and>
     rows_indexed (transfer_namespace M) (bm_transfers M) build_indexes (w_store w)"

abbreviation stored_transfer :: "('b memory_storage, 'b) bridge_machine \<Rightarrow> nat \<Rightarrow> 'b memory_storage world \<Rightarrow> pending_bridge_transfer \<Rightarrow> bool" where
  "stored_transfer M now w t \<equiv> \<exists>ident. stored_item (transfer_namespace M) (bm_transfers M) now (w_store w) ident t"

lemma transfers_with_status_exact:
  assumes "quiet_bridge M now w"
  shows "\<exists>ts w'. transfers_with_status M sts found w = (Inr ts, w') \<and> w_store w' = w_store w \<and>
    set ts = set found \<union> {t. stored_transfer M now w t \<and> bridge_status_text (bt_status t) \<in> set sts}"
  using assms
proof (induction sts arbitrary: found w)
  case (Cons st sts)
  have ns: "CHR '':'' \<notin> set (transfer_namespace M)"
    using Cons.prems by (simp add: quiet_bridge_def transfer_namespace_def BRIDGE_TRANSFER_NS_def)
  from Cons.prems have ix: "rows_indexed (transfer_namespace M) (bm_transfers M) build_indexes (w_store w)" by (simp add: quiet_bridge_def)
  from svc_query_items [OF ix ns, of now "''status''" "JString st"] obtain rows w1 where
    q: "svc_query memory_backend (bm_transfers M) (quiet (\<lambda>_. now)) (transfer_namespace M) (Equals ''status'' (JString st)) w = (Inr rows, w1)"
    and same: "w_store w1 = w_store w"
    and rows: "set (map snd rows) = {t. stored_transfer M now w t \<and> st = bridge_status_text (bt_status t)}"
    unfolding status_index_field by blast
  have "quiet_bridge M now w1" using Cons.prems by (simp add: quiet_bridge_def same)
  from Cons.IH [OF this, of "found @ map snd rows"] obtain ts w' where
    rec: "transfers_with_status M sts (found @ map snd rows) w1 = (Inr ts, w')" "w_store w' = w_store w"
    "set ts = set found \<union> set (map snd rows) \<union> {t. stored_transfer M now w t \<and> bridge_status_text (bt_status t) \<in> set sts}"
    unfolding same by auto
  have "transfers_with_status M (st # sts) found w = (Inr ts, w')"
    using Cons.prems q rec(1) by (simp add: quiet_bridge_def)
  moreover have "set ts = set found \<union> {t. stored_transfer M now w t \<and> bridge_status_text (bt_status t) \<in> set (st # sts)}"
    unfolding rec(3) rows by auto
  ultimately show ?case using rec(2) by blast
qed simp

lemma pair_transfers_exact:
  assumes "quiet_bridge M now w"
  shows "\<exists>ts w'. get_active_transfers_for_pair M pair w = (Inr ts, w') \<and> w_store w' = w_store w \<and>
    set ts = {t. stored_transfer M now w t \<and> blocks_pair (bt_status t) \<and> bt_pair_id t = pair}"
proof -
  from transfers_with_status_exact [OF assms, of ACTIVE_STATUSES "[]"] obtain ts w' where
    "transfers_with_status M ACTIVE_STATUSES [] w = (Inr ts, w')" "w_store w' = w_store w"
    "set ts = {t. stored_transfer M now w t \<and> blocks_pair (bt_status t)}" unfolding active_status_text by auto
  then show ?thesis by (auto simp: get_active_transfers_for_pair_def get_active_transfers_def)
qed

lemma cooldown_exact:
  assumes "quiet_bridge M now w"
  shows "\<exists>w'. is_cooldown_active M pair w = (Inr (memory_live now (w_store w) (mk_key (cooldown_namespace M) pair) \<noteq> None), w') \<and>
    w_store w' = w_store w"
  using assms
  by (auto simp: is_cooldown_active_def quiet_bridge_def svc_defs Let_def memory_exists_def memory_live_def split: option.splits)

section \<open>Transfers the monitor starts\<close>

text \<open>
  The amount of a transfer between two sides: within the maximum of the pair, the donor keeps its lower
  bound, the receiver stays within its upper bound, and a native donor keeps its gas reserve.
\<close>

definition bearable :: "'s monitor_env \<Rightarrow> rebalance_config \<Rightarrow> rebalance_pair \<Rightarrow> rebalance_direction \<Rightarrow> nat \<Rightarrow> bool" where
  "bearable E C p d m \<longleftrightarrow>
     (\<exists>a b ta tb mx. pair_balances E C p = Some (a, b) \<and> me_u256 E (rp_target_balance_a p) = Inr ta \<and>
        me_u256 E (rp_target_balance_b p) = Inr tb \<and> me_u256 E (rp_max_bridge_amount p) = Inr mx \<and>
        0 < m \<and> m \<le> mx \<and>
        (target_fits ta \<longrightarrow> target_fits tb \<longrightarrow>
          (case d of
             AToB \<Rightarrow> m \<le> a \<and> lower_of ta (rp_deviation_band_bps p) \<le> a - m \<and> b + m \<le> upper_of tb (rp_deviation_band_bps p)
           | BToA \<Rightarrow> m \<le> b \<and> lower_of tb (rp_deviation_band_bps p) \<le> b - m \<and> a + m \<le> upper_of ta (rp_deviation_band_bps p)))) \<and>
     (is_native_text (rs_token_address (fst (sides p d))) \<longrightarrow>
        (\<exists>s native reserve. me_balance E (rs_chain_id (fst (sides p d))) (me_solver_address E) None = Inr s \<and> me_u256 E s = Inr native \<and>
           (case map_of (rc_min_native_gas_reserve C) (rs_chain_id (fst (sides p d))) of
              None \<Rightarrow> reserve = 0 | Some text \<Rightarrow> me_u256 E text = Inr reserve) \<and>
           m + reserve \<le> native))"

lemma map_sum_Inr: "map_sum f (\<lambda>n. n) r = Inr n \<longleftrightarrow> r = Inr n"
  by (cases r) simp_all

lemma pair_amount_Inr: "pair_amount E p fld txt = Inr n \<longleftrightarrow> me_u256 E txt = Inr n"
  by (simp add: pair_amount_def map_sum_Inr)

lemma suggestion_below_max: "direction_needed (analyze_pair a b ta tb bps mx) = Some d \<Longrightarrow> suggested_amount (analyze_pair a b ta tb bps mx) \<le> mx"
  using towards_a [of a b "evaluate_threshold a ta bps" "evaluate_threshold b tb bps" mx] towards_b [of a b "evaluate_threshold a ta bps" "evaluate_threshold b tb bps" mx]
  by (cases d; cases "direction_and_amount a b (evaluate_threshold a ta bps) (evaluate_threshold b tb bps) mx") (simp_all add: analyze_pair_cases)

lemma amount_to_bridge_bounds:
  assumes "amount_to_bridge E C p source s = Inr (Some m)" and "s \<noteq> 0"
  shows "0 < m" and "m \<le> s"
    and "is_native_text (rs_token_address source) \<Longrightarrow>
      \<exists>txt native reserve. me_balance E (rs_chain_id source) (me_solver_address E) None = Inr txt \<and> me_u256 E txt = Inr native \<and>
        (case map_of (rc_min_native_gas_reserve C) (rs_chain_id source) of
           None \<Rightarrow> reserve = 0 | Some t \<Rightarrow> me_u256 E t = Inr reserve) \<and> m + reserve \<le> native"
  using assms
  by (auto simp: amount_to_bridge_def and_ok_Inr map_sum_Inr Let_def split: if_splits sum.splits option.splits)

lemma planned_transfer_bearable:
  assumes "planned_transfer E impls C p = Inr (Some (req, meta))"
  shows "\<exists>d. bearable E C p d (br_amount req) \<and> \<not> starknet_blocked C (fst (sides p d)) (snd (sides p d)) \<and>
    br_source_chain req = rs_chain_id (fst (sides p d)) \<and> br_dest_chain req = rs_chain_id (snd (sides p d)) \<and>
    fee_within_cap E impls C req meta \<and> br_pair_id req = rp_pair_id p"
proof -
  from assms obtain a b analysis d where
    bal: "pair_balances E C p = Some (a, b)" and an: "pair_analysis E p (a, b) = Inr analysis"
    and d: "direction_needed analysis = Some d" and s: "suggested_amount analysis \<noteq> 0"
    and rest: "(let (source, dest) = sides p d
        in if starknet_blocked C source dest then Inr None
           else and_ok (amount_to_bridge E C p source (suggested_amount analysis)) (\<lambda>amount.
             case amount of None \<Rightarrow> Inr None
             | Some m \<Rightarrow> and_ok (pair_request E C p source dest m) (\<lambda>req.
                 let (is_composer, vault) = composer_and_vault C p source dest; meta = pair_metadata p source dest is_composer vault
                 in if \<not> is_composer \<and> vault = None then Inr None
                    else if fee_within_cap E impls C req meta then Inr (Some (req, meta)) else Inr None))) = Inr (Some (req, meta))"
    unfolding planned_transfer_def by (fastforce simp: and_ok_Inr split: option.splits if_splits)
  obtain source dest where sd: "sides p d = (source, dest)" by (cases "sides p d")
  obtain is_composer vault where cv: "composer_and_vault C p source dest = (is_composer, vault)" by (cases "composer_and_vault C p source dest")
  from rest obtain m where open_route: "\<not> starknet_blocked C source dest"
    and m: "amount_to_bridge E C p source (suggested_amount analysis) = Inr (Some m)"
    and req: "pair_request E C p source dest m = Inr req" and fee: "fee_within_cap E impls C req meta"
    unfolding sd by (auto simp: and_ok_Inr Let_def cv split: if_splits option.splits)
  from an obtain ta tb mx where cfg: "me_u256 E (rp_target_balance_a p) = Inr ta" "me_u256 E (rp_target_balance_b p) = Inr tb"
    "me_u256 E (rp_max_bridge_amount p) = Inr mx" and analysis: "analysis = analyze_pair a b ta tb (rp_deviation_band_bps p) mx"
    by (auto simp: pair_analysis_def and_ok_Inr pair_amount_Inr)
  note amt = amount_to_bridge_bounds [OF m s]
  have "m \<le> mx" using amt(2) suggestion_below_max [OF d [unfolded analysis]] by (simp add: analysis)
  moreover have "case d of
       AToB \<Rightarrow> m \<le> a \<and> lower_of ta (rp_deviation_band_bps p) \<le> a - m \<and> b + m \<le> upper_of tb (rp_deviation_band_bps p)
     | BToA \<Rightarrow> m \<le> b \<and> lower_of tb (rp_deviation_band_bps p) \<le> b - m \<and> a + m \<le> upper_of ta (rp_deviation_band_bps p)"
    if "target_fits ta" "target_fits tb"
    using suggestion_bounds(2,3) [OF that d [unfolded analysis] refl] amt(2) unfolding analysis by (cases d) auto
  ultimately have "bearable E C p d m" using bal cfg amt(1,3) unfolding bearable_def sd by auto
  then show ?thesis using open_route req fee by (auto simp: sd pair_request_def and_ok_Inr)
qed

lemma trigger_pair_started:
  assumes "quiet_bridge M now w" and "trigger_pair M E impls C p w = (tr, r, w')" and "tr \<noteq> []"
  shows "memory_live now (w_store w) (mk_key (cooldown_namespace M) (rp_pair_id p)) = None"
    and "\<not> (stored_transfer M now w t \<and> blocks_pair (bt_status t) \<and> bt_pair_id t = rp_pair_id p)"
    and "\<exists>req meta w1. planned_transfer E impls C p = Inr (Some (req, meta)) \<and>
      tr = fst (rebalance_token M impls (rc_implementation C) req Auto meta w1)"
proof -
  from cooldown_exact [OF assms(1), of "rp_pair_id p"] obtain w1 where
    cool: "is_cooldown_active M (rp_pair_id p) w = (Inr (memory_live now (w_store w) (mk_key (cooldown_namespace M) (rp_pair_id p)) \<noteq> None), w1)"
    and w1: "w_store w1 = w_store w" by blast
  have "quiet_bridge M now w1" using assms(1) by (simp add: quiet_bridge_def w1)
  from pair_transfers_exact [OF this, of "rp_pair_id p"] obtain ts w2 where
    act: "get_active_transfers_for_pair M (rp_pair_id p) w1 = (Inr ts, w2)"
    and ts: "set ts = {t. stored_transfer M now w t \<and> blocks_pair (bt_status t) \<and> bt_pair_id t = rp_pair_id p}" unfolding w1 by blast
  note run = assms(2) [unfolded trigger_pair_def and_then_def call_def cool, simplified]
  show live: "memory_live now (w_store w) (mk_key (cooldown_namespace M) (rp_pair_id p)) = None"
    using run assms(3) by (cases "memory_live now (w_store w) (mk_key (cooldown_namespace M) (rp_pair_id p))") (auto simp: ok_def)
  have "ts = []" using run assms(3) by (auto simp: ok_def live act split: if_splits)
  then show "\<not> (stored_transfer M now w t \<and> blocks_pair (bt_status t) \<and> bt_pair_id t = rp_pair_id p)" using ts by auto
  show "\<exists>req meta w1. planned_transfer E impls C p = Inr (Some (req, meta)) \<and>
      tr = fst (rebalance_token M impls (rc_implementation C) req Auto meta w1)"
    using run assms(3)
    by (auto simp: ok_def live act \<open>ts = []\<close> lift_result_def attempting_def split: sum.splits option.splits prod.splits)
      (metis fst_conv)
qed

text \<open>
  C21: The monitor moves funds between chains by itself only when it should. On an undisturbed memory backend,
  when the pass over a pair writes or submits anything at all, the pair has no live cooldown and no stored
  transfer that is still open, operator cases included; there is a direction whose amount is positive, within
  the maximum of the pair, leaves the donor its lower bound and, of a native token, its gas reserve and the receiver within its
  upper bound (the two bounds for target balances below 2 to the 256 divided by 20000, above which the code's arithmetic
  wraps); a Starknet leg is enabled and its fee estimate within the cap; and what is written is the start
  of exactly that transfer.
\<close>

theorem transfers_start_only_when_bearable:
  assumes "quiet_bridge M now w" and "trigger_pair M E impls C p w = (tr, r, w')" and "tr \<noteq> []"
  shows "memory_live now (w_store w) (mk_key (cooldown_namespace M) (rp_pair_id p)) = None \<and>
    (\<nexists>t. stored_transfer M now w t \<and> blocks_pair (bt_status t) \<and> bt_pair_id t = rp_pair_id p) \<and>
    (\<exists>d req meta w1. bearable E C p d (br_amount req) \<and> \<not> starknet_blocked C (fst (sides p d)) (snd (sides p d)) \<and>
       br_source_chain req = rs_chain_id (fst (sides p d)) \<and> br_dest_chain req = rs_chain_id (snd (sides p d)) \<and>
       fee_within_cap E impls C req meta \<and> br_pair_id req = rp_pair_id p \<and>
       tr = fst (rebalance_token M impls (rc_implementation C) req Auto meta w1))"
  using trigger_pair_started [OF assms] planned_transfer_bearable [of E impls C p] by metis

text \<open>A pair with all its funds on one side; amounts of the demonstration are written in unary.\<close>

definition unary_env :: "pending_bridge_transfer memory_storage monitor_env" where
  "unary_env = demo_env\<lparr>me_u256 := (\<lambda>s. Inr (length s)),
     me_balance := (\<lambda>chain _ _. Inr (if chain = 2 then ''iiiiiiiiii'' else []))\<rparr>"

definition demo_side :: "nat \<Rightarrow> rebalance_side" where
  "demo_side chain = \<lparr>rs_chain_id = chain, rs_token_address = ''0x01'', rs_oft_address = ''0x02''\<rparr>"

definition demo_pair :: rebalance_pair where
  "demo_pair = \<lparr>rp_pair_id = ''usdc'', rp_chain_a = demo_side 2, rp_chain_b = demo_side 3, rp_target_balance_a = ''iiii'',
     rp_target_balance_b = ''iiii'', rp_deviation_band_bps = 2500, rp_max_bridge_amount = ''iiiii'', rp_bridge_route = None\<rparr>"

definition demo_config :: rebalance_config where
  "demo_config = \<lparr>rc_enabled = True, rc_implementation = ''layerzero'', rc_monitor_interval_seconds = 60, rc_cooldown_seconds = 60,
     rc_max_pending_transfers = 1, rc_min_native_gas_reserve = [], rc_max_fee_bps = None, rc_pairs = [demo_pair],
     rc_bridge_config = Some (JObject [(''vault_addresses'', JObject [(''3'', JString ''0x04'')])])\<rparr>"

lemma demo_quiet: "quiet_bridge demo_machine 5 demo_world"
  by (simp add: quiet_bridge_def demo_machine_def demo_world_def rows_indexed_def memory_table_def memory_new_def memory_ok_def
      index_distinct_def index_placed_def indexed_keys_def)

lemma demo_plan:
  "\<exists>req meta. planned_transfer unary_env [(''layerzero'', demo_bridge)] demo_config demo_pair = Inr (Some (req, meta)) \<and>
     br_amount req = 4 \<and> tm_bridge_route meta = None"
proof -
  have native: "\<not> is_native_text ''0x01''" by code_simp
  have plain: "\<not> is_starknet_chain demo_config chain" "starknet_max_fee_fri unary_env demo_config chain = None"
    "solver_address_for_chain unary_env demo_config chain = ''0x07''" for chain
    by (simp_all add: is_starknet_chain_def starknet_route_def demo_config_def json_path_def json_field_def starknet_max_fee_fri_def
        starknet_route_field_def solver_address_for_chain_def unary_env_def demo_env_def)
  have bal: "pair_balances unary_env demo_config demo_pair = Some (10, 0)"
    by (simp add: pair_balances_def demo_pair_def demo_side_def logical_balance_def native unary_env_def)
  have an: "pair_analysis unary_env demo_pair (10, 0) = Inr (analyze_pair 10 0 4 4 2500 5)"
    by (simp add: pair_analysis_def pair_amount_def demo_pair_def unary_env_def and_ok_def numeral_eq_Suc)
  have dir: "direction_needed (analyze_pair 10 0 4 4 2500 5) = Some AToB" "suggested_amount (analyze_pair 10 0 4 4 2500 5) = 4"
    "\<not> both_sides_low (analyze_pair 10 0 4 4 2500 5)"
    by (simp_all add: analyze_pair_def direction_and_amount_def evaluate_threshold_def u256_mul_def BPS_BASE_def)
  have sd: "sides demo_pair AToB = (demo_side 2, demo_side 3)" by (simp add: sides_def demo_pair_def)
  have amt: "amount_to_bridge unary_env demo_config demo_pair (demo_side 2) 4 = Inr (Some 4)"
    by (simp add: amount_to_bridge_def demo_side_def native)
  have addr: "bridge_parse_address unary_env s = Inr (replicate 20 7)" for s
    by (simp add: bridge_parse_address_def unary_env_def demo_env_def)
  have three: "to_dec 3 = ''3''" by code_simp
  have cv: "composer_and_vault demo_config demo_pair (demo_side 2) (demo_side 3) = (False, Some ''0x04'')"
    by (simp add: composer_and_vault_def demo_pair_def demo_config_def demo_side_def json_path_def json_field_def json_str_def three)
  show ?thesis
    by (simp add: planned_transfer_def bal an dir sd amt cv and_ok_def starknet_blocked_def plain pair_request_def addr
        parse_address_for_chain_def fee_within_cap_def Let_def pair_metadata_def) (simp add: demo_pair_def)
qed

lemma rebalance_emits:
  assumes "tm_bridge_route meta = None"
  shows "fst (rebalance_token demo_machine [(''layerzero'', demo_bridge)] ''layerzero'' req Auto meta w) \<noteq> []"
proof -
  let ?t = "(prepared_transfer demo_machine req Auto meta w)\<lparr>bt_bridge_submit_attempted := True\<rparr>"
  obtain w1 where save: "saving demo_machine ?t w = ([SavedTransfer ?t], Inr (), w1)" using demo_saves by blast
  have "tm_bridge_route (prepared_metadata u meta) = None" for u by (simp add: prepared_metadata_def assms)
  then show ?thesis by (simp add: rebalance_token_def Let_def and_then_def save split: prod.splits)
qed

theorem transfers_start_only_when_bearable_witness:
  "\<exists>tr r w'. trigger_pair demo_machine unary_env [(''layerzero'', demo_bridge)] demo_config demo_pair demo_world = (tr, r, w') \<and> tr \<noteq> [] \<and>
     (\<exists>d m. bearable unary_env demo_config demo_pair d m)"
proof -
  let ?run = "trigger_pair demo_machine unary_env [(''layerzero'', demo_bridge)] demo_config demo_pair"
  have empty: "memory_live n (w_store demo_world) k = None" for n k by (simp add: demo_world_def memory_new_def memory_live_def)
  from cooldown_exact [OF demo_quiet, of "rp_pair_id demo_pair"] obtain w1 where
    cool: "is_cooldown_active demo_machine (rp_pair_id demo_pair) demo_world = (Inr False, w1)" and w1: "w_store w1 = w_store demo_world"
    by (auto simp: empty)
  have "quiet_bridge demo_machine 5 w1" using demo_quiet by (simp add: quiet_bridge_def w1)
  from pair_transfers_exact [OF this, of "rp_pair_id demo_pair"] obtain w2 where
    act: "get_active_transfers_for_pair demo_machine (rp_pair_id demo_pair) w1 = (Inr [], w2)"
    by (auto simp: stored_item_def w1 empty)
  from demo_plan obtain req meta where plan: "planned_transfer unary_env [(''layerzero'', demo_bridge)] demo_config demo_pair = Inr (Some (req, meta))"
    and route: "tm_bridge_route meta = None" by blast
  have impl: "rc_implementation demo_config = ''layerzero''" by (simp add: demo_config_def)
  obtain tr r w' where run: "?run demo_world = (tr, r, w')" by (cases "?run demo_world")
  have "tr = fst (rebalance_token demo_machine [(''layerzero'', demo_bridge)] ''layerzero'' req Auto meta w2)"
    using run by (simp add: trigger_pair_def and_then_def call_def cool act lift_result_def plan attempting_def impl split: prod.splits)
  then have "tr \<noteq> []" using rebalance_emits [OF route] by simp
  with transfers_start_only_when_bearable [OF demo_quiet run this] run show ?thesis by blast
qed

section \<open>Swaps the monitor starts\<close>

text \<open>A swap the configuration of a float allows, at the balances and the quote the monitor saw.\<close>

definition swap_allowed :: "'s monitor_env \<Rightarrow> (swap_backend \<Rightarrow> 's swap_interface) \<Rightarrow> rebalance_config \<Rightarrow> json \<Rightarrow> float_target \<Rightarrow> nat \<Rightarrow> bool" where
  "swap_allowed E ex C float T min_out \<longleftrightarrow> float_swap_enabled float \<and>
     (\<exists>balance treasury be q. float_balance E T (ft_token T) = Some balance \<and> float_balance E T (ft_treasury T) = Some treasury \<and>
        balance < ft_min_balance T \<and> ft_top_up T \<le> treasury \<and>
        float_swap_backend E C float (ft_chain T) (ft_solver T) True = Inr be \<and>
        si_quote (ex be) (ft_chain T) (ft_treasury T) (ft_token T) (ft_top_up T) = Inr q \<and>
        price_impact_bps q \<le> float_max_slippage float \<and>
        min_out = min_out_of (amount_out q) (float_max_slippage float))"

lemma planned_swap_allowed:
  "planned_swap E ex C float (float_swap_enabled float) (float_max_slippage float) T = Some (be, mo) \<Longrightarrow> swap_allowed E ex C float T mo"
  unfolding planned_swap_def swap_allowed_def float_topup_blocked_def
  by (fastforce split: option.splits sum.splits if_splits)

definition allowed_effect :: "'s monitor_env \<Rightarrow> (swap_backend \<Rightarrow> 's swap_interface) \<Rightarrow> rebalance_config \<Rightarrow> json \<Rightarrow> json list \<Rightarrow> bridge_effect \<Rightarrow> bool" where
  "allowed_effect E ex C float targets ev \<longleftrightarrow>
     (\<exists>target \<in> set targets. \<exists>T mo. parse_float_target E float target = Some T \<and> swap_allowed E ex C float T mo \<and>
        ev = AskedSwap (ft_chain T) (ft_treasury T) (ft_token T) (ft_top_up T) mo)"

lemma meets_attempting: "meets P (\<lambda>_. True) (m w) \<Longrightarrow> meets P (\<lambda>_. True) (attempting m w)"
  by (cases "m w") (simp add: meets_def attempting_def)

lemma meets_lift: "meets P (\<lambda>_. True) (lift_result f r w)"
  by (simp add: meets_def lift_result_def split: sum.splits)

lemma meets_effects: "meets P Q r \<Longrightarrow> (\<And>ev. P ev \<Longrightarrow> P' ev) \<Longrightarrow> meets P' Q r"
  by (auto simp: meets_def list_all_iff)

lemma asking_swap_allowed:
  "P (AskedSwap (ft_chain T) (ft_treasury T) (ft_token T) (ft_top_up T) mo) \<Longrightarrow> meets P (\<lambda>_. True) (asking_swap X T mo scope w)"
  by (simp add: meets_def asking_swap_def split: prod.splits)

lemma top_up_target_allowed:
  "meets (\<lambda>ev. \<exists>mo. swap_allowed E ex C float T mo \<and> ev = AskedSwap (ft_chain T) (ft_treasury T) (ft_token T) (ft_top_up T) mo) (\<lambda>_. True)
     (top_up_target M E ex C float (float_swap_enabled float) (float_max_slippage float) T w)"
  unfolding top_up_target_def
  by (rule meets_and_then [OF meets_call])
    (auto intro!: meets_ok meets_and_then [OF asking_swap_allowed] meets_attempting meets_call planned_swap_allowed
      split: option.splits sum.splits)

lemma top_up_targets_allowed:
  "meets (allowed_effect E ex C float targets) (\<lambda>_. True)
     (top_up_targets M E ex C float (float_swap_enabled float) (float_max_slippage float) targets w)"
proof (induction targets arbitrary: w)
  case (Cons target targets)
  show ?case
    unfolding top_up_targets.simps
  proof (rule meets_and_then [where Q = "\<lambda>_. True"])
    show "meets (allowed_effect E ex C float (target # targets)) (\<lambda>_. True)
        ((case parse_float_target E float target of None \<Rightarrow> ok ()
          | Some T \<Rightarrow> top_up_target M E ex C float (float_swap_enabled float) (float_max_slippage float) T) w)"
      by (cases "parse_float_target E float target")
        (auto intro!: meets_ok meets_effects [OF top_up_target_allowed] simp: allowed_effect_def)
  next
    fix w1
    show "meets (allowed_effect E ex C float (target # targets)) (\<lambda>_. True)
        (top_up_targets M E ex C float (float_swap_enabled float) (float_max_slippage float) targets w1)"
      by (rule meets_effects [OF Cons.IH]) (auto simp: allowed_effect_def)
  qed
qed (simp add: meets_ok)

text \<open>Nothing else of a cycle swaps.\<close>

fun not_swap :: "bridge_effect \<Rightarrow> bool" where
  "not_swap (AskedSwap _ _ _ _ _) = False"
| "not_swap _ = True"

interpretation swap_free: kept_deposits "\<lambda>_. True" not_swap
  by unfold_locales auto

lemma deposit_answered_no_swap: "meets not_swap (\<lambda>_. True) (deposit_answered M t r w)"
  unfolding deposit_answered_def Let_def
  by (auto split: sum.split prod.split bridge_error.split
      intro!: meets_steps meets_err meets_and_then [OF meets_saving_quietly] meets_and_then [OF meets_saving_or] simp: meets_def [of _ _ "(_, _, _)"])

lemma rebalance_no_swap: "meets not_swap (\<lambda>_. True) (rebalance_token M impls name req trigger meta w)"
proof -
  have "meets not_swap (\<lambda>_. True) (submit_wrap M I t w1)" for I t w1
    unfolding submit_wrap_def Let_def
    by (intro meets_and_then [OF meets_saving] meets_and_then [OF meets_asking(1)])
      (auto split: sum.split bridge_error.split intro!: meets_steps meets_err meets_and_then [OF meets_saving_quietly] meets_and_then [OF meets_saving])
  moreover have "meets not_swap (\<lambda>_. True) (asking_deposit I i req meta w1)" for I i meta w1
    by (simp add: meets_def asking_deposit_def split: prod.splits)
  ultimately show ?thesis
    unfolding rebalance_token_def Let_def
    by (auto split: option.split intro!: meets_err meets_saving meets_and_then [where Q = "\<lambda>_. True"] deposit_answered_no_swap)
qed

lemma trigger_pairs_no_swap: "meets not_swap (\<lambda>_. True) (trigger_pairs M E impls C ps w)"
proof (induction ps arbitrary: w)
  case (Cons p ps)
  have "meets not_swap (\<lambda>_. True) (trigger_pair M E impls C p w1)" for w1
    unfolding trigger_pair_def
    by (auto split: option.split intro!: meets_and_then [OF meets_call] meets_and_then [OF meets_lift] meets_ok meets_attempting rebalance_no_swap)
  then show ?case by (auto intro!: meets_and_then [where Q = "\<lambda>_. True"] Cons.IH)
qed (simp add: meets_ok)

lemma advance_pending_no_swap:
  assumes "\<And>I. map_of impls name = Some I \<Longrightarrow> never_rewraps (bi_check_status I)"
  shows "meets not_swap (\<lambda>_. True) (advance_pending_transfers M E impls name cooldown w)"
proof -
  have all: "meets not_swap (\<lambda>_. True) (advance_all M E I cooldown now ts w1)" if "never_rewraps (bi_check_status I)" for I now ts w1
  proof (induction ts arbitrary: w1)
    case (Cons t ts)
    have "meets not_swap (\<lambda>_. True) (advance_transfer M E I cooldown now t w2)" for w2
      by (rule swap_free.advance_kept, simp, rule swap_free.advance_whole_kept) (simp_all add: that)
    then show ?case by (auto intro!: meets_and_then [where Q = "\<lambda>_. True"] Cons.IH)
  qed (simp add: meets_ok)
  show ?thesis
    unfolding advance_pending_transfers_def
    by (rule meets_and_then [OF meets_call]) (auto split: option.split intro!: meets_err all assms)
qed

text \<open>
  C22: The monitor swaps treasury funds only as configured. Whatever the chains and the bridge answer, a swap that
  a cycle submits belongs to a target of the float configuration of an enabled rebalance configuration whose
  swaps are enabled; at the balances read in that cycle the float was below its minimum and the treasury held the
  top-up amount; the swap is of exactly that amount from the treasury token to the token of the target; the
  quoted price impact was within the configured slippage and the least amount accepted is the quote less that
  slippage. Advancing and starting transfers never swaps.
\<close>

theorem swaps_only_as_configured:
  assumes "\<forall>(n, I) \<in> set impls. never_rewraps (bi_check_status I)"
    and "rebalance_tick M E impls ex cfg w = (tr, r, w')" and "AskedSwap chain from_token to_token amount min_out \<in> set tr"
  shows "\<exists>C float targets target T. cfg = Some C \<and> rc_enabled C \<and> float_config C = Some float \<and>
    Option.bind (json_field float ''targets'') json_array = Some targets \<and> target \<in> set targets \<and>
    parse_float_target E float target = Some T \<and> swap_allowed E ex C float T min_out \<and>
    chain = ft_chain T \<and> from_token = ft_treasury T \<and> to_token = ft_token T \<and> amount = ft_top_up T"
proof -
  from assms(2,3) obtain C where cfg: "cfg = Some C" "rc_enabled C"
    by (cases cfg) (auto simp: rebalance_tick_def ok_def split: if_splits)
  let ?P = "\<lambda>ev. not_swap ev \<or> (\<exists>float targets. float_config C = Some float \<and>
    Option.bind (json_field float ''targets'') json_array = Some targets \<and> allowed_effect E ex C float targets ev)"
  have adv: "meets ?P (\<lambda>_. True) (advance_pending_transfers M E impls (rc_implementation C) (rc_cooldown_seconds C) w1)" for w1
    by (rule meets_effects [OF advance_pending_no_swap]) (use assms(1) in \<open>auto dest!: map_of_SomeD\<close>)
  have trig: "meets ?P (\<lambda>_. True) (check_thresholds_and_trigger M E impls C w1)" for w1
    unfolding check_thresholds_and_trigger_def
    by (rule meets_and_then [OF meets_call]) (auto intro!: meets_ok meets_effects [OF trigger_pairs_no_swap])
  have float: "meets ?P (\<lambda>_. True) (check_float_top_ups M E ex C w1)" for w1
    unfolding check_float_top_ups_def
    by (auto split: option.split intro!: meets_ok meets_effects [OF top_up_targets_allowed])
  have "meets ?P (\<lambda>_. True) (rebalance_tick M E impls ex cfg w)"
    unfolding rebalance_tick_def cfg(1) option.case
    by (simp only: cfg(2) not_True_eq_False if_False) (intro meets_and_then [OF adv] meets_and_then [OF trig] float)
  then have "?P (AskedSwap chain from_token to_token amount min_out)"
    using assms(2,3) by (auto simp: meets_def list_all_iff)
  then show ?thesis using cfg by (fastforce simp: allowed_effect_def)
qed

definition swap_float :: json where
  "swap_float = JObject [(''swap_enabled'', JBool True),
     (''targets'', JArray [JObject [(''chain_id'', JNumber 2), (''token'', JString ''strk''),
        (''min_balance'', JString ''iiiiiiiiiii''), (''top_up_amount'', JString ''ii'')]]),
     (''solver_addresses'', JObject [(''2'', JString ''0x07'')]), (''treasury_token'', JObject [(''2'', JString ''wbtc'')])]"

definition swap_config :: rebalance_config where
  "swap_config = demo_config\<lparr>rc_pairs := [], rc_max_pending_transfers := 0,
     rc_bridge_config := Some (JObject [(''starknet_oft_routes'', JObject [(''2'', JObject [])]), (''float'', swap_float)])\<rparr>"

definition swap_exchange :: "swap_backend \<Rightarrow> pending_bridge_transfer memory_storage swap_interface" where
  "swap_exchange be = \<lparr>si_quote = (\<lambda>_ _ _ _. Inr \<lparr>amount_out = 1000, price_impact_bps = 30\<rparr>), si_swap = (\<lambda>_ _ _ _ _ _ w. (Inl (BeConfig []), w))\<rparr>"

definition swap_target :: float_target where
  "swap_target = \<lparr>ft_chain = 2, ft_token = ''strk'', ft_min_balance = 11, ft_top_up = 2, ft_solver = ''0x07'', ft_treasury = ''wbtc''\<rparr>"

lemma swap_demo:
  "float_config swap_config = Some swap_float" "float_swap_enabled swap_float" "float_max_slippage swap_float = 100"
  "parse_float_target unary_env swap_float (JObject [(''chain_id'', JNumber 2), (''token'', JString ''strk''),
     (''min_balance'', JString ''iiiiiiiiiii''), (''top_up_amount'', JString ''ii'')]) = Some swap_target"
  "planned_swap unary_env swap_exchange swap_config swap_float True 100 swap_target = Some (AvnuSwap None ''0x07'' True, 990)"
proof -
  have two: "to_dec 2 = ''2''" by code_simp
  show "float_config swap_config = Some swap_float" "float_swap_enabled swap_float" "float_max_slippage swap_float = 100"
    by (simp_all add: float_config_def swap_config_def json_path_def json_field_def float_swap_enabled_def float_max_slippage_def swap_float_def json_bool_def)
  show "parse_float_target unary_env swap_float (JObject [(''chain_id'', JNumber 2), (''token'', JString ''strk''),
     (''min_balance'', JString ''iiiiiiiiiii''), (''top_up_amount'', JString ''ii'')]) = Some swap_target"
    by (simp add: parse_float_target_def float_u256_def json_field_def json_u64_def json_str_def json_path_def swap_float_def two unary_env_def
        swap_target_def numeral_eq_Suc two [unfolded numeral_2_eq_2])
  show "planned_swap unary_env swap_exchange swap_config swap_float True 100 swap_target = Some (AvnuSwap None ''0x07'' True, 990)"
    by (simp add: planned_swap_def float_balance_def swap_target_def unary_env_def float_topup_blocked_def float_swap_backend_def is_starknet_chain_def
        starknet_route_def swap_config_def json_path_def json_field_def two swap_float_def swap_exchange_def min_out_of_def u256_mul_def BPS_BASE_def)
qed

theorem swaps_only_as_configured_witness:
  "\<exists>tr r w'. rebalance_tick demo_machine unary_env [(''layerzero'', demo_bridge)] swap_exchange (Some swap_config) demo_world = (tr, r, w') \<and>
     AskedSwap 2 ''wbtc'' ''strk'' 2 990 \<in> set tr \<and> swap_allowed unary_env swap_exchange swap_config swap_float swap_target 990"
proof -
  let ?impls = "[(''layerzero'', demo_bridge)]"
  have empty: "memory_live n (w_store demo_world) k = None" for n k by (simp add: demo_world_def memory_new_def memory_live_def)
  have active: "\<exists>w'. get_active_transfers demo_machine w = (Inr [], w') \<and> w_store w' = w_store demo_world" if "w_store w = w_store demo_world" for w
  proof -
    have "quiet_bridge demo_machine 5 w" using demo_quiet by (simp add: quiet_bridge_def that)
    from transfers_with_status_exact [OF this, of ACTIVE_STATUSES "[]"] that show ?thesis
      by (auto simp: get_active_transfers_def stored_item_def empty)
  qed
  from active [OF refl] obtain w1 where w1: "get_active_transfers demo_machine demo_world = (Inr [], w1)" "w_store w1 = w_store demo_world" by blast
  from active [OF w1(2)] obtain w2 where w2: "get_active_transfers demo_machine w1 = (Inr [], w2)" "w_store w2 = w_store demo_world" by blast
  have "quiet_bridge demo_machine 5 w2" using demo_quiet by (simp add: quiet_bridge_def w2)
  from cooldown_exact [OF this, of "float_cooldown_key swap_target"] obtain w3 where
    w3: "is_cooldown_active demo_machine (float_cooldown_key swap_target) w2 = (Inr False, w3)" by (auto simp: w2 empty)
  have adv: "advance_pending_transfers demo_machine unary_env ?impls (rc_implementation swap_config) (rc_cooldown_seconds swap_config) demo_world = ([], Inr (), w1)"
    by (simp add: advance_pending_transfers_def and_then_def call_def w1 swap_config_def demo_config_def ok_def)
  have trig: "check_thresholds_and_trigger demo_machine unary_env ?impls swap_config w1 = ([], Inr (), w2)"
    by (simp add: check_thresholds_and_trigger_def active_transfer_count_def and_then_def call_def w2 swap_config_def ok_def)
  have top: "top_up_target demo_machine unary_env swap_exchange swap_config swap_float True 100 swap_target w2 =
      ([AskedSwap 2 ''wbtc'' ''strk'' 2 990], Inr (), w3)"
    by (simp add: top_up_target_def and_then_def call_def w3 swap_demo(5) asking_swap_def swap_exchange_def ok_def) (simp add: swap_target_def)
  have listed: "Option.bind (json_field swap_float ''targets'') json_array = Some [JObject [(''chain_id'', JNumber 2), (''token'', JString ''strk''),
     (''min_balance'', JString ''iiiiiiiiiii''), (''top_up_amount'', JString ''ii'')]]"
    by (simp add: swap_float_def json_field_def json_array_def)
  have "check_float_top_ups demo_machine unary_env swap_exchange swap_config w2 = ([AskedSwap 2 ''wbtc'' ''strk'' 2 990], Inr (), w3)"
    by (simp add: check_float_top_ups_def swap_demo(1-4) listed and_then_def top ok_def)
  then have run: "rebalance_tick demo_machine unary_env ?impls swap_exchange (Some swap_config) demo_world = ([AskedSwap 2 ''wbtc'' ''strk'' 2 990], Inr (), w3)"
    by (simp add: rebalance_tick_def and_then_def adv trig) (simp add: swap_config_def demo_config_def)
  have "\<forall>(n, I) \<in> set ?impls. never_rewraps (bi_check_status I)" by (simp add: demo_bridge_def layerzero_never_rewraps)
  from swaps_only_as_configured [OF this run, of 2 "''wbtc''" "''strk''" 2 990] have "\<exists>T mo. swap_allowed unary_env swap_exchange swap_config swap_float T mo"
    by (auto simp: swap_demo(1))
  moreover have "swap_allowed unary_env swap_exchange swap_config swap_float swap_target 990"
    by (rule planned_swap_allowed) (simp add: swap_demo)
  ultimately show ?thesis using run by auto
qed

end
