(* ===== verification/Evm_Fees.thy ===== *)
theory Evm_Fees
  imports Attempt_Types Delivery_Events
begin

text \<open>
  What the solver bids for gas on EVM chains: the fee policies of
  \<^verbatim>\<open>crates/solver-delivery/src/implementations/evm/fees.rs\<close> and their start-up validation, the fee
  parameters of \<^verbatim>\<open>crates/solver-delivery/src/lib.rs\<close>, and of \<^verbatim>\<open>alloy.rs\<close> the per-chain cache, the
  resolution of fees from the chain, and the native balance a transaction needs.  The bytes of the
  L1 data fee estimate are those of \<^verbatim>\<open>op_stack.rs\<close>.  Amounts are natural numbers below the bound of
  their Rust type; every operation that saturates is written with its bound.

  The JSON-RPC answers, the parsing of addresses (\<^verbatim>\<open>Address::from_str\<close>) and of 256-bit numbers
  (\<^verbatim>\<open>U256::from_str\<close>) are parameters.
\<close>

section \<open>Fee models and parameters\<close>

datatype fee_model = LegacyFees | Eip1559Fees | StarknetFixedFees

datatype fee_speed = SafeLow | Average | Fast | Fastest

fun reward_percentile :: "fee_speed \<Rightarrow> nat" where
  "reward_percentile SafeLow = 30"
| "reward_percentile Average = 50"
| "reward_percentile Fast = 85"
| "reward_percentile Fastest = 99"

datatype fee_cost_strategy = MaxFeeCost | EffectiveCost | BufferedEffective125

record fee_params =
  fp_chain_id :: nat
  fp_model :: fee_model
  fp_gas_price :: "nat option"
  fp_base_fee_per_gas :: "nat option"
  fp_estimated_effective_fee_per_gas :: "nat option"
  fp_max_fee_per_gas :: "nat option"
  fp_max_priority_fee_per_gas :: "nat option"
  fp_cost_per_gas :: nat
  fp_fixed_tx_fee :: "nat option"
  fp_estimated_tx_fee :: "nat option"
  fp_native_asset_symbol :: string
  fp_native_asset_decimals :: nat

definition legacy_fee_params :: "nat \<Rightarrow> nat \<Rightarrow> fee_params" where
  "legacy_fee_params chain price =
     \<lparr>fp_chain_id = chain, fp_model = LegacyFees, fp_gas_price = Some price, fp_base_fee_per_gas = None,
      fp_estimated_effective_fee_per_gas = None, fp_max_fee_per_gas = None,
      fp_max_priority_fee_per_gas = None, fp_cost_per_gas = price, fp_fixed_tx_fee = None,
      fp_estimated_tx_fee = None, fp_native_asset_symbol = ''ETH'', fp_native_asset_decimals = 18\<rparr>"

definition eip1559_with_strategy ::
  "nat \<Rightarrow> nat \<Rightarrow> nat \<Rightarrow> nat \<Rightarrow> fee_cost_strategy \<Rightarrow> fee_params" where
  "eip1559_with_strategy chain max_fee priority base strategy =
     (let effective = saturating_add u128_bound base priority;
          buffered_base = saturating_mul u128_bound base 125 div 100;
          buffered = saturating_add u128_bound buffered_base priority;
          cost = max (case strategy of
                        MaxFeeCost \<Rightarrow> max_fee
                      | EffectiveCost \<Rightarrow> effective
                      | BufferedEffective125 \<Rightarrow> min buffered max_fee) priority
      in \<lparr>fp_chain_id = chain, fp_model = Eip1559Fees, fp_gas_price = None, fp_base_fee_per_gas = Some base,
          fp_estimated_effective_fee_per_gas = Some (min effective max_fee),
          fp_max_fee_per_gas = Some max_fee, fp_max_priority_fee_per_gas = Some priority,
          fp_cost_per_gas = cost, fp_fixed_tx_fee = None, fp_estimated_tx_fee = None,
          fp_native_asset_symbol = ''ETH'', fp_native_asset_decimals = 18\<rparr>)"

definition starknet_fixed :: "nat \<Rightarrow> nat \<Rightarrow> nat option \<Rightarrow> fee_params" where
  "starknet_fixed chain max_fee_fri expected_fee_fri =
     \<lparr>fp_chain_id = chain, fp_model = StarknetFixedFees, fp_gas_price = None, fp_base_fee_per_gas = None,
      fp_estimated_effective_fee_per_gas = None, fp_max_fee_per_gas = None,
      fp_max_priority_fee_per_gas = None, fp_cost_per_gas = 0, fp_fixed_tx_fee = Some max_fee_fri,
      fp_estimated_tx_fee = expected_fee_fri, fp_native_asset_symbol = ''STRK'',
      fp_native_asset_decimals = 18\<rparr>"

text \<open>\<open>Option::or\<close>\<close>

definition option_or :: "'a option \<Rightarrow> 'a option \<Rightarrow> 'a option" where
  "option_or a b = (case a of None \<Rightarrow> b | Some x \<Rightarrow> Some x)"

lemma option_or_simps [simp]: "option_or None b = b" "option_or (Some x) b = Some x"
  by (simp_all add: option_or_def)

definition apply_if_missing :: "fee_params \<Rightarrow> evm_transaction \<Rightarrow> evm_transaction" where
  "apply_if_missing fp tx =
     (case fp_model fp of
        LegacyFees \<Rightarrow> if tx_gas_price tx = None then tx\<lparr>tx_gas_price := fp_gas_price fp\<rparr> else tx
      | Eip1559Fees \<Rightarrow>
          if tx_gas_price tx = None
          then tx\<lparr>tx_max_fee_per_gas := option_or (tx_max_fee_per_gas tx) (fp_max_fee_per_gas fp),
                  tx_max_priority_fee_per_gas :=
                    option_or (tx_max_priority_fee_per_gas tx) (fp_max_priority_fee_per_gas fp)\<rparr>
          else tx
      | StarknetFixedFees \<Rightarrow> tx)"

section \<open>Fee policies\<close>

definition BASE_PRIORITY_FEE_FALLBACK_WEI :: nat where
  "BASE_PRIORITY_FEE_FALLBACK_WEI = 10000000"

definition DEFAULT_OP_STACK_GAS_PRICE_ORACLE :: bytes where
  "DEFAULT_OP_STACK_GAS_PRICE_ORACLE = 66 # replicate 18 0 @ [15]"

definition DEFAULT_EXTRA_NATIVE_FEE_BUFFER_BPS :: nat where
  "DEFAULT_EXTRA_NATIVE_FEE_BUFFER_BPS = 1000"

definition MAX_EXTRA_NATIVE_FEE_BUFFER_BPS :: nat where
  "MAX_EXTRA_NATIVE_FEE_BUFFER_BPS = 10000"

text \<open>The oracle's address and the buffer in basis points.\<close>

datatype extra_native_fee_policy = NoExtraNativeFee | OpStackL1Data bytes nat

datatype extra_native_fee_config = OpStackL1DataConfig "string option" "nat option"

record chain_fee_policy =
  cfp_speed :: fee_speed
  cfp_min_priority_fee_per_gas :: "nat option"
  cfp_priority_fee_fallback :: nat
  cfp_quote_cost_strategy :: fee_cost_strategy
  cfp_gas_price_cap :: "nat option"
  cfp_extra_native_fee :: extra_native_fee_policy

definition default_for_chain :: "nat \<Rightarrow> chain_fee_policy" where
  "default_for_chain chain =
     \<lparr>cfp_speed = Fast, cfp_min_priority_fee_per_gas = Some BASE_PRIORITY_FEE_FALLBACK_WEI,
      cfp_priority_fee_fallback = BASE_PRIORITY_FEE_FALLBACK_WEI,
      cfp_quote_cost_strategy = BufferedEffective125, cfp_gas_price_cap = None,
      cfp_extra_native_fee = NoExtraNativeFee\<rparr>"

record chain_fee_policy_config =
  cc_min_priority_fee_per_gas :: "string option"
  cc_priority_fee_fallback :: string
  cc_quote_cost_strategy :: fee_cost_strategy
  cc_gas_price_cap :: "string option"
  cc_extra_native_fee :: "extra_native_fee_config option"

text \<open>
  The entries of \<^verbatim>\<open>fee_policy.chains\<close>, in the order in which the hash map happens to be iterated.
\<close>

record fee_policy_config =
  fc_default_speed :: fee_speed
  fc_chains :: "(string \<times> chain_fee_policy_config) list"

datatype fee_policy_error =
    InvalidWeiValue string string string string
  | InvalidChainId string string
  | MissingChainPolicy nat
  | InvalidAddressField string string string string
  | InvalidBufferBps string nat nat

definition parse_wei_field :: "string \<Rightarrow> string \<Rightarrow> string \<Rightarrow> (fee_policy_error, nat) result" where
  "parse_wei_field chain fld raw =
     (case parse_uint u128_bound raw of
        Inl e \<Rightarrow> Inl (InvalidWeiValue chain fld raw e)
      | Inr n \<Rightarrow> Inr n)"

definition parse_address_field ::
  "(string \<Rightarrow> (string, bytes) result) \<Rightarrow> string \<Rightarrow> string \<Rightarrow> string
   \<Rightarrow> (fee_policy_error, bytes) result" where
  "parse_address_field parse_address chain fld raw =
     (case parse_address raw of
        Inl e \<Rightarrow> Inl (InvalidAddressField chain fld raw e)
      | Inr a \<Rightarrow> Inr a)"

text \<open>\<open>opt.map(f).transpose()?\<close>\<close>

definition opt_field :: "('a \<Rightarrow> ('e, 'b) result) \<Rightarrow> 'a option \<Rightarrow> ('e, 'b option) result" where
  "opt_field f v = (case v of None \<Rightarrow> Inr None
     | Some x \<Rightarrow> (case f x of Inl e \<Rightarrow> Inl e | Inr y \<Rightarrow> Inr (Some y)))"

definition parse_extra_native_fee_policy ::
  "(string \<Rightarrow> (string, bytes) result) \<Rightarrow> string \<Rightarrow> extra_native_fee_config option
   \<Rightarrow> (fee_policy_error, extra_native_fee_policy) result" where
  "parse_extra_native_fee_policy parse_address chain cfg =
     (case cfg of
        None \<Rightarrow> Inr NoExtraNativeFee
      | Some (OpStackL1DataConfig oracle buffer) \<Rightarrow>
          (case opt_field (parse_address_field parse_address chain ''extra_native_fee.oracle_address'') oracle of
             Inl e \<Rightarrow> Inl e
           | Inr addr \<Rightarrow>
               (let oracle_address = (case addr of None \<Rightarrow> DEFAULT_OP_STACK_GAS_PRICE_ORACLE | Some a \<Rightarrow> a);
                    bps = (case buffer of None \<Rightarrow> DEFAULT_EXTRA_NATIVE_FEE_BUFFER_BPS | Some b \<Rightarrow> b)
                in if bps > MAX_EXTRA_NATIVE_FEE_BUFFER_BPS
                   then Inl (InvalidBufferBps chain bps MAX_EXTRA_NATIVE_FEE_BUFFER_BPS)
                   else Inr (OpStackL1Data oracle_address bps))))"

definition chain_policy_from_config ::
  "(string \<Rightarrow> (string, bytes) result) \<Rightarrow> string \<Rightarrow> fee_speed \<Rightarrow> chain_fee_policy_config
   \<Rightarrow> (fee_policy_error, chain_fee_policy) result" where
  "chain_policy_from_config parse_address chain default_speed cfg =
     (case opt_field (parse_wei_field chain ''min_priority_fee_per_gas'') (cc_min_priority_fee_per_gas cfg) of
        Inl e \<Rightarrow> Inl e
      | Inr floor_fee \<Rightarrow>
     (case parse_wei_field chain ''priority_fee_fallback'' (cc_priority_fee_fallback cfg) of
        Inl e \<Rightarrow> Inl e
      | Inr fallback \<Rightarrow>
     (case opt_field (parse_wei_field chain ''gas_price_cap'') (cc_gas_price_cap cfg) of
        Inl e \<Rightarrow> Inl e
      | Inr cap \<Rightarrow>
     (case parse_extra_native_fee_policy parse_address chain (cc_extra_native_fee cfg) of
        Inl e \<Rightarrow> Inl e
      | Inr extra \<Rightarrow>
          Inr \<lparr>cfp_speed = default_speed, cfp_min_priority_fee_per_gas = floor_fee,
               cfp_priority_fee_fallback = fallback,
               cfp_quote_cost_strategy = cc_quote_cost_strategy cfg, cfp_gas_price_cap = cap,
               cfp_extra_native_fee = extra\<rparr>))))"

type_synonym fee_registry = "nat \<rightharpoonup> chain_fee_policy"

fun load_policies ::
  "(string \<Rightarrow> (string, bytes) result) \<Rightarrow> fee_speed \<Rightarrow> (string \<times> chain_fee_policy_config) list
   \<Rightarrow> fee_registry \<Rightarrow> (fee_policy_error, fee_registry) result" where
  "load_policies parse_address speed [] reg = Inr reg"
| "load_policies parse_address speed ((chain_key, cfg) # rest) reg =
     (case parse_uint u64_bound chain_key of
        Inl e \<Rightarrow> Inl (InvalidChainId chain_key e)
      | Inr chain \<Rightarrow>
          (case chain_policy_from_config parse_address chain_key speed cfg of
             Inl e \<Rightarrow> Inl e
           | Inr policy \<Rightarrow> load_policies parse_address speed rest (reg(chain \<mapsto> policy))))"

fun require_policies :: "fee_registry \<Rightarrow> nat list \<Rightarrow> (fee_policy_error, unit) result" where
  "require_policies reg [] = Inr ()"
| "require_policies reg (c # cs) =
     (if reg c = None then Inl (MissingChainPolicy c) else require_policies reg cs)"

definition registry_from_config ::
  "(string \<Rightarrow> (string, bytes) result) \<Rightarrow> fee_policy_config \<Rightarrow> nat list
   \<Rightarrow> (fee_policy_error, fee_registry) result" where
  "registry_from_config parse_address cfg required =
     (case load_policies parse_address (fc_default_speed cfg) (fc_chains cfg) Map.empty of
        Inl e \<Rightarrow> Inl e
      | Inr reg \<Rightarrow>
          (case require_policies reg required of Inl e \<Rightarrow> Inl e | Inr _ \<Rightarrow> Inr reg))"

text \<open>The lookup panics, here \<open>None\<close>, for a chain without a policy.\<close>

definition policy_for_chain :: "fee_registry \<Rightarrow> nat \<Rightarrow> chain_fee_policy option" where
  "policy_for_chain reg chain = reg chain"

section \<open>The estimator\<close>

text \<open>The median of the nonzero rewards in the requested percentile column, zero if there are none.\<close>

definition nonzero_rewards :: "nat list list \<Rightarrow> nat list" where
  "nonzero_rewards rewards =
     sort (filter (\<lambda>v. v > 0) (List.map_filter (\<lambda>row. case row of [] \<Rightarrow> None | v # _ \<Rightarrow> Some v) rewards))"

definition median_reward :: "nat list list \<Rightarrow> nat" where
  "median_reward rewards =
     (let nonzero = nonzero_rewards rewards
      in if length nonzero div 2 < length nonzero then nonzero ! (length nonzero div 2) else 0)"

text \<open>The pair of \<^verbatim>\<open>max_fee_per_gas\<close> and \<^verbatim>\<open>max_priority_fee_per_gas\<close>.\<close>

definition eip1559_estimate :: "chain_fee_policy \<Rightarrow> nat \<Rightarrow> nat list list \<Rightarrow> nat \<times> nat" where
  "eip1559_estimate policy base rewards =
     (let priority = max (max (median_reward rewards)
                       (case cfp_min_priority_fee_per_gas policy of None \<Rightarrow> 0 | Some f \<Rightarrow> f))
                       (cfp_priority_fee_fallback policy);
          projected_base = saturating_mul u128_bound base 2;
          raw_max = saturating_add u128_bound projected_base priority;
          max_fee = max (case cfp_gas_price_cap policy of None \<Rightarrow> raw_max | Some cap \<Rightarrow> min raw_max cap) priority
      in (max_fee, priority))"

definition clamp_legacy_gas_price_to_cap :: "nat \<Rightarrow> chain_fee_policy \<Rightarrow> nat" where
  "clamp_legacy_gas_price_to_cap price policy =
     (case cfp_gas_price_cap policy of None \<Rightarrow> price | Some cap \<Rightarrow> min price cap)"

section \<open>The cache and the resolution of fees\<close>

text \<open>Instants are milliseconds of a monotonic clock; an entry carries the instant of its insertion.\<close>

type_synonym fee_cache = "nat \<rightharpoonup> fee_params \<times> nat"

definition fee_cache_get :: "fee_cache \<Rightarrow> nat \<Rightarrow> nat \<Rightarrow> nat \<Rightarrow> fee_params option" where
  "fee_cache_get cache chain ttl now =
     (case cache chain of
        None \<Rightarrow> None
      | Some (fp, inserted_at) \<Rightarrow> if now - inserted_at \<le> ttl then Some fp else None)"

definition fee_cache_insert :: "fee_cache \<Rightarrow> nat \<Rightarrow> fee_params \<Rightarrow> nat \<Rightarrow> fee_cache" where
  "fee_cache_insert cache chain fp inserted_at = cache(chain \<mapsto> (fp, inserted_at))"

definition fee_params_cache_ttl :: "nat \<Rightarrow> nat" where
  "fee_params_cache_ttl chain = (if chain = 1 then 3000 else if chain = 747474 then 1000 else 2000)"

text \<open>
  What the chain answers: the fee history with the base fee of its latest block and its reward
  rows, the base fee of the latest block, and the legacy gas price.
\<close>

record fee_history =
  fh_latest_block_base_fee :: "nat option"
  fh_reward :: "nat list list option"

record fee_answers =
  fa_history :: "nat \<Rightarrow> (string, fee_history) result"
  fa_block_base_fee :: "(string, nat option) result"
  fa_gas_price :: "(string, nat) result"

text \<open>
  The base fee: that of the fee history, else that of the latest block, where a missing and a zero
  fee count as absent.
\<close>

definition present_fee :: "nat option \<Rightarrow> nat option" where
  "present_fee v = (case v of Some b \<Rightarrow> if b \<noteq> 0 then Some b else None | None \<Rightarrow> None)"

definition resolve_base_fee :: "fee_answers \<Rightarrow> fee_history \<Rightarrow> (delivery_error, nat option) result" where
  "resolve_base_fee ans history =
     (case present_fee (fh_latest_block_base_fee history) of
        Some b \<Rightarrow> Inr (Some b)
      | None \<Rightarrow>
          (case fa_block_base_fee ans of
             Inl e \<Rightarrow> Inl (Network (''Failed to get latest block: '' @ e))
           | Inr bb \<Rightarrow> Inr (present_fee bb)))"

text \<open>
  \<open>cache\<close> is the cache when it is read and \<open>later\<close> the cache when the chain has answered: other
  callers may have filled it in between.
\<close>

datatype fee_outcome = FeePanic | FeeErr delivery_error | FeeOk fee_params

definition get_fee_params ::
  "(nat \<Rightarrow> bool) \<Rightarrow> fee_registry \<Rightarrow> fee_answers \<Rightarrow> nat \<Rightarrow> nat \<Rightarrow> fee_cache \<Rightarrow> fee_cache
   \<Rightarrow> fee_outcome \<times> fee_cache" where
  "get_fee_params provided reg ans now chain cache later =
     (case fee_cache_get cache chain (fee_params_cache_ttl chain) now of
        Some fp \<Rightarrow> (FeeOk fp, later)
      | None \<Rightarrow>
     (if \<not> provided chain
      then (FeeErr (Network (''No provider configured for chain ID '' @ to_dec chain)), later)
      else
     (case policy_for_chain reg chain of
        None \<Rightarrow> (FeePanic, later)
      | Some policy \<Rightarrow>
     (case fa_history ans (reward_percentile (cfp_speed policy)) of
        Inl e \<Rightarrow>
          (case fa_gas_price ans of
             Inl ge \<Rightarrow> (FeeErr (Network (''Failed to get fee history ('' @ e @
               '') and legacy gas price fallback ('' @ ge @ '')'')), later)
           | Inr gp \<Rightarrow> (FeeOk (legacy_fee_params chain (clamp_legacy_gas_price_to_cap gp policy)), later))
      | Inr history \<Rightarrow>
     (case resolve_base_fee ans history of
        Inl e \<Rightarrow> (FeeErr e, later)
      | Inr None \<Rightarrow>
          (case fa_gas_price ans of
             Inl ge \<Rightarrow> (FeeErr (Network (''Failed to get legacy gas price: '' @ ge)), later)
           | Inr gp \<Rightarrow>
               (let fp = legacy_fee_params chain (clamp_legacy_gas_price_to_cap gp policy)
                in (FeeOk fp, fee_cache_insert later chain fp now)))
      | Inr (Some base) \<Rightarrow>
          (let rewards = (case fh_reward history of None \<Rightarrow> [] | Some rows \<Rightarrow> rows);
               (max_fee, priority) = eip1559_estimate policy base rewards;
               fp = eip1559_with_strategy chain max_fee priority base (cfp_quote_cost_strategy policy)
           in (FeeOk fp, fee_cache_insert later chain fp now)))))))"

section \<open>The native balance a transaction needs\<close>

record native_gas_budget =
  ngb_gas_budget_wei :: nat
  ngb_extra_native_fee_wei :: nat
  ngb_required_wei :: nat

definition native_gas_budget_wei :: "evm_transaction \<Rightarrow> nat \<Rightarrow> native_gas_budget option" where
  "native_gas_budget_wei tx extra =
     (case tx_gas_limit tx of
        None \<Rightarrow> None
      | Some limit \<Rightarrow>
          (case option_or (tx_max_fee_per_gas tx) (tx_gas_price tx) of
             None \<Rightarrow> None
           | Some fee \<Rightarrow>
               (let budget = saturating_mul u256_bound limit fee;
                    required = saturating_add u256_bound (saturating_add u256_bound budget (tx_value tx)) extra
                in Some \<lparr>ngb_gas_budget_wei = budget, ngb_extra_native_fee_wei = extra,
                         ngb_required_wei = required\<rparr>)))"

definition native_gas_shortfall :: "nat \<Rightarrow> nat \<Rightarrow> nat option" where
  "native_gas_shortfall balance required = (if balance < required then Some (required - balance) else None)"

record extra_native_fee_estimate =
  en_raw_fee_wei :: string
  en_buffer_wei :: string
  en_total_fee_wei :: string

definition no_extra_native_fee :: extra_native_fee_estimate where
  "no_extra_native_fee = \<lparr>en_raw_fee_wei = ''0'', en_buffer_wei = ''0'', en_total_fee_wei = ''0''\<rparr>"

definition buffered_extra_native_fee_estimate :: "nat \<Rightarrow> nat \<Rightarrow> extra_native_fee_estimate" where
  "buffered_extra_native_fee_estimate raw bps =
     (let buffer = saturating_mul u256_bound raw bps div 10000;
          total_fee = saturating_add u256_bound raw buffer
      in \<lparr>en_raw_fee_wei = to_dec raw, en_buffer_wei = to_dec buffer, en_total_fee_wei = to_dec total_fee\<rparr>)"

definition ESTIMATED_GAS_LIMIT_BUFFER_BPS :: nat where "ESTIMATED_GAS_LIMIT_BUFFER_BPS = 2000"
definition BPS_DENOMINATOR :: nat where "BPS_DENOMINATOR = 10000"

text \<open>A gas estimate raised by a fifth and rounded up, clamped to 64 bits.\<close>

definition buffer_estimated_gas_limit :: "nat \<Rightarrow> nat" where
  "buffer_estimated_gas_limit gas =
     (let multiplier = BPS_DENOMINATOR + ESTIMATED_GAS_LIMIT_BUFFER_BPS;
          numerator = saturating_mul u128_bound gas multiplier;
          buffered = saturating_add u128_bound numerator (BPS_DENOMINATOR - 1) div BPS_DENOMINATOR
      in if buffered < u64_bound then buffered else u64_bound - 1)"

record insufficient_native_gas_info =
  ig_chain_id :: nat
  ig_signer :: string
  ig_balance_wei :: string
  ig_required_wei :: string
  ig_shortfall_wei :: string
  ig_gas_limit :: "nat option"
  ig_max_fee_per_gas :: "nat option"
  ig_gas_price :: "nat option"
  ig_extra_native_fee_wei :: string
  ig_value_wei :: string

text \<open>The text under which the error is displayed.\<close>

definition insufficient_native_gas_text :: "insufficient_native_gas_info \<Rightarrow> string" where
  "insufficient_native_gas_text i =
     ''Insufficient native gas on chain '' @ to_dec (ig_chain_id i) @ '' for signer '' @ ig_signer i @
     '': balance '' @ ig_balance_wei i @ '' wei, required '' @ ig_required_wei i @
     '' wei, shortfall '' @ ig_shortfall_wei i @ '' wei''"

definition signed_preflight_shortfall_message :: "nat \<Rightarrow> nat \<Rightarrow> nat \<Rightarrow> string" where
  "signed_preflight_shortfall_message balance required shortfall =
     ''insufficient native gas for OP Stack signed transaction preflight: balance '' @ to_dec balance @
     '' wei, required '' @ to_dec required @ '' wei, shortfall '' @ to_dec shortfall @ '' wei''"

definition signed_preflight_insufficient_native_gas_info ::
  "nat \<Rightarrow> string \<Rightarrow> evm_transaction \<Rightarrow> native_gas_budget \<Rightarrow> nat \<Rightarrow> nat \<Rightarrow> insufficient_native_gas_info" where
  "signed_preflight_insufficient_native_gas_info chain signer tx budget balance shortfall =
     \<lparr>ig_chain_id = chain, ig_signer = signer, ig_balance_wei = to_dec balance,
      ig_required_wei = to_dec (ngb_required_wei budget), ig_shortfall_wei = to_dec shortfall,
      ig_gas_limit = tx_gas_limit tx, ig_max_fee_per_gas = tx_max_fee_per_gas tx,
      ig_gas_price = tx_gas_price tx,
      ig_extra_native_fee_wei = to_dec (ngb_extra_native_fee_wei budget),
      ig_value_wei = to_dec (tx_value tx)\<rparr>"

section \<open>Amounts in RPC messages\<close>

text \<open>\<open>split_whitespace\<close> on ASCII text, and \<open>trim_matches\<close>.\<close>

definition space_char :: "char \<Rightarrow> bool" where
  "space_char c = (let n = of_char c :: nat in n = 32 \<or> 9 \<le> n \<and> n \<le> 13)"

fun split_words :: "string \<Rightarrow> string \<Rightarrow> string list" where
  "split_words acc [] = (if acc = [] then [] else [rev acc])"
| "split_words acc (c # s) =
     (if space_char c then (if acc = [] then split_words [] s else rev acc # split_words [] s)
      else split_words (c # acc) s)"

definition split_whitespace :: "string \<Rightarrow> string list" where
  "split_whitespace s = split_words [] s"

definition trim_matches :: "(char \<Rightarrow> bool) \<Rightarrow> string \<Rightarrow> string" where
  "trim_matches p s = rev (dropWhile p (rev (dropWhile p s)))"

definition ascii_digit :: "char \<Rightarrow> bool" where
  "ascii_digit c = (let n = of_char c :: nat in 48 \<le> n \<and> n \<le> 57)"

definition ascii_alphanumeric :: "char \<Rightarrow> bool" where
  "ascii_alphanumeric c =
     (let n = of_char c :: nat in ascii_digit c \<or> 65 \<le> n \<and> n \<le> 90 \<or> 97 \<le> n \<and> n \<le> 122)"

text \<open>One window of two words; a later amount replaces an earlier one, even when it does not parse.\<close>

definition read_amount ::
  "(string \<Rightarrow> (string, nat) result) \<Rightarrow> string \<times> string \<Rightarrow> nat option \<times> nat option \<Rightarrow> nat option \<times> nat option" where
  "read_amount parse_u256 w acc =
     (let word = trim_matches (\<lambda>c. \<not> ascii_alphanumeric c) (fst w);
          amount = result_ok (parse_u256 (trim_matches (\<lambda>c. \<not> ascii_digit c) (snd w)))
      in if word = ''have'' then (amount, snd acc)
         else if word = ''want'' \<or> word = ''required'' then (fst acc, amount)
         else acc)"

definition parse_rpc_insufficient_funds_amounts ::
  "(string \<Rightarrow> (string, nat) result) \<Rightarrow> string \<Rightarrow> (nat \<times> nat) option" where
  "parse_rpc_insufficient_funds_amounts parse_u256 message =
     (let lower = to_lowercase message
      in if \<not> str_contains ''insufficient funds'' lower then None
         else (let tokens = split_whitespace lower
               in (case fold (read_amount parse_u256) (zip tokens (tl tokens)) (None, None) of
                     (Some balance, Some required) \<Rightarrow> Some (balance, required)
                   | _ \<Rightarrow> None)))"

definition estimate_insufficient_native_gas_info ::
  "(string \<Rightarrow> (string, nat) result) \<Rightarrow> nat \<Rightarrow> string \<Rightarrow> evm_transaction \<Rightarrow> string
   \<Rightarrow> insufficient_native_gas_info option" where
  "estimate_insufficient_native_gas_info parse_u256 chain signer tx message =
     (if \<not> str_contains ''insufficient funds'' (to_lowercase message) then None
      else (let (balance, required) =
                  (case parse_rpc_insufficient_funds_amounts parse_u256 message of
                     None \<Rightarrow> (0, 0) | Some p \<Rightarrow> p);
                shortfall = required - balance
            in Some \<lparr>ig_chain_id = chain, ig_signer = signer, ig_balance_wei = to_dec balance,
                     ig_required_wei = to_dec required, ig_shortfall_wei = to_dec shortfall,
                     ig_gas_limit = tx_gas_limit tx, ig_max_fee_per_gas = tx_max_fee_per_gas tx,
                     ig_gas_price = tx_gas_price tx, ig_extra_native_fee_wei = ''0'',
                     ig_value_wei = to_dec (tx_value tx)\<rparr>))"

section \<open>The payload of the L1 data fee estimate\<close>

datatype op_stack_fee_error = MissingGasLimit | MissingFeePerGas | InvalidOracleReturn string

fun op_stack_fee_error_text :: "op_stack_fee_error \<Rightarrow> string" where
  "op_stack_fee_error_text MissingGasLimit = ''OP Stack L1 data fee estimation requires gas_limit''"
| "op_stack_fee_error_text MissingFeePerGas =
     ''OP Stack L1 data fee estimation requires gas_price or max_fee_per_gas''"
| "op_stack_fee_error_text (InvalidOracleReturn m) =
     ''OP Stack GasPriceOracle returned invalid getL1Fee data: '' @ m"

text \<open>\<open>to_be_bytes\<close> of an unsigned integer of \<open>k\<close> bytes.\<close>

definition to_be_bytes :: "nat \<Rightarrow> nat \<Rightarrow> bytes" where
  "to_be_bytes k v = map (\<lambda>i. of_nat (v div 256 ^ i)) (rev [0..<k])"

definition SYNTHETIC_SIGNATURE_BYTES :: nat where "SYNTHETIC_SIGNATURE_BYTES = 65"

definition synthetic_signed_transaction_bytes ::
  "evm_transaction \<Rightarrow> (op_stack_fee_error, bytes) result" where
  "synthetic_signed_transaction_bytes tx =
     (case tx_gas_limit tx of
        None \<Rightarrow> Inl MissingGasLimit
      | Some limit \<Rightarrow>
          (case option_or (tx_max_fee_per_gas tx) (tx_gas_price tx) of
             None \<Rightarrow> Inl MissingFeePerGas
           | Some fee \<Rightarrow>
               (let nonce = (case tx_nonce tx of None \<Rightarrow> 0 | Some n \<Rightarrow> n);
                    type_byte = (if tx_max_fee_per_gas tx \<noteq> None then 2 else 1)
                in Inr (type_byte # to_be_bytes 8 (tx_chain_id tx) @ to_be_bytes 8 nonce @
                     to_be_bytes 16 fee @ to_be_bytes 8 limit @
                     (case tx_to tx of None \<Rightarrow> replicate 20 0 | Some a \<Rightarrow> a) @
                     to_be_bytes 32 (tx_value tx) @ tx_data tx @
                     replicate SYNTHETIC_SIGNATURE_BYTES 255))))"

section \<open>Validated policies\<close>

text \<open>Every amount of a policy fits its type and the buffer is at most the amount itself.\<close>

definition policy_ok :: "chain_fee_policy \<Rightarrow> bool" where
  "policy_ok p \<longleftrightarrow> cfp_priority_fee_fallback p < u128_bound \<and>
     (\<forall>f. cfp_min_priority_fee_per_gas p = Some f \<longrightarrow> f < u128_bound) \<and>
     (\<forall>c. cfp_gas_price_cap p = Some c \<longrightarrow> c < u128_bound) \<and>
     (\<forall>a b. cfp_extra_native_fee p = OpStackL1Data a b \<longrightarrow> b \<le> MAX_EXTRA_NATIVE_FEE_BUFFER_BPS)"

lemma parse_wei_field_bound: "parse_wei_field chain fld raw = Inr n \<Longrightarrow> n < u128_bound"
  by (auto simp: parse_wei_field_def parse_uint_bound split: sum.splits)

lemma opt_field_Inr:
  "opt_field f v = Inr r \<longleftrightarrow> (v = None \<and> r = None) \<or> (\<exists>x y. v = Some x \<and> f x = Inr y \<and> r = Some y)"
  by (auto simp: opt_field_def split: option.splits sum.splits)

lemma parse_extra_buffer:
  "parse_extra_native_fee_policy pa chain cfg = Inr (OpStackL1Data a b) \<Longrightarrow>
   b \<le> MAX_EXTRA_NATIVE_FEE_BUFFER_BPS"
  by (auto simp: parse_extra_native_fee_policy_def Let_def split: option.splits sum.splits if_splits
        extra_native_fee_config.splits)

lemma chain_policy_ok: "chain_policy_from_config pa chain speed cfg = Inr p \<Longrightarrow> policy_ok p"
  by (auto simp: chain_policy_from_config_def policy_ok_def opt_field_Inr
        dest: parse_extra_buffer parse_wei_field_bound [simplified] split: sum.splits)

lemma load_policies_ok:
  "load_policies pa speed entries reg = Inr reg' \<Longrightarrow> (\<And>c p. reg c = Some p \<Longrightarrow> policy_ok p) \<Longrightarrow>
   reg' c = Some p \<Longrightarrow> policy_ok p"
proof (induction pa speed entries reg rule: load_policies.induct)
  case (2 pa speed chain_key cfg rest reg)
  from "2.prems"(1) obtain chain policy where
    parts: "parse_uint u64_bound chain_key = Inr chain"
      "chain_policy_from_config pa chain_key speed cfg = Inr policy"
    and rest: "load_policies pa speed rest (reg(chain \<mapsto> policy)) = Inr reg'"
    by (auto split: sum.splits)
  show ?case
    by (rule "2.IH" [OF parts rest _ "2.prems"(3)])
      (use "2.prems"(2) chain_policy_ok [OF parts(2)] in \<open>auto split: if_splits\<close>)
qed simp

lemma require_policies_Inr: "require_policies reg cs = Inr u \<longleftrightarrow> (\<forall>c \<in> set cs. reg c \<noteq> None)"
  by (induction cs) auto

lemma registry_from_config_covers:
  assumes "registry_from_config pa cfg required = Inr reg"
  shows "c \<in> set required \<Longrightarrow> \<exists>p. policy_for_chain reg c = Some p"
    and "policy_for_chain reg c = Some p \<Longrightarrow> policy_ok p"
proof -
  from assms have load: "load_policies pa (fc_default_speed cfg) (fc_chains cfg) Map.empty = Inr reg"
    and req: "require_policies reg required = Inr ()"
    by (auto simp: registry_from_config_def split: sum.splits)
  show "c \<in> set required \<Longrightarrow> \<exists>p. policy_for_chain reg c = Some p"
    using req by (auto simp: require_policies_Inr policy_for_chain_def)
  show "policy_for_chain reg c = Some p \<Longrightarrow> policy_ok p"
    using load_policies_ok [OF load] by (simp add: policy_for_chain_def)
qed

section \<open>The estimate\<close>

lemma nonzero_rewards_set:
  "set (nonzero_rewards rewards) = {v. v > 0 \<and> (\<exists>rest. v # rest \<in> set rewards)}"
proof -
  have "set (List.map_filter (\<lambda>row. case row of [] \<Rightarrow> None | v # _ \<Rightarrow> Some v) rewards) =
      {v. \<exists>rest. v # rest \<in> set rewards}"
    by (induction rewards) (auto simp: List.map_filter_def split: list.splits)
  then show ?thesis by (auto simp: nonzero_rewards_def)
qed

lemma sorted_nonzero_rewards [simp]: "sorted (nonzero_rewards rewards)"
  by (simp add: nonzero_rewards_def)

text \<open>
  The middle of a sorted list is a median: at least half of the list lies on either side of it.
\<close>

lemma sorted_middle:
  assumes "sorted xs" and "i < length xs"
  shows "i < length (filter (\<lambda>v. v \<le> xs ! i) xs)"
    and "length xs - i \<le> length (filter (\<lambda>v. xs ! i \<le> v) xs)"
proof -
  have "{0..i} \<subseteq> {j. j < length xs \<and> xs ! j \<le> xs ! i}"
    using assms by (auto intro: sorted_nth_mono)
  then have "card {0..i} \<le> card {j. j < length xs \<and> xs ! j \<le> xs ! i}" by (intro card_mono) auto
  then show "i < length (filter (\<lambda>v. v \<le> xs ! i) xs)" by (simp add: length_filter_conv_card)
  have "{i..<length xs} \<subseteq> {j. j < length xs \<and> xs ! i \<le> xs ! j}"
    using assms by (auto intro: sorted_nth_mono)
  then have "card {i..<length xs} \<le> card {j. j < length xs \<and> xs ! i \<le> xs ! j}" by (intro card_mono) auto
  then show "length xs - i \<le> length (filter (\<lambda>v. xs ! i \<le> v) xs)" by (simp add: length_filter_conv_card)
qed

lemma median_reward_half:
  assumes "nonzero_rewards rewards \<noteq> []"
  defines "xs \<equiv> nonzero_rewards rewards"
  shows "median_reward rewards \<in> set xs"
    and "length xs \<le> 2 * length (filter (\<lambda>v. v \<le> median_reward rewards) xs)"
    and "length xs \<le> 2 * length (filter (\<lambda>v. median_reward rewards \<le> v) xs)"
proof -
  have lt: "length xs div 2 < length xs" using assms by (cases xs) auto
  then have m: "median_reward rewards = xs ! (length xs div 2)"
    by (simp add: median_reward_def xs_def Let_def)
  have s: "sorted xs" by (simp add: xs_def)
  show "median_reward rewards \<in> set xs" using lt m by simp
  show "length xs \<le> 2 * length (filter (\<lambda>v. v \<le> median_reward rewards) xs)"
    using sorted_middle(1) [OF s lt] unfolding m by linarith
  show "length xs \<le> 2 * length (filter (\<lambda>v. median_reward rewards \<le> v) xs)"
    using sorted_middle(2) [OF s lt] unfolding m by linarith
qed

definition rewards_ok :: "nat list list \<Rightarrow> bool" where
  "rewards_ok rewards \<longleftrightarrow> (\<forall>row \<in> set rewards. \<forall>v \<in> set row. v < u128_bound)"

lemma median_reward_bound: "rewards_ok rewards \<Longrightarrow> median_reward rewards < u128_bound"
proof (cases "nonzero_rewards rewards = []")
  case False
  assume "rewards_ok rewards"
  then show ?thesis
    using median_reward_half(1) [OF False] by (fastforce simp: nonzero_rewards_set rewards_ok_def)
qed (simp add: median_reward_def)

text \<open>What the fees bid under a policy satisfy.\<close>

definition bid_ok :: "chain_fee_policy \<Rightarrow> nat \<Rightarrow> nat \<Rightarrow> bool" where
  "bid_ok policy max_fee priority \<longleftrightarrow>
     cfp_priority_fee_fallback policy \<le> priority \<and>
     (\<forall>f. cfp_min_priority_fee_per_gas policy = Some f \<longrightarrow> f \<le> priority) \<and>
     priority \<le> max_fee \<and> max_fee < u128_bound \<and>
     (\<forall>cap. cfp_gas_price_cap policy = Some cap \<longrightarrow> max_fee \<le> max cap priority)"

lemma eip1559_estimate_ok:
  assumes "policy_ok policy" and "rewards_ok rewards"
  shows "bid_ok policy (fst (eip1559_estimate policy base rewards)) (snd (eip1559_estimate policy base rewards))"
proof -
  have "snd (eip1559_estimate policy base rewards) < u128_bound"
    using assms median_reward_bound [of rewards]
    by (auto simp: eip1559_estimate_def Let_def policy_ok_def split: option.splits)
  moreover have "saturating_add u128_bound a b < u128_bound" for a b
    by (simp add: saturating_add_def)
  moreover have "cfp_gas_price_cap policy = Some c \<Longrightarrow> c < u128_bound" for c
    using assms(1) by (simp add: policy_ok_def)
  ultimately show ?thesis
    by (auto simp: bid_ok_def eip1559_estimate_def Let_def min_def split: option.splits)
qed

text \<open>Without a cap the bid survives a doubling of the base fee.\<close>

lemma eip1559_estimate_headroom:
  assumes "cfp_gas_price_cap policy = None"
    and "2 * base + snd (eip1559_estimate policy base rewards) < u128_bound"
  shows "fst (eip1559_estimate policy base rewards) = 2 * base + snd (eip1559_estimate policy base rewards)"
  using assms by (auto simp: eip1559_estimate_def Let_def saturating_add_def saturating_mul_def)

section \<open>Resolved fees\<close>

definition fee_params_ok :: "chain_fee_policy \<Rightarrow> nat \<Rightarrow> fee_params \<Rightarrow> bool" where
  "fee_params_ok policy chain fp \<longleftrightarrow> fp_chain_id fp = chain \<and>
     (case fp_model fp of
        LegacyFees \<Rightarrow>
          (\<exists>g. fp_gas_price fp = Some g \<and> fp_cost_per_gas fp = g \<and> fp_max_fee_per_gas fp = None \<and>
             (\<forall>cap. cfp_gas_price_cap policy = Some cap \<longrightarrow> g \<le> cap))
      | Eip1559Fees \<Rightarrow>
          (\<exists>m p. fp_max_fee_per_gas fp = Some m \<and> fp_max_priority_fee_per_gas fp = Some p \<and>
             fp_gas_price fp = None \<and> bid_ok policy m p \<and> p \<le> fp_cost_per_gas fp \<and>
             (cfp_quote_cost_strategy policy \<noteq> EffectiveCost \<longrightarrow> fp_cost_per_gas fp \<le> m))
      | StarknetFixedFees \<Rightarrow> False)"

lemma legacy_fee_params_ok:
  "fee_params_ok policy chain (legacy_fee_params chain (clamp_legacy_gas_price_to_cap gp policy))"
  by (simp add: fee_params_ok_def legacy_fee_params_def clamp_legacy_gas_price_to_cap_def
        split: option.splits)

lemma eip1559_fee_params_ok:
  assumes "policy_ok policy" and "rewards_ok rewards" and "eip1559_estimate policy base rewards = (m, p)"
  shows "fee_params_ok policy chain
    (eip1559_with_strategy chain m p base (cfp_quote_cost_strategy policy))"
proof -
  have bid: "bid_ok policy m p" using eip1559_estimate_ok [OF assms(1,2), of base] assms(3) by simp
  then have "p \<le> m" by (simp add: bid_ok_def)
  with bid show ?thesis
    by (simp add: fee_params_ok_def eip1559_with_strategy_def Let_def split: fee_cost_strategy.splits)
qed

definition fee_cache_ok :: "fee_registry \<Rightarrow> fee_cache \<Rightarrow> bool" where
  "fee_cache_ok reg cache \<longleftrightarrow>
     (\<forall>c fp t. cache c = Some (fp, t) \<longrightarrow> (\<exists>policy. reg c = Some policy \<and> fee_params_ok policy c fp))"

lemma fee_cache_ok_empty [simp]: "fee_cache_ok reg Map.empty"
  by (simp add: fee_cache_ok_def)

lemma fee_cache_ok_insert:
  "fee_cache_ok reg cache \<Longrightarrow> reg c = Some policy \<Longrightarrow> fee_params_ok policy c fp \<Longrightarrow>
   fee_cache_ok reg (fee_cache_insert cache c fp t)"
  by (simp add: fee_cache_ok_def fee_cache_insert_def)

lemma fee_cache_get_ok:
  "fee_cache_ok reg cache \<Longrightarrow> fee_cache_get cache c ttl now = Some fp \<Longrightarrow>
   \<exists>policy. reg c = Some policy \<and> fee_params_ok policy c fp"
  by (auto simp: fee_cache_ok_def fee_cache_get_def split: option.splits if_splits)

definition history_ok :: "fee_answers \<Rightarrow> bool" where
  "history_ok ans \<longleftrightarrow>
     (\<forall>pct h rows. fa_history ans pct = Inr h \<longrightarrow> fh_reward h = Some rows \<longrightarrow> rewards_ok rows)"

lemma get_fee_params_cases:
  assumes "get_fee_params provided reg ans now chain cache later = (FeeOk fp, cache')"
    and "history_ok ans" and "\<And>p. reg chain = Some p \<Longrightarrow> policy_ok p"
  obtains (hit) "fee_cache_get cache chain (fee_params_cache_ttl chain) now = Some fp" "cache' = later"
  | (fresh) policy where "reg chain = Some policy" "fee_params_ok policy chain fp"
      "cache' = later \<or> cache' = fee_cache_insert later chain fp now"
proof (cases "fee_cache_get cache chain (fee_params_cache_ttl chain) now")
  case (Some fp')
  then show thesis using assms(1) hit by (simp add: get_fee_params_def)
next
  case None
  obtain policy where p: "reg chain = Some policy"
    using assms(1) None by (auto simp: get_fee_params_def policy_for_chain_def split: if_splits option.splits)
  note [simp] = get_fee_params_def None p policy_for_chain_def
  show thesis
  proof (cases "fa_history ans (reward_percentile (cfp_speed policy))")
    case (Inl e)
    then show thesis
      using assms(1) fresh [OF p] legacy_fee_params_ok by (auto split: if_splits sum.splits)
  next
    case h: (Inr history)
    then obtain base where b: "resolve_base_fee ans history = Inr base"
      using assms(1) by (auto split: if_splits sum.splits)
    have rows: "rewards_ok (case fh_reward history of None \<Rightarrow> [] | Some rows \<Rightarrow> rows)"
    proof (cases "fh_reward history")
      case (Some rows)
      then show ?thesis using assms(2) h unfolding history_ok_def by simp
    qed (simp add: rewards_ok_def)
    show thesis
    proof (cases base)
      case None
      then show thesis
        using assms(1) h b fresh [OF p] legacy_fee_params_ok
        by (auto simp: Let_def split: if_splits sum.splits)
    next
      case (Some bf)
      then show thesis
        using assms(1) h b fresh [OF p] eip1559_fee_params_ok [OF assms(3) [OF p] rows]
        by (auto simp: Let_def split: if_splits prod.splits)
    qed
  qed
qed

lemma get_fee_params_sound:
  assumes "get_fee_params provided reg ans now chain cache later = (FeeOk fp, cache')"
    and "history_ok ans" and "\<And>c p. reg c = Some p \<Longrightarrow> policy_ok p"
    and "fee_cache_ok reg cache" and "fee_cache_ok reg later"
  shows "(\<exists>policy. reg chain = Some policy \<and> fee_params_ok policy chain fp) \<and> fee_cache_ok reg cache'"
  by (rule get_fee_params_cases [OF assms(1,2) assms(3)])
    (use assms(4,5) fee_cache_get_ok fee_cache_ok_insert in blast)+

lemma get_fee_params_no_panic:
  assumes "registry_from_config pa cfg required = Inr reg" and "chain \<in> set required"
  shows "fst (get_fee_params provided reg ans now chain cache later) \<noteq> FeePanic"
  using registry_from_config_covers(1) [OF assms]
  by (auto simp: get_fee_params_def Let_def split: option.splits sum.splits prod.splits)

lemma get_fee_params_feeds_budget:
  assumes "fee_params_ok policy chain fp" and "tx_gas_limit tx \<noteq> None"
    and "tx_gas_price tx = None" and "tx_max_fee_per_gas tx = None" and "tx_max_priority_fee_per_gas tx = None"
  shows "\<exists>b. native_gas_budget_wei (apply_if_missing fp tx) extra = Some b"
  using assms
  by (auto simp: fee_params_ok_def native_gas_budget_wei_def apply_if_missing_def Let_def
        split: fee_model.splits option.splits)

section \<open>Budgets and gas limits\<close>

text \<open>
  A balance without shortfall pays for the whole gas limit at the bid price, the value and the
  extra fee, unless the balance is the largest 256-bit number.
\<close>

lemma no_shortfall_covers:
  assumes "native_gas_budget_wei tx extra = Some budget"
    and "native_gas_shortfall balance (ngb_required_wei budget) = None" and "balance < u256_bound - 1"
  shows "\<exists>limit fee. tx_gas_limit tx = Some limit \<and>
    option_or (tx_max_fee_per_gas tx) (tx_gas_price tx) = Some fee \<and>
    limit * fee + tx_value tx + extra \<le> balance"
  using assms
  by (auto simp: native_gas_budget_wei_def native_gas_shortfall_def saturating_add_def saturating_mul_def
        Let_def split: option.splits if_splits)

lemma buffer_estimated_gas_limit_exact:
  assumes "gas < u64_bound"
  shows "buffer_estimated_gas_limit gas = min ((12 * gas + 9) div 10) (u64_bound - 1)"
proof -
  have "(gas * 12000 + 9999) div 10000 = (12 * gas + 9) div 10"
    by (simp add: div_nat_eqI dual_order.strict_trans1)
  then show ?thesis
    using assms by (simp add: buffer_estimated_gas_limit_def saturating_mul_def saturating_add_def
        Let_def BPS_DENOMINATOR_def ESTIMATED_GAS_LIMIT_BUFFER_BPS_def)
qed

lemma length_to_be_bytes [simp]: "length (to_be_bytes k v) = k"
  by (simp add: to_be_bytes_def)

lemma synthetic_length:
  assumes "synthetic_signed_transaction_bytes tx = Inr bs"
  shows "length bs = 138 + (case tx_to tx of None \<Rightarrow> 20 | Some a \<Rightarrow> length a) + length (tx_data tx)"
  using assms
  by (auto simp: synthetic_signed_transaction_bytes_def Let_def SYNTHETIC_SIGNATURE_BYTES_def
        split: option.splits)

section \<open>Reading amounts back from a node's message\<close>

lemma split_words_append:
  "\<forall>c \<in> set s. \<not> space_char c \<Longrightarrow> split_words acc (s @ t) = split_words (rev s @ acc) t"
  by (induction s arbitrary: acc) auto

lemma split_words_word:
  assumes "\<forall>c \<in> set s. \<not> space_char c" and "s \<noteq> []"
  shows "split_words [] (s @ CHR '' '' # t) = s # split_words [] t" "split_words [] s = [s]"
proof -
  show "split_words [] (s @ CHR '' '' # t) = s # split_words [] t"
    using assms by (simp add: split_words_append space_char_def)
  show "split_words [] s = [s]" using split_words_append [of s "[]" "[]"] assms by simp
qed

lemma digit_char_ascii: "d < 10 \<Longrightarrow> ascii_digit (digit_char d) \<and> \<not> space_char (digit_char d) \<and>
    lower_char (digit_char d) = digit_char d"
  by (auto simp: ascii_digit_def space_char_def lower_char_def digit_char_def Let_def)

lemma to_dec_chars:
  "c \<in> set (to_dec n) \<Longrightarrow> ascii_digit c \<and> \<not> space_char c \<and> lower_char c = c"
  using nat_digits_less [of 10] digit_char_ascii by (force simp: to_dec_def)

lemma trim_matches_id: "s \<noteq> [] \<Longrightarrow> \<forall>c \<in> set s. \<not> p c \<Longrightarrow> trim_matches p s = s"
  by (simp add: trim_matches_def dropWhile_eq_self_iff hd_rev rev_swap)

lemma trim_digits_to_dec [simp]: "trim_matches (\<lambda>c. \<not> ascii_digit c) (to_dec n) = to_dec n"
  by (rule trim_matches_id) (auto dest: to_dec_chars)

lemma to_lowercase_to_dec [simp]: "to_lowercase (to_dec n) = to_dec n"
  unfolding to_lowercase_def by (rule map_idI) (auto dest: to_dec_chars)

lemma to_lowercase_append: "to_lowercase (s @ t) = to_lowercase s @ to_lowercase t"
  by (simp add: to_lowercase_def)

lemma str_contains_append: "str_contains p s \<Longrightarrow> str_contains p (s @ t)"
proof (induction s)
  case Nil
  then show ?case by (cases t) auto
next
  case (Cons c s)
  then show ?case by (metis append_Cons prefix_prefix str_contains.simps(2))
qed

lemma split_to_dec:
  "split_words [] (to_dec n @ CHR '' '' # t) = to_dec n # split_words [] t" "split_words [] (to_dec n) = [to_dec n]"
  using split_words_word [of "to_dec n"] by (auto dest: to_dec_chars)

text \<open>The two wordings of geth.\<close>

definition insufficient_funds_message :: "nat \<Rightarrow> nat \<Rightarrow> string" where
  "insufficient_funds_message balance required =
     ''insufficient funds for gas * price + value: have '' @ to_dec balance @ '' want '' @ to_dec required"

lemma funds_words:
  "split_whitespace (''insufficient funds for gas * price + value: have '' @ t) =
     [''insufficient'', ''funds'', ''for'', ''gas'', ''*'', ''price'', ''+'', ''value:'', ''have''] @
     split_words [] t"
  by (simp add: split_whitespace_def space_char_def)

lemma want_words: "split_words [] ('' want '' @ t) = ''want'' # split_words [] t"
  by (simp add: space_char_def)

lemma read_amount_skip:
  "trim_matches (\<lambda>c. \<not> ascii_alphanumeric c) w \<notin> {''have'', ''want'', ''required''} \<Longrightarrow>
   read_amount parse_u256 (w, x) acc = acc"
  by (simp add: read_amount_def Let_def)

lemma read_amount_number [simp]: "read_amount parse_u256 (to_dec n, x) acc = acc"
proof (rule read_amount_skip)
  have "trim_matches (\<lambda>c. \<not> ascii_alphanumeric c) (to_dec n) = to_dec n"
    by (rule trim_matches_id) (auto simp: ascii_alphanumeric_def Let_def dest: to_dec_chars)
  moreover have "CHR ''a'' \<notin> set (to_dec n)" "CHR ''r'' \<notin> set (to_dec n)"
    using to_dec_chars by (fastforce simp: ascii_digit_def)+
  then have "to_dec n \<notin> {''have'', ''want'', ''required''}" by auto
  ultimately show "trim_matches (\<lambda>c. \<not> ascii_alphanumeric c) (to_dec n) \<notin> {''have'', ''want'', ''required''}"
    by simp
qed

lemma read_amount_found:
  assumes "parse_u256 (to_dec n) = Inr n"
  shows "read_amount parse_u256 (''have'', to_dec n) acc = (Some n, snd acc)"
    and "read_amount parse_u256 (''want'', to_dec n) acc = (fst acc, Some n)"
proof -
  have "trim_matches (\<lambda>c. \<not> ascii_alphanumeric c) ''have'' = ''have''"
    "trim_matches (\<lambda>c. \<not> ascii_alphanumeric c) ''want'' = ''want''"
    by code_simp+
  then show "read_amount parse_u256 (''have'', to_dec n) acc = (Some n, snd acc)"
    and "read_amount parse_u256 (''want'', to_dec n) acc = (fst acc, Some n)"
    by (simp_all add: read_amount_def Let_def assms)
qed

definition prose_words :: "string list" where
  "prose_words = [''insufficient'', ''funds'', ''for'', ''gas'', ''*'', ''price'', ''+'', ''value:'']"

lemma prose_words_skipped:
  "list_all (\<lambda>w. trim_matches (\<lambda>c. \<not> ascii_alphanumeric c) w \<notin> {''have'', ''want'', ''required''}) prose_words"
  by code_simp

lemma read_amount_prose: "w \<in> set prose_words \<Longrightarrow> read_amount parse_u256 (w, x) acc = acc"
  by (erule read_amount_skip [OF bspec [OF prose_words_skipped [unfolded list_all_iff]]])

lemma insufficient_funds_amounts:
  assumes "\<And>n. n < u256_bound \<Longrightarrow> parse_u256 (to_dec n) = Inr n"
    and "balance < u256_bound" and "required < u256_bound"
  shows "parse_rpc_insufficient_funds_amounts parse_u256 (insufficient_funds_message balance required) =
    Some (balance, required)"
proof -
  have low: "to_lowercase (insufficient_funds_message balance required) =
      insufficient_funds_message balance required"
    by (simp add: insufficient_funds_message_def to_lowercase_append)
      (simp add: to_lowercase_def lower_char_def to_lowercase_to_dec [unfolded to_lowercase_def])
  have con: "str_contains ''insufficient funds'' (insufficient_funds_message balance required)"
    unfolding insufficient_funds_message_def by (rule str_contains_append) simp
  have ws: "split_whitespace (insufficient_funds_message balance required) =
      [''insufficient'', ''funds'', ''for'', ''gas'', ''*'', ''price'', ''+'', ''value:'', ''have'',
       to_dec balance, ''want'', to_dec required]"
    unfolding insufficient_funds_message_def funds_words
    using split_to_dec(1) [of balance "''want '' @ to_dec required"] want_words [of "to_dec required"]
    by (simp add: split_to_dec(2) space_char_def)
  show ?thesis
    unfolding parse_rpc_insufficient_funds_amounts_def low ws Let_def
    using con read_amount_found(1) [of parse_u256 balance] read_amount_found(2) [of parse_u256 required]
      assms(1) [OF assms(2)] assms(1) [OF assms(3)]
    by (simp add: read_amount_prose prose_words_def)
qed

section \<open>Fees under a validated policy\<close>

lemma get_fee_params_cache_kept:
  "get_fee_params provided reg ans now chain cache later = (out, cache') \<Longrightarrow> (\<And>fp. out \<noteq> FeeOk fp) \<Longrightarrow>
   cache' = later"
  by (auto simp: get_fee_params_def Let_def split: option.splits sum.splits if_splits prod.splits)

text \<open>
  C20: Under a fee policy that passed start-up validation, resolving the fees of a configured chain
  never panics.  What it answers, from the cache or from the chain, is for that chain and within the
  policy: a legacy price is at most the cap; an EIP-1559 bid has a priority fee at or above the
  configured floor and fallback, a maximum fee at or above the priority fee and at most the cap
  (unless the priority fee itself exceeds it), and a quoted cost between the two unless the policy
  quotes the effective fee.  A transaction with a gas limit and no fees of its own then has a
  native budget, and the cache keeps only such answers.
\<close>

theorem fees_stay_within_policy:
  assumes valid: "registry_from_config pa cfg required = Inr reg" and chain: "chain \<in> set required"
    and run: "get_fee_params provided reg ans now chain cache later = (out, cache')"
    and answers: "history_ok ans" and caches: "fee_cache_ok reg cache" "fee_cache_ok reg later"
  shows "out \<noteq> FeePanic \<and> fee_cache_ok reg cache' \<and>
    (\<forall>fp. out = FeeOk fp \<longrightarrow>
       (\<exists>policy. policy_for_chain reg chain = Some policy \<and> fee_params_ok policy chain fp) \<and>
       (\<forall>tx extra. tx_gas_limit tx \<noteq> None \<longrightarrow> tx_gas_price tx = None \<longrightarrow> tx_max_fee_per_gas tx = None \<longrightarrow>
          tx_max_priority_fee_per_gas tx = None \<longrightarrow>
          (\<exists>b. native_gas_budget_wei (apply_if_missing fp tx) extra = Some b)))"
proof -
  have pol: "\<And>c p. reg c = Some p \<Longrightarrow> policy_ok p"
    using registry_from_config_covers(2) [OF valid] by (simp add: policy_for_chain_def)
  have "out \<noteq> FeePanic" using get_fee_params_no_panic [OF valid chain] run by (metis fst_conv)
  moreover have "fee_cache_ok reg cache'"
    using get_fee_params_sound [of provided reg ans now chain cache later _ cache']
      get_fee_params_cache_kept [OF run] run answers pol caches by (cases out) auto
  moreover have "(\<exists>policy. policy_for_chain reg chain = Some policy \<and> fee_params_ok policy chain fp)"
    if "out = FeeOk fp" for fp
    using get_fee_params_sound [OF run [unfolded that] answers pol caches] by (simp add: policy_for_chain_def)
  ultimately show ?thesis using get_fee_params_feeds_budget by blast
qed

definition demo_policy_config :: "string \<Rightarrow> chain_fee_policy_config" where
  "demo_policy_config cap =
     \<lparr>cc_min_priority_fee_per_gas = Some ''5'', cc_priority_fee_fallback = ''2'',
      cc_quote_cost_strategy = BufferedEffective125, cc_gas_price_cap = Some cap,
      cc_extra_native_fee = Some (OpStackL1DataConfig None (Some 500))\<rparr>"

definition demo_fee_config :: fee_policy_config where
  "demo_fee_config = \<lparr>fc_default_speed = Fast, fc_chains = [(''7'', demo_policy_config ''40'')]\<rparr>"

definition demo_policy :: chain_fee_policy where
  "demo_policy = \<lparr>cfp_speed = Fast, cfp_min_priority_fee_per_gas = Some 5, cfp_priority_fee_fallback = 2,
     cfp_quote_cost_strategy = BufferedEffective125, cfp_gas_price_cap = Some 40,
     cfp_extra_native_fee = OpStackL1Data DEFAULT_OP_STACK_GAS_PRICE_ORACLE 500\<rparr>"

definition demo_fee_answers :: fee_answers where
  "demo_fee_answers = \<lparr>fa_history = (\<lambda>_. Inr \<lparr>fh_latest_block_base_fee = Some 30,
       fh_reward = Some [[0], [9], [], [7], [8]]\<rparr>),
     fa_block_base_fee = Inl ''unused'', fa_gas_price = Inl ''unused''\<rparr>"

lemma demo_parse:
  "parse_uint u128_bound ''5'' = Inr 5" "parse_uint u128_bound ''2'' = Inr 2"
  "parse_uint u128_bound ''40'' = Inr 40" "parse_uint u64_bound ''7'' = Inr 7"
  "parse_uint u64_bound ''07'' = Inr 7" "parse_uint u128_bound ''60'' = Inr 60"
  by (simp_all add: parse_uint_def digit_of_def)

lemma demo_registry: "registry_from_config (\<lambda>_. Inl e) demo_fee_config [7] = Inr [7 \<mapsto> demo_policy]"
  by (simp only: registry_from_config_def demo_fee_config_def fee_policy_config.simps load_policies.simps
        demo_parse sum.case chain_policy_from_config_def demo_policy_config_def chain_fee_policy_config.simps
        opt_field_def option.case parse_wei_field_def)
    (simp add: parse_extra_native_fee_policy_def opt_field_def MAX_EXTRA_NATIVE_FEE_BUFFER_BPS_def demo_policy_def)

lemma demo_estimate: "eip1559_estimate demo_policy 30 [[0], [9], [], [7], [8]] = (40, 8)"
  by (simp add: eip1559_estimate_def demo_policy_def median_reward_def nonzero_rewards_def
        List.map_filter_def saturating_add_def saturating_mul_def)

lemma demo_resolution:
  "get_fee_params (\<lambda>_. True) [7 \<mapsto> demo_policy] demo_fee_answers 5 7 Map.empty Map.empty =
     (let fp = eip1559_with_strategy 7 40 8 30 BufferedEffective125
      in (FeeOk fp, fee_cache_insert Map.empty 7 fp 5))"
  using demo_estimate
  by (simp add: get_fee_params_def fee_cache_get_def policy_for_chain_def demo_fee_answers_def
        resolve_base_fee_def present_fee_def Let_def) (simp add: demo_policy_def)

theorem fees_stay_within_policy_witness:
  "fee_params_ok demo_policy 7 (eip1559_with_strategy 7 40 8 30 BufferedEffective125)"
proof -
  have "history_ok demo_fee_answers" by (auto simp: history_ok_def demo_fee_answers_def rewards_ok_def)
  then show ?thesis
    using fees_stay_within_policy [OF demo_registry _ demo_resolution [unfolded Let_def]]
    by (simp add: policy_for_chain_def)
qed

text \<open>
  Two keys that denote the same chain are both accepted, and the order in which the hash map is
  iterated decides whose policy is in force.
\<close>

definition ambiguous_fee_config :: "bool \<Rightarrow> fee_policy_config" where
  "ambiguous_fee_config swapped =
     (let entries = [(''7'', demo_policy_config ''40''), (''07'', demo_policy_config ''60'')]
      in \<lparr>fc_default_speed = Fast, fc_chains = (if swapped then rev entries else entries)\<rparr>)"

lemma chain_policy_demo:
  "chain_policy_from_config pa key Fast (demo_policy_config ''40'') = Inr demo_policy"
  "chain_policy_from_config pa key Fast (demo_policy_config ''60'') = Inr (demo_policy\<lparr>cfp_gas_price_cap := Some 60\<rparr>)"
  by (simp only: chain_policy_from_config_def demo_policy_config_def chain_fee_policy_config.simps
        opt_field_def option.case parse_wei_field_def demo_parse sum.case,
      simp add: parse_extra_native_fee_policy_def opt_field_def MAX_EXTRA_NATIVE_FEE_BUFFER_BPS_def demo_policy_def)+

lemma duplicate_chain_keys_order_dependent:
  "registry_from_config pa (ambiguous_fee_config False) [7] = Inr [7 \<mapsto> demo_policy\<lparr>cfp_gas_price_cap := Some 60\<rparr>]"
  "registry_from_config pa (ambiguous_fee_config True) [7] = Inr [7 \<mapsto> demo_policy]"
  by (simp_all only: registry_from_config_def ambiguous_fee_config_def fee_policy_config.simps Let_def if_True
        if_False rev.simps append.simps load_policies.simps demo_parse sum.case chain_policy_demo)
    simp_all
end
