(* ===== verification/Evm_Submit.thy ===== *)
theory Evm_Submit
  imports Evm_Fees Nonce_Manager Attempt_Store Solver_Machine
begin

text \<open>
  Submission on EVM chains, \<^verbatim>\<open>AlloyDelivery::submit\<close> of
  \<^verbatim>\<open>crates/solver-delivery/src/implementations/evm/alloy.rs\<close>: fees and balance checks, the nonce,
  the ledger row, the local signature, the raw send with the classification of its answer, the one
  retry after a nonce that was too low, and the release of nonces that were not used.

  A submission is a run on the state of the delivery service: the ledger's store, the nonce caches
  and the fee cache.  Everything outside is asked at the \<open>n\<close>-th await of the run: JSON-RPC answers
  and signatures are functions of that number, and between any two awaits other tasks may change
  the nonce and fee caches (\<open>ed_other_nonces\<close>, \<open>ed_other_fees\<close>) and the store (the scheduler of the
  storage service).  A run emits what it did to the outside.
\<close>

section \<open>The answer to a raw send\<close>

datatype raw_send_verdict =
    SendAccepted
  | SendAmbiguous
  | SendRejected string
  | SendReplacementRejected string
  | SendNonceTooLow string

definition classify_raw_send_outcome :: "string option \<Rightarrow> raw_send_verdict" where
  "classify_raw_send_outcome error_message =
     (case error_message of
        None \<Rightarrow> SendAccepted
      | Some msg \<Rightarrow>
          (let lower = to_lowercase msg
           in if str_contains ''already known'' lower then SendAccepted
              else if str_contains ''replacement fee too low'' lower \<or>
                str_contains ''transaction already exists'' lower
              then SendReplacementRejected msg
              else (case classify_submission_outcome msg of
                      Replacement \<Rightarrow> SendReplacementRejected msg
                    | Ambiguous \<Rightarrow> SendAmbiguous
                    | DefinitelyRejected \<Rightarrow> SendRejected msg
                    | NonceTooLow \<Rightarrow> SendNonceTooLow msg)))"

section \<open>Nonce cache policy\<close>

text \<open>The nonce to take back, when it is known.\<close>

datatype nonce_cache_action = AttemptRollback "nat option"

definition nonce_too_low_retry_nonce_cache_action :: nonce_cache_action where
  "nonce_too_low_retry_nonce_cache_action = AttemptRollback None"

fun apply_nonce_cache_action ::
  "nonce_cache \<Rightarrow> bytes \<Rightarrow> nonce_cache_action \<Rightarrow> nat option \<Rightarrow> nat option \<times> nonce_cache" where
  "apply_nonce_cache_action cache signer (AttemptRollback rejected_nonce) chain_pending =
     (case chain_pending of
        Some pending \<Rightarrow>
          (case rejected_nonce of
             Some rejected \<Rightarrow>
               (let (r, cache1) = reclaim_rejected_nonce cache signer rejected pending in (Some (snd r), cache1))
           | None \<Rightarrow> (let (r, cache1) = reset_next_nonce cache signer pending in (Some r, cache1)))
      | None \<Rightarrow> (peek cache signer, cache))"

text \<open>The monitor of nonce drift only logs; what it counts decides how loudly.\<close>

datatype drift_severity = DriftNormal | DriftWarn | DriftError

definition NONCE_DRIFT_WARN_THRESHOLD :: int where "NONCE_DRIFT_WARN_THRESHOLD = 3"
definition NONCE_DRIFT_WARN_AFTER_TICKS :: nat where "NONCE_DRIFT_WARN_AFTER_TICKS = 5"
definition NONCE_DRIFT_ERROR_AFTER_TICKS :: nat where "NONCE_DRIFT_ERROR_AFTER_TICKS = 15"

definition drift_severity_for_ticks :: "nat \<Rightarrow> drift_severity" where
  "drift_severity_for_ticks ticks =
     (if ticks \<ge> NONCE_DRIFT_ERROR_AFTER_TICKS then DriftError
      else if ticks \<ge> NONCE_DRIFT_WARN_AFTER_TICKS then DriftWarn else DriftNormal)"

text \<open>
  One reading of the drift monitor for a chain and its signer: the consecutive count (\<open>None\<close> when
  the entry is removed) and the severity logged.
\<close>

definition drift_tick ::
  "nonce_cache \<Rightarrow> bytes \<Rightarrow> (string, nat) result \<Rightarrow> nat option \<Rightarrow> nat option \<times> drift_severity option" where
  "drift_tick cache signer pending consecutive =
     (case pending of
        Inl _ \<Rightarrow> (consecutive, None)
      | Inr p \<Rightarrow>
          if cache_lead cache signer p < NONCE_DRIFT_WARN_THRESHOLD then (None, Some DriftNormal)
          else (let count = saturating_add u32_bound (case consecutive of None \<Rightarrow> 0 | Some n \<Rightarrow> n) 1
                in (Some count, Some (drift_severity_for_ticks count))))"

section \<open>The delivery service and its surroundings\<close>

record 's evm_state =
  es_world :: "'s world"
  es_nonces :: "nat \<Rightarrow> nonce_cache"
  es_fees :: fee_cache
  es_awaits :: nat

datatype sign_failure = NotATypedTransaction | SignerFailed string

record ('s, 'b) evm_delivery =
  ed_backend :: "('s, 'b) backend"
  ed_codec :: "(transaction_attempt, 'b) codec"
  ed_hexe :: "bytes \<Rightarrow> string"
  ed_sched :: "'s sched"
  ed_new_id :: "nat \<Rightarrow> string"
  ed_providers :: "nat \<Rightarrow> bool"
  ed_nonce_managers :: "nat \<Rightarrow> bool"
  ed_signer_addresses :: "nat \<Rightarrow> bytes option"
  ed_signers :: "nat \<Rightarrow> bool"
  ed_registry :: fee_registry
  ed_show_address :: "bytes \<Rightarrow> string"
  ed_parse_u256 :: "string \<Rightarrow> (string, nat) result"
  ed_now :: "nat \<Rightarrow> nat"
  ed_fee_answers :: "nat \<Rightarrow> fee_answers"
  ed_balance :: "nat \<Rightarrow> (string, nat) result"
  ed_pending :: "nat \<Rightarrow> (string, nat) result"
  ed_estimate :: "nat \<Rightarrow> evm_transaction \<Rightarrow> (string, nat) result"
  ed_sign :: "nat \<Rightarrow> evm_transaction \<Rightarrow> (sign_failure, bytes \<times> bytes) result"
  ed_send :: "nat \<Rightarrow> bytes \<Rightarrow> string option"
  ed_l1_fee_call :: "nat \<Rightarrow> bytes \<Rightarrow> bytes \<Rightarrow> (string, bytes) result"
  ed_decode_l1_fee :: "bytes \<Rightarrow> (string, nat) result"
  ed_other_nonces :: "nat \<Rightarrow> (nat \<Rightarrow> nonce_cache) \<Rightarrow> (nat \<Rightarrow> nonce_cache)"
  ed_other_fees :: "nat \<Rightarrow> fee_cache \<Rightarrow> fee_cache"

record transaction_tracking =
  tk_id :: string
  tk_tx_type :: transaction_type
  tk_attempt_id :: "string option"
  tk_replacement_of :: "string option"
  tk_min_confirmations :: nat
  tk_tx_confirmation_timeout_seconds :: nat

text \<open>What a submission did: rows and updates of the ledger that were written, nonces, sends.\<close>

datatype submit_effect =
    TookNonce nat bytes nat
  | PlannedRow transaction_attempt
  | UpdatedRow string attempt_status "bytes option"
  | SentRaw evm_transaction bytes raw_send_verdict
  | RolledBack nat bytes "nat option" "nat option"
  | SpawnedMonitor bytes evm_transaction bytes "string option"
  | Notified monitoring_event

datatype submit_failure = SubmitPanic | SubmitErr delivery_error

type_synonym ('s, 'a) submission = "('s evm_state, submit_effect, submit_failure, 'a) run"

text \<open>One await: the answer for its number, after other tasks had their turn.\<close>

definition turn :: "('s, 'b) evm_delivery \<Rightarrow> 's evm_state \<Rightarrow> 's evm_state" where
  "turn D st =
     st\<lparr>es_nonces := ed_other_nonces D (es_awaits st) (es_nonces st),
        es_fees := ed_other_fees D (es_awaits st) (es_fees st),
        es_awaits := Suc (es_awaits st)\<rparr>"

definition awaiting :: "('s, 'b) evm_delivery \<Rightarrow> (nat \<Rightarrow> 'r) \<Rightarrow> ('s, 'r) submission" where
  "awaiting D ask st = ([], Inr (ask (es_awaits st)), turn D st)"

definition on_store ::
  "('s, 'b) evm_delivery \<Rightarrow> (nat \<Rightarrow> 's world \<Rightarrow> 'r \<times> 's world) \<Rightarrow> ('s, 'r) submission" where
  "on_store D m st =
     (let (r, w1) = m (es_awaits st) (es_world st) in ([], Inr r, (turn D st)\<lparr>es_world := w1\<rparr>))"

definition fails :: "delivery_error \<Rightarrow> ('s, 'a) submission" where
  "fails e = err (SubmitErr e)"

definition get_provider :: "('s, 'b) evm_delivery \<Rightarrow> nat \<Rightarrow> ('s, unit) submission" where
  "get_provider D chain =
     (if ed_providers D chain then ok ()
      else fails (Network (''No provider configured for chain ID '' @ to_dec chain)))"

definition get_nonce_manager :: "('s, 'b) evm_delivery \<Rightarrow> nat \<Rightarrow> ('s, unit) submission" where
  "get_nonce_manager D chain =
     (if ed_nonce_managers D chain then ok ()
      else fails (Network (''No nonce manager configured for chain ID '' @ to_dec chain)))"

definition get_signer_address :: "('s, 'b) evm_delivery \<Rightarrow> nat \<Rightarrow> ('s, bytes) submission" where
  "get_signer_address D chain =
     (case ed_signer_addresses D chain of
        Some a \<Rightarrow> ok a
      | None \<Rightarrow> fails (Network (''No signer configured for chain ID '' @ to_dec chain)))"

section \<open>The ledger\<close>

definition tracking_scope :: "string \<Rightarrow> transaction_type \<Rightarrow> attempt_scope" where
  "tracking_scope ident ty =
     (case ty of
        Approval \<Rightarrow> SystemScope ident
      | Withdrawal \<Rightarrow> SystemScope ident
      | Bridge \<Rightarrow> SystemScope ident
      | Pusher \<Rightarrow> SystemScope ident
      | _ \<Rightarrow> OrderScope ident)"

text \<open>\<^verbatim>\<open>TransactionAttemptRecorderError::Storage\<close> as displayed.\<close>

definition recorder_error_text :: "string \<Rightarrow> string" where
  "recorder_error_text m = ''transaction attempt recorder storage error: '' @ m"

definition plan_attempt ::
  "('s, 'b) evm_delivery \<Rightarrow> transaction_tracking \<Rightarrow> bytes \<Rightarrow> evm_transaction \<Rightarrow> string option \<Rightarrow> string option
   \<Rightarrow> ('s, (delivery_error, transaction_attempt) result) submission" where
  "plan_attempt D T signer tx attempt_id_override replacement_of =
     and_then
       (on_store D (\<lambda>i. record_planned_attempt (ed_backend D) (ed_codec D) (ed_hexe D) (ed_sched D) (ed_new_id D i)
          \<lparr>pai_scope = tracking_scope (tk_id T) (tk_tx_type T), pai_signer = Some signer,
           pai_tx_type = tk_tx_type T, pai_tx = Evm tx, pai_attempt_id_override = attempt_id_override,
           pai_replacement_of = replacement_of\<rparr>))
       (\<lambda>r. case r of
          Inl m \<Rightarrow> ok (Inl (Network (''Failed to persist planned transaction attempt before broadcast: '' @
                     recorder_error_text m)))
        | Inr a \<Rightarrow> and_then (publish (PlannedRow a)) (\<lambda>_. ok (Inr a)))"

definition write_update ::
  "('s, 'b) evm_delivery \<Rightarrow> string \<Rightarrow> attempt_status \<Rightarrow> bytes option \<Rightarrow> transaction_receipt option \<Rightarrow> string option
   \<Rightarrow> ('s, (string, unit) result) submission" where
  "write_update D ident st h rcpt e =
     and_then
       (on_store D (\<lambda>_. record_attempt_update (ed_backend D) (ed_codec D) (ed_hexe D) (ed_sched D) ident st h rcpt e))
       (\<lambda>r. case r of
          Inl m \<Rightarrow> ok (Inl (recorder_error_text m))
        | Inr _ \<Rightarrow> and_then (publish (UpdatedRow ident st h)) (\<lambda>_. ok (Inr ())))"

definition record_attempt_update_best_effort ::
  "('s, 'b) evm_delivery \<Rightarrow> transaction_tracking \<Rightarrow> string \<Rightarrow> attempt_status \<Rightarrow> bytes option
   \<Rightarrow> transaction_receipt option \<Rightarrow> string option \<Rightarrow> string \<Rightarrow> ('s, unit) submission" where
  "record_attempt_update_best_effort D T ident st h rcpt e context =
     and_then (write_update D ident st h rcpt e)
       (\<lambda>r. case r of
          Inl m \<Rightarrow> publish (Notified (MonAttemptLedgerConflict (tk_id T) ident (tk_tx_type T) h st m context))
        | Inr _ \<Rightarrow> ok ())"

text \<open>The update of the row of a tracked submission; an untracked one has none.\<close>

definition note_row ::
  "('s, 'b) evm_delivery \<Rightarrow> (transaction_tracking \<times> transaction_attempt) option \<Rightarrow> attempt_status \<Rightarrow> bytes option
   \<Rightarrow> string option \<Rightarrow> string \<Rightarrow> ('s, unit) submission" where
  "note_row D row st h e context =
     (case row of
        None \<Rightarrow> ok ()
      | Some (T, a) \<Rightarrow> record_attempt_update_best_effort D T (at_id a) st h None e context)"

section \<open>Nonces\<close>

definition next_nonce_for :: "('s, 'b) evm_delivery \<Rightarrow> nat \<Rightarrow> bytes \<Rightarrow> ('s, nat) submission" where
  "next_nonce_for D chain from =
     and_then (get_provider D chain) (\<lambda>_.
     and_then (awaiting D (ed_pending D)) (\<lambda>answer.
       case answer of
         Inl e \<Rightarrow> fails (Network (''Failed to fetch pending nonce: '' @ e))
       | Inr pending \<Rightarrow>
           and_then (get_nonce_manager D chain) (\<lambda>_ st.
             let (_, cache) = set_next_nonce (es_nonces st chain) from pending;
                 (taken, cache1) = take_next cache from;
                 st1 = st\<lparr>es_nonces := (es_nonces st)(chain := cache1)\<rparr>
             in (case taken of
                   None \<Rightarrow> ([], Inl SubmitPanic, st1)
                 | Some n \<Rightarrow> ([TookNonce chain from n], Inr n, st1)))))"

definition rollback_nonce ::
  "('s, 'b) evm_delivery \<Rightarrow> nat \<Rightarrow> bytes \<Rightarrow> nonce_cache_action \<Rightarrow> ('s, unit) submission" where
  "rollback_nonce D chain from action =
     and_then (get_nonce_manager D chain) (\<lambda>_.
     and_then (awaiting D (ed_pending D)) (\<lambda>answer st.
       let pending = result_ok answer;
           cache1 = snd (apply_nonce_cache_action (es_nonces st chain) from action pending)
       in ([case action of AttemptRollback rejected \<Rightarrow> RolledBack chain from rejected pending], Inr (),
           st\<lparr>es_nonces := (es_nonces st)(chain := cache1)\<rparr>)))"

section \<open>The fee outside execution gas\<close>

fun l1_fee_tries ::
  "('s, 'b) evm_delivery \<Rightarrow> nat \<Rightarrow> bytes \<Rightarrow> nat \<Rightarrow> bytes \<Rightarrow> nat \<Rightarrow> string option
   \<Rightarrow> ('s, extra_native_fee_estimate) submission" where
  "l1_fee_tries D chain oracle bps tx_bytes 0 last_error =
     fails (Network (''Failed to estimate OP Stack L1 data fee on chain '' @ to_dec chain @ '': '' @
       (case last_error of None \<Rightarrow> ''unknown oracle error'' | Some e \<Rightarrow> e)))"
| "l1_fee_tries D chain oracle bps tx_bytes (Suc n) last_error =
     and_then (awaiting D (\<lambda>i. ed_l1_fee_call D i oracle tx_bytes)) (\<lambda>answer.
       case answer of
         Inr out \<Rightarrow>
           (case ed_decode_l1_fee D out of
              Inl e \<Rightarrow> fails (Network (''Failed to decode OP Stack L1 data fee on chain '' @ to_dec chain @ '': '' @
                op_stack_fee_error_text (InvalidOracleReturn e)))
            | Inr raw \<Rightarrow> ok (buffered_extra_native_fee_estimate raw bps))
       | Inl e \<Rightarrow> l1_fee_tries D chain oracle bps tx_bytes n (Some e))"

definition estimate_op_stack_l1_data_fee_from_bytes ::
  "('s, 'b) evm_delivery \<Rightarrow> nat \<Rightarrow> bytes \<Rightarrow> nat \<Rightarrow> bytes \<Rightarrow> ('s, extra_native_fee_estimate) submission" where
  "estimate_op_stack_l1_data_fee_from_bytes D chain oracle bps tx_bytes =
     and_then (get_provider D chain) (\<lambda>_. l1_fee_tries D chain oracle bps tx_bytes 2 None)"

definition extra_policy :: "('s, 'b) evm_delivery \<Rightarrow> nat \<Rightarrow> ('s, extra_native_fee_policy) submission" where
  "extra_policy D chain =
     (case policy_for_chain (ed_registry D) chain of
        None \<Rightarrow> err SubmitPanic
      | Some policy \<Rightarrow> ok (cfp_extra_native_fee policy))"

definition fee_params_for :: "('s, 'b) evm_delivery \<Rightarrow> nat \<Rightarrow> ('s, fee_params) submission" where
  "fee_params_for D chain st =
     (let i = es_awaits st;
          (out, cache) = get_fee_params (ed_providers D) (ed_registry D) (ed_fee_answers D i) (ed_now D i) chain
             (es_fees st) (es_fees (turn D st));
          st1 = (turn D st)\<lparr>es_fees := cache\<rparr>
      in (case out of
            FeePanic \<Rightarrow> ([], Inl SubmitPanic, st1)
          | FeeErr e \<Rightarrow> ([], Inl (SubmitErr e), st1)
          | FeeOk fp \<Rightarrow> ([], Inr fp, st1)))"

definition estimate_extra_native_fee_for_tx ::
  "('s, 'b) evm_delivery \<Rightarrow> nat \<Rightarrow> evm_transaction \<Rightarrow> ('s, extra_native_fee_estimate) submission" where
  "estimate_extra_native_fee_for_tx D chain tx =
     and_then (extra_policy D chain) (\<lambda>extra.
       case extra of
         NoExtraNativeFee \<Rightarrow> ok no_extra_native_fee
       | OpStackL1Data oracle bps \<Rightarrow>
           and_then (fee_params_for D chain) (\<lambda>fp.
             case synthetic_signed_transaction_bytes (apply_if_missing fp tx) of
               Inl e \<Rightarrow> fails (Network (''Failed to build OP Stack L1 data fee estimate for chain '' @ to_dec chain @
                 '': '' @ op_stack_fee_error_text e))
             | Inr bs \<Rightarrow> estimate_op_stack_l1_data_fee_from_bytes D chain oracle bps bs))"

definition estimate_extra_native_fee_for_signed_bytes ::
  "('s, 'b) evm_delivery \<Rightarrow> nat \<Rightarrow> bytes \<Rightarrow> ('s, extra_native_fee_estimate) submission" where
  "estimate_extra_native_fee_for_signed_bytes D chain tx_bytes =
     and_then (extra_policy D chain) (\<lambda>extra.
       case extra of
         NoExtraNativeFee \<Rightarrow> ok no_extra_native_fee
       | OpStackL1Data oracle bps \<Rightarrow> estimate_op_stack_l1_data_fee_from_bytes D chain oracle bps tx_bytes)"

definition chain_requires_extra_native_fee_preflight :: "('s, 'b) evm_delivery \<Rightarrow> nat \<Rightarrow> ('s, bool) submission" where
  "chain_requires_extra_native_fee_preflight D chain =
     and_then (extra_policy D chain) (\<lambda>extra. ok (extra \<noteq> NoExtraNativeFee))"

text \<open>\<open>match m.await\<close> with an error that is looked at instead of being returned.\<close>

definition attempt :: "('w, 'v, submit_failure, 'a) run \<Rightarrow> ('w, 'v, submit_failure, (delivery_error, 'a) result) run" where
  "attempt m st =
     (case m st of
        (tr, Inr a, st1) \<Rightarrow> (tr, Inr (Inr a), st1)
      | (tr, Inl (SubmitErr e), st1) \<Rightarrow> (tr, Inr (Inl e), st1)
      | (tr, Inl SubmitPanic, st1) \<Rightarrow> (tr, Inl SubmitPanic, st1))"

definition rollback_nonce_after_pre_broadcast_rejection ::
  "('s, 'b) evm_delivery \<Rightarrow> nat \<Rightarrow> bytes \<Rightarrow> nat option \<Rightarrow> ('s, unit) submission" where
  "rollback_nonce_after_pre_broadcast_rejection D chain from rejected_nonce =
     rollback_nonce D chain from (AttemptRollback rejected_nonce)"

definition reject_signed_preflight_before_broadcast ::
  "('s, 'b) evm_delivery \<Rightarrow> nat \<Rightarrow> bytes \<Rightarrow> evm_transaction \<Rightarrow> (transaction_tracking \<times> transaction_attempt) option
   \<Rightarrow> string \<Rightarrow> string \<Rightarrow> ('s, unit) submission" where
  "reject_signed_preflight_before_broadcast D chain from tx row context e =
     and_then (note_row D row SubmitRejected None (Some e) context) (\<lambda>_.
       rollback_nonce_after_pre_broadcast_rejection D chain from (tx_nonce tx))"

definition ensure_signed_transaction_affordable ::
  "('s, 'b) evm_delivery \<Rightarrow> nat \<Rightarrow> bytes \<Rightarrow> evm_transaction \<Rightarrow> bytes
   \<Rightarrow> (transaction_tracking \<times> transaction_attempt) option \<Rightarrow> string \<Rightarrow> ('s, unit) submission" where
  "ensure_signed_transaction_affordable D chain from tx encoded row context =
     (let reject = (\<lambda>text e. and_then
            (reject_signed_preflight_before_broadcast D chain from tx row context text) (\<lambda>_. fails e));
          reject_with = (\<lambda>e. reject (delivery_error_text e) e)
      in and_then (chain_requires_extra_native_fee_preflight D chain) (\<lambda>required.
           if \<not> required then ok ()
           else and_then (attempt (estimate_extra_native_fee_for_signed_bytes D chain encoded)) (\<lambda>estimate.
             case estimate of
               Inl e \<Rightarrow> reject_with e
             | Inr est \<Rightarrow>
                 (case ed_parse_u256 D (en_total_fee_wei est) of
                    Inl e \<Rightarrow> reject_with (Network (''Invalid extra native fee estimate on chain '' @ to_dec chain @ '': '' @ e))
                  | Inr extra \<Rightarrow>
                      (case native_gas_budget_wei tx extra of
                         None \<Rightarrow> reject_with (Network (''Cannot calculate signed native gas budget on chain '' @ to_dec chain))
                       | Some budget \<Rightarrow>
                           and_then (awaiting D (ed_balance D)) (\<lambda>answer.
                             case answer of
                               Inl e \<Rightarrow> reject_with (Network (''Failed to read signer balance for OP Stack fee preflight on chain '' @
                                 to_dec chain @ '': '' @ e))
                             | Inr balance \<Rightarrow>
                                 (case native_gas_shortfall balance (ngb_required_wei budget) of
                                    None \<Rightarrow> ok ()
                                  | Some shortfall \<Rightarrow>
                                      reject (signed_preflight_shortfall_message balance (ngb_required_wei budget) shortfall)
                                        (InsufficientNativeGas (insufficient_native_gas_text
                                           (signed_preflight_insufficient_native_gas_info chain
                                              (ed_show_address D from) tx budget balance shortfall))))))))))"

section \<open>Preflight\<close>

text \<open>The affordability check before and after the gas estimate; it passes when the balance is unknown.\<close>

definition preflight ::
  "('s, 'b) evm_delivery \<Rightarrow> nat \<Rightarrow> bytes \<Rightarrow> evm_transaction \<Rightarrow> nat option \<Rightarrow> ('s, unit) submission" where
  "preflight D chain from tx balance =
     (case (balance, native_gas_budget_wei tx 0) of
        (Some b, Some budget) \<Rightarrow>
          (case native_gas_shortfall b (ngb_required_wei budget) of
             None \<Rightarrow> ok ()
           | Some shortfall \<Rightarrow>
               fails (InsufficientNativeGas (insufficient_native_gas_text
                 \<lparr>ig_chain_id = chain, ig_signer = ed_show_address D from, ig_balance_wei = to_dec b,
                  ig_required_wei = to_dec (ngb_required_wei budget), ig_shortfall_wei = to_dec shortfall,
                  ig_gas_limit = tx_gas_limit tx, ig_max_fee_per_gas = tx_max_fee_per_gas tx,
                  ig_gas_price = tx_gas_price tx, ig_extra_native_fee_wei = ''0'',
                  ig_value_wei = to_dec (tx_value tx)\<rparr>)))
      | _ \<Rightarrow> ok ())"

definition build_estimate_request :: "evm_transaction \<Rightarrow> evm_transaction" where
  "build_estimate_request tx = tx\<lparr>tx_gas_limit := None, tx_nonce := None\<rparr>"

definition fill_gas_limit ::
  "('s, 'b) evm_delivery \<Rightarrow> nat \<Rightarrow> bytes \<Rightarrow> evm_transaction \<Rightarrow> ('s, evm_transaction) submission" where
  "fill_gas_limit D chain from tx =
     (if tx_gas_limit tx \<noteq> None then ok tx
      else and_then (awaiting D (\<lambda>i. ed_estimate D i (build_estimate_request tx))) (\<lambda>answer.
        case answer of
          Inr gas \<Rightarrow> ok (tx\<lparr>tx_gas_limit := Some (buffer_estimated_gas_limit gas)\<rparr>)
        | Inl msg \<Rightarrow>
            (case estimate_insufficient_native_gas_info (ed_parse_u256 D) chain (ed_show_address D from) tx msg of
               Some info \<Rightarrow> fails (InsufficientNativeGas (insufficient_native_gas_text info))
             | None \<Rightarrow>
                 if str_contains ''revert'' (to_lowercase msg) \<or>
                    str_contains ''execution reverted'' (to_lowercase msg) \<or>
                    classify_submission_outcome msg = DefinitelyRejected
                 then fails (DeliveryTransactionFailed (''gas estimate reverted: '' @ msg))
                 else fails (Network (''gas estimate transport error: '' @ msg)))))"

definition fill_nonce ::
  "('s, 'b) evm_delivery \<Rightarrow> nat \<Rightarrow> bytes \<Rightarrow> evm_transaction \<Rightarrow> ('s, evm_transaction) submission" where
  "fill_nonce D chain from tx =
     (if tx_nonce tx \<noteq> None then ok tx
      else and_then (next_nonce_for D chain from) (\<lambda>n. ok (tx\<lparr>tx_nonce := Some n\<rparr>)))"

section \<open>Signing, persisting, sending\<close>

definition build_signed_envelope ::
  "('s, 'b) evm_delivery \<Rightarrow> nat \<Rightarrow> evm_transaction \<Rightarrow> ('s, bytes \<times> bytes) submission" where
  "build_signed_envelope D chain tx =
     (if \<not> ed_signers D chain then fails (Network (''No signer configured for chain ID '' @ to_dec chain))
      else and_then (awaiting D (\<lambda>i. ed_sign D i tx)) (\<lambda>answer.
        case answer of
          Inl NotATypedTransaction \<Rightarrow>
            fails (DeliveryTransactionFailed ''failed to build typed transaction (missing required field?)'')
        | Inl (SignerFailed e) \<Rightarrow> fails (DeliveryTransactionFailed (''signer failed: '' @ e))
        | Inr envelope \<Rightarrow> ok envelope))"

definition sign_or_reject ::
  "('s, 'b) evm_delivery \<Rightarrow> nat \<Rightarrow> bytes \<Rightarrow> evm_transaction \<Rightarrow> (transaction_tracking \<times> transaction_attempt) option
   \<Rightarrow> string \<Rightarrow> ('s, bytes \<times> bytes) submission" where
  "sign_or_reject D chain from tx row context =
     and_then (attempt (build_signed_envelope D chain tx)) (\<lambda>envelope.
       case envelope of
         Inr v \<Rightarrow> ok v
       | Inl e \<Rightarrow>
           and_then (note_row D row SubmitRejected None (Some (delivery_error_text e)) context) (\<lambda>_.
           and_then (rollback_nonce D chain from (AttemptRollback (tx_nonce tx))) (\<lambda>_. fails e)))"

text \<open>The hash is in the ledger before the raw send, or there is no send.\<close>

definition persist_hash ::
  "('s, 'b) evm_delivery \<Rightarrow> nat \<Rightarrow> bytes \<Rightarrow> evm_transaction \<Rightarrow> (transaction_tracking \<times> transaction_attempt) option
   \<Rightarrow> bytes \<Rightarrow> string \<Rightarrow> ('s, unit) submission" where
  "persist_hash D chain from tx row h message =
     (case row of
        None \<Rightarrow> ok ()
      | Some (T, a) \<Rightarrow>
          and_then (write_update D (at_id a) Broadcast (Some h) None None) (\<lambda>r.
            case r of
              Inr _ \<Rightarrow> ok ()
            | Inl e \<Rightarrow>
                and_then (rollback_nonce D chain from (AttemptRollback (tx_nonce tx))) (\<lambda>_.
                  fails (Network (message @ e)))))"

definition send_raw ::
  "('s, 'b) evm_delivery \<Rightarrow> evm_transaction \<Rightarrow> bytes \<Rightarrow> bytes \<Rightarrow> ('s, string option) submission" where
  "send_raw D tx h encoded =
     and_then (awaiting D (\<lambda>i. ed_send D i encoded)) (\<lambda>error_message.
     and_then (publish (SentRaw tx h (classify_raw_send_outcome error_message))) (\<lambda>_.
       ok error_message))"

text \<open>
  From a planned row to the answer of the node, once with the texts of the first attempt and once
  with those of the retry.
\<close>

definition first_broadcast ::
  "('s, 'b) evm_delivery \<Rightarrow> nat \<Rightarrow> bytes \<Rightarrow> evm_transaction \<Rightarrow> (transaction_tracking \<times> transaction_attempt) option
   \<Rightarrow> ('s, bytes \<times> string option) submission" where
  "first_broadcast D chain from tx row =
     and_then (sign_or_reject D chain from tx row ''local signing failed before broadcast'') (\<lambda>(h, encoded).
     and_then (ensure_signed_transaction_affordable D chain from tx encoded row
        ''signed OP Stack fee preflight failed before first broadcast'') (\<lambda>_.
     and_then (persist_hash D chain from tx row h
        ''Failed to persist pre-broadcast tx_hash to attempt ledger: '') (\<lambda>_.
     and_then (send_raw D tx h encoded) (\<lambda>msg. ok (h, msg)))))"

definition retry_broadcast ::
  "('s, 'b) evm_delivery \<Rightarrow> nat \<Rightarrow> bytes \<Rightarrow> evm_transaction \<Rightarrow> (transaction_tracking \<times> transaction_attempt) option
   \<Rightarrow> ('s, bytes \<times> string option) submission" where
  "retry_broadcast D chain from tx row =
     and_then (sign_or_reject D chain from tx row ''local signing failed on nonce-too-low retry'') (\<lambda>(h, encoded).
     and_then (ensure_signed_transaction_affordable D chain from tx encoded row
        ''signed OP Stack fee preflight failed before nonce-too-low retry broadcast'') (\<lambda>_.
     and_then (persist_hash D chain from tx row h
        ''Failed to persist nonce-too-low retry hash to attempt ledger: '') (\<lambda>_.
     and_then (send_raw D tx h encoded) (\<lambda>msg. ok (h, msg)))))"

section \<open>After the send\<close>

text \<open>The row, the diagnostic read of the pending nonce, and the monitor of a tracked submission.\<close>

definition start_monitor ::
  "bytes \<Rightarrow> evm_transaction \<Rightarrow> bytes \<Rightarrow> (transaction_tracking \<times> transaction_attempt) option \<Rightarrow> ('s, unit) submission" where
  "start_monitor from tx h row =
     (case row of
        None \<Rightarrow> ok ()
      | Some (T, a) \<Rightarrow> publish (SpawnedMonitor h tx from (Some (at_id a))))"

definition after_accepted ::
  "('s, 'b) evm_delivery \<Rightarrow> bytes \<Rightarrow> evm_transaction \<Rightarrow> bytes
   \<Rightarrow> (transaction_tracking \<times> transaction_attempt) option \<Rightarrow> string \<Rightarrow> ('s, bytes) submission" where
  "after_accepted D from tx h row context =
     and_then (note_row D row Broadcast (Some h) None context) (\<lambda>_.
     and_then (awaiting D (ed_pending D)) (\<lambda>_.
     and_then (start_monitor from tx h row) (\<lambda>_. ok h)))"

definition after_ambiguous ::
  "('s, 'b) evm_delivery \<Rightarrow> bytes \<Rightarrow> evm_transaction \<Rightarrow> bytes \<Rightarrow> string option
   \<Rightarrow> (transaction_tracking \<times> transaction_attempt) option \<Rightarrow> string \<Rightarrow> ('s, bytes) submission" where
  "after_ambiguous D from tx h msg row context =
     (if row = None then ok h
      else and_then (note_row D row Indeterminate (Some h) msg context) (\<lambda>_.
           and_then (awaiting D (ed_pending D)) (\<lambda>_.
           and_then (start_monitor from tx h row) (\<lambda>_. ok h))))"

definition settle_retry ::
  "('s, 'b) evm_delivery \<Rightarrow> nat \<Rightarrow> bytes \<Rightarrow> evm_transaction \<Rightarrow> (transaction_tracking \<times> transaction_attempt) option
   \<Rightarrow> string \<Rightarrow> bytes \<times> string option \<Rightarrow> ('s, bytes) submission" where
  "settle_retry D chain from tx row first_reason outcome =
     (let (h, msg) = outcome
      in (case classify_raw_send_outcome msg of
            SendAccepted \<Rightarrow> after_accepted D from tx h row ''retry_broadcast''
          | SendAmbiguous \<Rightarrow> after_ambiguous D from tx h msg row ''retry_submit_ambiguous''
          | SendReplacementRejected reason \<Rightarrow>
              and_then (note_row D row SubmitRejected (Some h) (Some reason)
                ''nonce-too-low retry: another tx already holds the fresh nonce'') (\<lambda>_.
                fails (ReplacementUnderpriced reason))
          | SendRejected reason \<Rightarrow>
              and_then (note_row D row SubmitRejected (Some h) (Some reason)
                ''nonce-too-low retry rejected definitively'') (\<lambda>_.
              and_then (rollback_nonce D chain from (AttemptRollback (tx_nonce tx))) (\<lambda>_.
                fails (DeliveryTransactionFailed reason)))
          | SendNonceTooLow reason \<Rightarrow>
              and_then (note_row D row SubmitRejected (Some h)
                (Some (''nonce too low twice; first: '' @ first_reason @ ''; second: '' @ reason))
                ''nonce-too-low retry also got nonce too low'') (\<lambda>_.
              and_then (rollback_nonce D chain from nonce_too_low_retry_nonce_cache_action) (\<lambda>_.
                fails (DeliveryNonceTooLow reason)))))"

text \<open>The retry after a nonce too low: a fresh nonce, a row of its own.\<close>

definition retry_nonce :: "('s, 'b) evm_delivery \<Rightarrow> nat \<Rightarrow> bytes \<Rightarrow> ('s, nat) submission" where
  "retry_nonce D chain from =
     and_then (get_nonce_manager D chain) (\<lambda>_.
     and_then (awaiting D (ed_pending D)) (\<lambda>answer.
       case answer of
         Inl e \<Rightarrow> fails (Network (''Failed to resync nonce from chain for nonce-too-low retry: '' @ e))
       | Inr fresh_pending \<Rightarrow> (\<lambda>st.
           let (_, cache) = reset_next_nonce (es_nonces st chain) from fresh_pending;
               (taken, cache1) = take_next cache from;
               st1 = st\<lparr>es_nonces := (es_nonces st)(chain := cache1)\<rparr>
           in (case taken of
                 None \<Rightarrow> ([], Inl (SubmitErr (Network
                   ''Nonce cache empty immediately after resync; cannot allocate retry nonce'')), st1)
               | Some n \<Rightarrow> ([TookNonce chain from n], Inr n, st1)))))"

definition retry_planned ::
  "('s, 'b) evm_delivery \<Rightarrow> nat \<Rightarrow> bytes \<Rightarrow> evm_transaction \<Rightarrow> transaction_tracking option
   \<Rightarrow> ('s, (transaction_tracking \<times> transaction_attempt) option) submission" where
  "retry_planned D chain from tx tracking =
     (case tracking of
        None \<Rightarrow> ok None
      | Some T \<Rightarrow>
          and_then (plan_attempt D T from tx None None) (\<lambda>r.
            case r of
              Inr a \<Rightarrow> ok (Some (T, a))
            | Inl e \<Rightarrow>
                and_then (rollback_nonce D chain from (AttemptRollback (tx_nonce tx))) (\<lambda>_. fails e)))"

definition retry_submission ::
  "('s, 'b) evm_delivery \<Rightarrow> nat \<Rightarrow> bytes \<Rightarrow> evm_transaction \<Rightarrow> (transaction_tracking \<times> transaction_attempt) option
   \<Rightarrow> bytes \<Rightarrow> string \<Rightarrow> ('s, bytes) submission" where
  "retry_submission D chain from tx row h reason =
     and_then (note_row D row SubmitRejected (Some h)
       (Some (''superseded by nonce-too-low retry (will broadcast with fresh nonce): '' @ reason))
       ''superseded by nonce-too-low retry'') (\<lambda>_.
     and_then (retry_nonce D chain from) (\<lambda>n.
     let tx1 = tx\<lparr>tx_nonce := Some n\<rparr>
     in and_then (retry_planned D chain from tx1 (map_option fst row)) (\<lambda>row1.
        and_then (retry_broadcast D chain from tx1 row1) (\<lambda>outcome.
          settle_retry D chain from tx1 row1 reason outcome))))"

definition is_replacement :: "(transaction_tracking \<times> transaction_attempt) option \<Rightarrow> bool" where
  "is_replacement row = (case row of None \<Rightarrow> False | Some (T, _) \<Rightarrow> tk_replacement_of T \<noteq> None)"

definition settle_first ::
  "('s, 'b) evm_delivery \<Rightarrow> nat \<Rightarrow> bytes \<Rightarrow> evm_transaction \<Rightarrow> (transaction_tracking \<times> transaction_attempt) option
   \<Rightarrow> bytes \<times> string option \<Rightarrow> ('s, bytes) submission" where
  "settle_first D chain from tx row outcome =
     (let (h, msg) = outcome
      in (case classify_raw_send_outcome msg of
            SendAccepted \<Rightarrow> after_accepted D from tx h row ''first_broadcast''
          | SendAmbiguous \<Rightarrow> after_ambiguous D from tx h msg row ''first_submit_ambiguous''
          | SendReplacementRejected reason \<Rightarrow>
              and_then (note_row D row SubmitRejected (Some h) (Some reason)
                ''raw send rejected; another tx holds this nonce'') (\<lambda>_.
                fails (ReplacementUnderpriced reason))
          | SendRejected reason \<Rightarrow>
              and_then (note_row D row SubmitRejected (Some h) (Some reason) ''raw send definitely rejected'') (\<lambda>_.
              and_then (rollback_nonce D chain from (AttemptRollback (tx_nonce tx))) (\<lambda>_.
                fails (DeliveryTransactionFailed reason)))
          | SendNonceTooLow reason \<Rightarrow>
              if is_replacement row
              then and_then (note_row D row SubmitRejected (Some h) (Some reason)
                     ''raw send nonce too low on replacement (no fresh-nonce retry, no rollback)'') (\<lambda>_.
                     fails (DeliveryNonceTooLow reason))
              else retry_submission D chain from tx row h reason))"

definition first_planned ::
  "('s, 'b) evm_delivery \<Rightarrow> bytes \<Rightarrow> evm_transaction \<Rightarrow> transaction_tracking option
   \<Rightarrow> ('s, (transaction_tracking \<times> transaction_attempt) option) submission" where
  "first_planned D from tx tracking =
     (case tracking of
        None \<Rightarrow> ok None
      | Some T \<Rightarrow>
          and_then (plan_attempt D T from tx (tk_attempt_id T) (tk_replacement_of T)) (\<lambda>r.
            case r of Inr a \<Rightarrow> ok (Some (T, a)) | Inl e \<Rightarrow> fails e))"

definition submit ::
  "('s, 'b) evm_delivery \<Rightarrow> evm_transaction \<Rightarrow> transaction_tracking option \<Rightarrow> ('s, bytes) submission" where
  "submit D tx tracking =
     (let chain = tx_chain_id tx
      in and_then (get_provider D chain) (\<lambda>_.
         and_then (get_signer_address D chain) (\<lambda>from.
         and_then (fee_params_for D chain) (\<lambda>fp.
         let tx1 = apply_if_missing fp tx
         in and_then (awaiting D (ed_balance D)) (\<lambda>answer.
            let balance = result_ok answer
            in and_then (awaiting D (ed_pending D)) (\<lambda>_.
               and_then (preflight D chain from tx1 balance) (\<lambda>_.
               and_then (fill_gas_limit D chain from tx1) (\<lambda>tx2.
               and_then (preflight D chain from tx2 balance) (\<lambda>_.
               and_then (fill_nonce D chain from tx2) (\<lambda>tx3.
               and_then (first_planned D from tx3 tracking) (\<lambda>row.
               and_then (first_broadcast D chain from tx3 row) (\<lambda>outcome.
                 settle_first D chain from tx3 row outcome))))))))))))"

section \<open>A concrete service\<close>

text \<open>A service on the memory store whose nodes accept everything and where nobody else is active.\<close>

definition demo_delivery :: "(transaction_attempt memory_storage, transaction_attempt) evm_delivery" where
  "demo_delivery =
     \<lparr>ed_backend = memory_backend, ed_codec = attempt_codec, ed_hexe = (\<lambda>_. []), ed_sched = quiet (\<lambda>_. 5),
      ed_new_id = (\<lambda>i. to_dec i), ed_providers = (\<lambda>_. True), ed_nonce_managers = (\<lambda>_. True),
      ed_signer_addresses = (\<lambda>_. Some [1]), ed_signers = (\<lambda>_. True), ed_registry = [7 \<mapsto> demo_policy],
      ed_show_address = (\<lambda>_. []), ed_parse_u256 = parse_uint u256_bound, ed_now = (\<lambda>i. i),
      ed_fee_answers = (\<lambda>_. demo_fee_answers), ed_balance = (\<lambda>_. Inr 1000000), ed_pending = (\<lambda>_. Inr 3),
      ed_estimate = (\<lambda>_ _. Inr 100), ed_sign = (\<lambda>i tx. Inr ([of_nat i], [])), ed_send = (\<lambda>_ _. None),
      ed_l1_fee_call = (\<lambda>_ _ _. Inr []), ed_decode_l1_fee = (\<lambda>_. Inr 9), ed_other_nonces = (\<lambda>_ c. c),
      ed_other_fees = (\<lambda>_ c. c)\<rparr>"

definition demo_state :: "transaction_attempt memory_storage evm_state" where
  "demo_state = \<lparr>es_world = \<lparr>w_store = memory_new, w_tick = 0\<rparr>, es_nonces = (\<lambda>_. Map.empty),
     es_fees = Map.empty, es_awaits = 0\<rparr>"

definition demo_tracking :: transaction_tracking where
  "demo_tracking = \<lparr>tk_id = ''order'', tk_tx_type = Fill, tk_attempt_id = None, tk_replacement_of = None,
     tk_min_confirmations = 2, tk_tx_confirmation_timeout_seconds = 60\<rparr>"
end
