(* ===== verification/Evm_Submit_Safety.thy ===== *)
theory Evm_Submit_Safety
  imports Evm_Submit
begin

text \<open>
  What a submission on an EVM chain guarantees whatever the chain, the signer, the ledger and the
  other tasks answer: at most one of its transactions may reach a pool and the result says which;
  a tracked transaction is in the ledger with its hash before it is sent; and a nonce is given back
  only if this submission took it and nothing it sent with it may have reached a pool.
\<close>

section \<open>A logic of histories\<close>

text \<open>
  \<open>logs P m Q\<close>: from a history with \<open>P\<close> the run \<open>m\<close> extends it to one with \<open>Q\<close> for its result, in
  every state.
\<close>

definition logs :: "('v list \<Rightarrow> bool) \<Rightarrow> ('w, 'v, 'x, 'a) run \<Rightarrow> ('v list \<Rightarrow> ('x, 'a) result \<Rightarrow> bool) \<Rightarrow> bool" where
  "logs P m Q \<longleftrightarrow> (\<forall>h w. P h \<longrightarrow> Q (h @ fst (m w)) (fst (snd (m w))))"

lemma logsI: "(\<And>h w. P h \<Longrightarrow> Q (h @ fst (m w)) (fst (snd (m w)))) \<Longrightarrow> logs P m Q"
  by (simp add: logs_def)

lemma logs_and_then:
  assumes "logs P m (\<lambda>h r. case r of Inl e \<Rightarrow> Q h (Inl e) | Inr a \<Rightarrow> R a h)"
    and "\<And>a. logs (R a) (k a) Q"
  shows "logs P (and_then m k) Q"
proof (rule logsI)
  fix h w
  assume "P h"
  obtain tr r w1 where m: "m w = (tr, r, w1)" by (cases "m w")
  have post: "case r of Inl e \<Rightarrow> Q (h @ tr) (Inl e) | Inr a \<Rightarrow> R a (h @ tr)"
    using assms(1) \<open>P h\<close> m unfolding logs_def by (metis fst_conv snd_conv)
  show "Q (h @ fst (and_then m k w)) (fst (snd (and_then m k w)))"
  proof (cases r)
    case (Inl e)
    then show ?thesis using post by (simp add: and_then_def m)
  next
    case (Inr a)
    obtain tr' r' w2 where k: "k a w1 = (tr', r', w2)" by (cases "k a w1")
    have "Q ((h @ tr) @ fst (k a w1)) (fst (snd (k a w1)))"
      using assms(2) [of a] post Inr unfolding logs_def by (simp only: sum.case)
    then show ?thesis by (simp add: and_then_def m Inr k)
  qed
qed

lemma logs_conseq: "logs P m Q \<Longrightarrow> (\<And>h. P' h \<Longrightarrow> P h) \<Longrightarrow> (\<And>h r. Q h r \<Longrightarrow> Q' h r) \<Longrightarrow> logs P' m Q'"
  by (simp add: logs_def)

lemma logs_step:
  assumes "logs P m (\<lambda>h r. case r of Inl _ \<Rightarrow> C h | Inr a \<Rightarrow> R a h)"
    and "\<And>h e. C h \<Longrightarrow> Q h (Inl e)" and "\<And>a. logs (R a) (k a) Q"
  shows "logs P (and_then m k) Q"
  by (rule logs_and_then [OF logs_conseq [OF assms(1)] assms(3)]) (auto simp: assms(2) split: sum.splits)

lemma logs_ok: "(\<And>h. P h \<Longrightarrow> Q h (Inr a)) \<Longrightarrow> logs P (ok a) Q"
  by (simp add: logs_def ok_def)

lemma logs_err: "(\<And>h. P h \<Longrightarrow> Q h (Inl e)) \<Longrightarrow> logs P (err e) Q"
  by (simp add: logs_def err_def)

lemma logs_fails: "(\<And>h. P h \<Longrightarrow> Q h (Inl (SubmitErr e))) \<Longrightarrow> logs P (fails e) Q"
  unfolding fails_def by (rule logs_err)

lemma logs_publish: "(\<And>h. P h \<Longrightarrow> Q (h @ [ev]) (Inr ())) \<Longrightarrow> logs P (publish ev) Q"
  by (simp add: logs_def publish_def)

lemma logs_awaiting: "(\<And>h a. P h \<Longrightarrow> Q h (Inr a)) \<Longrightarrow> logs P (awaiting D ask) Q"
  by (simp add: logs_def awaiting_def)

lemma logs_on_store: "(\<And>h i w. P h \<Longrightarrow> Q h (Inr (fst (m i w)))) \<Longrightarrow> logs P (on_store D m) Q"
  by (auto simp: logs_def on_store_def case_prod_beta)

text \<open>
  \<open>shaped E F m\<close>: a successful run of \<open>m\<close> emits only \<open>E\<close>, a failing one only \<open>F\<close>.
\<close>

definition shaped :: "('v \<Rightarrow> bool) \<Rightarrow> ('v \<Rightarrow> bool) \<Rightarrow> ('w, 'v, 'x, 'a) run \<Rightarrow> bool" where
  "shaped E F m \<longleftrightarrow> (\<forall>w. list_all (case fst (snd (m w)) of Inl _ \<Rightarrow> F | Inr _ \<Rightarrow> E) (fst (m w)))"

lemma shaped_and_then:
  assumes "shaped E F m" and "\<And>a. shaped E F (k a)" and "\<And>e. E e \<Longrightarrow> F e"
  shows "shaped E F (and_then m k)"
  unfolding shaped_def
proof
  fix w
  obtain tr r w1 where m: "m w = (tr, r, w1)" by (cases "m w")
  have first: "list_all (case r of Inl _ \<Rightarrow> F | Inr _ \<Rightarrow> E) tr"
    using assms(1) m unfolding shaped_def by (metis fst_conv snd_conv)
  show "list_all (case fst (snd (and_then m k w)) of Inl _ \<Rightarrow> F | Inr _ \<Rightarrow> E) (fst (and_then m k w))"
  proof (cases r)
    case (Inl e)
    then show ?thesis using first by (simp add: and_then_def m)
  next
    case (Inr a)
    obtain tr' r' w2 where k: "k a w1 = (tr', r', w2)" by (cases "k a w1")
    have "list_all (case r' of Inl _ \<Rightarrow> F | Inr _ \<Rightarrow> E) tr'"
      using assms(2) [of a] k unfolding shaped_def by (metis fst_conv snd_conv)
    then show ?thesis
      using first Inr assms(3) by (auto simp: and_then_def m k list_all_iff split: sum.splits)
  qed
qed

lemma shaped_simple:
  "shaped E F (ok a)" "shaped E F (err e)" "shaped E F (fails d)" "shaped E F (awaiting D ask)"
  "shaped E F (on_store D op)"
  by (simp_all add: shaped_def ok_def err_def fails_def awaiting_def on_store_def case_prod_beta)

lemma shaped_publish: "E ev \<Longrightarrow> shaped E F (publish ev)"
  by (simp add: shaped_def publish_def)

lemma shaped_attempt: "shaped E E m \<Longrightarrow> (\<And>e. E e \<Longrightarrow> F e) \<Longrightarrow> shaped E F (attempt m)"
  unfolding shaped_def attempt_def list_all_iff
  by (intro allI, erule_tac x = w in allE) (auto split: prod.splits sum.splits submit_failure.splits)

lemma shaped_weaken: "shaped E F m \<Longrightarrow> (\<And>e. E e \<Longrightarrow> F e) \<Longrightarrow> (\<And>e. F e \<Longrightarrow> G e) \<Longrightarrow> shaped E G m"
  by (fastforce simp: shaped_def list_all_iff split: sum.splits)

section \<open>Selections from a history\<close>

fun send_of :: "submit_effect \<Rightarrow> (evm_transaction \<times> bytes \<times> raw_send_verdict) option" where
  "send_of (SentRaw tx h v) = Some (tx, h, v)"
| "send_of _ = None"

definition sends :: "submit_effect list \<Rightarrow> (evm_transaction \<times> bytes \<times> raw_send_verdict) list" where
  "sends h = List.map_filter send_of h"

fun is_rollback :: "submit_effect \<Rightarrow> bool" where
  "is_rollback (RolledBack _ _ _ _) = True"
| "is_rollback _ = False"

text \<open>The answers after which the transaction may be in a pool.\<close>

fun may_be_pooled :: "raw_send_verdict \<Rightarrow> bool" where
  "may_be_pooled SendAccepted = True"
| "may_be_pooled SendAmbiguous = True"
| "may_be_pooled _ = False"

text \<open>Every send comes after a row planned with that transaction, and after its hash was written.\<close>

definition announced :: "submit_effect list \<Rightarrow> bool" where
  "announced h \<longleftrightarrow> (\<forall>pre tx hash v post. h = pre @ SentRaw tx hash v # post \<longrightarrow>
     (\<exists>a. PlannedRow a \<in> set pre \<and> at_tx a = Evm tx \<and> UpdatedRow (at_id a) Broadcast (Some hash) \<in> set pre))"

lemma sends_append [simp]: "sends (h @ h') = sends h @ sends h'"
  by (simp add: sends_def List.map_filter_def)

lemma sends_single [simp]:
  "sends [] = []" "sends [SentRaw tx hash v] = [(tx, hash, v)]" "send_of e = None \<Longrightarrow> sends [e] = []"
  by (simp_all add: sends_def List.map_filter_def)

lemma announced_Nil [simp]: "announced []"
  by (simp add: announced_def)

lemma announced_snoc:
  "announced (h @ [e]) \<longleftrightarrow> announced h \<and> (\<forall>tx hash v. e = SentRaw tx hash v \<longrightarrow>
     (\<exists>a. PlannedRow a \<in> set h \<and> at_tx a = Evm tx \<and> UpdatedRow (at_id a) Broadcast (Some hash) \<in> set h))"
  unfolding announced_def
proof (intro iffI conjI allI impI, goal_cases)
  case (1 pre tx hash v post)
  then show ?case by (metis append.assoc append_Cons)
next
  case (2 tx hash v)
  then show ?case by blast
next
  case (3 pre tx hash v post)
  then show ?case by (cases post rule: rev_cases) auto
qed

definition plain_effect :: "submit_effect \<Rightarrow> bool" where
  "plain_effect e \<longleftrightarrow> send_of e = None \<and> \<not> is_rollback e"

lemma plain_effect_simps [simp]:
  "plain_effect (TookNonce c f n)" "plain_effect (PlannedRow a)" "plain_effect (UpdatedRow i s h)" "plain_effect (Notified ev)"
  "plain_effect (SpawnedMonitor hh tx f j)" "\<not> plain_effect (SentRaw tx hash v)" "\<not> plain_effect (RolledBack c f r p)"
  by (simp_all add: plain_effect_def)

lemma plain_extension:
  "list_all plain_effect tr \<Longrightarrow> sends (h @ tr) = sends h \<and> filter is_rollback (h @ tr) = filter is_rollback h \<and>
     (announced (h @ tr) \<longleftrightarrow> announced h)"
proof (induction tr rule: rev_induct)
  case (snoc e tr)
  then have e: "send_of e = None" "\<not> is_rollback e" by (simp_all add: plain_effect_def)
  then have "\<And>tx hash v. e \<noteq> SentRaw tx hash v" by auto
  then have "announced ((h @ tr) @ [e]) \<longleftrightarrow> announced (h @ tr)" unfolding announced_snoc by blast
  then show ?case using snoc e by simp
qed simp

section \<open>Phases\<close>

text \<open>The rollback of a phase that fails with a transaction: it names that transaction's nonce.\<close>

definition plain_or_rollback :: "nat \<Rightarrow> bytes \<Rightarrow> evm_transaction \<Rightarrow> submit_effect \<Rightarrow> bool" where
  "plain_or_rollback chain from tx e \<longleftrightarrow> plain_effect e \<or> (\<exists>p. e = RolledBack chain from (tx_nonce tx) p)"

lemma plain_or_rollback_plain: "plain_effect e \<Longrightarrow> plain_or_rollback chain from tx e"
  by (simp add: plain_or_rollback_def)

abbreviation stage :: "nat \<Rightarrow> bytes \<Rightarrow> evm_transaction \<Rightarrow> ('s, 'a) submission \<Rightarrow> bool" where
  "stage chain from tx m \<equiv> shaped plain_effect (plain_or_rollback chain from tx) m"

lemmas stage_rules = shaped_and_then shaped_simple shaped_publish shaped_attempt plain_effect_simps plain_or_rollback_plain

text \<open>A rollback that is followed by the failure of the phase.\<close>

lemma stage_fail_after:
  assumes "shaped (plain_or_rollback chain from tx) (plain_or_rollback chain from tx) m" and "\<And>a w. \<exists>e. fst (snd (k a w)) = Inl e"
    and "\<And>a. shaped (plain_or_rollback chain from tx) (plain_or_rollback chain from tx) (k a)"
  shows "stage chain from tx (and_then m k)"
proof -
  have s: "shaped (plain_or_rollback chain from tx) (plain_or_rollback chain from tx) (and_then m k)"
    using assms(1,3) by (rule shaped_and_then)
  moreover have "\<exists>e. fst (snd (and_then m k w)) = Inl e" for w
    using assms(2) by (cases "m w"; cases "fst (snd (m w))") (auto simp: and_then_def split: prod.splits, metis fst_conv snd_conv)
  ultimately show ?thesis unfolding shaped_def by (metis sum.case(1))
qed

lemma rollback_shape:
  "shaped (plain_or_rollback chain from tx) (plain_or_rollback chain from tx)
     (rollback_nonce D chain from (AttemptRollback (tx_nonce tx)))"
  by (auto simp: shaped_def rollback_nonce_def get_nonce_manager_def and_then_def ok_def fails_def err_def
        awaiting_def plain_or_rollback_def Let_def)

lemma write_update_shape: "shaped plain_effect F (write_update D i s h rc e)" if "\<And>e. plain_effect e \<Longrightarrow> F e"
  unfolding write_update_def
  by (intro shaped_and_then shaped_simple that) (auto intro!: shaped_and_then shaped_publish shaped_simple that split: sum.split)

lemma note_row_shape: "shaped plain_effect F (note_row D row s h e context)" if "\<And>e. plain_effect e \<Longrightarrow> F e"
  unfolding note_row_def record_attempt_update_best_effort_def
  by (auto intro!: shaped_and_then write_update_shape shaped_publish shaped_simple that split: option.split sum.split)

lemma shaped_both: "shaped E F m \<Longrightarrow> (\<And>e. E e \<Longrightarrow> G e) \<Longrightarrow> (\<And>e. F e \<Longrightarrow> G e) \<Longrightarrow> shaped G G m"
  unfolding shaped_def list_all_iff by (metis (no_types, lifting) sum.case_eq_if)

lemma note_row_shape2:
  "shaped (plain_or_rollback c f tx) (plain_or_rollback c f tx) (note_row D row s h e context)"
  by (rule shaped_both [OF note_row_shape [of plain_effect]]) (auto intro: plain_or_rollback_plain)

lemma fails_result: "\<exists>x. fst (snd (fails e w)) = Inl x"
  by (simp add: fails_def err_def)

lemma reject_stage:
  "stage chain from tx (and_then (reject_signed_preflight_before_broadcast D chain from tx row context text) (\<lambda>_. fails e))"
  unfolding reject_signed_preflight_before_broadcast_def rollback_nonce_after_pre_broadcast_rejection_def
  by (rule stage_fail_after; (intro shaped_and_then note_row_shape2 rollback_shape shaped_simple fails_result)?; assumption?)

lemma sign_stage: "stage chain from tx (sign_or_reject D chain from tx row context)"
proof -
  have "shaped plain_effect plain_effect (build_signed_envelope D chain tx)"
    unfolding build_signed_envelope_def
    by (auto intro!: shaped_and_then shaped_simple split: sum.split sign_failure.split)
  moreover have "stage chain from tx (and_then (note_row D row SubmitRejected None x context)
      (\<lambda>_. and_then (rollback_nonce D chain from (AttemptRollback (tx_nonce tx))) (\<lambda>_. fails e)))" for x e
    by (intro shaped_and_then note_row_shape stage_fail_after rollback_shape shaped_simple fails_result plain_or_rollback_plain)
  ultimately show ?thesis
    unfolding sign_or_reject_def
    by (intro shaped_and_then shaped_attempt plain_or_rollback_plain) (auto intro: shaped_simple split: sum.split)
qed

lemma l1_fee_tries_shape: "shaped plain_effect plain_effect (l1_fee_tries D chain oracle bps bs n e)"
  by (induction n arbitrary: e) (auto intro!: shaped_and_then shaped_simple split: sum.split)

lemma extra_policy_shape: "shaped E F (extra_policy D chain)"
  by (simp add: extra_policy_def shaped_simple split: option.split)

lemma get_provider_shape: "shaped E F (get_provider D chain)"
  by (simp add: get_provider_def shaped_simple)

lemma signed_bytes_shape: "shaped plain_effect plain_effect (estimate_extra_native_fee_for_signed_bytes D chain bs)"
  unfolding estimate_extra_native_fee_for_signed_bytes_def estimate_op_stack_l1_data_fee_from_bytes_def
  by (auto intro!: shaped_and_then shaped_simple extra_policy_shape get_provider_shape l1_fee_tries_shape
        split: extra_native_fee_policy.split)

lemma affordable_stage:
  "stage chain from tx (ensure_signed_transaction_affordable D chain from tx encoded row context)"
  unfolding ensure_signed_transaction_affordable_def Let_def chain_requires_extra_native_fee_preflight_def
  by (intro shaped_and_then shaped_simple extra_policy_shape plain_or_rollback_plain shaped_attempt signed_bytes_shape)
    (auto intro!: reject_stage shaped_and_then shaped_attempt signed_bytes_shape shaped_simple plain_or_rollback_plain
      split: sum.split option.split)

section \<open>Assertions along a submission\<close>

text \<open>
  \<open>tracked\<close>: the submission has a ledger; \<open>mine\<close>: it chooses its nonce itself; \<open>S\<close>: what was sent
  so far.  \<open>ready\<close> holds while the submission goes on, \<open>closed\<close> when it ended with an error.
\<close>

definition took :: "nat \<Rightarrow> bytes \<Rightarrow> evm_transaction \<Rightarrow> submit_effect list \<Rightarrow> bool" where
  "took chain from tx h \<longleftrightarrow> (\<exists>n. tx_nonce tx = Some n \<and> TookNonce chain from n \<in> set h)"

definition running :: "bool \<Rightarrow> (evm_transaction \<times> bytes \<times> raw_send_verdict) list \<Rightarrow> submit_effect list \<Rightarrow> bool" where
  "running tracked S h \<longleftrightarrow> sends h = S \<and> filter is_rollback h = [] \<and> (tracked \<longrightarrow> announced h)"

definition row_planned ::
  "(transaction_tracking \<times> transaction_attempt) option \<Rightarrow> evm_transaction \<Rightarrow> submit_effect list \<Rightarrow> bool" where
  "row_planned row tx h \<longleftrightarrow> (\<forall>T a. row = Some (T, a) \<longrightarrow> PlannedRow a \<in> set h \<and> at_tx a = Evm tx)"

definition ready ::
  "bool \<Rightarrow> bool \<Rightarrow> nat \<Rightarrow> bytes \<Rightarrow> (evm_transaction \<times> bytes \<times> raw_send_verdict) list \<Rightarrow> evm_transaction
   \<Rightarrow> (transaction_tracking \<times> transaction_attempt) option \<Rightarrow> submit_effect list \<Rightarrow> bool" where
  "ready tracked mine chain from S tx row h \<longleftrightarrow> running tracked S h \<and> (tracked \<longrightarrow> row \<noteq> None) \<and>
     row_planned row tx h \<and> (mine \<longrightarrow> took chain from tx h)"

definition closed ::
  "bool \<Rightarrow> bool \<Rightarrow> (evm_transaction \<times> bytes \<times> raw_send_verdict) list \<Rightarrow> submit_effect list \<Rightarrow> bool" where
  "closed tracked mine S h \<longleftrightarrow> sends h = S \<and> (tracked \<longrightarrow> announced h) \<and>
     (mine \<longrightarrow> (\<forall>c f n p. RolledBack c f (Some n) p \<in> set h \<longrightarrow> TookNonce c f n \<in> set h))"

lemma running_closed: "running tracked S h \<Longrightarrow> closed tracked mine S h"
  by (fastforce simp: running_def closed_def filter_empty_conv)

lemma ready_closed: "ready tracked mine chain from S tx row h \<Longrightarrow> closed tracked mine S h"
  by (simp add: ready_def running_closed)

lemma running_plain: "running tracked S h \<Longrightarrow> list_all plain_effect tr \<Longrightarrow> running tracked S (h @ tr)"
  using plain_extension [of tr h] unfolding running_def by metis

lemma ready_plain:
  "ready tracked mine chain from S tx row h \<Longrightarrow> list_all plain_effect tr \<Longrightarrow>
   ready tracked mine chain from S tx row (h @ tr)"
  unfolding ready_def using running_plain by (fastforce simp: row_planned_def took_def)

lemma closed_after_rollback:
  assumes "running tracked S h" and "mine \<longrightarrow> took chain from tx h"
    and "list_all (plain_or_rollback chain from tx) tr"
  shows "closed tracked mine S (h @ tr)"
proof -
  have "sends (h @ tr) = sends h \<and> (announced h \<longrightarrow> announced (h @ tr))"
    using assms(3)
  proof (induction tr rule: rev_induct)
    case (snoc e tr)
    have "send_of e = None" using snoc.prems by (auto simp: plain_or_rollback_def plain_effect_def)
    moreover from this have "\<And>tx hash v. e \<noteq> SentRaw tx hash v" by auto
    then have "announced ((h @ tr) @ [e]) \<longleftrightarrow> announced (h @ tr)" unfolding announced_snoc by blast
    ultimately show ?case using snoc by simp
  qed simp
  moreover have "c = chain \<and> f = from \<and> tx_nonce tx = Some n"
    if "RolledBack c f (Some n) p \<in> set (h @ tr)" for c f n p
    using that assms(1,3) by (fastforce simp: running_def filter_empty_conv list_all_iff plain_or_rollback_def)
  ultimately show ?thesis
    using assms(1,2) unfolding closed_def running_def took_def by (metis UnCI option.inject set_append)
qed

lemma stage_logs:
  assumes "stage chain from tx m"
  shows "logs (ready tracked mine chain from S tx row) m
    (\<lambda>h r. case r of Inl _ \<Rightarrow> closed tracked mine S h | Inr _ \<Rightarrow> ready tracked mine chain from S tx row h)"
proof (rule logsI)
  fix h w
  assume r: "ready tracked mine chain from S tx row h"
  show "case fst (snd (m w)) of Inl _ \<Rightarrow> closed tracked mine S (h @ fst (m w))
      | Inr _ \<Rightarrow> ready tracked mine chain from S tx row (h @ fst (m w))"
    using assms [unfolded shaped_def, rule_format, of w] r ready_plain [OF r]
      closed_after_rollback [of tracked S h mine chain "from" tx "fst (m w)"]
    by (auto simp: ready_def split: sum.splits)
qed

text \<open>The same for runs that only emit plain effects, whatever their result.\<close>

lemma plain_logs:
  assumes "shaped plain_effect plain_effect m"
  shows "logs (running tracked S) m (\<lambda>h r. running tracked S h)"
    and "logs (ready tracked mine chain from S tx row) m (\<lambda>h r. ready tracked mine chain from S tx row h)"
  using assms running_plain ready_plain unfolding logs_def shaped_def by (metis sum.case_eq_if)+

section \<open>Planning, persisting and sending\<close>

lemma record_planned_tx:
  "fst (record_planned_attempt B ac hexe sc i init w) = Inr a \<Longrightarrow> at_tx a = pai_tx init"
  by (auto simp: record_planned_attempt_def planned_def Let_def split: prod.splits sum.splits)

lemma plan_attempt_logs:
  "logs (running tracked S) (plan_attempt D T signer tx i r)
    (\<lambda>h res. case res of Inl _ \<Rightarrow> False | Inr p \<Rightarrow> running tracked S h \<and>
       (\<forall>a. p = Inr a \<longrightarrow> PlannedRow a \<in> set h \<and> at_tx a = Evm tx))"
  unfolding plan_attempt_def
proof (rule logs_and_then, rule logs_on_store)
  show "\<And>h i' w. running tracked S h \<Longrightarrow>
      case Inr (fst (record_planned_attempt (ed_backend D) (ed_codec D) (ed_hexe D) (ed_sched D) (ed_new_id D i')
        \<lparr>pai_scope = tracking_scope (tk_id T) (tk_tx_type T), pai_signer = Some signer,
           pai_tx_type = tk_tx_type T, pai_tx = Evm tx, pai_attempt_id_override = i,
           pai_replacement_of = r\<rparr> w)) of Inl e \<Rightarrow> (case Inl e of Inl _ \<Rightarrow> False | Inr p \<Rightarrow> running tracked S h \<and>
       (\<forall>a. p = Inr a \<longrightarrow> PlannedRow a \<in> set h \<and> at_tx a = Evm tx))
      | Inr a \<Rightarrow> running tracked S h \<and> (\<forall>b. a = Inr b \<longrightarrow> at_tx b = Evm tx)"
    using record_planned_tx by (fastforce split: sum.splits)
next
  fix a
  show "logs (\<lambda>h. running tracked S h \<and> (\<forall>b. a = Inr b \<longrightarrow> at_tx b = Evm tx))
      (case a of Inl m \<Rightarrow> ok (Inl (Network (''Failed to persist planned transaction attempt before broadcast: '' @
                     recorder_error_text m)))
        | Inr a \<Rightarrow> and_then (publish (PlannedRow a)) (\<lambda>_. ok (Inr a)))
      (\<lambda>h res. case res of Inl _ \<Rightarrow> False | Inr p \<Rightarrow> running tracked S h \<and>
         (\<forall>a. p = Inr a \<longrightarrow> PlannedRow a \<in> set h \<and> at_tx a = Evm tx))"
  proof (cases a)
    case (Inr b)
    then show ?thesis
      using running_plain [of tracked S _ "[PlannedRow b]"]
      by (simp add: logs_def and_then_def publish_def ok_def)
  qed (simp add: logs_def ok_def)
qed

lemma write_update_logs:
  "logs (ready tracked mine chain from S tx row) (write_update D i st hash rc e)
    (\<lambda>h res. case res of Inl _ \<Rightarrow> False | Inr p \<Rightarrow> ready tracked mine chain from S tx row h \<and>
       (p = Inr () \<longrightarrow> UpdatedRow i st hash \<in> set h))"
  unfolding write_update_def logs_def
proof (intro allI impI, goal_cases)
  case (1 h w)
  then show ?case
    using ready_plain [of tracked mine chain "from" S tx row h "[UpdatedRow i st hash]"]
    by (simp add: and_then_def on_store_def publish_def ok_def case_prod_beta split: sum.split)
qed

definition hash_written :: "(transaction_tracking \<times> transaction_attempt) option \<Rightarrow> bytes \<Rightarrow> submit_effect list \<Rightarrow> bool" where
  "hash_written row hash h \<longleftrightarrow> (\<forall>T a. row = Some (T, a) \<longrightarrow> UpdatedRow (at_id a) Broadcast (Some hash) \<in> set h)"

lemma rollback_fail_logs:
  assumes "\<And>h. P h \<Longrightarrow> running tracked S h \<and> (mine \<longrightarrow> took chain from tx h)"
  shows "logs P (and_then (rollback_nonce D chain from (AttemptRollback (tx_nonce tx))) (\<lambda>_. fails e))
    (\<lambda>h r. case r of Inl _ \<Rightarrow> closed tracked mine S h | Inr _ \<Rightarrow> False)"
proof (rule logs_step)
  show "logs P (rollback_nonce D chain from (AttemptRollback (tx_nonce tx)))
      (\<lambda>h r. case r of Inl _ \<Rightarrow> closed tracked mine S h | Inr _ \<Rightarrow> closed tracked mine S h)"
    using rollback_shape [of chain "from" tx D] assms closed_after_rollback
    unfolding logs_def shaped_def by (metis sum.case_eq_if)
qed (simp_all add: logs_fails)

lemma persist_hash_logs:
  "logs (ready tracked mine chain from S tx row) (persist_hash D chain from tx row hash message)
    (\<lambda>h r. case r of Inl _ \<Rightarrow> closed tracked mine S h
       | Inr _ \<Rightarrow> ready tracked mine chain from S tx row h \<and> hash_written row hash h)"
proof (cases row)
  case None
  then show ?thesis by (simp add: persist_hash_def hash_written_def logs_ok)
next
  case (Some p)
  obtain T a where p: "p = (T, a)" by (cases p)
  show ?thesis
    unfolding persist_hash_def Some p option.case prod.case
  proof (rule logs_and_then)
    show "logs (ready tracked mine chain from S tx (Some (T, a))) (write_update D (at_id a) Broadcast (Some hash) None None)
      (\<lambda>h r. case r of Inl e \<Rightarrow> (case Inl e of Inl _ \<Rightarrow> closed tracked mine S h
         | Inr _ \<Rightarrow> ready tracked mine chain from S tx (Some (T, a)) h \<and> hash_written (Some (T, a)) hash h)
       | Inr b \<Rightarrow> ready tracked mine chain from S tx (Some (T, a)) h \<and>
           (b = Inr () \<longrightarrow> UpdatedRow (at_id a) Broadcast (Some hash) \<in> set h))"
      by (rule logs_conseq [OF write_update_logs]) (auto split: sum.splits)
    show "logs (\<lambda>h. ready tracked mine chain from S tx (Some (T, a)) h \<and>
           (b = Inr () \<longrightarrow> UpdatedRow (at_id a) Broadcast (Some hash) \<in> set h))
        (case b of Inl e \<Rightarrow> and_then (rollback_nonce D chain from (AttemptRollback (tx_nonce tx)))
             (\<lambda>_. fails (Network (message @ e))) | Inr _ \<Rightarrow> ok ())
      (\<lambda>h r. case r of Inl _ \<Rightarrow> closed tracked mine S h
         | Inr _ \<Rightarrow> ready tracked mine chain from S tx (Some (T, a)) h \<and> hash_written (Some (T, a)) hash h)" for b
    proof (cases b)
      case (Inl e)
      show ?thesis
        unfolding Inl sum.case
        by (rule logs_conseq [OF rollback_fail_logs [where P = "ready tracked mine chain from S tx (Some (T, a))"]])
          (auto simp: ready_def split: sum.splits)
    qed (simp add: logs_def ok_def hash_written_def)
  qed
qed

lemma send_raw_logs:
  "logs (\<lambda>h. ready tracked mine chain from S tx row h \<and> hash_written row hash h) (send_raw D tx hash encoded)
    (\<lambda>h r. case r of Inl _ \<Rightarrow> False
       | Inr msg \<Rightarrow> ready tracked mine chain from (S @ [(tx, hash, classify_raw_send_outcome msg)]) tx row h)"
proof (rule logsI, goal_cases)
  case (1 h w)
  let ?e = "SentRaw tx hash (classify_raw_send_outcome (ed_send D (es_awaits w) encoded))"
  have "tracked \<longrightarrow> announced (h @ [?e])"
    using 1 unfolding announced_snoc by (fastforce simp: ready_def running_def row_planned_def hash_written_def)
  then have "ready tracked mine chain from (S @ [(tx, hash, classify_raw_send_outcome (ed_send D (es_awaits w) encoded))])
      tx row (h @ [?e])"
    using 1 by (auto simp: ready_def running_def row_planned_def took_def)
  then show ?case by (simp add: send_raw_def and_then_def awaiting_def publish_def ok_def)
qed

abbreviation sent_one ::
  "bool \<Rightarrow> bool \<Rightarrow> nat \<Rightarrow> bytes \<Rightarrow> (evm_transaction \<times> bytes \<times> raw_send_verdict) list \<Rightarrow> evm_transaction
   \<Rightarrow> (transaction_tracking \<times> transaction_attempt) option \<Rightarrow> submit_effect list
   \<Rightarrow> (submit_failure, bytes \<times> string option) result \<Rightarrow> bool" where
  "sent_one tracked mine chain from S tx row h r \<equiv>
     (case r of Inl _ \<Rightarrow> closed tracked mine S h
      | Inr p \<Rightarrow> ready tracked mine chain from (S @ [(tx, fst p, classify_raw_send_outcome (snd p))]) tx row h)"

lemma broadcast_logs:
  "logs (ready tracked mine chain from S tx row)
    (and_then (sign_or_reject D chain from tx row c1) (\<lambda>(h, encoded).
     and_then (ensure_signed_transaction_affordable D chain from tx encoded row c2) (\<lambda>_.
     and_then (persist_hash D chain from tx row h c3) (\<lambda>_.
     and_then (send_raw D tx h encoded) (\<lambda>msg. ok (h, msg))))))
    (sent_one tracked mine chain from S tx row)"
  by (rule logs_step [OF stage_logs [OF sign_stage]], simp, unfold case_prod_beta,
      rule logs_step [OF stage_logs [OF affordable_stage]], simp,
      rule logs_step [OF persist_hash_logs], simp, rule logs_step [OF send_raw_logs], simp,
      rule logs_ok, simp)

lemma first_broadcast_logs:
  "logs (ready tracked mine chain from S tx row) (first_broadcast D chain from tx row)
    (sent_one tracked mine chain from S tx row)"
  unfolding first_broadcast_def by (rule broadcast_logs)

lemma retry_broadcast_logs:
  "logs (ready tracked mine chain from S tx row) (retry_broadcast D chain from tx row)
    (sent_one tracked mine chain from S tx row)"
  unfolding retry_broadcast_def by (rule broadcast_logs)

section \<open>How a submission ends\<close>

abbreviation pooled_sends :: "submit_effect list \<Rightarrow> (evm_transaction \<times> bytes \<times> raw_send_verdict) list" where
  "pooled_sends h \<equiv> filter (\<lambda>(tx, hash, v). may_be_pooled v) (sends h)"

definition reclaims_ok :: "submit_effect list \<Rightarrow> bool" where
  "reclaims_ok h \<longleftrightarrow> (\<forall>c f n p. RolledBack c f (Some n) p \<in> set h \<longrightarrow> TookNonce c f n \<in> set h \<and>
     (\<forall>tx hash v. (tx, hash, v) \<in> set (sends h) \<longrightarrow> tx_nonce tx = Some n \<longrightarrow> \<not> may_be_pooled v))"

definition is_tracked :: "transaction_tracking option \<Rightarrow> bool" where
  "is_tracked tracking \<longleftrightarrow> tracking \<noteq> None"

text \<open>The call that was asked for: everything but the fees, the gas limit and the nonce.\<close>

definition same_call :: "evm_transaction \<Rightarrow> evm_transaction \<Rightarrow> bool" where
  "same_call tx tx' \<longleftrightarrow> tx_to tx' = tx_to tx \<and> tx_data tx' = tx_data tx \<and> tx_value tx' = tx_value tx \<and>
     tx_chain_id tx' = tx_chain_id tx"

definition asked_replacement :: "transaction_tracking option \<Rightarrow> bool" where
  "asked_replacement tracking \<longleftrightarrow> (\<exists>T. tracking = Some T \<and> tk_replacement_of T \<noteq> None)"

text \<open>
  At most two sends, both of the requested call; the second only after the first was refused for
  its nonce, only for a submission that is no replacement, and only with another nonce.
\<close>

definition sends_shape ::
  "evm_transaction \<Rightarrow> transaction_tracking option \<Rightarrow> (evm_transaction \<times> bytes \<times> raw_send_verdict) list \<Rightarrow> bool" where
  "sends_shape tx0 tracking S \<longleftrightarrow>
     (\<forall>(tx, hash, v) \<in> set S. same_call tx0 tx) \<and>
     (case S of
        [] \<Rightarrow> True
      | (tx1, h1, v1) # rest \<Rightarrow>
          (tx_nonce tx0 \<noteq> None \<longrightarrow> tx_nonce tx1 = tx_nonce tx0) \<and>
          (case rest of
             [] \<Rightarrow> True
           | (tx2, h2, v2) # rest2 \<Rightarrow>
               rest2 = [] \<and> (\<exists>m. v1 = SendNonceTooLow m) \<and> \<not> asked_replacement tracking \<and>
               tx2 = tx1\<lparr>tx_nonce := tx_nonce tx2\<rparr>))"

definition ended ::
  "evm_transaction \<Rightarrow> transaction_tracking option \<Rightarrow> submit_effect list \<Rightarrow> (submit_failure, bytes) result \<Rightarrow> bool" where
  "ended tx0 tracking h r \<longleftrightarrow>
     (is_tracked tracking \<longrightarrow> announced h) \<and> (tx_nonce tx0 = None \<longrightarrow> reclaims_ok h) \<and>
     sends_shape tx0 tracking (sends h) \<and>
     (case r of Inl _ \<Rightarrow> pooled_sends h = [] | Inr hash \<Rightarrow> (\<exists>tx v. pooled_sends h = [(tx, hash, v)]))"

lemma closed_ended:
  assumes "closed (is_tracked tracking) (tx_nonce tx0 = None) S h" and "sends_shape tx0 tracking S"
    and "filter (\<lambda>(tx, hash, v). may_be_pooled v) S = []"
  shows "ended tx0 tracking h (Inl e)"
  using assms by (fastforce simp: ended_def closed_def reclaims_ok_def filter_empty_conv)

lemma ready_ended:
  assumes "ready (is_tracked tracking) (tx_nonce tx0 = None) chain from S tx row h" and "sends_shape tx0 tracking S"
    and "filter (\<lambda>(tx, hash, v). may_be_pooled v) S = [(tx1, hash, v)]"
  shows "ended tx0 tracking h (Inr hash)"
proof -
  have "\<And>c f n p. RolledBack c f (Some n) p \<notin> set h"
    using assms(1) by (fastforce simp: ready_def running_def filter_empty_conv)
  then show ?thesis using assms by (auto simp: ended_def ready_def running_def reclaims_ok_def)
qed

lemma note_row_logs:
  "logs (ready tracked mine chain from S tx row) (note_row D row1 s hash e context)
    (\<lambda>h r. case r of Inl _ \<Rightarrow> False | Inr _ \<Rightarrow> ready tracked mine chain from S tx row h)"
proof (cases row1)
  case (Some p)
  show ?thesis
    unfolding note_row_def Some option.case record_attempt_update_best_effort_def case_prod_beta
    by (rule logs_step [OF write_update_logs], simp)
      (auto intro!: logs_publish logs_ok ready_plain split: sum.split)
qed (simp add: note_row_def logs_ok)

lemma noted_logs:
  "logs (ready tracked mine chain from S tx row)
    (and_then (note_row D row1 s hs e context) (\<lambda>_. and_then (awaiting D (ed_pending D)) (\<lambda>_.
       and_then (start_monitor from1 tx1 hash row1) (\<lambda>_. ok hash))))
    (\<lambda>h r. case r of Inl _ \<Rightarrow> False | Inr x \<Rightarrow> x = hash \<and> ready tracked mine chain from S tx row h)"
  unfolding start_monitor_def
  by (rule logs_step [OF note_row_logs], simp, rule logs_step [where C = "\<lambda>_. False" and
      R = "\<lambda>_. ready tracked mine chain from S tx row"], rule logs_awaiting, simp, simp,
      rule logs_step [where C = "\<lambda>_. False" and R = "\<lambda>_. ready tracked mine chain from S tx row"])
    (auto intro!: logs_publish logs_ok ready_plain split: option.split prod.split)

lemma after_accepted_logs:
  "logs (ready tracked mine chain from S tx row) (after_accepted D from1 tx1 hash row1 context)
    (\<lambda>h r. case r of Inl _ \<Rightarrow> False | Inr x \<Rightarrow> x = hash \<and> ready tracked mine chain from S tx row h)"
  unfolding after_accepted_def by (rule noted_logs)

lemma after_ambiguous_logs:
  "logs (ready tracked mine chain from S tx row) (after_ambiguous D from1 tx1 hash msg row1 context)
    (\<lambda>h r. case r of Inl _ \<Rightarrow> False | Inr x \<Rightarrow> x = hash \<and> ready tracked mine chain from S tx row h)"
  by (simp add: after_ambiguous_def noted_logs logs_ok)

section \<open>The retry\<close>

lemma retry_nonce_logs:
  "logs (running tracked S) (retry_nonce D chain from)
    (\<lambda>h r. case r of Inl _ \<Rightarrow> running tracked S h | Inr n \<Rightarrow> running tracked S h \<and> TookNonce chain from n \<in> set h)"
  using running_plain [of tracked S _ "[TookNonce chain from n]" for n]
  by (auto simp: logs_def retry_nonce_def get_nonce_manager_def and_then_def ok_def fails_def err_def awaiting_def
        Let_def split: sum.split prod.split option.split)

lemma retry_planned_logs:
  assumes "tracked \<longrightarrow> is_tracked tracking"
  shows "logs (\<lambda>h. running tracked S h \<and> took chain from tx h) (retry_planned D chain from tx tracking)
    (\<lambda>h r. case r of Inl _ \<Rightarrow> closed tracked mine S h
       | Inr row \<Rightarrow> ready tracked mine chain from S tx row h \<and> map_option fst row = tracking)"
proof (cases tracking)
  case None
  then show ?thesis using assms by (auto intro!: logs_ok simp: retry_planned_def ready_def row_planned_def is_tracked_def)
next
  case (Some T)
  have plan: "logs (\<lambda>h. running tracked S h \<and> took chain from tx h) (plan_attempt D T from tx None None)
      (\<lambda>h res. case res of Inl _ \<Rightarrow> False | Inr p \<Rightarrow> running tracked S h \<and> took chain from tx h \<and>
         (\<forall>a. p = Inr a \<longrightarrow> PlannedRow a \<in> set h \<and> at_tx a = Evm tx))"
    using plan_attempt_logs [of tracked S D T "from" tx None None]
    unfolding logs_def took_def by (fastforce split: sum.splits)
  show ?thesis
    unfolding retry_planned_def Some option.case
  proof (rule logs_step [OF plan], simp)
    fix r
    show "logs (\<lambda>h. running tracked S h \<and> took chain from tx h \<and>
         (\<forall>a. r = Inr a \<longrightarrow> PlannedRow a \<in> set h \<and> at_tx a = Evm tx))
       (case r of Inl e \<Rightarrow> and_then (rollback_nonce D chain from (AttemptRollback (tx_nonce tx))) (\<lambda>_. fails e)
          | Inr a \<Rightarrow> ok (Some (T, a)))
       (\<lambda>h r. case r of Inl _ \<Rightarrow> closed tracked mine S h
          | Inr row \<Rightarrow> ready tracked mine chain from S tx row h \<and> map_option fst row = Some T)"
    proof (cases r)
      case (Inl e)
      then show ?thesis
        by (simp del: imp_conjR) (rule logs_conseq [OF rollback_fail_logs], assumption, auto split: sum.splits)
    qed (auto intro!: logs_ok simp: ready_def row_planned_def)
  qed
qed

section \<open>Settling the answers\<close>

abbreviation prepared where
  "prepared tx0 tracking chain from S tx row \<equiv> ready (is_tracked tracking) (tx_nonce tx0 = None) chain from S tx row"

lemma settle_fail:
  assumes "sends_shape tx0 tracking S" and "filter (\<lambda>(tx, hash, v). may_be_pooled v) S = []"
  shows "logs (prepared tx0 tracking chain from S tx row) (and_then (note_row D row1 s hash x context) (\<lambda>_. fails e))
    (ended tx0 tracking)"
  by (rule logs_step [OF note_row_logs], simp, rule logs_fails, rule closed_ended [OF ready_closed assms])

lemma settle_rollback:
  assumes "sends_shape tx0 tracking S" and "filter (\<lambda>(tx, hash, v). may_be_pooled v) S = []"
  shows "logs (prepared tx0 tracking chain from S tx row)
    (and_then (note_row D row1 s hash x context) (\<lambda>_.
     and_then (rollback_nonce D chain from (AttemptRollback (tx_nonce tx))) (\<lambda>_. fails e)))
    (ended tx0 tracking)"
proof (rule logs_step [OF note_row_logs], simp)
  show "logs (prepared tx0 tracking chain from S tx row)
      (and_then (rollback_nonce D chain from (AttemptRollback (tx_nonce tx))) (\<lambda>_. fails e)) (ended tx0 tracking)"
    by (rule logs_conseq [OF rollback_fail_logs [where P = "prepared tx0 tracking chain from S tx row"
          and tracked = "is_tracked tracking" and mine = "tx_nonce tx0 = None" and S = S]])
      (auto intro: closed_ended [OF _ assms] simp: ready_def split: sum.splits)
qed

lemma rollback_none_logs:
  "logs (ready tracked mine chain from S tx row) (rollback_nonce D c f (AttemptRollback None))
    (\<lambda>h r. closed tracked mine S h)"
proof (rule logsI, goal_cases)
  case (1 h w)
  have step: "closed tracked mine S (h @ [RolledBack c f None p])" for p
    using ready_closed [OF 1] unfolding closed_def announced_snoc by auto
  show ?case
    using step ready_closed [OF 1]
    by (simp add: rollback_nonce_def get_nonce_manager_def and_then_def ok_def fails_def err_def awaiting_def Let_def)
qed

lemma settle_too_low:
  assumes "sends_shape tx0 tracking S" and "filter (\<lambda>(tx, hash, v). may_be_pooled v) S = []"
  shows "logs (prepared tx0 tracking chain from S tx row)
    (and_then (note_row D row1 s hash x context) (\<lambda>_.
     and_then (rollback_nonce D c f nonce_too_low_retry_nonce_cache_action) (\<lambda>_. fails e)))
    (ended tx0 tracking)"
  unfolding nonce_too_low_retry_nonce_cache_action_def
  by (rule logs_step [OF note_row_logs], simp,
      rule logs_step [where C = "closed (is_tracked tracking) (tx_nonce tx0 = None) S" and
        R = "\<lambda>_. closed (is_tracked tracking) (tx_nonce tx0 = None) S"],
      rule logs_conseq [OF rollback_none_logs], assumption)
    (auto intro: closed_ended [OF _ assms] logs_fails split: sum.splits)

lemma settle_pooled:
  assumes "sends_shape tx0 tracking S" and "filter (\<lambda>(tx, hash, v). may_be_pooled v) S = [(tx1, hash, v)]"
    and "logs (prepared tx0 tracking chain from S tx row) m
      (\<lambda>h r. case r of Inl _ \<Rightarrow> False | Inr x \<Rightarrow> x = hash \<and> prepared tx0 tracking chain from S tx row h)"
  shows "logs (prepared tx0 tracking chain from S tx row) m (ended tx0 tracking)"
  by (rule logs_conseq [OF assms(3)], assumption) (auto intro: ready_ended [OF _ assms(1,2)] split: sum.splits)

lemma settle_retry_logs:
  assumes "sends_shape tx0 tracking (S @ [(tx, fst o1, classify_raw_send_outcome (snd o1))])"
    and "filter (\<lambda>(tx, hash, v). may_be_pooled v) S = []"
  shows "logs (prepared tx0 tracking chain from (S @ [(tx, fst o1, classify_raw_send_outcome (snd o1))]) tx row)
    (settle_retry D chain from tx row reason o1) (ended tx0 tracking)"
proof -
  obtain hash msg where o1: "o1 = (hash, msg)" by (cases o1)
  show ?thesis
    unfolding settle_retry_def o1 Let_def prod.case fst_conv snd_conv
  proof (cases "classify_raw_send_outcome msg", goal_cases)
    case 1
    show ?case
      unfolding 1 raw_send_verdict.case using assms(1) [unfolded o1 fst_conv snd_conv 1] assms(2)
      by (intro settle_pooled [OF _ _ after_accepted_logs]) auto
  next
    case 2
    show ?case
      unfolding 2 raw_send_verdict.case using assms(1) [unfolded o1 fst_conv snd_conv 2] assms(2)
      by (intro settle_pooled [OF _ _ after_ambiguous_logs]) auto
  next
    case (3 m)
    show ?case
      unfolding 3 raw_send_verdict.case using assms(1) [unfolded o1 fst_conv snd_conv 3] assms(2)
      by (intro settle_rollback) auto
  next
    case (4 m)
    show ?case
      unfolding 4 raw_send_verdict.case using assms(1) [unfolded o1 fst_conv snd_conv 4] assms(2)
      by (intro settle_fail) auto
  next
    case (5 m)
    show ?case
      unfolding 5 raw_send_verdict.case using assms(1) [unfolded o1 fst_conv snd_conv 5] assms(2)
      by (intro settle_too_low) auto
  qed
qed

text \<open>The transaction that is signed first is the requested call under the requested nonce.\<close>

definition follows :: "evm_transaction \<Rightarrow> evm_transaction \<Rightarrow> bool" where
  "follows tx0 tx \<longleftrightarrow> same_call tx0 tx \<and> (tx_nonce tx0 \<noteq> None \<longrightarrow> tx_nonce tx = tx_nonce tx0)"

lemma sends_shape_first: "follows tx0 tx \<Longrightarrow> sends_shape tx0 tracking [] \<and> sends_shape tx0 tracking [(tx, hash, v)]"
  by (simp add: sends_shape_def follows_def)

lemma sends_shape_second:
  "follows tx0 tx \<Longrightarrow> \<not> asked_replacement tracking \<Longrightarrow>
   sends_shape tx0 tracking ([(tx, h1, SendNonceTooLow m)] @ [(tx\<lparr>tx_nonce := n\<rparr>, h2, v2)])"
  by (simp add: sends_shape_def follows_def same_call_def)

lemma retry_submission_logs:
  assumes tx: "follows tx0 tx" and repl: "\<not> asked_replacement tracking" and row: "map_option fst row = tracking"
  shows "logs (prepared tx0 tracking chain from [(tx, hash, SendNonceTooLow m)] tx row)
    (retry_submission D chain from tx row hash reason) (ended tx0 tracking)"
proof -
  let ?S = "[(tx, hash, SendNonceTooLow m)]"
  have shape: "sends_shape tx0 tracking ?S" using sends_shape_first [OF tx] by blast
  have stop: "ended tx0 tracking h (Inl e)" if "closed (is_tracked tracking) (tx_nonce tx0 = None) ?S h" for h e
    by (rule closed_ended [OF that shape]) simp
  have second: "logs (\<lambda>h. running (is_tracked tracking) ?S h \<and> TookNonce chain from n \<in> set h)
      (and_then (retry_planned D chain from (tx\<lparr>tx_nonce := Some n\<rparr>) tracking) (\<lambda>row1.
       and_then (retry_broadcast D chain from (tx\<lparr>tx_nonce := Some n\<rparr>) row1) (\<lambda>o1.
         settle_retry D chain from (tx\<lparr>tx_nonce := Some n\<rparr>) row1 reason o1)))
      (ended tx0 tracking)" for n
  proof (rule logs_conseq)
    let ?tx = "tx\<lparr>tx_nonce := Some n\<rparr>"
    show "logs (\<lambda>h. running (is_tracked tracking) ?S h \<and> took chain from ?tx h)
        (and_then (retry_planned D chain from ?tx tracking) (\<lambda>row1.
         and_then (retry_broadcast D chain from ?tx row1) (\<lambda>o1. settle_retry D chain from ?tx row1 reason o1)))
        (ended tx0 tracking)"
    proof (rule logs_step [OF retry_planned_logs], simp, erule stop)
      fix row1
      show "logs (\<lambda>h. prepared tx0 tracking chain from ?S ?tx row1 h \<and> map_option fst row1 = tracking)
          (and_then (retry_broadcast D chain from ?tx row1) (\<lambda>o1. settle_retry D chain from ?tx row1 reason o1))
          (ended tx0 tracking)"
      proof (rule logs_conseq)
        show "logs (prepared tx0 tracking chain from ?S ?tx row1)
            (and_then (retry_broadcast D chain from ?tx row1) (\<lambda>o1. settle_retry D chain from ?tx row1 reason o1))
            (ended tx0 tracking)"
          by (rule logs_step [OF retry_broadcast_logs])
            (erule stop, rule settle_retry_logs [OF sends_shape_second [OF tx repl]], simp)
      qed simp_all
    qed
  qed (simp_all add: took_def)
  show ?thesis
    unfolding retry_submission_def Let_def row
  proof (rule logs_step [OF note_row_logs], simp)
    have "logs (prepared tx0 tracking chain from ?S tx row) (retry_nonce D chain from)
        (\<lambda>h r. case r of Inl _ \<Rightarrow> running (is_tracked tracking) ?S h
          | Inr n \<Rightarrow> running (is_tracked tracking) ?S h \<and> TookNonce chain from n \<in> set h)"
      by (rule logs_conseq [OF retry_nonce_logs]) (auto simp: ready_def)
    then show "logs (prepared tx0 tracking chain from ?S tx row)
        (and_then (retry_nonce D chain from) (\<lambda>n.
         and_then (retry_planned D chain from (tx\<lparr>tx_nonce := Some n\<rparr>) tracking) (\<lambda>row1.
         and_then (retry_broadcast D chain from (tx\<lparr>tx_nonce := Some n\<rparr>) row1) (\<lambda>o1.
           settle_retry D chain from (tx\<lparr>tx_nonce := Some n\<rparr>) row1 reason o1))))
        (ended tx0 tracking)"
      by (rule logs_step) (auto intro: stop running_closed second)
  qed
qed

lemma settle_first_logs:
  assumes tx: "follows tx0 tx" and row: "map_option fst row = tracking"
  shows "logs (prepared tx0 tracking chain from [(tx, fst o1, classify_raw_send_outcome (snd o1))] tx row)
    (settle_first D chain from tx row o1) (ended tx0 tracking)"
proof -
  obtain hash msg where o1: "o1 = (hash, msg)" by (cases o1)
  note shape = sends_shape_first [OF tx, THEN conjunct2]
  have repl: "is_replacement row \<longleftrightarrow> asked_replacement tracking"
    unfolding row [symmetric] by (cases row) (auto simp: is_replacement_def asked_replacement_def)
  show ?thesis
    unfolding settle_first_def o1 Let_def prod.case fst_conv snd_conv repl
  proof (cases "classify_raw_send_outcome msg", goal_cases)
    case 1
    show ?case unfolding 1 raw_send_verdict.case by (rule settle_pooled [OF shape _ after_accepted_logs]) simp
  next
    case 2
    show ?case unfolding 2 raw_send_verdict.case by (rule settle_pooled [OF shape _ after_ambiguous_logs]) simp
  next
    case (3 m)
    show ?case unfolding 3 raw_send_verdict.case by (rule settle_rollback [OF shape]) simp
  next
    case (4 m)
    show ?case unfolding 4 raw_send_verdict.case by (rule settle_fail [OF shape]) simp
  next
    case (5 m)
    show ?case
      unfolding 5 raw_send_verdict.case
      by (cases "asked_replacement tracking"; simp only: if_True if_False)
        (rule settle_fail [OF shape], simp, rule retry_submission_logs [OF tx _ row], assumption)
  qed
qed

section \<open>The whole submission\<close>

lemma plain_logs_step:
  assumes "shaped plain_effect plain_effect m"
  shows "logs (running tracked S) m (\<lambda>h r. case r of Inl _ \<Rightarrow> running tracked S h | Inr _ \<Rightarrow> running tracked S h)"
  by (rule logs_conseq [OF plain_logs(1) [OF assms]]) (auto split: sum.splits)

lemma fee_params_for_shape: "shaped E F (fee_params_for D chain)"
  by (simp add: shaped_def fee_params_for_def Let_def split: prod.split fee_outcome.split)

lemma preflight_shape: "shaped E F (preflight D chain from tx balance)"
  by (simp add: preflight_def shaped_simple split: option.split)

lemma get_signer_address_shape: "shaped E F (get_signer_address D chain)"
  by (simp add: get_signer_address_def shaped_simple split: option.split)

lemma fill_gas_limit_logs:
  assumes "follows tx0 tx \<and> tx_nonce tx = tx_nonce tx0"
  shows "logs (running tracked S) (fill_gas_limit D chain from tx)
    (\<lambda>h r. case r of Inl _ \<Rightarrow> running tracked S h
       | Inr tx2 \<Rightarrow> running tracked S h \<and> follows tx0 tx2 \<and> tx_nonce tx2 = tx_nonce tx0)"
  using assms
  by (auto simp: logs_def fill_gas_limit_def and_then_def awaiting_def ok_def fails_def err_def follows_def
        same_call_def split: sum.split option.split)

lemma fill_nonce_logs:
  "logs (\<lambda>h. running tracked S h \<and> follows tx0 tx \<and> tx_nonce tx = tx_nonce tx0) (fill_nonce D chain from tx)
    (\<lambda>h r. case r of Inl _ \<Rightarrow> running tracked S h
       | Inr tx3 \<Rightarrow> running tracked S h \<and> follows tx0 tx3 \<and> (tx_nonce tx0 = None \<longrightarrow> took chain from tx3 h))"
  using running_plain [of tracked S _ "[TookNonce chain from n]" for n]
  by (auto simp: logs_def fill_nonce_def next_nonce_for_def get_provider_def get_nonce_manager_def and_then_def
        awaiting_def ok_def fails_def err_def follows_def same_call_def took_def Let_def
        split: sum.split option.split prod.split)

lemma first_planned_logs:
  assumes "tracked \<longrightarrow> is_tracked tracking"
  shows "logs (\<lambda>h. running tracked S h \<and> follows tx0 tx \<and> (mine \<longrightarrow> took chain from tx h)) (first_planned D from tx tracking)
    (\<lambda>h r. case r of Inl _ \<Rightarrow> running tracked S h
       | Inr row \<Rightarrow> ready tracked mine chain from S tx row h \<and> follows tx0 tx \<and> map_option fst row = tracking)"
proof (cases tracking)
  case None
  then show ?thesis using assms by (auto intro!: logs_ok simp: first_planned_def ready_def row_planned_def is_tracked_def)
next
  case (Some T)
  have plan: "logs (\<lambda>h. running tracked S h \<and> follows tx0 tx \<and> (mine \<longrightarrow> took chain from tx h))
      (plan_attempt D T from tx (tk_attempt_id T) (tk_replacement_of T))
      (\<lambda>h res. case res of Inl _ \<Rightarrow> False | Inr p \<Rightarrow> running tracked S h \<and> follows tx0 tx \<and> (mine \<longrightarrow> took chain from tx h) \<and>
         (\<forall>a. p = Inr a \<longrightarrow> PlannedRow a \<in> set h \<and> at_tx a = Evm tx))"
    using plan_attempt_logs [of tracked S D T "from" tx "tk_attempt_id T" "tk_replacement_of T"]
    unfolding logs_def took_def by (fastforce split: sum.splits)
  show ?thesis
    unfolding first_planned_def Some option.case
    by (rule logs_step [OF plan], simp)
      (auto intro!: logs_ok logs_fails simp: ready_def row_planned_def split: sum.split)
qed

lemma follows_apply: "follows tx (apply_if_missing fp tx) \<and> tx_nonce (apply_if_missing fp tx) = tx_nonce tx"
  by (simp add: follows_def same_call_def apply_if_missing_def split: fee_model.split)

lemma submit_logs: "logs (\<lambda>h. h = []) (submit D tx tracking) (ended tx tracking)"
proof (rule logs_conseq)
  let ?run = "running (is_tracked tracking) []"
  have stop: "ended tx tracking h (Inl e)" if "?run h" for h e
    by (rule closed_ended [OF running_closed [OF that]]) (simp_all add: sends_shape_def)
  have stop': "ended tx tracking h (Inl e)" if "closed (is_tracked tracking) (tx_nonce tx = None) [] h" for h e
    by (rule closed_ended [OF that]) (simp_all add: sends_shape_def)
  note steps = plain_logs_step [OF get_provider_shape] plain_logs_step [OF get_signer_address_shape]
    plain_logs_step [OF fee_params_for_shape] plain_logs_step [OF shaped_simple(4)] plain_logs_step [OF preflight_shape]
  have tail: "logs (\<lambda>h. prepared tx tracking chain from [] tx3 row h \<and> follows tx tx3 \<and> map_option fst row = tracking)
      (and_then (first_broadcast D chain from tx3 row) (\<lambda>o1. settle_first D chain from tx3 row o1))
      (ended tx tracking)" for chain "from" tx3 row
  proof (cases "follows tx tx3 \<and> map_option fst row = tracking")
    case True
    have "logs (prepared tx tracking chain from [] tx3 row)
        (and_then (first_broadcast D chain from tx3 row) (\<lambda>o1. settle_first D chain from tx3 row o1)) (ended tx tracking)"
      by (rule logs_step [OF first_broadcast_logs], erule stop', unfold append_Nil,
          rule settle_first_logs [OF True [THEN conjunct1] True [THEN conjunct2]])
    then show ?thesis by (rule logs_conseq) simp_all
  qed (auto simp: logs_def)
  have nonce: "logs (\<lambda>h. ?run h \<and> follows tx tx2 \<and> tx_nonce tx2 = tx_nonce tx)
      (and_then (preflight D chain from tx2 balance) (\<lambda>_.
       and_then (fill_nonce D chain from tx2) (\<lambda>tx3.
       and_then (first_planned D from tx3 tracking) (\<lambda>row.
       and_then (first_broadcast D chain from tx3 row) (\<lambda>o1. settle_first D chain from tx3 row o1)))))
      (ended tx tracking)" for chain "from" tx2 balance
  proof (cases "follows tx tx2 \<and> tx_nonce tx2 = tx_nonce tx")
    case True
    have 1: "logs ?run (preflight D chain from tx2 balance)
        (\<lambda>h r. case r of Inl _ \<Rightarrow> ?run h | Inr _ \<Rightarrow> ?run h \<and> follows tx tx2 \<and> tx_nonce tx2 = tx_nonce tx)"
      by (rule logs_conseq [OF plain_logs_step [OF preflight_shape]]) (use True in \<open>auto split: sum.splits\<close>)
    have "logs ?run
      (and_then (preflight D chain from tx2 balance) (\<lambda>_.
       and_then (fill_nonce D chain from tx2) (\<lambda>tx3.
       and_then (first_planned D from tx3 tracking) (\<lambda>row.
       and_then (first_broadcast D chain from tx3 row) (\<lambda>o1. settle_first D chain from tx3 row o1)))))
      (ended tx tracking)"
      by (rule logs_step [OF 1], erule stop, rule logs_step [OF fill_nonce_logs], erule stop,
          rule logs_step [OF first_planned_logs], simp, erule stop, rule tail)
    then show ?thesis by (rule logs_conseq) simp_all
  qed (auto simp: logs_def)
  show "logs ?run (submit D tx tracking) (ended tx tracking)"
    unfolding submit_def Let_def
    by (rule logs_step [OF steps(1)], erule stop, rule logs_step [OF steps(2)], erule stop,
        rule logs_step [OF steps(3)], erule stop, rule logs_step [OF steps(4)], erule stop,
        rule logs_step [OF steps(4)], erule stop, rule logs_step [OF steps(5)], erule stop,
        rule logs_step [OF fill_gas_limit_logs [OF follows_apply]], erule stop, rule nonce)
qed (simp_all add: running_def)

lemma submit_ended: "ended tx tracking (fst (submit D tx tracking st)) (fst (snd (submit D tx tracking st)))"
  using submit_logs [of D tx tracking] by (simp add: logs_def)

text \<open>
  C16: Submission is at most once and its result is truthful.  Whatever the nodes, the signer, the
  ledger and concurrent submissions answer, a submission that returns a hash has sent exactly one
  transaction that may be in a pool, the one with that hash; a submission that returns an error has
  sent none.  It sends at most two transactions, all making the requested call, the first under the
  requested nonce if there is one; a second one only after the first was refused because its nonce
  was too low, only if the submission is not a same-nonce replacement, and it differs from the
  first in nothing but the nonce.
\<close>

theorem submission_at_most_once:
  "case submit D tx tracking st of (tr, r, st') \<Rightarrow>
     sends_shape tx tracking (sends tr) \<and>
     (case r of
        Inl _ \<Rightarrow> pooled_sends tr = []
      | Inr hash \<Rightarrow> (\<exists>tx' v. pooled_sends tr = [(tx', hash, v)]))"
  using submit_ended [of tx tracking D st] unfolding ended_def case_prod_beta by blast

text \<open>
  C17: A tracked submission broadcasts only what recovery can find: every raw send is preceded by a
  successful write of a ledger row planned with exactly that transaction and by a successful update
  of that row to broadcast with exactly that hash.
\<close>

theorem tracked_sends_recorded_first: "announced (fst (submit D tx (Some T) st))"
  using submit_ended [of tx "Some T" D st] by (simp add: ended_def is_tracked_def)

text \<open>
  C18: A submission that chooses its own nonce asks to take a nonce back only if it took that nonce
  itself and nothing it sent under that nonce may be in a pool: the condition under which taking a
  nonce back cannot hand out a nonce in flight.
\<close>

theorem reclaimed_nonces_unused: "reclaims_ok (fst (submit D (tx\<lparr>tx_nonce := None\<rparr>) tracking st))"
  using submit_ended [of "tx\<lparr>tx_nonce := None\<rparr>" tracking D st] by (simp add: ended_def)

section \<open>Where nonces are lost or lent twice\<close>

text \<open>
  The caches as seen by a single task: other tasks stay away from them.
\<close>

definition undisturbed :: "('s, 'b) evm_delivery \<Rightarrow> bool" where
  "undisturbed D \<longleftrightarrow> (\<forall>i c. ed_other_nonces D i c = c)"

lemma plan_attempt_nonces: "undisturbed D \<Longrightarrow> es_nonces (snd (snd (plan_attempt D T s tx i r st))) = es_nonces st"
  by (simp add: plan_attempt_def and_then_def on_store_def turn_def undisturbed_def publish_def ok_def case_prod_beta
      split: sum.split)

lemma note_row_nonces: "undisturbed D \<Longrightarrow> es_nonces (snd (snd (note_row D row s h e c st))) = es_nonces st"
  by (simp add: note_row_def record_attempt_update_best_effort_def write_update_def and_then_def on_store_def turn_def
      undisturbed_def publish_def ok_def case_prod_beta split: sum.split option.split)

lemma note_row_succeeds: "fst (snd (note_row D row s h e c st)) = Inr ()"
  by (simp add: note_row_def record_attempt_update_best_effort_def write_update_def and_then_def on_store_def
      publish_def ok_def case_prod_beta split: sum.split option.split)

text \<open>
  When the row of the first attempt cannot be written, the submission returns with the nonce it has
  just taken still counted as used.
\<close>

lemma unplanned_first_attempt_keeps_nonce:
  assumes "undisturbed D"
  shows "es_nonces (snd (snd (first_planned D from tx (Some T) st))) = es_nonces st"
  using plan_attempt_nonces [OF assms, of T "from" tx "tk_attempt_id T" "tk_replacement_of T" st]
  by (auto simp: first_planned_def and_then_def ok_def fails_def err_def split: prod.splits sum.splits)

lemma rollback_last_nonce:
  assumes "undisturbed D" and "ed_nonce_managers D chain" and "ed_pending D (es_awaits st) = Inr n"
    and "es_nonces st chain from = Some (Suc n)" and "Suc n < u64_bound"
  shows "es_nonces (snd (snd (rollback_nonce D chain from (AttemptRollback (Some n)) st))) chain from = Some n"
  using assms
  by (simp add: rollback_nonce_def get_nonce_manager_def and_then_def awaiting_def ok_def turn_def undisturbed_def
        reclaim_rejected_nonce_def saturating_add_def Let_def case_prod_beta)

text \<open>
  A same-nonce replacement that is definitely rejected gives back the nonce of the transaction it
  was meant to replace, which may still be in the pool, when the node's pending count lags behind.
\<close>

lemma rejected_replacement_frees_nonce:
  assumes free: "undisturbed D" and chain: "ed_nonce_managers D chain" and lag: "\<And>i. ed_pending D i = Inr n"
    and nonce: "tx_nonce tx = Some n" "es_nonces st chain from = Some (Suc n)" "Suc n < u64_bound"
    and answer: "classify_raw_send_outcome msg = SendRejected reason"
  shows "es_nonces (snd (snd (settle_first D chain from tx row (h, msg) st))) chain from = Some n"
proof -
  obtain tr r st1 where noted: "note_row D row SubmitRejected (Some h) (Some reason) ''raw send definitely rejected'' st =
      (tr, r, st1)" by (cases "note_row D row SubmitRejected (Some h) (Some reason) ''raw send definitely rejected'' st")
  have r: "r = Inr ()"
    using note_row_succeeds [of D row SubmitRejected "Some h" "Some reason" "''raw send definitely rejected''" st] noted
    by simp
  have "es_nonces st1 chain from = Some (Suc n)"
    using note_row_nonces [OF free, of row SubmitRejected "Some h" "Some reason" "''raw send definitely rejected''" st]
      noted nonce(2) by simp
  then have "es_nonces (snd (snd (rollback_nonce D chain from (AttemptRollback (Some n)) st1))) chain from = Some n"
    by (rule rollback_last_nonce [OF free chain lag _ nonce(3)])
  then show ?thesis
    by (auto simp: settle_first_def answer nonce(1) and_then_def noted r fails_def err_def split: prod.splits sum.splits)
qed

text \<open>An untracked, ordinary submission can end as an underpriced replacement.\<close>

lemma ordinary_submission_underpriced:
  assumes "classify_raw_send_outcome msg = SendReplacementRejected reason"
  shows "fst (snd (settle_first D chain from tx None (h, msg) st)) = Inl (SubmitErr (ReplacementUnderpriced reason))"
  using assms by (simp add: settle_first_def note_row_def and_then_def ok_def fails_def err_def)
end
