(* ===== verification/Evm_Monitor.thy ===== *)
theory Evm_Monitor
  imports Evm_Submit
begin

text \<open>
  The task that follows a broadcast transaction, \<^verbatim>\<open>poll_for_confirmation\<close>, \<^verbatim>\<open>monitor_transaction\<close> and
  the closures that \<^verbatim>\<open>AlloyDelivery::submit\<close> spawns in
  \<^verbatim>\<open>crates/solver-delivery/src/implementations/evm/alloy.rs\<close>.  A round of the polling loop is what
  the clock and the two probes of the chain say in that round; a probe may time out or fail.
\<close>

section \<open>Polling\<close>

datatype 'a probe = ProbeTimedOut | ProbeErr string | ProbeOk 'a

text \<open>What is read of a receipt, with its conversion to the solver's receipt type.\<close>

record chain_receipt =
  cr_status :: bool
  cr_block_number :: "nat option"
  cr_receipt :: transaction_receipt

record poll_round =
  pr_now :: nat
  pr_receipt :: "chain_receipt option probe"
  pr_block :: "nat probe"

datatype poll_outcome =
    PollConfirmed transaction_receipt
  | PollReverted string "nat option" revert_classification
  | PollIndeterminate string

text \<open>One round before the deadline: an outcome, or another round.\<close>

definition poll_step :: "nat \<Rightarrow> poll_round \<Rightarrow> poll_outcome option" where
  "poll_step min_confirmations rd =
     (case pr_receipt rd of
        ProbeOk (Some rc) \<Rightarrow>
          if \<not> cr_status rc
          then Some (PollReverted ''Transaction reverted'' (cr_block_number rc) UnknownRevert)
          else (case cr_block_number rc of
                  None \<Rightarrow> None
                | Some b \<Rightarrow>
                    (case pr_block rd of
                       ProbeOk current \<Rightarrow>
                         if current - b \<ge> min_confirmations then Some (PollConfirmed (cr_receipt rc)) else None
                     | _ \<Rightarrow> None))
      | _ \<Rightarrow> None)"

partial_function (option) poll_from ::
  "nat \<Rightarrow> nat \<Rightarrow> string \<Rightarrow> (nat \<Rightarrow> poll_round) \<Rightarrow> nat \<Rightarrow> poll_outcome option" where
  "poll_from min_confirmations deadline shown rounds i =
     (if deadline - pr_now (rounds i) = 0
      then Some (PollIndeterminate (''Tx '' @ shown @ '' did not reach '' @ to_dec min_confirmations @
        '' confirmations within timeout''))
      else (case poll_step min_confirmations (rounds i) of
              Some out \<Rightarrow> Some out
            | None \<Rightarrow> poll_from min_confirmations deadline shown rounds (Suc i)))"

definition poll_for_confirmation ::
  "nat \<Rightarrow> nat \<Rightarrow> string \<Rightarrow> nat \<Rightarrow> (nat \<Rightarrow> poll_round) \<Rightarrow> poll_outcome option" where
  "poll_for_confirmation min_confirmations confirmation_timeout shown started rounds =
     poll_from min_confirmations (started + confirmation_timeout) shown rounds 0"

section \<open>Monitoring\<close>

text \<open>
  The replay of a reverted call: what \<^verbatim>\<open>eth_call\<close> at the block of the receipt returns as revert data,
  with the sender only if its address has 20 bytes.
\<close>

type_synonym replay = "evm_transaction \<Rightarrow> bytes option \<Rightarrow> nat \<Rightarrow> bytes option"

definition get_revert_data_with_provider ::
  "replay \<Rightarrow> evm_transaction \<Rightarrow> bytes option \<Rightarrow> nat \<Rightarrow> (delivery_error, bytes option) result" where
  "get_revert_data_with_provider eth_call tx from block =
     Inr (eth_call tx (case from of None \<Rightarrow> None | Some a \<Rightarrow> if length a = 20 then Some a else None) block)"

definition monitor_transaction ::
  "(string \<Rightarrow> bytes) \<Rightarrow> (bytes \<Rightarrow> string) \<Rightarrow> replay \<Rightarrow> evm_transaction \<Rightarrow> bytes option \<Rightarrow> poll_outcome \<Rightarrow> poll_outcome" where
  "monitor_transaction sel hexe eth_call tx from inner =
     (case inner of
        PollReverted _ (Some block) _ \<Rightarrow>
          (let revert_bytes =
                 (case result_ok (get_revert_data_with_provider eth_call tx from block) of
                    Some (Some bs) \<Rightarrow> bs | _ \<Rightarrow> []);
               msg = (if revert_bytes = [] then ''Transaction reverted (no revert data)''
                      else ''revert 0x'' @ hexe (take (min (length revert_bytes) 4) revert_bytes))
           in PollReverted msg (Some block) (classify_revert sel hexe revert_bytes))
      | PollReverted e None _ \<Rightarrow> PollReverted e None UnknownRevert
      | other \<Rightarrow> other)"

text \<open>What the spawned task does with the outcome: the ledger first, then the callback.\<close>

definition note_outcome ::
  "('s, 'b) evm_delivery \<Rightarrow> transaction_tracking \<Rightarrow> string option \<Rightarrow> attempt_status \<Rightarrow> bytes
   \<Rightarrow> transaction_receipt option \<Rightarrow> string option \<Rightarrow> string \<Rightarrow> ('s, unit) submission" where
  "note_outcome D T attempt_id st h rcpt e context =
     (case attempt_id of
        None \<Rightarrow> ok ()
      | Some i \<Rightarrow> record_attempt_update_best_effort D T i st (Some h) rcpt e context)"

definition monitor_task ::
  "('s, 'b) evm_delivery \<Rightarrow> transaction_tracking \<Rightarrow> string option \<Rightarrow> bytes \<Rightarrow> poll_outcome \<Rightarrow> ('s, unit) submission" where
  "monitor_task D T attempt_id h outcome =
     (case outcome of
        PollConfirmed rcpt \<Rightarrow>
          and_then (note_outcome D T attempt_id Confirmed h (Some rcpt) None ''monitor_confirmed'') (\<lambda>_.
            publish (Notified (MonConfirmed (tk_id T) h (tk_tx_type T) rcpt)))
      | PollReverted e _ cls \<Rightarrow>
          and_then (note_outcome D T attempt_id Reverted h None (Some e) ''monitor_reverted'') (\<lambda>_.
            publish (Notified (MonFailed (tk_id T) h (tk_tx_type T) e cls)))
      | PollIndeterminate reason \<Rightarrow>
          and_then (note_outcome D T attempt_id Indeterminate h None (Some reason) ''monitor_indeterminate'') (\<lambda>_.
            publish (Notified (MonIndeterminate (tk_id T) h (tk_tx_type T) reason))))"

section \<open>What the loop decides\<close>

lemma poll_from_unfold:
  "poll_from m d s rounds i =
     (if d \<le> pr_now (rounds i)
      then Some (PollIndeterminate (''Tx '' @ s @ '' did not reach '' @ to_dec m @ '' confirmations within timeout''))
      else (case poll_step m (rounds i) of Some out \<Rightarrow> Some out | None \<Rightarrow> poll_from m d s rounds (Suc i)))"
  by (subst poll_from.simps) simp

text \<open>The rounds that keep the loop going, and the one that ends it.\<close>

definition open_round :: "nat \<Rightarrow> nat \<Rightarrow> poll_round \<Rightarrow> bool" where
  "open_round m d rd \<longleftrightarrow> pr_now rd < d \<and> poll_step m rd = None"

lemma poll_from_skip: "(\<And>j. i \<le> j \<Longrightarrow> j < k \<Longrightarrow> open_round m d (rounds j)) \<Longrightarrow> i \<le> k \<Longrightarrow>
   poll_from m d s rounds i = poll_from m d s rounds k"
proof (induction "k - i" arbitrary: i)
  case (Suc n)
  then have "open_round m d (rounds i)" by simp
  then have "poll_from m d s rounds i = poll_from m d s rounds (Suc i)"
    by (subst poll_from_unfold) (simp add: open_round_def)
  also have "\<dots> = poll_from m d s rounds k" using Suc by simp
  finally show ?case .
qed simp

lemma poll_from_ends:
  assumes "d \<le> pr_now (rounds k)"
  shows "\<exists>k' \<le> k. (\<forall>j < k'. open_round m d (rounds j)) \<and> \<not> open_round m d (rounds k') \<and>
    poll_from m d s rounds 0 =
      (if d \<le> pr_now (rounds k')
       then Some (PollIndeterminate (''Tx '' @ s @ '' did not reach '' @ to_dec m @ '' confirmations within timeout''))
       else poll_step m (rounds k'))"
proof -
  have "\<not> open_round m d (rounds k)" using assms by (simp add: open_round_def)
  then obtain k' where k': "k' \<le> k" "\<not> open_round m d (rounds k')" "\<And>j. j < k' \<Longrightarrow> open_round m d (rounds j)"
    using ex_least_nat_le [of "\<lambda>k. \<not> open_round m d (rounds k)" k] by blast
  have "poll_from m d s rounds 0 = poll_from m d s rounds k'" by (rule poll_from_skip) (use k'(3) in auto)
  also have "\<dots> = (if d \<le> pr_now (rounds k')
       then Some (PollIndeterminate (''Tx '' @ s @ '' did not reach '' @ to_dec m @ '' confirmations within timeout''))
       else poll_step m (rounds k'))"
  proof (cases "d \<le> pr_now (rounds k')")
    case False
    then obtain out where "poll_step m (rounds k') = Some out"
      using k'(2) unfolding open_round_def by (meson not_le option.exhaust)
    then show ?thesis using False poll_from_unfold [of m d s rounds k'] by (simp only: if_False option.case)
  qed (simp only: poll_from_unfold [of m d s rounds k'] if_True)
  finally show ?thesis using k' by blast
qed

text \<open>What a chain has to say for each outcome.\<close>

definition saw_revert :: "poll_round \<Rightarrow> bool" where
  "saw_revert rd \<longleftrightarrow> (\<exists>rc. pr_receipt rd = ProbeOk (Some rc) \<and> \<not> cr_status rc)"

definition saw_confirmed :: "nat \<Rightarrow> transaction_receipt \<Rightarrow> poll_round \<Rightarrow> bool" where
  "saw_confirmed m rcpt rd \<longleftrightarrow> (\<exists>rc b current. pr_receipt rd = ProbeOk (Some rc) \<and> cr_status rc \<and>
     cr_block_number rc = Some b \<and> pr_block rd = ProbeOk current \<and> m \<le> current - b \<and> cr_receipt rc = rcpt)"

lemma poll_step_outcome:
  "poll_step m rd = Some out \<longleftrightarrow>
     (saw_revert rd \<and> (\<exists>rc. pr_receipt rd = ProbeOk (Some rc) \<and>
        out = PollReverted ''Transaction reverted'' (cr_block_number rc) UnknownRevert)) \<or>
     (\<exists>rcpt. saw_confirmed m rcpt rd \<and> out = PollConfirmed rcpt)"
  by (auto simp: poll_step_def saw_revert_def saw_confirmed_def split: probe.splits option.splits if_splits)

lemma poll_step_none_quiet: "poll_step m rd = None \<Longrightarrow> \<not> saw_revert rd"
  by (auto simp: poll_step_def saw_revert_def split: probe.splits option.splits if_splits)

section \<open>What is reported\<close>

fun final_event :: "submit_effect \<Rightarrow> bool" where
  "final_event (Notified (MonAttemptLedgerConflict _ _ _ _ _ _ _)) = False"
| "final_event (Notified _) = True"
| "final_event _ = False"

lemma note_outcome_trace:
  "\<exists>tr st'. note_outcome D T i s h rc e c st = (tr, Inr (), st') \<and> filter final_event tr = []"
  by (auto simp: note_outcome_def record_attempt_update_best_effort_def write_update_def and_then_def on_store_def
      publish_def ok_def case_prod_beta split: option.split sum.split)

definition event_of :: "transaction_tracking \<Rightarrow> bytes \<Rightarrow> poll_outcome \<Rightarrow> monitoring_event" where
  "event_of T h outcome =
     (case outcome of
        PollConfirmed rcpt \<Rightarrow> MonConfirmed (tk_id T) h (tk_tx_type T) rcpt
      | PollReverted e _ cls \<Rightarrow> MonFailed (tk_id T) h (tk_tx_type T) e cls
      | PollIndeterminate reason \<Rightarrow> MonIndeterminate (tk_id T) h (tk_tx_type T) reason)"

lemma monitor_task_trace:
  "filter final_event (fst (monitor_task D T i h outcome st)) = [Notified (event_of T h outcome)]"
proof -
  have "filter final_event (fst (and_then (note_outcome D T i s h rc e c) (\<lambda>_. publish (Notified ev)) st)) =
      filter final_event [Notified ev]" for s rc e c ev
    using note_outcome_trace [of D T i s h rc e c st] by (auto simp: and_then_def publish_def)
  then show ?thesis by (simp add: monitor_task_def event_of_def split: poll_outcome.split)
qed

text \<open>
  C19: A monitored transaction is reported exactly once, and failure needs a reverted receipt.  If
  the clock reaches the deadline, the polling loop ends in a round before or at that point, and the
  task that spawned it reports exactly one final event: a confirmation only for a receipt with
  success status that is at least the required number of blocks deep, a failure exactly when the
  deciding round showed a receipt of a reverted transaction, and otherwise, however many probes
  failed or timed out, an indeterminate outcome, after which recovery looks at the transaction
  again.
\<close>

theorem failure_reported_only_for_reverts:
  assumes "started + timeout \<le> pr_now (rounds k)"
  shows "\<exists>inner k'. poll_for_confirmation m timeout shown started rounds = Some inner \<and> k' \<le> k \<and>
    (let reported = [e \<leftarrow> fst (monitor_task D T i h (monitor_transaction sel hexe eth_call tx sender inner) st).
                       final_event e]
     in (\<exists>rcpt. reported = [Notified (MonConfirmed (tk_id T) h (tk_tx_type T) rcpt)] \<and> saw_confirmed m rcpt (rounds k')) \<or>
        (\<exists>e cls. reported = [Notified (MonFailed (tk_id T) h (tk_tx_type T) e cls)] \<and> saw_revert (rounds k')) \<or>
        (\<exists>reason. reported = [Notified (MonIndeterminate (tk_id T) h (tk_tx_type T) reason)] \<and>
           started + timeout \<le> pr_now (rounds k') \<and> (\<forall>j < k'. \<not> saw_revert (rounds j))))"
proof -
  obtain k' where k': "k' \<le> k" "\<forall>j < k'. open_round m (started + timeout) (rounds j)"
      "\<not> open_round m (started + timeout) (rounds k')"
    and poll: "poll_for_confirmation m timeout shown started rounds =
      (if started + timeout \<le> pr_now (rounds k')
       then Some (PollIndeterminate (''Tx '' @ shown @ '' did not reach '' @ to_dec m @ '' confirmations within timeout''))
       else poll_step m (rounds k'))"
    using poll_from_ends [of "started + timeout" rounds k m shown] assms unfolding poll_for_confirmation_def by blast
  have calm: "\<forall>j < k'. \<not> saw_revert (rounds j)"
    using k'(2) poll_step_none_quiet unfolding open_round_def by blast
  show ?thesis
  proof (cases "started + timeout \<le> pr_now (rounds k')")
    case True
    then show ?thesis
      using poll k'(1) calm unfolding monitor_task_trace Let_def
      by (auto simp: monitor_transaction_def event_of_def simp del: append.simps)
  next
    case False
    then obtain out where out: "poll_step m (rounds k') = Some out" using k'(3) unfolding open_round_def by (meson not_le option.exhaust)
    then have res: "poll_for_confirmation m timeout shown started rounds = Some out" using poll False by simp
    from out consider (revert) b where "saw_revert (rounds k')"
        "out = PollReverted ''Transaction reverted'' b UnknownRevert"
      | (confirmed) rcpt where "saw_confirmed m rcpt (rounds k')" "out = PollConfirmed rcpt"
      unfolding poll_step_outcome by blast
    then show ?thesis
    proof cases
      case revert
      then show ?thesis
        using res k'(1) unfolding monitor_task_trace Let_def
        by (cases b) (auto simp: monitor_transaction_def event_of_def Let_def)
    next
      case confirmed
      then show ?thesis
        using res k'(1) unfolding monitor_task_trace Let_def
        by (auto simp: monitor_transaction_def event_of_def)
    qed
  qed
qed

definition silent_rounds :: "nat \<Rightarrow> poll_round" where
  "silent_rounds i = \<lparr>pr_now = 5 * i, pr_receipt = ProbeErr ''down'', pr_block = ProbeTimedOut\<rparr>"

theorem failure_reported_only_for_reverts_witness:
  "\<exists>inner reason. poll_for_confirmation 2 10 ''0x01'' 0 silent_rounds = Some inner \<and>
     [e \<leftarrow> fst (monitor_task demo_delivery demo_tracking (Some ''row'') [1]
        (monitor_transaction (\<lambda>_. []) (\<lambda>_. []) (\<lambda>_ _ _. None) sample_tx None inner) demo_state). final_event e] =
     [Notified (MonIndeterminate ''order'' [1] Fill reason)]"
proof -
  have "0 + 10 \<le> pr_now (silent_rounds 2)" by (simp add: silent_rounds_def)
  from failure_reported_only_for_reverts [of 0 10 silent_rounds 2, OF this, where m = 2 and shown = "''0x01''" and
      D = demo_delivery and T = demo_tracking and i = "Some ''row''" and h = "[1]" and sel = "\<lambda>_. []" and
      hexe = "\<lambda>_. []" and eth_call = "\<lambda>_ _ _. None" and tx = sample_tx and sender = None and st = demo_state]
  show ?thesis
    unfolding Let_def
    by (auto simp: saw_confirmed_def saw_revert_def silent_rounds_def demo_tracking_def)
qed
end
