(* ===== verification/Admin_Store.thy ===== *)
theory Admin_Store
  imports Solver_Machine
begin

text \<open>
  \<^verbatim>\<open>crates/solver-storage/src/nonce_store.rs\<close>, \<^verbatim>\<open>crates/solver-storage/src/config_store.rs\<close> and
  \<^verbatim>\<open>crates/solver-types/src/versioned.rs\<close>: the single-use nonces of the admin API and the versioned
  operator configuration, both on the storage trait.  Each holds a backend of its own; a backend that
  is one cell of a larger shared state is \<open>over_cell\<close>, so that everything that is shared is
  what other tasks may change at an await.

  \<open>atomic_storage\<close> extends the contract of a backend by the atomic deletion and the plain swap these two
  stores rest on.  A nonce that was consumed stays spent while nobody writes its key, and versions
  of the configuration only grow while every writer goes through the store.
\<close>

section \<open>A backend as a cell of a shared state\<close>

definition over_cell :: "('t \<Rightarrow> 's) \<Rightarrow> ('s \<Rightarrow> 't \<Rightarrow> 't) \<Rightarrow> ('s, 'b) backend \<Rightarrow> ('t, 'b) backend" where
  "over_cell rd wr B = \<lparr>
     get_bytes = (\<lambda>t s k. get_bytes B t (rd s) k),
     set_bytes = (\<lambda>t s k v ix ttl. apsnd (\<lambda>c. wr c s) (set_bytes B t (rd s) k v ix ttl)),
     delete_key = (\<lambda>t s k. apsnd (\<lambda>c. wr c s) (delete_key B t (rd s) k)),
     exists_key = (\<lambda>t s k. exists_key B t (rd s) k),
     query_keys = (\<lambda>t s ns f. query_keys B t (rd s) ns f),
     get_batch = (\<lambda>t s ks. get_batch B t (rd s) ks),
     cleanup_expired = (\<lambda>t s. apsnd (\<lambda>c. wr c s) (cleanup_expired B t (rd s))),
     set_nx = (\<lambda>t s k v ttl. apsnd (\<lambda>c. wr c s) (set_nx B t (rd s) k v ttl)),
     compare_and_swap = (\<lambda>t s k e v ttl. apsnd (\<lambda>c. wr c s) (compare_and_swap B t (rd s) k e v ttl)),
     compare_and_swap_with_indexes =
       (\<lambda>t s k e v ix ttl. apsnd (\<lambda>c. wr c s) (compare_and_swap_with_indexes B t (rd s) k e v ix ttl)),
     delete_if_exists = (\<lambda>t s k. apsnd (\<lambda>c. wr c s) (delete_if_exists B t (rd s) k))\<rparr>"

section \<open>Nonces\<close>

datatype nonce_error = NonceStorage string | NonceNotFound | NonceConfiguration string

fun from_nonce_storage :: "storage_error \<Rightarrow> nonce_error" where
  "from_nonce_storage (NotFound m) = NonceNotFound"
| "from_nonce_storage (Configuration m) = NonceConfiguration m"
| "from_nonce_storage e = NonceStorage (storage_error_text e)"

record nonce_store =
  ns_solver_id :: string
  ns_namespace :: string
  ns_ttl :: nat

definition new_with_namespace :: "string \<Rightarrow> string \<Rightarrow> nat \<Rightarrow> (nonce_error, nonce_store) result" where
  "new_with_namespace solver_id namespace ttl_seconds =
     (if solver_id = [] then Inl (NonceConfiguration ''Solver ID cannot be empty'')
      else if namespace = [] then Inl (NonceConfiguration ''Namespace cannot be empty'')
      else Inr \<lparr>ns_solver_id = solver_id, ns_namespace = solver_id @ '':'' @ namespace @ '':nonce'',
                ns_ttl = ttl_seconds\<rparr>)"

definition DEFAULT_NAMESPACE :: string where "DEFAULT_NAMESPACE = ''admin''"

definition new_nonce_store :: "string \<Rightarrow> nat \<Rightarrow> (nonce_error, nonce_store) result" where
  "new_nonce_store solver_id ttl_seconds = new_with_namespace solver_id DEFAULT_NAMESPACE ttl_seconds"

definition nonce_key :: "nonce_store \<Rightarrow> nat \<Rightarrow> string" where
  "nonce_key N nonce = ns_namespace N @ '':'' @ to_dec nonce"

text \<open>\<open>as_u128() as u64\<close> of a random UUID; \<open>stamp\<close> is the creation time as bytes, never read back.\<close>

definition generate ::
  "('s, 'b) backend \<Rightarrow> 's sched \<Rightarrow> nonce_store \<Rightarrow> nat \<Rightarrow> 'b \<Rightarrow> 's world \<Rightarrow> (nonce_error, nat) result \<times> 's world" where
  "generate B sc N uuid stamp w =
     (let nonce = uuid mod u64_bound;
          (r, w1) = call_write sc (\<lambda>t s. set_bytes B t s (nonce_key N nonce) stamp None (Some (ns_ttl N))) w
      in (case r of Inl e \<Rightarrow> (Inl (from_nonce_storage e), w1) | Inr _ \<Rightarrow> (Inr nonce, w1)))"

definition nonce_exists ::
  "('s, 'b) backend \<Rightarrow> 's sched \<Rightarrow> nonce_store \<Rightarrow> nat \<Rightarrow> 's world \<Rightarrow> (nonce_error, bool) result \<times> 's world" where
  "nonce_exists B sc N nonce w =
     (let (r, w1) = call_read sc (\<lambda>t s. exists_key B t s (nonce_key N nonce)) w
      in (case r of Inl e \<Rightarrow> (Inl (from_nonce_storage e), w1) | Inr b \<Rightarrow> (Inr b, w1)))"

definition consume ::
  "('s, 'b) backend \<Rightarrow> 's sched \<Rightarrow> nonce_store \<Rightarrow> nat \<Rightarrow> 's world \<Rightarrow> (nonce_error, unit) result \<times> 's world" where
  "consume B sc N nonce w =
     (let (r, w1) = call_write sc (\<lambda>t s. delete_if_exists B t s (nonce_key N nonce)) w
      in (case r of
            Inl e \<Rightarrow> (Inl (from_nonce_storage e), w1)
          | Inr existed \<Rightarrow> if \<not> existed then (Inl NonceNotFound, w1) else (Inr (), w1)))"

section \<open>The versioned configuration\<close>

record 'c versioned =
  vd_data :: 'c
  vd_version :: nat
  vd_updated_at :: nat

definition new_versioned :: "'c \<Rightarrow> nat \<Rightarrow> 'c versioned" where
  "new_versioned config now = \<lparr>vd_data = config, vd_version = 1, vd_updated_at = now\<rparr>"

definition increment :: "'c versioned \<Rightarrow> 'c \<Rightarrow> nat \<Rightarrow> 'c versioned" where
  "increment v config now =
     \<lparr>vd_data = config, vd_version = wrapping_add u64_bound (vd_version v) 1, vd_updated_at = now\<rparr>"

text \<open>\<open>ConfigClockPanic\<close> stands for the \<open>expect\<close> of a system clock set before the epoch.\<close>

datatype config_store_error =
    ConfigNotFound string
  | ConfigAlreadyExists string
  | VersionMismatch nat nat
  | ConfigSerialization string
  | ConfigBackend string
  | ConfigInvalid string
  | ConfigClockPanic

record config_store =
  cs_solver_id :: string
  cs_key :: string

definition CONFIG_KEY_PREFIX :: string where "CONFIG_KEY_PREFIX = ''config''"

definition new_config_store :: "string \<Rightarrow> (config_store_error, config_store) result" where
  "new_config_store solver_id =
     (if solver_id = [] then Inl (ConfigInvalid ''Solver ID cannot be empty'')
      else Inr \<lparr>cs_solver_id = solver_id, cs_key = CONFIG_KEY_PREFIX @ '':'' @ solver_id\<rparr>)"

definition config_serialize :: "('c versioned, 'b) codec \<Rightarrow> 'c versioned \<Rightarrow> (config_store_error, 'b) result" where
  "config_serialize c v =
     (case encode c v of Inl e \<Rightarrow> Inl (ConfigSerialization (''Failed to serialize: '' @ e)) | Inr b \<Rightarrow> Inr b)"

definition config_deserialize :: "('c versioned, 'b) codec \<Rightarrow> 'b \<Rightarrow> (config_store_error, 'c versioned) result" where
  "config_deserialize c b =
     (case decode c b of Inl e \<Rightarrow> Inl (ConfigSerialization (''Failed to deserialize: '' @ e)) | Inr v \<Rightarrow> Inr v)"

text \<open>An absent key is a missing configuration, every other storage error a backend error.\<close>

definition missing_or_backend :: "config_store \<Rightarrow> storage_error \<Rightarrow> config_store_error" where
  "missing_or_backend S e =
     (case e of NotFound _ \<Rightarrow> ConfigNotFound (cs_solver_id S) | _ \<Rightarrow> ConfigBackend (storage_error_text e))"

definition config_get ::
  "('s, 'b) backend \<Rightarrow> ('c versioned, 'b) codec \<Rightarrow> 's sched \<Rightarrow> config_store \<Rightarrow> 's world
   \<Rightarrow> (config_store_error, 'c versioned) result \<times> 's world" where
  "config_get B c sc S w =
     (let (r, w1) = call_read sc (\<lambda>t s. get_bytes B t s (cs_key S)) w
      in (case r of
            Inl e \<Rightarrow> (Inl (missing_or_backend S e), w1)
          | Inr b \<Rightarrow> (config_deserialize c b, w1)))"

definition seed ::
  "('s, 'b) backend \<Rightarrow> ('c versioned, 'b) codec \<Rightarrow> 's sched \<Rightarrow> config_store \<Rightarrow> 'c \<Rightarrow> 's world
   \<Rightarrow> (config_store_error, 'c versioned) result \<times> 's world" where
  "seed B c sc S config w =
     (case w_unix sc w of
        None \<Rightarrow> (Inl ConfigClockPanic, w)
      | Some now \<Rightarrow>
          (let v = new_versioned config now
           in (case config_serialize c v of
                 Inl e \<Rightarrow> (Inl e, w)
               | Inr b \<Rightarrow>
                   (let (r, w1) = call_write sc (\<lambda>t s. set_nx B t s (cs_key S) b None) w
                    in (case r of
                          Inl e \<Rightarrow> (Inl (ConfigBackend (storage_error_text e)), w1)
                        | Inr created \<Rightarrow>
                            if \<not> created then (Inl (ConfigAlreadyExists (cs_solver_id S)), w1) else (Inr v, w1))))))"

text \<open>The swap lost against another writer: read again to report the version that is there.\<close>

definition report_mismatch ::
  "('s, 'b) backend \<Rightarrow> ('c versioned, 'b) codec \<Rightarrow> 's sched \<Rightarrow> config_store \<Rightarrow> nat \<Rightarrow> 's world
   \<Rightarrow> (config_store_error, 'c versioned) result \<times> 's world" where
  "report_mismatch B c sc S expected w =
     (let (r, w1) = call_read sc (\<lambda>t s. get_bytes B t s (cs_key S)) w
      in (case r of
            Inl e \<Rightarrow> (Inl (ConfigBackend (storage_error_text e)), w1)
          | Inr b \<Rightarrow>
              (case config_deserialize c b of
                 Inl e \<Rightarrow> (Inl e, w1)
               | Inr actual \<Rightarrow> (Inl (VersionMismatch expected (vd_version actual)), w1))))"

definition swap_versioned ::
  "('s, 'b) backend \<Rightarrow> ('c versioned, 'b) codec \<Rightarrow> 's sched \<Rightarrow> config_store \<Rightarrow> nat \<Rightarrow> 'b \<Rightarrow> 'c versioned
   \<Rightarrow> 's world \<Rightarrow> (config_store_error, 'c versioned) result \<times> 's world" where
  "swap_versioned B c sc S expected current v w =
     (case config_serialize c v of
        Inl e \<Rightarrow> (Inl e, w)
      | Inr b \<Rightarrow>
          (let (r, w1) = call_write sc (\<lambda>t s. compare_and_swap B t s (cs_key S) current b None) w
           in (case r of
                 Inl e \<Rightarrow> (Inl (missing_or_backend S e), w1)
               | Inr swapped \<Rightarrow> if \<not> swapped then report_mismatch B c sc S expected w1 else (Inr v, w1))))"

definition config_update ::
  "('s, 'b) backend \<Rightarrow> ('c versioned, 'b) codec \<Rightarrow> 's sched \<Rightarrow> config_store \<Rightarrow> 'c \<Rightarrow> nat \<Rightarrow> 's world
   \<Rightarrow> (config_store_error, 'c versioned) result \<times> 's world" where
  "config_update B c sc S config expected w =
     (let (r, w1) = call_read sc (\<lambda>t s. get_bytes B t s (cs_key S)) w
      in (case r of
            Inl e \<Rightarrow> (Inl (missing_or_backend S e), w1)
          | Inr current \<Rightarrow>
              (case config_deserialize c current of
                 Inl e \<Rightarrow> (Inl e, w1)
               | Inr old \<Rightarrow>
                   if vd_version old \<noteq> expected then (Inl (VersionMismatch expected (vd_version old)), w1)
                   else (case w_unix sc w1 of
                           None \<Rightarrow> (Inl ConfigClockPanic, w1)
                         | Some now \<Rightarrow>
                             swap_versioned B c sc S expected current
                               ((new_versioned config now)\<lparr>vd_version := wrapping_add u64_bound expected 1\<rparr>) w1))))"

definition config_exists ::
  "('s, 'b) backend \<Rightarrow> 's sched \<Rightarrow> config_store \<Rightarrow> 's world \<Rightarrow> (config_store_error, bool) result \<times> 's world" where
  "config_exists B sc S w =
     (let (r, w1) = call_read sc (\<lambda>t s. exists_key B t s (cs_key S)) w
      in (case r of Inl e \<Rightarrow> (Inl (ConfigBackend (storage_error_text e)), w1) | Inr b \<Rightarrow> (Inr b, w1)))"

definition config_delete ::
  "('s, 'b) backend \<Rightarrow> 's sched \<Rightarrow> config_store \<Rightarrow> 's world \<Rightarrow> (config_store_error, unit) result \<times> 's world" where
  "config_delete B sc S w =
     (let (r, w1) = call_write sc (\<lambda>t s. delete_key B t s (cs_key S)) w
      in (case r of Inl e \<Rightarrow> (Inl (ConfigBackend (storage_error_text e)), w1) | Inr u \<Rightarrow> (Inr u, w1)))"

section \<open>The contract\<close>

text \<open>Update requests carried out one after the other; what the successful ones stored.\<close>

fun run_updates ::
  "('s, 'b) backend \<Rightarrow> ('c versioned, 'b) codec \<Rightarrow> 's sched \<Rightarrow> config_store \<Rightarrow> ('c \<times> nat) list \<Rightarrow> 's world
   \<Rightarrow> 'c versioned list" where
  "run_updates B c sc S [] w = []"
| "run_updates B c sc S ((config, expected) # reqs) w =
     (case config_update B c sc S config expected w of
        (Inl e, w1) \<Rightarrow> run_updates B c sc S reqs w1
      | (Inr v, w1) \<Rightarrow> v # run_updates B c sc S reqs w1)"

text \<open>The key holds nothing, now or later.\<close>

definition spent :: "(nat \<Rightarrow> 's \<Rightarrow> string \<Rightarrow> 'b option) \<Rightarrow> string \<Rightarrow> 's \<Rightarrow> bool" where
  "spent live k s \<longleftrightarrow> (\<forall>t. live t s k = None)"

text \<open>The configuration that is stored, without an expiry.\<close>

definition holds_config ::
  "(nat \<Rightarrow> 's \<Rightarrow> string \<Rightarrow> 'b option) \<Rightarrow> ('c versioned, 'b) codec \<Rightarrow> config_store \<Rightarrow> 's \<Rightarrow> 'c versioned \<Rightarrow> bool" where
  "holds_config live c S s v \<longleftrightarrow> (\<exists>b. (\<forall>t. live t s (cs_key S) = Some b) \<and> decode c b = Inr v)"

text \<open>What the two stores ask of the other tasks: a spent nonce is not issued again, and versions only grow.\<close>

definition never_reissued :: "(nat \<Rightarrow> 's \<Rightarrow> string \<Rightarrow> 'b option) \<Rightarrow> string \<Rightarrow> 's sched \<Rightarrow> bool" where
  "never_reissued live k sc \<longleftrightarrow> (\<forall>n s. spent live k s \<longrightarrow> spent live k (interfere sc n s))"

definition versions_grow ::
  "(nat \<Rightarrow> 's \<Rightarrow> string \<Rightarrow> 'b option) \<Rightarrow> ('c versioned, 'b) codec \<Rightarrow> config_store \<Rightarrow> 's \<Rightarrow> 's \<Rightarrow> bool" where
  "versions_grow live c S s s' \<longleftrightarrow>
     (\<forall>v. holds_config live c S s v \<longrightarrow> (\<exists>v'. holds_config live c S s' v' \<and> vd_version v \<le> vd_version v'))"

definition writers_use_store ::
  "(nat \<Rightarrow> 's \<Rightarrow> string \<Rightarrow> 'b option) \<Rightarrow> ('c versioned, 'b) codec \<Rightarrow> config_store \<Rightarrow> 's sched \<Rightarrow> bool" where
  "writers_use_store live c S sc \<longleftrightarrow> (\<forall>n s. versions_grow live c S s (interfere sc n s))"

lemma versions_grow_refl [simp]: "versions_grow live c S s s"
  by (auto simp: versions_grow_def)

lemma versions_grow_trans [trans]:
  "versions_grow live c S s s' \<Longrightarrow> versions_grow live c S s' s'' \<Longrightarrow> versions_grow live c S s s''"
  unfolding versions_grow_def by (meson le_trans)

lemma resume_grows: "writers_use_store live c S sc \<Longrightarrow> versions_grow live c S (w_store w) (w_store (resume sc w))"
  by (simp add: writers_use_store_def w_store_resume)

lemma holds_config_unique: "holds_config live c S s v \<Longrightarrow> holds_config live c S s v' \<Longrightarrow> v' = v"
  by (auto simp: holds_config_def)

lemma holds_config_cong: "(\<And>t. live t s' (cs_key S) = live t s (cs_key S)) \<Longrightarrow> holds_config live c S s' = holds_config live c S s"
  by (simp add: holds_config_def fun_eq_iff)

locale atomic_storage = storage_contract B live
  for B :: "('s, 'b) backend" and live :: "nat \<Rightarrow> 's \<Rightarrow> string \<Rightarrow> 'b option" +
  assumes exists_live: "exists_key B t s k = Inr b \<Longrightarrow> b = (live t s k \<noteq> None)"
    and take_present: "delete_if_exists B t s k = (Inr True, s') \<Longrightarrow> live t s k \<noteq> None"
    and take_removes: "delete_if_exists B t s k = (Inr True, s') \<Longrightarrow> live t' s' k = None"
    and take_adds_nothing: "delete_if_exists B t s k = (r, s') \<Longrightarrow> live t' s' k' = Some v \<Longrightarrow> live t' s k' = Some v"
    and take_others: "delete_if_exists B t s k = (r, s') \<Longrightarrow> k' \<noteq> k \<Longrightarrow> live t' s' k' = live t' s k'"
    and swap_match: "compare_and_swap B t s k e v ttl = (Inr True, s') \<Longrightarrow> live t s k = Some e"
    and swap_true: "compare_and_swap B t s k e v ttl = (Inr True, s') \<Longrightarrow>
      live t' s' k' = (if k' = k then until_ttl ttl t t' v else live t' s k')"
    and swap_other: "compare_and_swap B t s k e v ttl = (r, s') \<Longrightarrow> r \<noteq> Inr True \<Longrightarrow> live t' s' k' = live t' s k'"
begin

text \<open>Consuming a nonce: it was there, and it is gone for good.\<close>

lemma consume_spends:
  assumes "consume B sc N nonce w = (Inr u, w')"
  shows "live (w_now sc w') (w_store (resume sc w)) (nonce_key N nonce) \<noteq> None"
    and "spent live (nonce_key N nonce) (w_store w')"
  using assms take_present take_removes
  by (auto simp: consume_def call_write_def Let_def spent_def w_now_def split: prod.splits sum.splits if_splits)

lemma consume_keeps_spent:
  assumes "consume B sc N nonce w = (r, w')" and "never_reissued live k sc" and "spent live k (w_store w)"
  shows "spent live k (w_store w')"
proof -
  have s: "spent live k (w_store (resume sc w))" using assms(2,3) by (simp add: never_reissued_def w_store_resume)
  obtain r0 s' where d: "delete_if_exists B (w_now sc (resume sc w)) (w_store (resume sc w)) (nonce_key N nonce) = (r0, s')"
    by (cases "delete_if_exists B (w_now sc (resume sc w)) (w_store (resume sc w)) (nonce_key N nonce)")
  have "w_store w' = s'" using assms(1) d
    by (auto simp: consume_def call_write_def Let_def split: prod.splits sum.splits if_splits)
  moreover have "live t s' k = None" for t
    using take_adds_nothing [OF d, of t k] s unfolding spent_def by (metis not_None_eq)
  ultimately show ?thesis by (simp add: spent_def)
qed

lemma spent_not_consumed:
  assumes "never_reissued live (nonce_key N nonce) sc" and "spent live (nonce_key N nonce) (w_store w)"
  shows "consume B sc N nonce w \<noteq> (Inr u, w')"
proof
  assume a: "consume B sc N nonce w = (Inr u, w')"
  have "spent live (nonce_key N nonce) (w_store (resume sc w))"
    using assms by (simp add: never_reissued_def w_store_resume)
  then show False using consume_spends(1) [OF a] by (simp add: spent_def)
qed

lemma exists_keeps_spent:
  "nonce_exists B sc N nonce w = (r, w') \<Longrightarrow> never_reissued live k sc \<Longrightarrow> spent live k (w_store w) \<Longrightarrow>
   spent live k (w_store w')"
  by (auto simp: nonce_exists_def call_read_def Let_def never_reissued_def w_store_resume split: sum.splits)

text \<open>A successful update replaced, at one instant, the configuration of the expected version.\<close>

lemma swap_versioned_done:
  assumes "swap_versioned B c sc S expected current v w = (Inr v', w')" and "codec_ok c"
  shows "v' = v" and "live (w_now sc w') (w_store (resume sc w)) (cs_key S) = Some current"
    and "holds_config live c S (w_store w') v"
proof -
  from assms(1) obtain b s' where b: "encode c v = Inr b" and v: "v' = v"
    and swap: "compare_and_swap B (w_now sc (resume sc w)) (w_store (resume sc w)) (cs_key S) current b None = (Inr True, s')"
    and w': "w' = (resume sc w)\<lparr>w_store := s'\<rparr>"
    by (auto simp: swap_versioned_def config_serialize_def call_write_def report_mismatch_def call_read_def Let_def
        split: sum.splits prod.splits if_splits)
  show "v' = v" by (rule v)
  show "live (w_now sc w') (w_store (resume sc w)) (cs_key S) = Some current"
    using swap_match [OF swap] by (simp add: w' w_now_def)
  have "live t s' (cs_key S) = Some b" for t using swap_true [OF swap] by (simp add: until_ttl_def)
  with codec_okD [OF assms(2) b] show "holds_config live c S (w_store w') v" by (auto simp: holds_config_def w')
qed

text \<open>A failed update wrote nothing: what the other tasks keep of the stored configuration is kept.\<close>

lemma swap_versioned_failed:
  assumes "swap_versioned B c sc S expected current v w = (Inl e, w')"
    and rely: "\<And>n s. G (holds_config live c S s) \<Longrightarrow> G (holds_config live c S (interfere sc n s))"
    and G: "G (holds_config live c S (w_store w))"
  shows "G (holds_config live c S (w_store w'))"
proof (cases "encode c v")
  case (Inl m)
  then show ?thesis using assms(1) G by (auto simp: swap_versioned_def config_serialize_def)
next
  case (Inr b)
  obtain r s' where swap: "compare_and_swap B (w_now sc (resume sc w)) (w_store (resume sc w)) (cs_key S) current b None = (r, s')"
    by (cases "compare_and_swap B (w_now sc (resume sc w)) (w_store (resume sc w)) (cs_key S) current b None")
  define w1 where "w1 = (resume sc w)\<lparr>w_store := s'\<rparr>"
  have r: "r \<noteq> Inr True" using assms(1) Inr swap
    by (auto simp: swap_versioned_def config_serialize_def call_write_def Let_def)
  have "holds_config live c S s' = holds_config live c S (w_store (resume sc w))"
    by (rule holds_config_cong) (rule swap_other [OF swap r])
  then have 1: "G (holds_config live c S (w_store w1))" using rely [OF G] by (simp add: w1_def w_store_resume)
  have "w' = w1 \<or> w' = resume sc w1" using assms(1) Inr swap
    by (auto simp: swap_versioned_def config_serialize_def call_write_def report_mismatch_def call_read_def Let_def w1_def
        split: sum.splits if_splits)
  then show ?thesis using 1 rely [OF 1] by (auto simp: w_store_resume)
qed

lemma update_failed:
  assumes "config_update B c sc S config expected w = (Inl e, w')"
    and rely: "\<And>n s. G (holds_config live c S s) \<Longrightarrow> G (holds_config live c S (interfere sc n s))"
    and G: "G (holds_config live c S (w_store w))"
  shows "G (holds_config live c S (w_store w'))"
proof -
  have 1: "G (holds_config live c S (w_store (resume sc w)))" using rely [OF G] by (simp add: w_store_resume)
  consider "w' = resume sc w" | b now where "swap_versioned B c sc S expected b
      ((new_versioned config now)\<lparr>vd_version := wrapping_add u64_bound expected 1\<rparr>) (resume sc w) = (Inl e, w')"
    using assms(1)
    by (auto simp: config_update_def call_read_def config_deserialize_def Let_def split: sum.splits option.splits if_splits)
  then show ?thesis using 1 swap_versioned_failed [OF _ rely 1] by cases auto
qed

lemma update_done:
  assumes "config_update B c sc S config expected w = (Inr v, w')" and "codec_ok c"
  shows "vd_version v = wrapping_add u64_bound expected 1 \<and> vd_data v = config \<and>
    holds_config live c S (w_store w') v \<and>
    (\<exists>w1 b old. w_store w1 = w_store (resume sc w) \<and> decode c b = Inr old \<and> vd_version old = expected \<and>
      live (w_now sc w') (w_store (resume sc w1)) (cs_key S) = Some b)"
proof -
  from assms(1) obtain b old now where b: "decode c b = Inr old" and ver: "vd_version old = expected"
    and sw: "swap_versioned B c sc S expected b
      ((new_versioned config now)\<lparr>vd_version := wrapping_add u64_bound expected 1\<rparr>) (resume sc w) = (Inr v, w')"
    by (auto simp: config_update_def call_read_def config_deserialize_def Let_def split: sum.splits option.splits if_splits)
  show ?thesis using swap_versioned_done [OF sw assms(2)] b ver
    by (auto simp: new_versioned_def)
qed

text \<open>An update whose expected version is behind what is stored does not succeed.\<close>

lemma stale_update_fails:
  assumes "holds_config live c S (w_store w) v0" and "expected < vd_version v0"
    and "writers_use_store live c S sc" and "codec_ok c"
  shows "config_update B c sc S config expected w \<noteq> (Inr v, w')"
proof
  assume u: "config_update B c sc S config expected w = (Inr v, w')"
  from update_done [OF u assms(4)] obtain w1 b old where w1: "w_store w1 = w_store (resume sc w)"
    and old: "decode c b = Inr old" "vd_version old = expected"
    and b: "live (w_now sc w') (w_store (resume sc w1)) (cs_key S) = Some b" by blast
  have "versions_grow live c S (w_store w) (w_store (resume sc w1))"
    using versions_grow_trans [OF resume_grows [OF assms(3), of w]] resume_grows [OF assms(3), of w1] w1 by auto
  then obtain v1 where "holds_config live c S (w_store (resume sc w1)) v1" "vd_version v0 \<le> vd_version v1"
    using assms(1) unfolding versions_grow_def by blast
  then show False using b old assms(2) by (auto simp: holds_config_def)
qed

lemma update_replaces_expected:
  assumes "config_update B c sc S config expected w = (Inr v, w')" and "codec_ok c"
    and "writers_use_store live c S sc" and "Suc expected < u64_bound" and "holds_config live c S (w_store w) v0"
  shows "vd_version v0 \<le> expected" and "vd_version v = Suc expected" and "vd_data v = config"
    and "holds_config live c S (w_store w') v"
proof -
  show "vd_version v0 \<le> expected"
    using stale_update_fails [OF assms(5) _ assms(3,2)] assms(1) by (meson not_less)
qed (use update_done [OF assms(1,2)] assms(4) in \<open>auto simp: rust_arith\<close>)

lemma update_grows:
  assumes "config_update B c sc S config expected w = (r, w')" and "codec_ok c"
    and "writers_use_store live c S sc" and "Suc expected < u64_bound"
  shows "versions_grow live c S (w_store w) (w_store w')"
  unfolding versions_grow_def
proof (intro allI impI)
  fix v0 assume v0: "holds_config live c S (w_store w) v0"
  show "\<exists>v'. holds_config live c S (w_store w') v' \<and> vd_version v0 \<le> vd_version v'"
  proof (cases r)
    case (Inl e)
    show ?thesis
    proof (rule update_failed [OF assms(1) [unfolded Inl]])
      fix n s assume "\<exists>v'. holds_config live c S s v' \<and> vd_version v0 \<le> vd_version v'"
      then show "\<exists>v'. holds_config live c S (interfere sc n s) v' \<and> vd_version v0 \<le> vd_version v'"
        using assms(3) unfolding writers_use_store_def versions_grow_def by (meson le_trans)
    qed (use v0 in blast)
  next
    case (Inr v)
    from update_replaces_expected [OF assms(1) [unfolded Inr] assms(2-4) v0] show ?thesis by auto
  qed
qed

lemma get_grows:
  "config_get B c sc S w = (r, w') \<Longrightarrow> writers_use_store live c S sc \<Longrightarrow> versions_grow live c S (w_store w) (w_store w')"
  using resume_grows [of live c S sc w] by (auto simp: config_get_def call_read_def Let_def split: sum.splits)

lemma run_updates_increase:
  assumes "codec_ok c" and "writers_use_store live c S sc" and "\<forall>(config, n) \<in> set reqs. Suc n < u64_bound"
    and "holds_config live c S (w_store w) v0"
  shows "sorted_wrt (<) (vd_version v0 # map vd_version (run_updates B c sc S reqs w))"
  using assms(3,4)
proof (induction reqs arbitrary: w v0)
  case (Cons req reqs)
  obtain config n where req: "req = (config, n)" by (cases req)
  have n: "Suc n < u64_bound" and later: "\<forall>(config, n) \<in> set reqs. Suc n < u64_bound"
    using Cons.prems(1) by (simp_all add: req)
  obtain r w1 where u: "config_update B c sc S config n w = (r, w1)"
    by (cases "config_update B c sc S config n w")
  show ?case
  proof (cases r)
    case (Inl e)
    from update_grows [OF u assms(1,2) n] Cons.prems(2) obtain v1
      where "holds_config live c S (w_store w1) v1" and le: "vd_version v0 \<le> vd_version v1"
      unfolding versions_grow_def by blast
    from Cons.IH [OF later this(1)] le show ?thesis by (auto simp: req u Inl intro: le_less_trans)
  next
    case (Inr v)
    note done' = update_replaces_expected [OF u [unfolded Inr] assms(1,2) n Cons.prems(2)]
    from Cons.IH [OF later done'(4)] done'(1,2) show ?thesis by (auto simp: req u Inr)
  qed
qed simp

lemma run_updates_store_requests:
  assumes "codec_ok c" and "v \<in> set (run_updates B c sc S reqs w)"
  shows "\<exists>n. (vd_data v, n) \<in> set reqs \<and> vd_version v = wrapping_add u64_bound n 1"
  using assms(2)
proof (induction reqs arbitrary: w)
  case (Cons req reqs)
  obtain config n where req: "req = (config, n)" by (cases req)
  obtain r w1 where u: "config_update B c sc S config n w = (r, w1)"
    by (cases "config_update B c sc S config n w")
  show ?case
  proof (cases r)
    case (Inr v1)
    then show ?thesis using Cons update_done [OF u [unfolded Inr] assms(1)] by (auto simp: req u)
  qed (use Cons u in \<open>auto simp: req\<close>)
qed simp

end

text \<open>The memory backend satisfies the contract.\<close>

interpretation mem_atomic: atomic_storage memory_backend memory_live
proof (unfold_locales, goal_cases)
  case (7 t s k e v ttl s' t' k')
  then show ?case by (auto simp: memory_compare_and_swap_def memory_live_put split: option.splits if_splits)
qed (auto simp: memory_op_defs memory_live_def delete_conv' split: option.splits if_splits)

text \<open>A contract holds of a cell when it holds of the backend.\<close>

lemma apsnd_eq_conv: "apsnd f p = (r, s) \<longleftrightarrow> (\<exists>c. p = (r, c) \<and> s = f c)"
  by (cases p) auto

lemma over_cell_contract:
  assumes "atomic_storage B live" and cell: "\<And>c s. rd (wr c s) = c"
  shows "atomic_storage (over_cell rd wr B) (\<lambda>t s. live t (rd s))"
proof -
  note A = assms(1)
  note C = atomic_storage.axioms(1) [OF A]
  show ?thesis
  proof (unfold_locales, goal_cases)
    case 1 then show ?case by (simp add: over_cell_def storage_contract.get_ok [OF C])
  next
    case 2 then show ?case by (simp add: over_cell_def storage_contract.get_absent [OF C])
  next
    case 3 then show ?case by (simp add: over_cell_def storage_contract.get_lapsed [OF C])
  next
    case 4 then show ?case by (auto simp: over_cell_def apsnd_eq_conv cell storage_contract.set_ok [OF C])
  next
    case 5 then show ?case by (auto simp: over_cell_def apsnd_eq_conv storage_contract.nx_true_absent [OF C])
  next
    case 6 then show ?case by (auto simp: over_cell_def apsnd_eq_conv cell storage_contract.nx_true [OF C])
  next
    case 7 then show ?case by (auto simp: over_cell_def apsnd_eq_conv cell storage_contract.nx_other [OF C])
  next
    case 8 then show ?case by (auto simp: over_cell_def apsnd_eq_conv storage_contract.cas_true_match [OF C])
  next
    case 9 then show ?case by (auto simp: over_cell_def apsnd_eq_conv cell storage_contract.cas_true [OF C])
  next
    case 10 then show ?case by (auto simp: over_cell_def apsnd_eq_conv cell storage_contract.cas_other [OF C])
  next
    case 11 then show ?case using atomic_storage.exists_live [OF A] by (simp add: over_cell_def)
  next
    case (12 t s k s')
    then obtain c where "delete_if_exists B t (rd s) k = (Inr True, c)" by (auto simp: over_cell_def apsnd_eq_conv)
    then show ?case by (rule atomic_storage.take_present [OF A])
  next
    case 13 then show ?case by (auto simp: over_cell_def apsnd_eq_conv cell atomic_storage.take_removes [OF A])
  next
    case 14 then show ?case by (auto simp: over_cell_def apsnd_eq_conv cell dest: atomic_storage.take_adds_nothing [OF A])
  next
    case 15 then show ?case by (auto simp: over_cell_def apsnd_eq_conv cell atomic_storage.take_others [OF A])
  next
    case 16 then show ?case by (auto simp: over_cell_def apsnd_eq_conv atomic_storage.swap_match [OF A])
  next
    case 17 then show ?case by (auto simp: over_cell_def apsnd_eq_conv cell atomic_storage.swap_true [OF A])
  next
    case 18 then show ?case by (auto simp: over_cell_def apsnd_eq_conv cell atomic_storage.swap_other [OF A])
  qed
qed

section \<open>Updates of the configuration are not lost\<close>

text \<open>A codec that stores the configuration as it is, for concrete inputs.\<close>

definition config_codec :: "('a, 'a) codec" where
  "config_codec = \<lparr>encode = Inr, decode = Inr\<rparr>"

lemma config_codec_ok: "codec_ok config_codec"
  by (simp add: codec_ok_def config_codec_def)


definition demo_config_store :: config_store where
  "demo_config_store = \<lparr>cs_solver_id = ''s'', cs_key = ''config:s''\<rparr>"

definition demo_config_world :: "nat versioned memory_storage world" where
  "demo_config_world =
     \<lparr>w_store = put_entry 0 \<lparr>ms_store = [], ms_indexes = []\<rparr> ''config:s'' (new_versioned 7 0) None None, w_tick = 0\<rparr>"

lemma demo_config_held: "holds_config memory_live config_codec demo_config_store (w_store demo_config_world) (new_versioned 7 0)"
  by (simp add: holds_config_def demo_config_world_def memory_live_put until_ttl_def demo_config_store_def config_codec_def)

lemma quiet_writers: "writers_use_store live c S (quiet cl)"
  by (simp add: writers_use_store_def)


text \<open>
  The condition on the other users is needed: deleting the configuration and seeding it again brings back version 1,
  after which an edit of the old version 1, made from the configuration that is gone, is accepted.
\<close>

lemma reseeding_lowers_version:
  assumes "w0 = \<lparr>w_store = put_entry 0 memory_new ''config:s'' \<lparr>vd_data = 8, vd_version = 2, vd_updated_at = 0\<rparr> None None, w_tick = 0\<rparr>"
    and "config_delete memory_backend (quiet (\<lambda>_. 5)) demo_config_store w0 = (r1, w1)"
    and "seed memory_backend config_codec (quiet (\<lambda>_. 5)) demo_config_store (7 :: nat) w1 = (r2, w2)"
  shows "holds_config memory_live config_codec demo_config_store (w_store w2) (new_versioned 7 5)"
    and "\<not> versions_grow memory_live config_codec demo_config_store (w_store w0) (w_store w2)"
    and "map vd_data (run_updates memory_backend config_codec (quiet (\<lambda>_. 5)) demo_config_store [(9, 1)] w2) = [9]"
proof -
  note eval = call_write_def memory_op_defs demo_config_store_def config_codec_def config_serialize_def resume_quiet(1) w_unix_def Let_def
  have w1: "ms_store (w_store w1) = []" "r1 = Inr ()"
    using assms(1,2) by (auto simp: config_delete_def eval memory_new_def)
  then have "w_store w2 = put_entry 5 (w_store w1) ''config:s'' (new_versioned 7 5) None None"
    using assms(3) by (auto simp: seed_def eval)
  then show held: "holds_config memory_live config_codec demo_config_store (w_store w2) (new_versioned 7 5)"
    by (simp add: holds_config_def memory_live_put until_ttl_def demo_config_store_def config_codec_def)
  have "holds_config memory_live config_codec demo_config_store (w_store w0) \<lparr>vd_data = 8, vd_version = 2, vd_updated_at = 0\<rparr>"
    by (simp add: assms(1) holds_config_def memory_live_put until_ttl_def demo_config_store_def config_codec_def)
  with held show "\<not> versions_grow memory_live config_codec demo_config_store (w_store w0) (w_store w2)"
    unfolding versions_grow_def using holds_config_unique [OF held] by (fastforce simp: new_versioned_def)
  show "map vd_data (run_updates memory_backend config_codec (quiet (\<lambda>_. 5)) demo_config_store [(9, 1)] w2) = [9]"
    using w1 assms(3)
    by (auto simp: seed_def config_update_def swap_versioned_def report_mismatch_def config_deserialize_def call_read_def
        is_expired_def new_versioned_def rust_arith eval)
qed

end
