(* ===== verification/Admin_Auth.thy ===== *)
theory Admin_Auth
  imports Admin_Store Evm_Fees
begin

text \<open>
  \<^verbatim>\<open>crates/solver-service/src/auth/admin\<close> (\<^verbatim>\<open>types.rs\<close>, \<^verbatim>\<open>signature.rs\<close>, \<^verbatim>\<open>verify.rs\<close>, \<^verbatim>\<open>error.rs\<close>) and the
  admin roles of \<^verbatim>\<open>crates/solver-types/src/auth.rs\<close> and \<^verbatim>\<open>operator_config.rs\<close>: who is an administrator, what an
  administrator signs, and the verification of a signed action.

  Keccak, the EIP-712 struct hash of \<^verbatim>\<open>alloy_sol_types\<close>, signature parsing and recovery, and the parser of
  256-bit numbers are not part of the repository; they are the record \<open>crypto\<close>.  Addresses are byte
  strings of length 20.
\<close>

section \<open>Roles\<close>

datatype admin_role = Admin | ReadOnly

fun admin_role_text :: "admin_role \<Rightarrow> string" where
  "admin_role_text Admin = ''admin''"
| "admin_role_text ReadOnly = ''read-only''"

definition admin_role_from_str :: "string \<Rightarrow> (string, admin_role) result" where
  "admin_role_from_str s =
     (if s = ''admin'' then Inr Admin else if s = ''read-only'' then Inr ReadOnly
      else Inl (''Unknown admin role: '' @ s))"

record whitelist_entry =
  we_address :: bytes
  we_role :: admin_role

text \<open>The first entry of the address is changed unless that would demote it; otherwise one is added.\<close>

fun upsert_admin_role :: "whitelist_entry list \<Rightarrow> bytes \<Rightarrow> admin_role \<Rightarrow> whitelist_entry list" where
  "upsert_admin_role [] addr role = [\<lparr>we_address = addr, we_role = role\<rparr>]"
| "upsert_admin_role (e # es) addr role =
     (if we_address e = addr
      then (if role = Admin \<or> we_role e \<noteq> Admin then e\<lparr>we_role := role\<rparr> else e) # es
      else e # upsert_admin_role es addr role)"

definition normalize_admin_whitelist :: "bytes list \<Rightarrow> whitelist_entry list \<Rightarrow> whitelist_entry list" where
  "normalize_admin_whitelist admin_addresses whitelist =
     foldl (\<lambda>es a. upsert_admin_role es a Admin)
       (foldl (\<lambda>es e. upsert_admin_role es (we_address e) (we_role e)) [] whitelist) admin_addresses"

record admin_config =
  ac_enabled :: bool
  ac_domain :: string
  ac_chain_id :: "nat option"
  ac_nonce_ttl_seconds :: nat
  ac_whitelist :: "whitelist_entry list"

definition role_for :: "admin_config \<Rightarrow> bytes \<Rightarrow> admin_role option" where
  "role_for A addr =
     (if list_ex (\<lambda>e. we_address e = addr \<and> we_role e = Admin) (ac_whitelist A) then Some Admin
      else if list_ex (\<lambda>e. we_address e = addr \<and> we_role e = ReadOnly) (ac_whitelist A) then Some ReadOnly
      else None)"

definition is_admin :: "admin_config \<Rightarrow> bytes \<Rightarrow> bool" where
  "is_admin A addr \<longleftrightarrow> ac_enabled A \<and> role_for A addr = Some Admin"

definition admin_count :: "admin_config \<Rightarrow> nat" where
  "admin_count A = length (filter (\<lambda>e. we_role e = Admin) (ac_whitelist A))"

record withdrawals_config =
  wc_enabled :: bool
  wc_recipient_allowlist :: "bytes list"

definition recipient_allowed :: "withdrawals_config \<Rightarrow> bytes \<Rightarrow> bool" where
  "recipient_allowed W recipient \<longleftrightarrow> (wc_recipient_allowlist W = [] \<or> recipient \<in> set (wc_recipient_allowlist W))"

record operator_admin_config =
  oa_enabled :: bool
  oa_domain :: string
  oa_chain_id :: nat
  oa_nonce_ttl_seconds :: nat
  oa_whitelist :: "whitelist_entry list"
  oa_withdrawals :: withdrawals_config

definition operator_role_for :: "operator_admin_config \<Rightarrow> bytes \<Rightarrow> admin_role option" where
  "operator_role_for A addr = map_option we_role (find (\<lambda>e. we_address e = addr) (oa_whitelist A))"

definition is_authorized :: "operator_admin_config \<Rightarrow> bytes \<Rightarrow> bool" where
  "is_authorized A addr \<longleftrightarrow> oa_enabled A \<and> operator_role_for A addr = Some Admin"

definition admin_addresses :: "operator_admin_config \<Rightarrow> bytes list" where
  "admin_addresses A = map we_address (filter (\<lambda>e. we_role e = Admin) (oa_whitelist A))"

text \<open>\<open>set_role\<close> and \<open>remove_admin\<close> work on the first entry of the address; their answers are not used.\<close>

fun assign_role :: "whitelist_entry list \<Rightarrow> bytes \<Rightarrow> admin_role \<Rightarrow> whitelist_entry list" where
  "assign_role [] addr role = [\<lparr>we_address = addr, we_role = role\<rparr>]"
| "assign_role (e # es) addr role =
     (if we_address e = addr then e\<lparr>we_role := role\<rparr> # es else e # assign_role es addr role)"

definition set_role :: "operator_admin_config \<Rightarrow> bytes \<Rightarrow> admin_role \<Rightarrow> operator_admin_config" where
  "set_role A addr role = A\<lparr>oa_whitelist := assign_role (oa_whitelist A) addr role\<rparr>"

fun drop_entry :: "whitelist_entry list \<Rightarrow> bytes \<Rightarrow> whitelist_entry list" where
  "drop_entry [] addr = []"
| "drop_entry (e # es) addr = (if we_address e = addr then es else e # drop_entry es addr)"

definition remove_admin :: "operator_admin_config \<Rightarrow> bytes \<Rightarrow> operator_admin_config" where
  "remove_admin A addr = A\<lparr>oa_whitelist := drop_entry (oa_whitelist A) addr\<rparr>"

section \<open>Errors\<close>

datatype admin_auth_error =
    InvalidSignature string
  | SignatureVerification string
  | NotAuthorized string
  | InvalidNonce string
  | AuthNonceNotFound
  | AuthExpired
  | DomainMismatch string string
  | InvalidMessage string
  | Internal string

text \<open>HTTP status, error code and description of the response; details of internal errors stay in the log.\<close>

fun admin_error_response :: "admin_auth_error \<Rightarrow> nat \<times> string \<times> string" where
  "admin_error_response (InvalidSignature m) = (400, ''invalid_signature'', ''Invalid signature: '' @ m)"
| "admin_error_response (SignatureVerification m) = (401, ''signature_failed'', ''Signature verification failed: '' @ m)"
| "admin_error_response (NotAuthorized m) = (403, ''not_authorized'', ''Address '' @ m @ '' is not authorized as admin'')"
| "admin_error_response (InvalidNonce m) = (400, ''invalid_nonce'', ''Invalid nonce: '' @ m)"
| "admin_error_response AuthNonceNotFound = (400, ''nonce_not_found'', ''Nonce not found or already used'')"
| "admin_error_response AuthExpired = (401, ''expired'', ''Request expired'')"
| "admin_error_response (DomainMismatch e a) = (401, ''domain_mismatch'', ''Domain mismatch: expected '' @ e @ '', got '' @ a)"
| "admin_error_response (InvalidMessage m) = (400, ''invalid_message'', ''Invalid message format: '' @ m)"
| "admin_error_response (Internal m) = (500, ''server_error'', ''An internal error occurred'')"

fun from_nonce_error :: "nonce_error \<Rightarrow> admin_auth_error" where
  "from_nonce_error NonceNotFound = AuthNonceNotFound"
| "from_nonce_error (NonceStorage m) = Internal (''Storage error: '' @ m)"
| "from_nonce_error (NonceConfiguration m) = Internal (''Configuration error: '' @ m)"

datatype action_hash_error = InvalidAmount string

fun from_hash_error :: "action_hash_error \<Rightarrow> admin_auth_error" where
  "from_hash_error (InvalidAmount a) = InvalidMessage (''Invalid amount: '' @ a)"

section \<open>What is signed\<close>

text \<open>The gas units of one flow; the fifteen fields of a gas update are three such groups.\<close>

record gas_flow =
  gf_open :: nat
  gf_fill :: nat
  gf_post_fill :: nat
  gf_pre_claim :: nat
  gf_claim :: nat

record token_addition =
  ta_chain_id :: nat
  ta_symbol :: string
  ta_name :: "string option"
  ta_token_address :: bytes
  ta_decimals :: nat

record withdraw_contents =
  wd_chain_id :: nat
  wd_token :: bytes
  wd_amount :: string
  wd_recipient :: bytes

record fee_contents =
  fc_gas_buffer_bps :: nat
  fc_settlement_fee_buffer_bps :: nat
  fc_min_profitability_pct :: string
  fc_commission_bps :: nat
  fc_rate_buffer_bps :: nat

record gas_contents =
  gc_resource_lock :: gas_flow
  gc_permit2_escrow :: gas_flow
  gc_eip3009_escrow :: gas_flow
  gc_live_post_fill_estimate_chain_ids :: "nat list"
  gc_live_fill_estimate_enabled :: bool

record approve_contents =
  ap_chain_id :: nat
  ap_token_address :: bytes
  ap_spender :: bytes
  ap_amount :: string

record threshold_contents =
  tc_pair_id :: string
  tc_target_balance_a :: string
  tc_target_balance_b :: string
  tc_deviation_band_bps :: nat
  tc_max_bridge_amount :: string

datatype admin_contents =
    AddToken token_addition
  | AddTokens "token_addition list"
  | RemoveToken nat bytes
  | SetAdminRole bytes admin_role
  | RemoveAdmin bytes
  | Withdraw withdraw_contents
  | UpdateFeeConfig fee_contents
  | UpdateGasConfig gas_contents
  | ApproveTokens approve_contents
  | TriggerRebalance string nat nat string
  | ResolveTransfer string string string
  | UpdateRebalanceConfig bool nat nat
  | UpdateRebalanceThreshold threshold_contents

text \<open>Every action carries a nonce and a deadline.\<close>

record admin_action =
  aa_contents :: admin_contents
  aa_nonce :: nat
  aa_deadline :: nat

text \<open>The EIP-712 structs, without the nonce and the deadline each of them ends with.\<close>

datatype sol_contents =
    SolAddToken nat string bytes nat
  | SolAddTokens "(nat \<times> string \<times> bytes \<times> nat) list"
  | SolRemoveToken nat bytes
  | SolSetAdminRole bytes string
  | SolRemoveAdmin bytes
  | SolWithdraw nat bytes nat bytes
  | SolUpdateFeeConfig nat nat string nat nat
  | SolUpdateGasConfig gas_flow gas_flow gas_flow "nat list" bool
  | SolApproveTokens nat bytes bytes nat
  | SolTriggerRebalance string nat nat nat
  | SolResolveTransfer string string string
  | SolUpdateRebalanceConfig bool nat nat
  | SolUpdateRebalanceThreshold string nat nat nat nat

record sol_struct =
  sol_contents :: sol_contents
  sol_nonce :: nat
  sol_deadline :: nat

record 'g crypto =
  cr_keccak :: "bytes \<Rightarrow> bytes"
  cr_hash_struct :: "sol_struct \<Rightarrow> bytes"
  cr_signature :: "bytes \<Rightarrow> (string, 'g) result"
  cr_recover :: "'g \<Rightarrow> bytes \<Rightarrow> (string, bytes) result"
  cr_u256 :: "string \<Rightarrow> (string, nat) result"
  cr_show_address :: "bytes \<Rightarrow> string"

definition parse_amount :: "'g crypto \<Rightarrow> (string \<Rightarrow> string \<Rightarrow> string) \<Rightarrow> string \<Rightarrow> (action_hash_error, nat) result" where
  "parse_amount C f s = (case cr_u256 C s of Inl e \<Rightarrow> Inl (InvalidAmount (f s e)) | Inr n \<Rightarrow> Inr n)"

definition sol_addition :: "token_addition \<Rightarrow> nat \<times> string \<times> bytes \<times> nat" where
  "sol_addition a = (ta_chain_id a, ta_symbol a, ta_token_address a, ta_decimals a)"

definition withdraw_to_eip712 :: "'g crypto \<Rightarrow> withdraw_contents \<Rightarrow> (action_hash_error, sol_contents) result" where
  "withdraw_to_eip712 C d =
     (if wd_amount d = [] then Inl (InvalidAmount ''amount cannot be empty'')
      else map_sum id (\<lambda>n. SolWithdraw (wd_chain_id d) (wd_token d) n (wd_recipient d)) (parse_amount C (\<lambda>s e. s) (wd_amount d)))"

definition approve_to_eip712 :: "'g crypto \<Rightarrow> approve_contents \<Rightarrow> (action_hash_error, sol_contents) result" where
  "approve_to_eip712 C d =
     (if ap_amount d = [] then Inl (InvalidAmount ''amount cannot be empty'')
      else map_sum id (\<lambda>n. SolApproveTokens (ap_chain_id d) (ap_token_address d) (ap_spender d) n)
             (parse_amount C (\<lambda>s e. e) (ap_amount d)))"

definition gas_to_eip712 :: "gas_contents \<Rightarrow> sol_contents" where
  "gas_to_eip712 d =
     SolUpdateGasConfig (gc_resource_lock d) (gc_permit2_escrow d) (gc_eip3009_escrow d)
       (sort (gc_live_post_fill_estimate_chain_ids d)) (gc_live_fill_estimate_enabled d)"

definition threshold_to_eip712 :: "'g crypto \<Rightarrow> threshold_contents \<Rightarrow> (action_hash_error, sol_contents) result" where
  "threshold_to_eip712 C d =
     (case parse_amount C (\<lambda>s e. s) (tc_target_balance_a d) of
        Inl e \<Rightarrow> Inl e
      | Inr a \<Rightarrow>
          (case parse_amount C (\<lambda>s e. s) (tc_target_balance_b d) of
             Inl e \<Rightarrow> Inl e
           | Inr b \<Rightarrow>
               map_sum id (\<lambda>m. SolUpdateRebalanceThreshold (tc_pair_id d) a b (tc_deviation_band_bps d) m)
                 (parse_amount C (\<lambda>s e. s) (tc_max_bridge_amount d))))"

fun to_eip712 :: "'g crypto \<Rightarrow> admin_contents \<Rightarrow> (action_hash_error, sol_contents) result" where
  "to_eip712 C (AddToken a) = Inr (SolAddToken (ta_chain_id a) (ta_symbol a) (ta_token_address a) (ta_decimals a))"
| "to_eip712 C (AddTokens as) = Inr (SolAddTokens (map sol_addition as))"
| "to_eip712 C (RemoveToken chain token) = Inr (SolRemoveToken chain token)"
| "to_eip712 C (SetAdminRole account role) = Inr (SolSetAdminRole account (admin_role_text role))"
| "to_eip712 C (RemoveAdmin a) = Inr (SolRemoveAdmin a)"
| "to_eip712 C (Withdraw d) = withdraw_to_eip712 C d"
| "to_eip712 C (UpdateFeeConfig d) =
     Inr (SolUpdateFeeConfig (fc_gas_buffer_bps d) (fc_settlement_fee_buffer_bps d) (fc_min_profitability_pct d)
            (fc_commission_bps d) (fc_rate_buffer_bps d))"
| "to_eip712 C (UpdateGasConfig d) = Inr (gas_to_eip712 d)"
| "to_eip712 C (ApproveTokens d) = approve_to_eip712 C d"
| "to_eip712 C (TriggerRebalance pair source dest amount) =
     map_sum id (SolTriggerRebalance pair source dest) (parse_amount C (\<lambda>s e. s) amount)"
| "to_eip712 C (ResolveTransfer i resolution reason) = Inr (SolResolveTransfer i resolution reason)"
| "to_eip712 C (UpdateRebalanceConfig en cooldown pending) = Inr (SolUpdateRebalanceConfig en cooldown pending)"
| "to_eip712 C (UpdateRebalanceThreshold d) = threshold_to_eip712 C d"

definition struct_hash :: "'g crypto \<Rightarrow> admin_action \<Rightarrow> (action_hash_error, bytes) result" where
  "struct_hash C a =
     map_sum id (\<lambda>c. cr_hash_struct C \<lparr>sol_contents = c, sol_nonce = aa_nonce a, sol_deadline = aa_deadline a\<rparr>)
       (to_eip712 C (aa_contents a))"

definition ascii :: "string \<Rightarrow> bytes" where
  "ascii s = map (\<lambda>ch. of_nat (of_char ch)) s"

definition ADMIN_DOMAIN_NAME :: string where "ADMIN_DOMAIN_NAME = ''OIF Solver Admin''"

definition ADMIN_DOMAIN_VERSION :: string where "ADMIN_DOMAIN_VERSION = ''1''"

definition DOMAIN_TYPE :: string where
  "DOMAIN_TYPE = ''EIP712Domain(string name,string version,uint256 chainId,bytes32 salt)''"

definition admin_domain_salt :: "'g crypto \<Rightarrow> string \<Rightarrow> bytes" where
  "admin_domain_salt C solver_id = cr_keccak C (ascii solver_id)"

definition domain_encoding :: "'g crypto \<Rightarrow> nat \<Rightarrow> bytes \<Rightarrow> bytes" where
  "domain_encoding C chain salt =
     cr_keccak C (ascii DOMAIN_TYPE) @ cr_keccak C (ascii ADMIN_DOMAIN_NAME) @ cr_keccak C (ascii ADMIN_DOMAIN_VERSION) @
     to_be_bytes 32 chain @ salt"

definition admin_domain_separator :: "'g crypto \<Rightarrow> nat \<Rightarrow> bytes \<Rightarrow> bytes" where
  "admin_domain_separator C chain salt = cr_keccak C (domain_encoding C chain salt)"

definition message_encoding :: "'g crypto \<Rightarrow> nat \<Rightarrow> bytes \<Rightarrow> bytes \<Rightarrow> bytes" where
  "message_encoding C chain salt sh = [0x19, 0x01] @ admin_domain_separator C chain salt @ sh"

definition message_hash :: "'g crypto \<Rightarrow> nat \<Rightarrow> bytes \<Rightarrow> admin_action \<Rightarrow> (action_hash_error, bytes) result" where
  "message_hash C chain salt a = map_sum id (\<lambda>sh. cr_keccak C (message_encoding C chain salt sh)) (struct_hash C a)"

section \<open>Recovering the signer\<close>

definition recover_from_hash :: "'g crypto \<Rightarrow> bytes \<Rightarrow> bytes \<Rightarrow> (admin_auth_error, bytes) result" where
  "recover_from_hash C hash sig =
     (if length sig \<noteq> 65
      then Inl (InvalidSignature (''Signature must be 65 bytes, got '' @ to_dec (length sig)))
      else (case cr_signature C sig of
              Inl e \<Rightarrow> Inl (InvalidSignature (''Invalid signature: '' @ e))
            | Inr g \<Rightarrow>
                (case cr_recover C g hash of
                   Inl e \<Rightarrow> Inl (SignatureVerification (''Recovery failed: '' @ e))
                 | Inr addr \<Rightarrow> Inr addr)))"

definition recover_personal_sign :: "'g crypto \<Rightarrow> bytes \<Rightarrow> bytes \<Rightarrow> (admin_auth_error, bytes) result" where
  "recover_personal_sign C message sig =
     recover_from_hash C
       (cr_keccak C ([0x19] @ ascii (''Ethereum Signed Message:'' @ [CHR 0x0A] @ to_dec (length message)) @ message)) sig"

definition verify_admin_signature :: "'g crypto \<Rightarrow> bytes \<Rightarrow> bytes \<Rightarrow> admin_config \<Rightarrow> (admin_auth_error, bytes) result" where
  "verify_admin_signature C message sig A =
     (case recover_personal_sign C message sig of
        Inl e \<Rightarrow> Inl e
      | Inr addr \<Rightarrow> if \<not> is_admin A addr then Inl (NotAuthorized (cr_show_address C addr)) else Inr addr)"

section \<open>Verification of an action\<close>

record verifier =
  av_nonce_store :: nonce_store
  av_admin_config :: admin_config
  av_chain_id :: nat
  av_domain_salt :: bytes

definition new_verifier :: "'g crypto \<Rightarrow> nonce_store \<Rightarrow> admin_config \<Rightarrow> nat \<Rightarrow> string \<Rightarrow> verifier" where
  "new_verifier C N A chain solver_id =
     \<lparr>av_nonce_store = N, av_admin_config = A, av_chain_id = chain, av_domain_salt = admin_domain_salt C solver_id\<rparr>"

text \<open>The signer of the digest, if it is an administrator.\<close>

definition admin_signer :: "'g crypto \<Rightarrow> verifier \<Rightarrow> admin_action \<Rightarrow> bytes \<Rightarrow> (admin_auth_error, bytes) result" where
  "admin_signer C V a sig =
     (case message_hash C (av_chain_id V) (av_domain_salt V) a of
        Inl e \<Rightarrow> Inl (from_hash_error e)
      | Inr hash \<Rightarrow>
          (case recover_from_hash C hash sig of
             Inl e \<Rightarrow> Inl e
           | Inr signer \<Rightarrow>
               if \<not> is_admin (av_admin_config V) signer then Inl (NotAuthorized (cr_show_address C signer)) else Inr signer))"

text \<open>
  \<open>verify\<close> has two awaits: everything up to the check of the signer follows the look-up of the nonce, and
  the nonce is consumed last.  \<open>now\<close> is the system time as \<^verbatim>\<open>u64\<close>.
\<close>

definition verify_check ::
  "'g crypto \<Rightarrow> ('s, 'b) backend \<Rightarrow> 's sched \<Rightarrow> verifier \<Rightarrow> nat \<Rightarrow> admin_action \<Rightarrow> bytes \<Rightarrow> 's world
   \<Rightarrow> (admin_auth_error, bytes) result \<times> 's world" where
  "verify_check C B sc V now a sig w =
     (if aa_deadline a < now then (Inl AuthExpired, w)
      else (let (r, w1) = nonce_exists B sc (av_nonce_store V) (aa_nonce a) w
            in (case r of
                  Inl e \<Rightarrow> (Inl (from_nonce_error e), w1)
                | Inr present \<Rightarrow> if \<not> present then (Inl AuthNonceNotFound, w1) else (admin_signer C V a sig, w1))))"

definition verify_consume ::
  "('s, 'b) backend \<Rightarrow> 's sched \<Rightarrow> verifier \<Rightarrow> admin_action \<Rightarrow> bytes \<Rightarrow> 's world
   \<Rightarrow> (admin_auth_error, bytes) result \<times> 's world" where
  "verify_consume B sc V a signer w =
     (case consume B sc (av_nonce_store V) (aa_nonce a) w of
        (Inl e, w1) \<Rightarrow> (Inl (from_nonce_error e), w1)
      | (Inr u, w1) \<Rightarrow> (Inr signer, w1))"

definition verify ::
  "'g crypto \<Rightarrow> ('s, 'b) backend \<Rightarrow> 's sched \<Rightarrow> verifier \<Rightarrow> nat \<Rightarrow> admin_action \<Rightarrow> bytes \<Rightarrow> 's world
   \<Rightarrow> (admin_auth_error, bytes) result \<times> 's world" where
  "verify C B sc V now a sig w =
     (case verify_check C B sc V now a sig w of
        (Inl e, w1) \<Rightarrow> (Inl e, w1)
      | (Inr signer, w1) \<Rightarrow> verify_consume B sc V a signer w1)"

definition generate_nonce ::
  "('s, 'b) backend \<Rightarrow> 's sched \<Rightarrow> verifier \<Rightarrow> nat \<Rightarrow> 'b \<Rightarrow> 's world \<Rightarrow> (admin_auth_error, nat) result \<times> 's world" where
  "generate_nonce B sc V uuid stamp w =
     (case generate B sc (av_nonce_store V) uuid stamp w of (r, w1) \<Rightarrow> (map_sum from_nonce_error id r, w1))"

section \<open>Concurrent verifications\<close>

text \<open>
  Requests that are verified at the same time: each is at one of its two awaits, and a schedule names the
  request that runs next.  A request is its action, its signature and the time it is looked at.
\<close>

datatype phase = Waiting | Checked bytes | Finished "(admin_auth_error, bytes) result"

type_synonym admin_request = "admin_action \<times> bytes \<times> nat"

fun verify_step ::
  "'g crypto \<Rightarrow> ('s, 'b) backend \<Rightarrow> 's sched \<Rightarrow> verifier \<Rightarrow> admin_request \<Rightarrow> phase \<Rightarrow> 's world \<Rightarrow> phase \<times> 's world" where
  "verify_step C B sc V (a, sig, now) Waiting w =
     (case verify_check C B sc V now a sig w of
        (Inl e, w1) \<Rightarrow> (Finished (Inl e), w1)
      | (Inr signer, w1) \<Rightarrow> (Checked signer, w1))"
| "verify_step C B sc V (a, sig, now) (Checked signer) w = apfst Finished (verify_consume B sc V a signer w)"
| "verify_step C B sc V req (Finished r) w = (Finished r, w)"

fun interleave ::
  "'g crypto \<Rightarrow> ('s, 'b) backend \<Rightarrow> 's sched \<Rightarrow> verifier \<Rightarrow> admin_request list \<Rightarrow> nat list \<Rightarrow> phase list \<Rightarrow> 's world
   \<Rightarrow> phase list \<times> 's world" where
  "interleave C B sc V reqs [] ps w = (ps, w)"
| "interleave C B sc V reqs (i # sch) ps w =
     (if i < length ps
      then (case verify_step C B sc V (reqs ! i) (ps ! i) w of (p, w1) \<Rightarrow> interleave C B sc V reqs sch (ps[i := p]) w1)
      else interleave C B sc V reqs sch ps w)"

text \<open>A request that nobody interrupts is verified by \<open>verify\<close>.\<close>

lemma interleave_alone:
  "interleave C B sc V [(a, sig, now)] [0, 0] [Waiting] w = (case verify C B sc V now a sig w of (r, w1) \<Rightarrow> ([Finished r], w1))"
  by (auto simp: verify_def split: prod.splits sum.splits)

fun authorised :: "phase \<Rightarrow> bool" where
  "authorised (Finished (Inr _)) = True"
| "authorised _ = False"

text \<open>What is known of a request in a phase.\<close>

fun phase_ok :: "'g crypto \<Rightarrow> verifier \<Rightarrow> admin_request \<Rightarrow> phase \<Rightarrow> bool" where
  "phase_ok C V (a, sig, now) (Checked signer) = (now \<le> aa_deadline a \<and> admin_signer C V a sig = Inr signer)"
| "phase_ok C V (a, sig, now) (Finished (Inr signer)) = (now \<le> aa_deadline a \<and> admin_signer C V a sig = Inr signer)"
| "phase_ok C V req p = True"

lemma verify_step_phase_ok: "phase_ok C V req p \<Longrightarrow> phase_ok C V req (fst (verify_step C B sc V req p w))"
  by (cases p; cases req)
    (auto simp: verify_check_def verify_consume_def Let_def split: prod.splits sum.splits if_splits)

lemma interleave_length [simp]: "length (fst (interleave C B sc V reqs sch ps w)) = length ps"
  by (induction sch arbitrary: ps w) (auto split: prod.splits)

lemma interleave_phase_ok:
  assumes "\<And>i. i < length ps \<Longrightarrow> phase_ok C V (reqs ! i) (ps ! i)" and "j < length ps"
  shows "phase_ok C V (reqs ! j) (fst (interleave C B sc V reqs sch ps w) ! j)"
  using assms
proof (induction sch arbitrary: ps w)
  case (Cons i sch)
  show ?case
  proof (cases "i < length ps")
    case True
    obtain p w1 where p: "verify_step C B sc V (reqs ! i) (ps ! i) w = (p, w1)"
      by (cases "verify_step C B sc V (reqs ! i) (ps ! i) w")
    have "phase_ok C V (reqs ! i) p"
      using verify_step_phase_ok [OF Cons.prems(1) [OF True], of B sc w] by (simp add: p)
    then have "phase_ok C V (reqs ! k) (ps[i := p] ! k)" if "k < length (ps[i := p])" for k
      using Cons.prems(1) [of k] that by (cases "k = i") auto
    from Cons.IH [OF this, of w1] show ?thesis using True p Cons.prems(2) by simp
  qed (use Cons in simp)
qed simp

definition count_authorised :: "phase list \<Rightarrow> nat" where
  "count_authorised ps = length (filter authorised ps)"

lemma count_authorised_update:
  assumes "i < length ps"
  shows "count_authorised (ps[i := p]) = (count_authorised ps - of_bool (authorised (ps ! i))) + of_bool (authorised p)"
proof -
  obtain xs y ys where ps: "ps = xs @ y # ys" and i: "length xs = i"
    using id_take_nth_drop [OF assms] assms by (metis length_take less_imp_le_nat min.absorb2)
  show ?thesis by (simp add: count_authorised_def ps flip: i)
qed

context atomic_storage
begin

lemma verify_step_spends:
  assumes step: "verify_step C B sc V (a, sig, now) p w = (p', w1)" and fresh: "\<not> authorised p" "authorised p'"
  shows "spent live (nonce_key (av_nonce_store V) (aa_nonce a)) (w_store w1)"
proof (cases p)
  case (Checked signer)
  obtain r w2 where c: "consume B sc (av_nonce_store V) (aa_nonce a) w = (r, w2)"
    by (cases "consume B sc (av_nonce_store V) (aa_nonce a) w")
  show ?thesis
  proof (cases r)
    case (Inr u)
    then show ?thesis using step Checked c consume_spends(2) [OF c [unfolded Inr]] by (simp add: verify_consume_def)
  qed (use step fresh Checked c in \<open>auto simp: verify_consume_def\<close>)
qed (use step fresh in \<open>auto split: prod.splits sum.splits\<close>)

lemma verify_step_spent:
  assumes step: "verify_step C B sc V (a, sig, now) p w = (p', w1)"
    and rely: "never_reissued live k sc" and spent: "spent live k (w_store w)"
    and key: "k = nonce_key (av_nonce_store V) (aa_nonce a)"
  shows "spent live k (w_store w1)" and "authorised p' \<Longrightarrow> authorised p"
proof -
  show "spent live k (w_store w1)"
  proof (cases p)
    case Waiting
    then show ?thesis using step spent exists_keeps_spent [OF _ rely spent]
      by (auto simp: verify_check_def Let_def split: prod.splits sum.splits if_splits)
  next
    case (Checked signer)
    then show ?thesis using step consume_keeps_spent [OF _ rely spent]
      by (auto simp: verify_consume_def split: prod.splits sum.splits)
  qed (use step spent in simp)
  show "authorised p" if "authorised p'"
  proof (cases p)
    case (Checked signer)
    have "consume B sc (av_nonce_store V) (aa_nonce a) w \<noteq> (Inr u, w2)" for u w2
      by (rule spent_not_consumed [OF rely [unfolded key] spent [unfolded key]])
    then show ?thesis using step Checked that by (auto simp: verify_consume_def split: prod.splits sum.splits)
  qed (use step that in \<open>auto split: prod.splits sum.splits\<close>)
qed

text \<open>Either nobody was authorised yet, or one was and the nonce is spent.\<close>

lemma interleave_authorises_once:
  assumes "\<And>req. req \<in> set reqs \<Longrightarrow> aa_nonce (fst req) = nonce"
    and "never_reissued live (nonce_key (av_nonce_store V) nonce) sc" and "length ps \<le> length reqs"
    and "count_authorised ps = 0 \<or>
      (count_authorised ps = 1 \<and> spent live (nonce_key (av_nonce_store V) nonce) (w_store w))"
  shows "count_authorised (fst (interleave C B sc V reqs sch ps w)) \<le> 1"
  using assms(3,4)
proof (induction sch arbitrary: ps w)
  case (Cons i sch)
  show ?case
  proof (cases "i < length ps")
    case True
    obtain a sig now where req: "reqs ! i = (a, sig, now)" by (cases "reqs ! i")
    have "reqs ! i \<in> set reqs" using True Cons.prems(1) by simp
    from assms(1) [OF this] have a: "aa_nonce a = nonce" by (simp add: req)
    obtain p w1 where p: "verify_step C B sc V (a, sig, now) (ps ! i) w = (p, w1)"
      by (cases "verify_step C B sc V (a, sig, now) (ps ! i) w")
    note spend = verify_step_spends [OF p, unfolded a]
    note stay = verify_step_spent [OF p assms(2)] and upd = count_authorised_update [OF True, of p]
    have old: "authorised (ps ! i) \<Longrightarrow> count_authorised ps \<noteq> 0"
      using True by (auto simp: count_authorised_def filter_empty_conv)
    have "count_authorised (ps[i := p]) = 0 \<or>
      (count_authorised (ps[i := p]) = 1 \<and> spent live (nonce_key (av_nonce_store V) nonce) (w_store w1))"
    proof (cases "count_authorised ps = 0")
      case True
      then have fresh: "\<not> authorised (ps ! i)" using old by blast
      show ?thesis using upd True fresh spend [OF fresh] by (cases "authorised p") simp_all
    next
      case False
      then have one: "count_authorised ps = 1"
        and sp: "spent live (nonce_key (av_nonce_store V) nonce) (w_store w)" using Cons.prems(2) by simp_all
      note after = stay [OF sp, simplified a, OF refl]
      show ?thesis using upd one after by (cases "authorised p"; cases "authorised (ps ! i)") simp_all
    qed
    then show ?thesis using True req p Cons.prems(1) Cons.IH [of "ps[i := p]" w1] by simp
  qed (use Cons in simp)
qed (auto)

end

text \<open>
  C23: On the memory backend a nonce authorises at most one admin action.  However many requests carry it, however their
  verifications interleave with each other and with other users of the nonce store, at most one of
  them succeeds, provided a consumed nonce is not issued a second time.  A request that
  succeeds was looked at before its deadline, and its signature is that of an administrator on the digest
  of exactly this action for this solver and chain.
\<close>

theorem admin_nonce_authorises_once:
  assumes "\<forall>req \<in> set reqs. aa_nonce (fst req) = nonce"
    and "never_reissued memory_live (nonce_key (av_nonce_store V) nonce) sc"
    and "interleave C memory_backend sc V reqs sch (replicate (length reqs) Waiting) w = (ps, w')"
  shows "length (filter authorised ps) \<le> 1 \<and>
    (\<forall>i a sig now signer. i < length reqs \<and> reqs ! i = (a, sig, now) \<and> ps ! i = Finished (Inr signer) \<longrightarrow>
      now \<le> aa_deadline a \<and> is_admin (av_admin_config V) signer \<and>
      (\<exists>hash. message_hash C (av_chain_id V) (av_domain_salt V) a = Inr hash \<and> recover_from_hash C hash sig = Inr signer))"
proof (intro conjI allI impI; (elim conjE)?)
  show "length (filter authorised ps) \<le> 1"
    using mem_atomic.interleave_authorises_once [of reqs nonce V sc "replicate (length reqs) Waiting" w C sch] assms
    by (simp add: count_authorised_def)
next
  fix i a sig now signer
  assume i: "i < length reqs" "reqs ! i = (a, sig, now)" "ps ! i = Finished (Inr signer)"
  have "phase_ok C V (reqs ! i) (ps ! i)"
    using interleave_phase_ok [of "replicate (length reqs) Waiting" C V reqs i memory_backend sc sch w] i(1) assms(3)
    by (cases "reqs ! i") auto
  then show "now \<le> aa_deadline a" "is_admin (av_admin_config V) signer"
    "\<exists>hash. message_hash C (av_chain_id V) (av_domain_salt V) a = Inr hash \<and> recover_from_hash C hash sig = Inr signer"
    using i(2,3) by (auto simp: admin_signer_def split: sum.splits if_splits)
qed

text \<open>A concrete verifier: every signature is that of the one administrator.\<close>

definition demo_hash :: "bytes \<Rightarrow> bytes" where
  "demo_hash x = replicate 31 (of_nat (length x)) @ [sum_list x]"

definition demo_crypto :: "unit crypto" where
  "demo_crypto = \<lparr>cr_keccak = demo_hash, cr_hash_struct = (\<lambda>_. replicate 32 0), cr_signature = (\<lambda>_. Inr ()),
     cr_recover = (\<lambda>_ _. Inr [1]), cr_u256 = (\<lambda>_. Inr 1), cr_show_address = (\<lambda>_. [])\<rparr>"

definition demo_verifier :: verifier where
  "demo_verifier = new_verifier demo_crypto \<lparr>ns_solver_id = ''s'', ns_namespace = ''s:admin:nonce'', ns_ttl = 300\<rparr>
     \<lparr>ac_enabled = True, ac_domain = [], ac_chain_id = None, ac_nonce_ttl_seconds = 300,
      ac_whitelist = [\<lparr>we_address = [1], we_role = Admin\<rparr>]\<rparr> 1 ''s''"

definition demo_admin_request :: admin_request where
  "demo_admin_request = (\<lparr>aa_contents = RemoveAdmin [2], aa_nonce = 7, aa_deadline = 100\<rparr>, replicate 65 0, 50)"

definition demo_nonce_world :: "string memory_storage world" where
  "demo_nonce_world =
     \<lparr>w_store = put_entry 0 \<lparr>ms_store = [], ms_indexes = []\<rparr> ''s:admin:nonce:7'' ''0'' None (Some 300), w_tick = 0\<rparr>"

definition demo_interleaving :: "phase list \<times> string memory_storage world" where
  "demo_interleaving = interleave demo_crypto memory_backend (quiet (\<lambda>_. 50)) demo_verifier [demo_admin_request, demo_admin_request]
     [0, 1, 1, 0] [Waiting, Waiting] demo_nonce_world"

lemma never_reissued_quiet: "never_reissued live k (quiet cl)"
  by (simp add: never_reissued_def)

lemma demo_signer: "admin_signer demo_crypto demo_verifier \<lparr>aa_contents = RemoveAdmin [2], aa_nonce = 7, aa_deadline = 100\<rparr>
    (replicate 65 0) = Inr [1]"
  by (simp add: admin_signer_def message_hash_def struct_hash_def recover_from_hash_def demo_crypto_def demo_verifier_def
      new_verifier_def is_admin_def role_for_def)

lemma demo_nonce_key: "nonce_key (av_nonce_store demo_verifier) 7 = ''s:admin:nonce:7''"
  by (simp add: nonce_key_def demo_verifier_def new_verifier_def) code_simp

theorem admin_nonce_authorises_once_witness:
  "fst demo_interleaving = [Finished (Inl AuthNonceNotFound), Finished (Inr [1])] \<and>
   length (filter authorised (fst demo_interleaving)) \<le> 1 \<and> is_admin (av_admin_config demo_verifier) [1]"
proof -
  have r: "fst demo_interleaving = [Finished (Inl AuthNonceNotFound), Finished (Inr [1])]"
    by (simp add: demo_interleaving_def demo_admin_request_def verify_check_def verify_consume_def nonce_exists_def consume_def
        call_read_def call_write_def memory_op_defs is_expired_def demo_nonce_world_def demo_nonce_key demo_signer
        Let_def resume_quiet(1) w_now_def update_conv' delete_conv')
  have run: "interleave demo_crypto memory_backend (quiet (\<lambda>_. 50)) demo_verifier [demo_admin_request, demo_admin_request] [0, 1, 1, 0]
      (replicate (length [demo_admin_request, demo_admin_request]) Waiting) demo_nonce_world = (fst demo_interleaving, snd demo_interleaving)"
    by (simp add: demo_interleaving_def numeral_2_eq_2)
  have n: "\<forall>req \<in> set [demo_admin_request, demo_admin_request]. aa_nonce (fst req) = 7" by (simp add: demo_admin_request_def)
  obtain a sig now where req: "demo_admin_request = (a, sig, now)" by (cases demo_admin_request)
  show ?thesis
    using r admin_nonce_authorises_once [OF n never_reissued_quiet run, THEN conjunct1]
      admin_nonce_authorises_once [OF n never_reissued_quiet run, THEN conjunct2, rule_format, of 1 a sig now "[1]"] req by simp
qed

section \<open>A signature is bound to its solver and chain\<close>

lemma to_be_bytes_inj:
  assumes "to_be_bytes k u = to_be_bytes k v" and "u < 256 ^ k" and "v < 256 ^ k"
  shows "u = v"
proof -
  have digit: "u div 256 ^ i mod 256 = v div 256 ^ i mod 256" if "i < k" for i
  proof -
    have "(of_nat (u div 256 ^ i) :: 8 word) = of_nat (v div 256 ^ i)"
      using assms(1) that by (simp add: to_be_bytes_def)
    from arg_cong [OF this, of unat] show ?thesis by (simp add: unat_of_nat)
  qed
  have "j \<le> k \<Longrightarrow> u mod 256 ^ j = v mod 256 ^ j" for j
  proof (induction j)
    case (Suc j)
    then show ?case using digit [of j] mod_mult2_eq [of u "256 ^ j" 256] mod_mult2_eq [of v "256 ^ j" 256]
      by (simp add: mult.commute)
  qed simp
  from this [of k] show ?thesis using assms(2,3) by simp
qed

lemma ascii_inj: "ascii s = ascii t \<longleftrightarrow> s = t"
proof
  have "inj (\<lambda>ch. of_nat (of_char ch) :: 8 word)"
  proof (rule injI)
    fix a b :: char assume "(of_nat (of_char a) :: 8 word) = of_nat (of_char b)"
    from arg_cong [OF this, of unat] have "(of_char a :: nat) = of_char b" by (simp add: unat_of_nat)
    then show "a = b" by simp
  qed
  then show "ascii s = ascii t \<Longrightarrow> s = t" unfolding ascii_def by (rule inj_map_eq_map [THEN iffD1])
qed simp

text \<open>The byte strings that are hashed for an action of a solver.\<close>

definition hashed_inputs :: "'g crypto \<Rightarrow> nat \<Rightarrow> string \<Rightarrow> bytes \<Rightarrow> bytes set" where
  "hashed_inputs C chain solver sh =
     {ascii solver, domain_encoding C chain (admin_domain_salt C solver),
      message_encoding C chain (admin_domain_salt C solver) sh}"

lemma domain_encoding_inj:
  assumes "domain_encoding C chain salt = domain_encoding C chain' salt'" and "chain < u64_bound" and "chain' < u64_bound"
  shows "chain = chain'" and "salt = salt'"
proof -
  have eq: "to_be_bytes 32 chain = to_be_bytes 32 chain' \<and> salt = salt'"
    using assms(1) by (simp add: domain_encoding_def)
  show "salt = salt'" using eq by simp
  have "u64_bound \<le> (256 ^ 32 :: nat)" by simp
  then show "chain = chain'" using to_be_bytes_inj [of 32 chain chain'] eq assms(2,3) by linarith
qed

text \<open>
  C28: A signature made for one solver does not work for another.  While the hash has no collision among
  the byte strings hashed for the two, the digests of any two admin actions differ as soon as the
  chain or the solver id differs, so the signer recovered from a replayed signature is not bound to
  the administrator who made it.
\<close>

theorem signature_bound_to_solver:
  assumes "\<forall>x. length (cr_keccak C x) = 32"
    and "struct_hash C a = Inr sh" and "struct_hash C a' = Inr sh'"
    and "inj_on (cr_keccak C) (hashed_inputs C chain solver sh \<union> hashed_inputs C chain' solver' sh')"
    and "chain < u64_bound" and "chain' < u64_bound" and "chain \<noteq> chain' \<or> solver \<noteq> solver'"
  shows "message_hash C chain (admin_domain_salt C solver) a \<noteq> message_hash C chain' (admin_domain_salt C solver') a'"
proof
  let ?k = "cr_keccak C" and ?salt = "admin_domain_salt C solver" and ?salt' = "admin_domain_salt C solver'"
  assume "message_hash C chain ?salt a = message_hash C chain' ?salt' a'"
  then have "?k (message_encoding C chain ?salt sh) = ?k (message_encoding C chain' ?salt' sh')"
    by (simp add: message_hash_def assms(2,3))
  then have "message_encoding C chain ?salt sh = message_encoding C chain' ?salt' sh'"
    by (rule inj_onD [OF assms(4)]) (simp_all add: hashed_inputs_def)
  then have "?k (domain_encoding C chain ?salt) = ?k (domain_encoding C chain' ?salt')"
    using assms(1) by (simp add: message_encoding_def admin_domain_separator_def)
  then have dom: "domain_encoding C chain ?salt = domain_encoding C chain' ?salt'"
    by (rule inj_onD [OF assms(4)]) (simp_all add: hashed_inputs_def)
  then have "chain = chain'" by (rule domain_encoding_inj(1) [OF _ assms(5,6)])
  moreover have "?k (ascii solver) = ?k (ascii solver')"
    using domain_encoding_inj(2) [OF dom assms(5,6)] by (simp add: admin_domain_salt_def)
  then have "ascii solver = ascii solver'"
    by (rule inj_onD [OF assms(4)]) (simp_all add: hashed_inputs_def)
  ultimately show False using assms(7) by (simp add: ascii_inj)
qed

definition demo_action :: admin_action where
  "demo_action = \<lparr>aa_contents = RemoveAdmin [2], aa_nonce = 7, aa_deadline = 100\<rparr>"

theorem signature_bound_to_solver_witness:
  "message_hash demo_crypto 1 (admin_domain_salt demo_crypto ''a'') demo_action \<noteq>
   message_hash demo_crypto 1 (admin_domain_salt demo_crypto ''b'') demo_action"
proof (rule signature_bound_to_solver)
  show "\<forall>x. length (cr_keccak demo_crypto x) = 32" by (simp add: demo_crypto_def demo_hash_def)
  show "struct_hash demo_crypto demo_action = Inr (replicate 32 0)" "struct_hash demo_crypto demo_action = Inr (replicate 32 0)"
    by (simp_all add: struct_hash_def demo_action_def demo_crypto_def)
  show "inj_on (cr_keccak demo_crypto)
     (hashed_inputs demo_crypto 1 ''a'' (replicate 32 0) \<union> hashed_inputs demo_crypto 1 ''b'' (replicate 32 0))"
    by (simp add: hashed_inputs_def inj_on_def demo_crypto_def demo_hash_def domain_encoding_def message_encoding_def
        admin_domain_separator_def admin_domain_salt_def ascii_def)
qed simp_all

end
