(* ===== verification/Token_Manager.thy ===== *)
theory Token_Manager
  imports Admin_Auth Interop_Address
begin

text \<open>
  \<^verbatim>\<open>crates/solver-core/src/engine/token_manager.rs\<close>: balances, ERC-20 approvals and withdrawals of the solver
  account, on the networks the manager holds behind a lock.

  What the tasks of the service share is the record \<open>shared\<close>: the two stores, the admin verifier, the runtime
  configuration and the networks, the last three behind read-write locks.  Every await, a lock
  included, lets the other tasks change all of it.  The account and the delivery service answer as the
  record \<open>chain_env\<close> says; their answers may differ from call to call.  A transaction that is handed
  to the delivery service is emitted.
\<close>

section \<open>Networks\<close>

datatype network_kind = EvmNetwork | StarknetNetwork

record token_config =
  tk_address :: bytes
  tk_symbol :: string
  tk_name :: "string option"
  tk_decimals :: nat

record network_config =
  nw_kind :: network_kind
  nw_input_settler_address :: bytes
  nw_output_settler_address :: bytes
  nw_tokens :: "token_config list"
  nw_rest :: json

type_synonym networks = "(nat \<times> network_config) list"

text \<open>The runtime configuration; only its networks and its fee settings are read here.\<close>

record runtime_fees =
  rf_min_profitability_pct :: string
  rf_gas_buffer_bps :: nat
  rf_settlement_fee_buffer_bps :: nat
  rf_commission_bps :: nat
  rf_rate_buffer_bps :: nat
  rf_monitoring_timeout_seconds :: nat

record runtime_config =
  rt_networks :: networks
  rt_fees :: runtime_fees
  rt_rest :: json

record 's shared =
  sh_nonces :: 's
  sh_configs :: 's
  sh_verifier :: verifier
  sh_config :: runtime_config
  sh_networks :: networks

section \<open>Effects and errors\<close>

datatype token_manager_error =
    TokenNotSupported string nat
  | NetworkNotConfigured nat
  | TokenDeliveryError delivery_error
  | TokenAccountError string
  | TokenParseError string
  | NativeApprovalUnsupported

fun token_manager_error_text :: "token_manager_error \<Rightarrow> string" where
  "token_manager_error_text (TokenNotSupported t c) = ''Token not supported: '' @ t @ '' on chain '' @ to_dec c"
| "token_manager_error_text (NetworkNotConfigured c) = ''Network not configured: '' @ to_dec c"
| "token_manager_error_text (TokenDeliveryError e) = ''Delivery error: '' @ delivery_error_text e"
| "token_manager_error_text (TokenAccountError e) = ''Account error: '' @ e"
| "token_manager_error_text (TokenParseError m) = ''Failed to parse value: '' @ m"
| "token_manager_error_text NativeApprovalUnsupported = ''Native token approvals are unsupported''"

text \<open>\<open>Sent\<close> has the tracking of the transaction, its scope and its type, if attempts are recorded.\<close>

datatype ('c) admin_effect =
    Sent evm_transaction "(string \<times> transaction_type) option"
  | ConfigStored "'c versioned"
  | ConfigReloaded runtime_config
  | NetworksReplaced networks
  | VerifierReplaced verifier

type_synonym ('s, 'c, 'x, 'a) admin_run = "('s shared world, 'c admin_effect, 'x, 'a) run"

record chain_env =
  ce_address :: "nat \<Rightarrow> (string, bytes) result"
  ce_balance :: "nat \<Rightarrow> nat \<Rightarrow> string \<Rightarrow> string option \<Rightarrow> (delivery_error, string) result"
  ce_allowance :: "nat \<Rightarrow> nat \<Rightarrow> string \<Rightarrow> string \<Rightarrow> string \<Rightarrow> (delivery_error, string) result"
  ce_deliver :: "nat \<Rightarrow> evm_transaction \<Rightarrow> (delivery_error, bytes) result"
  ce_hex :: "bytes \<Rightarrow> string"
  ce_uuid :: "nat \<Rightarrow> string"
  ce_u256 :: "string \<Rightarrow> (string, nat) result"
  ce_starknet_identity :: "bytes option"
  ce_records_attempts :: bool

section \<open>Awaits\<close>

definition reading :: "'t sched \<Rightarrow> ('t \<Rightarrow> 'a) \<Rightarrow> ('t world, 'v, 'x, 'a) run" where
  "reading sc rd w = (let w1 = resume sc w in ([], Inr (rd (w_store w1)), w1))"

definition writing :: "'t sched \<Rightarrow> ('t \<Rightarrow> 't) \<Rightarrow> 'v \<Rightarrow> ('t world, 'v, 'x, unit) run" where
  "writing sc f ev w = (let w1 = resume sc w in ([ev], Inr (), w1\<lparr>w_store := f (w_store w1)\<rparr>))"

definition asking :: "'t sched \<Rightarrow> ('e \<Rightarrow> 'x) \<Rightarrow> (nat \<Rightarrow> ('e, 'a) result) \<Rightarrow> ('t world, 'v, 'x, 'a) run" where
  "asking sc f ans w = (let w1 = resume sc w in ([], map_sum f id (ans (w_tick w1)), w1))"

definition mapping_error :: "('e \<Rightarrow> 'x) \<Rightarrow> ('w, 'v, 'e, 'a) run \<Rightarrow> ('w, 'v, 'x, 'a) run" where
  "mapping_error f m w = (case m w of (evs, r, w1) \<Rightarrow> (evs, map_sum f id r, w1))"

fun each :: "('a \<Rightarrow> ('w, 'v, 'x, unit) run) \<Rightarrow> 'a list \<Rightarrow> ('w, 'v, 'x, unit) run" where
  "each f [] = ok ()"
| "each f (x # xs) = and_then (f x) (\<lambda>_. each f xs)"

fun counting :: "('a \<Rightarrow> ('w, 'v, 'x, bool) run) \<Rightarrow> 'a list \<Rightarrow> ('w, 'v, 'x, nat) run" where
  "counting f [] = ok 0"
| "counting f (x # xs) = and_then (f x) (\<lambda>b. and_then (counting f xs) (\<lambda>n. ok (of_bool b + n)))"

fun collecting :: "('a \<Rightarrow> ('w, 'v, 'x, 'c) run) \<Rightarrow> 'a list \<Rightarrow> ('w, 'v, 'x, 'c list) run" where
  "collecting f [] = ok []"
| "collecting f (x # xs) = and_then (f x) (\<lambda>y. and_then (collecting f xs) (\<lambda>ys. ok (y # ys)))"

section \<open>The token manager\<close>

definition is_zero_address :: "bytes \<Rightarrow> bool" where
  "is_zero_address addr = list_all (\<lambda>b. b = 0) addr"

definition owner_for_kind :: "chain_env \<Rightarrow> network_kind \<Rightarrow> string \<Rightarrow> string" where
  "owner_for_kind E kind evm_fallback =
     (if kind = StarknetNetwork
      then (case ce_starknet_identity E of Some sn \<Rightarrow> ce_hex E sn | None \<Rightarrow> evm_fallback)
      else evm_fallback)"

definition tracking_for_system_tx :: "chain_env \<Rightarrow> string \<Rightarrow> transaction_type \<Rightarrow> (string \<times> transaction_type) option" where
  "tracking_for_system_tx E scope ty = (if ce_records_attempts E then Some (scope, ty) else None)"

definition update_networks :: "'s shared sched \<Rightarrow> networks \<Rightarrow> ('s, 'c, 'x, unit) admin_run" where
  "update_networks sc new_networks = writing sc (\<lambda>s. s\<lparr>sh_networks := new_networks\<rparr>) (NetworksReplaced new_networks)"

definition delivering ::
  "'s shared sched \<Rightarrow> chain_env \<Rightarrow> evm_transaction \<Rightarrow> (string \<times> transaction_type) option
   \<Rightarrow> ('s, 'c, token_manager_error, bytes) admin_run" where
  "delivering sc E tx tracking =
     and_then (publish (Sent tx tracking)) (\<lambda>_. asking sc TokenDeliveryError (\<lambda>n. ce_deliver E n tx))"

definition asking_address :: "'s shared sched \<Rightarrow> chain_env \<Rightarrow> ('s, 'c, token_manager_error, bytes) admin_run" where
  "asking_address sc E = asking sc TokenAccountError (ce_address E)"

text \<open>\<open>with_0x_prefix(hex::encode(..))\<close>\<close>

definition hex_0x :: "chain_env \<Rightarrow> bytes \<Rightarrow> string" where
  "hex_0x E b = with_0x_prefix (ce_hex E b)"

definition APPROVE_SELECTOR :: bytes where "APPROVE_SELECTOR = [0x09, 0x5e, 0xa7, 0xb3]"

definition TRANSFER_SELECTOR :: bytes where "TRANSFER_SELECTOR = [0xa9, 0x05, 0x9c, 0xbb]"

definition erc20_call :: "nat \<Rightarrow> bytes \<Rightarrow> bytes \<Rightarrow> bytes \<Rightarrow> nat \<Rightarrow> evm_transaction" where
  "erc20_call chain token selector account amount =
     \<lparr>tx_to = Some token, tx_data = selector @ replicate 12 0 @ account @ to_be_bytes 32 amount, tx_value = 0,
      tx_chain_id = chain, tx_nonce = None, tx_gas_limit = Some 100000, tx_gas_price = None,
      tx_max_fee_per_gas = None, tx_max_priority_fee_per_gas = None\<rparr>"

definition native_transfer :: "nat \<Rightarrow> bytes \<Rightarrow> nat \<Rightarrow> evm_transaction" where
  "native_transfer chain recipient amount =
     \<lparr>tx_to = Some recipient, tx_data = [], tx_value = amount, tx_chain_id = chain, tx_nonce = None,
      tx_gas_limit = None, tx_gas_price = None, tx_max_fee_per_gas = None, tx_max_priority_fee_per_gas = None\<rparr>"

definition system_scope :: "chain_env \<Rightarrow> string \<Rightarrow> nat \<Rightarrow> bytes \<Rightarrow> bytes \<Rightarrow> 's world \<Rightarrow> string" where
  "system_scope E what chain token account w =
     ''system:'' @ what @ '':'' @ to_dec chain @ '':'' @ ce_hex E token @ '':'' @ ce_hex E account @ '':'' @ ce_uuid E (w_tick w)"

definition submit_approval ::
  "'s shared sched \<Rightarrow> chain_env \<Rightarrow> nat \<Rightarrow> bytes \<Rightarrow> bytes \<Rightarrow> nat \<Rightarrow> ('s, 'c, token_manager_error, bytes) admin_run" where
  "submit_approval sc E chain token spender amount w =
     (if is_native_address token then err NativeApprovalUnsupported w
      else delivering sc E (erc20_call chain token APPROVE_SELECTOR spender amount)
             (tracking_for_system_tx E (system_scope E ''approval'' chain token spender w) Approval) w)"

definition MAX_U256 :: nat where "MAX_U256 = u256_bound - 1"

text \<open>Start-up: each settler of an EVM network gets the full allowance of each token, unless it has it.\<close>

definition approve_settler ::
  "'s shared sched \<Rightarrow> chain_env \<Rightarrow> string \<Rightarrow> nat \<Rightarrow> bytes \<Rightarrow> bytes \<Rightarrow> ('s, 'c, token_manager_error, unit) admin_run" where
  "approve_settler sc E solver chain token settler =
     (if is_zero_address settler then ok ()
      else and_then (asking sc TokenDeliveryError (\<lambda>n. ce_allowance E n chain solver (hex_0x E settler) (hex_0x E token)))
             (\<lambda>current. if current \<noteq> to_dec MAX_U256
                        then and_then (submit_approval sc E chain token settler MAX_U256) (\<lambda>_. ok ()) else ok ()))"

definition approve_token ::
  "'s shared sched \<Rightarrow> chain_env \<Rightarrow> string \<Rightarrow> nat \<Rightarrow> network_config \<Rightarrow> token_config \<Rightarrow> ('s, 'c, token_manager_error, unit) admin_run" where
  "approve_token sc E solver chain nw token =
     (if is_native_address (tk_address token) then ok ()
      else and_then (approve_settler sc E solver chain (tk_address token) (nw_input_settler_address nw))
             (\<lambda>_. approve_settler sc E solver chain (tk_address token) (nw_output_settler_address nw)))"

definition approve_network ::
  "'s shared sched \<Rightarrow> chain_env \<Rightarrow> string \<Rightarrow> nat \<times> network_config \<Rightarrow> ('s, 'c, token_manager_error, unit) admin_run" where
  "approve_network sc E solver cn =
     (if nw_kind (snd cn) \<noteq> EvmNetwork then ok ()
      else each (approve_token sc E solver (fst cn) (snd cn)) (nw_tokens (snd cn)))"

definition ensure_approvals :: "'s shared sched \<Rightarrow> chain_env \<Rightarrow> ('s, 'c, token_manager_error, unit) admin_run" where
  "ensure_approvals sc E =
     and_then (asking_address sc E)
       (\<lambda>solver. and_then (reading sc sh_networks) (\<lambda>nws. each (approve_network sc E (hex_0x E solver)) nws))"

definition ensure_token_approval ::
  "'s shared sched \<Rightarrow> chain_env \<Rightarrow> nat \<Rightarrow> bytes \<Rightarrow> bytes \<Rightarrow> nat \<Rightarrow> ('s, 'c, token_manager_error, bool) admin_run" where
  "ensure_token_approval sc E chain token spender amount =
     and_then (reading sc sh_networks) (\<lambda>nws.
       case map_of nws chain of
         None \<Rightarrow> err (NetworkNotConfigured chain)
       | Some nw \<Rightarrow>
           if nw_kind nw \<noteq> EvmNetwork then ok False
           else if is_native_address token then ok False
           else and_then (asking_address sc E) (\<lambda>solver.
             and_then (asking sc TokenDeliveryError
                 (\<lambda>n. ce_allowance E n chain (hex_0x E solver) (hex_0x E spender) (hex_0x E token))) (\<lambda>current.
               case ce_u256 E current of
                 Inl e \<Rightarrow> err (TokenParseError (''Invalid allowance value '' @ [CHR 0x27] @ current @ [CHR 0x27] @ '': '' @ e))
               | Inr n \<Rightarrow>
                   if n \<noteq> amount then and_then (submit_approval sc E chain token spender amount) (\<lambda>_. ok True)
                   else ok False)))"

text \<open>The tokens and chains a scope names; \<open>None\<close> is all of them.\<close>

definition in_scope :: "'a option \<Rightarrow> 'a \<Rightarrow> bool" where
  "in_scope flt x = (case flt of None \<Rightarrow> True | Some y \<Rightarrow> x = y)"

definition chains_in_scope :: "nat option \<Rightarrow> networks \<Rightarrow> networks" where
  "chains_in_scope chain nws = filter (\<lambda>(c, nw). in_scope chain c \<and> nw_kind nw = EvmNetwork) nws"

definition approval_targets :: "nat option \<Rightarrow> bytes option \<Rightarrow> networks \<Rightarrow> (nat \<times> bytes) list" where
  "approval_targets chain token nws =
     concat (map (\<lambda>(c, nw). map (\<lambda>t. (c, tk_address t)) (filter (\<lambda>t. in_scope token (tk_address t)) (nw_tokens nw)))
       (chains_in_scope chain nws))"

definition ensure_approvals_for_spender_scope ::
  "'s shared sched \<Rightarrow> chain_env \<Rightarrow> nat option \<Rightarrow> bytes option \<Rightarrow> bytes \<Rightarrow> nat
   \<Rightarrow> ('s, 'c, token_manager_error, nat \<times> nat list) admin_run" where
  "ensure_approvals_for_spender_scope sc E chain token spender amount =
     and_then (reading sc sh_networks) (\<lambda>nws.
       and_then (counting (\<lambda>(c, t). ensure_token_approval sc E c t spender amount) (approval_targets chain token nws))
         (\<lambda>n. ok (n, map fst (chains_in_scope chain nws))))"

definition token_balance ::
  "'s shared sched \<Rightarrow> chain_env \<Rightarrow> string \<Rightarrow> nat \<Rightarrow> token_config \<Rightarrow> ('s, 'c, token_manager_error, (nat \<times> token_config) \<times> string) admin_run" where
  "token_balance sc E owner chain token =
     and_then (asking sc TokenDeliveryError (\<lambda>n. ce_balance E n chain owner
         (if is_native_address (tk_address token) then None else Some (ce_hex E (tk_address token)))))
       (\<lambda>bal. ok ((chain, token), bal))"

definition check_balances :: "'s shared sched \<Rightarrow> chain_env \<Rightarrow> ('s, 'c, token_manager_error, ((nat \<times> token_config) \<times> string) list) admin_run" where
  "check_balances sc E =
     and_then (asking_address sc E) (\<lambda>solver.
       and_then (reading sc sh_networks) (\<lambda>nws.
         and_then (collecting (\<lambda>(c, nw). collecting (token_balance sc E (owner_for_kind E (nw_kind nw) (ce_hex E solver)) c) (nw_tokens nw)) nws)
           (\<lambda>rows. ok (foldl (\<lambda>m (k, v). AList.update k v m) [] (concat rows)))))"

definition check_balance :: "'s shared sched \<Rightarrow> chain_env \<Rightarrow> nat \<Rightarrow> bytes \<Rightarrow> ('s, 'c, token_manager_error, string) admin_run" where
  "check_balance sc E chain token =
     and_then (asking_address sc E) (\<lambda>solver.
       asking sc TokenDeliveryError (\<lambda>n. ce_balance E n chain (ce_hex E solver) (Some (ce_hex E token))))"

definition check_balance_any :: "'s shared sched \<Rightarrow> chain_env \<Rightarrow> nat \<Rightarrow> bytes \<Rightarrow> ('s, 'c, token_manager_error, string) admin_run" where
  "check_balance_any sc E chain token =
     (if is_native_address token
      then and_then (asking_address sc E) (\<lambda>solver.
             asking sc TokenDeliveryError (\<lambda>n. ce_balance E n chain (ce_hex E solver) None))
      else check_balance sc E chain token)"

definition withdraw_token ::
  "'s shared sched \<Rightarrow> chain_env \<Rightarrow> nat \<Rightarrow> bytes \<Rightarrow> bytes \<Rightarrow> nat \<Rightarrow> ('s, 'c, token_manager_error, bytes) admin_run" where
  "withdraw_token sc E chain token recipient amount w =
     delivering sc E
       (if is_native_address token then native_transfer chain recipient amount
        else erc20_call chain token TRANSFER_SELECTOR recipient amount)
       (tracking_for_system_tx E (system_scope E ''withdrawal'' chain token recipient w) Withdrawal) w"

definition is_supported :: "'s shared sched \<Rightarrow> nat \<Rightarrow> bytes \<Rightarrow> ('s, 'c, 'x, bool) admin_run" where
  "is_supported sc chain token =
     and_then (reading sc sh_networks) (\<lambda>nws.
       ok (case map_of nws chain of None \<Rightarrow> False | Some nw \<Rightarrow> list_ex (\<lambda>t. tk_address t = token) (nw_tokens nw)))"

definition get_token_info :: "'s shared sched \<Rightarrow> chain_env \<Rightarrow> nat \<Rightarrow> bytes \<Rightarrow> ('s, 'c, token_manager_error, token_config) admin_run" where
  "get_token_info sc E chain token =
     and_then (reading sc sh_networks) (\<lambda>nws.
       case map_of nws chain of
         None \<Rightarrow> err (NetworkNotConfigured chain)
       | Some nw \<Rightarrow> require (TokenNotSupported (ce_hex E token) chain) (find (\<lambda>t. tk_address t = token) (nw_tokens nw)))"

definition get_tokens_for_chain :: "'s shared sched \<Rightarrow> nat \<Rightarrow> ('s, 'c, 'x, token_config list) admin_run" where
  "get_tokens_for_chain sc chain =
     and_then (reading sc sh_networks) (\<lambda>nws. ok (case map_of nws chain of None \<Rightarrow> [] | Some nw \<Rightarrow> nw_tokens nw))"

end
