(* ===== verification/Admin_Api.thy ===== *)
theory Admin_Api
  imports Token_Manager
begin

text \<open>
  \<^verbatim>\<open>crates/solver-service/src/apis/admin.rs\<close> and the operator configuration of
  \<^verbatim>\<open>crates/solver-types/src/operator_config.rs\<close>: the endpoints of the admin API.  An endpoint first verifies the
  signed request and then runs its handler; a handler that changes the configuration reads it, edits it,
  stores it with the version it read, and reloads what is derived from it.

  Parts of the configuration that no handler here looks into are JSON values.  The merge of the operator
  configuration into the runtime configuration (\<^verbatim>\<open>build_runtime_config\<close>), the decimal parser and the clock are
  parameters, in \<open>admin_env\<close>; amounts of 256 bits, addresses and digests as in \<open>Admin_Auth\<close>.
\<close>

section \<open>The operator configuration\<close>

record operator_token =
  ot_symbol :: string
  ot_name :: "string option"
  ot_address :: bytes
  ot_decimals :: nat

record rpc_endpoint =
  rp_http :: string
  rp_ws :: "string option"

record operator_network =
  on_chain_id :: nat
  on_name :: string
  on_network_type :: json
  on_kind :: network_kind
  on_tokens :: "operator_token list"
  on_rpc_urls :: "rpc_endpoint list"
  on_input_settler_address :: bytes
  on_output_settler_address :: bytes
  on_rest :: json

definition has_token :: "operator_network \<Rightarrow> bytes \<Rightarrow> bool" where
  "has_token nw addr = list_ex (\<lambda>t. ot_address t = addr) (on_tokens nw)"

record operator_gas =
  og_resource_lock :: gas_flow
  og_permit2_escrow :: gas_flow
  og_eip3009_escrow :: gas_flow
  og_live_fill_estimate_enabled :: bool
  og_live_post_fill_estimate_chain_ids :: "nat set"

text \<open>Decimals are held in their printed form.\<close>

record operator_solver =
  os_min_profitability_pct :: string
  os_gas_buffer_bps :: nat
  os_settlement_fee_buffer_bps :: nat
  os_commission_bps :: nat
  os_rate_buffer_bps :: nat
  os_monitoring_timeout_seconds :: nat
  os_deny_list :: "string option"
  os_resource_lock_enabled :: bool

record operator_pair =
  op_pair_id :: string
  op_target_balance_a :: string
  op_target_balance_b :: string
  op_deviation_band_bps :: nat
  op_max_bridge_amount :: string
  op_rest :: json

record operator_rebalance =
  or_enabled :: bool
  or_cooldown_seconds :: nat
  or_max_pending_transfers :: nat
  or_pairs :: "operator_pair list"
  or_rest :: json

record operator_config =
  oc_solver_id :: string
  oc_solver_name :: "string option"
  oc_networks :: "(nat \<times> operator_network) list"
  oc_gas :: operator_gas
  oc_solver :: operator_solver
  oc_admin :: operator_admin_config
  oc_rebalance :: "operator_rebalance option"
  oc_rest :: json

section \<open>The environment of the handlers\<close>

record ('s, 'b, 'g) admin_env =
  ae_backend :: "('s, 'b) backend"
  ae_codec :: "(operator_config versioned, 'b) codec"
  ae_sched :: "'s shared sched"
  ae_crypto :: "'g crypto"
  ae_chain :: chain_env
  ae_store :: config_store
  ae_nonces :: nonce_store
  ae_solver_id :: string
  ae_build :: "operator_config \<Rightarrow> (string, runtime_config) result"
  ae_decimal :: "string \<Rightarrow> string option"
  ae_timestamp :: "nat \<Rightarrow> nat"
  ae_uuid :: "nat \<Rightarrow> nat"
  ae_stamp :: "nat \<Rightarrow> 'b"
  ae_bridge :: "admin_contents \<Rightarrow> ('s, operator_config, admin_auth_error, unit) admin_run"

abbreviation nonce_cell :: "('s, 'b, 'g) admin_env \<Rightarrow> ('s shared, 'b) backend" where
  "nonce_cell K \<equiv> over_cell sh_nonces (\<lambda>c s. s\<lparr>sh_nonces := c\<rparr>) (ae_backend K)"

abbreviation config_cell :: "('s, 'b, 'g) admin_env \<Rightarrow> ('s shared, 'b) backend" where
  "config_cell K \<equiv> over_cell sh_configs (\<lambda>c s. s\<lparr>sh_configs := c\<rparr>) (ae_backend K)"

type_synonym ('s, 'a) endpoint = "('s, operator_config, admin_auth_error, 'a) admin_run"

fun config_store_failure :: "config_store_error \<Rightarrow> admin_auth_error" where
  "config_store_failure (ConfigNotFound m) = Internal (''Configuration not found: '' @ m)"
| "config_store_failure (VersionMismatch expected found) =
     Internal (''Configuration was modified concurrently (expected version '' @ to_dec expected @ '', found '' @
       to_dec found @ ''), please retry'')"
| "config_store_failure (ConfigSerialization m) = Internal (''Serialization error: '' @ m)"
| "config_store_failure (ConfigBackend m) = Internal (''Storage error: '' @ m)"
| "config_store_failure (ConfigInvalid m) = Internal (''Configuration error: '' @ m)"
| "config_store_failure (ConfigAlreadyExists m) = Internal (''Configuration already exists: '' @ m)"
| "config_store_failure ConfigClockPanic = Internal ''Time went backwards''"

fun config_store_error_text :: "config_store_error \<Rightarrow> string" where
  "config_store_error_text (ConfigNotFound m) = ''Configuration not found for solver: '' @ m"
| "config_store_error_text (ConfigAlreadyExists m) = ''Configuration already exists for solver: '' @ m"
| "config_store_error_text (VersionMismatch expected found) =
     ''Version mismatch: expected '' @ to_dec expected @ '', found '' @ to_dec found"
| "config_store_error_text (ConfigSerialization m) = ''Serialization error: '' @ m"
| "config_store_error_text (ConfigBackend m) = ''Backend error: '' @ m"
| "config_store_error_text (ConfigInvalid m) = ''Configuration error: '' @ m"
| "config_store_error_text ConfigClockPanic = ''Time went backwards''"

definition update_error :: "config_store_error \<Rightarrow> admin_auth_error" where
  "update_error e =
     (case e of VersionMismatch _ _ \<Rightarrow> Internal ''Config was modified, please retry'' | other \<Rightarrow> config_store_failure other)"

text \<open>Reading and storing the configuration, with the error messages of the caller.\<close>

definition loading_or ::
  "('s, 'b, 'g) admin_env \<Rightarrow> (config_store_error \<Rightarrow> admin_auth_error) \<Rightarrow> ('s, operator_config versioned) endpoint" where
  "loading_or K f = call f (config_get (config_cell K) (ae_codec K) (ae_sched K) (ae_store K))"

definition storing_or ::
  "('s, 'b, 'g) admin_env \<Rightarrow> (config_store_error \<Rightarrow> admin_auth_error) \<Rightarrow> operator_config \<Rightarrow> nat
   \<Rightarrow> ('s, operator_config versioned) endpoint" where
  "storing_or K f config expected =
     and_then (call f (config_update (config_cell K) (ae_codec K) (ae_sched K) (ae_store K) config expected))
       (\<lambda>v. and_then (publish (ConfigStored v)) (\<lambda>_. ok v))"

abbreviation loading :: "('s, 'b, 'g) admin_env \<Rightarrow> ('s, operator_config versioned) endpoint" where
  "loading K \<equiv> loading_or K config_store_failure"

abbreviation storing :: "('s, 'b, 'g) admin_env \<Rightarrow> operator_config \<Rightarrow> nat \<Rightarrow> ('s, operator_config versioned) endpoint" where
  "storing K \<equiv> storing_or K update_error"

definition building :: "('s, 'b, 'g) admin_env \<Rightarrow> operator_config \<Rightarrow> ('s, runtime_config) endpoint" where
  "building K config = lift_result (\<lambda>e. Internal (''Invalid config: '' @ e)) (ae_build K config)"

definition reloading :: "('s, 'b, 'g) admin_env \<Rightarrow> runtime_config \<Rightarrow> ('s, unit) endpoint" where
  "reloading K new_config = writing (ae_sched K) (\<lambda>s. s\<lparr>sh_config := new_config\<rparr>) (ConfigReloaded new_config)"

definition guarding :: "bool \<Rightarrow> 'x \<Rightarrow> ('w, 'v, 'x, unit) run" where
  "guarding b e = (if b then err e else ok ())"

section \<open>Authentication\<close>

definition rebuilt_verifier :: "('s, 'b, 'g) admin_env \<Rightarrow> operator_admin_config \<Rightarrow> verifier" where
  "rebuilt_verifier K A =
     new_verifier (ae_crypto K) (ae_nonces K)
       \<lparr>ac_enabled = oa_enabled A, ac_domain = oa_domain A, ac_chain_id = Some (oa_chain_id A),
        ac_nonce_ttl_seconds = oa_nonce_ttl_seconds A, ac_whitelist = oa_whitelist A\<rparr>
       (oa_chain_id A) (ae_solver_id K)"

definition rebuild_verifier :: "('s, 'b, 'g) admin_env \<Rightarrow> operator_admin_config \<Rightarrow> ('s, unit) endpoint" where
  "rebuild_verifier K A =
     writing (ae_sched K) (\<lambda>s. s\<lparr>sh_verifier := rebuilt_verifier K A\<rparr>) (VerifierReplaced (rebuilt_verifier K A))"

text \<open>\<open>VerifiedAdmin::from_request\<close>: the verifier is read-locked while it verifies.\<close>

definition verified_admin :: "('s, 'b, 'g) admin_env \<Rightarrow> admin_action \<Rightarrow> bytes \<Rightarrow> ('s, bytes) endpoint" where
  "verified_admin K a sig =
     and_then (reading (ae_sched K) sh_verifier)
       (\<lambda>V w. call id (verify (ae_crypto K) (nonce_cell K) (ae_sched K) V (ae_timestamp K (w_tick w)) a sig) w)"

definition handle_get_nonce :: "('s, 'b, 'g) admin_env \<Rightarrow> ('s, nat \<times> nat \<times> string \<times> nat) endpoint" where
  "handle_get_nonce K =
     and_then (reading (ae_sched K) sh_verifier)
       (\<lambda>V w. and_then (call id (generate_nonce (nonce_cell K) (ae_sched K) V (ae_uuid K (w_tick w)) (ae_stamp K (w_tick w))))
          (\<lambda>nonce. ok (nonce, ns_ttl (av_nonce_store V), ac_domain (av_admin_config V), av_chain_id V)) w)"

section \<open>The whitelist\<close>

definition ZERO_ADDRESS :: bytes where "ZERO_ADDRESS = replicate 20 0"

definition handle_get_whitelist :: "('s, 'b, 'g) admin_env \<Rightarrow> ('s, whitelist_entry list) endpoint" where
  "handle_get_whitelist K = and_then (loading K) (\<lambda>v. ok (oa_whitelist (oc_admin (vd_data v))))"

text \<open>What both changes of the whitelist end with.\<close>

definition store_admins :: "('s, 'b, 'g) admin_env \<Rightarrow> operator_config \<Rightarrow> nat \<Rightarrow> ('s, unit) endpoint" where
  "store_admins K config expected =
     and_then (storing K config expected) (\<lambda>v.
       and_then (building K (vd_data v)) (\<lambda>new_config.
         and_then (reloading K new_config) (\<lambda>_. rebuild_verifier K (oc_admin (vd_data v)))))"

definition handle_set_admin_role :: "('s, 'b, 'g) admin_env \<Rightarrow> bytes \<Rightarrow> admin_role \<Rightarrow> ('s, unit) endpoint" where
  "handle_set_admin_role K account role =
     and_then (guarding (account = ZERO_ADDRESS) (InvalidMessage ''Whitelist address cannot be zero'')) (\<lambda>_.
       and_then (loading K) (\<lambda>v.
         let admin = oc_admin (vd_data v);
             demoting_full_admin = operator_role_for admin account = Some Admin \<and> role \<noteq> Admin
         in and_then (guarding (demoting_full_admin \<and> length (admin_addresses admin) \<le> 1)
                (InvalidMessage ''Cannot demote the last admin'')) (\<lambda>_.
              store_admins K ((vd_data v)\<lparr>oc_admin := set_role admin account role\<rparr>) (vd_version v))))"

definition handle_remove_admin :: "('s, 'b, 'g) admin_env \<Rightarrow> bytes \<Rightarrow> ('s, unit) endpoint" where
  "handle_remove_admin K admin_to_remove =
     and_then (loading K) (\<lambda>v.
       let admin = oc_admin (vd_data v);
           removing_full_admin = operator_role_for admin admin_to_remove = Some Admin
       in and_then (guarding (operator_role_for admin admin_to_remove = None) (InvalidMessage ''Whitelist address not found'')) (\<lambda>_.
            and_then (guarding (removing_full_admin \<and> length (admin_addresses admin) \<le> 1)
                (InvalidMessage ''Cannot remove the last admin'')) (\<lambda>_.
              store_admins K ((vd_data v)\<lparr>oc_admin := remove_admin admin admin_to_remove\<rparr>) (vd_version v))))"

section \<open>Gas and fees\<close>

definition validate_flow :: "string \<Rightarrow> gas_flow \<Rightarrow> (admin_auth_error, unit) result" where
  "validate_flow label f =
     (if gf_open f > 500000 then Inl (InvalidMessage (label @ ''.open too high''))
      else if gf_fill f > 1000000 then Inl (InvalidMessage (label @ ''.fill too high''))
      else if gf_post_fill f > 1000000 then Inl (InvalidMessage (label @ ''.postFill too high''))
      else if gf_pre_claim f > 5000000 then Inl (InvalidMessage (label @ ''.preClaim too high''))
      else if gf_claim f > 500000 then Inl (InvalidMessage (label @ ''.claim too high''))
      else Inr ())"

text \<open>What the updates of gas and fees end with: the verifier and the token manager keep what they have.\<close>

definition store_and_reload :: "('s, 'b, 'g) admin_env \<Rightarrow> operator_config \<Rightarrow> nat \<Rightarrow> ('s, unit) endpoint" where
  "store_and_reload K config expected =
     and_then (storing K config expected) (\<lambda>v. and_then (building K (vd_data v)) (reloading K))"

definition updated_gas :: "gas_contents \<Rightarrow> operator_gas" where
  "updated_gas d = \<lparr>og_resource_lock = gc_resource_lock d, og_permit2_escrow = gc_permit2_escrow d,
     og_eip3009_escrow = gc_eip3009_escrow d, og_live_fill_estimate_enabled = gc_live_fill_estimate_enabled d,
     og_live_post_fill_estimate_chain_ids = set (gc_live_post_fill_estimate_chain_ids d)\<rparr>"

definition handle_update_gas :: "('s, 'b, 'g) admin_env \<Rightarrow> gas_contents \<Rightarrow> ('s, unit) endpoint" where
  "handle_update_gas K d =
     and_then (lift_result id (validate_flow ''resourceLock'' (gc_resource_lock d))) (\<lambda>_.
       and_then (lift_result id (validate_flow ''permit2Escrow'' (gc_permit2_escrow d))) (\<lambda>_.
         and_then (lift_result id (validate_flow ''eip3009Escrow'' (gc_eip3009_escrow d))) (\<lambda>_.
           and_then (loading K) (\<lambda>v. store_and_reload K ((vd_data v)\<lparr>oc_gas := updated_gas d\<rparr>) (vd_version v)))))"

definition handle_get_gas :: "('s, 'b, 'g) admin_env \<Rightarrow> ('s, gas_flow \<times> gas_flow \<times> gas_flow) endpoint" where
  "handle_get_gas K =
     and_then (loading K) (\<lambda>v. let gas = oc_gas (vd_data v)
       in ok (og_resource_lock gas, og_permit2_escrow gas, og_eip3009_escrow gas))"

definition bps_error :: "string \<Rightarrow> nat \<Rightarrow> admin_auth_error" where
  "bps_error label n = InvalidMessage (''Invalid '' @ label @ '': '' @ to_dec n @ '' exceeds maximum of 10000 (100%)'')"

definition fee_check :: "('s, 'b, 'g) admin_env \<Rightarrow> fee_contents \<Rightarrow> (admin_auth_error, string) result" where
  "fee_check K d =
     (case ae_decimal K (fc_min_profitability_pct d) of
        None \<Rightarrow> Inl (InvalidMessage (''Invalid minProfitabilityPct: '' @ [CHR 0x27] @ fc_min_profitability_pct d @ [CHR 0x27] @
                  '' is not a valid decimal''))
      | Some pct \<Rightarrow>
          if fc_gas_buffer_bps d > 10000 then Inl (bps_error ''gasBufferBps'' (fc_gas_buffer_bps d))
          else if fc_settlement_fee_buffer_bps d > 10000 then Inl (bps_error ''settlementFeeBufferBps'' (fc_settlement_fee_buffer_bps d))
          else if fc_commission_bps d > 10000 then Inl (bps_error ''commissionBps'' (fc_commission_bps d))
          else if fc_rate_buffer_bps d \<ge> 10000
          then Inl (InvalidMessage (''Invalid rateBufferBps: '' @ to_dec (fc_rate_buffer_bps d) @ '' must be less than 10000''))
          else Inr pct)"

definition updated_fees :: "fee_contents \<Rightarrow> string \<Rightarrow> operator_solver \<Rightarrow> operator_solver" where
  "updated_fees d pct sv =
     sv\<lparr>os_gas_buffer_bps := fc_gas_buffer_bps d, os_settlement_fee_buffer_bps := fc_settlement_fee_buffer_bps d,
        os_min_profitability_pct := pct, os_commission_bps := fc_commission_bps d, os_rate_buffer_bps := fc_rate_buffer_bps d\<rparr>"

definition handle_update_fees :: "('s, 'b, 'g) admin_env \<Rightarrow> fee_contents \<Rightarrow> ('s, unit) endpoint" where
  "handle_update_fees K d =
     and_then (lift_result id (fee_check K d)) (\<lambda>pct.
       and_then (loading K) (\<lambda>v.
         store_and_reload K ((vd_data v)\<lparr>oc_solver := updated_fees d pct (oc_solver (vd_data v))\<rparr>) (vd_version v)))"

definition handle_get_fees :: "('s, 'b, 'g) admin_env \<Rightarrow> ('s, runtime_fees) endpoint" where
  "handle_get_fees K = reading (ae_sched K) (\<lambda>s. rt_fees (sh_config s))"

section \<open>Tokens\<close>

definition network_missing :: "nat \<Rightarrow> admin_auth_error" where
  "network_missing chain = InvalidMessage (''Network '' @ to_dec chain @ '' not found'')"

fun reject_duplicates :: "'g crypto \<Rightarrow> (nat \<times> bytes) set \<Rightarrow> token_addition list \<Rightarrow> (admin_auth_error, unit) result" where
  "reject_duplicates C seen [] = Inr ()"
| "reject_duplicates C seen (a # as) =
     (let key = (ta_chain_id a, ta_token_address a)
      in if key \<in> seen
         then Inl (InvalidMessage (''Duplicate token '' @ cr_show_address C (ta_token_address a) @ '' on chain '' @
                to_dec (ta_chain_id a) @ '' in request payload''))
         else reject_duplicates C (insert key seen) as)"

fun reject_existing :: "(nat \<times> operator_network) list \<Rightarrow> token_addition list \<Rightarrow> (admin_auth_error, unit) result" where
  "reject_existing nws [] = Inr ()"
| "reject_existing nws (a # as) =
     (case map_of nws (ta_chain_id a) of
        None \<Rightarrow> Inl (network_missing (ta_chain_id a))
      | Some nw \<Rightarrow>
          if has_token nw (ta_token_address a)
          then Inl (InvalidMessage (''Token '' @ ta_symbol a @ '' already exists on chain '' @ to_dec (ta_chain_id a)))
          else reject_existing nws as)"

definition added_token :: "token_addition \<Rightarrow> operator_token" where
  "added_token a =
     \<lparr>ot_symbol = ta_symbol a, ot_name = Some (case ta_name a of None \<Rightarrow> ta_symbol a | Some n \<Rightarrow> n),
      ot_address = ta_token_address a, ot_decimals = ta_decimals a\<rparr>"

fun apply_additions ::
  "(nat \<times> operator_network) list \<Rightarrow> token_addition list \<Rightarrow> (admin_auth_error, (nat \<times> operator_network) list) result" where
  "apply_additions nws [] = Inr nws"
| "apply_additions nws (a # as) =
     (case map_of nws (ta_chain_id a) of
        None \<Rightarrow> Inl (network_missing (ta_chain_id a))
      | Some nw \<Rightarrow> apply_additions (AList.update (ta_chain_id a) (nw\<lparr>on_tokens := on_tokens nw @ [added_token a]\<rparr>) nws) as)"

definition validate_and_apply_token_additions ::
  "'g crypto \<Rightarrow> operator_config \<Rightarrow> token_addition list \<Rightarrow> (admin_auth_error, operator_config) result" where
  "validate_and_apply_token_additions C config additions =
     (case reject_duplicates C {} additions of
        Inl e \<Rightarrow> Inl e
      | Inr _ \<Rightarrow>
          (case reject_existing (oc_networks config) additions of
             Inl e \<Rightarrow> Inl e
           | Inr _ \<Rightarrow>
               (case apply_additions (oc_networks config) additions of
                  Inl e \<Rightarrow> Inl e
                | Inr nws \<Rightarrow> Inr (config\<lparr>oc_networks := nws\<rparr>))))"

text \<open>Stored, built, then the token manager and the runtime configuration are replaced.\<close>

definition persist_and_hot_reload ::
  "('s, 'b, 'g) admin_env \<Rightarrow> operator_config \<Rightarrow> nat \<Rightarrow> ('s, nat \<times> runtime_config) endpoint" where
  "persist_and_hot_reload K config expected =
     and_then (storing K config expected) (\<lambda>v.
       and_then (building K (vd_data v)) (\<lambda>new_config.
         and_then (update_networks (ae_sched K) (rt_networks new_config)) (\<lambda>_.
           and_then (reloading K new_config) (\<lambda>_. ok (vd_version v, new_config)))))"

definition settler_spenders :: "network_config \<Rightarrow> bytes list" where
  "settler_spenders nw =
     (let input = nw_input_settler_address nw; out = nw_output_settler_address nw
      in (if input \<noteq> ZERO_ADDRESS then [input] else []) @ (if out \<noteq> ZERO_ADDRESS \<and> out \<noteq> input then [out] else []))"

definition ensure_new_token_approvals ::
  "('s, 'b, 'g) admin_env \<Rightarrow> nat \<Rightarrow> bytes \<Rightarrow> network_config \<Rightarrow> ('s, operator_config, token_manager_error, nat) admin_run" where
  "ensure_new_token_approvals K chain token nw =
     counting (\<lambda>spender. ensure_token_approval (ae_sched K) (ae_chain K) chain token spender MAX_U256) (settler_spenders nw)"

text \<open>A failure for one token does not stop the others; it is kept with the token.\<close>

definition catching :: "('w, 'v, 'e, 'a) run \<Rightarrow> ('w, 'v, 'x, ('e, 'a) result) run" where
  "catching m w = (case m w of (evs, r, w1) \<Rightarrow> (evs, Inr r, w1))"

definition sync_addition ::
  "('s, 'b, 'g) admin_env \<Rightarrow> networks \<Rightarrow> token_addition \<Rightarrow> ('s, (token_addition \<times> string, nat) result) endpoint" where
  "sync_addition K nws a =
     (case map_of nws (ta_chain_id a) of
        None \<Rightarrow> ok (Inl (a, ''Chain '' @ to_dec (ta_chain_id a) @ '' missing from rebuilt runtime config after token add''))
      | Some nw \<Rightarrow>
          and_then (catching (ensure_new_token_approvals K (ta_chain_id a) (ta_token_address a) nw))
            (\<lambda>r. ok (map_sum (\<lambda>e. (a, token_manager_error_text e)) id r)))"

fun failures_of :: "('e, 'a) result list \<Rightarrow> 'e list" where
  "failures_of [] = []"
| "failures_of (Inl e # rs) = e # failures_of rs"
| "failures_of (Inr a # rs) = failures_of rs"

fun counts_of :: "('e, nat) result list \<Rightarrow> nat" where
  "counts_of [] = 0"
| "counts_of (Inl e # rs) = counts_of rs"
| "counts_of (Inr n # rs) = n + counts_of rs"

fun join_text :: "string \<Rightarrow> string list \<Rightarrow> string" where
  "join_text sep [] = []"
| "join_text sep [x] = x"
| "join_text sep (x # y # ys) = x @ sep @ join_text sep (y # ys)"

definition format_approval_failures :: "'g crypto \<Rightarrow> (token_addition \<times> string) list \<Rightarrow> string" where
  "format_approval_failures C fs =
     join_text ''; '' (map (\<lambda>(a, e). to_dec (ta_chain_id a) @ '':'' @ cr_show_address C (ta_token_address a) @ '' ('' @
        ta_symbol a @ '') - '' @ e) fs)"

definition sync_approvals_for_added_tokens ::
  "('s, 'b, 'g) admin_env \<Rightarrow> token_addition list \<Rightarrow> networks \<Rightarrow> ('s, ((token_addition \<times> string) list, nat) result) endpoint" where
  "sync_approvals_for_added_tokens K additions nws =
     and_then (collecting (sync_addition K nws) additions) (\<lambda>rs.
       ok (if failures_of rs = [] then Inr (counts_of rs) else Inl (failures_of rs)))"

definition process_token_additions :: "('s, 'b, 'g) admin_env \<Rightarrow> token_addition list \<Rightarrow> ('s, nat \<times> nat) endpoint" where
  "process_token_additions K additions =
     and_then (loading K) (\<lambda>v.
       and_then (lift_result id (validate_and_apply_token_additions (ae_crypto K) (vd_data v) additions)) (\<lambda>config.
         and_then (building K config) (\<lambda>candidate.
           and_then (sync_approvals_for_added_tokens K additions (rt_networks candidate)) (\<lambda>r.
             case r of
               Inl fs \<Rightarrow> err (Internal (''Automatic approval setup failed for '' @ to_dec (length additions) @
                 '' requested token(s): '' @ format_approval_failures (ae_crypto K) fs @
                 ''. Token additions were not persisted. Retry via POST /api/v1/admin/tokens/approve''))
             | Inr n \<Rightarrow>
                 and_then (persist_and_hot_reload K config (vd_version v)) (\<lambda>p. ok (fst p, n))))))"

definition MIN_BATCH_ADD_TOKENS :: nat where "MIN_BATCH_ADD_TOKENS = 2"

definition MAX_BATCH_ADD_TOKENS :: nat where "MAX_BATCH_ADD_TOKENS = 50"

definition handle_add_token :: "('s, 'b, 'g) admin_env \<Rightarrow> token_addition \<Rightarrow> ('s, unit) endpoint" where
  "handle_add_token K a = and_then (process_token_additions K [a]) (\<lambda>_. ok ())"

definition handle_add_tokens :: "('s, 'b, 'g) admin_env \<Rightarrow> token_addition list \<Rightarrow> ('s, unit) endpoint" where
  "handle_add_tokens K additions =
     and_then (guarding (length additions < MIN_BATCH_ADD_TOKENS)
         (InvalidMessage (''Batch token add requires at least '' @ to_dec MIN_BATCH_ADD_TOKENS @ '' tokens''))) (\<lambda>_.
       and_then (guarding (length additions > MAX_BATCH_ADD_TOKENS)
           (InvalidMessage (''Batch token add supports up to '' @ to_dec MAX_BATCH_ADD_TOKENS @ '' tokens''))) (\<lambda>_.
         and_then (process_token_additions K additions) (\<lambda>_. ok ())))"

definition handle_remove_token :: "('s, 'b, 'g) admin_env \<Rightarrow> nat \<Rightarrow> bytes \<Rightarrow> ('s, unit) endpoint" where
  "handle_remove_token K chain token =
     and_then (loading K) (\<lambda>v.
       and_then (require (network_missing chain) (map_of (oc_networks (vd_data v)) chain)) (\<lambda>nw.
         let kept = filter (\<lambda>t. ot_address t \<noteq> token) (on_tokens nw)
         in and_then (guarding (length kept = length (on_tokens nw))
                (InvalidMessage (''Token '' @ cr_show_address (ae_crypto K) token @ '' not found on chain '' @ to_dec chain))) (\<lambda>_.
              and_then (persist_and_hot_reload K
                  ((vd_data v)\<lparr>oc_networks := AList.update chain (nw\<lparr>on_tokens := kept\<rparr>) (oc_networks (vd_data v))\<rparr>) (vd_version v))
                (\<lambda>_. ok ()))))"

section \<open>Funds\<close>

definition handle_withdrawal :: "('s, 'b, 'g) admin_env \<Rightarrow> withdraw_contents \<Rightarrow> ('s, bytes) endpoint" where
  "handle_withdrawal K d =
     and_then (lift_result from_hash_error (withdraw_to_eip712 (ae_crypto K) d)) (\<lambda>sol.
       let amount = (case sol of SolWithdraw _ _ n _ \<Rightarrow> n | _ \<Rightarrow> 0)
       in and_then (guarding (wd_recipient d = ZERO_ADDRESS) (InvalidMessage ''Recipient cannot be zero address'')) (\<lambda>_.
            and_then (guarding (amount = 0) (InvalidMessage ''Amount must be greater than zero'')) (\<lambda>_.
              and_then (loading K) (\<lambda>v.
                let policy = oa_withdrawals (oc_admin (vd_data v))
                in and_then (guarding (\<not> wc_enabled policy) (NotAuthorized ''Withdrawals are disabled'')) (\<lambda>_.
                     and_then (guarding (\<not> recipient_allowed policy (wd_recipient d))
                         (NotAuthorized ''Withdrawal recipient is not in the configured allowlist'')) (\<lambda>_.
                       and_then (mapping_error (\<lambda>e. Internal (''Balance check failed: '' @ token_manager_error_text e))
                           (check_balance_any (ae_sched K) (ae_chain K) (wd_chain_id d) (wd_token d))) (\<lambda>bal.
                         and_then (lift_result (\<lambda>e. Internal (''Invalid balance value '' @ [CHR 0x27] @ bal @ [CHR 0x27] @ '': '' @ e))
                             (cr_u256 (ae_crypto K) bal)) (\<lambda>balance.
                           and_then (guarding (balance < amount) (InvalidMessage ''Insufficient funds'')) (\<lambda>_.
                             mapping_error (\<lambda>e. Internal (''Withdrawal failed: '' @ token_manager_error_text e))
                               (withdraw_token (ae_sched K) (ae_chain K) (wd_chain_id d) (wd_token d) (wd_recipient d) amount))))))))))"

definition chain_settlers :: "network_config \<Rightarrow> bytes set" where
  "chain_settlers nw = {nw_input_settler_address nw, nw_output_settler_address nw} - {ZERO_ADDRESS}"

definition configured_settlers_by_chain :: "networks \<Rightarrow> (nat \<times> bytes set) list" where
  "configured_settlers_by_chain nws = map (\<lambda>(c, nw). (c, chain_settlers nw)) nws"

definition is_all_chains :: "approve_contents \<Rightarrow> bool" where
  "is_all_chains d \<longleftrightarrow> ap_chain_id d = 0"

definition is_all_tokens :: "approve_contents \<Rightarrow> bool" where
  "is_all_tokens d \<longleftrightarrow> ap_token_address d = ZERO_ADDRESS"

definition affected_chains :: "approve_contents \<Rightarrow> (nat \<times> bytes set) list \<Rightarrow> nat list" where
  "affected_chains d settlers = (if is_all_chains d then map fst settlers else [ap_chain_id d])"

definition spender_authorized :: "approve_contents \<Rightarrow> (nat \<times> bytes set) list \<Rightarrow> bool" where
  "spender_authorized d settlers \<longleftrightarrow>
     affected_chains d settlers \<noteq> [] \<and>
     list_all (\<lambda>c. case map_of settlers c of None \<Rightarrow> False | Some S \<Rightarrow> ap_spender d \<in> S) (affected_chains d settlers)"

definition handle_approve_tokens :: "('s, 'b, 'g) admin_env \<Rightarrow> approve_contents \<Rightarrow> ('s, nat \<times> nat list) endpoint" where
  "handle_approve_tokens K d =
     and_then (lift_result from_hash_error (approve_to_eip712 (ae_crypto K) d)) (\<lambda>sol.
       let amount = (case sol of SolApproveTokens _ _ _ n \<Rightarrow> n | _ \<Rightarrow> 0)
       in and_then (reading (ae_sched K) sh_networks) (\<lambda>nws.
            and_then (guarding (\<not> spender_authorized d (configured_settlers_by_chain nws))
                (NotAuthorized ''Approval spender is not a configured input/output settler on every affected chain'')) (\<lambda>_.
              mapping_error (\<lambda>e. Internal (''Approval failed: '' @ token_manager_error_text e))
                (ensure_approvals_for_spender_scope (ae_sched K) (ae_chain K)
                   (if is_all_chains d then None else Some (ap_chain_id d))
                   (if is_all_tokens d then None else Some (ap_token_address d)) (ap_spender d) amount))))"

section \<open>Balances\<close>

text \<open>\<open>format_token_amount\<close>: a decimal string with the point moved, without trailing zeros.\<close>

definition trim_zeros :: "string \<Rightarrow> string" where
  "trim_zeros s = rev (dropWhile (\<lambda>c. c = CHR ''0'') (rev s))"

definition format_token_amount :: "string \<Rightarrow> nat \<Rightarrow> string" where
  "format_token_amount amount decimals =
     (if decimals = 0 then amount
      else (let (int_part, dec_part) =
                  (if length amount \<le> decimals then (''0'', replicate (decimals - length amount) CHR ''0'' @ amount)
                   else (take (length amount - decimals) amount, drop (length amount - decimals) amount));
                trimmed = trim_zeros dec_part
            in if trimmed = [] then int_part else int_part @ ''.'' @ trimmed))"

definition address_display :: "chain_env \<Rightarrow> bytes \<Rightarrow> string" where
  "address_display E b = ''0x'' @ ce_hex E b"

record balance_row =
  br_address :: string
  br_symbol :: string
  br_name :: "string option"
  br_decimals :: nat
  br_balance :: string
  br_formatted :: string

text \<open>The rows found and the first error.\<close>

type_synonym chain_balances = "balance_row list \<times> string option"

definition add_balance ::
  "(string \<Rightarrow> balance_row) \<Rightarrow> (token_manager_error, string) result \<Rightarrow> chain_balances \<Rightarrow> chain_balances" where
  "add_balance f r acc =
     (case r of
        Inr bal \<Rightarrow> (fst acc @ [f bal], snd acc)
      | Inl e \<Rightarrow> (fst acc, case snd acc of None \<Rightarrow> Some (token_manager_error_text e) | Some m \<Rightarrow> Some m))"

definition token_row :: "chain_env \<Rightarrow> token_config \<Rightarrow> string \<Rightarrow> balance_row" where
  "token_row E t bal =
     \<lparr>br_address = address_display E (tk_address t), br_symbol = tk_symbol t, br_name = tk_name t, br_decimals = tk_decimals t,
      br_balance = bal, br_formatted = format_token_amount bal (tk_decimals t)\<rparr>"

definition native_row :: "chain_env \<Rightarrow> token_config option \<Rightarrow> string \<Rightarrow> balance_row" where
  "native_row E native bal =
     (let decimals = (case native of Some t \<Rightarrow> tk_decimals t | None \<Rightarrow> 18)
      in \<lparr>br_address = address_display E (case native of Some t \<Rightarrow> tk_address t | None \<Rightarrow> ZERO_ADDRESS),
          br_symbol = (case native of Some t \<Rightarrow> tk_symbol t | None \<Rightarrow> ''NATIVE''),
          br_name = (case Option.bind native tk_name of Some n \<Rightarrow> Some n | None \<Rightarrow> Some ''Native Token''),
          br_decimals = decimals, br_balance = bal, br_formatted = format_token_amount bal decimals\<rparr>)"

fun erc20_balances :: "('s, 'b, 'g) admin_env \<Rightarrow> nat \<Rightarrow> token_config list \<Rightarrow> chain_balances \<Rightarrow> ('s, chain_balances) endpoint" where
  "erc20_balances K chain [] acc = ok acc"
| "erc20_balances K chain (t # ts) acc =
     (if is_native_address (tk_address t) then erc20_balances K chain ts acc
      else and_then (catching (check_balance (ae_sched K) (ae_chain K) chain (tk_address t))) (\<lambda>r.
             erc20_balances K chain ts (add_balance (token_row (ae_chain K) t) r acc)))"

definition network_balances :: "('s, 'b, 'g) admin_env \<Rightarrow> nat \<times> network_config \<Rightarrow> ('s, nat \<times> chain_balances) endpoint" where
  "network_balances K cn =
     and_then (erc20_balances K (fst cn) (nw_tokens (snd cn)) ([], None)) (\<lambda>acc.
       and_then (catching (check_balance_any (ae_sched K) (ae_chain K) (fst cn) ZERO_ADDRESS)) (\<lambda>r.
         ok (fst cn, add_balance (native_row (ae_chain K) (find (\<lambda>t. is_native_address (tk_address t)) (nw_tokens (snd cn)))) r acc)))"

definition handle_get_balances :: "('s, 'b, 'g) admin_env \<Rightarrow> ('s, string \<times> (nat \<times> chain_balances) list) endpoint" where
  "handle_get_balances K =
     and_then (mapping_error (\<lambda>e. Internal (''Failed to get solver address: '' @ token_manager_error_text e))
         (asking_address (ae_sched K) (ae_chain K))) (\<lambda>solver.
       and_then (reading (ae_sched K) sh_networks) (\<lambda>nws.
         and_then (collecting (network_balances K) nws) (\<lambda>rows. ok (address_display (ae_chain K) solver, rows))))"

section \<open>Rebalancing\<close>

definition U32_MAX :: nat where "U32_MAX = 4294967295"

text \<open>Built before it is stored, unlike the handlers above.\<close>

definition store_rebalance :: "('s, 'b, 'g) admin_env \<Rightarrow> operator_config \<Rightarrow> nat \<Rightarrow> ('s, unit) endpoint" where
  "store_rebalance K config expected =
     and_then (building K config) (\<lambda>new_config.
       and_then (storing_or K (\<lambda>e. Internal (''Config store update failed: '' @ config_store_error_text e)) config expected) (\<lambda>_.
         reloading K new_config))"

definition load_rebalance :: "('s, 'b, 'g) admin_env \<Rightarrow> ('s, operator_config versioned) endpoint" where
  "load_rebalance K = loading_or K (\<lambda>e. Internal (''Config store error: '' @ config_store_error_text e))"

definition handle_update_rebalance_config :: "('s, 'b, 'g) admin_env \<Rightarrow> bool \<Rightarrow> nat \<Rightarrow> nat \<Rightarrow> ('s, unit) endpoint" where
  "handle_update_rebalance_config K en cooldown pending =
     and_then (load_rebalance K) (\<lambda>v.
       case oc_rebalance (vd_data v) of
         None \<Rightarrow> err (InvalidMessage ''Rebalance not configured. Add rebalance section to bootstrap config first.'')
       | Some reb \<Rightarrow>
           and_then (guarding (pending > U32_MAX) (InvalidMessage ''max_pending_transfers out of range'')) (\<lambda>_.
             store_rebalance K ((vd_data v)\<lparr>oc_rebalance := Some (reb\<lparr>or_enabled := en, or_cooldown_seconds := cooldown,
               or_max_pending_transfers := pending\<rparr>)\<rparr>) (vd_version v)))"

fun update_pair :: "threshold_contents \<Rightarrow> operator_pair list \<Rightarrow> operator_pair list" where
  "update_pair d [] = []"
| "update_pair d (p # ps) =
     (if op_pair_id p = tc_pair_id d
      then p\<lparr>op_target_balance_a := tc_target_balance_a d, op_target_balance_b := tc_target_balance_b d,
             op_deviation_band_bps := tc_deviation_band_bps d, op_max_bridge_amount := tc_max_bridge_amount d\<rparr> # ps
      else p # update_pair d ps)"

definition handle_update_rebalance_threshold :: "('s, 'b, 'g) admin_env \<Rightarrow> threshold_contents \<Rightarrow> ('s, unit) endpoint" where
  "handle_update_rebalance_threshold K d =
     and_then (load_rebalance K) (\<lambda>v.
       and_then (require (InvalidMessage ''Rebalance not configured'') (oc_rebalance (vd_data v))) (\<lambda>reb.
         and_then (guarding (\<not> list_ex (\<lambda>p. op_pair_id p = tc_pair_id d) (or_pairs reb))
             (InvalidMessage (''Pair '' @ [CHR 0x27] @ tc_pair_id d @ [CHR 0x27] @ '' not found''))) (\<lambda>_.
           and_then (guarding (tc_deviation_band_bps d > U32_MAX) (InvalidMessage ''deviation_band_bps out of range'')) (\<lambda>_.
             and_then (guarding (tc_deviation_band_bps d > 10000) (InvalidMessage ''deviation_band_bps must be <= 10000'')) (\<lambda>_.
               store_rebalance K ((vd_data v)\<lparr>oc_rebalance := Some (reb\<lparr>or_pairs := update_pair d (or_pairs reb)\<rparr>)\<rparr>)
                 (vd_version v))))))"

section \<open>Requests\<close>

text \<open>
  The handler of the contents; the responses of successful changes are fixed texts and left out.  Starting and
  resolving a transfer are calls of the bridge service and stay a parameter here.
\<close>

definition discarding :: "('w, 'v, 'x, 'a) run \<Rightarrow> ('w, 'v, 'x, unit) run" where
  "discarding m = and_then m (\<lambda>_. ok ())"

fun handle_contents :: "('s, 'b, 'g) admin_env \<Rightarrow> admin_contents \<Rightarrow> ('s, unit) endpoint" where
  "handle_contents K (AddToken a) = handle_add_token K a"
| "handle_contents K (AddTokens as) = handle_add_tokens K as"
| "handle_contents K (RemoveToken chain token) = handle_remove_token K chain token"
| "handle_contents K (SetAdminRole account role) = handle_set_admin_role K account role"
| "handle_contents K (RemoveAdmin a) = handle_remove_admin K a"
| "handle_contents K (Withdraw d) = discarding (handle_withdrawal K d)"
| "handle_contents K (UpdateFeeConfig d) = handle_update_fees K d"
| "handle_contents K (UpdateGasConfig d) = handle_update_gas K d"
| "handle_contents K (ApproveTokens d) = discarding (handle_approve_tokens K d)"
| "handle_contents K (UpdateRebalanceConfig en cooldown pending) = handle_update_rebalance_config K en cooldown pending"
| "handle_contents K (UpdateRebalanceThreshold d) = handle_update_rebalance_threshold K d"
| "handle_contents K (TriggerRebalance pair source dest amount) = ae_bridge K (TriggerRebalance pair source dest amount)"
| "handle_contents K (ResolveTransfer i resolution reason) = ae_bridge K (ResolveTransfer i resolution reason)"

definition is_bridge_request :: "admin_contents \<Rightarrow> bool" where
  "is_bridge_request c = (case c of TriggerRebalance _ _ _ _ \<Rightarrow> True | ResolveTransfer _ _ _ \<Rightarrow> True | _ \<Rightarrow> False)"

definition handle_request :: "('s, 'b, 'g) admin_env \<Rightarrow> admin_action \<Rightarrow> bytes \<Rightarrow> ('s, unit) endpoint" where
  "handle_request K a sig = and_then (verified_admin K a sig) (\<lambda>admin. handle_contents K (aa_contents a))"

end
