(* ===== verification/Admin_Safety.thy ===== *)
theory Admin_Safety
  imports Admin_Api
begin

text \<open>
  What the admin API guarantees: what its handlers store keeps the limits of the configuration, and what they
  send is what the policy and the settlers of the networks allow.  \<open>tracks I P Q m\<close> says that a run \<open>m\<close> that
  starts in a state with \<open>I\<close> ends in one, emits only effects with \<open>P\<close> and returns only values with \<open>Q\<close>;
  the rules follow the structure of a run, so that a handler is proved by its guards.
\<close>

section \<open>A logic of runs\<close>

definition tracks ::
  "('w \<Rightarrow> bool) \<Rightarrow> ('v \<Rightarrow> bool) \<Rightarrow> ('a \<Rightarrow> bool) \<Rightarrow> ('w, 'v, 'x, 'a) run \<Rightarrow> bool" where
  "tracks I P Q m \<longleftrightarrow>
     (\<forall>w. I w \<longrightarrow> list_all P (fst (m w)) \<and> I (snd (snd (m w))) \<and> (\<forall>a. fst (snd (m w)) = Inr a \<longrightarrow> Q a))"

abbreviation keeps_to :: "('w \<Rightarrow> bool) \<Rightarrow> ('v \<Rightarrow> bool) \<Rightarrow> ('w, 'v, 'x, 'a) run \<Rightarrow> bool" where
  "keeps_to I P m \<equiv> tracks I P (\<lambda>_. True) m"

lemma tracksI:
  "(\<And>w evs r w1. I w \<Longrightarrow> m w = (evs, r, w1) \<Longrightarrow> list_all P evs \<and> I w1 \<and> (\<forall>a. r = Inr a \<longrightarrow> Q a)) \<Longrightarrow> tracks I P Q m"
  unfolding tracks_def by (metis prod.collapse)

lemma tracksD:
  "tracks I P Q m \<Longrightarrow> I w \<Longrightarrow> m w = (evs, r, w1) \<Longrightarrow> list_all P evs \<and> I w1 \<and> (\<forall>a. r = Inr a \<longrightarrow> Q a)"
  unfolding tracks_def by force

lemma tracks_and_then:
  assumes "tracks I P Q m" and "\<And>a. Q a \<Longrightarrow> tracks I P R (k a)"
  shows "tracks I P R (and_then m k)"
proof (rule tracksI)
  fix w evs r w1 assume w: "I w" and run: "and_then m k w = (evs, r, w1)"
  obtain evs0 r0 w0 where m: "m w = (evs0, r0, w0)" by (cases "m w")
  note 1 = tracksD [OF assms(1) w m]
  show "list_all P evs \<and> I w1 \<and> (\<forall>a. r = Inr a \<longrightarrow> R a)"
  proof (cases r0)
    case (Inl e)
    then show ?thesis using run 1 by (auto simp: and_then_def m)
  next
    case (Inr a)
    obtain evs' r' w' where k: "k a w0 = (evs', r', w')" by (cases "k a w0")
    have "Q a" "I w0" using 1 Inr by simp_all
    then show ?thesis using tracksD [OF assms(2) _ k] run 1 by (auto simp: and_then_def m Inr k)
  qed
qed

lemma tracks_weaken: "tracks I P Q m \<Longrightarrow> (\<And>a. Q a \<Longrightarrow> R a) \<Longrightarrow> tracks I P R m"
  by (auto simp: tracks_def)

lemma tracks_simple:
  "Q a \<Longrightarrow> tracks I P Q (ok a)"
  "tracks I P Q (err e)"
  "tracks I P (\<lambda>a. v = Some a) (require e v)"
  "tracks I P (\<lambda>a. q = Inr a) (lift_result f q)"
  "tracks I P (\<lambda>_. \<not> b) (guarding b e)"
  "P ev \<Longrightarrow> keeps_to I P (publish ev)"
  by (auto simp: tracks_def ok_def err_def require_def lift_result_def guarding_def publish_def split: option.splits sum.splits)

lemma tracks_mapping_error:
  assumes "tracks I P Q m"
  shows "tracks I P Q (mapping_error f m)"
proof (rule tracksI)
  fix w evs r w1 assume w: "I w" and run: "mapping_error f m w = (evs, r, w1)"
  obtain evs0 r0 w0 where m: "m w = (evs0, r0, w0)" by (cases "m w")
  from tracksD [OF assms w m] run show "list_all P evs \<and> I w1 \<and> (\<forall>a. r = Inr a \<longrightarrow> Q a)"
    by (cases r0) (auto simp: mapping_error_def m)
qed

lemma tracks_catching: "tracks I P Q m \<Longrightarrow> keeps_to I P (catching m)"
  by (auto simp: tracks_def catching_def split: prod.splits)

lemma tracks_each: "(\<And>x. x \<in> set xs \<Longrightarrow> keeps_to I P (f x)) \<Longrightarrow> keeps_to I P (each f xs)"
  by (induction xs) (auto intro: tracks_and_then tracks_simple)

lemma tracks_counting: "(\<And>x. x \<in> set xs \<Longrightarrow> keeps_to I P (f x)) \<Longrightarrow> keeps_to I P (counting f xs)"
  by (induction xs) (auto intro!: tracks_and_then tracks_simple)

lemma tracks_collecting: "(\<And>x. x \<in> set xs \<Longrightarrow> keeps_to I P (f x)) \<Longrightarrow> keeps_to I P (collecting f xs)"
  by (induction xs) (auto intro!: tracks_and_then tracks_simple)

text \<open>Awaits: the invariant has to survive what the other tasks do.\<close>

definition endures :: "'t sched \<Rightarrow> ('t \<Rightarrow> bool) \<Rightarrow> bool" where
  "endures sc J \<longleftrightarrow> (\<forall>n s. J s \<longrightarrow> J (interfere sc n s))"

lemma endures_resume: "endures sc J \<Longrightarrow> J (w_store w) \<Longrightarrow> J (w_store (resume sc w))"
  by (simp add: endures_def w_store_resume)

abbreviation stays :: "('t \<Rightarrow> bool) \<Rightarrow> 't world \<Rightarrow> bool" where
  "stays J w \<equiv> J (w_store w)"

lemma tracks_awaits:
  assumes "endures sc J"
  shows "tracks (stays J) P (\<lambda>a. \<exists>s. J s \<and> a = rd s) (reading sc rd)"
    and "keeps_to (stays J) P (asking sc f ans)"
    and "P ev \<Longrightarrow> (\<And>s. J s \<Longrightarrow> J (g s)) \<Longrightarrow> keeps_to (stays J) P (writing sc g ev)"
  using endures_resume [OF assms] by (auto simp: tracks_def reading_def asking_def writing_def Let_def)

section \<open>The stored configuration\<close>

text \<open>The two stores of the shared state satisfy the contract of the stores.\<close>

interpretation configs: atomic_storage
  "over_cell sh_configs (\<lambda>c s. s\<lparr>sh_configs := c\<rparr>) memory_backend" "\<lambda>t s. memory_live t (sh_configs s)"
  by (rule over_cell_contract [OF mem_atomic.atomic_storage_axioms]) simp

interpretation nonces: atomic_storage
  "over_cell sh_nonces (\<lambda>c s. s\<lparr>sh_nonces := c\<rparr>) memory_backend" "\<lambda>t s. memory_live t (sh_nonces s)"
  by (rule over_cell_contract [OF mem_atomic.atomic_storage_axioms]) simp

text \<open>The limits the handlers enforce.\<close>

definition flow_ok :: "gas_flow \<Rightarrow> bool" where
  "flow_ok f \<longleftrightarrow> gf_open f \<le> 500000 \<and> gf_fill f \<le> 1000000 \<and> gf_post_fill f \<le> 1000000 \<and>
     gf_pre_claim f \<le> 5000000 \<and> gf_claim f \<le> 500000"

definition gas_ok :: "operator_gas \<Rightarrow> bool" where
  "gas_ok g \<longleftrightarrow> flow_ok (og_resource_lock g) \<and> flow_ok (og_permit2_escrow g) \<and> flow_ok (og_eip3009_escrow g)"

definition fees_ok :: "operator_solver \<Rightarrow> bool" where
  "fees_ok sv \<longleftrightarrow> os_gas_buffer_bps sv \<le> 10000 \<and> os_settlement_fee_buffer_bps sv \<le> 10000 \<and>
     os_commission_bps sv \<le> 10000 \<and> os_rate_buffer_bps sv < 10000"

definition tokens_ok :: "(nat \<times> operator_network) list \<Rightarrow> bool" where
  "tokens_ok nws \<longleftrightarrow> (\<forall>c nw. map_of nws c = Some nw \<longrightarrow> distinct (map ot_address (on_tokens nw)))"

definition rebalance_ok :: "operator_rebalance option \<Rightarrow> bool" where
  "rebalance_ok r \<longleftrightarrow> (\<forall>reb. r = Some reb \<longrightarrow> or_max_pending_transfers reb \<le> U32_MAX \<and>
     list_all (\<lambda>p. op_deviation_band_bps p \<le> 10000) (or_pairs reb))"

definition config_ok :: "operator_config \<Rightarrow> bool" where
  "config_ok oc \<longleftrightarrow> admin_addresses (oc_admin oc) \<noteq> [] \<and> gas_ok (oc_gas oc) \<and> fees_ok (oc_solver oc) \<and>
     tokens_ok (oc_networks oc) \<and> rebalance_ok (oc_rebalance oc)"

definition stored_ok :: "('b memory_storage, 'b, 'g) admin_env \<Rightarrow> 'b memory_storage shared \<Rightarrow> bool" where
  "stored_ok K s \<longleftrightarrow> (\<exists>v. holds_config (\<lambda>t s. memory_live t (sh_configs s)) (ae_codec K) (ae_store K) s v \<and> config_ok (vd_data v))"

fun effect_ok :: "operator_config admin_effect \<Rightarrow> bool" where
  "effect_ok (ConfigStored v) = config_ok (vd_data v)"
| "effect_ok _ = True"

text \<open>The memory backend, a faithful codec, and other tasks that keep the configuration sound.\<close>

definition sound_env :: "('b memory_storage, 'b, 'g) admin_env \<Rightarrow> bool" where
  "sound_env K \<longleftrightarrow> ae_backend K = memory_backend \<and> codec_ok (ae_codec K) \<and> endures (ae_sched K) (stored_ok K)"

lemma stored_ok_other_cells [simp]:
  "stored_ok K (s\<lparr>sh_config := c\<rparr>) = stored_ok K s"
  "stored_ok K (s\<lparr>sh_verifier := V\<rparr>) = stored_ok K s"
  "stored_ok K (s\<lparr>sh_networks := nws\<rparr>) = stored_ok K s"
  "stored_ok K (s\<lparr>sh_nonces := n\<rparr>) = stored_ok K s"
  by (simp_all add: stored_ok_def holds_config_def)

lemma config_get_world: "snd (config_get B c sc S w) = resume sc w"
  by (simp add: config_get_def call_read_def Let_def split: sum.splits)

lemma loading_sound:
  assumes "sound_env K"
  shows "tracks (stays (stored_ok K)) effect_ok (\<lambda>v. config_ok (vd_data v)) (loading_or K f)"
proof (rule tracksI)
  fix w evs r w1
  assume w: "stored_ok K (w_store w)" and run: "loading_or K f w = (evs, r, w1)"
  have B: "ae_backend K = memory_backend" and J: "stored_ok K (w_store (resume (ae_sched K) w))"
    using assms w endures_resume [of "ae_sched K" "stored_ok K" w] by (simp_all add: sound_env_def)
  obtain r0 where get: "config_get (config_cell K) (ae_codec K) (ae_sched K) (ae_store K) w = (r0, resume (ae_sched K) w)"
    using config_get_world [of "config_cell K" "ae_codec K" "ae_sched K" "ae_store K" w] by (metis prod.collapse)
  have evs: "evs = []" "w1 = resume (ae_sched K) w" and r: "r = map_sum f id r0"
    using run get by (auto simp: loading_or_def call_def split: sum.splits)
  have "config_ok (vd_data v)" if r0: "r0 = Inr v" for v
  proof -
    obtain b where b: "get_bytes (config_cell K) (w_now (ae_sched K) w1) (w_store w1) (cs_key (ae_store K)) = Inr b"
      and dec: "decode (ae_codec K) b = Inr v"
      using get r0 evs(2) by (auto simp: config_get_def call_read_def config_deserialize_def Let_def w_now_def split: sum.splits)
    have "memory_live (w_now (ae_sched K) w1) (sh_configs (w_store w1)) (cs_key (ae_store K)) = Some b"
      using configs.get_ok b by (simp add: B)
    then show ?thesis using J dec evs(2) by (auto simp: stored_ok_def holds_config_def)
  qed
  then show "list_all effect_ok evs \<and> stored_ok K (w_store w1) \<and> (\<forall>a. r = Inr a \<longrightarrow> config_ok (vd_data a))"
    using J by (cases r0) (auto simp: evs r)
qed

lemma storing_sound:
  assumes "sound_env K" and "config_ok config"
  shows "tracks (stays (stored_ok K)) effect_ok (\<lambda>v. vd_data v = config) (storing_or K f config expected)"
proof (rule tracksI)
  fix w evs r w1
  assume w: "stored_ok K (w_store w)" and run: "storing_or K f config expected w = (evs, r, w1)"
  have B: "ae_backend K = memory_backend" and c: "codec_ok (ae_codec K)" and rely: "endures (ae_sched K) (stored_ok K)"
    using assms by (simp_all add: sound_env_def)
  obtain r0 w0 where u: "config_update (config_cell K) (ae_codec K) (ae_sched K) (ae_store K) config expected w = (r0, w0)"
    by (cases "config_update (config_cell K) (ae_codec K) (ae_sched K) (ae_store K) config expected w")
  show "list_all effect_ok evs \<and> stored_ok K (w_store w1) \<and> (\<forall>a. r = Inr a \<longrightarrow> vd_data a = config)"
  proof (cases r0)
    case (Inl e)
    have "\<exists>v. holds_config (\<lambda>t s. memory_live t (sh_configs s)) (ae_codec K) (ae_store K) (w_store w0) v \<and> config_ok (vd_data v)"
      using configs.update_failed [of "ae_codec K" "ae_sched K" "ae_store K" config expected w e w0
          "\<lambda>h. \<exists>v. h v \<and> config_ok (vd_data v)"] u rely w
      by (auto simp: B Inl endures_def stored_ok_def)
    then show ?thesis using run u by (auto simp: storing_or_def and_then_def call_def Inl stored_ok_def)
  next
    case (Inr v)
    have "vd_data v = config \<and> holds_config (\<lambda>t s. memory_live t (sh_configs s)) (ae_codec K) (ae_store K) (w_store w0) v"
      using configs.update_done [of "ae_codec K" "ae_sched K" "ae_store K" config expected w v w0] u c by (auto simp: B Inr)
    then show ?thesis using run u assms(2)
      by (auto simp: storing_or_def and_then_def call_def publish_def ok_def Inr stored_ok_def)
  qed
qed

text \<open>What follows a store: building, reloading, replacing the verifier and the networks.\<close>

lemma sound_envD:
  assumes "sound_env K"
  shows "endures (ae_sched K) (stored_ok K)"
  using assms by (simp add: sound_env_def)

lemma reload_sound:
  assumes "sound_env K"
  shows "keeps_to (stays (stored_ok K)) effect_ok (reloading K nc)"
    and "keeps_to (stays (stored_ok K)) effect_ok (rebuild_verifier K A)"
    and "keeps_to (stays (stored_ok K)) effect_ok (update_networks (ae_sched K) nws)"
    and "keeps_to (stays (stored_ok K)) effect_ok (building K oc)"
proof -
  show "keeps_to (stays (stored_ok K)) effect_ok (reloading K nc)"
    and "keeps_to (stays (stored_ok K)) effect_ok (rebuild_verifier K A)"
    and "keeps_to (stays (stored_ok K)) effect_ok (update_networks (ae_sched K) nws)"
    unfolding reloading_def rebuild_verifier_def update_networks_def
    by (rule tracks_awaits(3) [where J = "stored_ok K", OF sound_envD [OF assms]]; simp)+
  show "keeps_to (stays (stored_ok K)) effect_ok (building K oc)"
    unfolding building_def by (rule tracks_weaken [OF tracks_simple(4)]) simp
qed

lemma store_admins_sound:
  assumes "sound_env K" and "config_ok config"
  shows "keeps_to (stays (stored_ok K)) effect_ok (store_admins K config expected)"
  unfolding store_admins_def
  by (rule tracks_and_then [OF storing_sound [OF assms]])
    (auto intro!: tracks_and_then [OF reload_sound(4)] tracks_and_then [OF reload_sound(1)] reload_sound(2) assms(1))

lemma store_and_reload_sound:
  assumes "sound_env K" and "config_ok config"
  shows "keeps_to (stays (stored_ok K)) effect_ok (store_and_reload K config expected)"
  unfolding store_and_reload_def
  by (rule tracks_and_then [OF storing_sound [OF assms]])
    (auto intro!: tracks_and_then [OF reload_sound(4)] reload_sound(1) assms(1))

lemma persist_sound:
  assumes "sound_env K" and "config_ok config"
  shows "keeps_to (stays (stored_ok K)) effect_ok (persist_and_hot_reload K config expected)"
  unfolding persist_and_hot_reload_def
  by (rule tracks_and_then [OF storing_sound [OF assms]])
    (auto intro!: tracks_and_then [OF reload_sound(4)] tracks_and_then [OF reload_sound(3)]
      tracks_and_then [OF reload_sound(1)] tracks_simple(1) assms(1))

lemma store_rebalance_sound:
  assumes "sound_env K" and "config_ok config"
  shows "keeps_to (stays (stored_ok K)) effect_ok (store_rebalance K config expected)"
  unfolding store_rebalance_def
  by (rule tracks_and_then [OF reload_sound(4) [OF assms(1)]])
    (auto intro!: tracks_and_then [OF storing_sound [OF assms]] reload_sound(1) assms(1))

section \<open>The last administrator\<close>

text \<open>Counted by entry, so that duplicate entries of an address do no harm.\<close>

definition admin_entries :: "whitelist_entry list \<Rightarrow> whitelist_entry list" where
  "admin_entries es = filter (\<lambda>e. we_role e = Admin) es"

lemma admin_addresses_entries:
  "admin_addresses A = map we_address (admin_entries (oa_whitelist A))"
  by (simp add: admin_addresses_def admin_entries_def)

lemma assign_role_entries:
  "length (admin_entries (assign_role es a role)) \<ge> length (admin_entries es) - 1"
  "role = Admin \<Longrightarrow> admin_entries (assign_role es a role) \<noteq> []"
  "map_option we_role (find (\<lambda>e. we_address e = a) es) \<noteq> Some Admin \<Longrightarrow>
     length (admin_entries (assign_role es a role)) \<ge> length (admin_entries es)"
  by (induction es) (auto simp: admin_entries_def)

lemma drop_entry_entries:
  "length (admin_entries (drop_entry es a)) \<ge> length (admin_entries es) - 1"
  "map_option we_role (find (\<lambda>e. we_address e = a) es) \<noteq> Some Admin \<Longrightarrow>
     length (admin_entries (drop_entry es a)) = length (admin_entries es)"
  by (induction es) (auto simp: admin_entries_def)

lemma set_role_keeps_admin:
  assumes "admin_addresses A \<noteq> []"
    and "\<not> ((operator_role_for A a = Some Admin \<and> role \<noteq> Admin) \<and> length (admin_addresses A) \<le> 1)"
  shows "admin_addresses (set_role A a role) \<noteq> []"
proof -
  have n: "0 < length (admin_entries (oa_whitelist A))" using assms(1) by (simp add: admin_addresses_entries)
  have "admin_entries (assign_role (oa_whitelist A) a role) \<noteq> []"
  proof (cases "operator_role_for A a = Some Admin")
    case True
    then show ?thesis
      using assms(2) assign_role_entries(1) [of "oa_whitelist A" a role] assign_role_entries(2) [of role "oa_whitelist A" a]
      by (auto simp: admin_addresses_entries)
  next
    case False
    then show ?thesis using n assign_role_entries(3) [of a "oa_whitelist A" role] by (auto simp: operator_role_for_def)
  qed
  then show ?thesis by (simp add: admin_addresses_entries set_role_def)
qed

lemma remove_admin_keeps_admin:
  assumes "admin_addresses A \<noteq> []"
    and "\<not> (operator_role_for A a = Some Admin \<and> length (admin_addresses A) \<le> 1)"
  shows "admin_addresses (remove_admin A a) \<noteq> []"
proof -
  have n: "0 < length (admin_entries (oa_whitelist A))" using assms(1) by (simp add: admin_addresses_entries)
  have "admin_entries (drop_entry (oa_whitelist A) a) \<noteq> []"
  proof (cases "operator_role_for A a = Some Admin")
    case True
    then show ?thesis using assms(2) drop_entry_entries(1) [of "oa_whitelist A" a] by (auto simp: admin_addresses_entries)
  next
    case False
    then show ?thesis using n drop_entry_entries(2) [of a "oa_whitelist A"] by (auto simp: operator_role_for_def)
  qed
  then show ?thesis by (simp add: admin_addresses_entries remove_admin_def)
qed

lemma set_admin_role_sound:
  assumes "sound_env K"
  shows "keeps_to (stays (stored_ok K)) effect_ok (handle_set_admin_role K account role)"
  unfolding handle_set_admin_role_def Let_def
proof (intro tracks_and_then [OF tracks_simple(5)] tracks_and_then [OF loading_sound [OF assms]] store_admins_sound [OF assms])
  fix v :: "operator_config versioned"
  assume ok: "config_ok (vd_data v)"
    and guard: "\<not> ((operator_role_for (oc_admin (vd_data v)) account = Some Admin \<and> role \<noteq> Admin) \<and>
      length (admin_addresses (oc_admin (vd_data v))) \<le> 1)"
  then show "config_ok (vd_data v\<lparr>oc_admin := set_role (oc_admin (vd_data v)) account role\<rparr>)"
    using set_role_keeps_admin [OF _ guard] by (simp add: config_ok_def)
qed

lemma remove_admin_sound:
  assumes "sound_env K"
  shows "keeps_to (stays (stored_ok K)) effect_ok (handle_remove_admin K account)"
  unfolding handle_remove_admin_def Let_def
proof (intro tracks_and_then [OF tracks_simple(5)] tracks_and_then [OF loading_sound [OF assms]] store_admins_sound [OF assms])
  fix v :: "operator_config versioned"
  assume ok: "config_ok (vd_data v)"
    and guard: "\<not> (operator_role_for (oc_admin (vd_data v)) account = Some Admin \<and>
      length (admin_addresses (oc_admin (vd_data v))) \<le> 1)"
  then show "config_ok (vd_data v\<lparr>oc_admin := remove_admin (oc_admin (vd_data v)) account\<rparr>)"
    using remove_admin_keeps_admin [OF _ guard] by (simp add: config_ok_def)
qed

section \<open>Gas, fees and tokens\<close>

lemma validate_flow_ok: "validate_flow label f = Inr u \<Longrightarrow> flow_ok f"
  by (auto simp: validate_flow_def flow_ok_def split: if_splits)

lemma update_gas_sound:
  assumes "sound_env K"
  shows "keeps_to (stays (stored_ok K)) effect_ok (handle_update_gas K d)"
  unfolding handle_update_gas_def
  by (intro tracks_and_then [OF tracks_simple(4)] tracks_and_then [OF loading_sound [OF assms]] store_and_reload_sound [OF assms])
    (auto simp: config_ok_def gas_ok_def updated_gas_def dest: validate_flow_ok)

lemma fee_check_ok: "fee_check K d = Inr pct \<Longrightarrow> fees_ok (updated_fees d pct sv)"
  by (auto simp: fee_check_def fees_ok_def updated_fees_def split: option.splits if_splits)

lemma update_fees_sound:
  assumes "sound_env K"
  shows "keeps_to (stays (stored_ok K)) effect_ok (handle_update_fees K d)"
  unfolding handle_update_fees_def
  by (intro tracks_and_then [OF tracks_simple(4)] tracks_and_then [OF loading_sound [OF assms]] store_and_reload_sound [OF assms])
    (auto simp: config_ok_def fee_check_ok)

lemma reject_duplicates_distinct:
  "reject_duplicates C seen as = Inr u \<Longrightarrow>
   distinct (map (\<lambda>a. (ta_chain_id a, ta_token_address a)) as) \<and>
   (\<forall>a \<in> set as. (ta_chain_id a, ta_token_address a) \<notin> seen)"
proof (induction as arbitrary: seen)
  case (Cons a as)
  let ?key = "(ta_chain_id a, ta_token_address a)"
  have "?key \<notin> seen" "reject_duplicates C (insert ?key seen) as = Inr u"
    using Cons.prems by (simp_all add: Let_def split: if_splits)
  with Cons.IH [OF this(2)] show ?case by (auto simp: image_iff)
qed simp

lemma reject_existing_fresh:
  "reject_existing nws as = Inr u \<Longrightarrow> a \<in> set as \<Longrightarrow> map_of nws (ta_chain_id a) = Some nw \<Longrightarrow>
   \<not> has_token nw (ta_token_address a)"
  by (induction as) (auto split: option.splits if_splits)

lemma apply_additions_tokens:
  assumes "apply_additions nws as = Inr nws'" and "tokens_ok nws"
    and "distinct (map (\<lambda>a. (ta_chain_id a, ta_token_address a)) as)"
    and "\<And>a nw. a \<in> set as \<Longrightarrow> map_of nws (ta_chain_id a) = Some nw \<Longrightarrow> \<not> has_token nw (ta_token_address a)"
  shows "tokens_ok nws'"
  using assms
proof (induction as arbitrary: nws)
  case (Cons a as)
  obtain nw where nw: "map_of nws (ta_chain_id a) = Some nw"
    and rest: "apply_additions (AList.update (ta_chain_id a) (nw\<lparr>on_tokens := on_tokens nw @ [added_token a]\<rparr>) nws) as = Inr nws'"
    using Cons.prems(1) by (auto split: option.splits)
  let ?nws = "AList.update (ta_chain_id a) (nw\<lparr>on_tokens := on_tokens nw @ [added_token a]\<rparr>) nws"
  have new: "\<not> has_token nw (ta_token_address a)" using Cons.prems(4) [OF _ nw] by simp
  have "tokens_ok ?nws"
    using Cons.prems(2) nw new unfolding tokens_ok_def
    by (auto simp: update_conv' has_token_def list_ex_iff added_token_def)
  moreover have "distinct (map (\<lambda>a. (ta_chain_id a, ta_token_address a)) as)" using Cons.prems(3) by simp
  moreover have "\<not> has_token nw' (ta_token_address b)"
    if b: "b \<in> set as" "map_of ?nws (ta_chain_id b) = Some nw'" for b nw'
  proof (cases "ta_chain_id b = ta_chain_id a")
    case True
    then have "ta_token_address b \<noteq> ta_token_address a" using Cons.prems(3) b(1) by (auto simp: rev_image_eqI)
    moreover have "\<not> has_token nw (ta_token_address b)" using Cons.prems(4) [of b nw] b(1) nw True by simp
    ultimately show ?thesis using b(2) True by (auto simp: update_conv' has_token_def added_token_def)
  next
    case False
    then show ?thesis using Cons.prems(4) [of b nw'] b by (simp add: update_conv')
  qed
  ultimately show ?case using Cons.IH [OF rest] by blast
qed simp

lemma token_additions_ok:
  assumes "validate_and_apply_token_additions C config additions = Inr config'" and "config_ok config"
  shows "config_ok config'"
proof -
  from assms(1) obtain u u' nws where 1: "reject_duplicates C {} additions = Inr u"
    and 2: "reject_existing (oc_networks config) additions = Inr u'"
    and 3: "apply_additions (oc_networks config) additions = Inr nws" and c: "config' = config\<lparr>oc_networks := nws\<rparr>"
    by (auto simp: validate_and_apply_token_additions_def split: sum.splits)
  have "tokens_ok nws"
  proof (rule apply_additions_tokens [OF 3])
    show "tokens_ok (oc_networks config)" using assms(2) by (simp add: config_ok_def)
    show "distinct (map (\<lambda>a. (ta_chain_id a, ta_token_address a)) additions)"
      using reject_duplicates_distinct [OF 1] by blast
  qed (rule reject_existing_fresh [OF 2])
  then show ?thesis using assms(2) by (simp add: c config_ok_def)
qed

section \<open>What the token manager sends\<close>

lemma delivering_tracks:
  assumes "endures sc J" and "P (Sent tx tr)"
  shows "keeps_to (stays J) P (delivering sc E tx tr)"
  unfolding delivering_def
  by (rule tracks_and_then [OF tracks_simple(6)]) (simp_all add: assms(2) tracks_awaits(2) [where J = J, OF assms(1)])

lemma tracks_pointwise: "(\<And>w. \<exists>m'. m w = m' w \<and> tracks I P Q m') \<Longrightarrow> tracks I P Q m"
  unfolding tracks_def by metis

lemma submit_approval_tracks:
  fixes sc :: "'s shared sched"
  assumes "endures sc J" and "\<And>tr. P (Sent (erc20_call chain token APPROVE_SELECTOR spender amount) tr)"
  shows "keeps_to (stays J) P (submit_approval sc E chain token spender amount)"
proof (rule tracks_pointwise)
  fix w :: "'s shared world"
  let ?tr = "tracking_for_system_tx E (system_scope E ''approval'' chain token spender w) Approval"
  show "\<exists>m'. submit_approval sc E chain token spender amount w = m' w \<and> keeps_to (stays J) P m'"
    using delivering_tracks [OF assms(1), of P "erc20_call chain token APPROVE_SELECTOR spender amount" ?tr E] assms(2)
      tracks_simple(2) [of "stays J" P "\<lambda>_. True" NativeApprovalUnsupported]
    by (cases "is_native_address token") (auto simp: submit_approval_def)
qed

lemma asking_address_tracks: "endures sc J \<Longrightarrow> keeps_to (stays J) P (asking_address sc E)"
  unfolding asking_address_def by (rule tracks_awaits(2))

lemma ensure_token_approval_tracks:
  assumes rely: "endures sc J"
    and sent: "\<And>tr s nw. J s \<Longrightarrow> map_of (sh_networks s) chain = Some nw \<Longrightarrow> nw_kind nw = EvmNetwork \<Longrightarrow>
      P (Sent (erc20_call chain token APPROVE_SELECTOR spender amount) tr)"
  shows "keeps_to (stays J) P (ensure_token_approval sc E chain token spender amount)"
  unfolding ensure_token_approval_def
proof (rule tracks_and_then [OF tracks_awaits(1) [where J = J, OF rely]], elim exE conjE)
  fix nws s assume s: "J s" "nws = sh_networks s"
  show "keeps_to (stays J) P (case map_of nws chain of None \<Rightarrow> err (NetworkNotConfigured chain)
     | Some nw \<Rightarrow>
         if nw_kind nw \<noteq> EvmNetwork then ok False else if is_native_address token then ok False
         else and_then (asking_address sc E) (\<lambda>solver.
             and_then (asking sc TokenDeliveryError
                 (\<lambda>n. ce_allowance E n chain (hex_0x E solver) (hex_0x E spender) (hex_0x E token))) (\<lambda>current.
               case ce_u256 E current of
                 Inl e \<Rightarrow> err (TokenParseError (''Invalid allowance value '' @ [CHR 0x27] @ current @ [CHR 0x27] @ '': '' @ e))
               | Inr n \<Rightarrow>
                   if n \<noteq> amount then and_then (submit_approval sc E chain token spender amount) (\<lambda>_. ok True) else ok False)))"
    using sent [OF s(1)] s(2)
    by (auto split: option.splits sum.splits intro!: tracks_simple
        tracks_and_then [OF asking_address_tracks [where J = J, OF rely]] tracks_and_then [OF tracks_awaits(2) [where J = J, OF rely]]
        tracks_and_then [OF submit_approval_tracks [where J = J, OF rely]])
qed

lemma check_balance_any_tracks:
  assumes "endures sc J"
  shows "keeps_to (stays J) P (check_balance_any sc E chain token)"
  unfolding check_balance_any_def check_balance_def
  by (auto intro!: tracks_and_then [OF asking_address_tracks [where J = J, OF assms]] tracks_awaits(2) [where J = J, OF assms])

lemma withdraw_token_tracks:
  fixes sc :: "'s shared sched"
  assumes "endures sc J"
    and "\<And>tr. P (Sent (if is_native_address token then native_transfer chain recipient amount
      else erc20_call chain token TRANSFER_SELECTOR recipient amount) tr)"
  shows "keeps_to (stays J) P (withdraw_token sc E chain token recipient amount)"
proof (rule tracks_pointwise)
  fix w :: "'s shared world"
  show "\<exists>m'. withdraw_token sc E chain token recipient amount w = m' w \<and> keeps_to (stays J) P m'"
    unfolding withdraw_token_def using delivering_tracks [OF assms(1)] assms(2) by blast
qed

section \<open>Every request keeps the configuration sound\<close>

lemma sent_ok [simp]: "effect_ok (Sent tx tr)"
  by simp

lemma new_token_approvals_sound:
  assumes "sound_env K"
  shows "keeps_to (stays (stored_ok K)) effect_ok (ensure_new_token_approvals K chain token nw)"
  unfolding ensure_new_token_approvals_def
  by (intro tracks_counting ensure_token_approval_tracks [where J = "stored_ok K", OF sound_envD [OF assms]]) simp

lemma sync_approvals_sound:
  assumes "sound_env K"
  shows "keeps_to (stays (stored_ok K)) effect_ok (sync_approvals_for_added_tokens K additions nws)"
  unfolding sync_approvals_for_added_tokens_def sync_addition_def
  by (intro tracks_and_then [OF tracks_collecting])
    (auto split: option.splits intro!: tracks_simple tracks_and_then [OF tracks_catching [OF new_token_approvals_sound [OF assms]]])

lemma process_token_additions_sound:
  assumes "sound_env K"
  shows "keeps_to (stays (stored_ok K)) effect_ok (process_token_additions K additions)"
  unfolding process_token_additions_def
proof (intro tracks_and_then [OF loading_sound [OF assms]] tracks_and_then [OF tracks_simple(4)]
    tracks_and_then [OF reload_sound(4) [OF assms]] tracks_and_then [OF sync_approvals_sound [OF assms]])
  fix v :: "operator_config versioned" and config and r :: "((token_addition \<times> string) list, nat) result"
  assume "config_ok (vd_data v)" "validate_and_apply_token_additions (ae_crypto K) (vd_data v) additions = Inr config"
  then have "config_ok config" by (rule token_additions_ok [rotated])
  then show "keeps_to (stays (stored_ok K)) effect_ok (case r of
      Inl fs \<Rightarrow> err (Internal (''Automatic approval setup failed for '' @ to_dec (length additions) @
        '' requested token(s): '' @ format_approval_failures (ae_crypto K) fs @
        ''. Token additions were not persisted. Retry via POST /api/v1/admin/tokens/approve''))
    | Inr n \<Rightarrow> and_then (persist_and_hot_reload K config (vd_version v)) (\<lambda>p. ok (fst p, n)))"
    by (cases r) (auto intro!: tracks_simple tracks_and_then [OF persist_sound [OF assms]])
qed

lemma remove_token_sound:
  assumes "sound_env K"
  shows "keeps_to (stays (stored_ok K)) effect_ok (handle_remove_token K chain token)"
  unfolding handle_remove_token_def Let_def
proof (intro tracks_and_then [OF loading_sound [OF assms]] tracks_and_then [OF tracks_simple(3)]
    tracks_and_then [OF tracks_simple(5)] tracks_and_then [OF persist_sound [OF assms]] tracks_simple(1))
  fix v :: "operator_config versioned" and nw
  assume "config_ok (vd_data v)" and "map_of (oc_networks (vd_data v)) chain = Some nw"
  then have "tokens_ok (AList.update chain (nw\<lparr>on_tokens := filter (\<lambda>t. ot_address t \<noteq> token) (on_tokens nw)\<rparr>) (oc_networks (vd_data v)))"
    by (auto simp: config_ok_def tokens_ok_def update_conv' distinct_map_filter)
  then show "config_ok (vd_data v\<lparr>oc_networks :=
      AList.update chain (nw\<lparr>on_tokens := filter (\<lambda>t. ot_address t \<noteq> token) (on_tokens nw)\<rparr>) (oc_networks (vd_data v))\<rparr>)"
    using \<open>config_ok (vd_data v)\<close> by (simp add: config_ok_def)
qed simp

lemma withdrawal_sound:
  assumes "sound_env K"
  shows "keeps_to (stays (stored_ok K)) effect_ok (handle_withdrawal K d)"
  unfolding handle_withdrawal_def Let_def
  by (intro tracks_and_then [OF tracks_simple(4)] tracks_and_then [OF tracks_simple(5)] tracks_and_then [OF loading_sound [OF assms]]
      tracks_and_then [OF tracks_mapping_error [OF check_balance_any_tracks [where J = "stored_ok K", OF sound_envD [OF assms]]]]
      tracks_mapping_error [OF withdraw_token_tracks [where J = "stored_ok K", OF sound_envD [OF assms]]]) simp

lemma approve_tokens_sound:
  assumes "sound_env K"
  shows "keeps_to (stays (stored_ok K)) effect_ok (handle_approve_tokens K d)"
  unfolding handle_approve_tokens_def ensure_approvals_for_spender_scope_def Let_def
  by (intro tracks_and_then [OF tracks_simple(4)] tracks_and_then [OF tracks_simple(5)]
      tracks_and_then [OF tracks_awaits(1) [where J = "stored_ok K", OF sound_envD [OF assms]]]
      tracks_mapping_error tracks_and_then [OF tracks_counting])
    (auto intro!: ensure_token_approval_tracks [where J = "stored_ok K", OF sound_envD [OF assms]] tracks_simple(1))

lemma update_pair_ok:
  "list_all (\<lambda>p. op_deviation_band_bps p \<le> 10000) ps \<Longrightarrow> tc_deviation_band_bps d \<le> 10000 \<Longrightarrow>
   list_all (\<lambda>p. op_deviation_band_bps p \<le> 10000) (update_pair d ps)"
  by (induction ps) auto

lemma rebalance_config_sound:
  assumes "sound_env K"
  shows "keeps_to (stays (stored_ok K)) effect_ok (handle_update_rebalance_config K en cooldown pending)"
  unfolding handle_update_rebalance_config_def load_rebalance_def
proof (rule tracks_and_then [OF loading_sound [OF assms]])
  fix v :: "operator_config versioned" assume v: "config_ok (vd_data v)"
  show "keeps_to (stays (stored_ok K)) effect_ok (case oc_rebalance (vd_data v) of
      None \<Rightarrow> err (InvalidMessage ''Rebalance not configured. Add rebalance section to bootstrap config first.'')
    | Some reb \<Rightarrow> and_then (guarding (pending > U32_MAX) (InvalidMessage ''max_pending_transfers out of range'')) (\<lambda>_.
        store_rebalance K ((vd_data v)\<lparr>oc_rebalance := Some (reb\<lparr>or_enabled := en, or_cooldown_seconds := cooldown,
          or_max_pending_transfers := pending\<rparr>)\<rparr>) (vd_version v)))"
    using v by (auto split: option.splits simp: config_ok_def rebalance_ok_def intro!: tracks_simple(2)
        tracks_and_then [OF tracks_simple(5)] store_rebalance_sound [OF assms])
qed

lemma rebalance_threshold_sound:
  assumes "sound_env K"
  shows "keeps_to (stays (stored_ok K)) effect_ok (handle_update_rebalance_threshold K d)"
  unfolding handle_update_rebalance_threshold_def load_rebalance_def
  by (intro tracks_and_then [OF loading_sound [OF assms]] tracks_and_then [OF tracks_simple(3)]
      tracks_and_then [OF tracks_simple(5)] store_rebalance_sound [OF assms])
    (auto simp: config_ok_def rebalance_ok_def update_pair_ok)

text \<open>Verification touches nothing but the nonces.\<close>

lemma verify_keeps:
  assumes rely: "endures sc J" and other: "\<And>s n. J (s\<lparr>sh_nonces := n\<rparr>) = J s" and w: "J (w_store w)"
  shows "J (w_store (snd (verify C (over_cell sh_nonces (\<lambda>c s. s\<lparr>sh_nonces := c\<rparr>) B) sc V now a sig w)))"
proof -
  let ?B = "over_cell sh_nonces (\<lambda>c s. s\<lparr>sh_nonces := c\<rparr>) B"
  have 1: "J (w_store (resume sc v))" if "J (w_store v)" for v by (rule endures_resume [OF rely that])
  have c: "J (w_store (snd (verify_consume ?B sc V a signer v)))" if "J (w_store v)" for signer v
    using 1 [OF that]
    by (auto simp: verify_consume_def consume_def call_write_def over_cell_def Let_def other apsnd_eq_conv
        split: prod.splits sum.splits if_splits)
  have "J (w_store (snd (verify_check C ?B sc V now a sig w)))"
    using w 1 [OF w] by (auto simp: verify_check_def nonce_exists_def call_read_def Let_def split: prod.splits sum.splits)
  then show ?thesis using c by (auto simp: verify_def split: prod.splits sum.splits)
qed

lemma verified_admin_tracks:
  assumes rely: "endures (ae_sched K) J" and other: "\<And>s n. J (s\<lparr>sh_nonces := n\<rparr>) = J s"
  shows "keeps_to (stays J) P (verified_admin K a sig)"
  unfolding verified_admin_def
proof (rule tracks_and_then [OF tracks_awaits(1) [where J = J, OF rely]])
  fix V
  show "keeps_to (stays J) P (\<lambda>w. call id (verify (ae_crypto K) (nonce_cell K) (ae_sched K) V (ae_timestamp K (w_tick w)) a sig) w)"
  proof (rule tracksI)
    fix w r w1 and evs :: "operator_config admin_effect list"
    assume w: "J (w_store w)"
      and run: "call id (verify (ae_crypto K) (nonce_cell K) (ae_sched K) V (ae_timestamp K (w_tick w)) a sig) w = (evs, r, w1)"
    have "evs = []" and "w1 = snd (verify (ae_crypto K) (nonce_cell K) (ae_sched K) V (ae_timestamp K (w_tick w)) a sig w)"
      using run by (auto simp: call_def split: prod.splits sum.splits)
    then show "list_all P evs \<and> J (w_store w1) \<and> (\<forall>a. r = Inr a \<longrightarrow> True)"
      using verify_keeps [where J = J, OF rely other w] by simp
  qed
qed

lemma request_sound:
  assumes "sound_env K" and "\<not> is_bridge_request (aa_contents a)"
  shows "keeps_to (stays (stored_ok K)) effect_ok (handle_request K a sig)"
proof -
  note sound = set_admin_role_sound remove_admin_sound update_gas_sound update_fees_sound remove_token_sound
    rebalance_config_sound rebalance_threshold_sound withdrawal_sound approve_tokens_sound process_token_additions_sound
  have "keeps_to (stays (stored_ok K)) effect_ok (handle_contents K (aa_contents a))"
    using assms(2)
    by (cases "aa_contents a")
      (auto simp: is_bridge_request_def discarding_def handle_add_token_def handle_add_tokens_def
        intro!: sound [OF assms(1)] tracks_and_then [OF tracks_simple(5)] tracks_simple(1)
          tracks_and_then [OF withdrawal_sound [OF assms(1)]] tracks_and_then [OF approve_tokens_sound [OF assms(1)]]
          tracks_and_then [OF process_token_additions_sound [OF assms(1)]])
  then show ?thesis unfolding handle_request_def
    by (intro tracks_and_then [OF verified_admin_tracks [where J = "stored_ok K", OF sound_envD [OF assms(1)]]]) simp_all
qed

text \<open>
  Without a verified signature nothing happens beyond the nonce store.  The verifier and the clock are those the
  request finds when it is looked at.
\<close>

definition signed_by :: "('s, 'b, 'g) admin_env \<Rightarrow> 's shared world \<Rightarrow> admin_action \<Rightarrow> bytes \<Rightarrow> bytes \<Rightarrow> bool" where
  "signed_by K w a sig admin \<longleftrightarrow>
     (let w1 = resume (ae_sched K) w; V = sh_verifier (w_store w1)
      in ae_timestamp K (w_tick w1) \<le> aa_deadline a \<and> is_admin (av_admin_config V) admin \<and>
         (\<exists>hash. message_hash (ae_crypto K) (av_chain_id V) (av_domain_salt V) a = Inr hash \<and>
            recover_from_hash (ae_crypto K) hash sig = Inr admin))"

lemma verify_signed:
  assumes "verify C B sc V now a sig w = (Inr admin, w1)"
  shows "now \<le> aa_deadline a" and "is_admin (av_admin_config V) admin"
    and "\<exists>hash. message_hash C (av_chain_id V) (av_domain_salt V) a = Inr hash \<and> recover_from_hash C hash sig = Inr admin"
  using assms
  by (auto simp: verify_def verify_check_def verify_consume_def admin_signer_def Let_def split: prod.splits sum.splits if_splits)

lemma request_needs_admin:
  assumes "handle_request K a sig w = (evs, r, w')" and "evs \<noteq> [] \<or> r = Inr u"
  obtains admin w1 where "verified_admin K a sig w = ([], Inr admin, w1)" and "signed_by K w a sig admin"
    and "handle_contents K (aa_contents a) w1 = (evs, r, w')"
proof -
  let ?w0 = "resume (ae_sched K) w"
  obtain r0 w1 where v: "verify (ae_crypto K) (nonce_cell K) (ae_sched K) (sh_verifier (w_store ?w0)) (ae_timestamp K (w_tick ?w0)) a sig ?w0 = (r0, w1)"
    by (cases "verify (ae_crypto K) (nonce_cell K) (ae_sched K) (sh_verifier (w_store ?w0)) (ae_timestamp K (w_tick ?w0)) a sig ?w0")
  then have va: "verified_admin K a sig w = ([], r0, w1)"
    by (cases r0) (auto simp: verified_admin_def and_then_def reading_def call_def Let_def split: prod.splits)
  with assms obtain admin where r0: "r0 = Inr admin" and h: "handle_contents K (aa_contents a) w1 = (evs, r, w')"
    by (cases r0) (auto simp: handle_request_def and_then_def split: prod.splits)
  have "signed_by K w a sig admin" using verify_signed [OF v [unfolded r0]] by (simp add: signed_by_def Let_def)
  with that va h show thesis by (simp add: r0)
qed

text \<open>
  C25: Whatever an administrator asks for, other than starting a rebalancing transfer (TriggerRebalance) or
  resolving one (ResolveTransfer), the stored configuration stays sound: at least one entry of
  the whitelist is a full administrator, gas units and fee settings are within their limits, no network
  lists a token twice, and the rebalancing settings fit their types and bands.  Other users of the
  configuration may write between any two steps as long as they keep it sound too, and then every
  configuration a request stores is sound, and so is the one it leaves behind.  The handlers of the two excluded
  requests move funds through the bridge and are a parameter of the model, of which nothing is assumed or
  shown here but this: a request of any kind, those two included, without the signature of an administrator on
  exactly this action, before its deadline and as the verifier in force when it arrives sees it, stores,
  reloads and sends nothing.
\<close>

theorem admin_requests_keep_config_sound:
  assumes "handle_request K a sig w = (evs, r, w')"
  shows "(sound_env K \<and> \<not> is_bridge_request (aa_contents a) \<and> stored_ok K (w_store w) \<longrightarrow>
      stored_ok K (w_store w') \<and> (\<forall>v. ConfigStored v \<in> set evs \<longrightarrow> config_ok (vd_data v))) \<and>
    (evs \<noteq> [] \<longrightarrow> (\<exists>admin. signed_by K w a sig admin))"
proof (intro conjI impI)
  assume "sound_env K \<and> \<not> is_bridge_request (aa_contents a) \<and> stored_ok K (w_store w)"
  then have "list_all effect_ok evs \<and> stored_ok K (w_store w')"
    using tracksD [OF request_sound, of K a w sig evs r w'] assms by blast
  then show "stored_ok K (w_store w')" "\<forall>v. ConfigStored v \<in> set evs \<longrightarrow> config_ok (vd_data v)"
    by (auto simp: list_all_iff)
qed (use request_needs_admin [OF assms] in blast)

section \<open>Withdrawals\<close>

text \<open>When something is emitted, every silent step before it succeeded.\<close>

definition upheld :: "('v list \<Rightarrow> bool) \<Rightarrow> ('w, 'v, 'x, 'a) run \<Rightarrow> 'w \<Rightarrow> bool" where
  "upheld \<Phi> m w \<longleftrightarrow> (fst (m w) \<noteq> [] \<longrightarrow> \<Phi> (fst (m w)))"

lemma upheld_and_then:
  assumes "\<And>b w1. m w = ([], Inr b, w1) \<Longrightarrow> upheld \<Phi> (k b) w1" and "fst (m w) = []"
  shows "upheld \<Phi> (and_then m k) w"
proof -
  obtain r0 w0 where m: "m w = ([], r0, w0)" using assms(2) by (cases "m w") simp
  show ?thesis using assms(1) m by (cases r0) (auto simp: and_then_def upheld_def split: prod.splits)
qed

lemma silent_simps [simp]:
  "fst (lift_result f q w) = []" "fst (guarding b e w) = []" "fst (call f m w) = []"
  "fst (reading sc rd w) = []" "fst (asking sc f ans w) = []"
  by (simp_all add: lift_result_def guarding_def err_def ok_def call_def reading_def asking_def Let_def
      split: sum.splits prod.splits)

lemma silent_and_then: "fst (m w) = [] \<Longrightarrow> (\<And>b v. fst (k b v) = []) \<Longrightarrow> fst (and_then m k w) = []"
  by (auto simp: and_then_def split: prod.splits sum.splits) (metis fst_conv)

lemma silent_balance: "fst (check_balance_any sc E chain token w) = []"
  unfolding check_balance_any_def check_balance_def asking_address_def by (auto intro: silent_and_then)

lemma fst_mapping_error [simp]: "fst (mapping_error f m w) = fst (m w)"
  by (simp add: mapping_error_def split: prod.splits)

lemma passed_simps [simp]:
  "lift_result f q w = ([], Inr b, w1) \<longleftrightarrow> q = Inr b \<and> w1 = w"
  "guarding c e w = ([], Inr u, w1) \<longleftrightarrow> \<not> c \<and> w1 = w"
  "call g n w = ([], Inr b, w1) \<longleftrightarrow> n w = (Inr b, w1)"
  "mapping_error h m w = (evs, Inr b, w1) \<longleftrightarrow> m w = (evs, Inr b, w1)"
  by (auto simp: lift_result_def guarding_def err_def ok_def call_def mapping_error_def split: sum.splits prod.splits)
    (metis Inl_Inr_False Inr_inject id_apply map_sum.simps old.sum.exhaust)+

text \<open>
  What a withdrawal that starts in \<open>w\<close> is backed by: the configuration it reads there, and the balance it reads after it.
\<close>

definition withdrawal_backed ::
  "('s, 'b, 'g) admin_env \<Rightarrow> 's shared world \<Rightarrow> withdraw_contents \<Rightarrow> evm_transaction \<Rightarrow> bool" where
  "withdrawal_backed K w d tx \<longleftrightarrow> (\<exists>amount v w1 bal w2 balance.
     cr_u256 (ae_crypto K) (wd_amount d) = Inr amount \<and> 0 < amount \<and> wd_recipient d \<noteq> ZERO_ADDRESS \<and>
     config_get (config_cell K) (ae_codec K) (ae_sched K) (ae_store K) w = (Inr v, w1) \<and>
     wc_enabled (oa_withdrawals (oc_admin (vd_data v))) \<and>
     recipient_allowed (oa_withdrawals (oc_admin (vd_data v))) (wd_recipient d) \<and>
     check_balance_any (ae_sched K) (ae_chain K) (wd_chain_id d) (wd_token d) w1
       = ([] :: operator_config admin_effect list, Inr bal, w2) \<and>
     cr_u256 (ae_crypto K) bal = Inr balance \<and> amount \<le> balance \<and>
     tx = (if is_native_address (wd_token d) then native_transfer (wd_chain_id d) (wd_recipient d) amount
           else erc20_call (wd_chain_id d) (wd_token d) TRANSFER_SELECTOR (wd_recipient d) amount))"

lemma withdraw_to_eip712_amount:
  "withdraw_to_eip712 C d = Inr sol \<Longrightarrow>
   \<exists>n. cr_u256 C (wd_amount d) = Inr n \<and> sol = SolWithdraw (wd_chain_id d) (wd_token d) n (wd_recipient d)"
  by (auto simp: withdraw_to_eip712_def parse_amount_def split: if_splits sum.splits)

lemma withdraw_token_sends:
  "fst (withdraw_token sc E chain token recipient amount w) =
     [Sent (if is_native_address token then native_transfer chain recipient amount
            else erc20_call chain token TRANSFER_SELECTOR recipient amount)
        (tracking_for_system_tx E (system_scope E ''withdrawal'' chain token recipient w) Withdrawal)]"
  by (simp add: withdraw_token_def delivering_def and_then_def publish_def asking_def Let_def split: sum.splits)

lemma withdrawal_effects: "upheld (\<lambda>evs. \<exists>tx tr. evs = [Sent tx tr] \<and> withdrawal_backed K w d tx) (handle_withdrawal K d) w"
  unfolding handle_withdrawal_def Let_def
  apply ((rule upheld_and_then)+)
  subgoal premises prems for sol w0 u1 w1 u2 w2 v w3 u3 w4 u4 w5 bal w6 balance w7 u5 w8
  proof -
    from prems(1) obtain amount where amount: "cr_u256 (ae_crypto K) (wd_amount d) = Inr amount"
      and sol: "sol = SolWithdraw (wd_chain_id d) (wd_token d) amount (wd_recipient d)"
      using withdraw_to_eip712_amount [of "ae_crypto K" d sol] by auto
    have "withdrawal_backed K w d (if is_native_address (wd_token d) then native_transfer (wd_chain_id d) (wd_recipient d) amount
        else erc20_call (wd_chain_id d) (wd_token d) TRANSFER_SELECTOR (wd_recipient d) amount)"
      unfolding withdrawal_backed_def using prems amount
      by (intro exI [of _ amount] exI [of _ v] exI [of _ w3] exI [of _ bal] exI [of _ w6] exI [of _ balance])
        (auto simp: sol loading_or_def)
    then show ?thesis by (auto simp: upheld_def withdraw_token_sends sol)
  qed
  by (auto simp: loading_or_def silent_balance)

lemma fst_discarding [simp]: "fst (discarding m w) = fst (m w)"
  by (simp add: discarding_def and_then_def ok_def split: prod.splits sum.splits)

text \<open>
  C24: Money leaves by a withdrawal only as the policy allows.  When a withdrawal request sends a transaction, the
  request carried the signature of an administrator, on this action and before its deadline; the configuration read after that had withdrawals
  enabled and allowed the recipient, who is not the zero address; the amount is positive and at
  most the balance that was read; and the one transaction that is sent transfers exactly this amount of this
  token to this recipient on this chain.  Nothing is assumed of the other tasks.
\<close>

theorem withdrawals_follow_policy:
  assumes "handle_request K a sig w = (evs, r, w')" and "aa_contents a = Withdraw d" and "Sent tx tr \<in> set evs"
  shows "evs = [Sent tx tr] \<and>
    (\<exists>admin w1. verified_admin K a sig w = ([], Inr admin, w1) \<and> signed_by K w a sig admin \<and> withdrawal_backed K w1 d tx)"
proof -
  have "evs \<noteq> []" using assms(3) by auto
  with assms(1) obtain admin w1 where v: "verified_admin K a sig w = ([], Inr admin, w1)" "signed_by K w a sig admin"
    and h: "handle_contents K (aa_contents a) w1 = (evs, r, w')" by (metis request_needs_admin)
  have "fst (handle_withdrawal K d w1) = evs" using h by (metis assms(2) fst_conv fst_discarding handle_contents.simps(6))
  then have "evs = [Sent tx tr] \<and> withdrawal_backed K w1 d tx"
    using withdrawal_effects [of K w1 d] assms(3) by (auto simp: upheld_def)
  with v show ?thesis by blast
qed

section \<open>Approvals\<close>

text \<open>An approval that the request may send: on a chain in its scope, of a token in its scope, to a settler of the chain.\<close>

definition approval_allowed :: "'g crypto \<Rightarrow> networks \<Rightarrow> approve_contents \<Rightarrow> evm_transaction \<Rightarrow> bool" where
  "approval_allowed C nws d tx \<longleftrightarrow> (\<exists>chain token nw amount.
     map_of nws chain = Some nw \<and> nw_kind nw = EvmNetwork \<and> (ap_chain_id d = 0 \<or> chain = ap_chain_id d) \<and>
     token \<in> tk_address ` set (nw_tokens nw) \<and> (ap_token_address d = ZERO_ADDRESS \<or> token = ap_token_address d) \<and>
     ap_spender d \<in> {nw_input_settler_address nw, nw_output_settler_address nw} \<and> ap_spender d \<noteq> ZERO_ADDRESS \<and>
     cr_u256 C (ap_amount d) = Inr amount \<and> tx = erc20_call chain token APPROVE_SELECTOR (ap_spender d) amount)"

fun approvals_within :: "'g crypto \<Rightarrow> networks \<Rightarrow> approve_contents \<Rightarrow> 'c admin_effect \<Rightarrow> bool" where
  "approvals_within C nws d (Sent tx tr) = approval_allowed C nws d tx"
| "approvals_within C nws d _ = False"

lemma settlers_map_of: "map_of (configured_settlers_by_chain nws) c = map_option chain_settlers (map_of nws c)"
  by (induction nws) (auto simp: configured_settlers_by_chain_def)

lemma authorized_target:
  assumes "distinct (map fst nws)" and "spender_authorized d (configured_settlers_by_chain nws)"
    and "(c, t) \<in> set (approval_targets (if is_all_chains d then None else Some (ap_chain_id d))
      (if is_all_tokens d then None else Some (ap_token_address d)) nws)"
  shows "(ap_chain_id d = 0 \<or> c = ap_chain_id d) \<and> (ap_token_address d = ZERO_ADDRESS \<or> t = ap_token_address d) \<and>
    (\<exists>nw. map_of nws c = Some nw \<and> t \<in> tk_address ` set (nw_tokens nw) \<and> ap_spender d \<in> chain_settlers nw)"
proof -
  from assms(3) obtain nw tk where nw: "(c, nw) \<in> set nws" "tk \<in> set (nw_tokens nw)" "tk_address tk = t" and scope: "is_all_chains d \<or> c = ap_chain_id d"
    and token: "is_all_tokens d \<or> t = ap_token_address d"
    by (auto simp: approval_targets_def chains_in_scope_def in_scope_def split: if_splits)
  have "c \<in> set (affected_chains d (configured_settlers_by_chain nws))"
    using nw(1) scope by (force simp: affected_chains_def configured_settlers_by_chain_def)
  with assms(2) have "case map_of (configured_settlers_by_chain nws) c of None \<Rightarrow> False | Some S \<Rightarrow> ap_spender d \<in> S"
    by (auto simp: spender_authorized_def list_all_iff)
  then show ?thesis using scope token nw(2,3) map_of_is_SomeI [OF assms(1) nw(1)]
    by (auto simp: settlers_map_of is_all_chains_def is_all_tokens_def split: option.splits)
qed

lemma approve_to_eip712_amount:
  "approve_to_eip712 C d = Inr sol \<Longrightarrow>
   \<exists>n. cr_u256 C (ap_amount d) = Inr n \<and> sol = SolApproveTokens (ap_chain_id d) (ap_token_address d) (ap_spender d) n"
  by (auto simp: approve_to_eip712_def parse_amount_def split: if_splits sum.splits)

lemma approve_tokens_tracks:
  assumes rely: "endures (ae_sched K) (\<lambda>s. sh_networks s = nws)" and keys: "distinct (map fst nws)"
  shows "keeps_to (stays (\<lambda>s. sh_networks s = nws)) (approvals_within (ae_crypto K) nws d) (handle_approve_tokens K d)"
  unfolding handle_approve_tokens_def ensure_approvals_for_spender_scope_def Let_def
proof (intro tracks_and_then [OF tracks_simple(4)] tracks_and_then [OF tracks_simple(5)] tracks_mapping_error
    tracks_and_then [OF tracks_awaits(1) [where J = "\<lambda>s. sh_networks s = nws", OF rely]]
    tracks_and_then [OF tracks_counting] tracks_simple(1))
  fix sol nws1 nws2 x
  assume sol: "approve_to_eip712 (ae_crypto K) d = Inr sol"
    and nws: "\<exists>s. sh_networks s = nws \<and> nws1 = sh_networks s" "\<exists>s. sh_networks s = nws \<and> nws2 = sh_networks s"
    and auth: "\<not> \<not> spender_authorized d (configured_settlers_by_chain nws1)"
    and x: "x \<in> set (approval_targets (if is_all_chains d then None else Some (ap_chain_id d))
      (if is_all_tokens d then None else Some (ap_token_address d)) nws2)"
  obtain c t where ct: "x = (c, t)" by (cases x)
  obtain amount where amount: "cr_u256 (ae_crypto K) (ap_amount d) = Inr amount"
    and sol': "sol = SolApproveTokens (ap_chain_id d) (ap_token_address d) (ap_spender d) amount"
    using approve_to_eip712_amount [OF sol] by blast
  have target: "(ap_chain_id d = 0 \<or> c = ap_chain_id d) \<and> (ap_token_address d = ZERO_ADDRESS \<or> t = ap_token_address d) \<and>
    (\<exists>nw. map_of nws c = Some nw \<and> t \<in> tk_address ` set (nw_tokens nw) \<and> ap_spender d \<in> chain_settlers nw)"
    using authorized_target [of nws d c t] keys auth nws x by (auto simp: ct)
  show "keeps_to (stays (\<lambda>s. sh_networks s = nws)) (approvals_within (ae_crypto K) nws d)
    (case x of (c, t) \<Rightarrow> ensure_token_approval (ae_sched K) (ae_chain K) c t (ap_spender d)
       (case sol of SolApproveTokens _ _ _ n \<Rightarrow> n | _ \<Rightarrow> 0))"
    unfolding ct prod.case sol' sol_contents.case
  proof (rule ensure_token_approval_tracks [where J = "\<lambda>s. sh_networks s = nws", OF rely])
    fix tr s nw
    assume s: "sh_networks s = nws" "map_of (sh_networks s) c = Some nw" "nw_kind nw = EvmNetwork"
    then have "ap_spender d \<in> chain_settlers nw" using target by auto
    then show "approvals_within (ae_crypto K) nws d (Sent (erc20_call c t APPROVE_SELECTOR (ap_spender d) amount) tr)"
      unfolding approvals_within.simps approval_allowed_def using s target amount
      by (intro exI [of _ c] exI [of _ t] exI [of _ nw] exI [of _ amount]) (auto simp: chain_settlers_def)
  qed
qed simp

text \<open>
  C26: An approval request hands out allowances to settlers only.  While the networks of the token manager
  stay as they are, every transaction such a request sends approves the requested amount to a spender who
  is a configured, non-zero settler of that very chain, on an EVM chain and for a configured token of that
  chain within the scope of the request.
\<close>

theorem approvals_only_to_settlers:
  assumes "endures (ae_sched K) (\<lambda>s. sh_networks s = nws)" and "distinct (map fst nws)" and "sh_networks (w_store w) = nws"
    and "handle_request K a sig w = (evs, r, w')" and "aa_contents a = ApproveTokens d"
    and "Sent tx tr \<in> set evs"
  shows "approval_allowed (ae_crypto K) nws d tx"
proof -
  have "keeps_to (stays (\<lambda>s. sh_networks s = nws)) (approvals_within (ae_crypto K) nws d) (handle_request K a sig)"
    unfolding handle_request_def assms(5) handle_contents.simps discarding_def
    by (intro tracks_and_then [OF verified_admin_tracks [where J = "\<lambda>s. sh_networks s = nws", OF assms(1)]]
        tracks_and_then [OF approve_tokens_tracks [OF assms(1,2)]] tracks_simple(1)) simp_all
  from tracksD [OF this assms(3,4)] assms(6) show ?thesis by (auto simp: list_all_iff)
qed

section \<open>A concrete service\<close>

definition demo_chain :: chain_env where
  "demo_chain = \<lparr>ce_address = (\<lambda>_. Inr [9]), ce_balance = (\<lambda>_ _ _ _. Inr ''1''), ce_allowance = (\<lambda>_ _ _ _ _. Inr ''0''),
     ce_deliver = (\<lambda>_ _. Inr [7]), ce_hex = (\<lambda>_. []), ce_uuid = (\<lambda>_. []), ce_u256 = (\<lambda>_. Inr 0),
     ce_starknet_identity = None, ce_records_attempts = False\<rparr>"

definition demo_network :: "bytes \<Rightarrow> network_config" where
  "demo_network settler = \<lparr>nw_kind = EvmNetwork, nw_input_settler_address = settler, nw_output_settler_address = settler,
     nw_tokens = [\<lparr>tk_address = [8], tk_symbol = ''T'', tk_name = None, tk_decimals = 6\<rparr>], nw_rest = JNull\<rparr>"

definition demo_runtime :: runtime_config where
  "demo_runtime = \<lparr>rt_networks = [(1, demo_network [5])],
     rt_fees = \<lparr>rf_min_profitability_pct = ''1'', rf_gas_buffer_bps = 0, rf_settlement_fee_buffer_bps = 0,
       rf_commission_bps = 0, rf_rate_buffer_bps = 0, rf_monitoring_timeout_seconds = 60\<rparr>, rt_rest = JNull\<rparr>"

definition demo_flow :: gas_flow where
  "demo_flow = \<lparr>gf_open = 1, gf_fill = 1, gf_post_fill = 1, gf_pre_claim = 1, gf_claim = 1\<rparr>"

definition demo_operator :: operator_config where
  "demo_operator = \<lparr>oc_solver_id = ''s'', oc_solver_name = None, oc_networks = [],
     oc_gas = \<lparr>og_resource_lock = demo_flow, og_permit2_escrow = demo_flow, og_eip3009_escrow = demo_flow,
       og_live_fill_estimate_enabled = False, og_live_post_fill_estimate_chain_ids = {}\<rparr>,
     oc_solver = \<lparr>os_min_profitability_pct = ''1'', os_gas_buffer_bps = 0, os_settlement_fee_buffer_bps = 0, os_commission_bps = 0,
       os_rate_buffer_bps = 14, os_monitoring_timeout_seconds = 60, os_deny_list = None, os_resource_lock_enabled = False\<rparr>,
     oc_admin = \<lparr>oa_enabled = True, oa_domain = [], oa_chain_id = 1, oa_nonce_ttl_seconds = 300,
       oa_whitelist = [\<lparr>we_address = [1], we_role = Admin\<rparr>],
       oa_withdrawals = \<lparr>wc_enabled = True, wc_recipient_allowlist = [[3]]\<rparr>\<rparr>,
     oc_rebalance = None, oc_rest = JNull\<rparr>"

type_synonym demo_store = "operator_config versioned memory_storage"

definition demo_service :: "demo_store shared sched \<Rightarrow> (demo_store, operator_config versioned, unit) admin_env" where
  "demo_service sc = \<lparr>ae_backend = memory_backend, ae_codec = config_codec, ae_sched = sc,
     ae_crypto = demo_crypto, ae_chain = demo_chain, ae_store = demo_config_store, ae_nonces = av_nonce_store demo_verifier,
     ae_solver_id = ''s'', ae_build = (\<lambda>_. Inr demo_runtime), ae_decimal = Some, ae_timestamp = (\<lambda>_. 50),
     ae_uuid = (\<lambda>n. n), ae_stamp = (\<lambda>_. new_versioned demo_operator 0), ae_bridge = (\<lambda>_. ok ())\<rparr>"

definition demo_shared :: "demo_store shared" where
  "demo_shared = \<lparr>sh_nonces = put_entry 0 \<lparr>ms_store = [], ms_indexes = []\<rparr> ''s:admin:nonce:7'' (new_versioned demo_operator 0) None (Some 300),
     sh_configs = put_entry 0 \<lparr>ms_store = [], ms_indexes = []\<rparr> ''config:s'' (new_versioned demo_operator 0) None None,
     sh_verifier = demo_verifier, sh_config = demo_runtime, sh_networks = rt_networks demo_runtime\<rparr>"

definition demo_start :: "demo_store shared world" where
  "demo_start = \<lparr>w_store = demo_shared, w_tick = 0\<rparr>"

definition demo_signed :: "admin_contents \<Rightarrow> admin_action" where
  "demo_signed c = \<lparr>aa_contents = c, aa_nonce = 7, aa_deadline = 100\<rparr>"

abbreviation calm :: "demo_store shared sched" where "calm \<equiv> quiet (\<lambda>_. 50)"

lemma demo_signed_signer:
  "to_eip712 demo_crypto c = Inr e \<Longrightarrow> admin_signer demo_crypto demo_verifier (demo_signed c) (replicate 65 0) = Inr [1]"
  by (simp add: admin_signer_def message_hash_def struct_hash_def recover_from_hash_def demo_crypto_def demo_verifier_def
      new_verifier_def is_admin_def role_for_def demo_signed_def)

lemma demo_verified:
  assumes "to_eip712 demo_crypto c = Inr e"
  obtains n t where "verified_admin (demo_service calm) (demo_signed c) (replicate 65 0) demo_start =
    ([], Inr [1], \<lparr>w_store = demo_shared\<lparr>sh_nonces := n\<rparr>, w_tick = t\<rparr>)"
  using demo_signed_signer [OF assms] that
  by (simp add: verified_admin_def and_then_def reading_def call_def verify_def verify_check_def verify_consume_def nonce_exists_def
      consume_def call_read_def call_write_def over_cell_def memory_op_defs is_expired_def demo_start_def demo_service_def
      demo_signed_def demo_nonce_key demo_shared_def resume_def quiet_def w_now_def Let_def)

lemma demo_sound: "sound_env (demo_service calm)"
  by (simp add: sound_env_def demo_service_def config_codec_ok endures_def)

lemma demo_stored: "stored_ok (demo_service calm) (w_store demo_start)"
  by (auto simp: stored_ok_def demo_service_def demo_start_def demo_shared_def holds_config_def demo_config_store_def memory_live_put
      until_ttl_def config_codec_def new_versioned_def config_ok_def demo_operator_def admin_addresses_def gas_ok_def flow_ok_def
      demo_flow_def fees_ok_def tokens_ok_def rebalance_ok_def)

theorem admin_requests_keep_config_sound_witness:
  "stored_ok (demo_service calm) (w_store (snd (snd (handle_request (demo_service calm)
     (demo_signed (SetAdminRole [2] ReadOnly)) (replicate 65 0) demo_start))))"
proof -
  obtain evs r w' where run: "handle_request (demo_service calm) (demo_signed (SetAdminRole [2] ReadOnly)) (replicate 65 0) demo_start = (evs, r, w')"
    by (metis prod_cases3)
  have "\<not> is_bridge_request (aa_contents (demo_signed (SetAdminRole [2] ReadOnly)))"
    by (simp add: demo_signed_def is_bridge_request_def)
  with admin_requests_keep_config_sound [OF run] demo_sound demo_stored show ?thesis by (simp add: run)
qed

definition demo_withdrawal :: withdraw_contents where
  "demo_withdrawal = \<lparr>wd_chain_id = 1, wd_token = [8], wd_amount = ''1'', wd_recipient = [3]\<rparr>"

lemma request_effects:
  "verified_admin K a sig w = ([], Inr admin, w1) \<Longrightarrow> fst (handle_request K a sig w) = fst (handle_contents K (aa_contents a) w1)"
  by (simp add: handle_request_def and_then_def split: prod.splits)

lemma short_not_zero [simp]: "[x] \<noteq> ZERO_ADDRESS"
  by (simp add: ZERO_ADDRESS_def numeral_eq_Suc)

lemmas demo_eval = and_then_def lift_result_def guarding_def ok_def err_def parse_amount_def demo_crypto_def
  call_def call_read_def demo_service_def over_cell_def memory_op_defs is_expired_def demo_shared_def demo_config_store_def
  config_deserialize_def config_codec_def new_versioned_def demo_operator_def mapping_error_def is_native_address_def
  asking_address_def asking_def demo_chain_def delivering_def publish_def tracking_for_system_tx_def resume_def quiet_def Let_def

lemma demo_withdrawal_sends:
  "fst (handle_withdrawal (demo_service calm) demo_withdrawal \<lparr>w_store = demo_shared\<lparr>sh_nonces := n\<rparr>, w_tick = t\<rparr>) =
     [Sent (erc20_call 1 [8] TRANSFER_SELECTOR [3] 1) None]"
  by (simp add: handle_withdrawal_def withdraw_to_eip712_def demo_withdrawal_def loading_or_def config_get_def recipient_allowed_def
      check_balance_any_def check_balance_def withdraw_token_def demo_eval)

theorem withdrawals_follow_policy_witness:
  "\<exists>admin w1. signed_by (demo_service calm) demo_start (demo_signed (Withdraw demo_withdrawal)) (replicate 65 0) admin \<and>
     withdrawal_backed (demo_service calm) w1 demo_withdrawal (erc20_call 1 [8] TRANSFER_SELECTOR [3] 1)"
proof -
  have e: "to_eip712 demo_crypto (Withdraw demo_withdrawal) = Inr (SolWithdraw 1 [8] 1 [3])"
    by (simp add: demo_withdrawal_def withdraw_to_eip712_def parse_amount_def demo_crypto_def)
  obtain n t where v: "verified_admin (demo_service calm) (demo_signed (Withdraw demo_withdrawal))
    (replicate 65 0) demo_start = ([], Inr [1], \<lparr>w_store = demo_shared\<lparr>sh_nonces := n\<rparr>, w_tick = t\<rparr>)"
    by (rule demo_verified [OF e])
  obtain evs r w' where run: "handle_request (demo_service calm) (demo_signed (Withdraw demo_withdrawal)) (replicate 65 0) demo_start = (evs, r, w')"
    by (metis prod_cases3)
  have c: "aa_contents (demo_signed (Withdraw demo_withdrawal)) = Withdraw demo_withdrawal" by (simp add: demo_signed_def)
  have "evs = [Sent (erc20_call 1 [8] TRANSFER_SELECTOR [3] 1) None]"
    using request_effects [OF v] by (simp add: run c demo_withdrawal_sends)
  then show ?thesis using withdrawals_follow_policy [OF run c] by auto
qed

definition demo_approval :: approve_contents where
  "demo_approval = \<lparr>ap_chain_id = 0, ap_token_address = ZERO_ADDRESS, ap_spender = [5], ap_amount = ''1''\<rparr>"

lemma demo_approval_sends:
  "fst (handle_approve_tokens (demo_service calm) demo_approval \<lparr>w_store = demo_shared\<lparr>sh_nonces := n\<rparr>, w_tick = t\<rparr>) =
     [Sent (erc20_call 1 [8] APPROVE_SELECTOR [5] 1) None]"
  by (simp add: handle_approve_tokens_def approve_to_eip712_def demo_approval_def reading_def spender_authorized_def
      configured_settlers_by_chain_def affected_chains_def is_all_chains_def is_all_tokens_def chain_settlers_def demo_network_def
      demo_runtime_def ensure_approvals_for_spender_scope_def approval_targets_def chains_in_scope_def in_scope_def
      ensure_token_approval_def submit_approval_def demo_eval)

theorem approvals_only_to_settlers_witness:
  "approval_allowed demo_crypto [(1, demo_network [5])] demo_approval (erc20_call 1 [8] APPROVE_SELECTOR [5] 1)"
proof -
  have e: "to_eip712 demo_crypto (ApproveTokens demo_approval) = Inr (SolApproveTokens 0 ZERO_ADDRESS [5] 1)"
    by (simp add: demo_approval_def approve_to_eip712_def parse_amount_def demo_crypto_def)
  obtain n t where v: "verified_admin (demo_service calm) (demo_signed (ApproveTokens demo_approval))
    (replicate 65 0) demo_start = ([], Inr [1], \<lparr>w_store = demo_shared\<lparr>sh_nonces := n\<rparr>, w_tick = t\<rparr>)"
    by (rule demo_verified [OF e])
  obtain evs r w' where run: "handle_request (demo_service calm) (demo_signed (ApproveTokens demo_approval)) (replicate 65 0) demo_start = (evs, r, w')"
    by (metis prod_cases3)
  have c: "aa_contents (demo_signed (ApproveTokens demo_approval)) = ApproveTokens demo_approval" by (simp add: demo_signed_def)
  have sent: "Sent (erc20_call 1 [8] APPROVE_SELECTOR [5] 1) None \<in> set evs"
    using request_effects [OF v] by (simp add: run c demo_approval_sends)
  have "endures (ae_sched (demo_service calm)) (\<lambda>s. sh_networks s = [(1, demo_network [5])])"
    and "distinct (map fst [(1 :: nat, demo_network [5])])" and "sh_networks (w_store demo_start) = [(1, demo_network [5])]"
    by (simp_all add: demo_service_def endures_def demo_start_def demo_shared_def demo_runtime_def)
  from approvals_only_to_settlers [OF this run c sent] show ?thesis by (simp add: demo_service_def)
qed

section \<open>Where the code falls short\<close>

text \<open>
  The check of the spender and the approvals look at the networks separately.  When a network is added in between, a
  request for all chains approves a spender on a chain of which it is no settler.
\<close>

definition late_network :: "demo_store shared sched" where
  "late_network = \<lparr>interfere = (\<lambda>n s. if n = 1 then s\<lparr>sh_networks := sh_networks s @ [(2, demo_network [6])]\<rparr> else s),
     clock = (\<lambda>_. 50), unix_time = (\<lambda>_. Some 50)\<rparr>"

lemma approvals_race:
  "Sent (erc20_call 2 [8] APPROVE_SELECTOR [5] 1) None \<in> set (fst (handle_approve_tokens (demo_service late_network) demo_approval demo_start))"
  "[5] \<notin> chain_settlers (demo_network [6])"
  by (simp_all add: handle_approve_tokens_def approve_to_eip712_def demo_approval_def reading_def spender_authorized_def
      configured_settlers_by_chain_def affected_chains_def is_all_chains_def is_all_tokens_def chain_settlers_def demo_network_def
      demo_runtime_def ensure_approvals_for_spender_scope_def approval_targets_def chains_in_scope_def in_scope_def
      ensure_token_approval_def submit_approval_def demo_start_def late_network_def demo_eval)

text \<open>
  A configuration that cannot be built is stored all the same: the caller gets an error, and the verifier keeps
  the old whitelist while the store has the new one.
\<close>

lemma unbuildable_config_stored:
  assumes "ae_build K config = Inl e" and "storing K config expected w = ([ConfigStored v], Inr v, w1)" and "vd_data v = config"
  shows "store_admins K config expected w = ([ConfigStored v], Inl (Internal (''Invalid config: '' @ e)), w1)"
  using assms by (simp add: store_admins_def and_then_def building_def lift_result_def)

text \<open>Balances of a single token are read for the EVM account on every chain, whatever the Starknet identity.\<close>

lemma single_balance_ignores_identity:
  "check_balance sc (E\<lparr>ce_starknet_identity := x\<rparr>) chain token = check_balance sc E chain token"
  "check_balance_any sc (E\<lparr>ce_starknet_identity := x\<rparr>) chain token = check_balance_any sc E chain token"
  by (simp_all add: check_balance_any_def check_balance_def asking_address_def)

end
