(* ===== verification/Memory_Interleaving.thy ===== *)
theory Memory_Interleaving
  imports Memory_Storage
begin

text \<open>
  \<^verbatim>\<open>crates/solver-storage/src/implementations/memory.rs\<close> at the granularity of its locks.  A call holds
  the lock of the value store once; what it answers is decided there.  A call that writes then
  releases that lock and brings the secondary index up to date, key by key, each time under the lock
  of the index.  Other tasks run in between, so that a reader can see a value whose index entries
  are not there yet.  \<open>Memory_Storage\<close> has each call as it runs when no other call comes in between.
\<close>

section \<open>Calls in two parts\<close>

datatype 'b mem_call =
    CallGet string
  | CallExists string
  | CallBatch "string list"
  | CallQuery string query_filter
  | CallSet string 'b "storage_indexes option" "nat option"
  | CallDelete string
  | CallSetNx string 'b "nat option"
  | CallSwap string 'b 'b "nat option"
  | CallSwapIndexed string 'b 'b "storage_indexes option" "nat option"
  | CallDeleteIfExists string
  | CallCleanup

datatype 'b mem_answer =
    Bytes "(storage_error, 'b) result"
  | Flag "(storage_error, bool) result"
  | Rows "(storage_error, (string \<times> 'b) list) result"
  | Keys "(storage_error, string list) result"
  | Stored "(storage_error, unit) result"
  | Count "(storage_error, nat) result"

type_synonym refresh = "string \<times> storage_indexes option"

text \<open>The part under the lock of the store: the answer, the new store and the refreshes that follow.\<close>

definition swap_section ::
  "nat \<Rightarrow> 'b memory_storage \<Rightarrow> string \<Rightarrow> 'b \<Rightarrow> 'b \<Rightarrow> nat option \<Rightarrow> refresh list
   \<Rightarrow> 'b mem_answer \<times> (string \<times> 'b storage_entry) list \<times> refresh list" where
  "swap_section now m key expected new_value ttl later =
     (case map_of (ms_store m) key of
        Some entry \<Rightarrow>
          if is_expired now entry then (Flag (Inl (NotFound key)), ms_store m, [])
          else if se_value entry = expected
          then (Flag (Inr True), AList.update key (mk_entry now new_value ttl) (ms_store m), (key, None) # later)
          else (Flag (Inr False), ms_store m, [])
      | None \<Rightarrow> (Flag (Inl (NotFound key)), ms_store m, []))"

fun store_section ::
  "nat \<Rightarrow> 'b mem_call \<Rightarrow> 'b memory_storage \<Rightarrow> 'b mem_answer \<times> (string \<times> 'b storage_entry) list \<times> refresh list" where
  "store_section now (CallGet key) m = (Bytes (memory_get_bytes now m key), ms_store m, [])"
| "store_section now (CallExists key) m = (Flag (memory_exists now m key), ms_store m, [])"
| "store_section now (CallBatch keys) m = (Rows (memory_get_batch now m keys), ms_store m, [])"
| "store_section now (CallQuery namespace flt) m = (Keys (memory_query now m namespace flt), ms_store m, [])"
| "store_section now (CallSet key v flds ttl) m =
     (Stored (Inr ()), AList.update key (mk_entry now v ttl) (ms_store m), [(key, flds)])"
| "store_section now (CallDelete key) m = (Stored (Inr ()), AList.delete key (ms_store m), [(key, None)])"
| "store_section now (CallSetNx key v ttl) m =
     (let write = (Flag (Inr True), AList.update key (mk_entry now v ttl) (ms_store m), [(key, None)])
      in (case map_of (ms_store m) key of
            Some entry \<Rightarrow> if \<not> is_expired now entry then (Flag (Inr False), ms_store m, []) else write
          | None \<Rightarrow> write))"
| "store_section now (CallSwap key expected v ttl) m = swap_section now m key expected v ttl []"
| "store_section now (CallSwapIndexed key expected v flds ttl) m = swap_section now m key expected v ttl [(key, flds)]"
| "store_section now (CallDeleteIfExists key) m =
     (case map_of (ms_store m) key of
        Some entry \<Rightarrow>
          if \<not> is_expired now entry then (Flag (Inr True), AList.delete key (ms_store m), [(key, None)])
          else (Flag (Inr False), AList.delete key (ms_store m), [])
      | None \<Rightarrow> (Flag (Inr False), ms_store m, []))"
| "store_section now CallCleanup m =
     (let before = length (ms_store m);
          expired_keys = map fst (filter (\<lambda>(_, entry). is_expired now entry) (ms_store m));
          store = retain (\<lambda>_ entry. \<not> is_expired now entry) (ms_store m)
      in (Count (Inr (before - length store)), store, map (\<lambda>key. (key, None)) expired_keys))"

definition refresh_all :: "refresh list \<Rightarrow> memory_indexes \<Rightarrow> memory_indexes" where
  "refresh_all rs ix = foldl (\<lambda>ix (key, flds). refresh_memory_indexes ix key flds) ix rs"

definition run_alone :: "nat \<Rightarrow> 'b mem_call \<Rightarrow> 'b memory_storage \<Rightarrow> 'b mem_answer \<times> 'b memory_storage" where
  "run_alone now c m =
     (case store_section now c m of
        (a, store, rs) \<Rightarrow> (a, m\<lparr>ms_store := store, ms_indexes := refresh_all rs (ms_indexes m)\<rparr>))"

text \<open>Without other calls in between, the two parts are the operations of \<open>Memory_Storage\<close>.\<close>

lemma refresh_all_map: "refresh_all (map (\<lambda>key. (key, None)) ks) ix = foldl (\<lambda>ix key. refresh_memory_indexes ix key None) ix ks"
  by (induction ks arbitrary: ix) (simp_all add: refresh_all_def)

lemma refresh_all_simps [simp]:
  "refresh_all [] ix = ix"
  "refresh_all ((key, flds) # rs) ix = refresh_all rs (refresh_memory_indexes ix key flds)"
  by (simp_all add: refresh_all_def)

lemma run_alone_reads:
  "run_alone now (CallGet key) m = (Bytes (memory_get_bytes now m key), m)"
  "run_alone now (CallExists key) m = (Flag (memory_exists now m key), m)"
  "run_alone now (CallBatch keys) m = (Rows (memory_get_batch now m keys), m)"
  "run_alone now (CallQuery namespace flt) m = (Keys (memory_query now m namespace flt), m)"
  by (simp_all add: run_alone_def)

lemma run_alone_writes:
  "run_alone now (CallSet key v flds ttl) m = map_prod Stored id (memory_set_bytes now m key v flds ttl)"
  "run_alone now (CallDelete key) m = map_prod Stored id (memory_delete now m key)"
  "run_alone now (CallSetNx key v ttl) m = map_prod Flag id (memory_set_nx now m key v ttl)"
  "run_alone now (CallSwap key expected v ttl) m = map_prod Flag id (memory_compare_and_swap now m key expected v ttl)"
  "run_alone now (CallSwapIndexed key expected v flds ttl) m =
     map_prod Flag id (memory_compare_and_swap_with_indexes now m key expected v flds ttl)"
  "run_alone now (CallDeleteIfExists key) m = map_prod Flag id (memory_delete_if_exists now m key)"
  "run_alone now CallCleanup m = map_prod Count id (memory_cleanup_expired now m)"
  by (auto simp: run_alone_def swap_section_def memory_op_defs memory_cleanup_expired_def refresh_all_map Let_def
      simp del: map_map split: option.splits)

section \<open>Interleavings\<close>

text \<open>
  The tasks between their two parts are lists of refreshes.  A run is logged in the order in which the calls
  held the lock of the store; an entry also has the keys with a refresh outstanding at that moment and
  the keys the call is going to refresh.
\<close>

record 'b mem_state =
  mr_memory :: "'b memory_storage"
  mr_pending :: "refresh list list"

record 'b mem_event =
  me_now :: nat
  me_call :: "'b mem_call"
  me_answer :: "'b mem_answer"
  me_busy :: "string set"
  me_touched :: "string set"

definition busy :: "'b mem_state \<Rightarrow> string set" where
  "busy st = (\<Union>rs \<in> set (mr_pending st). fst ` set rs)"

inductive mem_run :: "'b memory_storage \<Rightarrow> 'b mem_event list \<Rightarrow> 'b mem_state \<Rightarrow> bool" for m0 where
  start: "mem_run m0 [] \<lparr>mr_memory = m0, mr_pending = []\<rparr>"
| call: "mem_run m0 log st \<Longrightarrow> store_section now c (mr_memory st) = (a, store, rs) \<Longrightarrow>
    mem_run m0 (log @ [\<lparr>me_now = now, me_call = c, me_answer = a, me_busy = busy st, me_touched = fst ` set rs\<rparr>])
      \<lparr>mr_memory = (mr_memory st)\<lparr>ms_store := store\<rparr>, mr_pending = mr_pending st @ [rs]\<rparr>"
| refresh: "mem_run m0 log st \<Longrightarrow> mr_pending st = ps @ ((key, flds) # rs) # qs \<Longrightarrow>
    mem_run m0 log
      \<lparr>mr_memory = (mr_memory st)\<lparr>ms_indexes := refresh_memory_indexes (ms_indexes (mr_memory st)) key flds\<rparr>,
       mr_pending = ps @ rs # qs\<rparr>"

section \<open>The table of rows\<close>

type_synonym 'b table = "string \<rightharpoonup> 'b row"

definition matching :: "nat \<Rightarrow> 'b table \<Rightarrow> string \<Rightarrow> query_filter \<Rightarrow> string set" where
  "matching now T ns flt =
     {k. \<exists>r. T k = Some r \<and> row_live now r \<and> starts_with (ns @ '':'') k \<and> filter_matches flt (row_fields r)}"

fun table_call :: "nat \<Rightarrow> 'b mem_call \<Rightarrow> 'b table \<Rightarrow> 'b mem_answer \<times> 'b table" where
  "table_call now (CallGet key) T = (Bytes (table_get now T key), T)"
| "table_call now (CallExists key) T = (Flag (Inr (is_ok (table_get now T key))), T)"
| "table_call now (CallBatch keys) T =
     (Rows (Inr (List.map_filter (\<lambda>k. case table_get now T k of Inr v \<Rightarrow> Some (k, v) | Inl _ \<Rightarrow> None) keys)), T)"
| "table_call now (CallQuery namespace flt) T = (Keys (Inr (sorted_list_of_set (matching now T namespace flt))), T)"
| "table_call now (CallSet key v flds ttl) T = (Stored (Inr ()), T(key \<mapsto> new_row now v flds ttl))"
| "table_call now (CallDelete key) T = (Stored (Inr ()), T(key := None))"
| "table_call now (CallSetNx key v ttl) T = map_prod Flag id (table_set_nx now T key v ttl)"
| "table_call now (CallSwap key expected v ttl) T = map_prod Flag id (table_cas now T key expected v None ttl)"
| "table_call now (CallSwapIndexed key expected v flds ttl) T = map_prod Flag id (table_cas now T key expected v flds ttl)"
| "table_call now (CallDeleteIfExists key) T = map_prod Flag id (table_delete_if_exists now T key)"
| "table_call now CallCleanup T =
     (Count (Inr (card {k. \<exists>row. T k = Some row \<and> \<not> row_live now row})),
      \<lambda>k. Option.bind (T k) (\<lambda>row. if row_live now row then Some row else None))"

definition table_step :: "'b table \<Rightarrow> 'b mem_event \<Rightarrow> 'b table" where
  "table_step T e = snd (table_call (me_now e) (me_call e) T)"

definition table_after :: "'b table \<Rightarrow> 'b mem_event list \<Rightarrow> 'b table" where
  "table_after T log = foldl table_step T log"

fun is_query :: "'b mem_call \<Rightarrow> bool" where
  "is_query (CallQuery namespace flt) = True"
| "is_query _ = False"

text \<open>What an answer has to do with the table at the moment of the call, for every call and for a query.\<close>

definition value_fits :: "'b table \<Rightarrow> 'b mem_event \<Rightarrow> bool" where
  "value_fits T e \<longleftrightarrow> \<not> is_query (me_call e) \<longrightarrow> me_answer e = fst (table_call (me_now e) (me_call e) T)"

definition query_fits :: "'b table \<Rightarrow> 'b mem_event \<Rightarrow> bool" where
  "query_fits T e \<longleftrightarrow> (\<forall>ns flt. me_call e = CallQuery ns flt \<and> CHR '':'' \<notin> set ns \<longrightarrow>
     (\<exists>keys. me_answer e = Keys (Inr keys) \<and> sorted keys \<and> distinct keys \<and>
        (\<forall>k. k \<notin> me_busy e \<longrightarrow> (k \<in> set keys \<longleftrightarrow> k \<in> matching (me_now e) T ns flt))))"

fun explained :: "('b table \<Rightarrow> 'b mem_event \<Rightarrow> bool) \<Rightarrow> 'b table \<Rightarrow> 'b mem_event list \<Rightarrow> bool" where
  "explained P T [] = True"
| "explained P T (e # es) = (P T e \<and> explained P (table_step T e) es)"

text \<open>No call writes a key while a refresh of that key is outstanding.\<close>

definition orderly :: "'b mem_event list \<Rightarrow> bool" where
  "orderly log \<longleftrightarrow> (\<forall>e \<in> set log. me_touched e \<inter> me_busy e = {})"

lemma table_after_simps [simp]: "table_after T [] = T" "table_after T (log @ [e]) = table_step (table_after T log) e"
  by (simp_all add: table_after_def)

lemma explained_snoc [simp]: "explained P T (log @ [e]) \<longleftrightarrow> explained P T log \<and> P (table_after T log) e"
  by (induction log arbitrary: T) (simp_all add: table_after_def)

lemma orderly_simps [simp]: "orderly []" "orderly (log @ [e]) \<longleftrightarrow> orderly log \<and> me_touched e \<inter> me_busy e = {}"
  by (auto simp: orderly_def)


section \<open>The simulation\<close>

definition same_values :: "(string \<times> 'b storage_entry) list \<Rightarrow> 'b table \<Rightarrow> bool" where
  "same_values store T \<longleftrightarrow>
     (\<forall>k. map_option (\<lambda>r. (row_value r, row_expiry r)) (T k) = map_option (\<lambda>e. (se_value e, se_expires_at e)) (map_of store k))"

lemma same_valuesD:
  assumes "same_values store T"
  shows "map_of store k = None \<longleftrightarrow> T k = None"
    and "map_of store k = Some e \<Longrightarrow> \<exists>fs. T k = Some \<lparr>row_value = se_value e, row_expiry = se_expires_at e, row_fields = fs\<rparr>"
proof -
  have eq: "map_option (\<lambda>r. (row_value r, row_expiry r)) (T k) = map_option (\<lambda>e. (se_value e, se_expires_at e)) (map_of store k)"
    using assms by (simp add: same_values_def)
  then show "map_of store k = None \<longleftrightarrow> T k = None" by (cases "T k"; cases "map_of store k") auto
  assume "map_of store k = Some e"
  with eq obtain r where "T k = Some r" "row_value r = se_value e" "row_expiry r = se_expires_at e" by (cases "T k") auto
  then show "\<exists>fs. T k = Some \<lparr>row_value = se_value e, row_expiry = se_expires_at e, row_fields = fs\<rparr>" by (cases r) auto
qed

lemma same_values_table: "same_values (ms_store m) (memory_table m)"
  by (simp add: same_values_def memory_table_def option.map_comp comp_def)

lemma same_values_update:
  "same_values store T \<Longrightarrow> same_values (AList.update k (mk_entry now v ttl) store) (T(k \<mapsto> new_row now v fs ttl))"
  by (auto simp: same_values_def update_conv' mk_entry_def new_row_def)

lemma same_values_delete: "same_values store T \<Longrightarrow> same_values (AList.delete k store) (T(k := None))"
  by (auto simp: same_values_def delete_conv')

lemma get_same_values: "same_values (ms_store m) T \<Longrightarrow> table_get now T k = memory_get_bytes now m k"
  using same_valuesD [of "ms_store m" T k]
  by (cases "map_of (ms_store m) k") (auto simp: memory_get_bytes_def table_get_def row_live_expired)

lemma live_same_values:
  "same_values (ms_store m) T \<Longrightarrow> (\<exists>r. T k = Some r \<and> row_live now r) \<longleftrightarrow> is_ok (memory_get_bytes now m k)"
  using same_valuesD [of "ms_store m" T k]
  by (cases "map_of (ms_store m) k") (auto simp: memory_get_bytes_def row_live_expired)

lemma batch_same_values:
  fixes m :: "'b memory_storage"
  shows "same_values (ms_store m) T \<Longrightarrow>
   batch_rows now (ms_store m) keys = List.map_filter (\<lambda>k. case table_get now T k of Inr v \<Rightarrow> Some (k, v) | Inl _ \<Rightarrow> None) keys"
proof (induction keys)
  case (Cons k keys)
  then show ?case by (simp add: get_same_values [OF Cons.prems] memory_get_bytes_def split: option.splits)
qed simp

lemma cleanup_same_values:
  assumes "distinct (map fst store)" and "same_values store T"
  shows "length store - length (retain (\<lambda>_ entry. \<not> is_expired now entry) store) = card {k. \<exists>row. T k = Some row \<and> \<not> row_live now row}"
    and "same_values (retain (\<lambda>_ entry. \<not> is_expired now entry) store)
      (\<lambda>k. Option.bind (T k) (\<lambda>row. if row_live now row then Some row else None))"
proof -
  define ks where "ks = map fst (filter (\<lambda>(_, entry). is_expired now entry) store)"
  have look: "(\<exists>row. T k = Some row \<and> \<not> row_live now row) \<longleftrightarrow> (\<exists>e. map_of store k = Some e \<and> is_expired now e)" for k
    using same_valuesD [OF assms(2), of k] by (cases "map_of store k") (auto simp: row_live_expired)
  have "length store - length (retain (\<lambda>_ entry. \<not> is_expired now entry) store) = length ks"
    using sum_length_filter_compl [of "\<lambda>x. is_expired now (snd x)" store]
    unfolding retain_def ks_def case_prod_unfold by simp
  also have "\<dots> = card (set ks)"
    by (rule distinct_card [symmetric]) (simp add: ks_def distinct_map_filter assms(1))
  also have "set ks = {k. \<exists>row. T k = Some row \<and> \<not> row_live now row}"
    unfolding look using assms(1) by (force simp: ks_def)
  finally show "length store - length (retain (\<lambda>_ entry. \<not> is_expired now entry) store) =
    card {k. \<exists>row. T k = Some row \<and> \<not> row_live now row}" .
  show "same_values (retain (\<lambda>_ entry. \<not> is_expired now entry) store)
      (\<lambda>k. Option.bind (T k) (\<lambda>row. if row_live now row then Some row else None))"
    unfolding same_values_def
  proof
    fix k
    show "map_option (\<lambda>r. (row_value r, row_expiry r)) (Option.bind (T k) (\<lambda>row. if row_live now row then Some row else None)) =
      map_option (\<lambda>e. (se_value e, se_expires_at e)) (map_of (retain (\<lambda>_ entry. \<not> is_expired now entry) store) k)"
      using same_valuesD [OF assms(2), of k]
      by (cases "map_of store k") (auto simp: map_of_retain [OF assms(1)] row_live_expired)
  qed
qed

text \<open>A call under the lock of the store does to the values what it does to the table.\<close>

lemma section_simulates:
  assumes "same_values (ms_store m) T" and "distinct (map fst (ms_store m))" and "store_section now c m = (a, store, rs)"
  shows "\<not> is_query c \<longrightarrow> a = fst (table_call now c T)" and "same_values store (snd (table_call now c T))"
    and "distinct (map fst store)"
proof -
  note get = get_same_values [OF assms(1)]
  have "(\<not> is_query c \<longrightarrow> a = fst (table_call now c T)) \<and> same_values store (snd (table_call now c T)) \<and> distinct (map fst store)"
  proof (cases c)
    case (CallBatch keys)
    then show ?thesis using assms by (auto simp: memory_get_batch_def batch_same_values)
  next
    case (CallSetNx key v ttl)
    then show ?thesis using assms live_same_values [OF assms(1), of key now]
      by (cases "map_of (ms_store m) key")
        (auto simp: table_set_nx_def memory_get_bytes_def Let_def same_values_update distinct_update split: if_splits)
  next
    case (CallSwap key expected v ttl)
    then show ?thesis using assms
      by (cases "map_of (ms_store m) key")
        (auto simp: swap_section_def table_cas_def get memory_get_bytes_def same_values_update distinct_update split: if_splits)
  next
    case (CallSwapIndexed key expected v flds ttl)
    then show ?thesis using assms
      by (cases "map_of (ms_store m) key")
        (auto simp: swap_section_def table_cas_def get memory_get_bytes_def same_values_update distinct_update split: if_splits)
  next
    case (CallDeleteIfExists key)
    have "same_values (ms_store m) (T(key := None))" if "map_of (ms_store m) key = None"
      using assms(1) that by (auto simp: same_values_def)
    then show ?thesis using assms CallDeleteIfExists
      by (cases "map_of (ms_store m) key")
        (auto simp: table_delete_if_exists_def get memory_get_bytes_def same_values_delete distinct_delete split: if_splits)
  next
    case CallCleanup
    then show ?thesis using assms cleanup_same_values [OF assms(2,1), of now] by (auto simp: Let_def distinct_keys_retain)
  next
    case (CallExists key)
    then show ?thesis using assms
      by (cases "map_of (ms_store m) key") (auto simp: get memory_exists_def memory_get_bytes_def)
  qed (use assms in \<open>auto simp: get same_values_update same_values_delete distinct_update distinct_delete\<close>)
  then show "\<not> is_query c \<longrightarrow> a = fst (table_call now c T)" "same_values store (snd (table_call now c T))" "distinct (map fst store)"
    by simp_all
qed

text \<open>The fields of a row the call leaves: those of the last refresh of its key, or as they were.\<close>

definition last_refresh :: "refresh list \<Rightarrow> string \<Rightarrow> storage_indexes option" where
  "last_refresh rs k = the (map_of (rev rs) k)"

lemma last_refresh_simps [simp]:
  "last_refresh [(k, fs)] k = fs"
  "last_refresh [x, (k, fs)] k = fs"
  "k \<in> fst ` set rs \<Longrightarrow> last_refresh ((key, fs) # rs) k = last_refresh rs k"
  "k \<notin> fst ` set rs \<Longrightarrow> last_refresh ((k, fs) # rs) k = fs"
proof -
  have "map_of (rev rs) k \<noteq> None" if "k \<in> fst ` set rs" using that by (simp add: map_of_eq_None_iff)
  then show "k \<in> fst ` set rs \<Longrightarrow> last_refresh ((key, fs) # rs) k = last_refresh rs k"
    by (auto simp: last_refresh_def map_add_def split: option.splits)
  have "map_of (rev rs) k = None" if "k \<notin> fst ` set rs" using that by (simp add: map_of_eq_None_iff)
  then show "k \<notin> fst ` set rs \<Longrightarrow> last_refresh ((k, fs) # rs) k = fs"
    by (auto simp: last_refresh_def map_add_def)
qed (simp_all add: last_refresh_def)

lemma section_fields:
  assumes "store_section now c m = (a, store, rs)" and "same_values (ms_store m) T"
    and "distinct (map fst (ms_store m))" and "snd (table_call now c T) k = Some r"
  shows "if k \<in> fst ` set rs then row_fields r = fields_of (last_refresh rs k)
    else \<exists>r0. T k = Some r0 \<and> row_fields r0 = row_fields r"
proof (cases c)
  case (CallSetNx key v ttl)
  then show ?thesis using assms live_same_values [OF assms(2), of key now]
    by (cases "map_of (ms_store m) key")
      (auto simp: table_set_nx_def memory_get_bytes_def Let_def new_row_def split: if_splits)
next
  case (CallSwap key expected v ttl)
  then show ?thesis using assms
    by (cases "map_of (ms_store m) key")
      (auto simp: swap_section_def table_cas_def get_same_values [OF assms(2)] memory_get_bytes_def new_row_def split: if_splits)
next
  case (CallSwapIndexed key expected v flds ttl)
  then show ?thesis using assms
    by (cases "map_of (ms_store m) key")
      (auto simp: swap_section_def table_cas_def get_same_values [OF assms(2)] memory_get_bytes_def new_row_def split: if_splits)
next
  case (CallDeleteIfExists key)
  then show ?thesis using assms
    by (cases "map_of (ms_store m) key") (auto simp: table_delete_if_exists_def split: if_splits)
next
  case CallCleanup
  have live: "T k = Some r \<and> row_live now r"
    using assms(4) CallCleanup by (cases "T k") (auto split: if_splits)
  then have "\<nexists>e. map_of (ms_store m) k = Some e \<and> is_expired now e"
    using live_same_values [OF assms(2), of k now] same_valuesD(2) [OF assms(2), of k] by (auto simp: row_live_expired)
  then have "k \<notin> fst ` set rs" using assms(1,3) CallCleanup by (auto simp: Let_def)
  then show ?thesis using live by simp
qed (use assms in \<open>auto simp: new_row_def split: if_splits\<close>)

section \<open>Index entries\<close>

text \<open>
  In an orderly run the keys of two outstanding tasks are different; the index has the fields of every row whose
  key is not outstanding, and for the others the last refresh brings them.
\<close>

definition settles :: "'b mem_state \<Rightarrow> 'b table \<Rightarrow> bool" where
  "settles st T \<longleftrightarrow>
     sorted_wrt (\<lambda>xs ys. fst ` set xs \<inter> fst ` set ys = {}) (mr_pending st) \<and>
     (\<forall>k r. T k = Some r \<longrightarrow>
        (k \<notin> busy st \<longrightarrow> key_fields (ms_indexes (mr_memory st)) k = row_fields r) \<and>
        (\<forall>rs \<in> set (mr_pending st). k \<in> fst ` set rs \<longrightarrow> fields_of (last_refresh rs k) = row_fields r))"

lemma busy_simps [simp]:
  "busy \<lparr>mr_memory = m, mr_pending = []\<rparr> = {}"
  "busy \<lparr>mr_memory = m, mr_pending = ps @ [rs]\<rparr> = busy \<lparr>mr_memory = m, mr_pending = ps\<rparr> \<union> fst ` set rs"
  by (auto simp: busy_def)

lemma settles_call:
  assumes "settles st T" and "store_section now c (mr_memory st) = (a, store, rs)"
    and "same_values (ms_store (mr_memory st)) T" and "distinct (map fst (ms_store (mr_memory st)))" and "fst ` set rs \<inter> busy st = {}"
  shows "settles \<lparr>mr_memory = (mr_memory st)\<lparr>ms_store := store\<rparr>, mr_pending = mr_pending st @ [rs]\<rparr> (snd (table_call now c T))"
proof -
  let ?st = "\<lparr>mr_memory = (mr_memory st)\<lparr>ms_store := store\<rparr>, mr_pending = mr_pending st @ [rs]\<rparr>"
  have free: "fst ` set qs \<inter> fst ` set rs = {}" if "qs \<in> set (mr_pending st)" for qs
    using assms(5) that by (force simp: busy_def)
  have old: "k \<notin> busy st \<longrightarrow> key_fields (ms_indexes (mr_memory st)) k = row_fields r"
    "\<forall>qs \<in> set (mr_pending st). k \<in> fst ` set qs \<longrightarrow> fields_of (last_refresh qs k) = row_fields r" if "T k = Some r" for k r
    using assms(1) that by (auto simp: settles_def)
  have new: "(k \<notin> busy ?st \<longrightarrow> key_fields (ms_indexes (mr_memory ?st)) k = row_fields r) \<and>
      (\<forall>qs \<in> set (mr_pending ?st). k \<in> fst ` set qs \<longrightarrow> fields_of (last_refresh qs k) = row_fields r)"
    if k: "snd (table_call now c T) k = Some r" for k r
  proof (cases "k \<in> fst ` set rs")
    case True
    then have "row_fields r = fields_of (last_refresh rs k)"
      using section_fields [OF assms(2-4) k] by simp
    then show ?thesis using True free by (auto simp: busy_def)
  next
    case False
    then obtain r0 where "T k = Some r0" "row_fields r0 = row_fields r"
      using section_fields [OF assms(2-4) k] by auto
    then show ?thesis using old [of k r0] False by (auto simp: busy_def)
  qed
  have "sorted_wrt (\<lambda>xs ys. fst ` set xs \<inter> fst ` set ys = {}) (mr_pending ?st)"
    using assms(1) free by (simp add: settles_def sorted_wrt_append)
  then show ?thesis unfolding settles_def using new by blast
qed

lemma settles_refresh:
  assumes "settles st T" and "mr_pending st = ps @ ((key, flds) # rs) # qs" and "index_distinct (ms_indexes (mr_memory st))"
  shows "settles \<lparr>mr_memory = (mr_memory st)\<lparr>ms_indexes := refresh_memory_indexes (ms_indexes (mr_memory st)) key flds\<rparr>,
    mr_pending = ps @ rs # qs\<rparr> T"
proof -
  let ?st = "\<lparr>mr_memory = (mr_memory st)\<lparr>ms_indexes := refresh_memory_indexes (ms_indexes (mr_memory st)) key flds\<rparr>,
    mr_pending = ps @ rs # qs\<rparr>"
  have apart: "sorted_wrt (\<lambda>xs ys. fst ` set xs \<inter> fst ` set ys = {}) (ps @ ((key, flds) # rs) # qs)"
    using assms(1,2) by (simp add: settles_def)
  then have others: "key \<notin> fst ` set xs" if "xs \<in> set ps \<union> set qs" for xs
    using that by (auto simp: sorted_wrt_append)
  have busy: "busy st = insert key (busy ?st)" by (auto simp: busy_def assms(2))
  have new: "(k \<notin> busy ?st \<longrightarrow> key_fields (ms_indexes (mr_memory ?st)) k = row_fields r) \<and>
      (\<forall>xs \<in> set (mr_pending ?st). k \<in> fst ` set xs \<longrightarrow> fields_of (last_refresh xs k) = row_fields r)" if k: "T k = Some r" for k r
  proof -
    have old: "k \<notin> busy st \<Longrightarrow> key_fields (ms_indexes (mr_memory st)) k = row_fields r"
      "xs \<in> set (mr_pending st) \<Longrightarrow> k \<in> fst ` set xs \<Longrightarrow> fields_of (last_refresh xs k) = row_fields r" for xs
      using assms(1) k by (auto simp: settles_def)
    have own: "k = key \<or> k \<in> fst ` set rs \<Longrightarrow> fields_of (last_refresh ((key, flds) # rs) k) = row_fields r"
      by (rule old(2)) (auto simp: assms(2))
    have index: "key_fields (ms_indexes (mr_memory ?st)) k = row_fields r" if "k \<notin> busy ?st"
    proof (cases "k = key")
      case True
      moreover have "key \<notin> fst ` set rs" using that True by (auto simp: busy_def)
      ultimately show ?thesis using own by (simp add: key_fields_refresh [OF assms(3)])
    qed (use that old(1) busy in \<open>simp add: key_fields_refresh [OF assms(3)]\<close>)
    have "fields_of (last_refresh xs k) = row_fields r" if "xs \<in> set (ps @ rs # qs)" "k \<in> fst ` set xs" for xs
    proof (cases "xs = rs")
      case True
      then show ?thesis using own that(2) by simp
    qed (use that old(2) [of xs] assms(2) in auto)
    with index show ?thesis by simp
  qed
  have "sorted_wrt (\<lambda>xs ys. fst ` set xs \<inter> fst ` set ys = {}) (mr_pending ?st)"
    using apart by (auto simp: sorted_wrt_append)
  then show ?thesis unfolding settles_def using new by blast
qed

lemma settled_table:
  assumes "same_values (ms_store (mr_memory st)) T" and "settles st T" and "k \<notin> busy st"
  shows "memory_table (mr_memory st) k = T k"
proof (cases "map_of (ms_store (mr_memory st)) k")
  case None
  then show ?thesis using same_valuesD(1) [OF assms(1), of k] by (simp add: memory_table_def)
next
  case (Some e)
  then obtain fs where T: "T k = Some \<lparr>row_value = se_value e, row_expiry = se_expires_at e, row_fields = fs\<rparr>"
    using same_valuesD(2) [OF assms(1)] by blast
  then have "key_fields (ms_indexes (mr_memory st)) k = fs" using assms(2,3) by (auto simp: settles_def)
  then show ?thesis using Some T by (simp add: memory_table_def)
qed

section \<open>Properties\<close>

lemma memory_ok_store:
  "memory_ok m \<Longrightarrow> distinct (map fst store) \<Longrightarrow> memory_ok (m\<lparr>ms_store := store\<rparr>)"
  by (simp add: memory_ok_def)

lemma run_invariant:
  assumes "mem_run m log st" and "memory_ok m"
  shows "memory_ok (mr_memory st) \<and> explained value_fits (memory_table m) log \<and>
    same_values (ms_store (mr_memory st)) (table_after (memory_table m) log) \<and>
    (orderly log \<longrightarrow> explained query_fits (memory_table m) log \<and> settles st (table_after (memory_table m) log))"
  using assms(1)
proof (induction rule: mem_run.induct)
  case start
  have "settles \<lparr>mr_memory = m, mr_pending = []\<rparr> (memory_table m)" by (auto simp: settles_def memory_table_def)
  then show ?case using assms(2) by (simp add: same_values_table)
next
  case (call log st now c a store rs)
  let ?T = "table_after (memory_table m) log"
  let ?e = "\<lparr>me_now = now, me_call = c, me_answer = a, me_busy = busy st, me_touched = fst ` set rs\<rparr>"
  have ok: "memory_ok (mr_memory st)" and vals: "same_values (ms_store (mr_memory st)) ?T" using call.IH by auto
  note sim = section_simulates [OF vals memory_okD(1) [OF ok] call.hyps(2)]
  have "value_fits ?T ?e" using sim(1) by (simp add: value_fits_def)
  moreover have "query_fits ?T ?e" if "orderly (log @ [?e])"
    unfolding query_fits_def
  proof (intro allI impI)
    fix ns flt assume q: "me_call ?e = CallQuery ns flt \<and> CHR '':'' \<notin> set ns"
    have "settles st ?T" using call.IH that by simp
    then have "memory_table (mr_memory st) k = ?T k" if "k \<notin> busy st" for k using settled_table [OF vals] that by blast
    moreover obtain keys where "memory_query now (mr_memory st) ns flt = Inr keys" "sorted keys" "distinct keys"
      "set keys = matching now (memory_table (mr_memory st)) ns flt"
      using indexed_query_keys_table [OF ok, of ns now flt] q by (auto simp: memory_query_def matching_def indexed_query_keys_def Let_def)
    ultimately show "\<exists>keys. me_answer ?e = Keys (Inr keys) \<and> sorted keys \<and> distinct keys \<and>
        (\<forall>k. k \<notin> me_busy ?e \<longrightarrow> (k \<in> set keys) = (k \<in> matching (me_now ?e) ?T ns flt))"
      using call.hyps(2) q by (auto simp: matching_def)
  qed
  ultimately show ?case
    using call.IH sim(2,3) settles_call [OF _ call.hyps(2) vals memory_okD(1) [OF ok]]
    by (auto simp: memory_ok_store table_step_def)
next
  case (refresh log st ps key flds rs qs)
  let ?T = "table_after (memory_table m) log"
  let ?st = "\<lparr>mr_memory = (mr_memory st)\<lparr>ms_indexes := refresh_memory_indexes (ms_indexes (mr_memory st)) key flds\<rparr>,
    mr_pending = ps @ rs # qs\<rparr>"
  have ok: "memory_ok (mr_memory st)" using refresh.IH by simp
  have "settles ?st ?T" if "orderly log"
    using refresh.IH that settles_refresh [OF _ refresh.hyps(2) memory_okD(2) [OF ok]] by blast
  moreover have "memory_ok (mr_memory ?st)" using ok by (simp add: memory_ok_refresh)
  ultimately show ?case using refresh.IH by simp
qed

text \<open>
  C11: The memory backend is linearisable in its values, and in its index where writes of a key do not overlap.
  Whatever calls of the trait run concurrently, each split at the locks of the source, and whatever order the
  locks are taken in: with the calls ordered as they held the lock of the store, every call other than a query
  answers what one table of rows answers when it is called in that order, and the stored values and
  expiries are those of the table.  If no call writes a key while the index of that key is still being
  brought up to date, then every query in a namespace without a colon returns, sorted and without duplicates, for all
  keys not being brought up to date just then exactly those of the matching live rows of the table, and the
  index agrees with the table for all such keys at the end.
\<close>

theorem memory_linearises:
  assumes "memory_ok m" and "mem_run m log st"
  shows "explained value_fits (memory_table m) log \<and>
    same_values (ms_store (mr_memory st)) (table_after (memory_table m) log) \<and>
    (orderly log \<longrightarrow> explained query_fits (memory_table m) log \<and>
       (\<forall>k. k \<notin> busy st \<longrightarrow> memory_table (mr_memory st) k = table_after (memory_table m) log k))"
  using run_invariant [OF assms(2,1)] settled_table by blast

text \<open>A store and a read that comes before the index has been brought up to date, then a query.\<close>

definition status_of :: "string \<Rightarrow> storage_indexes option" where
  "status_of v = Some [(''status'', JString v)]"

definition set_call :: "nat \<Rightarrow> string \<Rightarrow> nat mem_call" where
  "set_call n v = CallSet ''orders:a'' n (status_of v) None"

definition set_event :: "nat \<Rightarrow> string \<Rightarrow> string set \<Rightarrow> nat mem_event" where
  "set_event n v b = \<lparr>me_now = 0, me_call = set_call n v, me_answer = Stored (Inr ()), me_busy = b, me_touched = {''orders:a''}\<rparr>"

definition stored_at :: "nat \<Rightarrow> memory_indexes \<Rightarrow> nat memory_storage" where
  "stored_at n ix = \<lparr>ms_store = [(''orders:a'', mk_entry 0 n None)], ms_indexes = ix\<rparr>"

lemma set_run:
  assumes "mem_run memory_new log st" and "ms_store (mr_memory st) = [] \<or> (\<exists>i. ms_store (mr_memory st) = [(''orders:a'', mk_entry 0 i None)])"
  shows "mem_run memory_new (log @ [set_event n v (busy st)])
    \<lparr>mr_memory = stored_at n (ms_indexes (mr_memory st)), mr_pending = mr_pending st @ [[(''orders:a'', status_of v)]]\<rparr>"
proof -
  have "store_section 0 (set_call n v) (mr_memory st) =
      (Stored (Inr ()), [(''orders:a'', mk_entry 0 n None)], [(''orders:a'', status_of v)])"
    using assms(2) by (auto simp: set_call_def)
  from mem_run.call [OF assms(1) this] show ?thesis
    by (cases "mr_memory st") (simp add: set_event_def stored_at_def)
qed

definition read_event :: "nat mem_event" where
  "read_event = \<lparr>me_now = 0, me_call = CallGet ''orders:a'', me_answer = Bytes (Inr 1), me_busy = {''orders:a''}, me_touched = {}\<rparr>"

theorem memory_linearises_witness:
  "memory_ok (memory_new :: nat memory_storage) \<and> explained value_fits (memory_table memory_new) [set_event 1 ''created'' {}, read_event] \<and>
   (\<exists>st. mem_run memory_new [set_event 1 ''created'' {}, read_event] st)"
proof -
  let ?st = "\<lparr>mr_memory = stored_at 1 [], mr_pending = [[(''orders:a'', status_of ''created'')]]\<rparr>"
  have "mem_run memory_new [set_event 1 ''created'' {}] ?st"
    using set_run [OF mem_run.start, of 1 "''created''"] by (simp add: memory_new_def busy_def)
  moreover have "store_section 0 (CallGet ''orders:a'') (mr_memory ?st) = (Bytes (Inr 1), ms_store (mr_memory ?st), [])"
    by (simp add: stored_at_def memory_get_bytes_def is_expired_def mk_entry_def)
  ultimately have run: "mem_run memory_new [set_event 1 ''created'' {}, read_event]
      \<lparr>mr_memory = stored_at 1 [], mr_pending = [[(''orders:a'', status_of ''created'')], []]\<rparr>"
    using mem_run.call [of memory_new "[set_event 1 ''created'' {}]" ?st 0 "CallGet ''orders:a''"]
    by (simp add: read_event_def busy_def)
  then show ?thesis using memory_linearises [OF memory_ok_new run] by auto
qed

text \<open>
  Overlapping writes of one key can leave the index of the earlier one behind for good: the value is the
  second, the status it is found under the first.
\<close>

lemma overlapping_writes_mix_index:
  "\<exists>log st. mem_run (memory_new :: nat memory_storage) log st \<and> busy st = {} \<and>
     map_of (ms_store (mr_memory st)) ''orders:a'' = Some (mk_entry 0 2 None) \<and>
     memory_query 0 (mr_memory st) ''orders'' (Equals ''status'' (JString ''created'')) = Inr [''orders:a''] \<and>
     memory_query 0 (mr_memory st) ''orders'' (Equals ''status'' (JString ''failed'')) = Inr []"
proof -
  let ?a = "''orders:a''"
  have one: "mem_run memory_new [set_event 1 ''created'' {}] \<lparr>mr_memory = stored_at 1 [], mr_pending = [[(?a, status_of ''created'')]]\<rparr>"
    using set_run [OF mem_run.start, of 1 "''created''"] by (simp add: memory_new_def busy_def)
  define ix where "ix = refresh_memory_indexes (refresh_memory_indexes [] ?a (status_of ''failed'')) ?a (status_of ''created'')"
  obtain log where "mem_run memory_new log
      \<lparr>mr_memory = stored_at 2 [], mr_pending = [[(?a, status_of ''created'')], [(?a, status_of ''failed'')]]\<rparr>"
    using set_run [OF one, of 2 "''failed''"] by (auto simp: stored_at_def)
  from mem_run.refresh [OF this, of "[[(?a, status_of ''created'')]]" ?a "status_of ''failed''" "[]" "[]"]
  have "mem_run memory_new log
      \<lparr>mr_memory = stored_at 2 (refresh_memory_indexes [] ?a (status_of ''failed'')), mr_pending = [[(?a, status_of ''created'')], []]\<rparr>"
    by (simp add: stored_at_def)
  from mem_run.refresh [OF this, of "[]" ?a "status_of ''created''" "[]" "[[]]"]
  have run: "mem_run memory_new log \<lparr>mr_memory = stored_at 2 ix, mr_pending = [[], []]\<rparr>"
    by (simp add: stored_at_def ix_def)
  have ixd: "index_distinct []" by (simp add: index_distinct_def)
  have keys: "indexed_keys ix ''orders'' ''status'' v = (if v = JString ''created'' then {?a} else {})" for v
  proof -
    have "indexed_keys [] ns f w = {}" for ns f w by (simp add: indexed_keys_def)
    moreover have "namespace_from_key ?a = ''orders''" by code_simp
    ultimately show ?thesis
      by (auto simp: ix_def indexed_keys_refresh [OF index_distinct_refresh [OF ixd]] indexed_keys_refresh [OF ixd]
          status_of_def fields_of_def)
  qed
  have all: "keys_for_namespace 0 (ms_store (stored_at 2 ix)) ''orders'' = {?a}"
    by (simp add: keys_for_namespace_def stored_at_def mk_entry_def is_expired_def starts_with_def)
  show ?thesis
    by (rule exI [of _ log], rule exI, rule conjI [OF run])
      (simp add: busy_def memory_query_def indexed_query_keys_def all, simp add: stored_at_def keys)
qed

text \<open>
  The removal of expired rows can do the same to a fresh row: its key is stored again before the index of the
  expired row is cleared, and the new row is no longer found by the field it was stored with.
\<close>

lemma cleanup_clears_fresh_index:
  assumes "m = \<lparr>ms_store = [(''orders:a'', mk_entry 0 1 (Some 5))], ms_indexes = []\<rparr>"
  shows "\<exists>log st. memory_ok m \<and> mem_run (m :: nat memory_storage) log st \<and> busy st = {} \<and>
     map_of (ms_store (mr_memory st)) ''orders:a'' = Some (mk_entry 9 2 None) \<and>
     memory_query 9 (mr_memory st) ''orders'' (Equals ''status'' (JString ''created'')) = Inr []"
proof -
  let ?a = "''orders:a''" and ?f = "status_of ''created''"
  have ok: "memory_ok m" by (simp add: assms memory_ok_def index_distinct_def index_placed_def indexed_keys_def)
  have ixd: "index_distinct []" by (simp add: index_distinct_def)
  define ix where "ix = refresh_memory_indexes (refresh_memory_indexes [] ?a ?f) ?a None"
  have cleanup: "store_section 9 CallCleanup m = (Count (Inr 1), [], [(?a, None)])"
    by (simp add: assms retain_def is_expired_def mk_entry_def)
  obtain log where "mem_run m log \<lparr>mr_memory = m\<lparr>ms_store := []\<rparr>, mr_pending = [[(?a, None)]]\<rparr>"
    using mem_run.call [OF mem_run.start [of m], of 9 CallCleanup] cleanup by auto
  then obtain log2 where "mem_run m log2
      \<lparr>mr_memory = m\<lparr>ms_store := [(?a, mk_entry 9 2 None)]\<rparr>, mr_pending = [[(?a, None)], [(?a, ?f)]]\<rparr>"
    using mem_run.call [of m log _ 9 "CallSet ?a 2 ?f None"] by fastforce
  from mem_run.refresh [OF this, of "[[(?a, None)]]" ?a ?f "[]" "[]"]
  have "mem_run m log2 \<lparr>mr_memory = \<lparr>ms_store = [(?a, mk_entry 9 2 None)], ms_indexes = refresh_memory_indexes [] ?a ?f\<rparr>,
      mr_pending = [[(?a, None)], []]\<rparr>" by (simp add: assms)
  from mem_run.refresh [OF this, of "[]" ?a None "[]" "[[]]"]
  have run: "mem_run m log2 \<lparr>mr_memory = \<lparr>ms_store = [(?a, mk_entry 9 2 None)], ms_indexes = ix\<rparr>, mr_pending = [[], []]\<rparr>"
    by (simp add: ix_def)
  have keys: "indexed_keys ix ''orders'' ''status'' v = {}" for v
  proof -
    have "indexed_keys [] ns f w = {}" for ns f w by (simp add: indexed_keys_def)
    then show ?thesis
      by (auto simp: ix_def indexed_keys_refresh [OF index_distinct_refresh [OF ixd]] indexed_keys_refresh [OF ixd]
          fields_of_def [of None])
  qed
  show ?thesis
    by (rule exI [of _ log2], rule exI, rule conjI [OF ok], rule conjI [OF run])
      (simp add: busy_def memory_query_def indexed_query_keys_def keys)
qed

end
