(* ===== verification/Spec2Isabelle.thy ===== *)
theory Spec2Isabelle
  imports Bump_Safety Nonce_Manager Intake_Restart Rebalance_Safety Evm_Submit_Safety Evm_Monitor Admin_Safety
    Memory_Interleaving
begin

text \<open>
  \<^bold>\<open>A verification library for the OIF solver.\<close>

  The solver (\<^verbatim>\<open>src/crates\<close>) fills cross-chain orders: it discovers intents, reserves the
  deposits that back them, moves each order through its stages (prepare, fill, post-fill,
  pre-claim, claim) by sending transactions, watches the transactions, replaces stuck ones with
  higher fees, and records everything in a storage service that several tasks and, with a shared
  backend, several processes write to concurrently.

  \<^bold>\<open>Parts and theories.\<close>

  \<^item> \<open>Prelude\<close>: Rust integers (checked, saturating, wrapping), strings, decimal and hexadecimal
    printing and parsing, JSON values, hash and B-tree maps as lists.
  \<^item> \<open>Storage_Interface\<close> (\<^verbatim>\<open>solver-storage/src/lib.rs\<close>): the \<^verbatim>\<open>StorageInterface\<close> trait as a record of
    operations, \<^verbatim>\<open>StorageService\<close>, and the trait's contract as the locale \<open>storage_contract\<close>.
    Other tasks run between storage calls: a \<open>sched\<close> says what they do to the store and what the
    clock reads at each call, so that a theorem for every \<open>sched\<close> covers every interleaving.
  \<^item> \<open>Memory_Storage\<close> (\<^verbatim>\<open>implementations/memory.rs\<close>): the in-memory backend with its secondary index,
    an interpretation of the contract, the refinement of its operations, run alone, to one table of rows
    and what its queries return.  \<open>Memory_Interleaving\<close>: the same calls split at their locks and
    interleaved; linearisable in their values, and in the index where writes of a key do not overlap.  The
    other theories take a call of a backend as one step.  \<open>Indexed_Rows\<close>: rows whose index entries are computed from their contents.
  \<^item> \<open>Compact_Reservations\<close>, \<open>Compact_Intake\<close> (\<^verbatim>\<open>compact_reservations.rs\<close>,
    \<^verbatim>\<open>handlers/compact_reservation.rs\<close>): reservations against deposits; never oversubscribed, granted
    means recorded, all-or-nothing for an order, reserve and release agree on the locks.
  \<^item> \<open>Order_Types\<close>, \<open>Order_State\<close> (\<^verbatim>\<open>solver-types/src/order.rs\<close>, \<^verbatim>\<open>solver-core/src/state/order.rs\<close>): the
    order state machine; stored orders only advance whatever other tasks do, every answer of a
    transition is justified, the outcome of an undisturbed transition is exact, index entries
    agree with the status, and finalizing releases the reservations.
  \<^item> \<open>Nonce_Manager\<close> (\<^verbatim>\<open>solver-delivery/.../evm/nonce.rs\<close>): the nonce cache as a step relation; a
    nonce in flight is handed out again only if the cache was moved back over it.
  \<^item> \<open>Attempt_Types\<close>, \<open>Attempt_Store\<close> (\<^verbatim>\<open>transaction_attempt.rs\<close> of \<^verbatim>\<open>solver-types\<close> and of
    \<^verbatim>\<open>solver-core/src/state\<close>): the ledger of transaction attempts; rows keep their history and the
    recovery queries are exact.
  \<^item> \<open>Delivery_Events\<close> (\<^verbatim>\<open>events.rs\<close>, \<^verbatim>\<open>revert_classifier.rs\<close>): events, errors, the classification of
    reverts and the monitor callback of replacements.
  \<^item> \<open>Bump_Lineage\<close>, \<open>Bump_Config\<close>, \<open>Bump_Service\<close>, \<open>Bump_Safety\<close> (\<^verbatim>\<open>solver-core/src/bump\<close>,
    \<^verbatim>\<open>TxBumpConfig\<close> of \<^verbatim>\<open>solver-config\<close>): the sweeper that replaces stuck transactions, from lineages
    and fee arithmetic to the two phases of a sweep; what a dispatched replacement guarantees and
    what reconciliation leaves.

  \<^item> \<open>Solver_Machine\<close>, \<open>Transaction_Handler\<close>, \<open>Source_Finality\<close>, \<open>Order_Handler\<close>
    (\<^verbatim>\<open>solver-core/src/handlers\<close>, \<^verbatim>\<open>solver-types/src/finality.rs\<close>): what happens when transactions confirm
    or fail and when an order is prepared and filled; a stage starts the next one once and only when
    all its transactions are confirmed, a fill is released only for an order that is backed.

  \<^item> \<open>Settlement_Service\<close>, \<open>Settlement_Handler\<close> (\<^verbatim>\<open>solver-settlement/src/lib.rs\<close>,
    \<^verbatim>\<open>handlers/settlement.rs\<close>, \<^verbatim>\<open>monitoring/settlement.rs\<close>): routing of orders to settlements, oracle
    selection and the stages after a fill; proofs are bound to the order's oracle, no transaction is
    sent for an order that is not ready for it, and the monitor ends near its timeout.

  \<^item> \<open>Recovery_Evidence\<close>, \<open>Recovery\<close> (\<^verbatim>\<open>solver-core/src/recovery\<close>, \<^verbatim>\<open>order_rehydration.rs\<close>): what a restart
    does with open orders.  A terminal outcome always rests on a receipt of a transaction of the order, a log
    about it or its status at the settler; finished orders are closed, and intents without an order are handed back, with the two
    exceptions the theorems show.

  \<^item> \<open>Interop_Address\<close> (\<^verbatim>\<open>standards/eip7930.rs\<close>, \<^verbatim>\<open>utils/conversion.rs\<close> of \<^verbatim>\<open>solver-types\<close>): the byte format
    of interoperable addresses, a bijection, and the paddings of addresses to 32 bytes.
  \<^item> \<open>Settlement_Config\<close> (\<^verbatim>\<open>utils.rs\<close>, \<^verbatim>\<open>admission.rs\<close> of \<^verbatim>\<open>solver-settlement\<close>): what a parsed oracle
    configuration guarantees, and how long before its expiry an order must still be settled.
  \<^item> \<open>Intent_Handler\<close>, \<open>Intake_Restart\<close> (\<^verbatim>\<open>handlers/intent.rs\<close>): from a discovered intent to an order;
    an accepted intent passed the gates in their order and is taken up once while the cache remembers it,
    which a restart after recovery's clean-up undoes.

  \<^item> \<open>Bridge_Threshold\<close>, \<open>Bridge_Transfer\<close>, \<open>Bridge_Monitor\<close>, \<open>Bridge_Rebalance\<close> (\<^verbatim>\<open>solver-bridge/src\<close>:
    \<^verbatim>\<open>threshold.rs\<close>, \<^verbatim>\<open>types.rs\<close>, \<^verbatim>\<open>storage.rs\<close>, \<^verbatim>\<open>lib.rs\<close>, \<^verbatim>\<open>monitor.rs\<close>): the solver's own transfers between
    chains, from the decision to rebalance a pair over the phases of a transfer to the swaps that top up a
    float.  \<open>Bridge_Safety\<close>: over any number of ticks, crashes and operator decisions at most one deposit of a
    transfer can be on its way, and a redemption is never submitted twice.  \<open>Rebalance_Safety\<close>: what a cycle
    may start.

  \<^item> \<open>Evm_Fees\<close> (\<^verbatim>\<open>solver-delivery/.../evm/fees.rs\<close>, \<^verbatim>\<open>op_stack.rs\<close>, the fee parameters of
    \<^verbatim>\<open>solver-delivery/src/lib.rs\<close>): fee policies, their validation at start-up, what is bid for gas and
    which native balance a transaction needs; resolved fees stay within the policy.
  \<^item> \<open>Evm_Submit\<close>, \<open>Evm_Submit_Safety\<close>, \<open>Evm_Monitor\<close> (\<^verbatim>\<open>evm/alloy.rs\<close>): one submission from the preflight
    over nonce, ledger row, signature and raw send to the retry and the release of nonces, and the task that
    follows the transaction.  A submission is at most once and truthful, what it sends is in the ledger first,
    it gives back only nonces it took and did not use; a failure is reported only for a reverted receipt.
    The submission is a run whose every await has an answer of its own and lets other tasks change the caches;
    \<open>logs\<close> is the program logic over the history of what a run did.

  \<^item> \<open>Admin_Store\<close> (\<^verbatim>\<open>nonce_store.rs\<close>, \<^verbatim>\<open>config_store.rs\<close> of \<^verbatim>\<open>solver-storage\<close>, \<^verbatim>\<open>versioned.rs\<close>): single-use
    nonces and the versioned operator configuration, over the locale \<open>atomic_storage\<close>; updates of the
    configuration are not lost as long as nobody deletes and seeds it again.
  \<^item> \<open>Admin_Auth\<close> (\<^verbatim>\<open>solver-service/src/auth/admin\<close>, the roles of \<^verbatim>\<open>auth.rs\<close> and \<^verbatim>\<open>operator_config.rs\<close>): what an
    administrator signs and how a request is verified.  A nonce authorises one action under every
    interleaving of concurrent verifications, and a digest is bound to the solver and its chain.
  \<^item> \<open>Token_Manager\<close> (\<^verbatim>\<open>engine/token_manager.rs\<close>), \<open>Admin_Api\<close> (\<^verbatim>\<open>apis/admin.rs\<close> and the settings of
    \<^verbatim>\<open>apis/rebalance.rs\<close>): approvals, balances and withdrawals of the solver's tokens, and the handlers that
    change its configuration or move its money (the two requests that start and resolve bridge transfers are a
    parameter there).  \<open>Admin_Safety\<close>: the stored configuration stays within
    its limits and keeps an administrator, withdrawals and approvals follow the policy that was read; and where
    the code falls short of that.  The hash functions, signature recovery and the building of the
    runtime configuration are parameters; the texts of the answers are left out.

  \<^bold>\<open>Conventions.\<close>  A struct is a record, an enum a datatype, \<^verbatim>\<open>Result\<close> a sum with the error on the
  left; integers are natural numbers with the bound of their type written where an operation can
  leave it.  Code that is not in the repository is a parameter: \<^verbatim>\<open>serde_json\<close> is a \<open>codec\<close>, hex
  encoding a function, chain and price reads are fields of a record.  Log output is left out.

  \<^bold>\<open>Bounds.\<close>  The retry loops are recursions on the retry constants of the source
  (\<open>CAS_MAX_RETRIES\<close>, \<open>ROLLBACK_MAX_ATTEMPTS\<close>, \<open>ORDER_CAS_MAX_RETRIES\<close>), so they need no fuel.  The
  traversal of a lineage is a partial function; it is proved to end when ids are distinct.  The polling
  for a confirmation is one too, proved to end when the clock reaches the deadline, and so is the settlement
  monitor, proved to end within its timeout and a poll interval.

  \<^bold>\<open>Not modelled.\<close>  Task wiring and timers of the engine, RPC and HTTP clients, ABI encoding, key
  management, the file and Redis servers, quotes and prices, discovery of intents, the views of the admin API,
  the command line tools.
\<close>

end
